(* ===== verification/Go_Prelude.thy ===== *)
theory Go_Prelude
  imports Main "HOL-Library.Char_ord" "HOL-Library.List_Lexorder" "HOL-Library.Product_Lexorder"
    "HOL-Library.Multiset"
begin

text \<open>
  Shared vocabulary of the development: what the Go sources use of the language and of its
  standard library (\<^verbatim>\<open>time\<close>, \<^verbatim>\<open>strings\<close>, \<^verbatim>\<open>encoding/hex\<close>, \<^verbatim>\<open>sort\<close>, integer division), and
  the generic facts on lists, filters, sums and sorting that the component theories share.

  A \<^verbatim>\<open>time.Time\<close> is the number of nanoseconds since Go's zero instant, so \<^verbatim>\<open>IsZero\<close> is
  equality with \<open>0\<close>; a \<^verbatim>\<open>time.Duration\<close> is a number of nanoseconds. \<^verbatim>\<open>Time.Sub\<close> saturates at
  the range of a signed 64-bit duration, as the library documents. A \<^verbatim>\<open>*time.Time\<close> is an
  \<open>option\<close>. A Go \<^verbatim>\<open>int\<close> is an \<open>int\<close>; the weights, counters and capacities that
  the code adds up are far below \<open>2 ^ 63\<close>. Text is a list of bytes; \<^verbatim>\<open>ToLower\<close> and
  \<^verbatim>\<open>TrimSpace\<close> are modelled on ASCII text.
\<close>

named_theorems weight_simps \<open>equations that evaluate class weights and charged weights\<close>
named_theorems selector_simps \<open>equations and bounds of the queue selectors\<close>
named_theorems frame_simps \<open>what an operation leaves unchanged\<close>


section \<open>Time\<close>

type_synonym time = int
type_synonym duration = int

definition max_duration :: duration where
  "max_duration = 2 ^ 63 - 1"

definition min_duration :: duration where
  "min_duration = - (2 ^ 63)"

definition time_sub :: "time \<Rightarrow> time \<Rightarrow> duration" where
  "time_sub t u = max min_duration (min max_duration (t - u))"

abbreviation (input) nanoseconds_per_second :: int where
  "nanoseconds_per_second \<equiv> 1000000000"

definition seconds :: "int \<Rightarrow> duration" where
  "seconds n = n * 1000000000"

definition milliseconds :: "int \<Rightarrow> duration" where
  "milliseconds n = n * 1000000"

definition IsZero :: "time \<Rightarrow> bool" where
  "IsZero t \<longleftrightarrow> t = 0"

lemma time_sub_ge_iff:
  "min_duration < d \<Longrightarrow> d \<le> max_duration \<Longrightarrow> d \<le> time_sub t u \<longleftrightarrow> d \<le> t - u"
  by (auto simp: time_sub_def)

lemma time_sub_le_iff:
  "min_duration \<le> d \<Longrightarrow> d < max_duration \<Longrightarrow> time_sub t u \<le> d \<longleftrightarrow> t - u \<le> d"
  by (auto simp: time_sub_def)

lemma time_sub_less_iff:
  "min_duration < d \<Longrightarrow> d \<le> max_duration \<Longrightarrow> time_sub t u < d \<longleftrightarrow> t - u < d"
  using time_sub_ge_iff [of d t u] by linarith

lemma time_sub_range: "min_duration \<le> time_sub t u" "time_sub t u \<le> max_duration"
  by (auto simp: time_sub_def min_duration_def max_duration_def)

lemma time_sub_exact:
  "min_duration \<le> t - u \<Longrightarrow> t - u \<le> max_duration \<Longrightarrow> time_sub t u = t - u"
  by (auto simp: time_sub_def)

lemma time_sub_mono: "t \<le> t' \<Longrightarrow> time_sub t u \<le> time_sub t' u"
  by (auto simp: time_sub_def)

lemma time_sub_self [simp]: "time_sub t t = 0"
  by (simp add: time_sub_def min_duration_def max_duration_def)


section \<open>Integers and text\<close>

text \<open>Go's integer division truncates towards zero.\<close>

definition go_div :: "int \<Rightarrow> int \<Rightarrow> int" where
  "go_div a b = sgn a * sgn b * (\<bar>a\<bar> div \<bar>b\<bar>)"

lemma go_div_nonneg [simp]: "0 \<le> a \<Longrightarrow> 0 < b \<Longrightarrow> go_div a b = a div b"
  by (cases "a = 0") (auto simp: go_div_def)

text \<open>
  The recurring statement \<^verbatim>\<open>if x == 0 { x = d }\<close>, which gives an unset field its default.
\<close>

definition or_default :: "'a :: zero \<Rightarrow> 'a \<Rightarrow> 'a" where
  "or_default x d = (if x = 0 then d else x)"

lemma or_default_zero [simp]: "or_default 0 d = d"
  by (simp add: or_default_def)

lemma or_default_set [simp]: "x \<noteq> 0 \<Longrightarrow> or_default x d = x"
  by (simp add: or_default_def)

lemma or_default_idem [simp]: "or_default (or_default x d) d = or_default x d"
  by (simp add: or_default_def)

lemma or_default_nonzero [simp]: "d \<noteq> 0 \<Longrightarrow> or_default x d \<noteq> 0"
  by (simp add: or_default_def)

lemma max_one_nonzero [simp]: "max 1 x \<noteq> (0 :: int)"
  by auto

definition is_space :: "char \<Rightarrow> bool" where
  "is_space c \<longleftrightarrow> of_char c \<in> {9 :: nat, 10, 11, 12, 13, 32}"

definition TrimSpace :: "string \<Rightarrow> string" where
  "TrimSpace s = rev (dropWhile is_space (rev (dropWhile is_space s)))"

lemma dropWhile_prefix_id:
  assumes "dropWhile P s = u" shows "dropWhile P (rev (dropWhile P (rev u))) = rev (dropWhile P (rev u))"
proof (cases "rev (dropWhile P (rev u))")
  case Nil
  then show ?thesis by (simp only: dropWhile.simps)
next
  case (Cons a w)
  have "rev u = takeWhile P (rev u) @ rev (a # w)"
    by (metis Cons rev_rev_ident takeWhile_dropWhile_id)
  then have "u = (a # w) @ rev (takeWhile P (rev u))"
    by (metis rev_append rev_rev_ident)
  then have "u \<noteq> []" "hd u = a" by (metis append_Cons list.distinct(1), metis append_Cons list.sel(1))
  with assms hd_dropWhile [of P s] have "\<not> P a" by auto
  with Cons show ?thesis by simp
qed

lemma TrimSpace_idem [simp]: "TrimSpace (TrimSpace s) = TrimSpace s"
  by (simp add: TrimSpace_def dropWhile_prefix_id [OF refl] dropWhile_idem)
definition lower_char :: "char \<Rightarrow> char" where
  "lower_char c = (if 65 \<le> (of_char c :: nat) \<and> (of_char c :: nat) \<le> 90
     then char_of ((of_char c :: nat) + 32) else c)"

definition ToLower :: "string \<Rightarrow> string" where
  "ToLower s = map lower_char s"

text \<open>\<^verbatim>\<open>strings.Fields\<close> and \<^verbatim>\<open>strings.Join\<close> with one blank.\<close>

fun split_space :: "string \<Rightarrow> string list" where
  "split_space [] = [[]]"
| "split_space (c # cs) =
     (if is_space c then [] # split_space cs
      else (case split_space cs of [] \<Rightarrow> [[c]] | w # ws \<Rightarrow> (c # w) # ws))"

definition Fields :: "string \<Rightarrow> string list" where
  "Fields s = filter (\<lambda>w. w \<noteq> []) (split_space s)"

fun join_blank :: "string list \<Rightarrow> string" where
  "join_blank [] = []"
| "join_blank [w] = w"
| "join_blank (w # v # ws) = w @ CHR '' '' # join_blank (v # ws)"

text \<open>
  A run of guards \<^verbatim>\<open>if cond { return err }\<close>: the error of the first guard that holds.
\<close>

fun first_error :: "(bool \<times> 'e) list \<Rightarrow> 'e option" where
  "first_error [] = None"
| "first_error ((bad, e) # rest) = (if bad then Some e else first_error rest)"

lemma first_error_None [simp]: "first_error gs = None \<longleftrightarrow> list_all (\<lambda>g. \<not> fst g) gs"
  by (induction gs rule: first_error.induct) auto

definition is_hex_char :: "char \<Rightarrow> bool" where
  "is_hex_char c \<longleftrightarrow>
     (let n = (of_char c :: nat) in
      (48 \<le> n \<and> n \<le> 57) \<or> (97 \<le> n \<and> n \<le> 102) \<or> (65 \<le> n \<and> n \<le> 70))"

text \<open>
  \<^verbatim>\<open>hex.DecodeString\<close> succeeds exactly on an even number of hexadecimal digits; the decoded
  value has half as many bytes.
\<close>

definition hex_decodes :: "string \<Rightarrow> bool" where
  "hex_decodes s \<longleftrightarrow> even (length s) \<and> list_all is_hex_char s"

text \<open>Models \<^verbatim>\<open>validPrivateID\<close> (workevent.go).\<close>

definition validPrivateID :: "string \<Rightarrow> bool" where
  "validPrivateID s \<longleftrightarrow> hex_decodes s \<and> length s div 2 = 16 \<and> s = ToLower s"

lemma validPrivateID_length: "validPrivateID s \<Longrightarrow> length s = 32"
  by (auto simp: validPrivateID_def hex_decodes_def)

lemma validPrivateID_nonempty: "validPrivateID s \<Longrightarrow> s \<noteq> []"
  using validPrivateID_length by fastforce


section \<open>Lists\<close>

lemma sum_list_filter_le:
  fixes f :: "'a \<Rightarrow> int"
  assumes "\<And>x. x \<in> set xs \<Longrightarrow> 0 \<le> f x"
  shows "sum_list (map f (filter P xs)) \<le> sum_list (map f xs)"
  using assms
proof (induction xs)
  case Nil
  then show ?case by simp
next
  case (Cons x xs)
  then have "sum_list (map f (filter P xs)) \<le> sum_list (map f xs)" and "0 \<le> f x"
    by auto
  then show ?case by simp
qed

lemma sum_list_nonneg_map:
  fixes f :: "'a \<Rightarrow> int"
  shows "(\<And>x. x \<in> set xs \<Longrightarrow> 0 \<le> f x) \<Longrightarrow> 0 \<le> sum_list (map f xs)"
  by (induction xs) auto

lemma filter_neq_key_unique:
  "distinct (map f xs) \<Longrightarrow> x \<in> set xs \<Longrightarrow>
     mset xs = add_mset x (mset (filter (\<lambda>y. f y \<noteq> f x) xs))"
proof (induction xs)
  case Nil
  then show ?case by simp
next
  case (Cons a xs)
  show ?case
  proof (cases "a = x")
    case True
    with Cons.prems have "\<forall>y \<in> set xs. f y \<noteq> f x" by (auto simp: image_iff)
    then have "filter (\<lambda>y. f y \<noteq> f x) xs = xs" by (simp add: filter_id_conv)
    with True show ?thesis by simp
  next
    case False
    with Cons.prems have "x \<in> set xs" and "f a \<noteq> f x" by (auto simp: image_iff)
    with Cons show ?thesis by simp
  qed
qed

text \<open>
  \<^verbatim>\<open>sort.Slice\<close> is not stable. Where the compared keys are distinct the sorted permutation is
  unique, so \<open>sort_key\<close> is what it computes.
\<close>

lemma sorted_permutation_unique:
  fixes k :: "'a \<Rightarrow> 'b :: linorder"
  assumes "mset ys = mset xs" and "sorted (map k ys)" and "distinct (map k xs)"
  shows "ys = sort_key k xs"
proof -
  have "inj_on k (set xs)"
    using assms(3) by (simp add: distinct_map)
  with assms(1,2) show ?thesis
    by (metis sort_key_inj_key_eq)
qed

lemma sorted_sort_key_map: "sorted (map k (sort_key k xs))"
  by (rule sorted_sort_key)

lemma sum_list_sort_key [simp]:
  fixes f :: "'a \<Rightarrow> int"
  shows "sum_list (map f (sort_key k xs)) = sum_list (map f xs)"
  by (metis mset_map mset_sort sum_mset_sum_list)

end
