(* ===== verification/Work_Limits.thy ===== *)
theory Work_Limits
  imports Go_Prelude Complex_Main
begin

text \<open>
  The weighted host-wide semaphore's configuration: the work classes and their weights
  (\<^verbatim>\<open>sessionpressure/worklease.go\<close>), the shipped defaults for a host, the reconciliation of
  the fast-lane bounds and the normalisation that every reader of a \<^verbatim>\<open>WorkLimits\<close> applies
  (\<^verbatim>\<open>sessionpressure/policy.go\<close>). \<^verbatim>\<open>runtime.NumCPU()\<close> is the argument \<open>ncpu\<close>.
  Percentages, which Go keeps as finite floats and only compares here, are rationals.
\<close>

section \<open>Work classes\<close>

text \<open>
  A Go \<^verbatim>\<open>WorkClass\<close> is a string. The eleven published classes are constructors; every other
  string, which a decoded state document can hold, is \<open>UnknownClass\<close> of it.
\<close>

datatype WorkClass =
    WorkClassTest
  | WorkClassBuild
  | WorkClassExpressTest
  | WorkClassExpressBuild
  | WorkClassInstall
  | WorkClassEmulator
  | WorkClassBrowser
  | WorkClassHeavy
  | WorkClassBenchmark
  | WorkClassBenchmarkExclusive
  | WorkClassReclaim
  | UnknownClass string

fun class_name :: "WorkClass \<Rightarrow> string" where
  "class_name WorkClassTest = ''test''"
| "class_name WorkClassBuild = ''build''"
| "class_name WorkClassExpressTest = ''express-test''"
| "class_name WorkClassExpressBuild = ''express-build''"
| "class_name WorkClassInstall = ''install''"
| "class_name WorkClassEmulator = ''emulator''"
| "class_name WorkClassBrowser = ''browser''"
| "class_name WorkClassHeavy = ''heavy''"
| "class_name WorkClassBenchmark = ''benchmark''"
| "class_name WorkClassBenchmarkExclusive = ''benchmark-exclusive''"
| "class_name WorkClassReclaim = ''reclaim''"
| "class_name (UnknownClass s) = s"

definition AllWorkClasses :: "WorkClass list" where
  "AllWorkClasses =
     [WorkClassExpressTest, WorkClassTest, WorkClassExpressBuild, WorkClassBuild,
      WorkClassInstall, WorkClassBrowser, WorkClassEmulator, WorkClassHeavy, WorkClassBenchmark,
      WorkClassBenchmarkExclusive, WorkClassReclaim]"

definition ParseWorkClass :: "string \<Rightarrow> WorkClass option" where
  "ParseWorkClass value =
     (let s = ToLower (TrimSpace value) in
      find (\<lambda>c. class_name c = s)
        [WorkClassTest, WorkClassBuild, WorkClassExpressTest, WorkClassExpressBuild,
         WorkClassInstall, WorkClassEmulator, WorkClassBrowser, WorkClassHeavy, WorkClassBenchmark,
         WorkClassBenchmarkExclusive, WorkClassReclaim])"

definition IsExpressClass :: "WorkClass \<Rightarrow> bool" where
  "IsExpressClass c \<longleftrightarrow> c = WorkClassExpressTest \<or> c = WorkClassExpressBuild"


section \<open>Limits\<close>

definition WorkSchedulingPolicy :: string where
  "WorkSchedulingPolicy = ''bounded-lookahead-v1''"

definition WorkSchedulingPolicyFIFO :: string where
  "WorkSchedulingPolicyFIFO = ''fifo-v1''"

record WorkLimits =
  SchedulingPolicy :: string
  Capacity :: int
  WarningCapacity :: int
  WarningCapacityEnabled :: bool
  SwapThrashCapacity :: int
  SwapThrashExternalReleaseSeconds :: int
  SwapThrashAgentSharePercent :: int
  IdleParkSeconds :: int
  TestWeight :: int
  BuildWeight :: int
  ExpressTestWeight :: int
  ExpressBuildWeight :: int
  EmulatorWeight :: int
  BrowserWeight :: int
  HeavyWeight :: int
  BenchmarkWeight :: int
  InstallWeight :: int
  ReclaimWeight :: int
  CPUBlockSamples :: int
  CPUReleaseSamples :: int
  CPUReleasePercent :: rat
  FastLaneEnabled :: bool
  FastLaneMaxWeight :: int
  FastLaneMaxRuntimeMS :: int
  FastLaneCoordinatedCPUCeilingPct :: rat
  FastLaneDefaultsRevision :: int

definition fastLaneDefaultsRevision :: int where
  "fastLaneDefaultsRevision = 2"

definition fastLaneDefaultsOperatorRevision :: int where
  "fastLaneDefaultsOperatorRevision = 1000000"

definition defaultExpressTestWeight :: int where
  "defaultExpressTestWeight = 1"

definition defaultExpressBuildWeight :: int where
  "defaultExpressBuildWeight = 2"

definition defaultIdleParkSeconds :: int where
  "defaultIdleParkSeconds = 120"

definition defaultSwapThrashExternalReleaseSeconds :: int where
  "defaultSwapThrashExternalReleaseSeconds = 300"

definition defaultSwapThrashAgentSharePercent :: int where
  "defaultSwapThrashAgentSharePercent = 25"

lemmas limit_constants =
  fastLaneDefaultsRevision_def fastLaneDefaultsOperatorRevision_def defaultExpressTestWeight_def
  defaultExpressBuildWeight_def defaultIdleParkSeconds_def
  defaultSwapThrashExternalReleaseSeconds_def defaultSwapThrashAgentSharePercent_def

text \<open>
  The local variables of \<^verbatim>\<open>defaultWorkLimits\<close>: capacity, express-test, express-build, test,
  build and benchmark weights. Each Go statement that reassigns one of them is a \<open>let\<close> of the
  same name.
\<close>

definition defaultWeights :: "int \<Rightarrow> int \<times> int \<times> int \<times> int \<times> int \<times> int" where
  "defaultWeights logicalCPUCount =
     (let capacity = max 2 (logicalCPUCount - 2);
          expressTest = min defaultExpressTestWeight capacity;
          expressBuild = min defaultExpressBuildWeight capacity;
          testWeight = max 1 (go_div (capacity + 2) 3);
          buildWeight = max 1 (go_div (capacity + 2) 2);
          testWeight = (if testWeight \<le> expressTest then expressTest + 1 else testWeight);
          buildWeight = (if buildWeight \<le> expressBuild then expressBuild + 1 else buildWeight);
          capacity = (if capacity < testWeight then testWeight else capacity);
          capacity = (if capacity < buildWeight then buildWeight else capacity);
          benchmark = max 1 (capacity - expressBuild);
          capacity = (if capacity < benchmark + expressTest then benchmark + expressTest else capacity)
      in (capacity, expressTest, expressBuild, testWeight, buildWeight, benchmark))"

definition defaultWorkLimits :: "int \<Rightarrow> WorkLimits" where
  "defaultWorkLimits logicalCPUCount =
     (case defaultWeights logicalCPUCount of
        (capacity, expressTest, expressBuild, testWeight, buildWeight, benchmark) \<Rightarrow>
        \<lparr> SchedulingPolicy = WorkSchedulingPolicy,
          Capacity = capacity,
          WarningCapacity = max 1 (go_div capacity 2),
          WarningCapacityEnabled = True,
          SwapThrashCapacity = min capacity buildWeight,
          SwapThrashExternalReleaseSeconds = defaultSwapThrashExternalReleaseSeconds,
          SwapThrashAgentSharePercent = defaultSwapThrashAgentSharePercent,
          IdleParkSeconds = defaultIdleParkSeconds,
          TestWeight = testWeight,
          BuildWeight = buildWeight,
          ExpressTestWeight = expressTest,
          ExpressBuildWeight = expressBuild,
          EmulatorWeight = max 1 (go_div (capacity * 5 + 7) 8),
          BrowserWeight = max 1 (go_div (capacity + 3) 4),
          HeavyWeight = max 1 (go_div (capacity * 3 + 3) 4),
          BenchmarkWeight = benchmark,
          InstallWeight = 1,
          ReclaimWeight = 1,
          CPUBlockSamples = 2,
          CPUReleaseSamples = 2,
          CPUReleasePercent = 80,
          FastLaneEnabled = True,
          FastLaneMaxWeight = max 1 (min expressBuild (go_div capacity 4)),
          FastLaneMaxRuntimeMS = 120000,
          FastLaneCoordinatedCPUCeilingPct = 50,
          FastLaneDefaultsRevision = fastLaneDefaultsRevision \<rparr>)"

definition fastLaneUnopinionated :: "WorkLimits \<Rightarrow> bool" where
  "fastLaneUnopinionated limits \<longleftrightarrow>
     FastLaneMaxWeight limits = 0 \<and> FastLaneMaxRuntimeMS limits = 0 \<and>
     FastLaneCoordinatedCPUCeilingPct limits = 0 \<and> \<not> FastLaneEnabled limits"

definition reconcileFastLaneDefaults :: "WorkLimits \<Rightarrow> WorkLimits \<Rightarrow> WorkLimits" where
  "reconcileFastLaneDefaults limits defaults =
     (if fastLaneUnopinionated limits then
        limits\<lparr> FastLaneEnabled := FastLaneEnabled defaults,
                FastLaneMaxWeight := FastLaneMaxWeight defaults,
                FastLaneMaxRuntimeMS := FastLaneMaxRuntimeMS defaults,
                FastLaneCoordinatedCPUCeilingPct := FastLaneCoordinatedCPUCeilingPct defaults,
                FastLaneDefaultsRevision := FastLaneDefaultsRevision defaults \<rparr>
      else if 0 < FastLaneDefaultsRevision limits \<and>
              FastLaneDefaultsRevision limits < FastLaneDefaultsRevision defaults then
        limits\<lparr> FastLaneMaxWeight := FastLaneMaxWeight defaults,
                FastLaneMaxRuntimeMS := FastLaneMaxRuntimeMS defaults,
                FastLaneCoordinatedCPUCeilingPct := FastLaneCoordinatedCPUCeilingPct defaults,
                FastLaneDefaultsRevision := FastLaneDefaultsRevision defaults \<rparr>
      else
        limits\<lparr> FastLaneMaxWeight := or_default (FastLaneMaxWeight limits) (FastLaneMaxWeight defaults),
                FastLaneMaxRuntimeMS :=
                  or_default (FastLaneMaxRuntimeMS limits) (FastLaneMaxRuntimeMS defaults),
                FastLaneCoordinatedCPUCeilingPct :=
                  or_default (FastLaneCoordinatedCPUCeilingPct limits)
                    (FastLaneCoordinatedCPUCeilingPct defaults),
                FastLaneDefaultsRevision :=
                  or_default (FastLaneDefaultsRevision limits) fastLaneDefaultsOperatorRevision \<rparr>)"

text \<open>
  The zero-valued fields that \<^verbatim>\<open>normalizeWorkLimits\<close> fills, in the order of its statements:
  the benchmark weight reads the express-build weight and the thrash ceiling reads the build
  weight after those have been filled.
\<close>

definition fillWorkLimits :: "WorkLimits \<Rightarrow> WorkLimits" where
  "fillWorkLimits limits =
     (let cap = Capacity limits;
          build = or_default (BuildWeight limits) (max 1 (go_div (cap + 2) 2));
          expressBuild = or_default (ExpressBuildWeight limits) (min defaultExpressBuildWeight cap)
      in limits\<lparr>
           TestWeight := or_default (TestWeight limits) (max 1 (go_div (cap + 2) 3)),
           WarningCapacity := or_default (WarningCapacity limits) (max 1 (go_div cap 2)),
           BuildWeight := build,
           ExpressTestWeight :=
             or_default (ExpressTestWeight limits) (min defaultExpressTestWeight cap),
           ExpressBuildWeight := expressBuild,
           BenchmarkWeight := or_default (BenchmarkWeight limits) (max 1 (cap - expressBuild)),
           SchedulingPolicy := (if SchedulingPolicy limits = [] then WorkSchedulingPolicy
                                else SchedulingPolicy limits),
           CPUBlockSamples := or_default (CPUBlockSamples limits) 2,
           CPUReleaseSamples := or_default (CPUReleaseSamples limits) 2,
           CPUReleasePercent := or_default (CPUReleasePercent limits) 80,
           InstallWeight := or_default (InstallWeight limits) 1,
           ReclaimWeight := or_default (ReclaimWeight limits) 1,
           SwapThrashCapacity := or_default (SwapThrashCapacity limits) (min cap build),
           SwapThrashExternalReleaseSeconds :=
             or_default (SwapThrashExternalReleaseSeconds limits)
               defaultSwapThrashExternalReleaseSeconds,
           SwapThrashAgentSharePercent :=
             or_default (SwapThrashAgentSharePercent limits) defaultSwapThrashAgentSharePercent,
           IdleParkSeconds := or_default (IdleParkSeconds limits) defaultIdleParkSeconds \<rparr>)"

definition normalizeWorkLimits :: "int \<Rightarrow> WorkLimits \<Rightarrow> WorkLimits" where
  "normalizeWorkLimits ncpu limits =
     (if Capacity limits \<le> 0 then defaultWorkLimits ncpu
      else reconcileFastLaneDefaults (fillWorkLimits limits) (defaultWorkLimits ncpu))"

text \<open>\<open>class_weight\<close> is the switch of \<^verbatim>\<open>WorkLimits.Weight\<close> on limits already normalised.\<close>

fun class_weight :: "WorkLimits \<Rightarrow> WorkClass \<Rightarrow> int option" where
  "class_weight l WorkClassTest = Some (TestWeight l)"
| "class_weight l WorkClassBuild = Some (BuildWeight l)"
| "class_weight l WorkClassExpressTest = Some (ExpressTestWeight l)"
| "class_weight l WorkClassExpressBuild = Some (ExpressBuildWeight l)"
| "class_weight l WorkClassEmulator = Some (EmulatorWeight l)"
| "class_weight l WorkClassBrowser = Some (BrowserWeight l)"
| "class_weight l WorkClassHeavy = Some (HeavyWeight l)"
| "class_weight l WorkClassBenchmark = Some (BenchmarkWeight l)"
| "class_weight l WorkClassBenchmarkExclusive = Some (Capacity l)"
| "class_weight l WorkClassInstall = Some (InstallWeight l)"
| "class_weight l WorkClassReclaim = Some (ReclaimWeight l)"
| "class_weight l (UnknownClass s) = None"

definition Weight :: "int \<Rightarrow> WorkLimits \<Rightarrow> WorkClass \<Rightarrow> int option" where
  "Weight ncpu limits class = class_weight (normalizeWorkLimits ncpu limits) class"

text \<open>
  The two range checks of \<^verbatim>\<open>WorkCoordinator.validate\<close> on the normalised limits. Neither names
  the install or the reclaim weight.
\<close>

definition coordinator_limits_ok :: "WorkLimits \<Rightarrow> bool" where
  "coordinator_limits_ok w \<longleftrightarrow>
     \<not> (Capacity w < 1 \<or> TestWeight w < 1 \<or> BuildWeight w < 1 \<or> ExpressTestWeight w < 1 \<or>
        ExpressBuildWeight w < 1 \<or> EmulatorWeight w < 1 \<or> BrowserWeight w < 1 \<or>
        HeavyWeight w < 1 \<or> BenchmarkWeight w < 1) \<and>
     \<not> (TestWeight w > Capacity w \<or> BuildWeight w > Capacity w \<or> ExpressTestWeight w > Capacity w \<or>
        ExpressBuildWeight w > Capacity w \<or> EmulatorWeight w > Capacity w \<or>
        BrowserWeight w > Capacity w \<or> HeavyWeight w > Capacity w \<or> BenchmarkWeight w > Capacity w)"


section \<open>Facts\<close>

lemma class_name_inj_known:
  "c \<in> set AllWorkClasses \<Longrightarrow> d \<in> set AllWorkClasses \<Longrightarrow> class_name c = class_name d \<Longrightarrow> c = d"
  by (auto simp: AllWorkClasses_def)

lemma class_weight_known [weight_simps]:
  "class_weight l c \<noteq> None \<longleftrightarrow> c \<in> set AllWorkClasses"
  by (cases c) (auto simp: AllWorkClasses_def)

lemma IsExpressClass_simps [simp]:
  "IsExpressClass WorkClassExpressTest" "IsExpressClass WorkClassExpressBuild"
  "\<not> IsExpressClass WorkClassTest" "\<not> IsExpressClass WorkClassBuild"
  "\<not> IsExpressClass WorkClassInstall" "\<not> IsExpressClass WorkClassEmulator"
  "\<not> IsExpressClass WorkClassBrowser" "\<not> IsExpressClass WorkClassHeavy"
  "\<not> IsExpressClass WorkClassBenchmark" "\<not> IsExpressClass WorkClassBenchmarkExclusive"
  "\<not> IsExpressClass WorkClassReclaim"
  by (auto simp: IsExpressClass_def)

text \<open>
  The weights \<^verbatim>\<open>validate\<close> does check: every class but install and reclaim weighs between one
  unit and the capacity.
\<close>

lemma class_weight_bounds:
  assumes "coordinator_limits_ok l" and "class_weight l c = Some w"
    and "c \<noteq> WorkClassInstall" and "c \<noteq> WorkClassReclaim"
  shows "1 \<le> w \<and> w \<le> Capacity l"
  using assms by (cases c) (auto simp: coordinator_limits_ok_def)

text \<open>
  On every host the default capacity is the CPU count less two, but at least three, and the
  adjustments for small hosts only ever raise the test and build weights to two and three.
\<close>

lemma defaultWeights_closed:
  "defaultWeights n =
     (let cap = max 3 (n - 2)
      in (cap, 1, 2, max 2 ((cap + 2) div 3), max 3 ((cap + 2) div 2), cap - 2))"
proof -
  consider "n \<le> 4" | "n = 5" | "6 \<le> n" by linarith
  then show ?thesis
  proof cases
    case 1
    then have "max 2 (n - 2) = 2" "max 3 (n - 2) = 3" by auto
    then show ?thesis by (simp add: defaultWeights_def limit_constants)
  next
    case 2
    then show ?thesis by (simp add: defaultWeights_def limit_constants)
  next
    case 3
    then have c: "max 2 (n - 2) = n - 2" "max 3 (n - 2) = n - 2" by auto
    have t: "1 < n div 3" "n div 3 \<le> n - 2" and b: "2 < n div 2" "n div 2 \<le> n - 2"
      using 3 by presburger+
    have "max 1 (n div 3) = n div 3" "max 2 (n div 3) = n div 3"
      "max 1 (n div 2) = n div 2" "max 3 (n div 2) = n div 2"
      using t b by auto
    then show ?thesis
      using 3 t b c by (simp add: defaultWeights_def limit_constants Let_def)
  qed
qed

lemmas defaultWorkLimits_eq =
  defaultWorkLimits_def [unfolded defaultWeights_closed Let_def prod.case]

lemma defaultWorkLimits_capacity: "Capacity (defaultWorkLimits n) = max 3 (n - 2)"
  by (simp add: defaultWorkLimits_eq)

lemma default_fast_lane_simps [simp]:
  "FastLaneDefaultsRevision (defaultWorkLimits n) = 2"
  "FastLaneMaxRuntimeMS (defaultWorkLimits n) = 120000"
  "FastLaneCoordinatedCPUCeilingPct (defaultWorkLimits n) = 50"
  "FastLaneEnabled (defaultWorkLimits n)"
  "FastLaneMaxWeight (defaultWorkLimits n) \<noteq> 0"
  by (simp_all only: defaultWorkLimits_eq WorkLimits.select_convs limit_constants max_one_nonzero
      not_False_eq_True)

lemma fastLane_defaults_opinionated [simp]: "\<not> fastLaneUnopinionated (defaultWorkLimits n)"
  by (simp add: fastLaneUnopinionated_def)

lemma class_weight_cong:
  assumes "Capacity l = Capacity m" "TestWeight l = TestWeight m" "BuildWeight l = BuildWeight m"
    "ExpressTestWeight l = ExpressTestWeight m" "ExpressBuildWeight l = ExpressBuildWeight m"
    "EmulatorWeight l = EmulatorWeight m" "BrowserWeight l = BrowserWeight m"
    "HeavyWeight l = HeavyWeight m" "BenchmarkWeight l = BenchmarkWeight m"
    "InstallWeight l = InstallWeight m" "ReclaimWeight l = ReclaimWeight m"
  shows "class_weight l c = class_weight m c"
  using assms by (cases c) simp_all

lemma reconcileFastLaneDefaults_capacity [simp, frame_simps]:
  "Capacity (reconcileFastLaneDefaults l d) = Capacity l"
  by (simp add: reconcileFastLaneDefaults_def)

lemma reconcileFastLaneDefaults_weight [simp, frame_simps]:
  "class_weight (reconcileFastLaneDefaults l d) c = class_weight l c"
  by (rule class_weight_cong) (simp_all add: reconcileFastLaneDefaults_def)

lemma fillWorkLimits_capacity [simp, frame_simps]: "Capacity (fillWorkLimits l) = Capacity l"
  by (simp add: fillWorkLimits_def Let_def)

lemma normalizeWorkLimits_capacity_pos: "1 \<le> Capacity (normalizeWorkLimits n l)"
  using defaultWorkLimits_capacity [of n] by (auto simp: normalizeWorkLimits_def)

text \<open>Once filled, no field is zero, so filling again changes nothing.\<close>

lemma fillWorkLimits_idem: "fillWorkLimits (fillWorkLimits l) = fillWorkLimits l"
  by (simp add: fillWorkLimits_def Let_def WorkSchedulingPolicy_def)

lemma fillWorkLimits_fast_lane [simp, frame_simps]:
  "FastLaneEnabled (fillWorkLimits l) = FastLaneEnabled l"
  "FastLaneMaxWeight (fillWorkLimits l) = FastLaneMaxWeight l"
  "FastLaneMaxRuntimeMS (fillWorkLimits l) = FastLaneMaxRuntimeMS l"
  "FastLaneCoordinatedCPUCeilingPct (fillWorkLimits l) = FastLaneCoordinatedCPUCeilingPct l"
  "FastLaneDefaultsRevision (fillWorkLimits l) = FastLaneDefaultsRevision l"
  by (simp_all add: fillWorkLimits_def Let_def)

lemma fillWorkLimits_update:
  "fillWorkLimits (l\<lparr>FastLaneEnabled := e\<rparr>) = (fillWorkLimits l)\<lparr>FastLaneEnabled := e\<rparr>"
  "fillWorkLimits (l\<lparr>FastLaneMaxWeight := w\<rparr>) = (fillWorkLimits l)\<lparr>FastLaneMaxWeight := w\<rparr>"
  "fillWorkLimits (l\<lparr>FastLaneMaxRuntimeMS := w\<rparr>) = (fillWorkLimits l)\<lparr>FastLaneMaxRuntimeMS := w\<rparr>"
  "fillWorkLimits (l\<lparr>FastLaneCoordinatedCPUCeilingPct := p\<rparr>) =
     (fillWorkLimits l)\<lparr>FastLaneCoordinatedCPUCeilingPct := p\<rparr>"
  "fillWorkLimits (l\<lparr>FastLaneDefaultsRevision := w\<rparr>) =
     (fillWorkLimits l)\<lparr>FastLaneDefaultsRevision := w\<rparr>"
  by (simp_all add: fillWorkLimits_def Let_def)

lemma fillWorkLimits_reconcile:
  "fillWorkLimits (reconcileFastLaneDefaults l d) = reconcileFastLaneDefaults (fillWorkLimits l) d"
proof -
  have u: "fastLaneUnopinionated (fillWorkLimits l) = fastLaneUnopinionated l"
    by (simp add: fastLaneUnopinionated_def)
  show ?thesis
    unfolding reconcileFastLaneDefaults_def u fillWorkLimits_fast_lane
    by (simp only: if_distrib [of fillWorkLimits] fillWorkLimits_update)
qed

text \<open>Which of the three cases of the reconciliation applies, and that its result is settled.\<close>

definition fast_lane_settled :: "WorkLimits \<Rightarrow> bool" where
  "fast_lane_settled l \<longleftrightarrow>
     FastLaneMaxWeight l \<noteq> 0 \<and> FastLaneMaxRuntimeMS l \<noteq> 0 \<and>
     FastLaneCoordinatedCPUCeilingPct l \<noteq> 0 \<and> FastLaneDefaultsRevision l \<noteq> 0 \<and>
     \<not> (0 < FastLaneDefaultsRevision l \<and> FastLaneDefaultsRevision l < 2)"

lemma reconcileFastLaneDefaults_settled:
  "fast_lane_settled (reconcileFastLaneDefaults l (defaultWorkLimits n))"
  by (simp add: fast_lane_settled_def reconcileFastLaneDefaults_def) 
    (simp add: or_default_def limit_constants)

lemma reconcile_of_settled:
  "fast_lane_settled l \<Longrightarrow> reconcileFastLaneDefaults l (defaultWorkLimits n) = l"
  by (auto simp: fast_lane_settled_def reconcileFastLaneDefaults_def fastLaneUnopinionated_def)

lemma defaultWorkLimits_nonzero:
  "TestWeight (defaultWorkLimits n) \<noteq> 0" "WarningCapacity (defaultWorkLimits n) \<noteq> 0"
  "BuildWeight (defaultWorkLimits n) \<noteq> 0" "ExpressTestWeight (defaultWorkLimits n) \<noteq> 0"
  "ExpressBuildWeight (defaultWorkLimits n) \<noteq> 0" "BenchmarkWeight (defaultWorkLimits n) \<noteq> 0"
  "SchedulingPolicy (defaultWorkLimits n) \<noteq> []" "CPUBlockSamples (defaultWorkLimits n) \<noteq> 0"
  "CPUReleaseSamples (defaultWorkLimits n) \<noteq> 0" "CPUReleasePercent (defaultWorkLimits n) \<noteq> 0"
  "InstallWeight (defaultWorkLimits n) \<noteq> 0" "ReclaimWeight (defaultWorkLimits n) \<noteq> 0"
  "SwapThrashCapacity (defaultWorkLimits n) \<noteq> 0"
  "SwapThrashExternalReleaseSeconds (defaultWorkLimits n) \<noteq> 0"
  "SwapThrashAgentSharePercent (defaultWorkLimits n) \<noteq> 0"
  "IdleParkSeconds (defaultWorkLimits n) \<noteq> 0"
  by (simp_all only: defaultWorkLimits_eq WorkLimits.select_convs limit_constants max_one_nonzero
      WorkSchedulingPolicy_def) auto

lemma defaultWorkLimits_filled: "fillWorkLimits (defaultWorkLimits n) = defaultWorkLimits n"
  by (simp add: fillWorkLimits_def Let_def defaultWorkLimits_nonzero)

lemma defaultWorkLimits_settled: "fast_lane_settled (defaultWorkLimits n)"
  by (simp add: fast_lane_settled_def)


section \<open>Properties of the limits\<close>

lemma normalize_twice:
  "normalizeWorkLimits n (normalizeWorkLimits n l) = normalizeWorkLimits n l"
proof (cases "Capacity l \<le> 0")
  case True
  have "0 < Capacity (defaultWorkLimits n)"
    using defaultWorkLimits_capacity [of n] by simp
  with True show ?thesis
    by (simp add: normalizeWorkLimits_def defaultWorkLimits_filled
        reconcile_of_settled defaultWorkLimits_settled)
next
  case False
  then show ?thesis
    by (simp add: normalizeWorkLimits_def fillWorkLimits_reconcile fillWorkLimits_idem
        reconcile_of_settled reconcileFastLaneDefaults_settled)
qed

text \<open>
  Normalising limits is idempotent for every configuration and every host: what one
  reader of the policy normalises, another reader on the same host leaves as it is.
\<close>

theorem normalizeWorkLimits_idem:
  "normalizeWorkLimits n (normalizeWorkLimits n l) = normalizeWorkLimits n l"
  by (rule normalize_twice)

lemma default_weight_values:
  "Capacity (defaultWorkLimits n) = max 3 (n - 2)"
  "ExpressTestWeight (defaultWorkLimits n) = 1" "ExpressBuildWeight (defaultWorkLimits n) = 2"
  "InstallWeight (defaultWorkLimits n) = 1" "ReclaimWeight (defaultWorkLimits n) = 1"
  "TestWeight (defaultWorkLimits n) = max 2 ((max 3 (n - 2) + 2) div 3)"
  "BuildWeight (defaultWorkLimits n) = max 3 ((max 3 (n - 2) + 2) div 2)"
  "BenchmarkWeight (defaultWorkLimits n) = max 3 (n - 2) - 2"
  "EmulatorWeight (defaultWorkLimits n) = max 1 ((max 3 (n - 2) * 5 + 7) div 8)"
  "BrowserWeight (defaultWorkLimits n) = max 1 ((max 3 (n - 2) + 3) div 4)"
  "HeavyWeight (defaultWorkLimits n) = max 1 ((max 3 (n - 2) * 3 + 3) div 4)"
  "SwapThrashCapacity (defaultWorkLimits n) = min (max 3 (n - 2)) (max 3 ((max 3 (n - 2) + 2) div 2))"
  by (simp_all only: defaultWorkLimits_eq WorkLimits.select_convs limit_constants) simp_all

lemma default_weight_ranges:
  "1 \<le> TestWeight (defaultWorkLimits n)" "TestWeight (defaultWorkLimits n) \<le> Capacity (defaultWorkLimits n)"
  "1 \<le> BuildWeight (defaultWorkLimits n)" "BuildWeight (defaultWorkLimits n) \<le> Capacity (defaultWorkLimits n)"
  "1 \<le> EmulatorWeight (defaultWorkLimits n)" "EmulatorWeight (defaultWorkLimits n) \<le> Capacity (defaultWorkLimits n)"
  "1 \<le> BrowserWeight (defaultWorkLimits n)" "BrowserWeight (defaultWorkLimits n) \<le> Capacity (defaultWorkLimits n)"
  "1 \<le> HeavyWeight (defaultWorkLimits n)" "HeavyWeight (defaultWorkLimits n) \<le> Capacity (defaultWorkLimits n)"
  "1 \<le> BenchmarkWeight (defaultWorkLimits n)" "BenchmarkWeight (defaultWorkLimits n) \<le> Capacity (defaultWorkLimits n)"
proof -
  obtain c where c: "max 3 (n - 2) = c" "3 \<le> c" by simp
  show "1 \<le> EmulatorWeight (defaultWorkLimits n)" "1 \<le> BrowserWeight (defaultWorkLimits n)"
    "1 \<le> HeavyWeight (defaultWorkLimits n)" "1 \<le> TestWeight (defaultWorkLimits n)"
    "1 \<le> BuildWeight (defaultWorkLimits n)" "1 \<le> BenchmarkWeight (defaultWorkLimits n)"
    "BenchmarkWeight (defaultWorkLimits n) \<le> Capacity (defaultWorkLimits n)"
    unfolding default_weight_values c(1) using c(2) by simp_all
  have "(c + 2) div 3 \<le> c" "(c + 2) div 2 \<le> c" "(c * 5 + 7) div 8 \<le> c" "(c + 3) div 4 \<le> c"
    "(c * 3 + 3) div 4 \<le> c"
    using c(2) by presburger+
  then show "TestWeight (defaultWorkLimits n) \<le> Capacity (defaultWorkLimits n)"
    "BuildWeight (defaultWorkLimits n) \<le> Capacity (defaultWorkLimits n)"
    "EmulatorWeight (defaultWorkLimits n) \<le> Capacity (defaultWorkLimits n)"
    "BrowserWeight (defaultWorkLimits n) \<le> Capacity (defaultWorkLimits n)"
    "HeavyWeight (defaultWorkLimits n) \<le> Capacity (defaultWorkLimits n)"
    unfolding default_weight_values c(1) using c(2) by simp_all
qed

text \<open>
  The limits a host gets when nothing is configured are valid on every host, whatever its
  CPU count: the coordinator accepts them, every published class weighs between one unit and the
  capacity, an express test still fits beside a full benchmark, the express classes are lighter than
  the classes they stand in for, and a build fits the ceiling that applies while swap is thrashing.
\<close>

theorem default_limits_valid:
  "coordinator_limits_ok (defaultWorkLimits n) \<and>
   list_all (\<lambda>c. case Weight n (defaultWorkLimits n) c of None \<Rightarrow> False
                  | Some w \<Rightarrow> 1 \<le> w \<and> w \<le> Capacity (defaultWorkLimits n)) AllWorkClasses \<and>
   BenchmarkWeight (defaultWorkLimits n) + ExpressTestWeight (defaultWorkLimits n)
     \<le> Capacity (defaultWorkLimits n) \<and>
   ExpressTestWeight (defaultWorkLimits n) < TestWeight (defaultWorkLimits n) \<and>
   ExpressBuildWeight (defaultWorkLimits n) < BuildWeight (defaultWorkLimits n) \<and>
   BuildWeight (defaultWorkLimits n) \<le> SwapThrashCapacity (defaultWorkLimits n)"
proof (intro conjI)
  have n: "normalizeWorkLimits n (defaultWorkLimits n) = defaultWorkLimits n"
    using default_weight_values(1) [of n]
    by (simp add: normalizeWorkLimits_def defaultWorkLimits_filled reconcile_of_settled
        defaultWorkLimits_settled)
  show "coordinator_limits_ok (defaultWorkLimits n)"
    using default_weight_ranges [of n] default_weight_values(1-3) [of n]
    unfolding coordinator_limits_ok_def by linarith
  show "list_all (\<lambda>c. case Weight n (defaultWorkLimits n) c of None \<Rightarrow> False
      | Some w \<Rightarrow> 1 \<le> w \<and> w \<le> Capacity (defaultWorkLimits n)) AllWorkClasses"
    using default_weight_ranges [of n] default_weight_values(1-5) [of n]
    by (simp add: Weight_def n AllWorkClasses_def)
qed (unfold default_weight_values, linarith+)

lemma class_search_order:
  "find (\<lambda>c. class_name c = v)
     [WorkClassTest, WorkClassBuild, WorkClassExpressTest, WorkClassExpressBuild,
      WorkClassInstall, WorkClassEmulator, WorkClassBrowser, WorkClassHeavy, WorkClassBenchmark,
      WorkClassBenchmarkExclusive, WorkClassReclaim]
   = find (\<lambda>c. class_name c = v) AllWorkClasses"
  by (auto simp: AllWorkClasses_def)

text \<open>
  Class names round-trip: parsing the name of each published class, in any letter case and
  with surrounding white space trimmed, gives that class, and a string whose trimmed lower-case
  form is no class name is refused.
\<close>

theorem ParseWorkClass_roundtrip:
  "map (\<lambda>c. ParseWorkClass (class_name c)) AllWorkClasses = map Some AllWorkClasses \<and>
   ParseWorkClass s = find (\<lambda>c. class_name c = ToLower (TrimSpace s)) AllWorkClasses"
proof
  show "map (\<lambda>c. ParseWorkClass (class_name c)) AllWorkClasses = map Some AllWorkClasses"
    by code_simp
  show "ParseWorkClass s = find (\<lambda>c. class_name c = ToLower (TrimSpace s)) AllWorkClasses"
    by (simp only: ParseWorkClass_def Let_def class_search_order)
qed

end
