(* ===== verification/Work_State.thy ===== *)
theory Work_State
  imports Work_Limits
begin

text \<open>
  The durable state of the work coordinator (\<^verbatim>\<open>sessionpressure/worklease.go\<close> and
  \<^verbatim>\<open>workadmissionhold.go\<close>): lease, waiter and admission-hold records, the shared CPU latch, the
  state document with its eight schema versions, and the errors its operations return.

  The document on disk is JSON. Decoding fills a field that is absent with its zero value, so a
  document is modelled as a record of the persisted fields in which a field that an older schema
  does not carry holds its zero value: \<^verbatim>\<open>readState\<close> cannot tell the two apart.
\<close>

section \<open>Records\<close>

record WorkLeaseRecord =
  l_ID :: string
  l_OperationID :: string
  l_Class :: WorkClass
  l_Weight :: int
  l_PID :: int
  l_OwnerIdentity :: string
  l_SupervisorPID :: int
  l_SupervisorIdentity :: string
  l_QueuedAt :: time
  l_StartedAt :: time
  l_OriginKind :: string
  l_ScheduleID :: string
  l_ScheduleRunID :: string
  l_AgentKind :: string
  l_ParkedAt :: "time option"

definition chargedWeight :: "WorkLeaseRecord \<Rightarrow> int" where
  "chargedWeight record = (if l_ParkedAt record \<noteq> None then 0 else l_Weight record)"

record WorkWaiterRecord =
  w_OperationID :: string
  w_Class :: WorkClass
  w_Weight :: int
  w_PID :: int
  w_OwnerIdentity :: string
  w_QueuedAt :: time
  w_HeartbeatAt :: time
  w_OriginKind :: string
  w_ScheduleID :: string
  w_ScheduleRunID :: string
  w_AgentKind :: string
  w_BypassCount :: int
  w_LastBypassedAt :: "time option"
  w_ProtectedAt :: "time option"
  w_ReservationKind :: string
  w_ReservedAt :: "time option"

record WorkAdmissionHoldRecord =
  h_OperationID :: string
  h_Class :: WorkClass
  h_Weight :: int
  h_PID :: int
  h_OwnerIdentity :: string
  h_HeldSince :: time
  h_HeartbeatAt :: time
  h_Dimension :: string
  h_Reason :: string

record WorkAdmissionLatch =
  la_Latched :: bool
  la_LatchedAt :: "time option"
  la_Dimension :: string
  la_Reason :: string
  la_RedSamples :: int
  la_RecoverySamples :: int
  la_BlockRequired :: int
  la_ReleaseRequired :: int
  la_ObservedAt :: "time option"

record workSelection =
  SelectedOperationID :: string
  ProtectedOperationID :: string
  DecisionReason :: string
  BypassedIndexes :: "nat list"

definition no_selection :: workSelection where
  "no_selection = \<lparr> SelectedOperationID = [], ProtectedOperationID = [], DecisionReason = [],
                    BypassedIndexes = [] \<rparr>"

text \<open>
  \<^verbatim>\<open>workState\<close>. The last five fields are not exported, so no document holds them.
\<close>

record workState =
  SchemaVersion :: int
  Leases :: "WorkLeaseRecord list"
  Waiters :: "WorkWaiterRecord list"
  OverrideOperationID :: string
  OverrideRequestedAt :: "time option"
  OverrideQueue :: "string list"
  AdmissionHolds :: "WorkAdmissionHoldRecord list"
  AdmissionLatch :: "WorkAdmissionLatch option"
  prunedAdmissionHolds :: int
  migrated :: bool
  legacyActive :: bool
  lastSelection :: workSelection
  lastShadowSelection :: workSelection

definition workStateSchemaVersion :: int where
  "workStateSchemaVersion = 8"

definition workReservationMinimumSchema :: int where
  "workReservationMinimumSchema = 6"

definition legacyWorkOwnerIdentityToken :: string where
  "legacyWorkOwnerIdentityToken = ''legacy-pid-only''"

definition WorkReservationPressure :: string where
  "WorkReservationPressure = ''pressure''"

definition maximumWorkClockSkew :: duration where
  "maximumWorkClockSkew = seconds 60"

lemmas schema_constants = workStateSchemaVersion_def workReservationMinimumSchema_def


section \<open>Errors\<close>

datatype invalid_state =
    InvalidLeaseID string
  | InvalidOperationID string
  | DuplicateLeaseID string
  | DuplicateOperationID string
  | UnknownLeaseClass string
  | InvalidLeaseMetadata string
  | SupervisorIdentityUnresolved string
  | OwnerIdentityUnresolved string
  | InvalidWaiterID string
  | UnknownWaiterClass string
  | InvalidWaiterMetadata string
  | InvalidBypassCount string int
  | InvalidWaiterTimestamp string
  | ReservedAtWithoutKind string
  | InvalidPressureReservation string
  | InvalidReservationKind string string
  | PrematureProtection string
  | WaiterIdentityUnresolved string
  | InvalidHold string
  | DuplicateHold string
  | ExpiryNotPersisted string

datatype work_error =
    ErrWorkCapacity WorkClass int int int
  | ErrWorkFairness string string
  | ErrWorkReservation string string string
  | ErrWorkUpgradePending
  | ErrWorkLeaseMissing
  | ErrWorkParkSchemaPinned
  | ErrWorkWaiterNotFound string
  | ErrWorkOverrideNotPinned
  | ErrWorkOverrideQueueUnsupported
  | OverrideEmptyRequest
  | OverrideTooLong
  | InvalidState invalid_state
  | UnsupportedSchema int
  | LegacyOwnerIdentityPresent
  | StateUnreadable
  | StateUndecodable
  | StateLocked
  | StateUnwritable
  | EventNotPersisted
  | RandomUnavailable
  | InvalidCoordinator
  | UnknownWorkClass WorkClass
  | IdentityUnresolved int
  | InvalidPrivateID string
  | AlreadyLeased string
  | AlreadyQueued string
  | WaiterNotActive
  | WaiterDisappeared
  | LeaseNotActive
  | LeaseDisappeared
  | LeaseOperationChanged
  | LeaseNotFound string
  | ContextDone
  | Joined work_error work_error


section \<open>Reading and writing the document\<close>

record work_document =
  d_SchemaVersion :: int
  d_Leases :: "WorkLeaseRecord list"
  d_Waiters :: "WorkWaiterRecord list"
  d_OverrideOperationID :: string
  d_OverrideRequestedAt :: "time option"
  d_OverrideQueue :: "string list"
  d_AdmissionHolds :: "WorkAdmissionHoldRecord list"
  d_AdmissionLatch :: "WorkAdmissionLatch option"

datatype state_file = Missing | Unreadable | Undecodable | Document work_document

definition empty_document :: "int \<Rightarrow> work_document" where
  "empty_document v =
     \<lparr> d_SchemaVersion = v, d_Leases = [], d_Waiters = [], d_OverrideOperationID = [],
       d_OverrideRequestedAt = None, d_OverrideQueue = [], d_AdmissionHolds = [],
       d_AdmissionLatch = None \<rparr>"

definition decode_document :: "work_document \<Rightarrow> workState" where
  "decode_document d =
     \<lparr> SchemaVersion = d_SchemaVersion d, Leases = d_Leases d, Waiters = d_Waiters d,
       OverrideOperationID = d_OverrideOperationID d,
       OverrideRequestedAt = d_OverrideRequestedAt d, OverrideQueue = d_OverrideQueue d,
       AdmissionHolds = d_AdmissionHolds d, AdmissionLatch = d_AdmissionLatch d,
       prunedAdmissionHolds = 0, migrated = False, legacyActive = False,
       lastSelection = no_selection, lastShadowSelection = no_selection \<rparr>"

definition empty_state :: workState where
  "empty_state = decode_document (empty_document workStateSchemaVersion)"

definition bless_legacy_lease :: "WorkLeaseRecord \<Rightarrow> WorkLeaseRecord" where
  "bless_legacy_lease l = l\<lparr> l_OwnerIdentity := legacyWorkOwnerIdentityToken \<rparr>"

definition migrate_lease :: "WorkLeaseRecord \<Rightarrow> WorkLeaseRecord" where
  "migrate_lease l =
     l\<lparr> l_OperationID := (if l_OperationID l = [] then l_ID l else l_OperationID l),
        l_QueuedAt := (if IsZero (l_QueuedAt l) then l_StartedAt l else l_QueuedAt l) \<rparr>"

definition migrate_state :: "workState \<Rightarrow> workState" where
  "migrate_state s =
     (if SchemaVersion s < workStateSchemaVersion then
        (let leases = map migrate_lease (Leases s);
             waiters = (if SchemaVersion s < 3 then [] else Waiters s)
         in s\<lparr> Leases := leases, Waiters := waiters,
               legacyActive := (legacyActive s \<or> leases \<noteq> [] \<or> waiters \<noteq> []) \<rparr>)
      else s)"

definition readState :: "state_file \<Rightarrow> work_error + workState" where
  "readState file =
     (case file of
        Missing \<Rightarrow> Inr empty_state
      | Unreadable \<Rightarrow> Inl StateUnreadable
      | Undecodable \<Rightarrow> Inl StateUndecodable
      | Document d \<Rightarrow>
          (let s = decode_document d in
           if SchemaVersion s < 1 \<or> SchemaVersion s > workStateSchemaVersion
           then Inl (UnsupportedSchema (SchemaVersion s))
           else if SchemaVersion s = 1 then
             (if \<exists>l \<in> set (Leases s). TrimSpace (l_OwnerIdentity l) \<noteq> []
              then Inl LegacyOwnerIdentityPresent
              else Inr (migrate_state (s\<lparr> Leases := map bless_legacy_lease (Leases s) \<rparr>)))
           else Inr (migrate_state s)))"

text \<open>The record shapes of older schemas: a field that a shape does not have is zeroed.\<close>

definition legacyLeaseV1 :: "WorkLeaseRecord \<Rightarrow> WorkLeaseRecord" where
  "legacyLeaseV1 l =
     \<lparr> l_ID = l_ID l, l_OperationID = [], l_Class = l_Class l, l_Weight = l_Weight l,
       l_PID = l_PID l, l_OwnerIdentity = [], l_SupervisorPID = 0, l_SupervisorIdentity = [],
       l_QueuedAt = 0, l_StartedAt = l_StartedAt l, l_OriginKind = [], l_ScheduleID = [],
       l_ScheduleRunID = [], l_AgentKind = [], l_ParkedAt = None \<rparr>"

definition legacyLeaseV2 :: "WorkLeaseRecord \<Rightarrow> WorkLeaseRecord" where
  "legacyLeaseV2 l = (legacyLeaseV1 l)\<lparr> l_OwnerIdentity := l_OwnerIdentity l \<rparr>"

definition legacyLeaseV3 :: "WorkLeaseRecord \<Rightarrow> WorkLeaseRecord" where
  "legacyLeaseV3 l =
     (legacyLeaseV2 l)\<lparr> l_OperationID := l_OperationID l, l_SupervisorPID := l_SupervisorPID l,
                        l_SupervisorIdentity := l_SupervisorIdentity l \<rparr>"

definition legacyWaiterV3 :: "WorkWaiterRecord \<Rightarrow> WorkWaiterRecord" where
  "legacyWaiterV3 w =
     \<lparr> w_OperationID = w_OperationID w, w_Class = w_Class w, w_Weight = w_Weight w,
       w_PID = w_PID w, w_OwnerIdentity = w_OwnerIdentity w, w_QueuedAt = w_QueuedAt w,
       w_HeartbeatAt = w_HeartbeatAt w, w_OriginKind = [], w_ScheduleID = [],
       w_ScheduleRunID = [], w_AgentKind = [], w_BypassCount = 0, w_LastBypassedAt = None,
       w_ProtectedAt = None, w_ReservationKind = [], w_ReservedAt = None \<rparr>"

definition legacyWaiterV4 :: "WorkWaiterRecord \<Rightarrow> WorkWaiterRecord" where
  "legacyWaiterV4 w =
     (legacyWaiterV3 w)\<lparr> w_BypassCount := w_BypassCount w, w_LastBypassedAt := w_LastBypassedAt w,
                         w_ProtectedAt := w_ProtectedAt w \<rparr>"

definition encode_current :: "workState \<Rightarrow> work_document" where
  "encode_current s =
     \<lparr> d_SchemaVersion = workStateSchemaVersion, d_Leases = Leases s, d_Waiters = Waiters s,
       d_OverrideOperationID = OverrideOperationID s,
       d_OverrideRequestedAt = OverrideRequestedAt s, d_OverrideQueue = OverrideQueue s,
       d_AdmissionHolds = AdmissionHolds s, d_AdmissionLatch = AdmissionLatch s \<rparr>"

definition encode_v1 :: "workState \<Rightarrow> work_document" where
  "encode_v1 s = (empty_document 1)\<lparr> d_Leases := map legacyLeaseV1 (Leases s) \<rparr>"

definition encode_v2 :: "workState \<Rightarrow> work_document" where
  "encode_v2 s = (empty_document 2)\<lparr> d_Leases := map legacyLeaseV2 (Leases s) \<rparr>"

definition encode_v3 :: "workState \<Rightarrow> work_document" where
  "encode_v3 s = (empty_document 3)\<lparr> d_Leases := map legacyLeaseV3 (Leases s),
                                     d_Waiters := map legacyWaiterV3 (Waiters s) \<rparr>"

definition encode_v4 :: "workState \<Rightarrow> work_document" where
  "encode_v4 s = (empty_document 4)\<lparr> d_Leases := map legacyLeaseV3 (Leases s),
                                     d_Waiters := map legacyWaiterV4 (Waiters s) \<rparr>"

definition encode_v5 :: "workState \<Rightarrow> work_document" where
  "encode_v5 s = (empty_document 5)\<lparr> d_Leases := map legacyLeaseV3 (Leases s),
                                     d_Waiters := map legacyWaiterV4 (Waiters s),
                                     d_OverrideOperationID := OverrideOperationID s,
                                     d_OverrideRequestedAt := OverrideRequestedAt s \<rparr>"

definition encode_v6 :: "workState \<Rightarrow> work_document" where
  "encode_v6 s = (empty_document 6)\<lparr> d_Leases := Leases s, d_Waiters := Waiters s,
                                     d_OverrideOperationID := OverrideOperationID s,
                                     d_OverrideRequestedAt := OverrideRequestedAt s \<rparr>"

definition encode_v7 :: "workState \<Rightarrow> work_document" where
  "encode_v7 s = (empty_document 7)\<lparr> d_Leases := Leases s, d_Waiters := Waiters s,
                                     d_OverrideOperationID := OverrideOperationID s,
                                     d_OverrideRequestedAt := OverrideRequestedAt s,
                                     d_AdmissionHolds := AdmissionHolds s,
                                     d_AdmissionLatch := AdmissionLatch s \<rparr>"

definition writeState :: "workState \<Rightarrow> work_document" where
  "writeState s =
     (if SchemaVersion s < workStateSchemaVersion then
        (if SchemaVersion s = 1 then encode_v1 s
         else if SchemaVersion s = 3 then encode_v3 s
         else if SchemaVersion s = 4 then encode_v4 s
         else if SchemaVersion s = 5 then encode_v5 s
         else if SchemaVersion s = 6 then encode_v6 s
         else if SchemaVersion s = 7 then encode_v7 s
         else encode_v2 s)
      else encode_current s)"


section \<open>Facts\<close>

lemmas legacy_shapes =
  legacyLeaseV1_def legacyLeaseV2_def legacyLeaseV3_def legacyWaiterV3_def legacyWaiterV4_def

lemmas document_defs =
  encode_v1_def encode_v2_def encode_v3_def encode_v4_def encode_v5_def encode_v6_def encode_v7_def
  encode_current_def empty_document_def decode_document_def

text \<open>Who owns a record: what reconciliation needs to find a dead or replaced owner.\<close>

definition lease_ownership ::
  "WorkLeaseRecord \<Rightarrow> string \<times> string \<times> WorkClass \<times> int \<times> int \<times> string \<times> int \<times> string \<times> time" where
  "lease_ownership l =
     (l_ID l, l_OperationID l, l_Class l, l_Weight l, l_PID l, l_OwnerIdentity l,
      l_SupervisorPID l, l_SupervisorIdentity l, l_StartedAt l)"

definition waiter_ownership ::
  "WorkWaiterRecord \<Rightarrow> string \<times> WorkClass \<times> int \<times> int \<times> string \<times> time \<times> time" where
  "waiter_ownership w =
     (w_OperationID w, w_Class w, w_Weight w, w_PID w, w_OwnerIdentity w, w_QueuedAt w,
      w_HeartbeatAt w)"

definition forget_transient :: "workState \<Rightarrow> workState" where
  "forget_transient s =
     s\<lparr> prunedAdmissionHolds := 0, migrated := False, legacyActive := False,
        lastSelection := no_selection, lastShadowSelection := no_selection \<rparr>"

lemma legacyLeaseV3_ownership [simp]: "lease_ownership (legacyLeaseV3 l) = lease_ownership l"
  by (simp add: lease_ownership_def legacy_shapes)

lemma legacyLeaseV3_OperationID [simp]: "l_OperationID (legacyLeaseV3 l) = l_OperationID l"
  by (simp add: legacy_shapes)

lemma legacyWaiterV3_ownership [simp]: "waiter_ownership (legacyWaiterV3 w) = waiter_ownership w"
  by (simp add: waiter_ownership_def legacy_shapes)

lemma legacyWaiterV4_ownership [simp]: "waiter_ownership (legacyWaiterV4 w) = waiter_ownership w"
  by (simp add: waiter_ownership_def legacy_shapes)

lemma migrate_lease_ownership:
  "l_OperationID l \<noteq> [] \<Longrightarrow> lease_ownership (migrate_lease l) = lease_ownership l"
  by (simp add: lease_ownership_def migrate_lease_def)

lemma migrate_lease_id:
  "l_OperationID l \<noteq> [] \<Longrightarrow> l_QueuedAt l \<noteq> 0 \<Longrightarrow> migrate_lease l = l"
  by (simp add: migrate_lease_def IsZero_def)

lemma writeState_schema:
  "1 \<le> SchemaVersion s \<Longrightarrow> SchemaVersion s \<le> 8 \<Longrightarrow> d_SchemaVersion (writeState s) = SchemaVersion s"
  by (auto simp: writeState_def document_defs schema_constants)

lemma readState_document:
  "2 \<le> d_SchemaVersion d \<Longrightarrow> d_SchemaVersion d \<le> 8 \<Longrightarrow>
     readState (Document d) = Inr (migrate_state (decode_document d))"
  by (simp add: readState_def Let_def decode_document_def schema_constants)

lemma writeState_leases:
  "3 \<le> SchemaVersion s \<Longrightarrow> d_Leases (writeState s) =
     (if SchemaVersion s < 6 then map legacyLeaseV3 (Leases s) else Leases s)"
  by (auto simp: writeState_def document_defs schema_constants)

lemma writeState_waiters:
  "3 \<le> SchemaVersion s \<Longrightarrow> d_Waiters (writeState s) =
     (if SchemaVersion s = 3 then map legacyWaiterV3 (Waiters s)
      else if SchemaVersion s < 6 then map legacyWaiterV4 (Waiters s) else Waiters s)"
  by (auto simp: writeState_def document_defs schema_constants)

lemma writeState_override:
  "5 \<le> SchemaVersion s \<Longrightarrow> d_OverrideOperationID (writeState s) = OverrideOperationID s"
  by (auto simp: writeState_def document_defs schema_constants)

lemma migrate_state_simps:
  "SchemaVersion (migrate_state s) = SchemaVersion s"
  "Leases (migrate_state s) = (if SchemaVersion s < 8 then map migrate_lease (Leases s) else Leases s)"
  "3 \<le> SchemaVersion s \<Longrightarrow> Waiters (migrate_state s) = Waiters s"
  "OverrideOperationID (migrate_state s) = OverrideOperationID s"
  "OverrideRequestedAt (migrate_state s) = OverrideRequestedAt s"
  "OverrideQueue (migrate_state s) = OverrideQueue s"
  "AdmissionHolds (migrate_state s) = AdmissionHolds s"
  "AdmissionLatch (migrate_state s) = AdmissionLatch s"
  by (simp_all add: migrate_state_def Let_def schema_constants)

lemma decode_document_simps [simp]:
  "SchemaVersion (decode_document d) = d_SchemaVersion d"
  "Leases (decode_document d) = d_Leases d"
  "Waiters (decode_document d) = d_Waiters d"
  "OverrideOperationID (decode_document d) = d_OverrideOperationID d"
  "OverrideRequestedAt (decode_document d) = d_OverrideRequestedAt d"
  "OverrideQueue (decode_document d) = d_OverrideQueue d"
  "AdmissionHolds (decode_document d) = d_AdmissionHolds d"
  "AdmissionLatch (decode_document d) = d_AdmissionLatch d"
  "\<not> legacyActive (decode_document d)"
  by (simp_all add: decode_document_def)

text \<open>A queued waiter and an active lease for the witnesses here and in the theories that follow.\<close>

definition sample_waiter :: "string \<Rightarrow> WorkClass \<Rightarrow> int \<Rightarrow> time \<Rightarrow> WorkWaiterRecord" where
  "sample_waiter op class weight queued =
     \<lparr> w_OperationID = op, w_Class = class, w_Weight = weight, w_PID = 100,
       w_OwnerIdentity = ''tok'', w_QueuedAt = queued, w_HeartbeatAt = queued,
       w_OriginKind = [], w_ScheduleID = [], w_ScheduleRunID = [], w_AgentKind = [],
       w_BypassCount = 0, w_LastBypassedAt = None, w_ProtectedAt = None,
       w_ReservationKind = [], w_ReservedAt = None \<rparr>"

lemma sample_waiter_simps [simp]:
  "w_OperationID (sample_waiter op c w q) = op" "w_Class (sample_waiter op c w q) = c"
  "w_Weight (sample_waiter op c w q) = w" "w_BypassCount (sample_waiter op c w q) = 0"
  "w_LastBypassedAt (sample_waiter op c w q) = None" "w_ProtectedAt (sample_waiter op c w q) = None"
  "w_ReservationKind (sample_waiter op c w q) = []" "w_ReservedAt (sample_waiter op c w q) = None"
  "w_QueuedAt (sample_waiter op c w q) = q"
  by (simp_all add: sample_waiter_def)

definition sample_lease :: "string \<Rightarrow> string \<Rightarrow> WorkClass \<Rightarrow> int \<Rightarrow> time \<Rightarrow> WorkLeaseRecord" where
  "sample_lease lease op class weight started =
     \<lparr> l_ID = lease, l_OperationID = op, l_Class = class, l_Weight = weight, l_PID = 200,
       l_OwnerIdentity = ''tok'', l_SupervisorPID = 0, l_SupervisorIdentity = [],
       l_QueuedAt = started, l_StartedAt = started, l_OriginKind = [], l_ScheduleID = [],
       l_ScheduleRunID = [], l_AgentKind = [], l_ParkedAt = None \<rparr>"

lemma sample_lease_simps [simp]:
  "l_ID (sample_lease i op c w t) = i" "l_OperationID (sample_lease i op c w t) = op"
  "l_Class (sample_lease i op c w t) = c" "l_Weight (sample_lease i op c w t) = w"
  "l_PID (sample_lease i op c w t) = 200" "l_QueuedAt (sample_lease i op c w t) = t"
  "l_StartedAt (sample_lease i op c w t) = t" "l_ParkedAt (sample_lease i op c w t) = None"
  by (simp_all add: sample_lease_def)

text \<open>
  A state at the current schema survives a write and a read unchanged, up to the
  fields that are never persisted.
\<close>

theorem current_document_roundtrip:
  assumes "SchemaVersion s = workStateSchemaVersion"
  shows "readState (Document (writeState s)) = Inr (forget_transient s)"
  using assms
  by (simp add: readState_def Let_def writeState_def document_defs migrate_state_def
      forget_transient_def schema_constants)

theorem current_document_roundtrip_witness:
  "readState (Document (writeState (empty_state\<lparr>
      Waiters := [sample_waiter ''a'' WorkClassTest 3 1], OverrideQueue := [''a''], migrated := True \<rparr>)))
   = Inr (empty_state\<lparr> Waiters := [sample_waiter ''a'' WorkClassTest 3 1], OverrideQueue := [''a''] \<rparr>)"
  by (subst current_document_roundtrip)
    (simp_all add: empty_state_def forget_transient_def decode_document_def empty_document_def)

text \<open>A write at an older schema of records that a read at that schema gave loses nothing.\<close>

definition schema_lease :: "int \<Rightarrow> WorkLeaseRecord \<Rightarrow> WorkLeaseRecord" where
  "schema_lease v l =
     (if v = 1 then migrate_lease (bless_legacy_lease (legacyLeaseV1 l))
      else if v = 2 then migrate_lease (legacyLeaseV2 l)
      else if v < 6 then migrate_lease (legacyLeaseV3 l)
      else if v < 8 then migrate_lease l else l)"

definition schema_waiter :: "int \<Rightarrow> WorkWaiterRecord \<Rightarrow> WorkWaiterRecord" where
  "schema_waiter v w = (if v = 3 then legacyWaiterV3 w else if v < 6 then legacyWaiterV4 w else w)"

lemma schema_read_back:
  assumes "1 \<le> SchemaVersion s" and "SchemaVersion s \<le> workStateSchemaVersion"
  shows "\<exists>t. readState (Document (writeState s)) = Inr t \<and> SchemaVersion t = SchemaVersion s \<and>
    Leases t = map (schema_lease (SchemaVersion s)) (Leases s) \<and>
    Waiters t = (if SchemaVersion s < 3 then [] else map (schema_waiter (SchemaVersion s)) (Waiters s))"
proof -
  consider "SchemaVersion s = 1" | "SchemaVersion s = 2" | "SchemaVersion s = 3" | "SchemaVersion s = 4"
    | "SchemaVersion s = 5" | "SchemaVersion s = 6" | "SchemaVersion s = 7" | "SchemaVersion s = 8"
    using assms by (auto simp: schema_constants) linarith
  then show ?thesis
    by cases
      (simp_all add: readState_def Let_def writeState_def document_defs migrate_state_def schema_constants
        schema_lease_def [abs_def] schema_waiter_def [abs_def] comp_def legacyLeaseV1_def TrimSpace_def)
qed

lemma schema_lease_twice: "schema_lease v (schema_lease v l) = schema_lease v l"
  by (simp add: schema_lease_def migrate_lease_def bless_legacy_lease_def legacy_shapes IsZero_def)

lemma schema_waiter_twice: "schema_waiter v (schema_waiter v w) = schema_waiter v w"
  by (simp add: schema_waiter_def legacy_shapes)



end
