(* ===== verification/Work_Selector.thy ===== *)
theory Work_Selector
  imports Work_State
begin

text \<open>
  Which waiter may be admitted next (\<^verbatim>\<open>sessionpressure/worklease.go\<close>): waiter protection, the
  bounded-lookahead selector with its verified-green express window, the strict FIFO selector,
  and the materialisation of protections. The selectors are pure functions of the queue, the
  charged weight, the effective capacity, the clock, the green window and the weight of leased
  express work; the coordinator runs them under its state lock.

  The locale \<open>queue_selector\<close> is the contract between a selector and the transaction that
  admits the selected waiter; it is interpreted for both selectors here and for the
  operator-override selector in \<open>Work_Override\<close>.
\<close>

section \<open>The selectors\<close>

record workGreenExpressWindow =
  g_Active :: bool
  g_Overcommit :: int

definition no_green :: workGreenExpressWindow where
  "no_green = \<lparr> g_Active = False, g_Overcommit = 0 \<rparr>"

definition workSelectorScanLimit :: nat where
  "workSelectorScanLimit = 64"

definition workMaximumBypasses :: int where
  "workMaximumBypasses = 4"

definition WorkReservationAge :: duration where
  "WorkReservationAge = seconds 30"

text \<open>The reason is \<open>None\<close> for an unprotected waiter.\<close>

definition workWaiterProtection :: "WorkWaiterRecord \<Rightarrow> int \<Rightarrow> time \<Rightarrow> string option" where
  "workWaiterProtection waiter capacity now =
     (if w_ReservationKind waiter = WorkReservationPressure \<and> w_ReservedAt waiter \<noteq> None
      then Some ''pressure_reservation''
      else if 0 < capacity \<and> w_Weight waiter = capacity then Some ''exclusive_capacity''
      else if workMaximumBypasses \<le> w_BypassCount waiter then Some ''bypass_limit''
      else if (case w_LastBypassedAt waiter of None \<Rightarrow> False
               | Some t \<Rightarrow> WorkReservationAge \<le> time_sub now t) then Some ''bypass_age''
      else if w_ProtectedAt waiter \<noteq> None then Some ''materialized''
      else None)"

text \<open>The drain ride-through of a protected head: the first express rider that fits.\<close>

definition rides_drain :: "WorkWaiterRecord \<Rightarrow> int \<Rightarrow> int \<Rightarrow> int \<Rightarrow> WorkWaiterRecord \<Rightarrow> bool" where
  "rides_drain head available capacity expressLeased candidate \<longleftrightarrow>
     IsExpressClass (w_Class candidate) \<and> w_Weight candidate \<le> available \<and>
     expressLeased + w_Weight candidate + w_Weight head \<le> capacity"

text \<open>
  Whether a candidate may be admitted on the lookahead path, and whether that uses the bounded
  green express overcommit.
\<close>

definition candidate_fits :: "int \<Rightarrow> int \<Rightarrow> workGreenExpressWindow \<Rightarrow> WorkWaiterRecord \<Rightarrow> bool" where
  "candidate_fits used capacity green candidate \<longleftrightarrow>
     (if max 0 (capacity - used) < w_Weight candidate
      then \<not> (\<not> g_Active green \<or> \<not> IsExpressClass (w_Class candidate) \<or>
              capacity + g_Overcommit green - used < w_Weight candidate)
      else True)"

definition overcommitted :: "int \<Rightarrow> int \<Rightarrow> WorkWaiterRecord \<Rightarrow> bool" where
  "overcommitted used capacity candidate \<longleftrightarrow> max 0 (capacity - used) < w_Weight candidate"

fun scanCandidates ::
  "nat \<Rightarrow> WorkWaiterRecord list \<Rightarrow> int \<Rightarrow> int \<Rightarrow> workGreenExpressWindow \<Rightarrow> (nat \<times> WorkWaiterRecord) option"
where
  "scanCandidates index [] used capacity green = None"
| "scanCandidates index (candidate # rest) used capacity green =
     (if candidate_fits used capacity green candidate then Some (index, candidate)
      else scanCandidates (Suc index) rest used capacity green)"

definition selectProtectedHead ::
  "string \<Rightarrow> WorkWaiterRecord \<Rightarrow> WorkWaiterRecord list \<Rightarrow> int \<Rightarrow> int \<Rightarrow> workGreenExpressWindow \<Rightarrow> int
     \<Rightarrow> workSelection"
where
  "selectProtectedHead reason head successors used capacity green expressLeased =
     (let available = max 0 (capacity - used);
          selection = no_selection\<lparr> ProtectedOperationID := w_OperationID head,
                                    DecisionReason := ''protected_'' @ reason \<rparr>
      in if w_Weight head \<le> available
         then selection\<lparr> SelectedOperationID := w_OperationID head \<rparr>
         else if reason = ''exclusive_capacity''
         then selection\<lparr> DecisionReason := ''protected_exclusive_drain'' \<rparr>
         else (case (if g_Active green
                     then find (rides_drain head available capacity expressLeased) successors
                     else None) of
                 Some rider \<Rightarrow> selection\<lparr> SelectedOperationID := w_OperationID rider,
                                          DecisionReason := ''green_express_drain_ride'' \<rparr>
               | None \<Rightarrow> selection\<lparr> DecisionReason := ''protected_bounded_drain'' \<rparr>))"

definition selectWorkWaiter ::
  "WorkWaiterRecord list \<Rightarrow> int \<Rightarrow> int \<Rightarrow> time \<Rightarrow> workGreenExpressWindow \<Rightarrow> int \<Rightarrow> workSelection"
where
  "selectWorkWaiter waiters used capacity now green expressLeased =
     (case waiters of
        [] \<Rightarrow> no_selection\<lparr> DecisionReason := ''queue_empty'' \<rparr>
      | head # rest \<Rightarrow>
          (let limit = min (length waiters) workSelectorScanLimit in
           case workWaiterProtection head capacity now of
             Some reason \<Rightarrow>
               selectProtectedHead reason head (take (limit - 1) rest) used capacity green expressLeased
           | None \<Rightarrow>
               (case scanCandidates 0 (take limit waiters) used capacity green of
                  Some (index, candidate) \<Rightarrow>
                    no_selection\<lparr>
                      SelectedOperationID := w_OperationID candidate,
                      DecisionReason :=
                        (if overcommitted used capacity candidate then ''green_express_overcommit''
                         else if 0 < index then ''oldest_feasible_head_bypass''
                         else ''queue_head_fits''),
                      BypassedIndexes := (if 0 < index then [0] else []) \<rparr>
                | None \<Rightarrow> no_selection\<lparr> DecisionReason := ''no_waiter_fits_capacity'' \<rparr>)))"

definition selectFIFOWorkWaiter ::
  "WorkWaiterRecord list \<Rightarrow> int \<Rightarrow> int \<Rightarrow> time \<Rightarrow> workGreenExpressWindow \<Rightarrow> workSelection"
where
  "selectFIFOWorkWaiter waiters used capacity now green =
     (case waiters of
        [] \<Rightarrow> no_selection\<lparr> DecisionReason := ''queue_empty'' \<rparr>
      | head # rest \<Rightarrow>
          (let protectedOperationID =
                 (if workWaiterProtection head capacity now \<noteq> None then w_OperationID head else [])
           in if capacity < used + w_Weight head
              then (if g_Active green \<and> IsExpressClass (w_Class head) \<and>
                       used + w_Weight head \<le> capacity + g_Overcommit green
                    then no_selection\<lparr> SelectedOperationID := w_OperationID head,
                                        ProtectedOperationID := protectedOperationID,
                                        DecisionReason := ''fifo_green_express_overcommit'' \<rparr>
                    else no_selection\<lparr> ProtectedOperationID := protectedOperationID,
                                        DecisionReason := ''fifo_head_does_not_fit'' \<rparr>)
              else no_selection\<lparr> SelectedOperationID := w_OperationID head,
                                  ProtectedOperationID := protectedOperationID,
                                  DecisionReason := ''fifo_head_fits'' \<rparr>))"

definition expressLeasedWeight :: "WorkLeaseRecord list \<Rightarrow> int" where
  "expressLeasedWeight leases =
     sum_list (map chargedWeight (filter (\<lambda>l. IsExpressClass (l_Class l)) leases))"

definition usedWeight :: "WorkLeaseRecord list \<Rightarrow> int" where
  "usedWeight leases = sum_list (map chargedWeight leases)"

definition materializeWorkProtection :: "int \<Rightarrow> time \<Rightarrow> WorkWaiterRecord \<Rightarrow> WorkWaiterRecord" where
  "materializeWorkProtection capacity now w =
     (if w_ProtectedAt w = None \<and> workWaiterProtection w capacity now \<noteq> None
      then w\<lparr> w_ProtectedAt := Some now \<rparr> else w)"

definition materializeWorkProtections ::
  "WorkWaiterRecord list \<Rightarrow> int \<Rightarrow> time \<Rightarrow> WorkWaiterRecord list" where
  "materializeWorkProtections waiters capacity now =
     map (materializeWorkProtection capacity now) waiters"


section \<open>The contract of a selector\<close>

text \<open>
  \<open>admissible\<close> is the weighted ceiling: the waiter fits the free weight, or it is an express
  waiter inside the green overcommit.
\<close>

definition admissible :: "int \<Rightarrow> int \<Rightarrow> workGreenExpressWindow \<Rightarrow> WorkWaiterRecord \<Rightarrow> bool" where
  "admissible used capacity green w \<longleftrightarrow>
     w_Weight w \<le> max 0 (capacity - used) \<or>
     used + w_Weight w \<le> capacity \<or>
     g_Active green \<and> IsExpressClass (w_Class w) \<and> used + w_Weight w \<le> capacity + g_Overcommit green"

definition unprotected :: "WorkWaiterRecord \<Rightarrow> int \<Rightarrow> time \<Rightarrow> bool" where
  "unprotected w capacity now \<longleftrightarrow> workWaiterProtection w capacity now = None"

locale queue_selector =
  fixes select ::
    "WorkWaiterRecord list \<Rightarrow> int \<Rightarrow> int \<Rightarrow> time \<Rightarrow> workGreenExpressWindow \<Rightarrow> int \<Rightarrow> workSelection"
  assumes selected_admissible:
    "SelectedOperationID (select ws used cap now green e) \<noteq> [] \<Longrightarrow>
       \<exists>w \<in> set ws. w_OperationID w = SelectedOperationID (select ws used cap now green e) \<and>
          admissible used cap green w"
    and bypass_only_head:
    "BypassedIndexes (select ws used cap now green e) = [] \<or>
     BypassedIndexes (select ws used cap now green e) = [0]"
    and bypass_unprotected:
    "BypassedIndexes (select ws used cap now green e) \<noteq> [] \<Longrightarrow>
       ws \<noteq> [] \<and> unprotected (hd ws) cap now"
begin

lemma nothing_from_empty: "SelectedOperationID (select [] used cap now green e) = []"
  using selected_admissible [of "[]" used cap now green e] by auto

text \<open>
  Admitting the selected waiter keeps the charged weight under the effective capacity, or under
  capacity plus the green overcommit when the waiter is express work.
\<close>

lemma selected_within_ceiling:
  assumes "distinct (map w_OperationID ws)" and "w \<in> set ws"
    and "w_OperationID w = SelectedOperationID (select ws used cap now green e)"
    and "w_OperationID w \<noteq> []" and "1 \<le> w_Weight w"
  shows "used + w_Weight w \<le>
    cap + (if g_Active green \<and> IsExpressClass (w_Class w) then max 0 (g_Overcommit green) else 0)"
proof -
  obtain v where v: "v \<in> set ws" "w_OperationID v = w_OperationID w" "admissible used cap green v"
    using selected_admissible [of ws used cap now green e] assms(3,4) by auto
  have "v = w"
    using assms(1,2) v(1,2) by (metis distinct_map inj_onD)
  with v(3) assms(5) show ?thesis
    by (auto simp: admissible_def)
qed

lemma bypass_count_bound:
  assumes "BypassedIndexes (select ws used cap now green e) \<noteq> []"
  shows "w_BypassCount (hd ws) < workMaximumBypasses"
  using bypass_unprotected [OF assms]
  by (auto simp: unprotected_def workWaiterProtection_def split: if_splits)

end


section \<open>The two policies meet the contract\<close>

lemma no_selection_simps [simp]:
  "SelectedOperationID no_selection = []" "ProtectedOperationID no_selection = []"
  "BypassedIndexes no_selection = []"
  by (simp_all add: no_selection_def)

lemma scanCandidates_Some:
  assumes "scanCandidates i xs used cap green = Some (j, w)"
  shows "i \<le> j \<and> j - i < length xs \<and> xs ! (j - i) = w \<and> candidate_fits used cap green w \<and>
    (\<forall>k < j - i. \<not> candidate_fits used cap green (xs ! k))"
  using assms
proof (induction xs arbitrary: i)
  case Nil
  then show ?case by simp
next
  case (Cons x xs)
  show ?case
  proof (cases "candidate_fits used cap green x")
    case True
    with Cons.prems show ?thesis by simp
  next
    case False
    with Cons.prems Cons.IH [of "Suc i"]
    have ih: "Suc i \<le> j" "j - Suc i < length xs" "xs ! (j - Suc i) = w"
      "candidate_fits used cap green w" "\<forall>k < j - Suc i. \<not> candidate_fits used cap green (xs ! k)"
      by auto
    have "\<not> candidate_fits used cap green ((x # xs) ! k)" if "k < j - i" for k
      using that ih(1,5) False by (cases k) auto
    with ih show ?thesis by (auto simp: nth_Cons')
  qed
qed

lemma scanCandidates_None:
  "scanCandidates i xs used cap green = None \<longleftrightarrow> (\<forall>w \<in> set xs. \<not> candidate_fits used cap green w)"
  by (induction xs arbitrary: i) auto

lemma candidate_fits_admissible: "candidate_fits used cap green w \<Longrightarrow> admissible used cap green w"
  by (auto simp: candidate_fits_def admissible_def split: if_splits)

lemma find_member: "find P xs = Some x \<Longrightarrow> x \<in> set xs \<and> P x"
  by (auto simp: find_Some_iff)

text \<open>What a protected head lets through: itself once it fits, or an express rider.\<close>

lemma selectProtectedHead_cases:
  assumes "SelectedOperationID (selectProtectedHead reason head ws used cap green e) \<noteq> []"
  shows "SelectedOperationID (selectProtectedHead reason head ws used cap green e) = w_OperationID head
      \<and> w_Weight head \<le> max 0 (cap - used) \<or>
    reason \<noteq> ''exclusive_capacity'' \<and> g_Active green \<and>
    (\<exists>r \<in> set ws. rides_drain head (max 0 (cap - used)) cap e r \<and>
      SelectedOperationID (selectProtectedHead reason head ws used cap green e) = w_OperationID r)"
  using assms
  by (auto simp: selectProtectedHead_def Let_def split: option.splits if_splits dest: find_member)

lemma selectProtectedHead_bypass [selector_simps]:
  "BypassedIndexes (selectProtectedHead reason head ws used cap green e) = []"
  by (simp add: selectProtectedHead_def Let_def split: option.splits)

lemma selectProtectedHead_protected [selector_simps]:
  "ProtectedOperationID (selectProtectedHead reason head ws used cap green e) = w_OperationID head"
  by (simp add: selectProtectedHead_def Let_def split: option.splits)

lemma selectWorkWaiter_protected:
  "workWaiterProtection head cap now = Some reason \<Longrightarrow>
     selectWorkWaiter (head # rest) used cap now green e =
       selectProtectedHead reason head (take (min (Suc (length rest)) workSelectorScanLimit - 1) rest)
         used cap green e"
  by (simp add: selectWorkWaiter_def Let_def)

lemma selectWorkWaiter_scan:
  assumes "workWaiterProtection head cap now = None"
    and "SelectedOperationID (selectWorkWaiter (head # rest) used cap now green e) \<noteq> []"
  shows "\<exists>j w. scanCandidates 0 (take workSelectorScanLimit (head # rest)) used cap green = Some (j, w) \<and>
    SelectedOperationID (selectWorkWaiter (head # rest) used cap now green e) = w_OperationID w \<and>
    BypassedIndexes (selectWorkWaiter (head # rest) used cap now green e) = (if 0 < j then [0] else [])"
proof -
  have t: "take (min (Suc (length rest)) workSelectorScanLimit) (head # rest)
      = take workSelectorScanLimit (head # rest)"
    by (metis length_Cons min.commute take_all_iff min_def order_refl)
  show ?thesis
    using assms by (auto simp: selectWorkWaiter_def Let_def t split: option.splits)
qed

lemma selectWorkWaiter_member:
  assumes "SelectedOperationID (selectWorkWaiter ws used cap now green e) \<noteq> []"
  shows "\<exists>w \<in> set (take workSelectorScanLimit ws).
    w_OperationID w = SelectedOperationID (selectWorkWaiter ws used cap now green e) \<and>
    admissible used cap green w"
proof (cases ws)
  case Nil
  with assms show ?thesis by (simp add: selectWorkWaiter_def)
next
  case (Cons head rest)
  show ?thesis
  proof (cases "workWaiterProtection head cap now")
    case None
    then obtain j w where
      "scanCandidates 0 (take workSelectorScanLimit (head # rest)) used cap green = Some (j, w)"
      "SelectedOperationID (selectWorkWaiter ws used cap now green e) = w_OperationID w"
      using selectWorkWaiter_scan assms Cons by blast
    with scanCandidates_Some [OF this(1)] show ?thesis
      using Cons by (metis candidate_fits_admissible diff_zero nth_mem)
  next
    case (Some reason)
    note sel = selectWorkWaiter_protected [OF Some, of rest used green e]
    have head: "head \<in> set (take workSelectorScanLimit (head # rest))"
      by (simp add: workSelectorScanLimit_def take_Cons')
    have sub: "set (take (min (Suc (length rest)) workSelectorScanLimit - 1) rest)
        \<subseteq> set (take workSelectorScanLimit (head # rest))"
      by (auto simp: workSelectorScanLimit_def take_Cons' min_def dest: in_set_takeD)
    show ?thesis
      using selectProtectedHead_cases [of reason head
          "take (min (Suc (length rest)) workSelectorScanLimit - 1) rest" used cap green e]
        assms head sub
      by (auto simp: Cons sel admissible_def rides_drain_def)
  qed
qed

lemma selectWorkWaiter_bypass:
  "BypassedIndexes (selectWorkWaiter ws used cap now green e) =
     (case ws of [] \<Rightarrow> []
      | head # rest \<Rightarrow>
          (case workWaiterProtection head cap now of
             Some _ \<Rightarrow> []
           | None \<Rightarrow> (case scanCandidates 0 (take (min (length ws) workSelectorScanLimit) ws) used cap green of
                         Some (j, w) \<Rightarrow> if 0 < j then [0] else []
                       | None \<Rightarrow> [])))"
  by (auto simp: selectWorkWaiter_def Let_def selector_simps split: list.splits option.splits)

interpretation bounded: queue_selector selectWorkWaiter
proof (unfold_locales, goal_cases)
  case (1 ws used cap now green e)
  then show ?case using selectWorkWaiter_member in_set_takeD by meson
next
  case (2 ws used cap now green e)
  show ?case by (auto simp: selectWorkWaiter_bypass split: list.splits option.splits)
next
  case (3 ws used cap now green e)
  then show ?case
    by (auto simp: selectWorkWaiter_bypass unprotected_def split: list.splits option.splits)
qed

interpretation fifo: queue_selector "\<lambda>ws used cap now green e. selectFIFOWorkWaiter ws used cap now green"
  by unfold_locales
    (auto simp: selectFIFOWorkWaiter_def Let_def admissible_def split: list.splits if_splits)


section \<open>Properties of the selectors\<close>

lemmas selector_eval =
  selectWorkWaiter_def selectProtectedHead_def workWaiterProtection_def candidate_fits_def
  rides_drain_def overcommitted_def workSelectorScanLimit_def workMaximumBypasses_def
  WorkReservationAge_def WorkReservationPressure_def no_selection_def no_green_def Let_def

text \<open>
  Claim C16. The bounded-lookahead selector never selects work past the weighted ceiling: admitting
  the waiter it selects keeps the charged weight at or under the effective capacity, except that an
  express waiter may use the bounded overcommit while the green window is active. The selected
  waiter stands in the first 64 places of the queue.
\<close>

theorem bounded_selection_within_ceiling:
  assumes "distinct (map w_OperationID ws)" and "\<forall>w \<in> set ws. 1 \<le> w_Weight w"
    and "SelectedOperationID (selectWorkWaiter ws used cap now green e) \<noteq> []"
  shows "\<exists>w \<in> set (take workSelectorScanLimit ws).
    w_OperationID w = SelectedOperationID (selectWorkWaiter ws used cap now green e) \<and>
    used + w_Weight w \<le>
      cap + (if g_Active green \<and> IsExpressClass (w_Class w) then max 0 (g_Overcommit green) else 0)"
proof -
  obtain w where w: "w \<in> set (take workSelectorScanLimit ws)"
    "w_OperationID w = SelectedOperationID (selectWorkWaiter ws used cap now green e)"
    using selectWorkWaiter_member [OF assms(3)] by blast
  then have "w \<in> set ws" by (meson in_set_takeD)
  with w assms show ?thesis
    using bounded.selected_within_ceiling [of ws w used cap now green e] by metis
qed

theorem bounded_selection_within_ceiling_witness:
  "\<exists>w \<in> set (take workSelectorScanLimit
        [sample_waiter ''a'' WorkClassBuild 5 1, sample_waiter ''b'' WorkClassTest 3 2]).
    w_OperationID w = ''b'' \<and> 4 + w_Weight w \<le> 8"
proof -
  let ?ws = "[sample_waiter ''a'' WorkClassBuild 5 1, sample_waiter ''b'' WorkClassTest 3 2]"
  have sel: "SelectedOperationID (selectWorkWaiter ?ws 4 8 10 no_green 0) = ''b''"
    by (simp add: selector_eval)
  have "\<exists>w \<in> set (take workSelectorScanLimit ?ws).
      w_OperationID w = SelectedOperationID (selectWorkWaiter ?ws 4 8 10 no_green 0) \<and>
      4 + w_Weight w \<le> 8 + (if g_Active no_green \<and> IsExpressClass (w_Class w)
        then max 0 (g_Overcommit no_green) else 0)"
    by (rule bounded_selection_within_ceiling) (simp_all add: sel)
  then show ?thesis unfolding sel by (simp add: no_green_def)
qed

text \<open>
  Claim C8. While the queue head is protected nothing overtakes it but an express rider, and only
  while the green window is active and the head does not claim the whole host: the rider fits the
  idle units and, together with every express lease already riding and the head itself, it fits the
  capacity. A protected head never accrues a bypass.
\<close>

theorem protected_head_drain:
  assumes "workWaiterProtection head cap now = Some reason"
    and "SelectedOperationID (selectWorkWaiter (head # rest) used cap now green e) \<noteq> []"
  shows "BypassedIndexes (selectWorkWaiter (head # rest) used cap now green e) = [] \<and>
    (SelectedOperationID (selectWorkWaiter (head # rest) used cap now green e) = w_OperationID head \<or>
     reason \<noteq> ''exclusive_capacity'' \<and> g_Active green \<and>
     (\<exists>r \<in> set rest. w_OperationID r =
          SelectedOperationID (selectWorkWaiter (head # rest) used cap now green e) \<and>
        IsExpressClass (w_Class r) \<and> w_Weight r \<le> max 0 (cap - used) \<and>
        (e + w_Weight r) + w_Weight head \<le> cap))"
proof -
  let ?ws = "take (min (Suc (length rest)) workSelectorScanLimit - 1) rest"
  note sel = selectWorkWaiter_protected [OF assms(1), of rest used green e]
  have "set ?ws \<subseteq> set rest" by (meson in_set_takeD subsetI)
  then show ?thesis
    using selectProtectedHead_cases [of reason head ?ws used cap green e] assms(2)
    by (auto simp: sel selector_simps rides_drain_def)
qed

theorem protected_head_drain_witness:
  "SelectedOperationID (selectWorkWaiter
      [(sample_waiter ''h'' WorkClassHeavy 6 1)\<lparr>w_BypassCount := 4\<rparr>,
       sample_waiter ''t'' WorkClassTest 1 2, sample_waiter ''x'' WorkClassExpressTest 1 3]
      5 8 10 \<lparr>g_Active = True, g_Overcommit = 2\<rparr> 1) = ''x'' \<and> (1 + 1) + 6 \<le> (8 :: int)"
proof -
  let ?h = "(sample_waiter ''h'' WorkClassHeavy 6 1)\<lparr>w_BypassCount := 4\<rparr>"
  let ?rest = "[sample_waiter ''t'' WorkClassTest 1 2, sample_waiter ''x'' WorkClassExpressTest 1 3]"
  let ?g = "\<lparr>g_Active = True, g_Overcommit = 2\<rparr> :: workGreenExpressWindow"
  have p: "workWaiterProtection ?h 8 10 = Some ''bypass_limit''"
    by (simp add: selector_eval)
  have sel: "SelectedOperationID (selectWorkWaiter (?h # ?rest) 5 8 10 ?g 1) = ''x''"
    by (simp add: selector_eval)
  show ?thesis
    using protected_head_drain [OF p, of ?rest 5 ?g 1] by (simp add: sel)
qed

text \<open>
  Claim C29. With an unprotected head the lookahead is first-fit: the waiter at position \<open>j\<close> is
  selected exactly when it is the first of the scanned waiters that fits, and it is charged to the
  head as one bypass when \<open>j\<close> is not the head.
\<close>

theorem lookahead_selects_first_feasible:
  assumes "workWaiterProtection head cap now = None"
    and "j < length (take workSelectorScanLimit (head # rest))"
    and "candidate_fits used cap green ((head # rest) ! j)"
    and "\<forall>k < j. \<not> candidate_fits used cap green ((head # rest) ! k)"
  shows "SelectedOperationID (selectWorkWaiter (head # rest) used cap now green e)
      = w_OperationID ((head # rest) ! j) \<and>
    BypassedIndexes (selectWorkWaiter (head # rest) used cap now green e) = (if 0 < j then [0] else [])"
proof -
  let ?q = "take workSelectorScanLimit (head # rest)"
  have n: "?q ! k = (head # rest) ! k" if "k \<le> j" for k
    using that assms(2) by (simp add: nth_take)
  have "scanCandidates 0 ?q used cap green \<noteq> None"
    using assms(2,3) n [of j] by (metis nth_mem order_refl scanCandidates_None)
  then obtain i w where scan: "scanCandidates 0 ?q used cap green = Some (i, w)"
    by auto
  note i = scanCandidates_Some [OF scan, unfolded diff_zero]
  have "i = j"
  proof (rule linorder_cases [of i j])
    assume "i < j"
    then show ?thesis using i assms(4) n [of i] by auto
  next
    assume "j < i"
    then show ?thesis using i assms(3) n [of j] by auto
  qed simp
  have t: "take (min (Suc (length rest)) workSelectorScanLimit) (head # rest) = ?q"
    by (metis length_Cons min.commute take_all_iff min_def order_refl)
  show ?thesis
    using scan i n [of j] \<open>i = j\<close> assms(1) by (simp add: selectWorkWaiter_def Let_def t)
qed

theorem lookahead_selects_first_feasible_witness:
  "SelectedOperationID (selectWorkWaiter
      [sample_waiter ''a'' WorkClassBuild 5 1, sample_waiter ''b'' WorkClassTest 3 2] 4 8 10 no_green 0)
     = ''b'' \<and>
   BypassedIndexes (selectWorkWaiter
      [sample_waiter ''a'' WorkClassBuild 5 1, sample_waiter ''b'' WorkClassTest 3 2] 4 8 10 no_green 0)
     = [0]"
proof -
  let ?a = "sample_waiter ''a'' WorkClassBuild 5 1"
  let ?b = "sample_waiter ''b'' WorkClassTest 3 2"
  have "workWaiterProtection ?a 8 10 = None" "\<not> candidate_fits 4 8 no_green ?a"
    "candidate_fits 4 8 no_green ?b"
    by (simp_all add: selector_eval)
  then show ?thesis
    using lookahead_selects_first_feasible [of ?a 8 10 1 "[?b]" 4 no_green 0]
    by (simp add: workSelectorScanLimit_def)
qed

text \<open>
  The FIFO policy never reorders: it selects the head of the queue or nobody, never
  records a bypass, and admits only within the weighted ceiling.
\<close>

theorem fifo_selects_only_the_head:
  "BypassedIndexes (selectFIFOWorkWaiter ws used cap now green) = [] \<and>
   SelectedOperationID (selectFIFOWorkWaiter ws used cap now green) \<in>
     {[]} \<union> (if ws \<noteq> [] \<and> admissible used cap green (hd ws) then {w_OperationID (hd ws)} else {})"
  by (cases ws) (auto simp: selectFIFOWorkWaiter_def Let_def admissible_def no_selection_def)

end
