(* ===== verification/Pressure_Level.thy ===== *)
theory Pressure_Level
  imports Go_Prelude
begin

text \<open>
  Pressure levels (\<^verbatim>\<open>sessionpressure/types.go\<close>). A Go \<^verbatim>\<open>Level\<close> is a string; the four published
  levels are constructors and every other string is \<open>OtherLevel\<close>, which the rank treats as
  normal. The levels are linearly ordered by rank up to equal rank, and \<open>maxLevel\<close> is the
  join.
\<close>

datatype Level = LevelNormal | LevelWarning | LevelRed | LevelCritical | OtherLevel string

fun level_name :: "Level \<Rightarrow> string" where
  "level_name LevelNormal = ''normal''"
| "level_name LevelWarning = ''warning''"
| "level_name LevelRed = ''red''"
| "level_name LevelCritical = ''critical''"
| "level_name (OtherLevel s) = s"

fun levelRank :: "Level \<Rightarrow> int" where
  "levelRank LevelWarning = 1"
| "levelRank LevelRed = 2"
| "levelRank LevelCritical = 3"
| "levelRank _ = 0"

definition maxLevel :: "Level \<Rightarrow> Level \<Rightarrow> Level" where
  "maxLevel a b = (if levelRank b > levelRank a then b else a)"

definition AtLeast :: "Level \<Rightarrow> Level \<Rightarrow> bool" where
  "AtLeast level want \<longleftrightarrow> levelRank level \<ge> levelRank want"

lemma levelRank_range: "0 \<le> levelRank l \<and> levelRank l \<le> 3"
  by (cases l) auto

lemma levelRank_maxLevel [simp]: "levelRank (maxLevel a b) = max (levelRank a) (levelRank b)"
  by (simp add: maxLevel_def)

lemma maxLevel_assoc_rank:
  "levelRank (maxLevel (maxLevel a b) c) = levelRank (maxLevel a (maxLevel b c))"
  by (simp add: max.assoc)

lemma AtLeast_refl [simp]: "AtLeast l l"
  by (simp add: AtLeast_def)

lemma AtLeast_trans: "AtLeast a b \<Longrightarrow> AtLeast b c \<Longrightarrow> AtLeast a c"
  by (simp add: AtLeast_def)

lemma AtLeast_maxLevel [simp]: "AtLeast (maxLevel a b) c \<longleftrightarrow> AtLeast a c \<or> AtLeast b c"
  by (auto simp: AtLeast_def)

end
