(* ===== verification/Work_Event.thy ===== *)
theory Work_Event
  imports Work_State Pressure_Level
begin

text \<open>
  The durable lifecycle ledger of heavy work (\<^verbatim>\<open>sessionpressure/workevent.go\<close>): the event types,
  the audit row and its validation, the identity of a row, the append-only store with its
  idempotent durable append, and the lifecycle validator with its tolerant per-operation partition.

  The store is a directory of one file per local day. A row lives in the file of its own
  timestamp, so the store is the list of its rows in the order they were appended, and the rows of
  a file are those with that file's name. What the store uses of its surroundings is the record
  \<open>event_env\<close>: the truncated SHA-256 digest, the RFC 3339 form of a time, the name of the day
  file, its clock, and whether the file system served each lock, scan and write.
\<close>

section \<open>Event types\<close>

datatype WorkEventType =
    WorkEventQueued
  | WorkEventAcquired
  | WorkEventReserved
  | WorkEventReacquired
  | WorkEventStarted
  | WorkEventCompleted
  | WorkEventFailed
  | WorkEventCancelled
  | WorkEventExpired
  | WorkEventReused
  | WorkEventOverrideRequested
  | UnknownEvent string

fun event_name :: "WorkEventType \<Rightarrow> string" where
  "event_name WorkEventQueued = ''queued''"
| "event_name WorkEventAcquired = ''acquired''"
| "event_name WorkEventReserved = ''reserved''"
| "event_name WorkEventReacquired = ''reacquired''"
| "event_name WorkEventStarted = ''started''"
| "event_name WorkEventCompleted = ''completed''"
| "event_name WorkEventFailed = ''failed''"
| "event_name WorkEventCancelled = ''cancelled''"
| "event_name WorkEventExpired = ''expired''"
| "event_name WorkEventReused = ''reused''"
| "event_name WorkEventOverrideRequested = ''override_requested''"
| "event_name (UnknownEvent s) = s"

definition ParseWorkEventType :: "string \<Rightarrow> WorkEventType option" where
  "ParseWorkEventType value =
     (let s = ToLower (TrimSpace value) in
      find (\<lambda>t. event_name t = s)
        [WorkEventQueued, WorkEventOverrideRequested, WorkEventAcquired, WorkEventReserved,
         WorkEventReacquired, WorkEventStarted, WorkEventCompleted, WorkEventFailed,
         WorkEventCancelled, WorkEventExpired, WorkEventReused])"

fun isWorkTerminalEvent :: "WorkEventType \<Rightarrow> bool" where
  "isWorkTerminalEvent WorkEventCompleted = True"
| "isWorkTerminalEvent WorkEventFailed = True"
| "isWorkTerminalEvent WorkEventCancelled = True"
| "isWorkTerminalEvent WorkEventExpired = True"
| "isWorkTerminalEvent WorkEventReused = True"
| "isWorkTerminalEvent _ = False"

fun workEventOrder :: "WorkEventType \<Rightarrow> int" where
  "workEventOrder WorkEventQueued = 0"
| "workEventOrder WorkEventOverrideRequested = 1"
| "workEventOrder WorkEventAcquired = 2"
| "workEventOrder WorkEventReserved = 3"
| "workEventOrder WorkEventReacquired = 4"
| "workEventOrder WorkEventStarted = 5"
| "workEventOrder _ = 6"


section \<open>The audit row\<close>

text \<open>
  The numeric evidence of a row can be any Go float in memory, so its validation has to reject
  the values that are not finite.
\<close>

datatype go_float = Finite rat | PosInf | NegInf | NaN

fun IsFinite :: "go_float \<Rightarrow> bool" where
  "IsFinite (Finite r) = True"
| "IsFinite _ = False"

fun float_less :: "go_float \<Rightarrow> rat \<Rightarrow> bool" where
  "float_less (Finite r) q = (r < q)"
| "float_less NegInf q = True"
| "float_less _ q = False"

fun float_greater :: "go_float \<Rightarrow> rat \<Rightarrow> bool" where
  "float_greater (Finite r) q = (q < r)"
| "float_greater PosInf q = True"
| "float_greater _ q = False"

text \<open>
  The struct's fields in four groups: identity and lifecycle, queue context with durations,
  resource evidence, and recorded decisions.
\<close>

record WorkEventQueue =
  eq_Blocker :: string
  eq_QueuePosition :: int
  eq_QueueDepth :: int
  eq_Capacity :: int
  eq_Used :: int
  eq_Available :: int
  eq_WaitMilliseconds :: int
  eq_AdmissionWaitMilliseconds :: int
  eq_QueueWaitMilliseconds :: int
  eq_PressureWaitMilliseconds :: int
  eq_PrestartMilliseconds :: int
  eq_RuntimeMillis :: int
  eq_SingleflightWaitMS :: int
  eq_PressureDimension :: string
  eq_PressureReason :: string
  eq_SchedulingPolicy :: string
  eq_SelectorSchemaVersion :: int
  eq_SelectedOperationID :: string
  eq_ProtectedOperationID :: string
  eq_DecisionReason :: string
  eq_BypassedCount :: int
  eq_BatchStepCount :: int
  eq_BatchCompletedSteps :: int

record WorkEventEvidence =
  ee_CoordinatedWorkAttributionAvailable :: bool
  ee_CoordinatedWorkCPUAvailable :: bool
  ee_CoordinatedWorkCPUPercent :: go_float
  ee_CoordinatedWorkLeaseCount :: int
  ee_CoordinatedWorkProcessCount :: int
  ee_CoordinatedWorkInventoryAgeSeconds :: go_float
  ee_QueueHostCPUAvailable :: bool
  ee_QueueHostCPUPercent :: go_float
  ee_QueueCoordinatedCPUAvailable :: bool
  ee_QueueCoordinatedCPUPercent :: go_float
  ee_QueueCoordinatedInventoryAgeSeconds :: go_float
  ee_CommandCPUAvailable :: bool
  ee_CommandCPUMilliseconds :: int
  ee_CommandPeakRSSMB :: go_float
  ee_LeaseReservedCores :: go_float

record WorkEventDecision =
  ed_PressureLevel :: Level
  ed_CandidateSchedulingPolicy :: string
  ed_ShadowSelectedOperationID :: string
  ed_ShadowProtectedOperationID :: string
  ed_ShadowDecisionReason :: string
  ed_ReuseStatus :: string
  ed_AdmissionDecision :: string
  ed_IdleParkedMilliseconds :: int
  ed_IdleParkCount :: int

record WorkEvent =
  ev_SchemaVersion :: int
  ev_EventID :: string
  ev_RequestID :: string
  ev_Timestamp :: time
  ev_Event :: WorkEventType
  ev_OperationID :: string
  ev_LeaseID :: string
  ev_Class :: WorkClass
  ev_RequestedClass :: "WorkClass option"
  ev_Weight :: int
  ev_PID :: int
  ev_SessionDigest :: string
  ev_CommandDigest :: string
  ev_ExitCode :: "int option"
  ev_Outcome :: string
  ev_ReuseDecision :: string
  ev_ReuseRefusalReason :: string
  ev_ReuseKeyDigest :: string
  ev_ReceiptDigest :: string
  ev_Queue :: WorkEventQueue
  ev_Evidence :: WorkEventEvidence
  ev_Decision :: WorkEventDecision

definition no_queue :: WorkEventQueue where
  "no_queue =
     \<lparr> eq_Blocker = [], eq_QueuePosition = 0, eq_QueueDepth = 0, eq_Capacity = 0, eq_Used = 0,
       eq_Available = 0, eq_WaitMilliseconds = 0, eq_AdmissionWaitMilliseconds = 0,
       eq_QueueWaitMilliseconds = 0, eq_PressureWaitMilliseconds = 0, eq_PrestartMilliseconds = 0,
       eq_RuntimeMillis = 0, eq_SingleflightWaitMS = 0, eq_PressureDimension = [],
       eq_PressureReason = [], eq_SchedulingPolicy = [], eq_SelectorSchemaVersion = 0,
       eq_SelectedOperationID = [], eq_ProtectedOperationID = [], eq_DecisionReason = [],
       eq_BypassedCount = 0, eq_BatchStepCount = 0, eq_BatchCompletedSteps = 0 \<rparr>"

definition no_evidence :: WorkEventEvidence where
  "no_evidence =
     \<lparr> ee_CoordinatedWorkAttributionAvailable = False, ee_CoordinatedWorkCPUAvailable = False,
       ee_CoordinatedWorkCPUPercent = Finite 0, ee_CoordinatedWorkLeaseCount = 0,
       ee_CoordinatedWorkProcessCount = 0, ee_CoordinatedWorkInventoryAgeSeconds = Finite 0,
       ee_QueueHostCPUAvailable = False, ee_QueueHostCPUPercent = Finite 0,
       ee_QueueCoordinatedCPUAvailable = False, ee_QueueCoordinatedCPUPercent = Finite 0,
       ee_QueueCoordinatedInventoryAgeSeconds = Finite 0, ee_CommandCPUAvailable = False,
       ee_CommandCPUMilliseconds = 0, ee_CommandPeakRSSMB = Finite 0,
       ee_LeaseReservedCores = Finite 0 \<rparr>"

definition no_decision :: WorkEventDecision where
  "no_decision =
     \<lparr> ed_PressureLevel = OtherLevel [], ed_CandidateSchedulingPolicy = [],
       ed_ShadowSelectedOperationID = [], ed_ShadowProtectedOperationID = [],
       ed_ShadowDecisionReason = [], ed_ReuseStatus = [], ed_AdmissionDecision = [],
       ed_IdleParkedMilliseconds = 0, ed_IdleParkCount = 0 \<rparr>"

text \<open>A row with the lifecycle fields given and every other field at its zero value.\<close>

definition bare_event ::
  "WorkEventType \<Rightarrow> string \<Rightarrow> string \<Rightarrow> WorkClass \<Rightarrow> int \<Rightarrow> int \<Rightarrow> string \<Rightarrow> WorkEvent" where
  "bare_event type op lease class weight pid outcome =
     \<lparr> ev_SchemaVersion = 0, ev_EventID = [], ev_RequestID = [], ev_Timestamp = 0,
       ev_Event = type, ev_OperationID = op, ev_LeaseID = lease, ev_Class = class,
       ev_RequestedClass = None, ev_Weight = weight, ev_PID = pid, ev_SessionDigest = [],
       ev_CommandDigest = [], ev_ExitCode = None, ev_Outcome = outcome, ev_ReuseDecision = [],
       ev_ReuseRefusalReason = [], ev_ReuseKeyDigest = [], ev_ReceiptDigest = [],
       ev_Queue = no_queue, ev_Evidence = no_evidence,
       ev_Decision = no_decision \<rparr>"

definition WorkEventSchemaVersion :: int where
  "WorkEventSchemaVersion = 4"

definition minimumWorkEventSchemaVersion :: int where
  "minimumWorkEventSchemaVersion = 1"

datatype event_error =
    InvalidEvent string
  | EventClockSkew
  | EventDirectoryMissing
  | EventLocked
  | EventShardUnreadable
  | EventNotWritten

definition validSHA256Digest :: "string \<Rightarrow> bool" where
  "validSHA256Digest value \<longleftrightarrow>
     (let prefix = ''sha256:'' in
      take (length prefix) value = prefix \<and>
      (let digits = drop (length prefix) value in
       hex_decodes digits \<and> length digits div 2 = 32 \<and> value = ToLower value))"

definition boundedText :: "string \<Rightarrow> nat \<Rightarrow> string" where
  "boundedText value limit =
     (let text = join_blank (Fields value) in
      if length text \<le> limit then text else take limit text @ ''...'')"

definition bad_percent :: "go_float \<Rightarrow> bool" where
  "bad_percent p \<longleftrightarrow> \<not> IsFinite p \<or> float_less p 0 \<or> float_greater p 100"

definition bad_amount :: "go_float \<Rightarrow> bool" where
  "bad_amount p \<longleftrightarrow> \<not> IsFinite p \<or> float_less p 0"

definition queue_counters_bad :: "WorkEventQueue \<Rightarrow> bool" where
  "queue_counters_bad q \<longleftrightarrow>
     eq_WaitMilliseconds q < 0 \<or> eq_AdmissionWaitMilliseconds q < 0 \<or> eq_QueueWaitMilliseconds q < 0 \<or>
     eq_PressureWaitMilliseconds q < 0 \<or> eq_PrestartMilliseconds q < 0 \<or> eq_RuntimeMillis q < 0 \<or>
     eq_QueuePosition q < 0 \<or> eq_QueueDepth q < 0 \<or> eq_Capacity q < 0 \<or> eq_Used q < 0 \<or>
     eq_Available q < 0 \<or> eq_BypassedCount q < 0 \<or> eq_BatchStepCount q < 0 \<or>
     eq_BatchCompletedSteps q < 0 \<or> eq_BatchCompletedSteps q > eq_BatchStepCount q \<or>
     eq_SingleflightWaitMS q < 0"

text \<open>
  \<^verbatim>\<open>WorkEvent.Validate\<close>. The checks run in the order of the code; the strings name the check.
\<close>

definition identity_checks :: "WorkEvent \<Rightarrow> (bool \<times> string) list" where
  "identity_checks e =
     [(ev_SchemaVersion e < minimumWorkEventSchemaVersion \<or> ev_SchemaVersion e > WorkEventSchemaVersion,
       ''schema_version''),
      (IsZero (ev_Timestamp e), ''timestamp''),
      (\<not> validPrivateID (ev_EventID e), ''event_id''),
      (\<not> validPrivateID (ev_OperationID e), ''operation_id''),
      (ev_LeaseID e \<noteq> [] \<and> \<not> validPrivateID (ev_LeaseID e), ''lease_id''),
      (ev_SessionDigest e \<noteq> [] \<and> \<not> validSHA256Digest (ev_SessionDigest e), ''session_digest''),
      (ev_CommandDigest e \<noteq> [] \<and> \<not> validSHA256Digest (ev_CommandDigest e), ''command_digest''),
      (ev_ReceiptDigest e \<noteq> [] \<and> \<not> validSHA256Digest (ev_ReceiptDigest e), ''receipt_digest''),
      (ev_ReuseKeyDigest e \<noteq> [] \<and> \<not> validSHA256Digest (ev_ReuseKeyDigest e), ''reuse_key_digest''),
      (ev_ReuseDecision e \<noteq> [] \<and> ev_ReuseDecision e \<noteq> ''reused'' \<and> ev_ReuseDecision e \<noteq> ''ran'',
       ''reuse_decision''),
      (ev_ReuseRefusalReason e \<notin> {[], ''stale_artifact'', ''missing_artifact'', ''source_changed'',
         ''ttl_expired'', ''disabled'', ''receipt_unavailable'', ''singleflight_only'',
         ''undeclared_binary''}, ''reuse_refusal_reason''),
      (ev_ReuseRefusalReason e \<noteq> [] \<and> ev_ReuseDecision e \<noteq> ''ran'', ''reuse refusal''),
      (ParseWorkClass (class_name (ev_Class e)) = None, ''class''),
      (case ev_RequestedClass e of None \<Rightarrow> False | Some c \<Rightarrow> ParseWorkClass (class_name c) = None,
       ''requested_class''),
      (ev_RequestedClass e = Some (ev_Class e), ''requested_class matches class''),
      (ev_RequestID e \<noteq> [] \<and> \<not> validPrivateID (ev_RequestID e), ''request_id'')]"

definition evidence_checks :: "WorkEventEvidence \<Rightarrow> (bool \<times> string) list" where
  "evidence_checks v =
     [(bad_percent (ee_CoordinatedWorkCPUPercent v), ''coordinated CPU percent''),
      (bad_percent (ee_QueueHostCPUPercent v) \<or> bad_percent (ee_QueueCoordinatedCPUPercent v),
       ''queue CPU percent''),
      ((float_greater (ee_QueueHostCPUPercent v) 0 \<and> \<not> ee_QueueHostCPUAvailable v) \<or>
       (float_greater (ee_QueueCoordinatedCPUPercent v) 0 \<and> \<not> ee_QueueCoordinatedCPUAvailable v),
       ''queue CPU evidence''),
      (bad_amount (ee_QueueCoordinatedInventoryAgeSeconds v) \<or> bad_amount (ee_CommandPeakRSSMB v) \<or>
       bad_amount (ee_LeaseReservedCores v), ''resource evidence''),
      (ee_CommandCPUMilliseconds v < 0 \<or> (ee_CommandCPUMilliseconds v > 0 \<and> \<not> ee_CommandCPUAvailable v),
       ''command CPU''),
      (bad_amount (ee_CoordinatedWorkInventoryAgeSeconds v), ''inventory age''),
      (ee_CoordinatedWorkCPUAvailable v \<and> \<not> ee_CoordinatedWorkAttributionAvailable v,
       ''coordinated CPU attribution'')]"

definition shape_checks :: "WorkEvent \<Rightarrow> (bool \<times> string) list" where
  "shape_checks e =
     [(ParseWorkEventType (event_name (ev_Event e)) = None, ''event''),
      (eq_Blocker (ev_Queue e) \<notin> {[], ''none'', ''pressure'', ''capacity'', ''fairness'', ''reservation'',
         ''upgrade'', ''state_lock''}, ''blocker''),
      (eq_PressureDimension (ev_Queue e) \<notin> {[], ''cpu'', ''memory'', ''storage'', ''swap'', ''thermal'',
         ''unknown''}, ''pressure_dimension''),
      (ev_Event e \<in> {WorkEventAcquired, WorkEventReserved, WorkEventReacquired, WorkEventStarted,
         WorkEventCompleted} \<and> ev_LeaseID e = [], ''lease required''),
      (ev_Event e = WorkEventQueued \<and> ev_LeaseID e \<noteq> [], ''queued with lease_id'')]"

definition counter_checks :: "WorkEvent \<Rightarrow> (bool \<times> string) list" where
  "counter_checks e =
     [(ev_Weight e < 1 \<or> queue_counters_bad (ev_Queue e) \<or>
       ee_CoordinatedWorkLeaseCount (ev_Evidence e) < 0 \<or>
       ee_CoordinatedWorkProcessCount (ev_Evidence e) < 0, ''counters'')]"

definition Validate :: "WorkEvent \<Rightarrow> event_error option" where
  "Validate e =
     map_option InvalidEvent
       (first_error (identity_checks e @ counter_checks e @ evidence_checks (ev_Evidence e) @ shape_checks e))"


section \<open>Identity and the durable append\<close>

record event_env =
  en_Dir :: string
  en_Now :: time
  en_Digest :: "string \<Rightarrow> string"
  en_RFC3339 :: "time \<Rightarrow> string"
  en_DayPath :: "time \<Rightarrow> string"
  en_Locked :: "WorkEvent \<Rightarrow> bool"
  en_Scanned :: "WorkEvent \<Rightarrow> bool"
  en_Written :: "WorkEvent \<Rightarrow> bool"
  en_Readable :: "string \<Rightarrow> bool"

abbreviation (input) NUL :: char where
  "NUL \<equiv> CHR 0x00"

definition event_preimage :: "string \<Rightarrow> string \<Rightarrow> string \<Rightarrow> string" where
  "event_preimage op type suffix = op @ NUL # type @ NUL # suffix"

definition workEventID :: "event_env \<Rightarrow> string \<Rightarrow> WorkEventType \<Rightarrow> string \<Rightarrow> string" where
  "workEventID en op type lease = en_Digest en (event_preimage op (event_name type) lease)"

definition workEventIdentity :: "event_env \<Rightarrow> WorkEvent \<Rightarrow> string" where
  "workEventIdentity en e =
     (if ev_Event e = WorkEventOverrideRequested
      then en_Digest en (event_preimage (ev_OperationID e) (event_name (ev_Event e))
             (if ev_RequestID e = [] then en_RFC3339 en (ev_Timestamp e) else ev_RequestID e))
      else workEventID en (ev_OperationID e) (ev_Event e) (ev_LeaseID e))"

definition actionReasonLimit :: nat where
  "actionReasonLimit = 96"

text \<open>What \<^verbatim>\<open>AppendDurable\<close> fills in and truncates before it validates the row.\<close>

definition stamp_event :: "event_env \<Rightarrow> WorkEvent \<Rightarrow> WorkEvent" where
  "stamp_event en e =
     e\<lparr> ev_SchemaVersion := or_default (ev_SchemaVersion e) WorkEventSchemaVersion,
        ev_Timestamp := or_default (ev_Timestamp e) (en_Now en) \<rparr>"

definition complete_event :: "event_env \<Rightarrow> WorkEvent \<Rightarrow> WorkEvent" where
  "complete_event en e =
     (let e = stamp_event en e in
      e\<lparr> ev_EventID := workEventIdentity en e,
         ev_SessionDigest := boundedText (ev_SessionDigest e) 80,
         ev_CommandDigest := boundedText (ev_CommandDigest e) 80,
         ev_Outcome := boundedText (ev_Outcome e) 64,
         ev_Queue := (ev_Queue e)\<lparr>
           eq_PressureDimension := boundedText (eq_PressureDimension (ev_Queue e)) 32,
           eq_PressureReason := boundedText (eq_PressureReason (ev_Queue e)) actionReasonLimit \<rparr> \<rparr>)"

definition shard :: "event_env \<Rightarrow> time \<Rightarrow> WorkEvent list \<Rightarrow> WorkEvent list" where
  "shard en t ledger = filter (\<lambda>e. en_DayPath en (ev_Timestamp e) = en_DayPath en t) ledger"

definition workEventIDExists :: "event_env \<Rightarrow> time \<Rightarrow> string \<Rightarrow> WorkEvent list \<Rightarrow> bool" where
  "workEventIDExists en t eventID ledger \<longleftrightarrow> (\<exists>e \<in> set (shard en t ledger). ev_EventID e = eventID)"

definition AppendDurable ::
  "event_env \<Rightarrow> WorkEvent \<Rightarrow> WorkEvent list \<Rightarrow> event_error + WorkEvent list" where
  "AppendDurable en e ledger =
     (if TrimSpace (en_Dir en) = [] then Inl EventDirectoryMissing
      else if ev_Timestamp (stamp_event en e) > en_Now en + maximumWorkClockSkew then Inl EventClockSkew
      else (let row = complete_event en e in
        case Validate row of
          Some err \<Rightarrow> Inl err
        | None \<Rightarrow>
            if \<not> en_Locked en row then Inl EventLocked
            else if \<not> en_Scanned en row then Inl EventShardUnreadable
            else if workEventIDExists en (ev_Timestamp row) (ev_EventID row) ledger then Inr ledger
            else if \<not> en_Written en row then Inl EventNotWritten
            else Inr (ledger @ [row])))"

text \<open>
  The terminal scan reads every shard; a row that does not validate makes the scan fail.
\<close>

definition operationHasTerminal :: "event_env \<Rightarrow> string \<Rightarrow> WorkEvent list \<Rightarrow> event_error + bool" where
  "operationHasTerminal en op ledger =
     (if \<not> en_Readable en op \<or> (\<exists>e \<in> set ledger. Validate e \<noteq> None) then Inl EventShardUnreadable
      else Inr (\<exists>e \<in> set ledger. ev_OperationID e = op \<and> isWorkTerminalEvent (ev_Event e)))"

text \<open>
  The common body of \<^verbatim>\<open>recordExpired\<close> and \<^verbatim>\<open>recordCancelled\<close> (worklease.go): a terminal row is
  written unless the operation already has one.
\<close>

definition recordTerminal ::
  "event_env \<Rightarrow> WorkEventType \<Rightarrow> string \<Rightarrow> string \<Rightarrow> WorkClass \<Rightarrow> int \<Rightarrow> int \<Rightarrow> string
     \<Rightarrow> WorkEvent list \<Rightarrow> event_error + WorkEvent list"
where
  "recordTerminal en type op lease class weight pid outcome ledger =
     (case operationHasTerminal en op ledger of
        Inl err \<Rightarrow> Inl err
      | Inr True \<Rightarrow> Inr ledger
      | Inr False \<Rightarrow> AppendDurable en (bare_event type op lease class weight pid outcome) ledger)"

definition recordExpired ::
  "event_env \<Rightarrow> string \<Rightarrow> string \<Rightarrow> WorkClass \<Rightarrow> int \<Rightarrow> int \<Rightarrow> string
     \<Rightarrow> WorkEvent list \<Rightarrow> event_error + WorkEvent list"
where
  "recordExpired en = recordTerminal en WorkEventExpired"

definition recordCancelled ::
  "event_env \<Rightarrow> string \<Rightarrow> string \<Rightarrow> WorkClass \<Rightarrow> int \<Rightarrow> int \<Rightarrow> string
     \<Rightarrow> WorkEvent list \<Rightarrow> event_error + WorkEvent list"
where
  "recordCancelled en = recordTerminal en WorkEventCancelled"


section \<open>The lifecycle validator\<close>

record workEventLifecycle =
  lc_class :: WorkClass
  lc_weight :: int
  lc_leaseID :: string
  lc_commandDigest :: string
  lc_sessionDigest :: string
  lc_reserved :: bool
  lc_lastOrder :: int
  lc_seen :: "WorkEventType list"
  lc_terminal :: "WorkEvent option"

definition new_lifecycle :: "WorkEvent \<Rightarrow> workEventLifecycle" where
  "new_lifecycle e =
     \<lparr> lc_class = ev_Class e, lc_weight = ev_Weight e, lc_leaseID = [], lc_commandDigest = [],
       lc_sessionDigest = [], lc_reserved = False, lc_lastOrder = -1, lc_seen = [],
       lc_terminal = None \<rparr>"

datatype lifecycle_error =
    ChangedClassOrWeight string
  | DuplicateEvent string WorkEventType
  | OverrideAfterTerminal string
  | OutOfOrder string WorkEventType
  | ChangedLease string
  | AlreadyReserved string
  | ReacquiredWithoutReservation string
  | ChangedCommandDigest string
  | ChangedSessionDigest string
  | MultipleTerminals string

fun isReconciliationExpiration :: "string \<Rightarrow> bool" where
  "isReconciliationExpiration outcome =
     (outcome \<in> {''dead_lease_owner'', ''reused_lease_pid'', ''dead_waiter_owner'', ''reused_waiter_pid''})"

definition maximumLateReconciliationTerminalLag :: duration where
  "maximumLateReconciliationTerminalLag = seconds 5"

definition isLateRealTerminalAfterReconciliation :: "WorkEvent \<Rightarrow> WorkEvent \<Rightarrow> bool" where
  "isLateRealTerminalAfterReconciliation expired terminal \<longleftrightarrow>
     ev_Event expired = WorkEventExpired \<and>
     ev_Outcome expired \<in> {''dead_lease_owner'', ''reused_lease_pid''} \<and>
     ev_Event terminal \<in> {WorkEventCompleted, WorkEventFailed, WorkEventCancelled} \<and>
     ev_ExitCode terminal \<noteq> None \<and> validSHA256Digest (ev_CommandDigest terminal) \<and>
     ev_OperationID expired = ev_OperationID terminal \<and> ev_Class expired = ev_Class terminal \<and>
     ev_Weight expired = ev_Weight terminal \<and>
     ev_LeaseID expired \<noteq> [] \<and> ev_LeaseID expired = ev_LeaseID terminal \<and>
     ev_PID expired > 0 \<and> ev_PID expired = ev_PID terminal \<and>
     (let lag = time_sub (ev_Timestamp terminal) (ev_Timestamp expired) in
      0 \<le> lag \<and> lag \<le> maximumLateReconciliationTerminalLag)"

definition pressureCycle :: "workEventLifecycle \<Rightarrow> WorkEvent \<Rightarrow> bool" where
  "pressureCycle st e \<longleftrightarrow>
     ev_Event e = WorkEventReserved \<and> lc_lastOrder st = workEventOrder WorkEventReacquired \<and>
     \<not> lc_reserved st"

text \<open>The guards of \<^verbatim>\<open>add\<close> before the terminal check, in its order.\<close>

definition stage_checks :: "workEventLifecycle \<Rightarrow> WorkEvent \<Rightarrow> (bool \<times> lifecycle_error) list" where
  "stage_checks st e =
     (let op = ev_OperationID e; type = ev_Event e in
      [(ev_Class e \<noteq> lc_class st \<or> ev_Weight e \<noteq> lc_weight st, ChangedClassOrWeight op),
       (type \<in> set (lc_seen st) \<and>
        type \<notin> {WorkEventOverrideRequested, WorkEventReserved, WorkEventReacquired},
        DuplicateEvent op type),
       (type = WorkEventOverrideRequested \<and> lc_terminal st \<noteq> None, OverrideAfterTerminal op),
       (type \<noteq> WorkEventOverrideRequested \<and> workEventOrder type < lc_lastOrder st \<and>
        \<not> pressureCycle st e, OutOfOrder op type),
       (ev_LeaseID e \<noteq> [] \<and> lc_leaseID st \<noteq> [] \<and> lc_leaseID st \<noteq> ev_LeaseID e \<and>
        (type \<noteq> WorkEventReacquired \<or> \<not> lc_reserved st), ChangedLease op),
       (type = WorkEventReserved \<and> lc_reserved st, AlreadyReserved op),
       (type = WorkEventReacquired \<and> \<not> lc_reserved st, ReacquiredWithoutReservation op),
       (ev_CommandDigest e \<noteq> [] \<and> lc_commandDigest st \<noteq> [] \<and>
        lc_commandDigest st \<noteq> ev_CommandDigest e, ChangedCommandDigest op),
       (ev_SessionDigest e \<noteq> [] \<and> lc_sessionDigest st \<noteq> [] \<and>
        lc_sessionDigest st \<noteq> ev_SessionDigest e, ChangedSessionDigest op)])"

definition advance_stage :: "workEventLifecycle \<Rightarrow> WorkEvent \<Rightarrow> workEventLifecycle" where
  "advance_stage st e =
     st\<lparr> lc_seen := ev_Event e # lc_seen st,
         lc_lastOrder := (if ev_Event e = WorkEventOverrideRequested then lc_lastOrder st
                          else workEventOrder (ev_Event e)),
         lc_leaseID := (if ev_LeaseID e \<noteq> [] then ev_LeaseID e else lc_leaseID st),
         lc_reserved := (if ev_Event e = WorkEventReserved then True
                         else if ev_Event e = WorkEventReacquired then False else lc_reserved st),
         lc_commandDigest := (if ev_CommandDigest e \<noteq> [] then ev_CommandDigest e
                              else lc_commandDigest st),
         lc_sessionDigest := (if ev_SessionDigest e \<noteq> [] then ev_SessionDigest e
                              else lc_sessionDigest st) \<rparr>"

definition settle_terminal ::
  "workEventLifecycle \<Rightarrow> WorkEvent \<Rightarrow> lifecycle_error + workEventLifecycle" where
  "settle_terminal st e =
     (if \<not> isWorkTerminalEvent (ev_Event e) then Inr st
      else (case lc_terminal st of
              None \<Rightarrow> Inr (st\<lparr> lc_terminal := Some e \<rparr>)
            | Some first \<Rightarrow>
                if ev_Event e = WorkEventExpired \<and> ev_Event first \<noteq> WorkEventExpired \<and>
                   isReconciliationExpiration (ev_Outcome e) then Inr st
                else if isLateRealTerminalAfterReconciliation first e
                then Inr (st\<lparr> lc_terminal := Some e \<rparr>)
                else Inl (MultipleTerminals (ev_OperationID e))))"

definition add_stage :: "workEventLifecycle \<Rightarrow> WorkEvent \<Rightarrow> lifecycle_error + workEventLifecycle" where
  "add_stage st e =
     (case first_error (stage_checks st e) of
        Some err \<Rightarrow> Inl err
      | None \<Rightarrow> settle_terminal (advance_stage st e) e)"

type_synonym lifecycle_validator = "string \<rightharpoonup> workEventLifecycle"

definition lifecycle_of :: "lifecycle_validator \<Rightarrow> WorkEvent \<Rightarrow> workEventLifecycle" where
  "lifecycle_of v e =
     (case v (ev_OperationID e) of None \<Rightarrow> new_lifecycle e | Some st \<Rightarrow> st)"

text \<open>
  \<^verbatim>\<open>workEventLifecycleValidator.add\<close>. Both callers stop feeding an operation once it has failed, so
  the partly updated lifecycle of a failed operation is never read and the validator is left as it
  was.
\<close>

definition add_event :: "lifecycle_validator \<Rightarrow> WorkEvent \<Rightarrow> lifecycle_error + lifecycle_validator" where
  "add_event v e =
     (case add_stage (lifecycle_of v e) e of
        Inl err \<Rightarrow> Inl err
      | Inr st \<Rightarrow> Inr (v(ev_OperationID e \<mapsto> st)))"

fun validate_rows :: "lifecycle_validator \<Rightarrow> WorkEvent list \<Rightarrow> lifecycle_error option" where
  "validate_rows v [] = None"
| "validate_rows v (e # rows) =
     (case add_event v e of Inl err \<Rightarrow> Some err | Inr v' \<Rightarrow> validate_rows v' rows)"

definition validateWorkEventLifecycle :: "WorkEvent list \<Rightarrow> lifecycle_error option" where
  "validateWorkEventLifecycle rows = validate_rows Map.empty rows"

fun partition_rows ::
  "lifecycle_validator \<Rightarrow> (string \<rightharpoonup> lifecycle_error) \<Rightarrow> WorkEvent list \<Rightarrow> (string \<rightharpoonup> lifecycle_error)"
where
  "partition_rows v failed [] = failed"
| "partition_rows v failed (e # rows) =
     (if failed (ev_OperationID e) \<noteq> None then partition_rows v failed rows
      else (case add_event v e of
              Inl err \<Rightarrow> partition_rows v (failed(ev_OperationID e \<mapsto> err)) rows
            | Inr v' \<Rightarrow> partition_rows v' failed rows))"

definition partitionWorkEventLifecycle :: "WorkEvent list \<Rightarrow> (string \<rightharpoonup> lifecycle_error)" where
  "partitionWorkEventLifecycle rows = partition_rows Map.empty Map.empty rows"

text \<open>The rows a tolerant read keeps before its filters.\<close>

definition surviving_rows :: "WorkEvent list \<Rightarrow> WorkEvent list" where
  "surviving_rows rows =
     filter (\<lambda>e. partitionWorkEventLifecycle rows (ev_OperationID e) = None) rows"

record WorkEventDiagnostics =
  SkippedOperations :: nat
  SkippedEvents :: nat

definition partition_diagnostics :: "WorkEvent list \<Rightarrow> WorkEventDiagnostics" where
  "partition_diagnostics rows =
     (let failed = partitionWorkEventLifecycle rows;
          bad = filter (\<lambda>e. failed (ev_OperationID e) \<noteq> None) rows
      in \<lparr> SkippedOperations = length (remdups (map ev_OperationID bad)), SkippedEvents = length bad \<rparr>)"

text \<open>
  \<^verbatim>\<open>normalizeLateReconciliationTerminals\<close>: one pass that remembers the last expiry of each
  operation and marks the operations whose real outcome follows it, then a pass that drops their
  expiries.
\<close>

fun late_recovered :: "(string \<rightharpoonup> WorkEvent) \<Rightarrow> WorkEvent list \<Rightarrow> string list" where
  "late_recovered expired [] = []"
| "late_recovered expired (e # rows) =
     (if ev_Event e = WorkEventExpired
      then late_recovered (expired(ev_OperationID e \<mapsto> e)) rows
      else (case expired (ev_OperationID e) of
              None \<Rightarrow> late_recovered expired rows
            | Some x \<Rightarrow>
                (if isLateRealTerminalAfterReconciliation x e
                 then ev_OperationID e # late_recovered expired rows
                 else late_recovered expired rows)))"

definition normalizeLateReconciliationTerminals :: "WorkEvent list \<Rightarrow> WorkEvent list \<times> nat" where
  "normalizeLateReconciliationTerminals events =
     (let recovered = remdups (late_recovered Map.empty events) in
      (filter (\<lambda>e. \<not> (ev_Event e = WorkEventExpired \<and> ev_OperationID e \<in> set recovered)) events,
       length recovered))"

definition IsWrapperInterruptEvent :: "WorkEvent \<Rightarrow> bool" where
  "IsWrapperInterruptEvent e \<longleftrightarrow>
     ev_Event e = WorkEventCancelled \<and>
     (\<exists>field \<in> {ev_Outcome e, eq_DecisionReason (ev_Queue e), eq_PressureReason (ev_Queue e)}.
        ToLower (TrimSpace field) \<in> {''wrapper_interrupt'', ''agent_kill'', ''signal_interrupt'',
          ''interrupted'', ''signal_forwarded''})"


section \<open>Independence of operations\<close>

abbreviation rows_of :: "string \<Rightarrow> WorkEvent list \<Rightarrow> WorkEvent list" where
  "rows_of op rows \<equiv> filter (\<lambda>e. ev_OperationID e = op) rows"

lemma add_event_other:
  "add_event v e = Inr v' \<Longrightarrow> op \<noteq> ev_OperationID e \<Longrightarrow> v' op = v op"
  by (auto simp: add_event_def split: sum.splits)

lemma add_event_cong:
  assumes "v (ev_OperationID e) = w (ev_OperationID e)"
  shows "(\<exists>err. add_event v e = Inl err \<and> add_event w e = Inl err) \<or>
    (\<exists>v' w'. add_event v e = Inr v' \<and> add_event w e = Inr w' \<and>
       v' (ev_OperationID e) = w' (ev_OperationID e))"
  using assms by (auto simp: add_event_def lifecycle_of_def split: sum.splits)

lemma validate_rows_cong:
  assumes "\<forall>e \<in> set rows. ev_OperationID e = op" and "v op = w op"
  shows "validate_rows v rows = validate_rows w rows"
  using assms
proof (induction rows arbitrary: v w)
  case Nil
  then show ?case by simp
next
  case (Cons e rows)
  then have "v (ev_OperationID e) = w (ev_OperationID e)" by simp
  then consider (err) err where "add_event v e = Inl err" "add_event w e = Inl err"
    | (ok) v' w' where "add_event v e = Inr v'" "add_event w e = Inr w'"
        "v' (ev_OperationID e) = w' (ev_OperationID e)"
    using add_event_cong [of v e w] by blast
  then show ?case
  proof cases
    case err
    then show ?thesis by simp
  next
    case ok
    with Cons.IH [of v' w'] Cons.prems(1) show ?thesis by simp
  qed
qed

lemma validate_rows_skip:
  assumes "add_event v e = Inr v'" and "op \<noteq> ev_OperationID e"
  shows "validate_rows v' (rows_of op rows) = validate_rows v (rows_of op rows)"
  by (rule validate_rows_cong [of _ op]) (use add_event_other [OF assms] in auto)

lemma partition_rows_operation:
  "partition_rows v failed rows op =
     (case failed op of Some err \<Rightarrow> Some err | None \<Rightarrow> validate_rows v (rows_of op rows))"
proof (induction v failed rows rule: partition_rows.induct)
  case (1 v failed)
  then show ?case by (simp split: option.splits)
next
  case (2 v failed e rows)
  show ?case
  proof (cases "failed (ev_OperationID e)")
    case (Some err)
    then show ?thesis using 2(1) by (auto split: option.splits)
  next
    case None
    show ?thesis
    proof (cases "add_event v e")
      case (Inl err)
      with None have "partition_rows v failed (e # rows) op =
          partition_rows v (failed(ev_OperationID e \<mapsto> err)) rows op"
        by simp
      also have "\<dots> = (case (failed(ev_OperationID e \<mapsto> err)) op of Some err \<Rightarrow> Some err
          | None \<Rightarrow> validate_rows v (rows_of op rows))"
        using 2(2) Inl None by blast
      finally show ?thesis using Inl None by (auto split: option.splits)
    next
      case (Inr v')
      then show ?thesis
        using 2(3) [OF _ Inr] None validate_rows_skip [OF Inr, of op rows] by (auto split: option.splits)
    qed
  qed
qed

lemma partition_is_validation:
  "partitionWorkEventLifecycle rows op = validateWorkEventLifecycle (rows_of op rows)"
  by (simp add: partitionWorkEventLifecycle_def validateWorkEventLifecycle_def partition_rows_operation)

lemma validate_rows_iff:
  "validate_rows v rows = None \<longleftrightarrow> (\<forall>op. validate_rows v (rows_of op rows) = None)"
proof (induction rows arbitrary: v)
  case Nil
  then show ?case by simp
next
  case (Cons e rows)
  show ?case
  proof (cases "add_event v e")
    case (Inl err)
    then have "validate_rows v (rows_of (ev_OperationID e) (e # rows)) \<noteq> None" by simp
    then have "\<not> (\<forall>op. validate_rows v (rows_of op (e # rows)) = None)"
      by (intro notI) (drule spec [of _ "ev_OperationID e"], simp)
    with Inl show ?thesis by simp
  next
    case (Inr v')
    then have "validate_rows v (rows_of op (e # rows)) = validate_rows v' (rows_of op rows)" for op
      using validate_rows_skip [OF Inr, of op rows] by (cases "op = ev_OperationID e") auto
    with Inr Cons.IH [of v'] show ?thesis by simp
  qed
qed

lemma surviving_rows_of:
  "rows_of op (surviving_rows rows) =
     (if validateWorkEventLifecycle (rows_of op rows) = None then rows_of op rows else [])"
  by (auto simp: surviving_rows_def partition_is_validation filter_empty_conv intro!: filter_cong)

text \<open>
  Claim C30. One malformed operation cannot blind a reader to another: the tolerant partition reports
  for every operation exactly the fault that validating that operation's own rows alone reports, and
  the rows that survive form a corpus that the strict validator accepts.
\<close>

theorem partition_isolates_operations:
  "partitionWorkEventLifecycle rows op =
     validateWorkEventLifecycle (filter (\<lambda>e. ev_OperationID e = op) rows) \<and>
   validateWorkEventLifecycle (surviving_rows rows) = None"
proof
  show "validateWorkEventLifecycle (surviving_rows rows) = None"
    unfolding validateWorkEventLifecycle_def
    by (subst validate_rows_iff) (simp add: surviving_rows_of validateWorkEventLifecycle_def)
qed (rule partition_is_validation)


section \<open>The shape of an accepted lifecycle\<close>

fun run_stages :: "workEventLifecycle \<Rightarrow> WorkEvent list \<Rightarrow> lifecycle_error + workEventLifecycle" where
  "run_stages st [] = Inr st"
| "run_stages st (e # rows) =
     (case add_stage st e of Inl err \<Rightarrow> Inl err | Inr st' \<Rightarrow> run_stages st' rows)"

lemma run_stages_append:
  "run_stages st (xs @ ys) =
     (case run_stages st xs of Inl err \<Rightarrow> Inl err | Inr st' \<Rightarrow> run_stages st' ys)"
  by (induction xs arbitrary: st) (auto split: sum.splits)

lemma validate_rows_run:
  assumes "\<forall>e \<in> set rows. ev_OperationID e = op" and "v op = Some st"
  shows "validate_rows v rows = None \<longleftrightarrow> (\<exists>st'. run_stages st rows = Inr st')"
  using assms
  by (induction rows arbitrary: v st)
    (auto simp: add_event_def lifecycle_of_def split: sum.splits)

lemma accepted_runs:
  assumes "\<forall>e \<in> set (e # rows). ev_OperationID e = op"
    and "validateWorkEventLifecycle (e # rows) = None"
  obtains st where "run_stages (new_lifecycle e) (e # rows) = Inr st"
proof -
  obtain st1 where st1: "add_stage (new_lifecycle e) e = Inr st1"
    and v: "validate_rows [op \<mapsto> st1] rows = None"
    using assms by (auto simp: validateWorkEventLifecycle_def add_event_def lifecycle_of_def
        split: sum.splits)
  have "\<exists>st'. run_stages st1 rows = Inr st'"
    using validate_rows_run [of rows op "[op \<mapsto> st1]" st1] v assms(1) by simp
  with st1 that show thesis by auto
qed

lemma settle_terminal_frame:
  "settle_terminal st e = Inr st' \<Longrightarrow>
     lc_seen st' = lc_seen st \<and> lc_lastOrder st' = lc_lastOrder st \<and> lc_reserved st' = lc_reserved st \<and>
     (lc_terminal st' \<noteq> None \<longleftrightarrow> lc_terminal st \<noteq> None \<or> isWorkTerminalEvent (ev_Event e))"
  by (auto simp: settle_terminal_def split: if_splits option.splits)

lemma add_stage_ok:
  assumes "add_stage st e = Inr st'"
  shows "list_all (\<lambda>g. \<not> fst g) (stage_checks st e)"
    and "lc_seen st' = ev_Event e # lc_seen st"
    and "lc_lastOrder st' = (if ev_Event e = WorkEventOverrideRequested then lc_lastOrder st
      else workEventOrder (ev_Event e))"
    and "lc_terminal st' \<noteq> None \<longleftrightarrow> lc_terminal st \<noteq> None \<or> isWorkTerminalEvent (ev_Event e)"
proof -
  have ok: "first_error (stage_checks st e) = None"
    and s: "settle_terminal (advance_stage st e) e = Inr st'"
    using assms by (auto simp: add_stage_def split: option.splits)
  from ok show "list_all (\<lambda>g. \<not> fst g) (stage_checks st e)" by simp
  from settle_terminal_frame [OF s]
  show "lc_seen st' = ev_Event e # lc_seen st"
    and "lc_lastOrder st' = (if ev_Event e = WorkEventOverrideRequested then lc_lastOrder st
      else workEventOrder (ev_Event e))"
    and "lc_terminal st' \<noteq> None \<longleftrightarrow> lc_terminal st \<noteq> None \<or> isWorkTerminalEvent (ev_Event e)"
    by (auto simp: advance_stage_def)
qed

lemma terminal_order [simp]: "isWorkTerminalEvent t \<Longrightarrow> workEventOrder t = 6"
  by (cases t) auto

lemma order_six: "workEventOrder t = 6 \<longleftrightarrow> isWorkTerminalEvent t \<or> (\<exists>s. t = UnknownEvent s)"
  by (cases t) auto

lemma workEventOrder_range: "0 \<le> workEventOrder t \<and> workEventOrder t \<le> 6"
  by (cases t) auto

text \<open>Once a terminal row has been accepted the cursor stands at the last stage for good.\<close>

definition closed :: "workEventLifecycle \<Rightarrow> bool" where
  "closed st \<longleftrightarrow> lc_terminal st \<noteq> None \<and> lc_lastOrder st = 6"

lemma add_stage_closed:
  assumes "add_stage st e = Inr st'"
  shows "closed st \<Longrightarrow> closed st' \<and> workEventOrder (ev_Event e) = 6"
    and "isWorkTerminalEvent (ev_Event e) \<Longrightarrow> closed st'"
proof -
  note ok = add_stage_ok [OF assms]
  {
    assume "closed st"
    then have t: "lc_terminal st \<noteq> None" and l: "lc_lastOrder st = 6" by (auto simp: closed_def)
    from ok(1) t have n: "ev_Event e \<noteq> WorkEventOverrideRequested"
      by (simp add: stage_checks_def Let_def)
    with ok(1) l have "\<not> workEventOrder (ev_Event e) < 6"
      by (simp add: stage_checks_def Let_def pressureCycle_def)
    with workEventOrder_range [of "ev_Event e"] have "workEventOrder (ev_Event e) = 6" by linarith
    with ok(3,4) t n show "closed st' \<and> workEventOrder (ev_Event e) = 6" by (simp add: closed_def)
  }
  assume t: "isWorkTerminalEvent (ev_Event e)"
  then have "ev_Event e \<noteq> WorkEventOverrideRequested" by auto
  with t ok(3,4) show "closed st'" by (simp add: closed_def)
qed

lemma run_stages_closed:
  "run_stages st rows = Inr st' \<Longrightarrow> closed st \<Longrightarrow> e \<in> set rows \<Longrightarrow> workEventOrder (ev_Event e) = 6"
proof (induction rows arbitrary: st)
  case Nil
  then show ?case by simp
next
  case (Cons x rows)
  then obtain st1 where s: "add_stage st x = Inr st1" and r: "run_stages st1 rows = Inr st'"
    by (auto split: sum.splits)
  from add_stage_closed(1) [OF s Cons.prems(2)] Cons.IH [OF r] Cons.prems(3) show ?case by auto
qed

lemma run_stages_seen: "run_stages st rows = Inr st' \<Longrightarrow> lc_seen st' = rev (map ev_Event rows) @ lc_seen st"
  by (induction rows arbitrary: st) (auto split: sum.splits dest: add_stage_ok(2))

lemma run_stages_unique:
  assumes "run_stages st rows = Inr st'"
    and "t \<notin> {WorkEventOverrideRequested, WorkEventReserved, WorkEventReacquired}"
  shows "count_list (map ev_Event rows) t \<le> (if t \<in> set (lc_seen st) then 0 else 1)"
  using assms(1)
proof (induction rows arbitrary: st)
  case Nil
  then show ?case by simp
next
  case (Cons x rows)
  then obtain st1 where s: "add_stage st x = Inr st1" and r: "run_stages st1 rows = Inr st'"
    by (auto split: sum.splits)
  have "t \<notin> set (lc_seen st)" if "ev_Event x = t"
    using add_stage_ok(1) [OF s] that assms(2) by (auto simp: stage_checks_def Let_def)
  with Cons.IH [OF r] add_stage_ok(2) [OF s] show ?case by (auto split: if_splits)
qed

text \<open>
  In the rows of one operation that the validator accepts, every lifecycle stage happens at
  most once (only pressure reservations, their reacquisitions and operator overrides repeat), and
  after a terminal row nothing but another terminal row (or a row of no published type) follows: no
  operation is queued, acquired, started or overridden after it ended.
\<close>

theorem accepted_lifecycle_shape:
  assumes "validateWorkEventLifecycle rows = None" and "\<forall>e \<in> set rows. ev_OperationID e = op"
  shows "(\<forall>t. t \<notin> {WorkEventOverrideRequested, WorkEventReserved, WorkEventReacquired} \<longrightarrow>
      count_list (map ev_Event rows) t \<le> 1) \<and>
    (\<forall>pre e post x. rows = pre @ e # post \<longrightarrow> isWorkTerminalEvent (ev_Event e) \<longrightarrow> x \<in> set post \<longrightarrow>
      isWorkTerminalEvent (ev_Event x) \<or> (\<exists>s. ev_Event x = UnknownEvent s))"
proof (intro conjI allI impI)
  fix t
  assume t: "t \<notin> {WorkEventOverrideRequested, WorkEventReserved, WorkEventReacquired}"
  show "count_list (map ev_Event rows) t \<le> 1"
  proof (cases rows)
    case Nil
    then show ?thesis by simp
  next
    case (Cons e es)
    then obtain st where "run_stages (new_lifecycle e) rows = Inr st"
      using accepted_runs assms(1,2) by metis
    from run_stages_unique [OF this t] show ?thesis by (simp add: new_lifecycle_def)
  qed
next
  fix pre e post x
  assume rows: "rows = pre @ e # post" and t: "isWorkTerminalEvent (ev_Event e)" and x: "x \<in> set post"
  obtain f fs where "rows = f # fs" using rows by (metis append_is_Nil_conv list.distinct(1) neq_Nil_conv)
  then obtain st where st: "run_stages (new_lifecycle f) rows = Inr st"
    using accepted_runs assms(1,2) by metis
  then obtain st1 st2 where s: "add_stage st1 e = Inr st2" and r: "run_stages st2 post = Inr st"
    by (auto simp: rows run_stages_append split: sum.splits)
  have "workEventOrder (ev_Event x) = 6"
    by (rule run_stages_closed [OF r add_stage_closed(2) [OF s t] x])
  then show "isWorkTerminalEvent (ev_Event x) \<or> (\<exists>s. ev_Event x = UnknownEvent s)"
    by (simp add: order_six)
qed

theorem accepted_lifecycle_shape_witness:
  "let rows = [bare_event WorkEventQueued ''o'' [] WorkClassTest 3 1 [],
      bare_event WorkEventStarted ''o'' ''l'' WorkClassTest 3 1 [],
      bare_event WorkEventCompleted ''o'' ''l'' WorkClassTest 3 1 []]
   in validateWorkEventLifecycle rows = None \<and> count_list (map ev_Event rows) WorkEventCompleted \<le> 1"
proof -
  let ?rows = "[bare_event WorkEventQueued ''o'' [] WorkClassTest 3 1 [],
      bare_event WorkEventStarted ''o'' ''l'' WorkClassTest 3 1 [],
      bare_event WorkEventCompleted ''o'' ''l'' WorkClassTest 3 1 []]"
  have ok: "validateWorkEventLifecycle ?rows = None"
    by (simp add: validateWorkEventLifecycle_def add_event_def lifecycle_of_def add_stage_def
        stage_checks_def advance_stage_def settle_terminal_def bare_event_def new_lifecycle_def
        pressureCycle_def Let_def)
  have "count_list (map ev_Event ?rows) WorkEventCompleted \<le> 1"
    using accepted_lifecycle_shape [OF ok, of "''o''"] by (simp add: bare_event_def)
  with ok show ?thesis by (simp add: Let_def)
qed


section \<open>The store\<close>

text \<open>
  What every append keeps: each row on disk validates, and no day file holds two rows with one
  identity.
\<close>

definition ledger_ok :: "event_env \<Rightarrow> WorkEvent list \<Rightarrow> bool" where
  "ledger_ok en ledger \<longleftrightarrow>
     list_all (\<lambda>e. Validate e = None) ledger \<and>
     (\<forall>t. distinct (map ev_EventID (shard en t ledger)))"

lemma AppendDurable_cases:
  assumes "AppendDurable en e ledger = Inr ledger'"
  shows "Validate (complete_event en e) = None \<and>
    (ledger' = ledger \<and>
       workEventIDExists en (ev_Timestamp (complete_event en e)) (ev_EventID (complete_event en e)) ledger \<or>
     ledger' = ledger @ [complete_event en e] \<and>
       \<not> workEventIDExists en (ev_Timestamp (complete_event en e)) (ev_EventID (complete_event en e)) ledger)"
  using assms by (auto simp: AppendDurable_def Let_def split: if_splits option.splits)

lemma shard_append_row:
  "shard en t (ledger @ [e]) =
     shard en t ledger @ (if en_DayPath en (ev_Timestamp e) = en_DayPath en t then [e] else [])"
  by (simp add: shard_def)

lemma shard_day_cong: "en_DayPath en t = en_DayPath en u \<Longrightarrow> shard en t ledger = shard en u ledger"
  by (simp add: shard_def)

lemma AppendDurable_ledger_ok:
  assumes "ledger_ok en ledger" and "AppendDurable en e ledger = Inr ledger'"
  shows "ledger_ok en ledger'"
proof -
  let ?r = "complete_event en e"
  have v: "Validate ?r = None"
    using AppendDurable_cases [OF assms(2)] by blast
  have "distinct (map ev_EventID (shard en t (ledger @ [?r])))"
    if "\<not> workEventIDExists en (ev_Timestamp ?r) (ev_EventID ?r) ledger" for t
  proof (cases "en_DayPath en (ev_Timestamp ?r) = en_DayPath en t")
    case True
    from shard_day_cong [OF this] that assms(1) show ?thesis
      by (auto simp: shard_append_row ledger_ok_def workEventIDExists_def)
  next
    case False
    with assms(1) show ?thesis by (simp add: shard_append_row ledger_ok_def)
  qed
  with AppendDurable_cases [OF assms(2)] assms(1) v show ?thesis
    by (auto simp: ledger_ok_def)
qed

text \<open>A store whose file system serves every call, for the witnesses.\<close>

definition sample_id :: "char \<Rightarrow> string" where
  "sample_id c = replicate 32 c"

definition sample_events :: "time \<Rightarrow> event_env" where
  "sample_events now =
     \<lparr> en_Dir = ''/data'', en_Now = now, en_Digest = (\<lambda>x. sample_id CHR ''0''), en_RFC3339 = (\<lambda>t. []),
       en_DayPath = (\<lambda>t. ''day''), en_Locked = (\<lambda>e. True), en_Scanned = (\<lambda>e. True),
       en_Written = (\<lambda>e. True), en_Readable = (\<lambda>op. True) \<rparr>"

lemma sample_id_valid [simp]:
  "validPrivateID (sample_id CHR ''0'')" "validPrivateID (sample_id CHR ''a'')"
  "validPrivateID (sample_id CHR ''b'')" "validPrivateID (sample_id CHR ''c'')"
  by code_simp+

lemma sample_expiry:
  "\<exists>row. AppendDurable (sample_events 7)
      (bare_event WorkEventExpired (sample_id CHR ''a'') [] WorkClassTest 3 1 ''dead_waiter_owner'') []
    = Inr [row]"
proof -
  let ?e = "bare_event WorkEventExpired (sample_id CHR ''a'') [] WorkClassTest 3 1 ''dead_waiter_owner''"
  have "Validate (complete_event (sample_events 7) ?e) = None" by code_simp
  moreover have "TrimSpace ''/data'' \<noteq> []" by code_simp
  ultimately show ?thesis
    by (simp add: AppendDurable_def sample_events_def stamp_event_def bare_event_def workEventIDExists_def
        shard_def maximumWorkClockSkew_def seconds_def or_default_def Let_def)
qed

text \<open>
  Two calls on the same store: its directory, the identity digest, the format of a time and the day
  of a time (the time zone) are those of the other call. The clock and what the file system answers
  are the call's own.
\<close>

definition same_store :: "event_env \<Rightarrow> event_env \<Rightarrow> bool" where
  "same_store en later \<longleftrightarrow>
     en_Dir later = en_Dir en \<and> en_Digest later = en_Digest en \<and> en_RFC3339 later = en_RFC3339 en \<and>
     en_DayPath later = en_DayPath en"

text \<open>Calls in any order, each with its own clock and outcomes; a call that fails writes nothing.\<close>

definition append_call :: "event_env \<times> WorkEvent \<Rightarrow> WorkEvent list \<Rightarrow> WorkEvent list" where
  "append_call call ledger =
     (case AppendDurable (fst call) (snd call) ledger of Inl err \<Rightarrow> ledger | Inr ledger' \<Rightarrow> ledger')"

definition identity_rows :: "event_env \<Rightarrow> WorkEvent \<Rightarrow> WorkEvent list \<Rightarrow> WorkEvent list" where
  "identity_rows en row ledger = filter (\<lambda>r. ev_EventID r = ev_EventID row) (shard en (ev_Timestamp row) ledger)"

lemma same_store_shard: "same_store en later \<Longrightarrow> shard later = shard en"
  by (simp add: same_store_def shard_def fun_eq_iff)

lemma same_store_ledger_ok: "same_store en later \<Longrightarrow> ledger_ok later = ledger_ok en"
  by (simp add: fun_eq_iff ledger_ok_def same_store_shard)

lemma same_store_exists: "same_store en later \<Longrightarrow> workEventIDExists later = workEventIDExists en"
  by (simp add: fun_eq_iff workEventIDExists_def same_store_shard)

lemma complete_event_stamped:
  assumes "same_store en later" and "ev_Timestamp e \<noteq> 0"
  shows "complete_event later e = complete_event en e"
proof -
  have "stamp_event later e = stamp_event en e" using assms(2) by (simp add: stamp_event_def or_default_def)
  moreover have "workEventIdentity later = workEventIdentity en"
    using assms(1) by (simp add: fun_eq_iff same_store_def workEventIdentity_def workEventID_def)
  ultimately show ?thesis by (simp add: complete_event_def)
qed

lemma append_call_grows: "\<exists>rows. append_call call ledger = ledger @ rows"
  using AppendDurable_cases [of "fst call" "snd call" ledger]
  by (auto simp: append_call_def split: sum.splits)

lemma append_calls_grow: "\<exists>rows. fold append_call calls ledger = ledger @ rows"
proof (induction calls arbitrary: ledger)
  case (Cons call calls)
  obtain a where "append_call call ledger = ledger @ a" using append_call_grows by blast
  moreover obtain b where "fold append_call calls (ledger @ a) = (ledger @ a) @ b" using Cons.IH by blast
  ultimately show ?case by simp
qed simp

lemma append_calls_ok:
  assumes "ledger_ok en ledger" and "list_all (\<lambda>call. same_store en (fst call)) calls"
  shows "ledger_ok en (fold append_call calls ledger)"
  using assms
proof (induction calls arbitrary: ledger)
  case (Cons call calls)
  then have "ledger_ok en (append_call call ledger)"
    using AppendDurable_ledger_ok [of "fst call" ledger "snd call"]
    by (auto simp: append_call_def same_store_ledger_ok split: sum.splits)
  then show ?case using Cons by simp
qed simp

lemma appended_exists:
  assumes "AppendDurable en e ledger = Inr ledger'"
  shows "workEventIDExists en (ev_Timestamp (complete_event en e)) (ev_EventID (complete_event en e)) (ledger' @ rows)"
  using AppendDurable_cases [OF assms] by (auto simp: workEventIDExists_def shard_def)

lemma distinct_count_once: "distinct xs \<Longrightarrow> x \<in> set xs \<Longrightarrow> count_list xs x = 1"
  by (induction xs) (auto simp: count_notin)

lemma one_row_of:
  assumes "ledger_ok en ledger" and "workEventIDExists en (ev_Timestamp row) (ev_EventID row) ledger"
  shows "length (identity_rows en row ledger) = 1"
proof -
  let ?ids = "map ev_EventID (shard en (ev_Timestamp row) ledger)"
  have "length (identity_rows en row ledger) = count_list ?ids (ev_EventID row)"
    by (simp add: identity_rows_def count_list_eq_length_filter filter_map comp_def eq_commute)
  moreover have "distinct ?ids" using assms(1) by (simp add: ledger_ok_def)
  moreover have "ev_EventID row \<in> set ?ids"
    using assms(2) by (simp add: workEventIDExists_def image_iff) metis
  ultimately show ?thesis using distinct_count_once by metis
qed

text \<open>
  Claim C31. The durable append of a stamped event is idempotent over retries. Once one append of it
  succeeded, after any further calls by anyone on the same store, with their own clocks and failures,
  its day file has exactly one row with its identity and every row that was there is still there; a
  retry of it at any later time adds no row, whether it succeeds or not, and it succeeds when the
  clock is not behind the event by more than the skew, the file is locked in time and its rows
  decode.
\<close>

theorem AppendDurable_idempotent:
  assumes "ledger_ok en ledger" and "AppendDurable en e ledger = Inr ledger'" and "ev_Timestamp e \<noteq> 0"
    and "list_all (\<lambda>call. same_store en (fst call)) calls" and "same_store en later"
  shows "let now = fold append_call calls ledger'; row = complete_event en e in
    ledger_ok en now \<and> length (identity_rows en row now) = 1 \<and> (\<exists>rows. now = ledger' @ rows) \<and>
    append_call (later, e) now = now \<and>
    (ev_Timestamp e \<le> en_Now later + maximumWorkClockSkew \<and> en_Locked later row \<and> en_Scanned later row \<longrightarrow>
       AppendDurable later e now = Inr now)"
proof -
  let ?now = "fold append_call calls ledger'" and ?row = "complete_event en e"
  obtain rows where rows: "?now = ledger' @ rows" using append_calls_grow by blast
  have ok: "ledger_ok en ?now" using append_calls_ok [OF AppendDurable_ledger_ok [OF assms(1,2)] assms(4)] .
  have found: "workEventIDExists en (ev_Timestamp ?row) (ev_EventID ?row) ?now"
    unfolding rows by (rule appended_exists [OF assms(2)])
  note same = complete_event_stamped [OF assms(5,3)] same_store_exists [OF assms(5)]
  have stamp: "ev_Timestamp (stamp_event later e) = ev_Timestamp e"
    using assms(3) by (simp add: stamp_event_def or_default_def)
  have dir: "TrimSpace (en_Dir later) \<noteq> []" "Validate ?row = None"
    using assms(2,5) AppendDurable_cases [OF assms(2)] by (auto simp: AppendDurable_def same_store_def split: if_splits)
  have retry: "AppendDurable later e ?now =
      (if ev_Timestamp e > en_Now later + maximumWorkClockSkew then Inl EventClockSkew
       else if \<not> en_Locked later ?row then Inl EventLocked
       else if \<not> en_Scanned later ?row then Inl EventShardUnreadable else Inr ?now)"
    using found dir by (simp add: AppendDurable_def same stamp Let_def)
  then have "append_call (later, e) ?now = ?now" by (simp add: append_call_def)
  then show ?thesis using ok one_row_of [OF ok found] rows retry by (simp add: Let_def)
qed

definition stamped_expiry :: WorkEvent where
  "stamped_expiry =
     (bare_event WorkEventExpired (sample_id CHR ''a'') [] WorkClassTest 3 1 ''dead_waiter_owner'')\<lparr> ev_Timestamp := 7 \<rparr>"

lemma sample_stamped: "\<exists>row. AppendDurable (sample_events 7) stamped_expiry [] = Inr [row]"
proof -
  have "Validate (complete_event (sample_events 7) stamped_expiry) = None" by code_simp
  moreover have "TrimSpace ''/data'' \<noteq> []" by code_simp
  ultimately show ?thesis
    by (simp add: AppendDurable_def sample_events_def stamp_event_def stamped_expiry_def bare_event_def
        workEventIDExists_def shard_def maximumWorkClockSkew_def seconds_def or_default_def Let_def)
qed

theorem AppendDurable_idempotent_witness:
  "\<exists>ledger. AppendDurable (sample_events 7) stamped_expiry [] = Inr ledger \<and> length ledger = 1 \<and>
     AppendDurable (sample_events 90000) stamped_expiry ledger = Inr ledger"
proof -
  obtain row where row: "AppendDurable (sample_events 7) stamped_expiry [] = Inr [row]" using sample_stamped by blast
  have "ledger_ok (sample_events 7) []" by (simp add: ledger_ok_def shard_def)
  moreover have "ev_Timestamp stamped_expiry \<noteq> 0" by (simp add: stamped_expiry_def)
  moreover have "same_store (sample_events 7) (sample_events 90000)" by (simp add: same_store_def sample_events_def)
  moreover have "ev_Timestamp stamped_expiry \<le> en_Now (sample_events 90000) + maximumWorkClockSkew"
    by (simp add: stamped_expiry_def sample_events_def maximumWorkClockSkew_def seconds_def)
  ultimately show ?thesis
    using AppendDurable_idempotent [OF _ row, of "[]" "sample_events 90000"] row
    by (simp add: Let_def sample_events_def)
qed

text \<open>
  An event without a time of its own takes that of the call, which chooses the day file: when the two
  calls fall on different days, the second one writes a second row with the same identity.
\<close>

theorem unstamped_retry_adds_row:
  assumes "AppendDurable en e [] = Inr [row]" and "ev_Timestamp e = 0" and "ev_Event e \<noteq> WorkEventOverrideRequested"
    and "same_store en later" and "en_DayPath en (en_Now later) \<noteq> en_DayPath en (en_Now en)"
    and "Validate (complete_event later e) = None" and "en_Locked later (complete_event later e)"
    and "en_Scanned later (complete_event later e)" and "en_Written later (complete_event later e)"
  shows "\<exists>again. AppendDurable later e [row] = Inr [row, again] \<and> ev_EventID again = ev_EventID row"
proof -
  have row: "row = complete_event en e" using AppendDurable_cases [OF assms(1)] by auto
  have times: "ev_Timestamp (complete_event later e) = en_Now later" "ev_Timestamp (complete_event en e) = en_Now en"
    using assms(2) by (simp_all add: complete_event_def stamp_event_def or_default_def Let_def)
  have ids: "ev_EventID (complete_event later e) = ev_EventID row"
    using assms(3,4) by (simp add: row complete_event_def stamp_event_def workEventIdentity_def workEventID_def
        same_store_def Let_def)
  have "\<not> workEventIDExists later (en_Now later) (ev_EventID (complete_event later e)) [row]"
    using assms(4,5) times(2) by (simp add: workEventIDExists_def shard_def row same_store_def)
  moreover have "TrimSpace (en_Dir later) \<noteq> []"
    using assms(1,4) by (auto simp: AppendDurable_def same_store_def split: if_splits)
  moreover have "ev_Timestamp (stamp_event later e) = en_Now later"
    using assms(2) by (simp add: stamp_event_def or_default_def)
  ultimately have "AppendDurable later e [row] = Inr [row, complete_event later e]"
    using assms(6-9) times(1) by (simp add: AppendDurable_def Let_def maximumWorkClockSkew_def seconds_def)
  then show ?thesis using ids by blast
qed

definition terminal_rows :: "string \<Rightarrow> WorkEvent list \<Rightarrow> WorkEvent list" where
  "terminal_rows op ledger = filter (\<lambda>e. ev_OperationID e = op \<and> isWorkTerminalEvent (ev_Event e)) ledger"

lemma complete_event_simps [simp]:
  "ev_OperationID (complete_event en e) = ev_OperationID e" "ev_Event (complete_event en e) = ev_Event e"
  "ev_LeaseID (complete_event en e) = ev_LeaseID e" "ev_Class (complete_event en e) = ev_Class e"
  "ev_Weight (complete_event en e) = ev_Weight e" "ev_PID (complete_event en e) = ev_PID e"
  by (simp_all add: complete_event_def stamp_event_def Let_def)

lemma bare_event_simps [simp]:
  "ev_OperationID (bare_event t op l c w p out) = op" "ev_Event (bare_event t op l c w p out) = t"
  "ev_LeaseID (bare_event t op l c w p out) = l" "ev_Class (bare_event t op l c w p out) = c"
  "ev_Weight (bare_event t op l c w p out) = w" "ev_Outcome (bare_event t op l c w p out) = out"
  by (simp_all add: bare_event_def)

lemma recordTerminal_cases:
  assumes "recordTerminal en type op lease class weight pid outcome ledger = Inr ledger'"
  shows "ledger' = ledger \<or>
    terminal_rows op ledger = [] \<and>
    ledger' = ledger @ [complete_event en (bare_event type op lease class weight pid outcome)]"
proof -
  consider "ledger' = ledger" | "\<not> (\<exists>e \<in> set ledger. ev_OperationID e = op \<and> isWorkTerminalEvent (ev_Event e))"
    "AppendDurable en (bare_event type op lease class weight pid outcome) ledger = Inr ledger'"
    using assms
    by (auto simp: recordTerminal_def operationHasTerminal_def split: sum.splits bool.splits if_splits)
  then show ?thesis
    using AppendDurable_cases by cases (force simp: terminal_rows_def filter_empty_conv)+
qed

text \<open>
  Reconciliation and operator cancellation never write a second outcome: recording the expiry
  or cancellation of an operation adds at most one row, a row of that operation and type, and only when
  the operation had no terminal row; the terminal rows of every other operation are untouched.
\<close>

theorem recordTerminal_no_second_outcome:
  assumes "recordTerminal en type op lease class weight pid outcome ledger = Inr ledger'"
  shows "length (terminal_rows op ledger') \<le> max 1 (length (terminal_rows op ledger)) \<and>
    (terminal_rows op ledger \<noteq> [] \<longrightarrow> ledger' = ledger) \<and>
    (\<forall>x. x \<noteq> op \<longrightarrow> terminal_rows x ledger' = terminal_rows x ledger)"
  using recordTerminal_cases [OF assms] by (auto simp: terminal_rows_def)

theorem recordTerminal_no_second_outcome_witness:
  "\<exists>row. recordTerminal (sample_events 7) WorkEventExpired (sample_id CHR ''a'') [] WorkClassTest 3 1
      ''dead_waiter_owner'' [] = Inr [row] \<and> length (terminal_rows (sample_id CHR ''a'') [row]) \<le> 1"
proof -
  obtain row where row: "recordTerminal (sample_events 7) WorkEventExpired (sample_id CHR ''a'') []
      WorkClassTest 3 1 ''dead_waiter_owner'' [] = Inr [row]"
    using sample_expiry by (auto simp: recordTerminal_def operationHasTerminal_def sample_events_def)
  from recordTerminal_no_second_outcome [OF row] row show ?thesis
    by (intro exI [of _ row]) (simp add: terminal_rows_def)
qed

lemma preimage_inj:
  assumes "length op = length op'" and "NUL \<notin> set t" and "NUL \<notin> set t'"
  shows "event_preimage op t s = event_preimage op' t' s' \<longleftrightarrow> op = op' \<and> t = t' \<and> s = s'"
proof
  assume "event_preimage op t s = event_preimage op' t' s'"
  then have "op = op'" and e: "t @ NUL # s = t' @ NUL # s'"
    using assms(1) by (auto simp: event_preimage_def)
  from assms(2) have "t = takeWhile (\<lambda>c. c \<noteq> NUL) (t @ NUL # s)"
    by (subst takeWhile_append2) auto
  also have "\<dots> = t'"
    unfolding e using assms(3) by (subst takeWhile_append2) auto
  finally show "op = op' \<and> t = t' \<and> s = s'" using \<open>op = op'\<close> e by simp
qed simp

text \<open>
  Two lifecycle rows of valid operations share an identity only when they agree on operation,
  type and lease, unless the truncated digest collides on two different inputs: distinct rows are never
  merged by the way their identity is assembled.
\<close>

theorem workEventIdentity_distinguishes:
  assumes "validPrivateID (ev_OperationID a)" and "validPrivateID (ev_OperationID b)"
    and "\<forall>s. ev_Event a \<noteq> UnknownEvent s" and "\<forall>s. ev_Event b \<noteq> UnknownEvent s"
    and "ev_Event a \<noteq> WorkEventOverrideRequested" and "ev_Event b \<noteq> WorkEventOverrideRequested"
    and "workEventIdentity en a = workEventIdentity en b"
  shows "ev_OperationID a = ev_OperationID b \<and> ev_Event a = ev_Event b \<and> ev_LeaseID a = ev_LeaseID b \<or>
    (\<exists>x y. x \<noteq> y \<and> en_Digest en x = en_Digest en y)"
proof -
  let ?pa = "event_preimage (ev_OperationID a) (event_name (ev_Event a)) (ev_LeaseID a)"
  let ?pb = "event_preimage (ev_OperationID b) (event_name (ev_Event b)) (ev_LeaseID b)"
  have n: "NUL \<notin> set (event_name t)" if "\<forall>s. t \<noteq> UnknownEvent s" for t
    using that by (cases t) auto
  have d: "en_Digest en ?pa = en_Digest en ?pb"
    using assms(5-7) by (simp add: workEventIdentity_def workEventID_def)
  show ?thesis
  proof (cases "?pa = ?pb")
    case True
    then have "ev_OperationID a = ev_OperationID b" "event_name (ev_Event a) = event_name (ev_Event b)"
      "ev_LeaseID a = ev_LeaseID b"
      using preimage_inj [OF _ n [OF assms(3)] n [OF assms(4)], of "ev_OperationID a" "ev_OperationID b"]
        assms(1,2) validPrivateID_length by simp_all
    moreover from this(2) assms(3,4) have "ev_Event a = ev_Event b"
      by (cases "ev_Event a"; cases "ev_Event b"; simp)
    ultimately show ?thesis by simp
  next
    case False
    with d show ?thesis by blast
  qed
qed

theorem workEventIdentity_distinguishes_witness:
  "let a = bare_event WorkEventStarted (sample_id CHR ''a'') ''x'' WorkClassTest 3 1 [];
       b = bare_event WorkEventStarted (sample_id CHR ''a'') ''y'' WorkClassTest 3 1 []
   in workEventIdentity (sample_events 7) a = workEventIdentity (sample_events 7) b \<and>
      (\<exists>x y. x \<noteq> y \<and> en_Digest (sample_events 7) x = en_Digest (sample_events 7) y)"
proof -
  let ?a = "bare_event WorkEventStarted (sample_id CHR ''a'') ''x'' WorkClassTest 3 1 []"
  let ?b = "bare_event WorkEventStarted (sample_id CHR ''a'') ''y'' WorkClassTest 3 1 []"
  have i: "workEventIdentity (sample_events 7) ?a = workEventIdentity (sample_events 7) ?b"
    by (simp add: workEventIdentity_def workEventID_def sample_events_def)
  from workEventIdentity_distinguishes [of ?a ?b "sample_events 7"] i show ?thesis
    by (simp add: Let_def)
qed

end
