(* ===== verification/Work_Host.thy ===== *)
theory Work_Host
  imports Work_Selector Work_Event Pressure_Level
begin

text \<open>
  A coordinator and the host it runs on (\<^verbatim>\<open>sessionpressure/worklease.go\<close>): its configuration and
  validation, its scheduling policy, the resolution of process identities and the verified-green
  express window.

  What one operation of a coordinator observes of the host is the record \<open>host_env\<close>: the clock at
  each of the points where the code reads it, the answers of the process probes at each place that
  asks (a process may die between two probes of one operation), whether the state lock was taken and
  the state file written, the random identities drawn, the origin stamp of the process environment,
  the resident's latest sample and the event store's surroundings.
\<close>

record WorkCoordinator =
  c_Dir :: string
  c_Limits :: WorkLimits
  c_PID :: int
  c_SchedulingPolicy :: string
  c_NumCPU :: int

record workOriginStamp =
  os_Kind :: string
  os_ScheduleID :: string
  os_ScheduleRunID :: string
  os_AgentKind :: string

record green_sample =
  gs_Timestamp :: time
  gs_Level :: Level
  gs_HostCPUPercent :: rat
  gs_MemoryMomentum :: string
  gs_GuardBudgetOK :: bool
  gs_GuardBaselineProven :: bool

datatype tick = AtRecord | AtGreen | AtReconcile | AtOverride | AtHolds | AtMutate | AtStatus

datatype probe =
    LeaseSupervisor | LeaseOwner | LeaseOwnerRecheck | WaiterOwner | WaiterOwnerRecheck | HoldOwner
  | OwnProcess

record host_env =
  x_Clock :: "tick \<Rightarrow> time"
  x_Alive :: "probe \<Rightarrow> string \<Rightarrow> int \<Rightarrow> bool"
  x_Identity :: "probe \<Rightarrow> string \<Rightarrow> int \<Rightarrow> string option"
  x_StateLocked :: bool
  x_StateWritten :: bool
  x_Random :: "nat \<Rightarrow> string option"
  x_Origin :: workOriginStamp
  x_NoGreenExpress :: bool
  x_Latest :: "green_sample option"
  x_Events :: event_env

definition coordinator_limits :: "WorkCoordinator \<Rightarrow> WorkLimits" where
  "coordinator_limits c = normalizeWorkLimits (c_NumCPU c) (c_Limits c)"

definition NewWorkCoordinator :: "string \<Rightarrow> WorkLimits \<Rightarrow> int \<Rightarrow> int \<Rightarrow> WorkCoordinator" where
  "NewWorkCoordinator dir limits pid ncpu =
     (let limits = normalizeWorkLimits ncpu limits in
      \<lparr> c_Dir = dir, c_Limits = limits, c_PID = pid, c_SchedulingPolicy = SchedulingPolicy limits,
        c_NumCPU = ncpu \<rparr>)"

definition validate :: "WorkCoordinator \<Rightarrow> bool" where
  "validate c \<longleftrightarrow> TrimSpace (c_Dir c) \<noteq> [] \<and> 0 < c_PID c \<and> coordinator_limits_ok (coordinator_limits c)"

definition schedulingPolicy :: "WorkCoordinator \<Rightarrow> string" where
  "schedulingPolicy c =
     (if c_SchedulingPolicy c = WorkSchedulingPolicy then WorkSchedulingPolicy
      else WorkSchedulingPolicyFIFO)"

definition coordinator_weight :: "WorkCoordinator \<Rightarrow> WorkClass \<Rightarrow> int option" where
  "coordinator_weight c class = Weight (c_NumCPU c) (coordinator_limits c) class"

definition identityForPID :: "host_env \<Rightarrow> int \<Rightarrow> work_error + string" where
  "identityForPID x pid =
     (if pid \<le> 0 then Inl (IdentityUnresolved pid)
      else (case x_Identity x OwnProcess [] pid of
              None \<Rightarrow> Inl (IdentityUnresolved pid)
            | Some raw \<Rightarrow>
                (let token = TrimSpace raw in
                 if token = [] \<or> token = legacyWorkOwnerIdentityToken
                 then Inl (IdentityUnresolved pid) else Inr token)))"

definition workGreenExpressOvercommit :: int where
  "workGreenExpressOvercommit = 2"

definition workGreenExpressMaxHostCPU :: rat where
  "workGreenExpressMaxHostCPU = 70"

definition workGreenExpressMaxSampleAge :: duration where
  "workGreenExpressMaxSampleAge = seconds 200"

definition greenExpressWindow :: "host_env \<Rightarrow> workGreenExpressWindow" where
  "greenExpressWindow x =
     (if x_NoGreenExpress x then no_green
      else (case x_Latest x of
              None \<Rightarrow> no_green
            | Some s \<Rightarrow>
                (let age = time_sub (x_Clock x AtGreen) (gs_Timestamp s) in
                 if IsZero (gs_Timestamp s) then no_green
                 else if age < - seconds 5 \<or> age > workGreenExpressMaxSampleAge then no_green
                 else if gs_Level s \<noteq> LevelNormal then no_green
                 else if gs_HostCPUPercent s \<ge> workGreenExpressMaxHostCPU then no_green
                 else if gs_MemoryMomentum s = ''rapid_decline'' then no_green
                 else if \<not> gs_GuardBudgetOK s then
                   (if gs_GuardBaselineProven s then no_green
                    else \<lparr> g_Active = True, g_Overcommit = 0 \<rparr>)
                 else \<lparr> g_Active = True, g_Overcommit = workGreenExpressOvercommit \<rparr>)))"


section \<open>Facts\<close>

lemma coordinator_limits_normal: "normalizeWorkLimits (c_NumCPU c) (coordinator_limits c) = coordinator_limits c"
  by (simp add: coordinator_limits_def normalize_twice)

lemma coordinator_weight_eq: "coordinator_weight c class = class_weight (coordinator_limits c) class"
  by (simp add: coordinator_weight_def Weight_def coordinator_limits_normal)

lemma identityForPID_ok:
  "identityForPID x pid = Inr token \<Longrightarrow>
     0 < pid \<and> TrimSpace token \<noteq> [] \<and> token \<noteq> legacyWorkOwnerIdentityToken"
  by (auto simp: identityForPID_def Let_def split: if_splits option.splits)

lemma green_overcommit_range:
  "0 \<le> g_Overcommit (greenExpressWindow x) \<and> g_Overcommit (greenExpressWindow x) \<le> 2"
  by (auto simp: greenExpressWindow_def Let_def no_green_def workGreenExpressOvercommit_def
      split: option.splits)

lemma no_green_simps [simp]: "\<not> g_Active no_green" "g_Overcommit no_green = 0"
  by (simp_all add: no_green_def)

text \<open>
  The green window opens only on positive evidence: a resident sample that exists, is at most
  200 seconds old and at most 5 seconds in the future, reports level normal, host CPU below 70 percent,
  no rapid memory decline and no proven guard over its budget. The overcommit it grants never exceeds
  two units, and is zero while the guard's budget is failing.
\<close>

theorem green_window_evidence:
  assumes "g_Active (greenExpressWindow x)"
  shows "\<exists>s. x_Latest x = Some s \<and> \<not> x_NoGreenExpress x \<and> gs_Level s = LevelNormal \<and>
    gs_HostCPUPercent s < 70 \<and> gs_MemoryMomentum s \<noteq> ''rapid_decline'' \<and>
    (gs_GuardBudgetOK s \<or> \<not> gs_GuardBaselineProven s) \<and>
    - seconds 5 \<le> x_Clock x AtGreen - gs_Timestamp s \<and>
    x_Clock x AtGreen - gs_Timestamp s \<le> seconds 200 \<and>
    0 \<le> g_Overcommit (greenExpressWindow x) \<and>
    g_Overcommit (greenExpressWindow x) \<le> (if gs_GuardBudgetOK s then 2 else 0)"
proof -
  obtain s where s: "x_Latest x = Some s"
    using assms by (auto simp: greenExpressWindow_def split: if_splits option.splits)
  let ?age = "time_sub (x_Clock x AtGreen) (gs_Timestamp s)"
  have c: "\<not> x_NoGreenExpress x" "gs_Level s = LevelNormal" "gs_HostCPUPercent s < 70"
    "gs_MemoryMomentum s \<noteq> ''rapid_decline''" "gs_GuardBudgetOK s \<or> \<not> gs_GuardBaselineProven s"
    and a: "- seconds 5 \<le> ?age" "?age \<le> seconds 200"
    using assms s
    by (auto simp: greenExpressWindow_def Let_def workGreenExpressMaxHostCPU_def
        workGreenExpressMaxSampleAge_def split: if_splits)
  have "- seconds 5 \<le> x_Clock x AtGreen - gs_Timestamp s" "x_Clock x AtGreen - gs_Timestamp s \<le> seconds 200"
    using a time_sub_ge_iff [of "- seconds 5"] time_sub_le_iff [of "seconds 200"]
    by (auto simp: min_duration_def max_duration_def seconds_def)
  moreover have "0 \<le> g_Overcommit (greenExpressWindow x)"
    "g_Overcommit (greenExpressWindow x) \<le> (if gs_GuardBudgetOK s then 2 else 0)"
    using s by (simp_all add: greenExpressWindow_def Let_def workGreenExpressOvercommit_def)
  ultimately show ?thesis using s c by blast
qed

text \<open>A host that answers every probe and serves every call, for the witnesses.\<close>

definition sample_host :: "time \<Rightarrow> host_env" where
  "sample_host now =
     \<lparr> x_Clock = (\<lambda>t. now), x_Alive = (\<lambda>p k pid. True), x_Identity = (\<lambda>p k pid. Some ''tok''),
       x_StateLocked = True, x_StateWritten = True, x_Random = (\<lambda>k. Some (sample_id CHR ''c'')),
       x_Origin = \<lparr> os_Kind = [], os_ScheduleID = [], os_ScheduleRunID = [], os_AgentKind = [] \<rparr>,
       x_NoGreenExpress = False, x_Latest = None, x_Events = sample_events now \<rparr>"

definition sample_coordinator :: WorkCoordinator where
  "sample_coordinator = NewWorkCoordinator ''/data'' (defaultWorkLimits 10) 1 10"

lemma sample_host_simps [simp]:
  "x_Clock (sample_host now) t = now" "x_Alive (sample_host now) p k pid"
  "x_Identity (sample_host now) p k pid = Some ''tok''" "x_StateLocked (sample_host now)"
  "x_StateWritten (sample_host now)" "x_Events (sample_host now) = sample_events now"
  "x_Random (sample_host now) n = Some (sample_id CHR ''c'')" "x_Latest (sample_host now) = None"
  by (simp_all add: sample_host_def)

theorem green_window_evidence_witness:
  "let x = (sample_host (seconds 100))\<lparr> x_Latest := Some \<lparr> gs_Timestamp = seconds 40, gs_Level = LevelNormal,
      gs_HostCPUPercent = 20, gs_MemoryMomentum = ''steady'', gs_GuardBudgetOK = True,
      gs_GuardBaselineProven = True \<rparr> \<rparr>
   in g_Active (greenExpressWindow x) \<and> g_Overcommit (greenExpressWindow x) \<le> 2"
proof -
  let ?x = "(sample_host (seconds 100))\<lparr> x_Latest := Some \<lparr> gs_Timestamp = seconds 40, gs_Level = LevelNormal,
      gs_HostCPUPercent = 20, gs_MemoryMomentum = ''steady'', gs_GuardBudgetOK = True,
      gs_GuardBaselineProven = True \<rparr> \<rparr>"
  have a: "g_Active (greenExpressWindow ?x)"
    by (simp add: greenExpressWindow_def sample_host_def time_sub_def seconds_def IsZero_def Let_def
        min_duration_def max_duration_def workGreenExpressMaxSampleAge_def workGreenExpressMaxHostCPU_def)
  from green_window_evidence [OF a] a show ?thesis by (auto simp: Let_def split: if_splits)
qed

end
