(* ===== verification/Work_Override.thy ===== *)
theory Work_Override
  imports Work_Host
begin

text \<open>
  The operator's promotion sequence (\<^verbatim>\<open>sessionpressure/workoverride.go\<close>): one pinned head that
  takes precedence in selection, an ordered tail behind it, the advance that drops entries whose
  waiter has left, and the operations that pin, append to and clear the sequence. Each operation is
  the mutation that the coordinator runs under its state lock; it returns the new state, the event
  ledger and either an error or its receipts.
\<close>

section \<open>Selection\<close>

definition selectWaiter ::
  "WorkCoordinator \<Rightarrow> WorkWaiterRecord list \<Rightarrow> int \<Rightarrow> int \<Rightarrow> time \<Rightarrow> workGreenExpressWindow \<Rightarrow> int
     \<Rightarrow> workSelection"
where
  "selectWaiter c waiters used capacity now green expressLeased =
     (if schedulingPolicy c = WorkSchedulingPolicy
      then selectWorkWaiter waiters used capacity now green expressLeased
      else selectFIFOWorkWaiter waiters used capacity now green)"

definition selectOverriddenWorkWaiter ::
  "WorkWaiterRecord list \<Rightarrow> int \<Rightarrow> int \<Rightarrow> string \<Rightarrow> workSelection option"
where
  "selectOverriddenWorkWaiter waiters used capacity operationID =
     (case find (\<lambda>w. w_OperationID w = operationID) waiters of
        None \<Rightarrow> None
      | Some waiter \<Rightarrow>
          Some (if w_Weight waiter \<le> max 0 (capacity - used)
                then no_selection\<lparr> SelectedOperationID := operationID, ProtectedOperationID := operationID,
                                   DecisionReason := ''priority_override_selected'' \<rparr>
                else no_selection\<lparr> ProtectedOperationID := operationID,
                                   DecisionReason := ''priority_override_bounded_drain'' \<rparr>))"

definition selectPinned ::
  "WorkCoordinator \<Rightarrow> string \<Rightarrow> WorkWaiterRecord list \<Rightarrow> int \<Rightarrow> int \<Rightarrow> time \<Rightarrow> workGreenExpressWindow
     \<Rightarrow> int \<Rightarrow> workSelection"
where
  "selectPinned c pinned waiters used capacity now green expressLeased =
     (case (if pinned \<noteq> [] then selectOverriddenWorkWaiter waiters used capacity pinned else None) of
        Some selection \<Rightarrow> selection
      | None \<Rightarrow> selectWaiter c waiters used capacity now green expressLeased)"

definition selectStateWaiter ::
  "WorkCoordinator \<Rightarrow> workState \<Rightarrow> int \<Rightarrow> int \<Rightarrow> time \<Rightarrow> workGreenExpressWindow \<Rightarrow> workSelection"
where
  "selectStateWaiter c state used capacity now green =
     selectPinned c (OverrideOperationID state) (Waiters state) used capacity now green
       (expressLeasedWeight (Leases state))"


section \<open>The pinned sequence\<close>

definition persistedWorkStateSchema :: "workState \<Rightarrow> int" where
  "persistedWorkStateSchema state =
     (let legacyPinned = (legacyActive state \<and> (Leases state \<noteq> [] \<or> Waiters state \<noteq> [])) in
      if \<not> legacyPinned \<and> SchemaVersion state < workStateSchemaVersion then workStateSchemaVersion
      else SchemaVersion state)"

definition workOverrideQueueMinimumSchema :: int where
  "workOverrideQueueMinimumSchema = 8"

definition WorkMaximumOverrideQueue :: nat where
  "WorkMaximumOverrideQueue = workSelectorScanLimit"

text \<open>
  The loop that both the positions and the advance run over the head and the tail: blank, repeated
  and no longer queued entries are skipped.
\<close>

fun live_order :: "string list \<Rightarrow> string list \<Rightarrow> string list \<Rightarrow> string list" where
  "live_order live seen [] = []"
| "live_order live seen (op # ops) =
     (if op = [] \<or> op \<in> set seen \<or> op \<notin> set live then live_order live seen ops
      else op # live_order live (op # seen) ops)"

definition queued_ids :: "workState \<Rightarrow> string list" where
  "queued_ids state = map w_OperationID (Waiters state)"

text \<open>
  \<^verbatim>\<open>workOverridePositions\<close> is a map from operation to place; here it is the sequence of its keys
  in the order of their places, and \<open>pin_position\<close> looks a place up (zero when absent).
\<close>

definition workOverridePositions :: "workState \<Rightarrow> string list" where
  "workOverridePositions state =
     live_order (queued_ids state) [] (OverrideOperationID state # OverrideQueue state)"

fun pin_position :: "string list \<Rightarrow> string \<Rightarrow> nat" where
  "pin_position [] op = 0"
| "pin_position (x # xs) op =
     (if x = op then 1 else (case pin_position xs op of 0 \<Rightarrow> 0 | Suc n \<Rightarrow> Suc (Suc n)))"

definition advanceWorkOverride :: "time \<Rightarrow> workState \<Rightarrow> workState \<times> bool" where
  "advanceWorkOverride now state =
     (if OverrideOperationID state = [] \<and> OverrideQueue state = [] then (state, False)
      else (case workOverridePositions state of
              [] \<Rightarrow> (state\<lparr> OverrideOperationID := [], OverrideRequestedAt := None, OverrideQueue := [] \<rparr>,
                     True)
            | head # tail \<Rightarrow>
                if head = OverrideOperationID state \<and> tail = OverrideQueue state then (state, False)
                else (state\<lparr> OverrideOperationID := head,
                             OverrideRequestedAt := (if head \<noteq> OverrideOperationID state then Some now
                                                     else OverrideRequestedAt state),
                             OverrideQueue := tail \<rparr>, True)))"


section \<open>Pinning and clearing\<close>

record WorkOverrideResult =
  r_OperationID :: string
  r_Class :: WorkClass
  r_Weight :: int
  r_PID :: int
  r_Actor :: string
  r_PreviousPosition :: nat
  r_RequestedAt :: time
  r_AlreadyRequested :: bool
  r_OverridePosition :: nat

type_synonym 'a mutation = "workState \<Rightarrow> WorkEvent list \<Rightarrow> workState \<times> WorkEvent list \<times> (work_error + 'a)"

fun index_of :: "string \<Rightarrow> WorkWaiterRecord list \<Rightarrow> nat option" where
  "index_of op [] = None"
| "index_of op (w # ws) = (if w_OperationID w = op then Some 0 else map_option Suc (index_of op ws))"

definition workSelectorSchemaVersion :: int where
  "workSelectorSchemaVersion = 7"

definition override_event ::
  "WorkCoordinator \<Rightarrow> time \<Rightarrow> string \<Rightarrow> workState \<Rightarrow> WorkWaiterRecord \<Rightarrow> nat \<Rightarrow> string \<Rightarrow> string \<Rightarrow> string
     \<Rightarrow> WorkEvent"
where
  "override_event c stamp requestID state target position outcome decision selected =
     (let used = usedWeight (Leases state); capacity = Capacity (coordinator_limits c) in
      (bare_event WorkEventOverrideRequested (w_OperationID target) [] (w_Class target) (w_Weight target)
         (w_PID target) outcome)\<lparr>
        ev_Timestamp := stamp, ev_RequestID := requestID,
        ev_Queue := no_queue\<lparr>
          eq_QueuePosition := int position + 1, eq_QueueDepth := int (length (Waiters state)),
          eq_Capacity := capacity, eq_Used := used, eq_Available := max 0 (capacity - used),
          eq_SchedulingPolicy := schedulingPolicy c, eq_SelectorSchemaVersion := workSelectorSchemaVersion,
          eq_SelectedOperationID := selected, eq_ProtectedOperationID := selected,
          eq_DecisionReason := decision \<rparr> \<rparr>)"

definition override_receipt ::
  "WorkWaiterRecord \<Rightarrow> nat \<Rightarrow> string \<Rightarrow> time \<Rightarrow> bool \<Rightarrow> nat \<Rightarrow> WorkOverrideResult" where
  "override_receipt target position actor stamp already sequence =
     \<lparr> r_OperationID = w_OperationID target, r_Class = w_Class target, r_Weight = w_Weight target,
       r_PID = w_PID target, r_Actor = actor, r_PreviousPosition = position + 1, r_RequestedAt = stamp,
       r_AlreadyRequested = already, r_OverridePosition = sequence \<rparr>"

text \<open>
  The confirmation loop: an entry already pinned at its place is confirmed without an audit row;
  every other entry draws a request identity and appends one. \<open>k\<close> counts the identities drawn.
\<close>

fun confirm_overrides ::
  "WorkCoordinator \<Rightarrow> host_env \<Rightarrow> string \<Rightarrow> workState \<Rightarrow> string list \<Rightarrow> nat \<Rightarrow> nat \<Rightarrow> string list
     \<Rightarrow> WorkEvent list \<Rightarrow> WorkEvent list \<times> (work_error + WorkOverrideResult list)"
where
  "confirm_overrides c x actor state previous sequence k [] ledger = (ledger, Inr [])"
| "confirm_overrides c x actor state previous sequence k (op # ops) ledger =
     (case index_of op (Waiters state) of
        None \<Rightarrow> (ledger, Inl (ErrWorkWaiterNotFound op))
      | Some position \<Rightarrow>
          (let target = Waiters state ! position; requestedAt = x_Clock x AtMutate in
           if pin_position previous op = sequence + 1
           then (let recordedAt = (if sequence = 0 then (case OverrideRequestedAt state of
                                     Some stamp \<Rightarrow> stamp | None \<Rightarrow> requestedAt) else requestedAt)
                 in case confirm_overrides c x actor state previous (sequence + 1) k ops ledger of
                      (ledger', Inl err) \<Rightarrow> (ledger', Inl err)
                    | (ledger', Inr rs) \<Rightarrow>
                        (ledger', Inr (override_receipt target position actor recordedAt True (sequence + 1)
                                       # rs)))
           else (case x_Random x k of
                   None \<Rightarrow> (ledger, Inl RandomUnavailable)
                 | Some requestID \<Rightarrow>
                     (case AppendDurable (x_Events x)
                             (override_event c requestedAt requestID state target position
                                (if actor = ''agent'' then ''agent_priority_requested''
                                 else ''operator_priority_override_requested'')
                                (if actor = ''agent'' then ''agent_priority_appended''
                                 else ''operator_override_requested'') op) ledger of
                        Inl err \<Rightarrow> (ledger, Inl EventNotPersisted)
                      | Inr ledger1 \<Rightarrow>
                          (case confirm_overrides c x actor state previous (sequence + 1) (k + 1) ops ledger1 of
                             (ledger', Inl err) \<Rightarrow> (ledger', Inl err)
                           | (ledger', Inr rs) \<Rightarrow>
                               (ledger', Inr (override_receipt target position actor requestedAt False
                                                (sequence + 1) # rs)))))))"

fun resolve_order :: "string list \<Rightarrow> string list \<Rightarrow> string list \<Rightarrow> work_error + string list" where
  "resolve_order live seen [] = Inr []"
| "resolve_order live seen (op # ops) =
     (if op \<in> set seen then resolve_order live seen ops
      else if op \<notin> set live then Inl (ErrWorkWaiterNotFound op)
      else (case resolve_order live (op # seen) ops of
              Inl err \<Rightarrow> Inl err
            | Inr rest \<Rightarrow> Inr (op # rest)))"

definition requested_order :: "workState \<Rightarrow> string list \<Rightarrow> bool \<Rightarrow> bool \<Rightarrow> work_error + string list" where
  "requested_order state operationIDs all_waiters appendPinned =
     (if all_waiters \<and> Waiters state = [] then Inl (ErrWorkWaiterNotFound [])
      else (let requested = (if all_waiters then take WorkMaximumOverrideQueue (queued_ids state)
                             else operationIDs);
                requested = (if appendPinned then workOverridePositions state @ requested else requested)
            in resolve_order (queued_ids state) [] requested))"

definition pin_sequence :: "time \<Rightarrow> string list \<Rightarrow> workState \<Rightarrow> workState" where
  "pin_sequence stamp ordered state =
     (case ordered of
        [] \<Rightarrow> state
      | head # tail \<Rightarrow>
          (if head \<noteq> OverrideOperationID state
           then state\<lparr> OverrideOperationID := head, OverrideRequestedAt := Some stamp, OverrideQueue := tail \<rparr>
           else state\<lparr> OverrideQueue := tail \<rparr>))"

definition overrideWaiters_mutation ::
  "WorkCoordinator \<Rightarrow> host_env \<Rightarrow> string list \<Rightarrow> bool \<Rightarrow> bool \<Rightarrow> string \<Rightarrow> WorkOverrideResult list mutation"
where
  "overrideWaiters_mutation c x operationIDs all_waiters appendPinned actor state ledger =
     (case requested_order state operationIDs all_waiters appendPinned of
        Inl err \<Rightarrow> (state, ledger, Inl err)
      | Inr ordered \<Rightarrow>
          if length ordered > WorkMaximumOverrideQueue then (state, ledger, Inl OverrideTooLong)
          else if 1 < length ordered \<and> persistedWorkStateSchema state < workOverrideQueueMinimumSchema
          then (state, ledger, Inl ErrWorkOverrideQueueUnsupported)
          else (case confirm_overrides c x actor state (workOverridePositions state) 0 0 ordered ledger of
                  (ledger', Inl err) \<Rightarrow> (state, ledger', Inl err)
                | (ledger', Inr results) \<Rightarrow>
                    (pin_sequence (x_Clock x AtMutate) ordered state, ledger', Inr results)))"

fun release_overrides ::
  "WorkCoordinator \<Rightarrow> host_env \<Rightarrow> workState \<Rightarrow> nat \<Rightarrow> string list
     \<Rightarrow> WorkEvent list \<Rightarrow> WorkEvent list \<times> (work_error + WorkOverrideResult list)"
where
  "release_overrides c x state k [] ledger = (ledger, Inr [])"
| "release_overrides c x state k (op # ops) ledger =
     (case index_of op (Waiters state) of
        None \<Rightarrow> (ledger, Inl (ErrWorkWaiterNotFound op))
      | Some position \<Rightarrow>
          (let target = Waiters state ! position; clearedAt = x_Clock x AtMutate in
           case x_Random x k of
             None \<Rightarrow> (ledger, Inl RandomUnavailable)
           | Some requestID \<Rightarrow>
               (case AppendDurable (x_Events x)
                       (override_event c clearedAt requestID state target position
                          ''operator_priority_override_cleared'' ''operator_override_cleared'' []) ledger of
                  Inl err \<Rightarrow> (ledger, Inl EventNotPersisted)
                | Inr ledger1 \<Rightarrow>
                    (case release_overrides c x state (k + 1) ops ledger1 of
                       (ledger', Inl err) \<Rightarrow> (ledger', Inl err)
                     | (ledger', Inr rs) \<Rightarrow>
                         (ledger', Inr (override_receipt target position [] clearedAt False (k + 1) # rs))))))"

definition ClearWaiterOverride_mutation ::
  "WorkCoordinator \<Rightarrow> host_env \<Rightarrow> WorkOverrideResult list mutation"
where
  "ClearWaiterOverride_mutation c x state ledger =
     (if workOverridePositions state = [] then (state, ledger, Inl ErrWorkOverrideNotPinned)
      else (case release_overrides c x state 0 (workOverridePositions state) ledger of
              (ledger', Inl err) \<Rightarrow> (state, ledger', Inl err)
            | (ledger', Inr cleared) \<Rightarrow>
                (state\<lparr> OverrideOperationID := [], OverrideRequestedAt := None, OverrideQueue := [] \<rparr>,
                 ledger', Inr cleared)))"


section \<open>The pinned selector meets the contract\<close>

lemma selectOverridden_cases:
  assumes "selectOverriddenWorkWaiter ws used cap op = Some sel"
  shows "\<exists>w \<in> set ws. w_OperationID w = op \<and> ProtectedOperationID sel = op \<and> BypassedIndexes sel = [] \<and>
    SelectedOperationID sel = (if w_Weight w \<le> max 0 (cap - used) then op else [])"
proof -
  obtain w where w: "find (\<lambda>w. w_OperationID w = op) ws = Some w"
    using assms by (auto simp: selectOverriddenWorkWaiter_def split: option.splits)
  from find_member [OF w] have "w \<in> set ws" "w_OperationID w = op" by auto
  moreover from assms w have "sel = (if w_Weight w \<le> max 0 (cap - used)
      then no_selection\<lparr> SelectedOperationID := op, ProtectedOperationID := op,
                         DecisionReason := ''priority_override_selected'' \<rparr>
      else no_selection\<lparr> ProtectedOperationID := op,
                         DecisionReason := ''priority_override_bounded_drain'' \<rparr>)"
    by (simp only: selectOverriddenWorkWaiter_def option.case option.inject)
  ultimately show ?thesis
    by (cases "w_Weight w \<le> max 0 (cap - used)") (intro bexI [of _ w], simp_all)+
qed

lemma selectOverridden_queued:
  "op \<in> w_OperationID ` set ws \<Longrightarrow> selectOverriddenWorkWaiter ws used cap op \<noteq> None"
  by (auto simp: selectOverriddenWorkWaiter_def find_None_iff split: option.splits)

interpretation policy: queue_selector "selectWaiter c"
proof (unfold_locales, goal_cases)
  case (1 ws used cap now green e)
  then show ?case
    using bounded.selected_admissible [of ws used cap now green e]
      fifo.selected_admissible [of ws used cap now green]
    by (simp add: selectWaiter_def split: if_splits)
next
  case (2 ws used cap now green e)
  show ?case
    using bounded.bypass_only_head fifo.bypass_only_head by (simp add: selectWaiter_def)
next
  case (3 ws used cap now green e)
  then show ?case
    using bounded.bypass_unprotected [of ws used cap now green e]
      fifo.bypass_unprotected [of ws used cap now green]
    by (simp add: selectWaiter_def split: if_splits)
qed

lemma selectPinned_cases:
  obtains (pinned) w where "pin \<noteq> []" "w \<in> set ws" "w_OperationID w = pin"
      "ProtectedOperationID (selectPinned c pin ws used cap now green e) = pin"
      "BypassedIndexes (selectPinned c pin ws used cap now green e) = []"
      "SelectedOperationID (selectPinned c pin ws used cap now green e) =
         (if w_Weight w \<le> max 0 (cap - used) then pin else [])"
  | (policy) "selectPinned c pin ws used cap now green e = selectWaiter c ws used cap now green e"
proof (cases "if pin \<noteq> [] then selectOverriddenWorkWaiter ws used cap pin else None")
  case None
  then show ?thesis using policy by (simp add: selectPinned_def)
next
  case (Some sel)
  then have "pin \<noteq> []" and s: "selectOverriddenWorkWaiter ws used cap pin = Some sel"
    by (auto split: if_splits)
  moreover have "selectPinned c pin ws used cap now green e = sel"
    using Some by (simp add: selectPinned_def)
  ultimately show ?thesis using selectOverridden_cases [OF s] pinned by blast
qed

interpretation pinned: queue_selector "selectPinned c pin"
proof (unfold_locales, goal_cases)
  case (1 ws used cap now green e)
  show ?case
  proof (rule selectPinned_cases [of pin ws c used cap now green e])
    fix w
    assume "w \<in> set ws" "w_OperationID w = pin"
      "SelectedOperationID (selectPinned c pin ws used cap now green e) =
         (if w_Weight w \<le> max 0 (cap - used) then pin else [])"
    with 1 show ?thesis by (auto simp: admissible_def split: if_splits)
  next
    assume "selectPinned c pin ws used cap now green e = selectWaiter c ws used cap now green e"
    with 1 policy.selected_admissible show ?thesis by metis
  qed
next
  case (2 ws used cap now green e)
  show ?case
    by (rule selectPinned_cases [of pin ws c used cap now green e])
      (use policy.bypass_only_head in auto)
next
  case (3 ws used cap now green e)
  show ?case
    by (rule selectPinned_cases [of pin ws c used cap now green e])
      (use 3 policy.bypass_unprotected in auto)
qed

text \<open>
  An operator override reorders the queue but never lifts the ceiling: while the pinned head is
  queued nobody else is selected and nobody is bypassed, and it is selected only when its own weight
  fits under the effective capacity, with no overcommit.
\<close>

theorem override_respects_ceiling:
  assumes "OverrideOperationID s \<noteq> []" and "OverrideOperationID s \<in> set (queued_ids s)"
    and "distinct (queued_ids s)" and "\<forall>w \<in> set (Waiters s). 1 \<le> w_Weight w"
  shows "\<exists>w \<in> set (Waiters s). w_OperationID w = OverrideOperationID s \<and>
    ProtectedOperationID (selectStateWaiter c s used cap now green) = OverrideOperationID s \<and>
    BypassedIndexes (selectStateWaiter c s used cap now green) = [] \<and>
    SelectedOperationID (selectStateWaiter c s used cap now green) =
      (if used + w_Weight w \<le> cap then OverrideOperationID s else [])"
proof -
  obtain sel where sel: "selectOverriddenWorkWaiter (Waiters s) used cap (OverrideOperationID s) = Some sel"
    using selectOverridden_queued [of "OverrideOperationID s" "Waiters s" used cap] assms(2)
    by (auto simp: queued_ids_def)
  from selectOverridden_cases [OF sel] obtain w where w: "w \<in> set (Waiters s)"
    "w_OperationID w = OverrideOperationID s" "ProtectedOperationID sel = OverrideOperationID s"
    "BypassedIndexes sel = []"
    "SelectedOperationID sel = (if w_Weight w \<le> max 0 (cap - used) then OverrideOperationID s else [])"
    by blast
  have "selectStateWaiter c s used cap now green = sel"
    using sel assms(1) by (simp add: selectStateWaiter_def selectPinned_def)
  moreover have "w_Weight w \<le> max 0 (cap - used) \<longleftrightarrow> used + w_Weight w \<le> cap"
    using assms(4) w(1) by fastforce
  ultimately show ?thesis using w by auto
qed

theorem override_respects_ceiling_witness:
  "SelectedOperationID (selectStateWaiter sample_coordinator
     (empty_state\<lparr> Waiters := [sample_waiter ''a'' WorkClassTest 3 1, sample_waiter ''b'' WorkClassHeavy 6 2],
        OverrideOperationID := ''b'' \<rparr>) 2 8 10 no_green) = ''b''"
proof -
  let ?s = "empty_state\<lparr> Waiters := [sample_waiter ''a'' WorkClassTest 3 1, sample_waiter ''b'' WorkClassHeavy 6 2],
        OverrideOperationID := ''b'' \<rparr>"
  from override_respects_ceiling [of ?s sample_coordinator 2 8 10 no_green]
  show ?thesis by (auto simp: queued_ids_def)
qed


section \<open>The sequence survives its entries\<close>

lemma live_order_sound:
  "set (live_order live seen ops) \<subseteq> set live - set seen - {[]} \<and> distinct (live_order live seen ops) \<and>
   set (live_order live seen ops) = (set ops \<inter> set live) - set seen - {[]}"
  by (induction live seen ops rule: live_order.induct) auto

lemma live_order_id:
  assumes "distinct ops" "set ops \<subseteq> set live" "[] \<notin> set ops" "set ops \<inter> set seen = {}"
  shows "live_order live seen ops = ops"
  using assms by (induction ops arbitrary: seen) auto

text \<open>
  In closed form the loop keeps the first occurrence of every queued entry, so running it again, or
  on a smaller queue, sees only the original order.
\<close>

fun firsts :: "'a list \<Rightarrow> 'a list" where
  "firsts [] = []"
| "firsts (x # xs) = x # filter (\<lambda>y. y \<noteq> x) (firsts xs)"

lemma set_firsts [simp]: "set (firsts xs) = set xs"
  by (induction xs) auto

lemma distinct_firsts [simp]: "distinct (firsts xs)"
  by (induction xs) auto

lemma firsts_id: "distinct xs \<Longrightarrow> firsts xs = xs"
  by (induction xs) (auto simp: filter_id_conv)

lemma firsts_filter: "firsts (filter P xs) = filter P (firsts xs)"
  by (induction xs) (auto intro: filter_cong)

lemma live_order_closed:
  "live_order live seen ops =
     filter (\<lambda>x. x \<notin> set seen) (firsts (filter (\<lambda>x. x \<noteq> [] \<and> x \<in> set live) ops))"
  by (induction live seen ops rule: live_order.induct) (auto intro!: filter_cong)

lemma live_order_nil: "live_order live [] ops = firsts (filter (\<lambda>x. x \<noteq> [] \<and> x \<in> set live) ops)"
  by (simp add: live_order_closed)

lemma live_order_mono:
  "set live' \<subseteq> set live \<Longrightarrow> live_order live' [] (live_order live [] ops) = live_order live' [] ops"
  by (auto simp: live_order_nil firsts_filter firsts_id intro!: filter_cong arg_cong [of _ _ firsts])

lemma workOverridePositions_sound:
  "distinct (workOverridePositions s)" "set (workOverridePositions s) \<subseteq> set (queued_ids s)"
  "[] \<notin> set (workOverridePositions s)"
  unfolding workOverridePositions_def live_order_nil by auto

lemma advance_fields:
  "fst (advanceWorkOverride now s) =
     (case workOverridePositions s of
        [] \<Rightarrow> s\<lparr> OverrideOperationID := [], OverrideQueue := [],
                OverrideRequestedAt := (if OverrideOperationID s = [] \<and> OverrideQueue s = []
                                        then OverrideRequestedAt s else None) \<rparr>
      | head # tail \<Rightarrow>
          s\<lparr> OverrideOperationID := head, OverrideQueue := tail,
             OverrideRequestedAt := (if head \<noteq> OverrideOperationID s then Some now
                                     else OverrideRequestedAt s) \<rparr>)"
proof (cases "OverrideOperationID s = [] \<and> OverrideQueue s = []")
  case True
  then have "workOverridePositions s = []" by (simp add: workOverridePositions_def)
  with True show ?thesis by (simp add: advanceWorkOverride_def)
next
  case False
  then show ?thesis by (auto simp: advanceWorkOverride_def split: list.splits)
qed

lemma advance_frame [simp, frame_simps]:
  "Leases (fst (advanceWorkOverride now s)) = Leases s" "Waiters (fst (advanceWorkOverride now s)) = Waiters s"
  "SchemaVersion (fst (advanceWorkOverride now s)) = SchemaVersion s"
  "AdmissionHolds (fst (advanceWorkOverride now s)) = AdmissionHolds s"
  "AdmissionLatch (fst (advanceWorkOverride now s)) = AdmissionLatch s"
  "legacyActive (fst (advanceWorkOverride now s)) = legacyActive s"
  "migrated (fst (advanceWorkOverride now s)) = migrated s"
  "queued_ids (fst (advanceWorkOverride now s)) = queued_ids s"
  by (auto simp: advance_fields queued_ids_def split: list.splits)

lemma advance_positions:
  "OverrideOperationID (fst (advanceWorkOverride now s)) # OverrideQueue (fst (advanceWorkOverride now s)) =
     (if workOverridePositions s = [] then [[]] else workOverridePositions s)"
  by (auto simp: advance_fields split: list.splits)

lemma advance_facts:
  "let t = fst (advanceWorkOverride now s) in
    workOverridePositions t = workOverridePositions s \<and>
    filter (\<lambda>op. op \<noteq> []) (OverrideOperationID t # OverrideQueue t) = workOverridePositions s \<and>
    (OverrideOperationID t \<in> {OverrideOperationID s, []} \<or> OverrideRequestedAt t = Some now) \<and>
    Leases t = Leases s \<and> Waiters t = Waiters s \<and> advanceWorkOverride later t = (t, False)"
proof -
  define t where "t = fst (advanceWorkOverride now s)"
  let ?p = "workOverridePositions s"
  note seq = advance_positions [of now s, folded t_def]
  have q: "queued_ids t = queued_ids s" by (simp add: t_def)
  have p: "workOverridePositions t = ?p"
  proof (cases "?p = []")
    case True
    with seq show ?thesis by (simp add: workOverridePositions_def [of t])
  next
    case False
    with seq have "workOverridePositions t = live_order (queued_ids s) [] ?p"
      by (simp add: workOverridePositions_def [of t] q)
    also have "\<dots> = ?p" unfolding workOverridePositions_def by (rule live_order_mono) simp
    finally show ?thesis .
  qed
  have f: "filter (\<lambda>op. op \<noteq> []) (OverrideOperationID t # OverrideQueue t) = ?p"
    unfolding seq using workOverridePositions_sound(3) [of s] by (auto simp: filter_id_conv)
  have "advanceWorkOverride later t = (t, False)"
    using seq p by (auto simp: advanceWorkOverride_def split: list.splits if_splits)
  moreover have "OverrideOperationID t \<in> {OverrideOperationID s, []} \<or> OverrideRequestedAt t = Some now"
    by (auto simp: t_def advance_fields split: list.splits)
  ultimately show ?thesis unfolding Let_def t_def [symmetric] using p f by (simp add: t_def)
qed

text \<open>
  Advancing the promotion sequence against the live queue keeps operator intent: what remains
  pinned is exactly the still-queued part of the sequence in its original order, so the next live entry
  inherits the head; the head keeps its reservation clock and a promoted entry starts its own; leases
  and waiters are untouched; and advancing again changes nothing.
\<close>

theorem advance_keeps_sequence:
  "let t = fst (advanceWorkOverride now s) in
    workOverridePositions t = workOverridePositions s \<and>
    filter (\<lambda>op. op \<noteq> []) (OverrideOperationID t # OverrideQueue t) = workOverridePositions s \<and>
    (OverrideOperationID t \<in> {OverrideOperationID s, []} \<or> OverrideRequestedAt t = Some now) \<and>
    Leases t = Leases s \<and> Waiters t = Waiters s \<and> advanceWorkOverride later t = (t, False)"
  by (rule advance_facts)


section \<open>Pinning\<close>

lemma resolve_order_ok:
  assumes "resolve_order live seen ops = Inr ordered"
  shows "ordered = filter (\<lambda>x. x \<notin> set seen) (firsts ops)"
    and "set ops - set seen \<subseteq> set live"
proof -
  have "ordered = filter (\<lambda>x. x \<notin> set seen) (firsts ops) \<and> set ops - set seen \<subseteq> set live"
    using assms
  proof (induction live seen ops arbitrary: ordered rule: resolve_order.induct)
    case (1 live seen)
    then show ?case by simp
  next
    case (2 live seen op ops)
    show ?case
    proof (cases "op \<in> set seen")
      case True
      with 2 have "ordered = filter (\<lambda>x. x \<notin> set seen) (firsts ops) \<and> set ops - set seen \<subseteq> set live"
        by simp
      with True show ?thesis by (auto intro!: filter_cong)
    next
      case False
      with 2(3) obtain rest where "op \<in> set live" "resolve_order live (op # seen) ops = Inr rest"
        "ordered = op # rest"
        by (auto split: if_splits sum.splits)
      with 2(2) [OF False] False show ?thesis by (auto intro!: filter_cong)
    qed
  qed
  then show "ordered = filter (\<lambda>x. x \<notin> set seen) (firsts ops)" and "set ops - set seen \<subseteq> set live"
    by auto
qed

lemma resolve_order_nil:
  "resolve_order live [] ops = Inr ordered \<Longrightarrow> ordered = firsts ops \<and> set ops \<subseteq> set live"
  using resolve_order_ok [of live "[]" ops ordered] by simp

lemma overrideWaiters_success:
  assumes "overrideWaiters_mutation c x ids everyone append_pinned actor s ledger = (t, ledger', Inr results)"
  obtains ordered where "requested_order s ids everyone append_pinned = Inr ordered"
    "t = pin_sequence (x_Clock x AtMutate) ordered s" "length ordered \<le> WorkMaximumOverrideQueue"
    "confirm_overrides c x actor s (workOverridePositions s) 0 0 ordered ledger = (ledger', Inr results)"
    "length ordered \<le> 1 \<or> workOverrideQueueMinimumSchema \<le> persistedWorkStateSchema s"
  using assms
  by (auto simp: overrideWaiters_mutation_def split: sum.splits if_splits prod.splits)

lemma pin_sequence_frame [simp, frame_simps]:
  "Leases (pin_sequence stamp ordered s) = Leases s" "Waiters (pin_sequence stamp ordered s) = Waiters s"
  "SchemaVersion (pin_sequence stamp ordered s) = SchemaVersion s"
  "AdmissionHolds (pin_sequence stamp ordered s) = AdmissionHolds s"
  "legacyActive (pin_sequence stamp ordered s) = legacyActive s"
  "queued_ids (pin_sequence stamp ordered s) = queued_ids s"
  by (auto simp: pin_sequence_def queued_ids_def split: list.splits)

lemma pin_sequence_positions:
  assumes "ordered \<noteq> []" "distinct ordered" "set ordered \<subseteq> set (queued_ids s)" "[] \<notin> set ordered"
  shows "workOverridePositions (pin_sequence stamp ordered s) = ordered"
proof -
  have "OverrideOperationID (pin_sequence stamp ordered s) # OverrideQueue (pin_sequence stamp ordered s)
      = ordered"
    using assms(1) by (auto simp: pin_sequence_def split: list.splits)
  then show ?thesis
    using assms by (simp add: workOverridePositions_def live_order_id)
qed

text \<open>
  A confirmed operator sequence replaces the pinned one with exactly the requested operations,
  in the order given and without repetitions, all of them queued; nothing else of the state moves, and a
  sequence of more than one entry is accepted only where the document that will be written can carry it.
\<close>

theorem override_pins_request:
  assumes "overrideWaiters_mutation c x ids False False actor s ledger = (t, ledger', Inr results)"
    and "ids \<noteq> []" and "[] \<notin> set ids"
  shows "workOverridePositions t = firsts ids \<and> set ids \<subseteq> set (queued_ids s) \<and>
    Leases t = Leases s \<and> Waiters t = Waiters s \<and> length (firsts ids) \<le> 64 \<and>
    (1 < length (firsts ids) \<longrightarrow> 8 \<le> persistedWorkStateSchema s)"
proof -
  obtain ordered where o: "requested_order s ids False False = Inr ordered"
    "t = pin_sequence (x_Clock x AtMutate) ordered s" "length ordered \<le> WorkMaximumOverrideQueue"
    "length ordered \<le> 1 \<or> workOverrideQueueMinimumSchema \<le> persistedWorkStateSchema s"
    using overrideWaiters_success [OF assms(1)] by metis
  have r: "ordered = firsts ids" "set ids \<subseteq> set (queued_ids s)"
    using o(1) resolve_order_nil by (auto simp: requested_order_def)
  have "firsts ids \<noteq> []" using assms(2) by (cases ids) auto
  then have "workOverridePositions t = firsts ids"
    using pin_sequence_positions [of "firsts ids" s] r assms(3) o(2) by simp
  with o r show ?thesis
    by (auto simp: WorkMaximumOverrideQueue_def workSelectorScanLimit_def workOverrideQueueMinimumSchema_def)
qed

definition sample_queue :: workState where
  "sample_queue = empty_state\<lparr> Waiters := [sample_waiter (sample_id CHR ''a'') WorkClassTest 3 1,
     sample_waiter (sample_id CHR ''b'') WorkClassHeavy 6 2] \<rparr>"

lemma sample_queue_ids: "queued_ids sample_queue = [sample_id CHR ''a'', sample_id CHR ''b'']"
  by (simp add: sample_queue_def queued_ids_def)

lemma sample_override_succeeds:
  "\<not> isl (snd (snd (overrideWaiters_mutation sample_coordinator (sample_host 7)
     [sample_id CHR ''b'', sample_id CHR ''a''] False False ''operator'' sample_queue [])))"
  by code_simp

theorem override_pins_request_witness:
  "\<exists>t. workOverridePositions t = [sample_id CHR ''b'', sample_id CHR ''a''] \<and> Waiters t = Waiters sample_queue"
proof -
  obtain t l r where m: "overrideWaiters_mutation sample_coordinator (sample_host 7)
      [sample_id CHR ''b'', sample_id CHR ''a''] False False ''operator'' sample_queue [] = (t, l, Inr r)"
    using sample_override_succeeds by (metis prod.collapse sum.collapse(2))
  from override_pins_request [OF m] show ?thesis
    by (auto simp: sample_id_def)
qed

text \<open>
  An agent that asks for priority can only join the end of the line: the operator's pinned
  sequence keeps its order and its head, and the agent's own waiter is appended behind it once.
\<close>

theorem prioritize_appends:
  assumes "overrideWaiters_mutation c x [op] False True ''agent'' s ledger = (t, ledger', Inr results)"
    and "op \<noteq> []"
  shows "workOverridePositions t =
      workOverridePositions s @ (if op \<in> set (workOverridePositions s) then [] else [op]) \<and>
    op \<in> set (queued_ids s) \<and> Leases t = Leases s \<and> Waiters t = Waiters s"
proof -
  let ?p = "workOverridePositions s"
  obtain ordered where o: "requested_order s [op] False True = Inr ordered"
    "t = pin_sequence (x_Clock x AtMutate) ordered s"
    using overrideWaiters_success [OF assms(1)] by metis
  have r: "ordered = firsts (?p @ [op])" "op \<in> set (queued_ids s)"
    using o(1) resolve_order_nil by (fastforce simp: requested_order_def)+
  have f: "firsts (xs @ [y]) = xs @ (if y \<in> set xs then [] else [y])" if "distinct xs" for xs and y :: string
    using that by (induction xs) (auto simp: filter_id_conv)
  have ordered: "ordered = ?p @ (if op \<in> set ?p then [] else [op])"
    unfolding r(1) by (rule f) (rule workOverridePositions_sound)
  have "workOverridePositions t = ordered"
    unfolding o(2)
    by (rule pin_sequence_positions)
      (use ordered workOverridePositions_sound [of s] r(2) assms(2) in auto)
  with ordered r(2) o(2) show ?thesis by simp
qed

lemma sample_priority_succeeds:
  "\<not> isl (snd (snd (overrideWaiters_mutation sample_coordinator (sample_host 7)
     [sample_id CHR ''a''] False True ''agent'' (sample_queue\<lparr> OverrideOperationID := sample_id CHR ''b'' \<rparr>) [])))"
  by code_simp

theorem prioritize_appends_witness:
  "\<exists>t. workOverridePositions t = [sample_id CHR ''b'', sample_id CHR ''a'']"
proof -
  let ?s = "sample_queue\<lparr> OverrideOperationID := sample_id CHR ''b'' \<rparr>"
  obtain t l r where m: "overrideWaiters_mutation sample_coordinator (sample_host 7)
      [sample_id CHR ''a''] False True ''agent'' ?s [] = (t, l, Inr r)"
    using sample_priority_succeeds by (metis prod.collapse sum.collapse(2))
  have "workOverridePositions ?s = [sample_id CHR ''b'']"
    by code_simp
  with prioritize_appends [OF m] show ?thesis
    by (auto simp: sample_id_def)
qed

end
