(* ===== verification/Admission_Hold.thy ===== *)
theory Admission_Hold
  imports Work_Override
begin

text \<open>
  The pre-queue admission gate's shared records (\<^verbatim>\<open>sessionpressure/workadmissionhold.go\<close>):
  admission holds, which make a process parked at the gate observable and never charge capacity, and
  the shared CPU latch, whose counters advance on elapsed time and not on the number of observers.
\<close>

section \<open>Admission holds\<close>

record WorkAdmissionObservation =
  ob_Red :: bool
  ob_Recovered :: bool
  ob_Dimension :: string
  ob_Reason :: string

definition hold_valid :: "WorkCoordinator \<Rightarrow> time \<Rightarrow> WorkAdmissionHoldRecord \<Rightarrow> bool" where
  "hold_valid c now hold \<longleftrightarrow>
     \<not> (\<not> validPrivateID (h_OperationID hold)) \<and>
     coordinator_weight c (h_Class hold) \<noteq> None \<and>
     \<not> (h_PID hold \<le> 0 \<or> TrimSpace (h_OwnerIdentity hold) = []) \<and>
     \<not> (IsZero (h_HeldSince hold) \<or> h_HeldSince hold > now + maximumWorkClockSkew)"

definition hold_owned :: "host_env \<Rightarrow> WorkAdmissionHoldRecord \<Rightarrow> bool" where
  "hold_owned x hold \<longleftrightarrow>
     x_Alive x HoldOwner (h_OperationID hold) (h_PID hold) \<and>
     (case x_Identity x HoldOwner (h_OperationID hold) (h_PID hold) of
        None \<Rightarrow> False
      | Some current \<Rightarrow> TrimSpace current \<noteq> [] \<and> current = h_OwnerIdentity hold)"

fun keepAdmissionHolds ::
  "WorkCoordinator \<Rightarrow> host_env \<Rightarrow> string list \<Rightarrow> WorkAdmissionHoldRecord list
     \<Rightarrow> invalid_state + (WorkAdmissionHoldRecord list \<times> int)"
where
  "keepAdmissionHolds c x seen [] = Inr ([], 0)"
| "keepAdmissionHolds c x seen (hold # holds) =
     (if \<not> hold_valid c (x_Clock x AtHolds) hold then Inl (InvalidHold (h_OperationID hold))
      else if h_OperationID hold \<in> set seen then Inl (DuplicateHold (h_OperationID hold))
      else (case keepAdmissionHolds c x (h_OperationID hold # seen) holds of
              Inl err \<Rightarrow> Inl err
            | Inr (kept, pruned) \<Rightarrow>
                if hold_owned x hold then Inr (hold # kept, pruned) else Inr (kept, pruned + 1)))"

text \<open>The result is the new list and the number pruned; the state changed exactly when that is not zero.\<close>

definition reconcileAdmissionHolds ::
  "WorkCoordinator \<Rightarrow> host_env \<Rightarrow> workState \<Rightarrow> invalid_state + (workState \<times> int \<times> bool)"
where
  "reconcileAdmissionHolds c x state =
     (if AdmissionHolds state = [] then Inr (state, 0, False)
      else (case keepAdmissionHolds c x [] (AdmissionHolds state) of
              Inl err \<Rightarrow> Inl err
            | Inr (kept, pruned) \<Rightarrow> Inr (state\<lparr> AdmissionHolds := kept \<rparr>, pruned, 0 < pruned)))"

record WorkAdmissionHoldStatus =
  hs_OperationID :: string
  hs_Class :: WorkClass
  hs_Weight :: int
  hs_PID :: int
  hs_HeldSince :: time
  hs_HeldForMS :: int
  hs_Dimension :: string
  hs_Reason :: string

definition duration_ms :: "duration \<Rightarrow> int" where
  "duration_ms d = go_div d 1000000"

definition hold_status :: "time \<Rightarrow> WorkAdmissionHoldRecord \<Rightarrow> WorkAdmissionHoldStatus" where
  "hold_status now hold =
     \<lparr> hs_OperationID = h_OperationID hold, hs_Class = h_Class hold, hs_Weight = h_Weight hold,
       hs_PID = h_PID hold, hs_HeldSince = h_HeldSince hold,
       hs_HeldForMS = max 0 (duration_ms (time_sub now (h_HeldSince hold))),
       hs_Dimension = h_Dimension hold, hs_Reason = h_Reason hold \<rparr>"

definition admissionHoldStatuses :: "workState \<Rightarrow> time \<Rightarrow> WorkAdmissionHoldStatus list" where
  "admissionHoldStatuses state now =
     map (hold_status now) (sort_key (\<lambda>h. (h_HeldSince h, h_OperationID h)) (AdmissionHolds state))"

fun refresh_hold ::
  "string \<Rightarrow> time \<Rightarrow> WorkAdmissionObservation \<Rightarrow> WorkAdmissionHoldRecord list
     \<Rightarrow> WorkAdmissionHoldRecord list option"
where
  "refresh_hold op now ob [] = None"
| "refresh_hold op now ob (hold # holds) =
     (if h_OperationID hold = op
      then Some (hold\<lparr> h_HeartbeatAt := now, h_Dimension := ob_Dimension ob, h_Reason := ob_Reason ob \<rparr> # holds)
      else map_option (\<lambda>hs. hold # hs) (refresh_hold op now ob holds))"

definition new_hold ::
  "WorkCoordinator \<Rightarrow> string \<Rightarrow> WorkClass \<Rightarrow> int \<Rightarrow> string \<Rightarrow> time \<Rightarrow> WorkAdmissionObservation
     \<Rightarrow> WorkAdmissionHoldRecord"
where
  "new_hold c op class weight owner now ob =
     \<lparr> h_OperationID = op, h_Class = class, h_Weight = weight, h_PID = c_PID c, h_OwnerIdentity = owner,
       h_HeldSince = now, h_HeartbeatAt = now, h_Dimension = ob_Dimension ob, h_Reason = ob_Reason ob \<rparr>"

definition HoldAdmission_mutation ::
  "WorkCoordinator \<Rightarrow> string \<Rightarrow> WorkClass \<Rightarrow> int \<Rightarrow> string \<Rightarrow> time \<Rightarrow> WorkAdmissionObservation
     \<Rightarrow> unit mutation"
where
  "HoldAdmission_mutation c op class weight owner now ob state ledger =
     (case refresh_hold op now ob (AdmissionHolds state) of
        Some holds \<Rightarrow> (state\<lparr> AdmissionHolds := holds \<rparr>, ledger, Inr ())
      | None \<Rightarrow> (state\<lparr> AdmissionHolds := AdmissionHolds state @ [new_hold c op class weight owner now ob] \<rparr>,
                 ledger, Inr ()))"

definition ReleaseAdmission_mutation :: "string \<Rightarrow> unit mutation" where
  "ReleaseAdmission_mutation op state ledger =
     (state\<lparr> AdmissionHolds := filter (\<lambda>h. h_OperationID h \<noteq> op) (AdmissionHolds state) \<rparr>, ledger, Inr ())"


section \<open>The shared latch\<close>

definition workAdmissionLatchSampleInterval :: duration where
  "workAdmissionLatchSampleInterval = milliseconds 1500"

definition workAdmissionLatchStale :: duration where
  "workAdmissionLatchStale = seconds 120"

definition empty_latch :: WorkAdmissionLatch where
  "empty_latch =
     \<lparr> la_Latched = False, la_LatchedAt = None, la_Dimension = [], la_Reason = [], la_RedSamples = 0,
       la_RecoverySamples = 0, la_BlockRequired = 0, la_ReleaseRequired = 0, la_ObservedAt = None \<rparr>"

definition current_latch :: "time \<Rightarrow> WorkAdmissionLatch option \<Rightarrow> WorkAdmissionLatch" where
  "current_latch now latch =
     (case latch of
        None \<Rightarrow> empty_latch
      | Some l \<Rightarrow>
          (case la_ObservedAt l of
             Some observed \<Rightarrow> if time_sub now observed > workAdmissionLatchStale then empty_latch else l
           | None \<Rightarrow> l))"

definition latch_counts :: "time \<Rightarrow> WorkAdmissionLatch \<Rightarrow> bool" where
  "latch_counts now l \<longleftrightarrow>
     (case la_ObservedAt l of
        None \<Rightarrow> True
      | Some observed \<Rightarrow> time_sub now observed \<ge> workAdmissionLatchSampleInterval)"

text \<open>The switch on a counted observation: red, recovered, or the band between them.\<close>

definition count_observation ::
  "int \<Rightarrow> int \<Rightarrow> time \<Rightarrow> WorkAdmissionObservation \<Rightarrow> WorkAdmissionLatch \<Rightarrow> WorkAdmissionLatch"
where
  "count_observation blockRequired releaseRequired now ob l =
     (if ob_Red ob then
        (let l = l\<lparr> la_RecoverySamples := 0, la_RedSamples := la_RedSamples l + 1 \<rparr> in
         if \<not> la_Latched l \<and> la_RedSamples l \<ge> blockRequired
         then l\<lparr> la_Latched := True, la_LatchedAt := Some now \<rparr> else l)
      else if ob_Recovered ob then
        (let l = l\<lparr> la_RedSamples := 0, la_RecoverySamples := la_RecoverySamples l + 1 \<rparr> in
         if la_Latched l \<and> la_RecoverySamples l \<ge> releaseRequired
         then l\<lparr> la_Latched := False, la_LatchedAt := None, la_RecoverySamples := 0 \<rparr> else l)
      else l\<lparr> la_RecoverySamples := 0 \<rparr>)"

definition label_latch :: "int \<Rightarrow> int \<Rightarrow> WorkAdmissionObservation \<Rightarrow> WorkAdmissionLatch \<Rightarrow> WorkAdmissionLatch" where
  "label_latch blockRequired releaseRequired ob l =
     l\<lparr> la_Dimension := (if ob_Dimension ob \<noteq> [] then ob_Dimension ob else la_Dimension l),
        la_Reason := (if ob_Reason ob \<noteq> [] then ob_Reason ob else la_Reason l),
        la_BlockRequired := blockRequired, la_ReleaseRequired := releaseRequired \<rparr>"

definition observe_latch ::
  "int \<Rightarrow> int \<Rightarrow> time \<Rightarrow> WorkAdmissionObservation \<Rightarrow> WorkAdmissionLatch option \<Rightarrow> WorkAdmissionLatch"
where
  "observe_latch blockRequired releaseRequired now ob latch =
     (let l = current_latch now latch;
          l = (if latch_counts now l
               then (count_observation blockRequired releaseRequired now ob l)\<lparr> la_ObservedAt := Some now \<rparr>
               else l)
      in label_latch blockRequired releaseRequired ob l)"

definition ObserveAdmissionLatch_mutation ::
  "WorkCoordinator \<Rightarrow> time \<Rightarrow> WorkAdmissionObservation \<Rightarrow> WorkAdmissionLatch mutation"
where
  "ObserveAdmissionLatch_mutation c now ob state ledger =
     (let limits = coordinator_limits c;
          latch = observe_latch (max 1 (CPUBlockSamples limits)) (max 1 (CPUReleaseSamples limits)) now ob
                    (AdmissionLatch state)
      in (state\<lparr> AdmissionLatch := Some latch \<rparr>, ledger, Inr latch))"


section \<open>Facts\<close>

lemma keepAdmissionHolds_ok:
  assumes "keepAdmissionHolds c x seen holds = Inr (kept, pruned)"
  shows "kept = filter (hold_owned x) holds \<and> pruned = int (length holds) - int (length kept) \<and>
    distinct (map h_OperationID holds) \<and> set (map h_OperationID holds) \<inter> set seen = {} \<and>
    list_all (hold_valid c (x_Clock x AtHolds)) holds"
  using assms
proof (induction holds arbitrary: seen kept pruned)
  case Nil
  then show ?case by simp
next
  case (Cons h hs)
  then obtain kept' pruned' where r: "keepAdmissionHolds c x (h_OperationID h # seen) hs = Inr (kept', pruned')"
    and v: "hold_valid c (x_Clock x AtHolds) h" "h_OperationID h \<notin> set seen"
    and k: "kept = (if hold_owned x h then h # kept' else kept')"
      "pruned = (if hold_owned x h then pruned' else pruned' + 1)"
    by (auto split: if_splits sum.splits)
  from Cons.IH [OF r] v k show ?case by auto
qed

lemma keepAdmissionHolds_accepts:
  assumes "distinct (map h_OperationID holds)" and "set (map h_OperationID holds) \<inter> set seen = {}"
    and "list_all (hold_valid c (x_Clock x AtHolds)) holds"
  shows "\<exists>kept pruned. keepAdmissionHolds c x seen holds = Inr (kept, pruned)"
  using assms
proof (induction holds arbitrary: seen)
  case Nil
  then show ?case by simp
next
  case (Cons h hs)
  have "\<exists>kept pruned. keepAdmissionHolds c x (h_OperationID h # seen) hs = Inr (kept, pruned)"
    by (rule Cons.IH) (use Cons.prems in auto)
  with Cons.prems show ?case by auto
qed

lemma refresh_hold_Some:
  assumes "refresh_hold op now ob holds = Some holds'"
  shows "map h_OperationID holds' = map h_OperationID holds \<and> map h_HeldSince holds' = map h_HeldSince holds \<and>
    map h_PID holds' = map h_PID holds \<and> map h_OwnerIdentity holds' = map h_OwnerIdentity holds"
  using assms by (induction holds arbitrary: holds') (auto split: if_splits)

lemma refresh_hold_unique:
  assumes "refresh_hold op now ob holds = Some holds'" and "distinct (map h_OperationID holds)"
  shows "filter (\<lambda>h. h_OperationID h \<noteq> op) holds' = filter (\<lambda>h. h_OperationID h \<noteq> op) holds \<and>
    length (filter (\<lambda>h. h_OperationID h = op) holds') = 1 \<and>
    (\<forall>h \<in> set holds. h_OperationID h = op \<longrightarrow>
       (\<exists>h' \<in> set holds'. h_OperationID h' = op \<and> h_HeldSince h' = h_HeldSince h))"
  using assms
proof (induction holds arbitrary: holds')
  case Nil
  then show ?case by simp
next
  case (Cons h hs)
  show ?case
  proof (cases "h_OperationID h = op")
    case True
    with Cons.prems(2) have n: "\<forall>g \<in> set hs. h_OperationID g \<noteq> op" by (metis distinct.simps(2) imageI image_set list.simps(9))
    then have "filter (\<lambda>h. h_OperationID h = op) hs = []" by simp
    with True n Cons.prems(1) show ?thesis by auto
  next
    case False
    with Cons.prems obtain hs' where "refresh_hold op now ob hs = Some hs'" "holds' = h # hs'"
      by auto
    with Cons.IH Cons.prems(2) False show ?thesis by auto
  qed
qed

lemma refresh_hold_None: "refresh_hold op now ob holds = None \<longleftrightarrow> op \<notin> h_OperationID ` set holds"
  by (induction holds) auto


lemma reconcileAdmissionHolds_ok:
  assumes "reconcileAdmissionHolds c x s = Inr (t, pruned, changed)"
  shows "AdmissionHolds t = filter (hold_owned x) (AdmissionHolds s) \<and>
    pruned = int (length (AdmissionHolds s)) - int (length (AdmissionHolds t)) \<and>
    (changed \<longleftrightarrow> 0 < pruned) \<and> distinct (map h_OperationID (AdmissionHolds t)) \<and>
    Leases t = Leases s \<and> Waiters t = Waiters s \<and> AdmissionLatch t = AdmissionLatch s"
proof (cases "AdmissionHolds s = []")
  case True
  with assms show ?thesis by (simp add: reconcileAdmissionHolds_def)
next
  case False
  then obtain kept where k: "keepAdmissionHolds c x [] (AdmissionHolds s) = Inr (kept, pruned)"
    and t: "t = s\<lparr> AdmissionHolds := kept \<rparr>" "changed = (0 < pruned)"
    using assms by (auto simp: reconcileAdmissionHolds_def split: sum.splits)
  from keepAdmissionHolds_ok [OF k] t show ?thesis
    by (auto simp: distinct_map_filter)
qed

text \<open>
  Reconciling admission holds removes exactly the holds whose process is gone, whose identity
  cannot be resolved or was replaced, keeps all others in order, counts what it removed, and leaves
  leases, waiters and the latch alone.
\<close>

theorem reconcile_holds_exact:
  assumes "reconcileAdmissionHolds c x s = Inr (t, pruned, changed)"
  shows "AdmissionHolds t = filter (hold_owned x) (AdmissionHolds s) \<and>
    pruned = int (length (AdmissionHolds s)) - int (length (AdmissionHolds t)) \<and>
    (changed \<longleftrightarrow> 0 < pruned) \<and> distinct (map h_OperationID (AdmissionHolds t)) \<and>
    Leases t = Leases s \<and> Waiters t = Waiters s \<and> AdmissionLatch t = AdmissionLatch s"
  using assms by (rule reconcileAdmissionHolds_ok)

text \<open>Two holds, the second of a process whose identity was replaced, for the witnesses.\<close>

definition sample_observation :: "bool \<Rightarrow> bool \<Rightarrow> WorkAdmissionObservation" where
  "sample_observation red recovered =
     \<lparr> ob_Red = red, ob_Recovered = recovered, ob_Dimension = ''cpu'', ob_Reason = ''host CPU'' \<rparr>"

definition sample_holds :: workState where
  "sample_holds = empty_state\<lparr> AdmissionHolds :=
     [new_hold sample_coordinator (sample_id CHR ''a'') WorkClassTest 3 ''tok'' 5 (sample_observation True False),
      new_hold sample_coordinator (sample_id CHR ''b'') WorkClassTest 3 ''old'' 6 (sample_observation True False)] \<rparr>"

theorem reconcile_holds_exact_witness:
  "\<exists>t. reconcileAdmissionHolds sample_coordinator (sample_host 7) sample_holds = Inr (t, 1, True) \<and>
     map h_OperationID (AdmissionHolds t) = [sample_id CHR ''a'']"
proof -
  have "map_sum id snd (reconcileAdmissionHolds sample_coordinator (sample_host 7) sample_holds) = Inr (1, True)"
    by code_simp
  then obtain t where t: "reconcileAdmissionHolds sample_coordinator (sample_host 7) sample_holds = Inr (t, 1, True)"
    by (cases "reconcileAdmissionHolds sample_coordinator (sample_host 7) sample_holds") auto
  have "map h_OperationID (filter (hold_owned (sample_host 7)) (AdmissionHolds sample_holds)) = [sample_id CHR ''a'']"
    by code_simp
  with reconcile_holds_exact [OF t] t show ?thesis by metis
qed

text \<open>
  An admission hold is evidence and not a reservation: recording or refreshing a hold leaves every
  lease, waiter and charged unit alone, afterwards the operation has exactly one hold, a refresh keeps the
  time the hold began, and releasing it removes it and no other.
\<close>

theorem hold_release_roundtrip:
  assumes "HoldAdmission_mutation c op class weight owner now ob s ledger = (t, ledger', r)"
    and "distinct (map h_OperationID (AdmissionHolds s))"
  shows "r = Inr () \<and> ledger' = ledger \<and> Leases t = Leases s \<and> Waiters t = Waiters s \<and>
    length (filter (\<lambda>h. h_OperationID h = op) (AdmissionHolds t)) = 1 \<and>
    (\<forall>h \<in> set (AdmissionHolds s). h_OperationID h = op \<longrightarrow>
       (\<exists>h' \<in> set (AdmissionHolds t). h_OperationID h' = op \<and> h_HeldSince h' = h_HeldSince h)) \<and>
    AdmissionHolds (fst (ReleaseAdmission_mutation op t ledger)) =
      filter (\<lambda>h. h_OperationID h \<noteq> op) (AdmissionHolds s)"
proof (cases "refresh_hold op now ob (AdmissionHolds s)")
  case None
  then have "filter (\<lambda>h. h_OperationID h = op) (AdmissionHolds s) = []" and n: "op \<notin> h_OperationID ` set (AdmissionHolds s)"
    by (auto simp: refresh_hold_None filter_empty_conv)
  moreover have "t = s\<lparr> AdmissionHolds := AdmissionHolds s @ [new_hold c op class weight owner now ob] \<rparr>"
    "r = Inr ()" "ledger' = ledger"
    using assms(1) None by (auto simp: HoldAdmission_mutation_def)
  ultimately show ?thesis
    by (auto simp: ReleaseAdmission_mutation_def new_hold_def)
next
  case (Some holds)
  then have t: "t = s\<lparr> AdmissionHolds := holds \<rparr>" "r = Inr ()" "ledger' = ledger"
    using assms(1) by (auto simp: HoldAdmission_mutation_def)
  from refresh_hold_unique [OF Some assms(2)] show ?thesis
    by (simp add: t ReleaseAdmission_mutation_def)
qed

theorem hold_release_roundtrip_witness:
  "\<exists>t. HoldAdmission_mutation sample_coordinator (sample_id CHR ''a'') WorkClassTest 3 ''tok'' 9
      (sample_observation False False) sample_holds [] = (t, [], Inr ()) \<and>
    map h_OperationID (AdmissionHolds (fst (ReleaseAdmission_mutation (sample_id CHR ''a'') t []))) =
      [sample_id CHR ''b'']"
proof -
  obtain t l r where m: "HoldAdmission_mutation sample_coordinator (sample_id CHR ''a'') WorkClassTest 3 ''tok'' 9
      (sample_observation False False) sample_holds [] = (t, l, r)"
    by (metis prod_cases3)
  have d: "distinct (map h_OperationID (AdmissionHolds sample_holds))"
    and f: "map h_OperationID (filter (\<lambda>h. h_OperationID h \<noteq> sample_id CHR ''a'') (AdmissionHolds sample_holds))
      = [sample_id CHR ''b'']"
    by code_simp+
  from hold_release_roundtrip [OF m d] m f show ?thesis by auto
qed


section \<open>The latch counts time, not observers\<close>

type_synonym latch_trace = "(time \<times> WorkAdmissionObservation) list"

definition engaged :: "WorkAdmissionLatch option \<Rightarrow> bool" where
  "engaged latch = (case latch of None \<Rightarrow> False | Some l \<Rightarrow> la_Latched l)"

text \<open>
  A run of observations by any number of processes, in the order their transactions commit, and the
  times at which the latch engages or releases on it.
\<close>

fun latch_flips :: "int \<Rightarrow> int \<Rightarrow> WorkAdmissionLatch option \<Rightarrow> latch_trace \<Rightarrow> (time \<times> bool) list" where
  "latch_flips b r latch [] = []"
| "latch_flips b r latch ((now, ob) # rest) =
     (let l = Some (observe_latch b r now ob latch) in
      (if engaged l = engaged latch then [] else [(now, engaged l)]) @ latch_flips b r l rest)"

text \<open>
  The pace asked of those times: to engage takes \<open>block - 1\<close> whole intervals since the last release
  (or since the run began), to release takes \<open>release\<close> whole intervals since the latch engaged, or
  the silence after which a latch is stale.
\<close>

fun spaced_flips :: "int \<Rightarrow> int \<Rightarrow> time \<Rightarrow> bool \<Rightarrow> (time \<times> bool) list \<Rightarrow> bool" where
  "spaced_flips b r since on [] \<longleftrightarrow> True"
| "spaced_flips b r since on ((now, on') # rest) \<longleftrightarrow>
     on' = (\<not> on) \<and>
     (if on then min (r * workAdmissionLatchSampleInterval) workAdmissionLatchStale
      else (b - 1) * workAdmissionLatchSampleInterval) \<le> now - since \<and>
     spaced_flips b r now on' rest"

lemma interval_sub:
  "time_sub now t \<ge> workAdmissionLatchSampleInterval \<longleftrightarrow> now - t \<ge> workAdmissionLatchSampleInterval"
  by (rule time_sub_ge_iff)
    (simp_all add: workAdmissionLatchSampleInterval_def milliseconds_def min_duration_def max_duration_def)

lemma stale_sub: "time_sub now t > workAdmissionLatchStale \<longleftrightarrow> now - t > workAdmissionLatchStale"
  using time_sub_le_iff [of workAdmissionLatchStale now t]
  by (simp add: workAdmissionLatchStale_def seconds_def min_duration_def max_duration_def not_less [symmetric])

lemma interval_pos: "0 < workAdmissionLatchSampleInterval"
  by (simp add: workAdmissionLatchSampleInterval_def milliseconds_def)

text \<open>
  What a latch owes to the time \<open>since\<close> of its last change: while it is open, at most one red sample
  more than the whole intervals since then; while it is engaged, at most as many recovery samples
  as the whole intervals since then.
\<close>

definition latch_pace :: "time \<Rightarrow> WorkAdmissionLatch \<Rightarrow> bool" where
  "latch_pace since l \<longleftrightarrow>
     (case la_ObservedAt l of
        None \<Rightarrow> la_RedSamples l = 0 \<and> \<not> la_Latched l
      | Some t \<Rightarrow> since \<le> t \<and>
          (if la_Latched l then la_RecoverySamples l * workAdmissionLatchSampleInterval \<le> t - since
           else (la_RedSamples l - 1) * workAdmissionLatchSampleInterval \<le> t - since))"

lemma latch_pace_empty: "latch_pace since empty_latch" "\<not> la_Latched empty_latch"
  by (simp_all add: latch_pace_def empty_latch_def)

lemma label_latch_simps [simp]:
  "la_Latched (label_latch b r ob l) = la_Latched l" "la_LatchedAt (label_latch b r ob l) = la_LatchedAt l"
  "la_RedSamples (label_latch b r ob l) = la_RedSamples l"
  "la_RecoverySamples (label_latch b r ob l) = la_RecoverySamples l"
  "la_ObservedAt (label_latch b r ob l) = la_ObservedAt l"
  by (simp_all add: label_latch_def)

lemma latch_pace_label [simp]: "latch_pace since (label_latch b r ob l) = latch_pace since l"
  by (simp add: latch_pace_def split: option.splits)

text \<open>A counted observation moves the latch, and what it owes, on by one interval.\<close>

lemma count_pace:
  fixes b r :: int and ob :: WorkAdmissionObservation
  assumes pace: "latch_pace since l" and counts: "latch_counts now l" and start: "la_ObservedAt l = None \<Longrightarrow> since \<le> now"
  defines "l' \<equiv> (count_observation b r now ob l)\<lparr> la_ObservedAt := Some now \<rparr>"
  shows "if la_Latched l' = la_Latched l then latch_pace since l'
    else latch_pace now l' \<and>
      (if la_Latched l then r * workAdmissionLatchSampleInterval \<le> now - since
       else (b - 1) * workAdmissionLatchSampleInterval \<le> now - since)"
proof -
  let ?I = workAdmissionLatchSampleInterval
  note I = interval_pos
  have since: "since \<le> now"
    using start pace counts I by (cases "la_ObservedAt l") (auto simp: latch_pace_def latch_counts_def interval_sub)
  have red: "la_RedSamples l * ?I \<le> now - since" if "\<not> la_Latched l"
    using pace counts since that I
    by (cases "la_ObservedAt l") (auto simp: latch_pace_def latch_counts_def interval_sub left_diff_distrib)
  have rec: "(la_RecoverySamples l + 1) * ?I \<le> now - since" if "la_Latched l"
    using pace counts since that
    by (cases "la_ObservedAt l") (auto simp: latch_pace_def latch_counts_def interval_sub distrib_right)
  have red': "(la_RedSamples l - 1) * ?I \<le> now - since" if "\<not> la_Latched l"
    using red [OF that] I by (simp add: left_diff_distrib)
  have block: "(b - 1) * ?I \<le> now - since" if "\<not> la_Latched l" "b \<le> la_RedSamples l + 1"
    using mult_right_mono [of "b - 1" "la_RedSamples l" ?I] red [OF that(1)] that(2) I by linarith
  have release: "r * ?I \<le> now - since" if "la_Latched l" "r \<le> la_RecoverySamples l + 1"
    using mult_right_mono [OF that(2), of ?I] rec [OF that(1)] I by linarith
  have zero: "- ?I \<le> now - since" using I since by linarith
  consider "ob_Red ob" | "\<not> ob_Red ob" "ob_Recovered ob" | "\<not> ob_Red ob" "\<not> ob_Recovered ob" by blast
  then show ?thesis
  proof cases
    case 1
    then show ?thesis
      using red block since
      by (cases "la_Latched l"; cases "b \<le> la_RedSamples l + 1")
         (simp_all add: l'_def latch_pace_def count_observation_def Let_def)
  next
    case 2
    then show ?thesis
      using rec release since zero I
      by (cases "la_Latched l"; cases "r \<le> la_RecoverySamples l + 1")
         (simp_all add: l'_def latch_pace_def count_observation_def Let_def)
  next
    case 3
    then show ?thesis
      using red' since by (cases "la_Latched l") (simp_all add: l'_def latch_pace_def count_observation_def)
  qed
qed

definition flip_allowed :: "int \<Rightarrow> int \<Rightarrow> time \<Rightarrow> bool \<Rightarrow> time \<Rightarrow> bool" where
  "flip_allowed b r since on now \<longleftrightarrow>
     (if on then min (r * workAdmissionLatchSampleInterval) workAdmissionLatchStale
      else (b - 1) * workAdmissionLatchSampleInterval) \<le> now - since"

definition paced_latch :: "time \<Rightarrow> WorkAdmissionLatch option \<Rightarrow> bool" where
  "paced_latch since latch = (case latch of None \<Rightarrow> True | Some l \<Rightarrow> latch_pace since l)"

lemma stale_gap:
  assumes "latch_pace since l" and "la_ObservedAt l = Some t" and "now - t > workAdmissionLatchStale"
  shows "workAdmissionLatchStale \<le> now - since" "since \<le> now"
  using assms by (auto simp: latch_pace_def workAdmissionLatchStale_def seconds_def)

lemma observe_pace:
  assumes pace: "paced_latch since latch"
    and start: "case latch of None \<Rightarrow> since \<le> now | Some l \<Rightarrow> la_ObservedAt l \<noteq> None"
  shows "if la_Latched (observe_latch b r now ob latch) = engaged latch
    then latch_pace since (observe_latch b r now ob latch)
    else latch_pace now (observe_latch b r now ob latch) \<and> flip_allowed b r since (engaged latch) now"
proof (cases "current_latch now latch = empty_latch \<and> engaged latch")
  case True
  then obtain l t where l: "latch = Some l" "la_Latched l" "la_ObservedAt l = Some t"
    using start by (auto simp: engaged_def split: option.splits)
  then have gap: "now - t > workAdmissionLatchStale"
    using True by (auto simp: current_latch_def stale_sub empty_latch_def split: if_splits)
  have "latch_pace since l" using pace l by (simp add: paced_latch_def)
  note stale = stale_gap [OF this l(3) gap]
  let ?n = "(count_observation b r now ob empty_latch)\<lparr> la_ObservedAt := Some now \<rparr>"
  have "latch_counts now empty_latch" by (simp add: latch_counts_def empty_latch_def)
  then have obs: "observe_latch b r now ob latch = label_latch b r ob ?n"
    using True by (simp add: observe_latch_def Let_def)
  have "latch_pace u ?n" if "u \<le> now" for u
    using that interval_pos
    by (auto simp: latch_pace_def count_observation_def empty_latch_def Let_def)
  then show ?thesis
    using stale l unfolding obs by (auto simp: engaged_def flip_allowed_def)
next
  case False
  have cur: "latch_pace since (current_latch now latch)"
    using pace latch_pace_empty by (auto simp: current_latch_def paced_latch_def split: option.splits)
  have same: "la_Latched (current_latch now latch) = engaged latch"
    using False latch_pace_empty(2) by (auto simp: current_latch_def engaged_def split: option.splits if_splits)
  show ?thesis
  proof (cases "latch_counts now (current_latch now latch)")
    case True
    have "la_ObservedAt (current_latch now latch) = None \<Longrightarrow> since \<le> now"
      using start pace stale_gap [of since]
      by (auto simp: current_latch_def paced_latch_def stale_sub split: option.splits if_splits)
    from count_pace [OF cur True this, of b r ob] True show ?thesis
      by (auto simp: observe_latch_def Let_def same flip_allowed_def split: if_splits)
  next
    case no: False
    then show ?thesis using cur same by (simp add: observe_latch_def Let_def)
  qed
qed

lemma observe_observed: "la_ObservedAt (observe_latch b r now ob latch) \<noteq> None"
  by (auto simp: observe_latch_def Let_def latch_counts_def split: option.splits)

lemma flips_spaced:
  assumes "paced_latch since latch" and "case latch of None \<Rightarrow> list_all (\<lambda>(now, ob). since \<le> now) trace
    | Some l \<Rightarrow> la_ObservedAt l \<noteq> None"
  shows "spaced_flips b r since (engaged latch) (latch_flips b r latch trace)"
  using assms
proof (induction trace arbitrary: since latch)
  case (Cons p trace)
  obtain now ob where p: "p = (now, ob)" by (cases p)
  let ?l = "observe_latch b r now ob latch"
  have start: "case latch of None \<Rightarrow> since \<le> now | Some l \<Rightarrow> la_ObservedAt l \<noteq> None"
    using Cons.prems(2) p by (auto split: option.splits)
  note step = observe_pace [OF Cons.prems(1) start, of b r ob]
  have rest: "latch_pace u ?l \<Longrightarrow> spaced_flips b r u (la_Latched ?l) (latch_flips b r (Some ?l) trace)" for u
    using Cons.IH [of u "Some ?l"] observe_observed by (simp add: paced_latch_def engaged_def)
  show ?case
  proof (cases "la_Latched ?l = engaged latch")
    case True
    then show ?thesis using step rest [of since] p by (simp add: Let_def engaged_def)
  next
    case False
    then show ?thesis using step rest [of now] p by (auto simp: Let_def engaged_def flip_allowed_def)
  qed
qed simp

text \<open>
  Claim C12. The shared latch counts elapsed time and not observers: however many processes observe and in
  whatever order their transactions commit, the latch engages at least \<open>blockRequired - 1\<close> whole
  sample intervals after the run began or after it was last released, and it is released at least
  \<open>releaseRequired\<close> whole sample intervals after it engaged, or after the silence that makes a
  latch stale when that is shorter.
\<close>

theorem latch_counts_time_not_observers:
  assumes "list_all (\<lambda>(now, ob). start \<le> now) trace"
  shows "spaced_flips b r start False (latch_flips b r None trace)"
  using flips_spaced [of start None trace b r] assms by (simp add: paced_latch_def engaged_def)

theorem latch_counts_time_not_observers_witness:
  "let red = sample_observation True False; calm = sample_observation False True;
       trace = [(0, red), (1, red), (seconds 2, red), (seconds 3, calm), (seconds 4, calm), (seconds 4, calm), (seconds 6, calm)]
   in latch_flips 2 2 None trace = [(seconds 2, True), (seconds 6, False)] \<and>
      spaced_flips 2 2 0 False (latch_flips 2 2 None trace)"
proof -
  let ?red = "sample_observation True False" and ?calm = "sample_observation False True"
  let ?trace = "[(0, ?red), (1, ?red), (seconds 2, ?red), (seconds 3, ?calm), (seconds 4, ?calm), (seconds 4, ?calm), (seconds 6, ?calm)]"
  have flips: "latch_flips 2 2 None ?trace = [(seconds 2, True), (seconds 6, False)]" by code_simp
  have "list_all (\<lambda>(now, ob). 0 \<le> now) ?trace" by (simp add: seconds_def)
  from latch_counts_time_not_observers [OF this, of 2 2] flips show ?thesis by (simp add: Let_def)
qed

text \<open>
  A boundary flap cannot release the latch: an observation that is neither red nor recovered
  never changes whether a live latch is engaged and drops the recovery run back to zero.
\<close>

theorem warning_band_holds_latch:
  assumes "\<not> ob_Red ob" and "\<not> ob_Recovered ob" and "la_ObservedAt l = Some t"
    and "now - t \<le> workAdmissionLatchStale"
  shows "la_Latched (observe_latch b r now ob (Some l)) = la_Latched l \<and>
    la_RedSamples (observe_latch b r now ob (Some l)) = la_RedSamples l \<and>
    la_RecoverySamples (observe_latch b r now ob (Some l)) \<in> {0, la_RecoverySamples l}"
proof -
  have "\<not> time_sub now t > workAdmissionLatchStale"
    using assms(4) time_sub_le_iff [of workAdmissionLatchStale now t]
    by (simp add: workAdmissionLatchStale_def seconds_def min_duration_def max_duration_def not_less)
  then have "current_latch now (Some l) = l" using assms(3) by (simp add: current_latch_def)
  with assms(1,2) show ?thesis
    by (simp add: observe_latch_def Let_def count_observation_def label_latch_def)
qed

theorem warning_band_holds_latch_witness:
  "la_Latched (observe_latch 2 2 (seconds 3) (sample_observation False False)
     (Some (empty_latch\<lparr> la_Latched := True, la_ObservedAt := Some 0 \<rparr>)))"
  using warning_band_holds_latch [of "sample_observation False False"
      "empty_latch\<lparr> la_Latched := True, la_ObservedAt := Some 0 \<rparr>" 0 "seconds 3" 2 2]
  by (simp add: sample_observation_def workAdmissionLatchStale_def seconds_def)

end
