(* ===== verification/Work_Reconcile.thy ===== *)
theory Work_Reconcile
  imports Admission_Hold
begin

text \<open>
  Reconciliation (\<^verbatim>\<open>WorkCoordinator.reconcile\<close>, worklease.go): every transaction first validates the
  persisted records, expires the leases and waiters whose owner is gone or whose process identifier
  was reused, normalises weights, restores the queue order, advances the promotion sequence and
  prunes admission holds.

  The lease loop and the waiter loop have one shape, \<open>prune\<close>: a record is checked against those
  before it, judged by its process probes, and then kept (with its weight normalised) or expired with
  an event. The first invalid record, unresolved probe or failed event write ends the pass with an
  error, and nothing is written.
\<close>

section \<open>Leases\<close>

definition needs_supervisor :: "WorkLeaseRecord \<Rightarrow> bool" where
  "needs_supervisor l \<longleftrightarrow> l_SupervisorPID l \<le> 0 \<or> TrimSpace (l_SupervisorIdentity l) = []"

definition fill_supervisor :: "WorkLeaseRecord \<Rightarrow> WorkLeaseRecord" where
  "fill_supervisor l =
     l\<lparr> l_SupervisorPID := (if l_SupervisorPID l \<le> 0 then l_PID l else l_SupervisorPID l),
        l_SupervisorIdentity := (if TrimSpace (l_SupervisorIdentity l) = [] then l_OwnerIdentity l
                                 else l_SupervisorIdentity l) \<rparr>"

definition lease_metadata_bad :: "time \<Rightarrow> WorkLeaseRecord \<Rightarrow> bool" where
  "lease_metadata_bad now l \<longleftrightarrow>
     l_PID l \<le> 0 \<or> l_SupervisorPID l \<le> 0 \<or> IsZero (l_QueuedAt l) \<or> IsZero (l_StartedAt l) \<or>
     l_QueuedAt l > l_StartedAt l \<or> l_StartedAt l > now + maximumWorkClockSkew \<or>
     TrimSpace (l_OwnerIdentity l) = [] \<or> TrimSpace (l_SupervisorIdentity l) = []"

definition lease_invalid ::
  "WorkCoordinator \<Rightarrow> time \<Rightarrow> WorkLeaseRecord list \<Rightarrow> WorkLeaseRecord \<Rightarrow> invalid_state option"
where
  "lease_invalid c now seen l =
     first_error
       [(\<not> validPrivateID (l_ID l), InvalidLeaseID (l_ID l)),
        (\<not> validPrivateID (l_OperationID l), InvalidOperationID (l_OperationID l)),
        (l_ID l \<in> l_ID ` set seen, DuplicateLeaseID (l_ID l)),
        (l_OperationID l \<in> l_OperationID ` set seen, DuplicateOperationID (l_OperationID l)),
        (coordinator_weight c (l_Class l) = None, UnknownLeaseClass (l_ID l)),
        (lease_metadata_bad now (fill_supervisor l), InvalidLeaseMetadata (l_ID l))]"

datatype verdict = Keep | Expire string

definition supervisor_owns :: "host_env \<Rightarrow> WorkLeaseRecord \<Rightarrow> invalid_state + bool" where
  "supervisor_owns x l =
     (if \<not> x_Alive x LeaseSupervisor (l_ID l) (l_SupervisorPID l) then Inr False
      else if l_SupervisorIdentity l = legacyWorkOwnerIdentityToken then Inr True
      else (case x_Identity x LeaseSupervisor (l_ID l) (l_SupervisorPID l) of
              None \<Rightarrow> Inl (SupervisorIdentityUnresolved (l_ID l))
            | Some current \<Rightarrow>
                if TrimSpace current = [] then Inl (SupervisorIdentityUnresolved (l_ID l))
                else Inr (current = l_SupervisorIdentity l)))"

definition lease_verdict :: "host_env \<Rightarrow> WorkLeaseRecord \<Rightarrow> invalid_state + verdict" where
  "lease_verdict x l =
     (case supervisor_owns x l of
        Inl err \<Rightarrow> Inl err
      | Inr owns \<Rightarrow>
          if \<not> x_Alive x LeaseOwner (l_ID l) (l_PID l)
          then Inr (if owns then Keep else Expire ''dead_lease_owner'')
          else if l_OwnerIdentity l \<noteq> legacyWorkOwnerIdentityToken then
            (case x_Identity x LeaseOwner (l_ID l) (l_PID l) of
               None \<Rightarrow> if \<not> x_Alive x LeaseOwnerRecheck (l_ID l) (l_PID l)
                        then Inr (Expire ''dead_lease_owner'')
                        else Inl (OwnerIdentityUnresolved (l_ID l))
             | Some current \<Rightarrow>
                 if TrimSpace current = [] then Inl (OwnerIdentityUnresolved (l_ID l))
                 else if current \<noteq> l_OwnerIdentity l
                 then Inr (if owns then Keep else Expire ''reused_lease_pid'')
                 else Inr Keep)
          else Inr Keep)"

definition expected_weight :: "WorkCoordinator \<Rightarrow> WorkClass \<Rightarrow> int" where
  "expected_weight c class = (case coordinator_weight c class of Some w \<Rightarrow> w | None \<Rightarrow> 0)"

definition normal_lease :: "WorkCoordinator \<Rightarrow> WorkLeaseRecord \<Rightarrow> WorkLeaseRecord" where
  "normal_lease c l = (fill_supervisor l)\<lparr> l_Weight := expected_weight c (l_Class l) \<rparr>"


section \<open>Waiters\<close>

definition waiter_metadata_bad :: "time \<Rightarrow> WorkWaiterRecord \<Rightarrow> bool" where
  "waiter_metadata_bad now w \<longleftrightarrow>
     w_PID w \<le> 0 \<or> IsZero (w_QueuedAt w) \<or> w_QueuedAt w > now + maximumWorkClockSkew \<or>
     IsZero (w_HeartbeatAt w) \<or> w_HeartbeatAt w < w_QueuedAt w \<or>
     w_HeartbeatAt w > now + maximumWorkClockSkew \<or> TrimSpace (w_OwnerIdentity w) = []"

definition stamp_bad :: "time \<Rightarrow> WorkWaiterRecord \<Rightarrow> time option \<Rightarrow> bool" where
  "stamp_bad now w stamp \<longleftrightarrow>
     (case stamp of None \<Rightarrow> False
      | Some t \<Rightarrow> t < w_QueuedAt w \<or> t > now + maximumWorkClockSkew)"

definition reservation_checks :: "time \<Rightarrow> WorkWaiterRecord \<Rightarrow> (bool \<times> invalid_state) list" where
  "reservation_checks now w =
     [(w_ReservationKind w = [] \<and> w_ReservedAt w \<noteq> None, ReservedAtWithoutKind (w_OperationID w)),
      (w_ReservationKind w = WorkReservationPressure \<and>
         (w_ReservedAt w = None \<or> stamp_bad now w (w_ReservedAt w)), InvalidPressureReservation (w_OperationID w)),
      (w_ReservationKind w \<noteq> [] \<and> w_ReservationKind w \<noteq> WorkReservationPressure,
       InvalidReservationKind (w_OperationID w) (w_ReservationKind w))]"

definition legacyExclusiveBenchmark :: "WorkCoordinator \<Rightarrow> WorkWaiterRecord \<Rightarrow> bool" where
  "legacyExclusiveBenchmark c w \<longleftrightarrow>
     (let expected = expected_weight c (w_Class w); capacity = Capacity (coordinator_limits c) in
      w_Class w = WorkClassBenchmark \<and> expected < capacity \<and>
      (w_Weight w = capacity \<or> w_Weight w = expected))"

definition premature_protection :: "WorkCoordinator \<Rightarrow> time \<Rightarrow> WorkWaiterRecord \<Rightarrow> bool" where
  "premature_protection c now w \<longleftrightarrow>
     w_ProtectedAt w \<noteq> None \<and>
     workWaiterProtection (w\<lparr> w_Weight := expected_weight c (w_Class w), w_ProtectedAt := None \<rparr>)
       (Capacity (coordinator_limits c)) now = None \<and>
     \<not> legacyExclusiveBenchmark c w"

definition waiter_invalid ::
  "WorkCoordinator \<Rightarrow> time \<Rightarrow> string list \<Rightarrow> WorkWaiterRecord list \<Rightarrow> WorkWaiterRecord \<Rightarrow> invalid_state option"
where
  "waiter_invalid c now leased seen w =
     first_error
       ([(\<not> validPrivateID (w_OperationID w), InvalidWaiterID (w_OperationID w)),
         (w_OperationID w \<in> set leased \<or> w_OperationID w \<in> w_OperationID ` set seen,
          DuplicateOperationID (w_OperationID w)),
         (coordinator_weight c (w_Class w) = None, UnknownWaiterClass (w_OperationID w)),
         (waiter_metadata_bad now w, InvalidWaiterMetadata (w_OperationID w)),
         (w_BypassCount w < 0 \<or> w_BypassCount w > workMaximumBypasses,
          InvalidBypassCount (w_OperationID w) (w_BypassCount w)),
         (stamp_bad now w (w_LastBypassedAt w) \<or> stamp_bad now w (w_ProtectedAt w),
          InvalidWaiterTimestamp (w_OperationID w))]
        @ reservation_checks now w @
        [(premature_protection c now w, PrematureProtection (w_OperationID w))])"

definition waiter_verdict :: "host_env \<Rightarrow> WorkWaiterRecord \<Rightarrow> invalid_state + verdict" where
  "waiter_verdict x w =
     (if \<not> x_Alive x WaiterOwner (w_OperationID w) (w_PID w) then Inr (Expire ''dead_waiter_owner'')
      else (case x_Identity x WaiterOwner (w_OperationID w) (w_PID w) of
              None \<Rightarrow> if \<not> x_Alive x WaiterOwnerRecheck (w_OperationID w) (w_PID w)
                       then Inr (Expire ''dead_waiter_owner'')
                       else Inl (WaiterIdentityUnresolved (w_OperationID w))
            | Some current \<Rightarrow>
                if TrimSpace current = [] then Inl (WaiterIdentityUnresolved (w_OperationID w))
                else if current \<noteq> w_OwnerIdentity w then Inr (Expire ''reused_waiter_pid'')
                else Inr Keep))"

definition normal_waiter :: "WorkCoordinator \<Rightarrow> WorkWaiterRecord \<Rightarrow> WorkWaiterRecord" where
  "normal_waiter c w = w\<lparr> w_Weight := expected_weight c (w_Class w) \<rparr>"


section \<open>The pass\<close>

fun prune ::
  "('r list \<Rightarrow> 'r \<Rightarrow> invalid_state option) \<Rightarrow> ('r \<Rightarrow> invalid_state + verdict)
     \<Rightarrow> ('r \<Rightarrow> string \<Rightarrow> WorkEvent list \<Rightarrow> event_error + WorkEvent list) \<Rightarrow> ('r \<Rightarrow> string) \<Rightarrow> ('r \<Rightarrow> 'r)
     \<Rightarrow> 'r list \<Rightarrow> 'r list \<Rightarrow> WorkEvent list \<Rightarrow> WorkEvent list \<times> (invalid_state + 'r list)"
where
  "prune invalid judge expire key normal seen [] ledger = (ledger, Inr [])"
| "prune invalid judge expire key normal seen (r # rs) ledger =
     (case invalid seen r of
        Some err \<Rightarrow> (ledger, Inl err)
      | None \<Rightarrow>
          (case judge r of
             Inl err \<Rightarrow> (ledger, Inl err)
           | Inr Keep \<Rightarrow>
               (case prune invalid judge expire key normal (r # seen) rs ledger of
                  (ledger', Inl err) \<Rightarrow> (ledger', Inl err)
                | (ledger', Inr kept) \<Rightarrow> (ledger', Inr (normal r # kept)))
           | Inr (Expire outcome) \<Rightarrow>
               (case expire r outcome ledger of
                  Inl err \<Rightarrow> (ledger, Inl (ExpiryNotPersisted (key r)))
                | Inr ledger1 \<Rightarrow> prune invalid judge expire key normal (r # seen) rs ledger1)))"

definition expire_lease ::
  "WorkCoordinator \<Rightarrow> event_env \<Rightarrow> WorkLeaseRecord \<Rightarrow> string \<Rightarrow> WorkEvent list \<Rightarrow> event_error + WorkEvent list"
where
  "expire_lease c en l outcome ledger =
     recordExpired en (l_OperationID l) (l_ID l) (l_Class l) (expected_weight c (l_Class l)) (l_PID l) outcome
       ledger"

definition expire_waiter ::
  "WorkCoordinator \<Rightarrow> event_env \<Rightarrow> WorkWaiterRecord \<Rightarrow> string \<Rightarrow> WorkEvent list \<Rightarrow> event_error + WorkEvent list"
where
  "expire_waiter c en w outcome ledger =
     recordExpired en (w_OperationID w) [] (w_Class w) (expected_weight c (w_Class w)) (w_PID w) outcome ledger"

definition reconcile_leases ::
  "WorkCoordinator \<Rightarrow> host_env \<Rightarrow> WorkLeaseRecord list \<Rightarrow> WorkEvent list
     \<Rightarrow> WorkEvent list \<times> (invalid_state + WorkLeaseRecord list)"
where
  "reconcile_leases c x leases ledger =
     prune (lease_invalid c (x_Clock x AtReconcile)) (\<lambda>l. lease_verdict x (fill_supervisor l))
       (expire_lease c (x_Events x)) l_ID (normal_lease c) [] leases ledger"

definition reconcile_waiters ::
  "WorkCoordinator \<Rightarrow> host_env \<Rightarrow> string list \<Rightarrow> WorkWaiterRecord list \<Rightarrow> WorkEvent list
     \<Rightarrow> WorkEvent list \<times> (invalid_state + WorkWaiterRecord list)"
where
  "reconcile_waiters c x leased waiters ledger =
     prune (waiter_invalid c (x_Clock x AtReconcile) leased) (waiter_verdict x)
       (expire_waiter c (x_Events x)) w_OperationID (normal_waiter c) [] waiters ledger"

abbreviation queue_key :: "WorkWaiterRecord \<Rightarrow> time \<times> string" where
  "queue_key w \<equiv> (w_QueuedAt w, w_OperationID w)"

text \<open>
  Whether the pass repaired a record in place: a supervisor filled in outside the legacy window, or a
  weight normalised. An expired record changes the state anyway.
\<close>

definition leases_repaired :: "WorkCoordinator \<Rightarrow> workState \<Rightarrow> bool" where
  "leases_repaired c s \<longleftrightarrow>
     (\<exists>l \<in> set (Leases s). needs_supervisor l \<and> \<not> legacyActive s \<or> l_Weight l \<noteq> expected_weight c (l_Class l))"

definition waiters_repaired :: "WorkCoordinator \<Rightarrow> workState \<Rightarrow> bool" where
  "waiters_repaired c s \<longleftrightarrow> (\<exists>w \<in> set (Waiters s). w_Weight w \<noteq> expected_weight c (w_Class w))"

record reconciled =
  rc_State :: workState
  rc_PrunedLeases :: int
  rc_PrunedWaiters :: int
  rc_Changed :: bool

definition settle_queue :: "WorkLeaseRecord list \<Rightarrow> WorkWaiterRecord list \<Rightarrow> workState \<Rightarrow> workState" where
  "settle_queue leases waiters s =
     s\<lparr> Leases := leases, Waiters := sort_key queue_key waiters,
        legacyActive := (legacyActive s \<and> \<not> (leases = [] \<and> waiters = [])) \<rparr>"

definition reconcile ::
  "WorkCoordinator \<Rightarrow> host_env \<Rightarrow> workState \<Rightarrow> WorkEvent list \<Rightarrow> WorkEvent list \<times> (invalid_state + reconciled)"
where
  "reconcile c x s ledger =
     (case reconcile_leases c x (Leases s) ledger of
        (ledger1, Inl err) \<Rightarrow> (ledger1, Inl err)
      | (ledger1, Inr leases) \<Rightarrow>
          (case reconcile_waiters c x (map l_OperationID (Leases s)) (Waiters s) ledger1 of
             (ledger2, Inl err) \<Rightarrow> (ledger2, Inl err)
           | (ledger2, Inr waiters) \<Rightarrow>
               (let prunedLeases = int (length (Leases s)) - int (length leases);
                    prunedWaiters = int (length (Waiters s)) - int (length waiters);
                    (s2, advanced) = advanceWorkOverride (x_Clock x AtOverride) (settle_queue leases waiters s)
                in case reconcileAdmissionHolds c x s2 of
                     Inl err \<Rightarrow> (ledger2, Inl err)
                   | Inr (s3, prunedHolds, holdsChanged) \<Rightarrow>
                       (ledger2, Inr \<lparr> rc_State = s3\<lparr> prunedAdmissionHolds := prunedHolds \<rparr>,
                          rc_PrunedLeases = prunedLeases, rc_PrunedWaiters = prunedWaiters,
                          rc_Changed = (migrated s \<or> leases_repaired c s \<or> waiters_repaired c s \<or>
                            0 < prunedLeases \<or> 0 < prunedWaiters \<or> advanced \<or> holdsChanged) \<rparr>))))"


section \<open>The pass in closed form\<close>

fun all_valid :: "('r list \<Rightarrow> 'r \<Rightarrow> invalid_state option) \<Rightarrow> 'r list \<Rightarrow> 'r list \<Rightarrow> bool" where
  "all_valid invalid seen [] = True"
| "all_valid invalid seen (r # rs) = (invalid seen r = None \<and> all_valid invalid (r # seen) rs)"

lemma prune_ok:
  assumes "prune invalid judge expire key normal seen rs ledger = (ledger', Inr kept)"
  shows "kept = map normal (filter (\<lambda>r. judge r = Inr Keep) rs)" and "all_valid invalid seen rs"
    and "\<forall>r \<in> set rs. \<exists>v. judge r = Inr v"
proof -
  have "kept = map normal (filter (\<lambda>r. judge r = Inr Keep) rs) \<and> all_valid invalid seen rs \<and>
      (\<forall>r \<in> set rs. \<exists>v. judge r = Inr v)"
    using assms
  proof (induction rs arbitrary: seen ledger kept)
    case Nil
    then show ?case by simp
  next
    case (Cons r rs)
    from Cons.prems have v: "invalid seen r = None" by (auto split: option.splits)
    consider (keep) kept' where "judge r = Inr Keep" "kept = normal r # kept'"
        "prune invalid judge expire key normal (r # seen) rs ledger = (ledger', Inr kept')"
      | (gone) outcome ledger1 where "judge r = Inr (Expire outcome)"
        "prune invalid judge expire key normal (r # seen) rs ledger1 = (ledger', Inr kept)"
      using Cons.prems by (auto split: option.splits sum.splits verdict.splits prod.splits)
    then show ?case
    proof cases
      case keep
      with Cons.IH [OF keep(3)] v show ?thesis by simp
    next
      case gone
      with Cons.IH [OF gone(2)] v show ?thesis by simp
    qed
  qed
  then show "kept = map normal (filter (\<lambda>r. judge r = Inr Keep) rs)" and "all_valid invalid seen rs"
    and "\<forall>r \<in> set rs. \<exists>v. judge r = Inr v"
    by auto
qed

lemma prune_keeps_all:
  "all_valid invalid seen rs \<Longrightarrow> \<forall>r \<in> set rs. judge r = Inr Keep \<Longrightarrow>
     prune invalid judge expire key normal seen rs ledger = (ledger, Inr (map normal rs))"
  by (induction rs arbitrary: seen) auto

text \<open>What the event writer keeps of the ledger, the pass keeps: \<open>Q\<close> relates a ledger to a later one.\<close>

lemma prune_ledger:
  assumes step: "\<And>r outcome l l'. expire r outcome l = Inr l' \<Longrightarrow> Q l l'"
    and refl: "\<And>l. Q l l" and trans: "\<And>l m n. Q l m \<Longrightarrow> Q m n \<Longrightarrow> Q l n"
  shows "Q ledger (fst (prune invalid judge expire key normal seen rs ledger))"
proof (induction rs arbitrary: seen ledger)
  case Nil
  then show ?case by (simp add: refl)
next
  case (Cons r rs)
  show ?case
  proof (cases "invalid seen r = None")
    case False
    then show ?thesis by (auto simp: refl)
  next
    case v: True
    consider (err) err where "judge r = Inl err" | (keep) "judge r = Inr Keep"
      | (gone) outcome where "judge r = Inr (Expire outcome)"
      by (metis sum.exhaust verdict.exhaust)
    then show ?thesis
    proof cases
      case err
      with v show ?thesis by (simp add: refl)
    next
      case keep
      with v have "fst (prune invalid judge expire key normal seen (r # rs) ledger) =
          fst (prune invalid judge expire key normal (r # seen) rs ledger)"
        by (auto split: prod.splits sum.splits)
      with Cons.IH show ?thesis by metis
    next
      case gone
      show ?thesis
      proof (cases "expire r outcome ledger")
        case (Inl err)
        with gone v show ?thesis by (simp add: refl)
      next
        case (Inr ledger1)
        with gone v trans [OF step [OF Inr] Cons.IH] show ?thesis by simp
      qed
    qed
  qed
qed


section \<open>Well-formed records\<close>

definition lease_ok :: "WorkCoordinator \<Rightarrow> time \<Rightarrow> WorkLeaseRecord \<Rightarrow> bool" where
  "lease_ok c now l \<longleftrightarrow> lease_invalid c now [] l = None"

definition waiter_ok :: "WorkCoordinator \<Rightarrow> time \<Rightarrow> WorkWaiterRecord \<Rightarrow> bool" where
  "waiter_ok c now w \<longleftrightarrow> waiter_invalid c now [] [] w = None"

lemma lease_invalid_None:
  "lease_invalid c now seen l = None \<longleftrightarrow>
     lease_ok c now l \<and> l_ID l \<notin> l_ID ` set seen \<and> l_OperationID l \<notin> l_OperationID ` set seen"
  by (auto simp: lease_invalid_def lease_ok_def)

lemma waiter_invalid_None:
  "waiter_invalid c now leased seen w = None \<longleftrightarrow>
     waiter_ok c now w \<and> w_OperationID w \<notin> set leased \<and> w_OperationID w \<notin> w_OperationID ` set seen"
  by (auto simp: waiter_invalid_def waiter_ok_def)

lemma all_valid_leases:
  "all_valid (lease_invalid c now) seen ls \<longleftrightarrow>
     list_all (lease_ok c now) ls \<and> distinct (map l_ID ls) \<and> distinct (map l_OperationID ls) \<and>
     l_ID ` set ls \<inter> l_ID ` set seen = {} \<and> l_OperationID ` set ls \<inter> l_OperationID ` set seen = {}"
  by (induction ls arbitrary: seen) (auto simp: lease_invalid_None)

lemma all_valid_waiters:
  "all_valid (waiter_invalid c now leased) seen ws \<longleftrightarrow>
     list_all (waiter_ok c now) ws \<and> distinct (map w_OperationID ws) \<and>
     w_OperationID ` set ws \<inter> (set leased \<union> w_OperationID ` set seen) = {}"
  by (induction ws arbitrary: seen) (auto simp: waiter_invalid_None)

text \<open>The documents the coordinator accepts at \<open>now\<close>, whatever its probes answer.\<close>

definition wf_state :: "WorkCoordinator \<Rightarrow> time \<Rightarrow> workState \<Rightarrow> bool" where
  "wf_state c now s \<longleftrightarrow>
     list_all (lease_ok c now) (Leases s) \<and> distinct (map l_ID (Leases s)) \<and>
     list_all (waiter_ok c now) (Waiters s) \<and>
     distinct (map l_OperationID (Leases s) @ map w_OperationID (Waiters s)) \<and>
     list_all (hold_valid c now) (AdmissionHolds s) \<and> distinct (map h_OperationID (AdmissionHolds s))"

lemma expected_weight_Some: "coordinator_weight c class = Some w \<Longrightarrow> expected_weight c class = w"
  by (simp add: expected_weight_def)

lemma lease_ok_iff:
  "lease_ok c now l \<longleftrightarrow> validPrivateID (l_ID l) \<and> validPrivateID (l_OperationID l) \<and>
     coordinator_weight c (l_Class l) \<noteq> None \<and> \<not> lease_metadata_bad now (fill_supervisor l)"
  by (auto simp: lease_ok_def lease_invalid_def)

lemma waiter_ok_iff:
  "waiter_ok c now w \<longleftrightarrow> validPrivateID (w_OperationID w) \<and> coordinator_weight c (w_Class w) \<noteq> None \<and>
     \<not> waiter_metadata_bad now w \<and> 0 \<le> w_BypassCount w \<and> w_BypassCount w \<le> workMaximumBypasses \<and>
     \<not> stamp_bad now w (w_LastBypassedAt w) \<and> \<not> stamp_bad now w (w_ProtectedAt w) \<and>
     list_all (\<lambda>g. \<not> fst g) (reservation_checks now w) \<and> \<not> premature_protection c now w"
  by (auto simp: waiter_ok_def waiter_invalid_def)

lemma fill_supervisor_simps [simp]:
  "l_ID (fill_supervisor l) = l_ID l" "l_OperationID (fill_supervisor l) = l_OperationID l"
  "l_Class (fill_supervisor l) = l_Class l" "l_PID (fill_supervisor l) = l_PID l"
  "l_OwnerIdentity (fill_supervisor l) = l_OwnerIdentity l" "l_Weight (fill_supervisor l) = l_Weight l"
  "l_QueuedAt (fill_supervisor l) = l_QueuedAt l" "l_StartedAt (fill_supervisor l) = l_StartedAt l"
  "l_ParkedAt (fill_supervisor l) = l_ParkedAt l"
  by (simp_all add: fill_supervisor_def)

lemma normal_lease_simps [simp]:
  "l_ID (normal_lease c l) = l_ID l" "l_OperationID (normal_lease c l) = l_OperationID l"
  "l_Class (normal_lease c l) = l_Class l" "l_PID (normal_lease c l) = l_PID l"
  "l_OwnerIdentity (normal_lease c l) = l_OwnerIdentity l"
  "l_Weight (normal_lease c l) = expected_weight c (l_Class l)"
  "l_QueuedAt (normal_lease c l) = l_QueuedAt l" "l_StartedAt (normal_lease c l) = l_StartedAt l"
  "l_ParkedAt (normal_lease c l) = l_ParkedAt l"
  by (simp_all add: normal_lease_def)

lemma normal_waiter_simps [simp]:
  "w_OperationID (normal_waiter c w) = w_OperationID w" "w_Class (normal_waiter c w) = w_Class w"
  "w_Weight (normal_waiter c w) = expected_weight c (w_Class w)" "w_PID (normal_waiter c w) = w_PID w"
  "w_OwnerIdentity (normal_waiter c w) = w_OwnerIdentity w" "w_QueuedAt (normal_waiter c w) = w_QueuedAt w"
  "w_HeartbeatAt (normal_waiter c w) = w_HeartbeatAt w" "w_BypassCount (normal_waiter c w) = w_BypassCount w"
  "w_LastBypassedAt (normal_waiter c w) = w_LastBypassedAt w"
  "w_ProtectedAt (normal_waiter c w) = w_ProtectedAt w"
  "w_ReservationKind (normal_waiter c w) = w_ReservationKind w"
  "w_ReservedAt (normal_waiter c w) = w_ReservedAt w"
  by (simp_all add: normal_waiter_def)

text \<open>An accepted lease already has its supervisor after one pass.\<close>

lemma fill_supervisor_normal:
  assumes "lease_ok c now l"
  shows "fill_supervisor (normal_lease c l) = normal_lease c l"
    and "\<not> needs_supervisor (normal_lease c l)"
proof -
  have "0 < l_SupervisorPID (fill_supervisor l)" "TrimSpace (l_SupervisorIdentity (fill_supervisor l)) \<noteq> []"
    using assms by (auto simp: lease_ok_iff lease_metadata_bad_def)
  then have s: "0 < l_SupervisorPID (normal_lease c l)" "TrimSpace (l_SupervisorIdentity (normal_lease c l)) \<noteq> []"
    by (auto simp: normal_lease_def)
  then show "\<not> needs_supervisor (normal_lease c l)" by (simp add: needs_supervisor_def)
  from s show "fill_supervisor (normal_lease c l) = normal_lease c l"
    by (simp add: fill_supervisor_def [of "normal_lease c l"])
qed

lemma lease_ok_normal:
  assumes "lease_ok c now l"
  shows "lease_ok c now (normal_lease c l)"
proof -
  have "lease_metadata_bad now (normal_lease c l) = lease_metadata_bad now (fill_supervisor l)"
    by (simp add: lease_metadata_bad_def normal_lease_def)
  with assms fill_supervisor_normal [OF assms] show ?thesis by (simp add: lease_ok_iff)
qed

lemma premature_normal: "premature_protection c now (normal_waiter c w) \<Longrightarrow> premature_protection c now w"
  by (auto simp: premature_protection_def legacyExclusiveBenchmark_def normal_waiter_def Let_def)

lemma stamp_bad_cong: "w_QueuedAt v = w_QueuedAt w \<Longrightarrow> stamp_bad now v t = stamp_bad now w t"
  by (simp add: stamp_bad_def split: option.splits)

lemma waiter_ok_normal:
  assumes "waiter_ok c now w"
  shows "waiter_ok c now (normal_waiter c w)"
proof -
  have "waiter_metadata_bad now (normal_waiter c w) = waiter_metadata_bad now w"
    "stamp_bad now (normal_waiter c w) t = stamp_bad now w t"
    "reservation_checks now (normal_waiter c w) = reservation_checks now w" for t
    using stamp_bad_cong [of "normal_waiter c w" w now]
    by (simp_all add: waiter_metadata_bad_def reservation_checks_def)
  with assms premature_normal [of c now w] show ?thesis by (auto simp: waiter_ok_iff)
qed


section \<open>What reconciliation guarantees\<close>

lemma reconcile_success:
  assumes "reconcile c x s ledger = (ledger', Inr r)"
  obtains leases waiters holds pruned changed where
    "leases = map (normal_lease c) (filter (\<lambda>l. lease_verdict x (fill_supervisor l) = Inr Keep) (Leases s))"
    "waiters = map (normal_waiter c) (filter (\<lambda>w. waiter_verdict x w = Inr Keep) (Waiters s))"
    "all_valid (lease_invalid c (x_Clock x AtReconcile)) [] (Leases s)"
    "all_valid (waiter_invalid c (x_Clock x AtReconcile) (map l_OperationID (Leases s))) [] (Waiters s)"
    "reconcileAdmissionHolds c x (fst (advanceWorkOverride (x_Clock x AtOverride) (settle_queue leases waiters s)))
       = Inr (holds, pruned, changed)"
    "rc_State r = holds\<lparr> prunedAdmissionHolds := pruned \<rparr>"
    "rc_PrunedLeases r = int (length (Leases s)) - int (length leases)"
    "rc_PrunedWaiters r = int (length (Waiters s)) - int (length waiters)"
    "rc_Changed r = (migrated s \<or> leases_repaired c s \<or> waiters_repaired c s \<or> 0 < rc_PrunedLeases r \<or>
       0 < rc_PrunedWaiters r \<or> snd (advanceWorkOverride (x_Clock x AtOverride) (settle_queue leases waiters s)) \<or>
       changed)"
proof -
  obtain ledger1 leases where l: "reconcile_leases c x (Leases s) ledger = (ledger1, Inr leases)"
    using assms by (auto simp: reconcile_def split: prod.splits sum.splits)
  then obtain ledger2 waiters where w:
    "reconcile_waiters c x (map l_OperationID (Leases s)) (Waiters s) ledger1 = (ledger2, Inr waiters)"
    using assms by (auto simp: reconcile_def split: prod.splits sum.splits)
  note lo = prune_ok [OF l [unfolded reconcile_leases_def]]
  note wo = prune_ok [OF w [unfolded reconcile_waiters_def]]
  show thesis
    using assms l w that [OF lo(1) wo(1) lo(2) wo(2)]
    by (auto simp: reconcile_def Let_def split: prod.splits sum.splits)
qed

lemma reconcile_judged:
  assumes "reconcile c x s ledger = (ledger', Inr r)"
  shows "\<forall>l \<in> set (Leases s). \<exists>v. lease_verdict x (fill_supervisor l) = Inr v"
    and "\<forall>w \<in> set (Waiters s). \<exists>v. waiter_verdict x w = Inr v"
proof -
  obtain ledger1 leases ledger2 waiters where l: "reconcile_leases c x (Leases s) ledger = (ledger1, Inr leases)"
    and w: "reconcile_waiters c x (map l_OperationID (Leases s)) (Waiters s) ledger1 = (ledger2, Inr waiters)"
    using assms by (auto simp: reconcile_def split: prod.splits sum.splits)
  show "\<forall>l \<in> set (Leases s). \<exists>v. lease_verdict x (fill_supervisor l) = Inr v"
    by (rule prune_ok(3) [OF l [unfolded reconcile_leases_def]])
  show "\<forall>w \<in> set (Waiters s). \<exists>v. waiter_verdict x w = Inr v"
    by (rule prune_ok(3) [OF w [unfolded reconcile_waiters_def]])
qed

lemma settle_queue_simps [simp]:
  "Leases (settle_queue ls ws s) = ls" "Waiters (settle_queue ls ws s) = sort_key queue_key ws"
  "AdmissionHolds (settle_queue ls ws s) = AdmissionHolds s" "SchemaVersion (settle_queue ls ws s) = SchemaVersion s"
  "OverrideOperationID (settle_queue ls ws s) = OverrideOperationID s"
  "OverrideQueue (settle_queue ls ws s) = OverrideQueue s"
  "AdmissionLatch (settle_queue ls ws s) = AdmissionLatch s" "migrated (settle_queue ls ws s) = migrated s"
  by (simp_all add: settle_queue_def)

lemma reconcileAdmissionHolds_frame:
  "reconcileAdmissionHolds c x s = Inr (t, p, ch) \<Longrightarrow> \<exists>hs. t = s\<lparr> AdmissionHolds := hs \<rparr>"
  by (cases "AdmissionHolds s = []")
    (auto simp: reconcileAdmissionHolds_def split: sum.splits intro: exI [of _ "[]"])

lemma reconcile_records:
  assumes "reconcile c x s ledger = (ledger', Inr r)"
  shows "Leases (rc_State r) =
      map (normal_lease c) (filter (\<lambda>l. lease_verdict x (fill_supervisor l) = Inr Keep) (Leases s))"
    and "Waiters (rc_State r) = sort_key queue_key
      (map (normal_waiter c) (filter (\<lambda>w. waiter_verdict x w = Inr Keep) (Waiters s)))"
    and "AdmissionHolds (rc_State r) = filter (hold_owned x) (AdmissionHolds s)"
    and "SchemaVersion (rc_State r) = SchemaVersion s" and "AdmissionLatch (rc_State r) = AdmissionLatch s"
proof -
  obtain leases waiters holds pruned changed where
    l: "leases = map (normal_lease c) (filter (\<lambda>l. lease_verdict x (fill_supervisor l) = Inr Keep) (Leases s))"
    and w: "waiters = map (normal_waiter c) (filter (\<lambda>w. waiter_verdict x w = Inr Keep) (Waiters s))"
    and h: "reconcileAdmissionHolds c x
      (fst (advanceWorkOverride (x_Clock x AtOverride) (settle_queue leases waiters s))) = Inr (holds, pruned, changed)"
    and r: "rc_State r = holds\<lparr> prunedAdmissionHolds := pruned \<rparr>"
    by (rule reconcile_success [OF assms]) blast
  note ok = reconcileAdmissionHolds_ok [OF h]
  obtain hs where f: "holds = (fst (advanceWorkOverride (x_Clock x AtOverride)
      (settle_queue leases waiters s)))\<lparr> AdmissionHolds := hs \<rparr>"
    using reconcileAdmissionHolds_frame [OF h] by blast
  show "Leases (rc_State r) =
      map (normal_lease c) (filter (\<lambda>l. lease_verdict x (fill_supervisor l) = Inr Keep) (Leases s))"
    and "Waiters (rc_State r) = sort_key queue_key
      (map (normal_waiter c) (filter (\<lambda>w. waiter_verdict x w = Inr Keep) (Waiters s)))"
    and "AdmissionHolds (rc_State r) = filter (hold_owned x) (AdmissionHolds s)"
    and "SchemaVersion (rc_State r) = SchemaVersion s" and "AdmissionLatch (rc_State r) = AdmissionLatch s"
    using ok l w by (simp_all add: r f)
qed

lemma reconcile_migrated:
  assumes "reconcile c x s ledger = (ledger', Inr r)"
  shows "migrated (rc_State r) = migrated s"
proof -
  obtain leases waiters holds pruned changed where
    h: "reconcileAdmissionHolds c x
      (fst (advanceWorkOverride (x_Clock x AtOverride) (settle_queue leases waiters s))) = Inr (holds, pruned, changed)"
    and r: "rc_State r = holds\<lparr> prunedAdmissionHolds := pruned \<rparr>"
    by (rule reconcile_success [OF assms]) blast
  from reconcileAdmissionHolds_frame [OF h] r show ?thesis by auto
qed

lemma reconcile_valid_input:
  assumes "reconcile c x s ledger = (ledger', Inr r)"
  shows "list_all (lease_ok c (x_Clock x AtReconcile)) (Leases s)" "distinct (map l_ID (Leases s))"
    "list_all (waiter_ok c (x_Clock x AtReconcile)) (Waiters s)"
    "distinct (map l_OperationID (Leases s) @ map w_OperationID (Waiters s))"
  using reconcile_success [OF assms]
  by (auto simp: all_valid_leases all_valid_waiters)

lemma sort_key_id: "sorted (map k xs) \<Longrightarrow> sort_key k xs = xs"
  by (induction xs) (auto simp: insort_is_Cons)

lemma sort_key_Nil [simp]: "sort_key k xs = [] \<longleftrightarrow> xs = []"
  by (metis length_0_conv length_sort)

lemma distinct_map_sort_key: "distinct (map f (sort_key k xs)) = distinct (map f xs)"
  by (simp add: distinct_map)

lemma distinct_filtered_map:
  assumes "distinct (map f xs)" and "\<And>x. g (h x) = f x"
  shows "distinct (map g (map h (filter P xs)))"
  using assms by (simp add: comp_def distinct_map_filter)

lemma reconcile_wf:
  assumes "reconcile c x s ledger = (ledger', Inr r)"
  defines "t \<equiv> rc_State r"
  shows "list_all (lease_ok c (x_Clock x AtReconcile)) (Leases t)" "distinct (map l_ID (Leases t))"
    "list_all (waiter_ok c (x_Clock x AtReconcile)) (Waiters t)"
    "distinct (map l_OperationID (Leases t) @ map w_OperationID (Waiters t))"
    "sorted (map queue_key (Waiters t))"
    "\<forall>l \<in> set (Leases t). coordinator_weight c (l_Class l) = Some (l_Weight l)"
    "\<forall>w \<in> set (Waiters t). coordinator_weight c (w_Class w) = Some (w_Weight w)"
proof -
  note rec = reconcile_records [OF assms(1), folded t_def]
  note ok = reconcile_valid_input [OF assms(1)]
  show "list_all (lease_ok c (x_Clock x AtReconcile)) (Leases t)"
    using ok(1) by (auto simp: rec list_all_iff intro: lease_ok_normal)
  show "list_all (waiter_ok c (x_Clock x AtReconcile)) (Waiters t)"
    using ok(3) by (auto simp: rec list_all_iff intro: waiter_ok_normal)
  show "distinct (map l_ID (Leases t))"
    unfolding rec by (rule distinct_filtered_map) (use ok(2) in auto)
  have "distinct (map l_OperationID (Leases t))"
    unfolding rec by (rule distinct_filtered_map) (use ok(4) in auto)
  moreover have "distinct (map w_OperationID (Waiters t))"
  proof -
    have "distinct (map w_OperationID (map (normal_waiter c) (filter (\<lambda>w. waiter_verdict x w = Inr Keep) (Waiters s))))"
      by (rule distinct_filtered_map) (use ok(4) in auto)
    then show ?thesis
      unfolding rec by (subst distinct_map_sort_key)
  qed
  moreover have "l_OperationID ` set (Leases t) \<subseteq> l_OperationID ` set (Leases s)"
    "w_OperationID ` set (Waiters t) \<subseteq> w_OperationID ` set (Waiters s)"
    by (auto simp: rec)
  ultimately show "distinct (map l_OperationID (Leases t) @ map w_OperationID (Waiters t))"
    using ok(4) by auto
  show "sorted (map queue_key (Waiters t))" unfolding rec by (rule sorted_sort_key)
  show "\<forall>l \<in> set (Leases t). coordinator_weight c (l_Class l) = Some (l_Weight l)"
    using ok(1) by (auto simp: rec list_all_iff lease_ok_iff expected_weight_def)
  show "\<forall>w \<in> set (Waiters t). coordinator_weight c (w_Class w) = Some (w_Weight w)"
    using ok(3) by (auto simp: rec list_all_iff waiter_ok_iff expected_weight_def)
qed

text \<open>One lease of a live process and one of a replaced one, and a waiter, for the witnesses.\<close>

definition sample_state :: workState where
  "sample_state = empty_state\<lparr>
     Leases := [sample_lease (sample_id CHR ''a'') (sample_id CHR ''a'') WorkClassTest 2 5,
       (sample_lease (sample_id CHR ''b'') (sample_id CHR ''b'') WorkClassBuild 5 6)\<lparr> l_OwnerIdentity := ''old'' \<rparr>],
     Waiters := [sample_waiter (sample_id CHR ''c'') WorkClassHeavy 6 6] \<rparr>"

lemma sample_reconciles: "\<not> isl (snd (reconcile sample_coordinator (sample_host 7) sample_state []))"
  by code_simp

lemma sample_reconcile_obtain:
  obtains ledger r where "reconcile sample_coordinator (sample_host 7) sample_state [] = (ledger, Inr r)"
  using sample_reconciles by (metis prod.collapse sum.collapse(2))

text \<open>
  Claim C10. A reconciled state is well formed: lease identities are unique, no operation appears twice among
  leases and waiters, every record carries the weight its class has today, bypass counts lie between zero
  and four, and the queue is sorted by queue time and then operation.
\<close>

theorem reconcile_sound:
  assumes "reconcile c x s ledger = (ledger', Inr r)"
  shows "distinct (map l_ID (Leases (rc_State r))) \<and>
    distinct (map l_OperationID (Leases (rc_State r)) @ map w_OperationID (Waiters (rc_State r))) \<and>
    sorted (map (\<lambda>w. (w_QueuedAt w, w_OperationID w)) (Waiters (rc_State r))) \<and>
    (\<forall>l \<in> set (Leases (rc_State r)). coordinator_weight c (l_Class l) = Some (l_Weight l)) \<and>
    (\<forall>w \<in> set (Waiters (rc_State r)). coordinator_weight c (w_Class w) = Some (w_Weight w) \<and>
       0 \<le> w_BypassCount w \<and> w_BypassCount w \<le> 4)"
  using reconcile_wf [OF assms]
  by (auto simp: list_all_iff waiter_ok_iff workMaximumBypasses_def)

theorem reconcile_sound_witness:
  "\<exists>ledger r. reconcile sample_coordinator (sample_host 7) sample_state [] = (ledger, Inr r) \<and>
     distinct (map l_ID (Leases (rc_State r)))"
proof -
  obtain ledger r where r: "reconcile sample_coordinator (sample_host 7) sample_state [] = (ledger, Inr r)"
    by (rule sample_reconcile_obtain)
  with reconcile_sound [OF r] show ?thesis by blast
qed

text \<open>
  Who is still there, in terms of the process table alone: a process answers and has the recorded
  identity, or the record is one of the older kind that has no identity to compare. A lease also
  records the wrapper that supervises its process.
\<close>

definition process_there :: "host_env \<Rightarrow> probe \<Rightarrow> string \<Rightarrow> int \<Rightarrow> string \<Rightarrow> bool" where
  "process_there x probe key pid token \<longleftrightarrow>
     x_Alive x probe key pid \<and> (token = legacyWorkOwnerIdentityToken \<or> x_Identity x probe key pid = Some token)"

definition owner_there :: "host_env \<Rightarrow> WorkLeaseRecord \<Rightarrow> bool" where
  "owner_there x l \<longleftrightarrow> process_there x LeaseOwner (l_ID l) (l_PID l) (l_OwnerIdentity l)"

definition supervisor_there :: "host_env \<Rightarrow> WorkLeaseRecord \<Rightarrow> bool" where
  "supervisor_there x l \<longleftrightarrow>
     process_there x LeaseSupervisor (l_ID l) (l_SupervisorPID (fill_supervisor l))
       (l_SupervisorIdentity (fill_supervisor l))"

text \<open>The owner answered, could not be identified, and was gone when asked again.\<close>

definition owner_vanished :: "host_env \<Rightarrow> WorkLeaseRecord \<Rightarrow> bool" where
  "owner_vanished x l \<longleftrightarrow>
     x_Alive x LeaseOwner (l_ID l) (l_PID l) \<and> l_OwnerIdentity l \<noteq> legacyWorkOwnerIdentityToken \<and>
     x_Identity x LeaseOwner (l_ID l) (l_PID l) = None"

definition waiter_there :: "host_env \<Rightarrow> WorkWaiterRecord \<Rightarrow> bool" where
  "waiter_there x w \<longleftrightarrow>
     x_Alive x WaiterOwner (w_OperationID w) (w_PID w) \<and>
     x_Identity x WaiterOwner (w_OperationID w) (w_PID w) = Some (w_OwnerIdentity w)"

lemma supervisor_owns_there:
  "supervisor_owns x (fill_supervisor l) = Inr owns \<Longrightarrow> owns = supervisor_there x l"
  by (auto simp: supervisor_owns_def supervisor_there_def process_there_def split: if_splits option.splits)

lemma lease_verdict_there:
  assumes v: "lease_verdict x (fill_supervisor l) = Inr v"
  shows "v = Keep \<longleftrightarrow> owner_there x l \<or> supervisor_there x l \<and> \<not> owner_vanished x l"
proof -
  obtain owns where owns: "supervisor_owns x (fill_supervisor l) = Inr owns"
    using v by (cases "supervisor_owns x (fill_supervisor l)") (simp_all add: lease_verdict_def)
  note there = supervisor_owns_there [OF owns]
  show ?thesis
    using v owns there
    by (cases "x_Alive x LeaseOwner (l_ID l) (l_PID l)"; cases "x_Identity x LeaseOwner (l_ID l) (l_PID l)")
       (auto simp: lease_verdict_def owner_there_def process_there_def owner_vanished_def split: if_splits)
qed

lemma waiter_verdict_there: "waiter_verdict x w = Inr v \<Longrightarrow> v = Keep \<longleftrightarrow> waiter_there x w"
  by (auto simp: waiter_verdict_def waiter_there_def split: if_splits option.splits)

text \<open>
  Claim C11. Reconciliation keeps exactly the records of processes that are still there. A lease is kept when
  its owner answers with the recorded identity, and also when the owner is gone or its
  identifier belongs to another process, provided its supervisor is there; the exception is an
  owner that answers, cannot be identified and is gone when asked again. A waiter is kept when its
  own process is there. A kept record changes only in its weight and in a supervisor it lacked,
  and no record appears that was not there before.
\<close>

theorem reconcile_keeps_exactly_the_living:
  assumes "reconcile c x s ledger = (ledger', Inr r)"
  shows "set (Leases (rc_State r)) =
      normal_lease c ` {l \<in> set (Leases s). owner_there x l \<or> supervisor_there x l \<and> \<not> owner_vanished x l} \<and>
    set (Waiters (rc_State r)) = normal_waiter c ` {w \<in> set (Waiters s). waiter_there x w}"
proof -
  have "lease_verdict x (fill_supervisor l) = Inr Keep \<longleftrightarrow>
      owner_there x l \<or> supervisor_there x l \<and> \<not> owner_vanished x l" if "l \<in> set (Leases s)" for l
    using reconcile_judged(1) [OF assms] that lease_verdict_there [of x l] by auto
  moreover have "waiter_verdict x w = Inr Keep \<longleftrightarrow> waiter_there x w" if "w \<in> set (Waiters s)" for w
    using reconcile_judged(2) [OF assms] that waiter_verdict_there [of x w] by auto
  ultimately show ?thesis
    by (auto simp: reconcile_records [OF assms])
qed

theorem reconcile_keeps_exactly_the_living_witness:
  "\<exists>ledger r. reconcile sample_coordinator (sample_host 7) sample_state [] = (ledger, Inr r) \<and>
     set (Leases (rc_State r)) = {normal_lease sample_coordinator (hd (Leases sample_state))}"
proof -
  obtain ledger r where r: "reconcile sample_coordinator (sample_host 7) sample_state [] = (ledger, Inr r)"
    by (rule sample_reconcile_obtain)
  have "{l \<in> set (Leases sample_state). owner_there (sample_host 7) l \<or>
      supervisor_there (sample_host 7) l \<and> \<not> owner_vanished (sample_host 7) l} = {hd (Leases sample_state)}"
    by (auto simp: sample_state_def sample_lease_def owner_there_def supervisor_there_def process_there_def
        owner_vanished_def fill_supervisor_def legacyWorkOwnerIdentityToken_def TrimSpace_def)
  then show ?thesis using reconcile_keeps_exactly_the_living [OF r] r by auto
qed


section \<open>Accepting and settling\<close>

lemma lease_verdict_weight [simp]: "lease_verdict x (l\<lparr> l_Weight := v \<rparr>) = lease_verdict x l"
  by (simp add: lease_verdict_def supervisor_owns_def cong: option.case_cong sum.case_cong if_cong)

lemma lease_verdict_normal:
  "lease_ok c now l \<Longrightarrow> lease_verdict x (fill_supervisor (normal_lease c l)) = lease_verdict x (fill_supervisor l)"
  by (simp add: fill_supervisor_normal) (simp add: normal_lease_def)

lemma waiter_verdict_normal [simp]: "waiter_verdict x (normal_waiter c w) = waiter_verdict x w"
  by (simp add: waiter_verdict_def cong: option.case_cong if_cong)

lemma reconcileAdmissionHolds_valid:
  assumes "reconcileAdmissionHolds c x s = Inr (t, p, ch)"
  shows "list_all (hold_valid c (x_Clock x AtHolds)) (AdmissionHolds s)" "distinct (map h_OperationID (AdmissionHolds s))"
  using assms keepAdmissionHolds_ok [of c x "[]" "AdmissionHolds s"]
  by (auto simp: reconcileAdmissionHolds_def split: if_splits sum.splits)

lemma reconcileAdmissionHolds_settled:
  assumes "list_all (hold_valid c (x_Clock x AtHolds)) (AdmissionHolds s)" "distinct (map h_OperationID (AdmissionHolds s))"
    "list_all (hold_owned x) (AdmissionHolds s)"
  shows "reconcileAdmissionHolds c x s = Inr (s, 0, False)"
proof (cases "AdmissionHolds s = []")
  case True
  then show ?thesis by (simp add: reconcileAdmissionHolds_def)
next
  case False
  obtain kept pruned where k: "keepAdmissionHolds c x [] (AdmissionHolds s) = Inr (kept, pruned)"
    using keepAdmissionHolds_accepts [OF assms(2) _ assms(1), of "[]"] by auto
  have "filter (hold_owned x) (AdmissionHolds s) = AdmissionHolds s"
    using assms(3) by (simp add: list_all_iff filter_id_conv)
  with keepAdmissionHolds_ok [OF k] have "kept = AdmissionHolds s" "pruned = 0" by auto
  with k False show ?thesis by (simp add: reconcileAdmissionHolds_def)
qed

lemma advance_noop_cong:
  assumes "advanceWorkOverride now u = (u, False)" "OverrideOperationID t = OverrideOperationID u"
    "OverrideQueue t = OverrideQueue u" "Waiters t = Waiters u"
  shows "advanceWorkOverride now t = (t, False)"
proof -
  have "workOverridePositions t = workOverridePositions u"
    using assms(2-4) by (simp add: workOverridePositions_def queued_ids_def)
  with assms(1-3) show ?thesis by (auto simp: advanceWorkOverride_def split: list.splits if_splits)
qed

text \<open>A state that a pass leaves as it is: normalised records, a sorted queue and a settled sequence.\<close>

definition settled :: "WorkCoordinator \<Rightarrow> host_env \<Rightarrow> workState \<Rightarrow> bool" where
  "settled c x s \<longleftrightarrow>
     wf_state c (x_Clock x AtReconcile) s \<and> list_all (hold_valid c (x_Clock x AtHolds)) (AdmissionHolds s) \<and>
     (\<forall>l \<in> set (Leases s). normal_lease c l = l \<and> \<not> needs_supervisor l \<and>
        lease_verdict x (fill_supervisor l) = Inr Keep) \<and>
     (\<forall>w \<in> set (Waiters s). normal_waiter c w = w \<and> waiter_verdict x w = Inr Keep) \<and>
     sorted (map queue_key (Waiters s)) \<and> list_all (hold_owned x) (AdmissionHolds s) \<and>
     advanceWorkOverride (x_Clock x AtOverride) s = (s, False) \<and>
     (legacyActive s \<longrightarrow> Leases s \<noteq> [] \<or> Waiters s \<noteq> [])"

lemma reconcile_settled:
  assumes "settled c x s"
  shows "reconcile c x s ledger = (ledger, Inr \<lparr> rc_State = s\<lparr> prunedAdmissionHolds := 0 \<rparr>,
    rc_PrunedLeases = 0, rc_PrunedWaiters = 0, rc_Changed = migrated s \<rparr>)"
proof -
  have v: "all_valid (lease_invalid c (x_Clock x AtReconcile)) [] (Leases s)"
    "all_valid (waiter_invalid c (x_Clock x AtReconcile) (map l_OperationID (Leases s))) [] (Waiters s)"
    using assms by (auto simp: settled_def wf_state_def all_valid_leases all_valid_waiters)
  have n: "map (normal_lease c) (Leases s) = Leases s" "map (normal_waiter c) (Waiters s) = Waiters s"
    using assms by (auto simp: settled_def intro: map_idI)
  have l: "reconcile_leases c x (Leases s) ledger = (ledger, Inr (Leases s))"
    unfolding reconcile_leases_def
    by (subst prune_keeps_all [OF v(1)]) (use assms n in \<open>auto simp: settled_def\<close>)
  have w: "reconcile_waiters c x (map l_OperationID (Leases s)) (Waiters s) ledger = (ledger, Inr (Waiters s))"
    unfolding reconcile_waiters_def
    by (subst prune_keeps_all [OF v(2)]) (use assms n in \<open>auto simp: settled_def\<close>)
  have q: "sort_key queue_key (Waiters s) = Waiters s"
    using assms by (intro sort_key_id) (simp add: settled_def)
  have "settle_queue (Leases s) (Waiters s) s = s"
    using assms q by (auto simp: settle_queue_def settled_def)
  moreover have "l_Weight l = expected_weight c (l_Class l) \<and> \<not> needs_supervisor l" if "l \<in> set (Leases s)" for l
    using assms that normal_lease_simps(6) [of c l] unfolding settled_def by (metis (no_types, lifting))
  moreover have "w_Weight w = expected_weight c (w_Class w)" if "w \<in> set (Waiters s)" for w
    using assms that normal_waiter_simps(3) [of c w] unfolding settled_def by (metis (no_types, lifting))
  ultimately have "\<not> leases_repaired c s" "\<not> waiters_repaired c s"
    and "settle_queue (Leases s) (Waiters s) s = s"
    by (auto simp: leases_repaired_def waiters_repaired_def)
  moreover have "reconcileAdmissionHolds c x s = Inr (s, 0, False)"
    using assms by (intro reconcileAdmissionHolds_settled) (auto simp: settled_def wf_state_def)
  ultimately show ?thesis
    using assms by (simp add: reconcile_def l w settled_def)
qed

lemma reconcile_settles:
  assumes "reconcile c x s ledger = (ledger', Inr r)"
    and "\<forall>h \<in> set (AdmissionHolds s). hold_valid c (x_Clock x AtReconcile) h"
  shows "settled c x (rc_State r)"
proof -
  let ?t = "rc_State r"
  note rec = reconcile_records [OF assms(1)]
  note wf = reconcile_wf [OF assms(1)]
  note ok = reconcile_valid_input [OF assms(1)]
  obtain leases waiters holds pruned changed where
    l: "leases = map (normal_lease c) (filter (\<lambda>l. lease_verdict x (fill_supervisor l) = Inr Keep) (Leases s))"
    and w: "waiters = map (normal_waiter c) (filter (\<lambda>w. waiter_verdict x w = Inr Keep) (Waiters s))"
    and h: "reconcileAdmissionHolds c x
      (fst (advanceWorkOverride (x_Clock x AtOverride) (settle_queue leases waiters s))) = Inr (holds, pruned, changed)"
    and r: "?t = holds\<lparr> prunedAdmissionHolds := pruned \<rparr>"
    by (rule reconcile_success [OF assms(1)]) blast
  let ?a = "fst (advanceWorkOverride (x_Clock x AtOverride) (settle_queue leases waiters s))"
  obtain hs where f: "holds = ?a\<lparr> AdmissionHolds := hs \<rparr>"
    using reconcileAdmissionHolds_frame [OF h] by blast
  note hv = reconcileAdmissionHolds_valid [OF h, simplified]
  have n: "normal_lease c l = l \<and> \<not> needs_supervisor l \<and> lease_verdict x (fill_supervisor l) = Inr Keep"
    if "l \<in> set (Leases ?t)" for l
  proof -
    obtain k where k: "l = normal_lease c k" "lease_verdict x (fill_supervisor k) = Inr Keep"
      "lease_ok c (x_Clock x AtReconcile) k"
      using \<open>l \<in> set (Leases ?t)\<close> ok(1) by (auto simp: rec list_all_iff)
    have "normal_lease c l = l"
      using fill_supervisor_normal(1) [OF k(3)] by (simp add: k(1) normal_lease_def [of c "normal_lease c k"])
    with k fill_supervisor_normal [OF k(3)] lease_verdict_normal [OF k(3), of x] show ?thesis by simp
  qed
  have m: "normal_waiter c w = w \<and> waiter_verdict x w = Inr Keep" if "w \<in> set (Waiters ?t)" for w
    using that by (auto simp: rec) (simp add: normal_waiter_def)
  have "advanceWorkOverride (x_Clock x AtOverride) ?t = (?t, False)"
    by (rule advance_noop_cong [of _ ?a])
      (use advance_facts [of "x_Clock x AtOverride" "settle_queue leases waiters s"] in
        \<open>auto simp: r f Let_def\<close>)
  moreover have "legacyActive ?t \<longrightarrow> Leases ?t \<noteq> [] \<or> Waiters ?t \<noteq> []"
    using rec l w by (auto simp: r f settle_queue_def)
  moreover have "wf_state c (x_Clock x AtReconcile) ?t"
    using wf assms(2) hv(2) by (auto simp: wf_state_def rec(3) list_all_iff distinct_map_filter)
  moreover have "list_all (hold_valid c (x_Clock x AtHolds)) (AdmissionHolds ?t)"
    "list_all (hold_owned x) (AdmissionHolds ?t)"
    using hv(1) by (auto simp: rec(3) list_all_iff)
  ultimately show ?thesis
    using n m wf(5) by (simp add: settled_def)
qed

text \<open>
  Claim C17. Reconciliation settles in one pass: run again on its own result with the same host answers, it
  prunes nothing, writes no event, reports no change and returns the state as it is, so that status reads
  do not churn the ledger or the event log.
\<close>

theorem reconcile_idempotent:
  assumes "reconcile c x s ledger = (ledger', Inr r)" and "\<not> migrated s"
    and "\<forall>h \<in> set (AdmissionHolds s). hold_valid c (x_Clock x AtReconcile) h"
  shows "reconcile c x (rc_State r) ledger' =
    (ledger', Inr \<lparr> rc_State = (rc_State r)\<lparr> prunedAdmissionHolds := 0 \<rparr>, rc_PrunedLeases = 0,
       rc_PrunedWaiters = 0, rc_Changed = False \<rparr>)"
  using reconcile_settled [OF reconcile_settles [OF assms(1,3)], of ledger'] assms(1,2)
    reconcile_migrated [OF assms(1)] by simp

theorem reconcile_idempotent_witness:
  "\<exists>ledger r. reconcile sample_coordinator (sample_host 7) sample_state [] = (ledger, Inr r) \<and>
     reconcile sample_coordinator (sample_host 7) (rc_State r) ledger =
       (ledger, Inr \<lparr> rc_State = (rc_State r)\<lparr> prunedAdmissionHolds := 0 \<rparr>, rc_PrunedLeases = 0,
          rc_PrunedWaiters = 0, rc_Changed = False \<rparr>)"
proof -
  obtain ledger r where r: "reconcile sample_coordinator (sample_host 7) sample_state [] = (ledger, Inr r)"
    by (rule sample_reconcile_obtain)
  have "\<not> migrated sample_state" "AdmissionHolds sample_state = []" by code_simp+
  with reconcile_idempotent [OF r] r show ?thesis by simp
qed


section \<open>The ledger\<close>

text \<open>A ledger extended by expiries, at most one of them an operation's first outcome.\<close>

definition expires :: "WorkEvent list \<Rightarrow> WorkEvent list \<Rightarrow> bool" where
  "expires ledger ledger' \<longleftrightarrow>
     (\<exists>rows. ledger' = ledger @ rows \<and> list_all (\<lambda>e. ev_Event e = WorkEventExpired) rows) \<and>
     (\<forall>op. length (terminal_rows op ledger') \<le> max 1 (length (terminal_rows op ledger)))"

lemma expires_refl: "expires l l"
  by (simp add: expires_def)

lemma expires_trans: "expires l m \<Longrightarrow> expires m n \<Longrightarrow> expires l n"
  unfolding expires_def by (fastforce intro: order_trans)

lemma recordExpired_expires:
  assumes "recordExpired en op lease class weight pid outcome l = Inr l'"
  shows "expires l l'"
  using recordTerminal_cases [OF assms [unfolded recordExpired_def]]
  by (auto simp: expires_def terminal_rows_def)

lemma reconcile_expires: "expires ledger (fst (reconcile c x s ledger))"
proof -
  have l: "expires ledger (fst (reconcile_leases c x (Leases s) ledger))"
    unfolding reconcile_leases_def
    by (rule prune_ledger) (auto simp: expire_lease_def intro: recordExpired_expires expires_refl expires_trans)
  have w: "expires m (fst (reconcile_waiters c x ops (Waiters s) m))" for m ops
    unfolding reconcile_waiters_def
    by (rule prune_ledger) (auto simp: expire_waiter_def intro: recordExpired_expires expires_refl expires_trans)
  obtain m rl where rl: "reconcile_leases c x (Leases s) ledger = (m, rl)" by fastforce
  obtain n rw where rw: "reconcile_waiters c x (map l_OperationID (Leases s)) (Waiters s) m = (n, rw)" by fastforce
  have "expires ledger m" "expires ledger n"
    using l w [of m "map l_OperationID (Leases s)"] expires_trans rl rw by (metis fst_conv)+
  moreover have "fst (reconcile c x s ledger) \<in> {m, n}"
    by (auto simp: reconcile_def rl rw Let_def split: sum.splits prod.splits)
  ultimately show ?thesis by auto
qed

text \<open>
  Claim C27. Whatever a reconciliation finds and however it ends, it only appends expiry rows to the event
  ledger, and no operation that already has an outcome gets another one.
\<close>

theorem reconcile_one_outcome:
  "(\<exists>rows. fst (reconcile c x s ledger) = ledger @ rows \<and>
      list_all (\<lambda>e. ev_Event e = WorkEventExpired) rows) \<and>
   length (terminal_rows op (fst (reconcile c x s ledger))) \<le> max 1 (length (terminal_rows op ledger))"
  using reconcile_expires [of ledger c x s] by (auto simp: expires_def)


section \<open>Time\<close>

lemma protection_mono:
  assumes "now \<le> later" and "workWaiterProtection w cap later = None"
  shows "workWaiterProtection w cap now = None"
  using assms time_sub_mono [OF assms(1)]
  by (fastforce simp: workWaiterProtection_def split: if_splits option.splits intro: order_trans)

lemma waiter_ok_mono:
  assumes "waiter_ok c now w" and "now \<le> later"
  shows "waiter_ok c later w"
proof -
  have "premature_protection c later w \<Longrightarrow> premature_protection c now w"
    using protection_mono [OF assms(2)] by (auto simp: premature_protection_def)
  moreover have "stamp_bad later w t \<Longrightarrow> stamp_bad now w t" for t
    using assms(2) by (auto simp: stamp_bad_def split: option.splits)
  ultimately show ?thesis
    using assms by (auto simp: waiter_ok_iff waiter_metadata_bad_def reservation_checks_def)
qed

lemma lease_ok_mono: "lease_ok c now l \<Longrightarrow> now \<le> later \<Longrightarrow> lease_ok c later l"
  by (auto simp: lease_ok_iff lease_metadata_bad_def)

lemma hold_valid_mono: "hold_valid c now h \<Longrightarrow> now \<le> later \<Longrightarrow> hold_valid c later h"
  by (auto simp: hold_valid_def)

lemma wf_state_mono: "wf_state c now s \<Longrightarrow> now \<le> later \<Longrightarrow> wf_state c later s"
  by (auto simp: wf_state_def list_all_iff intro: lease_ok_mono waiter_ok_mono hold_valid_mono)


section \<open>A promise that outlives its reason\<close>

text \<open>
  A protection is materialised into the waiter's record, and reconciliation refuses the whole
  document when a materialised protection has no reason any more. A waiter protected only because its
  weight equalled the capacity loses that reason when the operator raises the capacity: from then on every
  transaction of every process fails on this record. The check precedes the liveness probe, so the refusal
  does not end when the waiter's process dies.
\<close>

theorem stale_exclusive_protection_refused:
  assumes "w \<in> set (Waiters s)" and "w_ProtectedAt w \<noteq> None" and "w_ReservationKind w = []"
    and "w_BypassCount w < 4" and "w_LastBypassedAt w = None" and "w_Class w \<noteq> WorkClassBenchmark"
    and "coordinator_weight c (w_Class w) \<noteq> Some (Capacity (coordinator_limits c))"
  shows "isl (snd (reconcile c x s ledger))"
proof (rule ccontr)
  assume "\<not> isl (snd (reconcile c x s ledger))"
  then obtain ledger' r where "reconcile c x s ledger = (ledger', Inr r)"
    by (metis prod.collapse sum.collapse(2))
  from reconcile_valid_input(3) [OF this] assms(1)
  have "\<not> premature_protection c (x_Clock x AtReconcile) w" and k: "coordinator_weight c (w_Class w) \<noteq> None"
    by (auto simp: list_all_iff waiter_ok_iff)
  moreover have "expected_weight c (w_Class w) \<noteq> Capacity (coordinator_limits c)"
    using assms(7) k by (auto simp: expected_weight_def)
  ultimately show False
    using assms(2-6)
    by (simp add: premature_protection_def workWaiterProtection_def legacyExclusiveBenchmark_def
        workMaximumBypasses_def WorkReservationPressure_def)
qed

text \<open>
  On a host of four CPUs a queued build is such a waiter; the operator then sets capacity 6.
\<close>

theorem stale_exclusive_protection_refused_witness:
  "let s = empty_state\<lparr> Waiters := materializeWorkProtections
        [sample_waiter (sample_id CHR ''a'') WorkClassBuild 3 5] (Capacity (defaultWorkLimits 4)) 6 \<rparr>;
      c = NewWorkCoordinator ''/data'' ((defaultWorkLimits 4)\<lparr> Capacity := 6 \<rparr>) 1 4
   in isl (snd (reconcile c (sample_host 7) s []))"
proof -
  let ?w = "materializeWorkProtection (Capacity (defaultWorkLimits 4)) 6
      (sample_waiter (sample_id CHR ''a'') WorkClassBuild 3 5)"
  let ?s = "empty_state\<lparr> Waiters := materializeWorkProtections
        [sample_waiter (sample_id CHR ''a'') WorkClassBuild 3 5] (Capacity (defaultWorkLimits 4)) 6 \<rparr>"
  let ?c = "NewWorkCoordinator ''/data'' ((defaultWorkLimits 4)\<lparr> Capacity := 6 \<rparr>) 1 4"
  have "w_ProtectedAt ?w \<noteq> None" "w_ReservationKind ?w = []" "w_BypassCount ?w < 4" "w_LastBypassedAt ?w = None"
    "w_Class ?w \<noteq> WorkClassBenchmark" "coordinator_weight ?c (w_Class ?w) \<noteq> Some (Capacity (coordinator_limits ?c))"
    by code_simp+
  moreover have "?w \<in> set (Waiters ?s)" by (simp add: materializeWorkProtections_def)
  ultimately have "isl (snd (reconcile ?c (sample_host 7) ?s []))"
    by (intro stale_exclusive_protection_refused [of ?w])
  then show ?thesis unfolding Let_def .
qed

end
