(* ===== verification/Work_Coordinator.thy ===== *)
theory Work_Coordinator
  imports Work_Reconcile
begin

text \<open>
  The transactions of the work coordinator (\<^verbatim>\<open>sessionpressure/worklease.go\<close>): the locked
  read-reconcile-mutate-write cycle, and on top of it acquiring, queueing, trying, cancelling,
  releasing, binding, parking, reserving for pressure and dropping.

  A transaction maps the store (the state file and the event ledger) to the store it leaves behind,
  its result, and the state and prune counts from which the code builds the \<^verbatim>\<open>WorkStatus\<close> it returns
  (\<open>None\<close> where it returns the zero status).
\<close>

section \<open>The transaction\<close>

record store =
  st_File :: state_file
  st_Ledger :: "WorkEvent list"

type_synonym view = "(workState \<times> int \<times> int) option"

definition legacyBlocking :: "workState \<Rightarrow> bool" where
  "legacyBlocking s \<longleftrightarrow> legacyActive s \<and> (Leases s \<noteq> [] \<or> Waiters s \<noteq> [])"

definition lift_schema :: "bool \<Rightarrow> workState \<Rightarrow> workState" where
  "lift_schema legacyPinned s =
     (if \<not> legacyPinned \<and> SchemaVersion s < workStateSchemaVersion
      then s\<lparr> SchemaVersion := workStateSchemaVersion \<rparr> else s)"

definition save :: "workState \<Rightarrow> WorkEvent list \<Rightarrow> store" where
  "save s ledger = \<lparr> st_File = Document (writeState s), st_Ledger = ledger \<rparr>"

definition withState ::
  "WorkCoordinator \<Rightarrow> host_env \<Rightarrow> 'a mutation option \<Rightarrow> store \<Rightarrow> store \<times> (work_error + 'a option) \<times> view"
where
  "withState c x mutate st =
     (if \<not> validate c then (st, Inl InvalidCoordinator, None)
      else if \<not> x_StateLocked x then (st, Inl StateLocked, None)
      else case readState (st_File st) of
        Inl err \<Rightarrow> (st, Inl err, None)
      | Inr s0 \<Rightarrow>
          (case reconcile c x s0 (st_Ledger st) of
             (ledger1, Inl err) \<Rightarrow> (st\<lparr> st_Ledger := ledger1 \<rparr>, Inl (InvalidState err), None)
           | (ledger1, Inr r) \<Rightarrow>
               (let s1 = rc_State r;
                    st1 = st\<lparr> st_Ledger := ledger1 \<rparr>;
                    view = (\<lambda>s. Some (s, rc_PrunedLeases r, rc_PrunedWaiters r))
                in case mutate of
                     None \<Rightarrow>
                       if rc_Changed r
                       then (if x_StateWritten x then (save s1 ledger1, Inr None, view s1)
                             else (st1, Inl StateUnwritable, None))
                       else (st1, Inr None, view s1)
                   | Some m \<Rightarrow>
                       if legacyBlocking s1 \<and> SchemaVersion s1 < workReservationMinimumSchema
                       then (if rc_Changed r
                             then (if x_StateWritten x then (save s1 ledger1, Inl ErrWorkUpgradePending, view s1)
                                   else (st1, Inl StateUnwritable, view s1))
                             else (st1, Inl ErrWorkUpgradePending, view s1))
                       else (case m s1 ledger1 of
                               (s2, ledger2, Inl err) \<Rightarrow>
                                 if x_StateWritten x then (save s2 ledger2, Inl err, view s2)
                                 else (st\<lparr> st_Ledger := ledger2 \<rparr>, Inl (Joined err StateUnwritable), view s2)
                             | (s2, ledger2, Inr v) \<Rightarrow>
                                 (let s3 = lift_schema (legacyBlocking s1) s2 in
                                  if x_StateWritten x then (save s3 ledger2, Inr (Some v), view s3)
                                  else (st\<lparr> st_Ledger := ledger2 \<rparr>, Inl StateUnwritable, None))))))"

definition Status :: "WorkCoordinator \<Rightarrow> host_env \<Rightarrow> store \<Rightarrow> store \<times> (work_error + unit option) \<times> view" where
  "Status c x st = withState c x None st"

definition StatusSnapshot :: "WorkCoordinator \<Rightarrow> store \<Rightarrow> work_error + workState" where
  "StatusSnapshot c st =
     (if \<not> validate c then Inl InvalidCoordinator else readState (st_File st))"

text \<open>A transaction whose mutation returns a value: the projection its callers use.\<close>

definition transact ::
  "WorkCoordinator \<Rightarrow> host_env \<Rightarrow> 'a mutation \<Rightarrow> store \<Rightarrow> store \<times> (work_error + 'a) \<times> view"
where
  "transact c x m st =
     (case withState c x (Some m) st of
        (st', Inr (Some v), view) \<Rightarrow> (st', Inr v, view)
      | (st', Inr None, view) \<Rightarrow> (st', Inl InvalidCoordinator, view)
      | (st', Inl err, view) \<Rightarrow> (st', Inl err, view))"


section \<open>Leases\<close>

record WorkLease =
  hl_Record :: WorkLeaseRecord
  hl_Released :: bool

record WorkWaiter =
  hw_OperationID :: string
  hw_Class :: WorkClass
  hw_Cancelled :: bool

definition newLeaseRecord :: "WorkCoordinator \<Rightarrow> host_env \<Rightarrow> WorkClass \<Rightarrow> string \<Rightarrow> work_error + WorkLeaseRecord" where
  "newLeaseRecord c x class operationID =
     (if \<not> validate c then Inl InvalidCoordinator
      else case coordinator_weight c class of
        None \<Rightarrow> Inl (UnknownWorkClass class)
      | Some weight \<Rightarrow>
          (case identityForPID x (c_PID c) of
             Inl err \<Rightarrow> Inl err
           | Inr ownerIdentity \<Rightarrow>
               if \<not> validPrivateID operationID then Inl (InvalidPrivateID operationID)
               else (case x_Random x 0 of
                       None \<Rightarrow> Inl RandomUnavailable
                     | Some leaseID \<Rightarrow>
                         (let now = x_Clock x AtRecord; stamp = x_Origin x in
                          Inr \<lparr> l_ID = leaseID, l_OperationID = operationID, l_Class = class, l_Weight = weight,
                                l_PID = c_PID c, l_OwnerIdentity = ownerIdentity,
                                l_SupervisorPID = c_PID c, l_SupervisorIdentity = ownerIdentity,
                                l_QueuedAt = now, l_StartedAt = now,
                                l_OriginKind = os_Kind stamp, l_ScheduleID = os_ScheduleID stamp,
                                l_ScheduleRunID = os_ScheduleRunID stamp, l_AgentKind = os_AgentKind stamp,
                                l_ParkedAt = None \<rparr>))))"

definition clamp_capacity :: "WorkCoordinator \<Rightarrow> int \<Rightarrow> int" where
  "clamp_capacity c effectiveCapacity = min (max 1 effectiveCapacity) (Capacity (coordinator_limits c))"

definition admission_window :: "WorkCoordinator \<Rightarrow> host_env \<Rightarrow> int \<Rightarrow> workGreenExpressWindow" where
  "admission_window c x capacity =
     (if capacity < Capacity (coordinator_limits c) then no_green else greenExpressWindow x)"

definition acquire_mutation ::
  "WorkLeaseRecord \<Rightarrow> int \<Rightarrow> workGreenExpressWindow \<Rightarrow> WorkLeaseRecord mutation"
where
  "acquire_mutation record capacity green state ledger =
     (case Waiters state of
        w # _ \<Rightarrow> (state, ledger, Inl (ErrWorkFairness (l_OperationID record) (w_OperationID w)))
      | [] \<Rightarrow>
          (let used = usedWeight (Leases state) in
           if used + l_Weight record > capacity \<and>
              \<not> (g_Active green \<and> IsExpressClass (l_Class record) \<and>
                 used + l_Weight record \<le> capacity + g_Overcommit green)
           then (state, ledger, Inl (ErrWorkCapacity (l_Class record) (l_Weight record) used capacity))
           else (state\<lparr> Leases := Leases state @ [record] \<rparr>, ledger, Inr record)))"

definition AcquireOperationWithCapacity ::
  "WorkCoordinator \<Rightarrow> host_env \<Rightarrow> WorkClass \<Rightarrow> string \<Rightarrow> int \<Rightarrow> store
     \<Rightarrow> store \<times> (work_error + WorkLease) \<times> view"
where
  "AcquireOperationWithCapacity c x class operationID effectiveCapacity st =
     (case newLeaseRecord c x class operationID of
        Inl err \<Rightarrow> (st, Inl err, None)
      | Inr record \<Rightarrow>
          (let capacity = clamp_capacity c effectiveCapacity in
           case transact c x (acquire_mutation record capacity (admission_window c x capacity)) st of
             (st', Inl err, view) \<Rightarrow> (st', Inl err, view)
           | (st', Inr lease, view) \<Rightarrow> (st', Inr \<lparr> hl_Record = lease, hl_Released = False \<rparr>, view)))"

definition AcquireOperation ::
  "WorkCoordinator \<Rightarrow> host_env \<Rightarrow> WorkClass \<Rightarrow> string \<Rightarrow> store \<Rightarrow> store \<times> (work_error + WorkLease) \<times> view"
where
  "AcquireOperation c x class operationID st =
     AcquireOperationWithCapacity c x class operationID (Capacity (coordinator_limits c)) st"

definition Acquire ::
  "WorkCoordinator \<Rightarrow> host_env \<Rightarrow> WorkClass \<Rightarrow> store \<Rightarrow> store \<times> (work_error + WorkLease) \<times> view"
where
  "Acquire c x class st =
     (case x_Random x 1 of
        None \<Rightarrow> (st, Inl RandomUnavailable, None)
      | Some operationID \<Rightarrow> AcquireOperation c x class operationID st)"

definition release_mutation :: "string \<Rightarrow> unit mutation" where
  "release_mutation leaseID state ledger =
     (state\<lparr> Leases := filter (\<lambda>l. l_ID l \<noteq> leaseID) (Leases state) \<rparr>, ledger, Inr ())"

definition Release :: "WorkCoordinator \<Rightarrow> host_env \<Rightarrow> WorkLease \<Rightarrow> store \<Rightarrow> store \<times> WorkLease \<times> work_error option" where
  "Release c x lease st =
     (if hl_Released lease then (st, lease, None)
      else (case transact c x (release_mutation (l_ID (hl_Record lease))) st of
              (st', Inl err, _) \<Rightarrow> (st', lease, Some err)
            | (st', Inr _, _) \<Rightarrow> (st', lease\<lparr> hl_Released := True \<rparr>, None)))"

fun bind_lease :: "string \<Rightarrow> int \<Rightarrow> string \<Rightarrow> WorkLeaseRecord list \<Rightarrow> WorkLeaseRecord list option" where
  "bind_lease leaseID pid owner [] = None"
| "bind_lease leaseID pid owner (l # ls) =
     (if l_ID l = leaseID then Some (l\<lparr> l_PID := pid, l_OwnerIdentity := owner \<rparr> # ls)
      else map_option (\<lambda>k. l # k) (bind_lease leaseID pid owner ls))"

definition bind_mutation :: "string \<Rightarrow> int \<Rightarrow> string \<Rightarrow> unit mutation" where
  "bind_mutation leaseID pid owner state ledger =
     (case bind_lease leaseID pid owner (Leases state) of
        None \<Rightarrow> (state, ledger, Inl LeaseDisappeared)
      | Some leases \<Rightarrow> (state\<lparr> Leases := leases \<rparr>, ledger, Inr ()))"

definition BindPID ::
  "WorkCoordinator \<Rightarrow> host_env \<Rightarrow> WorkLease \<Rightarrow> int \<Rightarrow> store \<Rightarrow> store \<times> WorkLease \<times> work_error option"
where
  "BindPID c x lease pid st =
     (if hl_Released lease then (st, lease, Some LeaseNotActive)
      else case identityForPID x pid of
        Inl err \<Rightarrow> (st, lease, Some err)
      | Inr owner \<Rightarrow>
          (case transact c x (bind_mutation (l_ID (hl_Record lease)) pid owner) st of
             (st', Inl err, _) \<Rightarrow> (st', lease, Some err)
           | (st', Inr _, _) \<Rightarrow>
               (st', lease\<lparr> hl_Record := (hl_Record lease)\<lparr> l_PID := pid, l_OwnerIdentity := owner \<rparr> \<rparr>, None)))"

fun park_lease ::
  "bool \<Rightarrow> string \<Rightarrow> bool \<Rightarrow> time \<Rightarrow> WorkLeaseRecord list
     \<Rightarrow> WorkLeaseRecord list \<times> (work_error + time option)"
where
  "park_lease pinned leaseID parked stamp [] = ([], Inl ErrWorkLeaseMissing)"
| "park_lease pinned leaseID parked stamp (l # ls) =
     (if l_ID l \<noteq> leaseID
      then (case park_lease pinned leaseID parked stamp ls of (ls', res) \<Rightarrow> (l # ls', res))
      else if parked \<and> pinned then (l # ls, Inl ErrWorkParkSchemaPinned)
      else if parked \<and> l_ParkedAt l = None
      then (l\<lparr> l_ParkedAt := Some stamp \<rparr> # ls, Inr (Some stamp))
      else if \<not> parked then (l\<lparr> l_ParkedAt := None \<rparr> # ls, Inr None)
      else (l # ls, Inr (l_ParkedAt l)))"

definition parkWorkLeaseRecord :: "string \<Rightarrow> bool \<Rightarrow> time \<Rightarrow> time option mutation" where
  "parkWorkLeaseRecord leaseID parked stamp state ledger =
     (let pinned = (SchemaVersion state < workStateSchemaVersion \<and> legacyActive state \<and>
                    (Leases state \<noteq> [] \<or> Waiters state \<noteq> []))
      in case park_lease pinned leaseID parked stamp (Leases state) of
           (leases, res) \<Rightarrow> (state\<lparr> Leases := leases \<rparr>, ledger, res))"

text \<open>
  The closure stores the park mark in the handle as soon as the mutation succeeds, also when the
  write of the document then fails: \<open>captured\<close> is the value a transaction's mutation returned inside
  the lock.
\<close>

definition captured :: "WorkCoordinator \<Rightarrow> host_env \<Rightarrow> 'a mutation \<Rightarrow> store \<Rightarrow> 'a option" where
  "captured c x m st =
     (if \<not> validate c \<or> \<not> x_StateLocked x then None
      else case readState (st_File st) of
        Inl err \<Rightarrow> None
      | Inr s0 \<Rightarrow>
          (case reconcile c x s0 (st_Ledger st) of
             (ledger1, Inl err) \<Rightarrow> None
           | (ledger1, Inr r) \<Rightarrow>
               if legacyBlocking (rc_State r) \<and> SchemaVersion (rc_State r) < workReservationMinimumSchema then None
               else (case m (rc_State r) ledger1 of
                       (s2, ledger2, Inl err) \<Rightarrow> None
                     | (s2, ledger2, Inr v) \<Rightarrow> Some v)))"

definition SetParked ::
  "WorkCoordinator \<Rightarrow> host_env \<Rightarrow> WorkLease \<Rightarrow> bool \<Rightarrow> time \<Rightarrow> store \<Rightarrow> store \<times> WorkLease \<times> work_error option"
where
  "SetParked c x lease parked stamp st =
     (if hl_Released lease then (st, lease, Some ErrWorkLeaseMissing)
      else
        (let m = parkWorkLeaseRecord (l_ID (hl_Record lease)) parked stamp;
             lease' = (case captured c x m st of
                         None \<Rightarrow> lease
                       | Some parkedAt \<Rightarrow> lease\<lparr> hl_Record := (hl_Record lease)\<lparr> l_ParkedAt := parkedAt \<rparr> \<rparr>)
         in case transact c x m st of
              (st', Inl err, _) \<Rightarrow> (st', lease', Some err)
            | (st', Inr _, _) \<Rightarrow> (st', lease', None)))"

definition reservation_waiter :: "WorkCoordinator \<Rightarrow> host_env \<Rightarrow> WorkLeaseRecord \<Rightarrow> string \<Rightarrow> WorkWaiterRecord" where
  "reservation_waiter c x record owner =
     (let now = x_Clock x AtRecord in
      \<lparr> w_OperationID = l_OperationID record, w_Class = l_Class record, w_Weight = l_Weight record,
        w_PID = c_PID c, w_OwnerIdentity = owner,
        w_QueuedAt = or_default (l_QueuedAt record) (l_StartedAt record), w_HeartbeatAt = now,
        w_OriginKind = [], w_ScheduleID = [], w_ScheduleRunID = [], w_AgentKind = [], w_BypassCount = 0,
        w_LastBypassedAt = None, w_ProtectedAt = Some now, w_ReservationKind = WorkReservationPressure,
        w_ReservedAt = Some now \<rparr>)"

definition reserve_mutation :: "WorkLeaseRecord \<Rightarrow> WorkWaiterRecord \<Rightarrow> unit mutation" where
  "reserve_mutation record waiter state ledger =
     (if SchemaVersion state < workReservationMinimumSchema then (state, ledger, Inl ErrWorkUpgradePending)
      else case find (\<lambda>l. l_ID l = l_ID record) (Leases state) of
        None \<Rightarrow> (state, ledger, Inl LeaseDisappeared)
      | Some existing \<Rightarrow>
          if l_OperationID existing \<noteq> l_OperationID record then (state, ledger, Inl LeaseOperationChanged)
          else (state\<lparr> Leases := filter (\<lambda>l. l_ID l \<noteq> l_ID record) (Leases state),
                       Waiters := sort_key queue_key (Waiters state @ [waiter]) \<rparr>, ledger, Inr ()))"

definition ReserveForPressure ::
  "WorkCoordinator \<Rightarrow> host_env \<Rightarrow> WorkLease \<Rightarrow> store \<Rightarrow> store \<times> WorkLease \<times> (work_error + WorkWaiter) \<times> view"
where
  "ReserveForPressure c x lease st =
     (if hl_Released lease then (st, lease, Inl LeaseNotActive, None)
      else case identityForPID x (c_PID c) of
        Inl err \<Rightarrow> (st, lease, Inl err, None)
      | Inr owner \<Rightarrow>
          (let record = hl_Record lease in
           case transact c x (reserve_mutation record (reservation_waiter c x record owner)) st of
             (st', Inl err, view) \<Rightarrow> (st', lease, Inl err, view)
           | (st', Inr _, view) \<Rightarrow>
               (st', lease\<lparr> hl_Released := True \<rparr>,
                Inr \<lparr> hw_OperationID = l_OperationID record, hw_Class = l_Class record, hw_Cancelled = False \<rparr>,
                view)))"

definition drop_mutation :: "host_env \<Rightarrow> string \<Rightarrow> unit mutation" where
  "drop_mutation x operationID state ledger =
     (case find (\<lambda>l. l_OperationID l = operationID) (Leases state) of
        None \<Rightarrow> (state, ledger, Inl (LeaseNotFound operationID))
      | Some l \<Rightarrow>
          (case recordCancelled (x_Events x) operationID (l_ID l) (l_Class l) (l_Weight l) (l_PID l)
                  ''operator_cancel'' ledger of
             Inl err \<Rightarrow> (state, ledger, Inl EventNotPersisted)
           | Inr ledger' \<Rightarrow>
               (state\<lparr> Leases := filter (\<lambda>l. l_OperationID l \<noteq> operationID) (Leases state) \<rparr>, ledger', Inr ())))"

definition DropLease :: "WorkCoordinator \<Rightarrow> host_env \<Rightarrow> string \<Rightarrow> store \<Rightarrow> store \<times> (work_error + unit) \<times> view" where
  "DropLease c x operationID st =
     (let operationID = TrimSpace operationID in
      if \<not> validPrivateID operationID then (st, Inl (InvalidPrivateID operationID), None)
      else transact c x (drop_mutation x operationID) st)"


section \<open>Waiters\<close>

definition new_waiter ::
  "WorkCoordinator \<Rightarrow> host_env \<Rightarrow> WorkClass \<Rightarrow> string \<Rightarrow> int \<Rightarrow> string \<Rightarrow> WorkWaiterRecord" where
  "new_waiter c x class operationID weight owner =
     (let now = x_Clock x AtRecord; stamp = x_Origin x in
      \<lparr> w_OperationID = operationID, w_Class = class, w_Weight = weight, w_PID = c_PID c,
        w_OwnerIdentity = owner, w_QueuedAt = now, w_HeartbeatAt = now,
        w_OriginKind = os_Kind stamp, w_ScheduleID = os_ScheduleID stamp,
        w_ScheduleRunID = os_ScheduleRunID stamp, w_AgentKind = os_AgentKind stamp, w_BypassCount = 0,
        w_LastBypassedAt = None, w_ProtectedAt = None, w_ReservationKind = [], w_ReservedAt = None \<rparr>)"

definition register_mutation :: "WorkWaiterRecord \<Rightarrow> unit mutation" where
  "register_mutation record state ledger =
     (let operationID = w_OperationID record in
      if operationID \<in> l_OperationID ` set (Leases state) then (state, ledger, Inl (AlreadyLeased operationID))
      else if operationID \<in> w_OperationID ` set (Waiters state)
      then (state, ledger, Inl (AlreadyQueued operationID))
      else (state\<lparr> Waiters := sort_key queue_key (Waiters state @ [record]) \<rparr>, ledger, Inr ()))"

definition RegisterWaiter ::
  "WorkCoordinator \<Rightarrow> host_env \<Rightarrow> WorkClass \<Rightarrow> string \<Rightarrow> store \<Rightarrow> store \<times> (work_error + WorkWaiter) \<times> view"
where
  "RegisterWaiter c x class operationID st =
     (if \<not> validate c then (st, Inl InvalidCoordinator, None)
      else if \<not> validPrivateID operationID then (st, Inl (InvalidPrivateID operationID), None)
      else case coordinator_weight c class of
        None \<Rightarrow> (st, Inl (UnknownWorkClass class), None)
      | Some weight \<Rightarrow>
          (case identityForPID x (c_PID c) of
             Inl err \<Rightarrow> (st, Inl err, None)
           | Inr owner \<Rightarrow>
               (case transact c x (register_mutation (new_waiter c x class operationID weight owner)) st of
                  (st', Inl err, view) \<Rightarrow> (st', Inl err, view)
                | (st', Inr _, view) \<Rightarrow>
                    (st', Inr \<lparr> hw_OperationID = operationID, hw_Class = class, hw_Cancelled = False \<rparr>, view))))"

definition charge_bypass :: "time \<Rightarrow> WorkWaiterRecord \<Rightarrow> WorkWaiterRecord" where
  "charge_bypass now w =
     (let w = w\<lparr> w_BypassCount := w_BypassCount w + 1 \<rparr>;
          w = (if w_LastBypassedAt w = None then w\<lparr> w_LastBypassedAt := Some now \<rparr> else w)
      in if w_BypassCount w \<ge> workMaximumBypasses \<and> w_ProtectedAt w = None
         then w\<lparr> w_ProtectedAt := Some now \<rparr> else w)"

definition charge_bypasses :: "time \<Rightarrow> nat list \<Rightarrow> WorkWaiterRecord list \<Rightarrow> WorkWaiterRecord list" where
  "charge_bypasses now indexes waiters =
     fold (\<lambda>i ws. ws[i := charge_bypass now (ws ! i)]) indexes waiters"

definition remove_at :: "nat \<Rightarrow> 'a list \<Rightarrow> 'a list" where
  "remove_at i xs = take i xs @ drop (Suc i) xs"

definition blocked_error :: "string \<Rightarrow> WorkLeaseRecord \<Rightarrow> int \<Rightarrow> int \<Rightarrow> workSelection \<Rightarrow> work_error" where
  "blocked_error operationID record used capacity selection =
     (if ProtectedOperationID selection \<noteq> []
      then ErrWorkReservation operationID (ProtectedOperationID selection) (DecisionReason selection)
      else if SelectedOperationID selection \<noteq> []
      then ErrWorkFairness operationID (SelectedOperationID selection)
      else ErrWorkCapacity (l_Class record) (l_Weight record) used capacity)"

definition touch_waiter :: "nat \<Rightarrow> int \<Rightarrow> time \<Rightarrow> workState \<Rightarrow> workState" where
  "touch_waiter position capacity now state =
     state\<lparr> Waiters := materializeWorkProtections
       ((Waiters state)[position := (Waiters state ! position)\<lparr> w_HeartbeatAt := now \<rparr>]) capacity now \<rparr>"

definition admit_waiter ::
  "nat \<Rightarrow> WorkLeaseRecord \<Rightarrow> workSelection \<Rightarrow> workSelection \<Rightarrow> time \<Rightarrow> workState \<Rightarrow> workState"
where
  "admit_waiter position record selection shadow now state =
     (let s = fst (advanceWorkOverride now (state\<lparr>
                Waiters := remove_at position (charge_bypasses now (BypassedIndexes selection) (Waiters state)),
                lastSelection := selection, lastShadowSelection := shadow \<rparr>))
      in s\<lparr> Leases := Leases s @ [record] \<rparr>)"

definition tryAcquire_mutation ::
  "WorkCoordinator \<Rightarrow> time \<Rightarrow> WorkLeaseRecord \<Rightarrow> int \<Rightarrow> workGreenExpressWindow \<Rightarrow> WorkLeaseRecord mutation"
where
  "tryAcquire_mutation c now record capacity green state ledger =
     (let operationID = l_OperationID record in
      case index_of operationID (Waiters state) of
        None \<Rightarrow> (state, ledger, Inl WaiterDisappeared)
      | Some position \<Rightarrow>
          (let record = record\<lparr> l_QueuedAt := w_QueuedAt (Waiters state ! position) \<rparr>;
               used = usedWeight (Leases state);
               s1 = touch_waiter position (Capacity (coordinator_limits c)) now state;
               selection = selectStateWaiter c s1 used capacity now green;
               shadow = (if schedulingPolicy c = WorkSchedulingPolicyFIFO
                         then selectWorkWaiter (Waiters s1) used capacity now no_green 0 else no_selection)
           in if SelectedOperationID selection \<noteq> operationID
              then (s1, ledger, Inl (blocked_error operationID record used capacity selection))
              else (admit_waiter position record selection shadow now s1, ledger, Inr record)))"

definition TryAcquireWithCapacity ::
  "WorkCoordinator \<Rightarrow> host_env \<Rightarrow> WorkWaiter \<Rightarrow> int \<Rightarrow> store
     \<Rightarrow> store \<times> WorkWaiter \<times> (work_error + WorkLease) \<times> view"
where
  "TryAcquireWithCapacity c x waiter effectiveCapacity st =
     (if hw_Cancelled waiter then (st, waiter, Inl WaiterNotActive, None)
      else case newLeaseRecord c x (hw_Class waiter) (hw_OperationID waiter) of
        Inl err \<Rightarrow> (st, waiter, Inl err, None)
      | Inr record \<Rightarrow>
          (let capacity = clamp_capacity c effectiveCapacity in
           case transact c x (tryAcquire_mutation c (x_Clock x AtMutate) record capacity
                                (admission_window c x capacity)) st of
             (st', Inl err, view) \<Rightarrow> (st', waiter, Inl err, view)
           | (st', Inr lease, view) \<Rightarrow>
               (st', waiter\<lparr> hw_Cancelled := True \<rparr>, Inr \<lparr> hl_Record = lease, hl_Released = False \<rparr>, view)))"

definition TryAcquire ::
  "WorkCoordinator \<Rightarrow> host_env \<Rightarrow> WorkWaiter \<Rightarrow> store
     \<Rightarrow> store \<times> WorkWaiter \<times> (work_error + WorkLease) \<times> view"
where
  "TryAcquire c x waiter st =
     (if hw_Cancelled waiter then (st, waiter, Inl WaiterNotActive, None)
      else TryAcquireWithCapacity c x waiter (Capacity (coordinator_limits c)) st)"

definition cancel_mutation :: "time \<Rightarrow> string \<Rightarrow> unit mutation" where
  "cancel_mutation now operationID state ledger =
     (fst (advanceWorkOverride now
        (state\<lparr> Waiters := filter (\<lambda>w. w_OperationID w \<noteq> operationID) (Waiters state) \<rparr>)), ledger, Inr ())"

definition Cancel :: "WorkCoordinator \<Rightarrow> host_env \<Rightarrow> WorkWaiter \<Rightarrow> store \<Rightarrow> store \<times> WorkWaiter \<times> work_error option" where
  "Cancel c x waiter st =
     (if hw_Cancelled waiter then (st, waiter, None)
      else (case transact c x (cancel_mutation (x_Clock x AtMutate) (hw_OperationID waiter)) st of
              (st', Inl err, _) \<Rightarrow> (st', waiter, Some err)
            | (st', Inr _, _) \<Rightarrow> (st', waiter\<lparr> hw_Cancelled := True \<rparr>, None)))"


section \<open>Waiting\<close>

text \<open>
  The wait loops retry against whatever the host does next. Their environment is the list of attempts:
  the host at each try, whether the caller's context is done by the time the retry timer would fire, and
  the host of the cancellation that then follows. A loop that has used up the list is still waiting.
\<close>

record attempt =
  at_Try :: host_env
  at_Done :: bool
  at_Cancel :: host_env

datatype 'a wait = StillWaiting | Finished "work_error + 'a"

definition transientWorkStateLock :: "work_error \<Rightarrow> bool" where
  "transientWorkStateLock err \<longleftrightarrow> err = StateLocked"

fun retryable :: "work_error \<Rightarrow> bool" where
  "retryable (ErrWorkCapacity _ _ _ _) = True"
| "retryable (ErrWorkFairness _ _) = True"
| "retryable (ErrWorkReservation _ _ _) = True"
| "retryable (Joined a b) = (retryable a \<or> retryable b)"
| "retryable err = transientWorkStateLock err"

definition done_error :: "work_error \<Rightarrow> work_error" where
  "done_error err = (if transientWorkStateLock err then Joined ContextDone err else ContextDone)"

definition join_error :: "work_error \<Rightarrow> work_error option \<Rightarrow> work_error" where
  "join_error err other = (case other of None \<Rightarrow> err | Some e \<Rightarrow> Joined err e)"

fun WaitAcquireWithCapacity ::
  "WorkCoordinator \<Rightarrow> int \<Rightarrow> WorkWaiter \<Rightarrow> attempt list \<Rightarrow> store \<Rightarrow> store \<times> WorkWaiter \<times> WorkLease wait"
where
  "WaitAcquireWithCapacity c capacity waiter [] st = (st, waiter, StillWaiting)"
| "WaitAcquireWithCapacity c capacity waiter (a # attempts) st =
     (case TryAcquireWithCapacity c (at_Try a) waiter capacity st of
        (st1, waiter1, Inr lease, _) \<Rightarrow> (st1, waiter1, Finished (Inr lease))
      | (st1, waiter1, Inl err, _) \<Rightarrow>
          if hw_Cancelled waiter then (st1, waiter1, Finished (Inl err))
          else if \<not> retryable err \<or> at_Done a
          then (case Cancel c (at_Cancel a) waiter1 st1 of
                  (st2, waiter2, other) \<Rightarrow>
                    (st2, waiter2,
                     Finished (Inl (join_error (if retryable err then done_error err else err) other))))
          else WaitAcquireWithCapacity c capacity waiter1 attempts st1)"

fun register_loop ::
  "WorkCoordinator \<Rightarrow> WorkClass \<Rightarrow> string \<Rightarrow> attempt list \<Rightarrow> store \<Rightarrow> store \<times> attempt list \<times> WorkWaiter wait"
where
  "register_loop c class operationID [] st = (st, [], StillWaiting)"
| "register_loop c class operationID (a # attempts) st =
     (case RegisterWaiter c (at_Try a) class operationID st of
        (st1, Inr waiter, _) \<Rightarrow> (st1, attempts, Finished (Inr waiter))
      | (st1, Inl err, _) \<Rightarrow>
          if \<not> (err = ErrWorkUpgradePending \<or> transientWorkStateLock err)
          then (st1, attempts, Finished (Inl err))
          else if at_Done a then (st1, attempts, Finished (Inl (done_error err)))
          else register_loop c class operationID attempts st1)"

definition overrideWaiters ::
  "WorkCoordinator \<Rightarrow> host_env \<Rightarrow> string list \<Rightarrow> bool \<Rightarrow> bool \<Rightarrow> string \<Rightarrow> store
     \<Rightarrow> store \<times> (work_error + WorkOverrideResult list) \<times> view"
where
  "overrideWaiters c x operationIDs all_waiters appendPinned actor st =
     (case find (\<lambda>op. \<not> validPrivateID op) operationIDs of
        Some op \<Rightarrow> (st, Inl (InvalidPrivateID op), None)
      | None \<Rightarrow>
          if length operationIDs > WorkMaximumOverrideQueue then (st, Inl OverrideTooLong, None)
          else transact c x (overrideWaiters_mutation c x operationIDs all_waiters appendPinned actor) st)"

definition OverrideWaiters ::
  "WorkCoordinator \<Rightarrow> host_env \<Rightarrow> string list \<Rightarrow> store \<Rightarrow> store \<times> (work_error + WorkOverrideResult list) \<times> view"
where
  "OverrideWaiters c x operationIDs st =
     (if operationIDs = [] then (st, Inl OverrideEmptyRequest, None)
      else overrideWaiters c x operationIDs False False ''operator'' st)"

definition OverrideAllWaiters ::
  "WorkCoordinator \<Rightarrow> host_env \<Rightarrow> store \<Rightarrow> store \<times> (work_error + WorkOverrideResult list) \<times> view"
where
  "OverrideAllWaiters c x st = overrideWaiters c x [] True False ''operator'' st"

definition PrioritizeWaiter ::
  "WorkCoordinator \<Rightarrow> host_env \<Rightarrow> string \<Rightarrow> store \<Rightarrow> store \<times> (work_error + WorkOverrideResult) \<times> view"
where
  "PrioritizeWaiter c x operationID st =
     (case overrideWaiters c x [operationID] False True ''agent'' st of
        (st', Inl err, view) \<Rightarrow> (st', Inl err, view)
      | (st', Inr results, view) \<Rightarrow>
          (case find (\<lambda>r. r_OperationID r = operationID) results of
             Some r \<Rightarrow> (st', Inr r, view)
           | None \<Rightarrow> (st', Inl (ErrWorkWaiterNotFound operationID), view)))"

definition ClearWaiterOverride ::
  "WorkCoordinator \<Rightarrow> host_env \<Rightarrow> store \<Rightarrow> store \<times> (work_error + WorkOverrideResult list) \<times> view"
where
  "ClearWaiterOverride c x st = transact c x (ClearWaiterOverride_mutation c x) st"

definition waitAcquireOperation ::
  "WorkCoordinator \<Rightarrow> WorkClass \<Rightarrow> string \<Rightarrow> bool \<Rightarrow> int \<Rightarrow> attempt list \<Rightarrow> store \<Rightarrow> store \<times> WorkLease wait"
where
  "waitAcquireOperation c class operationID priority capacity attempts st =
     (case register_loop c class operationID attempts st of
        (st1, rest, StillWaiting) \<Rightarrow> (st1, StillWaiting)
      | (st1, rest, Finished (Inl err)) \<Rightarrow> (st1, Finished (Inl err))
      | (st1, rest, Finished (Inr waiter)) \<Rightarrow>
          if \<not> priority
          then (case WaitAcquireWithCapacity c capacity waiter rest st1 of (st2, _, res) \<Rightarrow> (st2, res))
          else (case rest of
                  [] \<Rightarrow> (st1, StillWaiting)
                | a # rest' \<Rightarrow>
                    (case PrioritizeWaiter c (at_Try a) operationID st1 of
                       (st2, Inl err, _) \<Rightarrow>
                         (case Cancel c (at_Cancel a) waiter st2 of
                            (st3, _, other) \<Rightarrow> (st3, Finished (Inl (join_error err other))))
                     | (st2, Inr _, _) \<Rightarrow>
                         (case WaitAcquireWithCapacity c capacity waiter rest' st2 of
                            (st3, _, res) \<Rightarrow> (st3, res)))))"

definition WaitAcquireOperationWithCapacity ::
  "WorkCoordinator \<Rightarrow> WorkClass \<Rightarrow> string \<Rightarrow> int \<Rightarrow> attempt list \<Rightarrow> store \<Rightarrow> store \<times> WorkLease wait"
where
  "WaitAcquireOperationWithCapacity c class operationID capacity attempts st =
     waitAcquireOperation c class operationID False capacity attempts st"

definition WaitAcquireOperation ::
  "WorkCoordinator \<Rightarrow> WorkClass \<Rightarrow> string \<Rightarrow> attempt list \<Rightarrow> store \<Rightarrow> store \<times> WorkLease wait"
where
  "WaitAcquireOperation c class operationID attempts st =
     WaitAcquireOperationWithCapacity c class operationID (Capacity (coordinator_limits c)) attempts st"

definition WaitAcquirePriorityOperationWithCapacity ::
  "WorkCoordinator \<Rightarrow> WorkClass \<Rightarrow> string \<Rightarrow> int \<Rightarrow> attempt list \<Rightarrow> store \<Rightarrow> store \<times> WorkLease wait"
where
  "WaitAcquirePriorityOperationWithCapacity c class operationID capacity attempts st =
     waitAcquireOperation c class operationID True capacity attempts st"

definition WaitAcquire ::
  "WorkCoordinator \<Rightarrow> WorkWaiter \<Rightarrow> attempt list \<Rightarrow> store \<Rightarrow> store \<times> WorkWaiter \<times> WorkLease wait"
where
  "WaitAcquire c waiter attempts st =
     (if hw_Cancelled waiter then (st, waiter, Finished (Inl WaiterNotActive))
      else WaitAcquireWithCapacity c (Capacity (coordinator_limits c)) waiter attempts st)"


section \<open>Admission\<close>

definition HoldAdmission ::
  "WorkCoordinator \<Rightarrow> host_env \<Rightarrow> string \<Rightarrow> WorkClass \<Rightarrow> WorkAdmissionObservation \<Rightarrow> store
     \<Rightarrow> store \<times> (work_error + unit)"
where
  "HoldAdmission c x operationID class ob st =
     (if \<not> validPrivateID operationID then (st, Inl (InvalidPrivateID operationID))
      else case coordinator_weight c class of
        None \<Rightarrow> (st, Inl (UnknownWorkClass class))
      | Some weight \<Rightarrow>
          (case x_Identity x OwnProcess [] (c_PID c) of
             None \<Rightarrow> (st, Inl (IdentityUnresolved (c_PID c)))
           | Some owner \<Rightarrow>
               if TrimSpace owner = [] then (st, Inl (IdentityUnresolved (c_PID c)))
               else (case transact c x (HoldAdmission_mutation c operationID class weight owner
                                          (x_Clock x AtRecord) ob) st of (st', res, _) \<Rightarrow> (st', res))))"

definition ReleaseAdmission :: "WorkCoordinator \<Rightarrow> host_env \<Rightarrow> string \<Rightarrow> store \<Rightarrow> store \<times> (work_error + unit)" where
  "ReleaseAdmission c x operationID st =
     (if \<not> validPrivateID operationID then (st, Inl (InvalidPrivateID operationID))
      else (case transact c x (ReleaseAdmission_mutation operationID) st of (st', res, _) \<Rightarrow> (st', res)))"

definition ObserveAdmissionLatch ::
  "WorkCoordinator \<Rightarrow> host_env \<Rightarrow> WorkAdmissionObservation \<Rightarrow> store \<Rightarrow> store \<times> (work_error + WorkAdmissionLatch)"
where
  "ObserveAdmissionLatch c x ob st =
     (case transact c x (ObserveAdmissionLatch_mutation c (x_Clock x AtRecord) ob) st of
        (st', res, _) \<Rightarrow> (st', res))"

end
