(* ===== verification/Work_Safety.thy ===== *)
theory Work_Safety
  imports Work_Coordinator
begin

text \<open>
  What every transaction of the coordinator keeps: the document it leaves behind is one that every later
  transaction of every process accepts. The contract is the locale \<open>sound_mutation\<close>; it is
  interpreted for the mutation of each operation.
\<close>

section \<open>States that stay acceptable\<close>

definition stamps_past :: "time \<Rightarrow> WorkWaiterRecord \<Rightarrow> bool" where
  "stamps_past now w \<longleftrightarrow>
     w_HeartbeatAt w \<le> now \<and> (\<forall>t. w_LastBypassedAt w = Some t \<or> w_ProtectedAt w = Some t \<or> w_ReservedAt w = Some t
        \<longrightarrow> t \<le> now)"

definition in_past :: "time \<Rightarrow> workState \<Rightarrow> bool" where
  "in_past now s \<longleftrightarrow>
     (\<forall>l \<in> set (Leases s). l_StartedAt l \<le> now) \<and> (\<forall>w \<in> set (Waiters s). stamps_past now w) \<and>
     (\<forall>h \<in> set (AdmissionHolds s). h_HeldSince h \<le> now)"

definition weights_current :: "WorkCoordinator \<Rightarrow> workState \<Rightarrow> bool" where
  "weights_current c s \<longleftrightarrow>
     (\<forall>l \<in> set (Leases s). coordinator_weight c (l_Class l) = Some (l_Weight l)) \<and>
     (\<forall>w \<in> set (Waiters s). coordinator_weight c (w_Class w) = Some (w_Weight w))"

definition live_state :: "WorkCoordinator \<Rightarrow> time \<Rightarrow> workState \<Rightarrow> bool" where
  "live_state c now s \<longleftrightarrow>
     wf_state c now s \<and> in_past now s \<and> weights_current c s \<and> 6 \<le> SchemaVersion s \<and> SchemaVersion s \<le> 8"

text \<open>A store that a transaction at or after \<open>now\<close> reads without an error.\<close>

definition store_ok :: "WorkCoordinator \<Rightarrow> time \<Rightarrow> store \<Rightarrow> bool" where
  "store_ok c now st \<longleftrightarrow>
     (\<exists>s. readState (st_File st) = Inr s \<and> wf_state c now s \<and> in_past now s \<and>
          6 \<le> SchemaVersion s \<and> SchemaVersion s \<le> 8)"

text \<open>The clock of one transaction does not run backwards.\<close>

definition clock_from :: "time \<Rightarrow> host_env \<Rightarrow> bool" where
  "clock_from now x \<longleftrightarrow>
     now \<le> x_Clock x AtRecord \<and> x_Clock x AtRecord \<le> x_Clock x AtReconcile \<and>
     x_Clock x AtReconcile \<le> x_Clock x AtHolds \<and> x_Clock x AtHolds \<le> x_Clock x AtMutate"

lemma in_past_mono: "in_past now s \<Longrightarrow> now \<le> later \<Longrightarrow> in_past later s"
  by (fastforce simp: in_past_def stamps_past_def)

lemma live_state_mono: "live_state c now s \<Longrightarrow> now \<le> later \<Longrightarrow> live_state c later s"
  by (auto simp: live_state_def intro: wf_state_mono in_past_mono)

lemma store_ok_mono: "store_ok c now st \<Longrightarrow> now \<le> later \<Longrightarrow> store_ok c later st"
  by (auto simp: store_ok_def intro: wf_state_mono in_past_mono)

lemma store_ok_ledger [simp]: "store_ok c now (st\<lparr> st_Ledger := l \<rparr>) = store_ok c now st"
  by (simp add: store_ok_def)

lemma wf_lease_fields:
  assumes "wf_state c now s" "l \<in> set (Leases s)"
  shows "l_OperationID l \<noteq> []" "l_QueuedAt l \<noteq> 0"
  using assms validPrivateID_nonempty
  by (auto simp: wf_state_def list_all_iff lease_ok_iff lease_metadata_bad_def IsZero_def)

lemma writeState_holds:
  "6 \<le> SchemaVersion s \<Longrightarrow> SchemaVersion s \<le> 8 \<Longrightarrow>
     d_AdmissionHolds (writeState s) = (if SchemaVersion s = 6 then [] else AdmissionHolds s)"
  by (auto simp: writeState_def document_defs schema_constants)

text \<open>What is written is read back: the ownership records come back as they were.\<close>

lemma read_back_records:
  assumes "live_state c now s"
  obtains t where "readState (st_File (save s ledger)) = Inr t" "Leases t = Leases s" "Waiters t = Waiters s"
    "AdmissionHolds t = (if SchemaVersion s = 6 then [] else AdmissionHolds s)" "SchemaVersion t = SchemaVersion s"
proof -
  let ?d = "writeState s"
  let ?t = "migrate_state (decode_document ?d)"
  have v: "6 \<le> SchemaVersion s" "SchemaVersion s \<le> 8" and wf: "wf_state c now s"
    using assms by (auto simp: live_state_def)
  have dv: "d_SchemaVersion ?d = SchemaVersion s" using v by (simp add: writeState_schema)
  have "readState (st_File (save s ledger)) = Inr ?t" using v dv by (simp add: save_def readState_document)
  moreover have "Leases ?t = Leases s"
    using v wf_lease_fields [OF wf]
    by (auto simp: migrate_state_simps dv writeState_leases migrate_lease_id intro!: map_idI)
  moreover have "Waiters ?t = Waiters s" using v by (simp add: migrate_state_simps dv writeState_waiters)
  moreover have "AdmissionHolds ?t = (if SchemaVersion s = 6 then [] else AdmissionHolds s)"
    using v by (simp add: migrate_state_simps writeState_holds)
  moreover have "SchemaVersion ?t = SchemaVersion s" by (simp add: migrate_state_simps dv)
  ultimately show thesis by (rule that)
qed

lemma read_back:
  assumes "live_state c now s"
  shows "store_ok c now (save s ledger)"
proof -
  obtain t where r: "readState (st_File (save s ledger)) = Inr t" and t: "Leases t = Leases s" "Waiters t = Waiters s"
    "AdmissionHolds t = (if SchemaVersion s = 6 then [] else AdmissionHolds s)" "SchemaVersion t = SchemaVersion s"
    by (rule read_back_records [OF assms])
  show ?thesis
    using assms r by (simp add: store_ok_def live_state_def wf_state_def in_past_def t)
qed

lemma reconcile_live:
  assumes "reconcile c x s ledger = (ledger', Inr r)" and "wf_state c now s" and "in_past now s"
    and "6 \<le> SchemaVersion s" "SchemaVersion s \<le> 8" and "now \<le> x_Clock x AtReconcile"
  shows "live_state c (x_Clock x AtReconcile) (rc_State r)"
proof -
  let ?now = "x_Clock x AtReconcile"
  note rec = reconcile_records [OF assms(1)]
  note wf = reconcile_wf [OF assms(1)]
  have h: "list_all (hold_valid c ?now) (AdmissionHolds s)" "distinct (map h_OperationID (AdmissionHolds s))"
    using wf_state_mono [OF assms(2,6)] by (auto simp: wf_state_def)
  have "wf_state c ?now (rc_State r)"
    using wf h by (auto simp: wf_state_def rec(3) list_all_iff distinct_map_filter)
  moreover have "in_past ?now (rc_State r)"
    using in_past_mono [OF assms(3,6)] by (auto simp: in_past_def rec stamps_past_def)
  ultimately show ?thesis
    using wf(6,7) assms(4,5) by (simp add: live_state_def weights_current_def rec(4))
qed

lemma lift_schema_live: "live_state c now s \<Longrightarrow> live_state c now (lift_schema pinned s)"
  by (auto simp: live_state_def lift_schema_def wf_state_def in_past_def weights_current_def schema_constants)


section \<open>The contract of a mutation\<close>

locale sound_mutation =
  fixes c :: WorkCoordinator and pre :: "workState \<Rightarrow> bool" and now :: time and m :: "'a mutation"
  assumes keeps: "live_state c now s \<Longrightarrow> pre s \<Longrightarrow> m s ledger = (s', ledger', res) \<Longrightarrow> live_state c now s'"
    and pre_reconciled: "pre s \<Longrightarrow> reconcile c x s ledger = (ledger', Inr r) \<Longrightarrow> pre (rc_State r)"
begin

text \<open>
  A transaction with a sound mutation leaves an acceptable store behind, whatever the probes answer,
  whether or not the lock, the event store and the state file could be used, and whether the
  mutation succeeds or fails.
\<close>

lemma withState_store_ok:
  assumes "store_ok c start st" and "clock_from start x" and "x_Clock x AtMutate = now"
    and pre: "\<And>s. readState (st_File st) = Inr s \<Longrightarrow> pre s"
  shows "store_ok c now (fst (withState c x (Some m) st))"
proof -
  obtain s0 where s0: "readState (st_File st) = Inr s0" "wf_state c start s0" "in_past start s0"
    "6 \<le> SchemaVersion s0" "SchemaVersion s0 \<le> 8"
    using assms(1) by (auto simp: store_ok_def)
  have start: "start \<le> x_Clock x AtReconcile" "x_Clock x AtReconcile \<le> now" "start \<le> now"
    using assms(2,3) by (auto simp: clock_from_def)
  have same: "store_ok c now st" using store_ok_mono [OF assms(1) start(3)] .
  show ?thesis
  proof (cases "validate c \<and> x_StateLocked x")
    case False
    then show ?thesis using same by (auto simp: withState_def)
  next
    case ok: True
    obtain ledger1 res where rc: "reconcile c x s0 (st_Ledger st) = (ledger1, res)" by fastforce
    show ?thesis
    proof (cases res)
      case (Inl err)
      then show ?thesis using same ok rc s0(1) by (simp add: withState_def)
    next
      case (Inr r)
      have live1: "live_state c now (rc_State r)"
        by (rule live_state_mono [OF reconcile_live [OF rc [unfolded Inr] s0(2-5) start(1)] start(2)])
      obtain s2 ledger2 res2 where m: "m (rc_State r) ledger1 = (s2, ledger2, res2)"
        by (metis prod_cases3)
      have live2: "live_state c now s2" by (rule keeps [OF live1 pre_reconciled [OF pre [OF s0(1)] rc [unfolded Inr]] m])
      note stores = read_back [OF live1] read_back [OF live2] read_back [OF lift_schema_live [OF live2]]
      show ?thesis
        using same stores ok rc Inr s0(1) m
        by (cases res2) (simp_all add: withState_def Let_def)
    qed
  qed
qed

lemma transact_store_ok:
  assumes "store_ok c start st" and "clock_from start x" and "x_Clock x AtMutate = now"
    and "\<And>s. readState (st_File st) = Inr s \<Longrightarrow> pre s"
  shows "store_ok c now (fst (transact c x m st))"
  using withState_store_ok [OF assms]
  by (auto simp: transact_def split: prod.splits sum.splits option.splits)

end


section \<open>Every mutation is sound\<close>

text \<open>What \<open>live_state\<close> says of leases, waiters and holds, as one predicate on those lists.\<close>

definition lease_live :: "WorkCoordinator \<Rightarrow> time \<Rightarrow> WorkLeaseRecord \<Rightarrow> bool" where
  "lease_live c now l \<longleftrightarrow>
     lease_ok c now l \<and> l_StartedAt l \<le> now \<and> coordinator_weight c (l_Class l) = Some (l_Weight l)"

definition waiter_live :: "WorkCoordinator \<Rightarrow> time \<Rightarrow> WorkWaiterRecord \<Rightarrow> bool" where
  "waiter_live c now w \<longleftrightarrow>
     waiter_ok c now w \<and> stamps_past now w \<and> coordinator_weight c (w_Class w) = Some (w_Weight w)"

definition hold_live :: "WorkCoordinator \<Rightarrow> time \<Rightarrow> WorkAdmissionHoldRecord \<Rightarrow> bool" where
  "hold_live c now h \<longleftrightarrow> hold_valid c now h \<and> h_HeldSince h \<le> now"

lemma live_state_iff:
  "live_state c now s \<longleftrightarrow>
     (\<forall>l \<in> set (Leases s). lease_live c now l) \<and> (\<forall>w \<in> set (Waiters s). waiter_live c now w) \<and>
     (\<forall>h \<in> set (AdmissionHolds s). hold_live c now h) \<and>
     distinct (map l_ID (Leases s)) \<and> distinct (map l_OperationID (Leases s) @ map w_OperationID (Waiters s)) \<and>
     distinct (map h_OperationID (AdmissionHolds s)) \<and> 6 \<le> SchemaVersion s \<and> SchemaVersion s \<le> 8"
  by (auto simp: live_state_def wf_state_def in_past_def weights_current_def lease_live_def waiter_live_def
      hold_live_def list_all_iff)

lemma live_state_cong:
  assumes "live_state c now s" "Leases t = Leases s" "Waiters t = Waiters s" "AdmissionHolds t = AdmissionHolds s"
    "SchemaVersion t = SchemaVersion s"
  shows "live_state c now t"
  using assms by (simp add: live_state_iff)

lemma advance_live [simp]: "live_state c now (fst (advanceWorkOverride t s)) = live_state c now s"
  by (simp add: live_state_iff)

lemma live_filter_leases:
  "live_state c now s \<Longrightarrow> live_state c now (s\<lparr> Leases := filter P (Leases s) \<rparr>)"
  by (auto simp: live_state_iff distinct_map_filter)

lemma live_filter_waiters:
  "live_state c now s \<Longrightarrow> live_state c now (s\<lparr> Waiters := filter P (Waiters s) \<rparr>)"
  by (auto simp: live_state_iff distinct_map_filter)

interpretation release: sound_mutation c "\<lambda>s. True" now "release_mutation leaseID"
  by unfold_locales (auto simp: release_mutation_def intro: live_filter_leases)

interpretation cancel: sound_mutation c "\<lambda>s. True" now "cancel_mutation t operationID"
  by unfold_locales (auto simp: cancel_mutation_def intro: live_filter_waiters)

interpretation drop: sound_mutation c "\<lambda>s. True" now "drop_mutation x operationID"
  by unfold_locales
    (auto simp: drop_mutation_def intro: live_filter_leases split: option.splits sum.splits)

interpretation latch: sound_mutation c "\<lambda>s. True" now "ObserveAdmissionLatch_mutation c t ob"
  by unfold_locales
    (auto simp: ObserveAdmissionLatch_mutation_def Let_def elim!: live_state_cong)

interpretation override: sound_mutation c "\<lambda>s. True" now
  "overrideWaiters_mutation c x ids everyone append_pinned actor"
  by unfold_locales
    (auto simp: overrideWaiters_mutation_def elim!: live_state_cong split: sum.splits if_splits prod.splits)

interpretation clear: sound_mutation c "\<lambda>s. True" now "ClearWaiterOverride_mutation c x"
  by unfold_locales
    (auto simp: ClearWaiterOverride_mutation_def elim!: live_state_cong split: sum.splits if_splits prod.splits)

lemma live_filter_holds:
  "live_state c now s \<Longrightarrow> live_state c now (s\<lparr> AdmissionHolds := filter P (AdmissionHolds s) \<rparr>)"
  by (simp add: live_state_iff distinct_map_filter)

interpretation unhold: sound_mutation c "\<lambda>s. True" now "ReleaseAdmission_mutation operationID"
  by unfold_locales (auto simp: ReleaseAdmission_mutation_def intro: live_filter_holds)

text \<open>Binding and parking rewrite one lease in place.\<close>

lemma live_map_leases:
  assumes "live_state c now s" and "map l_ID ls = map l_ID (Leases s)"
    "map l_OperationID ls = map l_OperationID (Leases s)" and "\<forall>l \<in> set ls. lease_live c now l"
  shows "live_state c now (s\<lparr> Leases := ls \<rparr>)"
  using assms by (simp add: live_state_iff)

lemma bind_lease_ok:
  assumes "bind_lease leaseID pid owner ls = Some ls'" and "\<forall>l \<in> set ls. lease_live c now l"
    and "0 < pid" "TrimSpace owner \<noteq> []"
  shows "map l_ID ls' = map l_ID ls" "map l_OperationID ls' = map l_OperationID ls"
    "\<forall>l \<in> set ls'. lease_live c now l"
proof -
  have ok: "lease_live c now (l\<lparr> l_PID := pid, l_OwnerIdentity := owner \<rparr>)" if "lease_live c now l" for l
    using that assms(3,4)
    by (auto simp: lease_live_def lease_ok_iff lease_metadata_bad_def fill_supervisor_def split: if_splits)
  have "map l_ID ls' = map l_ID ls \<and> map l_OperationID ls' = map l_OperationID ls \<and>
      (\<forall>l \<in> set ls'. lease_live c now l)"
    using assms(1,2) ok by (induction ls arbitrary: ls') (auto split: if_splits)
  then show "map l_ID ls' = map l_ID ls" "map l_OperationID ls' = map l_OperationID ls"
    "\<forall>l \<in> set ls'. lease_live c now l"
    by auto
qed

interpretation bind: sound_mutation c "\<lambda>s. 0 < pid \<and> TrimSpace owner \<noteq> []" now
  "bind_mutation leaseID pid owner"
proof (unfold_locales, goal_cases)
  case (1 s ledger s' ledger' res)
  then show ?case
    using bind_lease_ok [of leaseID pid owner "Leases s" _ c now]
    by (auto simp: bind_mutation_def split: option.splits intro!: live_map_leases)
      (auto simp: live_state_iff)
qed simp

lemma park_lease_ok:
  assumes "\<forall>l \<in> set ls. lease_live c now l"
  shows "map l_ID (fst (park_lease pinned leaseID parked stamp ls)) = map l_ID ls"
    "map l_OperationID (fst (park_lease pinned leaseID parked stamp ls)) = map l_OperationID ls"
    "\<forall>l \<in> set (fst (park_lease pinned leaseID parked stamp ls)). lease_live c now l"
proof -
  have ok: "lease_live c now (l\<lparr> l_ParkedAt := p \<rparr>)" if "lease_live c now l" for l p
    using that
    by (auto simp: lease_live_def lease_ok_iff lease_metadata_bad_def fill_supervisor_def split: if_splits)
  have "map l_ID (fst (park_lease pinned leaseID parked stamp ls)) = map l_ID ls \<and>
      map l_OperationID (fst (park_lease pinned leaseID parked stamp ls)) = map l_OperationID ls \<and>
      (\<forall>l \<in> set (fst (park_lease pinned leaseID parked stamp ls)). lease_live c now l)"
    using assms ok by (induction ls) (auto split: prod.splits)
  then show "map l_ID (fst (park_lease pinned leaseID parked stamp ls)) = map l_ID ls"
    "map l_OperationID (fst (park_lease pinned leaseID parked stamp ls)) = map l_OperationID ls"
    "\<forall>l \<in> set (fst (park_lease pinned leaseID parked stamp ls)). lease_live c now l"
    by auto
qed

interpretation park: sound_mutation c "\<lambda>s. True" now "parkWorkLeaseRecord leaseID parked stamp"
proof (unfold_locales, goal_cases)
  case (1 s ledger s' ledger' res)
  then obtain pinned where "s' = s\<lparr> Leases := fst (park_lease pinned leaseID parked stamp (Leases s)) \<rparr>"
    by (simp add: parkWorkLeaseRecord_def Let_def split_beta) metis
  then show ?case
    using 1(1) park_lease_ok [of "Leases s" c now]
    by (auto intro!: live_map_leases) (auto simp: live_state_iff)
qed simp


subsection \<open>Queueing\<close>

lemma live_add_waiter:
  assumes "live_state c now s" and "waiter_live c now w"
    and "w_OperationID w \<notin> l_OperationID ` set (Leases s)" "w_OperationID w \<notin> w_OperationID ` set (Waiters s)"
  shows "live_state c now (s\<lparr> Waiters := sort_key queue_key (Waiters s @ [w]) \<rparr>)"
  using assms by (auto simp: live_state_iff distinct_map_sort_key)

interpretation register: sound_mutation c "\<lambda>s. waiter_live c now record" now "register_mutation record"
  by unfold_locales (auto simp: register_mutation_def Let_def split: if_splits intro!: live_add_waiter)

lemma reserve_facts:
  assumes "live_state c now s" and "l \<in> set (Leases s)"
  shows "l_OperationID l \<notin> l_OperationID ` set (filter (\<lambda>k. l_ID k \<noteq> l_ID l) (Leases s))"
    and "l_OperationID l \<notin> w_OperationID ` set (Waiters s)"
proof -
  have d: "distinct (map l_OperationID (Leases s))" "l_OperationID ` set (Leases s) \<inter> w_OperationID ` set (Waiters s) = {}"
    using assms(1) by (auto simp: live_state_iff)
  show "l_OperationID l \<notin> l_OperationID ` set (filter (\<lambda>k. l_ID k \<noteq> l_ID l) (Leases s))"
    using d(1) assms(2) by (auto simp: distinct_map inj_on_def)
  show "l_OperationID l \<notin> w_OperationID ` set (Waiters s)" using d(2) assms(2) by auto
qed

interpretation reserve: sound_mutation c
  "\<lambda>s. waiter_live c now waiter \<and> w_OperationID waiter = l_OperationID record" now "reserve_mutation record waiter"
proof (unfold_locales, goal_cases)
  case (1 s ledger s' ledger' res)
  show ?case
  proof (cases "s' = s")
    case True
    then show ?thesis using 1(1) by simp
  next
    case False
    with 1(3) obtain l where l: "find (\<lambda>l. l_ID l = l_ID record) (Leases s) = Some l"
      "l_OperationID l = l_OperationID record"
      and s': "s' = s\<lparr> Leases := filter (\<lambda>l. l_ID l \<noteq> l_ID record) (Leases s),
                       Waiters := sort_key queue_key (Waiters s @ [waiter]) \<rparr>"
      by (auto simp: reserve_mutation_def split: if_splits option.splits)
    from find_member [OF l(1)] have m: "l \<in> set (Leases s)" "l_ID l = l_ID record" by auto
    note f = reserve_facts [OF 1(1) m(1)]
    let ?t = "s\<lparr> Leases := filter (\<lambda>l. l_ID l \<noteq> l_ID record) (Leases s) \<rparr>"
    have "live_state c now (?t\<lparr> Waiters := sort_key queue_key (Waiters ?t @ [waiter]) \<rparr>)"
      using live_add_waiter [OF live_filter_leases [OF 1(1)], of waiter "\<lambda>l. l_ID l \<noteq> l_ID record"] 1(2) f l(2) m(2)
      by simp
    then show ?thesis by (simp add: s')
  qed
qed simp

subsection \<open>Admission\<close>

lemma live_add_lease:
  assumes "live_state c now s" and "lease_live c now l" and "l_ID l \<notin> l_ID ` set (Leases s)"
    and "l_OperationID l \<notin> l_OperationID ` set (Leases s)" "l_OperationID l \<notin> w_OperationID ` set (Waiters s)"
  shows "live_state c now (s\<lparr> Leases := Leases s @ [l] \<rparr>)"
  using assms by (auto simp: live_state_iff)

lemma reconcile_lease_ids:
  assumes "reconcile c x s ledger = (ledger', Inr r)"
  shows "l_ID ` set (Leases (rc_State r)) \<subseteq> l_ID ` set (Leases s)"
    "l_OperationID ` set (Leases (rc_State r)) \<subseteq> l_OperationID ` set (Leases s)"
    "w_QueuedAt ` set (Waiters (rc_State r)) \<subseteq> w_QueuedAt ` set (Waiters s)"
  by (auto simp: reconcile_records [OF assms])

interpretation acquire: sound_mutation c
  "\<lambda>s. lease_live c now record \<and> l_ID record \<notin> l_ID ` set (Leases s) \<and>
       l_OperationID record \<notin> l_OperationID ` set (Leases s)" now "acquire_mutation record capacity green"
proof (unfold_locales, goal_cases)
  case (1 s ledger s' ledger' res)
  then show ?case
    by (auto simp: acquire_mutation_def Let_def split: list.splits if_splits intro!: live_add_lease)
next
  case (2 s x ledger ledger' r)
  with reconcile_lease_ids [OF 2(2)] show ?case by auto
qed

lemma waiter_live_times:
  assumes "waiter_live c now w"
  shows "w_QueuedAt w \<le> w_HeartbeatAt w" "w_HeartbeatAt w \<le> now" "0 < w_PID w" "w_QueuedAt w \<noteq> 0"
    "expected_weight c (w_Class w) = w_Weight w"
  using assms
  by (auto simp: waiter_live_def waiter_ok_iff waiter_metadata_bad_def stamps_past_def IsZero_def expected_weight_Some)


lemma skew_nonneg: "0 \<le> maximumWorkClockSkew"
  by (simp add: maximumWorkClockSkew_def seconds_def)

lemma stamp_now_ok: "w_QueuedAt w \<le> t \<Longrightarrow> t \<le> now \<Longrightarrow> \<not> stamp_bad now w (Some t)"
  using skew_nonneg by (simp add: stamp_bad_def)

text \<open>The fields a heartbeat, a protection or a bypass charge do not touch.\<close>

lemma stamp_bad_frame [simp]:
  "stamp_bad now (w\<lparr> w_HeartbeatAt := h \<rparr>) = stamp_bad now w"
  "stamp_bad now (w\<lparr> w_ProtectedAt := p \<rparr>) = stamp_bad now w"
  "stamp_bad now (w\<lparr> w_BypassCount := n \<rparr>) = stamp_bad now w"
  "stamp_bad now (w\<lparr> w_LastBypassedAt := p \<rparr>) = stamp_bad now w"
  by (auto simp: stamp_bad_def fun_eq_iff split: option.splits)

lemma reservation_checks_frame [simp]:
  "reservation_checks now (w\<lparr> w_HeartbeatAt := h \<rparr>) = reservation_checks now w"
  "reservation_checks now (w\<lparr> w_ProtectedAt := p \<rparr>) = reservation_checks now w"
  "reservation_checks now (w\<lparr> w_BypassCount := n \<rparr>) = reservation_checks now w"
  "reservation_checks now (w\<lparr> w_LastBypassedAt := p \<rparr>) = reservation_checks now w"
  by (simp_all add: reservation_checks_def)

lemma metadata_frame [simp]:
  "waiter_metadata_bad now (w\<lparr> w_ProtectedAt := p \<rparr>) = waiter_metadata_bad now w"
  "waiter_metadata_bad now (w\<lparr> w_BypassCount := n \<rparr>) = waiter_metadata_bad now w"
  "waiter_metadata_bad now (w\<lparr> w_LastBypassedAt := p \<rparr>) = waiter_metadata_bad now w"
  by (simp_all add: waiter_metadata_bad_def)

lemma premature_heartbeat [simp]:
  "premature_protection c now (w\<lparr> w_HeartbeatAt := h \<rparr>) = premature_protection c now w"
  by (simp add: premature_protection_def legacyExclusiveBenchmark_def workWaiterProtection_def Let_def) auto

lemma heartbeat_live:
  assumes "waiter_live c now w" "now \<noteq> 0"
  shows "waiter_live c now (w\<lparr> w_HeartbeatAt := now \<rparr>)"
proof -
  have "\<not> waiter_metadata_bad now (w\<lparr> w_HeartbeatAt := now \<rparr>)"
    using assms(2) waiter_live_times [OF assms(1)] assms(1) skew_nonneg
    by (simp add: waiter_metadata_bad_def waiter_live_def waiter_ok_iff IsZero_def)
  then show ?thesis
    using assms(1) by (simp add: waiter_live_def waiter_ok_iff stamps_past_def)
qed

lemma materialize_live:
  assumes "waiter_live c now w"
  shows "waiter_live c now (materializeWorkProtection (Capacity (coordinator_limits c)) now w)"
proof (cases "w_ProtectedAt w = None \<and> workWaiterProtection w (Capacity (coordinator_limits c)) now \<noteq> None")
  case True
  note t = waiter_live_times [OF assms]
  have "w\<lparr> w_Weight := expected_weight c (w_Class w), w_ProtectedAt := None \<rparr> = w" using True t(5) by simp
  then have "\<not> premature_protection c now (w\<lparr> w_ProtectedAt := Some now \<rparr>)"
    using True by (simp add: premature_protection_def)
  moreover have "\<not> stamp_bad now w (Some now)" using t by (intro stamp_now_ok) simp_all
  ultimately show ?thesis
    using assms True by (simp add: materializeWorkProtection_def waiter_live_def waiter_ok_iff stamps_past_def)
next
  case False
  then show ?thesis using assms by (auto simp: materializeWorkProtection_def)
qed

lemma charge_live:
  assumes "waiter_live c now w" and "unprotected w cap now"
  shows "waiter_live c now (charge_bypass now w)"
proof -
  note t = waiter_live_times [OF assms(1)]
  have n: "w_BypassCount w < workMaximumBypasses" "w_ProtectedAt w = None"
    using assms(2) by (auto simp: unprotected_def workWaiterProtection_def split: if_splits)
  have "w_ProtectedAt (charge_bypass now w) = None \<or> workMaximumBypasses \<le> w_BypassCount (charge_bypass now w)"
    using n by (simp add: charge_bypass_def Let_def)
  then have "\<not> premature_protection c now (charge_bypass now w)"
    by (auto simp: premature_protection_def workWaiterProtection_def)
  moreover have "\<not> stamp_bad now w (Some now)" using t by (intro stamp_now_ok) simp_all
  moreover have "\<not> stamp_bad now w None" by (simp add: stamp_bad_def)
  ultimately show ?thesis
    using assms(1) n by (simp add: charge_bypass_def Let_def waiter_live_def waiter_ok_iff stamps_past_def)
qed

lemma live_map_waiters:
  assumes "live_state c now s" and "map w_OperationID ws = map w_OperationID (Waiters s)"
    "\<forall>w \<in> set ws. waiter_live c now w"
  shows "live_state c now (s\<lparr> Waiters := ws \<rparr>)"
  using assms by (simp add: live_state_iff)

lemma index_of_Some:
  "index_of op ws = Some i \<Longrightarrow> i < length ws \<and> w_OperationID (ws ! i) = op"
  by (induction ws arbitrary: i) (auto split: if_splits)

lemma index_of_None: "index_of op ws = None \<longleftrightarrow> op \<notin> w_OperationID ` set ws"
  by (induction ws) auto

lemma map_update_same: "i < length xs \<Longrightarrow> f y = f (xs ! i) \<Longrightarrow> map f (xs[i := y]) = map f xs"
  by (metis list_update_id map_update)

lemma materialize_ids [simp]: "w_OperationID (materializeWorkProtection cap now w) = w_OperationID w"
  by (simp add: materializeWorkProtection_def)

lemma touch_ids:
  "i < length (Waiters s) \<Longrightarrow> map w_OperationID (Waiters (touch_waiter i cap now s)) = map w_OperationID (Waiters s)"
  by (simp add: touch_waiter_def materializeWorkProtections_def comp_def map_update_same)

lemma touch_live:
  assumes "live_state c now s" "i < length (Waiters s)" "now \<noteq> 0"
  shows "live_state c now (touch_waiter i (Capacity (coordinator_limits c)) now s)"
proof -
  have w: "\<forall>w \<in> set (Waiters s). waiter_live c now w" using assms(1) by (simp add: live_state_iff)
  have "\<forall>w \<in> set ((Waiters s)[i := (Waiters s ! i)\<lparr> w_HeartbeatAt := now \<rparr>]). waiter_live c now w"
    using w assms(2,3) by (auto dest!: set_update_subset_insert [THEN subsetD] intro: heartbeat_live)
  then have "\<forall>w \<in> set (Waiters (touch_waiter i (Capacity (coordinator_limits c)) now s)). waiter_live c now w"
    by (auto simp: touch_waiter_def materializeWorkProtections_def intro: materialize_live)
  then show ?thesis
    using live_map_waiters [OF assms(1), of "Waiters (touch_waiter i (Capacity (coordinator_limits c)) now s)"]
      touch_ids [OF assms(2)]
    by (simp add: touch_waiter_def)
qed


lemma charge_ids [simp]: "w_OperationID (charge_bypass now w) = w_OperationID w"
  by (simp add: charge_bypass_def Let_def)

text \<open>Admission charges at most the head of the queue, and only while it is unprotected.\<close>

lemma charge_bypasses_selected:
  assumes "sel = selectStateWaiter c s used cap now green"
  shows "charge_bypasses now (BypassedIndexes sel) (Waiters s) = Waiters s \<or>
    (\<exists>h rest. Waiters s = h # rest \<and> unprotected h cap now \<and>
      charge_bypasses now (BypassedIndexes sel) (Waiters s) = charge_bypass now h # rest)"
proof (cases "BypassedIndexes sel")
  case Nil
  then show ?thesis by (simp add: charge_bypasses_def)
next
  case (Cons k ks)
  note e = assms [unfolded selectStateWaiter_def]
  have k: "BypassedIndexes sel = [0]" using pinned.bypass_only_head Cons unfolding e by (metis list.distinct(1))
  have "Waiters s \<noteq> [] \<and> unprotected (hd (Waiters s)) cap now"
    using pinned.bypass_unprotected Cons unfolding e by (metis list.distinct(1))
  then show ?thesis by (cases "Waiters s") (simp_all add: charge_bypasses_def k)
qed

lemma charge_bypasses_live:
  assumes "live_state c now s" and "sel = selectStateWaiter c s used cap now green"
  shows "map w_OperationID (charge_bypasses now (BypassedIndexes sel) (Waiters s)) = map w_OperationID (Waiters s)"
    "\<forall>w \<in> set (charge_bypasses now (BypassedIndexes sel) (Waiters s)). waiter_live c now w"
  using charge_bypasses_selected [OF assms(2)] assms(1) charge_live by (auto simp: live_state_iff)

lemma remove_at_map: "map f (remove_at i xs) = remove_at i (map f xs)"
  by (simp add: remove_at_def take_map drop_map)

lemma remove_at_set: "set (remove_at i xs) \<subseteq> set xs"
  by (auto simp: remove_at_def dest: in_set_takeD in_set_dropD)

lemma remove_at_distinct:
  assumes "distinct xs" "i < length xs"
  shows "distinct (remove_at i xs)" "set (remove_at i xs) = set xs - {xs ! i}"
proof -
  have "xs = take i xs @ xs ! i # drop (Suc i) xs" using assms(2) by (simp add: id_take_nth_drop)
  then have d: "distinct (take i xs @ xs ! i # drop (Suc i) xs)" and
    e: "set xs = set (take i xs @ xs ! i # drop (Suc i) xs)" using assms(1) by simp_all
  show "distinct (remove_at i xs)" using d by (auto simp: remove_at_def)
  show "set (remove_at i xs) = set xs - {xs ! i}" unfolding e using d by (auto simp: remove_at_def)
qed

lemma live_remove_waiter:
  assumes "live_state c now s" "i < length (Waiters s)"
  shows "live_state c now (s\<lparr> Waiters := remove_at i (Waiters s) \<rparr>)"
    "w_OperationID (Waiters s ! i) \<notin> w_OperationID ` set (remove_at i (Waiters s))"
    "w_OperationID (Waiters s ! i) \<notin> l_OperationID ` set (Leases s)"
proof -
  note r = remove_at_distinct [of "map w_OperationID (Waiters s)" i]
  have d: "distinct (map w_OperationID (Waiters s))" using assms(1) by (simp add: live_state_iff)
  show "live_state c now (s\<lparr> Waiters := remove_at i (Waiters s) \<rparr>)"
    using assms r d remove_at_set [of i "Waiters s"] by (fastforce simp: live_state_iff remove_at_map)
  have "w_OperationID ` set (remove_at i (Waiters s)) = set (remove_at i (map w_OperationID (Waiters s)))"
    by (metis list.set_map remove_at_map)
  then show "w_OperationID (Waiters s ! i) \<notin> w_OperationID ` set (remove_at i (Waiters s))"
    using r d assms(2) by simp
  have "w_OperationID (Waiters s ! i) \<in> w_OperationID ` set (Waiters s)" using assms(2) by simp
  then show "w_OperationID (Waiters s ! i) \<notin> l_OperationID ` set (Leases s)"
    using assms(1) by (auto simp: live_state_iff)
qed

lemma admit_waiter_live:
  assumes "live_state c now s" and "sel = selectStateWaiter c s used cap now green"
    and "i < length (Waiters s)" "w_OperationID (Waiters s ! i) = l_OperationID record"
    and "lease_live c now record" "l_ID record \<notin> l_ID ` set (Leases s)"
  shows "live_state c now (admit_waiter i record sel shadow now s)"
proof -
  let ?ws = "charge_bypasses now (BypassedIndexes sel) (Waiters s)"
  let ?s = "s\<lparr> Waiters := ?ws \<rparr>"
  note ch = charge_bypasses_live [OF assms(1,2)]
  have live: "live_state c now ?s" by (rule live_map_waiters [OF assms(1) ch])
  have i: "i < length (Waiters ?s)" "w_OperationID (Waiters ?s ! i) = l_OperationID record"
    using ch(1) assms(3,4) by (simp_all) (metis length_map, metis length_map nth_map)
  note rm = live_remove_waiter [OF live i(1), unfolded i(2)]
  let ?t = "s\<lparr> Waiters := remove_at i ?ws, lastSelection := sel, lastShadowSelection := shadow \<rparr>"
  have "live_state c now ?t" using rm(1) by (elim live_state_cong) simp_all
  then have "live_state c now (fst (advanceWorkOverride now ?t))" by simp
  from live_add_lease [OF this assms(5)] rm(2,3) assms(6)
  show ?thesis by (simp add: admit_waiter_def Let_def)
qed

text \<open>The record an attempt admits with: the attempt's own, carrying the waiter's place in time.\<close>

definition admission_pre :: "WorkCoordinator \<Rightarrow> time \<Rightarrow> WorkLeaseRecord \<Rightarrow> workState \<Rightarrow> bool" where
  "admission_pre c now record s \<longleftrightarrow>
     now \<noteq> 0 \<and> lease_live c now record \<and> l_ID record \<notin> l_ID ` set (Leases s) \<and>
     (\<forall>w \<in> set (Waiters s). w_QueuedAt w \<noteq> 0 \<and> w_QueuedAt w \<le> l_StartedAt record)"

lemma queued_lease_live:
  assumes "lease_live c now record" "q \<noteq> 0" "q \<le> l_StartedAt record"
  shows "lease_live c now (record\<lparr> l_QueuedAt := q \<rparr>)"
  using assms
  by (auto simp: lease_live_def lease_ok_iff lease_metadata_bad_def fill_supervisor_def IsZero_def split: if_splits)

interpretation admit: sound_mutation c "admission_pre c now record" now
  "tryAcquire_mutation c now record capacity green"
proof (unfold_locales, goal_cases)
  case (1 s ledger s' ledger' res)
  show ?case
  proof (cases "index_of (l_OperationID record) (Waiters s)")
    case None
    with 1 show ?thesis by (simp add: tryAcquire_mutation_def)
  next
    case (Some i)
    let ?cap = "Capacity (coordinator_limits c)"
    let ?t = "touch_waiter i ?cap now s"
    let ?lr = "record\<lparr> l_QueuedAt := w_QueuedAt (Waiters s ! i) \<rparr>"
    let ?sel = "selectStateWaiter c ?t (usedWeight (Leases s)) capacity now green"
    from index_of_Some [OF Some] have i: "i < length (Waiters s)" "w_OperationID (Waiters s ! i) = l_OperationID record"
      by simp_all
    have pre: "now \<noteq> 0" "l_ID record \<notin> l_ID ` set (Leases s)" "lease_live c now ?lr"
      using 1(2) i(1) queued_lease_live by (auto simp: admission_pre_def)
    have t: "live_state c now ?t" by (rule touch_live [OF 1(1) i(1) pre(1)])
    have ti: "i < length (Waiters ?t)" "w_OperationID (Waiters ?t ! i) = l_OperationID ?lr"
      using touch_ids [OF i(1), of ?cap now] i by (simp_all) (metis length_map, metis length_map nth_map)
    have "l_ID ?lr \<notin> l_ID ` set (Leases ?t)" using pre(2) by (simp add: touch_waiter_def)
    note admitted = admit_waiter_live [OF t refl ti pre(3) this]
    show ?thesis
    proof (cases "SelectedOperationID ?sel = l_OperationID record")
      case True
      then show ?thesis using 1(3) Some admitted [of "usedWeight (Leases s)" capacity green] by (auto simp: tryAcquire_mutation_def Let_def)
    next
      case False
      then show ?thesis using 1(3) Some t by (simp add: tryAcquire_mutation_def Let_def)
    qed
  qed
next
  case (2 s x ledger ledger' r)
  have "\<forall>q \<in> w_QueuedAt ` set (Waiters s). q \<noteq> 0 \<and> q \<le> l_StartedAt record"
    using 2(1) by (simp add: admission_pre_def)
  then have "\<forall>q \<in> w_QueuedAt ` set (Waiters (rc_State r)). q \<noteq> 0 \<and> q \<le> l_StartedAt record"
    using reconcile_lease_ids(3) [OF 2(2)] by (meson subsetD)
  then show ?case using 2(1) reconcile_lease_ids(1) [OF 2(2)] by (auto simp: admission_pre_def)
qed

lemma refresh_hold_live:
  "refresh_hold op t ob holds = Some holds' \<Longrightarrow> \<forall>h \<in> set holds. hold_live c now h \<Longrightarrow>
     \<forall>h \<in> set holds'. hold_live c now h"
  by (induction holds arbitrary: holds') (auto simp: hold_live_def hold_valid_def split: if_splits)

lemma live_set_holds:
  assumes "live_state c now s" "\<forall>h \<in> set holds. hold_live c now h" "distinct (map h_OperationID holds)"
  shows "live_state c now (s\<lparr> AdmissionHolds := holds \<rparr>)"
  using assms by (simp add: live_state_iff)

interpretation hold: sound_mutation c "\<lambda>s. hold_live c now (new_hold c op class weight owner t ob)" now
  "HoldAdmission_mutation c op class weight owner t ob"
proof (unfold_locales, goal_cases)
  case (1 s ledger s' ledger' res)
  have h: "\<forall>h \<in> set (AdmissionHolds s). hold_live c now h" "distinct (map h_OperationID (AdmissionHolds s))"
    using 1(1) by (simp_all add: live_state_iff)
  show ?case
  proof (cases "refresh_hold op t ob (AdmissionHolds s)")
    case None
    then have "op \<notin> h_OperationID ` set (AdmissionHolds s)" by (simp add: refresh_hold_None)
    with None 1 h show ?thesis
      by (auto simp: HoldAdmission_mutation_def new_hold_def intro!: live_set_holds)
  next
    case (Some holds)
    with refresh_hold_Some [OF Some] refresh_hold_live [OF Some h(1)] 1 h show ?thesis
      by (auto simp: HoldAdmission_mutation_def intro!: live_set_holds)
  qed
qed simp

end
