(* ===== verification/Work_Capacity.thy ===== *)
theory Work_Capacity
  imports Work_Safety
begin

text \<open>
  The weighted ceiling across transactions: the weight charged to the leases of the document never
  exceeds the configured capacity by more than the green overcommit, whichever processes run which
  operations, as long as no parked lease is woken.
\<close>

section \<open>Charged weight\<close>

definition weights_positive :: "WorkCoordinator \<Rightarrow> bool" where
  "weights_positive c \<longleftrightarrow> list_all (\<lambda>class. 1 \<le> expected_weight c class) AllWorkClasses"

definition weight_ceiling :: "WorkCoordinator \<Rightarrow> int" where
  "weight_ceiling c = Capacity (coordinator_limits c) + workGreenExpressOvercommit"

definition store_bounded :: "WorkCoordinator \<Rightarrow> int \<Rightarrow> store \<Rightarrow> bool" where
  "store_bounded c bound st \<longleftrightarrow>
     (\<exists>s. readState (st_File st) = Inr s \<and> weights_current c s \<and> usedWeight (Leases s) \<le> bound)"

lemma usedWeight_simps [simp]:
  "usedWeight [] = 0" "usedWeight (l # ls) = chargedWeight l + usedWeight ls"
  "usedWeight (ls @ ls') = usedWeight ls + usedWeight ls'"
  by (simp_all add: usedWeight_def)

lemma weight_positive:
  assumes "weights_positive c" "coordinator_weight c class = Some w"
  shows "1 \<le> w"
proof -
  have "class \<in> set AllWorkClasses"
    using assms(2) by (cases "class") (auto simp: AllWorkClasses_def coordinator_weight_eq)
  with assms show ?thesis by (auto simp: weights_positive_def list_all_iff expected_weight_Some)
qed

lemma used_filter_le:
  "\<forall>l \<in> set ls. 0 \<le> chargedWeight l \<Longrightarrow> usedWeight (filter P ls) \<le> usedWeight ls"
  by (induction ls) auto

lemma charged_nonneg:
  assumes "weights_positive c" "\<forall>l \<in> set ls. coordinator_weight c (l_Class l) = Some (l_Weight l)"
  shows "\<forall>l \<in> set ls. 0 \<le> chargedWeight l"
  using assms weight_positive by (fastforce simp: chargedWeight_def)

lemma used_reconcile:
  assumes "reconcile c x s ledger = (ledger', Inr r)" "weights_current c s" "weights_positive c"
  shows "usedWeight (Leases (rc_State r)) \<le> usedWeight (Leases s)"
proof -
  let ?P = "\<lambda>l. lease_verdict x (fill_supervisor l) = Inr Keep"
  have "chargedWeight (normal_lease c l) = chargedWeight l" if "l \<in> set (Leases s)" for l
    using assms(2) that by (auto simp: weights_current_def chargedWeight_def expected_weight_Some)
  then have "usedWeight (Leases (rc_State r)) = usedWeight (filter ?P (Leases s))"
    unfolding reconcile_records(1) [OF assms(1)] usedWeight_def map_map comp_def
    by (intro arg_cong [where f = sum_list] map_cong) simp_all
  also have "\<dots> \<le> usedWeight (Leases s)"
    using charged_nonneg [OF assms(3), of "Leases s"] assms(2) used_filter_le by (auto simp: weights_current_def)
  finally show ?thesis .
qed

lemma bounded_read_back:
  assumes "live_state c now s" "usedWeight (Leases s) \<le> bound"
  shows "store_bounded c bound (save s ledger)"
proof -
  obtain t where r: "readState (st_File (save s ledger)) = Inr t" and t: "Leases t = Leases s" "Waiters t = Waiters s"
    by (rule read_back_records [OF assms(1)])
  have "weights_current c t" using assms(1) by (simp add: live_state_def weights_current_def t)
  then show ?thesis using assms(2) by (simp add: store_bounded_def r t)
qed


section \<open>The contract of a mutation that keeps the ceiling\<close>

locale bounded_mutation = sound_mutation +
  fixes bound :: int
  assumes positive: "pre s \<Longrightarrow> weights_positive c"
    and within: "live_state c now s \<Longrightarrow> pre s \<Longrightarrow> usedWeight (Leases s) \<le> bound \<Longrightarrow>
      m s ledger = (s', ledger', res) \<Longrightarrow> usedWeight (Leases s') \<le> bound"
begin

lemma withState_bounded:
  assumes "store_ok c start st" and "clock_from start x" and "x_Clock x AtMutate = now"
    and pre: "\<And>s. readState (st_File st) = Inr s \<Longrightarrow> pre s" and "store_bounded c bound st"
  shows "store_bounded c bound (fst (withState c x (Some m) st))"
proof -
  obtain s0 where s0: "readState (st_File st) = Inr s0" "wf_state c start s0" "in_past start s0"
    "6 \<le> SchemaVersion s0" "SchemaVersion s0 \<le> 8" and b0: "weights_current c s0" "usedWeight (Leases s0) \<le> bound"
    using assms(1,5) by (auto simp: store_ok_def store_bounded_def)
  have start: "start \<le> x_Clock x AtReconcile" "x_Clock x AtReconcile \<le> now"
    using assms(2,3) by (auto simp: clock_from_def)
  have ledger_only: "store_bounded c bound (st\<lparr> st_Ledger := l \<rparr>)" for l
    using assms(5) by (simp add: store_bounded_def)
  show ?thesis
  proof (cases "validate c \<and> x_StateLocked x")
    case False
    then show ?thesis using assms(5) by (auto simp: withState_def)
  next
    case ok: True
    obtain ledger1 res where rc: "reconcile c x s0 (st_Ledger st) = (ledger1, res)" by fastforce
    show ?thesis
    proof (cases res)
      case (Inl err)
      then show ?thesis using ledger_only ok rc s0(1) by (simp add: withState_def)
    next
      case (Inr r)
      note rc' = rc [unfolded Inr]
      note p = pre [OF s0(1)] and p' = pre_reconciled [OF pre [OF s0(1)] rc']
      have live1: "live_state c now (rc_State r)"
        by (rule live_state_mono [OF reconcile_live [OF rc' s0(2-5) start(1)] start(2)])
      have used1: "usedWeight (Leases (rc_State r)) \<le> bound"
        using used_reconcile [OF rc' b0(1) positive [OF p]] b0(2) by simp
      obtain s2 ledger2 res2 where m: "m (rc_State r) ledger1 = (s2, ledger2, res2)"
        by (metis prod_cases3)
      have live2: "live_state c now s2" and used2: "usedWeight (Leases s2) \<le> bound"
        using keeps [OF live1 p' m] within [OF live1 p' used1 m] by simp_all
      have "usedWeight (Leases (lift_schema l s2)) \<le> bound" for l using used2 by (simp add: lift_schema_def)
      note stores = bounded_read_back [OF live1 used1] bounded_read_back [OF live2 used2]
        bounded_read_back [OF lift_schema_live [OF live2] this]
      show ?thesis
        using ledger_only stores ok rc Inr s0(1) m
        by (cases res2) (simp_all add: withState_def Let_def)
    qed
  qed
qed

lemma transact_bounded:
  assumes "store_ok c start st" and "clock_from start x" and "x_Clock x AtMutate = now"
    and "\<And>s. readState (st_File st) = Inr s \<Longrightarrow> pre s" and "store_bounded c bound st"
  shows "store_bounded c bound (fst (transact c x m st))"
  using withState_bounded [OF assms]
  by (auto simp: transact_def split: prod.splits sum.splits option.splits)

end


section \<open>Which mutations keep it\<close>

lemma live_charged:
  assumes "live_state c now s" "weights_positive c"
  shows "usedWeight (filter P (Leases s)) \<le> usedWeight (Leases s)"
  using used_filter_le charged_nonneg [OF assms(2), of "Leases s"] assms(1)
  by (auto simp: live_state_def weights_current_def)

interpretation release_bounded: bounded_mutation c "\<lambda>s. weights_positive c" now "release_mutation leaseID" bound
  by unfold_locales (auto simp: release_mutation_def intro: release.keeps order_trans [OF live_charged])

interpretation drop_bounded: bounded_mutation c "\<lambda>s. weights_positive c" now "drop_mutation x operationID" bound
proof (unfold_locales, goal_cases)
  case (1 s ledger s' ledger' res)
  then show ?case by (auto intro: drop.keeps)
next
  case (4 s ledger s' ledger' res)
  then show ?case
    using live_charged [OF 4(1,2), of "\<lambda>l. l_OperationID l \<noteq> operationID"]
    by (auto simp: drop_mutation_def split: option.splits sum.splits)
qed simp_all

interpretation cancel_bounded: bounded_mutation c "\<lambda>s. weights_positive c" now "cancel_mutation t operationID" bound
  by unfold_locales (auto simp: cancel_mutation_def intro: live_filter_waiters)

interpretation latch_bounded: bounded_mutation c "\<lambda>s. weights_positive c" now
  "ObserveAdmissionLatch_mutation c t ob" bound
  by unfold_locales (auto simp: ObserveAdmissionLatch_mutation_def Let_def elim!: live_state_cong)

interpretation unhold_bounded: bounded_mutation c "\<lambda>s. weights_positive c" now
  "ReleaseAdmission_mutation operationID" bound
  by unfold_locales (auto simp: ReleaseAdmission_mutation_def intro: live_filter_holds)

interpretation clear_bounded: bounded_mutation c "\<lambda>s. weights_positive c" now "ClearWaiterOverride_mutation c x" bound
proof (unfold_locales, goal_cases)
  case (1 s ledger s' ledger' res)
  then show ?case by (auto intro: clear.keeps)
next
  case (4 s ledger s' ledger' res)
  then show ?case
    by (auto simp: ClearWaiterOverride_mutation_def split: sum.splits if_splits prod.splits)
qed simp_all

interpretation override_bounded: bounded_mutation c "\<lambda>s. weights_positive c" now
  "overrideWaiters_mutation c x ids everyone append_pinned actor" bound
proof (unfold_locales, goal_cases)
  case (1 s ledger s' ledger' res)
  then show ?case by (auto intro: override.keeps)
next
  case (4 s ledger s' ledger' res)
  then show ?case
    by (auto simp: overrideWaiters_mutation_def split: sum.splits if_splits prod.splits)
qed simp_all

interpretation hold_bounded: bounded_mutation c
  "\<lambda>s. weights_positive c \<and> hold_live c now (new_hold c op class weight owner t ob)" now
  "HoldAdmission_mutation c op class weight owner t ob" bound
proof (unfold_locales, goal_cases)
  case (1 s ledger s' ledger' res)
  then show ?case by (auto intro: hold.keeps)
next
  case (4 s ledger s' ledger' res)
  then show ?case by (auto simp: HoldAdmission_mutation_def split: option.splits)
qed simp_all

interpretation register_bounded: bounded_mutation c "\<lambda>s. weights_positive c \<and> waiter_live c now waiter" now
  "register_mutation waiter" bound
proof (unfold_locales, goal_cases)
  case (1 s ledger s' ledger' res)
  then show ?case by (auto intro: register.keeps)
next
  case (4 s ledger s' ledger' res)
  then show ?case by (auto simp: register_mutation_def Let_def split: if_splits)
qed simp_all

interpretation reserve_bounded: bounded_mutation c
  "\<lambda>s. weights_positive c \<and> waiter_live c now waiter \<and> w_OperationID waiter = l_OperationID lease" now
  "reserve_mutation lease waiter" bound
proof (unfold_locales, goal_cases)
  case (1 s ledger s' ledger' res)
  then show ?case by (auto intro: reserve.keeps)
next
  case (4 s ledger s' ledger' res)
  then show ?case
    using live_charged [OF 4(1), of "\<lambda>l. l_ID l \<noteq> l_ID lease"]
    by (auto simp: reserve_mutation_def split: if_splits option.splits)
qed simp_all

lemma bind_lease_used: "bind_lease leaseID pid owner ls = Some ls' \<Longrightarrow> usedWeight ls' = usedWeight ls"
  by (induction ls arbitrary: ls') (auto simp: chargedWeight_def split: if_splits)

interpretation bind_bounded: bounded_mutation c
  "\<lambda>s. weights_positive c \<and> 0 < pid \<and> TrimSpace owner \<noteq> []" now "bind_mutation leaseID pid owner" bound
proof (unfold_locales, goal_cases)
  case (1 s ledger s' ledger' res)
  then show ?case by (auto intro: bind.keeps)
next
  case (4 s ledger s' ledger' res)
  then show ?case by (auto simp: bind_mutation_def bind_lease_used split: option.splits)
qed simp_all

text \<open>Parking takes a lease off the charge; only waking one puts weight back without an admission.\<close>

lemma park_lease_used:
  "\<forall>l \<in> set ls. 0 \<le> l_Weight l \<Longrightarrow>
     usedWeight (fst (park_lease pinned leaseID True stamp ls)) \<le> usedWeight ls"
  by (induction ls) (auto simp: chargedWeight_def split: prod.splits)

interpretation park_bounded: bounded_mutation c "\<lambda>s. weights_positive c" now
  "parkWorkLeaseRecord leaseID True stamp" bound
proof (unfold_locales, goal_cases)
  case (1 s ledger s' ledger' res)
  then show ?case by (auto intro: park.keeps)
next
  case (4 s ledger s' ledger' res)
  have "\<forall>l \<in> set (Leases s). 0 \<le> l_Weight l"
    using 4(1,2) weight_positive by (fastforce simp: live_state_def weights_current_def)
  note used = park_lease_used [OF this]
  obtain pinned where "s' = s\<lparr> Leases := fst (park_lease pinned leaseID True stamp (Leases s)) \<rparr>"
    using 4(4) by (simp add: parkWorkLeaseRecord_def Let_def split_beta) metis
  then show ?case using order_trans [OF used 4(3)] by simp
qed simp_all

text \<open>The window an admission is given: at most the overcommit, and none under a derated capacity.\<close>

definition window_ok :: "WorkCoordinator \<Rightarrow> int \<Rightarrow> workGreenExpressWindow \<Rightarrow> bool" where
  "window_ok c capacity green \<longleftrightarrow>
     capacity \<le> Capacity (coordinator_limits c) \<and> 0 \<le> g_Overcommit green \<and>
     g_Overcommit green \<le> workGreenExpressOvercommit"

lemma admission_window_ok:
  assumes "validate c"
  shows "window_ok c (clamp_capacity c capacity) (admission_window c x (clamp_capacity c capacity))"
  using green_overcommit_range [of x]
  by (auto simp: window_ok_def clamp_capacity_def admission_window_def workGreenExpressOvercommit_def)

interpretation acquire_bounded: bounded_mutation c
  "\<lambda>s. weights_positive c \<and> window_ok c capacity green \<and> lease_live c now lease \<and>
       l_ID lease \<notin> l_ID ` set (Leases s) \<and> l_OperationID lease \<notin> l_OperationID ` set (Leases s)" now
  "acquire_mutation lease capacity green" "weight_ceiling c"
proof (unfold_locales, goal_cases)
  case (1 s ledger s' ledger' res)
  then show ?case by (auto intro: acquire.keeps)
next
  case (2 s x ledger ledger' r)
  with reconcile_lease_ids [OF 2(2)] show ?case by auto
next
  case (4 s ledger s' ledger' res)
  have "0 \<le> l_Weight lease" using 4(2) weight_positive by (fastforce simp: lease_live_def)
  then show ?case using 4(2-4)
    by (auto simp: acquire_mutation_def Let_def window_ok_def weight_ceiling_def chargedWeight_def
        split: list.splits if_splits)
qed simp


text \<open>A waiter handle names the class it queued under.\<close>

definition same_class :: "string \<Rightarrow> WorkClass \<Rightarrow> WorkWaiterRecord list \<Rightarrow> bool" where
  "same_class op class ws \<longleftrightarrow> list_all (\<lambda>w. w_OperationID w = op \<longrightarrow> w_Class w = class) ws"

lemma touch_class:
  "i < length (Waiters s) \<Longrightarrow> w_Class (Waiters (touch_waiter i cap now s) ! i) = w_Class (Waiters s ! i)"
  by (simp add: touch_waiter_def materializeWorkProtections_def materializeWorkProtection_def)

lemma selected_admission_bound:
  assumes t: "live_state c now t" and sel: "sel = selectStateWaiter c t used capacity now green"
    and i: "i < length (Waiters t)" "w_OperationID (Waiters t ! i) = op" "w_Class (Waiters t ! i) = class"
    and "SelectedOperationID sel = op" "op \<noteq> []" "coordinator_weight c class = Some w" "weights_positive c"
    and win: "window_ok c capacity green"
  shows "used + w \<le> capacity + (if g_Active green \<and> IsExpressClass class then g_Overcommit green else 0)"
proof -
  let ?w = "Waiters t ! i"
  have m: "?w \<in> set (Waiters t)" using i(1) by simp
  have d: "distinct (map w_OperationID (Waiters t))" and "waiter_live c now ?w"
    using t m by (auto simp: live_state_iff)
  then have weight: "w_Weight ?w = w" using i(3) assms(8) by (simp add: waiter_live_def)
  have "used + w_Weight ?w \<le>
      capacity + (if g_Active green \<and> IsExpressClass (w_Class ?w) then max 0 (g_Overcommit green) else 0)"
    by (rule pinned.selected_within_ceiling [OF d m, where c = c and pin = "OverrideOperationID t" and now = now
          and e = "expressLeasedWeight (Leases t)"])
      (use i sel assms(6,7) weight weight_positive [OF assms(9,8)] in \<open>simp_all add: selectStateWaiter_def\<close>)
  then show ?thesis using win weight i(3) by (simp add: window_ok_def max_def split: if_splits)
qed

text \<open>What an admitted attempt did: the queued waiter became this lease, inside the ceiling.\<close>

lemma tryAcquire_admits:
  assumes live: "live_state c now s" and pre: "admission_pre c now lease s"
    and cls: "same_class (l_OperationID lease) (l_Class lease) (Waiters s)"
    and "weights_positive c" "window_ok c capacity green"
    and m: "tryAcquire_mutation c now lease capacity green s ledger = (s', ledger', Inr got)"
  shows "Leases s' = Leases s @ [got]" "l_ID got = l_ID lease" "l_OperationID got = l_OperationID lease"
    "l_Class got = l_Class lease" "l_OperationID lease \<in> w_OperationID ` set (Waiters s)"
    "l_OperationID lease \<notin> w_OperationID ` set (Waiters s')"
    "usedWeight (Leases s) + l_Weight got \<le>
       capacity + (if g_Active green \<and> IsExpressClass (l_Class got) then g_Overcommit green else 0)"
proof -
  obtain i where Some: "index_of (l_OperationID lease) (Waiters s) = Some i"
    using m by (auto simp: tryAcquire_mutation_def Let_def split: option.splits)
  let ?cap = "Capacity (coordinator_limits c)"
  let ?t = "touch_waiter i ?cap now s"
  let ?lease = "lease\<lparr> l_QueuedAt := w_QueuedAt (Waiters s ! i) \<rparr>"
  let ?sel = "selectStateWaiter c ?t (usedWeight (Leases s)) capacity now green"
  from index_of_Some [OF Some] have i: "i < length (Waiters s)" "w_OperationID (Waiters s ! i) = l_OperationID lease"
    by simp_all
  have selected: "SelectedOperationID ?sel = l_OperationID lease" and got: "got = ?lease"
    and s': "\<exists>shadow. s' = admit_waiter i ?lease ?sel shadow now ?t"
    using m Some by (auto simp: tryAcquire_mutation_def Let_def split: if_splits)
  have t: "live_state c now ?t" using pre by (intro touch_live [OF live i(1)]) (simp add: admission_pre_def)
  have ti: "i < length (Waiters ?t)" "w_OperationID (Waiters ?t ! i) = l_OperationID lease"
    using touch_ids [OF i(1), of ?cap now] i by (metis length_map, metis length_map nth_map)
  have tc: "w_Class (Waiters ?t ! i) = l_Class lease"
    using cls i by (auto simp: touch_class same_class_def list_all_iff)
  have l: "coordinator_weight c (l_Class lease) = Some (l_Weight lease)" "l_OperationID lease \<noteq> []"
    using pre validPrivateID_nonempty by (auto simp: admission_pre_def lease_live_def lease_ok_iff)
  show "Leases s' = Leases s @ [got]" using s' by (auto simp: admit_waiter_def Let_def got touch_waiter_def)
  show "l_ID got = l_ID lease" "l_OperationID got = l_OperationID lease" "l_Class got = l_Class lease"
    by (simp_all add: got)
  show "l_OperationID lease \<in> w_OperationID ` set (Waiters s)" using i by (metis imageI nth_mem)
  note ch = charge_bypasses_live [OF t refl, of "usedWeight (Leases s)" capacity green]
  let ?ws = "charge_bypasses now (BypassedIndexes ?sel) (Waiters ?t)"
  have wsi: "i < length ?ws" "w_OperationID (?ws ! i) = l_OperationID lease"
    using ch(1) ti by (metis length_map, metis length_map nth_map)
  have "live_state c now (?t\<lparr> Waiters := ?ws \<rparr>)" by (rule live_map_waiters [OF t ch])
  from live_remove_waiter(2) [OF this, of i] wsi
  have "l_OperationID lease \<notin> w_OperationID ` set (remove_at i ?ws)" by simp
  then show "l_OperationID lease \<notin> w_OperationID ` set (Waiters s')"
    using s' by (auto simp: admit_waiter_def Let_def)
  show "usedWeight (Leases s) + l_Weight got \<le>
      capacity + (if g_Active green \<and> IsExpressClass (l_Class got) then g_Overcommit green else 0)"
    using selected_admission_bound [OF t refl ti tc selected l(2,1) assms(4,5)] by (simp add: got)
qed

interpretation admit_bounded: bounded_mutation c
  "\<lambda>s. weights_positive c \<and> window_ok c capacity green \<and> admission_pre c now lease s \<and>
       same_class (l_OperationID lease) (l_Class lease) (Waiters s)" now
  "tryAcquire_mutation c now lease capacity green" "weight_ceiling c"
proof (unfold_locales, goal_cases)
  case (1 s ledger s' ledger' res)
  then show ?case by (auto intro: admit.keeps)
next
  case (2 s x ledger ledger' r)
  have "same_class (l_OperationID lease) (l_Class lease) (Waiters (rc_State r))"
    using 2(1) by (auto simp: same_class_def list_all_iff reconcile_records [OF 2(2)])
  then show ?case using 2(1) admit.pre_reconciled [OF _ 2(2)] by blast
next
  case (4 s ledger s' ledger' res)
  show ?case
  proof (cases res)
    case (Inl err)
    then have "Leases s' = Leases s"
      using 4(4) by (auto simp: tryAcquire_mutation_def Let_def touch_waiter_def split: option.splits if_splits)
    then show ?thesis using 4(3) by simp
  next
    case (Inr got)
    have "live_state c now s" "admission_pre c now lease s"
      "same_class (l_OperationID lease) (l_Class lease) (Waiters s)" "weights_positive c" "window_ok c capacity green"
      using 4(1,2) by auto
    note ad = tryAcquire_admits [OF this 4(4) [unfolded Inr]]
    have "live_state c now s'" using 4(1,2,4) by (auto intro: admit.keeps)
    then have "got \<in> set (Leases s') \<Longrightarrow> 0 \<le> l_Weight got"
      using weight_positive 4(2) by (fastforce simp: live_state_iff lease_live_def)
    then have "chargedWeight got \<le> l_Weight got" using ad(1) by (simp add: chargedWeight_def)
    then show ?thesis using ad(1,7) 4(2)
      by (simp add: weight_ceiling_def window_ok_def split: if_splits)
  qed
qed simp

end
