(* ===== verification/Work_System.thy ===== *)
theory Work_System
  imports Work_Capacity
begin

text \<open>
  The coordinator as a system of processes: any number of processes, each with its own process
  identifier, run the operations of the coordinator one after the other on one store (the state
  lock serialises them). Here are the operations as one step function, the step relation, the
  stores that can be reached, and what holds in all of them.
\<close>

section \<open>Operations\<close>

datatype operation =
    OpStatus
  | OpAcquire WorkClass string int
  | OpRelease WorkLease
  | OpBind WorkLease int
  | OpPark WorkLease bool time
  | OpReserve WorkLease
  | OpDrop string
  | OpRegister WorkClass string
  | OpTry WorkWaiter int
  | OpCancel WorkWaiter
  | OpOverride "string list"
  | OpOverrideAll
  | OpPrioritize string
  | OpClear
  | OpHold string WorkClass WorkAdmissionObservation
  | OpUnhold string
  | OpLatch WorkAdmissionObservation

fun exec :: "WorkCoordinator \<Rightarrow> host_env \<Rightarrow> operation \<Rightarrow> store \<Rightarrow> store" where
  "exec c x OpStatus st = fst (Status c x st)"
| "exec c x (OpAcquire class op capacity) st = fst (AcquireOperationWithCapacity c x class op capacity st)"
| "exec c x (OpRelease lease) st = fst (Release c x lease st)"
| "exec c x (OpBind lease pid) st = fst (BindPID c x lease pid st)"
| "exec c x (OpPark lease parked stamp) st = fst (SetParked c x lease parked stamp st)"
| "exec c x (OpReserve lease) st = fst (ReserveForPressure c x lease st)"
| "exec c x (OpDrop op) st = fst (DropLease c x op st)"
| "exec c x (OpRegister class op) st = fst (RegisterWaiter c x class op st)"
| "exec c x (OpTry waiter capacity) st = fst (TryAcquireWithCapacity c x waiter capacity st)"
| "exec c x (OpCancel waiter) st = fst (Cancel c x waiter st)"
| "exec c x (OpOverride ops) st = fst (OverrideWaiters c x ops st)"
| "exec c x OpOverrideAll st = fst (OverrideAllWaiters c x st)"
| "exec c x (OpPrioritize op) st = fst (PrioritizeWaiter c x op st)"
| "exec c x OpClear st = fst (ClearWaiterOverride c x st)"
| "exec c x (OpHold op class ob) st = fst (HoldAdmission c x op class ob st)"
| "exec c x (OpUnhold op) st = fst (ReleaseAdmission c x op st)"
| "exec c x (OpLatch ob) st = fst (ObserveAdmissionLatch c x ob st)"

text \<open>
  What the surroundings owe an operation: a clock that does not run backwards, and random lease
  identities of the documented form (thirty-two hexadecimal digits) that no live lease already has.
  What a caller owes: it acquires for an operation that holds no lease yet, tries with the waiter handle
  it was given, and converts only a lease it was given.
\<close>

definition host_ok :: "time \<Rightarrow> host_env \<Rightarrow> bool" where
  "host_ok now x \<longleftrightarrow>
     0 < now \<and> clock_from now x \<and> (\<forall>id. x_Random x 0 = Some id \<longrightarrow> validPrivateID id)"

definition stored_leases :: "store \<Rightarrow> WorkLeaseRecord list" where
  "stored_leases st = (case readState (st_File st) of Inl err \<Rightarrow> [] | Inr s \<Rightarrow> Leases s)"

definition stored_waiters :: "store \<Rightarrow> WorkWaiterRecord list" where
  "stored_waiters st = (case readState (st_File st) of Inl err \<Rightarrow> [] | Inr s \<Rightarrow> Waiters s)"

definition fresh_random :: "host_env \<Rightarrow> store \<Rightarrow> bool" where
  "fresh_random x st \<longleftrightarrow> x_Random x 0 \<notin> Some ` l_ID ` set (stored_leases st)"

fun proper :: "WorkCoordinator \<Rightarrow> time \<Rightarrow> host_env \<Rightarrow> operation \<Rightarrow> store \<Rightarrow> bool" where
  "proper c now x (OpAcquire class op capacity) st \<longleftrightarrow>
     fresh_random x st \<and> op \<notin> l_OperationID ` set (stored_leases st)"
| "proper c now x (OpTry waiter capacity) st \<longleftrightarrow>
     fresh_random x st \<and> same_class (hw_OperationID waiter) (hw_Class waiter) (stored_waiters st)"
| "proper c now x (OpReserve lease) st \<longleftrightarrow> lease_live c now (hl_Record lease)"
| "proper c now x _ st \<longleftrightarrow> True"


section \<open>The records the operations write\<close>

lemma host_ok_times:
  assumes "host_ok now x"
  shows "0 < now" "now \<le> x_Clock x AtRecord" "x_Clock x AtRecord \<le> x_Clock x AtMutate" "clock_from now x"
    "now \<le> x_Clock x AtMutate" "now \<le> x_Clock x AtReconcile" "x_Clock x AtReconcile \<le> x_Clock x AtMutate"
  using assms by (auto simp: host_ok_def clock_from_def)

lemma newLeaseRecord_live:
  assumes "newLeaseRecord c x class op = Inr record" and "host_ok now x"
  shows "lease_live c (x_Clock x AtMutate) record" "x_Random x 0 = Some (l_ID record)" "l_OperationID record = op"
    "l_Class record = class" "l_StartedAt record = x_Clock x AtRecord" "l_ParkedAt record = None"
proof -
  obtain weight owner leaseID where w: "coordinator_weight c class = Some weight"
    and o: "identityForPID x (c_PID c) = Inr owner" and op: "validPrivateID op"
    and r: "x_Random x 0 = Some leaseID"
    and e: "record = \<lparr> l_ID = leaseID, l_OperationID = op, l_Class = class, l_Weight = weight,
      l_PID = c_PID c, l_OwnerIdentity = owner, l_SupervisorPID = c_PID c, l_SupervisorIdentity = owner,
      l_QueuedAt = x_Clock x AtRecord, l_StartedAt = x_Clock x AtRecord,
      l_OriginKind = os_Kind (x_Origin x), l_ScheduleID = os_ScheduleID (x_Origin x),
      l_ScheduleRunID = os_ScheduleRunID (x_Origin x), l_AgentKind = os_AgentKind (x_Origin x),
      l_ParkedAt = None \<rparr>"
    using assms(1)
    by (auto simp: newLeaseRecord_def Let_def split: if_splits option.splits sum.splits)
  have id: "validPrivateID leaseID" using assms(2) r by (auto simp: host_ok_def)
  show "x_Random x 0 = Some (l_ID record)" "l_OperationID record = op" "l_Class record = class"
    "l_StartedAt record = x_Clock x AtRecord" "l_ParkedAt record = None"
    by (simp_all add: e r)
  show "lease_live c (x_Clock x AtMutate) record"
    using host_ok_times [OF assms(2)] skew_nonneg w op id identityForPID_ok [OF o]
    by (simp add: e lease_live_def lease_ok_iff lease_metadata_bad_def fill_supervisor_def IsZero_def)
qed

lemma new_waiter_live:
  assumes "coordinator_weight c class = Some weight" "validPrivateID op" "identityForPID x (c_PID c) = Inr owner"
    and "host_ok now x"
  shows "waiter_live c (x_Clock x AtMutate) (new_waiter c x class op weight owner)"
proof -
  have nonempty: "[] \<noteq> WorkReservationPressure" by (simp add: WorkReservationPressure_def)
  show ?thesis
    using host_ok_times [OF assms(4)] skew_nonneg assms(1,2) identityForPID_ok [OF assms(3)] nonempty
    by (simp add: new_waiter_def Let_def waiter_live_def waiter_ok_iff waiter_metadata_bad_def stamp_bad_def
        stamps_past_def reservation_checks_def premature_protection_def IsZero_def workMaximumBypasses_def)
qed

lemma reservation_waiter_live:
  assumes "lease_live c now record" "identityForPID x (c_PID c) = Inr owner" and "host_ok now x"
  shows "waiter_live c (x_Clock x AtMutate) (reservation_waiter c x record owner)"
    "w_OperationID (reservation_waiter c x record owner) = l_OperationID record"
proof -
  have nonempty: "WorkReservationPressure \<noteq> []" by (simp add: WorkReservationPressure_def)
  have l: "coordinator_weight c (l_Class record) = Some (l_Weight record)" "l_QueuedAt record \<noteq> 0"
    "l_QueuedAt record \<le> l_StartedAt record" "l_StartedAt record \<le> now" "validPrivateID (l_OperationID record)"
    using assms(1) by (auto simp: lease_live_def lease_ok_iff lease_metadata_bad_def IsZero_def)
  show "waiter_live c (x_Clock x AtMutate) (reservation_waiter c x record owner)"
    using host_ok_times [OF assms(3)] skew_nonneg l identityForPID_ok [OF assms(2)] nonempty
    by (simp add: reservation_waiter_def Let_def waiter_live_def waiter_ok_iff waiter_metadata_bad_def
        stamp_bad_def stamps_past_def reservation_checks_def premature_protection_def workWaiterProtection_def
        IsZero_def or_default_def workMaximumBypasses_def)
  show "w_OperationID (reservation_waiter c x record owner) = l_OperationID record"
    by (simp add: reservation_waiter_def Let_def)
qed

lemma new_hold_live:
  assumes "coordinator_weight c class = Some weight" "validPrivateID op" "TrimSpace owner \<noteq> []" "0 < c_PID c"
    and "host_ok now x"
  shows "hold_live c (x_Clock x AtMutate) (new_hold c op class weight owner (x_Clock x AtRecord) ob)"
  using host_ok_times [OF assms(5)] skew_nonneg assms(1-4)
  by (simp add: hold_live_def hold_valid_def new_hold_def IsZero_def)


section \<open>Every operation keeps the store acceptable\<close>

lemma transact_invalid: "\<not> validate c \<Longrightarrow> fst (transact c x m st) = st"
  by (simp add: transact_def withState_def)

lemma stored_pre:
  assumes "readState (st_File st) = Inr s"
  shows "stored_leases st = Leases s" "stored_waiters st = Waiters s"
  using assms by (simp_all add: stored_leases_def stored_waiters_def)

lemma store_ok_queued:
  assumes "store_ok c now st" "readState (st_File st) = Inr s" "w \<in> set (Waiters s)"
  shows "w_QueuedAt w \<noteq> 0 \<and> w_QueuedAt w \<le> now"
proof -
  have "waiter_ok c now w" "stamps_past now w"
    using assms by (auto simp: store_ok_def wf_state_def in_past_def list_all_iff)
  then show ?thesis
    by (auto simp: waiter_ok_iff waiter_metadata_bad_def stamps_past_def IsZero_def)
qed

lemma status_store_ok:
  assumes "store_ok c now st" and "host_ok now x"
  shows "store_ok c (x_Clock x AtMutate) (fst (Status c x st))"
proof -
  note t = host_ok_times [OF assms(2)]
  obtain s0 where s0: "readState (st_File st) = Inr s0" "wf_state c now s0" "in_past now s0"
    "6 \<le> SchemaVersion s0" "SchemaVersion s0 \<le> 8"
    using assms(1) by (auto simp: store_ok_def)
  have same: "store_ok c (x_Clock x AtMutate) st" using store_ok_mono [OF assms(1) t(5)] .
  obtain ledger1 res where rc: "reconcile c x s0 (st_Ledger st) = (ledger1, res)" by fastforce
  show ?thesis
  proof (cases res)
    case (Inl err)
    then show ?thesis using same rc s0(1) by (simp add: Status_def withState_def)
  next
    case (Inr r)
    have "live_state c (x_Clock x AtMutate) (rc_State r)"
      by (rule live_state_mono [OF reconcile_live [OF rc [unfolded Inr] s0(2-5) t(6)] t(7)])
    from read_back [OF this] same rc Inr s0(1) show ?thesis
      by (simp add: Status_def withState_def Let_def)
  qed
qed

lemma acquire_store_ok:
  assumes "store_ok c now st" and "host_ok now x" and "fresh_random x st" "op \<notin> l_OperationID ` set (stored_leases st)"
  shows "store_ok c (x_Clock x AtMutate) (fst (AcquireOperationWithCapacity c x class op capacity st))"
proof (cases "newLeaseRecord c x class op")
  case (Inl err)
  then show ?thesis
    using store_ok_mono [OF assms(1) host_ok_times(5) [OF assms(2)]] by (simp add: AcquireOperationWithCapacity_def)
next
  case (Inr l)
  note r = newLeaseRecord_live [OF Inr assms(2)]
  have "store_ok c (x_Clock x AtMutate)
      (fst (transact c x (acquire_mutation l cap green) st))" for cap green
    by (rule acquire.transact_store_ok [OF assms(1) host_ok_times(4) [OF assms(2)] refl])
      (use assms(3,4) r in \<open>auto simp: fresh_random_def stored_pre\<close>)
  then show ?thesis using Inr
    by (simp add: AcquireOperationWithCapacity_def Let_def split_beta split: sum.splits)
qed

lemma try_store_ok:
  assumes "store_ok c now st" and "host_ok now x" and "fresh_random x st"
  shows "store_ok c (x_Clock x AtMutate) (fst (TryAcquireWithCapacity c x waiter capacity st))"
proof (cases "hw_Cancelled waiter \<or> isl (newLeaseRecord c x (hw_Class waiter) (hw_OperationID waiter))")
  case True
  then show ?thesis
    using store_ok_mono [OF assms(1) host_ok_times(5) [OF assms(2)]]
    by (auto simp: TryAcquireWithCapacity_def isl_def)
next
  case False
  then obtain lr where r: "newLeaseRecord c x (hw_Class waiter) (hw_OperationID waiter) = Inr lr"
    by (metis isl_def sum.exhaust)
  note l = newLeaseRecord_live [OF r assms(2)] and t = host_ok_times [OF assms(2)]
  have "store_ok c (x_Clock x AtMutate)
      (fst (transact c x (tryAcquire_mutation c (x_Clock x AtMutate) lr cap green) st))" for cap green
  proof (rule admit.transact_store_ok [OF assms(1) t(4) refl])
    fix s assume s: "readState (st_File st) = Inr s"
    show "admission_pre c (x_Clock x AtMutate) lr s"
      unfolding admission_pre_def
      using store_ok_queued [OF assms(1) s] assms(3) l t by (force simp: fresh_random_def stored_pre [OF s])
  qed
  then show ?thesis using r False
    by (simp add: TryAcquireWithCapacity_def Let_def split_beta split: sum.splits)
qed

lemma register_store_ok:
  assumes "store_ok c now st" and "host_ok now x"
  shows "store_ok c (x_Clock x AtMutate) (fst (RegisterWaiter c x class op st))"
proof -
  note same = store_ok_mono [OF assms(1) host_ok_times(5) [OF assms(2)]]
  have "store_ok c (x_Clock x AtMutate)
      (fst (transact c x (register_mutation (new_waiter c x class op weight owner)) st))"
    if "coordinator_weight c class = Some weight" "validPrivateID op" "identityForPID x (c_PID c) = Inr owner"
    for weight owner
    by (rule register.transact_store_ok [OF assms(1) host_ok_times(4) [OF assms(2)] refl
          new_waiter_live [OF that assms(2)]])
  then show ?thesis using same
    by (simp add: RegisterWaiter_def split_beta split: option.splits sum.splits)
qed

lemma reserve_store_ok:
  assumes "store_ok c now st" and "host_ok now x" and "lease_live c now (hl_Record lease)"
  shows "store_ok c (x_Clock x AtMutate) (fst (ReserveForPressure c x lease st))"
proof -
  note same = store_ok_mono [OF assms(1) host_ok_times(5) [OF assms(2)]]
  have "store_ok c (x_Clock x AtMutate)
      (fst (transact c x (reserve_mutation (hl_Record lease) (reservation_waiter c x (hl_Record lease) owner)) st))"
    if "identityForPID x (c_PID c) = Inr owner" for owner
    by (rule reserve.transact_store_ok [OF assms(1) host_ok_times(4) [OF assms(2)] refl])
      (use reservation_waiter_live [OF assms(3) that assms(2)] in auto)
  then show ?thesis using same
    by (simp add: ReserveForPressure_def Let_def split_beta split: option.splits sum.splits)
qed

lemma hold_store_ok:
  assumes "store_ok c now st" and "host_ok now x"
  shows "store_ok c (x_Clock x AtMutate) (fst (HoldAdmission c x op class ob st))"
proof -
  note same = store_ok_mono [OF assms(1) host_ok_times(5) [OF assms(2)]]
  have "store_ok c (x_Clock x AtMutate)
      (fst (transact c x (HoldAdmission_mutation c op class weight owner (x_Clock x AtRecord) ob) st))"
    if "coordinator_weight c class = Some weight" "validPrivateID op" "TrimSpace owner \<noteq> []" for weight owner
  proof (cases "validate c")
    case True
    then have "0 < c_PID c" by (simp add: validate_def)
    show ?thesis
      by (rule hold.transact_store_ok [OF assms(1) host_ok_times(4) [OF assms(2)] refl
            new_hold_live [OF that \<open>0 < c_PID c\<close> assms(2)]])
  next
    case False
    then show ?thesis using same by (simp add: transact_invalid)
  qed
  then show ?thesis using same
    by (simp add: HoldAdmission_def split_beta split: option.splits)
qed

lemma bind_store_ok:
  assumes "store_ok c now st" and "host_ok now x"
  shows "store_ok c (x_Clock x AtMutate) (fst (BindPID c x lease pid st))"
proof -
  note same = store_ok_mono [OF assms(1) host_ok_times(5) [OF assms(2)]]
  have "store_ok c (x_Clock x AtMutate) (fst (transact c x (bind_mutation (l_ID (hl_Record lease)) pid owner) st))"
    if "identityForPID x pid = Inr owner" for owner
    by (rule bind.transact_store_ok [OF assms(1) host_ok_times(4) [OF assms(2)] refl])
      (use identityForPID_ok [OF that] in simp)
  then show ?thesis using same
    by (simp add: BindPID_def split_beta split: sum.splits)
qed

lemma override_store_ok:
  assumes "store_ok c now st" and "host_ok now x"
  shows "store_ok c (x_Clock x AtMutate) (fst (overrideWaiters c x ops everyone append_pinned actor st))"
proof -
  note same = store_ok_mono [OF assms(1) host_ok_times(5) [OF assms(2)]]
  have "store_ok c (x_Clock x AtMutate)
      (fst (transact c x (overrideWaiters_mutation c x ops everyone append_pinned actor) st))"
    by (rule override.transact_store_ok [OF assms(1) host_ok_times(4) [OF assms(2)] refl TrueI])
  then show ?thesis using same by (simp add: overrideWaiters_def split: option.splits)
qed

lemma step_store_ok:
  assumes "store_ok c now st" and "host_ok now x" and "proper c now x op st"
  shows "store_ok c (x_Clock x AtMutate) (exec c x op st)"
proof -
  note same = store_ok_mono [OF assms(1) host_ok_times(5) [OF assms(2)]]
  note rule = assms(1) host_ok_times(4) [OF assms(2)] refl TrueI
  note release = release.transact_store_ok [OF rule] and cancel = cancel.transact_store_ok [OF rule]
    and drop = drop.transact_store_ok [OF rule] and park = park.transact_store_ok [OF rule]
    and clear = clear.transact_store_ok [OF rule] and unhold = unhold.transact_store_ok [OF rule]
    and latch = latch.transact_store_ok [OF rule]
  show ?thesis
  proof (cases op)
    case (OpAcquire cls op capacity)
    then show ?thesis using acquire_store_ok assms by simp
  next
    case (OpTry waiter capacity)
    then show ?thesis using try_store_ok assms by simp
  next
    case (OpReserve lease)
    then show ?thesis using reserve_store_ok assms by simp
  next
    case (OpRelease lease)
    then show ?thesis using same release by (simp add: Release_def split_beta split: sum.splits)
  next
    case (OpCancel waiter)
    then show ?thesis using same cancel by (simp add: Cancel_def split_beta split: sum.splits)
  next
    case (OpPark lease parked stamp)
    then show ?thesis using same park by (simp add: SetParked_def Let_def split_beta split: sum.splits)
  next
    case (OpDrop op)
    then show ?thesis using same drop by (simp add: DropLease_def Let_def)
  next
    case (OpPrioritize op)
    then show ?thesis using override_store_ok [OF assms(1,2)]
      by (simp add: PrioritizeWaiter_def split_beta split: sum.splits option.splits)
  next
    case OpClear
    then show ?thesis using clear by (simp add: ClearWaiterOverride_def)
  next
    case (OpUnhold op)
    then show ?thesis using same unhold by (simp add: ReleaseAdmission_def split_beta)
  next
    case (OpLatch ob)
    then show ?thesis using latch by (simp add: ObserveAdmissionLatch_def split_beta)
  qed (use assms same status_store_ok bind_store_ok register_store_ok hold_store_ok override_store_ok
       in \<open>simp_all add: OverrideWaiters_def OverrideAllWaiters_def\<close>)
qed


section \<open>Every operation keeps the ceiling\<close>

fun wakes :: "operation \<Rightarrow> bool" where
  "wakes (OpPark lease parked stamp) = (\<not> parked)"
| "wakes _ = False"

lemma status_bounded:
  assumes "store_ok c now st" and "host_ok now x" and "store_bounded c bound st" "weights_positive c"
  shows "store_bounded c bound (fst (Status c x st))"
proof -
  note t = host_ok_times [OF assms(2)]
  obtain s0 where s0: "readState (st_File st) = Inr s0" "wf_state c now s0" "in_past now s0"
    "6 \<le> SchemaVersion s0" "SchemaVersion s0 \<le> 8" and b0: "weights_current c s0" "usedWeight (Leases s0) \<le> bound"
    using assms(1,3) by (auto simp: store_ok_def store_bounded_def)
  have ledger_only: "store_bounded c bound (st\<lparr> st_Ledger := l \<rparr>)" for l
    using assms(3) by (simp add: store_bounded_def)
  obtain ledger1 res where rc: "reconcile c x s0 (st_Ledger st) = (ledger1, res)" by fastforce
  show ?thesis
  proof (cases res)
    case (Inl err)
    then show ?thesis using ledger_only assms(3) rc s0(1) by (simp add: Status_def withState_def)
  next
    case (Inr r)
    have "usedWeight (Leases (rc_State r)) \<le> bound"
      using used_reconcile [OF rc [unfolded Inr] b0(1) assms(4)] b0(2) by simp
    from bounded_read_back [OF reconcile_live [OF rc [unfolded Inr] s0(2-5) t(6)] this]
    show ?thesis using ledger_only assms(3) rc Inr s0(1) by (simp add: Status_def withState_def Let_def)
  qed
qed

lemma acquire_op_bounded:
  assumes "store_ok c now st" and "host_ok now x" and "store_bounded c (weight_ceiling c) st" "weights_positive c"
    and "fresh_random x st" "op \<notin> l_OperationID ` set (stored_leases st)"
  shows "store_bounded c (weight_ceiling c) (fst (AcquireOperationWithCapacity c x class op capacity st))"
proof (cases "newLeaseRecord c x class op")
  case (Inl err)
  then show ?thesis using assms(3) by (simp add: AcquireOperationWithCapacity_def)
next
  case (Inr l)
  note r = newLeaseRecord_live [OF Inr assms(2)]
  let ?cap = "clamp_capacity c capacity"
  have v: "validate c" using Inr by (auto simp: newLeaseRecord_def split: if_splits)
  have "store_bounded c (weight_ceiling c) (fst (transact c x (acquire_mutation l ?cap (admission_window c x ?cap)) st))"
    by (rule acquire_bounded.transact_bounded [OF assms(1) host_ok_times(4) [OF assms(2)] refl _ assms(3)])
      (use assms(4-6) r admission_window_ok [OF v] in \<open>auto simp: fresh_random_def stored_pre\<close>)
  then show ?thesis using Inr
    by (simp add: AcquireOperationWithCapacity_def Let_def split_beta split: sum.splits)
qed

lemma try_pre:
  assumes "store_ok c now st" and "host_ok now x" and "fresh_random x st"
    and "newLeaseRecord c x class op = Inr l" and "readState (st_File st) = Inr s"
  shows "admission_pre c (x_Clock x AtMutate) l s"
  unfolding admission_pre_def
  using store_ok_queued [OF assms(1,5)] assms(3) newLeaseRecord_live [OF assms(4,2)] host_ok_times [OF assms(2)]
  by (force simp: fresh_random_def stored_pre [OF assms(5)])

lemma try_op_bounded:
  assumes "store_ok c now st" and "host_ok now x" and "store_bounded c (weight_ceiling c) st" "weights_positive c"
    and "fresh_random x st" "same_class (hw_OperationID waiter) (hw_Class waiter) (stored_waiters st)"
  shows "store_bounded c (weight_ceiling c) (fst (TryAcquireWithCapacity c x waiter capacity st))"
proof (cases "hw_Cancelled waiter \<or> isl (newLeaseRecord c x (hw_Class waiter) (hw_OperationID waiter))")
  case True
  then show ?thesis using assms(3) by (auto simp: TryAcquireWithCapacity_def isl_def)
next
  case False
  then obtain l where r: "newLeaseRecord c x (hw_Class waiter) (hw_OperationID waiter) = Inr l"
    by (metis isl_def sum.exhaust)
  let ?cap = "clamp_capacity c capacity"
  have v: "validate c" using r by (auto simp: newLeaseRecord_def split: if_splits)
  have "store_bounded c (weight_ceiling c) (fst (transact c x
      (tryAcquire_mutation c (x_Clock x AtMutate) l ?cap (admission_window c x ?cap)) st))"
    by (rule admit_bounded.transact_bounded [OF assms(1) host_ok_times(4) [OF assms(2)] refl _ assms(3)])
      (use try_pre [OF assms(1,2,5) r] newLeaseRecord_live [OF r assms(2)] assms(4,6) admission_window_ok [OF v]
       in \<open>auto simp: stored_pre\<close>)
  then show ?thesis using r False
    by (simp add: TryAcquireWithCapacity_def Let_def split_beta split: sum.splits)
qed

lemma register_op_bounded:
  assumes "store_ok c now st" and "host_ok now x" and "store_bounded c bound st" "weights_positive c"
  shows "store_bounded c bound (fst (RegisterWaiter c x class op st))"
proof -
  have "store_bounded c bound (fst (transact c x (register_mutation (new_waiter c x class op weight owner)) st))"
    if "coordinator_weight c class = Some weight" "validPrivateID op" "identityForPID x (c_PID c) = Inr owner"
    for weight owner
    by (rule register_bounded.transact_bounded [OF assms(1) host_ok_times(4) [OF assms(2)] refl _ assms(3)])
      (use new_waiter_live [OF that assms(2)] assms(4) in simp)
  then show ?thesis using assms(3)
    by (simp add: RegisterWaiter_def split_beta split: option.splits sum.splits)
qed

lemma reserve_op_bounded:
  assumes "store_ok c now st" and "host_ok now x" and "store_bounded c bound st" "weights_positive c"
    and "lease_live c now (hl_Record lease)"
  shows "store_bounded c bound (fst (ReserveForPressure c x lease st))"
proof -
  have "store_bounded c bound (fst (transact c x
      (reserve_mutation (hl_Record lease) (reservation_waiter c x (hl_Record lease) owner)) st))"
    if "identityForPID x (c_PID c) = Inr owner" for owner
    by (rule reserve_bounded.transact_bounded [OF assms(1) host_ok_times(4) [OF assms(2)] refl _ assms(3)])
      (use reservation_waiter_live [OF assms(5) that assms(2)] assms(4) in auto)
  then show ?thesis using assms(3)
    by (simp add: ReserveForPressure_def Let_def split_beta split: option.splits sum.splits)
qed

lemma hold_op_bounded:
  assumes "store_ok c now st" and "host_ok now x" and "store_bounded c bound st" "weights_positive c"
  shows "store_bounded c bound (fst (HoldAdmission c x op class ob st))"
proof -
  have "store_bounded c bound
      (fst (transact c x (HoldAdmission_mutation c op class weight owner (x_Clock x AtRecord) ob) st))"
    if "coordinator_weight c class = Some weight" "validPrivateID op" "TrimSpace owner \<noteq> []" for weight owner
  proof (cases "validate c")
    case True
    then have "0 < c_PID c" by (simp add: validate_def)
    show ?thesis
      by (rule hold_bounded.transact_bounded [OF assms(1) host_ok_times(4) [OF assms(2)] refl _ assms(3)])
        (use new_hold_live [OF that \<open>0 < c_PID c\<close> assms(2)] assms(4) in simp)
  next
    case False
    then show ?thesis using assms(3) by (simp add: transact_invalid)
  qed
  then show ?thesis using assms(3)
    by (simp add: HoldAdmission_def split_beta split: option.splits)
qed

lemma bind_op_bounded:
  assumes "store_ok c now st" and "host_ok now x" and "store_bounded c bound st" "weights_positive c"
  shows "store_bounded c bound (fst (BindPID c x lease pid st))"
proof -
  have "store_bounded c bound (fst (transact c x (bind_mutation (l_ID (hl_Record lease)) pid owner) st))"
    if "identityForPID x pid = Inr owner" for owner
    by (rule bind_bounded.transact_bounded [OF assms(1) host_ok_times(4) [OF assms(2)] refl _ assms(3)])
      (use identityForPID_ok [OF that] assms(4) in simp)
  then show ?thesis using assms(3) by (simp add: BindPID_def split_beta split: sum.splits)
qed

lemma override_op_bounded:
  assumes "store_ok c now st" and "host_ok now x" and "store_bounded c bound st" "weights_positive c"
  shows "store_bounded c bound (fst (overrideWaiters c x ops everyone append_pinned actor st))"
proof -
  have "store_bounded c bound (fst (transact c x (overrideWaiters_mutation c x ops everyone append_pinned actor) st))"
    by (rule override_bounded.transact_bounded [OF assms(1) host_ok_times(4) [OF assms(2)] refl assms(4,3)])
  then show ?thesis using assms(3) by (simp add: overrideWaiters_def split: option.splits)
qed

lemma step_bounded:
  assumes "store_ok c now st" and "host_ok now x" and "proper c now x op st" and "\<not> wakes op"
    and "store_bounded c (weight_ceiling c) st" "weights_positive c"
  shows "store_bounded c (weight_ceiling c) (exec c x op st)"
proof -
  note same = assms(5) and base = assms(1,2,5,6)
  note rule = assms(1) host_ok_times(4) [OF assms(2)] refl assms(6,5)
  note release = release_bounded.transact_bounded [OF rule] and cancel = cancel_bounded.transact_bounded [OF rule]
    and drop = drop_bounded.transact_bounded [OF rule] and park = park_bounded.transact_bounded [OF rule]
    and clear = clear_bounded.transact_bounded [OF rule] and unhold = unhold_bounded.transact_bounded [OF rule]
    and latch = latch_bounded.transact_bounded [OF rule]
  show ?thesis
  proof (cases op)
    case (OpAcquire cls op capacity)
    then show ?thesis using acquire_op_bounded [OF base] assms(3) by simp
  next
    case (OpTry waiter capacity)
    then show ?thesis using try_op_bounded [OF base] assms(3) by simp
  next
    case (OpReserve lease)
    then show ?thesis using reserve_op_bounded [OF base] assms(3) by simp
  next
    case (OpRelease lease)
    then show ?thesis using same release by (simp add: Release_def split_beta split: sum.splits)
  next
    case (OpCancel waiter)
    then show ?thesis using same cancel by (simp add: Cancel_def split_beta split: sum.splits)
  next
    case (OpPark lease parked stamp)
    then show ?thesis using same park assms(4) by (simp add: SetParked_def Let_def split_beta split: sum.splits)
  next
    case (OpDrop op)
    then show ?thesis using same drop by (simp add: DropLease_def Let_def)
  next
    case (OpPrioritize op)
    then show ?thesis using override_op_bounded [OF base]
      by (simp add: PrioritizeWaiter_def split_beta split: sum.splits option.splits)
  next
    case OpClear
    then show ?thesis using clear by (simp add: ClearWaiterOverride_def)
  next
    case (OpUnhold op)
    then show ?thesis using same unhold by (simp add: ReleaseAdmission_def split_beta)
  next
    case (OpLatch ob)
    then show ?thesis using latch by (simp add: ObserveAdmissionLatch_def split_beta)
  qed (use same status_bounded [OF base] bind_op_bounded [OF base] register_op_bounded [OF base]
       hold_op_bounded [OF base] override_op_bounded [OF base]
       in \<open>simp_all add: OverrideWaiters_def OverrideAllWaiters_def\<close>)
qed


section \<open>Reachable stores\<close>

text \<open>
  Processes with the same configured limits, each with its own identifier, take turns. A step may run at
  any time from where the previous one ended.
\<close>

inductive reachable :: "(operation \<Rightarrow> bool) \<Rightarrow> WorkCoordinator \<Rightarrow> time \<Rightarrow> store \<Rightarrow> bool"
  for allowed :: "operation \<Rightarrow> bool" and c :: WorkCoordinator
where
  start: "0 < now \<Longrightarrow> st_File st = Missing \<Longrightarrow> reachable allowed c now st"
| step: "reachable allowed c now st \<Longrightarrow> host_ok now x \<Longrightarrow> allowed op \<Longrightarrow> 0 < pid \<Longrightarrow>
    proper (c\<lparr> c_PID := pid \<rparr>) now x op st \<Longrightarrow>
    reachable allowed c (x_Clock x AtMutate) (exec (c\<lparr> c_PID := pid \<rparr>) x op st)"

lemma pid_frame [simp]:
  "coordinator_limits (c\<lparr> c_PID := p \<rparr>) = coordinator_limits c"
  "coordinator_weight (c\<lparr> c_PID := p \<rparr>) = coordinator_weight c"
  "expected_weight (c\<lparr> c_PID := p \<rparr>) = expected_weight c"
  by (simp_all add: coordinator_limits_def coordinator_weight_def expected_weight_def fun_eq_iff)

lemma pid_frame_records [simp]:
  "lease_ok (c\<lparr> c_PID := p \<rparr>) = lease_ok c" "waiter_ok (c\<lparr> c_PID := p \<rparr>) = waiter_ok c"
  "hold_valid (c\<lparr> c_PID := p \<rparr>) = hold_valid c"
  by (simp_all add: lease_ok_iff waiter_ok_iff hold_valid_def premature_protection_def legacyExclusiveBenchmark_def
      fun_eq_iff)

lemma pid_frame_states [simp]:
  "wf_state (c\<lparr> c_PID := p \<rparr>) = wf_state c" "weights_current (c\<lparr> c_PID := p \<rparr>) = weights_current c"
  "store_ok (c\<lparr> c_PID := p \<rparr>) = store_ok c" "weights_positive (c\<lparr> c_PID := p \<rparr>) = weights_positive c"
  "weight_ceiling (c\<lparr> c_PID := p \<rparr>) = weight_ceiling c" "store_bounded (c\<lparr> c_PID := p \<rparr>) = store_bounded c"
  by (simp_all add: wf_state_def weights_current_def store_ok_def weights_positive_def weight_ceiling_def
      store_bounded_def fun_eq_iff)

lemma empty_store_ok: "st_File st = Missing \<Longrightarrow> store_ok c now st"
  by (simp add: store_ok_def readState_def empty_state_def empty_document_def wf_state_def in_past_def schema_constants)

lemma reachable_ok: "reachable allowed c now st \<Longrightarrow> store_ok c now st"
proof (induction rule: reachable.induct)
  case (start now st)
  then show ?case by (simp add: empty_store_ok)
next
  case (step now st x op pid)
  from step_store_ok [of "c\<lparr> c_PID := pid \<rparr>"] step show ?case by simp
qed

lemma reachable_bounded:
  assumes "reachable (\<lambda>op. \<not> wakes op) c now st" "weights_positive c" "0 \<le> weight_ceiling c"
  shows "store_bounded c (weight_ceiling c) st"
  using assms(1)
proof (induction rule: reachable.induct)
  case (start now st)
  then show ?case
    using assms(3) by (simp add: store_bounded_def readState_def empty_state_def empty_document_def weights_current_def)
next
  case (step now st x op pid)
  from step_bounded [of "c\<lparr> c_PID := pid \<rparr>"] step assms(2) reachable_ok [OF step(1)] show ?case by simp
qed

text \<open>A run for the witnesses: a waiter registers, and is then admitted.\<close>

definition sample_step :: "time \<Rightarrow> operation \<Rightarrow> store \<Rightarrow> store" where
  "sample_step now op st = exec (sample_coordinator\<lparr> c_PID := 7 \<rparr>) (sample_host now) op st"

definition empty_store :: store where
  "empty_store = \<lparr> st_File = Missing, st_Ledger = [] \<rparr>"

definition sample_handle :: WorkWaiter where
  "sample_handle = \<lparr> hw_OperationID = sample_id CHR ''a'', hw_Class = WorkClassTest, hw_Cancelled = False \<rparr>"

definition sample_registered :: store where
  "sample_registered = sample_step 5 (OpRegister WorkClassTest (sample_id CHR ''a'')) empty_store"

definition sample_admitted :: store where
  "sample_admitted = sample_step 6 (OpTry sample_handle 8) sample_registered"

lemma sample_host_ok: "0 < now \<Longrightarrow> host_ok now (sample_host now)"
  by (simp add: host_ok_def clock_from_def)

lemma host_ok_later: "host_ok now x \<Longrightarrow> 0 < start \<Longrightarrow> start \<le> now \<Longrightarrow> host_ok start x"
  by (simp add: host_ok_def clock_from_def)

lemma sample_proper:
  "fresh_random (sample_host 6) sample_registered"
  "same_class (hw_OperationID sample_handle) (hw_Class sample_handle) (stored_waiters sample_registered)"
  by code_simp+

lemma sample_reachable: "reachable (\<lambda>op. \<not> wakes op) sample_coordinator 6 sample_admitted"
proof -
  have h: "host_ok 5 (sample_host 5)" "host_ok 5 (sample_host 6)"
    using sample_host_ok [of 5] host_ok_later [OF sample_host_ok [of 6], of 5] by simp_all
  have "reachable (\<lambda>op. \<not> wakes op) sample_coordinator 5 sample_registered"
    unfolding sample_registered_def sample_step_def
    using reachable.step [of "\<lambda>op. \<not> wakes op" sample_coordinator 5 empty_store "sample_host 5"
        "OpRegister WorkClassTest (sample_id CHR ''a'')" 7]
      reachable.start [of 5 empty_store "\<lambda>op. \<not> wakes op" sample_coordinator] h(1)
    by (simp add: empty_store_def)
  from reachable.step [OF this h(2), of "OpTry sample_handle 8" 7] sample_proper
  show ?thesis unfolding sample_admitted_def sample_step_def by simp
qed

text \<open>
  Claim C2. No reachable document wedges the coordinator. After any history of operations by any number of
  processes (acquisitions, queueing, admissions, releases, parking, pressure reservations, promotions,
  holds, latch updates, failed writes and lost locks included), on a clock that does not run backwards, the
  state file decodes, every lease and waiter in it passes the checks reconciliation applies, lease
  identities are unique, and no operation is both leased and queued or appears twice.
\<close>

theorem reachable_store_sound:
  assumes "reachable allowed c now st"
  shows "\<exists>s. readState (st_File st) = Inr s \<and> wf_state c now s \<and>
    distinct (map l_ID (Leases s)) \<and> distinct (map l_OperationID (Leases s) @ map w_OperationID (Waiters s))"
  using reachable_ok [OF assms] by (auto simp: store_ok_def wf_state_def)

theorem reachable_store_sound_witness:
  "\<exists>s. readState (st_File sample_admitted) = Inr s \<and> wf_state sample_coordinator 6 s"
  using reachable_store_sound [OF sample_reachable] by blast

text \<open>
  Claim C1. The weighted ceiling holds in every history: as long as no parked lease is woken, the weight
  charged to all leases of the document stays within the configured capacity plus the two units of green
  overcommit, for any interleaving of any number of processes, whatever effective capacity each of
  them asks with.
\<close>

theorem reachable_within_ceiling:
  assumes "reachable (\<lambda>op. \<not> wakes op) c now st" and "weights_positive c"
    and "1 \<le> Capacity (coordinator_limits c)"
  shows "usedWeight (stored_leases st) \<le> Capacity (coordinator_limits c) + 2"
proof -
  have "0 \<le> weight_ceiling c" using assms(3) by (simp add: weight_ceiling_def workGreenExpressOvercommit_def)
  from reachable_bounded [OF assms(1,2) this] show ?thesis
    by (auto simp: store_bounded_def stored_leases_def weight_ceiling_def workGreenExpressOvercommit_def)
qed

theorem reachable_within_ceiling_witness:
  "map l_OperationID (stored_leases sample_admitted) = [sample_id CHR ''a''] \<and>
   usedWeight (stored_leases sample_admitted) \<le> Capacity (coordinator_limits sample_coordinator) + 2"
proof
  show "map l_OperationID (stored_leases sample_admitted) = [sample_id CHR ''a'']" by code_simp
  have "weights_positive sample_coordinator" "1 \<le> Capacity (coordinator_limits sample_coordinator)"
    by code_simp+
  from reachable_within_ceiling [OF sample_reachable this]
  show "usedWeight (stored_leases sample_admitted) \<le> Capacity (coordinator_limits sample_coordinator) + 2" .
qed

end
