(* ===== verification/Work_Ownership.thy ===== *)
theory Work_Ownership
  imports Work_System
begin

text \<open>
  Ownership across transactions: an operation that is leased or queued by a live process stays leased
  or queued until it gives its place up itself, whatever the other processes do and whichever step of
  a transaction fails. The contract is the locale \<open>conserving_mutation\<close>.
\<close>

section \<open>The contract of a mutation that loses nobody\<close>

definition owned :: "workState \<Rightarrow> string set" where
  "owned s = l_OperationID ` set (Leases s) \<union> w_OperationID ` set (Waiters s)"

definition stored_operations :: "store \<Rightarrow> string list" where
  "stored_operations st = map l_OperationID (stored_leases st) @ map w_OperationID (stored_waiters st)"

definition live_operations :: "host_env \<Rightarrow> store \<Rightarrow> string list" where
  "live_operations x st =
     map l_OperationID (filter (\<lambda>l. lease_verdict x (fill_supervisor l) = Inr Keep) (stored_leases st)) @
     map w_OperationID (filter (\<lambda>w. waiter_verdict x w = Inr Keep) (stored_waiters st))"

lemma owned_map_leases:
  assumes "map l_OperationID ls = map l_OperationID (Leases s)"
  shows "owned (s\<lparr> Leases := ls \<rparr>) = owned s"
proof -
  have "l_OperationID ` set ls = l_OperationID ` set (Leases s)" using assms by (metis list.set_map)
  then show ?thesis by (simp add: owned_def)
qed

lemma stored_operations_owned: "readState (st_File st) = Inr s \<Longrightarrow> set (stored_operations st) = owned s"
  by (simp add: stored_operations_def stored_pre owned_def)

lemma stored_operations_saved:
  assumes "live_state c now s"
  shows "set (stored_operations (save s ledger)) = owned s"
proof -
  obtain t where r: "readState (st_File (save s ledger)) = Inr t" and t: "Leases t = Leases s" "Waiters t = Waiters s"
    by (rule read_back_records [OF assms])
  show ?thesis using stored_operations_owned [OF r] by (simp add: owned_def t)
qed

lemma live_operations_reconciled:
  assumes "reconcile c x s ledger = (ledger', Inr r)" "readState (st_File st) = Inr s"
    and "op \<in> set (live_operations x st)"
  shows "op \<in> owned (rc_State r)"
  using assms(3)
  by (auto simp: live_operations_def owned_def stored_pre [OF assms(2)] reconcile_records [OF assms(1)] image_image)

lemma live_operations_stored: "set (live_operations x st) \<subseteq> set (stored_operations st)"
  by (auto simp: live_operations_def stored_operations_def)

locale conserving_mutation = sound_mutation +
  fixes op :: string
  assumes conserve: "live_state c now s \<Longrightarrow> pre s \<Longrightarrow> op \<in> owned s \<Longrightarrow>
    m s ledger = (s', ledger', res) \<Longrightarrow> op \<in> owned s'"
begin

lemma withState_conserves:
  assumes "store_ok c start st" and "clock_from start x" and "x_Clock x AtMutate = now"
    and pre: "\<And>s. readState (st_File st) = Inr s \<Longrightarrow> pre s" and live: "op \<in> set (live_operations x st)"
  shows "op \<in> set (stored_operations (fst (withState c x (Some m) st)))"
proof -
  obtain s0 where s0: "readState (st_File st) = Inr s0" "wf_state c start s0" "in_past start s0"
    "6 \<le> SchemaVersion s0" "SchemaVersion s0 \<le> 8"
    using assms(1) by (auto simp: store_ok_def)
  have start: "start \<le> x_Clock x AtReconcile" "x_Clock x AtReconcile \<le> now"
    using assms(2,3) by (auto simp: clock_from_def)
  have same: "op \<in> set (stored_operations (st\<lparr> st_Ledger := l \<rparr>))" "op \<in> set (stored_operations st)" for l
    using live live_operations_stored [of x st] by (auto simp: stored_operations_def stored_leases_def stored_waiters_def)
  show ?thesis
  proof (cases "validate c \<and> x_StateLocked x")
    case False
    then show ?thesis using same by (auto simp: withState_def)
  next
    case ok: True
    obtain ledger1 res where rc: "reconcile c x s0 (st_Ledger st) = (ledger1, res)" by fastforce
    show ?thesis
    proof (cases res)
      case (Inl err)
      then show ?thesis using same ok rc s0(1) by (simp add: withState_def)
    next
      case (Inr r)
      note rc' = rc [unfolded Inr]
      note p' = pre_reconciled [OF pre [OF s0(1)] rc'] and o1 = live_operations_reconciled [OF rc' s0(1) live]
      have live1: "live_state c now (rc_State r)"
        by (rule live_state_mono [OF reconcile_live [OF rc' s0(2-5) start(1)] start(2)])
      obtain s2 ledger2 res2 where m: "m (rc_State r) ledger1 = (s2, ledger2, res2)"
        by (metis prod_cases3)
      have live2: "live_state c now s2" and o2: "op \<in> owned s2"
        using keeps [OF live1 p' m] conserve [OF live1 p' o1 m] by simp_all
      have o3: "op \<in> owned (lift_schema l s2)" for l using o2 by (simp add: owned_def lift_schema_def)
      note stores = stored_operations_saved [OF live1] stored_operations_saved [OF live2]
        stored_operations_saved [OF lift_schema_live [OF live2]]
      show ?thesis
        using same stores o1 o2 o3 ok rc Inr s0(1) m
        by (cases res2) (simp_all add: withState_def Let_def)
    qed
  qed
qed

lemma transact_conserves:
  assumes "store_ok c start st" and "clock_from start x" and "x_Clock x AtMutate = now"
    and "\<And>s. readState (st_File st) = Inr s \<Longrightarrow> pre s" and "op \<in> set (live_operations x st)"
  shows "op \<in> set (stored_operations (fst (transact c x m st)))"
  using withState_conserves [OF assms]
  by (auto simp: transact_def split: prod.splits sum.splits option.splits)

end


section \<open>Every mutation but a withdrawal loses nobody\<close>

interpretation latch_conserves: conserving_mutation c "\<lambda>s. True" now "ObserveAdmissionLatch_mutation c t ob" op
  by unfold_locales (auto simp: ObserveAdmissionLatch_mutation_def Let_def owned_def)

interpretation unhold_conserves: conserving_mutation c "\<lambda>s. True" now "ReleaseAdmission_mutation operationID" op
  by unfold_locales (auto simp: ReleaseAdmission_mutation_def owned_def)

interpretation clear_conserves: conserving_mutation c "\<lambda>s. True" now "ClearWaiterOverride_mutation c x" op
  by unfold_locales
    (auto simp: ClearWaiterOverride_mutation_def owned_def split: sum.splits if_splits prod.splits)

interpretation override_conserves: conserving_mutation c "\<lambda>s. True" now
  "overrideWaiters_mutation c x ids everyone append_pinned actor" op
  by unfold_locales (auto simp: overrideWaiters_mutation_def owned_def split: sum.splits if_splits prod.splits)

interpretation hold_conserves: conserving_mutation c
  "\<lambda>s. hold_live c now (new_hold c holder class weight owner t ob)" now
  "HoldAdmission_mutation c holder class weight owner t ob" op
  by unfold_locales (auto simp: HoldAdmission_mutation_def owned_def split: option.splits)

interpretation register_conserves: conserving_mutation c "\<lambda>s. waiter_live c now waiter" now
  "register_mutation waiter" op
  by unfold_locales (auto simp: register_mutation_def owned_def Let_def split: if_splits)

interpretation acquire_conserves: conserving_mutation c
  "\<lambda>s. lease_live c now lease \<and> l_ID lease \<notin> l_ID ` set (Leases s) \<and>
       l_OperationID lease \<notin> l_OperationID ` set (Leases s)" now "acquire_mutation lease capacity green" op
  by unfold_locales (auto simp: acquire_mutation_def owned_def Let_def split: list.splits if_splits)

interpretation bind_conserves: conserving_mutation c "\<lambda>s. 0 < pid \<and> TrimSpace owner \<noteq> []" now
  "bind_mutation leaseID pid owner" op
proof (unfold_locales, goal_cases)
  case (1 s ledger s' ledger' res)
  have l: "\<forall>l \<in> set (Leases s). lease_live c now l" using 1(1) by (simp add: live_state_iff)
  show ?case
  proof (cases "bind_lease leaseID pid owner (Leases s)")
    case None
    then show ?thesis using 1(3,4) by (simp add: bind_mutation_def)
  next
    case (Some ls)
    from owned_map_leases [OF bind_lease_ok(2) [OF Some l]] 1(2-4) Some show ?thesis
      by (auto simp: bind_mutation_def)
  qed
qed

interpretation park_conserves: conserving_mutation c "\<lambda>s. True" now "parkWorkLeaseRecord leaseID parked stamp" op
proof (unfold_locales, goal_cases)
  case (1 s ledger s' ledger' res)
  obtain pinned where e: "s' = s\<lparr> Leases := fst (park_lease pinned leaseID parked stamp (Leases s)) \<rparr>"
    using 1(4) by (simp add: parkWorkLeaseRecord_def Let_def split_beta) metis
  have "\<forall>l \<in> set (Leases s). lease_live c now l" using 1(1) by (simp add: live_state_iff)
  from owned_map_leases [OF park_lease_ok(2) [OF this]] 1(3) show ?case by (simp add: e)
qed

interpretation reserve_conserves: conserving_mutation c
  "\<lambda>s. waiter_live c now waiter \<and> w_OperationID waiter = l_OperationID lease" now "reserve_mutation lease waiter" op
proof (unfold_locales, goal_cases)
  case (1 s ledger s' ledger' res)
  show ?case
  proof (cases "s' = s")
    case True
    then show ?thesis using 1(3) by simp
  next
    case False
    with 1(4) obtain f where f: "find (\<lambda>l. l_ID l = l_ID lease) (Leases s) = Some f"
      "l_OperationID f = l_OperationID lease"
      and s': "s' = s\<lparr> Leases := filter (\<lambda>l. l_ID l \<noteq> l_ID lease) (Leases s),
                       Waiters := sort_key queue_key (Waiters s @ [waiter]) \<rparr>"
      by (auto simp: reserve_mutation_def split: if_splits option.splits)
    have "inj_on l_ID (set (Leases s))" using 1(1) by (simp add: live_state_iff distinct_map)
    then have "k = f" if "k \<in> set (Leases s)" "l_ID k = l_ID lease" for k
      using find_member [OF f(1)] that by (metis inj_onD)
    then have "owned s \<subseteq> owned s'" using f(2) 1(2) by (auto simp: owned_def s')
    then show ?thesis using 1(3) by blast
  qed
qed

interpretation cancel_conserves: conserving_mutation c "\<lambda>s. op \<noteq> operationID" now "cancel_mutation t operationID" op
proof (unfold_locales, goal_cases)
  case (1 s ledger s' ledger' res)
  then show ?case by (auto simp: cancel_mutation_def intro: live_filter_waiters)
qed (auto simp: cancel_mutation_def owned_def)

interpretation drop_conserves: conserving_mutation c "\<lambda>s. op \<noteq> operationID" now "drop_mutation x operationID" op
proof (unfold_locales, goal_cases)
  case (1 s ledger s' ledger' res)
  then show ?case by (auto intro: drop.keeps)
next
  case (3 s ledger s' ledger' res)
  then show ?case by (auto simp: drop_mutation_def owned_def split: option.splits sum.splits)
qed simp

interpretation release_conserves: conserving_mutation c
  "\<lambda>s. \<forall>l \<in> set (Leases s). l_ID l = leaseID \<longrightarrow> l_OperationID l \<noteq> op" now "release_mutation leaseID" op
proof (unfold_locales, goal_cases)
  case (1 s ledger s' ledger' res)
  then show ?case by (auto simp: release_mutation_def intro: live_filter_leases)
next
  case (2 s x ledger ledger' r)
  then show ?case by (auto simp: reconcile_records [OF 2(2)])
next
  case (3 s ledger s' ledger' res)
  then show ?case by (auto simp: release_mutation_def owned_def)
qed

lemma admit_owned:
  assumes "i < length (Waiters s)" "map w_OperationID ws = map w_OperationID (Waiters s)"
    and "w_OperationID (Waiters s ! i) = l_OperationID lease"
  shows "w_OperationID ` set (Waiters s) \<subseteq> insert (l_OperationID lease) (w_OperationID ` set (remove_at i ws))"
proof -
  let ?ids = "map w_OperationID ws"
  have i: "i < length ?ids" "?ids ! i = l_OperationID lease"
    using assms by (metis length_map, metis nth_map)
  have "set ?ids = set (take i ?ids @ ?ids ! i # drop (Suc i) ?ids)" by (simp only: id_take_nth_drop [OF i(1), symmetric])
  also have "\<dots> = insert (l_OperationID lease) (set (remove_at i ?ids))" using i(2) by (auto simp: remove_at_def)
  finally have "set (map w_OperationID (Waiters s)) = insert (l_OperationID lease) (set (map w_OperationID (remove_at i ws)))"
    using assms(2) by (simp only: remove_at_map)
  then show ?thesis by simp
qed

interpretation admit_conserves: conserving_mutation c "admission_pre c now lease" now
  "tryAcquire_mutation c now lease capacity green" op
proof (unfold_locales, goal_cases)
  case (1 s ledger s' ledger' res)
  show ?case
  proof (cases "index_of (l_OperationID lease) (Waiters s)")
    case None
    with 1(3,4) show ?thesis by (simp add: tryAcquire_mutation_def)
  next
    case (Some i)
    let ?cap = "Capacity (coordinator_limits c)"
    let ?t = "touch_waiter i ?cap now s"
    let ?sel = "selectStateWaiter c ?t (usedWeight (Leases s)) capacity now green"
    let ?ws = "charge_bypasses now (BypassedIndexes ?sel) (Waiters ?t)"
    from index_of_Some [OF Some] have i: "i < length (Waiters s)" "w_OperationID (Waiters s ! i) = l_OperationID lease"
      by simp_all
    have t: "live_state c now ?t" using 1(2) by (intro touch_live [OF 1(1) i(1)]) (simp add: admission_pre_def)
    have ids: "map w_OperationID ?ws = map w_OperationID (Waiters s)"
      using charge_bypasses_live(1) [OF t refl] touch_ids [OF i(1), of ?cap now] by simp
    have touched: "owned ?t = owned s"
      using touch_ids [OF i(1), of ?cap now] by (simp add: owned_def touch_waiter_def) (metis list.set_map)
    have leases: "Leases ?t = Leases s" by (simp add: touch_waiter_def)
    consider "s' = ?t" | shadow where "s' = admit_waiter i (lease\<lparr> l_QueuedAt := w_QueuedAt (Waiters s ! i) \<rparr>) ?sel shadow now ?t"
      using 1(4) Some by (auto simp: tryAcquire_mutation_def Let_def split: if_splits)
    then show ?thesis
    proof cases
      case 1
      then show ?thesis using \<open>op \<in> owned s\<close> touched by simp
    next
      case 2
      have "owned s' = insert (l_OperationID lease) (l_OperationID ` set (Leases s) \<union> w_OperationID ` set (remove_at i ?ws))"
        by (simp add: 2 owned_def admit_waiter_def Let_def leases)
      then show ?thesis using \<open>op \<in> owned s\<close> admit_owned [OF i(1) ids i(2)] by (auto simp: owned_def)
    qed
  qed
qed


section \<open>Every operation\<close>

fun gives_up :: "operation \<Rightarrow> store \<Rightarrow> string \<Rightarrow> bool" where
  "gives_up (OpRelease lease) st op \<longleftrightarrow>
     (\<exists>l \<in> set (stored_leases st). l_ID l = l_ID (hl_Record lease) \<and> l_OperationID l = op)"
| "gives_up (OpCancel waiter) st op \<longleftrightarrow> hw_OperationID waiter = op"
| "gives_up (OpDrop dropped) st op \<longleftrightarrow> TrimSpace dropped = op"
| "gives_up _ st op \<longleftrightarrow> False"

lemma status_conserves:
  assumes "store_ok c now st" and "host_ok now x" and "op \<in> set (live_operations x st)"
  shows "op \<in> set (stored_operations (fst (Status c x st)))"
proof -
  note t = host_ok_times [OF assms(2)]
  obtain s0 where s0: "readState (st_File st) = Inr s0" "wf_state c now s0" "in_past now s0"
    "6 \<le> SchemaVersion s0" "SchemaVersion s0 \<le> 8"
    using assms(1) by (auto simp: store_ok_def)
  have same: "op \<in> set (stored_operations (st\<lparr> st_Ledger := l \<rparr>))" "op \<in> set (stored_operations st)" for l
    using assms(3) live_operations_stored [of x st]
    by (auto simp: stored_operations_def stored_leases_def stored_waiters_def)
  obtain ledger1 res where rc: "reconcile c x s0 (st_Ledger st) = (ledger1, res)" by fastforce
  show ?thesis
  proof (cases res)
    case (Inl err)
    then show ?thesis using same rc s0(1) by (simp add: Status_def withState_def)
  next
    case (Inr r)
    note rc' = rc [unfolded Inr]
    from live_operations_reconciled [OF rc' s0(1) assms(3)]
      stored_operations_saved [OF reconcile_live [OF rc' s0(2-5) t(6)]] same rc Inr s0(1)
    show ?thesis by (simp add: Status_def withState_def Let_def)
  qed
qed

lemma acquire_op_conserves:
  assumes "store_ok c now st" and "host_ok now x" and live: "op \<in> set (live_operations x st)"
    and "fresh_random x st" "new \<notin> l_OperationID ` set (stored_leases st)"
  shows "op \<in> set (stored_operations (fst (AcquireOperationWithCapacity c x class new capacity st)))"
proof (cases "newLeaseRecord c x class new")
  case (Inl err)
  then show ?thesis using subsetD [OF live_operations_stored live] by (auto simp: AcquireOperationWithCapacity_def)
next
  case (Inr l)
  note r = newLeaseRecord_live [OF Inr assms(2)]
  have "op \<in> set (stored_operations (fst (transact c x (acquire_mutation l cap green) st)))" for cap green
    by (rule acquire_conserves.transact_conserves [OF assms(1) host_ok_times(4) [OF assms(2)] refl _ live])
      (use assms(4,5) r in \<open>auto simp: fresh_random_def stored_pre\<close>)
  then show ?thesis using Inr
    by (simp add: AcquireOperationWithCapacity_def Let_def split_beta split: sum.splits)
qed

lemma try_op_conserves:
  assumes "store_ok c now st" and "host_ok now x" and live: "op \<in> set (live_operations x st)" and "fresh_random x st"
  shows "op \<in> set (stored_operations (fst (TryAcquireWithCapacity c x waiter capacity st)))"
proof (cases "hw_Cancelled waiter \<or> isl (newLeaseRecord c x (hw_Class waiter) (hw_OperationID waiter))")
  case True
  then show ?thesis using subsetD [OF live_operations_stored live] by (auto simp: TryAcquireWithCapacity_def isl_def)
next
  case False
  then obtain l where r: "newLeaseRecord c x (hw_Class waiter) (hw_OperationID waiter) = Inr l"
    by (metis isl_def sum.exhaust)
  have "op \<in> set (stored_operations (fst (transact c x
      (tryAcquire_mutation c (x_Clock x AtMutate) l cap green) st)))" for cap green
    by (rule admit_conserves.transact_conserves [OF assms(1) host_ok_times(4) [OF assms(2)] refl _ live])
      (rule try_pre [OF assms(1,2,4) r])
  then show ?thesis using r False
    by (simp add: TryAcquireWithCapacity_def Let_def split_beta split: sum.splits)
qed

lemma register_op_conserves:
  assumes "store_ok c now st" and "host_ok now x" and live: "op \<in> set (live_operations x st)"
  shows "op \<in> set (stored_operations (fst (RegisterWaiter c x class new st)))"
proof -
  have "op \<in> set (stored_operations (fst (transact c x (register_mutation (new_waiter c x class new weight owner)) st)))"
    if "coordinator_weight c class = Some weight" "validPrivateID new" "identityForPID x (c_PID c) = Inr owner"
    for weight owner
    by (rule register_conserves.transact_conserves [OF assms(1) host_ok_times(4) [OF assms(2)] refl _ live])
      (rule new_waiter_live [OF that assms(2)])
  then show ?thesis using subsetD [OF live_operations_stored live]
    by (auto simp: RegisterWaiter_def split_beta split: option.splits sum.splits)
qed

lemma reserve_op_conserves:
  assumes "store_ok c now st" and "host_ok now x" and live: "op \<in> set (live_operations x st)"
    and "lease_live c now (hl_Record lease)"
  shows "op \<in> set (stored_operations (fst (ReserveForPressure c x lease st)))"
proof -
  have "op \<in> set (stored_operations (fst (transact c x
      (reserve_mutation (hl_Record lease) (reservation_waiter c x (hl_Record lease) owner)) st)))"
    if "identityForPID x (c_PID c) = Inr owner" for owner
    by (rule reserve_conserves.transact_conserves [OF assms(1) host_ok_times(4) [OF assms(2)] refl _ live])
      (use reservation_waiter_live [OF assms(4) that assms(2)] in auto)
  then show ?thesis using subsetD [OF live_operations_stored live]
    by (auto simp: ReserveForPressure_def Let_def split_beta split: option.splits sum.splits)
qed

lemma hold_op_conserves:
  assumes "store_ok c now st" and "host_ok now x" and live: "op \<in> set (live_operations x st)"
  shows "op \<in> set (stored_operations (fst (HoldAdmission c x held class ob st)))"
proof -
  have same: "op \<in> set (stored_operations st)" by (rule subsetD [OF live_operations_stored live])
  have "op \<in> set (stored_operations
      (fst (transact c x (HoldAdmission_mutation c held class weight owner (x_Clock x AtRecord) ob) st)))"
    if "coordinator_weight c class = Some weight" "validPrivateID held" "TrimSpace owner \<noteq> []" for weight owner
  proof (cases "validate c")
    case True
    then have "0 < c_PID c" by (simp add: validate_def)
    show ?thesis
      by (rule hold_conserves.transact_conserves [OF assms(1) host_ok_times(4) [OF assms(2)] refl _ live])
        (rule new_hold_live [OF that \<open>0 < c_PID c\<close> assms(2)])
  next
    case False
    then show ?thesis using same by (simp add: transact_invalid)
  qed
  then show ?thesis using same by (simp add: HoldAdmission_def split_beta split: option.splits)
qed

lemma bind_op_conserves:
  assumes "store_ok c now st" and "host_ok now x" and live: "op \<in> set (live_operations x st)"
  shows "op \<in> set (stored_operations (fst (BindPID c x lease pid st)))"
proof -
  have "op \<in> set (stored_operations (fst (transact c x (bind_mutation (l_ID (hl_Record lease)) pid owner) st)))"
    if "identityForPID x pid = Inr owner" for owner
    by (rule bind_conserves.transact_conserves [OF assms(1) host_ok_times(4) [OF assms(2)] refl _ live])
      (use identityForPID_ok [OF that] in simp)
  then show ?thesis using subsetD [OF live_operations_stored live] by (auto simp: BindPID_def split_beta split: sum.splits)
qed

lemma step_conserves:
  assumes "store_ok c now st" and "host_ok now x" and "proper c now x oper st" and "\<not> gives_up oper st op"
    and live: "op \<in> set (live_operations x st)"
  shows "op \<in> set (stored_operations (exec c x oper st))"
proof -
  have same: "op \<in> set (stored_operations st)" by (rule subsetD [OF live_operations_stored live])
  note base = assms(1,2) live
  note pre = assms(1) host_ok_times(4) [OF assms(2)] refl
  note park = park_conserves.transact_conserves [OF pre TrueI live]
    and clear = clear_conserves.transact_conserves [OF pre TrueI live]
    and unhold = unhold_conserves.transact_conserves [OF pre TrueI live]
    and latch = latch_conserves.transact_conserves [OF pre TrueI live]
    and override = override_conserves.transact_conserves [OF pre TrueI live]
    and cancel = cancel_conserves.transact_conserves [OF pre _ live]
    and drop = drop_conserves.transact_conserves [OF pre _ live]
    and release = release_conserves.transact_conserves [OF pre _ live]
  show ?thesis
  proof (cases oper)
    case (OpRelease lease)
    have "op \<in> set (stored_operations (fst (transact c x (release_mutation (l_ID (hl_Record lease))) st)))"
      by (rule release) (use assms(4) OpRelease in \<open>auto simp: stored_pre\<close>)
    then show ?thesis using OpRelease same by (simp add: Release_def split_beta split: sum.splits)
  next
    case (OpCancel waiter)
    then show ?thesis using same cancel assms(4) by (simp add: Cancel_def split_beta split: sum.splits)
  next
    case (OpDrop dropped)
    then show ?thesis using same drop assms(4) by (auto simp: DropLease_def Let_def)
  next
    case (OpPark lease parked stamp)
    then show ?thesis using same park by (simp add: SetParked_def Let_def split_beta split: sum.splits)
  next
    case (OpPrioritize op)
    then show ?thesis using override same
      by (simp add: PrioritizeWaiter_def overrideWaiters_def split_beta split: sum.splits option.splits)
  next
    case OpClear
    then show ?thesis using clear by (simp add: ClearWaiterOverride_def)
  next
    case (OpUnhold op)
    then show ?thesis using same unhold by (simp add: ReleaseAdmission_def split_beta)
  next
    case (OpLatch ob)
    then show ?thesis using latch by (simp add: ObserveAdmissionLatch_def split_beta)
  qed (use same override assms(3) status_conserves [OF base] bind_op_conserves [OF base] register_op_conserves [OF base]
       hold_op_conserves [OF base] acquire_op_conserves [OF base] try_op_conserves [OF base] reserve_op_conserves [OF base]
       in \<open>simp_all add: OverrideWaiters_def OverrideAllWaiters_def overrideWaiters_def split: option.splits\<close>)
qed

text \<open>
  Claim C3. Nobody live is lost: in any reachable store, an operation that is leased or queued by a process
  that is alive and unreplaced is still leased or queued after any operation of any process, whether that
  operation succeeds or fails, unless it is the operation's own release, cancellation or an operator's
  drop of it. A queued operation may become leased, and a lease a pressure reservation, but
  no step in between leaves it with neither.
\<close>

theorem live_operation_never_lost:
  assumes "reachable allowed c now st" and "host_ok now x"
    and "proper (c\<lparr> c_PID := pid \<rparr>) now x oper st" and "\<not> gives_up oper st op"
    and "op \<in> set (live_operations x st)"
  shows "op \<in> set (stored_operations (exec (c\<lparr> c_PID := pid \<rparr>) x oper st))"
  by (rule step_conserves [OF _ assms(2-5)]) (simp add: reachable_ok [OF assms(1)])

theorem live_operation_never_lost_witness:
  "sample_id CHR ''a'' \<in> set (stored_operations
     (exec (sample_coordinator\<lparr> c_PID := 9 \<rparr>) (sample_host 8) (OpRegister WorkClassBuild (sample_id CHR ''b''))
        sample_admitted))"
proof -
  have h: "host_ok 6 (sample_host 8)" using host_ok_later [OF sample_host_ok [of 8], of 6] by simp
  have l: "sample_id CHR ''a'' \<in> set (live_operations (sample_host 8) sample_admitted)" by code_simp
  show ?thesis
    by (rule live_operation_never_lost [OF sample_reachable h _ _ l]) simp_all
qed

end
