(* ===== verification/Work_Status.thy ===== *)
theory Work_Status
  imports Work_Ownership
begin

text \<open>
  The status projection of the coordinator (\<^verbatim>\<open>WorkCoordinator.status\<close>, worklease.go): what every
  transaction returns to its caller and what operators see. It is computed from the state the
  transaction ended with, at the clock of the projection. The three columns of a selection are kept
  together as the selection itself, and the fixed review text is the review flag.
\<close>

section \<open>The projection\<close>

record WorkLeaseStatus =
  ls_ID :: string
  ls_OperationID :: string
  ls_Class :: WorkClass
  ls_Weight :: int
  ls_PID :: int
  ls_StartedAt :: time
  ls_AgeMS :: int
  ls_Review :: bool
  ls_Parked :: bool
  ls_ParkedAt :: "time option"

record WorkWaiterStatus =
  ws_OperationID :: string
  ws_Class :: WorkClass
  ws_Weight :: int
  ws_PID :: int
  ws_QueuedAt :: time
  ws_HeartbeatAt :: time
  ws_Position :: nat
  ws_WaitMS :: int
  ws_BypassCount :: int
  ws_Protected :: bool
  ws_ProtectionReason :: string
  ws_ReservationKind :: string
  ws_ReservedAt :: "time option"
  ws_OverridePosition :: nat

record WorkStatus =
  s_SchemaVersion :: int
  s_Capacity :: int
  s_Used :: int
  s_Available :: int
  s_ParkedWeight :: int
  s_Leases :: "WorkLeaseStatus list"
  s_Waiters :: "WorkWaiterStatus list"
  s_QueueDepth :: nat
  s_Pruned :: int
  s_PrunedWaiters :: int
  s_StatePath :: string
  s_SchedulingPolicy :: string
  s_SelectorSchemaVersion :: int
  s_Selection :: workSelection
  s_BypassedCount :: nat
  s_CandidateSchedulingPolicy :: string
  s_ShadowSelection :: workSelection
  s_OverrideOperationID :: string
  s_OverrideRequestedAt :: "time option"
  s_OverrideQueue :: "string list"
  s_OverrideQueueDepth :: nat
  s_PressureReservationCount :: nat
  s_ReservedWeight :: int
  s_AdmissionHolds :: "WorkAdmissionHoldStatus list"
  s_AdmissionHoldCount :: nat
  s_PrunedAdmissionHolds :: int
  s_LongestAdmissionHold :: int
  s_AdmissionLatch :: "WorkAdmissionLatch option"

definition WorkFiniteLeaseReviewAge :: duration where
  "WorkFiniteLeaseReviewAge = seconds (15 * 60)"

definition statePath :: "WorkCoordinator \<Rightarrow> string" where
  "statePath c = c_Dir c @ ''/work-leases.json''"

definition lease_status :: "time \<Rightarrow> WorkLeaseRecord \<Rightarrow> WorkLeaseStatus" where
  "lease_status now l =
     (let age = max 0 (time_sub now (l_StartedAt l)) in
      \<lparr> ls_ID = l_ID l, ls_OperationID = l_OperationID l, ls_Class = l_Class l, ls_Weight = l_Weight l,
        ls_PID = l_PID l, ls_StartedAt = l_StartedAt l, ls_AgeMS = duration_ms age,
        ls_Review = (age \<ge> WorkFiniteLeaseReviewAge),
        ls_Parked = (l_ParkedAt l \<noteq> None), ls_ParkedAt = l_ParkedAt l \<rparr>)"

definition displayed_protection :: "WorkCoordinator \<Rightarrow> time \<Rightarrow> workState \<Rightarrow> WorkWaiterRecord \<Rightarrow> string option" where
  "displayed_protection c now s w =
     (if w_OperationID w = OverrideOperationID s then Some ''priority_override''
      else if pin_position (workOverridePositions s) (w_OperationID w) > 0 then Some ''priority_override_queued''
      else workWaiterProtection w (Capacity (coordinator_limits c)) now)"

definition waiter_status :: "WorkCoordinator \<Rightarrow> time \<Rightarrow> workState \<Rightarrow> nat \<Rightarrow> WorkWaiterRecord \<Rightarrow> WorkWaiterStatus" where
  "waiter_status c now s index w =
     (let protection = displayed_protection c now s w in
      \<lparr> ws_OperationID = w_OperationID w, ws_Class = w_Class w, ws_Weight = w_Weight w, ws_PID = w_PID w,
        ws_QueuedAt = w_QueuedAt w, ws_HeartbeatAt = w_HeartbeatAt w, ws_Position = index + 1,
        ws_WaitMS = max 0 (duration_ms (time_sub now (w_QueuedAt w))), ws_BypassCount = w_BypassCount w,
        ws_Protected = (protection \<noteq> None),
        ws_ProtectionReason = (case protection of None \<Rightarrow> [] | Some reason \<Rightarrow> reason),
        ws_ReservationKind = w_ReservationKind w, ws_ReservedAt = w_ReservedAt w,
        ws_OverridePosition = pin_position (workOverridePositions s) (w_OperationID w) \<rparr>)"

definition status :: "WorkCoordinator \<Rightarrow> time \<Rightarrow> workState \<times> int \<times> int \<Rightarrow> WorkStatus" where
  "status c now view =
     (case view of (s, prunedLeases, prunedWaiters) \<Rightarrow>
       (let capacity = Capacity (coordinator_limits c);
            records = sort_key (\<lambda>l. (l_StartedAt l, l_ID l)) (Leases s);
            used = usedWeight records;
            parked = sum_list (map l_Weight (filter (\<lambda>l. l_ParkedAt l \<noteq> None) records));
            waiters = map (\<lambda>(i, w). waiter_status c now s i w) (enumerate 0 (Waiters s));
            reserved = filter (\<lambda>w. w_ReservationKind w = WorkReservationPressure) (Waiters s);
            holds = admissionHoldStatuses s now;
            fifo = (schedulingPolicy c = WorkSchedulingPolicyFIFO);
            shadow = (if \<not> fifo then no_selection
                      else if SelectedOperationID (lastShadowSelection s) \<noteq> [] then lastShadowSelection s
                      else selectWorkWaiter (Waiters s) used capacity now no_green 0);
            selection = (if SelectedOperationID (lastSelection s) \<noteq> [] then lastSelection s
                         else selectStateWaiter c s used capacity now no_green)
        in \<lparr> s_SchemaVersion = SchemaVersion s, s_Capacity = capacity, s_Used = used,
             s_Available = max 0 (capacity - used), s_ParkedWeight = parked,
             s_Leases = map (lease_status now) records, s_Waiters = waiters, s_QueueDepth = length waiters,
             s_Pruned = prunedLeases, s_PrunedWaiters = prunedWaiters, s_StatePath = statePath c,
             s_SchedulingPolicy = schedulingPolicy c, s_SelectorSchemaVersion = workSelectorSchemaVersion,
             s_Selection = selection, s_BypassedCount = length (BypassedIndexes selection),
             s_CandidateSchedulingPolicy = (if fifo then WorkSchedulingPolicy else []),
             s_ShadowSelection = shadow,
             s_OverrideOperationID = OverrideOperationID s, s_OverrideRequestedAt = OverrideRequestedAt s,
             s_OverrideQueue = OverrideQueue s, s_OverrideQueueDepth = length (workOverridePositions s),
             s_PressureReservationCount = length reserved,
             s_ReservedWeight = sum_list (map w_Weight reserved),
             s_AdmissionHolds = holds, s_AdmissionHoldCount = length holds,
             s_PrunedAdmissionHolds = prunedAdmissionHolds s,
             s_LongestAdmissionHold = fold (\<lambda>h. max (hs_HeldForMS h)) holds 0,
             s_AdmissionLatch = AdmissionLatch s \<rparr>))"

definition coordinatorFreeCapacity :: "WorkCoordinator \<Rightarrow> host_env \<Rightarrow> store \<Rightarrow> store \<times> int option" where
  "coordinatorFreeCapacity c x st =
     (case Status c x st of
        (st', Inr _, Some view) \<Rightarrow> (st', Some (s_Available (status c (x_Clock x AtStatus) view)))
      | (st', _, _) \<Rightarrow> (st', None))"


section \<open>What it shows\<close>

lemma sum_list_perm_sort_key:
  fixes f :: "'a \<Rightarrow> int"
  shows "sum_list (map f (sort_key k xs)) = sum_list (map f xs)"
proof -
  have "mset (map f (sort_key k xs)) = mset (map f xs)" by simp
  then show ?thesis by (metis sum_mset_sum_list)
qed

lemma charged_plus_parked:
  "usedWeight ls + sum_list (map l_Weight (filter (\<lambda>l. l_ParkedAt l \<noteq> None) ls)) = sum_list (map l_Weight ls)"
  by (induction ls) (auto simp: chargedWeight_def)

lemma usedWeight_sort_key: "usedWeight (sort_key k ls) = usedWeight ls"
  by (simp add: usedWeight_def sum_list_perm_sort_key)

text \<open>
  The status a transaction returns accounts for every lease and waiter of its state exactly once: the
  charged and the parked weight add up to the weight of all leases, the available weight is what the
  ceiling leaves (never negative), the waiters appear in queue order with consecutive positions, and
  every pinned operation is shown as protected.
\<close>

theorem status_accounts:
  "s_Used (status c now (s, pl, pw)) = usedWeight (Leases s) \<and>
   s_Used (status c now (s, pl, pw)) + s_ParkedWeight (status c now (s, pl, pw)) =
     sum_list (map l_Weight (Leases s)) \<and>
   s_Available (status c now (s, pl, pw)) = max 0 (Capacity (coordinator_limits c) - usedWeight (Leases s)) \<and>
   mset (map ls_ID (s_Leases (status c now (s, pl, pw)))) = mset (map l_ID (Leases s)) \<and>
   sorted (map (\<lambda>l. (ls_StartedAt l, ls_ID l)) (s_Leases (status c now (s, pl, pw)))) \<and>
   map ws_OperationID (s_Waiters (status c now (s, pl, pw))) = map w_OperationID (Waiters s) \<and>
   map ws_Position (s_Waiters (status c now (s, pl, pw))) = [1..<Suc (length (Waiters s))] \<and>
   list_all (\<lambda>w. ws_OverridePosition w = 0 \<or> ws_Protected w) (s_Waiters (status c now (s, pl, pw)))"
proof -
  let ?k = "\<lambda>l. (l_StartedAt l, l_ID l)"
  let ?st = "status c now (s, pl, pw)"
  have used: "s_Used ?st = usedWeight (Leases s)" by (simp add: status_def Let_def usedWeight_sort_key)
  have parked: "s_ParkedWeight ?st = sum_list (map l_Weight (filter (\<lambda>l. l_ParkedAt l \<noteq> None) (sort_key ?k (Leases s))))"
    by (simp add: status_def Let_def)
  have both: "s_Used ?st + s_ParkedWeight ?st = sum_list (map l_Weight (Leases s))"
    using charged_plus_parked [of "sort_key ?k (Leases s)"]
    by (simp add: used parked usedWeight_sort_key sum_list_perm_sort_key)
  have leases: "s_Leases ?st = map (lease_status now) (sort_key ?k (Leases s))" by (simp add: status_def Let_def)
  have ids: "map ls_ID (s_Leases ?st) = map l_ID (sort_key ?k (Leases s))"
    "map (\<lambda>l. (ls_StartedAt l, ls_ID l)) (s_Leases ?st) = map ?k (sort_key ?k (Leases s))"
    by (simp_all add: leases lease_status_def Let_def)
  have waiters: "s_Waiters ?st = map (\<lambda>(i, w). waiter_status c now s i w) (enumerate 0 (Waiters s))"
    by (simp add: status_def Let_def)
  have op: "map ws_OperationID (s_Waiters ?st) = map w_OperationID (map snd (enumerate 0 (Waiters s)))"
    by (simp add: waiters waiter_status_def Let_def split_beta del: map_snd_enumerate)
  have pos: "map ws_Position (s_Waiters ?st) = map Suc (map fst (enumerate 0 (Waiters s)))"
    by (simp add: waiters waiter_status_def Let_def split_beta del: map_fst_enumerate)
  have protect: "list_all (\<lambda>w. ws_OverridePosition w = 0 \<or> ws_Protected w) (s_Waiters ?st)"
    by (auto simp: waiters list_all_iff waiter_status_def Let_def displayed_protection_def split: if_splits)
  have avail: "s_Available ?st = max 0 (Capacity (coordinator_limits c) - usedWeight (Leases s))"
    by (simp add: status_def Let_def usedWeight_sort_key)
  have ms: "mset (map ls_ID (s_Leases ?st)) = mset (map l_ID (Leases s))" unfolding ids(1) by simp
  have ord: "sorted (map (\<lambda>l. (ls_StartedAt l, ls_ID l)) (s_Leases ?st))"
    unfolding ids(2) by (rule sorted_sort_key)
  have "map ws_Position (s_Waiters ?st) = [1..<Suc (length (Waiters s))]"
    unfolding pos map_fst_enumerate by (simp add: map_Suc_upt)
  then show ?thesis using used both avail ms ord op protect by simp
qed

end
