(* ===== verification/Pressure_Policy.thy ===== *)
theory Pressure_Policy
  imports Work_Limits Pressure_Level
begin

text \<open>
  The operator policy (\<^verbatim>\<open>sessionpressure/policy.go\<close> and \<^verbatim>\<open>sessionpressure/policy_profiles.go\<close>):
  its blocks, the shipped defaults, validation, the migrations that loading a policy file
  applies, and the named profiles. \<^verbatim>\<open>runtime.NumCPU()\<close> is the argument \<open>ncpu\<close>. Percentages,
  sizes in megabytes and rates are Go floats that the policy code only compares and scales by
  fixed fractions; they are rationals here. A policy file is what reading and decoding it
  gives: it is missing, unreadable, not a policy, or a policy whose absent fields are zero.
\<close>

section \<open>The policy record\<close>

record Thresholds =
  HostCPUWarningPercent :: rat
  HostCPURedPercent :: rat
  FreeWarningPercent :: rat
  FreeRedPercent :: rat
  FreeCriticalPercent :: rat
  SwapWarningMB :: rat
  SwapRedMB :: rat
  SwapCriticalMB :: rat
  SwapOutWarningMBPerSecond :: rat
  SwapOutThrashMBPerSecond :: rat
  SwapOutReleaseMBPerSecond :: rat
  TreeWarningMB :: rat
  TreeRedMB :: rat
  TreeCriticalMB :: rat
  AgentTotalWarningMB :: rat
  AgentTotalRedMB :: rat
  AgentTotalCriticalMB :: rat

record StoragePolicy =
  st_Enabled :: bool
  st_EnforceAdmission :: bool
  WarningFreeBytes :: int
  RedFreeBytes :: int
  CriticalFreeBytes :: int
  WarningReleaseBytes :: int
  RedReleaseBytes :: int
  CriticalReleaseBytes :: int
  TargetFreeBytes :: int
  ProviderMinAgeSeconds :: int
  ReclaimCooldownSeconds :: int
  WorkWaitGraceSeconds :: int
  st_BlockNewAt :: Level

record DiskWritePolicy =
  dw_Enabled :: bool
  NotificationsEnabled :: bool
  dw_SampleIntervalSeconds :: int
  BaselineRetentionDays :: int
  dw_Profile :: string
  TraceMaxDurationSeconds :: int

record LaunchAdmissionPolicy =
  la_Mode :: string
  la_QueueDepthBlock :: int
  la_OldestWaitBlockSeconds :: int
  la_ResumeBehavior :: string

record ResourceBudgets =
  MaxSelfRSSMB :: rat
  MaxIdleCPUPercent :: rat
  MaxPressureCPUPercent :: rat
  MaxSampleDurationMS :: rat
  MaxSampleCPUTimeMS :: rat
  MaxTelemetryBytesDay :: int

record Policy =
  po_SchemaVersion :: int
  po_Profile :: string
  po_Enabled :: bool
  po_EnforceAdmission :: bool
  po_AutoShedCritical :: bool
  po_SampleIntervalSeconds :: int
  PressureSampleIntervalSeconds :: int
  CriticalSampleIntervalSeconds :: int
  ProcessInventoryIntervalSeconds :: int
  HeartbeatSeconds :: int
  SustainSamples :: int
  CriticalSustainSamples :: int
  ActionCooldownSeconds :: int
  CandidateMinAgeSeconds :: int
  CandidateMaxCPUPercent :: rat
  RetentionDays :: int
  BlockNewAt :: Level
  po_Thresholds :: Thresholds
  po_ResourceBudgets :: ResourceBudgets
  po_WorkLimits :: WorkLimits
  po_LaunchAdmission :: LaunchAdmissionPolicy
  po_Storage :: StoragePolicy
  po_DiskWrite :: DiskWritePolicy

definition SchemaVersion :: int where
  "SchemaVersion = 1"

fun IntervalSeconds :: "Policy \<Rightarrow> Level \<Rightarrow> int" where
  "IntervalSeconds policy LevelCritical = CriticalSampleIntervalSeconds policy"
| "IntervalSeconds policy LevelWarning = PressureSampleIntervalSeconds policy"
| "IntervalSeconds policy LevelRed = PressureSampleIntervalSeconds policy"
| "IntervalSeconds policy _ = po_SampleIntervalSeconds policy"

definition DiskWriteProfileQuietAdaptiveV1 :: string where
  "DiskWriteProfileQuietAdaptiveV1 = ''quiet-adaptive-v1''"

definition LaunchAdmissionModeSoft :: string where
  "LaunchAdmissionModeSoft = ''soft''"

definition LaunchAdmissionModeOff :: string where
  "LaunchAdmissionModeOff = ''off''"

definition LaunchResumeBehaviorWarn :: string where
  "LaunchResumeBehaviorWarn = ''warn''"

definition LaunchResumeBehaviorBlock :: string where
  "LaunchResumeBehaviorBlock = ''block''"

definition defaultOldestLaunchWaitSecond :: int where
  "defaultOldestLaunchWaitSecond = 120"

definition minIdleParkSeconds :: int where
  "minIdleParkSeconds = 30"

definition minSwapThrashExternalReleaseSeconds :: int where
  "minSwapThrashExternalReleaseSeconds = 60"

definition PolicyProfileBalanced :: string where
  "PolicyProfileBalanced = ''balanced''"

definition PolicyProfileThroughput :: string where
  "PolicyProfileThroughput = ''throughput''"

definition PolicyProfileInteractive :: string where
  "PolicyProfileInteractive = ''interactive''"

definition PolicyProfileObserve :: string where
  "PolicyProfileObserve = ''observe''"

definition PolicyProfileMultiAgentSoft :: string where
  "PolicyProfileMultiAgentSoft = ''multi-agent-soft''"

definition PolicyProfileDailyDriverEnforce :: string where
  "PolicyProfileDailyDriverEnforce = ''daily-driver-enforce''"

lemmas policy_constants =
  SchemaVersion_def DiskWriteProfileQuietAdaptiveV1_def LaunchAdmissionModeSoft_def
  LaunchAdmissionModeOff_def LaunchResumeBehaviorWarn_def LaunchResumeBehaviorBlock_def
  defaultOldestLaunchWaitSecond_def minIdleParkSeconds_def minSwapThrashExternalReleaseSeconds_def

lemmas profile_names =
  PolicyProfileBalanced_def PolicyProfileThroughput_def PolicyProfileInteractive_def
  PolicyProfileObserve_def PolicyProfileMultiAgentSoft_def PolicyProfileDailyDriverEnforce_def


section \<open>Defaults\<close>

definition defaultDiskWritePolicy :: DiskWritePolicy where
  "defaultDiskWritePolicy =
     \<lparr> dw_Enabled = True, NotificationsEnabled = False, dw_SampleIntervalSeconds = 15,
       BaselineRetentionDays = 14, dw_Profile = DiskWriteProfileQuietAdaptiveV1,
       TraceMaxDurationSeconds = 30 \<rparr>"

definition defaultLaunchAdmissionPolicy :: "int \<Rightarrow> LaunchAdmissionPolicy" where
  "defaultLaunchAdmissionPolicy capacity =
     \<lparr> la_Mode = LaunchAdmissionModeSoft, la_QueueDepthBlock = max 1 capacity,
       la_OldestWaitBlockSeconds = defaultOldestLaunchWaitSecond,
       la_ResumeBehavior = LaunchResumeBehaviorWarn \<rparr>"

text \<open>The blocks of the literal that \<^verbatim>\<open>DefaultPolicy\<close> returns.\<close>

definition default_thresholds :: "rat \<Rightarrow> Thresholds" where
  "default_thresholds mem =
     \<lparr> HostCPUWarningPercent = 85, HostCPURedPercent = 95,
       FreeWarningPercent = 25, FreeRedPercent = 15, FreeCriticalPercent = 8,
       SwapWarningMB = mem * (1 / 4), SwapRedMB = mem * (1 / 2), SwapCriticalMB = mem * (3 / 4),
       SwapOutWarningMBPerSecond = 8, SwapOutThrashMBPerSecond = 32,
       SwapOutReleaseMBPerSecond = 16,
       TreeWarningMB = mem * (3 / 16), TreeRedMB = mem * (5 / 16), TreeCriticalMB = mem * (7 / 16),
       AgentTotalWarningMB = mem * (1 / 2), AgentTotalRedMB = mem * (11 / 16),
       AgentTotalCriticalMB = mem * (13 / 16) \<rparr>"

definition default_budgets :: ResourceBudgets where
  "default_budgets =
     \<lparr> MaxSelfRSSMB = 30, MaxIdleCPUPercent = 1 / 4, MaxPressureCPUPercent = 6,
       MaxSampleDurationMS = 2000, MaxSampleCPUTimeMS = 50, MaxTelemetryBytesDay = 2 ^ 20 \<rparr>"

definition default_storage :: StoragePolicy where
  "default_storage =
     \<lparr> st_Enabled = True, st_EnforceAdmission = False,
       WarningFreeBytes = 50 * 2 ^ 30, RedFreeBytes = 25 * 2 ^ 30, CriticalFreeBytes = 10 * 2 ^ 30,
       WarningReleaseBytes = 60 * 2 ^ 30, RedReleaseBytes = 30 * 2 ^ 30,
       CriticalReleaseBytes = 20 * 2 ^ 30, TargetFreeBytes = 50 * 2 ^ 30,
       ProviderMinAgeSeconds = 2 * 60 * 60, ReclaimCooldownSeconds = 60 * 60,
       WorkWaitGraceSeconds = 60, st_BlockNewAt = LevelRed \<rparr>"

definition DefaultPolicy :: "int \<Rightarrow> rat \<Rightarrow> Policy" where
  "DefaultPolicy ncpu physicalMemoryMB =
     (let mem = (if physicalMemoryMB \<le> 0 then 16 * 1024 else physicalMemoryMB);
          workLimits = defaultWorkLimits ncpu
      in \<lparr> po_SchemaVersion = SchemaVersion, po_Profile = PolicyProfileObserve, po_Enabled = True,
           po_EnforceAdmission = False, po_AutoShedCritical = False,
           po_SampleIntervalSeconds = 90, PressureSampleIntervalSeconds = 15,
           CriticalSampleIntervalSeconds = 5, ProcessInventoryIntervalSeconds = 180,
           HeartbeatSeconds = 300, SustainSamples = 4, CriticalSustainSamples = 2,
           ActionCooldownSeconds = 300, CandidateMinAgeSeconds = 600,
           CandidateMaxCPUPercent = 5 / 2, RetentionDays = 14, BlockNewAt = LevelRed,
           po_Thresholds = default_thresholds mem, po_ResourceBudgets = default_budgets,
           po_WorkLimits = workLimits\<lparr> WarningCapacityEnabled := False \<rparr>,
           po_LaunchAdmission = defaultLaunchAdmissionPolicy (Capacity workLimits),
           po_Storage = default_storage, po_DiskWrite = defaultDiskWritePolicy \<rparr>)"


section \<open>Validation\<close>

definition validPolicyProfileName :: "string \<Rightarrow> bool" where
  "validPolicyProfileName name \<longleftrightarrow>
     ToLower (TrimSpace name) \<in>
       {PolicyProfileBalanced, PolicyProfileThroughput, PolicyProfileInteractive,
        PolicyProfileObserve, PolicyProfileMultiAgentSoft, PolicyProfileDailyDriverEnforce}"

datatype policy_error =
    UnsupportedSchema | UnknownProfile | BadSampleInterval | BadPressureInterval
  | BadCriticalInterval | BadInventoryInterval | BadHeartbeat | BadSustain
  | ShedWithoutAdmission | BadCooldown | BadCandidate | BadRetention | BadBlockLevel
  | BadBudgets | BadWeights | BadIdlePark | BadThrashCapacity | BadExternalRelease
  | BadAgentShare | BadWarningCapacity | WeightAboveCapacity | ExpressNotLighter
  | BenchmarkLeavesNoRoom | BadSchedulingPolicy | BadLaunchMode | BadLaunchThresholds
  | BadResumeBehavior | BadCPUSamples | BadCPURelease | BadCPUThresholds | BadFreeThresholds
  | BadSwapThresholds | BadSwapOutWarning | BadSwapOutRelease | BadTreeThresholds
  | BadAgentThresholds | BadStorageEntry | BadStorageRelease | BadStorageTarget
  | BadStorageAges | BadStorageGrace | BadStorageBlockLevel | BadDiskProfile
  | BadDiskInterval | BadDiskRetention | BadDiskTrace
  | PolicyUnreadable | PolicyUndecodable

text \<open>
  \<^verbatim>\<open>Policy.Validate\<close> is a run of guards; the first that holds gives the error. The guards on the
  schedule, the work limits, the thresholds, the storage block and the disk-write block are the
  five lists below, in the order of the code.
\<close>

definition schedule_guards :: "Policy \<Rightarrow> (bool \<times> policy_error) list" where
  "schedule_guards p =
     (let b = po_ResourceBudgets p in
      [(po_SchemaVersion p \<noteq> SchemaVersion, UnsupportedSchema),
       (po_Profile p \<noteq> [] \<and> \<not> validPolicyProfileName (po_Profile p), UnknownProfile),
       (po_SampleIntervalSeconds p < 5 \<or> po_SampleIntervalSeconds p > 300, BadSampleInterval),
       (PressureSampleIntervalSeconds p < 5 \<or>
          PressureSampleIntervalSeconds p > po_SampleIntervalSeconds p, BadPressureInterval),
       (CriticalSampleIntervalSeconds p < 5 \<or>
          CriticalSampleIntervalSeconds p > PressureSampleIntervalSeconds p, BadCriticalInterval),
       (ProcessInventoryIntervalSeconds p < po_SampleIntervalSeconds p \<or>
          ProcessInventoryIntervalSeconds p > 3600, BadInventoryInterval),
       (HeartbeatSeconds p < po_SampleIntervalSeconds p \<or> HeartbeatSeconds p > 86400, BadHeartbeat),
       (SustainSamples p < 1 \<or> CriticalSustainSamples p < 1, BadSustain),
       (po_AutoShedCritical p \<and> \<not> po_EnforceAdmission p, ShedWithoutAdmission),
       (ActionCooldownSeconds p < 60, BadCooldown),
       (CandidateMinAgeSeconds p < 0 \<or> CandidateMaxCPUPercent p < 0, BadCandidate),
       (RetentionDays p < 1 \<or> RetentionDays p > 365, BadRetention),
       (BlockNewAt p \<noteq> LevelRed \<and> BlockNewAt p \<noteq> LevelCritical, BadBlockLevel),
       (MaxSelfRSSMB b \<le> 0 \<or> MaxIdleCPUPercent b \<le> 0 \<or> MaxPressureCPUPercent b \<le> 0 \<or>
          MaxSampleDurationMS b \<le> 0 \<or> MaxSampleCPUTimeMS b \<le> 0 \<or> MaxTelemetryBytesDay b \<le> 0,
        BadBudgets)])"

definition work_guards :: "WorkLimits \<Rightarrow> (bool \<times> policy_error) list" where
  "work_guards w =
     [(Capacity w < 1 \<or> TestWeight w < 1 \<or> BuildWeight w < 1 \<or> ExpressTestWeight w < 1 \<or>
         ExpressBuildWeight w < 1 \<or> EmulatorWeight w < 1 \<or> BrowserWeight w < 1 \<or>
         HeavyWeight w < 1 \<or> BenchmarkWeight w < 1 \<or> ReclaimWeight w < 1, BadWeights),
      (IdleParkSeconds w > 0 \<and> IdleParkSeconds w < minIdleParkSeconds, BadIdlePark),
      (SwapThrashCapacity w < 1 \<or> SwapThrashCapacity w > Capacity w, BadThrashCapacity),
      (SwapThrashExternalReleaseSeconds w > 0 \<and>
         SwapThrashExternalReleaseSeconds w < minSwapThrashExternalReleaseSeconds,
       BadExternalRelease),
      (SwapThrashAgentSharePercent w < 1 \<or> SwapThrashAgentSharePercent w > 100, BadAgentShare),
      (WarningCapacity w < 1 \<or> WarningCapacity w > Capacity w, BadWarningCapacity),
      (TestWeight w > Capacity w \<or> BuildWeight w > Capacity w \<or> ExpressTestWeight w > Capacity w \<or>
         ExpressBuildWeight w > Capacity w \<or> EmulatorWeight w > Capacity w \<or>
         BrowserWeight w > Capacity w \<or> HeavyWeight w > Capacity w \<or>
         BenchmarkWeight w > Capacity w \<or> ReclaimWeight w > Capacity w, WeightAboveCapacity),
      (ExpressTestWeight w \<ge> TestWeight w \<or> ExpressBuildWeight w \<ge> BuildWeight w,
       ExpressNotLighter),
      (BenchmarkWeight w + ExpressTestWeight w > Capacity w, BenchmarkLeavesNoRoom),
      (SchedulingPolicy w \<noteq> WorkSchedulingPolicy \<and> SchedulingPolicy w \<noteq> WorkSchedulingPolicyFIFO,
       BadSchedulingPolicy)]"

definition launch_guards :: "LaunchAdmissionPolicy \<Rightarrow> (bool \<times> policy_error) list" where
  "launch_guards la =
     [(la_Mode la \<noteq> LaunchAdmissionModeSoft \<and> la_Mode la \<noteq> LaunchAdmissionModeOff, BadLaunchMode),
      (la_QueueDepthBlock la < 1 \<or> la_OldestWaitBlockSeconds la < 1, BadLaunchThresholds),
      (la_ResumeBehavior la \<noteq> LaunchResumeBehaviorWarn \<and>
         la_ResumeBehavior la \<noteq> LaunchResumeBehaviorBlock, BadResumeBehavior)]"

definition threshold_guards :: "WorkLimits \<Rightarrow> Thresholds \<Rightarrow> (bool \<times> policy_error) list" where
  "threshold_guards w t =
     [(CPUBlockSamples w < 1 \<or> CPUReleaseSamples w < 1, BadCPUSamples),
      (\<not> (CPUReleasePercent w > 0 \<and> CPUReleasePercent w < HostCPUWarningPercent t), BadCPURelease),
      (\<not> (0 < HostCPUWarningPercent t \<and> HostCPUWarningPercent t < HostCPURedPercent t \<and>
          HostCPURedPercent t \<le> 100), BadCPUThresholds),
      (\<not> (FreeCriticalPercent t < FreeRedPercent t \<and> FreeRedPercent t < FreeWarningPercent t \<and>
          FreeWarningPercent t \<le> 100), BadFreeThresholds),
      (\<not> (SwapWarningMB t < SwapRedMB t \<and> SwapRedMB t < SwapCriticalMB t), BadSwapThresholds),
      (\<not> (0 < SwapOutWarningMBPerSecond t \<and>
          SwapOutWarningMBPerSecond t < SwapOutThrashMBPerSecond t), BadSwapOutWarning),
      (\<not> (0 < SwapOutReleaseMBPerSecond t \<and>
          SwapOutReleaseMBPerSecond t < SwapOutThrashMBPerSecond t), BadSwapOutRelease),
      (\<not> (TreeWarningMB t < TreeRedMB t \<and> TreeRedMB t < TreeCriticalMB t), BadTreeThresholds),
      (\<not> (AgentTotalWarningMB t < AgentTotalRedMB t \<and> AgentTotalRedMB t < AgentTotalCriticalMB t),
       BadAgentThresholds)]"

definition storage_guards :: "StoragePolicy \<Rightarrow> (bool \<times> policy_error) list" where
  "storage_guards s =
     (if \<not> st_Enabled s then [] else
      [(\<not> (0 < CriticalFreeBytes s \<and> CriticalFreeBytes s < RedFreeBytes s \<and>
          RedFreeBytes s < WarningFreeBytes s), BadStorageEntry),
       (WarningReleaseBytes s \<le> WarningFreeBytes s \<or> RedReleaseBytes s \<le> RedFreeBytes s \<or>
          CriticalReleaseBytes s \<le> CriticalFreeBytes s, BadStorageRelease),
       (TargetFreeBytes s < WarningFreeBytes s, BadStorageTarget),
       (ProviderMinAgeSeconds s < 0 \<or> ReclaimCooldownSeconds s < 60, BadStorageAges),
       (WorkWaitGraceSeconds s < 15 \<or> WorkWaitGraceSeconds s > 600, BadStorageGrace),
       (st_BlockNewAt s \<noteq> LevelRed \<and> st_BlockNewAt s \<noteq> LevelCritical, BadStorageBlockLevel)])"

definition disk_guards :: "DiskWritePolicy \<Rightarrow> (bool \<times> policy_error) list" where
  "disk_guards d =
     [(dw_Profile d \<noteq> DiskWriteProfileQuietAdaptiveV1, BadDiskProfile),
      (dw_SampleIntervalSeconds d < 5 \<or> dw_SampleIntervalSeconds d > 60, BadDiskInterval),
      (BaselineRetentionDays d < 1 \<or> BaselineRetentionDays d > 30, BadDiskRetention),
      (TraceMaxDurationSeconds d < 5 \<or> TraceMaxDurationSeconds d > 30, BadDiskTrace)]"

definition ValidatePolicy :: "int \<Rightarrow> Policy \<Rightarrow> policy_error option" where
  "ValidatePolicy ncpu p =
     (let w = normalizeWorkLimits ncpu (po_WorkLimits p) in
      first_error
        (schedule_guards p @ work_guards w @ launch_guards (po_LaunchAdmission p) @
         threshold_guards w (po_Thresholds p) @ storage_guards (po_Storage p) @
         disk_guards (po_DiskWrite p)))"

lemmas policy_guards =
  schedule_guards_def work_guards_def launch_guards_def threshold_guards_def storage_guards_def
  disk_guards_def



section \<open>Loading and saving\<close>

datatype policy_file = PolicyMissing | PolicyUnreadableFile | PolicyGarbage | PolicyDocument Policy

definition load_profile :: "Policy \<Rightarrow> Policy" where
  "load_profile p =
     (if TrimSpace (po_Profile p) = [] then
        p\<lparr> po_Profile := (if po_EnforceAdmission p then PolicyProfileBalanced
                           else PolicyProfileObserve) \<rparr>
      else p)"

text \<open>
  The build weight a file that predates the safer packing was written with: two thirds of the
  file's own capacity, rounded up.
\<close>

definition legacyBuildWeight :: "int \<Rightarrow> int" where
  "legacyBuildWeight capacity = max 1 (go_div (capacity * 2 + 2) 3)"

definition load_build_weight :: "int \<Rightarrow> int \<Rightarrow> int \<Rightarrow> int" where
  "load_build_weight capacity build default_build =
     (let build = or_default build default_build in
      if build = legacyBuildWeight capacity \<and> default_build \<noteq> legacyBuildWeight capacity
      then default_build else build)"

text \<open>
  \<open>fill_loaded\<close> is the run of \<^verbatim>\<open>if x == 0\<close> statements on the limits; \<open>capacity\<close> and
  \<open>build\<close> are the values the two fields have after their own statements.
\<close>

definition fill_loaded :: "WorkLimits \<Rightarrow> WorkLimits \<Rightarrow> int \<Rightarrow> int \<Rightarrow> WorkLimits" where
  "fill_loaded d w capacity build =
     w\<lparr> SchedulingPolicy := (if SchedulingPolicy w = [] then SchedulingPolicy d
                              else SchedulingPolicy w),
        Capacity := capacity,
        TestWeight := or_default (TestWeight w) (TestWeight d),
        BuildWeight := build,
        ExpressTestWeight := or_default (ExpressTestWeight w) (ExpressTestWeight d),
        ExpressBuildWeight := or_default (ExpressBuildWeight w) (ExpressBuildWeight d),
        BenchmarkWeight := or_default (BenchmarkWeight w) (BenchmarkWeight d),
        EmulatorWeight := or_default (EmulatorWeight w) (EmulatorWeight d),
        BrowserWeight := or_default (BrowserWeight w) (BrowserWeight d),
        HeavyWeight := or_default (HeavyWeight w) (HeavyWeight d),
        InstallWeight := or_default (InstallWeight w) (InstallWeight d),
        ReclaimWeight := or_default (ReclaimWeight w) (ReclaimWeight d),
        WarningCapacity := or_default (WarningCapacity w) (WarningCapacity d),
        IdleParkSeconds := or_default (IdleParkSeconds w) defaultIdleParkSeconds,
        SwapThrashCapacity := or_default (SwapThrashCapacity w) (min capacity build),
        SwapThrashExternalReleaseSeconds :=
          or_default (SwapThrashExternalReleaseSeconds w) defaultSwapThrashExternalReleaseSeconds,
        SwapThrashAgentSharePercent :=
          or_default (SwapThrashAgentSharePercent w) defaultSwapThrashAgentSharePercent,
        CPUBlockSamples := or_default (CPUBlockSamples w) (CPUBlockSamples d),
        CPUReleaseSamples := or_default (CPUReleaseSamples w) (CPUReleaseSamples d),
        CPUReleasePercent := or_default (CPUReleasePercent w) (CPUReleasePercent d) \<rparr>"

definition load_work_limits :: "WorkLimits \<Rightarrow> WorkLimits \<Rightarrow> WorkLimits" where
  "load_work_limits d w =
     (let capacity = or_default (Capacity w) (Capacity d);
          build = load_build_weight capacity (BuildWeight w) (BuildWeight d)
      in reconcileFastLaneDefaults (fill_loaded d w capacity build) d)"

definition load_launch :: "LaunchAdmissionPolicy \<Rightarrow> int \<Rightarrow> LaunchAdmissionPolicy \<Rightarrow> LaunchAdmissionPolicy" where
  "load_launch d capacity la =
     (if la_Mode la = [] then defaultLaunchAdmissionPolicy capacity
      else la\<lparr> la_QueueDepthBlock := or_default (la_QueueDepthBlock la) (la_QueueDepthBlock d),
               la_OldestWaitBlockSeconds :=
                 or_default (la_OldestWaitBlockSeconds la) (la_OldestWaitBlockSeconds d),
               la_ResumeBehavior := (if la_ResumeBehavior la = [] then la_ResumeBehavior d
                                     else la_ResumeBehavior la) \<rparr>)"

definition load_thresholds :: "Thresholds \<Rightarrow> Thresholds \<Rightarrow> Thresholds" where
  "load_thresholds d t =
     t\<lparr> HostCPUWarningPercent := or_default (HostCPUWarningPercent t) (HostCPUWarningPercent d),
        HostCPURedPercent := or_default (HostCPURedPercent t) (HostCPURedPercent d),
        SwapOutWarningMBPerSecond :=
          or_default (SwapOutWarningMBPerSecond t) (SwapOutWarningMBPerSecond d),
        SwapOutThrashMBPerSecond :=
          or_default (SwapOutThrashMBPerSecond t) (SwapOutThrashMBPerSecond d),
        SwapOutReleaseMBPerSecond :=
          or_default (SwapOutReleaseMBPerSecond t) (SwapOutReleaseMBPerSecond d) \<rparr>"

text \<open>The budget migrations run in this order: fill, retire 10000 and 500 ms, retire 300, lift 100.\<close>

definition load_budgets :: "ResourceBudgets \<Rightarrow> ResourceBudgets \<Rightarrow> ResourceBudgets" where
  "load_budgets d b =
     (let cpu = or_default (MaxSampleCPUTimeMS b) (MaxSampleCPUTimeMS d);
          wall = or_default (MaxSampleDurationMS b) (MaxSampleDurationMS d);
          wall = (if wall = 10000 \<or> wall = 500 then MaxSampleDurationMS d else wall);
          cpu = (if cpu = 300 then MaxSampleCPUTimeMS d else cpu);
          cpu = (if cpu = 100 then 150 else cpu)
      in b\<lparr> MaxSampleCPUTimeMS := cpu, MaxSampleDurationMS := wall,
            MaxPressureCPUPercent :=
              or_default (MaxPressureCPUPercent b) (MaxPressureCPUPercent d) \<rparr>)"

definition load_intervals :: "Policy \<Rightarrow> Policy \<Rightarrow> Policy" where
  "load_intervals d p =
     (let inventory = or_default (ProcessInventoryIntervalSeconds p)
                        (ProcessInventoryIntervalSeconds d);
          inventory = (if inventory = 300 then ProcessInventoryIntervalSeconds d else inventory)
      in p\<lparr> PressureSampleIntervalSeconds :=
              or_default (PressureSampleIntervalSeconds p) (PressureSampleIntervalSeconds d),
            CriticalSampleIntervalSeconds :=
              or_default (CriticalSampleIntervalSeconds p) (CriticalSampleIntervalSeconds d),
            ProcessInventoryIntervalSeconds := inventory \<rparr>)"

definition load_storage :: "StoragePolicy \<Rightarrow> StoragePolicy \<Rightarrow> StoragePolicy" where
  "load_storage d s =
     (let s = (if WarningFreeBytes s = 0 then d else s)
      in s\<lparr> WorkWaitGraceSeconds := or_default (WorkWaitGraceSeconds s) (WorkWaitGraceSeconds d) \<rparr>)"

definition load_disk :: "DiskWritePolicy \<Rightarrow> DiskWritePolicy \<Rightarrow> DiskWritePolicy" where
  "load_disk d k =
     (if dw_Profile k = [] then d
      else k\<lparr> dw_SampleIntervalSeconds :=
                or_default (dw_SampleIntervalSeconds k) (dw_SampleIntervalSeconds d),
              BaselineRetentionDays := or_default (BaselineRetentionDays k) (BaselineRetentionDays d),
              TraceMaxDurationSeconds :=
                or_default (TraceMaxDurationSeconds k) (TraceMaxDurationSeconds d) \<rparr>)"

definition migrate_policy :: "Policy \<Rightarrow> Policy \<Rightarrow> Policy" where
  "migrate_policy d p =
     (let w = load_work_limits (po_WorkLimits d) (po_WorkLimits p)
      in load_intervals d
           (load_profile p\<lparr>
              po_WorkLimits := w,
              po_LaunchAdmission :=
                load_launch (po_LaunchAdmission d) (Capacity w) (po_LaunchAdmission p),
              po_Thresholds := load_thresholds (po_Thresholds d) (po_Thresholds p),
              po_ResourceBudgets := load_budgets (po_ResourceBudgets d) (po_ResourceBudgets p),
              po_Storage := load_storage (po_Storage d) (po_Storage p),
              po_DiskWrite := load_disk (po_DiskWrite d) (po_DiskWrite p) \<rparr>))"

text \<open>The boolean of the result says whether a policy file was there.\<close>

fun LoadPolicy :: "int \<Rightarrow> policy_file \<Rightarrow> rat \<Rightarrow> policy_error + (Policy \<times> bool)" where
  "LoadPolicy ncpu PolicyMissing mem = Inr (DefaultPolicy ncpu mem, False)"
| "LoadPolicy ncpu PolicyUnreadableFile mem = Inl PolicyUnreadable"
| "LoadPolicy ncpu PolicyGarbage mem = Inl PolicyUndecodable"
| "LoadPolicy ncpu (PolicyDocument p) mem =
     (let q = migrate_policy (DefaultPolicy ncpu mem) p in
      case ValidatePolicy ncpu q of Some e \<Rightarrow> Inl e | None \<Rightarrow> Inr (q, True))"

text \<open>
  \<^verbatim>\<open>SavePolicy\<close> writes the document or leaves the file as it was; writing itself is assumed to
  succeed here.
\<close>

definition SavePolicy :: "int \<Rightarrow> Policy \<Rightarrow> policy_error + policy_file" where
  "SavePolicy ncpu p = (case ValidatePolicy ncpu p of Some e \<Rightarrow> Inl e | None \<Rightarrow> Inr (PolicyDocument p))"


section \<open>Profiles\<close>

record ApplyProfileOptions =
  WithAutoShed :: bool
  MultiAgent :: bool

definition multiAgentSoftOldestWaitSeconds :: int where
  "multiAgentSoftOldestWaitSeconds = 60"

definition multiAgentSoftLaunchAdmission :: "int \<Rightarrow> LaunchAdmissionPolicy" where
  "multiAgentSoftLaunchAdmission capacity =
     (let capacity = max 1 capacity in
      \<lparr> la_Mode = LaunchAdmissionModeSoft, la_QueueDepthBlock = max 1 (capacity - 2),
        la_OldestWaitBlockSeconds = multiAgentSoftOldestWaitSeconds,
        la_ResumeBehavior = LaunchResumeBehaviorWarn \<rparr>)"

definition applyObserveEconomyCadence :: "Policy \<Rightarrow> Policy" where
  "applyObserveEconomyCadence p =
     (let b = po_ResourceBudgets p
      in p\<lparr> po_SampleIntervalSeconds := 120,
            PressureSampleIntervalSeconds := 30,
            CriticalSampleIntervalSeconds := 10,
            ProcessInventoryIntervalSeconds :=
              (if ProcessInventoryIntervalSeconds p < 240 then 240
               else ProcessInventoryIntervalSeconds p),
            HeartbeatSeconds := (if HeartbeatSeconds p < 120 then 120 * 2 else HeartbeatSeconds p),
            po_ResourceBudgets := b\<lparr>
              MaxSampleCPUTimeMS := (if MaxSampleCPUTimeMS b < 150 then 150 else MaxSampleCPUTimeMS b),
              MaxIdleCPUPercent :=
                (if MaxIdleCPUPercent b < 1 / 2 then 1 / 2 else MaxIdleCPUPercent b) \<rparr> \<rparr>)"

text \<open>
  The fields that the three enforcing profiles set in the same way: \<open>derate\<close> is their choice for
  the warning-band derating. The two advisory ones set \<open>launch\<close>, switch every authority off and
  slow the resident down.
\<close>

definition enforcing_profile :: "string \<Rightarrow> bool \<Rightarrow> ApplyProfileOptions \<Rightarrow> Policy \<Rightarrow> Policy" where
  "enforcing_profile name derate opts p =
     p\<lparr> po_Profile := name, po_EnforceAdmission := True, po_AutoShedCritical := WithAutoShed opts,
        po_WorkLimits := (po_WorkLimits p)\<lparr> WarningCapacityEnabled := derate \<rparr>,
        po_LaunchAdmission :=
          (defaultLaunchAdmissionPolicy (Capacity (po_WorkLimits p)))
            \<lparr> la_Mode := LaunchAdmissionModeSoft \<rparr> \<rparr>"

definition advisory_profile :: "string \<Rightarrow> LaunchAdmissionPolicy \<Rightarrow> Policy \<Rightarrow> Policy" where
  "advisory_profile name launch p =
     applyObserveEconomyCadence
       (p\<lparr> po_Profile := name, po_EnforceAdmission := False, po_AutoShedCritical := False,
           po_WorkLimits := (po_WorkLimits p)\<lparr> WarningCapacityEnabled := False \<rparr>,
           po_LaunchAdmission := launch,
           po_Storage := (po_Storage p)\<lparr> st_EnforceAdmission := False \<rparr> \<rparr>)"

definition profile_fields :: "string \<Rightarrow> ApplyProfileOptions \<Rightarrow> Policy \<Rightarrow> Policy option" where
  "profile_fields name opts p =
     (if name = PolicyProfileBalanced \<or> name = PolicyProfileDailyDriverEnforce
      then Some (enforcing_profile PolicyProfileBalanced False opts p)
      else if name = PolicyProfileThroughput
      then Some (enforcing_profile PolicyProfileThroughput False opts p)
      else if name = PolicyProfileInteractive
      then Some (enforcing_profile PolicyProfileInteractive True opts p)
      else if name = PolicyProfileObserve
      then Some (advisory_profile PolicyProfileObserve
                   (defaultLaunchAdmissionPolicy (Capacity (po_WorkLimits p))) p)
      else if name = PolicyProfileMultiAgentSoft
      then Some (advisory_profile PolicyProfileMultiAgentSoft
                   (multiAgentSoftLaunchAdmission (Capacity (po_WorkLimits p))) p)
      else None)"

definition ApplyPolicyProfile ::
    "int \<Rightarrow> Policy \<Rightarrow> string \<Rightarrow> ApplyProfileOptions \<Rightarrow> policy_error + Policy" where
  "ApplyPolicyProfile ncpu base name opts =
     (let base = (if po_SchemaVersion base = 0 then DefaultPolicy ncpu (16 * 1024) else base) in
      case profile_fields (ToLower (TrimSpace name)) opts (base\<lparr> po_Enabled := True \<rparr>) of
        None \<Rightarrow> Inl UnknownProfile
      | Some p \<Rightarrow>
          let p = (if MultiAgent opts then
                     p\<lparr> po_LaunchAdmission :=
                          multiAgentSoftLaunchAdmission (Capacity (po_WorkLimits p)) \<rparr>
                   else p) in
          if WithAutoShed opts \<and> \<not> po_EnforceAdmission p then Inl ShedWithoutAdmission
          else (case ValidatePolicy ncpu p of Some e \<Rightarrow> Inl e | None \<Rightarrow> Inr p))"

definition HasMultiAgentLaunchAdmission :: "Policy \<Rightarrow> bool" where
  "HasMultiAgentLaunchAdmission p \<longleftrightarrow>
     la_Mode (po_LaunchAdmission p) = LaunchAdmissionModeSoft \<and>
     la_OldestWaitBlockSeconds (po_LaunchAdmission p) = multiAgentSoftOldestWaitSeconds"

text \<open>\<^verbatim>\<open>strings.EqualFold\<close> on the ASCII profile name.\<close>

definition MatchesMultiAgentSoft :: "Policy \<Rightarrow> bool" where
  "MatchesMultiAgentSoft p \<longleftrightarrow>
     ToLower (TrimSpace (po_Profile p)) = PolicyProfileMultiAgentSoft \<or>
     (\<not> po_EnforceAdmission p \<and> \<not> po_AutoShedCritical p \<and> HasMultiAgentLaunchAdmission p)"



section \<open>Facts\<close>

text \<open>
  The warning-capacity switch is independent of everything that normalisation and validation
  read, so a profile may set it freely.
\<close>

lemma fillWorkLimits_warning_switch:
  "fillWorkLimits (w\<lparr>WarningCapacityEnabled := e\<rparr>) =
     (fillWorkLimits w)\<lparr>WarningCapacityEnabled := e\<rparr>"
  by (simp add: fillWorkLimits_def Let_def)

lemma reconcileFastLane_warning_switch:
  "reconcileFastLaneDefaults (w\<lparr>WarningCapacityEnabled := e\<rparr>) d =
     (reconcileFastLaneDefaults w d)\<lparr>WarningCapacityEnabled := e\<rparr>"
proof -
  have u: "fastLaneUnopinionated (w\<lparr>WarningCapacityEnabled := e\<rparr>) = fastLaneUnopinionated w"
    by (simp add: fastLaneUnopinionated_def)
  show ?thesis
    unfolding reconcileFastLaneDefaults_def u
    by (simp only: if_distrib [of "WarningCapacityEnabled_update (\<lambda>_. e)"]) simp
qed

lemma normalize_warning_switch:
  "0 < Capacity w \<Longrightarrow> normalizeWorkLimits n (w\<lparr>WarningCapacityEnabled := e\<rparr>) =
     (normalizeWorkLimits n w)\<lparr>WarningCapacityEnabled := e\<rparr>"
  by (simp add: normalizeWorkLimits_def fillWorkLimits_warning_switch
      reconcileFastLane_warning_switch)

lemma guards_warning_switch [simp]:
  "work_guards (w\<lparr>WarningCapacityEnabled := e\<rparr>) = work_guards w"
  "threshold_guards (w\<lparr>WarningCapacityEnabled := e\<rparr>) t = threshold_guards w t"
  by (simp_all add: work_guards_def threshold_guards_def)

lemma guards_normalize_switch [simp]:
  "work_guards (normalizeWorkLimits n (w\<lparr>WarningCapacityEnabled := e\<rparr>)) =
     work_guards (normalizeWorkLimits n w)"
  "threshold_guards (normalizeWorkLimits n (w\<lparr>WarningCapacityEnabled := e\<rparr>)) t =
     threshold_guards (normalizeWorkLimits n w) t"
proof (atomize (full), cases "0 < Capacity w")
  case True
  then show "work_guards (normalizeWorkLimits n (w\<lparr>WarningCapacityEnabled := e\<rparr>)) =
      work_guards (normalizeWorkLimits n w) \<and>
    threshold_guards (normalizeWorkLimits n (w\<lparr>WarningCapacityEnabled := e\<rparr>)) t =
      threshold_guards (normalizeWorkLimits n w) t"
    by (simp add: normalize_warning_switch)
qed (simp add: normalizeWorkLimits_def)

lemma normalize_default: "normalizeWorkLimits n (defaultWorkLimits n) = defaultWorkLimits n"
  using defaultWorkLimits_capacity [of n]
  by (simp add: normalizeWorkLimits_def defaultWorkLimits_filled reconcile_of_settled
      defaultWorkLimits_settled)

lemma default_limit_constants:
  "IdleParkSeconds (defaultWorkLimits n) = 120"
  "SwapThrashExternalReleaseSeconds (defaultWorkLimits n) = 300"
  "SwapThrashAgentSharePercent (defaultWorkLimits n) = 25"
  "WarningCapacity (defaultWorkLimits n) = max 1 (max 3 (n - 2) div 2)"
  "SchedulingPolicy (defaultWorkLimits n) = WorkSchedulingPolicy"
  "CPUBlockSamples (defaultWorkLimits n) = 2" "CPUReleaseSamples (defaultWorkLimits n) = 2"
  "CPUReleasePercent (defaultWorkLimits n) = 80"
  by (simp_all only: defaultWorkLimits_eq WorkLimits.select_convs limit_constants) simp_all

lemma work_guards_pass:
  assumes "1 \<le> TestWeight w" "TestWeight w \<le> Capacity w" "1 \<le> BuildWeight w"
    "BuildWeight w \<le> Capacity w" "1 \<le> EmulatorWeight w" "EmulatorWeight w \<le> Capacity w"
    "1 \<le> BrowserWeight w" "BrowserWeight w \<le> Capacity w" "1 \<le> HeavyWeight w"
    "HeavyWeight w \<le> Capacity w" "1 \<le> BenchmarkWeight w"
    "1 \<le> ExpressTestWeight w" "1 \<le> ExpressBuildWeight w" "1 \<le> ReclaimWeight w"
    "ReclaimWeight w \<le> Capacity w" "ExpressTestWeight w < TestWeight w"
    "ExpressBuildWeight w < BuildWeight w" "BenchmarkWeight w + ExpressTestWeight w \<le> Capacity w"
    "1 \<le> WarningCapacity w" "WarningCapacity w \<le> Capacity w" "1 \<le> SwapThrashCapacity w"
    "SwapThrashCapacity w \<le> Capacity w" "minIdleParkSeconds \<le> IdleParkSeconds w"
    "minSwapThrashExternalReleaseSeconds \<le> SwapThrashExternalReleaseSeconds w"
    "1 \<le> SwapThrashAgentSharePercent w" "SwapThrashAgentSharePercent w \<le> 100"
    "SchedulingPolicy w = WorkSchedulingPolicy"
  shows "list_all (\<lambda>g. \<not> fst g) (work_guards w)"
  using assms by (simp add: work_guards_def)

lemma default_work_guards: "list_all (\<lambda>g. \<not> fst g) (work_guards (defaultWorkLimits n))"
proof -
  obtain c where c: "max 3 (n - 2) = c" "3 \<le> c" by simp
  have d: "1 \<le> max 1 (c div 2)" "max 1 (c div 2) \<le> c"
    "1 \<le> min c (max 3 ((c + 2) div 2))" "min c (max 3 ((c + 2) div 2)) \<le> c"
    using c(2) by simp_all
  have w: "1 \<le> WarningCapacity (defaultWorkLimits n)"
    "WarningCapacity (defaultWorkLimits n) \<le> Capacity (defaultWorkLimits n)"
    "1 \<le> SwapThrashCapacity (defaultWorkLimits n)"
    "SwapThrashCapacity (defaultWorkLimits n) \<le> Capacity (defaultWorkLimits n)"
    unfolding default_limit_constants default_weight_values c(1) by (rule d)+
  have x: "ExpressTestWeight (defaultWorkLimits n) < TestWeight (defaultWorkLimits n)"
    "ExpressBuildWeight (defaultWorkLimits n) < BuildWeight (defaultWorkLimits n)"
    "BenchmarkWeight (defaultWorkLimits n) + ExpressTestWeight (defaultWorkLimits n)
       \<le> Capacity (defaultWorkLimits n)"
    unfolding default_weight_values by linarith+
  have e: "ExpressTestWeight (defaultWorkLimits n) = 1" "ExpressBuildWeight (defaultWorkLimits n) = 2"
    "ReclaimWeight (defaultWorkLimits n) = 1" "3 \<le> Capacity (defaultWorkLimits n)"
    using default_weight_values(1,2,3,5) [of n] c(2) by simp_all
  show ?thesis
    by (rule work_guards_pass)
      (use w x e default_weight_ranges [of n] in
        \<open>simp_all add: default_limit_constants policy_constants\<close>)
qed

lemma default_policy_validates: "ValidatePolicy n (DefaultPolicy n mem) = None"
proof -
  have "validPolicyProfileName PolicyProfileObserve"
    by code_simp
  moreover have "list_all (\<lambda>g. \<not> fst g)
      (threshold_guards (defaultWorkLimits n) (default_thresholds m))" if "0 < m" for m
    using that by (simp add: threshold_guards_def default_thresholds_def default_limit_constants)
  ultimately show ?thesis
    using default_work_guards [of n]
    by (simp add: ValidatePolicy_def DefaultPolicy_def Let_def normalize_default schedule_guards_def
        launch_guards_def storage_guards_def disk_guards_def
        default_budgets_def default_storage_def defaultDiskWritePolicy_def
        defaultLaunchAdmissionPolicy_def policy_constants default_limit_constants)
qed


subsection \<open>Loading again\<close>

lemma load_profile_idem: "load_profile (load_profile p) = load_profile p"
proof -
  have "TrimSpace PolicyProfileBalanced \<noteq> []" "TrimSpace PolicyProfileObserve \<noteq> []"
    by code_simp+
  then show ?thesis by (simp add: load_profile_def)
qed

lemma load_build_weight_idem:
  assumes "d \<noteq> 0"
  shows "load_build_weight cap (load_build_weight cap b d) d = load_build_weight cap b d"
    and "load_build_weight cap b d \<noteq> 0"
  using assms by (auto simp: load_build_weight_def Let_def or_default_def)

lemma load_thresholds_idem: "load_thresholds d (load_thresholds d t) = load_thresholds d t"
  by (simp add: load_thresholds_def)

lemma load_budgets_idem: "load_budgets default_budgets (load_budgets default_budgets b) = load_budgets default_budgets b"
  by (simp add: load_budgets_def default_budgets_def Let_def or_default_def)

lemma load_storage_idem: "load_storage default_storage (load_storage default_storage s) = load_storage default_storage s"
  by (simp add: load_storage_def default_storage_def Let_def)

lemma load_disk_idem: "load_disk defaultDiskWritePolicy (load_disk defaultDiskWritePolicy k) = load_disk defaultDiskWritePolicy k"
  by (simp add: load_disk_def defaultDiskWritePolicy_def DiskWriteProfileQuietAdaptiveV1_def)

lemma load_launch_idem:
  "load_launch (defaultLaunchAdmissionPolicy c) cap (load_launch (defaultLaunchAdmissionPolicy c) cap la) =
     load_launch (defaultLaunchAdmissionPolicy c) cap la"
  by (simp add: load_launch_def defaultLaunchAdmissionPolicy_def policy_constants)

lemma load_intervals_idem:
  "ProcessInventoryIntervalSeconds d = 180 \<Longrightarrow>
     load_intervals d (load_intervals d p) = load_intervals d p"
  by (simp add: load_intervals_def Let_def or_default_def)


text \<open>
  The fields of the loaded limits are filled before the fast-lane reconciliation, which does not
  touch them; a second load finds every one of them set.
\<close>

lemma fill_loaded_idem: "fill_loaded d (fill_loaded d w c b) c b = fill_loaded d w c b"
  by (simp add: fill_loaded_def limit_constants)

lemma fill_loaded_fields [simp]:
  "Capacity (fill_loaded d w c b) = c" "BuildWeight (fill_loaded d w c b) = b"
  by (simp_all add: fill_loaded_def)

lemma fill_loaded_fast_lane:
  "fast_lane_settled (fill_loaded d w c b) = fast_lane_settled w"
  by (simp add: fast_lane_settled_def fill_loaded_def)

lemma fill_loaded_update:
  "fill_loaded d (w\<lparr>FastLaneEnabled := e\<rparr>) c b = (fill_loaded d w c b)\<lparr>FastLaneEnabled := e\<rparr>"
  "fill_loaded d (w\<lparr>FastLaneMaxWeight := x\<rparr>) c b = (fill_loaded d w c b)\<lparr>FastLaneMaxWeight := x\<rparr>"
  "fill_loaded d (w\<lparr>FastLaneMaxRuntimeMS := x\<rparr>) c b =
     (fill_loaded d w c b)\<lparr>FastLaneMaxRuntimeMS := x\<rparr>"
  "fill_loaded d (w\<lparr>FastLaneCoordinatedCPUCeilingPct := r\<rparr>) c b =
     (fill_loaded d w c b)\<lparr>FastLaneCoordinatedCPUCeilingPct := r\<rparr>"
  "fill_loaded d (w\<lparr>FastLaneDefaultsRevision := x\<rparr>) c b =
     (fill_loaded d w c b)\<lparr>FastLaneDefaultsRevision := x\<rparr>"
  by (simp_all add: fill_loaded_def)

lemma fill_loaded_reconcile:
  "fill_loaded d (reconcileFastLaneDefaults w e) c b = reconcileFastLaneDefaults (fill_loaded d w c b) e"
proof -
  have u: "fastLaneUnopinionated (fill_loaded d w c b) = fastLaneUnopinionated w"
    "FastLaneMaxWeight (fill_loaded d w c b) = FastLaneMaxWeight w"
    "FastLaneMaxRuntimeMS (fill_loaded d w c b) = FastLaneMaxRuntimeMS w"
    "FastLaneCoordinatedCPUCeilingPct (fill_loaded d w c b) = FastLaneCoordinatedCPUCeilingPct w"
    "FastLaneDefaultsRevision (fill_loaded d w c b) = FastLaneDefaultsRevision w"
    by (simp_all add: fastLaneUnopinionated_def fill_loaded_def)
  show ?thesis
    unfolding reconcileFastLaneDefaults_def u
    by (simp only: if_distrib [of "\<lambda>x. fill_loaded d x c b"] fill_loaded_update)
qed

lemma reconcileFastLane_of_switch:
  "reconcileFastLaneDefaults w (d\<lparr>WarningCapacityEnabled := e\<rparr>) = reconcileFastLaneDefaults w d"
  by (simp add: reconcileFastLaneDefaults_def)

lemma load_work_limits_idem:
  fixes n e
  defines "d \<equiv> (defaultWorkLimits n)\<lparr>WarningCapacityEnabled := e\<rparr>"
  shows "load_work_limits d (load_work_limits d w) = load_work_limits d w"
proof -
  have nz: "Capacity d \<noteq> 0" "BuildWeight d \<noteq> 0"
    using defaultWorkLimits_capacity [of n] defaultWorkLimits_nonzero(3) [of n]
    by (simp_all add: d_def)
  define c where "c = or_default (Capacity w) (Capacity d)"
  define b where "b = load_build_weight c (BuildWeight w) (BuildWeight d)"
  have c: "or_default c (Capacity d) = c" using nz by (simp add: c_def)
  have b: "load_build_weight c b (BuildWeight d) = b"
    unfolding b_def by (rule load_build_weight_idem [OF nz(2)])
  have w: "load_work_limits d w = reconcileFastLaneDefaults (fill_loaded d w c b) d"
    by (simp add: load_work_limits_def c_def b_def Let_def)
  have "BuildWeight (load_work_limits d w) = b" "Capacity (load_work_limits d w) = c"
    by (simp_all add: w reconcileFastLaneDefaults_def)
  then have "load_work_limits d (load_work_limits d w)
      = reconcileFastLaneDefaults (fill_loaded d (load_work_limits d w) c b) d"
    unfolding load_work_limits_def [of d "load_work_limits d w"] by (simp add: Let_def c b)
  also have "\<dots> = reconcileFastLaneDefaults (reconcileFastLaneDefaults (fill_loaded d w c b) d) d"
    by (simp add: w fill_loaded_reconcile fill_loaded_idem)
  also have "\<dots> = reconcileFastLaneDefaults (fill_loaded d w c b) d"
    unfolding d_def reconcileFastLane_of_switch
    by (rule reconcile_of_settled [OF reconcileFastLaneDefaults_settled])
  also have "\<dots> = load_work_limits d w" by (rule w [symmetric])
  finally show ?thesis .
qed

lemma default_policy_blocks:
  "po_WorkLimits (DefaultPolicy n mem) = (defaultWorkLimits n)\<lparr>WarningCapacityEnabled := False\<rparr>"
  "po_ResourceBudgets (DefaultPolicy n mem) = default_budgets"
  "po_Storage (DefaultPolicy n mem) = default_storage"
  "po_DiskWrite (DefaultPolicy n mem) = defaultDiskWritePolicy"
  "po_LaunchAdmission (DefaultPolicy n mem) =
     defaultLaunchAdmissionPolicy (Capacity (defaultWorkLimits n))"
  "ProcessInventoryIntervalSeconds (DefaultPolicy n mem) = 180"
  by (simp_all add: DefaultPolicy_def Let_def)

lemma migrate_default:
  "migrate_policy (DefaultPolicy n mem) (DefaultPolicy n mem) = DefaultPolicy n mem"
proof -
  let ?w = "(defaultWorkLimits n)\<lparr>WarningCapacityEnabled := False\<rparr>"
  have nz: "EmulatorWeight (defaultWorkLimits n) \<noteq> 0" "BrowserWeight (defaultWorkLimits n) \<noteq> 0"
    "HeavyWeight (defaultWorkLimits n) \<noteq> 0" "Capacity (defaultWorkLimits n) \<noteq> 0"
    using default_weight_ranges [of n] by linarith+
  have "fill_loaded ?w ?w (Capacity ?w) (BuildWeight ?w) = ?w"
    by (simp add: fill_loaded_def nz defaultWorkLimits_nonzero)
  then have w: "load_work_limits ?w ?w = ?w"
    by (simp add: load_work_limits_def load_build_weight_def Let_def nz defaultWorkLimits_nonzero
        reconcileFastLane_of_switch reconcileFastLane_warning_switch reconcile_of_settled
        defaultWorkLimits_settled)
  have l: "load_launch (defaultLaunchAdmissionPolicy c) k (defaultLaunchAdmissionPolicy c) =
      defaultLaunchAdmissionPolicy c" for c k
    by (simp add: load_launch_def defaultLaunchAdmissionPolicy_def policy_constants)
  have "TrimSpace PolicyProfileObserve \<noteq> []" by code_simp
  then show ?thesis
    unfolding migrate_policy_def Let_def default_policy_blocks w l
    by (simp add: DefaultPolicy_def Let_def load_intervals_def load_profile_def
        load_thresholds_def default_thresholds_def load_budgets_def default_budgets_def
        load_storage_def default_storage_def load_disk_def defaultDiskWritePolicy_def
        policy_constants)
qed

lemma load_intervals_frame [frame_simps]:
  "po_WorkLimits (load_intervals d p) = po_WorkLimits p"
  "po_ResourceBudgets (load_intervals d p) = po_ResourceBudgets p"
  "po_Storage (load_intervals d p) = po_Storage p"
  "po_DiskWrite (load_intervals d p) = po_DiskWrite p"
  "po_LaunchAdmission (load_intervals d p) = po_LaunchAdmission p"
  "po_Thresholds (load_intervals d p) = po_Thresholds p"
  by (simp_all add: load_intervals_def Let_def)

lemma load_intervals_commutes:
  "load_profile (load_intervals d p) = load_intervals d (load_profile p)"
  "load_intervals d (p\<lparr>po_WorkLimits := w\<rparr>) = (load_intervals d p)\<lparr>po_WorkLimits := w\<rparr>"
  "load_intervals d (p\<lparr>po_LaunchAdmission := la\<rparr>) = (load_intervals d p)\<lparr>po_LaunchAdmission := la\<rparr>"
  "load_intervals d (p\<lparr>po_Thresholds := t\<rparr>) = (load_intervals d p)\<lparr>po_Thresholds := t\<rparr>"
  "load_intervals d (p\<lparr>po_ResourceBudgets := b\<rparr>) = (load_intervals d p)\<lparr>po_ResourceBudgets := b\<rparr>"
  "load_intervals d (p\<lparr>po_Storage := s\<rparr>) = (load_intervals d p)\<lparr>po_Storage := s\<rparr>"
  "load_intervals d (p\<lparr>po_DiskWrite := k\<rparr>) = (load_intervals d p)\<lparr>po_DiskWrite := k\<rparr>"
  by (simp_all add: load_intervals_def load_profile_def Let_def)

lemma load_profile_commutes:
  "load_profile (p\<lparr>po_WorkLimits := w\<rparr>) = (load_profile p)\<lparr>po_WorkLimits := w\<rparr>"
  "load_profile (p\<lparr>po_LaunchAdmission := la\<rparr>) = (load_profile p)\<lparr>po_LaunchAdmission := la\<rparr>"
  "load_profile (p\<lparr>po_Thresholds := t\<rparr>) = (load_profile p)\<lparr>po_Thresholds := t\<rparr>"
  "load_profile (p\<lparr>po_ResourceBudgets := b\<rparr>) = (load_profile p)\<lparr>po_ResourceBudgets := b\<rparr>"
  "load_profile (p\<lparr>po_Storage := s\<rparr>) = (load_profile p)\<lparr>po_Storage := s\<rparr>"
  "load_profile (p\<lparr>po_DiskWrite := k\<rparr>) = (load_profile p)\<lparr>po_DiskWrite := k\<rparr>"
  by (simp_all add: load_profile_def)

lemma migrate_policy_idem:
  "migrate_policy (DefaultPolicy n mem) (migrate_policy (DefaultPolicy n mem) p) =
     migrate_policy (DefaultPolicy n mem) p"
  by (simp add: migrate_policy_def Let_def default_policy_blocks frame_simps
      load_intervals_commutes load_profile_commutes load_profile_idem load_work_limits_idem
      load_launch_idem load_thresholds_idem load_budgets_idem load_storage_idem load_disk_idem
      load_intervals_idem)


subsection \<open>Profiles on a valid policy\<close>

text \<open>
  What validation reads of a policy that a profile writes: the launch block, the schedule and the
  budgets. The profiles keep every other block, and the blocks they write pass their guards.
\<close>

lemma validate_split:
  "ValidatePolicy n p = None \<longleftrightarrow>
     list_all (\<lambda>g. \<not> fst g) (schedule_guards p) \<and>
     list_all (\<lambda>g. \<not> fst g) (work_guards (normalizeWorkLimits n (po_WorkLimits p))) \<and>
     list_all (\<lambda>g. \<not> fst g) (launch_guards (po_LaunchAdmission p)) \<and>
     list_all (\<lambda>g. \<not> fst g)
       (threshold_guards (normalizeWorkLimits n (po_WorkLimits p)) (po_Thresholds p)) \<and>
     list_all (\<lambda>g. \<not> fst g) (storage_guards (po_Storage p)) \<and>
     list_all (\<lambda>g. \<not> fst g) (disk_guards (po_DiskWrite p))"
  by (simp add: ValidatePolicy_def Let_def)

lemma launch_blocks_valid:
  "list_all (\<lambda>g. \<not> fst g) (launch_guards (defaultLaunchAdmissionPolicy c))"
  "list_all (\<lambda>g. \<not> fst g) (launch_guards ((defaultLaunchAdmissionPolicy c)\<lparr>la_Mode := LaunchAdmissionModeSoft\<rparr>))"
  "list_all (\<lambda>g. \<not> fst g) (launch_guards (multiAgentSoftLaunchAdmission c))"
  by (simp_all add: launch_guards_def defaultLaunchAdmissionPolicy_def policy_constants
      multiAgentSoftLaunchAdmission_def multiAgentSoftOldestWaitSeconds_def)

lemma storage_switch_valid [simp]:
  "storage_guards (s\<lparr>st_EnforceAdmission := b\<rparr>) = storage_guards s"
  by (simp add: storage_guards_def)

lemma profile_names_valid:
  "validPolicyProfileName PolicyProfileBalanced" "validPolicyProfileName PolicyProfileThroughput"
  "validPolicyProfileName PolicyProfileInteractive" "validPolicyProfileName PolicyProfileObserve"
  "validPolicyProfileName PolicyProfileMultiAgentSoft"
  by code_simp+

lemma enforcing_profile_valid:
  assumes "ValidatePolicy n p = None" and "validPolicyProfileName name"
  shows "ValidatePolicy n (enforcing_profile name derate opts p) = None"
  using assms launch_blocks_valid(2)
  by (simp add: validate_split enforcing_profile_def) (simp add: schedule_guards_def Let_def)

lemma economy_schedule_valid:
  "list_all (\<lambda>g. \<not> fst g) (schedule_guards p) \<Longrightarrow>
     list_all (\<lambda>g. \<not> fst g) (schedule_guards (applyObserveEconomyCadence p))"
  by (auto simp: schedule_guards_def applyObserveEconomyCadence_def Let_def)

lemma economy_frame [frame_simps]:
  "po_WorkLimits (applyObserveEconomyCadence p) = po_WorkLimits p"
  "po_LaunchAdmission (applyObserveEconomyCadence p) = po_LaunchAdmission p"
  "po_Thresholds (applyObserveEconomyCadence p) = po_Thresholds p"
  "po_Storage (applyObserveEconomyCadence p) = po_Storage p"
  "po_DiskWrite (applyObserveEconomyCadence p) = po_DiskWrite p"
  "po_EnforceAdmission (applyObserveEconomyCadence p) = po_EnforceAdmission p"
  "po_AutoShedCritical (applyObserveEconomyCadence p) = po_AutoShedCritical p"
  by (simp_all add: applyObserveEconomyCadence_def Let_def)

lemma advisory_profile_valid:
  assumes "ValidatePolicy n p = None" and "validPolicyProfileName name"
    and "list_all (\<lambda>g. \<not> fst g) (launch_guards launch)"
  shows "ValidatePolicy n (advisory_profile name launch p) = None"
proof -
  have "list_all (\<lambda>g. \<not> fst g) (schedule_guards (advisory_profile name launch p))"
    unfolding advisory_profile_def
    by (rule economy_schedule_valid) (use assms in \<open>simp add: validate_split schedule_guards_def Let_def\<close>)
  with assms show ?thesis
    by (simp add: validate_split advisory_profile_def frame_simps)
qed

lemma launch_override_valid:
  "ValidatePolicy n p = None \<Longrightarrow>
     ValidatePolicy n (p\<lparr>po_LaunchAdmission := multiAgentSoftLaunchAdmission c\<rparr>) = None"
  using launch_blocks_valid(3) by (simp add: validate_split schedule_guards_def Let_def)

lemma profile_names_distinct:
  "PolicyProfileBalanced \<notin> {PolicyProfileObserve, PolicyProfileMultiAgentSoft}"
  "PolicyProfileDailyDriverEnforce \<notin> {PolicyProfileObserve, PolicyProfileMultiAgentSoft}"
  "PolicyProfileThroughput \<notin> {PolicyProfileObserve, PolicyProfileMultiAgentSoft}"
  "PolicyProfileInteractive \<notin> {PolicyProfileObserve, PolicyProfileMultiAgentSoft}"
  by code_simp+

lemma profile_fields_cases:
  assumes "profile_fields name opts p = Some q"
  obtains (enforcing) stored derate where "q = enforcing_profile stored derate opts p"
      and "validPolicyProfileName stored"
      and "name \<notin> {PolicyProfileObserve, PolicyProfileMultiAgentSoft}"
  | (advisory) stored launch where "q = advisory_profile stored launch p"
      and "validPolicyProfileName stored" and "list_all (\<lambda>g. \<not> fst g) (launch_guards launch)"
      and "name \<in> {PolicyProfileObserve, PolicyProfileMultiAgentSoft}"
  using assms profile_names_valid launch_blocks_valid profile_names_distinct
  unfolding profile_fields_def by (auto split: if_splits)

lemma profile_fields_valid:
  assumes "profile_fields name opts p = Some q" and "ValidatePolicy n p = None"
  shows "ValidatePolicy n q = None"
  using assms(1) by (cases rule: profile_fields_cases)
    (simp_all add: enforcing_profile_valid advisory_profile_valid assms(2))

lemma profile_fields_authority:
  assumes "profile_fields name opts p = Some q"
  shows "po_AutoShedCritical q = (po_EnforceAdmission q \<and> WithAutoShed opts)"
    and "st_EnforceAdmission (po_Storage q) \<Longrightarrow> st_EnforceAdmission (po_Storage p)"
    and "po_Thresholds q = po_Thresholds p"
    and "(po_WorkLimits q)\<lparr>WarningCapacityEnabled := b\<rparr> = (po_WorkLimits p)\<lparr>WarningCapacityEnabled := b\<rparr>"
    and "po_EnforceAdmission q \<longleftrightarrow> name \<notin> {PolicyProfileObserve, PolicyProfileMultiAgentSoft}"
  using assms by (cases rule: profile_fields_cases;
      simp add: enforcing_profile_def advisory_profile_def frame_simps)+

lemma profile_fields_defined:
  "validPolicyProfileName name \<Longrightarrow> profile_fields (ToLower (TrimSpace name)) opts p \<noteq> None"
  by (simp add: validPolicyProfileName_def profile_fields_def) blast


section \<open>Properties of the policy\<close>

text \<open>
  The policy of a host that has none is valid whatever the host's CPU count and memory, and
  loading a missing file gives exactly it.
\<close>

theorem default_policy_valid:
  "ValidatePolicy n (DefaultPolicy n mem) = None \<and>
   LoadPolicy n PolicyMissing mem = Inr (DefaultPolicy n mem, False)"
  by (simp add: default_policy_validates)

text \<open>
  Claim C40. Loading settles a policy: whatever a load returns can be saved, and loading it again on the
  same host returns it unchanged. The migrations of retired defaults therefore run once and never
  chase each other.
\<close>

theorem loaded_policy_roundtrip:
  assumes "LoadPolicy n document mem = Inr (p, found)"
  shows "\<exists>saved. SavePolicy n p = Inr saved \<and> LoadPolicy n saved mem = Inr (p, True)"
proof -
  have "migrate_policy (DefaultPolicy n mem) p = p \<and> ValidatePolicy n p = None"
    using assms
    by (cases document) (auto simp: Let_def migrate_default migrate_policy_idem default_policy_validates split: option.splits)
  then show ?thesis by (simp add: SavePolicy_def)
qed


theorem loaded_policy_roundtrip_witness:
  "\<exists>saved. SavePolicy 12 (DefaultPolicy 12 32768) = Inr saved \<and>
     LoadPolicy 12 saved 32768 = Inr (DefaultPolicy 12 32768, True)"
  by (rule loaded_policy_roundtrip [of 12 PolicyMissing 32768 _ False]) simp

definition tuned_policy :: Policy where
  "tuned_policy =
     (DefaultPolicy 16 32768)\<lparr> po_WorkLimits := (defaultWorkLimits 16)\<lparr>
        Capacity := 4, WarningCapacity := 2, SwapThrashCapacity := 3, TestWeight := 2,
        BuildWeight := 3, EmulatorWeight := 3, BrowserWeight := 2, HeavyWeight := 3,
        BenchmarkWeight := 2 \<rparr> \<rparr>"

text \<open>
  A policy that was saved need not load. On a host with sixteen logical CPUs an operator
  caps the work capacity at four units and gives a build three of them. The policy is valid and is
  saved; but three is also the retired default build weight of a capacity of four, so loading
  replaces it by this host's default of eight, and the file is then refused because a build
  outweighs the capacity.
\<close>

theorem saved_policy_refused:
  "SavePolicy 16 tuned_policy = Inr (PolicyDocument tuned_policy) \<and>
   BuildWeight (po_WorkLimits (migrate_policy (DefaultPolicy 16 32768) tuned_policy)) = 8 \<and>
   LoadPolicy 16 (PolicyDocument tuned_policy) 32768 = Inl WeightAboveCapacity"
  by code_simp

lemma profile_result:
  assumes "ValidatePolicy n base = None" and "validPolicyProfileName name"
    and "WithAutoShed opts \<Longrightarrow> ToLower (TrimSpace name) \<noteq> PolicyProfileObserve \<and>
           ToLower (TrimSpace name) \<noteq> PolicyProfileMultiAgentSoft"
  obtains p where "ApplyPolicyProfile n base name opts = Inr p"
    and "ValidatePolicy n p = None"
    and "po_AutoShedCritical p = WithAutoShed opts"
    and "st_EnforceAdmission (po_Storage p) \<Longrightarrow> st_EnforceAdmission (po_Storage base)"
    and "po_Thresholds p = po_Thresholds base"
    and "\<And>b. (po_WorkLimits p)\<lparr>WarningCapacityEnabled := b\<rparr> =
           (po_WorkLimits base)\<lparr>WarningCapacityEnabled := b\<rparr>"
proof -
  let ?n = "ToLower (TrimSpace name)" and ?base = "base\<lparr>po_Enabled := True\<rparr>"
  have v: "ValidatePolicy n ?base = None"
    using assms(1) by (simp add: validate_split schedule_guards_def Let_def)
  have schema: "po_SchemaVersion base \<noteq> 0"
    using assms(1) by (simp add: validate_split schedule_guards_def SchemaVersion_def Let_def)
  obtain q where q: "profile_fields ?n opts ?base = Some q"
    using profile_fields_defined [OF assms(2)] by blast
  note auth = profile_fields_authority [OF q]
  define p where "p = (if MultiAgent opts
    then q\<lparr>po_LaunchAdmission := multiAgentSoftLaunchAdmission (Capacity (po_WorkLimits q))\<rparr> else q)"
  have frame: "po_AutoShedCritical p = po_AutoShedCritical q" "po_Storage p = po_Storage q"
    "po_Thresholds p = po_Thresholds q" "po_WorkLimits p = po_WorkLimits q"
    "po_EnforceAdmission p = po_EnforceAdmission q"
    by (simp_all add: p_def)
  have pv: "ValidatePolicy n p = None"
    using profile_fields_valid [OF q v] launch_override_valid by (simp add: p_def)
  have enf: "WithAutoShed opts \<Longrightarrow> po_EnforceAdmission q"
    using assms(3) auth(5) by blast
  show thesis
  proof (rule that [of p])
    show "ApplyPolicyProfile n base name opts = Inr p"
      using enf pv schema by (simp add: ApplyPolicyProfile_def q Let_def p_def [symmetric] frame)
  qed (use pv auth enf in \<open>auto simp: frame\<close>)
qed


text \<open>
  Profiles only move authority the way they say. A profile applied to a valid policy under any of
  the six accepted names succeeds, unless automatic shedding is asked of a profile that does not
  enforce admission. The result is valid; it sheds automatically only if that was asked for; it
  never gains storage enforcement; and it keeps the pressure thresholds and, but for the
  warning-band switch, the work limits.
\<close>

theorem profile_moves_stated_authority:
  assumes "ValidatePolicy n base = None" and "validPolicyProfileName name"
    and "\<not> (WithAutoShed opts \<and> ToLower (TrimSpace name) \<in>
           {PolicyProfileObserve, PolicyProfileMultiAgentSoft})"
  shows "\<exists>p. ApplyPolicyProfile n base name opts = Inr p \<and> ValidatePolicy n p = None \<and>
     po_AutoShedCritical p = WithAutoShed opts \<and>
     \<not> (st_EnforceAdmission (po_Storage p) \<and> \<not> st_EnforceAdmission (po_Storage base)) \<and>
     po_Thresholds p = po_Thresholds base \<and>
     (po_WorkLimits p)\<lparr>WarningCapacityEnabled := b\<rparr> = (po_WorkLimits base)\<lparr>WarningCapacityEnabled := b\<rparr>"
  by (rule profile_result [OF assms(1,2), of opts]) (use assms(3) in blast)+

theorem profile_moves_stated_authority_witness:
  "\<exists>p. ApplyPolicyProfile 8 (DefaultPolicy 8 0) ''Interactive'' \<lparr>WithAutoShed = True, MultiAgent = True\<rparr> = Inr p \<and>
     ValidatePolicy 8 p = None \<and>
     po_AutoShedCritical p = WithAutoShed \<lparr>WithAutoShed = True, MultiAgent = True\<rparr> \<and>
     \<not> (st_EnforceAdmission (po_Storage p) \<and> \<not> st_EnforceAdmission (po_Storage (DefaultPolicy 8 0))) \<and>
     po_Thresholds p = po_Thresholds (DefaultPolicy 8 0) \<and>
     (po_WorkLimits p)\<lparr>WarningCapacityEnabled := True\<rparr> =
       (po_WorkLimits (DefaultPolicy 8 0))\<lparr>WarningCapacityEnabled := True\<rparr>"
  by (rule profile_moves_stated_authority) code_simp+

end
