(* ===== verification/Pressure_Evaluate.thy ===== *)
theory Pressure_Evaluate
  imports Pressure_Policy
begin

text \<open>
  The pressure ladder (\<^verbatim>\<open>sessionpressure/types.go\<close>) and the controller floors over it
  (\<^verbatim>\<open>sessionpressure/controller.go\<close>). A snapshot is a record with the fields that evaluation,
  admission, the work gate and the thrash latch read or write; the purely diagnostic rest of the Go
  struct is left out. Measurements are finite Go floats that the code only compares and scales, so
  they are rationals. A reason is a value of a datatype with the data its text is formatted from.
  A Go map of phase durations is the list of its entries in the order in which a \<^verbatim>\<open>range\<close> visits
  them.
\<close>

section \<open>Snapshots\<close>

datatype ThermalState =
    ThermalStateUnknown | ThermalStateNominal | ThermalStateFair | ThermalStateSerious
  | ThermalStateCritical | ThermalStateEmpty | OtherThermal string

datatype SemanticState = SemanticStateUnknown | SemanticStateReady | SemanticStateBusy | OtherSemantic string

record AgentTree =
  at_Agent :: string
  at_RootPID :: int
  at_SessionID :: string
  at_Executable :: string
  at_ProcessCount :: int
  at_RSSSumMB :: rat
  at_CPUPercentSum :: rat
  at_CPUAvailable :: bool
  at_ElapsedSeconds :: int
  at_QuiescentSamples :: int
  at_SemanticState :: SemanticState
  at_SemanticStateAt :: time
  at_PIDs :: "int list"

record CoordinatedWorkSnapshot =
  cw_Available :: bool
  cw_Fresh :: bool
  cw_CapturedAt :: time
  cw_InventoryAgeSeconds :: rat
  cw_LeaseCount :: int
  cw_AttributedLeaseCount :: int
  cw_UnattributedLeaseCount :: int
  cw_ProcessCount :: int
  cw_RSSSumMB :: rat
  cw_CPUPercent :: rat
  cw_CPUAvailable :: bool

definition empty_coordinated :: CoordinatedWorkSnapshot where
  "empty_coordinated =
     \<lparr> cw_Available = False, cw_Fresh = False, cw_CapturedAt = 0, cw_InventoryAgeSeconds = 0,
       cw_LeaseCount = 0, cw_AttributedLeaseCount = 0, cw_UnattributedLeaseCount = 0,
       cw_ProcessCount = 0, cw_RSSSumMB = 0, cw_CPUPercent = 0, cw_CPUAvailable = False \<rparr>"

text \<open>
  The reasons of the ladder, of the controller and of the storage dimension. The level of the first
  five is the rung whose threshold was crossed.
\<close>

datatype reason =
    FreeMemory Level int rat
  | AgentTotal Level rat rat
  | TreeTotal Level string int rat rat
  | SwapUse Level rat rat Level
  | HostCPU Level rat rat
  | SwapOutThrash rat rat
  | SwapOutLatched rat rat
  | SwapOutWarning rat rat
  | CorroboratedCPU rat
  | ThermalCritical
  | ThermalSerious
  | LowPower
  | StorageLatched int Level Level int
  | StorageLow int Level
  | QueueDepth int int
  | QueueWait int int

datatype guard_reason =
    SelfRSS rat rat
  | IdleDuty rat rat
  | PressureDuty rat rat
  | RollingDuration rat rat "string \<times> rat"
  | HangDuration rat rat "string \<times> rat"
  | RollingCPUTime rat rat
  | CurrentCPUTime rat rat
  | TelemetryProjection int int

record StorageSnapshot =
  ss_Available :: bool
  ss_TotalBytes :: int
  ss_FreeBytes :: int
  ss_AvailableBytes :: int
  ss_FreePercent :: rat
  ss_Level :: Level
  ss_InstantaneousLevel :: Level
  ss_HysteresisActive :: bool
  ss_ReleaseBytes :: int
  ss_Reasons :: "reason list"
  ss_Error :: string

record Snapshot =
  sn_Timestamp :: time
  sn_Level :: Level
  sn_Reasons :: "reason list"
  sn_FreePercent :: int
  sn_PhysicalMemoryMB :: rat
  sn_SwapUsedMB :: rat
  sn_SwapIOAvailable :: bool
  sn_SwapOutMBPerSecond :: rat
  sn_SwapThrashLatched :: bool
  sn_SwapThrashCause :: string
  sn_SwapThrashSince :: time
  sn_HostCPUPercent :: rat
  sn_HostCPUAvailable :: bool
  sn_HostCPURollingPercent :: rat
  sn_HostCPURollingAvailable :: bool
  sn_HostCPUError :: string
  sn_ThermalState :: ThermalState
  sn_LowPowerMode :: bool
  sn_AgentCPUPercent :: rat
  sn_AgentCPUAvailable :: bool
  sn_CoordinatedWork :: CoordinatedWorkSnapshot
  sn_ProcessCount :: int
  sn_ProcessRSSSumMB :: rat
  sn_AgentTreeCount :: int
  sn_AgentRSSSumMB :: rat
  sn_ProcessInventoryAvailable :: bool
  sn_ProcessInventoryFresh :: bool
  sn_ProcessInventoryCapturedAt :: time
  sn_ProcessInventoryAgeSeconds :: rat
  sn_GuardRSSMB :: rat
  sn_GuardCPUPercent :: rat
  sn_GuardBudgetApplicable :: bool
  sn_MonitorSamples :: int
  sn_NormalMonitorSamples :: int
  sn_GuardRSSMaxMB :: rat
  sn_SampleDurationMS :: rat
  sn_SamplePhaseMS :: "(string \<times> rat) list"
  sn_SamplePhaseP95MS :: "(string \<times> rat) list"
  sn_SampleDurationP95MS :: rat
  sn_SampleCPUTimeMS :: rat
  sn_SampleCPUTimeP95MS :: rat
  sn_ObservedIntervalSeconds :: rat
  sn_GuardIdleCPUDutyPercent :: rat
  sn_TelemetryBytesToday :: int
  sn_TelemetryProjectedBytesDay :: int
  sn_GuardBudgetOK :: bool
  sn_GuardBudgetReasons :: "guard_reason list"
  sn_TopAgentTrees :: "AgentTree list"
  sn_ConsecutiveSamples :: int
  sn_MemoryConsecutiveSamples :: int
  sn_Storage :: StorageSnapshot


section \<open>The ladder\<close>

text \<open>
  A breach is a rung and its reason. Each of the code's switches contributes at most one breach; the
  level is the highest rung of all breaches.
\<close>

type_synonym breach = "Level \<times> reason"

definition worst :: "breach list \<Rightarrow> Level" where
  "worst breaches = foldl (\<lambda>level b. maxLevel level (fst b)) LevelNormal breaches"

definition free_breach :: "Thresholds \<Rightarrow> int \<Rightarrow> breach list" where
  "free_breach t free =
     (if rat_of_int free \<le> FreeCriticalPercent t
      then [(LevelCritical, FreeMemory LevelCritical free (FreeCriticalPercent t))]
      else if rat_of_int free \<le> FreeRedPercent t
      then [(LevelRed, FreeMemory LevelRed free (FreeRedPercent t))]
      else if rat_of_int free \<le> FreeWarningPercent t
      then [(LevelWarning, FreeMemory LevelWarning free (FreeWarningPercent t))]
      else [])"

definition agent_breach :: "Thresholds \<Rightarrow> rat \<Rightarrow> breach list" where
  "agent_breach t rss =
     (if rss \<ge> AgentTotalCriticalMB t
      then [(LevelCritical, AgentTotal LevelCritical rss (AgentTotalCriticalMB t))]
      else if rss \<ge> AgentTotalRedMB t then [(LevelRed, AgentTotal LevelRed rss (AgentTotalRedMB t))]
      else if rss \<ge> AgentTotalWarningMB t
      then [(LevelWarning, AgentTotal LevelWarning rss (AgentTotalWarningMB t))]
      else [])"

fun tree_breach :: "Thresholds \<Rightarrow> AgentTree list \<Rightarrow> breach list" where
  "tree_breach t [] = []"
| "tree_breach t (tree # others) =
     (if at_RSSSumMB tree \<ge> TreeCriticalMB t
      then [(LevelCritical,
             TreeTotal LevelCritical (at_Agent tree) (at_RootPID tree) (at_RSSSumMB tree) (TreeCriticalMB t))]
      else if at_RSSSumMB tree \<ge> TreeRedMB t
      then [(LevelRed, TreeTotal LevelRed (at_Agent tree) (at_RootPID tree) (at_RSSSumMB tree) (TreeRedMB t))]
      else if at_RSSSumMB tree \<ge> TreeWarningMB t
      then [(LevelWarning,
             TreeTotal LevelWarning (at_Agent tree) (at_RootPID tree) (at_RSSSumMB tree) (TreeWarningMB t))]
      else [])"

text \<open>Sticky swap use only corroborates a live breach, and by at most one rung.\<close>

definition swap_use_breach :: "Thresholds \<Rightarrow> rat \<Rightarrow> Level \<Rightarrow> breach list" where
  "swap_use_breach t used live =
     (if used \<ge> SwapCriticalMB t \<and> AtLeast live LevelRed
      then [(LevelCritical, SwapUse LevelCritical used (SwapCriticalMB t) live)]
      else if used \<ge> SwapRedMB t \<and> AtLeast live LevelWarning
      then [(LevelRed, SwapUse LevelRed used (SwapRedMB t) live)]
      else if used \<ge> SwapWarningMB t \<and> AtLeast live LevelWarning
      then [(LevelWarning, SwapUse LevelWarning used (SwapWarningMB t) live)]
      else [])"

definition swap_io_breach :: "Thresholds \<Rightarrow> Snapshot \<Rightarrow> breach list" where
  "swap_io_breach t s =
     (let thrash = SwapOutThrashMBPerSecond t; rate = sn_SwapOutMBPerSecond s in
      if \<not> sn_SwapIOAvailable s then []
      else if thrash > 0 \<and> rate \<ge> thrash then [(LevelWarning, SwapOutThrash rate thrash)]
      else if sn_SwapThrashLatched s
      then [(LevelWarning, SwapOutLatched (SwapOutReleaseMBPerSecond t) rate)]
      else if SwapOutWarningMBPerSecond t > 0 \<and> rate \<ge> SwapOutWarningMBPerSecond t
      then [(LevelWarning, SwapOutWarning rate (SwapOutWarningMBPerSecond t))]
      else [])"

definition cpu_breach :: "Thresholds \<Rightarrow> Snapshot \<Rightarrow> breach list" where
  "cpu_breach t s =
     (let percent = sn_HostCPUPercent s; seen = sn_HostCPUAvailable s \<or> percent > 0 in
      if seen \<and> percent \<ge> HostCPURedPercent t
      then [(LevelRed, HostCPU LevelRed percent (HostCPURedPercent t))]
      else if seen \<and> percent \<ge> HostCPUWarningPercent t
      then [(LevelWarning, HostCPU LevelWarning percent (HostCPUWarningPercent t))]
      else [])"

definition live_breaches :: "Thresholds \<Rightarrow> Snapshot \<Rightarrow> breach list" where
  "live_breaches t s =
     free_breach t (sn_FreePercent s) @ agent_breach t (sn_AgentRSSSumMB s) @
     tree_breach t (sn_TopAgentTrees s)"

definition breaches :: "Thresholds \<Rightarrow> bool \<Rightarrow> Snapshot \<Rightarrow> breach list" where
  "breaches t includeCPU s =
     live_breaches t s @ swap_use_breach t (sn_SwapUsedMB s) (worst (live_breaches t s)) @
     (if includeCPU then swap_io_breach t s @ cpu_breach t s else [])"

text \<open>\<^verbatim>\<open>sort.SliceStable\<close> with the most severe rung first.\<close>

definition breach_reasons :: "breach list \<Rightarrow> reason list" where
  "breach_reasons bs = map snd (sort_key (\<lambda>b. - levelRank (fst b)) bs)"


section \<open>The resident's own budget\<close>

definition p95SingleOutlierExclusionSamples :: int where
  "p95SingleOutlierExclusionSamples = 20"

text \<open>The entry with the largest positive duration, and of equal ones the smallest name.\<close>

definition dominant_step :: "string \<times> rat \<Rightarrow> string \<times> rat \<Rightarrow> string \<times> rat" where
  "dominant_step best entry =
     (case best of (name, duration) \<Rightarrow> case entry of (candidate, v) \<Rightarrow>
        if v > duration \<or> (v = duration \<and> v > 0 \<and> (name = [] \<or> candidate < name))
        then (candidate, v) else (name, duration))"

definition dominantSamplePhase :: "(string \<times> rat) list \<Rightarrow> string \<times> rat" where
  "dominantSamplePhase phases = foldl dominant_step ([], 0) phases"

definition rolling_p95 :: "Policy \<Rightarrow> Snapshot \<Rightarrow> bool" where
  "rolling_p95 p s \<longleftrightarrow>
     sn_MonitorSamples s \<ge> SustainSamples p \<and> sn_MonitorSamples s \<ge> p95SingleOutlierExclusionSamples"

definition rss_metric :: "Policy \<Rightarrow> Snapshot \<Rightarrow> rat" where
  "rss_metric p s =
     (if sn_MonitorSamples s \<ge> SustainSamples p \<and> sn_GuardRSSMaxMB s > 0 then sn_GuardRSSMaxMB s
      else sn_GuardRSSMB s)"

definition cpu_metric :: "Policy \<Rightarrow> Snapshot \<Rightarrow> rat" where
  "cpu_metric p s =
     (let interval = (if sn_ObservedIntervalSeconds s > 0 then sn_ObservedIntervalSeconds s
                      else rat_of_int (po_SampleIntervalSeconds p))
      in if interval > 0 \<and> sn_SampleCPUTimeMS s > 0
         then sn_SampleCPUTimeMS s / (interval * 10) else sn_GuardCPUPercent s)"

definition duration_metric :: "Policy \<Rightarrow> Snapshot \<Rightarrow> rat" where
  "duration_metric p s =
     (if rolling_p95 p s \<and> sn_SampleDurationP95MS s > 0 then sn_SampleDurationP95MS s
      else sn_SampleDurationMS s)"

definition cpu_time_metric :: "Policy \<Rightarrow> Snapshot \<Rightarrow> rat" where
  "cpu_time_metric p s =
     (if rolling_p95 p s \<and> sn_SampleCPUTimeP95MS s > 0 then sn_SampleCPUTimeP95MS s
      else sn_SampleCPUTimeMS s)"

definition duty_reasons :: "Policy \<Rightarrow> Level \<Rightarrow> Snapshot \<Rightarrow> guard_reason list" where
  "duty_reasons p level s =
     (let b = po_ResourceBudgets p; cpu = cpu_metric p s in
      if level = LevelNormal then
        (let cpu = (if sn_NormalMonitorSamples s \<ge> SustainSamples p then sn_GuardIdleCPUDutyPercent s
                    else cpu)
         in if cpu > MaxIdleCPUPercent b then [IdleDuty cpu (MaxIdleCPUPercent b)] else [])
      else if cpu > MaxPressureCPUPercent b then [PressureDuty cpu (MaxPressureCPUPercent b)] else [])"

definition duration_reasons :: "Policy \<Rightarrow> Snapshot \<Rightarrow> guard_reason list" where
  "duration_reasons p s =
     (let budget = MaxSampleDurationMS (po_ResourceBudgets p); d = duration_metric p s;
          limit = (if rolling_p95 p s then budget else max budget 10000)
      in if d > limit then
           (if rolling_p95 p s
            then [RollingDuration d budget (dominantSamplePhase (sn_SamplePhaseP95MS s))]
            else [HangDuration d limit (dominantSamplePhase (sn_SamplePhaseMS s))])
         else [])"

definition cpu_time_reasons :: "Policy \<Rightarrow> Snapshot \<Rightarrow> guard_reason list" where
  "cpu_time_reasons p s =
     (let budget = MaxSampleCPUTimeMS (po_ResourceBudgets p); m = cpu_time_metric p s in
      if m > budget
      then [if rolling_p95 p s then RollingCPUTime m budget else CurrentCPUTime m budget]
      else [])"

definition telemetry_reasons :: "Policy \<Rightarrow> Snapshot \<Rightarrow> guard_reason list" where
  "telemetry_reasons p s =
     (let budget = MaxTelemetryBytesDay (po_ResourceBudgets p);
          m = (if sn_TelemetryProjectedBytesDay s > sn_TelemetryBytesToday s
               then sn_TelemetryProjectedBytesDay s else sn_TelemetryBytesToday s)
      in if m > budget then [TelemetryProjection m budget] else [])"

definition guard_reasons :: "Policy \<Rightarrow> Level \<Rightarrow> Snapshot \<Rightarrow> guard_reason list" where
  "guard_reasons p level s =
     (if \<not> sn_GuardBudgetApplicable s then []
      else (if rss_metric p s > MaxSelfRSSMB (po_ResourceBudgets p)
            then [SelfRSS (rss_metric p s) (MaxSelfRSSMB (po_ResourceBudgets p))] else []) @
           duty_reasons p level s @ duration_reasons p s @ cpu_time_reasons p s @
           telemetry_reasons p s)"


section \<open>Evaluation\<close>

definition evaluate :: "Snapshot \<Rightarrow> Policy \<Rightarrow> bool \<Rightarrow> Snapshot" where
  "evaluate s p includeCPU =
     (let bs = breaches (po_Thresholds p) includeCPU s; level = worst bs;
          guard = guard_reasons p level s
      in s\<lparr> sn_Level := level, sn_Reasons := breach_reasons bs,
            sn_GuardBudgetOK := (guard = []), sn_GuardBudgetReasons := guard \<rparr>)"

definition Evaluate :: "Snapshot \<Rightarrow> Policy \<Rightarrow> Snapshot" where
  "Evaluate s p = evaluate s p True"

definition EvaluateMemoryPressure :: "Snapshot \<Rightarrow> Policy \<Rightarrow> Snapshot" where
  "EvaluateMemoryPressure s p = evaluate s p False"

definition storage_instantaneous :: "StoragePolicy \<Rightarrow> int \<Rightarrow> Level" where
  "storage_instantaneous p free =
     (if free < CriticalFreeBytes p then LevelCritical
      else if free < RedFreeBytes p then LevelRed
      else if free < WarningFreeBytes p then LevelWarning else LevelNormal)"

fun release_bytes :: "StoragePolicy \<Rightarrow> Level \<Rightarrow> int option" where
  "release_bytes p LevelCritical = Some (CriticalReleaseBytes p)"
| "release_bytes p LevelRed = Some (RedReleaseBytes p)"
| "release_bytes p LevelWarning = Some (WarningReleaseBytes p)"
| "release_bytes p _ = None"

definition EvaluateStorage :: "StorageSnapshot \<Rightarrow> StoragePolicy \<Rightarrow> Level \<Rightarrow> StorageSnapshot" where
  "EvaluateStorage sample p previous =
     (let sample = sample\<lparr> ss_Level := LevelNormal, ss_InstantaneousLevel := LevelNormal,
                           ss_HysteresisActive := False, ss_ReleaseBytes := 0, ss_Reasons := [] \<rparr> in
      if \<not> st_Enabled p \<or> \<not> ss_Available sample then sample
      else
        let free = ss_AvailableBytes sample;
            now = storage_instantaneous p free;
            (level, release) =
              (case release_bytes p previous of
                 Some r \<Rightarrow> if free < r then (maxLevel now previous, r) else (now, 0)
               | None \<Rightarrow> (now, 0));
            active = levelRank level > levelRank now
        in sample\<lparr> ss_Level := level, ss_InstantaneousLevel := now, ss_HysteresisActive := active,
                   ss_ReleaseBytes := release,
                   ss_Reasons := (if level = LevelNormal then []
                                  else if active then [StorageLatched free now level release]
                                  else [StorageLow free level]) \<rparr>)"


section \<open>The controller\<close>

datatype ControllerMode =
  ControllerModeNormal | ControllerModeBusy | ControllerModeStressed | ControllerModeEmergency

record ControllerDecision =
  cd_Mode :: ControllerMode
  cd_CPUStress :: bool
  cd_ThermalState :: ThermalState
  cd_LowPowerMode :: bool
  cd_BlockWork :: bool
  cd_BlockAgentLaunch :: bool
  cd_SwapThrash :: bool
  cd_SwapThrashCause :: string
  cd_Dimension :: string
  cd_Reasons :: "reason list"

definition cpu_stress :: "Snapshot \<Rightarrow> Policy \<Rightarrow> bool" where
  "cpu_stress s p \<longleftrightarrow>
     (let red = HostCPURedPercent (po_Thresholds p);
          redCPU = (if red \<le> 0 then 95 else red);
          blockSamples = max 2 (CPUBlockSamples (po_WorkLimits p))
      in sn_HostCPUAvailable s \<and> sn_HostCPUPercent s \<ge> redCPU \<and>
         ((sn_HostCPURollingAvailable s \<and> sn_HostCPURollingPercent s \<ge> redCPU) \<or>
          sn_ConsecutiveSamples s \<ge> blockSamples))"

definition ClassifyController :: "Snapshot \<Rightarrow> Policy \<Rightarrow> ControllerDecision" where
  "ClassifyController snapshot p =
     (let s = Evaluate snapshot p;
          cpuStress = cpu_stress s p;
          thermal = (if sn_ThermalState s = ThermalStateEmpty then ThermalStateUnknown
                     else sn_ThermalState s);
          memory = EvaluateMemoryPressure s p;
          thrash = (sn_SwapIOAvailable s \<and> sn_SwapThrashLatched s);
          decision = \<lparr> cd_Mode = ControllerModeNormal, cd_CPUStress = cpuStress,
                       cd_ThermalState = thermal, cd_LowPowerMode = sn_LowPowerMode s,
                       cd_BlockWork = False, cd_BlockAgentLaunch = False, cd_SwapThrash = thrash,
                       cd_SwapThrashCause = (if thrash then sn_SwapThrashCause s else []),
                       cd_Dimension = [], cd_Reasons = [] \<rparr>
      in if AtLeast (sn_Level memory) LevelCritical \<or> thermal = ThermalStateCritical then
           (if AtLeast (sn_Level memory) LevelCritical
            then decision\<lparr> cd_Dimension := ''memory'', cd_Reasons := sn_Reasons memory \<rparr>
            else decision\<lparr> cd_Dimension := ''thermal'', cd_Reasons := [ThermalCritical] \<rparr>)
             \<lparr> cd_Mode := ControllerModeEmergency, cd_BlockWork := True,
               cd_BlockAgentLaunch :=
                 (thermal = ThermalStateCritical \<or> AtLeast (sn_Level memory) (BlockNewAt p)) \<rparr>
         else if AtLeast (sn_Level memory) (BlockNewAt p) then
           decision\<lparr> cd_Mode := ControllerModeStressed, cd_BlockWork := True,
                     cd_BlockAgentLaunch := True, cd_Dimension := ''memory'',
                     cd_Reasons := sn_Reasons memory \<rparr>
         else if cpuStress \<or> thermal = ThermalStateSerious then
           (if cpuStress
            then decision\<lparr> cd_Dimension := ''cpu'', cd_Reasons := [CorroboratedCPU (sn_HostCPUPercent s)] \<rparr>
            else decision\<lparr> cd_Dimension := ''thermal'', cd_Reasons := [ThermalSerious] \<rparr>)
             \<lparr> cd_Mode := ControllerModeStressed, cd_BlockWork := True \<rparr>
         else if AtLeast (sn_Level s) LevelWarning \<or> sn_LowPowerMode s then
           decision\<lparr> cd_Mode := ControllerModeBusy,
                     cd_Reasons := (if sn_LowPowerMode s then [LowPower] else []) \<rparr>
         else decision)"



section \<open>Facts\<close>

lemma worst_Nil [simp]: "worst [] = LevelNormal"
  by (simp add: worst_def)

lemma foldl_maxLevel_rank:
  "levelRank (foldl (\<lambda>l b. maxLevel l (fst b)) l bs) = max (levelRank l) (levelRank (worst bs))"
proof (induction bs rule: rev_induct)
  case Nil
  then show ?case using levelRank_range [of l] by simp
next
  case (snoc b bs)
  then show ?case by (simp add: worst_def max.assoc)
qed

lemma rank_worst_append [simp]:
  "levelRank (worst (a @ b)) = max (levelRank (worst a)) (levelRank (worst b))"
  by (simp add: worst_def [of "a @ b"] foldl_maxLevel_rank worst_def [of a, symmetric])

lemma rank_worst_Cons [simp]:
  "levelRank (worst (b # bs)) = max (levelRank (fst b)) (levelRank (worst bs))"
  using rank_worst_append [of "[b]" bs] levelRank_range [of "fst b"]
  by (simp add: worst_def [of "[b]"])

lemma rank_worst_nonneg [simp]: "0 \<le> levelRank (worst bs)"
  using levelRank_range by blast

lemma rank_le_worst: "b \<in> set bs \<Longrightarrow> levelRank (fst b) \<le> levelRank (worst bs)"
  by (induction bs) auto

text \<open>The breaches of one switch: what rungs it can give.\<close>

lemma worst_rungs:
  "bs \<noteq> [] \<Longrightarrow> \<exists>b \<in> set bs. levelRank (fst b) = levelRank (worst bs)"
proof (induction bs)
  case (Cons b bs)
  then show ?case
  proof (cases "bs = []")
    case True
    then show ?thesis using levelRank_range [of "fst b"] by simp
  next
    case False
    with Cons.IH obtain c where "c \<in> set bs" "levelRank (fst c) = levelRank (worst bs)" by blast
    then show ?thesis by (cases "levelRank (fst b) \<ge> levelRank (worst bs)") (auto simp: max_def)
  qed
qed simp

definition proper_rungs :: "breach list \<Rightarrow> bool" where
  "proper_rungs bs \<longleftrightarrow> list_all (\<lambda>b. fst b \<in> {LevelWarning, LevelRed, LevelCritical}) bs"

lemma proper_rungs_append [simp]: "proper_rungs (a @ b) \<longleftrightarrow> proper_rungs a \<and> proper_rungs b"
  by (simp add: proper_rungs_def)

lemma switch_proper [simp]:
  "proper_rungs (free_breach t free)" "proper_rungs (agent_breach t rss)"
  "proper_rungs (tree_breach t trees)" "proper_rungs (swap_use_breach t used live)"
  "proper_rungs (swap_io_breach t s)" "proper_rungs (cpu_breach t s)"
       apply (simp add: proper_rungs_def free_breach_def)
      apply (simp add: proper_rungs_def agent_breach_def)
     apply (cases trees; simp add: proper_rungs_def)
    apply (simp add: proper_rungs_def swap_use_breach_def)
   apply (simp add: proper_rungs_def swap_io_breach_def Let_def)
  apply (simp add: proper_rungs_def cpu_breach_def Let_def)
  done

lemma breaches_proper: "proper_rungs (breaches t c s)"
  by (simp add: breaches_def live_breaches_def) (simp add: proper_rungs_def)

lemma worst_proper:
  "proper_rungs bs \<Longrightarrow> worst bs \<in> {LevelNormal, LevelWarning, LevelRed, LevelCritical}"
proof (induction bs rule: rev_induct)
  case (snoc b bs)
  then show ?case
    by (auto simp: worst_def maxLevel_def proper_rungs_def)
qed simp

lemma rank_normal_iff:
  "l \<in> {LevelNormal, LevelWarning, LevelRed, LevelCritical} \<Longrightarrow> levelRank l = 0 \<longleftrightarrow> l = LevelNormal"
  by auto

lemma proper_worst_normal: "proper_rungs bs \<Longrightarrow> worst bs = LevelNormal \<longleftrightarrow> bs = []"
proof -
  assume p: "proper_rungs bs"
  have "bs \<noteq> [] \<Longrightarrow> 0 < levelRank (worst bs)"
  proof -
    assume "bs \<noteq> []"
    then obtain b where "b \<in> set bs" by (cases bs) auto
    moreover from this p have "0 < levelRank (fst b)"
      by (auto simp: proper_rungs_def list_all_iff)
    ultimately show ?thesis using rank_le_worst [of b bs] by linarith
  qed
  then show ?thesis by (cases "bs = []") auto
qed

subsection \<open>The two ladders\<close>

definition memory_level :: "Snapshot \<Rightarrow> Policy \<Rightarrow> Level" where
  "memory_level s p = sn_Level (EvaluateMemoryPressure s p)"

lemma Evaluate_level: "sn_Level (Evaluate s p) = worst (breaches (po_Thresholds p) True s)"
  by (simp add: Evaluate_def evaluate_def Let_def)

lemma memory_level_eq: "memory_level s p = worst (breaches (po_Thresholds p) False s)"
  by (simp add: memory_level_def EvaluateMemoryPressure_def evaluate_def Let_def)

lemma breaches_split:
  "breaches t True s = breaches t False s @ swap_io_breach t s @ cpu_breach t s"
  by (simp add: breaches_def)

lemma rank_swap_io: "levelRank (worst (swap_io_breach t s)) \<le> 1"
  by (simp add: swap_io_breach_def Let_def)

lemma rank_cpu: "levelRank (worst (cpu_breach t s)) \<le> 2"
  by (simp add: cpu_breach_def Let_def)

lemma rank_Evaluate:
  "levelRank (sn_Level (Evaluate s p)) =
     max (levelRank (memory_level s p))
       (max (levelRank (worst (swap_io_breach (po_Thresholds p) s)))
         (levelRank (worst (cpu_breach (po_Thresholds p) s))))"
  by (simp add: Evaluate_level memory_level_eq breaches_split max.assoc)

lemma memory_level_proper: "memory_level s p \<in> {LevelNormal, LevelWarning, LevelRed, LevelCritical}"
  unfolding memory_level_eq by (rule worst_proper [OF breaches_proper])

lemma Evaluate_level_proper:
  "sn_Level (Evaluate s p) \<in> {LevelNormal, LevelWarning, LevelRed, LevelCritical}"
  unfolding Evaluate_level by (rule worst_proper [OF breaches_proper])

text \<open>Evaluation only writes the four fields it computes, and reads none of them.\<close>

lemma evaluate_reads:
  "breaches t c (s\<lparr> sn_Level := l, sn_Reasons := r, sn_GuardBudgetOK := g, sn_GuardBudgetReasons := gr \<rparr>) =
     breaches t c s"
  by (simp add: breaches_def live_breaches_def swap_io_breach_def cpu_breach_def Let_def)

lemma breaches_Evaluate [simp]: "breaches t c (Evaluate s p) = breaches t c s"
  by (simp add: Evaluate_def evaluate_def Let_def evaluate_reads)

lemma memory_level_Evaluate [simp]: "memory_level (Evaluate s p) q = memory_level s q"
  by (simp add: memory_level_eq)

lemma Evaluate_level_Evaluate [simp]: "sn_Level (Evaluate (Evaluate s p) q) = sn_Level (Evaluate s q)"
  by (simp add: Evaluate_level)

lemma Evaluate_frame [simp]:
  "sn_HostCPUAvailable (Evaluate s p) = sn_HostCPUAvailable s"
  "sn_HostCPUPercent (Evaluate s p) = sn_HostCPUPercent s"
  "sn_HostCPURollingAvailable (Evaluate s p) = sn_HostCPURollingAvailable s"
  "sn_HostCPURollingPercent (Evaluate s p) = sn_HostCPURollingPercent s"
  "sn_ConsecutiveSamples (Evaluate s p) = sn_ConsecutiveSamples s"
  "sn_HostCPUError (Evaluate s p) = sn_HostCPUError s"
  "sn_ThermalState (Evaluate s p) = sn_ThermalState s"
  "sn_SwapIOAvailable (Evaluate s p) = sn_SwapIOAvailable s"
  "sn_SwapThrashLatched (Evaluate s p) = sn_SwapThrashLatched s"
  "sn_SwapThrashCause (Evaluate s p) = sn_SwapThrashCause s"
  "sn_SwapOutMBPerSecond (Evaluate s p) = sn_SwapOutMBPerSecond s"
  "sn_LowPowerMode (Evaluate s p) = sn_LowPowerMode s"
  "sn_CoordinatedWork (Evaluate s p) = sn_CoordinatedWork s"
  "sn_Storage (Evaluate s p) = sn_Storage s"
  by (simp_all add: Evaluate_def evaluate_def Let_def)

lemma cpu_stress_Evaluate [simp]: "cpu_stress (Evaluate s p) q = cpu_stress s q"
  by (simp add: cpu_stress_def)



subsection \<open>Monotonicity\<close>

text \<open>
  One snapshot is no better than another when every measurement the ladder reads is at least as bad
  and no measurement has become unavailable.
\<close>

fun heavier_top :: "AgentTree list \<Rightarrow> AgentTree list \<Rightarrow> bool" where
  "heavier_top [] _ = True"
| "heavier_top (a # _) (b # _) = (at_RSSSumMB a \<le> at_RSSSumMB b)"
| "heavier_top (_ # _) [] = False"

definition worse_evidence :: "Snapshot \<Rightarrow> Snapshot \<Rightarrow> bool" where
  "worse_evidence s s' \<longleftrightarrow>
     sn_FreePercent s' \<le> sn_FreePercent s \<and> sn_AgentRSSSumMB s \<le> sn_AgentRSSSumMB s' \<and>
     heavier_top (sn_TopAgentTrees s) (sn_TopAgentTrees s') \<and>
     sn_SwapUsedMB s \<le> sn_SwapUsedMB s' \<and>
     (sn_SwapIOAvailable s \<longrightarrow> sn_SwapIOAvailable s') \<and>
     sn_SwapOutMBPerSecond s \<le> sn_SwapOutMBPerSecond s' \<and>
     (sn_SwapThrashLatched s \<longrightarrow> sn_SwapThrashLatched s') \<and>
     (sn_HostCPUAvailable s \<longrightarrow> sn_HostCPUAvailable s') \<and>
     sn_HostCPUPercent s \<le> sn_HostCPUPercent s'"

lemma free_mono:
  "free' \<le> free \<Longrightarrow> levelRank (worst (free_breach t free)) \<le> levelRank (worst (free_breach t free'))"
proof -
  assume "free' \<le> free"
  then have "rat_of_int free' \<le> rat_of_int free" by simp
  then show ?thesis by (simp add: free_breach_def)
qed

lemma agent_mono:
  "rss \<le> rss' \<Longrightarrow> levelRank (worst (agent_breach t rss)) \<le> levelRank (worst (agent_breach t rss'))"
  by (simp add: agent_breach_def)

lemma tree_mono:
  "heavier_top a b \<Longrightarrow> levelRank (worst (tree_breach t a)) \<le> levelRank (worst (tree_breach t b))"
  by (cases a; cases b) simp_all

lemma swap_use_mono:
  "used \<le> used' \<Longrightarrow> levelRank live \<le> levelRank live' \<Longrightarrow>
     levelRank (worst (swap_use_breach t used live)) \<le> levelRank (worst (swap_use_breach t used' live'))"
  by (simp add: swap_use_breach_def AtLeast_def)

lemma swap_io_mono:
  "worse_evidence s s' \<Longrightarrow>
     levelRank (worst (swap_io_breach t s)) \<le> levelRank (worst (swap_io_breach t s'))"
  by (auto simp: worse_evidence_def swap_io_breach_def Let_def)

lemma cpu_mono:
  "worse_evidence s s' \<Longrightarrow> levelRank (worst (cpu_breach t s)) \<le> levelRank (worst (cpu_breach t s'))"
  by (auto simp: worse_evidence_def cpu_breach_def Let_def)

lemma live_mono:
  assumes "worse_evidence s s'"
  shows "levelRank (worst (live_breaches t s)) \<le> levelRank (worst (live_breaches t s'))"
proof -
  have "levelRank (worst (free_breach t (sn_FreePercent s))) \<le> levelRank (worst (free_breach t (sn_FreePercent s')))"
    "levelRank (worst (agent_breach t (sn_AgentRSSSumMB s))) \<le> levelRank (worst (agent_breach t (sn_AgentRSSSumMB s')))"
    "levelRank (worst (tree_breach t (sn_TopAgentTrees s))) \<le> levelRank (worst (tree_breach t (sn_TopAgentTrees s')))"
    using assms by (simp_all add: worse_evidence_def free_mono agent_mono tree_mono)
  then show ?thesis by (auto simp: live_breaches_def)
qed

lemma ladder_mono:
  assumes "worse_evidence s s'"
  shows "levelRank (memory_level s p) \<le> levelRank (memory_level s' p)"
    and "levelRank (sn_Level (Evaluate s p)) \<le> levelRank (sn_Level (Evaluate s' p))"
proof -
  let ?t = "po_Thresholds p"
  have "levelRank (worst (swap_use_breach ?t (sn_SwapUsedMB s) (worst (live_breaches ?t s))))
      \<le> levelRank (worst (swap_use_breach ?t (sn_SwapUsedMB s') (worst (live_breaches ?t s'))))"
    using assms live_mono [OF assms] by (intro swap_use_mono) (simp_all add: worse_evidence_def)
  then show m: "levelRank (memory_level s p) \<le> levelRank (memory_level s' p)"
    using live_mono [OF assms, of ?t] by (auto simp: memory_level_eq breaches_def)
  show "levelRank (sn_Level (Evaluate s p)) \<le> levelRank (sn_Level (Evaluate s' p))"
    using m swap_io_mono [OF assms, of ?t] cpu_mono [OF assms, of ?t]
    unfolding rank_Evaluate by linarith
qed

subsection \<open>Reasons\<close>

fun reason_level :: "reason \<Rightarrow> Level" where
  "reason_level (FreeMemory l _ _) = l"
| "reason_level (AgentTotal l _ _) = l"
| "reason_level (TreeTotal l _ _ _ _) = l"
| "reason_level (SwapUse l _ _ _) = l"
| "reason_level (HostCPU l _ _) = l"
| "reason_level (SwapOutThrash _ _) = LevelWarning"
| "reason_level (SwapOutLatched _ _) = LevelWarning"
| "reason_level (SwapOutWarning _ _) = LevelWarning"
| "reason_level _ = LevelNormal"

definition labelled :: "breach list \<Rightarrow> bool" where
  "labelled bs \<longleftrightarrow> list_all (\<lambda>b. reason_level (snd b) = fst b) bs"

lemma labelled_append [simp]: "labelled (a @ b) \<longleftrightarrow> labelled a \<and> labelled b"
  by (simp add: labelled_def)

lemma switch_labelled [simp]:
  "labelled (free_breach t free)" "labelled (agent_breach t rss)" "labelled (tree_breach t trees)"
  "labelled (swap_use_breach t used live)" "labelled (swap_io_breach t s)" "labelled (cpu_breach t s)"
       apply (simp add: labelled_def free_breach_def)
      apply (simp add: labelled_def agent_breach_def)
     apply (cases trees; simp add: labelled_def)
    apply (simp add: labelled_def swap_use_breach_def)
   apply (simp add: labelled_def swap_io_breach_def Let_def)
  apply (simp add: labelled_def cpu_breach_def Let_def)
  done

lemma breaches_labelled: "labelled (breaches t c s)"
  by (simp add: breaches_def live_breaches_def) (simp add: labelled_def)

lemma reasons_sorted:
  assumes "labelled bs"
  shows "sorted_wrt (\<lambda>r r'. levelRank (reason_level r) \<ge> levelRank (reason_level r')) (breach_reasons bs)"
proof -
  let ?k = "\<lambda>b. - levelRank (fst b)"
  have eq: "map (\<lambda>b. - levelRank (reason_level (snd b))) (sort_key ?k bs) = map ?k (sort_key ?k bs)"
    using assms by (intro map_cong) (auto simp: labelled_def list_all_iff)
  have "sorted (map (\<lambda>r. - levelRank (reason_level r)) (breach_reasons bs))"
    by (simp only: breach_reasons_def map_map comp_def eq sorted_sort_key)
  then show ?thesis
    unfolding sorted_wrt_map by (rule sorted_wrt_mono_rel [rotated]) simp
qed

lemma first_reason:
  assumes "labelled bs" and "proper_rungs bs" and "bs \<noteq> []"
  obtains r rs where "breach_reasons bs = r # rs" and "reason_level r = worst bs"
proof -
  obtain r rs where r: "breach_reasons bs = r # rs"
    using assms(3) by (cases "breach_reasons bs") (auto simp: breach_reasons_def dest: arg_cong [of _ _ length])
  have in_bs: "r' \<in> set (breach_reasons bs) \<longleftrightarrow> (\<exists>b \<in> set bs. snd b = r')" for r'
    by (auto simp: breach_reasons_def)
  obtain b where b: "b \<in> set bs" "levelRank (fst b) = levelRank (worst bs)"
    using worst_rungs [OF assms(3)] by blast
  then have "snd b \<in> set (r # rs)" "reason_level (snd b) = fst b"
    using in_bs r assms(1) by (auto simp: labelled_def list_all_iff)
  with reasons_sorted [OF assms(1)] r b have "levelRank (worst bs) \<le> levelRank (reason_level r)"
    by auto
  moreover obtain c where c: "c \<in> set bs" "snd c = r"
    using in_bs [of r] r by auto
  then have "reason_level r = fst c"
    using assms(1) by (auto simp: labelled_def list_all_iff)
  moreover have "fst c \<in> {LevelWarning, LevelRed, LevelCritical}"
    using assms(2) c by (auto simp: proper_rungs_def list_all_iff)
  ultimately have "reason_level r = worst bs"
    using rank_le_worst [OF c(1)] worst_proper [OF assms(2)] by auto
  then show thesis using r that by blast
qed



section \<open>Properties of the ladder\<close>

text \<open>A host with nothing wrong, which the witnesses vary.\<close>

definition calm_storage :: StorageSnapshot where
  "calm_storage =
     \<lparr> ss_Available = True, ss_TotalBytes = 1000 * 2 ^ 30, ss_FreeBytes = 500 * 2 ^ 30,
       ss_AvailableBytes = 500 * 2 ^ 30, ss_FreePercent = 50, ss_Level = LevelNormal,
       ss_InstantaneousLevel = LevelNormal, ss_HysteresisActive = False, ss_ReleaseBytes = 0,
       ss_Reasons = [], ss_Error = [] \<rparr>"

definition calm_snapshot :: Snapshot where
  "calm_snapshot =
     \<lparr> sn_Timestamp = 0, sn_Level = LevelNormal, sn_Reasons = [], sn_FreePercent = 60,
       sn_PhysicalMemoryMB = 16384, sn_SwapUsedMB = 0, sn_SwapIOAvailable = True,
       sn_SwapOutMBPerSecond = 0, sn_SwapThrashLatched = False, sn_SwapThrashCause = [],
       sn_SwapThrashSince = 0, sn_HostCPUPercent = 10, sn_HostCPUAvailable = True,
       sn_HostCPURollingPercent = 10, sn_HostCPURollingAvailable = True, sn_HostCPUError = [],
       sn_ThermalState = ThermalStateNominal, sn_LowPowerMode = False, sn_AgentCPUPercent = 0,
       sn_AgentCPUAvailable = True, sn_CoordinatedWork = empty_coordinated, sn_ProcessCount = 300,
       sn_ProcessRSSSumMB = 4000, sn_AgentTreeCount = 0, sn_AgentRSSSumMB = 0,
       sn_ProcessInventoryAvailable = True, sn_ProcessInventoryFresh = True,
       sn_ProcessInventoryCapturedAt = 0, sn_ProcessInventoryAgeSeconds = 0, sn_GuardRSSMB = 20,
       sn_GuardCPUPercent = 0, sn_GuardBudgetApplicable = False, sn_MonitorSamples = 0,
       sn_NormalMonitorSamples = 0, sn_GuardRSSMaxMB = 0, sn_SampleDurationMS = 100,
       sn_SamplePhaseMS = [], sn_SamplePhaseP95MS = [], sn_SampleDurationP95MS = 0,
       sn_SampleCPUTimeMS = 20, sn_SampleCPUTimeP95MS = 0, sn_ObservedIntervalSeconds = 0,
       sn_GuardIdleCPUDutyPercent = 0, sn_TelemetryBytesToday = 0,
       sn_TelemetryProjectedBytesDay = 0, sn_GuardBudgetOK = True, sn_GuardBudgetReasons = [],
       sn_TopAgentTrees = [], sn_ConsecutiveSamples = 0, sn_MemoryConsecutiveSamples = 0,
       sn_Storage = calm_storage \<rparr>"

text \<open>
  Only memory can make the host critical, and sticky swap cannot do it alone. The full ladder is
  critical exactly when the memory ladder is; CPU and live swap-out together raise the level to red
  at most; swap in use lifts a live memory breach by one rung at most and lifts nothing when there
  is no live breach.
\<close>

theorem only_memory_is_critical:
  "(sn_Level (Evaluate s p) = LevelCritical \<longleftrightarrow> sn_Level (EvaluateMemoryPressure s p) = LevelCritical) \<and>
   levelRank (sn_Level (Evaluate s p)) \<le> max 2 (levelRank (sn_Level (EvaluateMemoryPressure s p))) \<and>
   levelRank (sn_Level (EvaluateMemoryPressure s p)) \<le>
     levelRank (worst (live_breaches (po_Thresholds p) s)) + 1 \<and>
   (sn_Level (EvaluateMemoryPressure s p) = LevelNormal \<longleftrightarrow>
     live_breaches (po_Thresholds p) s = [])"
  unfolding memory_level_def [symmetric]
proof (intro conjI)
  let ?t = "po_Thresholds p"
  have r: "levelRank (sn_Level (Evaluate s p)) \<le> max 2 (levelRank (memory_level s p))"
    "levelRank (memory_level s p) \<le> levelRank (sn_Level (Evaluate s p))"
    using rank_swap_io [of ?t s] rank_cpu [of ?t s] by (auto simp: rank_Evaluate)
  then show "levelRank (sn_Level (Evaluate s p)) \<le> max 2 (levelRank (memory_level s p))" by simp
  show "sn_Level (Evaluate s p) = LevelCritical \<longleftrightarrow> memory_level s p = LevelCritical"
    using r memory_level_proper [of s p] Evaluate_level_proper [of s p] by auto
  let ?live = "worst (live_breaches ?t s)"
  have "levelRank (worst (swap_use_breach ?t used ?live)) \<le> levelRank ?live + 1" for used
    by (simp add: swap_use_breach_def AtLeast_def)
  then show "levelRank (memory_level s p) \<le> levelRank ?live + 1"
    by (simp add: memory_level_eq breaches_def)
  have "live_breaches ?t s = [] \<Longrightarrow> breaches ?t False s = []"
    by (simp add: breaches_def swap_use_breach_def AtLeast_def)
  then show "memory_level s p = LevelNormal \<longleftrightarrow> live_breaches ?t s = []"
    unfolding memory_level_eq proper_worst_normal [OF breaches_proper]
    by (auto simp: breaches_def)
qed

text \<open>
  Worse evidence never lowers the level: when every measurement is at least as bad and none has
  become unavailable, neither the full ladder nor the memory ladder reports a lower rung, whatever
  the thresholds.
\<close>

theorem worse_evidence_never_lowers:
  assumes "worse_evidence s s'"
  shows "AtLeast (sn_Level (Evaluate s' p)) (sn_Level (Evaluate s p)) \<and>
    AtLeast (sn_Level (EvaluateMemoryPressure s' p)) (sn_Level (EvaluateMemoryPressure s p))"
  using ladder_mono [OF assms] by (simp add: AtLeast_def memory_level_def)

theorem worse_evidence_never_lowers_witness:
  "AtLeast (sn_Level (Evaluate (calm_snapshot\<lparr>sn_FreePercent := 12, sn_HostCPUPercent := 97\<rparr>) (DefaultPolicy 8 0)))
     (sn_Level (Evaluate (calm_snapshot\<lparr>sn_HostCPUPercent := 90\<rparr>) (DefaultPolicy 8 0))) \<and>
   AtLeast (sn_Level (EvaluateMemoryPressure (calm_snapshot\<lparr>sn_FreePercent := 12, sn_HostCPUPercent := 97\<rparr>) (DefaultPolicy 8 0)))
     (sn_Level (EvaluateMemoryPressure (calm_snapshot\<lparr>sn_HostCPUPercent := 90\<rparr>) (DefaultPolicy 8 0)))"
  by (rule worse_evidence_never_lowers) code_simp

text \<open>
  The reported reasons account for the level: there is none exactly when the level is normal,
  otherwise the first one names a threshold of the reported rung, and the list goes from the most
  to the least severe.
\<close>

theorem reasons_explain_level:
  "(sn_Reasons (Evaluate s p) = [] \<and> sn_Level (Evaluate s p) = LevelNormal) \<or>
   (\<exists>r rs. sn_Reasons (Evaluate s p) = r # rs \<and> reason_level r = sn_Level (Evaluate s p) \<and>
      sn_Level (Evaluate s p) \<noteq> LevelNormal \<and>
      sorted_wrt (\<lambda>r r'. levelRank (reason_level r) \<ge> levelRank (reason_level r')) (r # rs))"
proof -
  let ?bs = "breaches (po_Thresholds p) True s"
  have e: "sn_Reasons (Evaluate s p) = breach_reasons ?bs" "sn_Level (Evaluate s p) = worst ?bs"
    by (simp_all add: Evaluate_def evaluate_def Let_def)
  show ?thesis
  proof (cases "?bs = []")
    case True
    then show ?thesis by (simp add: e breach_reasons_def)
  next
    case False
    then obtain r rs where "breach_reasons ?bs = r # rs" "reason_level r = worst ?bs"
      using first_reason [OF breaches_labelled breaches_proper] by blast
    with False reasons_sorted [OF breaches_labelled, of "po_Thresholds p" True s] show ?thesis
      by (simp add: e proper_worst_normal [OF breaches_proper])
  qed
qed

text \<open>
  Storage hysteresis: a volume that was in a band stays at least in that band while the free space
  is under the band's release threshold, current evidence that is worse always wins, the latch is
  only ever shown together with the threshold that ends it, and at or above every release threshold
  the level is the instantaneous one.
\<close>

theorem storage_hysteresis:
  assumes "st_Enabled p" and "ss_Available sample" and "release_bytes p previous = Some r"
  shows "let out = EvaluateStorage sample p previous; free = ss_AvailableBytes sample in
    AtLeast (ss_Level out) (storage_instantaneous p free) \<and>
    (free < r \<and> AtLeast (ss_Level out) previous \<and>
       ss_ReleaseBytes out = r \<and> ss_HysteresisActive out = (\<not> AtLeast (storage_instantaneous p free) previous)
     \<or> r \<le> free \<and> ss_Level out = storage_instantaneous p free \<and> \<not> ss_HysteresisActive out)"
proof -
  have "AtLeast (maxLevel a b) a" "AtLeast (maxLevel a b) b" for a b
    by (simp_all add: AtLeast_def)
  then show ?thesis
    using assms by (auto simp: EvaluateStorage_def Let_def AtLeast_def not_le not_less)
qed

theorem storage_hysteresis_witness:
  "let out = EvaluateStorage (calm_storage\<lparr>ss_AvailableBytes := 27 * 2 ^ 30\<rparr>) default_storage LevelRed;
       free = ss_AvailableBytes (calm_storage\<lparr>ss_AvailableBytes := 27 * 2 ^ 30\<rparr>) in
    AtLeast (ss_Level out) (storage_instantaneous default_storage free) \<and>
    (free < 30 * 2 ^ 30 \<and> AtLeast (ss_Level out) LevelRed \<and>
       ss_ReleaseBytes out = 30 * 2 ^ 30 \<and>
       ss_HysteresisActive out = (\<not> AtLeast (storage_instantaneous default_storage free) LevelRed)
     \<or> 30 * 2 ^ 30 \<le> free \<and> ss_Level out = storage_instantaneous default_storage free \<and>
       \<not> ss_HysteresisActive out)"
  by (rule storage_hysteresis) code_simp+

text \<open>
  A worse history can give a milder storage level. Under the shipped thresholds, at 26 GiB free a
  volume that was red stays red until 30 GiB, but one that was critical drops to warning at once:
  only the previous band's own release threshold is consulted, and 26 GiB is above the critical one.
\<close>

theorem critical_history_skips_red_latch:
  "ss_Level (EvaluateStorage (calm_storage\<lparr>ss_AvailableBytes := 26 * 2 ^ 30\<rparr>) default_storage LevelRed)
     = LevelRed \<and>
   ss_Level (EvaluateStorage (calm_storage\<lparr>ss_AvailableBytes := 26 * 2 ^ 30\<rparr>) default_storage LevelCritical)
     = LevelWarning \<and>
   storage_guards default_storage \<noteq> [] \<and>
   list_all (\<lambda>g. \<not> fst g) (storage_guards default_storage)"
  by code_simp

end
