(* ===== verification/Pressure_Admission.thy ===== *)
theory Pressure_Admission
  imports Pressure_Evaluate Work_Status "HOL-Library.Word"
begin

text \<open>
  Admission decisions (\<^verbatim>\<open>sessionpressure/types.go\<close>, \<^verbatim>\<open>sessionpressure/admission.go\<close>,
  \<^verbatim>\<open>sessionpressure/storage.go\<close>): the decision on one snapshot for ordinary launches, for heavy
  work and for agent hosts, queue backpressure at the launch boundary, the reuse of resident
  evidence, the configured entry points with their fail-open paths, and the storage dimension. The
  policy file, the latest resident snapshot, the live probe and the clock readings are arguments.
  The text of a warning is a list of parts, which the code joins with semicolons.
\<close>

section \<open>Decisions on a snapshot\<close>

datatype warning =
    CPUUnavailableWork string
  | CPUUnavailableLaunch string
  | CPUPressureLaunch
  | SwapPressureLaunch
  | UnknownLaunchKind string
  | QueueFailOpen
  | QueueObserveOnly "reason list"
  | QueueSaturated "reason list"
  | QueueResume "reason list"
  | ProbeFallback
  | ProbeFailOpen
  | PolicyFailOpen policy_error
  | DataDirFailOpen
  | StorageUnavailable string

record WorkQueueAdmissionEvidence =
  qe_Capacity :: int
  qe_Used :: int
  qe_QueueDepth :: int
  qe_OldestWaitMilliseconds :: int
  qe_QueueDepthBlock :: int
  qe_OldestWaitBlockMS :: int
  qe_WouldBlock :: bool
  qe_Enforced :: bool

record Admission =
  ad_Allowed :: bool
  ad_Level :: Level
  ad_Source :: string
  ad_Dimension :: string
  ad_Reasons :: "reason list"
  ad_Warning :: "warning list"
  ad_Snapshot :: "Snapshot option"
  ad_WorkQueue :: "WorkQueueAdmissionEvidence option"
  ad_Controller :: "ControllerDecision option"

definition plain_admission :: "bool \<Rightarrow> Level \<Rightarrow> string \<Rightarrow> Admission" where
  "plain_admission allowed level source =
     \<lparr> ad_Allowed = allowed, ad_Level = level, ad_Source = source, ad_Dimension = [],
       ad_Reasons = [], ad_Warning = [], ad_Snapshot = None, ad_WorkQueue = None,
       ad_Controller = None \<rparr>"

definition swapOnlyWarning :: "Snapshot \<Rightarrow> Policy \<Rightarrow> bool" where
  "swapOnlyWarning s p \<longleftrightarrow>
     (let t = po_Thresholds p; warning = SwapOutWarningMBPerSecond t in
      sn_SwapIOAvailable s \<and>
      \<not> ((sn_HostCPUAvailable s \<or> sn_HostCPUPercent s > 0) \<and> HostCPUWarningPercent t > 0 \<and>
         sn_HostCPUPercent s \<ge> HostCPUWarningPercent t) \<and>
      (sn_SwapThrashLatched s \<or> (warning > 0 \<and> sn_SwapOutMBPerSecond s \<ge> warning)))"

definition admission_dimension :: "Snapshot \<Rightarrow> Policy \<Rightarrow> string" where
  "admission_dimension s p =
     (if \<not> AtLeast (sn_Level s) LevelWarning then []
      else if AtLeast (sn_Level (EvaluateMemoryPressure s p)) LevelWarning then ''memory''
      else if swapOnlyWarning s p then ''swap'' else ''cpu'')"

definition cpu_probe_failed :: "Snapshot \<Rightarrow> bool" where
  "cpu_probe_failed s \<longleftrightarrow> \<not> sn_HostCPUAvailable s \<and> TrimSpace (sn_HostCPUError s) \<noteq> []"

definition AdmissionForSnapshot :: "Snapshot \<Rightarrow> Policy \<Rightarrow> string \<Rightarrow> Admission" where
  "AdmissionForSnapshot snapshot p source =
     (let s = Evaluate snapshot p;
          controller = ClassifyController s p;
          a = (plain_admission (\<not> po_EnforceAdmission p \<or> \<not> AtLeast (sn_Level s) (BlockNewAt p))
                 (sn_Level s) source)
                \<lparr> ad_Dimension := admission_dimension s p, ad_Reasons := sn_Reasons s,
                  ad_Snapshot := Some s, ad_Controller := Some controller \<rparr>;
          a = (if po_EnforceAdmission p \<and> cd_BlockWork controller \<and> \<not> AtLeast (ad_Level a) (BlockNewAt p)
               then a\<lparr> ad_Allowed := False, ad_Level := maxLevel (ad_Level a) LevelRed,
                       ad_Dimension := cd_Dimension controller,
                       ad_Reasons := ad_Reasons a @ cd_Reasons controller \<rparr>
               else a)
      in if cpu_probe_failed s then a\<lparr> ad_Warning := [CPUUnavailableWork (sn_HostCPUError s)] \<rparr> else a)"

definition AdmissionForWorkSnapshot :: "Snapshot \<Rightarrow> Policy \<Rightarrow> string \<Rightarrow> Admission" where
  "AdmissionForWorkSnapshot snapshot p source =
     (let a = AdmissionForSnapshot snapshot p source in
      case ad_Snapshot a of
        None \<Rightarrow> a
      | Some s \<Rightarrow>
          if \<not> po_EnforceAdmission p \<or> ad_Allowed a \<or> \<not> AtLeast (ad_Level a) (BlockNewAt p) \<or>
             ad_Dimension a \<noteq> ''cpu''
          then a
          else if \<not> AtLeast (sn_Level (EvaluateMemoryPressure s p)) (BlockNewAt p) \<and>
                  (case ad_Controller a of None \<Rightarrow> False | Some c \<Rightarrow> \<not> cd_BlockWork c)
          then a\<lparr> ad_Allowed := True \<rparr>
          else a)"

text \<open>\<^verbatim>\<open>strings.Contains\<close>.\<close>

fun Contains :: "string \<Rightarrow> string \<Rightarrow> bool" where
  "Contains [] sub = (sub = [])"
| "Contains (c # s) sub = (take (length sub) (c # s) = sub \<or> Contains s sub)"

definition joinAdmissionSource :: "string \<Rightarrow> string \<Rightarrow> string" where
  "joinAdmissionSource existing added =
     (if TrimSpace existing = [] then added
      else if TrimSpace added = [] \<or> Contains existing added then existing
      else existing @ ''+'' @ added)"

text \<open>
  Every warning the code joins starts with fixed text, so joining never meets a blank part.
\<close>

definition joinAdmissionWarning :: "warning list \<Rightarrow> warning list \<Rightarrow> warning list" where
  "joinAdmissionWarning existing added = existing @ added"

definition AdmissionForAgentLaunchSnapshot :: "Snapshot \<Rightarrow> Policy \<Rightarrow> string \<Rightarrow> Admission" where
  "AdmissionForAgentLaunchSnapshot snapshot p source =
     (let full = Evaluate snapshot p;
          memory = EvaluateMemoryPressure snapshot p;
          controller = ClassifyController full p;
          allowed = (\<not> po_EnforceAdmission p \<or> \<not> AtLeast (sn_Level memory) (BlockNewAt p));
          a = (plain_admission allowed (sn_Level memory)
                 (joinAdmissionSource source ''memory-gated-launch''))
                \<lparr> ad_Reasons := sn_Reasons memory, ad_Snapshot := Some full,
                  ad_Controller := Some controller \<rparr>;
          a = (if po_EnforceAdmission p \<and> cd_BlockAgentLaunch controller
               then a\<lparr> ad_Allowed := False,
                       ad_Level := (if cd_ThermalState controller = ThermalStateCritical \<or>
                                       AtLeast (sn_Level memory) LevelCritical
                                    then maxLevel (ad_Level a) LevelCritical else ad_Level a),
                       ad_Dimension := cd_Dimension controller,
                       ad_Reasons := ad_Reasons a @ cd_Reasons controller \<rparr>
               else a);
          a = (if cpu_probe_failed full
               then a\<lparr> ad_Warning := joinAdmissionWarning (ad_Warning a)
                                       [CPUUnavailableLaunch (sn_HostCPUError full)] \<rparr>
               else a);
          a = (if allowed \<and> AtLeast (sn_Level full) LevelWarning \<and>
                  levelRank (sn_Level full) > levelRank (sn_Level memory)
               then a\<lparr> ad_Warning := joinAdmissionWarning (ad_Warning a)
                         [if swapOnlyWarning full p then SwapPressureLaunch else CPUPressureLaunch] \<rparr>
               else a)
      in if \<not> allowed then a\<lparr> ad_Reasons := sn_Reasons memory \<rparr> else a)"


section \<open>Queue backpressure at the launch boundary\<close>

datatype AgentLaunchKind = AgentLaunchNew | AgentLaunchResume | OtherLaunch string

definition softLaunchNoiseSuppressed :: "Policy \<Rightarrow> Level \<Rightarrow> int \<Rightarrow> bool \<Rightarrow> bool" where
  "softLaunchNoiseSuppressed p hostLevel queueDepth rawWouldBlock \<longleftrightarrow>
     rawWouldBlock \<and>
     ((hostLevel = LevelNormal \<and> queueDepth = 0) \<or>
      (\<not> po_EnforceAdmission p \<and> hostLevel = LevelNormal \<and> queueDepth = 0))"

fun oldest_wait :: "WorkWaiterStatus list \<Rightarrow> int" where
  "oldest_wait [] = 0"
| "oldest_wait (w # _) = ws_WaitMS w"

definition AgentLaunchAdmissionForQueue ::
    "Admission \<Rightarrow> Policy \<Rightarrow> WorkStatus \<Rightarrow> AgentLaunchKind \<Rightarrow> Admission" where
  "AgentLaunchAdmissionForQueue host p queue kind =
     (let launch = po_LaunchAdmission p;
          depth = int (s_QueueDepth queue);
          oldest = oldest_wait (s_Waiters queue);
          threshold = duration_ms (seconds (la_OldestWaitBlockSeconds launch));
          raw = (depth \<ge> la_QueueDepthBlock launch \<or> oldest \<ge> threshold);
          wouldBlock = (raw \<and> \<not> softLaunchNoiseSuppressed p (ad_Level host) depth raw);
          evidence = \<lparr> qe_Capacity = s_Capacity queue, qe_Used = s_Used queue,
                       qe_QueueDepth = depth, qe_OldestWaitMilliseconds = oldest,
                       qe_QueueDepthBlock = la_QueueDepthBlock launch,
                       qe_OldestWaitBlockMS = threshold, qe_WouldBlock = wouldBlock,
                       qe_Enforced = po_EnforceAdmission p \<rparr>;
          host = host\<lparr> ad_WorkQueue := Some evidence \<rparr>
      in if \<not> wouldBlock then host
         else
           let why = (if depth \<ge> la_QueueDepthBlock launch
                      then [QueueDepth depth (la_QueueDepthBlock launch)] else []) @
                     (if oldest \<ge> threshold then [QueueWait oldest threshold] else []);
               marked = host\<lparr> ad_Dimension := ''work_queue'',
                              ad_Source := joinAdmissionSource (ad_Source host) ''work-queue'' \<rparr>
           in if \<not> po_EnforceAdmission p then
                marked\<lparr> ad_Level := (if ad_Level host \<noteq> LevelNormal
                                      then maxLevel (ad_Level host) LevelRed else ad_Level host),
                        ad_Warning := joinAdmissionWarning (ad_Warning host) [QueueObserveOnly why] \<rparr>
              else if ad_Allowed host \<and> \<not> AtLeast (ad_Level host) LevelRed then
                marked\<lparr> ad_Warning := joinAdmissionWarning (ad_Warning host) [QueueSaturated why] \<rparr>
              else
                let marked = marked\<lparr> ad_Level := maxLevel (ad_Level host) LevelRed \<rparr> in
                if kind = AgentLaunchResume \<and> la_ResumeBehavior launch = LaunchResumeBehaviorWarn then
                  marked\<lparr> ad_Warning := joinAdmissionWarning (ad_Warning host) [QueueResume why] \<rparr>
                else marked\<lparr> ad_Allowed := False, ad_Reasons := ad_Reasons host @ why \<rparr>)"

text \<open>The reasons the code joins into one string are kept apart here.\<close>

definition AgentLaunchAdmissionFromSnapshot ::
    "Snapshot \<Rightarrow> Policy \<Rightarrow> bool \<Rightarrow> WorkStatus \<Rightarrow> AgentLaunchKind \<Rightarrow> string \<Rightarrow> Admission" where
  "AgentLaunchAdmissionFromSnapshot snapshot p persisted queue kind source =
     (let source = (if TrimSpace source = [] then ''resident'' else source) in
      if \<not> persisted \<or> \<not> po_Enabled p \<or> \<not> po_EnforceAdmission p
      then plain_admission True LevelNormal ''observe-only''
      else
        let host = AdmissionForAgentLaunchSnapshot snapshot p source in
        if \<not> ad_Allowed host then host
        else case kind of
          OtherLaunch name \<Rightarrow>
            host\<lparr> ad_Warning := joinAdmissionWarning (ad_Warning host) [UnknownLaunchKind name] \<rparr>
        | _ \<Rightarrow> if la_Mode (po_LaunchAdmission p) = LaunchAdmissionModeOff then host
               else AgentLaunchAdmissionForQueue host p queue kind)"


section \<open>Resident evidence\<close>

definition ResidentTrustMaxAge :: "Policy \<Rightarrow> duration" where
  "ResidentTrustMaxAge p =
     (let sec = po_SampleIntervalSeconds p; sec = (if sec < 5 then 5 else sec) in seconds (sec * 2 + 15))"

text \<open>The clock passed in is a real reading, so its zero case does not arise.\<close>

definition ResidentSnapshotIsFresh :: "Snapshot \<Rightarrow> Policy \<Rightarrow> time \<Rightarrow> bool" where
  "ResidentSnapshotIsFresh s p now \<longleftrightarrow>
     (let age = time_sub now (sn_Timestamp s) in
      \<not> IsZero (sn_Timestamp s) \<and> age \<ge> seconds (-5) \<and> age \<le> ResidentTrustMaxAge p)"

definition sanitizeResidentFallback :: "Snapshot \<Rightarrow> Policy \<Rightarrow> time \<Rightarrow> Snapshot" where
  "sanitizeResidentFallback s p now =
     (let capturedAt = (if IsZero (sn_ProcessInventoryCapturedAt s) then sn_Timestamp s
                        else sn_ProcessInventoryCapturedAt s);
          age = time_sub now capturedAt;
          maxAge = seconds (po_SampleIntervalSeconds p * 2 + 15)
      in if \<not> sn_ProcessInventoryAvailable s \<or> age < seconds (-5) \<or> age > maxAge then
           s\<lparr> sn_ProcessCount := 0, sn_ProcessRSSSumMB := 0, sn_AgentTreeCount := 0,
              sn_AgentRSSSumMB := 0, sn_AgentCPUPercent := 0, sn_AgentCPUAvailable := False,
              sn_CoordinatedWork := empty_coordinated, sn_TopAgentTrees := [],
              sn_ProcessInventoryAvailable := False, sn_ProcessInventoryFresh := False,
              sn_ProcessInventoryAgeSeconds := max 0 (rat_of_int age / 1000000000) \<rparr>
         else s)"

type_synonym admitter = "Snapshot \<Rightarrow> Policy \<Rightarrow> string \<Rightarrow> Admission"

definition AdmissionFromFreshResident ::
    "Snapshot \<Rightarrow> Policy \<Rightarrow> time \<Rightarrow> admitter \<Rightarrow> Admission option" where
  "AdmissionFromFreshResident s p now admit =
     (if \<not> ResidentSnapshotIsFresh s p now then None
      else
        let sanitized = sanitizeResidentFallback s p now
        in Some ((admit sanitized p ''resident-fresh'')\<lparr> ad_Snapshot := Some sanitized \<rparr>))"

definition admissionAfterSampleFailure :: "Snapshot option \<Rightarrow> Policy \<Rightarrow> time \<Rightarrow> Admission" where
  "admissionAfterSampleFailure latest p now =
     (case latest of
        Some s \<Rightarrow>
          if ResidentSnapshotIsFresh s p now
          then (AdmissionForSnapshot (sanitizeResidentFallback s p now) p ''resident-fallback'')
                 \<lparr> ad_Warning := [ProbeFallback] \<rparr>
          else (plain_admission True LevelNormal ''fail-open'')\<lparr> ad_Warning := [ProbeFailOpen] \<rparr>
      | None \<Rightarrow> (plain_admission True LevelNormal ''fail-open'')\<lparr> ad_Warning := [ProbeFailOpen] \<rparr>)"


section \<open>Configured admission\<close>

text \<open>
  What the entry points read: the CPU count, whether the data directory resolves, the policy file,
  the latest resident snapshot, the result of the live probe given that snapshot, and the clock at
  the three places it is read.
\<close>

record admission_host =
  ah_NumCPU :: int
  ah_DataDir :: bool
  ah_PolicyFile :: policy_file
  ah_Latest :: "Snapshot option"
  ah_Probe :: "Snapshot option \<Rightarrow> Snapshot option"
  ah_ResidentClock :: time
  ah_AgeClock :: time
  ah_FallbackClock :: time
  ah_Status :: "WorkStatus option"
  ah_StorageSample :: "Policy \<Rightarrow> Level \<Rightarrow> StorageSnapshot"

definition live_admission :: "admission_host \<Rightarrow> Policy \<Rightarrow> Snapshot option \<Rightarrow> admitter \<Rightarrow> Admission" where
  "live_admission h p latest admit =
     (case ah_Probe h latest of
        None \<Rightarrow>
          (let fallback = admissionAfterSampleFailure latest p (ah_FallbackClock h) in
           case ad_Snapshot fallback of
             None \<Rightarrow> fallback
           | Some s \<Rightarrow>
               (let out = admit s p (ad_Source fallback)
                in out\<lparr> ad_Warning := joinAdmissionWarning (ad_Warning fallback) (ad_Warning out) \<rparr>))
      | Some s \<Rightarrow>
          admit s p (''live-host-probe'' @
                     (if sn_ProcessInventoryAvailable s then ''+monitor-inventory'' else [])))"

definition configuredAdmission :: "admission_host \<Rightarrow> admitter \<Rightarrow> Admission" where
  "configuredAdmission h admit =
     (if \<not> ah_DataDir h
      then (plain_admission True LevelNormal ''fail-open'')\<lparr> ad_Warning := [DataDirFailOpen] \<rparr>
      else if ah_PolicyFile h = PolicyMissing then plain_admission True LevelNormal ''unconfigured''
      else case LoadPolicy (ah_NumCPU h) (ah_PolicyFile h) 0 of
        Inl e \<Rightarrow> (plain_admission True LevelNormal ''fail-open'')\<lparr> ad_Warning := [PolicyFailOpen e] \<rparr>
      | Inr (p, persisted) \<Rightarrow>
          if \<not> persisted \<or> \<not> po_Enabled p \<or> \<not> po_EnforceAdmission p
          then plain_admission True LevelNormal ''observe-only''
          else case ah_Latest h of
            None \<Rightarrow> live_admission h p None admit
          | Some s \<Rightarrow>
              (case AdmissionFromFreshResident s p (ah_ResidentClock h) admit of
                 Some out \<Rightarrow> out
               | None \<Rightarrow>
                   let age = time_sub (ah_AgeClock h) (sn_Timestamp s);
                       recent = (age \<ge> seconds (-5) \<and> age \<le> ResidentTrustMaxAge p)
                   in live_admission h p (if recent then Some s else None) admit))"

definition ConfiguredAdmission :: "admission_host \<Rightarrow> Admission" where
  "ConfiguredAdmission h = configuredAdmission h AdmissionForSnapshot"

definition ConfiguredWorkHostAdmission :: "admission_host \<Rightarrow> Admission" where
  "ConfiguredWorkHostAdmission h = configuredAdmission h AdmissionForWorkSnapshot"

definition warn :: "Admission \<Rightarrow> warning \<Rightarrow> Admission" where
  "warn a w = a\<lparr> ad_Warning := joinAdmissionWarning (ad_Warning a) [w] \<rparr>"

definition ConfiguredAgentLaunchAdmission :: "admission_host \<Rightarrow> AgentLaunchKind \<Rightarrow> Admission" where
  "ConfiguredAgentLaunchAdmission h kind =
     (let host = configuredAdmission h AdmissionForAgentLaunchSnapshot in
      if \<not> ad_Allowed host then host
      else case kind of
        OtherLaunch name \<Rightarrow> warn host (UnknownLaunchKind name)
      | _ \<Rightarrow>
        if \<not> ah_DataDir h then warn host QueueFailOpen
        else case LoadPolicy (ah_NumCPU h) (ah_PolicyFile h) 0 of
          Inl e \<Rightarrow> warn host QueueFailOpen
        | Inr (p, persisted) \<Rightarrow>
            if \<not> persisted \<or> \<not> po_Enabled p \<or> la_Mode (po_LaunchAdmission p) = LaunchAdmissionModeOff
            then host
            else case ah_Status h of
              None \<Rightarrow> warn host QueueFailOpen
            | Some queue \<Rightarrow> AgentLaunchAdmissionForQueue host p queue kind)"


section \<open>The storage dimension\<close>

text \<open>
  Block counts and sizes of a volume are 64-bit; the product saturates at the largest signed value.
\<close>

definition saturatingBlockBytes :: "64 word \<Rightarrow> int \<Rightarrow> int" where
  "saturatingBlockBytes blocks blockSize =
     (if blockSize \<le> 0 \<or> blocks = 0 then 0
      else if blocks > word_of_int (2 ^ 63 - 1) div word_of_int blockSize then 2 ^ 63 - 1
      else uint blocks * blockSize)"

definition storageGrowingClass :: "WorkClass \<Rightarrow> bool" where
  "storageGrowingClass class \<longleftrightarrow>
     class \<in> {WorkClassTest, WorkClassBuild, WorkClassEmulator, WorkClassBrowser, WorkClassHeavy,
              WorkClassBenchmark, WorkClassBenchmarkExclusive}"

definition zero_storage :: StorageSnapshot where
  "zero_storage =
     \<lparr> ss_Available = False, ss_TotalBytes = 0, ss_FreeBytes = 0, ss_AvailableBytes = 0,
       ss_FreePercent = 0, ss_Level = OtherLevel [], ss_InstantaneousLevel = OtherLevel [],
       ss_HysteresisActive = False, ss_ReleaseBytes = 0, ss_Reasons = [], ss_Error = [] \<rparr>"

definition zero_snapshot :: Snapshot where
  "zero_snapshot =
     \<lparr> sn_Timestamp = 0, sn_Level = OtherLevel [], sn_Reasons = [], sn_FreePercent = 0,
       sn_PhysicalMemoryMB = 0, sn_SwapUsedMB = 0, sn_SwapIOAvailable = False,
       sn_SwapOutMBPerSecond = 0, sn_SwapThrashLatched = False, sn_SwapThrashCause = [],
       sn_SwapThrashSince = 0, sn_HostCPUPercent = 0, sn_HostCPUAvailable = False,
       sn_HostCPURollingPercent = 0, sn_HostCPURollingAvailable = False, sn_HostCPUError = [],
       sn_ThermalState = ThermalStateEmpty, sn_LowPowerMode = False, sn_AgentCPUPercent = 0,
       sn_AgentCPUAvailable = False, sn_CoordinatedWork = empty_coordinated, sn_ProcessCount = 0,
       sn_ProcessRSSSumMB = 0, sn_AgentTreeCount = 0, sn_AgentRSSSumMB = 0,
       sn_ProcessInventoryAvailable = False, sn_ProcessInventoryFresh = False,
       sn_ProcessInventoryCapturedAt = 0, sn_ProcessInventoryAgeSeconds = 0, sn_GuardRSSMB = 0,
       sn_GuardCPUPercent = 0, sn_GuardBudgetApplicable = False, sn_MonitorSamples = 0,
       sn_NormalMonitorSamples = 0, sn_GuardRSSMaxMB = 0, sn_SampleDurationMS = 0,
       sn_SamplePhaseMS = [], sn_SamplePhaseP95MS = [], sn_SampleDurationP95MS = 0,
       sn_SampleCPUTimeMS = 0, sn_SampleCPUTimeP95MS = 0, sn_ObservedIntervalSeconds = 0,
       sn_GuardIdleCPUDutyPercent = 0, sn_TelemetryBytesToday = 0,
       sn_TelemetryProjectedBytesDay = 0, sn_GuardBudgetOK = False, sn_GuardBudgetReasons = [],
       sn_TopAgentTrees = [], sn_ConsecutiveSamples = 0, sn_MemoryConsecutiveSamples = 0,
       sn_Storage = zero_storage \<rparr>"

definition storage_admission :: "StorageSnapshot \<Rightarrow> bool \<Rightarrow> Level \<Rightarrow> string \<Rightarrow> Admission" where
  "storage_admission s allowed level source =
     (plain_admission allowed level source)\<lparr> ad_Snapshot := Some (zero_snapshot\<lparr> sn_Storage := s \<rparr>) \<rparr>"

definition StorageAdmissionForClass :: "StorageSnapshot \<Rightarrow> Policy \<Rightarrow> WorkClass \<Rightarrow> string \<Rightarrow> Admission" where
  "StorageAdmissionForClass s p class source =
     (let sp = po_Storage p in
      if \<not> st_Enabled sp \<or> \<not> st_EnforceAdmission sp \<or> class = WorkClassReclaim \<or>
         class = WorkClassInstall \<or> \<not> storageGrowingClass class
      then storage_admission s True (ss_Level s) source
      else if class = WorkClassExpressTest \<or> class = WorkClassExpressBuild
      then storage_admission s True (ss_Level s) (source @ ''+express-degraded'')
      else if \<not> ss_Available s
      then (storage_admission s True LevelNormal ''fail-open'')
             \<lparr> ad_Warning := [StorageUnavailable (ss_Error s)] \<rparr>
      else (storage_admission s (\<not> AtLeast (ss_Level s) (st_BlockNewAt sp)) (ss_Level s) source)
             \<lparr> ad_Reasons := ss_Reasons s \<rparr>)"

definition ConfiguredStorageAdmission :: "admission_host \<Rightarrow> WorkClass \<Rightarrow> Admission" where
  "ConfiguredStorageAdmission h class =
     (if \<not> ah_DataDir h
      then (plain_admission True LevelNormal ''fail-open'')\<lparr> ad_Warning := [DataDirFailOpen] \<rparr>
      else case LoadPolicy (ah_NumCPU h) (ah_PolicyFile h) 0 of
        Inl e \<Rightarrow> plain_admission True LevelNormal ''unconfigured''
      | Inr (p, persisted) \<Rightarrow>
          if \<not> persisted then plain_admission True LevelNormal ''unconfigured''
          else
            let previous = (case ah_Latest h of None \<Rightarrow> LevelNormal
                            | Some s \<Rightarrow> ss_Level (sn_Storage s));
                sample = ah_StorageSample h p previous
            in StorageAdmissionForClass sample p class ''live-storage-probe'')"

definition ConfiguredWorkAdmission :: "admission_host \<Rightarrow> WorkClass \<Rightarrow> Admission" where
  "ConfiguredWorkAdmission h class =
     (let host = ConfiguredWorkHostAdmission h in
      if \<not> ad_Allowed host then host
      else
        let storage = ConfiguredStorageAdmission h class in
        if \<not> ad_Allowed storage \<or> ad_Warning storage \<noteq> [] then storage else host)"

text \<open>
  \<^verbatim>\<open>Sampler.sampleStorage\<close>; a probe that failed, or that is missing, gives its bounded error text.
\<close>

record StorageCapacity =
  vol_TotalBytes :: int
  vol_FreeBytes :: int
  vol_AvailableBytes :: int

definition sampleStorage :: "string + StorageCapacity \<Rightarrow> Policy \<Rightarrow> Level \<Rightarrow> StorageSnapshot" where
  "sampleStorage probe p previous =
     (case probe of
        Inl e \<Rightarrow> zero_storage\<lparr> ss_Level := LevelNormal, ss_Error := e \<rparr>
      | Inr c \<Rightarrow>
          let s = zero_storage\<lparr> ss_Available := True, ss_TotalBytes := vol_TotalBytes c,
                                ss_FreeBytes := vol_FreeBytes c,
                                ss_AvailableBytes := vol_AvailableBytes c \<rparr> in
          if vol_TotalBytes c \<le> 0 \<or> vol_AvailableBytes c < 0
          then s\<lparr> ss_Available := False,
                  ss_Error := ''filesystem capacity probe returned invalid values'' \<rparr>
          else EvaluateStorage
                 (s\<lparr> ss_FreePercent :=
                       100 * rat_of_int (vol_AvailableBytes c) / rat_of_int (vol_TotalBytes c) \<rparr>)
                 (po_Storage p) previous)"



section \<open>Facts\<close>

text \<open>No budget check reads what evaluation writes.\<close>

abbreviation (input) rewritten :: "Snapshot \<Rightarrow> Level \<Rightarrow> reason list \<Rightarrow> bool \<Rightarrow> guard_reason list \<Rightarrow> Snapshot" where
  "rewritten s a b c d \<equiv>
     s\<lparr> sn_Level := a, sn_Reasons := b, sn_GuardBudgetOK := c, sn_GuardBudgetReasons := d \<rparr>"

lemma guard_metrics_read:
  "rolling_p95 p (rewritten s a b c d) = rolling_p95 p s"
  "rss_metric p (rewritten s a b c d) = rss_metric p s"
  "cpu_metric p (rewritten s a b c d) = cpu_metric p s"
  by (simp_all add: rolling_p95_def rss_metric_def cpu_metric_def)

lemma guard_sample_metrics_read:
  "duration_metric p (rewritten s a b c d) = duration_metric p s"
  "cpu_time_metric p (rewritten s a b c d) = cpu_time_metric p s"
  by (simp_all add: duration_metric_def cpu_time_metric_def guard_metrics_read)

lemma guard_parts_read:
  "duty_reasons p l (rewritten s a b c d) = duty_reasons p l s"
  "duration_reasons p (rewritten s a b c d) = duration_reasons p s"
  "cpu_time_reasons p (rewritten s a b c d) = cpu_time_reasons p s"
  "telemetry_reasons p (rewritten s a b c d) = telemetry_reasons p s"
     apply (simp add: duty_reasons_def guard_metrics_read Let_def)
    apply (simp add: duration_reasons_def guard_metrics_read guard_sample_metrics_read Let_def)
   apply (simp add: cpu_time_reasons_def guard_metrics_read guard_sample_metrics_read Let_def)
  apply (simp add: telemetry_reasons_def Let_def)
  done

lemma guard_reasons_reads: "guard_reasons p l (rewritten s a b c d) = guard_reasons p l s"
  by (simp add: guard_reasons_def guard_parts_read guard_metrics_read)

lemma Evaluate_idem [simp]: "Evaluate (Evaluate s p) p = Evaluate s p"
  by (simp add: Evaluate_def evaluate_def Let_def evaluate_reads guard_reasons_reads)

lemma memory_of_Evaluate [simp]:
  "sn_Level (EvaluateMemoryPressure (Evaluate s p) q) = sn_Level (EvaluateMemoryPressure s q)"
  using memory_level_Evaluate by (simp add: memory_level_def)

lemma ClassifyController_Evaluate [simp]:
  "ClassifyController (Evaluate s p) p = ClassifyController s p"
  by (simp add: ClassifyController_def)

lemma controller_blocks:
  "cd_BlockWork (ClassifyController s p) \<longleftrightarrow>
     AtLeast (memory_level s p) LevelCritical \<or> AtLeast (memory_level s p) (BlockNewAt p) \<or>
     sn_ThermalState s = ThermalStateCritical \<or> sn_ThermalState s = ThermalStateSerious \<or>
     cpu_stress s p"
  "cd_BlockAgentLaunch (ClassifyController s p) \<longleftrightarrow>
     sn_ThermalState s = ThermalStateCritical \<or> AtLeast (memory_level s p) (BlockNewAt p)"
  by (auto simp: ClassifyController_def Let_def memory_level_def)

lemma plain_admission_simps [simp]:
  "ad_Allowed (plain_admission a l s) = a" "ad_Level (plain_admission a l s) = l"
  "ad_Source (plain_admission a l s) = s" "ad_Dimension (plain_admission a l s) = []"
  "ad_Reasons (plain_admission a l s) = []" "ad_Warning (plain_admission a l s) = []"
  "ad_Snapshot (plain_admission a l s) = None" "ad_Controller (plain_admission a l s) = None"
  by (simp_all add: plain_admission_def)

lemma admission_allowed:
  "ad_Allowed (AdmissionForSnapshot s p src) \<longleftrightarrow>
     \<not> po_EnforceAdmission p \<or>
     (\<not> AtLeast (sn_Level (Evaluate s p)) (BlockNewAt p) \<and> \<not> cd_BlockWork (ClassifyController s p))"
  by (auto simp: AdmissionForSnapshot_def Let_def)

lemma admission_fields:
  "ad_Snapshot (AdmissionForSnapshot s p src) = Some (Evaluate s p)"
  "ad_Controller (AdmissionForSnapshot s p src) = Some (ClassifyController s p)"
  "po_EnforceAdmission p \<Longrightarrow> AtLeast (sn_Level (Evaluate s p)) (BlockNewAt p) \<Longrightarrow>
     ad_Level (AdmissionForSnapshot s p src) = sn_Level (Evaluate s p) \<and>
     ad_Dimension (AdmissionForSnapshot s p src) = admission_dimension (Evaluate s p) p"
  by (simp_all add: AdmissionForSnapshot_def Let_def)

lemma work_admission_allowed:
  "ad_Allowed (AdmissionForWorkSnapshot s p src) \<longleftrightarrow>
     \<not> po_EnforceAdmission p \<or>
     (\<not> cd_BlockWork (ClassifyController s p) \<and>
      (\<not> AtLeast (sn_Level (Evaluate s p)) (BlockNewAt p) \<or>
       admission_dimension (Evaluate s p) p = ''cpu''))"
proof (cases "po_EnforceAdmission p \<and> AtLeast (sn_Level (Evaluate s p)) (BlockNewAt p)")
  case True
  then have a: "\<not> ad_Allowed (AdmissionForSnapshot s p src)"
    "ad_Level (AdmissionForSnapshot s p src) = sn_Level (Evaluate s p)"
    "ad_Dimension (AdmissionForSnapshot s p src) = admission_dimension (Evaluate s p) p"
    using admission_fields(3) [of p s src] by (simp_all add: admission_allowed)
  have "\<not> cd_BlockWork (ClassifyController s p) \<Longrightarrow> \<not> AtLeast (memory_level s p) (BlockNewAt p)"
    by (simp add: controller_blocks)
  with True a show ?thesis
    by (auto simp: AdmissionForWorkSnapshot_def Let_def admission_fields memory_level_def)
next
  case False
  then show ?thesis
    using admission_allowed [of s p src]
    by (auto simp: AdmissionForWorkSnapshot_def Let_def admission_fields)
qed

lemma launch_admission_fields:
  "ad_Allowed (AdmissionForAgentLaunchSnapshot s p src) \<longleftrightarrow>
     \<not> po_EnforceAdmission p \<or>
     (\<not> AtLeast (memory_level s p) (BlockNewAt p) \<and> sn_ThermalState s \<noteq> ThermalStateCritical)"
  by (auto simp: AdmissionForAgentLaunchSnapshot_def Let_def controller_blocks memory_level_def)

lemma launch_admission_level:
  assumes "ad_Allowed (AdmissionForAgentLaunchSnapshot s p src)" and "po_EnforceAdmission p"
  shows "ad_Level (AdmissionForAgentLaunchSnapshot s p src) = memory_level s p"
  using assms unfolding launch_admission_fields
  by (auto simp: AdmissionForAgentLaunchSnapshot_def Let_def controller_blocks memory_level_def)

lemma queue_admission_allowed:
  assumes "ad_Allowed host" and "\<not> AtLeast (ad_Level host) LevelRed"
  shows "ad_Allowed (AgentLaunchAdmissionForQueue host p queue kind)"
  using assms by (simp add: AgentLaunchAdmissionForQueue_def Let_def)

lemma storage_admission_simps [simp]:
  "ad_Allowed (storage_admission s a l src) = a" "ad_Source (storage_admission s a l src) = src"
  "ad_Warning (storage_admission s a l src) = []"
  "ad_Snapshot (storage_admission s a l src) = Some (zero_snapshot\<lparr>sn_Storage := s\<rparr>)"
  by (simp_all add: storage_admission_def)


section \<open>Properties of admission\<close>

text \<open>
  Agent launches are gated by memory and critical heat only. Under an enforcing policy a launch is
  refused exactly when the memory ladder is at or above the blocking rung or the machine is
  thermally critical, and no value of the host CPU, rolling CPU, live swap-out or thrash evidence
  changes the decision.
\<close>

theorem agent_launch_memory_gated:
  "(\<not> ad_Allowed (AdmissionForAgentLaunchSnapshot s p src) \<longleftrightarrow>
      po_EnforceAdmission p \<and>
      (AtLeast (sn_Level (EvaluateMemoryPressure s p)) (BlockNewAt p) \<or>
       sn_ThermalState s = ThermalStateCritical)) \<and>
   ad_Allowed (AdmissionForAgentLaunchSnapshot
      (s\<lparr> sn_HostCPUPercent := cpu, sn_HostCPUAvailable := seen, sn_HostCPURollingPercent := rolling,
          sn_HostCPURollingAvailable := known, sn_ConsecutiveSamples := n, sn_SwapIOAvailable := io,
          sn_SwapOutMBPerSecond := rate, sn_SwapThrashLatched := latched \<rparr>) p src) =
   ad_Allowed (AdmissionForAgentLaunchSnapshot s p src)"
proof -
  have "memory_level (s\<lparr> sn_HostCPUPercent := cpu, sn_HostCPUAvailable := seen,
      sn_HostCPURollingPercent := rolling, sn_HostCPURollingAvailable := known,
      sn_ConsecutiveSamples := n, sn_SwapIOAvailable := io, sn_SwapOutMBPerSecond := rate,
      sn_SwapThrashLatched := latched \<rparr>) p = memory_level s p"
    by (simp add: memory_level_eq breaches_def live_breaches_def)
  then show ?thesis
    by (simp add: launch_admission_fields) (simp add: memory_level_def)
qed

text \<open>
  Claim C39. Heavy work under an enforcing policy is admitted exactly when no controller floor blocks it and
  the host is under the blocking rung, or above it on CPU evidence alone; the floors are memory at
  the blocking rung or critical, serious or critical heat, and corroborated CPU stress. One red CPU
  sample without corroboration therefore never refuses heavy work on a host whose memory is calm.
\<close>

theorem work_admission_exact:
  "(\<not> ad_Allowed (AdmissionForWorkSnapshot s p src) \<longleftrightarrow>
      po_EnforceAdmission p \<and>
      (cd_BlockWork (ClassifyController s p) \<or>
       AtLeast (sn_Level (Evaluate s p)) (BlockNewAt p) \<and>
       admission_dimension (Evaluate s p) p \<noteq> ''cpu'')) \<and>
   (cd_BlockWork (ClassifyController s p) \<longleftrightarrow>
      AtLeast (sn_Level (EvaluateMemoryPressure s p)) LevelCritical \<or>
      AtLeast (sn_Level (EvaluateMemoryPressure s p)) (BlockNewAt p) \<or>
      sn_ThermalState s = ThermalStateCritical \<or> sn_ThermalState s = ThermalStateSerious \<or>
      cpu_stress s p)"
  using work_admission_allowed [of s p src] controller_blocks(1) [of s p]
  by (simp add: memory_level_def)

text \<open>
  A CPU spike stops being advisory as soon as memory is in the warning band. With the shipped
  thresholds under enforcement, an uncorroborated 97 percent CPU sample admits heavy work at 60
  percent free memory, refuses it at 20 percent free, where memory alone warns and blocks nothing,
  and reports the refusal as memory pressure.
\<close>

theorem memory_warning_hardens_cpu_spike:
  "let p = (DefaultPolicy 8 0)\<lparr>po_EnforceAdmission := True\<rparr>;
       spike = calm_snapshot\<lparr>sn_HostCPUPercent := 97\<rparr>;
       both = spike\<lparr>sn_FreePercent := 20\<rparr>
   in ad_Allowed (AdmissionForWorkSnapshot spike p ''live'') \<and>
      ad_Allowed (AdmissionForWorkSnapshot (calm_snapshot\<lparr>sn_FreePercent := 20\<rparr>) p ''live'') \<and>
      \<not> ad_Allowed (AdmissionForWorkSnapshot both p ''live'') \<and>
      ad_Dimension (AdmissionForWorkSnapshot both p ''live'') = ''memory'' \<and>
      \<not> cd_BlockWork (ClassifyController both p)"
  by code_simp

text \<open>
  With the default blocking rung, the work queue never refuses an agent launch: whatever the queue
  depth, the oldest wait, the launch kind and the resume behaviour, the composed launch decision is
  the memory and heat decision.
\<close>

theorem queue_never_refuses_launch:
  assumes "BlockNewAt p = LevelRed"
  shows "ad_Allowed (AgentLaunchAdmissionFromSnapshot s p persisted queue kind src) \<longleftrightarrow>
    \<not> persisted \<or> \<not> po_Enabled p \<or> \<not> po_EnforceAdmission p \<or>
    (\<not> AtLeast (sn_Level (EvaluateMemoryPressure s p)) LevelRed \<and>
     sn_ThermalState s \<noteq> ThermalStateCritical)"
proof -
  let ?h = "\<lambda>src. AdmissionForAgentLaunchSnapshot s p src"
  have host: "ad_Allowed (?h src) \<longleftrightarrow> \<not> po_EnforceAdmission p \<or>
      (\<not> AtLeast (memory_level s p) LevelRed \<and> sn_ThermalState s \<noteq> ThermalStateCritical)" for src
    using assms by (simp add: launch_admission_fields)
  have queue: "ad_Allowed (AgentLaunchAdmissionForQueue (?h src) p queue kind)"
    if "ad_Allowed (?h src)" "po_EnforceAdmission p" for src
    using that host [of src] by (intro queue_admission_allowed) (simp_all add: launch_admission_level)
  show ?thesis
    using host queue
    by (auto simp: AgentLaunchAdmissionFromSnapshot_def Let_def memory_level_def
        split: AgentLaunchKind.splits)
qed

theorem queue_never_refuses_launch_witness:
  "ad_Allowed (AgentLaunchAdmissionFromSnapshot calm_snapshot
       ((DefaultPolicy 8 0)\<lparr>po_EnforceAdmission := True\<rparr>) True
       (status sample_coordinator 0 (sample_state, 0, 0)) AgentLaunchNew []) \<longleftrightarrow>
    \<not> True \<or> \<not> po_Enabled ((DefaultPolicy 8 0)\<lparr>po_EnforceAdmission := True\<rparr>) \<or>
    \<not> po_EnforceAdmission ((DefaultPolicy 8 0)\<lparr>po_EnforceAdmission := True\<rparr>) \<or>
    (\<not> AtLeast (sn_Level (EvaluateMemoryPressure calm_snapshot
        ((DefaultPolicy 8 0)\<lparr>po_EnforceAdmission := True\<rparr>))) LevelRed \<and>
     sn_ThermalState calm_snapshot \<noteq> ThermalStateCritical)"
  by (rule queue_never_refuses_launch) code_simp

text \<open>
  Storage refuses exactly the disk-growing classes, and only on an available sample at or above
  the storage blocking rung under an enforcing storage policy: reclaim, install and the express
  classes always pass. The recorded source is the caller's or the fail-open marker; the marker for
  degraded express work is never produced.
\<close>

theorem storage_admission_exact:
  "(ad_Allowed (StorageAdmissionForClass s p class src) \<longleftrightarrow>
      \<not> (st_Enabled (po_Storage p) \<and> st_EnforceAdmission (po_Storage p) \<and> storageGrowingClass class \<and>
         ss_Available s \<and> AtLeast (ss_Level s) (st_BlockNewAt (po_Storage p)))) \<and>
   ad_Source (StorageAdmissionForClass s p class src) \<in> {src, ''fail-open''} \<and>
   \<not> storageGrowingClass WorkClassReclaim \<and> \<not> storageGrowingClass WorkClassInstall \<and>
   \<not> storageGrowingClass WorkClassExpressTest \<and> \<not> storageGrowingClass WorkClassExpressBuild"
  by (auto simp: StorageAdmissionForClass_def storageGrowingClass_def Let_def)

text \<open>
  The configured decision fails open only without evidence. Without a data directory, or with a
  missing, unreadable, undecodable or invalid policy, or one that does not enforce, work is
  admitted. Once an enforcing policy loads and the resident's snapshot is fresh, the decision is the
  policy's own decision on that snapshot less a stale process inventory, whatever a live probe
  would have said.
\<close>

theorem fresh_resident_decides:
  assumes "ah_DataDir h" and "LoadPolicy (ah_NumCPU h) (ah_PolicyFile h) 0 = Inr (p, True)"
    and "po_Enabled p" and "po_EnforceAdmission p" and "ah_Latest h = Some s"
    and "ResidentSnapshotIsFresh s p (ah_ResidentClock h)"
  shows "ad_Allowed (configuredAdmission h admit) =
      ad_Allowed (admit (sanitizeResidentFallback s p (ah_ResidentClock h)) p ''resident-fresh'') \<and>
    configuredAdmission (h\<lparr>ah_Probe := probe\<rparr>) admit = configuredAdmission h admit \<and>
    ad_Allowed (configuredAdmission (h\<lparr>ah_DataDir := False\<rparr>) admit) \<and>
    ad_Allowed (configuredAdmission (h\<lparr>ah_PolicyFile := PolicyGarbage\<rparr>) admit)"
proof -
  have "ah_PolicyFile h \<noteq> PolicyMissing" using assms(2) by auto
  with assms show ?thesis
    by (simp add: configuredAdmission_def AdmissionFromFreshResident_def Let_def)
qed

definition enforcing_host :: admission_host where
  "enforcing_host =
     \<lparr> ah_NumCPU = 8, ah_DataDir = True,
       ah_PolicyFile = PolicyDocument ((DefaultPolicy 8 0)\<lparr>po_EnforceAdmission := True\<rparr>),
       ah_Latest = Some (calm_snapshot\<lparr>sn_Timestamp := seconds 1000, sn_FreePercent := 5\<rparr>),
       ah_Probe = (\<lambda>_. Some calm_snapshot), ah_ResidentClock = seconds 1060, ah_AgeClock = seconds 1060,
       ah_FallbackClock = seconds 1061, ah_Status = None,
       ah_StorageSample = (\<lambda>p l. sampleStorage (Inl ''statfs failed'') p l) \<rparr>"

theorem fresh_resident_decides_witness:
  "ad_Allowed (configuredAdmission enforcing_host AdmissionForWorkSnapshot) =
      ad_Allowed (AdmissionForWorkSnapshot
        (sanitizeResidentFallback (calm_snapshot\<lparr>sn_Timestamp := seconds 1000, sn_FreePercent := 5\<rparr>)
          ((DefaultPolicy 8 0)\<lparr>po_EnforceAdmission := True\<rparr>) (ah_ResidentClock enforcing_host))
        ((DefaultPolicy 8 0)\<lparr>po_EnforceAdmission := True\<rparr>) ''resident-fresh'') \<and>
    configuredAdmission (enforcing_host\<lparr>ah_Probe := (\<lambda>_. None)\<rparr>) AdmissionForWorkSnapshot =
      configuredAdmission enforcing_host AdmissionForWorkSnapshot \<and>
    ad_Allowed (configuredAdmission (enforcing_host\<lparr>ah_DataDir := False\<rparr>) AdmissionForWorkSnapshot) \<and>
    ad_Allowed (configuredAdmission (enforcing_host\<lparr>ah_PolicyFile := PolicyGarbage\<rparr>) AdmissionForWorkSnapshot)"
  by (rule fresh_resident_decides) code_simp+


lemma quotient_exceeded: "0 < b \<Longrightarrow> (m div b < x) = (m < x * b)" for m b x :: int
proof -
  assume b: "0 < b"
  have m: "b * (m div b) + m mod b = m" "0 \<le> m mod b" "m mod b < b"
    using b by simp_all
  show ?thesis
  proof
    assume "m div b < x"
    then have "b * (m div b + 1) \<le> b * x" using b by simp
    then have "b * (m div b) + b \<le> x * b" by (simp add: distrib_left mult.commute)
    then show "m < x * b" using m by linarith
  next
    assume "m < x * b"
    with m have "b * (m div b) < x * b" by linarith
    then have "b * (m div b) < b * x" by (simp only: mult.commute)
    then show "m div b < x" using b by simp
  qed
qed

text \<open>
  The size of a volume is its block count times its block size as long as that fits a signed
  64-bit number, and the largest such number otherwise: the unsigned division that guards the
  product neither overflows nor refuses a product that fits.
\<close>

theorem saturating_block_bytes_exact:
  assumes "0 < blockSize" and "blockSize < 2 ^ 63"
  shows "saturatingBlockBytes blocks blockSize = min (uint blocks * blockSize) (2 ^ 63 - 1)"
proof -
  have "(blocks > word_of_int (2 ^ 63 - 1) div word_of_int blockSize) =
      (uint blocks > (2 ^ 63 - 1) div blockSize)"
    using assms by (simp add: word_less_def uint_div uint_word_of_int take_bit_int_eq_self)
  then have g: "(blocks > word_of_int (2 ^ 63 - 1) div word_of_int blockSize) =
      (2 ^ 63 - 1 < uint blocks * blockSize)"
    using assms(1) by (simp add: quotient_exceeded)
  show ?thesis
    using assms(1) unfolding saturatingBlockBytes_def g by (cases "blocks = 0") (auto simp: min_def)
qed

theorem saturating_block_bytes_exact_witness:
  "saturatingBlockBytes (2 ^ 60) 4096 = min (uint (2 ^ 60 :: 64 word) * 4096) (2 ^ 63 - 1)"
  by (rule saturating_block_bytes_exact) simp_all

end
