(* ===== verification/Swap_Thrash.thy ===== *)
theory Swap_Thrash
  imports Pressure_Evaluate "HOL-Library.Word"
begin

text \<open>
  The swap-thrash latch (\<^verbatim>\<open>sessionpressure/swap_io.go\<close>): rates from cumulative 64-bit kernel
  counters, the two-sample hysteresis, the attribution of an episode to agents or to demand outside
  the queue, and the transition events that the resident records. A closed vocabulary of the code
  (causes and transition states) is kept as strings. Pointer receivers are never nil here. A rate is
  a rational; the conversion of a duration to seconds is the exact quotient.
\<close>

section \<open>Rates from cumulative counters\<close>

definition bytesPerMiB :: int where
  "bytesPerMiB = 1024 * 1024"

record swapIOCounter =
  SwapInBytes :: "64 word"
  SwapOutBytes :: "64 word"

record swapIORate =
  InMBPerSecond :: rat
  OutMBPerSecond :: rat
  sr_Window :: duration
  OutBytes :: "64 word"

definition duration_seconds :: "duration \<Rightarrow> rat" where
  "duration_seconds d = rat_of_int d / 1000000000"

definition mib_per_second :: "64 word \<Rightarrow> duration \<Rightarrow> rat" where
  "mib_per_second delta window =
     rat_of_int (uint delta) / rat_of_int bytesPerMiB / duration_seconds window"

definition swapIORateBetween :: "swapIOCounter \<Rightarrow> swapIOCounter \<Rightarrow> duration \<Rightarrow> swapIORate option" where
  "swapIORateBetween previous current window =
     (if window \<le> 0 \<or> SwapInBytes current < SwapInBytes previous \<or>
         SwapOutBytes current < SwapOutBytes previous
      then None
      else if previous = \<lparr> SwapInBytes = 0, SwapOutBytes = 0 \<rparr> then None
      else
        let inDelta = SwapInBytes current - SwapInBytes previous;
            outDelta = SwapOutBytes current - SwapOutBytes previous
        in Some \<lparr> InMBPerSecond = mib_per_second inDelta window,
                  OutMBPerSecond = mib_per_second outDelta window,
                  sr_Window = window, OutBytes = outDelta \<rparr>)"

text \<open>\<^verbatim>\<open>bits.Mul64\<close> returns the high and the low half of the 128-bit product.\<close>

definition saturatingMulUint64 :: "64 word \<Rightarrow> 64 word \<Rightarrow> 64 word" where
  "saturatingMulUint64 left right =
     (let product = uint left * uint right; high = product div 2 ^ 64; low = product mod 2 ^ 64
      in if high \<noteq> 0 then -1 else word_of_int low)"


section \<open>The latch\<close>

definition swapThrashEnterSamples :: int where
  "swapThrashEnterSamples = 2"

definition swapThrashReleaseSamples :: int where
  "swapThrashReleaseSamples = 2"

definition SwapThrashCauseAgents :: string where
  "SwapThrashCauseAgents = ''agents''"

definition SwapThrashCauseUnattributed :: string where
  "SwapThrashCauseUnattributed = ''unattributed''"

definition SwapThrashCauseExternal :: string where
  "SwapThrashCauseExternal = ''external''"

definition SwapThrashEntered :: string where
  "SwapThrashEntered = ''entered''"

definition SwapThrashDerateReleased :: string where
  "SwapThrashDerateReleased = ''derate_released''"

definition SwapThrashDerateResumed :: string where
  "SwapThrashDerateResumed = ''derate_resumed''"

definition SwapThrashReleased :: string where
  "SwapThrashReleased = ''released''"

lemmas thrash_words =
  SwapThrashCauseAgents_def SwapThrashCauseUnattributed_def SwapThrashCauseExternal_def
  SwapThrashEntered_def SwapThrashDerateReleased_def SwapThrashDerateResumed_def
  SwapThrashReleased_def

record SwapThrashTransition =
  tr_State :: string
  tr_Resumed :: bool
  tr_Cause :: string
  tr_Since :: time
  tr_EpisodeSeconds :: rat
  tr_ExternalSeconds :: rat
  tr_SwapOutMBPerSecond :: rat
  tr_SwapUsedMB :: rat
  tr_CoordinatedRSSMB :: rat
  tr_CoordinatedLeases :: int
  tr_AgentShareMB :: rat

record swapThrashLatch =
  tl_latched :: bool
  tl_hot :: int
  tl_calm :: int
  tl_since :: time
  tl_quietSince :: time
  tl_proven :: bool
  tl_external :: bool
  tl_externalSince :: time
  tl_externalTotal :: duration
  tl_cause :: string
  tl_lastExternalRelease :: time
  tl_resumed :: bool

definition zero_latch :: swapThrashLatch where
  "zero_latch =
     \<lparr> tl_latched = False, tl_hot = 0, tl_calm = 0, tl_since = 0, tl_quietSince = 0,
       tl_proven = False, tl_external = False, tl_externalSince = 0, tl_externalTotal = 0,
       tl_cause = [], tl_lastExternalRelease = 0, tl_resumed = False \<rparr>"

definition swapThrashResumeMaxAge :: duration where
  "swapThrashResumeMaxAge = seconds (3 * 60)"

definition resume :: "swapThrashLatch \<Rightarrow> Snapshot \<Rightarrow> time \<Rightarrow> swapThrashLatch" where
  "resume latch latest now =
     (let age = time_sub now (sn_Timestamp latest) in
      if \<not> sn_SwapIOAvailable latest \<or> \<not> sn_SwapThrashLatched latest then latch
      else if age < seconds (-5) \<or> age > swapThrashResumeMaxAge then latch
      else
        let fresh = zero_latch\<lparr> tl_latched := True, tl_hot := swapThrashEnterSamples,
                      tl_since := (if IsZero (sn_SwapThrashSince latest) then sn_Timestamp latest
                                   else sn_SwapThrashSince latest),
                      tl_cause := sn_SwapThrashCause latest, tl_resumed := True \<rparr>
        in if sn_SwapThrashCause latest = SwapThrashCauseExternal
           then fresh\<lparr> tl_proven := True, tl_external := True, tl_externalSince := sn_Timestamp latest \<rparr>
           else fresh)"

definition count_sample :: "Thresholds \<Rightarrow> rat \<Rightarrow> swapThrashLatch \<Rightarrow> swapThrashLatch" where
  "count_sample t rate latch =
     (if rate \<ge> SwapOutThrashMBPerSecond t then latch\<lparr> tl_hot := tl_hot latch + 1, tl_calm := 0 \<rparr>
      else if rate \<le> SwapOutReleaseMBPerSecond t
      then latch\<lparr> tl_hot := 0, tl_calm := tl_calm latch + 1 \<rparr>
      else latch\<lparr> tl_hot := 0, tl_calm := 0 \<rparr>)"

definition observe_thrash :: "swapThrashLatch \<Rightarrow> Snapshot \<Rightarrow> Thresholds \<Rightarrow> swapThrashLatch \<times> Snapshot" where
  "observe_thrash latch s t =
     (if \<not> sn_SwapIOAvailable s \<or> SwapOutThrashMBPerSecond t \<le> 0
      then (zero_latch, s\<lparr> sn_SwapThrashLatched := False \<rparr>)
      else
        let latch = count_sample t (sn_SwapOutMBPerSecond s) latch;
            latch = (if \<not> tl_latched latch \<and> tl_hot latch \<ge> swapThrashEnterSamples
                     then latch\<lparr> tl_latched := True \<rparr> else latch);
            latch = (if tl_latched latch \<and> tl_calm latch \<ge> swapThrashReleaseSamples
                     then latch\<lparr> tl_latched := False \<rparr> else latch)
        in (latch, s\<lparr> sn_SwapThrashLatched := tl_latched latch \<rparr>))"


section \<open>Attribution\<close>

definition swapThrashReleaseWindow :: "WorkLimits \<Rightarrow> duration" where
  "swapThrashReleaseWindow limits =
     (if SwapThrashExternalReleaseSeconds limits \<le> 0 then 0
      else seconds (SwapThrashExternalReleaseSeconds limits))"

definition swapThrashAgentShareMB :: "Snapshot \<Rightarrow> WorkLimits \<Rightarrow> rat" where
  "swapThrashAgentShareMB s limits =
     (if sn_PhysicalMemoryMB s \<le> 0 \<or> SwapThrashAgentSharePercent limits \<le> 0 then 0
      else sn_PhysicalMemoryMB s * rat_of_int (SwapThrashAgentSharePercent limits) / 100)"

definition swapThrashCoordinatedRSSMB :: "Snapshot \<Rightarrow> rat" where
  "swapThrashCoordinatedRSSMB s =
     (if \<not> cw_Available (sn_CoordinatedWork s) then 0 else max 0 (cw_RSSSumMB (sn_CoordinatedWork s)))"

definition setExternal :: "swapThrashLatch \<Rightarrow> bool \<Rightarrow> time \<Rightarrow> swapThrashLatch" where
  "setExternal latch external now =
     (if external \<and> \<not> tl_external latch
      then latch\<lparr> tl_external := True, tl_externalSince := now \<rparr>
      else if \<not> external \<and> tl_external latch
      then latch\<lparr> tl_externalTotal := tl_externalTotal latch + time_sub now (tl_externalSince latch),
                  tl_external := False, tl_externalSince := 0 \<rparr>
      else latch)"

definition agents_dominate :: "Snapshot \<Rightarrow> WorkLimits \<Rightarrow> bool" where
  "agents_dominate s limits \<longleftrightarrow>
     (let shareMB = swapThrashAgentShareMB s limits
      in shareMB > 0 \<and> swapThrashCoordinatedRSSMB s \<ge> shareMB)"

definition attribute :: "swapThrashLatch \<Rightarrow> Snapshot \<Rightarrow> WorkLimits \<Rightarrow> swapThrashLatch \<times> Snapshot" where
  "attribute latch s limits =
     (let now = sn_Timestamp s;
          latch =
            (if agents_dominate s limits
             then (setExternal (latch\<lparr> tl_quietSince := 0 \<rparr>) False now)\<lparr> tl_cause := SwapThrashCauseAgents \<rparr>
             else
               let latch = (if IsZero (tl_quietSince latch) then latch\<lparr> tl_quietSince := now \<rparr> else latch);
                   window = swapThrashReleaseWindow limits
               in if window > 0 \<and> (tl_proven latch \<or> time_sub now (tl_quietSince latch) \<ge> window)
                  then (setExternal (latch\<lparr> tl_proven := True \<rparr>) True now)
                         \<lparr> tl_cause := SwapThrashCauseExternal \<rparr>
                  else (setExternal latch False now)\<lparr> tl_cause := SwapThrashCauseUnattributed \<rparr>)
      in (latch, s\<lparr> sn_SwapThrashCause := tl_cause latch, sn_SwapThrashSince := tl_since latch \<rparr>))"

definition fillEvidence :: "SwapThrashTransition \<Rightarrow> Snapshot \<Rightarrow> WorkLimits \<Rightarrow> SwapThrashTransition" where
  "fillEvidence tr s limits =
     tr\<lparr> tr_SwapOutMBPerSecond := sn_SwapOutMBPerSecond s, tr_SwapUsedMB := sn_SwapUsedMB s,
         tr_CoordinatedRSSMB := swapThrashCoordinatedRSSMB s,
         tr_CoordinatedLeases := (if cw_Available (sn_CoordinatedWork s)
                                  then cw_LeaseCount (sn_CoordinatedWork s)
                                  else tr_CoordinatedLeases tr),
         tr_AgentShareMB := swapThrashAgentShareMB s limits \<rparr>"

definition zero_transition :: SwapThrashTransition where
  "zero_transition =
     \<lparr> tr_State = [], tr_Resumed = False, tr_Cause = [], tr_Since = 0, tr_EpisodeSeconds = 0,
       tr_ExternalSeconds = 0, tr_SwapOutMBPerSecond = 0, tr_SwapUsedMB = 0,
       tr_CoordinatedRSSMB = 0, tr_CoordinatedLeases = 0, tr_AgentShareMB = 0 \<rparr>"

definition transition :: "swapThrashLatch \<Rightarrow> string \<Rightarrow> Snapshot \<Rightarrow> WorkLimits \<Rightarrow> SwapThrashTransition" where
  "transition latch state s limits =
     fillEvidence (zero_transition\<lparr> tr_State := state, tr_Cause := tl_cause latch,
                                    tr_Since := tl_since latch \<rparr>) s limits"

text \<open>The three branches of \<^verbatim>\<open>advance\<close>: an episode begins, it ends, it goes on.\<close>

definition enter_episode ::
    "swapThrashLatch \<Rightarrow> swapThrashLatch \<Rightarrow> Snapshot \<Rightarrow> WorkLimits \<Rightarrow>
     swapThrashLatch \<times> Snapshot \<times> SwapThrashTransition option" where
  "enter_episode before latch s limits =
     (let now = sn_Timestamp s; window = swapThrashReleaseWindow limits;
          again = (window > 0 \<and> \<not> IsZero (tl_lastExternalRelease before) \<and>
                   time_sub now (tl_lastExternalRelease before) < window);
          latch = latch\<lparr> tl_since := now, tl_quietSince := 0, tl_proven := again,
                         tl_external := False, tl_externalSince := 0, tl_externalTotal := 0,
                         tl_lastExternalRelease := tl_lastExternalRelease before \<rparr>;
          (latch, s) = attribute latch s limits
      in (latch, s, Some (transition latch SwapThrashEntered s limits)))"

definition release_episode ::
    "swapThrashLatch \<Rightarrow> swapThrashLatch \<Rightarrow> Snapshot \<Rightarrow> WorkLimits \<Rightarrow>
     swapThrashLatch \<times> Snapshot \<times> SwapThrashTransition option" where
  "release_episode before latch s limits =
     (let now = sn_Timestamp s;
          externalTotal = tl_externalTotal before +
            (if tl_external before then time_sub now (tl_externalSince before) else 0);
          cause = (if tl_proven before then SwapThrashCauseExternal else tl_cause before);
          tr = fillEvidence
                 (zero_transition\<lparr> tr_State := SwapThrashReleased, tr_Cause := cause,
                    tr_Since := tl_since before,
                    tr_EpisodeSeconds := max 0 (duration_seconds (time_sub now (tl_since before))),
                    tr_ExternalSeconds := max 0 (duration_seconds externalTotal) \<rparr>) s limits;
          latch = zero_latch\<lparr> tl_hot := tl_hot latch, tl_calm := tl_calm latch,
                              tl_lastExternalRelease := (if tl_proven before then now else 0) \<rparr>
      in (latch, s\<lparr> sn_SwapThrashCause := [], sn_SwapThrashSince := 0 \<rparr>, Some tr))"

definition continue_episode ::
    "swapThrashLatch \<Rightarrow> swapThrashLatch \<Rightarrow> Snapshot \<Rightarrow> WorkLimits \<Rightarrow>
     swapThrashLatch \<times> Snapshot \<times> SwapThrashTransition option" where
  "continue_episode before latch s limits =
     (let (latch, s) = attribute latch s limits in
      if tl_resumed before then
        (let latch = latch\<lparr> tl_resumed := False \<rparr>
         in (latch, s, Some ((transition latch SwapThrashEntered s limits)\<lparr> tr_Resumed := True \<rparr>)))
      else if tl_external latch \<noteq> tl_external before then
        (latch, s, Some (transition latch
           (if tl_external latch then SwapThrashDerateReleased else SwapThrashDerateResumed) s limits))
      else (latch, s, None))"

definition advance ::
    "int \<Rightarrow> swapThrashLatch \<Rightarrow> Snapshot \<Rightarrow> Thresholds \<Rightarrow> WorkLimits \<Rightarrow>
     swapThrashLatch \<times> Snapshot \<times> SwapThrashTransition option" where
  "advance ncpu before snapshot t workLimits =
     (let limits = normalizeWorkLimits ncpu workLimits;
          (latch, s) = observe_thrash before snapshot t
      in if \<not> tl_latched before \<and> tl_latched latch then enter_episode before latch s limits
         else if tl_latched before \<and> \<not> tl_latched latch then release_episode before latch s limits
         else if tl_latched latch then continue_episode before latch s limits
         else (latch, s, None))"



section \<open>Facts\<close>

lemma setExternal_frame [simp, frame_simps]:
  "tl_latched (setExternal l e now) = tl_latched l" "tl_hot (setExternal l e now) = tl_hot l"
  "tl_calm (setExternal l e now) = tl_calm l" "tl_since (setExternal l e now) = tl_since l"
  "tl_proven (setExternal l e now) = tl_proven l" "tl_resumed (setExternal l e now) = tl_resumed l"
  "tl_quietSince (setExternal l e now) = tl_quietSince l"
  "tl_external (setExternal l e now) = e"
  by (auto simp: setExternal_def)

lemma attribute_latch [simp]:
  "tl_latched (fst (attribute l s w)) = tl_latched l" "tl_hot (fst (attribute l s w)) = tl_hot l"
  "tl_calm (fst (attribute l s w)) = tl_calm l" "tl_since (fst (attribute l s w)) = tl_since l"
  "tl_resumed (fst (attribute l s w)) = tl_resumed l"
  by (simp_all add: attribute_def Let_def)

lemma attribute_external:
  "tl_external (fst (attribute l s w)) \<longleftrightarrow> tl_cause (fst (attribute l s w)) = SwapThrashCauseExternal"
  by (simp add: attribute_def Let_def thrash_words)

lemma attribute_snapshot:
  "snd (attribute l s w) =
     s\<lparr> sn_SwapThrashCause := tl_cause (fst (attribute l s w)), sn_SwapThrashSince := tl_since l \<rparr>"
  using attribute_latch(4) [of l s w] by (simp add: attribute_def Let_def)

lemma episode_counts [simp]:
  "tl_latched (fst (enter_episode b l s w)) = tl_latched l"
  "tl_hot (fst (enter_episode b l s w)) = tl_hot l" "tl_calm (fst (enter_episode b l s w)) = tl_calm l"
  "\<not> tl_latched (fst (release_episode b l s w))"
  "tl_hot (fst (release_episode b l s w)) = tl_hot l"
  "tl_calm (fst (release_episode b l s w)) = tl_calm l"
  "tl_latched (fst (continue_episode b l s w)) = tl_latched l"
  "tl_hot (fst (continue_episode b l s w)) = tl_hot l"
  "tl_calm (fst (continue_episode b l s w)) = tl_calm l"
  by (simp_all add: enter_episode_def release_episode_def continue_episode_def Let_def
      case_prod_beta zero_latch_def)

lemma advance_eq:
  "advance n l s t w =
     (let latch = fst (observe_thrash l s t); s' = snd (observe_thrash l s t);
          limits = normalizeWorkLimits n w
      in if \<not> tl_latched l \<and> tl_latched latch then enter_episode l latch s' limits
         else if tl_latched l \<and> \<not> tl_latched latch then release_episode l latch s' limits
         else if tl_latched latch then continue_episode l latch s' limits else (latch, s', None))"
  by (simp add: advance_def Let_def case_prod_beta)

lemma advance_counts:
  "tl_latched (fst (advance n l s t w)) = tl_latched (fst (observe_thrash l s t))"
  "tl_hot (fst (advance n l s t w)) = tl_hot (fst (observe_thrash l s t))"
  "tl_calm (fst (advance n l s t w)) = tl_calm (fst (observe_thrash l s t))"
  by (simp_all add: advance_eq Let_def)

subsection \<open>The verdict as a function of the history\<close>

text \<open>
  Reference definition of the latch. Each sample falls in a band; the verdict of a history, most
  recent sample first, is that of the latest pair of consecutive hot or consecutive calm samples, and a
  missing sample forgets the past.
\<close>

datatype band = Missing | Hot | Calm | Between

definition band_of :: "Thresholds \<Rightarrow> Snapshot \<Rightarrow> band" where
  "band_of t s =
     (if \<not> sn_SwapIOAvailable s \<or> SwapOutThrashMBPerSecond t \<le> 0 then Missing
      else if sn_SwapOutMBPerSecond s \<ge> SwapOutThrashMBPerSecond t then Hot
      else if sn_SwapOutMBPerSecond s \<le> SwapOutReleaseMBPerSecond t then Calm
      else Between)"

fun verdict :: "band list \<Rightarrow> bool" where
  "verdict (Hot # Hot # bs) = True"
| "verdict (Calm # Calm # bs) = False"
| "verdict (Missing # bs) = False"
| "verdict (b # bs) = verdict bs"
| "verdict [] = False"

definition tracks :: "swapThrashLatch \<Rightarrow> band list \<Rightarrow> bool" where
  "tracks l bs \<longleftrightarrow>
     tl_latched l = verdict bs \<and> tl_hot l = int (length (takeWhile (\<lambda>b. b = Hot) bs)) \<and>
     tl_calm l = int (length (takeWhile (\<lambda>b. b = Calm) bs))"

lemma observe_tracks:
  assumes "tracks l bs"
  shows "tracks (fst (observe_thrash l s t)) (band_of t s # bs)"
proof (cases "band_of t s")
  case Missing
  then have "fst (observe_thrash l s t) = zero_latch"
    by (auto simp: observe_thrash_def band_of_def split: if_splits)
  with Missing show ?thesis by (simp add: tracks_def zero_latch_def)
next
  case Hot
  then have b: "sn_SwapIOAvailable s" "\<not> SwapOutThrashMBPerSecond t \<le> 0"
    "SwapOutThrashMBPerSecond t \<le> sn_SwapOutMBPerSecond s"
    by (auto simp: band_of_def split: if_splits)
  have "1 \<le> tl_hot l \<longleftrightarrow> (\<exists>r. bs = Hot # r)" using assms by (cases bs) (auto simp: tracks_def)
  moreover have "verdict (Hot # bs) \<longleftrightarrow> (\<exists>r. bs = Hot # r) \<or> verdict bs"
    by (cases bs rule: list.exhaust; cases "hd bs") auto
  ultimately show ?thesis
    using assms Hot b
    by (auto simp: tracks_def observe_thrash_def count_sample_def Let_def swapThrashEnterSamples_def
        swapThrashReleaseSamples_def)
next
  case Calm
  then have b: "sn_SwapIOAvailable s" "\<not> SwapOutThrashMBPerSecond t \<le> 0"
    "\<not> SwapOutThrashMBPerSecond t \<le> sn_SwapOutMBPerSecond s"
    "sn_SwapOutMBPerSecond s \<le> SwapOutReleaseMBPerSecond t"
    by (auto simp: band_of_def split: if_splits)
  have "1 \<le> tl_calm l \<longleftrightarrow> (\<exists>r. bs = Calm # r)" using assms by (cases bs) (auto simp: tracks_def)
  moreover have "verdict (Calm # bs) \<longleftrightarrow> \<not> (\<exists>r. bs = Calm # r) \<and> verdict bs"
    by (cases bs rule: list.exhaust; cases "hd bs") auto
  ultimately show ?thesis
    using assms Calm b
    by (auto simp: tracks_def observe_thrash_def count_sample_def Let_def swapThrashEnterSamples_def
        swapThrashReleaseSamples_def)
next
  case Between
  then have b: "sn_SwapIOAvailable s" "\<not> SwapOutThrashMBPerSecond t \<le> 0"
    "\<not> SwapOutThrashMBPerSecond t \<le> sn_SwapOutMBPerSecond s"
    "\<not> sn_SwapOutMBPerSecond s \<le> SwapOutReleaseMBPerSecond t"
    by (auto simp: band_of_def split: if_splits)
  then show ?thesis
    using assms Between
    by (auto simp: tracks_def observe_thrash_def count_sample_def Let_def swapThrashEnterSamples_def
        swapThrashReleaseSamples_def)
qed

text \<open>The resident's loop: one sample after the other, collecting the recorded transitions.\<close>

fun thrash_run ::
    "int \<Rightarrow> Thresholds \<Rightarrow> WorkLimits \<Rightarrow> swapThrashLatch \<Rightarrow> Snapshot list \<Rightarrow>
     swapThrashLatch \<times> SwapThrashTransition list" where
  "thrash_run n t w l [] = (l, [])"
| "thrash_run n t w l (s # ss) =
     (let (l', s', tr) = advance n l s t w; (l'', trs) = thrash_run n t w l' ss
      in (l'', (case tr of None \<Rightarrow> trs | Some x \<Rightarrow> x # trs)))"

lemma thrash_run_Cons:
  "fst (thrash_run n t w l (s # ss)) = fst (thrash_run n t w (fst (advance n l s t w)) ss)"
  "snd (thrash_run n t w l (s # ss)) =
     (case snd (snd (advance n l s t w)) of None \<Rightarrow> [] | Some x \<Rightarrow> [x]) @
     snd (thrash_run n t w (fst (advance n l s t w)) ss)"
  by (simp_all add: Let_def case_prod_beta split: option.splits)

lemma advance_tracks: "tracks l bs \<Longrightarrow> tracks (fst (advance n l s t w)) (band_of t s # bs)"
  using observe_tracks [of l bs s t] by (simp add: tracks_def advance_counts)

lemma run_tracks:
  "tracks l bs \<Longrightarrow> tracks (fst (thrash_run n t w l ss)) (rev (map (band_of t) ss) @ bs)"
proof (induction ss arbitrary: l bs)
  case (Cons s ss)
  then show ?case
    using Cons.IH [OF advance_tracks [OF Cons.prems]] by (simp add: thrash_run_Cons del: thrash_run.simps)
qed simp

lemma zero_tracks: "tracks zero_latch []"
  by (simp add: tracks_def zero_latch_def)


subsection \<open>Replaying the recorded transitions\<close>

text \<open>What a reader of the history knows: whether the latch is set and whether the derate is lifted.\<close>

definition replay :: "SwapThrashTransition \<Rightarrow> bool \<times> bool \<Rightarrow> bool \<times> bool" where
  "replay tr known =
     (if tr_State tr = SwapThrashEntered then (True, tr_Cause tr = SwapThrashCauseExternal)
      else if tr_State tr = SwapThrashReleased then (False, False)
      else if tr_State tr = SwapThrashDerateReleased then (fst known, True)
      else if tr_State tr = SwapThrashDerateResumed then (fst known, False)
      else known)"

lemma transition_fields [simp]:
  "tr_State (transition l st s w) = st" "tr_Cause (transition l st s w) = tl_cause l"
  by (simp_all add: transition_def fillEvidence_def)

lemma replay_simps [simp]:
  "tr_State tr = SwapThrashEntered \<Longrightarrow> replay tr k = (True, tr_Cause tr = SwapThrashCauseExternal)"
  "tr_State tr = SwapThrashReleased \<Longrightarrow> replay tr k = (False, False)"
  "tr_State tr = SwapThrashDerateReleased \<Longrightarrow> replay tr k = (fst k, True)"
  "tr_State tr = SwapThrashDerateResumed \<Longrightarrow> replay tr k = (fst k, False)"
  by (simp_all add: replay_def thrash_words)

definition settled_latch :: "swapThrashLatch \<Rightarrow> bool" where
  "settled_latch l \<longleftrightarrow> tl_latched l \<or> (\<not> tl_external l \<and> \<not> tl_resumed l)"

lemma observe_frame:
  "tl_latched (fst (observe_thrash l s t)) \<Longrightarrow>
     tl_external (fst (observe_thrash l s t)) = tl_external l \<and>
     tl_resumed (fst (observe_thrash l s t)) = tl_resumed l \<and>
     tl_proven (fst (observe_thrash l s t)) = tl_proven l \<and>
     tl_quietSince (fst (observe_thrash l s t)) = tl_quietSince l \<and>
     tl_since (fst (observe_thrash l s t)) = tl_since l"
  by (auto simp: observe_thrash_def count_sample_def zero_latch_def Let_def split: if_splits)

lemma observe_unlatched_frame:
  "\<not> tl_external l \<Longrightarrow> \<not> tl_resumed l \<Longrightarrow>
     \<not> tl_external (fst (observe_thrash l s t)) \<and> \<not> tl_resumed (fst (observe_thrash l s t))"
  by (auto simp: observe_thrash_def count_sample_def zero_latch_def Let_def)

lemma observe_snapshot:
  "snd (observe_thrash l s t) = s\<lparr> sn_SwapThrashLatched := tl_latched (fst (observe_thrash l s t)) \<rparr>"
  by (simp add: observe_thrash_def zero_latch_def Let_def)

text \<open>One advance: the new latch is settled and the recorded transition, if any, tells what changed.\<close>

definition recorded :: "SwapThrashTransition option \<Rightarrow> bool \<times> bool \<Rightarrow> bool \<times> bool" where
  "recorded tr known = (case tr of None \<Rightarrow> known | Some x \<Rightarrow> replay x known)"

lemma enter_recorded:
  "tl_latched l \<Longrightarrow>
     recorded (snd (snd (enter_episode b l s w))) known =
       (True, tl_external (fst (enter_episode b l s w)))"
  by (simp add: enter_episode_def Let_def case_prod_beta recorded_def attribute_external)

lemma release_recorded:
  "recorded (snd (snd (release_episode b l s w))) known = (False, False) \<and>
     \<not> tl_external (fst (release_episode b l s w)) \<and> \<not> tl_resumed (fst (release_episode b l s w))"
  by (simp add: release_episode_def Let_def recorded_def fillEvidence_def zero_latch_def)

lemma continue_recorded:
  assumes "tl_resumed b \<or> known = (True, tl_external b)"
  shows "recorded (snd (snd (continue_episode b l s w))) known =
      (True, tl_external (fst (continue_episode b l s w)))"
  using assms by (auto simp: continue_episode_def Let_def case_prod_beta recorded_def attribute_external)

lemma advance_recorded:
  fixes l s t w n
  assumes "settled_latch l" and "tl_resumed l \<or> known = (tl_latched l, tl_external l)"
  defines "l' \<equiv> fst (advance n l s t w)"
  shows "settled_latch l' \<and> \<not> tl_resumed l' \<and>
    recorded (snd (snd (advance n l s t w))) known = (tl_latched l', tl_external l')"
proof -
  let ?o = "fst (observe_thrash l s t)" and ?s = "snd (observe_thrash l s t)"
    and ?w = "normalizeWorkLimits n w"
  note adv = advance_eq [of n l s t w]
  consider (enter) "\<not> tl_latched l" "tl_latched ?o" | (release) "tl_latched l" "\<not> tl_latched ?o"
    | (continue) "tl_latched l" "tl_latched ?o" | (idle) "\<not> tl_latched l" "\<not> tl_latched ?o"
    by blast
  then show ?thesis
  proof cases
    case enter
    then have "\<not> tl_resumed ?o" using assms(1) observe_frame [of l s t] by (simp add: settled_latch_def)
    then have "\<not> tl_resumed (fst (enter_episode l ?o ?s ?w))"
      by (simp add: enter_episode_def Let_def case_prod_beta)
    with enter show ?thesis by (simp add: l'_def adv enter_recorded settled_latch_def Let_def)
  next
    case release
    then show ?thesis using release_recorded [of l ?o ?s ?w known]
      by (simp add: l'_def adv settled_latch_def Let_def)
  next
    case continue
    then have r: "tl_resumed ?o = tl_resumed l" using observe_frame [of l s t] by simp
    have "\<not> tl_resumed (fst (continue_episode l ?o ?s ?w))"
      using r by (simp add: continue_episode_def Let_def case_prod_beta)
    with continue assms(2) show ?thesis
      by (simp add: l'_def adv settled_latch_def continue_recorded Let_def)
  next
    case idle
    then have "\<not> tl_external ?o \<and> \<not> tl_resumed ?o" "known = (False, False)"
      using assms observe_unlatched_frame [of l s t] by (auto simp: settled_latch_def)
    with idle show ?thesis by (simp add: l'_def adv settled_latch_def recorded_def Let_def)
  qed
qed

lemma run_recorded:
  assumes "settled_latch l" and "\<not> tl_resumed l" and "known = (tl_latched l, tl_external l)"
  shows "fold replay (snd (thrash_run n t w l ss)) known =
    (tl_latched (fst (thrash_run n t w l ss)), tl_external (fst (thrash_run n t w l ss)))"
  using assms
proof (induction ss arbitrary: l known)
  case (Cons s ss)
  let ?tr = "snd (snd (advance n l s t w))" and ?l = "fst (advance n l s t w)"
  have step: "settled_latch ?l" "\<not> tl_resumed ?l" "recorded ?tr known = (tl_latched ?l, tl_external ?l)"
    using advance_recorded [of l known n s t w] Cons.prems by simp_all
  have "fold replay (case ?tr of None \<Rightarrow> [] | Some x \<Rightarrow> [x]) known = recorded ?tr known"
    by (simp add: recorded_def split: option.splits)
  with Cons.IH [OF step(1,2) step(3)] show ?case
    by (simp add: thrash_run_Cons del: thrash_run.simps)
qed simp



section \<open>Properties of the thrash latch\<close>

text \<open>
  Claim C7. The latch is a function of the recent samples: after any sequence of samples it is set exactly
  when the latest pair of consecutive hot or consecutive calm samples was a hot one and no sample
  was missing since. One burst never sets it, one quiet sample never clears it, samples between the
  two thresholds change nothing, and a missing sample always clears it.
\<close>

theorem thrash_latch_is_verdict:
  "tl_latched (fst (thrash_run n t w zero_latch ss)) = verdict (rev (map (band_of t) ss))"
  using run_tracks [OF zero_tracks, of n t w ss] by (simp add: tracks_def)

text \<open>
  Claim C14. The recorded transitions are enough to reconstruct the derate: replaying them from the start gives
  at every moment whether the latch is set and whether the derate is lifted, whatever the samples.
\<close>

theorem thrash_transitions_replay:
  "fold replay (snd (thrash_run n t w zero_latch ss)) (False, False) =
     (tl_latched (fst (thrash_run n t w zero_latch ss)),
      tl_external (fst (thrash_run n t w zero_latch ss)))"
  by (rule run_recorded) (simp_all add: settled_latch_def zero_latch_def)

definition storm :: "time \<Rightarrow> Snapshot" where
  "storm at_time = calm_snapshot\<lparr> sn_Timestamp := at_time, sn_SwapOutMBPerSecond := 100 \<rparr>"

definition storm_latch :: swapThrashLatch where
  "storm_latch =
     fst (thrash_run 8 (default_thresholds 16384) (defaultWorkLimits 8) zero_latch
            [storm (seconds 100), storm (seconds 130)])"

text \<open>What a latched sample publishes.\<close>

lemma attribute_publishes:
  "sn_SwapThrashCause (snd (attribute l s w)) = tl_cause (fst (attribute l s w))"
  "sn_SwapThrashSince (snd (attribute l s w)) = tl_since (fst (attribute l s w))"
  "sn_SwapThrashLatched (snd (attribute l s w)) = sn_SwapThrashLatched s"
  "sn_SwapIOAvailable (snd (attribute l s w)) = sn_SwapIOAvailable s"
  "sn_Timestamp (snd (attribute l s w)) = sn_Timestamp s"
  by (simp_all add: attribute_snapshot)

lemma observe_latched_available:
  "tl_latched (fst (observe_thrash l s t)) \<Longrightarrow> sn_SwapIOAvailable s"
  by (auto simp: observe_thrash_def zero_latch_def split: if_splits)

lemma enter_is_attribute:
  "\<exists>x. fst (enter_episode b l s w) = fst (attribute x s w) \<and>
     fst (snd (enter_episode b l s w)) = snd (attribute x s w)"
  by (simp add: enter_episode_def Let_def case_prod_beta) blast

lemma continue_is_attribute:
  "(fst (continue_episode b l s w) = fst (attribute l s w) \<or>
    fst (continue_episode b l s w) = (fst (attribute l s w))\<lparr>tl_resumed := False\<rparr>) \<and>
   fst (snd (continue_episode b l s w)) = snd (attribute l s w)"
  by (simp add: continue_episode_def Let_def case_prod_beta)

lemma published_snapshot:
  assumes "tl_latched (fst (advance n l s t w))"
  shows "sn_SwapThrashLatched (fst (snd (advance n l s t w)))"
    and "sn_SwapIOAvailable (fst (snd (advance n l s t w)))"
    and "sn_Timestamp (fst (snd (advance n l s t w))) = sn_Timestamp s"
    and "sn_SwapThrashCause (fst (snd (advance n l s t w))) = tl_cause (fst (advance n l s t w))"
    and "sn_SwapThrashSince (fst (snd (advance n l s t w))) = tl_since (fst (advance n l s t w))"
    and "tl_external (fst (advance n l s t w)) =
      (tl_cause (fst (advance n l s t w)) = SwapThrashCauseExternal)"
proof -
  let ?o = "fst (observe_thrash l s t)" and ?w = "normalizeWorkLimits n w"
  have o: "tl_latched ?o" using assms by (simp add: advance_counts)
  note avail = observe_latched_available [OF o]
  obtain x where x: "fst (advance n l s t w) = fst (attribute x (snd (observe_thrash l s t)) ?w)
        \<or> fst (advance n l s t w) = (fst (attribute x (snd (observe_thrash l s t)) ?w))\<lparr>tl_resumed := False\<rparr>"
    "fst (snd (advance n l s t w)) = snd (attribute x (snd (observe_thrash l s t)) ?w)"
    using o enter_is_attribute [of l ?o "snd (observe_thrash l s t)" ?w]
      continue_is_attribute [of l ?o "snd (observe_thrash l s t)" ?w]
    by (cases "tl_latched l") (auto simp: advance_eq Let_def)
  show "sn_SwapThrashLatched (fst (snd (advance n l s t w)))"
    "sn_SwapIOAvailable (fst (snd (advance n l s t w)))"
    "sn_Timestamp (fst (snd (advance n l s t w))) = sn_Timestamp s"
    using o avail by (simp_all add: x(2) attribute_publishes observe_snapshot)
  show "sn_SwapThrashCause (fst (snd (advance n l s t w))) = tl_cause (fst (advance n l s t w))"
    "sn_SwapThrashSince (fst (snd (advance n l s t w))) = tl_since (fst (advance n l s t w))"
    using x(1) by (auto simp: x(2) attribute_publishes)
  show "tl_external (fst (advance n l s t w)) =
      (tl_cause (fst (advance n l s t w)) = SwapThrashCauseExternal)"
    using x(1) by (auto simp: attribute_external)
qed

text \<open>
  A restart in mid-episode continues it. A resident that resumes from the snapshot its predecessor
  published for a latched sample, within three minutes of it, has the latch set, the same cause and
  the same verdict on the derate, and the same entry time.
\<close>

theorem restart_continues_episode:
  assumes "tl_latched (fst (advance n l s t w))" and "\<not> IsZero (tl_since (fst (advance n l s t w)))"
    and "sn_Timestamp s \<le> now" and "now \<le> sn_Timestamp s + seconds 180"
  shows "let l' = fst (advance n l s t w);
             r = resume zero_latch (fst (snd (advance n l s t w))) now
         in tl_latched r \<and> tl_cause r = tl_cause l' \<and> tl_external r = tl_external l' \<and>
            tl_since r = tl_since l'"
proof -
  have "time_sub now (sn_Timestamp s) = now - sn_Timestamp s"
    using assms(3,4) by (intro time_sub_exact) (simp_all add: min_duration_def max_duration_def seconds_def)
  then show ?thesis
    using assms published_snapshot [OF assms(1)]
    by (simp add: resume_def Let_def swapThrashResumeMaxAge_def seconds_def zero_latch_def)
qed

theorem restart_continues_episode_witness:
  "let l' = fst (advance 8 storm_latch (storm (seconds 500)) (default_thresholds 16384) (defaultWorkLimits 8));
       r = resume zero_latch (fst (snd (advance 8 storm_latch (storm (seconds 500))
             (default_thresholds 16384) (defaultWorkLimits 8)))) (seconds 560)
   in tl_latched r \<and> tl_cause r = tl_cause l' \<and> tl_external r = tl_external l' \<and>
      tl_since r = tl_since l'"
  by (rule restart_continues_episode) code_simp+

lemma mib_per_second_nonneg: "0 < window \<Longrightarrow> 0 \<le> mib_per_second delta window"
proof -
  assume w: "0 < window"
  have "0 \<le> rat_of_int (uint delta)" by (simp only: of_int_0_le_iff uint_ge_0)
  then show ?thesis
    using w unfolding mib_per_second_def duration_seconds_def bytesPerMiB_def
    by (intro divide_nonneg_nonneg) simp_all
qed

text \<open>
  Swap rates never spike on a counter reset. A rate exists only over a positive window with both
  counters at or above their previous, non-zero reading; it is then non-negative and accounts for exactly
  the bytes between the two readings. The saturating product of two 64-bit numbers is their product
  when that fits and the largest 64-bit number otherwise.
\<close>

theorem counter_rates_exact:
  "(swapIORateBetween a b window = None \<or>
    (\<exists>r. swapIORateBetween a b window = Some r \<and> 0 < window \<and> 0 \<le> InMBPerSecond r \<and>
       0 \<le> OutMBPerSecond r \<and> uint (OutBytes r) = uint (SwapOutBytes b) - uint (SwapOutBytes a) \<and>
       OutMBPerSecond r * duration_seconds window * rat_of_int bytesPerMiB = rat_of_int (uint (OutBytes r)))) \<and>
   uint (saturatingMulUint64 x y) = min (uint x * uint y) (2 ^ 64 - 1)"
proof
  show "swapIORateBetween a b window = None \<or>
    (\<exists>r. swapIORateBetween a b window = Some r \<and> 0 < window \<and> 0 \<le> InMBPerSecond r \<and>
       0 \<le> OutMBPerSecond r \<and> uint (OutBytes r) = uint (SwapOutBytes b) - uint (SwapOutBytes a) \<and>
       OutMBPerSecond r * duration_seconds window * rat_of_int bytesPerMiB = rat_of_int (uint (OutBytes r)))"
  proof (cases "swapIORateBetween a b window")
    case (Some r)
    then have w: "0 < window" "SwapOutBytes a \<le> SwapOutBytes b"
      by (auto simp: swapIORateBetween_def Let_def split: if_splits)
    have p: "0 < duration_seconds window" using w(1) by (simp add: duration_seconds_def)
    have "uint (SwapOutBytes b - SwapOutBytes a) = uint (SwapOutBytes b) - uint (SwapOutBytes a)"
      using w(2) by (simp add: uint_sub_lem word_le_def)
    moreover have "mib_per_second d window * duration_seconds window * rat_of_int bytesPerMiB
        = rat_of_int (uint d)" for d
      using p by (simp add: mib_per_second_def bytesPerMiB_def)
    ultimately show ?thesis
      using Some w mib_per_second_nonneg [OF w(1)]
      by (auto simp: swapIORateBetween_def Let_def split: if_splits)
  qed simp
next
  have nn: "0 \<le> uint x * uint y" by simp
  show "uint (saturatingMulUint64 x y) = min (uint x * uint y) (2 ^ 64 - 1)"
  proof (cases "uint x * uint y < 2 ^ 64")
    case True
    with nn show ?thesis
      using uint_mult_lem [of x y] by (simp add: saturatingMulUint64_def Let_def uint_word_of_int)
  next
    case False
    then have "1 \<le> uint x * uint y div 2 ^ 64"
      using zdiv_mono1 [of "2 ^ 64" "uint x * uint y" "2 ^ 64"] by simp
    with False show ?thesis by (simp add: saturatingMulUint64_def Let_def unsigned_minus_1_eq_mask mask_eq_exp_minus_1)
  qed
qed

end
