(* ===== verification/Admission_Gate.thy ===== *)
theory Admission_Gate
  imports Pressure_Admission Swap_Thrash
begin

text \<open>
  The pre-queue gate of one work run (\<^verbatim>\<open>sessionpressure/workrun.go\<close>,
  \<^verbatim>\<open>sessionpressure/workfastlane.go\<close>, \<^verbatim>\<open>sessionpressure/workderating.go\<close>): the swap-thrash and
  warning-band derates, the fast lane for light work, the confirm-and-latch path on shared or private
  counters, and the storage grace period. The accessors that the run wires into the gate (shared
  latch, calibrated runtime, free capacity, coordinator status, active reclaim) are the answers they
  give at this poll; an accessor that is unset or fails gives no answer. Texts are values of a
  datatype with what they are formatted from.
\<close>

section \<open>State\<close>

datatype gate_reason =
    HostReason "reason list"
  | UncorroboratedSpike
  | UncorroboratedRolling
  | ConfirmingRed int int "reason list"
  | ConfirmingRecovery rat rat int int
  | RemainsLatched rat
  | RecoveredBelowRelease
  | ThrashSerializes rat WorkClass int int int int string
  | WarningDerates string WorkClass int int int int int
  | FastLaneAdmits WorkClass int int int bool

record workAdmissionDecision =
  de_Allowed :: bool
  de_Dimension :: string
  de_Reason :: gate_reason
  de_RetryInterval :: duration

definition WorkAdmissionRetryInterval :: duration where
  "WorkAdmissionRetryInterval = seconds 15"

definition WorkCPUConfirmationInterval :: duration where
  "WorkCPUConfirmationInterval = seconds 2"

definition WorkStorageProgressBytes :: int where
  "WorkStorageProgressBytes = 256 * 2 ^ 20"

record work_evidence =
  wv_Available :: bool
  wv_CPUAvailable :: bool
  wv_CPUPercent :: rat
  wv_LeaseCount :: int
  wv_ProcessCount :: int
  wv_InventoryAgeSeconds :: rat

record workAdmissionGate =
  g_limits :: WorkLimits
  g_cpuRed :: int
  g_cpuRecovered :: int
  g_latched :: bool
  g_deferredLevel :: Level
  g_deferredDimension :: string
  g_deferredReason :: "gate_reason option"
  g_coordinatedWork :: work_evidence
  g_storageGrace :: duration
  g_storageDeadline :: time
  g_storageBestAvailableBytes :: int
  g_storageEvidenceInitialized :: bool
  g_cpuRedPercent :: rat
  g_class :: WorkClass
  g_suppressHold :: bool
  g_swapThrashEnforced :: bool
  g_swapThrashAdmitted :: bool
  g_swapThrashDeferred :: bool
  g_swapThrashExternal :: bool
  g_fastLaneAdmitted :: bool
  g_fastLaneRefusal :: string
  g_warningCapacityAdmitted :: bool
  g_warningCapacityDeferred :: bool

text \<open>
  \<open>ge_HasStatus\<close> says whether the status accessor is set at all. The shared latch is asked with
  the observation: red, recovered, dimension and reasons.
\<close>

record gate_env =
  ge_NumCPU :: int
  ge_SharedLatch :: "bool \<Rightarrow> bool \<Rightarrow> string \<Rightarrow> reason list \<Rightarrow> WorkAdmissionLatch option"
  ge_ClassRuntimeP95MS :: "int option"
  ge_FreeCapacity :: "int option"
  ge_HasStatus :: bool
  ge_Status :: "WorkStatus option"
  ge_ReclaimActive :: bool
  ge_Now :: time

abbreviation no_class :: WorkClass where
  "no_class \<equiv> UnknownClass []"


section \<open>Reading an admission\<close>

text \<open>The prefixes that \<^verbatim>\<open>pressureDimension\<close> tests on the text of a reason.\<close>

fun storage_reason :: "reason \<Rightarrow> bool" where
  "storage_reason (StorageLatched _ _ _ _) = True"
| "storage_reason (StorageLow _ _) = True"
| "storage_reason _ = False"

fun cpu_reason :: "reason \<Rightarrow> bool" where
  "cpu_reason (HostCPU _ _ _) = True"
| "cpu_reason (CorroboratedCPU _) = True"
| "cpu_reason _ = False"

fun reasons_dimension :: "reason list \<Rightarrow> string" where
  "reasons_dimension [] = ''cpu''"
| "reasons_dimension (r # rs) =
     (if storage_reason r then ''storage'' else if \<not> cpu_reason r then ''memory''
      else reasons_dimension rs)"

definition pressureDimension :: "Admission \<Rightarrow> string" where
  "pressureDimension a =
     (if ad_Allowed a then []
      else if ad_Dimension a \<noteq> [] then ad_Dimension a
      else if ad_Reasons a = [] then ''unknown''
      else reasons_dimension (ad_Reasons a))"

text \<open>Go compares the levels as strings here.\<close>

definition uncorroboratedCPURed :: "workAdmissionGate \<Rightarrow> Admission \<Rightarrow> bool" where
  "uncorroboratedCPURed g a \<longleftrightarrow>
     (case ad_Snapshot a of
        None \<Rightarrow> False
      | Some s \<Rightarrow>
          ad_Allowed a \<and> \<not> level_name (ad_Level a) < level_name LevelRed \<and> ad_Dimension a = ''cpu'' \<and>
          (let red = (if g_cpuRedPercent g \<le> 0 then 95 else g_cpuRedPercent g);
               blockSamples = max 2 (CPUBlockSamples (g_limits g))
           in sn_HostCPUAvailable s \<and> \<not> sn_HostCPUPercent s < red \<and>
              \<not> (sn_HostCPURollingAvailable s \<and> sn_HostCPURollingPercent s \<ge> red) \<and>
              sn_ConsecutiveSamples s < blockSamples))"

definition no_evidence :: work_evidence where
  "no_evidence = \<lparr> wv_Available = False, wv_CPUAvailable = False, wv_CPUPercent = 0,
                    wv_LeaseCount = 0, wv_ProcessCount = 0, wv_InventoryAgeSeconds = 0 \<rparr>"

definition coordinatedWorkEvidence :: "Admission \<Rightarrow> work_evidence" where
  "coordinatedWorkEvidence a =
     (case ad_Snapshot a of
        None \<Rightarrow> no_evidence
      | Some s \<Rightarrow>
          let w = sn_CoordinatedWork s in
          if \<not> cw_Available w then no_evidence
          else \<lparr> wv_Available = True, wv_CPUAvailable = cw_CPUAvailable w,
                 wv_CPUPercent = cw_CPUPercent w, wv_LeaseCount = cw_LeaseCount w,
                 wv_ProcessCount = cw_ProcessCount w,
                 wv_InventoryAgeSeconds = cw_InventoryAgeSeconds w \<rparr>)"

definition validPercent :: "rat \<Rightarrow> bool" where
  "validPercent v \<longleftrightarrow> v \<ge> 0 \<and> v \<le> 100"

record queueCPUEvidence =
  qc_hostAvailable :: bool
  qc_hostPercent :: rat
  qc_workAvailable :: bool
  qc_workPercent :: rat
  qc_workInventoryAgeSeconds :: rat

definition queueCPUEvidenceFrom :: "Admission \<Rightarrow> queueCPUEvidence" where
  "queueCPUEvidenceFrom a =
     (let none = \<lparr> qc_hostAvailable = False, qc_hostPercent = 0, qc_workAvailable = False,
                   qc_workPercent = 0, qc_workInventoryAgeSeconds = 0 \<rparr> in
      case ad_Snapshot a of
        None \<Rightarrow> none
      | Some s \<Rightarrow>
          let e = (if sn_HostCPURollingAvailable s \<and> validPercent (sn_HostCPURollingPercent s)
                   then none\<lparr> qc_hostAvailable := True, qc_hostPercent := sn_HostCPURollingPercent s \<rparr>
                   else if sn_HostCPUAvailable s \<and> validPercent (sn_HostCPUPercent s)
                   then none\<lparr> qc_hostAvailable := True, qc_hostPercent := sn_HostCPUPercent s \<rparr>
                   else none);
              w = sn_CoordinatedWork s
          in if cw_Available w \<and> cw_CPUAvailable w \<and> validPercent (cw_CPUPercent w)
             then e\<lparr> qc_workAvailable := True, qc_workPercent := cw_CPUPercent w,
                     qc_workInventoryAgeSeconds :=
                       (if cw_InventoryAgeSeconds w \<ge> 0 then cw_InventoryAgeSeconds w else 0) \<rparr>
             else e)"

definition recordDeferral :: "workAdmissionGate \<Rightarrow> Admission \<Rightarrow> string \<Rightarrow> gate_reason \<Rightarrow> workAdmissionGate" where
  "recordDeferral g a dimension why =
     (if g_deferredDimension g \<noteq> [] then g
      else
        let g = g\<lparr> g_deferredLevel := ad_Level a, g_deferredDimension := dimension,
                   g_deferredReason := Some why \<rparr>
        in if dimension = ''cpu'' then g\<lparr> g_coordinatedWork := coordinatedWorkEvidence a \<rparr> else g)"

text \<open>\<open>Inl\<close> is \<^verbatim>\<open>ErrWorkStorageGraceExceeded\<close> with the grace that ran out.\<close>

definition storageGraceError ::
    "gate_env \<Rightarrow> workAdmissionGate \<Rightarrow> Admission \<Rightarrow> string \<Rightarrow> workAdmissionGate \<times> duration option" where
  "storageGraceError e g a dimension =
     (if dimension \<noteq> ''storage'' then (g, None)
      else
        let current = ge_Now e;
            grace = (if g_storageGrace g \<le> 0 then seconds 60 else g_storageGrace g);
            available = (case ad_Snapshot a of None \<Rightarrow> 0 | Some s \<Rightarrow> ss_AvailableBytes (sn_Storage s));
            g = (if \<not> g_storageEvidenceInitialized g
                 then g\<lparr> g_storageEvidenceInitialized := True,
                         g_storageBestAvailableBytes := available,
                         g_storageDeadline := current + grace \<rparr> else g);
            g = (if available \<ge> g_storageBestAvailableBytes g + WorkStorageProgressBytes
                 then g\<lparr> g_storageBestAvailableBytes := available,
                         g_storageDeadline := current + grace \<rparr> else g);
            g = (if ge_ReclaimActive e then g\<lparr> g_storageDeadline := current + grace \<rparr> else g)
        in (g, if \<not> current < g_storageDeadline g then Some grace else None))"



section \<open>The fast lane\<close>

record fastLaneInputs =
  fi_Enabled :: bool
  fi_Dimension :: string
  fi_Weight :: int
  fi_MaxWeight :: int
  fi_CalibratedP95RuntimeMS :: int
  fi_CalibrationAvailable :: bool
  fi_MaxRuntimeMS :: int
  fi_FreeCapacity :: int
  fi_Capacity :: int
  fi_CoordinatedCPUAvailable :: bool
  fi_CoordinatedCPUPercent :: rat
  fi_CoordinatedCPUCeilingPct :: rat

definition evaluateFastLane :: "fastLaneInputs \<Rightarrow> bool \<times> string" where
  "evaluateFastLane i =
     (if \<not> fi_Enabled i then (False, ''disabled'')
      else if fi_Dimension i \<noteq> ''cpu'' then (False, ''non_cpu_dimension'')
      else if fi_MaxWeight i \<le> 0 \<or> fi_Weight i > fi_MaxWeight i then (False, ''weight_above_ceiling'')
      else if \<not> fi_CalibrationAvailable i then (False, ''calibration_unavailable'')
      else if fi_MaxRuntimeMS i \<le> 0 \<or> fi_CalibratedP95RuntimeMS i > fi_MaxRuntimeMS i
      then (False, ''runtime_above_ceiling'')
      else if fi_FreeCapacity i < fi_Weight i then (False, ''weighted_capacity_unavailable'')
      else if fi_CoordinatedCPUAvailable i then
        (let ceiling = (if fi_CoordinatedCPUCeilingPct i \<le> 0 then 50 else fi_CoordinatedCPUCeilingPct i)
         in if fi_CoordinatedCPUPercent i > ceiling
            then (False, ''coordinated_work_dominates_cpu'') else (True, []))
      else if fi_Capacity i > 0 \<and> fi_FreeCapacity i * 2 \<ge> fi_Capacity i then (True, [])
      else (False, ''coordinated_work_dominates_cpu''))"

definition fastLaneDecision ::
    "gate_env \<Rightarrow> workAdmissionGate \<Rightarrow> Admission \<Rightarrow> string \<Rightarrow>
     workAdmissionGate \<times> workAdmissionDecision option" where
  "fastLaneDecision e g a dimension =
     (if \<not> FastLaneEnabled (g_limits g) \<or> g_class g = no_class then (g, None)
      else case Weight (ge_NumCPU e) (g_limits g) (g_class g) of
        None \<Rightarrow> (g, None)
      | Some weight \<Rightarrow>
          (case ge_FreeCapacity e of
             None \<Rightarrow> (g, None)
           | Some free \<Rightarrow>
               let l = g_limits g; w = coordinatedWorkEvidence a;
                   attributed = (wv_Available w \<and> wv_CPUAvailable w);
                   calibrated = (case ge_ClassRuntimeP95MS e of None \<Rightarrow> 0 | Some ms \<Rightarrow> ms);
                   (admitted, refusal) = evaluateFastLane
                     \<lparr> fi_Enabled = True, fi_Dimension = dimension, fi_Weight = weight,
                       fi_MaxWeight = FastLaneMaxWeight l, fi_CalibratedP95RuntimeMS = calibrated,
                       fi_CalibrationAvailable = (ge_ClassRuntimeP95MS e \<noteq> None),
                       fi_MaxRuntimeMS = FastLaneMaxRuntimeMS l, fi_FreeCapacity = free,
                       fi_Capacity = Capacity l, fi_CoordinatedCPUAvailable = attributed,
                       fi_CoordinatedCPUPercent = wv_CPUPercent w,
                       fi_CoordinatedCPUCeilingPct = FastLaneCoordinatedCPUCeilingPct l \<rparr>
               in if \<not> admitted then (g\<lparr> g_fastLaneRefusal := refusal \<rparr>, None)
                  else (g\<lparr> g_fastLaneAdmitted := True \<rparr>,
                        Some \<lparr> de_Allowed = True, de_Dimension = ''cpu'',
                               de_Reason = FastLaneAdmits (g_class g) weight calibrated free attributed,
                               de_RetryInterval = 0 \<rparr>)))"

definition decisionLabel :: "workAdmissionGate \<Rightarrow> string" where
  "decisionLabel g =
     (if g_swapThrashDeferred g then ''swap_thrash_deferred''
      else if g_warningCapacityDeferred g then ''warning_capacity_deferred''
      else if g_swapThrashAdmitted g then ''swap_thrash_admitted''
      else if g_swapThrashExternal g then ''swap_thrash_external''
      else if g_warningCapacityAdmitted g then ''warning_capacity_admitted''
      else if g_fastLaneAdmitted g then ''fast_lane_admitted''
      else if g_fastLaneRefusal g \<noteq> [] then ''fast_lane_refused:'' @ g_fastLaneRefusal g
      else [])"

text \<open>The memoised calibration: its cache, and one call at a clock with what loading would give.\<close>

record calibration_cache =
  cc_Loaded :: bool
  cc_LoadedAt :: time
  cc_Value :: "int option"

definition fastLaneCalibrationTTL :: duration where
  "fastLaneCalibrationTTL = seconds (5 * 60)"

definition memoized_call :: "calibration_cache \<Rightarrow> time \<Rightarrow> time \<Rightarrow> int option \<Rightarrow> calibration_cache \<times> int option" where
  "memoized_call c now loaded_at load =
     (if cc_Loaded c \<and> time_sub now (cc_LoadedAt c) < fastLaneCalibrationTTL then (c, cc_Value c)
      else (\<lparr> cc_Loaded = True, cc_LoadedAt = loaded_at, cc_Value = load \<rparr>, load))"


section \<open>Derating\<close>

definition swapThrashDecision ::
    "gate_env \<Rightarrow> workAdmissionGate \<Rightarrow> Admission \<Rightarrow> bool \<Rightarrow>
     workAdmissionGate \<times> workAdmissionDecision option" where
  "swapThrashDecision e g a ownsLease =
     (case ad_Snapshot a of
        None \<Rightarrow> (g, None)
      | Some s \<Rightarrow>
          if \<not> g_swapThrashEnforced g \<or> g_class g = no_class \<or> \<not> ad_Allowed a \<or>
             \<not> sn_SwapIOAvailable s \<or> \<not> sn_SwapThrashLatched s \<or> \<not> ge_HasStatus e
          then (g, None)
          else if sn_SwapThrashCause s = SwapThrashCauseExternal
          then (g\<lparr> g_swapThrashExternal := True \<rparr>, None)
          else
            let limits = normalizeWorkLimits (ge_NumCPU e) (g_limits g) in
            case (Weight (ge_NumCPU e) limits (g_class g), ge_Status e) of
              (Some weight, Some st) \<Rightarrow>
                let used = max 0 (s_Used st);
                    projected = (if ownsLease then used else used + weight);
                    alone = (if ownsLease then used \<le> weight else used = 0);
                    cause = (if sn_SwapThrashCause s = [] then ''unknown'' else sn_SwapThrashCause s)
                in if projected \<le> SwapThrashCapacity limits \<or> alone
                   then (g\<lparr> g_swapThrashAdmitted := True \<rparr>, None)
                   else (g\<lparr> g_swapThrashDeferred := True \<rparr>,
                         Some \<lparr> de_Allowed = False, de_Dimension = ''swap'',
                                de_Reason = ThrashSerializes (sn_SwapOutMBPerSecond s) (g_class g)
                                  weight used projected (SwapThrashCapacity limits) cause,
                                de_RetryInterval = WorkAdmissionRetryInterval \<rparr>)
            | _ \<Rightarrow> (g, None))"

definition warningPressureDimension :: "Admission \<Rightarrow> string" where
  "warningPressureDimension a =
     (if ad_Level a \<noteq> LevelWarning \<or> ad_Snapshot a = None then []
      else if ad_Dimension a = ''cpu'' \<or> ad_Dimension a = ''memory'' then ad_Dimension a
      else [])"

definition warningCapacityDecision ::
    "gate_env \<Rightarrow> workAdmissionGate \<Rightarrow> Admission \<Rightarrow> bool \<Rightarrow>
     workAdmissionGate \<times> workAdmissionDecision option" where
  "warningCapacityDecision e g a ownsLease =
     (let limits = normalizeWorkLimits (ge_NumCPU e) (g_limits g);
          dimension = warningPressureDimension a
      in if g_class g = no_class \<or> \<not> WarningCapacityEnabled limits \<or> dimension = [] then (g, None)
         else case Weight (ge_NumCPU e) limits (g_class g) of
           None \<Rightarrow> (g, None)
         | Some weight \<Rightarrow>
             if g_latched g \<or> \<not> ge_HasStatus e then (g, None)
             else case ge_Status e of
               None \<Rightarrow> (g, None)
             | Some st \<Rightarrow>
                 if (case s_AdmissionLatch st of None \<Rightarrow> False | Some latch \<Rightarrow> la_Latched latch)
                 then (g, None)
                 else
                   let used = max 0 (s_Used st);
                       projected = (if ownsLease then used else used + weight);
                       why = WarningDerates dimension (g_class g) weight used projected
                               (WarningCapacity limits) (Capacity limits)
                   in if projected \<le> WarningCapacity limits
                      then (g\<lparr> g_warningCapacityAdmitted := True \<rparr>,
                            Some \<lparr> de_Allowed = True, de_Dimension = dimension, de_Reason = why,
                                   de_RetryInterval = 0 \<rparr>)
                      else (g\<lparr> g_warningCapacityDeferred := True \<rparr>,
                            Some \<lparr> de_Allowed = False, de_Dimension = dimension, de_Reason = why,
                                   de_RetryInterval = WorkAdmissionRetryInterval \<rparr>))"

definition warningEffectiveCapacity :: "int \<Rightarrow> Admission \<Rightarrow> WorkLimits \<Rightarrow> int" where
  "warningEffectiveCapacity ncpu a limits =
     (let limits = normalizeWorkLimits ncpu limits in
      if WarningCapacityEnabled limits \<and> warningPressureDimension a \<noteq> [] then WarningCapacity limits
      else Capacity limits)"


section \<open>Observing one poll\<close>

definition allow :: "bool \<Rightarrow> string \<Rightarrow> gate_reason \<Rightarrow> workAdmissionDecision" where
  "allow allowed dimension why =
     \<lparr> de_Allowed = allowed, de_Dimension = dimension, de_Reason = why, de_RetryInterval = 0 \<rparr>"

definition refuse :: "string \<Rightarrow> gate_reason \<Rightarrow> duration \<Rightarrow> workAdmissionDecision" where
  "refuse dimension why retry =
     \<lparr> de_Allowed = False, de_Dimension = dimension, de_Reason = why, de_RetryInterval = retry \<rparr>"

definition immediate_decision :: "workAdmissionGate \<Rightarrow> Admission \<Rightarrow> workAdmissionDecision" where
  "immediate_decision g a =
     (let dimension = pressureDimension a;
          red = (if g_cpuRedPercent g \<le> 0 then 95 else g_cpuRedPercent g)
      in if dimension = ''cpu'' \<and>
            (case ad_Snapshot a of None \<Rightarrow> True
             | Some s \<Rightarrow> \<not> sn_HostCPURollingAvailable s \<or> sn_HostCPURollingPercent s < red)
         then allow True ''cpu'' UncorroboratedRolling
         else allow (ad_Allowed a) dimension (HostReason (ad_Reasons a)))"

definition poll_recovered :: "workAdmissionGate \<Rightarrow> Admission \<Rightarrow> bool" where
  "poll_recovered g a \<longleftrightarrow>
     (case ad_Snapshot a of
        None \<Rightarrow> False
      | Some s \<Rightarrow> sn_HostCPUAvailable s \<and> sn_HostCPUPercent s \<le> CPUReleasePercent (g_limits g) \<and> ad_Allowed a)"

definition sampled_cpu :: "Admission \<Rightarrow> rat" where
  "sampled_cpu a = (case ad_Snapshot a of None \<Rightarrow> 0 | Some s \<Rightarrow> sn_HostCPUPercent s)"

definition latched_reason :: "workAdmissionGate \<Rightarrow> Admission \<Rightarrow> gate_reason" where
  "latched_reason g a =
     (if ad_Allowed a then RemainsLatched (CPUReleasePercent (g_limits g)) else HostReason (ad_Reasons a))"

definition recovered_decision ::
    "gate_env \<Rightarrow> workAdmissionGate \<Rightarrow> Admission \<Rightarrow> bool \<Rightarrow> workAdmissionGate \<times> workAdmissionDecision" where
  "recovered_decision e g a ownsLease =
     (case warningCapacityDecision e g a ownsLease of
        (g, Some d) \<Rightarrow> (g, d)
      | (g, None) \<Rightarrow> (g, allow True ''cpu'' RecoveredBelowRelease))"

definition shared_path ::
    "gate_env \<Rightarrow> workAdmissionGate \<Rightarrow> Admission \<Rightarrow> bool \<Rightarrow> WorkAdmissionLatch \<Rightarrow>
     workAdmissionGate \<times> workAdmissionDecision" where
  "shared_path e g a ownsLease shared =
     (let dimension = pressureDimension a; recovered = poll_recovered g a;
          g = g\<lparr> g_latched := la_Latched shared, g_cpuRed := la_RedSamples shared,
                 g_cpuRecovered := la_RecoverySamples shared \<rparr>
      in if \<not> la_Latched shared \<and> dimension \<noteq> ''cpu'' then
           (g, allow (ad_Allowed a) [] (HostReason (ad_Reasons a)))
         else if \<not> la_Latched shared \<and> recovered then recovered_decision e g a ownsLease
         else if \<not> la_Latched shared then
           (g, refuse ''cpu''
                 (ConfirmingRed (la_RedSamples shared) (max 1 (la_BlockRequired shared)) (ad_Reasons a))
                 WorkCPUConfirmationInterval)
         else if recovered then
           (g, refuse ''cpu''
                 (ConfirmingRecovery (sampled_cpu a) (CPUReleasePercent (g_limits g))
                    (la_RecoverySamples shared) (max 1 (la_ReleaseRequired shared)))
                 WorkCPUConfirmationInterval)
         else (g, refuse ''cpu'' (latched_reason g a) WorkAdmissionRetryInterval))"

definition private_path ::
    "gate_env \<Rightarrow> workAdmissionGate \<Rightarrow> Admission \<Rightarrow> bool \<Rightarrow> workAdmissionGate \<times> workAdmissionDecision" where
  "private_path e g a ownsLease =
     (let block = max 1 (CPUBlockSamples (g_limits g));
          release = max 1 (CPUReleaseSamples (g_limits g))
      in if \<not> g_latched g then
           (if pressureDimension a = ''cpu'' then
              (let g = g\<lparr> g_cpuRed := g_cpuRed g + 1 \<rparr> in
               if g_cpuRed g \<ge> block
               then (g\<lparr> g_latched := True, g_cpuRecovered := 0 \<rparr>,
                     refuse ''cpu'' (HostReason (ad_Reasons a)) WorkAdmissionRetryInterval)
               else (g, refuse ''cpu'' (ConfirmingRed (g_cpuRed g) block (ad_Reasons a))
                          WorkCPUConfirmationInterval))
            else (g\<lparr> g_cpuRed := 0 \<rparr>, allow (ad_Allowed a) [] (HostReason (ad_Reasons a))))
         else if poll_recovered g a then
           (let g = g\<lparr> g_cpuRecovered := g_cpuRecovered g + 1 \<rparr> in
            if g_cpuRecovered g \<ge> release
            then recovered_decision e (g\<lparr> g_latched := False, g_cpuRed := 0 \<rparr>) a ownsLease
            else (g, refuse ''cpu''
                       (ConfirmingRecovery (sampled_cpu a) (CPUReleasePercent (g_limits g))
                          (g_cpuRecovered g) release) WorkCPUConfirmationInterval))
         else (g\<lparr> g_cpuRecovered := 0 \<rparr>,
               refuse ''cpu'' (latched_reason g a) WorkAdmissionRetryInterval))"

definition latch_path ::
    "gate_env \<Rightarrow> workAdmissionGate \<Rightarrow> Admission \<Rightarrow> bool \<Rightarrow> workAdmissionGate \<times> workAdmissionDecision" where
  "latch_path e g a ownsLease =
     (case ge_SharedLatch e (pressureDimension a = ''cpu'') (poll_recovered g a) (pressureDimension a)
             (ad_Reasons a) of
        Some shared \<Rightarrow> shared_path e g a ownsLease shared
      | None \<Rightarrow> private_path e g a ownsLease)"

text \<open>The steps after the two derates: a spike without corroboration, an immediate request, another
  dimension, the fast lane and the latch.\<close>

definition gate_path ::
    "gate_env \<Rightarrow> workAdmissionGate \<Rightarrow> Admission \<Rightarrow> bool \<Rightarrow> bool \<Rightarrow>
     workAdmissionGate \<times> workAdmissionDecision" where
  "gate_path e g a immediate ownsLease =
     (let dimension = pressureDimension a in
      if uncorroboratedCPURed g a then (g, allow True ''cpu'' UncorroboratedSpike)
      else if immediate then (g, immediate_decision g a)
      else if dimension \<noteq> [] \<and> dimension \<noteq> ''cpu'' then
        (g\<lparr> g_cpuRed := 0, g_cpuRecovered := 0 \<rparr>,
         refuse dimension (HostReason (ad_Reasons a)) WorkAdmissionRetryInterval)
      else if dimension = ''cpu'' then
        (case fastLaneDecision e g a dimension of
           (g, Some d) \<Rightarrow> (g, d)
         | (g, None) \<Rightarrow> latch_path e g a ownsLease)
      else latch_path e g a ownsLease)"

definition observe_gate ::
    "gate_env \<Rightarrow> workAdmissionGate \<Rightarrow> Admission \<Rightarrow> bool \<Rightarrow> bool \<Rightarrow>
     workAdmissionGate \<times> workAdmissionDecision" where
  "observe_gate e g a immediate ownsLease =
     (case swapThrashDecision e g a ownsLease of
        (g, Some d) \<Rightarrow> (g, d)
      | (g, None) \<Rightarrow>
          (case warningCapacityDecision e g a ownsLease of
             (g, Some d) \<Rightarrow> (g, d)
           | (g, None) \<Rightarrow> gate_path e g a immediate ownsLease))"

definition Observe :: "gate_env \<Rightarrow> workAdmissionGate \<Rightarrow> Admission \<Rightarrow> bool \<Rightarrow> workAdmissionGate \<times> workAdmissionDecision" where
  "Observe e g a immediate = observe_gate e g a immediate False"

definition ObserveOwned :: "gate_env \<Rightarrow> workAdmissionGate \<Rightarrow> Admission \<Rightarrow> bool \<Rightarrow> workAdmissionGate \<times> workAdmissionDecision" where
  "ObserveOwned e g a immediate = observe_gate e g a immediate True"



section \<open>Facts\<close>

lemma reasons_dimension_nonempty: "reasons_dimension rs \<noteq> []"
  by (induction rs rule: reasons_dimension.induct) auto

lemma pressureDimension_refused: "\<not> ad_Allowed a \<Longrightarrow> pressureDimension a \<noteq> []"
  by (simp add: pressureDimension_def reasons_dimension_nonempty)

lemma pressureDimension_allowed [simp]: "ad_Allowed a \<Longrightarrow> pressureDimension a = []"
  by (simp add: pressureDimension_def)

lemma allow_simps [simp]:
  "de_Allowed (allow b d w) = b" "de_Dimension (allow b d w) = d" "\<not> de_Allowed (refuse d w r)"
  by (simp_all add: allow_def refuse_def)

lemma thrash_declines: "\<not> ad_Allowed a \<Longrightarrow> swapThrashDecision e g a owns = (g, None)"
  by (auto simp: swapThrashDecision_def split: option.splits)

lemma warning_declines: "ad_Level a \<noteq> LevelWarning \<Longrightarrow> warningCapacityDecision e g a owns = (g, None)"
  by (simp add: warningCapacityDecision_def warningPressureDimension_def Let_def)

lemma uncorroborated_allowed: "uncorroboratedCPURed g a \<Longrightarrow> ad_Allowed a"
  by (auto simp: uncorroboratedCPURed_def split: option.splits)

text \<open>When the thrash derate defers.\<close>

definition thrash_defers :: "gate_env \<Rightarrow> workAdmissionGate \<Rightarrow> Admission \<Rightarrow> bool \<Rightarrow> bool" where
  "thrash_defers e g a owns \<longleftrightarrow>
     (\<exists>s weight st. ad_Snapshot a = Some s \<and> g_swapThrashEnforced g \<and> g_class g \<noteq> no_class \<and>
        ad_Allowed a \<and> sn_SwapIOAvailable s \<and> sn_SwapThrashLatched s \<and>
        sn_SwapThrashCause s \<noteq> SwapThrashCauseExternal \<and> ge_HasStatus e \<and> ge_Status e = Some st \<and>
        Weight (ge_NumCPU e) (g_limits g) (g_class g) = Some weight \<and>
        (if owns then weight < max 0 (s_Used st) else 0 < s_Used st) \<and>
        SwapThrashCapacity (normalizeWorkLimits (ge_NumCPU e) (g_limits g)) <
          max 0 (s_Used st) + (if owns then 0 else weight))"

lemma Weight_normalized: "Weight n (normalizeWorkLimits n l) c = Weight n l c"
  by (simp add: Weight_def normalize_twice)

lemma thrash_decision_cases:
  "(\<exists>d. snd (swapThrashDecision e g a owns) = Some d \<and> \<not> de_Allowed d \<and> de_Dimension d = ''swap'') \<and>
     thrash_defers e g a owns \<or>
   snd (swapThrashDecision e g a owns) = None \<and> \<not> thrash_defers e g a owns"
proof (cases "ad_Snapshot a")
  case None
  then show ?thesis by (simp add: swapThrashDecision_def thrash_defers_def)
next
  case (Some s)
  show ?thesis
  proof (cases "Weight (ge_NumCPU e) (g_limits g) (g_class g)")
    case None
    with Some show ?thesis
      by (simp add: swapThrashDecision_def thrash_defers_def Let_def Weight_normalized)
  next
    case (Some weight)
    note w = this
    show ?thesis
    proof (cases "ge_Status e")
      case None
      with w \<open>ad_Snapshot a = Some s\<close> show ?thesis
        by (simp add: swapThrashDecision_def thrash_defers_def Let_def Weight_normalized)
    next
      case (Some st)
      with w \<open>ad_Snapshot a = Some s\<close> show ?thesis
        by (cases owns) (auto simp: swapThrashDecision_def thrash_defers_def Let_def Weight_normalized)
    qed
  qed
qed

text \<open>The derate only sets marks on the gate, so the steps after it see the same counters and limits.\<close>

lemma thrash_frame:
  "g_latched (fst (swapThrashDecision e g a owns)) = g_latched g"
  "g_limits (fst (swapThrashDecision e g a owns)) = g_limits g"
  "g_cpuRed (fst (swapThrashDecision e g a owns)) = g_cpuRed g"
  "g_class (fst (swapThrashDecision e g a owns)) = g_class g"
  by (auto simp: swapThrashDecision_def Let_def split: option.splits)

lemma fast_lane_evidence:
  assumes "snd (fastLaneDecision e g a dimension) = Some d"
  obtains weight runtime free where
    "Weight (ge_NumCPU e) (g_limits g) (g_class g) = Some weight" "ge_ClassRuntimeP95MS e = Some runtime"
    "ge_FreeCapacity e = Some free" "dimension = ''cpu''" "FastLaneEnabled (g_limits g)"
    "weight \<le> FastLaneMaxWeight (g_limits g)" "weight \<le> free"
    "runtime \<le> FastLaneMaxRuntimeMS (g_limits g)" "de_Allowed d"
    "if wv_Available (coordinatedWorkEvidence a) \<and> wv_CPUAvailable (coordinatedWorkEvidence a)
     then wv_CPUPercent (coordinatedWorkEvidence a) \<le>
       (if FastLaneCoordinatedCPUCeilingPct (g_limits g) \<le> 0 then 50
        else FastLaneCoordinatedCPUCeilingPct (g_limits g))
     else Capacity (g_limits g) \<le> free * 2"
proof -
  obtain weight where w: "Weight (ge_NumCPU e) (g_limits g) (g_class g) = Some weight"
    using assms by (auto simp: fastLaneDecision_def split: if_splits option.splits)
  obtain free where f: "ge_FreeCapacity e = Some free"
    using assms w by (auto simp: fastLaneDecision_def split: if_splits option.splits)
  obtain runtime where r: "ge_ClassRuntimeP95MS e = Some runtime"
    using assms w f by (auto simp: fastLaneDecision_def evaluateFastLane_def Let_def split: if_splits)
  show thesis
    by (rule that [OF w r f])
      (use assms w f r in \<open>auto simp: fastLaneDecision_def evaluateFastLane_def Let_def
        split: if_splits option.splits\<close>)
qed


text \<open>The recovery branch of the shared path is never taken.\<close>

lemma shared_path_simple:
  "shared_path e g a owns shared =
     (let g' = g\<lparr> g_latched := la_Latched shared, g_cpuRed := la_RedSamples shared,
                  g_cpuRecovered := la_RecoverySamples shared \<rparr>
      in if \<not> la_Latched shared then
           (if pressureDimension a \<noteq> ''cpu''
            then (g', allow (ad_Allowed a) [] (HostReason (ad_Reasons a)))
            else (g', refuse ''cpu''
                   (ConfirmingRed (la_RedSamples shared) (max 1 (la_BlockRequired shared)) (ad_Reasons a))
                   WorkCPUConfirmationInterval))
         else if poll_recovered g a then
           (g', refuse ''cpu''
                 (ConfirmingRecovery (sampled_cpu a) (CPUReleasePercent (g_limits g))
                    (la_RecoverySamples shared) (max 1 (la_ReleaseRequired shared)))
                 WorkCPUConfirmationInterval)
         else (g', refuse ''cpu'' (latched_reason g' a) WorkAdmissionRetryInterval))"
proof -
  have "poll_recovered g a \<Longrightarrow> pressureDimension a = []"
    by (auto simp: poll_recovered_def split: option.splits)
  then show ?thesis by (auto simp: shared_path_def Let_def)
qed

subsection \<open>Storage grace\<close>

text \<open>One poll of a storage wait: the clock, the free bytes and whether a reclaim lease is active.\<close>

definition storage_poll :: "time \<times> int \<times> bool \<Rightarrow> workAdmissionGate \<Rightarrow> workAdmissionGate \<times> duration option" where
  "storage_poll poll g =
     (case poll of (now, free, reclaim) \<Rightarrow>
        storageGraceError
          \<lparr> ge_NumCPU = 0, ge_SharedLatch = (\<lambda>_ _ _ _. None), ge_ClassRuntimeP95MS = None,
            ge_FreeCapacity = None, ge_HasStatus = False, ge_Status = None,
            ge_ReclaimActive = reclaim, ge_Now = now \<rparr> g
          (storage_admission (zero_storage\<lparr>ss_AvailableBytes := free\<rparr>) False LevelRed [])
          ''storage'')"

definition grace_of :: "workAdmissionGate \<Rightarrow> duration" where
  "grace_of g = (if g_storageGrace g \<le> 0 then seconds 60 else g_storageGrace g)"

lemma storage_poll_eq:
  "storage_poll (now, free, reclaim) g =
     (let grace = grace_of g;
          g = (if \<not> g_storageEvidenceInitialized g
               then g\<lparr> g_storageEvidenceInitialized := True, g_storageBestAvailableBytes := free,
                       g_storageDeadline := now + grace \<rparr> else g);
          g = (if free \<ge> g_storageBestAvailableBytes g + WorkStorageProgressBytes
               then g\<lparr> g_storageBestAvailableBytes := free, g_storageDeadline := now + grace \<rparr> else g);
          g = (if reclaim then g\<lparr> g_storageDeadline := now + grace \<rparr> else g)
      in (g, if g_storageDeadline g \<le> now then Some grace else None))"
  by (simp add: storage_poll_def storageGraceError_def storage_admission_def zero_snapshot_def grace_of_def
      Let_def not_less)

definition progressed :: "workAdmissionGate \<Rightarrow> time \<times> int \<times> bool \<Rightarrow> bool" where
  "progressed g poll \<longleftrightarrow>
     snd (snd poll) \<or> \<not> g_storageEvidenceInitialized g \<or>
     fst (snd poll) \<ge> g_storageBestAvailableBytes g + WorkStorageProgressBytes"

lemma storage_poll_deadline:
  "g_storageDeadline (fst (storage_poll (now, free, reclaim) g)) =
     (if progressed g (now, free, reclaim) then now + grace_of g else g_storageDeadline g)"
  "snd (storage_poll (now, free, reclaim) g) =
     (if (if progressed g (now, free, reclaim) then now + grace_of g else g_storageDeadline g) \<le> now
      then Some (grace_of g) else None)"
  by (auto simp: storage_poll_eq progressed_def Let_def WorkStorageProgressBytes_def)

lemma storage_poll_frame:
  "g_storageGrace (fst (storage_poll poll g)) = g_storageGrace g"
  "g_storageEvidenceInitialized (fst (storage_poll poll g))"
  by (cases poll; simp add: storage_poll_eq Let_def)+

lemma storage_poll_best:
  "g_storageEvidenceInitialized g \<Longrightarrow> g_storageBestAvailableBytes g \<le>
     g_storageBestAvailableBytes (fst (storage_poll poll g))"
  by (cases poll) (simp add: storage_poll_eq Let_def WorkStorageProgressBytes_def)


lemma stalled_run:
  assumes "g_storageEvidenceInitialized g" and "g_storageBestAvailableBytes g = best"
    and "list_all (\<lambda>(t, free, reclaim). \<not> reclaim \<and> free < best + WorkStorageProgressBytes) polls"
  shows "let g' = foldl (\<lambda>g poll. fst (storage_poll poll g)) g polls
         in g_storageEvidenceInitialized g' \<and> g_storageBestAvailableBytes g' = best \<and>
            g_storageDeadline g' = g_storageDeadline g \<and> g_storageGrace g' = g_storageGrace g"
  using assms
proof (induction polls arbitrary: g)
  case (Cons poll polls)
  obtain t free reclaim where p: "poll = (t, free, reclaim)" by (cases poll)
  have n: "\<not> reclaim" "free < best + WorkStorageProgressBytes" using Cons.prems(3) by (simp_all add: p)
  have "fst (storage_poll poll g) = g"
    using n Cons.prems(1,2) by (simp add: p storage_poll_eq Let_def)
  with Cons show ?case by simp
qed simp


section \<open>Properties of the gate\<close>

text \<open>
  A real refusal is never in the warning band. Both blocking rungs of a loaded policy are red or
  critical, the controller raises a refusal it adds to red, and every admission that is built
  without a policy admits.
\<close>

definition hard_refusal :: "Admission \<Rightarrow> bool" where
  "hard_refusal a \<longleftrightarrow> ad_Allowed a \<or> AtLeast (ad_Level a) LevelRed"

lemma validated_rungs:
  assumes "ValidatePolicy n p = None"
  shows "BlockNewAt p = LevelRed \<or> BlockNewAt p = LevelCritical"
    and "st_Enabled (po_Storage p) \<Longrightarrow> st_BlockNewAt (po_Storage p) = LevelRed \<or> st_BlockNewAt (po_Storage p) = LevelCritical"
proof -
  have "list_all (\<lambda>g. \<not> fst g) (schedule_guards p)" "list_all (\<lambda>g. \<not> fst g) (storage_guards (po_Storage p))"
    using assms unfolding ValidatePolicy_def Let_def first_error_None list_all_append by blast+
  then show "BlockNewAt p = LevelRed \<or> BlockNewAt p = LevelCritical"
    and "st_Enabled (po_Storage p) \<Longrightarrow> st_BlockNewAt (po_Storage p) = LevelRed \<or> st_BlockNewAt (po_Storage p) = LevelCritical"
    by (auto simp: schedule_guards_def storage_guards_def Let_def)
qed

lemma rung_is_red: "l = LevelRed \<or> l = LevelCritical \<Longrightarrow> AtLeast k l \<Longrightarrow> AtLeast k LevelRed"
  by (auto simp: AtLeast_def)

lemma loaded_validates: "LoadPolicy n f mem = Inr (p, persisted) \<Longrightarrow> ValidatePolicy n p = None"
  by (cases f) (auto simp: Let_def default_policy_validates split: option.splits)

lemma snapshot_refusal_is_hard:
  "ValidatePolicy n p = None \<Longrightarrow> hard_refusal (AdmissionForSnapshot s p src)"
  using rung_is_red [OF validated_rungs(1)]
  by (auto simp: hard_refusal_def AdmissionForSnapshot_def Let_def)

lemma work_refusal_is_hard:
  "ValidatePolicy n p = None \<Longrightarrow> hard_refusal (AdmissionForWorkSnapshot s p src)"
  using snapshot_refusal_is_hard [of n p s src]
  by (auto simp: hard_refusal_def AdmissionForWorkSnapshot_def Let_def split: option.splits)

lemma storage_refusal_is_hard:
  "ValidatePolicy n p = None \<Longrightarrow> hard_refusal (StorageAdmissionForClass s p class src)"
  using rung_is_red [OF validated_rungs(2)]
  by (auto simp: hard_refusal_def StorageAdmissionForClass_def storage_admission_def Let_def)

lemma hard_refusal_update [simp]:
  "hard_refusal (a\<lparr> ad_Warning := w \<rparr>) = hard_refusal a" "hard_refusal (a\<lparr> ad_Snapshot := s \<rparr>) = hard_refusal a"
  "hard_refusal (plain_admission True l src)"
  by (simp_all add: hard_refusal_def)

lemma live_refusal_is_hard:
  assumes "\<And>s src. hard_refusal (admit s p src)" and "ValidatePolicy n p = None"
  shows "hard_refusal (live_admission h p latest admit)"
  using assms snapshot_refusal_is_hard [OF assms(2)]
  by (auto simp: live_admission_def admissionAfterSampleFailure_def Let_def split: option.splits)

lemma fresh_refusal_is_hard:
  "(\<And>s src. hard_refusal (admit s p src)) \<Longrightarrow> AdmissionFromFreshResident s p now admit = Some a \<Longrightarrow> hard_refusal a"
  by (auto simp: AdmissionFromFreshResident_def Let_def split: if_splits)

lemma configured_refusal_is_hard: "hard_refusal (ConfiguredWorkHostAdmission h)"
proof (cases "LoadPolicy (ah_NumCPU h) (ah_PolicyFile h) 0")
  case (Inl err)
  then show ?thesis by (simp add: ConfiguredWorkHostAdmission_def configuredAdmission_def)
next
  case (Inr r)
  obtain p persisted where r: "r = (p, persisted)" by (cases r)
  have v: "ValidatePolicy (ah_NumCPU h) p = None" using loaded_validates Inr r by blast
  note admit = work_refusal_is_hard [OF v]
  have fresh: "\<And>s now a. AdmissionFromFreshResident s p now AdmissionForWorkSnapshot = Some a \<Longrightarrow> hard_refusal a"
    using fresh_refusal_is_hard [of AdmissionForWorkSnapshot p] admit by blast
  have live: "\<And>latest. hard_refusal (live_admission h p latest AdmissionForWorkSnapshot)"
    using live_refusal_is_hard [of AdmissionForWorkSnapshot p] admit v by blast
  show ?thesis
    using Inr r fresh live
    by (simp add: ConfiguredWorkHostAdmission_def configuredAdmission_def Let_def split: option.split)
qed

lemma configured_storage_refusal_is_hard: "hard_refusal (ConfiguredStorageAdmission h class)"
proof (cases "LoadPolicy (ah_NumCPU h) (ah_PolicyFile h) 0")
  case (Inl err)
  then show ?thesis by (simp add: ConfiguredStorageAdmission_def)
next
  case (Inr r)
  obtain p persisted where r: "r = (p, persisted)" by (cases r)
  have "ValidatePolicy (ah_NumCPU h) p = None" using loaded_validates Inr r by blast
  from storage_refusal_is_hard [OF this] show ?thesis
    using Inr r by (simp add: ConfiguredStorageAdmission_def Let_def)
qed

lemma work_admission_refusal_is_hard: "hard_refusal (ConfiguredWorkAdmission h class)"
  using configured_refusal_is_hard configured_storage_refusal_is_hard
  by (simp add: ConfiguredWorkAdmission_def Let_def)

text \<open>
  Claim C13. Off the CPU dimension the gate fails closed. When the configured work admission refuses for
  memory, swap, heat or storage, every poll of the gate that observes it refuses, immediate or
  not, with or without a lease, whatever the fast lane, the warning and thrash derates, and the
  shared or the private latch say.
\<close>

theorem gate_fails_closed_off_cpu:
  assumes "\<not> ad_Allowed (ConfiguredWorkAdmission h class)"
    and "pressureDimension (ConfiguredWorkAdmission h class) \<noteq> ''cpu''"
  shows "\<not> de_Allowed (snd (observe_gate e g (ConfiguredWorkAdmission h class) immediate owns))"
proof -
  let ?a = "ConfiguredWorkAdmission h class"
  have "ad_Level ?a \<noteq> LevelWarning"
    using work_admission_refusal_is_hard assms(1) unfolding hard_refusal_def AtLeast_def
    by (metis levelRank.simps(1) levelRank.simps(2) not_one_le_zero numeral_le_one_iff semiring_norm(69))
  then show ?thesis
    using assms pressureDimension_refused [OF assms(1)] uncorroborated_allowed [of g ?a]
    by (auto simp: observe_gate_def thrash_declines warning_declines gate_path_def immediate_decision_def Let_def)
qed

definition quiet_gate :: workAdmissionGate where
  "quiet_gate =
     \<lparr> g_limits = defaultWorkLimits 8, g_cpuRed = 0, g_cpuRecovered = 0, g_latched = False,
       g_deferredLevel = LevelNormal, g_deferredDimension = [], g_deferredReason = None,
       g_coordinatedWork = no_evidence, g_storageGrace = 0, g_storageDeadline = 0,
       g_storageBestAvailableBytes = 0, g_storageEvidenceInitialized = False, g_cpuRedPercent = 95,
       g_class = WorkClassBuild, g_suppressHold = False, g_swapThrashEnforced = True,
       g_swapThrashAdmitted = False, g_swapThrashDeferred = False, g_swapThrashExternal = False,
       g_fastLaneAdmitted = False, g_fastLaneRefusal = [], g_warningCapacityAdmitted = False,
       g_warningCapacityDeferred = False \<rparr>"

definition busy_status :: WorkStatus where
  "busy_status = (status sample_coordinator 0 (sample_state, 0, 0))\<lparr> s_Used := 3, s_AdmissionLatch := None \<rparr>"

definition idle_env :: gate_env where
  "idle_env =
     \<lparr> ge_NumCPU = 8, ge_SharedLatch = (\<lambda>_ _ _ _. None), ge_ClassRuntimeP95MS = None,
       ge_FreeCapacity = Some 3, ge_HasStatus = True, ge_Status = Some busy_status,
       ge_ReclaimActive = False, ge_Now = 0 \<rparr>"

definition enforcing_policy :: Policy where
  "enforcing_policy = (DefaultPolicy 8 0)\<lparr>po_EnforceAdmission := True\<rparr>"

definition starved_host :: admission_host where
  "starved_host =
     \<lparr> ah_NumCPU = 8, ah_DataDir = True, ah_PolicyFile = PolicyDocument enforcing_policy, ah_Latest = None,
       ah_Probe = (\<lambda>latest. Some (calm_snapshot\<lparr> sn_FreePercent := 5 \<rparr>)), ah_ResidentClock = 0, ah_AgeClock = 0,
       ah_FallbackClock = 0, ah_Status = None, ah_StorageSample = (\<lambda>p l. zero_storage) \<rparr>"

theorem gate_fails_closed_off_cpu_witness:
  "\<not> de_Allowed (snd (observe_gate idle_env quiet_gate
       (ConfiguredWorkAdmission starved_host WorkClassBuild) False False))"
  by (rule gate_fails_closed_off_cpu) code_simp+

text \<open>
  The thrash derate can only defer, and exactly when it should: under enforcement, on an admitted
  sample with a latched episode not attributed to outside demand, when the coordinator's status is
  known, the operation would not be alone and the projected weight exceeds the thrash ceiling. So a
  lone operation is never held, and the derate never admits what another gate refuses.
\<close>

theorem thrash_derate_exact:
  "(snd (swapThrashDecision e g a owns) \<noteq> None \<longleftrightarrow> thrash_defers e g a owns) \<and>
   (snd (swapThrashDecision e g a owns) = None \<or>
    (\<exists>d. snd (swapThrashDecision e g a owns) = Some d \<and> \<not> de_Allowed d \<and> de_Dimension d = ''swap''))"
  using thrash_decision_cases [of e g a owns] by auto

text \<open>
  Claim C36. The fast lane admits only on evidence: CPU is the pressed dimension, the class is light enough
  and its measured runtime short enough, the free weight holds it now, and leased work either has
  a measured CPU share under the ceiling or leaves at least half of the capacity free.
\<close>

theorem fast_lane_needs_evidence:
  assumes "snd (fastLaneDecision e g a dimension) = Some d"
  shows "dimension = ''cpu'' \<and> FastLaneEnabled (g_limits g) \<and> de_Allowed d \<and>
    (\<exists>weight runtime free.
       Weight (ge_NumCPU e) (g_limits g) (g_class g) = Some weight \<and>
       ge_ClassRuntimeP95MS e = Some runtime \<and> ge_FreeCapacity e = Some free \<and>
       weight \<le> FastLaneMaxWeight (g_limits g) \<and> weight \<le> free \<and>
       runtime \<le> FastLaneMaxRuntimeMS (g_limits g) \<and>
       (if wv_Available (coordinatedWorkEvidence a) \<and> wv_CPUAvailable (coordinatedWorkEvidence a)
        then wv_CPUPercent (coordinatedWorkEvidence a) \<le>
          (if FastLaneCoordinatedCPUCeilingPct (g_limits g) \<le> 0 then 50
           else FastLaneCoordinatedCPUCeilingPct (g_limits g))
        else Capacity (g_limits g) \<le> free * 2))"
  by (rule fast_lane_evidence [OF assms]) blast

theorem fast_lane_needs_evidence_witness:
  "''cpu'' = ''cpu'' \<and> FastLaneEnabled (g_limits (quiet_gate\<lparr>g_class := WorkClassExpressTest\<rparr>)) \<and>
    de_Allowed (the (snd (fastLaneDecision (idle_env\<lparr>ge_ClassRuntimeP95MS := Some 4000\<rparr>)
      (quiet_gate\<lparr>g_class := WorkClassExpressTest\<rparr>) (plain_admission False LevelRed []) ''cpu''))) \<and>
    (\<exists>weight runtime free.
       Weight (ge_NumCPU (idle_env\<lparr>ge_ClassRuntimeP95MS := Some 4000\<rparr>))
         (g_limits (quiet_gate\<lparr>g_class := WorkClassExpressTest\<rparr>))
         (g_class (quiet_gate\<lparr>g_class := WorkClassExpressTest\<rparr>)) = Some weight \<and>
       ge_ClassRuntimeP95MS (idle_env\<lparr>ge_ClassRuntimeP95MS := Some 4000\<rparr>) = Some runtime \<and>
       ge_FreeCapacity (idle_env\<lparr>ge_ClassRuntimeP95MS := Some 4000\<rparr>) = Some free \<and>
       weight \<le> FastLaneMaxWeight (g_limits (quiet_gate\<lparr>g_class := WorkClassExpressTest\<rparr>)) \<and> weight \<le> free \<and>
       runtime \<le> FastLaneMaxRuntimeMS (g_limits (quiet_gate\<lparr>g_class := WorkClassExpressTest\<rparr>)) \<and>
       (if wv_Available (coordinatedWorkEvidence (plain_admission False LevelRed [])) \<and>
           wv_CPUAvailable (coordinatedWorkEvidence (plain_admission False LevelRed []))
        then wv_CPUPercent (coordinatedWorkEvidence (plain_admission False LevelRed [])) \<le>
          (if FastLaneCoordinatedCPUCeilingPct (g_limits (quiet_gate\<lparr>g_class := WorkClassExpressTest\<rparr>)) \<le> 0 then 50
           else FastLaneCoordinatedCPUCeilingPct (g_limits (quiet_gate\<lparr>g_class := WorkClassExpressTest\<rparr>)))
        else Capacity (g_limits (quiet_gate\<lparr>g_class := WorkClassExpressTest\<rparr>)) \<le> free * 2))"
  by (rule fast_lane_needs_evidence) code_simp

text \<open>
  The poll that releases the shared latch skips the warning-band derate. With the derate enabled and
  memory in the warning band, a build that would exceed the warning capacity is deferred by the gate
  on its private counters when recovery is confirmed, but admitted on the shared latch: there the
  recovery branch that would consult the derate is never reached.
\<close>

theorem shared_release_skips_derate:
  "let a = AdmissionForWorkSnapshot (calm_snapshot\<lparr>sn_FreePercent := 20\<rparr>) enforcing_policy ''live'';
       g = quiet_gate\<lparr>g_latched := True, g_cpuRecovered := 1, g_swapThrashEnforced := False\<rparr>;
       shared = idle_env\<lparr>ge_SharedLatch := (\<lambda>_ _ _ _. Some empty_latch)\<rparr>
   in ad_Allowed a \<and> ad_Level a = LevelWarning \<and>
      \<not> de_Allowed (snd (Observe idle_env g a False)) \<and>
      g_warningCapacityDeferred (fst (Observe idle_env g a False)) \<and>
      de_Allowed (snd (Observe shared g a False)) \<and>
      \<not> g_warningCapacityDeferred (fst (Observe shared g a False))"
  by code_simp

text \<open>
  A storage wait without progress ends on time. After the first refused poll, if no reclaim lease is
  active and the free space never grows by the progress step, the wait fails at the first
  poll that is at least the grace period after the first one, and at no earlier poll.
\<close>

theorem stalled_storage_wait_ends:
  assumes "\<not> g_storageEvidenceInitialized g"
    and "list_all (\<lambda>(t, free, reclaim). \<not> reclaim \<and> free < best + WorkStorageProgressBytes)
           (polls @ [(now, free, reclaim)])"
  shows "snd (storage_poll (now, free, reclaim)
      (foldl (\<lambda>g poll. fst (storage_poll poll g)) (fst (storage_poll (start, best, False) g)) polls)) =
    (if start + grace_of g \<le> now then Some (grace_of g) else None)"
proof -
  let ?g1 = "fst (storage_poll (start, best, False) g)"
  let ?g2 = "foldl (\<lambda>g poll. fst (storage_poll poll g)) ?g1 polls"
  have g1: "g_storageEvidenceInitialized ?g1" "g_storageBestAvailableBytes ?g1 = best"
    "g_storageDeadline ?g1 = start + grace_of g" "g_storageGrace ?g1 = g_storageGrace g"
    using assms(1) by (simp_all add: storage_poll_eq Let_def WorkStorageProgressBytes_def)
  have g2: "g_storageEvidenceInitialized ?g2" "g_storageBestAvailableBytes ?g2 = best"
    "g_storageDeadline ?g2 = start + grace_of g" "grace_of ?g2 = grace_of g"
    using stalled_run [OF g1(1,2), of polls] assms(2) g1(3,4) by (simp_all add: Let_def grace_of_def)
  have "\<not> progressed ?g2 (now, free, reclaim)"
    using assms(2) g2(1,2) by (simp add: progressed_def)
  then show ?thesis by (simp add: storage_poll_deadline g2)
qed

theorem stalled_storage_wait_ends_witness:
  "snd (storage_poll (seconds 75, 2 ^ 30 + 5, False)
      (foldl (\<lambda>g poll. fst (storage_poll poll g)) (fst (storage_poll (seconds 10, 2 ^ 30, False) quiet_gate))
        [(seconds 25, 2 ^ 30, False), (seconds 60, 2 ^ 30 + 5, False)])) =
    (if seconds 10 + grace_of quiet_gate \<le> seconds 75 then Some (grace_of quiet_gate) else None)"
  by (rule stalled_storage_wait_ends) code_simp+

text \<open>
  A failed storage probe hides the thrash latch from the gate. Under an enforcing storage policy,
  when the host admits a disk-growing operation and the storage sample is unavailable, the
  configured decision is the storage fail-open, whose snapshot carries no swap evidence, so the
  thrash derate stands aside for that poll.
\<close>

theorem storage_failure_hides_thrash:
  assumes "ah_DataDir h" and "LoadPolicy (ah_NumCPU h) (ah_PolicyFile h) 0 = Inr (p, True)"
    and "st_Enabled (po_Storage p)" and "st_EnforceAdmission (po_Storage p)"
    and "storageGrowingClass class" and "ad_Allowed (ConfiguredWorkHostAdmission h)"
    and "\<forall>q l. \<not> ss_Available (ah_StorageSample h q l)"
  shows "ad_Allowed (ConfiguredWorkAdmission h class) \<and>
    swapThrashDecision e g (ConfiguredWorkAdmission h class) owns = (g, None)"
proof -
  have c: "class \<noteq> WorkClassReclaim" "class \<noteq> WorkClassInstall" "class \<noteq> WorkClassExpressTest"
    "class \<noteq> WorkClassExpressBuild"
    using assms(5) by (auto simp: storageGrowingClass_def)
  obtain s where s: "ConfiguredStorageAdmission h class =
      (storage_admission s True LevelNormal ''fail-open'')\<lparr>ad_Warning := [StorageUnavailable (ss_Error s)]\<rparr>"
    using assms c by (simp add: ConfiguredStorageAdmission_def StorageAdmissionForClass_def Let_def)
  then have "ConfiguredWorkAdmission h class = ConfiguredStorageAdmission h class"
    using assms(6) by (simp add: ConfiguredWorkAdmission_def Let_def)
  then show ?thesis by (simp add: s swapThrashDecision_def zero_snapshot_def)
qed


text \<open>
  The private counters are not the shared latch without the sharing. A red poll, a poll in the
  warning band and another red poll, two seconds apart, set the shared latch with its default of two
  samples, because a poll between the thresholds keeps its red count; the private counters start over
  after the middle poll and do not latch.
\<close>

theorem private_latch_forgets_red:
  "let red = (plain_admission False LevelRed [])\<lparr>ad_Dimension := ''cpu''\<rparr>;
       band = (plain_admission True LevelWarning [])\<lparr>ad_Snapshot := Some (calm_snapshot\<lparr>sn_HostCPUPercent := 88\<rparr>)\<rparr>;
       private = foldl (\<lambda>g a. fst (private_path idle_env g a False)) quiet_gate [red, band, red];
       shared = foldl (\<lambda>l (t, a). Some (observe_latch 2 2 t
           \<lparr> ob_Red = (pressureDimension a = ''cpu''), ob_Recovered = poll_recovered quiet_gate a,
             ob_Dimension = pressureDimension a, ob_Reason = [] \<rparr> l)) None
         [(seconds 10, red), (seconds 12, band), (seconds 14, red)]
   in \<not> g_latched private \<and> g_cpuRed private = 1 \<and>
      la_Latched (the shared) \<and> la_RedSamples (the shared) = 2"
  by code_simp

end
