(* ===== verification/Idle_Park.thy ===== *)
theory Idle_Park
  imports Work_Limits "HOL-Library.Word"
begin

text \<open>
  Idle-lease parking (\<^verbatim>\<open>sessionpressure/workidle.go\<close>): which classes are eligible, the detector that
  decides when a leased process group is idle, and the supervising loop that writes each transition
  through the coordinator and takes it back when the write fails. Group activity is cumulative
  64-bit counters; rates are exact quotients. A tick carries what the loop met: the clock, the
  sample or its failure, and whether the two durable writes it may attempt succeed.
\<close>

section \<open>The detector\<close>

definition workIdleMaxCores :: rat where "workIdleMaxCores = 1 / 100"
definition workIdleWakeCores :: rat where "workIdleWakeCores = 5 / 100"
definition workIdleMaxPageinsPerSecond :: rat where "workIdleMaxPageinsPerSecond = 4"
definition workIdleWakePageinsPerSecond :: rat where "workIdleWakePageinsPerSecond = 64"
definition workIdleReassertTicks :: nat where "workIdleReassertTicks = 4"

lemmas idle_constants =
  workIdleMaxCores_def workIdleWakeCores_def workIdleMaxPageinsPerSecond_def
  workIdleWakePageinsPerSecond_def workIdleReassertTicks_def

definition workIdleParkEligible :: "WorkClass \<Rightarrow> bool" where
  "workIdleParkEligible class \<longleftrightarrow>
     class \<in> {WorkClassTest, WorkClassExpressTest, WorkClassBuild, WorkClassExpressBuild, WorkClassHeavy}"

record workGroupActivity =
  CPUNS :: "64 word"
  Pageins :: "64 word"

record workIdleDetector =
  id_idleAfter :: duration
  id_last :: workGroupActivity
  id_lastAt :: time
  id_haveLast :: bool
  id_idleSince :: time
  id_parked :: bool
  id_parkedAt :: time
  id_parkedTotal :: duration
  id_parkCount :: int

definition new_detector :: "duration \<Rightarrow> workIdleDetector" where
  "new_detector idleAfter =
     \<lparr> id_idleAfter = idleAfter, id_last = \<lparr>CPUNS = 0, Pageins = 0\<rparr>, id_lastAt = 0,
       id_haveLast = False, id_idleSince = 0, id_parked = False, id_parkedAt = 0,
       id_parkedTotal = 0, id_parkCount = 0 \<rparr>"

definition setParked :: "workIdleDetector \<Rightarrow> time \<Rightarrow> bool \<Rightarrow> workIdleDetector \<times> int" where
  "setParked d now parked =
     (if parked = id_parked d then (d, 0)
      else if parked
      then (d\<lparr> id_parked := True, id_parkedAt := now, id_parkCount := id_parkCount d + 1 \<rparr>, 1)
      else (d\<lparr> id_parked := False,
               id_parkedTotal := id_parkedTotal d + time_sub now (id_parkedAt d),
               id_parkedAt := 0 \<rparr>, -1))"

text \<open>A counter that went backwards counts as no activity.\<close>

definition counter_delta :: "64 word \<Rightarrow> 64 word \<Rightarrow> 64 word" where
  "counter_delta current previous = (if current > previous then current - previous else 0)"

definition group_cores :: "workIdleDetector \<Rightarrow> workGroupActivity \<Rightarrow> duration \<Rightarrow> rat" where
  "group_cores d sample elapsed =
     rat_of_int (uint (counter_delta (CPUNS sample) (CPUNS (id_last d)))) / rat_of_int elapsed"

definition group_pageins :: "workIdleDetector \<Rightarrow> workGroupActivity \<Rightarrow> duration \<Rightarrow> rat" where
  "group_pageins d sample elapsed =
     rat_of_int (uint (counter_delta (Pageins sample) (Pageins (id_last d)))) /
     (rat_of_int elapsed / 1000000000)"

definition group_awake :: "workIdleDetector \<Rightarrow> time \<Rightarrow> workGroupActivity \<Rightarrow> bool" where
  "group_awake d now sample \<longleftrightarrow>
     (let elapsed = time_sub now (id_lastAt d)
      in group_cores d sample elapsed \<ge> workIdleWakeCores \<or>
         group_pageins d sample elapsed \<ge> workIdleWakePageinsPerSecond)"

definition group_light :: "workIdleDetector \<Rightarrow> time \<Rightarrow> workGroupActivity \<Rightarrow> bool" where
  "group_light d now sample \<longleftrightarrow>
     (let elapsed = time_sub now (id_lastAt d)
      in group_cores d sample elapsed > workIdleMaxCores \<or>
         group_pageins d sample elapsed > workIdleMaxPageinsPerSecond)"

definition observe_sample :: "workIdleDetector \<Rightarrow> time \<Rightarrow> workGroupActivity \<Rightarrow> workIdleDetector \<times> int" where
  "observe_sample d now sample =
     (if \<not> id_haveLast d then
        (d\<lparr> id_last := sample, id_lastAt := now, id_haveLast := True,
            id_idleSince := (if IsZero (id_idleSince d) then now else id_idleSince d) \<rparr>, 0)
      else if time_sub now (id_lastAt d) \<le> 0 then (d, 0)
      else
        let kept = d\<lparr> id_last := sample, id_lastAt := now \<rparr> in
        if group_awake d now sample then setParked (kept\<lparr> id_idleSince := now \<rparr>) now False
        else if group_light d now sample then
          (if \<not> id_parked d then kept\<lparr> id_idleSince := now \<rparr> else kept, 0)
        else if \<not> id_parked d \<and> time_sub now (id_idleSince d) \<ge> id_idleAfter d
        then setParked kept now True
        else (kept, 0))"

definition observe_idle ::
    "workIdleDetector \<Rightarrow> time \<Rightarrow> workGroupActivity option \<Rightarrow> workIdleDetector \<times> int" where
  "observe_idle d now sample =
     (case sample of
        None \<Rightarrow> setParked (d\<lparr> id_haveLast := False, id_idleSince := 0 \<rparr>) now False
      | Some a \<Rightarrow> observe_sample d now a)"

definition revert :: "workIdleDetector \<Rightarrow> int \<Rightarrow> workIdleDetector" where
  "revert d tr =
     (if tr = 1 then d\<lparr> id_parked := False, id_parkedAt := 0, id_parkCount := id_parkCount d - 1 \<rparr>
      else if tr = -1 then d\<lparr> id_parked := True, id_parkedAt := id_lastAt d \<rparr>
      else d)"

definition totals :: "workIdleDetector \<Rightarrow> time \<Rightarrow> duration \<times> int" where
  "totals d now =
     (id_parkedTotal d + (if id_parked d then time_sub now (id_parkedAt d) else 0), id_parkCount d)"


section \<open>The supervising loop\<close>

record park_tick =
  pt_Now :: time
  pt_Sample :: "workGroupActivity option"
  pt_WriteOK :: bool
  pt_ReassertOK :: bool

text \<open>
  The loop's state: the detector, whether the coordinator has the lease parked, and the tick count.
  A durable write that succeeds sets the coordinator's side to what was asked; one that fails
  leaves it.
\<close>

record park_loop =
  pl_Detector :: workIdleDetector
  pl_Durable :: bool
  pl_Ticks :: nat

definition loop_observe :: "park_loop \<Rightarrow> park_tick \<Rightarrow> park_loop" where
  "loop_observe l tick =
     (let (d, tr) = observe_idle (pl_Detector l) (pt_Now tick) (pt_Sample tick) in
      if tr = 0 then l\<lparr> pl_Detector := d \<rparr>
      else if pt_WriteOK tick then l\<lparr> pl_Detector := d, pl_Durable := (tr > 0) \<rparr>
      else l\<lparr> pl_Detector := revert d tr \<rparr>)"

definition loop_tick :: "park_loop \<Rightarrow> park_tick \<Rightarrow> park_loop" where
  "loop_tick l tick =
     (let l = loop_observe l tick; l = l\<lparr> pl_Ticks := pl_Ticks l + 1 \<rparr>
      in if id_parked (pl_Detector l) \<and> pl_Ticks l mod workIdleReassertTicks = 0 \<and> pt_ReassertOK tick
         then l\<lparr> pl_Durable := True \<rparr> else l)"

text \<open>\<open>start\<close> is the first observation, before the first tick of the timer.\<close>

definition run_loop :: "workIdleDetector \<Rightarrow> park_tick \<Rightarrow> park_tick list \<Rightarrow> park_loop" where
  "run_loop d start ticks =
     foldl loop_tick
       (loop_observe \<lparr> pl_Detector = d, pl_Durable = False, pl_Ticks = 0 \<rparr> start) ticks"

definition startWorkIdleParking :: "int \<Rightarrow> int \<Rightarrow> WorkClass \<Rightarrow> WorkLimits \<Rightarrow> workIdleDetector option" where
  "startWorkIdleParking ncpu pgid class limits =
     (let limits = normalizeWorkLimits ncpu limits in
      if pgid \<le> 0 \<or> IdleParkSeconds limits < 0 \<or> \<not> workIdleParkEligible class then None
      else Some (new_detector (seconds (IdleParkSeconds limits))))"

text \<open>\<^verbatim>\<open>stop\<close> returns the totals at the clock of the call.\<close>

definition stop :: "park_loop \<Rightarrow> time \<Rightarrow> duration \<times> int" where
  "stop l now = totals (pl_Detector l) now"


section \<open>Facts\<close>

lemma setParked_cases:
  "setParked d now p =
     (if p = id_parked d then (d, 0) else (fst (setParked d now p), if p then 1 else -1))"
  by (simp add: setParked_def)

lemma setParked_parked [simp]: "id_parked (fst (setParked d now p)) = p"
  by (simp add: setParked_def)

lemma setParked_transition [simp]:
  "snd (setParked d now p) = (if p = id_parked d then 0 else if p then 1 else -1)"
  by (simp add: setParked_def)

lemma setParked_totals [simp]: "fst (totals (fst (setParked d now p)) now) = fst (totals d now)"
  by (simp add: setParked_def totals_def)

lemma setParked_frame [simp]:
  "id_lastAt (fst (setParked d now p)) = id_lastAt d"
  "id_haveLast (fst (setParked d now p)) = id_haveLast d"
  "id_idleSince (fst (setParked d now p)) = id_idleSince d"
  "id_idleAfter (fst (setParked d now p)) = id_idleAfter d"
  by (simp_all add: setParked_def)

lemma observe_idleAfter [simp]: "id_idleAfter (fst (observe_idle d now sample)) = id_idleAfter d"
  by (cases sample) (simp_all add: observe_idle_def observe_sample_def Let_def)

lemma observe_totals: "fst (totals (fst (observe_idle d now sample)) now) = fst (totals d now)"
  by (auto simp: observe_idle_def observe_sample_def Let_def split: option.splits) (simp_all add: totals_def)

definition quiet_for :: "workIdleDetector \<Rightarrow> time \<Rightarrow> workGroupActivity \<Rightarrow> bool" where
  "quiet_for d now a \<longleftrightarrow>
     id_haveLast d \<and> 0 < time_sub now (id_lastAt d) \<and> \<not> group_awake d now a \<and>
     \<not> group_light d now a \<and> time_sub now (id_idleSince d) \<ge> id_idleAfter d"

lemma observe_sample_transition:
  "snd (observe_sample d now a) =
     (if id_parked d
      then (if id_haveLast d \<and> 0 < time_sub now (id_lastAt d) \<and> group_awake d now a then -1 else 0)
      else (if quiet_for d now a then 1 else 0))"
  by (simp add: observe_sample_def quiet_for_def Let_def not_less)

lemma observe_sample_parked:
  "id_parked (fst (observe_sample d now a)) =
     (id_parked d \<and> \<not> (id_haveLast d \<and> 0 < time_sub now (id_lastAt d) \<and> group_awake d now a) \<or>
      \<not> id_parked d \<and> quiet_for d now a)"
  by (simp add: observe_sample_def quiet_for_def Let_def not_less)

lemma observe_parked:
  "id_parked (fst (observe_idle d now sample)) =
     (id_parked d \<and> snd (observe_idle d now sample) \<noteq> -1 \<or> snd (observe_idle d now sample) = 1)"
  by (auto simp: observe_idle_def observe_sample_transition observe_sample_parked split: option.splits)

lemma transition_values:
  "snd (observe_idle d now sample) \<in> {-1, 0, 1}"
  "snd (observe_idle d now sample) = 1 \<Longrightarrow> \<not> id_parked d"
  "snd (observe_idle d now sample) = -1 \<Longrightarrow> id_parked d"
  by (auto simp: observe_idle_def observe_sample_transition split: option.splits if_splits)

lemma transition_one:
  "snd (observe_idle d now sample) = 1 \<Longrightarrow> \<exists>a. \<not> id_parked d \<and> sample = Some a \<and> quiet_for d now a"
  by (cases sample) (auto simp: observe_idle_def observe_sample_transition split: if_splits)

lemma revert_parked: "tr \<in> {-1, 1} \<Longrightarrow> id_parked (revert d tr) = (tr = -1)"
  by (auto simp: revert_def)

lemma loop_observe_agrees:
  assumes "id_parked (pl_Detector l) = pl_Durable l"
  shows "id_parked (pl_Detector (loop_observe l tick)) = pl_Durable (loop_observe l tick)"
proof -
  obtain d tr where o: "observe_idle (pl_Detector l) (pt_Now tick) (pt_Sample tick) = (d, tr)"
    by (cases "observe_idle (pl_Detector l) (pt_Now tick) (pt_Sample tick)")
  have tr: "tr \<in> {-1, 0, 1}" "tr = 1 \<Longrightarrow> \<not> id_parked (pl_Detector l)"
    "tr = -1 \<Longrightarrow> id_parked (pl_Detector l)"
    "id_parked d = (id_parked (pl_Detector l) \<and> tr \<noteq> -1 \<or> tr = 1)"
    using transition_values [of "pl_Detector l" "pt_Now tick" "pt_Sample tick"]
      observe_parked [of "pl_Detector l" "pt_Now tick" "pt_Sample tick"] by (simp_all add: o)
  then show ?thesis
    using assms by (auto simp: loop_observe_def o revert_def)
qed

lemma loop_tick_agrees:
  "id_parked (pl_Detector l) = pl_Durable l \<Longrightarrow>
     id_parked (pl_Detector (loop_tick l tick)) = pl_Durable (loop_tick l tick)"
  using loop_observe_agrees [of l tick] by (auto simp: loop_tick_def Let_def)

lemma loop_agrees:
  "id_parked (pl_Detector l) = pl_Durable l \<Longrightarrow>
     id_parked (pl_Detector (foldl loop_tick l ticks)) = pl_Durable (foldl loop_tick l ticks)"
  by (induction ticks arbitrary: l) (simp_all add: loop_tick_agrees)


subsection \<open>Sustained idleness\<close>

text \<open>
  The history of a detector: its observations in order, the state after them, and the times at which
  an observation showed activity or failed.
\<close>

type_synonym observation = "time \<times> workGroupActivity option"

fun busy_observation :: "workIdleDetector \<Rightarrow> observation \<Rightarrow> bool" where
  "busy_observation d (now, None) = True"
| "busy_observation d (now, Some a) =
     (id_haveLast d \<and> 0 < time_sub now (id_lastAt d) \<and> (group_awake d now a \<or> group_light d now a))"

definition observe_all :: "workIdleDetector \<Rightarrow> observation list \<Rightarrow> workIdleDetector" where
  "observe_all d obs = foldl (\<lambda>d ob. fst (observe_idle d (fst ob) (snd ob))) d obs"

fun busy_times :: "workIdleDetector \<Rightarrow> observation list \<Rightarrow> time list" where
  "busy_times d [] = []"
| "busy_times d (ob # obs) =
     (if busy_observation d ob then [fst ob] else []) @
     busy_times (fst (observe_idle d (fst ob) (snd ob))) obs"

definition idle_tracked :: "workIdleDetector \<Rightarrow> time set \<Rightarrow> bool" where
  "idle_tracked d busy \<longleftrightarrow>
     (\<not> id_haveLast d \<longrightarrow> id_idleSince d = 0) \<and>
     (id_haveLast d \<and> \<not> id_parked d \<longrightarrow> (\<forall>u \<in> busy. u \<le> id_idleSince d)) \<and>
     (\<not> id_haveLast d \<longrightarrow> \<not> id_parked d)"

lemma observe_idle_tracked:
  assumes "idle_tracked d busy" and "\<forall>u \<in> busy. u \<le> now"
  shows "idle_tracked (fst (observe_idle d now sample))
    (busy \<union> (if busy_observation d (now, sample) then {now} else {}))"
proof (cases sample)
  case None
  then show ?thesis by (simp add: observe_idle_def idle_tracked_def)
next
  case (Some a)
  show ?thesis
  proof (cases "id_haveLast d \<and> 0 < time_sub now (id_lastAt d)")
    case True
    then show ?thesis
      using assms Some
      by (auto simp: idle_tracked_def observe_idle_def observe_sample_def Let_def)
  next
    case False
    then show ?thesis
      using assms Some
      by (auto simp: idle_tracked_def observe_idle_def observe_sample_def Let_def IsZero_def)
  qed
qed

lemma observe_all_tracked:
  assumes "idle_tracked d busy" and "sorted (map fst obs)" and "\<forall>u \<in> busy. \<forall>ob \<in> set obs. u \<le> fst ob"
  shows "idle_tracked (observe_all d obs) (busy \<union> set (busy_times d obs))"
  using assms
proof (induction obs arbitrary: d busy)
  case (Cons ob obs)
  obtain now sample where ob: "ob = (now, sample)" by (cases ob)
  let ?d = "fst (observe_idle d now sample)"
  let ?b = "busy \<union> (if busy_observation d (now, sample) then {now} else {})"
  have "idle_tracked ?d ?b"
    using Cons.prems by (intro observe_idle_tracked) (auto simp: ob)
  moreover have "\<forall>u \<in> ?b. \<forall>o' \<in> set obs. u \<le> fst o'"
    using Cons.prems by (auto simp: ob)
  ultimately have "idle_tracked (observe_all ?d obs) (?b \<union> set (busy_times ?d obs))"
    using Cons.IH Cons.prems(2) by simp
  then show ?case
    by (cases "busy_observation d ob") (simp_all add: ob observe_all_def)
qed (simp add: observe_all_def)


section \<open>Properties of idle parking\<close>

text \<open>
  When the detector moves. It parks exactly on a sample that is neither awake nor lightly active
  and ends a full idle period; it unparks exactly when the group is awake or a sample is missing, so
  weight is never left released without evidence; and it never reports a move it did not make.
\<close>

theorem park_transitions_exact:
  "(snd (observe_idle d now sample) = 1 \<longleftrightarrow>
      \<not> id_parked d \<and> (\<exists>a. sample = Some a \<and> quiet_for d now a)) \<and>
   (snd (observe_idle d now sample) = -1 \<longleftrightarrow>
      id_parked d \<and> (sample = None \<or>
        (\<exists>a. sample = Some a \<and> id_haveLast d \<and> 0 < time_sub now (id_lastAt d) \<and> group_awake d now a))) \<and>
   snd (observe_idle d now sample) \<in> {-1, 0, 1} \<and>
   (id_parked (fst (observe_idle d now sample)) \<longleftrightarrow>
      id_parked d \<and> snd (observe_idle d now sample) \<noteq> -1 \<or> snd (observe_idle d now sample) = 1)"
  by (intro conjI observe_parked transition_values)
    (auto simp: observe_idle_def observe_sample_transition split: option.splits)

text \<open>
  Claim C34. A lease is parked only after sustained idleness: when the detector parks at some instant, every
  observation that showed activity or failed is at least the idle period before it.
\<close>

theorem parks_only_after_sustained_idle:
  assumes "sorted (map fst (obs @ [(now, sample)]))"
    and "min_duration < idleAfter" and "idleAfter \<le> max_duration"
    and "snd (observe_idle (observe_all (new_detector idleAfter) obs) now sample) = 1"
    and "u \<in> set (busy_times (new_detector idleAfter) obs)"
  shows "u + idleAfter \<le> now"
proof -
  let ?d = "observe_all (new_detector idleAfter) obs"
  have "id_idleAfter (observe_all d obs) = id_idleAfter d" for d
    by (induction obs arbitrary: d) (simp_all add: observe_all_def)
  then have after: "id_idleAfter ?d = idleAfter" by (simp add: new_detector_def)
  have "idle_tracked ?d ({} \<union> set (busy_times (new_detector idleAfter) obs))"
    using assms(1) by (intro observe_all_tracked) (auto simp: idle_tracked_def new_detector_def sorted_append)
  moreover obtain a where "\<not> id_parked ?d" "quiet_for ?d now a"
    using transition_one [OF assms(4)] by blast
  ultimately have "u \<le> id_idleSince ?d" "idleAfter \<le> time_sub now (id_idleSince ?d)"
    using assms(5) by (auto simp: idle_tracked_def quiet_for_def after)
  then show ?thesis
    using assms(2,3) by (simp add: time_sub_ge_iff)
qed

definition sleepy :: "time \<Rightarrow> observation" where
  "sleepy t = (t, Some \<lparr>CPUNS = 7000000000, Pageins = 40\<rparr>)"

theorem parks_only_after_sustained_idle_witness:
  "seconds 30 + seconds 120 \<le> seconds 160"
  by (rule parks_only_after_sustained_idle
        [of "[(seconds 15, Some \<lparr>CPUNS = 1000000000, Pageins = 0\<rparr>), sleepy (seconds 30), sleepy (seconds 90)]"
          "seconds 160" "snd (sleepy 0)"]) code_simp+

text \<open>
  Claim C15. The loop and the coordinator agree: after any run of the supervising loop, whatever was sampled
  and whichever durable writes failed, the detector believes the lease parked exactly when the
  coordinator has it parked.
\<close>

theorem park_loop_agrees_with_coordinator:
  "id_parked (pl_Detector (run_loop (new_detector idleAfter) start ticks)) =
     pl_Durable (run_loop (new_detector idleAfter) start ticks)"
  unfolding run_loop_def
  by (intro loop_agrees loop_observe_agrees) (simp add: new_detector_def)

text \<open>
  Parked time is conserved: an observation never changes the parked total of that instant, and
  taking back a failed write on a sampled tick leaves the total of every later instant as it was.
\<close>

theorem parked_time_conserved:
  assumes "id_parkedAt d \<le> now" and "now \<le> later" and "later - id_parkedAt d \<le> max_duration"
    and "snd (observe_idle d now (Some a)) = tr" and "tr = 1 \<or> tr = -1"
  shows "fst (totals (fst (observe_idle d now sample)) now) = fst (totals d now) \<and>
    totals (revert (fst (observe_idle d now (Some a))) tr) later = totals d later"
proof
  show "fst (totals (fst (observe_idle d now sample)) now) = fst (totals d now)"
    by (rule observe_totals)
  have t: "time_sub later (id_parkedAt d) = later - id_parkedAt d"
    "time_sub now (id_parkedAt d) = now - id_parkedAt d" "time_sub later now = later - now"
    using assms(1-3) by (auto intro!: time_sub_exact simp: min_duration_def max_duration_def)
  show "totals (revert (fst (observe_idle d now (Some a))) tr) later = totals d later"
  proof (cases "id_parked d")
    case True
    then have "tr = -1" "id_haveLast d" "0 < time_sub now (id_lastAt d)" "group_awake d now a"
      using assms(4,5) by (auto simp: observe_idle_def observe_sample_transition split: if_splits)
    with True show ?thesis
      by (simp add: observe_idle_def observe_sample_def setParked_def revert_def totals_def Let_def t)
  next
    case False
    then have "tr = 1" "quiet_for d now a"
      using assms(4,5) by (auto simp: observe_idle_def observe_sample_transition split: if_splits)
    with False show ?thesis
      by (simp add: observe_idle_def observe_sample_def setParked_def revert_def totals_def Let_def
          quiet_for_def)
  qed
qed

definition parked_detector :: workIdleDetector where
  "parked_detector =
     observe_all (new_detector (seconds 120)) [sleepy (seconds 15), sleepy (seconds 60), sleepy (seconds 150)]"

theorem parked_time_conserved_witness:
  "fst (totals (fst (observe_idle parked_detector (seconds 165) None)) (seconds 165)) =
     fst (totals parked_detector (seconds 165)) \<and>
   totals (revert (fst (observe_idle parked_detector (seconds 165)
       (Some \<lparr>CPUNS = 20000000000, Pageins = 40\<rparr>))) (-1)) (seconds 200) =
     totals parked_detector (seconds 200)"
  by (rule parked_time_conserved) code_simp+

text \<open>
  A failed wake after a missing sample is counted twice. A lease parked at second 150 and last
  sampled at second 180 misses its sample at second 195, and the write that should unpark it fails.
  It stays parked throughout, so at second 240 it has been parked for 90 seconds, but the
  detector reports 105: taking the move back restarts the parked interval at the last good sample,
  15 seconds before the instant up to which the total was already counted.
\<close>

theorem failed_wake_counts_twice:
  "let d = fst (observe_idle parked_detector (seconds 180) (snd (sleepy 0)));
       missed = observe_idle d (seconds 195) None
   in id_parked d \<and> snd missed = -1 \<and> id_parked (revert (fst missed) (-1)) \<and>
      totals d (seconds 240) = (seconds 90, 1) \<and>
      totals (revert (fst missed) (-1)) (seconds 240) = (seconds 105, 1)"
  by code_simp

end
