(* ===== verification/Step_System.thy ===== *)
theory Step_System
  imports Go_Prelude
begin

text \<open>
  Interleaved runs. A component whose processes interleave is a partial function that executes
  one atomic action on the shared state; a run executes a list of actions, and a guarded run
  also asks a condition of the state in which each action happens. The locale is the interface
  between such a component and its invariants: what every guarded action keeps holds after
  every guarded run.
\<close>

fun run_steps :: "('a \<Rightarrow> 's \<Rightarrow> 's option) \<Rightarrow> 'a list \<Rightarrow> 's \<Rightarrow> 's option" where
  "run_steps step [] s = Some s"
| "run_steps step (a # as) s = (case step a s of None \<Rightarrow> None | Some t \<Rightarrow> run_steps step as t)"

fun guarded_run :: "('a \<Rightarrow> 's \<Rightarrow> 's option) \<Rightarrow> ('a \<Rightarrow> 's \<Rightarrow> bool) \<Rightarrow> 'a list \<Rightarrow> 's \<Rightarrow> bool" where
  "guarded_run step ok [] s \<longleftrightarrow> True"
| "guarded_run step ok (a # as) s \<longleftrightarrow>
     ok a s \<and> (case step a s of None \<Rightarrow> False | Some t \<Rightarrow> guarded_run step ok as t)"

lemma run_steps_append:
  "run_steps step (as @ bs) s = (case run_steps step as s of None \<Rightarrow> None | Some t \<Rightarrow> run_steps step bs t)"
  by (induction as arbitrary: s) (simp_all split: option.split)

locale guarded_steps =
  fixes step :: "'a \<Rightarrow> 's \<Rightarrow> 's option"
    and ok :: "'a \<Rightarrow> 's \<Rightarrow> bool"
    and inv :: "'s \<Rightarrow> bool"
  assumes step_keeps: "inv s \<Longrightarrow> ok a s \<Longrightarrow> step a s = Some t \<Longrightarrow> inv t"
begin

lemma run_keeps:
  "inv s \<Longrightarrow> guarded_run step ok as s \<Longrightarrow> run_steps step as s = Some t \<Longrightarrow> inv t"
  by (induction as arbitrary: s) (auto split: option.splits intro: step_keeps)

end


text \<open>
  A loop that returns an output per iteration and ends on some of them. Several loops leave a
  mark of the last time they did something and do it again only after a pause; the locale says
  once that what such a loop emits is paced_times.
\<close>

fun output_run :: "('i \<Rightarrow> 's \<Rightarrow> 's \<times> 'o) \<Rightarrow> ('o \<Rightarrow> bool) \<Rightarrow> 'i list \<Rightarrow> 's \<Rightarrow> 'o list" where
  "output_run step halts [] s = []"
| "output_run step halts (i # is) s =
     (let (t, out) = step i s in out # (if halts out then [] else output_run step halts is t))"

definition paced_times :: "duration \<Rightarrow> time list \<Rightarrow> bool" where
  "paced_times d ts \<longleftrightarrow> successively (\<lambda>a b. d \<le> time_sub b a) ts"

lemma time_sub_antimono: "u \<le> u' \<Longrightarrow> time_sub t u' \<le> time_sub t u"
  by (auto simp: time_sub_def)

locale paced_steps =
  fixes step :: "'i \<Rightarrow> 's \<Rightarrow> 's \<times> 'o"
    and halts :: "'o \<Rightarrow> bool"
    and ok :: "'i \<Rightarrow> bool"
    and mark :: "'s \<Rightarrow> time"
    and emits :: "'o \<Rightarrow> time list"
    and d :: duration
  assumes paced: "ok i \<Longrightarrow> step i s = (t, out) \<Longrightarrow>
     emits out = [] \<and> mark t = mark s \<or>
     (\<exists>now. emits out = [now] \<and> (IsZero (mark s) \<or> d \<le> time_sub now (mark s)) \<and>
            (halts out \<or> now \<le> mark t \<and> \<not> IsZero (mark t)))"
begin

lemma run_spacing:
  "list_all ok is \<Longrightarrow>
   paced_times d ((if IsZero (mark s) then [] else [mark s]) @ concat (map emits (output_run step halts is s)))"
proof (induction "is" arbitrary: s)
  case Nil
  then show ?case by (simp add: paced_times_def)
next
  case (Cons i "is")
  obtain t out where st: "step i s = (t, out)" by (cases "step i s")
  have ok: "ok i" "list_all ok is" using Cons.prems by simp_all
  have IH: "paced_times d ((if IsZero (mark t) then [] else [mark t]) @ concat (map emits (output_run step halts is t)))"
    by (rule Cons.IH [OF ok(2)])
  from paced [OF ok(1) st] consider
      (quiet) "emits out = []" "mark t = mark s"
    | (loud) now where "emits out = [now]" "IsZero (mark s) \<or> d \<le> time_sub now (mark s)"
        "halts out \<or> now \<le> mark t \<and> \<not> IsZero (mark t)"
    by blast
  then show ?case
  proof cases
    case quiet
    then show ?thesis using IH st by (cases "halts out") (auto simp: paced_times_def)
  next
    case loud
    have "paced_times d ((if IsZero (mark s) then [] else [mark s]) @ now # rest)"
      if "paced_times d (mark t # rest)" "now \<le> mark t" for rest
      using that loud(2) time_sub_antimono [OF that(2)]
      by (cases rest) (auto simp: paced_times_def intro: order_trans)
    then show ?thesis
      using IH st loud by (cases "halts out") (auto simp: paced_times_def)
  qed
qed

end

end
