(* ===== verification/Work_Drain.thy ===== *)
theory Work_Drain
  imports Work_Selector Step_System
begin

text \<open>
  The drain of a protected queue head, over time. \<open>Work_Selector\<close> says what one selection may
  choose; here the polls of the queue, with whatever green windows and whatever express work
  arrives behind the head, interleave with the ends of leases, and the head is shown not to
  starve. Operator promotions and parked leases are outside this run.
\<close>

datatype drain_event = Polls time workGreenExpressWindow "WorkWaiterRecord list" | Ends string

definition rider_lease :: "time \<Rightarrow> WorkWaiterRecord \<Rightarrow> WorkLeaseRecord" where
  "rider_lease now w =
     \<lparr> l_ID = w_OperationID w, l_OperationID = w_OperationID w, l_Class = w_Class w, l_Weight = w_Weight w,
       l_PID = w_PID w, l_OwnerIdentity = w_OwnerIdentity w, l_SupervisorPID = w_PID w,
       l_SupervisorIdentity = w_OwnerIdentity w, l_QueuedAt = w_QueuedAt w, l_StartedAt = now,
       l_OriginKind = [], l_ScheduleID = [], l_ScheduleRunID = [], l_AgentKind = [], l_ParkedAt = None \<rparr>"

definition drain_selection ::
  "WorkWaiterRecord \<Rightarrow> int \<Rightarrow> time \<Rightarrow> workGreenExpressWindow \<Rightarrow> WorkWaiterRecord list \<Rightarrow> WorkLeaseRecord list \<Rightarrow> string"
where
  "drain_selection head capacity now green rest leases =
     SelectedOperationID (selectWorkWaiter (head # rest) (usedWeight leases) capacity now green
       (expressLeasedWeight leases))"

text \<open>One event while the head still waits; a poll that selects the head ends the run.\<close>

fun drain_next :: "WorkWaiterRecord \<Rightarrow> int \<Rightarrow> drain_event \<Rightarrow> WorkLeaseRecord list \<Rightarrow> WorkLeaseRecord list option" where
  "drain_next head capacity (Polls now green rest) leases =
     (let chosen = drain_selection head capacity now green rest leases in
      if chosen = w_OperationID head then None
      else case List.find (\<lambda>w. w_OperationID w = chosen) rest of
             None \<Rightarrow> Some leases
           | Some rider \<Rightarrow> Some (if chosen = [] then leases else leases @ [rider_lease now rider]))"
| "drain_next head capacity (Ends op) leases = Some (filter (\<lambda>l. l_OperationID l \<noteq> op) leases)"

text \<open>The head is protected at every poll, and the queue is one a reconciled document can hold.\<close>

definition drain_ok :: "WorkWaiterRecord \<Rightarrow> int \<Rightarrow> drain_event \<Rightarrow> WorkLeaseRecord list \<Rightarrow> bool" where
  "drain_ok head capacity ev leases =
     (case ev of
        Polls now green rest \<Rightarrow>
          workWaiterProtection head capacity now \<noteq> None \<and> distinct (map w_OperationID (head # rest)) \<and>
          list_all (\<lambda>w. 0 \<le> w_Weight w) rest
      | Ends op \<Rightarrow> True)"

text \<open>The leases taken since the head became protected leave it room.\<close>

definition since_protection :: "string set \<Rightarrow> WorkLeaseRecord list \<Rightarrow> WorkLeaseRecord list" where
  "since_protection old leases = filter (\<lambda>l. l_OperationID l \<notin> old) leases"

definition leaves_room :: "string set \<Rightarrow> WorkWaiterRecord \<Rightarrow> int \<Rightarrow> WorkLeaseRecord list \<Rightarrow> bool" where
  "leaves_room old head capacity leases \<longleftrightarrow>
     (\<forall>l \<in> set leases. 0 \<le> chargedWeight l) \<and>
     (\<forall>l \<in> set (since_protection old leases). IsExpressClass (l_Class l)) \<and>
     usedWeight (since_protection old leases) + w_Weight head \<le> capacity"

lemma used_simps [simp]:
  "usedWeight [] = 0" "usedWeight (l # ls) = chargedWeight l + usedWeight ls"
  "usedWeight (ls @ ls') = usedWeight ls + usedWeight ls'"
  by (simp_all add: usedWeight_def)

lemma used_filter_mono:
  "\<forall>l \<in> set ls. 0 \<le> chargedWeight l \<Longrightarrow> (\<And>l. l \<in> set ls \<Longrightarrow> P l \<Longrightarrow> Q l) \<Longrightarrow>
   usedWeight (filter P ls) \<le> usedWeight (filter Q ls)"
  by (induction ls) (auto simp: add_increasing)

lemma express_filter: "expressLeasedWeight ls = usedWeight (filter (\<lambda>l. IsExpressClass (l_Class l)) ls)"
  by (simp add: expressLeasedWeight_def usedWeight_def)

lemma riders_are_express:
  "leaves_room old head cap ls \<Longrightarrow> usedWeight (since_protection old ls) \<le> expressLeasedWeight ls"
  unfolding express_filter since_protection_def
  by (rule used_filter_mono) (auto simp: leaves_room_def since_protection_def)

lemma drain_rider:
  assumes room: "leaves_room old head cap ls" and ok: "drain_ok head cap (Polls now green rest) ls"
    and rider: "List.find (\<lambda>w. w_OperationID w = drain_selection head cap now green rest ls) rest = Some w"
    and chosen: "drain_selection head cap now green rest ls \<noteq> []"
      "drain_selection head cap now green rest ls \<noteq> w_OperationID head"
  shows "IsExpressClass (w_Class w)" "0 \<le> w_Weight w"
    "expressLeasedWeight ls + w_Weight w + w_Weight head \<le> cap"
proof -
  let ?sel = "drain_selection head cap now green rest ls"
  let ?ws = "take (min (Suc (length rest)) workSelectorScanLimit - 1) rest"
  obtain reason where p: "workWaiterProtection head cap now = Some reason"
    using ok by (auto simp: drain_ok_def)
  have sel: "?sel = SelectedOperationID (selectProtectedHead reason head ?ws (usedWeight ls) cap green (expressLeasedWeight ls))"
    unfolding drain_selection_def selectWorkWaiter_protected [OF p] ..
  obtain r where r: "r \<in> set ?ws" "rides_drain head (max 0 (cap - usedWeight ls)) cap (expressLeasedWeight ls) r"
      "?sel = w_OperationID r"
    using selectProtectedHead_cases [of reason head ?ws "usedWeight ls" cap green "expressLeasedWeight ls"] chosen
    unfolding sel by auto
  have mem: "r \<in> set rest" using r(1) by (meson in_set_takeD)
  have w: "w \<in> set rest" "w_OperationID w = ?sel" using rider by (auto simp: find_Some_iff)
  have "inj_on w_OperationID (set rest)" using ok by (simp add: drain_ok_def distinct_map)
  then have same: "w = r" using mem w r(3) by (metis inj_onD)
  show "IsExpressClass (w_Class w)" "expressLeasedWeight ls + w_Weight w + w_Weight head \<le> cap"
    using r(2) unfolding same by (simp_all add: rides_drain_def)
  show "0 \<le> w_Weight w" using ok w(1) by (simp add: drain_ok_def list_all_iff)
qed

lemma drain_polls:
  assumes "drain_next head cap (Polls now green rest) ls = Some ls'" and "ls' \<noteq> ls"
  shows "\<exists>w. List.find (\<lambda>w. w_OperationID w = drain_selection head cap now green rest ls) rest = Some w \<and>
    drain_selection head cap now green rest ls \<noteq> [] \<and>
    drain_selection head cap now green rest ls \<noteq> w_OperationID head \<and> ls' = ls @ [rider_lease now w]"
proof (cases "List.find (\<lambda>w. w_OperationID w = drain_selection head cap now green rest ls) rest")
  case None
  then show ?thesis using assms by (simp add: Let_def split: if_splits)
next
  case (Some w)
  then show ?thesis using assms by (simp add: Let_def split: if_splits)
qed

lemma drain_keeps_room:
  assumes room: "leaves_room old head cap ls" and ok: "drain_ok head cap ev ls" and step: "drain_next head cap ev ls = Some ls'"
  shows "leaves_room old head cap ls'"
proof (cases ev)
  case (Polls now green rest)
  show ?thesis
  proof (cases "ls' = ls")
    case False
    then obtain w where w: "List.find (\<lambda>w. w_OperationID w = drain_selection head cap now green rest ls) rest = Some w"
        "drain_selection head cap now green rest ls \<noteq> []"
        "drain_selection head cap now green rest ls \<noteq> w_OperationID head" "ls' = ls @ [rider_lease now w]"
      using drain_polls [of head cap now green rest ls ls'] step Polls False by blast
    note rider = drain_rider [OF room ok [unfolded Polls] w(1-3)]
    show ?thesis
      using room rider riders_are_express [OF room] unfolding w(4) leaves_room_def
      by (auto simp: since_protection_def rider_lease_def chargedWeight_def)
  qed (use room in simp)
next
  case (Ends op)
  then have ls': "ls' = filter (\<lambda>l. l_OperationID l \<noteq> op) ls" using step by simp
  have same: "since_protection old ls' = filter (\<lambda>l. l_OperationID l \<noteq> op) (since_protection old ls)"
    by (simp add: ls' since_protection_def conj_commute)
  have "usedWeight (filter (\<lambda>l. l_OperationID l \<noteq> op) (since_protection old ls)) \<le> usedWeight (filter (\<lambda>l. True) (since_protection old ls))"
    by (rule used_filter_mono) (use room in \<open>auto simp: leaves_room_def since_protection_def\<close>)
  then show ?thesis using room unfolding leaves_room_def same by (auto simp: ls')
qed

interpretation drain: guarded_steps "drain_next head cap" "drain_ok head cap" "leaves_room old head cap"
  by unfold_locales (rule drain_keeps_room)

definition drain_events :: "drain_event list" where
  "drain_events =
     [Polls 10 \<lparr> g_Active = True, g_Overcommit = 2 \<rparr> [sample_waiter ''x'' WorkClassExpressTest 1 3],
      Polls 11 \<lparr> g_Active = True, g_Overcommit = 2 \<rparr> [sample_waiter ''y'' WorkClassExpressTest 2 4],
      Ends ''old'']"

text \<open>
  Claim C9. A protected head never starves: take any interleaving of queue polls and ends of leases
  from the moment the head is protected, with any stream of express work arriving behind it and
  any green windows. Unless the head has been admitted on the way, it is the waiter that is
  selected as soon as the leases that were held at that moment have ended, whatever express
  riders the drain has let past and are still running.
\<close>

theorem protected_head_never_starves:
  assumes "w_Weight head \<le> capacity" and "list_all (\<lambda>l. 0 \<le> chargedWeight l) held"
    and "guarded_run (drain_next head capacity) (drain_ok head capacity) events held"
    and "run_steps (drain_next head capacity) events held = Some leases"
    and "l_OperationID ` set leases \<inter> l_OperationID ` set held = {}"
    and "workWaiterProtection head capacity now = Some reason"
  shows "SelectedOperationID (selectWorkWaiter (head # rest) (usedWeight leases) capacity now green
           (expressLeasedWeight leases)) = w_OperationID head"
proof -
  let ?old = "l_OperationID ` set held"
  have "since_protection ?old held = []" by (simp add: since_protection_def filter_empty_conv)
  then have "leaves_room ?old head capacity held"
    using assms(1,2) by (simp add: leaves_room_def list_all_iff)
  then have "leaves_room ?old head capacity leases"
    using drain.run_keeps [OF _ assms(3,4)] by blast
  moreover have "since_protection ?old leases = leases"
    using assms(5) by (auto simp: since_protection_def filter_id_conv)
  ultimately have "w_Weight head \<le> max 0 (capacity - usedWeight leases)"
    by (auto simp: leaves_room_def le_max_iff_disj)
  then show ?thesis
    by (simp add: selectWorkWaiter_protected [OF assms(6)] selectProtectedHead_def Let_def)
qed

theorem protected_head_never_starves_witness:
  "let head = (sample_waiter ''h'' WorkClassHeavy 5 1)\<lparr> w_BypassCount := 4 \<rparr>;
       held = [rider_lease 2 (sample_waiter ''old'' WorkClassBuild 4 1)]
   in case run_steps (drain_next head 8) drain_events held of
        None \<Rightarrow> False
      | Some leases \<Rightarrow> map l_OperationID leases = [''x'', ''y''] \<and> usedWeight leases = 3 \<and>
          SelectedOperationID (selectWorkWaiter [head] (usedWeight leases) 8 12 no_green (expressLeasedWeight leases)) = ''h''"
proof -
  let ?head = "(sample_waiter ''h'' WorkClassHeavy 5 1)\<lparr> w_BypassCount := 4 \<rparr>"
  let ?held = "[rider_lease 2 (sample_waiter ''old'' WorkClassBuild 4 1)]"
  let ?left = "[rider_lease 10 (sample_waiter ''x'' WorkClassExpressTest 1 3),
      rider_lease 11 (sample_waiter ''y'' WorkClassExpressTest 2 4)]"
  note eval = drain_events_def drain_selection_def drain_ok_def rider_lease_def chargedWeight_def
    express_filter selector_eval
  have guard: "guarded_run (drain_next ?head 8) (drain_ok ?head 8) drain_events ?held"
    by (simp add: eval)
  have run: "run_steps (drain_next ?head 8) drain_events ?held = Some ?left"
    by (simp add: eval)
  have held: "list_all (\<lambda>l. 0 \<le> chargedWeight l) ?held" and gone: "l_OperationID ` set ?left \<inter> l_OperationID ` set ?held = {}"
    by (simp_all add: eval)
  have p: "workWaiterProtection ?head 8 12 = Some ''bypass_limit''" by (simp add: selector_eval)
  have "w_Weight ?head \<le> 8" by (simp add: selector_eval)
  from protected_head_never_starves [OF this held guard run gone p, of "[]" no_green] run
  show ?thesis by (simp add: Let_def eval)
qed

end
