(* ===== verification/Work_Measures.thy ===== *)
theory Work_Measures
  imports Work_Limits
begin

text \<open>
  The statistics of the ledger reports (\<^verbatim>\<open>sessionpressure/workevent.go\<close> and
  \<^verbatim>\<open>sessionpressure/workleasecpu.go\<close>): averages, nearest-rank percentiles and maxima of durations
  and ratios, and the bounded slowdown. A \<^verbatim>\<open>float64\<close> is a rational number.
\<close>

record WorkDurationStats =
  ds_AverageMS :: int
  ds_P95MS :: int
  ds_MaximumMS :: int

record WorkRatioStats =
  rt_Average :: rat
  rt_P95 :: rat
  rt_Maximum :: rat

text \<open>The index of the 95th percentile, \<^verbatim>\<open>(len*95+99)/100 - 1\<close>.\<close>

definition p95_index :: "nat \<Rightarrow> nat" where
  "p95_index n = (n * 95 + 99) div 100 - 1"

definition durationStats :: "int list \<Rightarrow> WorkDurationStats" where
  "durationStats values =
     (if values = [] then \<lparr> ds_AverageMS = 0, ds_P95MS = 0, ds_MaximumMS = 0 \<rparr>
      else let ordered = sort values in
        \<lparr> ds_AverageMS = go_div (sum_list ordered) (int (length ordered)),
          ds_P95MS = ordered ! p95_index (length ordered),
          ds_MaximumMS = ordered ! (length ordered - 1) \<rparr>)"

definition ratioStats :: "rat list \<Rightarrow> WorkRatioStats" where
  "ratioStats values =
     (if values = [] then \<lparr> rt_Average = 0, rt_P95 = 0, rt_Maximum = 0 \<rparr>
      else let ordered = sort values in
        \<lparr> rt_Average = sum_list ordered / of_nat (length ordered),
          rt_P95 = ordered ! p95_index (length ordered),
          rt_Maximum = ordered ! (length ordered - 1) \<rparr>)"

definition workBoundedSlowdown :: "int \<Rightarrow> int \<Rightarrow> rat" where
  "workBoundedSlowdown waitMS runtimeMS =
     (if runtimeMS \<le> 0 then 0 else of_int (waitMS + runtimeMS) / of_int (max runtimeMS 10000))"

definition percentileOf :: "rat list \<Rightarrow> rat \<Rightarrow> rat" where
  "percentileOf values quantile =
     (if values = [] then 0
      else let ordered = sort values; rank = \<lceil>quantile * of_nat (length ordered)\<rceil> - 1
           in ordered ! nat (min (max rank 0) (int (length ordered) - 1)))"


section \<open>Nearest-rank percentiles\<close>

text \<open>
  The value at position \<open>k\<close> of the sorted list is the least one with more than \<open>k\<close> values at or
  below it, so a percentile is one of the values and splits them at its rank.
\<close>

lemma sorted_nth_count:
  assumes "k < length xs"
  shows "Suc k \<le> length (filter (\<lambda>x. x \<le> sort xs ! k) xs)"
    and "length (filter (\<lambda>x. x < sort xs ! k) xs) \<le> k"
proof -
  let ?ys = "sort xs"
  have k: "k < length ?ys" using assms by simp
  have same: "length (filter P xs) = length (filter P ?ys)" for P
    by (metis mset_filter mset_sort size_mset)
  have "set (take (Suc k) ?ys) \<subseteq> {x. x \<le> ?ys ! k}"
    using k by (auto simp: in_set_conv_nth intro!: sorted_nth_mono)
  then have "filter (\<lambda>x. x \<le> ?ys ! k) (take (Suc k) ?ys) = take (Suc k) ?ys"
    by (auto simp: filter_id_conv)
  moreover have "length (filter P (take n ?ys)) \<le> length (filter P ?ys)" for P n
    by (metis append_take_drop_id filter_append le_add1 length_append)
  ultimately show "Suc k \<le> length (filter (\<lambda>x. x \<le> ?ys ! k) xs)"
    using k same [of "\<lambda>x. x \<le> ?ys ! k"] by (metis Suc_leI length_take min.absorb2)
  have "\<forall>x \<in> set (drop k ?ys). ?ys ! k \<le> x"
    using k by (auto simp: in_set_conv_nth intro!: sorted_nth_mono)
  then have "filter (\<lambda>x. x < ?ys ! k) (drop k ?ys) = []"
    by (auto simp: filter_empty_conv)
  then have "filter (\<lambda>x. x < ?ys ! k) ?ys = filter (\<lambda>x. x < ?ys ! k) (take k ?ys)"
    by (metis append_Nil2 append_take_drop_id filter_append)
  also have "length \<dots> \<le> k"
    by (metis length_filter_le length_take min.cobounded2 order_trans)
  finally show "length (filter (\<lambda>x. x < ?ys ! k) xs) \<le> k"
    by (simp add: same)
qed

lemma p95_index_less: "0 < n \<Longrightarrow> p95_index n < n"
  by (simp add: p95_index_def)

lemma sort_nth_member: "k < length xs \<Longrightarrow> sort xs ! k \<in> set xs"
  by (metis length_sort nth_mem set_sort)

lemma p95_rank_above: "95 * n \<le> 100 * Suc (p95_index n)"
proof -
  have "95 * n \<le> 100 * ((n * 95 + 99) div 100)"
    using div_mult_mod_eq [of "n * 95 + 99" 100] mod_less_divisor [of 100 "n * 95 + 99"] by linarith
  then show ?thesis by (simp add: p95_index_def)
qed

lemma p95_rank_below: "0 < n \<Longrightarrow> 100 * p95_index n < 95 * n"
  unfolding p95_index_def by linarith

lemma sum_list_sort: "sum_list (sort xs) = sum_list xs"
  for xs :: "'a :: {linorder, comm_monoid_add} list"
  by (metis mset_sort sum_mset_sum_list)


section \<open>Properties of the statistics\<close>

text \<open>
  The reported 95th percentile of a non-empty population is one of its values, at least 95 percent
  of the values are at or below it and fewer than 95 percent are strictly below it; the reported
  maximum is the largest value and bounds it.
\<close>

theorem p95_is_nearest_rank:
  assumes "vs \<noteq> []"
  shows "rt_P95 (ratioStats vs) \<in> set vs \<and>
    95 * length vs \<le> 100 * length (filter (\<lambda>v. v \<le> rt_P95 (ratioStats vs)) vs) \<and>
    100 * length (filter (\<lambda>v. v < rt_P95 (ratioStats vs)) vs) < 95 * length vs \<and>
    rt_Maximum (ratioStats vs) = Max (set vs) \<and>
    rt_P95 (ratioStats vs) \<le> rt_Maximum (ratioStats vs)"
proof -
  let ?n = "length vs"
  have n: "0 < ?n" using assms by simp
  have p: "rt_P95 (ratioStats vs) = sort vs ! p95_index ?n"
    and m: "rt_Maximum (ratioStats vs) = sort vs ! (?n - 1)"
    using assms by (simp_all add: ratioStats_def Let_def)
  have "sort vs ! (?n - 1) = Max (set vs)"
  proof (rule Max_eqI [symmetric])
    fix y assume "y \<in> set vs"
    then obtain i where "i < ?n" "y = sort vs ! i"
      by (metis in_set_conv_nth length_sort set_sort)
    then show "y \<le> sort vs ! (?n - 1)" by (auto intro!: sorted_nth_mono)
  qed (use n sort_nth_member [of "?n - 1" vs] in auto)
  then show ?thesis
    using sorted_nth_count [OF p95_index_less [OF n]] p95_rank_above [of ?n] p95_rank_below [OF n]
      sort_nth_member [OF p95_index_less [OF n]] by (auto simp: p m)
qed

theorem p95_is_nearest_rank_witness:
  "rt_P95 (ratioStats [1, 3, 2]) \<in> set [1, 3, 2] \<and>
    95 * length [1, 3, 2 :: rat] \<le> 100 * length (filter (\<lambda>v. v \<le> rt_P95 (ratioStats [1, 3, 2])) [1, 3, 2]) \<and>
    100 * length (filter (\<lambda>v. v < rt_P95 (ratioStats [1, 3, 2])) [1, 3, 2]) < 95 * length [1, 3, 2 :: rat] \<and>
    rt_Maximum (ratioStats [1, 3, 2]) = Max (set [1, 3, 2]) \<and>
    rt_P95 (ratioStats [1, 3, 2]) \<le> rt_Maximum (ratioStats [1, 3, 2])"
  by (rule p95_is_nearest_rank) simp

end
