(* ===== verification/Work_Replay.thy ===== *)
theory Work_Replay
  imports Work_Selector Work_Event Work_Measures
begin

text \<open>
  The scheduling replay (\<^verbatim>\<open>sessionpressure/workreplay.go\<close>): a ledger is turned into jobs with arrival
  times, weights and measured runtimes, and a simulated host runs them under three queue policies.
  The candidate policy calls the same selector as the live coordinator. The simulation loop is a
  \<open>partial_function\<close>, so that returning is a value; that it always returns is proved below. The map
  of waits per class is a function from classes to lists.
\<close>

record WorkReplayClassMetrics =
  cm_Class :: WorkClass
  cm_Count :: nat
  cm_WaitP95MS :: int

record WorkReplayPolicyMetrics =
  pm_Policy :: string
  pm_Operations :: nat
  pm_ContentionDecisions :: nat
  pm_ShortRuntimeLongWait :: nat
  pm_MaximumBypasses :: int
  pm_CapacityViolations :: nat
  pm_ProtectedBypassViolations :: nat
  pm_ByClass :: "WorkReplayClassMetrics list"

record replayJob =
  j_id :: string
  j_class :: WorkClass
  j_weight :: int
  j_queuedAt :: time
  j_runtime :: duration
  j_bypasses :: int
  j_lastBypassedAt :: "time option"
  j_protectedAt :: "time option"

record replayRunning =
  r_job :: replayJob
  r_finishAt :: time

datatype replayPolicyMode = replayPolicyFIFO | replayPolicyCandidate | replayPolicyFeasibleFloor


section \<open>One decision\<close>

definition replay_waiter :: "replayJob \<Rightarrow> WorkWaiterRecord" where
  "replay_waiter job =
     \<lparr> w_OperationID = j_id job, w_Class = j_class job, w_Weight = j_weight job, w_PID = 0,
       w_OwnerIdentity = [], w_QueuedAt = j_queuedAt job, w_HeartbeatAt = 0, w_OriginKind = [],
       w_ScheduleID = [], w_ScheduleRunID = [], w_AgentKind = [], w_BypassCount = j_bypasses job,
       w_LastBypassedAt = j_lastBypassedAt job, w_ProtectedAt = j_protectedAt job,
       w_ReservationKind = [], w_ReservedAt = None \<rparr>"

fun first_index :: "('a \<Rightarrow> bool) \<Rightarrow> 'a list \<Rightarrow> nat option" where
  "first_index P [] = None"
| "first_index P (x # xs) = (if P x then Some 0 else map_option Suc (first_index P xs))"

definition charge_replay_bypass :: "time \<Rightarrow> replayJob \<Rightarrow> replayJob" where
  "charge_replay_bypass now job =
     (let job = job\<lparr> j_bypasses := j_bypasses job + 1 \<rparr>;
          job = (if j_lastBypassedAt job = None then job\<lparr> j_lastBypassedAt := Some now \<rparr> else job)
      in if j_bypasses job \<ge> workMaximumBypasses then job\<lparr> j_protectedAt := Some now \<rparr> else job)"

fun charge_replay_bypasses ::
  "WorkWaiterRecord list \<Rightarrow> int \<Rightarrow> time \<Rightarrow> nat list \<Rightarrow> replayJob list \<times> WorkReplayPolicyMetrics
     \<Rightarrow> replayJob list \<times> WorkReplayPolicyMetrics"
where
  "charge_replay_bypasses waiters capacity now [] qm = qm"
| "charge_replay_bypasses waiters capacity now (i # is) (queue, m) =
     (let m = (if workWaiterProtection (waiters ! i) capacity now \<noteq> None
               then m\<lparr> pm_ProtectedBypassViolations := pm_ProtectedBypassViolations m + 1 \<rparr> else m);
          job = charge_replay_bypass now (queue ! i)
      in charge_replay_bypasses waiters capacity now is
           (queue[i := job], m\<lparr> pm_MaximumBypasses := max (pm_MaximumBypasses m) (j_bypasses job) \<rparr>))"

definition contend :: "WorkReplayPolicyMetrics \<Rightarrow> WorkReplayPolicyMetrics" where
  "contend m = m\<lparr> pm_ContentionDecisions := pm_ContentionDecisions m + 1 \<rparr>"

definition select_candidate ::
  "int \<Rightarrow> time \<Rightarrow> int \<Rightarrow> replayJob list \<Rightarrow> WorkReplayPolicyMetrics
     \<Rightarrow> nat option \<times> replayJob list \<times> WorkReplayPolicyMetrics"
where
  "select_candidate capacity now used queue m =
     (let waiters = map replay_waiter queue;
          decision = selectWorkWaiter waiters used capacity now no_green 0;
          selected = first_index (\<lambda>job. j_id job = SelectedOperationID decision) queue
      in case selected of
           Some (Suc i) \<Rightarrow>
             (selected, charge_replay_bypasses waiters capacity now (BypassedIndexes decision)
                          (queue, contend m))
         | _ \<Rightarrow> (selected, queue, m))"

definition select_floor ::
  "int \<Rightarrow> int \<Rightarrow> replayJob list \<Rightarrow> WorkReplayPolicyMetrics
     \<Rightarrow> nat option \<times> replayJob list \<times> WorkReplayPolicyMetrics"
where
  "select_floor capacity used queue m =
     (let selected = first_index (\<lambda>job. j_weight job + used \<le> capacity) (take workSelectorScanLimit queue)
      in (selected, queue, case selected of Some (Suc i) \<Rightarrow> contend m | _ \<Rightarrow> m))"

definition select_fifo ::
  "int \<Rightarrow> int \<Rightarrow> replayJob list \<Rightarrow> WorkReplayPolicyMetrics
     \<Rightarrow> nat option \<times> replayJob list \<times> WorkReplayPolicyMetrics"
where
  "select_fifo capacity used queue m =
     (if j_weight (hd queue) + used \<le> capacity then Some 0 else None, queue, m)"

definition select_replay ::
  "replayPolicyMode \<Rightarrow> int \<Rightarrow> time \<Rightarrow> int \<Rightarrow> replayJob list \<Rightarrow> WorkReplayPolicyMetrics
     \<Rightarrow> nat option \<times> replayJob list \<times> WorkReplayPolicyMetrics"
where
  "select_replay mode capacity now used queue m =
     (case mode of
        replayPolicyCandidate \<Rightarrow> select_candidate capacity now used queue m
      | replayPolicyFeasibleFloor \<Rightarrow> select_floor capacity used queue m
      | replayPolicyFIFO \<Rightarrow> select_fifo capacity used queue m)"


section \<open>The simulated host\<close>

record replay_state =
  s_left :: "replayJob list"
  s_queue :: "replayJob list"
  s_running :: "replayRunning list"
  s_waits :: "WorkClass \<Rightarrow> int list"
  s_now :: time
  s_metrics :: WorkReplayPolicyMetrics

definition replay_used :: "replay_state \<Rightarrow> int" where
  "replay_used s = sum_list (map (\<lambda>r. j_weight (r_job r)) (s_running s))"

definition start_job :: "replayJob \<Rightarrow> replay_state \<Rightarrow> replay_state" where
  "start_job job s =
     (let waitMS = max 0 (go_div (time_sub (s_now s) (j_queuedAt job)) 1000000);
          m = s_metrics s;
          m = (if waitMS \<ge> 60000 \<and> j_runtime job \<le> seconds 10
               then m\<lparr> pm_ShortRuntimeLongWait := pm_ShortRuntimeLongWait m + 1 \<rparr> else m)
      in s\<lparr> s_waits := (s_waits s)(j_class job := s_waits s (j_class job) @ [waitMS]),
            s_running := s_running s @ [\<lparr> r_job = job, r_finishAt = s_now s + j_runtime job \<rparr>],
            s_metrics := m \<rparr>)"

definition drop_index :: "nat \<Rightarrow> 'a list \<Rightarrow> 'a list" where
  "drop_index i xs = take i xs @ drop (Suc i) xs"

lemma length_drop_index: "i < length xs \<Longrightarrow> length (drop_index i xs) = length xs - 1"
  by (simp add: drop_index_def)

text \<open>
  Admission at one instant. An admission removes one job from the queue, so the loop is bounded by
  the length of the queue; \<open>n\<close> is that length and never runs out.
\<close>

fun admit_replay :: "nat \<Rightarrow> replayPolicyMode \<Rightarrow> int \<Rightarrow> replay_state \<Rightarrow> replay_state" where
  "admit_replay 0 mode capacity s = s"
| "admit_replay (Suc n) mode capacity s =
     (if s_queue s = [] then s
      else case select_replay mode capacity (s_now s) (replay_used s) (s_queue s) (s_metrics s) of
        (None, queue, m) \<Rightarrow>
          s\<lparr> s_queue := queue, s_metrics := (if s_running s \<noteq> [] then contend m else m) \<rparr>
      | (Some i, queue, m) \<Rightarrow>
          (let job = queue ! i; s = s\<lparr> s_queue := queue, s_metrics := m \<rparr> in
           if replay_used s + j_weight job > capacity
           then s\<lparr> s_metrics := m\<lparr> pm_CapacityViolations := pm_CapacityViolations m + 1 \<rparr> \<rparr>
           else admit_replay n mode capacity (start_job job (s\<lparr> s_queue := drop_index i queue \<rparr>))))"

definition replay_round :: "replayPolicyMode \<Rightarrow> int \<Rightarrow> replay_state \<Rightarrow> replay_state" where
  "replay_round mode capacity s =
     (let arrived = takeWhile (\<lambda>job. j_queuedAt job \<le> s_now s) (s_left s);
          queue = s_queue s @ arrived
      in admit_replay (length queue) mode capacity
           (s\<lparr> s_running := filter (\<lambda>r. r_finishAt r > s_now s) (s_running s),
               s_queue := queue, s_left := drop (length arrived) (s_left s) \<rparr>))"

fun earliest :: "time \<Rightarrow> replayRunning list \<Rightarrow> time" where
  "earliest advance [] = advance"
| "earliest advance (r # rs) =
     earliest (if IsZero advance \<or> r_finishAt r < advance then r_finishAt r else advance) rs"

definition next_instant :: "replay_state \<Rightarrow> time" where
  "next_instant s =
     (let advance = earliest (case s_left s of [] \<Rightarrow> 0 | job # _ \<Rightarrow> j_queuedAt job) (s_running s)
      in if advance > s_now s then advance else s_now s + milliseconds 1)"

partial_function (option) replay_loop ::
  "replayPolicyMode \<Rightarrow> int \<Rightarrow> replay_state \<Rightarrow> replay_state option"
where
  "replay_loop mode capacity s =
     (if s_left s = [] \<and> s_queue s = [] \<and> s_running s = [] then Some s
      else let s = replay_round mode capacity s in
        if s_left s = [] \<and> s_running s = [] then Some s
        else replay_loop mode capacity (s\<lparr> s_now := next_instant s \<rparr>))"

declare replay_loop.simps [code]

definition policy_name :: "replayPolicyMode \<Rightarrow> string" where
  "policy_name mode =
     (case mode of
        replayPolicyCandidate \<Rightarrow> WorkSchedulingPolicy
      | replayPolicyFeasibleFloor \<Rightarrow> ''oldest-feasible-floor''
      | replayPolicyFIFO \<Rightarrow> WorkSchedulingPolicyFIFO)"

definition empty_metrics :: "string \<Rightarrow> nat \<Rightarrow> WorkReplayPolicyMetrics" where
  "empty_metrics policy operations =
     \<lparr> pm_Policy = policy, pm_Operations = operations, pm_ContentionDecisions = 0,
       pm_ShortRuntimeLongWait = 0, pm_MaximumBypasses = 0, pm_CapacityViolations = 0,
       pm_ProtectedBypassViolations = 0, pm_ByClass = [] \<rparr>"

definition replay_classes :: "WorkClass list" where
  "replay_classes = [WorkClassTest, WorkClassBuild, WorkClassBrowser, WorkClassEmulator, WorkClassHeavy,
     WorkClassBenchmark]"

definition class_metrics :: "(WorkClass \<Rightarrow> int list) \<Rightarrow> WorkReplayClassMetrics list" where
  "class_metrics waits =
     map (\<lambda>class. \<lparr> cm_Class = class, cm_Count = length (waits class),
                    cm_WaitP95MS = ds_P95MS (durationStats (waits class)) \<rparr>) replay_classes"

definition replay_start :: "replayPolicyMode \<Rightarrow> replayJob list \<Rightarrow> replay_state" where
  "replay_start mode jobs =
     \<lparr> s_left = jobs, s_queue = [], s_running = [], s_waits = (\<lambda>_. []), s_now = j_queuedAt (hd jobs),
       s_metrics = empty_metrics (policy_name mode) (length jobs) \<rparr>"

definition replayPolicy ::
  "replayJob list \<Rightarrow> int \<Rightarrow> replayPolicyMode \<Rightarrow> WorkReplayPolicyMetrics option" where
  "replayPolicy jobs capacity mode =
     (if jobs = [] then Some (empty_metrics (policy_name mode) 0)
      else map_option (\<lambda>s. (s_metrics s)\<lparr> pm_ByClass := class_metrics (s_waits s) \<rparr>)
             (replay_loop mode capacity (replay_start mode jobs)))"


section \<open>The comparison of a ledger\<close>

record traceJob =
  t_job :: replayJob
  t_terminal :: bool
  t_terminalEvent :: "WorkEventType option"

definition new_trace :: "int \<Rightarrow> WorkLimits \<Rightarrow> WorkEvent \<Rightarrow> traceJob" where
  "new_trace ncpu limits e =
     \<lparr> t_job = \<lparr> j_id = ev_OperationID e, j_class = ev_Class e,
                 j_weight = (case Weight ncpu limits (ev_Class e) of None \<Rightarrow> 0 | Some w \<Rightarrow> w),
                 j_queuedAt = 0, j_runtime = 0, j_bypasses = 0, j_lastBypassedAt = None,
                 j_protectedAt = None \<rparr>,
       t_terminal = False, t_terminalEvent = None \<rparr>"

definition trace_queued :: "WorkEvent \<Rightarrow> traceJob \<Rightarrow> traceJob" where
  "trace_queued e t =
     (if ev_Event e = WorkEventQueued \<and>
         (IsZero (j_queuedAt (t_job t)) \<or> ev_Timestamp e < j_queuedAt (t_job t))
      then t\<lparr> t_job := (t_job t)\<lparr> j_queuedAt := ev_Timestamp e \<rparr> \<rparr> else t)"

definition trace_terminal :: "WorkEvent \<Rightarrow> traceJob \<Rightarrow> traceJob" where
  "trace_terminal e t =
     (if isWorkTerminalEvent (ev_Event e) \<and>
         (\<not> t_terminal t \<or> t_terminalEvent t = Some WorkEventExpired \<and> ev_Event e \<noteq> WorkEventExpired)
      then t\<lparr> t_terminal := True, t_terminalEvent := Some (ev_Event e),
              t_job := (t_job t)\<lparr> j_runtime := milliseconds (eq_RuntimeMillis (ev_Queue e)) \<rparr> \<rparr>
      else t)"

definition trace_event :: "int \<Rightarrow> WorkLimits \<Rightarrow> WorkEvent \<Rightarrow> traceJob list \<Rightarrow> traceJob list" where
  "trace_event ncpu limits e ts =
     (let ts = (if ev_OperationID e \<in> (\<lambda>t. j_id (t_job t)) ` set ts then ts
                else ts @ [new_trace ncpu limits e])
      in map (\<lambda>t. if j_id (t_job t) = ev_OperationID e then trace_terminal e (trace_queued e t) else t) ts)"

definition replayable :: "int \<Rightarrow> traceJob \<Rightarrow> bool" where
  "replayable capacity t \<longleftrightarrow>
     \<not> (\<not> t_terminal t \<or> t_terminalEvent t = Some WorkEventExpired \<or> j_runtime (t_job t) \<le> 0 \<or>
        IsZero (j_queuedAt (t_job t)) \<or> j_weight (t_job t) < 1 \<or> capacity < j_weight (t_job t))"

definition trace_jobs :: "int \<Rightarrow> WorkLimits \<Rightarrow> WorkEvent list \<Rightarrow> replayJob list" where
  "trace_jobs ncpu limits events =
     map t_job (filter (replayable (Capacity limits)) (fold (trace_event ncpu limits) events []))"

definition trace_start :: "replayJob list \<Rightarrow> time" where
  "trace_start jobs =
     fold (\<lambda>job t. if IsZero t \<or> j_queuedAt job < t then j_queuedAt job else t) jobs 0"

definition trace_end :: "replayJob list \<Rightarrow> time" where
  "trace_end jobs =
     fold (\<lambda>job t. if j_queuedAt job + j_runtime job > t then j_queuedAt job + j_runtime job else t) jobs 0"

definition reweightReplayJobs :: "int \<Rightarrow> WorkLimits \<Rightarrow> replayJob list \<Rightarrow> replayJob list" where
  "reweightReplayJobs ncpu limits jobs =
     map (\<lambda>job. case Weight ncpu limits (j_class job) of
                   None \<Rightarrow> job | Some w \<Rightarrow> job\<lparr> j_weight := w \<rparr>) jobs"

definition closesReplayGap :: "int \<Rightarrow> int \<Rightarrow> int \<Rightarrow> int \<Rightarrow> bool" where
  "closesReplayGap baseline candidate lowest requiredPercent =
     (let avoidable = baseline - lowest in
      if baseline \<le> 0 \<or> avoidable \<le> 0 then candidate \<le> baseline
      else let closed = baseline - candidate in closed > 0 \<and> closed * 100 \<ge> avoidable * requiredPercent)"

text \<open>\<^verbatim>\<open>replayClassMap\<close>: a class that has no row reads as the zero row; a later row replaces an earlier one.\<close>

definition replayClassMap :: "WorkReplayClassMetrics list \<Rightarrow> WorkClass \<Rightarrow> WorkReplayClassMetrics" where
  "replayClassMap rows class =
     (case find (\<lambda>row. cm_Class row = class) (rev rows) of
        None \<Rightarrow> \<lparr> cm_Class = UnknownClass [], cm_Count = 0, cm_WaitP95MS = 0 \<rparr> | Some row \<Rightarrow> row)"

record WorkSelectorBenchmark =
  sb_Iterations :: int
  sb_QueueDepth :: int
  sb_P95Microseconds :: int
  sb_MaxMicroseconds :: int
  sb_BudgetMicroseconds :: int
  sb_Pass :: bool

record WorkReplayComparison =
  rc_SchemaVersion :: int
  rc_TraceStart :: time
  rc_TraceEnd :: time
  rc_FIFO :: WorkReplayPolicyMetrics
  rc_Candidate :: WorkReplayPolicyMetrics
  rc_LegacyCalibration :: WorkReplayPolicyMetrics
  rc_FeasibleFloor :: WorkReplayPolicyMetrics
  rc_MinimumSampleMet :: bool
  rc_RegressionSamplesRequired :: nat
  rc_RegressionEvaluatedSamples :: "(WorkClass \<times> nat) list"
  rc_RegressionClassesDeferred :: "WorkReplayClassMetrics list"
  rc_SafetyGatesPass :: bool
  rc_PerformanceGatesPass :: bool
  rc_CalibrationGatesPass :: bool
  rc_SelectorGatePass :: bool
  rc_SelectorBenchmark :: WorkSelectorBenchmark
  rc_PromotionReady :: bool
  rc_ReviewSignals :: "string list"

definition WorkReplayMinimumRegressionSamples :: nat where
  "WorkReplayMinimumRegressionSamples = 20"

definition safety_gates :: "WorkReplayPolicyMetrics \<Rightarrow> bool" where
  "safety_gates candidate \<longleftrightarrow> pm_CapacityViolations candidate = 0 \<and>
     pm_ProtectedBypassViolations candidate = 0 \<and> pm_MaximumBypasses candidate \<le> workMaximumBypasses"

definition regression_rows :: "WorkReplayPolicyMetrics \<Rightarrow> WorkReplayClassMetrics list" where
  "regression_rows candidate =
     filter (\<lambda>row. cm_Count row \<noteq> 0) (map (replayClassMap (pm_ByClass candidate)) replay_classes)"

definition performance_gates ::
  "WorkReplayPolicyMetrics \<Rightarrow> WorkReplayPolicyMetrics \<Rightarrow> WorkReplayPolicyMetrics \<Rightarrow> bool" where
  "performance_gates fifo candidate lowest \<longleftrightarrow>
     list_all (\<lambda>class. closesReplayGap (cm_WaitP95MS (replayClassMap (pm_ByClass fifo) class))
         (cm_WaitP95MS (replayClassMap (pm_ByClass candidate) class))
         (cm_WaitP95MS (replayClassMap (pm_ByClass lowest) class)) 25) [WorkClassTest, WorkClassBrowser] \<and>
     list_all (\<lambda>class. let row = replayClassMap (pm_ByClass candidate) class;
           baseline = cm_WaitP95MS (replayClassMap (pm_ByClass fifo) class) in
         cm_Count row < WorkReplayMinimumRegressionSamples \<or> baseline \<le> 0 \<or>
         cm_WaitP95MS row * 100 \<le> baseline * 120) replay_classes \<and>
     closesReplayGap (int (pm_ShortRuntimeLongWait fifo)) (int (pm_ShortRuntimeLongWait candidate))
       (int (pm_ShortRuntimeLongWait lowest)) 50"

definition calibration_gates :: "WorkReplayPolicyMetrics \<Rightarrow> WorkReplayPolicyMetrics \<Rightarrow> bool" where
  "calibration_gates candidate legacy \<longleftrightarrow>
     (let legacyBuild = replayClassMap (pm_ByClass legacy) WorkClassBuild;
          candidateBuild = replayClassMap (pm_ByClass candidate) WorkClassBuild in
      cm_Count legacyBuild = 0 \<or>
      cm_WaitP95MS candidateBuild \<le> cm_WaitP95MS legacyBuild \<and>
      pm_ShortRuntimeLongWait candidate \<le> pm_ShortRuntimeLongWait legacy)"

definition compare_replays ::
  "replayJob list \<Rightarrow> WorkReplayPolicyMetrics \<Rightarrow> WorkReplayPolicyMetrics \<Rightarrow> WorkReplayPolicyMetrics
     \<Rightarrow> WorkReplayPolicyMetrics \<Rightarrow> WorkReplayComparison"
where
  "compare_replays jobs fifo candidate legacy lowest =
     (let minimum = pm_Operations candidate \<ge> 100 \<and> pm_ContentionDecisions candidate \<ge> 20;
          safety = safety_gates candidate;
          performance = performance_gates fifo candidate lowest;
          calibration = calibration_gates candidate legacy;
          rows = regression_rows candidate;
          deferred = filter (\<lambda>row. cm_Count row < WorkReplayMinimumRegressionSamples) rows;
          evaluated = filter (\<lambda>row. \<not> cm_Count row < WorkReplayMinimumRegressionSamples) rows
      in \<lparr> rc_SchemaVersion = 4, rc_TraceStart = trace_start jobs, rc_TraceEnd = trace_end jobs,
           rc_FIFO = fifo, rc_Candidate = candidate, rc_LegacyCalibration = legacy,
           rc_FeasibleFloor = lowest, rc_MinimumSampleMet = minimum,
           rc_RegressionSamplesRequired = WorkReplayMinimumRegressionSamples,
           rc_RegressionEvaluatedSamples = map (\<lambda>row. (cm_Class row, cm_Count row)) evaluated,
           rc_RegressionClassesDeferred = deferred, rc_SafetyGatesPass = safety,
           rc_PerformanceGatesPass = performance, rc_CalibrationGatesPass = calibration,
           rc_SelectorGatePass = False,
           rc_SelectorBenchmark = \<lparr> sb_Iterations = 0, sb_QueueDepth = 0, sb_P95Microseconds = 0,
             sb_MaxMicroseconds = 0, sb_BudgetMicroseconds = 0, sb_Pass = False \<rparr>,
           rc_PromotionReady = False,
           rc_ReviewSignals =
             (if minimum then [] else [''replay needs at least 100 closed operations and 20 contention decisions'']) @
             (if safety then [] else [''candidate replay violated a capacity or starvation invariant'']) @
             (if performance then [] else
                [''candidate replay did not meet wait, regression, short-work, or selector-overhead gates'']) @
             (if calibration then [] else
                [''build-weight calibration regressed build p95 wait or short-runtime long-wait operations'']) @
             (if deferred = [] then [] else
                [''per-class p95 regression gate deferred for classes with fewer than 20 terminal-runtime samples'']) \<rparr>)"

definition legacy_limits :: "WorkLimits \<Rightarrow> WorkLimits" where
  "legacy_limits limits = limits\<lparr> BuildWeight := max 1 (go_div (Capacity limits * 2 + 2) 3) \<rparr>"

definition ReplayWorkEvents :: "int \<Rightarrow> WorkEvent list \<Rightarrow> WorkLimits \<Rightarrow> WorkReplayComparison option" where
  "ReplayWorkEvents ncpu events limits =
     (let limits = normalizeWorkLimits ncpu limits;
          found = trace_jobs ncpu limits events;
          jobs = sort_key (\<lambda>job. (j_queuedAt job, j_id job)) found;
          legacy = legacy_limits limits
      in case (replayPolicy jobs (Capacity limits) replayPolicyFIFO,
               replayPolicy jobs (Capacity limits) replayPolicyCandidate,
               replayPolicy (reweightReplayJobs ncpu legacy jobs) (Capacity legacy) replayPolicyCandidate,
               replayPolicy jobs (Capacity limits) replayPolicyFeasibleFloor) of
           (Some fifo, Some candidate, Some legacyCalibration, Some lowest) \<Rightarrow>
             Some (compare_replays found fifo candidate
               (legacyCalibration\<lparr> pm_Policy := WorkSchedulingPolicy @ ''-legacy-build-weight'' \<rparr>) lowest)
         | _ \<Rightarrow> None)"

definition ApplySelectorBenchmark :: "WorkSelectorBenchmark \<Rightarrow> WorkReplayComparison \<Rightarrow> WorkReplayComparison" where
  "ApplySelectorBenchmark benchmark c =
     c\<lparr> rc_SelectorBenchmark := benchmark, rc_SelectorGatePass := sb_Pass benchmark,
        rc_PromotionReady := (rc_MinimumSampleMet c \<and> rc_SafetyGatesPass c \<and> rc_PerformanceGatesPass c \<and>
          rc_CalibrationGatesPass c \<and> sb_Pass benchmark),
        rc_ReviewSignals := rc_ReviewSignals c @
          (if sb_Pass benchmark then [] else [''selector overhead benchmark exceeded its p95 budget'']) \<rparr>"


section \<open>What a decision keeps\<close>

definition job_ok :: "int \<Rightarrow> replayJob \<Rightarrow> bool" where
  "job_ok capacity job \<longleftrightarrow> 1 \<le> j_weight job \<and> j_weight job \<le> capacity \<and> 0 < j_runtime job \<and>
     0 < j_queuedAt job \<and> j_id job \<noteq> [] \<and> j_bypasses job \<le> workMaximumBypasses"

definition job_core :: "replayJob \<Rightarrow> string \<times> WorkClass \<times> int \<times> time \<times> duration" where
  "job_core job = (j_id job, j_class job, j_weight job, j_queuedAt job, j_runtime job)"

definition safe_metrics :: "WorkReplayPolicyMetrics \<Rightarrow> bool" where
  "safe_metrics m \<longleftrightarrow> pm_CapacityViolations m = 0 \<and> pm_ProtectedBypassViolations m = 0 \<and>
     pm_MaximumBypasses m \<le> workMaximumBypasses"

lemma replay_waiter_simps [simp]:
  "w_OperationID (replay_waiter job) = j_id job" "w_Weight (replay_waiter job) = j_weight job"
  "w_BypassCount (replay_waiter job) = j_bypasses job" "w_Class (replay_waiter job) = j_class job"
  by (simp_all add: replay_waiter_def)

lemma contend_safe [simp]: "safe_metrics (contend m) = safe_metrics m"
  by (simp add: safe_metrics_def contend_def)

lemma first_index_Some:
  "first_index P xs = Some i \<Longrightarrow> i < length xs \<and> P (xs ! i)"
  by (induction xs arbitrary: i) (auto split: if_splits)

lemma first_index_None: "first_index P xs = None \<longleftrightarrow> (\<forall>x \<in> set xs. \<not> P x)"
  by (induction xs) auto

lemma charge_bypass_core [simp]: "job_core (charge_replay_bypass now job) = job_core job"
  by (simp add: charge_replay_bypass_def job_core_def Let_def)

lemma charge_bypass_count [simp]: "j_bypasses (charge_replay_bypass now job) = j_bypasses job + 1"
  by (simp add: charge_replay_bypass_def Let_def)

lemma job_ok_core:
  assumes "job_core a = job_core b" and "job_ok c b" and "j_bypasses a \<le> workMaximumBypasses"
  shows "job_ok c a"
  using assms by (auto simp: job_core_def job_ok_def)

text \<open>
  \<open>decides\<close> is the contract of the three policies: the queue keeps its jobs, the counters stay safe,
  the selected job fits, and on an idle host somebody is selected.
\<close>

definition decides ::
  "int \<Rightarrow> int \<Rightarrow> replayJob list \<Rightarrow> nat option \<times> replayJob list \<times> WorkReplayPolicyMetrics \<Rightarrow> bool" where
  "decides capacity used queue d \<longleftrightarrow>
     (case d of (selected, queue', m) \<Rightarrow>
        map job_core queue' = map job_core queue \<and> list_all (job_ok capacity) queue' \<and> safe_metrics m \<and>
        (case selected of None \<Rightarrow> used > 0
         | Some i \<Rightarrow> i < length queue \<and> used + j_weight (queue ! i) \<le> capacity))"

lemma fifo_decides:
  assumes "queue \<noteq> []" and "list_all (job_ok capacity) queue" and "safe_metrics m" and "0 \<le> used"
  shows "decides capacity used queue (select_fifo capacity used queue m)"
  using assms by (cases queue) (auto simp: decides_def select_fifo_def job_ok_def)

lemma floor_decides:
  assumes "queue \<noteq> []" and "list_all (job_ok capacity) queue" and "safe_metrics m" and "0 \<le> used"
  shows "decides capacity used queue (select_floor capacity used queue m)"
proof (cases "first_index (\<lambda>job. j_weight job + used \<le> capacity) (take workSelectorScanLimit queue)")
  case None
  then have "0 < used"
    using assms by (cases queue)
      (auto simp: workSelectorScanLimit_def job_ok_def split: if_splits)
  with None assms show ?thesis by (simp add: decides_def select_floor_def)
next
  case (Some i)
  then show ?thesis
    using assms first_index_Some [OF Some]
    by (auto simp: decides_def select_floor_def split: nat.splits)
qed

lemma replay_protection_id: "workWaiterProtection (replay_waiter job) capacity now = None \<Longrightarrow>
    j_bypasses job < workMaximumBypasses"
  by (auto simp: workWaiterProtection_def split: if_splits)

lemma idle_host_selects:
  assumes "w_Weight w \<le> capacity"
  shows "SelectedOperationID (selectWorkWaiter (w # ws) 0 capacity now no_green e) = w_OperationID w"
  using assms
  by (auto simp: selectWorkWaiter_def selectProtectedHead_def workSelectorScanLimit_def candidate_fits_def
      Let_def min_def no_selection_def numeral_eq_Suc split: option.splits if_splits)

lemma candidate_selected_fits:
  assumes "distinct (map j_id queue)" and "list_all (job_ok capacity) queue"
    and "first_index (\<lambda>job. j_id job = SelectedOperationID
           (selectWorkWaiter (map replay_waiter queue) used capacity now no_green 0)) queue = Some i"
  shows "i < length queue \<and> used + j_weight (queue ! i) \<le> capacity"
proof -
  let ?d = "selectWorkWaiter (map replay_waiter queue) used capacity now no_green 0"
  have i: "i < length queue" "j_id (queue ! i) = SelectedOperationID ?d"
    using first_index_Some [OF assms(3)] by auto
  moreover from i have "j_id (queue ! i) \<noteq> []" "1 \<le> j_weight (queue ! i)"
    using assms(2) by (auto simp: list_all_length job_ok_def)
  ultimately have "used + w_Weight (replay_waiter (queue ! i)) \<le> capacity +
      (if g_Active no_green \<and> IsExpressClass (w_Class (replay_waiter (queue ! i)))
       then max 0 (g_Overcommit no_green) else 0)"
    using assms(1) by (intro bounded.selected_within_ceiling) (auto simp: comp_def)
  with i show ?thesis by (simp add: no_green_def)
qed

lemma candidate_decides:
  assumes "queue \<noteq> []" and "list_all (job_ok capacity) queue" and "safe_metrics m" and "0 \<le> used"
    and "distinct (map j_id queue)"
  shows "decides capacity used queue (select_candidate capacity now used queue m)"
proof -
  let ?ws = "map replay_waiter queue"
  let ?d = "selectWorkWaiter ?ws used capacity now no_green 0"
  let ?sel = "first_index (\<lambda>job. j_id job = SelectedOperationID ?d) queue"
  obtain h t where q: "queue = h # t" using assms(1) by (cases queue) auto
  have none: "0 < used" if "?sel = None"
  proof (rule ccontr)
    assume "\<not> 0 < used"
    then have "SelectedOperationID ?d = j_id h"
      using assms(2,4) idle_host_selects [of "replay_waiter h" capacity] by (auto simp: q job_ok_def)
    with that show False by (auto simp: first_index_None q)
  qed
  note some = candidate_selected_fits [OF assms(5,2)]
  have bypass: "BypassedIndexes ?d = [] \<or>
      BypassedIndexes ?d = [0] \<and> workWaiterProtection (replay_waiter h) capacity now = None"
    using bounded.bypass_only_head [of ?ws used capacity now no_green 0]
      bounded.bypass_unprotected [of ?ws used capacity now no_green 0] by (auto simp: q unprotected_def)
  show ?thesis
  proof (cases ?sel)
    case None
    with none assms(2,3) show ?thesis by (simp add: decides_def select_candidate_def Let_def)
  next
    case (Some i)
    note fits = some [OF Some]
    show ?thesis
    proof (cases "i = 0 \<or> BypassedIndexes ?d = []")
      case True
      with Some fits assms(2,3) show ?thesis
        by (cases i) (auto simp: decides_def select_candidate_def Let_def)
    next
      case False
      then obtain k where k: "i = Suc k" and b: "BypassedIndexes ?d = [0]"
        and u: "workWaiterProtection (replay_waiter h) capacity now = None"
        using bypass by (cases i) auto
      have ok: "job_ok capacity (charge_replay_bypass now h)"
        using assms(2) replay_protection_id [OF u]
        by (intro job_ok_core [of "charge_replay_bypass now h" h]) (auto simp: q)
      have "safe_metrics ((contend m)\<lparr> pm_MaximumBypasses :=
          max (pm_MaximumBypasses (contend m)) (j_bypasses h + 1) \<rparr>)"
        using assms(3) replay_protection_id [OF u] by (simp add: safe_metrics_def contend_def)
      then show ?thesis
        using Some fits assms(2) ok
        by (simp add: decides_def select_candidate_def Let_def k b u) (simp add: q u decides_def)
    qed
  qed
qed

lemma replay_decides:
  assumes "queue \<noteq> []" and "list_all (job_ok capacity) queue" and "safe_metrics m" and "0 \<le> used"
    and "distinct (map j_id queue)"
  shows "decides capacity used queue (select_replay mode capacity now used queue m)"
  using assms fifo_decides floor_decides candidate_decides
  by (cases mode) (simp_all add: select_replay_def)



section \<open>What the simulation keeps\<close>

text \<open>
  \<open>pending\<close> counts the jobs of a class that are not started. The invariant \<open>replay_inv\<close>: all jobs
  are well formed with distinct identities, the running weight is within the capacity, the counters
  are safe, and every job is either recorded as a wait or pending.
\<close>

definition pending :: "WorkClass \<Rightarrow> replay_state \<Rightarrow> nat" where
  "pending class s = length (filter (\<lambda>c. c = class) (map j_class (s_queue s @ s_left s)))"

definition replay_inv :: "int \<Rightarrow> (WorkClass \<Rightarrow> nat) \<Rightarrow> replay_state \<Rightarrow> bool" where
  "replay_inv capacity goal s \<longleftrightarrow>
     list_all (job_ok capacity) (s_queue s) \<and> list_all (job_ok capacity) (s_left s) \<and>
     list_all (\<lambda>r. 1 \<le> j_weight (r_job r)) (s_running s) \<and>
     distinct (map j_id (s_queue s @ s_left s)) \<and> replay_used s \<le> capacity \<and> safe_metrics (s_metrics s) \<and>
     (\<forall>class. length (s_waits s class) + pending class s = goal class)"

definition potential :: "replay_state \<Rightarrow> nat" where
  "potential s = 3 * length (s_left s) + 2 * length (s_queue s) + length (s_running s)"

definition later_finish :: "replay_state \<Rightarrow> bool" where
  "later_finish s \<longleftrightarrow> list_all (\<lambda>r. s_now s < r_finishAt r) (s_running s)"

lemma used_nonneg: "replay_inv capacity goal s \<Longrightarrow> 0 \<le> replay_used s"
  unfolding replay_inv_def replay_used_def by (intro sum_list_nonneg) (auto simp: list_all_iff)

lemma drop_index_update: "i < length xs \<Longrightarrow> map f (drop_index i xs) = drop_index i (map f xs)"
  by (simp add: drop_index_def take_map drop_map)

lemma mset_drop_index: "i < length xs \<Longrightarrow> mset xs = add_mset (xs ! i) (mset (drop_index i xs))"
  by (simp add: drop_index_def) (metis id_take_nth_drop mset.simps(2) mset_append union_mset_add_mset_right)

lemma set_drop_index: "set (drop_index i xs) \<subseteq> set xs"
  by (auto simp: drop_index_def dest: in_set_takeD in_set_dropD)

lemma filter_drop_index:
  "i < length xs \<Longrightarrow> length (filter P xs) = length (filter P (drop_index i xs)) + (if P (xs ! i) then 1 else 0)"
  using arg_cong [OF mset_drop_index, of i xs "\<lambda>M. size (filter_mset P M)"]
  by (simp flip: mset_filter)

lemma core_fields:
  assumes "map job_core xs = map job_core ys"
  shows "map j_id xs = map j_id ys" "map j_class xs = map j_class ys" "map j_weight xs = map j_weight ys"
proof -
  have "map f (map job_core xs) = map f (map job_core ys)" for f :: "_ \<Rightarrow> 'a" using assms by simp
  from this [of fst] this [of "fst \<circ> snd"] this [of "fst \<circ> snd \<circ> snd"]
  show "map j_id xs = map j_id ys" "map j_class xs = map j_class ys" "map j_weight xs = map j_weight ys"
    by (simp_all add: job_core_def comp_def)
qed

lemma start_job_simps [simp]:
  "s_left (start_job job s) = s_left s" "s_queue (start_job job s) = s_queue s"
  "s_now (start_job job s) = s_now s"
  "s_running (start_job job s) = s_running s @ [\<lparr> r_job = job, r_finishAt = s_now s + j_runtime job \<rparr>]"
  "safe_metrics (s_metrics (start_job job s)) = safe_metrics (s_metrics s)"
  "length (s_waits (start_job job s) class) = length (s_waits s class) + (if class = j_class job then 1 else 0)"
  by (simp_all add: start_job_def Let_def safe_metrics_def)

lemma start_inv:
  assumes inv: "replay_inv capacity goal s" and core: "map job_core queue = map job_core (s_queue s)"
    and ok: "list_all (job_ok capacity) queue" and m: "safe_metrics m" and i: "i < length queue"
    and fits: "replay_used s + j_weight (queue ! i) \<le> capacity"
  shows "replay_inv capacity goal (start_job (queue ! i) (s\<lparr> s_metrics := m, s_queue := drop_index i queue \<rparr>))"
proof -
  let ?s = "start_job (queue ! i) (s\<lparr> s_metrics := m, s_queue := drop_index i queue \<rparr>)"
  note f = core_fields [OF core]
  have job: "job_ok capacity (queue ! i)" using ok i by (simp add: list_all_length)
  have "list_all (job_ok capacity) (drop_index i queue)"
    using ok set_drop_index [of i queue] by (auto simp: list_all_iff)
  moreover have "distinct (map j_id (drop_index i queue) @ map j_id (s_left s))"
  proof -
    have "distinct (map j_id (take i queue @ queue ! i # drop (Suc i) queue) @ map j_id (s_left s))"
      using inv f(1) id_take_nth_drop [OF i] by (simp add: replay_inv_def)
    then show ?thesis by (auto simp: drop_index_def)
  qed
  moreover have "length (s_waits ?s k) + pending k ?s = goal k" for k
  proof -
    have "length (s_waits s k) + pending k s = goal k"
      using inv by (simp add: replay_inv_def)
    moreover have "pending k s = length (filter (\<lambda>c. c = k) (map j_class queue @ map j_class (s_left s)))"
      by (simp add: pending_def f(2))
    ultimately show ?thesis
      using filter_drop_index [of i "map j_class queue" "\<lambda>c. c = k"] i
      by (cases "k = j_class (queue ! i)") (auto simp: pending_def drop_index_update)
  qed
  ultimately show ?thesis
    using inv m job fits by (simp add: replay_inv_def replay_used_def job_ok_def)
qed

lemma admit_facts:
  assumes "replay_inv capacity goal s" and "later_finish s" and "length (s_queue s) \<le> n"
  shows "replay_inv capacity goal (admit_replay n mode capacity s) \<and>
    later_finish (admit_replay n mode capacity s) \<and>
    potential (admit_replay n mode capacity s) \<le> potential s \<and>
    s_left (admit_replay n mode capacity s) = s_left s \<and>
    s_now (admit_replay n mode capacity s) = s_now s \<and>
    (s_running (admit_replay n mode capacity s) = [] \<longrightarrow> s_queue (admit_replay n mode capacity s) = [])"
  using assms
proof (induction n arbitrary: s)
  case 0
  then show ?case by simp
next
  case (Suc n)
  show ?case
  proof (cases "s_queue s = []")
    case True
    with Suc.prems show ?thesis by simp
  next
    case False
    obtain sel queue m where d: "select_replay mode capacity (s_now s) (replay_used s) (s_queue s) (s_metrics s)
        = (sel, queue, m)" by (metis prod_cases3)
    have "decides capacity (replay_used s) (s_queue s) (sel, queue, m)"
      unfolding d [symmetric] using Suc.prems(1) False used_nonneg [OF Suc.prems(1)]
      by (intro replay_decides) (auto simp: replay_inv_def)
    then have core: "map job_core queue = map job_core (s_queue s)" and ok: "list_all (job_ok capacity) queue"
      and m: "safe_metrics m"
      and none: "sel = None \<Longrightarrow> 0 < replay_used s"
      and some: "\<And>i. sel = Some i \<Longrightarrow> i < length (s_queue s) \<and> replay_used s + j_weight (s_queue s ! i) \<le> capacity"
      by (auto simp: decides_def)
    note f = core_fields [OF core]
    have len: "length queue = length (s_queue s)" using core by (metis length_map)
    show ?thesis
    proof (cases sel)
      case None
      then have "s_running s \<noteq> []" using none by (auto simp: replay_used_def)
      moreover have "pending k (s\<lparr>s_queue := queue, s_metrics := m'\<rparr>) = pending k s" for k m'
        by (simp add: pending_def f(2))
      ultimately have stay: "admit_replay (Suc n) mode capacity s = s\<lparr> s_queue := queue, s_metrics := contend m \<rparr>"
        and pend: "\<And>k. pending k (s\<lparr> s_queue := queue, s_metrics := contend m \<rparr>) = pending k s"
        and run: "s_running s \<noteq> []"
        using None False by (simp_all add: d)
      have "j_id ` set queue = j_id ` set (s_queue s)" using f(1) by (metis list.set_map)
      then have "replay_inv capacity goal (s\<lparr> s_queue := queue, s_metrics := contend m \<rparr>)"
        using Suc.prems(1) m ok f(1) pend by (simp add: replay_inv_def replay_used_def)
      then show ?thesis
        unfolding stay using Suc.prems(2) run len by (simp add: later_finish_def potential_def)
    next
      case (Some i)
      let ?t = "start_job (queue ! i) (s\<lparr> s_metrics := m, s_queue := drop_index i queue \<rparr>)"
      have i: "i < length queue" "j_weight (queue ! i) = j_weight (s_queue s ! i)"
        using some [OF Some] len f(3) by (metis nth_map)+
      have fits: "replay_used s + j_weight (queue ! i) \<le> capacity" using some [OF Some] i(2) by simp
      have inv: "replay_inv capacity goal ?t"
        by (rule start_inv [OF Suc.prems(1) core ok m i(1) fits])
      have "0 < j_runtime (queue ! i)" using ok i(1) by (simp add: list_all_length job_ok_def)
      then have later: "later_finish ?t" using Suc.prems(2) by (simp add: later_finish_def)
      have short: "length (s_queue ?t) \<le> n" "potential ?t \<le> potential s"
        using Suc.prems(3) i(1) len by (simp_all add: length_drop_index potential_def)
      have "admit_replay (Suc n) mode capacity s = admit_replay n mode capacity ?t"
        using False Some fits by (simp add: d) (simp add: replay_used_def)
      then show ?thesis using Suc.IH [OF inv later short(1)] short(2) by simp
    qed
  qed
qed


lemma round_facts:
  assumes inv: "replay_inv capacity goal s"
    and due: "(\<exists>job rest. s_left s = job # rest \<and> j_queuedAt job \<le> s_now s) \<or>
      (\<exists>r \<in> set (s_running s). r_finishAt r \<le> s_now s)"
    and t_def: "t = replay_round mode capacity s"
  shows "replay_inv capacity goal t \<and> later_finish t \<and> potential t < potential s \<and> s_now t = s_now s \<and>
    (s_running t = [] \<longrightarrow> s_queue t = []) \<and>
    (\<forall>job rest. s_left t = job # rest \<longrightarrow> s_now t < j_queuedAt job)"
proof -
  let ?here = "\<lambda>job. j_queuedAt job \<le> s_now s"
  let ?in = "takeWhile ?here (s_left s)" and ?run = "filter (\<lambda>r. r_finishAt r > s_now s) (s_running s)"
  have left: "drop (length ?in) (s_left s) = dropWhile ?here (s_left s)"
    by (simp add: dropWhile_eq_drop)
  let ?u = "s\<lparr> s_running := ?run, s_queue := s_queue s @ ?in, s_left := dropWhile ?here (s_left s) \<rparr>"
  have t: "t = admit_replay (length (s_queue ?u)) mode capacity ?u"
    by (simp add: t_def replay_round_def Let_def left)
  have split: "?in @ dropWhile ?here (s_left s) = s_left s" by simp
  have "replay_used ?u \<le> replay_used s"
    unfolding replay_used_def using inv
    by (simp, intro sum_list_filter_le) (force simp: replay_inv_def list_all_iff)
  moreover have "list_all (job_ok capacity) ?in" "list_all (job_ok capacity) (dropWhile ?here (s_left s))"
    using inv by (auto simp: replay_inv_def list_all_iff dest: set_takeWhileD set_dropWhileD)
  moreover have "pending k ?u = pending k s" for k
    using arg_cong [OF split, of "\<lambda>xs. length (filter (\<lambda>c. c = k) (map j_class xs))"]
    by (simp add: pending_def)
  moreover have "distinct (map j_id (s_queue ?u @ s_left ?u))"
    using inv arg_cong [OF split, of "map j_id"] by (simp add: replay_inv_def del: distinct_append)
  ultimately have "replay_inv capacity goal ?u"
    using inv by (auto simp: replay_inv_def list_all_iff simp del: map_append distinct_append)
  moreover have "later_finish ?u" by (simp add: later_finish_def list_all_iff)
  moreover have "potential ?u < potential s"
  proof -
    have n: "length ?in + length (dropWhile ?here (s_left s)) = length (s_left s)"
      by (metis length_append split)
    have "0 < length ?in \<or> length ?run < length (s_running s)"
      using due length_filter_less [of _ "s_running s" "\<lambda>r. r_finishAt r > s_now s"] by force
    moreover have "length ?run \<le> length (s_running s)" by simp
    ultimately have "3 * length (dropWhile ?here (s_left s)) + 2 * length ?in + length ?run
        < 3 * length (s_left s) + length (s_running s)" using n by linarith
    then show ?thesis by (simp add: potential_def)
  qed
  moreover have "s_left ?u = job # rest \<Longrightarrow> s_now ?u < j_queuedAt job" for job rest
    using hd_dropWhile [of ?here "s_left s"] by auto
  ultimately show ?thesis
    using admit_facts [of capacity goal ?u "length (s_queue ?u)" mode] unfolding t by auto
qed

text \<open>The earliest of an arrival and the finishing times is one of them.\<close>

lemma earliest_positive:
  assumes "0 < a \<or> a = 0 \<and> rs \<noteq> []" and "\<forall>r \<in> set rs. 0 < r_finishAt r"
  shows "earliest a rs \<in> insert a (r_finishAt ` set rs) \<and> 0 < earliest a rs"
  using assms
proof (induction rs arbitrary: a)
  case (Cons r rs)
  let ?a = "if IsZero a \<or> r_finishAt r < a then r_finishAt r else a"
  have "earliest ?a rs \<in> insert ?a (r_finishAt ` set rs) \<and> 0 < earliest ?a rs"
    using Cons.prems by (intro Cons.IH) (auto simp: IsZero_def)
  then show ?case using Cons.prems by (auto simp: IsZero_def split: if_splits)
qed auto

lemma next_due:
  assumes "later_finish s" and "0 < s_now s" and "s_left s \<noteq> [] \<or> s_running s \<noteq> []"
    and "\<forall>job rest. s_left s = job # rest \<longrightarrow> s_now s < j_queuedAt job"
  shows "s_now s < next_instant s \<and>
    ((\<exists>job rest. s_left s = job # rest \<and> j_queuedAt job \<le> next_instant s) \<or>
     (\<exists>r \<in> set (s_running s). r_finishAt r \<le> next_instant s))"
proof -
  let ?a = "case s_left s of [] \<Rightarrow> 0 | job # _ \<Rightarrow> j_queuedAt job"
  have "0 < ?a \<or> ?a = 0 \<and> s_running s \<noteq> []"
    using assms(2-4) by (auto split: list.splits)
  moreover have fin: "\<forall>r \<in> set (s_running s). s_now s < r_finishAt r"
    using assms(1) by (simp add: later_finish_def list_all_iff)
  ultimately have e: "earliest ?a (s_running s) \<in> insert ?a (r_finishAt ` set (s_running s))"
    "0 < earliest ?a (s_running s)"
    using earliest_positive [of ?a "s_running s"] assms(2) by force+
  have "s_now s < earliest ?a (s_running s)"
    using e fin assms(4) by (auto split: list.splits)
  then have n: "next_instant s = earliest ?a (s_running s)" by (simp add: next_instant_def Let_def)
  show ?thesis
    unfolding n using \<open>s_now s < earliest ?a (s_running s)\<close> e
    by (auto split: list.splits)
qed

lemma replay_returns:
  assumes "replay_inv capacity goal s" and "0 < s_now s"
    and "(\<exists>job rest. s_left s = job # rest \<and> j_queuedAt job \<le> s_now s) \<or>
      (\<exists>r \<in> set (s_running s). r_finishAt r \<le> s_now s)"
  shows "\<exists>t. replay_loop mode capacity s = Some t \<and> replay_inv capacity goal t \<and> s_left t = [] \<and> s_queue t = []"
  using assms
proof (induction "potential s" arbitrary: s rule: less_induct)
  case less
  let ?t = "replay_round mode capacity s" and ?next = "\<lambda>t. t\<lparr> s_now := next_instant t \<rparr>"
  note r = round_facts [OF less.prems(1,3) refl, of mode]
  have unfold: "replay_loop mode capacity s =
      (if s_left ?t = [] \<and> s_running ?t = [] then Some ?t else replay_loop mode capacity (?next ?t))"
    using less.prems(3) by (subst replay_loop.simps) (auto simp: Let_def)
  show ?case
  proof (cases "s_left ?t = [] \<and> s_running ?t = []")
    case True
    with r unfold show ?thesis by auto
  next
    case False
    have inv: "replay_inv capacity goal (?next ?t)"
      using r by (simp add: replay_inv_def replay_used_def pending_def)
    have "potential (?next ?t) < potential s" using r by (simp add: potential_def)
    moreover have due: "s_now ?t < next_instant ?t \<and>
        ((\<exists>job rest. s_left ?t = job # rest \<and> j_queuedAt job \<le> next_instant ?t) \<or>
         (\<exists>r \<in> set (s_running ?t). r_finishAt r \<le> next_instant ?t))"
      using r less.prems(2) False by (intro next_due) auto
    ultimately show ?thesis
      using less.hyps [OF _ inv] less.prems(2) r unfold False by simp
  qed
qed


section \<open>What a replay returns\<close>

definition class_count :: "WorkClass \<Rightarrow> replayJob list \<Rightarrow> nat" where
  "class_count class jobs = length (filter (\<lambda>job. j_class job = class) jobs)"

definition safe_replay :: "replayJob list \<Rightarrow> WorkReplayPolicyMetrics \<Rightarrow> bool" where
  "safe_replay jobs m \<longleftrightarrow> safety_gates m \<and>
     (jobs \<noteq> [] \<longrightarrow> map (\<lambda>row. (cm_Class row, cm_Count row)) (pm_ByClass m) =
        map (\<lambda>class. (class, class_count class jobs)) replay_classes)"

lemma replay_result:
  assumes "list_all (job_ok capacity) jobs" and "distinct (map j_id jobs)" and "0 \<le> capacity"
  shows "\<exists>m. replayPolicy jobs capacity mode = Some m \<and> safe_replay jobs m"
proof (cases jobs)
  case Nil
  then show ?thesis
    by (simp add: replayPolicy_def safe_replay_def safety_gates_def empty_metrics_def workMaximumBypasses_def)
next
  case (Cons job rest)
  let ?goal = "\<lambda>class. class_count class jobs"
  have "replay_inv capacity ?goal (replay_start mode jobs)"
    using assms
    by (simp add: replay_inv_def replay_start_def replay_used_def safe_metrics_def empty_metrics_def
        pending_def class_count_def filter_map comp_def workMaximumBypasses_def)
  moreover have "0 < s_now (replay_start mode jobs)"
    using assms(1) by (simp add: replay_start_def Cons job_ok_def)
  moreover have "s_left (replay_start mode jobs) = job # rest" "j_queuedAt job \<le> s_now (replay_start mode jobs)"
    by (simp_all add: replay_start_def Cons)
  ultimately obtain t where t: "replay_loop mode capacity (replay_start mode jobs) = Some t"
    "replay_inv capacity ?goal t" "s_left t = []" "s_queue t = []"
    using replay_returns [of capacity ?goal "replay_start mode jobs" mode] by blast
  have "length (s_waits t k) = class_count k jobs" for k
    using t(2-4) by (simp add: replay_inv_def pending_def)
  then have "safe_replay jobs ((s_metrics t)\<lparr> pm_ByClass := class_metrics (s_waits t) \<rparr>)"
    using t(2) by (simp add: safe_replay_def safety_gates_def replay_inv_def safe_metrics_def
        class_metrics_def comp_def)
  then show ?thesis using t(1) Cons by (simp add: replayPolicy_def)
qed

lemma trace_event_ids:
  "(\<lambda>t. j_id (t_job t)) ` set (trace_event ncpu limits e ts) =
     insert (ev_OperationID e) ((\<lambda>t. j_id (t_job t)) ` set ts)"
  "distinct (map (\<lambda>t. j_id (t_job t)) ts) \<Longrightarrow> distinct (map (\<lambda>t. j_id (t_job t)) (trace_event ncpu limits e ts))"
proof -
  let ?u = "\<lambda>t. if j_id (t_job t) = ev_OperationID e then trace_terminal e (trace_queued e t) else t"
  have same: "j_id (t_job (?u t)) = j_id (t_job t)" for t
    by (simp add: trace_terminal_def trace_queued_def)
  have m: "map (\<lambda>t. j_id (t_job t)) (trace_event ncpu limits e ts) = map (\<lambda>t. j_id (t_job t))
      (if ev_OperationID e \<in> (\<lambda>t. j_id (t_job t)) ` set ts then ts else ts @ [new_trace ncpu limits e])"
    by (simp add: trace_event_def comp_def same)
  show "(\<lambda>t. j_id (t_job t)) ` set (trace_event ncpu limits e ts) =
     insert (ev_OperationID e) ((\<lambda>t. j_id (t_job t)) ` set ts)"
    using arg_cong [OF m, of set] by (auto simp: new_trace_def)
  show "distinct (map (\<lambda>t. j_id (t_job t)) ts) \<Longrightarrow>
    distinct (map (\<lambda>t. j_id (t_job t)) (trace_event ncpu limits e ts))"
    unfolding m by (auto simp: new_trace_def)
qed

definition trace_ok :: "int \<Rightarrow> WorkLimits \<Rightarrow> traceJob \<Rightarrow> bool" where
  "trace_ok ncpu limits t \<longleftrightarrow> j_id (t_job t) \<noteq> [] \<and> 0 \<le> j_queuedAt (t_job t) \<and> j_bypasses (t_job t) = 0 \<and>
     j_weight (t_job t) = (case Weight ncpu limits (j_class (t_job t)) of None \<Rightarrow> 0 | Some w \<Rightarrow> w)"

lemma trace_event_ok:
  assumes "ev_OperationID e \<noteq> []" and "0 \<le> ev_Timestamp e" and "list_all (trace_ok ncpu limits) ts"
  shows "list_all (trace_ok ncpu limits) (trace_event ncpu limits e ts)"
proof -
  have "trace_ok ncpu limits (new_trace ncpu limits e)"
    using assms(1) by (simp add: trace_ok_def new_trace_def)
  moreover have "trace_ok ncpu limits t \<Longrightarrow> trace_ok ncpu limits (trace_terminal e (trace_queued e t))" for t
    using assms(2) by (auto simp: trace_ok_def trace_terminal_def trace_queued_def)
  ultimately show ?thesis using assms(3) by (auto simp: trace_event_def Let_def list_all_iff)
qed

lemma traces_ok:
  assumes "list_all (\<lambda>e. ev_OperationID e \<noteq> [] \<and> 0 \<le> ev_Timestamp e) events"
    and "list_all (trace_ok ncpu limits) ts" and "distinct (map (\<lambda>t. j_id (t_job t)) ts)"
  shows "list_all (trace_ok ncpu limits) (fold (trace_event ncpu limits) events ts) \<and>
    distinct (map (\<lambda>t. j_id (t_job t)) (fold (trace_event ncpu limits) events ts))"
  using assms by (induction events arbitrary: ts) (simp_all add: trace_event_ok trace_event_ids)

lemma trace_jobs_ok:
  assumes "list_all (\<lambda>e. ev_OperationID e \<noteq> [] \<and> 0 \<le> ev_Timestamp e) events"
  shows "list_all (job_ok (Capacity limits)) (trace_jobs ncpu limits events)"
    and "distinct (map j_id (trace_jobs ncpu limits events))"
    and "job \<in> set (trace_jobs ncpu limits events) \<Longrightarrow> Weight ncpu limits (j_class job) = Some (j_weight job)"
proof -
  note t = traces_ok [OF assms, of ncpu limits "[]", simplified]
  show "list_all (job_ok (Capacity limits)) (trace_jobs ncpu limits events)"
    using t by (auto simp: trace_jobs_def list_all_iff replayable_def job_ok_def trace_ok_def IsZero_def
        workMaximumBypasses_def order_less_le)
  show "distinct (map j_id (trace_jobs ncpu limits events))"
    using t by (auto simp: trace_jobs_def comp_def distinct_map_filter)
  show "job \<in> set (trace_jobs ncpu limits events) \<Longrightarrow> Weight ncpu limits (j_class job) = Some (j_weight job)"
    using t by (auto simp: trace_jobs_def list_all_iff replayable_def trace_ok_def split: option.splits)
qed

lemma Weight_filled: "1 \<le> Capacity l \<Longrightarrow> Weight n l c = class_weight (fillWorkLimits l) c"
  by (simp add: Weight_def normalizeWorkLimits_def)

lemma legacy_weight:
  assumes "1 \<le> Capacity limits"
  shows "Weight n (legacy_limits limits) c =
    (if c = WorkClassBuild then Some (max 1 ((Capacity limits * 2 + 2) div 3)) else Weight n limits c)"
proof -
  have "class_weight (fillWorkLimits (legacy_limits limits)) c = (if c = WorkClassBuild
      then Some (max 1 ((Capacity limits * 2 + 2) div 3)) else class_weight (fillWorkLimits limits) c)"
    using assms by (cases c) (simp_all add: legacy_limits_def fillWorkLimits_def Let_def or_default_def)
  moreover have "1 \<le> Capacity (legacy_limits limits)" using assms by (simp add: legacy_limits_def)
  ultimately show ?thesis using assms by (simp add: Weight_filled)
qed

lemma legacy_jobs_ok:
  assumes "list_all (job_ok (Capacity limits)) jobs" and "1 \<le> Capacity limits"
    and "\<And>job. job \<in> set jobs \<Longrightarrow> Weight n limits (j_class job) = Some (j_weight job)"
  shows "list_all (job_ok (Capacity limits)) (reweightReplayJobs n (legacy_limits limits) jobs)"
    and "map j_id (reweightReplayJobs n (legacy_limits limits) jobs) = map j_id jobs"
    and "class_count k (reweightReplayJobs n (legacy_limits limits) jobs) = class_count k jobs"
proof -
  let ?f = "\<lambda>job :: replayJob. case Weight n (legacy_limits limits) (j_class job) of None \<Rightarrow> job | Some w \<Rightarrow> job\<lparr> j_weight := w \<rparr>"
  have "job_ok (Capacity limits) (?f job)" if "job \<in> set jobs" for job
    using assms(1,2) that assms(3) [OF that] by (auto simp: list_all_iff legacy_weight job_ok_def)
  then show "list_all (job_ok (Capacity limits)) (reweightReplayJobs n (legacy_limits limits) jobs)"
    by (simp add: reweightReplayJobs_def list_all_iff)
  have "j_id (?f job) = j_id job" "j_class (?f job) = j_class job" for job
    by (simp_all split: option.splits)
  then show "map j_id (reweightReplayJobs n (legacy_limits limits) jobs) = map j_id jobs"
    "class_count k (reweightReplayJobs n (legacy_limits limits) jobs) = class_count k jobs"
    by (simp_all add: reweightReplayJobs_def class_count_def filter_map comp_def)
qed


lemma replay_returns_safe:
  assumes "list_all (\<lambda>e. ev_OperationID e \<noteq> [] \<and> 0 \<le> ev_Timestamp e) events"
  shows "\<exists>c. ReplayWorkEvents ncpu events limits = Some c \<and> rc_SafetyGatesPass c \<and>
    list_all (safe_replay (trace_jobs ncpu (normalizeWorkLimits ncpu limits) events))
      [rc_FIFO c, rc_Candidate c, rc_LegacyCalibration c, rc_FeasibleFloor c]"
proof -
  let ?L = "normalizeWorkLimits ncpu limits"
  let ?found = "trace_jobs ncpu ?L events"
  let ?jobs = "sort_key (\<lambda>job. (j_queuedAt job, j_id job)) ?found"
  let ?old = "reweightReplayJobs ncpu (legacy_limits ?L) ?jobs"
  note ok = trace_jobs_ok [OF assms, where limits = ?L and ncpu = ncpu]
  have cap: "1 \<le> Capacity ?L" by (rule normalizeWorkLimits_capacity_pos)
  have jobs: "list_all (job_ok (Capacity ?L)) ?jobs" "distinct (map j_id ?jobs)"
    using ok(1,2) by (simp_all add: list_all_iff distinct_map)
  have count: "class_count k ?jobs = class_count k ?found" for k
    unfolding class_count_def by (metis mset_filter mset_sort size_mset)
  have old: "list_all (job_ok (Capacity ?L)) ?old" "distinct (map j_id ?old)"
    "class_count k ?old = class_count k ?jobs" for k
    using legacy_jobs_ok [OF jobs(1) cap, of ncpu] ok(3) jobs(2) by simp_all
  have empty: "?jobs = [] \<longleftrightarrow> ?found = []" by (metis length_0_conv length_sort)
  then have "?old = [] \<longleftrightarrow> ?found = []" by (simp add: reweightReplayJobs_def)
  with empty have same: "safe_replay ?jobs m = safe_replay ?found m"
    "safe_replay ?old m = safe_replay ?found m" for m
    unfolding safe_replay_def by (simp_all add: old count)
  have run: "\<exists>m. replayPolicy ?jobs (Capacity ?L) mode = Some m \<and> safe_replay ?found m"
    "\<exists>m. replayPolicy ?old (Capacity ?L) mode = Some m \<and> safe_replay ?found m" for mode
    using replay_result [OF jobs, of mode] replay_result [OF old(1,2), of mode] cap
    unfolding same by simp_all
  obtain f where f: "replayPolicy ?jobs (Capacity ?L) replayPolicyFIFO = Some f" "safe_replay ?found f"
    using run(1) by blast
  obtain c where c: "replayPolicy ?jobs (Capacity ?L) replayPolicyCandidate = Some c" "safe_replay ?found c"
    using run(1) by blast
  obtain l where l: "replayPolicy ?old (Capacity ?L) replayPolicyCandidate = Some l" "safe_replay ?found l"
    using run(2) by blast
  obtain b where b: "replayPolicy ?jobs (Capacity ?L) replayPolicyFeasibleFloor = Some b" "safe_replay ?found b"
    using run(1) by blast
  have "Capacity (legacy_limits ?L) = Capacity ?L" by (simp add: legacy_limits_def)
  then show ?thesis
    using f(2) c(2) l(2) b(2)
    by (simp add: ReplayWorkEvents_def Let_def f(1) c(1) l(1) b(1) compare_replays_def safe_replay_def
        safety_gates_def)
qed


section \<open>Properties of the replay\<close>

text \<open>
  Claim C37. The replay returns for every ledger of identified operations and its safety gate always passes:
  under the candidate policy, which runs the live selector, no admission exceeds the capacity, no
  protected job is bypassed and no job is bypassed more often than the limit. The other policies
  keep the capacity too, and every job is admitted: the number of waits of each reported class is
  the number of its jobs, so no policy starves a job.
\<close>

theorem replay_returns_and_is_safe:
  assumes "list_all (\<lambda>e. ev_OperationID e \<noteq> [] \<and> 0 \<le> ev_Timestamp e) events"
  shows "\<exists>c. ReplayWorkEvents ncpu events limits = Some c \<and> rc_SafetyGatesPass c \<and>
    list_all (safe_replay (trace_jobs ncpu (normalizeWorkLimits ncpu limits) events))
      [rc_FIFO c, rc_Candidate c, rc_LegacyCalibration c, rc_FeasibleFloor c]"
  by (rule replay_returns_safe [OF assms])

definition replay_ledger :: "WorkEvent list" where
  "replay_ledger =
     [(bare_event WorkEventQueued ''a'' [] WorkClassBuild 5 7 [])\<lparr> ev_Timestamp := seconds 10 \<rparr>,
      (bare_event WorkEventQueued ''b'' [] WorkClassTest 3 8 [])\<lparr> ev_Timestamp := seconds 11 \<rparr>,
      (bare_event WorkEventCompleted ''a'' [] WorkClassBuild 5 7 [])\<lparr> ev_Timestamp := seconds 50,
        ev_Queue := no_queue\<lparr> eq_RuntimeMillis := 30000 \<rparr> \<rparr>,
      (bare_event WorkEventFailed ''b'' [] WorkClassTest 3 8 [])\<lparr> ev_Timestamp := seconds 60,
        ev_Queue := no_queue\<lparr> eq_RuntimeMillis := 40000 \<rparr> \<rparr>]"

theorem replay_returns_and_is_safe_witness:
  "\<exists>c. ReplayWorkEvents 8 replay_ledger (defaultWorkLimits 8) = Some c \<and> rc_SafetyGatesPass c \<and>
    list_all (safe_replay (trace_jobs 8 (normalizeWorkLimits 8 (defaultWorkLimits 8)) replay_ledger))
      [rc_FIFO c, rc_Candidate c, rc_LegacyCalibration c, rc_FeasibleFloor c]"
  by (rule replay_returns_and_is_safe) (simp add: replay_ledger_def bare_event_def seconds_def)

text \<open>
  Promotion of the candidate needs every gate: after the wall-clock benchmark is applied the
  comparison is ready exactly when the sample is large enough, the performance and calibration
  gates pass and the benchmark passed; the safety gate never decides. Before the benchmark a
  comparison is never ready, and every gate that fails leaves its review signal.
\<close>

theorem promotion_needs_every_gate:
  assumes "list_all (\<lambda>e. ev_OperationID e \<noteq> [] \<and> 0 \<le> ev_Timestamp e) events"
    and "ReplayWorkEvents ncpu events limits = Some c"
  shows "\<not> rc_PromotionReady c \<and>
    (rc_PromotionReady (ApplySelectorBenchmark b c) \<longleftrightarrow>
       rc_MinimumSampleMet c \<and> rc_PerformanceGatesPass c \<and> rc_CalibrationGatesPass c \<and> sb_Pass b) \<and>
    (rc_ReviewSignals (ApplySelectorBenchmark b c) = [] \<longleftrightarrow>
       rc_PromotionReady (ApplySelectorBenchmark b c) \<and> rc_RegressionClassesDeferred c = [])"
proof -
  obtain c' where "ReplayWorkEvents ncpu events limits = Some c'" "rc_SafetyGatesPass c'"
    using replay_returns_safe [OF assms(1)] by blast
  with assms(2) have "rc_SafetyGatesPass c" by simp
  moreover obtain jobs f k l b' where "c = compare_replays jobs f k l b'"
    using assms(2) by (auto simp: ReplayWorkEvents_def Let_def split: option.splits prod.splits)
  ultimately show ?thesis
    by (auto simp: ApplySelectorBenchmark_def compare_replays_def Let_def)
qed

end
