(* ===== verification/Wait_Attribution.thy ===== *)
theory Wait_Attribution
  imports Work_Event Work_Measures
begin

text \<open>
  Why operations waited (\<^verbatim>\<open>sessionpressure/workwaitattribution.go\<close>): the cumulative fields of the
  ledger rows of an operation are split into causes, the causes are summed over all operations, and
  long waits that are close in time are joined into bursts. A Go map from causes to milliseconds is
  a \<open>tally\<close>, a list of pairs with distinct keys in order of insertion; no result depends on that
  order.
\<close>

section \<open>Tallies\<close>

type_synonym tally = "(string \<times> int) list"

fun bump :: "string \<Rightarrow> int \<Rightarrow> tally \<Rightarrow> tally" where
  "bump k v [] = [(k, v)]"
| "bump k v ((k', v') # m) = (if k = k' then (k', v' + v) # m else (k', v') # bump k v m)"

definition tally_sum :: "tally \<Rightarrow> int" where
  "tally_sum m = sum_list (map snd m)"

lemma tally_sum_simps [simp]:
  "tally_sum [] = 0" "tally_sum (kv # m) = snd kv + tally_sum m"
  "tally_sum (m @ m') = tally_sum m + tally_sum m'"
  by (simp_all add: tally_sum_def)

lemma tally_sum_bump [simp]: "tally_sum (bump k v m) = tally_sum m + v"
  by (induction m) auto

lemma keys_bump: "fst ` set (bump k v m) = insert k (fst ` set m)"
  by (induction k v m rule: bump.induct) (simp_all add: insert_commute)

lemma distinct_bump [simp]: "distinct (map fst m) \<Longrightarrow> distinct (map fst (bump k v m))"
  by (induction m) (auto simp: keys_bump)

lemma bump_nonneg: "list_all (\<lambda>kv. 0 \<le> snd kv) m \<Longrightarrow> 0 \<le> v \<Longrightarrow> list_all (\<lambda>kv. 0 \<le> snd kv) (bump k v m)"
  by (induction m) auto

lemma tally_sum_positive:
  "list_all (\<lambda>kv. 0 \<le> snd kv) m \<Longrightarrow> tally_sum (filter (\<lambda>kv. snd kv > 0) m) = tally_sum m"
  by (induction m) auto


section \<open>One operation\<close>

definition WorkBlockerCapacity :: string where "WorkBlockerCapacity = ''capacity''"
definition WorkBlockerFairness :: string where "WorkBlockerFairness = ''fairness''"
definition WorkBlockerReservation :: string where "WorkBlockerReservation = ''reservation''"
definition SwapThrashDeferredDecision :: string where "SwapThrashDeferredDecision = ''swap_thrash_deferred''"

definition isQueueBlocker :: "string \<Rightarrow> bool" where
  "isQueueBlocker blocker \<longleftrightarrow>
     blocker = WorkBlockerCapacity \<or> blocker = WorkBlockerFairness \<or> blocker = WorkBlockerReservation"

record waitOperation =
  wo_start :: time
  wo_queueMS :: int
  wo_admissionMS :: int
  wo_pressureMS :: int
  wo_flightMS :: int
  wo_totalMS :: int
  wo_queueBlocker :: string
  wo_dimension :: string
  wo_swapDeferred :: bool

definition new_operation :: "WorkEvent \<Rightarrow> waitOperation" where
  "new_operation e =
     \<lparr> wo_start = ev_Timestamp e, wo_queueMS = 0, wo_admissionMS = 0, wo_pressureMS = 0, wo_flightMS = 0,
       wo_totalMS = 0, wo_queueBlocker = [], wo_dimension = [], wo_swapDeferred = False \<rparr>"

definition observe_wait :: "WorkEvent \<Rightarrow> waitOperation \<Rightarrow> waitOperation" where
  "observe_wait e op =
     (let q = ev_Queue e in
      op\<lparr> wo_start := min (wo_start op) (ev_Timestamp e),
          wo_queueMS := max (wo_queueMS op) (eq_QueueWaitMilliseconds q),
          wo_admissionMS := max (wo_admissionMS op) (eq_AdmissionWaitMilliseconds q),
          wo_pressureMS := max (wo_pressureMS op) (eq_PressureWaitMilliseconds q),
          wo_flightMS := max (wo_flightMS op) (eq_SingleflightWaitMS q),
          wo_totalMS := max (wo_totalMS op) (eq_WaitMilliseconds q),
          wo_queueBlocker :=
            (if (ev_Event e = WorkEventAcquired \<or> ev_Event e = WorkEventReacquired) \<and>
                wo_queueBlocker op = [] \<and> isQueueBlocker (eq_Blocker q)
             then eq_Blocker q else wo_queueBlocker op),
          wo_dimension :=
            (if wo_dimension op = [] \<and> eq_PressureDimension q \<noteq> [] then eq_PressureDimension q
             else wo_dimension op),
          wo_swapDeferred := (wo_swapDeferred op \<or>
            ed_AdmissionDecision (ev_Decision e) = SwapThrashDeferredDecision) \<rparr>)"

fun wait_event :: "WorkEvent \<Rightarrow> (string \<times> waitOperation) list \<Rightarrow> (string \<times> waitOperation) list" where
  "wait_event e [] = [(ev_OperationID e, observe_wait e (new_operation e))]"
| "wait_event e ((opID, op) # ops) =
     (if opID = ev_OperationID e then (opID, observe_wait e op) # ops else (opID, op) # wait_event e ops)"

definition queue_cause :: "string \<Rightarrow> string" where
  "queue_cause blocker =
     (if blocker = WorkBlockerCapacity then ''queue_capacity''
      else if blocker = WorkBlockerFairness then ''queue_fairness''
      else if blocker = WorkBlockerReservation then ''queue_reservation'' else ''queue_other'')"

definition pressureCause :: "string \<Rightarrow> string" where
  "pressureCause dimension =
     (if dimension = ''cpu'' then ''pressure_cpu'' else if dimension = ''memory'' then ''pressure_memory''
      else if dimension = ''storage'' then ''pressure_storage'' else if dimension = ''swap'' then ''pressure_swap''
      else ''pressure_other'')"

definition WaitCausePressureSwap :: string where "WaitCausePressureSwap = ''pressure_swap''"
definition WaitCauseSingleflight :: string where "WaitCauseSingleflight = ''singleflight''"
definition WaitCauseOther :: string where "WaitCauseOther = ''other''"
definition admissionOverheadMS :: int where "admissionOverheadMS = 2000"

definition recorded_parts :: "waitOperation \<Rightarrow> tally" where
  "recorded_parts op =
     (let parts = (if wo_queueMS op > 0 then bump (queue_cause (wo_queueBlocker op)) (wo_queueMS op) [] else []);
          pressureMS = max 0 (wo_pressureMS op);
          admissionMS = max 0 (wo_admissionMS op);
          dimension = (if wo_dimension op = [] \<and> wo_swapDeferred op then ''swap'' else wo_dimension op);
          sample = (dimension = [] \<and> admissionMS < admissionOverheadMS);
          parts = (if sample then bump WaitCauseOther admissionMS parts else parts);
          gate = pressureMS + (if sample then 0 else admissionMS);
          parts = (if gate > 0 then bump (pressureCause dimension) gate parts else parts)
      in if wo_flightMS op > 0 then bump WaitCauseSingleflight (wo_flightMS op) parts else parts)"

definition causes :: "waitOperation \<Rightarrow> tally" where
  "causes op =
     (let parts = recorded_parts op;
          parts = (if wo_totalMS op > tally_sum parts
                   then bump WaitCauseOther (wo_totalMS op - tally_sum parts) parts else parts)
      in filter (\<lambda>kv. snd kv > 0) parts)"


section \<open>All operations\<close>

record WorkWaitCause =
  wc_Cause :: string
  wc_WaitMS :: int
  wc_Operations :: nat
  wc_Share :: rat

record longWait =
  lw_start :: time
  lw_end :: time
  lw_waitMS :: int
  lw_causes :: tally

record WorkWaitBurst =
  bu_Start :: time
  bu_End :: time
  bu_Operations :: nat
  bu_WaitMS :: int
  bu_MaxWaitMS :: int
  bu_Dominant :: string

record WorkWaitAttribution =
  at_TotalMS :: int
  at_Operations :: nat
  at_Dominant :: string
  at_ByCause :: "WorkWaitCause list"
  at_SwapShare :: rat
  at_LongWaitBursts :: "WorkWaitBurst list"

fun add_cause :: "string \<times> int \<Rightarrow> WorkWaitCause list \<Rightarrow> WorkWaitCause list" where
  "add_cause (cause, ms) [] =
     (if ms \<le> 0 then [] else [\<lparr> wc_Cause = cause, wc_WaitMS = ms, wc_Operations = 1, wc_Share = 0 \<rparr>])"
| "add_cause (cause, ms) (row # rows) =
     (if ms \<le> 0 then row # rows
      else if wc_Cause row = cause
      then row\<lparr> wc_WaitMS := wc_WaitMS row + ms, wc_Operations := wc_Operations row + 1 \<rparr> # rows
      else row # add_cause (cause, ms) rows)"

definition all_totals :: "waitOperation list \<Rightarrow> WorkWaitCause list" where
  "all_totals ops = fold (\<lambda>op. fold add_cause (causes op)) ops []"

definition long_waits :: "waitOperation list \<Rightarrow> longWait list" where
  "long_waits ops =
     map (\<lambda>op. \<lparr> lw_start = wo_start op, lw_end = wo_start op + milliseconds (tally_sum (causes op)),
                  lw_waitMS = tally_sum (causes op), lw_causes = causes op \<rparr>)
       (filter (\<lambda>op. tally_sum (causes op) > 0 \<and> tally_sum (causes op) \<ge> 120000) ops)"

definition dominantCause :: "tally \<Rightarrow> string" where
  "dominantCause cs =
     fst (fold (\<lambda>(cause, ms) (best, bestMS).
            if ms > bestMS \<or> ms = bestMS \<and> cause < best then (cause, ms) else (best, bestMS)) cs ([], -1))"

definition waitBurstGap :: duration where "waitBurstGap = seconds 900"
definition waitBurstLimit :: nat where "waitBurstLimit = 5"

definition new_burst :: "longWait \<Rightarrow> WorkWaitBurst \<times> tally" where
  "new_burst w =
     (\<lparr> bu_Start = lw_start w, bu_End = lw_end w, bu_Operations = 0, bu_WaitMS = 0, bu_MaxWaitMS = 0,
        bu_Dominant = [] \<rparr>, [])"

definition join_burst :: "longWait \<Rightarrow> WorkWaitBurst \<times> tally \<Rightarrow> WorkWaitBurst \<times> tally" where
  "join_burst w bc =
     (let (b, cs) = bc in
      (b\<lparr> bu_End := max (bu_End b) (lw_end w), bu_Operations := bu_Operations b + 1,
          bu_WaitMS := bu_WaitMS b + lw_waitMS w, bu_MaxWaitMS := max (bu_MaxWaitMS b) (lw_waitMS w) \<rparr>,
       fold (\<lambda>(cause, ms). bump cause ms) (lw_causes w) cs))"

text \<open>The bursts are kept with the latest one first.\<close>

fun add_wait :: "longWait \<Rightarrow> (WorkWaitBurst \<times> tally) list \<Rightarrow> (WorkWaitBurst \<times> tally) list" where
  "add_wait w [] = [join_burst w (new_burst w)]"
| "add_wait w (bc # bcs) =
     (if lw_start w > bu_End (fst bc) + waitBurstGap then join_burst w (new_burst w) # bc # bcs
      else join_burst w bc # bcs)"

definition all_bursts :: "longWait list \<Rightarrow> WorkWaitBurst list" where
  "all_bursts ws =
     map (\<lambda>(b, cs). b\<lparr> bu_Dominant := dominantCause cs \<rparr>) (rev (fold add_wait (sort_key lw_start ws) []))"

definition wait_share :: "int \<Rightarrow> WorkWaitCause \<Rightarrow> WorkWaitCause" where
  "wait_share totalMS row =
     row\<lparr> wc_Share := (if totalMS > 0 then of_int (wc_WaitMS row) / of_int totalMS else 0) \<rparr>"

definition summarizeWaitAttribution :: "WorkEvent list \<Rightarrow> WorkWaitAttribution" where
  "summarizeWaitAttribution events =
     (let ops = map snd (fold wait_event events []);
          totals = all_totals ops;
          waited = filter (\<lambda>op. tally_sum (causes op) > 0) ops;
          totalMS = sum_list (map (\<lambda>op. tally_sum (causes op)) waited);
          byCause = sort_key (\<lambda>row. (- wc_WaitMS row, wc_Cause row)) (map (wait_share totalMS) totals);
          bursts = all_bursts (long_waits ops)
      in \<lparr> at_TotalMS = totalMS, at_Operations = length waited,
           at_Dominant = (case byCause of [] \<Rightarrow> [] | row # _ \<Rightarrow> wc_Cause row), at_ByCause = byCause,
           at_SwapShare =
             (case find (\<lambda>row. wc_Cause row = WaitCausePressureSwap) totals of
                None \<Rightarrow> 0
              | Some row \<Rightarrow> if totalMS > 0 then of_int (wc_WaitMS row) / of_int totalMS else 0),
           at_LongWaitBursts = drop (length bursts - waitBurstLimit) bursts \<rparr>)"


section \<open>Conservation of the wait\<close>

definition recorded_wait :: "waitOperation \<Rightarrow> int" where
  "recorded_wait op =
     max 0 (wo_queueMS op) + max 0 (wo_pressureMS op) + max 0 (wo_admissionMS op) + max 0 (wo_flightMS op)"

lemma recorded_parts_nonneg: "list_all (\<lambda>kv. 0 \<le> snd kv) (recorded_parts op)"
  by (simp add: recorded_parts_def Let_def bump_nonneg)

lemma recorded_parts_sum: "tally_sum (recorded_parts op) = recorded_wait op"
  by (simp add: recorded_parts_def recorded_wait_def Let_def)

lemma causes_sum: "tally_sum (causes op) = max (wo_totalMS op) (recorded_wait op)"
  using recorded_parts_nonneg [of op]
  by (simp add: causes_def Let_def tally_sum_positive bump_nonneg recorded_parts_sum)

lemma recorded_wait_nonneg: "0 \<le> recorded_wait op"
  by (simp add: recorded_wait_def)

lemma causes_positive: "list_all (\<lambda>kv. 0 < snd kv) (causes op)"
  by (simp add: causes_def Let_def list_all_iff)

lemma recorded_parts_distinct: "distinct (map fst (recorded_parts op))"
  by (simp add: recorded_parts_def Let_def)

lemma causes_distinct: "distinct (map fst (causes op))"
  using recorded_parts_distinct [of op]
  by (simp add: causes_def Let_def distinct_map_filter)

definition rows_sum :: "WorkWaitCause list \<Rightarrow> int" where
  "rows_sum rows = sum_list (map wc_WaitMS rows)"

definition rows_ok :: "WorkWaitCause list \<Rightarrow> bool" where
  "rows_ok rows \<longleftrightarrow> distinct (map wc_Cause rows) \<and> list_all (\<lambda>row. 0 < wc_WaitMS row) rows"

lemma add_cause_sum: "0 < ms \<Longrightarrow> rows_sum (add_cause (cause, ms) rows) = rows_sum rows + ms"
  by (induction rows) (simp_all add: rows_sum_def)

lemma add_cause_names: "0 < ms \<Longrightarrow> wc_Cause ` set (add_cause (cause, ms) rows) = insert cause (wc_Cause ` set rows)"
  by (induction rows) (simp_all add: insert_commute)

lemma add_cause_ok: "0 < ms \<Longrightarrow> rows_ok rows \<Longrightarrow> rows_ok (add_cause (cause, ms) rows)"
  by (induction rows) (auto simp: rows_ok_def add_cause_names)

lemma add_causes:
  "list_all (\<lambda>kv. 0 < snd kv) cs \<Longrightarrow> rows_ok rows \<Longrightarrow>
     rows_sum (fold add_cause cs rows) = rows_sum rows + tally_sum cs \<and> rows_ok (fold add_cause cs rows)"
  by (induction cs arbitrary: rows) (auto simp: add_cause_sum add_cause_ok)

lemma totals_from:
  "rows_ok rows \<Longrightarrow>
     rows_sum (fold (\<lambda>op. fold add_cause (causes op)) ops rows) =
       rows_sum rows + sum_list (map (\<lambda>op. tally_sum (causes op)) ops) \<and>
     rows_ok (fold (\<lambda>op. fold add_cause (causes op)) ops rows)"
proof (induction ops arbitrary: rows)
  case (Cons op ops)
  then show ?case
    using Cons.IH [of "fold add_cause (causes op) rows"] add_causes [OF causes_positive Cons.prems, of op] by simp
qed simp

lemma all_totals_sum:
  "rows_sum (all_totals ops) = sum_list (map (\<lambda>op. tally_sum (causes op)) ops)"
  "rows_ok (all_totals ops)"
  using totals_from [of "[]" ops] by (simp_all add: all_totals_def rows_ok_def rows_sum_def)

lemma waited_sum:
  "sum_list (map (\<lambda>op. tally_sum (causes op)) (filter (\<lambda>op. tally_sum (causes op) > 0) ops)) =
     sum_list (map (\<lambda>op. tally_sum (causes op)) ops)"
proof (induction ops)
  case (Cons op ops)
  have "0 \<le> tally_sum (causes op)" using recorded_wait_nonneg [of op] by (simp add: causes_sum)
  with Cons show ?case by auto
qed simp

lemma sum_list_sort_key_map: "sum_list (map g (sort_key f xs)) = sum_list (map g xs)"
  for g :: "'a \<Rightarrow> 'b :: comm_monoid_add"
  by (metis mset_map mset_sort sum_mset_sum_list)

lemma share_sum:
  "sum_list (map (\<lambda>row. wc_Share (wait_share t row)) rows) =
     (if t > 0 then of_int (rows_sum rows) / of_int t else 0)"
  by (induction rows) (simp_all add: wait_share_def rows_sum_def add_divide_distrib)

lemma wait_share_simps [simp]:
  "wc_Cause (wait_share t row) = wc_Cause row" "wc_WaitMS (wait_share t row) = wc_WaitMS row"
  by (simp_all add: wait_share_def)

lemma named_share:
  "distinct (map wc_Cause rows) \<Longrightarrow>
   sum_list (map wc_Share (filter (\<lambda>row. wc_Cause row = c) (map (wait_share t) rows))) =
     (case find (\<lambda>row. wc_Cause row = c) rows of None \<Rightarrow> 0 | Some row \<Rightarrow> wc_Share (wait_share t row))"
proof (induction rows)
  case (Cons row rows)
  have "filter (\<lambda>r. wc_Cause r = c) (map (wait_share t) rows) = []" if "wc_Cause row = c"
    using Cons.prems that by (auto simp: filter_empty_conv image_iff)
  with Cons show ?case by auto
qed simp


section \<open>Bursts\<close>

definition covers :: "(WorkWaitBurst \<times> tally) list \<Rightarrow> longWait \<Rightarrow> bool" where
  "covers bcs w \<longleftrightarrow> list_ex (\<lambda>bc. bu_Start (fst bc) \<le> lw_start w \<and> lw_end w \<le> bu_End (fst bc) \<and>
     lw_waitMS w \<le> bu_MaxWaitMS (fst bc)) bcs"

definition burst_inv :: "longWait list \<Rightarrow> (WorkWaitBurst \<times> tally) list \<Rightarrow> bool" where
  "burst_inv ws bcs \<longleftrightarrow>
     sum_list (map (bu_Operations \<circ> fst) bcs) = length ws \<and>
     sum_list (map (bu_WaitMS \<circ> fst) bcs) = sum_list (map lw_waitMS ws) \<and>
     successively (\<lambda>later earlier. bu_End (fst earlier) + waitBurstGap < bu_Start (fst later)) bcs \<and>
     list_all (covers bcs) ws \<and>
     (bcs \<noteq> [] \<longrightarrow> ws \<noteq> [] \<and> bu_Start (fst (hd bcs)) \<le> lw_start (last ws))"

lemma join_burst_simps [simp]:
  "bu_Start (fst (join_burst w bc)) = bu_Start (fst bc)"
  "bu_End (fst (join_burst w bc)) = max (bu_End (fst bc)) (lw_end w)"
  "bu_Operations (fst (join_burst w bc)) = bu_Operations (fst bc) + 1"
  "bu_WaitMS (fst (join_burst w bc)) = bu_WaitMS (fst bc) + lw_waitMS w"
  "bu_MaxWaitMS (fst (join_burst w bc)) = max (bu_MaxWaitMS (fst bc)) (lw_waitMS w)"
  by (simp_all add: join_burst_def case_prod_beta)

lemma new_burst_simps [simp]:
  "bu_Start (fst (new_burst w)) = lw_start w" "bu_End (fst (new_burst w)) = lw_end w"
  "bu_Operations (fst (new_burst w)) = 0" "bu_WaitMS (fst (new_burst w)) = 0"
  "bu_MaxWaitMS (fst (new_burst w)) = 0"
  by (simp_all add: new_burst_def)

lemma add_wait_inv:
  assumes inv: "burst_inv ws bcs" and "sorted (map lw_start (ws @ [w]))" and "0 \<le> lw_waitMS w"
  shows "burst_inv (ws @ [w]) (add_wait w bcs)"
proof (cases bcs)
  case Nil
  with inv have "ws = []" by (cases ws) (auto simp: burst_inv_def covers_def)
  with Nil assms(3) show ?thesis by (simp add: burst_inv_def covers_def)
next
  case (Cons bc rest)
  with inv have start: "bu_Start (fst bc) \<le> lw_start w"
    using assms(2) by (cases ws rule: rev_cases) (auto simp: burst_inv_def sorted_append)
  show ?thesis
  proof (cases "lw_start w > bu_End (fst bc) + waitBurstGap")
    case True
    have "covers (join_burst w (new_burst w) # bc # rest) v" if "covers (bc # rest) v" for v
      using that by (auto simp: covers_def)
    moreover have "covers (join_burst w (new_burst w) # bc # rest) w" using assms(3) by (simp add: covers_def)
    ultimately show ?thesis using inv True by (auto simp: Cons burst_inv_def list_all_iff)
  next
    case False
    have "covers (join_burst w bc # rest) v" if "covers (bc # rest) v" for v
      using that by (auto simp: covers_def)
    moreover have "covers (join_burst w bc # rest) w" using start by (simp add: covers_def)
    ultimately show ?thesis
      using inv False start by (cases rest) (auto simp: Cons burst_inv_def list_all_iff)
  qed
qed

lemma bursts_inv:
  "sorted (map lw_start ws) \<Longrightarrow> list_all (\<lambda>w. 0 \<le> lw_waitMS w) ws \<Longrightarrow> burst_inv ws (fold add_wait ws [])"
proof (induction ws rule: rev_induct)
  case (snoc w ws)
  then show ?case by (simp add: add_wait_inv sorted_append)
qed (simp add: burst_inv_def)


section \<open>Properties of the attribution\<close>

text \<open>
  The attribution accounts for all wait. The total is the sum over the operations of the larger of the
  recorded total wait and the recorded parts; the causes have distinct names in order of decreasing
  wait; their waits add up to the total, their shares to one, and the swap share is the share of the
  swap cause.
\<close>

theorem wait_attribution_conserves:
  "let a = summarizeWaitAttribution events; ops = map snd (fold wait_event events []) in
     at_TotalMS a = sum_list (map (\<lambda>op. max (wo_totalMS op) (recorded_wait op)) ops) \<and>
     sum_list (map wc_WaitMS (at_ByCause a)) = at_TotalMS a \<and>
     sum_list (map wc_Share (at_ByCause a)) = (if at_TotalMS a = 0 then 0 else 1) \<and>
     distinct (map wc_Cause (at_ByCause a)) \<and> sorted (map (\<lambda>row. - wc_WaitMS row) (at_ByCause a)) \<and>
     at_SwapShare a = sum_list (map wc_Share (filter (\<lambda>row. wc_Cause row = WaitCausePressureSwap) (at_ByCause a)))"
proof -
  define ops where "ops = map snd (fold wait_event events [])"
  define t where "t = sum_list (map (\<lambda>op. tally_sum (causes op)) ops)"
  define rows where "rows = map (wait_share t) (all_totals ops)"
  let ?a = "summarizeWaitAttribution events"
  have cs: "at_ByCause ?a = sort_key (\<lambda>row. (- wc_WaitMS row, wc_Cause row)) rows"
    and total: "at_TotalMS ?a = t"
    and swap: "at_SwapShare ?a = (case find (\<lambda>row. wc_Cause row = WaitCausePressureSwap) (all_totals ops) of
        None \<Rightarrow> 0 | Some row \<Rightarrow> wc_Share (wait_share t row))"
    by (simp_all add: summarizeWaitAttribution_def Let_def waited_sum wait_share_def
        flip: ops_def t_def rows_def split: option.split)
  have names: "map wc_Cause rows = map wc_Cause (all_totals ops)" "map wc_WaitMS rows = map wc_WaitMS (all_totals ops)"
    by (simp_all add: rows_def)
  have sum: "rows_sum (all_totals ops) = t" by (simp add: all_totals_sum t_def)
  have "0 \<le> tally_sum (causes op)" for op using recorded_wait_nonneg [of op] by (simp add: causes_sum)
  then have nonneg: "0 \<le> t" unfolding t_def by (intro sum_list_nonneg) auto
  have dist: "distinct (map wc_Cause rows)" using all_totals_sum(2) [of ops] by (simp add: names rows_ok_def)
  have shares: "sum_list (map wc_Share rows) = (if t = 0 then 0 else 1)"
    using share_sum [of t "all_totals ops"] nonneg by (simp add: rows_def comp_def sum)
  have "sum_list (map wc_Share (filter P (sort_key f rows))) = sum_list (map wc_Share (filter P rows))" for P and f :: "_ \<Rightarrow> int \<times> string"
    by (metis mset_filter mset_map mset_sort sum_mset_sum_list)
  moreover have "sum_list (map wc_Share (filter (\<lambda>row. wc_Cause row = c) rows)) =
      (case find (\<lambda>row. wc_Cause row = c) (all_totals ops) of None \<Rightarrow> 0 | Some row \<Rightarrow> wc_Share (wait_share t row))" for c
    unfolding rows_def by (rule named_share) (use all_totals_sum(2) [of ops] in \<open>simp add: rows_ok_def\<close>)
  moreover have "distinct (map wc_Cause (sort_key f rows))" for f :: "_ \<Rightarrow> int \<times> string"
    using dist by (metis distinct_sort mset_eq_imp_distinct_iff mset_map mset_sort)
  moreover have "sorted (map (\<lambda>row. (- wc_WaitMS row, wc_Cause row)) (at_ByCause ?a))" by (simp add: cs)
  then have "sorted (map (\<lambda>row. - wc_WaitMS row) (at_ByCause ?a))"
    by (fastforce simp: sorted_iff_nth_mono)
  ultimately show ?thesis
    using sum names(2) shares
    by (simp add: Let_def total swap sum_list_sort_key_map rows_sum_def causes_sum flip: ops_def)
      (simp add: cs sum_list_sort_key_map t_def causes_sum)
qed

text \<open>
  Bursts partition the long waits. Every long wait is counted in one burst, the waits add up, a
  burst spans the waits it joins, and consecutive bursts are more than fifteen minutes apart.
\<close>

theorem bursts_partition_long_waits:
  "let ws = long_waits ops; bs = all_bursts ws in
     sum_list (map bu_Operations bs) = length ws \<and>
     sum_list (map bu_WaitMS bs) = sum_list (map lw_waitMS ws) \<and>
     successively (\<lambda>b b'. bu_End b + waitBurstGap < bu_Start b') bs \<and>
     list_all (\<lambda>w. list_ex (\<lambda>b. bu_Start b \<le> lw_start w \<and> lw_end w \<le> bu_End b \<and>
       lw_waitMS w \<le> bu_MaxWaitMS b) bs) ws"
proof -
  let ?ws = "sort_key lw_start (long_waits ops)"
  define bcs where "bcs = fold add_wait ?ws []"
  have "list_all (\<lambda>w. 0 \<le> lw_waitMS w) ?ws" by (auto simp: long_waits_def list_all_iff)
  then have inv: "burst_inv ?ws bcs" unfolding bcs_def by (intro bursts_inv) simp_all
  have bs: "all_bursts (long_waits ops) = map (\<lambda>(b, cs). b\<lparr> bu_Dominant := dominantCause cs \<rparr>) (rev bcs)"
    by (simp add: all_bursts_def bcs_def)
  have f: "map f (all_bursts (long_waits ops)) = rev (map (f \<circ> fst) bcs)"
    if "\<And>b d. f (b\<lparr> bu_Dominant := d \<rparr>) = f b" for f :: "WorkWaitBurst \<Rightarrow> 'a"
    using that by (simp add: bs comp_def case_prod_beta rev_map)
  have "list_ex P (all_bursts (long_waits ops)) = list_ex (P \<circ> fst) bcs"
    if "\<And>b d. P (b\<lparr> bu_Dominant := d \<rparr>) = P b" for P
    using that by (simp add: bs comp_def case_prod_beta list_ex_iff)
  moreover have "successively (\<lambda>b b'. bu_End b + waitBurstGap < bu_Start b') (all_bursts (long_waits ops))"
    using inv by (simp add: bs successively_map successively_rev burst_inv_def case_prod_beta)
  moreover have "sum_list (map lw_waitMS ?ws) = sum_list (map lw_waitMS (long_waits ops))"
    by (rule sum_list_sort_key_map)
  ultimately show ?thesis
    using inv f [of bu_Operations] f [of bu_WaitMS]
    by (simp add: Let_def burst_inv_def covers_def list_all_iff comp_def)
qed

text \<open>
  The parts of an operation can exceed its recorded wait: 40 seconds of queue wait and 30 seconds of
  pressure wait inside a recorded wait of 50 seconds are attributed as 70 seconds.
\<close>

theorem wait_parts_exceed_recorded:
  "let a = summarizeWaitAttribution
        [(bare_event WorkEventStarted ''a'' [] WorkClassBuild 5 7 [])\<lparr> ev_Timestamp := seconds 10,
           ev_Queue := no_queue\<lparr> eq_WaitMilliseconds := 50000, eq_QueueWaitMilliseconds := 40000,
             eq_PressureWaitMilliseconds := 30000, eq_PressureDimension := ''cpu'' \<rparr> \<rparr>]
   in at_TotalMS a = 70000 \<and> map wc_Cause (at_ByCause a) = [''queue_other'', ''pressure_cpu'']"
  by code_simp

end
