(* ===== verification/Swap_Derate_Cost.thy ===== *)
theory Swap_Derate_Cost
  imports Swap_Thrash Wait_Attribution
begin

text \<open>
  What the swap-thrash derate costs (\<^verbatim>\<open>sessionpressure/workswapderate.go\<close>): the wait of the
  operations it deferred, judged against a budget, and the history of thrash episodes rebuilt from
  the transitions in the resident's telemetry. Reading the day files is not modelled: the rows are
  the argument. The sentences of an advice or a note are replaced by the figures they print.
\<close>

section \<open>The wait of deferred operations\<close>

definition SwapThrashExternalDecision :: string where
  "SwapThrashExternalDecision = ''swap_thrash_external''"

record swapOperation =
  so_deferred :: bool
  so_external :: bool
  so_pressureMS :: int
  so_admissionMS :: int

definition observe_swap :: "WorkEvent \<Rightarrow> swapOperation \<Rightarrow> swapOperation" where
  "observe_swap e op =
     (let q = ev_Queue e; decision = ed_AdmissionDecision (ev_Decision e) in
      op\<lparr> so_deferred := (so_deferred op \<or> eq_PressureDimension q = ''swap'' \<or>
                          decision = SwapThrashDeferredDecision),
          so_external := (so_external op \<or> decision = SwapThrashExternalDecision),
          so_pressureMS := max (so_pressureMS op) (eq_PressureWaitMilliseconds q),
          so_admissionMS := max (so_admissionMS op) (eq_AdmissionWaitMilliseconds q) \<rparr>)"

definition zero_swap_operation :: swapOperation where
  "zero_swap_operation = \<lparr> so_deferred = False, so_external = False, so_pressureMS = 0, so_admissionMS = 0 \<rparr>"

fun swap_event :: "WorkEvent \<Rightarrow> (string \<times> swapOperation) list \<Rightarrow> (string \<times> swapOperation) list" where
  "swap_event e [] = [(ev_OperationID e, observe_swap e zero_swap_operation)]"
| "swap_event e ((opID, op) # ops) =
     (if opID = ev_OperationID e then (opID, observe_swap e op) # ops else (opID, op) # swap_event e ops)"

datatype derate_verdict = SwapDerateUnexercised | SwapDerateWithinBudget | SwapDerateOverBudget

datatype derate_reason = OverDailyBudget rat rat | OverSingleBudget int int

record SwapThrashEpisodes =
  se_Count :: int
  se_Open :: bool
  se_ExternalEpisodes :: int
  se_LatchedSeconds :: rat
  se_ExternalSeconds :: rat
  se_LongestSeconds :: rat
  se_Interrupted :: int

record WorkSwapDerateCost =
  dc_Verdict :: derate_verdict
  dc_DeferredOperations :: nat
  dc_ExternalBypasses :: nat
  dc_Wait :: WorkDurationStats
  dc_WaitTotalMS :: int
  dc_WaitMinutesPerDay :: rat
  dc_BudgetMinutesPerDay :: rat
  dc_BudgetMaxWaitMS :: int
  dc_Episodes :: "SwapThrashEpisodes option"
  dc_Advice :: "derate_reason list"
  dc_AllWaitTotalMS :: int
  dc_ShareOfAllWait :: rat
  dc_Note :: "(int \<times> rat \<times> string) option"

definition SwapDerateBudgetMinutesPerDay :: rat where "SwapDerateBudgetMinutesPerDay = 30"
definition SwapDerateBudgetMaxWait :: duration where "SwapDerateBudgetMaxWait = seconds 900"

definition SwapDerateCostBudget :: WorkSwapDerateCost where
  "SwapDerateCostBudget =
     \<lparr> dc_Verdict = SwapDerateUnexercised, dc_DeferredOperations = 0, dc_ExternalBypasses = 0,
       dc_Wait = durationStats [], dc_WaitTotalMS = 0, dc_WaitMinutesPerDay = 0,
       dc_BudgetMinutesPerDay = SwapDerateBudgetMinutesPerDay,
       dc_BudgetMaxWaitMS = go_div SwapDerateBudgetMaxWait 1000000, dc_Episodes = None, dc_Advice = [],
       dc_AllWaitTotalMS = 0, dc_ShareOfAllWait = 0, dc_Note = None \<rparr>"

definition swapDerateMinutesPerDay :: "int \<Rightarrow> time \<Rightarrow> time \<Rightarrow> WorkEvent list \<Rightarrow> rat" where
  "swapDerateMinutesPerDay totalMS since generatedAt events =
     (let start = (if IsZero since \<and> events \<noteq> [] then ev_Timestamp (hd events) else since);
          days = (if \<not> IsZero start \<and> generatedAt > start
                  then max 1 (of_int (time_sub generatedAt start) / of_int (seconds 86400)) else 1)
      in of_int totalMS / 60000 / days)"

definition judge :: "WorkSwapDerateCost \<Rightarrow> WorkSwapDerateCost" where
  "judge cost =
     (let cost = cost\<lparr> dc_Advice := [] \<rparr> in
      if dc_DeferredOperations cost = 0 then cost\<lparr> dc_Verdict := SwapDerateUnexercised \<rparr>
      else
        let reasons =
              (if dc_WaitMinutesPerDay cost > dc_BudgetMinutesPerDay cost
               then [OverDailyBudget (dc_WaitMinutesPerDay cost) (dc_BudgetMinutesPerDay cost)] else []) @
              (if ds_MaximumMS (dc_Wait cost) > dc_BudgetMaxWaitMS cost
               then [OverSingleBudget (ds_MaximumMS (dc_Wait cost)) (dc_BudgetMaxWaitMS cost)] else [])
        in if reasons = [] then cost\<lparr> dc_Verdict := SwapDerateWithinBudget \<rparr>
           else cost\<lparr> dc_Verdict := SwapDerateOverBudget, dc_Advice := reasons \<rparr>)"

definition derate_wait :: "swapOperation \<Rightarrow> int" where
  "derate_wait op = max 0 (so_pressureMS op) + max 0 (so_admissionMS op)"

definition summarizeSwapDerate :: "WorkEvent list \<Rightarrow> time \<Rightarrow> time \<Rightarrow> WorkSwapDerateCost" where
  "summarizeSwapDerate events since generatedAt =
     (let ops = map snd (fold swap_event events []);
          waits = map derate_wait (filter so_deferred ops);
          cost = SwapDerateCostBudget\<lparr>
            dc_ExternalBypasses := length (filter (\<lambda>op. so_external op \<and> \<not> so_deferred op) ops),
            dc_DeferredOperations := length waits, dc_WaitTotalMS := sum_list waits,
            dc_Wait := durationStats waits,
            dc_WaitMinutesPerDay := swapDerateMinutesPerDay (sum_list waits) since generatedAt events \<rparr>
      in judge cost)"

definition AttachEpisodes :: "SwapThrashEpisodes \<Rightarrow> WorkSwapDerateCost \<Rightarrow> WorkSwapDerateCost" where
  "AttachEpisodes episodes cost = cost\<lparr> dc_Episodes := Some episodes \<rparr>"

definition relateSwapDerateToAllWait :: "WorkSwapDerateCost \<Rightarrow> WorkWaitAttribution \<Rightarrow> WorkSwapDerateCost" where
  "relateSwapDerateToAllWait cost attribution =
     (let share = (if at_TotalMS attribution > 0
                   then min 1 (of_int (dc_WaitTotalMS cost) / of_int (at_TotalMS attribution)) else 0);
          long = sum_list (map (\<lambda>b. int (bu_Operations b)) (at_LongWaitBursts attribution))
      in cost\<lparr> dc_AllWaitTotalMS := at_TotalMS attribution, dc_ShareOfAllWait := share,
               dc_Note := (if long = 0 \<or> share \<ge> 1 / 2 then None
                           else Some (long, share * 100, at_Dominant attribution)) \<rparr>)"


section \<open>The history of episodes\<close>

record swapThrashHistoryEvent =
  th_Timestamp :: time
  th_Event :: string
  th_SwapThrash :: "SwapThrashTransition option"

text \<open>The local variables of \<^verbatim>\<open>summarizeSwapThrashEpisodes\<close>.\<close>

record episode_state =
  es_open :: bool
  es_proven :: bool
  es_suspended :: bool
  es_start :: time
  es_externalSince :: time
  es_suspendedAt :: time
  es_external :: rat
  es_summary :: SwapThrashEpisodes

definition no_episodes :: SwapThrashEpisodes where
  "no_episodes = \<lparr> se_Count = 0, se_Open = False, se_ExternalEpisodes = 0, se_LatchedSeconds = 0,
                   se_ExternalSeconds = 0, se_LongestSeconds = 0, se_Interrupted = 0 \<rparr>"

definition no_episode_state :: episode_state where
  "no_episode_state = \<lparr> es_open = False, es_proven = False, es_suspended = False, es_start = 0,
     es_externalSince = 0, es_suspendedAt = 0, es_external = 0, es_summary = no_episodes \<rparr>"

definition externalUntil :: "time \<Rightarrow> episode_state \<Rightarrow> rat" where
  "externalUntil end s =
     (if IsZero (es_externalSince s) then es_external s
      else es_external s + max 0 (duration_seconds (time_sub end (es_externalSince s))))"

definition closeEpisode :: "time \<Rightarrow> rat \<Rightarrow> episode_state \<Rightarrow> episode_state" where
  "closeEpisode end externalSeconds s =
     (let len = max 0 (duration_seconds (time_sub end (es_start s))); m = es_summary s
      in s\<lparr> es_summary := m\<lparr> se_LatchedSeconds := se_LatchedSeconds m + len,
              se_ExternalSeconds := se_ExternalSeconds m + min len (max 0 externalSeconds),
              se_LongestSeconds := max (se_LongestSeconds m) len,
              se_ExternalEpisodes := se_ExternalEpisodes m + (if es_proven s then 1 else 0) \<rparr>,
            es_open := False, es_proven := False, es_suspended := False, es_externalSince := 0,
            es_external := 0 \<rparr>)"

definition interrupt_episode :: "time \<Rightarrow> episode_state \<Rightarrow> episode_state" where
  "interrupt_episode end s =
     closeEpisode end (externalUntil end s)
       (s\<lparr> es_summary := (es_summary s)\<lparr> se_Interrupted := se_Interrupted (es_summary s) + 1 \<rparr> \<rparr>)"

definition endSuspended :: "episode_state \<Rightarrow> episode_state" where
  "endSuspended s = (if es_open s \<and> es_suspended s then interrupt_episode (es_suspendedAt s) s else s)"

definition continues :: "SwapThrashTransition \<Rightarrow> episode_state \<Rightarrow> bool" where
  "continues tr s \<longleftrightarrow> es_open s \<and> es_suspended s \<and> \<not> IsZero (tr_Since tr) \<and>
     \<bar>time_sub (tr_Since tr) (es_start s)\<bar> \<le> seconds 1"

definition count_episode :: "episode_state \<Rightarrow> episode_state" where
  "count_episode s = s\<lparr> es_summary := (es_summary s)\<lparr> se_Count := se_Count (es_summary s) + 1 \<rparr> \<rparr>"

definition prove_external :: "time \<Rightarrow> episode_state \<Rightarrow> episode_state" where
  "prove_external stamp s = s\<lparr> es_proven := True, es_externalSince := stamp \<rparr>"

definition episode_entered :: "time \<Rightarrow> SwapThrashTransition \<Rightarrow> episode_state \<Rightarrow> episode_state" where
  "episode_entered stamp tr s =
     (if tr_Resumed tr \<and> continues tr s then
        (let s = s\<lparr> es_suspended := False \<rparr> in
         if tr_Cause tr = SwapThrashCauseExternal \<and> IsZero (es_externalSince s)
         then prove_external stamp s else s)
      else
        let s = endSuspended s;
            s = (if es_open s then interrupt_episode stamp s else s);
            s = (count_episode s)\<lparr> es_open := True, es_proven := False, es_start := stamp,
                                   es_externalSince := 0, es_external := 0 \<rparr>;
            s = (if tr_Resumed tr \<and> \<not> IsZero (tr_Since tr) \<and> tr_Since tr < stamp
                 then s\<lparr> es_start := tr_Since tr \<rparr> else s)
        in if tr_Cause tr = SwapThrashCauseExternal then prove_external stamp s else s)"

definition go_trunc :: "rat \<Rightarrow> int" where
  "go_trunc x = (if x \<ge> 0 then \<lfloor>x\<rfloor> else \<lceil>x\<rceil>)"

definition episode_released :: "time \<Rightarrow> SwapThrashTransition \<Rightarrow> episode_state \<Rightarrow> episode_state" where
  "episode_released stamp tr s =
     (let s = (if continues tr s then s\<lparr> es_suspended := False \<rparr> else endSuspended s);
          s = (if \<not> es_open s
               then (count_episode s)\<lparr> es_open := True,
                      es_start := stamp - go_trunc (tr_EpisodeSeconds tr * 1000000000) \<rparr>
               else s);
          s = (if tr_Cause tr = SwapThrashCauseExternal then s\<lparr> es_proven := True \<rparr> else s);
          externalSeconds = (if tr_ExternalSeconds tr > 0 then tr_ExternalSeconds tr else externalUntil stamp s)
      in closeEpisode stamp externalSeconds s)"

definition episode_row :: "swapThrashHistoryEvent \<Rightarrow> episode_state \<Rightarrow> episode_state" where
  "episode_row row s =
     (let stamp = th_Timestamp row in
      if th_Event row = ''resident_started'' \<or> th_Event row = ''resident_stopped'' then
        (if es_open s \<and> \<not> es_suspended s then s\<lparr> es_suspended := True, es_suspendedAt := stamp \<rparr> else s)
      else case th_SwapThrash row of
        None \<Rightarrow> s
      | Some tr \<Rightarrow>
          if tr_State tr = SwapThrashEntered then episode_entered stamp tr s
          else if tr_State tr = SwapThrashDerateReleased then
            (if es_open s \<and> \<not> es_suspended s \<and> IsZero (es_externalSince s) then prove_external stamp s else s)
          else if tr_State tr = SwapThrashDerateResumed then
            (if es_open s \<and> \<not> es_suspended s \<and> \<not> IsZero (es_externalSince s)
             then s\<lparr> es_external := externalUntil stamp s, es_externalSince := 0 \<rparr> else s)
          else if tr_State tr = SwapThrashReleased then episode_released stamp tr s
          else s)"

definition finish_episodes :: "time \<Rightarrow> episode_state \<Rightarrow> SwapThrashEpisodes" where
  "finish_episodes now s =
     (let s = endSuspended s; m = es_summary s in
      if es_open s then
        let len = max 0 (duration_seconds (time_sub now (es_start s))) in
        m\<lparr> se_Open := True, se_LatchedSeconds := se_LatchedSeconds m + len,
           se_ExternalSeconds := se_ExternalSeconds m + min len (externalUntil now s),
           se_LongestSeconds := max (se_LongestSeconds m) len,
           se_ExternalEpisodes := se_ExternalEpisodes m + (if es_proven s then 1 else 0) \<rparr>
      else m)"

definition summarizeSwapThrashEpisodes :: "swapThrashHistoryEvent list \<Rightarrow> time \<Rightarrow> SwapThrashEpisodes" where
  "summarizeSwapThrashEpisodes rows now =
     finish_episodes now (fold episode_row (sort_key th_Timestamp rows) no_episode_state)"


section \<open>Bounds of the history\<close>

text \<open>
  \<open>history_ok\<close>: the sums are consistent, and an open episode is one that is counted but has not yet
  contributed to the closed ones.
\<close>

definition history_ok :: "episode_state \<Rightarrow> bool" where
  "history_ok s \<longleftrightarrow>
     (let m = es_summary s; closed = se_Count m - (if es_open s then 1 else 0) in
      0 \<le> se_ExternalSeconds m \<and> se_ExternalSeconds m \<le> se_LatchedSeconds m \<and>
      0 \<le> se_LongestSeconds m \<and> se_LongestSeconds m \<le> se_LatchedSeconds m \<and>
      0 \<le> se_ExternalEpisodes m \<and> se_ExternalEpisodes m \<le> closed \<and>
      0 \<le> se_Interrupted m \<and> se_Interrupted m \<le> closed \<and> 0 \<le> es_external s)"

lemma externalUntil_nonneg: "0 \<le> es_external s \<Longrightarrow> 0 \<le> externalUntil end s"
  by (simp add: externalUntil_def)

lemma close_ok:
  assumes "history_ok s" and "es_open s"
  shows "history_ok (closeEpisode end ext s) \<and> \<not> es_open (closeEpisode end ext s)"
proof -
  let ?len = "max 0 (duration_seconds (time_sub end (es_start s)))"
  have "0 \<le> ?len" "min ?len (max 0 ext) \<le> ?len" "0 \<le> min ?len (max 0 ext)" by simp_all
  then show ?thesis
    using assms by (simp add: history_ok_def closeEpisode_def Let_def add_mono del: min.bounded_iff)
      (auto simp: max_def)
qed

lemma interrupt_ok:
  assumes "history_ok s" and "es_open s"
  shows "history_ok (interrupt_episode end s) \<and> \<not> es_open (interrupt_episode end s)"
proof -
  let ?t = "s\<lparr> es_summary := (es_summary s)\<lparr> se_Interrupted := se_Interrupted (es_summary s) + 1 \<rparr> \<rparr>"
  let ?len = "max 0 (duration_seconds (time_sub end (es_start s)))" and ?ext = "externalUntil end s"
  have "0 \<le> ?len" "min ?len (max 0 ?ext) \<le> ?len" "0 \<le> min ?len (max 0 ?ext)" by simp_all
  then show ?thesis
    using assms by (simp add: history_ok_def interrupt_episode_def closeEpisode_def Let_def add_mono del: min.bounded_iff)
      (auto simp: max_def)
qed

lemma endSuspended_ok: "history_ok s \<Longrightarrow> history_ok (endSuspended s)"
  by (simp add: endSuspended_def interrupt_ok)

lemma prove_external_ok [simp]: "history_ok (prove_external stamp s) = history_ok s"
  by (simp add: history_ok_def prove_external_def Let_def)

lemma history_frame [simp]:
  "history_ok (s\<lparr> es_start := a \<rparr>) = history_ok s" "history_ok (s\<lparr> es_proven := p \<rparr>) = history_ok s"
  "history_ok (s\<lparr> es_suspended := p \<rparr>) = history_ok s" "history_ok (s\<lparr> es_suspendedAt := a \<rparr>) = history_ok s"
  "history_ok (s\<lparr> es_externalSince := a \<rparr>) = history_ok s"
  by (simp_all add: history_ok_def Let_def)

lemma history_external [simp]: "history_ok s \<Longrightarrow> 0 \<le> e \<Longrightarrow> history_ok (s\<lparr> es_external := e \<rparr>)"
  by (simp add: history_ok_def Let_def)

lemma history_externalUntil [simp]: "history_ok s \<Longrightarrow> 0 \<le> externalUntil end s"
  by (rule externalUntil_nonneg) (simp add: history_ok_def Let_def)

lemma start_ok [simp]: "history_ok s \<Longrightarrow> \<not> es_open s \<Longrightarrow> history_ok ((count_episode s)\<lparr> es_open := True \<rparr>)"
  by (simp add: history_ok_def count_episode_def Let_def)

lemma entered_ok: "history_ok s \<Longrightarrow> history_ok (episode_entered stamp tr s)"
proof -
  assume ok: "history_ok s"
  let ?e = "endSuspended s"
  let ?i = "if es_open ?e then interrupt_episode stamp ?e else ?e"
  have "history_ok ?i \<and> \<not> es_open ?i"
    using endSuspended_ok [OF ok] interrupt_ok [of ?e stamp] by auto
  moreover define i where "i = ?i"
  ultimately have i: "history_ok i" "\<not> es_open i" by simp_all
  have "episode_entered stamp tr s =
     (if tr_Resumed tr \<and> continues tr s then
        (if tr_Cause tr = SwapThrashCauseExternal \<and> IsZero (es_externalSince s)
         then prove_external stamp (s\<lparr> es_suspended := False \<rparr>) else s\<lparr> es_suspended := False \<rparr>)
      else
        let s = (count_episode i)\<lparr> es_open := True, es_proven := False, es_start := stamp,
                                   es_externalSince := 0, es_external := 0 \<rparr>;
            s = (if tr_Resumed tr \<and> \<not> IsZero (tr_Since tr) \<and> tr_Since tr < stamp
                 then s\<lparr> es_start := tr_Since tr \<rparr> else s)
        in if tr_Cause tr = SwapThrashCauseExternal then prove_external stamp s else s)"
    by (simp add: episode_entered_def Let_def i_def)
  then show ?thesis using ok i by (simp add: Let_def)
qed

lemma released_ok: "history_ok s \<Longrightarrow> history_ok (episode_released stamp tr s)"
proof -
  assume ok: "history_ok s"
  let ?a = "if continues tr s then s\<lparr> es_suspended := False \<rparr> else endSuspended s"
  let ?b = "\<lambda>start. if \<not> es_open ?a then (count_episode ?a)\<lparr> es_open := True, es_start := start \<rparr> else ?a"
  have a: "history_ok ?a" using ok endSuspended_ok [OF ok] by simp
  then have b: "history_ok (?b start) \<and> es_open (?b start)" for start
    by (cases "es_open ?a") (simp_all split del: if_split)
  have "history_ok (if c then (?b start)\<lparr> es_proven := True \<rparr> else ?b start) \<and>
      es_open (if c then (?b start)\<lparr> es_proven := True \<rparr> else ?b start)" for c start
    using b [of start] by (cases c) (simp_all split del: if_split)
  then show ?thesis
    unfolding episode_released_def Let_def by (intro close_ok [THEN conjunct1]) blast+
qed

lemma row_ok: "history_ok s \<Longrightarrow> history_ok (episode_row row s)"
  by (simp add: episode_row_def Let_def entered_ok released_ok split: option.split)

lemma rows_ok_from: "history_ok s \<Longrightarrow> history_ok (fold episode_row rows s)"
  by (induction rows arbitrary: s) (simp_all add: row_ok)


section \<open>The report of a resident's own run\<close>

text \<open>The telemetry rows of a run of the latch: each recorded transition at the time of its sample.\<close>

fun run_rows ::
  "int \<Rightarrow> Thresholds \<Rightarrow> WorkLimits \<Rightarrow> swapThrashLatch \<Rightarrow> Snapshot list \<Rightarrow> swapThrashHistoryEvent list" where
  "run_rows n t w l [] = []"
| "run_rows n t w l (s # ss) =
     (case snd (snd (advance n l s t w)) of
        None \<Rightarrow> run_rows n t w (fst (advance n l s t w)) ss
      | Some tr \<Rightarrow>
          \<lparr> th_Timestamp = sn_Timestamp s, th_Event = ''swap_thrash_transition'', th_SwapThrash = Some tr \<rparr>
          # run_rows n t w (fst (advance n l s t w)) ss)"

text \<open>The time during which the latch satisfied \<open>P\<close>, from the instant \<open>prev\<close> until \<open>now\<close>.\<close>

fun time_while ::
  "(swapThrashLatch \<Rightarrow> bool) \<Rightarrow> int \<Rightarrow> Thresholds \<Rightarrow> WorkLimits \<Rightarrow> swapThrashLatch \<Rightarrow> time \<Rightarrow>
     Snapshot list \<Rightarrow> time \<Rightarrow> int"
where
  "time_while P n t w l prev [] now = (if P l then now - prev else 0)"
| "time_while P n t w l prev (s # ss) now =
     (if P l then sn_Timestamp s - prev else 0) +
     time_while P n t w (fst (advance n l s t w)) (sn_Timestamp s) ss now"

definition entries :: "SwapThrashTransition list \<Rightarrow> int" where
  "entries trs = int (length (filter (\<lambda>tr. tr_State tr = SwapThrashEntered) trs))"

definition ext_time :: "swapThrashLatch \<Rightarrow> time \<Rightarrow> int" where
  "ext_time l now = tl_externalTotal l + (if tl_external l then now - tl_externalSince l else 0)"

definition agrees :: "time \<Rightarrow> swapThrashLatch \<Rightarrow> time \<Rightarrow> episode_state \<Rightarrow> bool" where
  "agrees first l prev s \<longleftrightarrow>
     \<not> es_suspended s \<and> es_open s = tl_latched l \<and> \<not> tl_resumed l \<and> (tl_external l \<longrightarrow> tl_latched l) \<and>
     (if tl_latched l then
        es_start s = tl_since l \<and> first \<le> tl_since l \<and> tl_since l \<le> prev \<and>
        es_external s = duration_seconds (tl_externalTotal l) \<and> 0 \<le> tl_externalTotal l \<and>
        es_externalSince s = (if tl_external l then tl_externalSince l else 0) \<and>
        (tl_external l \<longrightarrow> tl_since l \<le> tl_externalSince l \<and> tl_externalSince l \<le> prev) \<and>
        ext_time l prev \<le> prev - tl_since l
      else es_external s = 0 \<and> es_externalSince s = 0)"

definition report_so_far :: "swapThrashLatch \<Rightarrow> time \<Rightarrow> episode_state \<Rightarrow> SwapThrashEpisodes \<Rightarrow> bool" where
  "report_so_far l prev s m \<longleftrightarrow>
     se_LatchedSeconds m = se_LatchedSeconds (es_summary s) +
       (if tl_latched l then duration_seconds (prev - tl_since l) else 0) \<and>
     se_ExternalSeconds m = se_ExternalSeconds (es_summary s) +
       (if tl_latched l then duration_seconds (ext_time l prev) else 0) \<and>
     se_Count m = se_Count (es_summary s) \<and> se_Interrupted m = se_Interrupted (es_summary s)"

lemma duration_seconds_add: "duration_seconds (a + b) = duration_seconds a + duration_seconds b"
  by (simp add: duration_seconds_def add_divide_distrib)

lemma duration_seconds_zero [simp]: "duration_seconds 0 = 0"
  by (simp add: duration_seconds_def)

lemma duration_seconds_le [simp]: "duration_seconds a \<le> duration_seconds b \<longleftrightarrow> a \<le> b"
  by (simp add: duration_seconds_def)

lemma duration_seconds_nonneg [simp]: "0 \<le> duration_seconds a \<longleftrightarrow> 0 \<le> a"
  using duration_seconds_le [of 0 a] by simp

lemma attribute_spans:
  "tl_externalSince (fst (attribute l s w)) =
     (if tl_external (fst (attribute l s w)) then (if tl_external l then tl_externalSince l else sn_Timestamp s)
      else if tl_external l then 0 else tl_externalSince l)"
  "tl_externalTotal (fst (attribute l s w)) = tl_externalTotal l +
     (if tl_external l \<and> \<not> tl_external (fst (attribute l s w))
      then time_sub (sn_Timestamp s) (tl_externalSince l) else 0)"
  by (simp_all add: attribute_def setExternal_def Let_def)

lemma observe_spans:
  "tl_latched (fst (observe_thrash l s t)) \<Longrightarrow>
     tl_externalSince (fst (observe_thrash l s t)) = tl_externalSince l \<and>
     tl_externalTotal (fst (observe_thrash l s t)) = tl_externalTotal l"
  by (auto simp: observe_thrash_def count_sample_def zero_latch_def Let_def split: if_splits)


definition row_of :: "time \<Rightarrow> SwapThrashTransition \<Rightarrow> swapThrashHistoryEvent" where
  "row_of stamp tr =
     \<lparr> th_Timestamp = stamp, th_Event = ''swap_thrash_transition'', th_SwapThrash = Some tr \<rparr>"

definition read_row :: "time \<Rightarrow> SwapThrashTransition option \<Rightarrow> episode_state \<Rightarrow> episode_state" where
  "read_row stamp tr s = (case tr of None \<Rightarrow> s | Some x \<Rightarrow> episode_row (row_of stamp x) s)"

definition entered_now :: "SwapThrashTransition option \<Rightarrow> int" where
  "entered_now tr = (case tr of None \<Rightarrow> 0 | Some x \<Rightarrow> if tr_State x = SwapThrashEntered then 1 else 0)"

text \<open>\<open>stepped\<close>: what reading the row of one sample adds to the report.\<close>

definition stepped ::
  "time \<Rightarrow> swapThrashLatch \<Rightarrow> time \<Rightarrow> swapThrashLatch \<Rightarrow> time \<Rightarrow> int \<Rightarrow> episode_state \<Rightarrow> episode_state \<Rightarrow> bool"
where
  "stepped first l prev l' now k s s' \<longleftrightarrow>
     agrees first l' now s' \<and>
     (\<forall>m. report_so_far l' now s' m \<longleftrightarrow>
        report_so_far l prev s (m\<lparr>
          se_LatchedSeconds := se_LatchedSeconds m - duration_seconds (if tl_latched l then now - prev else 0),
          se_ExternalSeconds := se_ExternalSeconds m - duration_seconds (if tl_external l then now - prev else 0),
          se_Count := se_Count m - k \<rparr>))"

lemmas read_row_simps =
  read_row_def row_of_def episode_row_def entered_now_def Let_def thrash_words

lemma attribute_cause:
  "tl_cause (fst (attribute l s w)) = ''external'' \<longleftrightarrow> tl_external (fst (attribute l s w))"
  using attribute_external [of l s w] by (simp add: SwapThrashCauseExternal_def)

lemma enter_stepped:
  assumes "agrees first l prev s" and "\<not> tl_latched l" and "tl_latched o'" and "tl_external o' = tl_external l"
    and "tl_resumed o' = tl_resumed l" and "0 < sn_Timestamp x" and "first \<le> sn_Timestamp x"
  shows "stepped first l prev (fst (enter_episode l o' x w)) (sn_Timestamp x)
    (entered_now (snd (snd (enter_episode l o' x w)))) s
    (read_row (sn_Timestamp x) (snd (snd (enter_episode l o' x w))) s)"
  using assms
  by (auto simp: enter_episode_def case_prod_beta read_row_simps transition_def fillEvidence_def stepped_def
      agrees_def report_so_far_def episode_entered_def endSuspended_def count_episode_def zero_transition_def
      prove_external_def attribute_spans attribute_cause ext_time_def duration_seconds_add)

lemma exact_sub:
  assumes "first \<le> a" and "a \<le> b" and "b - first \<le> max_duration"
  shows "time_sub b a = b - a"
  using assms by (intro time_sub_exact) (simp_all add: min_duration_def max_duration_def)

lemma release_stepped:
  assumes ag: "agrees first l prev s" and "tl_latched l" and "prev \<le> sn_Timestamp x" and "0 < first"
    and "sn_Timestamp x - first \<le> max_duration"
  shows "stepped first l prev (fst (release_episode l o' x w)) (sn_Timestamp x)
    (entered_now (snd (snd (release_episode l o' x w)))) s
    (read_row (sn_Timestamp x) (snd (snd (release_episode l o' x w))) s)"
proof -
  let ?now = "sn_Timestamp x"
  have len: "time_sub ?now (tl_since l) = ?now - tl_since l"
    using assms by (intro exact_sub [of first]) (auto simp: agrees_def)
  have ext: "tl_external l \<Longrightarrow> time_sub ?now (tl_externalSince l) = ?now - tl_externalSince l"
    using assms by (intro exact_sub [of first]) (auto simp: agrees_def)
  have since: "tl_external l \<Longrightarrow> tl_externalSince l \<noteq> 0" using ag assms(2,4) by (auto simp: agrees_def)
  have total: "0 \<le> ext_time l ?now" "ext_time l ?now \<le> ?now - tl_since l"
    using ag assms(2,3) by (auto simp: agrees_def ext_time_def split: if_splits)
  have until: "externalUntil ?now s = duration_seconds (ext_time l ?now)"
    using ag assms(2,3) ext since
    by (auto simp: agrees_def externalUntil_def ext_time_def IsZero_def duration_seconds_add split: if_splits)
  have frame: "externalUntil ?now (s\<lparr> es_proven := True \<rparr>) = externalUntil ?now s"
    by (simp add: externalUntil_def)
  define tr where "tr = the (snd (snd (release_episode l o' x w)))"
  have tr: "snd (snd (release_episode l o' x w)) = Some tr" "tr_State tr = SwapThrashReleased"
    "tr_ExternalSeconds tr = duration_seconds (ext_time l ?now)"
    using total ext
    by (auto simp: tr_def release_episode_def Let_def fillEvidence_def ext_time_def max_def)
  have len0: "0 \<le> ?now - tl_since l" using ag assms(2,3) by (auto simp: agrees_def)
  have read: "read_row ?now (Some tr) s = closeEpisode ?now (duration_seconds (ext_time l ?now))
      (if tr_Cause tr = SwapThrashCauseExternal then s\<lparr> es_proven := True \<rparr> else s)"
    using ag assms(2) tr(2,3) until frame
    by (simp add: read_row_def row_of_def episode_row_def episode_released_def Let_def continues_def
        endSuspended_def agrees_def thrash_words)
  have off: "\<not> tl_latched (fst (release_episode l o' x w))" "\<not> tl_external (fst (release_episode l o' x w))"
    "\<not> tl_resumed (fst (release_episode l o' x w))"
    by (simp_all add: release_episode_def Let_def zero_latch_def)
  have parts: "duration_seconds (?now - tl_since l) = duration_seconds (prev - tl_since l) + duration_seconds (?now - prev)"
    "duration_seconds (ext_time l ?now) = duration_seconds (ext_time l prev) +
       duration_seconds (if tl_external l then ?now - prev else 0)"
    by (simp_all add: ext_time_def flip: duration_seconds_add)
  have capped: "min (max 0 (duration_seconds (?now - tl_since l))) (max 0 (duration_seconds (ext_time l ?now))) =
      duration_seconds (ext_time l ?now)" "max 0 (duration_seconds (?now - tl_since l)) = duration_seconds (?now - tl_since l)"
    using total len0 by (simp_all add: max_def min_def)
  have sums: "se_LatchedSeconds (es_summary (read_row ?now (Some tr) s)) =
      se_LatchedSeconds (es_summary s) + duration_seconds (?now - tl_since l)"
    "se_ExternalSeconds (es_summary (read_row ?now (Some tr) s)) =
      se_ExternalSeconds (es_summary s) + duration_seconds (ext_time l ?now)"
    "se_Count (es_summary (read_row ?now (Some tr) s)) = se_Count (es_summary s)"
    "se_Interrupted (es_summary (read_row ?now (Some tr) s)) = se_Interrupted (es_summary s)"
    "\<not> es_suspended (read_row ?now (Some tr) s)" "\<not> es_open (read_row ?now (Some tr) s)"
    "es_external (read_row ?now (Some tr) s) = 0" "es_externalSince (read_row ?now (Some tr) s) = 0"
    unfolding read using ag assms(2) capped by (simp_all add: closeEpisode_def Let_def len agrees_def)
  have "entered_now (Some tr) = 0" using tr(2) by (simp add: entered_now_def thrash_words)
  then show ?thesis
    unfolding tr(1) stepped_def using off sums parts assms(2) by (auto simp: agrees_def report_so_far_def)
qed

lemma continue_stepped:
  assumes ag: "agrees first l prev s" and "tl_latched l" and "tl_latched o'" and "prev \<le> sn_Timestamp x"
    and "0 < first" and "sn_Timestamp x - first \<le> max_duration"
    and o: "tl_external o' = tl_external l" "tl_resumed o' = tl_resumed l" "tl_since o' = tl_since l"
      "tl_externalSince o' = tl_externalSince l" "tl_externalTotal o' = tl_externalTotal l"
  shows "stepped first l prev (fst (continue_episode l o' x w)) (sn_Timestamp x)
    (entered_now (snd (snd (continue_episode l o' x w)))) s
    (read_row (sn_Timestamp x) (snd (snd (continue_episode l o' x w))) s)"
proof -
  let ?now = "sn_Timestamp x" and ?a = "fst (attribute o' x w)"
  have a: "tl_latched ?a" "tl_since ?a = tl_since l" "\<not> tl_resumed ?a"
    using assms(3) o ag by (simp_all add: agrees_def)
  have ext: "tl_external l \<Longrightarrow> time_sub ?now (tl_externalSince l) = ?now - tl_externalSince l"
    using assms by (intro exact_sub [of first]) (auto simp: agrees_def)
  have since: "tl_external l \<Longrightarrow> tl_externalSince l \<noteq> 0" using ag assms(2,5) by (auto simp: agrees_def)
  note spans = attribute_spans [of o' x w, unfolded o]
  have parts: "duration_seconds (?now - tl_since l) = duration_seconds (prev - tl_since l) + duration_seconds (?now - prev)"
    "duration_seconds (ext_time ?a ?now) = duration_seconds (ext_time l prev) +
       duration_seconds (if tl_external l then ?now - prev else 0)"
    using spans ext by (auto simp: ext_time_def simp flip: duration_seconds_add)
  have total: "ext_time ?a ?now \<le> ?now - tl_since l"
    using ag assms(2,4) spans ext by (auto simp: agrees_def ext_time_def split: if_splits)
  have latch: "fst (continue_episode l o' x w) = ?a"
    using ag by (simp add: continue_episode_def case_prod_beta Let_def agrees_def)
  show ?thesis
  proof (cases "tl_external ?a = tl_external l")
    case True
    then have "snd (snd (continue_episode l o' x w)) = None"
      using ag by (simp add: continue_episode_def case_prod_beta Let_def agrees_def)
    then show ?thesis
      unfolding latch stepped_def using True ag a assms(2,4) spans total parts
      by (auto simp: read_row_def entered_now_def agrees_def report_so_far_def)
  next
    case False
    then have tr: "snd (snd (continue_episode l o' x w)) = Some (transition ?a
        (if tl_external ?a then SwapThrashDerateReleased else SwapThrashDerateResumed) (snd (attribute o' x w)) w)"
      using ag by (simp add: continue_episode_def case_prod_beta Let_def agrees_def)
    show ?thesis
    proof (cases "tl_external ?a")
      case True
      with False have n: "\<not> tl_external l" by simp
      have "read_row ?now (snd (snd (continue_episode l o' x w))) s = prove_external ?now s"
        unfolding tr using True n ag assms(2)
        by (simp add: read_row_simps agrees_def IsZero_def)
      moreover have "entered_now (snd (snd (continue_episode l o' x w))) = 0"
        unfolding tr using True by (simp add: entered_now_def thrash_words)
      ultimately show ?thesis
        unfolding latch stepped_def using True n ag a assms(2,4) spans total parts
        by (auto simp: prove_external_def agrees_def report_so_far_def)
    next
      case f: False
      with False have n: "tl_external l" by simp
      have "externalUntil ?now s = duration_seconds (tl_externalTotal ?a)"
        using n f ag assms(2,4) ext since spans
        by (auto simp: agrees_def externalUntil_def IsZero_def duration_seconds_add)
      then have "read_row ?now (snd (snd (continue_episode l o' x w))) s =
          s\<lparr> es_external := duration_seconds (tl_externalTotal ?a), es_externalSince := 0 \<rparr>"
        unfolding tr using f n ag assms(2) since
        by (simp add: read_row_simps agrees_def IsZero_def)
      moreover have "entered_now (snd (snd (continue_episode l o' x w))) = 0"
        unfolding tr using f by (simp add: entered_now_def thrash_words)
      ultimately show ?thesis
        unfolding latch stepped_def using f n ag a assms(2,4) spans total parts ext
        by (auto simp: agrees_def report_so_far_def)
    qed
  qed
qed

lemma advance_stepped:
  assumes ag: "agrees first l prev s" and "prev \<le> sn_Timestamp x" and "0 < first" and "first \<le> sn_Timestamp x"
    and "sn_Timestamp x - first \<le> max_duration"
  shows "stepped first l prev (fst (advance n l x t w)) (sn_Timestamp x)
    (entered_now (snd (snd (advance n l x t w)))) s
    (read_row (sn_Timestamp x) (snd (snd (advance n l x t w))) s)"
proof -
  let ?o = "fst (observe_thrash l x t)" and ?x = "snd (observe_thrash l x t)" and ?w = "normalizeWorkLimits n w"
  have x: "sn_Timestamp ?x = sn_Timestamp x" by (simp add: observe_snapshot)
  note adv = advance_eq [of n l x t w]
  consider (enter) "\<not> tl_latched l" "tl_latched ?o" | (release) "tl_latched l" "\<not> tl_latched ?o"
    | (continue) "tl_latched l" "tl_latched ?o" | (idle) "\<not> tl_latched l" "\<not> tl_latched ?o"
    by blast
  then show ?thesis
  proof cases
    case enter
    then show ?thesis
      using enter_stepped [OF ag enter, where x = ?x and w = ?w] observe_frame [of l x t] assms
      by (simp add: adv Let_def x)
  next
    case release
    then show ?thesis using release_stepped [OF ag, where o' = ?o and x = ?x and w = ?w] assms by (simp add: adv Let_def x)
  next
    case continue
    then show ?thesis
      using continue_stepped [OF ag continue, where x = ?x and w = ?w] observe_frame [of l x t] observe_spans [of l x t] assms
      by (simp add: adv Let_def x)
  next
    case idle
    then show ?thesis
      using ag observe_unlatched_frame [of l x t]
      by (auto simp: adv Let_def stepped_def read_row_def entered_now_def agrees_def report_so_far_def)
  qed
qed

lemma run_rows_Cons:
  "fold episode_row (run_rows n t w l (x # ss)) s =
     fold episode_row (run_rows n t w (fst (advance n l x t w)) ss)
       (read_row (sn_Timestamp x) (snd (snd (advance n l x t w))) s)"
  by (simp add: read_row_def row_of_def split: option.split)

lemma entries_Cons:
  "entries (snd (thrash_run n t w l (x # ss))) =
     entered_now (snd (snd (advance n l x t w))) + entries (snd (thrash_run n t w (fst (advance n l x t w)) ss))"
  by (simp add: thrash_run_Cons entries_def entered_now_def del: thrash_run.simps split: option.split)

definition adjusted :: "int \<Rightarrow> int \<Rightarrow> int \<Rightarrow> SwapThrashEpisodes \<Rightarrow> SwapThrashEpisodes" where
  "adjusted a b k m = m\<lparr> se_LatchedSeconds := se_LatchedSeconds m - duration_seconds a,
     se_ExternalSeconds := se_ExternalSeconds m - duration_seconds b, se_Count := se_Count m - k \<rparr>"

lemma adjusted_add: "adjusted a b k (adjusted a' b' k' m) = adjusted (a + a') (b + b') (k + k') m"
  by (simp add: adjusted_def duration_seconds_add algebra_simps)

lemma finish_report:
  assumes ag: "agrees first l prev s" and "prev \<le> now" and "0 < first" and "now - first \<le> max_duration"
  shows "report_so_far l prev s (adjusted (if tl_latched l then now - prev else 0)
      (if tl_external l then now - prev else 0) 0 (finish_episodes now s)) \<and>
    (se_Open (finish_episodes now s) \<longleftrightarrow> tl_latched l \<or> se_Open (es_summary s))"
proof (cases "tl_latched l")
  case False
  with ag show ?thesis
    by (auto simp: finish_episodes_def endSuspended_def agrees_def report_so_far_def adjusted_def Let_def)
next
  case True
  have len: "time_sub now (tl_since l) = now - tl_since l"
    using assms True by (intro exact_sub [of first]) (auto simp: agrees_def)
  have ext: "tl_external l \<Longrightarrow> time_sub now (tl_externalSince l) = now - tl_externalSince l"
    using assms True by (intro exact_sub [of first]) (auto simp: agrees_def)
  have since: "tl_external l \<Longrightarrow> tl_externalSince l \<noteq> 0" using ag True assms(3) by (auto simp: agrees_def)
  have until: "externalUntil now s = duration_seconds (ext_time l now)"
    using ag True assms(2) ext since
    by (auto simp: agrees_def externalUntil_def ext_time_def IsZero_def duration_seconds_add split: if_splits)
  have total: "ext_time l now \<le> now - tl_since l" "0 \<le> now - tl_since l"
    using ag True assms(2) by (auto simp: agrees_def ext_time_def split: if_splits)
  then have capped: "min (duration_seconds (now - tl_since l)) (duration_seconds (ext_time l now)) =
      duration_seconds (ext_time l now)" "max 0 (duration_seconds (now - tl_since l)) = duration_seconds (now - tl_since l)"
    by (simp_all add: max_def min_def)
  have parts: "duration_seconds (now - tl_since l) = duration_seconds (prev - tl_since l) + duration_seconds (now - prev)"
    "duration_seconds (ext_time l now) = duration_seconds (ext_time l prev) +
       duration_seconds (if tl_external l then now - prev else 0)"
    by (simp_all add: ext_time_def flip: duration_seconds_add)
  have "es_start s = tl_since l" "\<not> es_suspended s" "es_open s" using ag True by (auto simp: agrees_def)
  then have m: "se_LatchedSeconds (finish_episodes now s) = se_LatchedSeconds (es_summary s) + duration_seconds (now - tl_since l)"
    "se_ExternalSeconds (finish_episodes now s) = se_ExternalSeconds (es_summary s) + duration_seconds (ext_time l now)"
    "se_Count (finish_episodes now s) = se_Count (es_summary s)"
    "se_Interrupted (finish_episodes now s) = se_Interrupted (es_summary s)" "se_Open (finish_episodes now s)"
    using capped by (simp_all add: finish_episodes_def endSuspended_def Let_def len until)
  then show ?thesis using True parts by (simp add: report_so_far_def adjusted_def)
qed

lemma closeEpisode_open [simp]: "se_Open (es_summary (closeEpisode e x s)) = se_Open (es_summary s)"
  by (simp add: closeEpisode_def Let_def)

lemma interrupt_open [simp]: "se_Open (es_summary (interrupt_episode e s)) = se_Open (es_summary s)"
  by (simp add: interrupt_episode_def)

lemma endSuspended_open [simp]: "se_Open (es_summary (endSuspended s)) = se_Open (es_summary s)"
  by (simp add: endSuspended_def)

lemma row_open [simp]: "se_Open (es_summary (episode_row r s)) = se_Open (es_summary s)"
  by (simp add: episode_row_def Let_def episode_entered_def episode_released_def prove_external_def
      count_episode_def split: option.split)

lemma read_row_open [simp]: "se_Open (es_summary (read_row a tr s)) = se_Open (es_summary s)"
  by (simp add: read_row_def split: option.split)

lemma run_report:
  assumes "agrees first l prev s" and "sorted (prev # map sn_Timestamp ss @ [now])" and "0 < first"
    and "list_all (\<lambda>x. first \<le> sn_Timestamp x) ss" and "now - first \<le> max_duration"
  shows "report_so_far l prev s (adjusted (time_while tl_latched n t w l prev ss now)
      (time_while tl_external n t w l prev ss now) (entries (snd (thrash_run n t w l ss)))
      (finish_episodes now (fold episode_row (run_rows n t w l ss) s))) \<and>
    (se_Open (finish_episodes now (fold episode_row (run_rows n t w l ss) s)) \<longleftrightarrow>
       tl_latched (fst (thrash_run n t w l ss)) \<or> se_Open (es_summary s))"
  using assms
proof (induction ss arbitrary: l prev s)
  case Nil
  then show ?case using finish_report [of first l prev s now] by (simp add: entries_def)
next
  case (Cons x ss)
  let ?l = "fst (advance n l x t w)" and ?s = "read_row (sn_Timestamp x) (snd (snd (advance n l x t w))) s"
  have step: "stepped first l prev ?l (sn_Timestamp x) (entered_now (snd (snd (advance n l x t w)))) s ?s"
    using Cons.prems by (intro advance_stepped) auto
  have rest: "report_so_far ?l (sn_Timestamp x) ?s (adjusted (time_while tl_latched n t w ?l (sn_Timestamp x) ss now)
      (time_while tl_external n t w ?l (sn_Timestamp x) ss now) (entries (snd (thrash_run n t w ?l ss)))
      (finish_episodes now (fold episode_row (run_rows n t w ?l ss) ?s))) \<and>
    (se_Open (finish_episodes now (fold episode_row (run_rows n t w ?l ss) ?s)) \<longleftrightarrow>
       tl_latched (fst (thrash_run n t w ?l ss)) \<or> se_Open (es_summary ?s))"
    using Cons.prems step by (intro Cons.IH) (auto simp: stepped_def)
  have "report_so_far l prev s (adjusted (if tl_latched l then sn_Timestamp x - prev else 0)
      (if tl_external l then sn_Timestamp x - prev else 0) (entered_now (snd (snd (advance n l x t w))))
      (adjusted (time_while tl_latched n t w ?l (sn_Timestamp x) ss now)
        (time_while tl_external n t w ?l (sn_Timestamp x) ss now) (entries (snd (thrash_run n t w ?l ss)))
        (finish_episodes now (fold episode_row (run_rows n t w ?l ss) ?s))))"
    using step rest by (auto simp: stepped_def adjusted_def)
  then show ?case
    using rest unfolding entries_Cons run_rows_Cons
    by (simp add: adjusted_add thrash_run_Cons(1) del: thrash_run.simps run_rows.simps)
qed

lemma run_rows_sorted:
  "sorted (prev # map sn_Timestamp ss) \<Longrightarrow>
     sorted (prev # map th_Timestamp (run_rows n t w l ss))"
proof (induction ss arbitrary: l prev)
  case (Cons x ss)
  have "sorted (sn_Timestamp x # map th_Timestamp (run_rows n t w (fst (advance n l x t w)) ss))"
    using Cons.prems by (intro Cons.IH) simp
  with Cons.prems show ?case by (auto split: option.split intro: order_trans)
qed simp


section \<open>Properties of the derate's cost\<close>

text \<open>
  Claim C38. The report of thrash episodes is true. For a resident that runs without a restart, the summary of the
  transitions it recorded gives the time the latch was set and the time the derate was lifted, the
  number of episodes entered and whether one is open now, and reports no interruption.
\<close>

theorem episode_report_is_true:
  assumes "sorted (map sn_Timestamp ss @ [now])" and "list_all (\<lambda>x. first \<le> sn_Timestamp x) ss"
    and "0 < first" and "first \<le> now" and "now - first \<le> max_duration"
  shows "let m = summarizeSwapThrashEpisodes (run_rows n t w zero_latch ss) now in
    se_LatchedSeconds m = duration_seconds (time_while tl_latched n t w zero_latch first ss now) \<and>
    se_ExternalSeconds m = duration_seconds (time_while tl_external n t w zero_latch first ss now) \<and>
    se_Count m = entries (snd (thrash_run n t w zero_latch ss)) \<and> se_Interrupted m = 0 \<and>
    (se_Open m \<longleftrightarrow> tl_latched (fst (thrash_run n t w zero_latch ss)))"
proof -
  have "sorted (first # map sn_Timestamp ss @ [now])"
    using assms(1,2,4) by (auto simp: list_all_iff)
  moreover have "agrees first zero_latch first no_episode_state"
    by (simp add: agrees_def zero_latch_def no_episode_state_def)
  ultimately have "report_so_far zero_latch first no_episode_state
      (adjusted (time_while tl_latched n t w zero_latch first ss now)
      (time_while tl_external n t w zero_latch first ss now) (entries (snd (thrash_run n t w zero_latch ss)))
      (finish_episodes now (fold episode_row (run_rows n t w zero_latch ss) no_episode_state))) \<and>
    (se_Open (finish_episodes now (fold episode_row (run_rows n t w zero_latch ss) no_episode_state)) \<longleftrightarrow>
       tl_latched (fst (thrash_run n t w zero_latch ss)) \<or> se_Open (es_summary no_episode_state))"
    using assms by (intro run_report) auto
  moreover have "sort_key th_Timestamp (run_rows n t w zero_latch ss) = run_rows n t w zero_latch ss"
    using run_rows_sorted [of first ss n t w zero_latch] assms by (intro sort_key_id_if_sorted) (auto simp: list_all_iff sorted_append)
  ultimately show ?thesis
    by (simp add: Let_def summarizeSwapThrashEpisodes_def report_so_far_def adjusted_def zero_latch_def
        no_episode_state_def no_episodes_def)
qed

theorem episode_report_is_true_witness:
  "let ss = [storm (seconds 100), storm (seconds 130), storm (seconds 500)]; t = default_thresholds 16384;
       w = defaultWorkLimits 8; now = seconds 600;
       m = summarizeSwapThrashEpisodes (run_rows 8 t w zero_latch ss) now in
    se_LatchedSeconds m = duration_seconds (time_while tl_latched 8 t w zero_latch (seconds 100) ss now) \<and>
    se_ExternalSeconds m = duration_seconds (time_while tl_external 8 t w zero_latch (seconds 100) ss now) \<and>
    se_Count m = entries (snd (thrash_run 8 t w zero_latch ss)) \<and> se_Interrupted m = 0 \<and>
    (se_Open m \<longleftrightarrow> tl_latched (fst (thrash_run 8 t w zero_latch ss)))"
  using episode_report_is_true
    [of "[storm (seconds 100), storm (seconds 130), storm (seconds 500)]" "seconds 600" "seconds 100"
      8 "default_thresholds 16384" "defaultWorkLimits 8"]
  by (simp add: storm_def seconds_def max_duration_def Let_def)

lemma initial_ok: "history_ok no_episode_state"
  by (simp add: history_ok_def no_episode_state_def no_episodes_def Let_def)

lemma finish_ok:
  assumes "history_ok s"
  shows "let m = finish_episodes now s in
    0 \<le> se_ExternalSeconds m \<and> se_ExternalSeconds m \<le> se_LatchedSeconds m \<and>
    0 \<le> se_LongestSeconds m \<and> se_LongestSeconds m \<le> se_LatchedSeconds m \<and>
    se_ExternalEpisodes m \<le> se_Count m \<and>
    se_Interrupted m + (if es_open (endSuspended s) then 1 else 0) \<le> se_Count m"
proof -
  let ?s = "endSuspended s"
  let ?len = "max 0 (duration_seconds (time_sub now (es_start ?s)))" and ?ext = "externalUntil now ?s"
  have ok: "history_ok ?s" using assms by (rule endSuspended_ok)
  then have "0 \<le> ?len" "min ?len ?ext \<le> ?len" "0 \<le> min ?len ?ext" by simp_all
  then show ?thesis
    using ok by (auto simp: finish_episodes_def history_ok_def Let_def add_mono max_def
        simp del: min.bounded_iff)
qed

text \<open>
  The report of thrash episodes is consistent whatever the telemetry says, out of order, repeated
  or missing rows included: the time with the derate lifted is within the latched time, so is the
  longest episode, and no more episodes are external, or interrupted, than were counted.
\<close>

theorem episode_report_bounds:
  "let m = summarizeSwapThrashEpisodes rows now in
    0 \<le> se_ExternalSeconds m \<and> se_ExternalSeconds m \<le> se_LatchedSeconds m \<and>
    0 \<le> se_LongestSeconds m \<and> se_LongestSeconds m \<le> se_LatchedSeconds m \<and>
    se_ExternalEpisodes m \<le> se_Count m \<and> se_Interrupted m \<le> se_Count m"
  using finish_ok [OF rows_ok_from [OF initial_ok], of now "sort_key th_Timestamp rows"]
  by (auto simp: summarizeSwapThrashEpisodes_def Let_def split: if_splits)

lemma maximum_le:
  assumes "vs \<noteq> []"
  shows "ds_MaximumMS (durationStats vs) \<le> b \<longleftrightarrow> (\<forall>v \<in> set vs. v \<le> b)"
proof -
  let ?n = "length vs"
  have last: "sort vs ! (?n - 1) \<in> set vs" using assms by (intro sort_nth_member) simp
  have "v \<le> sort vs ! (?n - 1)" if "v \<in> set vs" for v
  proof -
    obtain i where "i < ?n" "v = sort vs ! i" using \<open>v \<in> set vs\<close> by (metis in_set_conv_nth length_sort set_sort)
    then show ?thesis by (auto intro!: sorted_nth_mono)
  qed
  with last assms show ?thesis by (auto simp: durationStats_def Let_def intro: order_trans)
qed

text \<open>
  The verdict on the derate is exact: it is unexercised when no operation was deferred; otherwise it is
  within budget exactly when the deferred operations together waited at most the daily budget and
  each of them at most the single budget; and an operation the derate never deferred adds no wait.
\<close>

theorem derate_verdict_exact:
  "let waits = map derate_wait (filter so_deferred (map snd (fold swap_event events [])));
       cost = summarizeSwapDerate events since now in
    (dc_Verdict cost = SwapDerateUnexercised \<longleftrightarrow> waits = []) \<and>
    (dc_Verdict cost = SwapDerateWithinBudget \<longleftrightarrow> waits \<noteq> [] \<and>
       swapDerateMinutesPerDay (sum_list waits) since now events \<le> 30 \<and>
       list_all (\<lambda>v. v \<le> 900000) waits) \<and>
    dc_WaitTotalMS cost = sum_list waits \<and> dc_DeferredOperations cost = length waits \<and>
    (dc_Advice cost = [] \<longleftrightarrow> dc_Verdict cost \<noteq> SwapDerateOverBudget)"
proof -
  define waits where "waits = map derate_wait (filter so_deferred (map snd (fold swap_event events [])))"
  have b: "dc_BudgetMaxWaitMS SwapDerateCostBudget = 900000" "dc_BudgetMinutesPerDay SwapDerateCostBudget = 30"
    by code_simp+
  have m: "waits \<noteq> [] \<Longrightarrow> ds_MaximumMS (durationStats waits) \<le> 900000 \<longleftrightarrow> list_all (\<lambda>v. v \<le> 900000) waits"
    by (simp add: maximum_le list_all_iff)
  obtain k where e: "summarizeSwapDerate events since now = judge (SwapDerateCostBudget\<lparr>
      dc_ExternalBypasses := k, dc_DeferredOperations := length waits, dc_WaitTotalMS := sum_list waits,
      dc_Wait := durationStats waits,
      dc_WaitMinutesPerDay := swapDerateMinutesPerDay (sum_list waits) since now events \<rparr>)"
    unfolding summarizeSwapDerate_def Let_def waits_def by blast
  show ?thesis
    unfolding Let_def waits_def [symmetric] e
    using m by (auto simp: judge_def Let_def b not_less)
qed

end
