(* ===== verification/Disk_Histogram.thy ===== *)
theory Disk_Histogram
  imports Go_Prelude Complex_Main "HOL-Library.Word"
begin

text \<open>
  The histogram of the disk-write baseline (\<^verbatim>\<open>sessionpressure/disk_write.go\<close> and
  \<^verbatim>\<open>sessionpressure/disk_write_store.go\<close>): one bucket for zero and one for every power of two of a
  64-bit byte count, a saturating sum, and the span of the samples. It is persisted as the list of
  its non-empty buckets. Byte counts keep their width; the numbers of samples are natural numbers.
\<close>

section \<open>Saturating sums\<close>

definition saturatingAddUint64 :: "64 word \<Rightarrow> 64 word \<Rightarrow> 64 word" where
  "saturatingAddUint64 left right = (if left > -1 - right then -1 else left + right)"

lemma uint_minus_one: "uint (-1 :: 64 word) = 2 ^ 64 - 1"
  by (simp add: unsigned_minus_1_eq_mask mask_eq_exp_minus_1)

lemma uint_saturatingAdd: "uint (saturatingAddUint64 a b) = min (uint a + uint b) (2 ^ 64 - 1)"
proof -
  have le: "b \<le> (-1 :: 64 word)" using uint_bounded [of b] by (simp add: word_le_def uint_minus_one)
  then have "uint (-1 - b) = 2 ^ 64 - 1 - uint b"
    using uint_sub_lem [of b "-1"] by (simp add: word_le_def uint_minus_one)
  moreover have "uint (a + b) = uint a + uint b" if "uint a + uint b < 2 ^ 64"
    using that uint_add_lem [of a b] by simp
  ultimately show ?thesis
    by (auto simp: saturatingAddUint64_def word_less_def uint_minus_one)
qed


text \<open>\<^verbatim>\<open>roundRatio\<close>: two decimals, halves away from zero; the values that are not positive read as zero.\<close>

definition roundRatio :: "rat \<Rightarrow> rat" where
  "roundRatio value = (if value \<le> 0 then 0 else of_int \<lfloor>value * 100 + 1 / 2\<rfloor> / 100)"


section \<open>The histogram\<close>

fun Len :: "nat \<Rightarrow> nat" where
  "Len n = (if n = 0 then 0 else Suc (Len (n div 2)))"

declare Len.simps [simp del]

text \<open>\<^verbatim>\<open>bits.Len64(value) - 1\<close>, the bucket of a value that is not zero.\<close>

definition bucket_of :: "64 word \<Rightarrow> nat" where
  "bucket_of value = Len (unat value) - 1"

record diskHistogram =
  hi_Zero :: nat
  hi_Buckets :: "nat list"
  hi_Count :: nat
  hi_Sum :: "64 word"
  hi_FirstAt :: time
  hi_LastAt :: time

definition empty_histogram :: diskHistogram where
  "empty_histogram =
     \<lparr> hi_Zero = 0, hi_Buckets = replicate 64 0, hi_Count = 0, hi_Sum = 0, hi_FirstAt = 0, hi_LastAt = 0 \<rparr>"

definition histogram_add :: "64 word \<Rightarrow> time \<Rightarrow> diskHistogram \<Rightarrow> diskHistogram" where
  "histogram_add value t h =
     (let h = (if value = 0 then h\<lparr> hi_Zero := hi_Zero h + 1 \<rparr>
               else h\<lparr> hi_Buckets := (hi_Buckets h)[bucket_of value := hi_Buckets h ! bucket_of value + 1] \<rparr>)
      in h\<lparr> hi_Count := hi_Count h + 1, hi_Sum := saturatingAddUint64 (hi_Sum h) value,
            hi_FirstAt := (if IsZero (hi_FirstAt h) \<or> t < hi_FirstAt h then t else hi_FirstAt h),
            hi_LastAt := (if t > hi_LastAt h then t else hi_LastAt h) \<rparr>)"

record diskHistogramRecord =
  hr_Zero :: nat
  hr_Buckets :: "(int \<times> nat) list"
  hr_Count :: nat
  hr_Sum :: "64 word"
  hr_FirstAt :: time
  hr_LastAt :: time

definition merge_bucket :: "int \<times> nat \<Rightarrow> nat list \<Rightarrow> nat list" where
  "merge_bucket b bs =
     (let (index, count) = b in
      if index \<ge> 0 \<and> index < int (length bs) then bs[nat index := bs ! nat index + count] else bs)"

definition histogram_merge :: "diskHistogramRecord \<Rightarrow> diskHistogram \<Rightarrow> diskHistogram" where
  "histogram_merge r h =
     h\<lparr> hi_Zero := hi_Zero h + hr_Zero r, hi_Buckets := fold merge_bucket (hr_Buckets r) (hi_Buckets h),
        hi_Count := hi_Count h + hr_Count r, hi_Sum := saturatingAddUint64 (hi_Sum h) (hr_Sum r),
        hi_FirstAt :=
          (if IsZero (hi_FirstAt h) \<or> \<not> IsZero (hr_FirstAt r) \<and> hr_FirstAt r < hi_FirstAt h
           then hr_FirstAt r else hi_FirstAt h),
        hi_LastAt := (if hr_LastAt r > hi_LastAt h then hr_LastAt r else hi_LastAt h) \<rparr>"

fun record_buckets :: "nat \<Rightarrow> nat list \<Rightarrow> (int \<times> nat) list" where
  "record_buckets i [] = []"
| "record_buckets i (c # cs) =
     (if c > 0 then (int i, c) # record_buckets (Suc i) cs else record_buckets (Suc i) cs)"

definition histogram_record :: "diskHistogram \<Rightarrow> diskHistogramRecord" where
  "histogram_record h =
     \<lparr> hr_Zero = hi_Zero h, hr_Buckets = record_buckets 0 (hi_Buckets h), hr_Count = hi_Count h,
       hr_Sum = hi_Sum h, hr_FirstAt = hi_FirstAt h, hr_LastAt = hi_LastAt h \<rparr>"

definition diskHistogramFromRecord :: "diskHistogramRecord \<Rightarrow> diskHistogram" where
  "diskHistogramFromRecord r = histogram_merge r empty_histogram"

text \<open>The walk over the buckets: the upper end of the first one at which \<open>want\<close> samples are reached.\<close>

fun bucket_reaching :: "nat \<Rightarrow> nat \<Rightarrow> nat \<Rightarrow> nat list \<Rightarrow> 64 word" where
  "bucket_reaching want seen i [] = 0"
| "bucket_reaching want seen i (c # cs) =
     (if seen + c < want then bucket_reaching want (seen + c) (Suc i) cs
      else if i = 63 then -1 else push_bit (Suc i) 1 - 1)"

definition p99 :: "diskHistogram \<Rightarrow> 64 word" where
  "p99 h =
     (if hi_Count h = 0 then 0
      else let want = (hi_Count h * 99 + 99) div 100 in
        if hi_Zero h \<ge> want then 0 else bucket_reaching want (hi_Zero h) 0 (hi_Buckets h))"


section \<open>What a histogram stores\<close>

text \<open>The abstract view: a histogram is determined by the samples it was given.\<close>

definition sat_sum :: "64 word list \<Rightarrow> 64 word" where
  "sat_sum vs = word_of_int (min (sum_list (map uint vs)) (2 ^ 64 - 1))"

definition in_bucket :: "nat \<Rightarrow> 64 word \<Rightarrow> bool" where
  "in_bucket i v \<longleftrightarrow> v \<noteq> 0 \<and> bucket_of v = i"

definition first_at :: "time list \<Rightarrow> time" where
  "first_at ts = (if ts = [] then 0 else Min (set ts))"

definition last_at :: "time list \<Rightarrow> time" where
  "last_at ts = (if ts = [] then 0 else Max (set ts))"

definition histogram_of :: "(64 word \<times> time) list \<Rightarrow> diskHistogram" where
  "histogram_of samples =
     (let vs = map fst samples; ts = map snd samples in
      \<lparr> hi_Zero = length (filter (\<lambda>v. v = 0) vs),
        hi_Buckets = map (\<lambda>i. length (filter (in_bucket i) vs)) [0..<64], hi_Count = length vs,
        hi_Sum = sat_sum vs, hi_FirstAt = first_at ts, hi_LastAt = last_at ts \<rparr>)"

lemma Len_zero [simp]: "Len 0 = 0"
  by (simp add: Len.simps)

lemma Len_positive: "0 < n \<Longrightarrow> Len n = Suc (Len (n div 2))"
  by (simp add: Len.simps [of n])

lemma Len_bounds: "0 < n \<Longrightarrow> 2 ^ (Len n - 1) \<le> n \<and> n < 2 ^ Len n"
proof (induction n rule: less_induct)
  case (less n)
  show ?case
  proof (cases "n = 1")
    case True
    then show ?thesis by (simp add: Len_positive)
  next
    case False
    with less.prems have h: "0 < n div 2" by (simp add: div_greater_zero_iff)
    then obtain k where k: "Len (n div 2) = Suc k" using Len_positive by blast
    have "2 ^ k \<le> n div 2" "n div 2 < 2 ^ Suc k" using less.IH [of "n div 2"] less.prems h k by simp_all
    moreover have "2 * m \<le> n \<and> n < 4 * m" if "m \<le> n div 2" "n div 2 < 2 * m" for m using that by presburger
    ultimately show ?thesis using less.prems by (simp add: Len_positive k)
  qed
qed

lemma bucket_less: "bucket_of v < 64"
proof (cases "v = 0")
  case False
  then have "2 ^ bucket_of v \<le> unat v" using Len_bounds [of "unat v"] by (simp add: bucket_of_def unat_gt_0)
  also have "unat v < 2 ^ 64" using unsigned_less [of v] by simp
  finally show ?thesis by (rule power_less_imp_less_exp [rotated]) simp
qed (simp add: bucket_of_def)

lemma bucket_bounds: "v \<noteq> 0 \<Longrightarrow> 2 ^ bucket_of v \<le> unat v \<and> unat v < 2 ^ Suc (bucket_of v)"
  using Len_bounds [of "unat v"] Len_positive [of "unat v"] by (simp add: bucket_of_def unat_gt_0)

lemma uint_sat_sum: "uint (sat_sum vs) = min (sum_list (map uint vs)) (2 ^ 64 - 1)"
proof -
  have "0 \<le> sum_list (map uint vs)" by (intro sum_list_nonneg) auto
  then show ?thesis by (simp add: sat_sum_def uint_word_of_int)
qed

lemma sat_sum_append: "saturatingAddUint64 (sat_sum vs) (sat_sum us) = sat_sum (vs @ us)"
proof -
  have "0 \<le> sum_list (map uint xs)" for xs :: "64 word list" by (intro sum_list_nonneg) auto
  from this [of vs] this [of us] show ?thesis
    by (simp add: word_uint_eq_iff uint_saturatingAdd uint_sat_sum)
qed

lemma sat_sum_single: "sat_sum [v] = v"
  using uint_bounded [of v] by (simp add: sat_sum_def min_def)


lemma span_Nil [simp]: "first_at [] = 0" "last_at [] = 0"
  by (simp_all add: first_at_def last_at_def)

lemma span_single [simp]: "first_at [t] = t" "last_at [t] = t"
  by (simp_all add: first_at_def last_at_def)

lemma span_append:
  assumes "ts \<noteq> []" and "us \<noteq> []"
  shows "first_at (ts @ us) = min (first_at ts) (first_at us)" and "last_at (ts @ us) = max (last_at ts) (last_at us)"
  using assms by (simp_all add: first_at_def last_at_def Min_Un Max_Un)

lemma span_positive:
  assumes "ts \<noteq> []" and "list_all (\<lambda>t. 0 < t) ts"
  shows "0 < first_at ts" and "0 < last_at ts"
proof -
  have "Min (set ts) \<in> set ts" "Max (set ts) \<in> set ts" using assms(1) by simp_all
  then show "0 < first_at ts" "0 < last_at ts"
    using assms unfolding list_all_iff first_at_def last_at_def by auto
qed

lemma span_merge:
  assumes "list_all (\<lambda>t. 0 < t) ts" and "list_all (\<lambda>t. 0 < t) us"
  shows "first_at (ts @ us) =
      (if first_at ts = 0 \<or> first_at us \<noteq> 0 \<and> first_at us < first_at ts then first_at us else first_at ts)"
    and "last_at (ts @ us) = (if last_at us > last_at ts then last_at us else last_at ts)"
proof -
  consider "ts = []" | "us = []" "ts \<noteq> []" | "ts \<noteq> []" "us \<noteq> []" by blast
  then have "first_at (ts @ us) =
      (if first_at ts = 0 \<or> first_at us \<noteq> 0 \<and> first_at us < first_at ts then first_at us else first_at ts) \<and>
    last_at (ts @ us) = (if last_at us > last_at ts then last_at us else last_at ts)"
  proof cases
    case 1
    then show ?thesis using span_positive [OF _ assms(2)] by (cases "us = []") auto
  next
    case 2
    then show ?thesis using span_positive [OF _ assms(1)] by auto
  next
    case 3
    then show ?thesis
      using span_positive [OF _ assms(1)] span_positive [OF _ assms(2)] span_append [of ts us]
      by (auto simp: min_def max_def)
  qed
  then show "first_at (ts @ us) =
      (if first_at ts = 0 \<or> first_at us \<noteq> 0 \<and> first_at us < first_at ts then first_at us else first_at ts)"
    "last_at (ts @ us) = (if last_at us > last_at ts then last_at us else last_at ts)" by blast+
qed

lemma histogram_add_of:
  assumes "list_all (\<lambda>vt. 0 < snd vt) xs" and "0 < t"
  shows "histogram_add v t (histogram_of xs) = histogram_of (xs @ [(v, t)])"
proof -
  have ts: "list_all (\<lambda>t. 0 < t) (map snd xs)" using assms(1) by (simp add: list_all_iff)
  have buckets: "(if v = 0 then map f [0..<64] else (map f [0..<64])[bucket_of v := f (bucket_of v) + 1]) =
      map (\<lambda>i. f i + (if in_bucket i v then 1 else 0)) [0..<64]" for f :: "nat \<Rightarrow> nat"
    using bucket_less [of v] by (auto intro!: nth_equalityI simp: in_bucket_def nth_list_update)
  have "hi_Buckets (histogram_add v t (histogram_of xs)) = hi_Buckets (histogram_of (xs @ [(v, t)]))"
    using buckets [of "\<lambda>i. length (filter (in_bucket i) (map fst xs))"] bucket_less [of v]
    by (cases "v = 0") (simp_all add: histogram_add_def histogram_of_def Let_def in_bucket_def split: if_splits)
  moreover have "hi_Sum (histogram_add v t (histogram_of xs)) = hi_Sum (histogram_of (xs @ [(v, t)]))"
    using sat_sum_append [of "map fst xs" "[v]"]
    by (cases "v = 0") (simp_all add: histogram_add_def histogram_of_def Let_def sat_sum_single)
  moreover have "hi_FirstAt (histogram_add v t (histogram_of xs)) = hi_FirstAt (histogram_of (xs @ [(v, t)]))"
    "hi_LastAt (histogram_add v t (histogram_of xs)) = hi_LastAt (histogram_of (xs @ [(v, t)]))"
    using span_merge [OF ts, of "[t]"] assms(2) by (simp_all add: histogram_add_def histogram_of_def Let_def IsZero_def)
  ultimately show ?thesis
    by (intro diskHistogram.equality) (simp_all add: histogram_add_def histogram_of_def Let_def)
qed

lemma histogram_of_Nil: "histogram_of [] = empty_histogram"
  by (simp add: histogram_of_def empty_histogram_def sat_sum_def first_at_def last_at_def Let_def
      map_replicate_const)

lemma adds_histogram:
  "list_all (\<lambda>vt. 0 < snd vt) xs \<Longrightarrow>
     fold (\<lambda>(v, t). histogram_add v t) xs empty_histogram = histogram_of xs"
proof (induction xs rule: rev_induct)
  case (snoc x xs)
  then show ?case by (simp add: case_prod_beta histogram_add_of)
qed (simp add: histogram_of_Nil)

lemma merge_buckets:
  "list_all (\<lambda>(i, c). 0 \<le> i) rs \<Longrightarrow> length (fold merge_bucket rs bs) = length bs"
  by (induction rs arbitrary: bs) (auto simp: merge_bucket_def)

lemma merge_record_buckets:
  "length bs = n + length cs \<Longrightarrow>
     fold merge_bucket (record_buckets n cs) bs =
       map (\<lambda>i. bs ! i + (if i < n then 0 else cs ! (i - n))) [0..<length bs]"
proof (induction cs arbitrary: n bs)
  case Nil
  then show ?case by (auto intro!: nth_equalityI)
next
  case (Cons c cs)
  have step: "fold merge_bucket (record_buckets n (c # cs)) bs =
      fold merge_bucket (record_buckets (Suc n) cs) (bs[n := bs ! n + c])"
    using Cons.prems by (cases "c > 0") (simp_all add: merge_bucket_def list_update_same_conv)
  show ?case
    unfolding step using Cons.prems
    by (subst Cons.IH) (auto intro!: nth_equalityI simp: nth_list_update nth_Cons' Suc_diff_Suc)
qed

lemma histogram_merge_of:
  assumes "list_all (\<lambda>vt. 0 < snd vt) xs" and "list_all (\<lambda>vt. 0 < snd vt) ys"
  shows "histogram_merge (histogram_record (histogram_of ys)) (histogram_of xs) = histogram_of (xs @ ys)"
proof -
  have ts: "list_all (\<lambda>t. 0 < t) (map snd xs)" "list_all (\<lambda>t. 0 < t) (map snd ys)"
    using assms by (simp_all add: list_all_iff)
  have "fold merge_bucket (record_buckets 0 (hi_Buckets (histogram_of ys))) (hi_Buckets (histogram_of xs)) =
      hi_Buckets (histogram_of (xs @ ys))"
    by (subst merge_record_buckets) (simp_all add: histogram_of_def Let_def)
  moreover note span_merge [OF ts]
  ultimately show ?thesis
    by (intro diskHistogram.equality)
      (simp_all add: histogram_merge_def histogram_record_def histogram_of_def Let_def IsZero_def sat_sum_append)
qed


section \<open>The percentile\<close>

lemma in_bucket_range: "in_bucket m v \<longleftrightarrow> 2 ^ m \<le> unat v \<and> unat v < 2 ^ Suc m"
proof (cases "v = 0")
  case False
  note b = bucket_bounds [OF this]
  have "bucket_of v = m" if "2 ^ m \<le> unat v" "unat v < 2 ^ Suc m"
  proof (rule ccontr)
    assume "bucket_of v \<noteq> m"
    then have "Suc (bucket_of v) \<le> m \<or> Suc m \<le> bucket_of v" by arith
    then have "(2::nat) ^ Suc (bucket_of v) \<le> 2 ^ m \<or> (2::nat) ^ Suc m \<le> 2 ^ bucket_of v"
      using power_increasing [of "Suc (bucket_of v)" m "2::nat"] power_increasing [of "Suc m" "bucket_of v" "2::nat"] by auto
    with b that show False by linarith
  qed
  with b False show ?thesis by (auto simp: in_bucket_def)
qed (simp add: in_bucket_def)

lemma buckets_below:
  "length (filter (\<lambda>v. v = 0) vs) + sum_list (map (\<lambda>i. length (filter (in_bucket i) vs)) [0..<m]) =
     length (filter (\<lambda>v. unat v < 2 ^ m) vs)"
proof (induction m)
  case 0
  have "(unat v < 1) = (v = 0)" for v :: "64 word" by (simp add: unat_eq_zero less_Suc0)
  then show ?case by simp
next
  case (Suc m)
  have "length (filter (\<lambda>v. unat v < 2 ^ Suc m) vs) =
      length (filter (\<lambda>v. unat v < 2 ^ m) vs) + length (filter (in_bucket m) vs)"
    by (induction vs) (auto simp: in_bucket_range)
  with Suc show ?case by simp
qed

lemma upper_end: "k < 64 \<Longrightarrow> unat (if k = 63 then -1 else push_bit (Suc k) 1 - 1 :: 64 word) = 2 ^ Suc k - 1"
proof (cases "k = 63")
  case True
  then show ?thesis by (simp add: unsigned_minus_1_eq_mask mask_eq_exp_minus_1)
next
  case False
  assume "k < 64"
  with False have "min 64 (Suc k) = Suc k" by (simp add: min_def)
  then have "uint (mask (Suc k) :: 64 word) = mask (Suc k)"
    using uint_mask_eq [where 'a = 64, of "Suc k"] by (simp only: len_num1 len_bit0 len_num0) simp
  then have "unat (mask (Suc k) :: 64 word) = 2 ^ Suc k - 1"
    by (metis nat_uint_eq of_nat_mask_eq nat_int mask_eq_exp_minus_1)
  with False show ?thesis by (simp add: mask_eq_decr_exp push_bit_of_1 flip: mask_eq_exp_minus_1)
qed

lemma bucket_reaching_at:
  "seen < want \<Longrightarrow> want \<le> seen + sum_list cs \<Longrightarrow> i + length cs = 64 \<Longrightarrow>
     \<exists>k. k < length cs \<and> unat (bucket_reaching want seen i cs) = 2 ^ Suc (i + k) - 1 \<and>
       seen + sum_list (take k cs) < want \<and> want \<le> seen + sum_list (take (Suc k) cs)"
proof (induction cs arbitrary: seen i)
  case (Cons c cs)
  show ?case
  proof (cases "seen + c < want")
    case True
    then obtain k where "k < length cs" "unat (bucket_reaching want (seen + c) (Suc i) cs) = 2 ^ Suc (Suc i + k) - 1"
      "seen + c + sum_list (take k cs) < want" "want \<le> seen + c + sum_list (take (Suc k) cs)"
      using Cons.IH [of "seen + c" "Suc i"] Cons.prems by auto
    with True show ?thesis by (intro exI [of _ "Suc k"]) (simp add: add.assoc)
  next
    case False
    then show ?thesis using Cons.prems upper_end [of i] by (intro exI [of _ 0]) auto
  qed
qed simp


section \<open>Properties of the histogram\<close>

text \<open>
  A histogram is exactly the account of its samples: reading back what was persisted gives the same
  histogram, and merging the persisted account of further samples gives the histogram of all of them,
  with the sums saturating at the largest 64-bit number.
\<close>

theorem histogram_record_roundtrip:
  assumes "list_all (\<lambda>vt. 0 < snd vt) xs" and "list_all (\<lambda>vt. 0 < snd vt) ys"
  shows "let h = (\<lambda>samples. fold (\<lambda>(v, t). histogram_add v t) samples empty_histogram) in
    diskHistogramFromRecord (histogram_record (h ys)) = h ys \<and>
    histogram_merge (histogram_record (h ys)) (h xs) = h (xs @ ys) \<and>
    uint (hi_Sum (h xs)) = min (sum_list (map (\<lambda>vt. uint (fst vt)) xs)) (2 ^ 64 - 1)"
proof -
  have "list_all (\<lambda>vt. 0 < snd vt) (xs @ ys)" using assms by simp
  then show ?thesis
    unfolding Let_def adds_histogram [OF assms(1)] adds_histogram [OF assms(2)] diskHistogramFromRecord_def
    using histogram_merge_of [OF assms] histogram_merge_of [of "[]" ys] assms(2) uint_sat_sum [of "map fst xs"]
    by (simp only: adds_histogram histogram_of_Nil list.pred_inject append_Nil simp_thms)
      (simp add: histogram_of_def Let_def comp_def)
qed

theorem histogram_record_roundtrip_witness:
  "let h = (\<lambda>samples. fold (\<lambda>(v, t). histogram_add v t) samples empty_histogram);
      xs = [(0, 1), (4096, 2)]; ys = [(-1, 3), (7, 4)] in
    diskHistogramFromRecord (histogram_record (h ys)) = h ys \<and>
    histogram_merge (histogram_record (h ys)) (h xs) = h (xs @ ys) \<and>
    uint (hi_Sum (h xs)) = min (sum_list (map (\<lambda>vt. uint (fst vt)) xs)) (2 ^ 64 - 1)"
  unfolding Let_def by (rule histogram_record_roundtrip [unfolded Let_def]) simp_all

text \<open>
  The percentile overestimates by less than a factor of two: at least 99 percent of the samples are
  at or below the reported value, and unless it is zero fewer than 99 percent are below half of it.
\<close>

theorem p99_within_factor_two:
  assumes "list_all (\<lambda>vt. 0 < snd vt) samples" and "samples \<noteq> []"
  shows "let q = p99 (fold (\<lambda>(v, t). histogram_add v t) samples empty_histogram); n = length samples in
    99 * n \<le> 100 * length (filter (\<lambda>vt. fst vt \<le> q) samples) \<and>
    (q = 0 \<or> 100 * length (filter (\<lambda>vt. 2 * unat (fst vt) < unat q) samples) < 99 * n)"
proof -
  define vs where "vs = map fst samples"
  let ?n = "length vs" and ?b = "\<lambda>i. length (filter (in_bucket i) vs)"
  define q where "q = p99 (fold (\<lambda>(v, t). histogram_add v t) samples empty_histogram)"
  have n: "0 < ?n" "length samples = ?n" using assms(2) by (simp_all add: vs_def)
  define want where "want = (?n * 99 + 99) div 100"
  have want: "99 * ?n \<le> 100 * want" "\<And>m. m < want \<Longrightarrow> 100 * m < 99 * ?n" "0 < want" "want \<le> ?n"
    using n(1) unfolding want_def by linarith+
  have q: "q = (if length (filter (\<lambda>v. v = 0) vs) \<ge> want then 0
      else bucket_reaching want (length (filter (\<lambda>v. v = 0) vs)) 0 (map ?b [0..<64]))"
    unfolding q_def adds_histogram [OF assms(1)] p99_def
    using n(1) by (simp add: histogram_of_def Let_def vs_def want_def)
  have "99 * ?n \<le> 100 * length (filter (\<lambda>v. v \<le> q) vs) \<and>
      (q = 0 \<or> 100 * length (filter (\<lambda>v. 2 * unat v < unat q) vs) < 99 * ?n)"
  proof (cases "length (filter (\<lambda>v. v = 0) vs) \<ge> want")
    case True
    then show ?thesis using want(1) by (simp add: q)
  next
    case False
    have "unat v < 2 ^ 64" for v :: "64 word" using unsigned_less [of v] by simp
    then have all: "length (filter (\<lambda>v. v = 0) vs) + sum_list (map ?b [0..<64]) = ?n"
      using buckets_below [of vs 64] by simp
    then obtain k where k: "k < 64" "unat q = 2 ^ Suc k - 1"
      "length (filter (\<lambda>v. v = 0) vs) + sum_list (take k (map ?b [0..<64])) < want"
      "want \<le> length (filter (\<lambda>v. v = 0) vs) + sum_list (take (Suc k) (map ?b [0..<64]))"
      using bucket_reaching_at [of "length (filter (\<lambda>v. v = 0) vs)" want "map ?b [0..<64]" 0] False want(4)
      by (auto simp: q)
    have "take j (map ?b [0..<64]) = map ?b [0..<j]" if "j \<le> 64" for j
      using that by (simp add: take_map take_upt)
    then have c: "length (filter (\<lambda>v. unat v < 2 ^ k) vs) < want" "want \<le> length (filter (\<lambda>v. unat v < 2 ^ Suc k) vs)"
      using k buckets_below [of vs k] buckets_below [of vs "Suc k"] by simp_all
    have "(v \<le> q) = (unat v < 2 ^ Suc k)" "(2 * unat v < unat q) = (unat v < 2 ^ k)" for v
    proof -
      have "0 < (2::nat) ^ k" by simp
      then show "(v \<le> q) = (unat v < 2 ^ Suc k)" "(2 * unat v < unat q) = (unat v < 2 ^ k)"
        using k(2) unfolding word_le_nat_alt power_Suc by linarith+
    qed
    with c want(1) want(2) [OF c(1)] show ?thesis by simp
  qed
  then show ?thesis unfolding q_def [symmetric] Let_def n(2) by (simp add: vs_def comp_def)
qed

theorem p99_within_factor_two_witness:
  "let samples = [(0, 1), (4096, 2), (100000, 3)];
      q = p99 (fold (\<lambda>(v, t). histogram_add v t) samples empty_histogram); n = length samples in
    99 * n \<le> 100 * length (filter (\<lambda>vt. fst vt \<le> q) samples) \<and>
    (q = 0 \<or> 100 * length (filter (\<lambda>vt. 2 * unat (fst vt) < unat q) samples) < 99 * n)"
  unfolding Let_def by (rule p99_within_factor_two [unfolded Let_def]) simp_all

end
