(* ===== verification/Work_Summary.thy ===== *)
theory Work_Summary
  imports Swap_Derate_Cost Disk_Histogram
begin

text \<open>
  The summary of a ledger (\<^verbatim>\<open>SummarizeWorkEvents\<close> in \<^verbatim>\<open>sessionpressure/workevent.go\<close> and
  \<^verbatim>\<open>summarizeLeaseCPU\<close> in \<^verbatim>\<open>sessionpressure/workleasecpu.go\<close>): one pass over the rows keeps a state per
  operation, counts review signals and collects the waits, runtimes and slowdowns of each class, from
  which the service levels and the calibration cohorts are read. A Go map keyed by operation or cohort
  is a list of pairs, one keyed by class is a function. A \<^verbatim>\<open>float64\<close> of a row is finite, as JSON can
  write no other.
\<close>

section \<open>The state of the pass\<close>

datatype cpu_attribution = CPUUnset | CPUUnavailable | CPUActive | CPUIdle

record operationState =
  os_class :: WorkClass
  os_terminal :: bool
  os_pressureSignal :: bool
  os_longWaitSignal :: bool
  os_cancelledSignal :: bool
  os_wrapperInterruptSignal :: bool
  os_expiredOwnerSeen :: bool
  os_cacheSignal :: bool
  os_singleflightSeen :: bool
  os_cpuAttribution :: cpu_attribution
  os_leaseWaitMS :: int
  os_waitRecorded :: bool
  os_waitMS :: int
  os_queuedObserved :: bool
  os_initialPressureSignal :: bool
  os_warningDecisionSeen :: bool

definition zero_operation :: operationState where
  "zero_operation =
     \<lparr> os_class = UnknownClass [], os_terminal = False, os_pressureSignal = False,
       os_longWaitSignal = False, os_cancelledSignal = False, os_wrapperInterruptSignal = False,
       os_expiredOwnerSeen = False, os_cacheSignal = False, os_singleflightSeen = False,
       os_cpuAttribution = CPUUnset, os_leaseWaitMS = 0, os_waitRecorded = False, os_waitMS = 0,
       os_queuedObserved = False, os_initialPressureSignal = False, os_warningDecisionSeen = False \<rparr>"

record WorkReviewSignals =
  rs_CPUOnlyDeferrals :: int
  rs_CPUDeferralsWithCoordinatedWork :: int
  rs_CPUDeferralsWithoutCoordinatedWork :: int
  rs_CPUDeferralsAttributionUnavailable :: int
  rs_MemoryDeferrals :: int
  rs_StorageDeferrals :: int
  rs_LongWaitOperations :: int
  rs_IncompleteOperations :: int
  rs_ExpiredOwnerEvents :: int
  rs_ReconciliationRaceRecoveries :: int
  rs_CancelledOperations :: int
  rs_WrapperInterruptOperations :: int
  rs_BypassedAdmissions :: int
  rs_ProtectedAcquisitions :: int
  rs_ReservationDeferrals :: int
  rs_CacheHits :: int
  rs_CacheMisses :: int
  rs_SingleflightWaits :: int
  rs_OperatorOverrides :: int
  rs_AgentPriorityRequests :: int
  rs_ClassReclassifications :: int
  rs_FullToExpressAdjustments :: int
  rs_ExpressToFullAdjustments :: int
  rs_WarningCapacityAdmissions :: int
  rs_WarningCapacityDeferrals :: int
  rs_SwapThrashAdmissions :: int
  rs_SwapThrashDeferrals :: int
  rs_SwapDeferrals :: int
  rs_SwapThrashExternalBypasses :: int
  rs_IdleParkedOperations :: int
  rs_IdleParkedMilliseconds :: int
  rs_QueueWaitsWithCPUEvidence :: int
  rs_QueueWaitsIdleHost :: int

definition no_signals :: WorkReviewSignals where
  "no_signals =
     \<lparr> rs_CPUOnlyDeferrals = 0, rs_CPUDeferralsWithCoordinatedWork = 0,
       rs_CPUDeferralsWithoutCoordinatedWork = 0, rs_CPUDeferralsAttributionUnavailable = 0,
       rs_MemoryDeferrals = 0, rs_StorageDeferrals = 0, rs_LongWaitOperations = 0,
       rs_IncompleteOperations = 0, rs_ExpiredOwnerEvents = 0, rs_ReconciliationRaceRecoveries = 0,
       rs_CancelledOperations = 0, rs_WrapperInterruptOperations = 0, rs_BypassedAdmissions = 0,
       rs_ProtectedAcquisitions = 0, rs_ReservationDeferrals = 0, rs_CacheHits = 0, rs_CacheMisses = 0,
       rs_SingleflightWaits = 0, rs_OperatorOverrides = 0, rs_AgentPriorityRequests = 0,
       rs_ClassReclassifications = 0, rs_FullToExpressAdjustments = 0, rs_ExpressToFullAdjustments = 0,
       rs_WarningCapacityAdmissions = 0, rs_WarningCapacityDeferrals = 0, rs_SwapThrashAdmissions = 0,
       rs_SwapThrashDeferrals = 0, rs_SwapDeferrals = 0, rs_SwapThrashExternalBypasses = 0,
       rs_IdleParkedOperations = 0, rs_IdleParkedMilliseconds = 0, rs_QueueWaitsWithCPUEvidence = 0,
       rs_QueueWaitsIdleHost = 0 \<rparr>"

record WorkClassStats =
  cs_Class :: WorkClass
  cs_Operations :: int
  cs_Acquired :: int
  cs_Completed :: int
  cs_Failed :: int
  cs_Cancelled :: int
  cs_Expired :: int
  cs_Reused :: int
  cs_Wait :: WorkDurationStats
  cs_Runtime :: WorkDurationStats
  cs_WaitToRuntime :: WorkRatioStats
  cs_BoundedSlowdown :: WorkRatioStats

definition zero_stats :: "WorkClass \<Rightarrow> WorkClassStats" where
  "zero_stats c =
     \<lparr> cs_Class = c, cs_Operations = 0, cs_Acquired = 0, cs_Completed = 0, cs_Failed = 0,
       cs_Cancelled = 0, cs_Expired = 0, cs_Reused = 0, cs_Wait = durationStats [],
       cs_Runtime = durationStats [], cs_WaitToRuntime = ratioStats [], cs_BoundedSlowdown = ratioStats [] \<rparr>"

text \<open>The counters of the pressure-conditioned service level; its classes are computed at the end.\<close>

record conditioned_counters =
  pc_TerminalRuntimeSamples :: int
  pc_EligibleSamples :: int
  pc_WindowBoundarySamples :: int
  pc_LegacySchemaSamples :: int
  pc_InvalidDecompositionSamples :: int
  pc_PressureAffectedSamples :: int
  pc_ExcludedWaitMS :: int

type_synonym cohortKey = "WorkClass \<times> int \<times> string \<times> int"

record summary =
  sm_byClass :: "WorkClass \<rightharpoonup> WorkClassStats"
  sm_waits :: "WorkClass \<Rightarrow> int list"
  sm_runtimes :: "WorkClass \<Rightarrow> int list"
  sm_waitToRuntime :: "WorkClass \<Rightarrow> rat list"
  sm_boundedSlowdown :: "WorkClass \<Rightarrow> rat list"
  sm_conditionedSlowdown :: "WorkClass \<Rightarrow> rat list"
  sm_conditionedAffected :: "WorkClass \<Rightarrow> int"
  sm_conditionedExcludedWait :: "WorkClass \<Rightarrow> int"
  sm_cohortSlowdown :: "(cohortKey \<times> rat list) list"
  sm_currentCohort :: "WorkClass \<rightharpoonup> cohortKey"
  sm_signals :: WorkReviewSignals
  sm_conditioned :: conditioned_counters
  sm_operations :: "(string \<times> operationState) list"

definition start_summary :: "nat \<Rightarrow> summary" where
  "start_summary recoveries =
     \<lparr> sm_byClass = (\<lambda>c. if c \<in> set AllWorkClasses then Some (zero_stats c) else None),
       sm_waits = (\<lambda>_. []), sm_runtimes = (\<lambda>_. []), sm_waitToRuntime = (\<lambda>_. []),
       sm_boundedSlowdown = (\<lambda>_. []), sm_conditionedSlowdown = (\<lambda>_. []),
       sm_conditionedAffected = (\<lambda>_. 0), sm_conditionedExcludedWait = (\<lambda>_. 0),
       sm_cohortSlowdown = [], sm_currentCohort = Map.empty,
       sm_signals = no_signals\<lparr> rs_ExpiredOwnerEvents := int recoveries,
                                rs_ReconciliationRaceRecoveries := int recoveries \<rparr>,
       sm_conditioned = \<lparr> pc_TerminalRuntimeSamples = 0, pc_EligibleSamples = 0,
         pc_WindowBoundarySamples = 0, pc_LegacySchemaSamples = 0, pc_InvalidDecompositionSamples = 0,
         pc_PressureAffectedSamples = 0, pc_ExcludedWaitMS = 0 \<rparr>,
       sm_operations = [] \<rparr>"


section \<open>The signals of one row\<close>

definition WarningCapacityAdmittedDecision :: string where
  "WarningCapacityAdmittedDecision = ''warning_capacity_admitted''"
definition WarningCapacityDeferredDecision :: string where
  "WarningCapacityDeferredDecision = ''warning_capacity_deferred''"
definition SwapThrashAdmittedDecision :: string where
  "SwapThrashAdmittedDecision = ''swap_thrash_admitted''"

definition reclassified :: "WorkEvent \<Rightarrow> WorkReviewSignals \<Rightarrow> WorkReviewSignals" where
  "reclassified e g =
     (if ev_Event e = WorkEventQueued \<or> ev_Event e = WorkEventReused then
        (case ev_RequestedClass e of
           None \<Rightarrow> g
         | Some requested \<Rightarrow>
             (let c = ev_Class e;
                  g = g\<lparr> rs_ClassReclassifications := rs_ClassReclassifications g + 1 \<rparr>;
                  g = (if requested = WorkClassTest \<and> c = WorkClassExpressTest \<or>
                          requested = WorkClassBuild \<and> c = WorkClassExpressBuild
                       then g\<lparr> rs_FullToExpressAdjustments := rs_FullToExpressAdjustments g + 1 \<rparr> else g)
              in if requested = WorkClassExpressTest \<and> c = WorkClassTest \<or>
                    requested = WorkClassExpressBuild \<and> c = WorkClassBuild
                 then g\<lparr> rs_ExpressToFullAdjustments := rs_ExpressToFullAdjustments g + 1 \<rparr> else g))
      else g)"

definition queued_state :: "WorkEvent \<Rightarrow> operationState \<Rightarrow> operationState" where
  "queued_state e st =
     (let st = st\<lparr> os_class := ev_Class e \<rparr> in
      if ev_Event e = WorkEventQueued
      then st\<lparr> os_queuedObserved := True,
               os_initialPressureSignal := (os_initialPressureSignal st \<or>
                 eq_PressureDimension (ev_Queue e) \<noteq> []) \<rparr>
      else st)"

definition decision_signal ::
  "WorkEvent \<Rightarrow> operationState \<times> WorkReviewSignals \<Rightarrow> operationState \<times> WorkReviewSignals" where
  "decision_signal e sg =
     (let (st, g) = sg; d = ed_AdmissionDecision (ev_Decision e);
          seen = st\<lparr> os_warningDecisionSeen := True \<rparr> in
      if os_warningDecisionSeen st then (st, g)
      else if d = WarningCapacityAdmittedDecision
        then (seen, g\<lparr> rs_WarningCapacityAdmissions := rs_WarningCapacityAdmissions g + 1 \<rparr>)
      else if d = WarningCapacityDeferredDecision
        then (seen, g\<lparr> rs_WarningCapacityDeferrals := rs_WarningCapacityDeferrals g + 1 \<rparr>)
      else if d = SwapThrashAdmittedDecision
        then (seen, g\<lparr> rs_SwapThrashAdmissions := rs_SwapThrashAdmissions g + 1 \<rparr>)
      else if d = SwapThrashDeferredDecision
        then (seen, g\<lparr> rs_SwapThrashDeferrals := rs_SwapThrashDeferrals g + 1 \<rparr>)
      else if d = SwapThrashExternalDecision
        then (seen, g\<lparr> rs_SwapThrashExternalBypasses := rs_SwapThrashExternalBypasses g + 1 \<rparr>)
      else (st, g))"

definition classifyCPUAttribution :: "WorkEvent \<Rightarrow> cpu_attribution" where
  "classifyCPUAttribution e =
     (let v = ev_Evidence e in
      if \<not> ee_CoordinatedWorkAttributionAvailable v \<or> \<not> ee_CoordinatedWorkCPUAvailable v then CPUUnavailable
      else if float_greater (ee_CoordinatedWorkCPUPercent v) 0 then CPUActive else CPUIdle)"

definition addCPUAttribution :: "cpu_attribution \<Rightarrow> int \<Rightarrow> WorkReviewSignals \<Rightarrow> WorkReviewSignals" where
  "addCPUAttribution a delta g =
     (case a of
        CPUActive \<Rightarrow> g\<lparr> rs_CPUDeferralsWithCoordinatedWork := rs_CPUDeferralsWithCoordinatedWork g + delta \<rparr>
      | CPUIdle \<Rightarrow> g\<lparr> rs_CPUDeferralsWithoutCoordinatedWork := rs_CPUDeferralsWithoutCoordinatedWork g + delta \<rparr>
      | _ \<Rightarrow> g\<lparr> rs_CPUDeferralsAttributionUnavailable := rs_CPUDeferralsAttributionUnavailable g + delta \<rparr>)"

definition pressure_signal ::
  "WorkEvent \<Rightarrow> operationState \<times> WorkReviewSignals \<Rightarrow> operationState \<times> WorkReviewSignals" where
  "pressure_signal e sg =
     (let (st, g) = sg; dimension = eq_PressureDimension (ev_Queue e);
          seen = st\<lparr> os_pressureSignal := True \<rparr>; a = classifyCPUAttribution e in
      if \<not> os_pressureSignal st then
        if dimension = ''cpu''
          then (seen\<lparr> os_cpuAttribution := a \<rparr>,
                addCPUAttribution a 1 (g\<lparr> rs_CPUOnlyDeferrals := rs_CPUOnlyDeferrals g + 1 \<rparr>))
        else if dimension = ''storage''
          then (seen, g\<lparr> rs_StorageDeferrals := rs_StorageDeferrals g + 1 \<rparr>)
        else if dimension = ''swap''
          then (seen, g\<lparr> rs_SwapDeferrals := rs_SwapDeferrals g + 1 \<rparr>)
        else if dimension \<noteq> []
          then (seen, g\<lparr> rs_MemoryDeferrals := rs_MemoryDeferrals g + 1 \<rparr>)
        else (st, g)
      else if dimension = ''cpu'' \<and> os_cpuAttribution st = CPUUnavailable then
        if a \<noteq> CPUUnavailable
        then (st\<lparr> os_cpuAttribution := a \<rparr>, addCPUAttribution a 1 (addCPUAttribution CPUUnavailable (- 1) g))
        else (st, g)
      else (st, g))"

definition plain_signals :: "WorkEvent \<Rightarrow> WorkReviewSignals \<Rightarrow> WorkReviewSignals" where
  "plain_signals e g =
     (let q = ev_Queue e; d = ev_Decision e;
          g = (if eq_BypassedCount q > 0
               then g\<lparr> rs_BypassedAdmissions := rs_BypassedAdmissions g + eq_BypassedCount q \<rparr> else g);
          g = (if ev_Event e = WorkEventAcquired \<and> eq_ProtectedOperationID q = ev_OperationID e
               then g\<lparr> rs_ProtectedAcquisitions := rs_ProtectedAcquisitions g + 1 \<rparr> else g);
          g = (if ed_IdleParkCount d > 0
               then g\<lparr> rs_IdleParkedOperations := rs_IdleParkedOperations g + 1,
                       rs_IdleParkedMilliseconds := rs_IdleParkedMilliseconds g + ed_IdleParkedMilliseconds d \<rparr>
               else g);
          g = (if ev_Event e = WorkEventOverrideRequested then
                 (if ev_Outcome e = ''agent_priority_requested''
                  then g\<lparr> rs_AgentPriorityRequests := rs_AgentPriorityRequests g + 1 \<rparr>
                  else g\<lparr> rs_OperatorOverrides := rs_OperatorOverrides g + 1 \<rparr>)
               else g)
      in if eq_Blocker q = WorkBlockerReservation
         then g\<lparr> rs_ReservationDeferrals := rs_ReservationDeferrals g + 1 \<rparr> else g)"

definition reuse_signals ::
  "WorkEvent \<Rightarrow> operationState \<times> WorkReviewSignals \<Rightarrow> operationState \<times> WorkReviewSignals" where
  "reuse_signals e sg =
     (let (st, g) = sg; reuse = ed_ReuseStatus (ev_Decision e);
          (st, g) =
            (if \<not> os_cacheSignal st \<and> reuse \<noteq> []
             then (st\<lparr> os_cacheSignal := True \<rparr>,
                   if reuse = ''hit'' then g\<lparr> rs_CacheHits := rs_CacheHits g + 1 \<rparr>
                   else if reuse = ''miss'' then g\<lparr> rs_CacheMisses := rs_CacheMisses g + 1 \<rparr> else g)
             else (st, g))
      in if \<not> os_singleflightSeen st \<and> eq_SingleflightWaitMS (ev_Queue e) > 0
         then (st\<lparr> os_singleflightSeen := True \<rparr>, g\<lparr> rs_SingleflightWaits := rs_SingleflightWaits g + 1 \<rparr>)
         else (st, g))"


section \<open>The lifecycle of one row\<close>

definition count_class :: "WorkClass \<Rightarrow> (WorkClassStats \<Rightarrow> WorkClassStats) \<Rightarrow> summary \<Rightarrow> summary" where
  "count_class c f s = s\<lparr> sm_byClass := (sm_byClass s)(c := map_option f (sm_byClass s c)) \<rparr>"

definition note_wait :: "WorkEvent \<Rightarrow> operationState \<Rightarrow> summary \<Rightarrow> operationState \<times> summary" where
  "note_wait e st s =
     (let waitMS = (if eq_WaitMilliseconds (ev_Queue e) = 0 then os_leaseWaitMS st
                    else eq_WaitMilliseconds (ev_Queue e));
          s = s\<lparr> sm_waits := (sm_waits s)(ev_Class e := sm_waits s (ev_Class e) @ [waitMS]) \<rparr>;
          st = st\<lparr> os_waitRecorded := True, os_waitMS := waitMS \<rparr>;
          g = sm_signals s
      in if waitMS \<ge> 120000 \<and> \<not> os_longWaitSignal st
         then (st\<lparr> os_longWaitSignal := True \<rparr>,
               s\<lparr> sm_signals := g\<lparr> rs_LongWaitOperations := rs_LongWaitOperations g + 1 \<rparr> \<rparr>)
         else (st, s))"

definition recordWait :: "WorkEvent \<Rightarrow> operationState \<Rightarrow> summary \<Rightarrow> operationState \<times> summary" where
  "recordWait e st s = (if os_waitRecorded st then (st, s) else note_wait e st s)"

definition recordWorkRatios :: "WorkClass \<Rightarrow> int \<Rightarrow> int \<Rightarrow> summary \<Rightarrow> summary" where
  "recordWorkRatios c waitMS runtimeMS s =
     (if runtimeMS \<le> 0 then s
      else s\<lparr> sm_waitToRuntime := (sm_waitToRuntime s)(c := sm_waitToRuntime s c @ [of_int waitMS / of_int runtimeMS]),
              sm_boundedSlowdown := (sm_boundedSlowdown s)
                (c := sm_boundedSlowdown s c @ [workBoundedSlowdown waitMS runtimeMS]) \<rparr>)"

fun append_cohort :: "cohortKey \<Rightarrow> rat \<Rightarrow> (cohortKey \<times> rat list) list \<Rightarrow> (cohortKey \<times> rat list) list" where
  "append_cohort k v [] = [(k, [v])]"
| "append_cohort k v ((k', vs) # m) = (if k = k' then (k', vs @ [v]) # m else (k', vs) # append_cohort k v m)"

definition recordCohort :: "WorkEvent \<Rightarrow> int \<Rightarrow> int \<Rightarrow> summary \<Rightarrow> summary" where
  "recordCohort e waitMS runtimeMS s =
     (if runtimeMS \<le> 0 then s
      else let q = ev_Queue e;
               key = (ev_Class e, ev_Weight e, eq_SchedulingPolicy q, eq_SelectorSchemaVersion q)
           in s\<lparr> sm_cohortSlowdown := append_cohort key (workBoundedSlowdown waitMS runtimeMS) (sm_cohortSlowdown s),
                 sm_currentCohort := (sm_currentCohort s)(ev_Class e \<mapsto> key) \<rparr>)"

definition recordPressureConditioned :: "WorkEvent \<Rightarrow> operationState \<Rightarrow> int \<Rightarrow> int \<Rightarrow> summary \<Rightarrow> summary" where
  "recordPressureConditioned e st waitMS runtimeMS s =
     (if runtimeMS \<le> 0 then s
      else
        let c = ev_Class e; q = ev_Queue e; p = sm_conditioned s;
            p = p\<lparr> pc_TerminalRuntimeSamples := pc_TerminalRuntimeSamples p + 1 \<rparr>;
            excluded = eq_PressureWaitMilliseconds q +
              (if os_initialPressureSignal st then eq_AdmissionWaitMilliseconds q else 0)
        in if \<not> os_queuedObserved st
           then s\<lparr> sm_conditioned := p\<lparr> pc_WindowBoundarySamples := pc_WindowBoundarySamples p + 1 \<rparr> \<rparr>
           else if ev_SchemaVersion e < WorkEventSchemaVersion
           then s\<lparr> sm_conditioned := p\<lparr> pc_LegacySchemaSamples := pc_LegacySchemaSamples p + 1 \<rparr> \<rparr>
           else if excluded < 0 \<or> excluded > waitMS
           then s\<lparr> sm_conditioned := p\<lparr> pc_InvalidDecompositionSamples := pc_InvalidDecompositionSamples p + 1 \<rparr> \<rparr>
           else
             let s = s\<lparr> sm_conditionedSlowdown := (sm_conditionedSlowdown s)
                       (c := sm_conditionedSlowdown s c @ [workBoundedSlowdown (waitMS - excluded) runtimeMS]) \<rparr>;
                 p = p\<lparr> pc_EligibleSamples := pc_EligibleSamples p + 1 \<rparr>
             in if excluded > 0
                then s\<lparr> sm_conditioned := p\<lparr> pc_PressureAffectedSamples := pc_PressureAffectedSamples p + 1,
                                             pc_ExcludedWaitMS := pc_ExcludedWaitMS p + excluded \<rparr>,
                        sm_conditionedAffected := (sm_conditionedAffected s)
                          (c := sm_conditionedAffected s c + 1),
                        sm_conditionedExcludedWait := (sm_conditionedExcludedWait s)
                          (c := sm_conditionedExcludedWait s c + excluded) \<rparr>
                else s\<lparr> sm_conditioned := p \<rparr>)"

text \<open>The samples that a completed, failed or cancelled row gives.\<close>

definition close_sample :: "WorkEvent \<Rightarrow> operationState \<Rightarrow> summary \<Rightarrow> operationState \<times> summary" where
  "close_sample e st s =
     (let st = st\<lparr> os_terminal := True \<rparr>; c = ev_Class e; runtimeMS = eq_RuntimeMillis (ev_Queue e);
          s = s\<lparr> sm_runtimes := (sm_runtimes s)(c := sm_runtimes s c @ [runtimeMS]) \<rparr>;
          s = recordWorkRatios c (os_waitMS st) runtimeMS s;
          s = recordCohort e (os_waitMS st) runtimeMS s
      in (st, recordPressureConditioned e st (os_waitMS st) runtimeMS s))"

definition cancel_signals :: "WorkEvent \<Rightarrow> operationState \<Rightarrow> summary \<Rightarrow> operationState \<times> summary" where
  "cancel_signals e st s =
     (let g = sm_signals s;
          (st, g) = (if \<not> os_cancelledSignal st
                     then (st\<lparr> os_cancelledSignal := True \<rparr>,
                           g\<lparr> rs_CancelledOperations := rs_CancelledOperations g + 1 \<rparr>) else (st, g));
          (st, g) = (if \<not> os_wrapperInterruptSignal st \<and> IsWrapperInterruptEvent e
                     then (st\<lparr> os_wrapperInterruptSignal := True \<rparr>,
                           g\<lparr> rs_WrapperInterruptOperations := rs_WrapperInterruptOperations g + 1 \<rparr>)
                     else (st, g))
      in (st, s\<lparr> sm_signals := g \<rparr>))"

definition expire_signals :: "operationState \<Rightarrow> summary \<Rightarrow> operationState \<times> summary" where
  "expire_signals st s =
     (let g = sm_signals s in
      if os_expiredOwnerSeen st then (st, s)
      else (st\<lparr> os_expiredOwnerSeen := True \<rparr>,
            s\<lparr> sm_signals := g\<lparr> rs_ExpiredOwnerEvents := rs_ExpiredOwnerEvents g + 1 \<rparr> \<rparr>))"

definition queueWaitEvidenceMS :: int where "queueWaitEvidenceMS = 30000"
definition queueIdleHostCPUPercent :: rat where "queueIdleHostCPUPercent = 50"

definition acquired_signals :: "WorkEvent \<Rightarrow> WorkReviewSignals \<Rightarrow> WorkReviewSignals" where
  "acquired_signals e g =
     (let q = ev_Queue e; v = ev_Evidence e in
      if isQueueBlocker (eq_Blocker q) \<and> eq_QueueWaitMilliseconds q \<ge> queueWaitEvidenceMS \<and>
         ee_QueueHostCPUAvailable v
      then let g = g\<lparr> rs_QueueWaitsWithCPUEvidence := rs_QueueWaitsWithCPUEvidence g + 1 \<rparr> in
           if float_less (ee_QueueHostCPUPercent v) queueIdleHostCPUPercent
           then g\<lparr> rs_QueueWaitsIdleHost := rs_QueueWaitsIdleHost g + 1 \<rparr> else g
      else g)"

definition lifecycle_row :: "WorkEvent \<Rightarrow> operationState \<Rightarrow> summary \<Rightarrow> operationState \<times> summary" where
  "lifecycle_row e st s =
     (case ev_Event e of
        WorkEventAcquired \<Rightarrow>
          (st\<lparr> os_leaseWaitMS := eq_WaitMilliseconds (ev_Queue e) \<rparr>,
           (count_class (ev_Class e) (\<lambda>x. x\<lparr> cs_Acquired := cs_Acquired x + 1 \<rparr>) s)
             \<lparr> sm_signals := acquired_signals e (sm_signals s) \<rparr>)
      | WorkEventReacquired \<Rightarrow> (st\<lparr> os_leaseWaitMS := eq_WaitMilliseconds (ev_Queue e) \<rparr>, s)
      | WorkEventStarted \<Rightarrow> note_wait e st s
      | WorkEventCompleted \<Rightarrow>
          (if os_terminal st then (st, s)
           else let (st, s) = recordWait e st s in
                close_sample e st (count_class (ev_Class e) (\<lambda>x. x\<lparr> cs_Completed := cs_Completed x + 1 \<rparr>) s))
      | WorkEventFailed \<Rightarrow>
          (if os_terminal st then (st, s)
           else let (st, s) = recordWait e st s in
                close_sample e st (count_class (ev_Class e) (\<lambda>x. x\<lparr> cs_Failed := cs_Failed x + 1 \<rparr>) s))
      | WorkEventCancelled \<Rightarrow>
          (if os_terminal st then (st, s)
           else let (st, s) = recordWait e st s;
                    s = count_class (ev_Class e) (\<lambda>x. x\<lparr> cs_Cancelled := cs_Cancelled x + 1 \<rparr>) s;
                    (st, s) = cancel_signals e st s
                in close_sample e st s)
      | WorkEventExpired \<Rightarrow>
          (let (st, s) = expire_signals st s in
           if os_terminal st then (st, s)
           else let (st, s) = recordWait e st s in
                (st\<lparr> os_terminal := True \<rparr>,
                 count_class (ev_Class e) (\<lambda>x. x\<lparr> cs_Expired := cs_Expired x + 1 \<rparr>) s))
      | WorkEventReused \<Rightarrow>
          (if os_terminal st then (st, s)
           else (st\<lparr> os_terminal := True \<rparr>,
                 count_class (ev_Class e) (\<lambda>x. x\<lparr> cs_Reused := cs_Reused x + 1 \<rparr>) s))
      | _ \<Rightarrow> (st, s))"

fun put_operation :: "string \<Rightarrow> operationState \<Rightarrow> (string \<times> operationState) list \<Rightarrow> (string \<times> operationState) list" where
  "put_operation k st [] = [(k, st)]"
| "put_operation k st ((k', x) # ops) = (if k = k' then (k, st) # ops else (k', x) # put_operation k st ops)"

text \<open>
  The class of an operation is counted when its first row arrives, before a class that the program
  does not know gets its own entry.
\<close>

definition arrive :: "WorkEvent \<Rightarrow> summary \<Rightarrow> summary" where
  "arrive e s =
     (let c = ev_Class e;
          s = (if map_of (sm_operations s) (ev_OperationID e) = None
               then count_class c (\<lambda>x. x\<lparr> cs_Operations := cs_Operations x + 1 \<rparr>) s else s)
      in if sm_byClass s c = None then s\<lparr> sm_byClass := (sm_byClass s)(c \<mapsto> zero_stats c) \<rparr> else s)"

definition row_signals :: "WorkEvent \<Rightarrow> operationState \<Rightarrow> WorkReviewSignals \<Rightarrow> operationState \<times> WorkReviewSignals" where
  "row_signals e st g =
     (let (st, g) = pressure_signal e (decision_signal e (queued_state e st, reclassified e g))
      in reuse_signals e (st, plain_signals e g))"

definition row_step :: "WorkEvent \<Rightarrow> operationState \<Rightarrow> summary \<Rightarrow> operationState \<times> summary" where
  "row_step e st s =
     (let (st, g) = row_signals e st (sm_signals s) in lifecycle_row e st (s\<lparr> sm_signals := g \<rparr>))"

definition state_of :: "(string \<times> operationState) list \<Rightarrow> string \<Rightarrow> operationState" where
  "state_of ops k = (case map_of ops k of None \<Rightarrow> zero_operation | Some st \<Rightarrow> st)"

definition summarize_row :: "WorkEvent \<Rightarrow> summary \<Rightarrow> summary" where
  "summarize_row e s =
     (let (st, s) = row_step e (state_of (sm_operations s) (ev_OperationID e)) (arrive e s)
      in s\<lparr> sm_operations := put_operation (ev_OperationID e) st (sm_operations s) \<rparr>)"


section \<open>Lease CPU\<close>

fun float_value :: "go_float \<Rightarrow> rat" where
  "float_value (Finite r) = r"
| "float_value _ = 0"

record WorkLeaseCPUClass =
  lc_Class :: WorkClass
  lc_Weight :: int
  lc_Operations :: int
  lc_RuntimeMS :: int
  lc_CPUMS :: int
  lc_AvgCores :: rat
  lc_P50Cores :: rat
  lc_P90Cores :: rat
  lc_ReservedCores :: rat
  lc_Utilization :: rat
  lc_PeakRSSMBP90 :: rat
  lc_PeakRSSMBMax :: rat

definition leaseCPUMinRuntimeMS :: int where "leaseCPUMinRuntimeMS = 100"

definition lease_row :: "WorkEvent \<Rightarrow> bool" where
  "lease_row e \<longleftrightarrow>
     \<not> (\<not> isWorkTerminalEvent (ev_Event e) \<or> \<not> ee_CommandCPUAvailable (ev_Evidence e) \<or>
        eq_RuntimeMillis (ev_Queue e) < leaseCPUMinRuntimeMS \<or> ee_CommandCPUMilliseconds (ev_Evidence e) < 0)"

text \<open>The row of one class over the runs it kept, which are not empty.\<close>

definition lease_class :: "WorkClass \<Rightarrow> WorkEvent list \<Rightarrow> WorkLeaseCPUClass" where
  "lease_class c runs =
     (let runtime = (\<lambda>e. eq_RuntimeMillis (ev_Queue e));
          cpu = (\<lambda>e. ee_CommandCPUMilliseconds (ev_Evidence e));
          cores = map (\<lambda>e. of_int (cpu e) / of_int (runtime e)) runs;
          peaks = map (\<lambda>e. float_value (ee_CommandPeakRSSMB (ev_Evidence e)))
            (filter (\<lambda>e. float_greater (ee_CommandPeakRSSMB (ev_Evidence e)) 0) runs);
          reserving = filter (\<lambda>e. float_greater (ee_LeaseReservedCores (ev_Evidence e)) 0) runs;
          reservedCPUMS = sum_list (map cpu reserving);
          reservedRuntimeMS = sum_list (map runtime reserving);
          reservedCoreRuntime = sum_list (map (\<lambda>e. float_value (ee_LeaseReservedCores (ev_Evidence e)) *
            of_int (runtime e)) reserving);
          reserved = reservedRuntimeMS > 0 \<and> reservedCoreRuntime > 0
      in \<lparr> lc_Class = c, lc_Weight = ev_Weight (last runs), lc_Operations = int (length runs),
           lc_RuntimeMS = sum_list (map runtime runs), lc_CPUMS = sum_list (map cpu runs),
           lc_AvgCores = roundRatio (of_int (sum_list (map cpu runs)) / of_int (sum_list (map runtime runs))),
           lc_P50Cores = roundRatio (percentileOf cores (1 / 2)),
           lc_P90Cores = roundRatio (percentileOf cores (9 / 10)),
           lc_ReservedCores =
             (if reserved then roundRatio (reservedCoreRuntime / of_int reservedRuntimeMS) else 0),
           lc_Utilization =
             (if reserved then roundRatio (of_int reservedCPUMS / reservedCoreRuntime) else 0),
           lc_PeakRSSMBP90 = roundRatio (percentileOf peaks (9 / 10)),
           lc_PeakRSSMBMax = fold (\<lambda>peak m. max m (roundRatio peak)) peaks 0 \<rparr>)"

definition summarizeLeaseCPU :: "WorkEvent list \<Rightarrow> int \<times> WorkLeaseCPUClass list" where
  "summarizeLeaseCPU events =
     (let kept = filter lease_row events; runs = (\<lambda>c. filter (\<lambda>e. ev_Class e = c) kept)
      in (int (length kept),
          map (\<lambda>c. lease_class c (runs c)) (filter (\<lambda>c. runs c \<noteq> []) AllWorkClasses)))"


section \<open>Service levels and cohorts\<close>

definition WorkBoundedSlowdownP95Target :: rat where "WorkBoundedSlowdownP95Target = 5"
definition WorkP95MinimumSamples :: nat where "WorkP95MinimumSamples = 20"

text \<open>The sampled classes of a service level: enough samples, too few, and too slow.\<close>

record service_level =
  sl_Status :: string
  sl_EvaluatedSamples :: "(WorkClass \<times> nat) list"
  sl_DeferredClasses :: "(WorkClass \<times> nat) list"
  sl_Breaches :: "(WorkClass \<times> rat) list"

definition level_of :: "(WorkClass \<Rightarrow> rat list) \<Rightarrow> service_level" where
  "level_of samples =
     (let evaluated = filter (\<lambda>c. length (samples c) \<ge> WorkP95MinimumSamples) AllWorkClasses;
          deferred = filter (\<lambda>c. length (samples c) < WorkP95MinimumSamples \<and> length (samples c) > 0) AllWorkClasses;
          p95 = (\<lambda>c. rt_P95 (ratioStats (samples c)));
          breached = filter (\<lambda>c. p95 c > WorkBoundedSlowdownP95Target) evaluated
      in \<lparr> sl_Status = (if evaluated = [] then ''insufficient-data''
                        else if breached = [] then ''met'' else ''breached''),
           sl_EvaluatedSamples = map (\<lambda>c. (c, length (samples c))) evaluated,
           sl_DeferredClasses = map (\<lambda>c. (c, length (samples c))) deferred,
           sl_Breaches = map (\<lambda>c. (c, p95 c)) breached \<rparr>)"

definition sample_status :: "rat list \<Rightarrow> string" where
  "sample_status values =
     (if length values < WorkP95MinimumSamples then ''deferred''
      else if rt_P95 (ratioStats values) > WorkBoundedSlowdownP95Target then ''breached'' else ''met'')"

record WorkPressureConditionedClass =
  pcc_Class :: WorkClass
  pcc_Samples :: nat
  pcc_PressureAffectedSamples :: int
  pcc_ExcludedWaitMS :: int
  pcc_P95BoundedSlowdown :: rat
  pcc_Status :: string

record WorkPressureConditionedServiceLevel =
  pl_EvidenceStatus :: string
  pl_Counters :: conditioned_counters
  pl_Level :: service_level
  pl_ByClass :: "WorkPressureConditionedClass list"

definition conditioned_class :: "summary \<Rightarrow> WorkClass \<Rightarrow> WorkPressureConditionedClass" where
  "conditioned_class s c =
     \<lparr> pcc_Class = c, pcc_Samples = length (sm_conditionedSlowdown s c),
       pcc_PressureAffectedSamples = sm_conditionedAffected s c,
       pcc_ExcludedWaitMS = sm_conditionedExcludedWait s c,
       pcc_P95BoundedSlowdown = rt_P95 (ratioStats (sm_conditionedSlowdown s c)),
       pcc_Status = sample_status (sm_conditionedSlowdown s c) \<rparr>"

definition conditioned_level :: "summary \<Rightarrow> WorkPressureConditionedServiceLevel" where
  "conditioned_level s =
     (let p = sm_conditioned s in
      \<lparr> pl_EvidenceStatus =
          (if pc_InvalidDecompositionSamples p > 0 then ''invalid''
           else if pc_WindowBoundarySamples p + pc_LegacySchemaSamples p > 0 then ''partial'' else ''complete''),
        pl_Counters = p, pl_Level = level_of (sm_conditionedSlowdown s),
        pl_ByClass = map (conditioned_class s)
          (filter (\<lambda>c. sm_conditionedSlowdown s c \<noteq> []) AllWorkClasses) \<rparr>)"

record WorkCalibrationCohort =
  co_Class :: WorkClass
  co_Weight :: int
  co_SchedulingPolicy :: string
  co_SelectorSchemaVersion :: int
  co_TerminalRuntimeSamples :: nat
  co_P95BoundedSlowdown :: rat
  co_Status :: string
  co_Current :: bool

definition cohort_row :: "(WorkClass \<rightharpoonup> cohortKey) \<Rightarrow> cohortKey \<times> rat list \<Rightarrow> WorkCalibrationCohort" where
  "cohort_row current kv =
     (let (key, values) = kv; (c, weight, policy, schema) = key in
      \<lparr> co_Class = c, co_Weight = weight, co_SchedulingPolicy = policy, co_SelectorSchemaVersion = schema,
        co_TerminalRuntimeSamples = length values, co_P95BoundedSlowdown = rt_P95 (ratioStats values),
        co_Status = sample_status values, co_Current = (current c = Some key) \<rparr>)"

fun class_rank_from :: "nat \<Rightarrow> WorkClass list \<Rightarrow> WorkClass \<Rightarrow> nat" where
  "class_rank_from n [] c = 0"
| "class_rank_from n (c' # cs) c = (if c = c' then n else class_rank_from (n + 1) cs c)"

definition cohort_rank :: "WorkCalibrationCohort \<Rightarrow> nat \<times> nat \<times> int \<times> int \<times> string" where
  "cohort_rank r =
     (class_rank_from 0 AllWorkClasses (co_Class r), if co_Current r then 0 else 1,
      - co_SelectorSchemaVersion r, co_Weight r, co_SchedulingPolicy r)"

definition calibration_cohorts :: "summary \<Rightarrow> WorkCalibrationCohort list" where
  "calibration_cohorts s = sort_key cohort_rank (map (cohort_row (sm_currentCohort s)) (sm_cohortSlowdown s))"


section \<open>The summary\<close>

record WorkStats =
  ws_SchemaVersion :: int
  ws_Since :: time
  ws_GeneratedAt :: time
  ws_EventCount :: nat
  ws_OperationCount :: nat
  ws_OpenOperations :: nat
  ws_ByClass :: "WorkClassStats list"
  ws_ReviewSignals :: WorkReviewSignals
  ws_ServiceLevel :: service_level
  ws_PressureConditionedServiceLevel :: WorkPressureConditionedServiceLevel
  ws_CalibrationCohorts :: "WorkCalibrationCohort list"
  ws_SwapDerate :: WorkSwapDerateCost
  ws_WaitAttribution :: WorkWaitAttribution
  ws_LeaseCPU :: "int \<times> WorkLeaseCPUClass list"

definition class_stats :: "summary \<Rightarrow> WorkClass \<Rightarrow> WorkClassStats" where
  "class_stats s c =
     (case sm_byClass s c of None \<Rightarrow> zero_stats c | Some x \<Rightarrow> x)
       \<lparr> cs_Wait := durationStats (sm_waits s c), cs_Runtime := durationStats (sm_runtimes s c),
         cs_WaitToRuntime := ratioStats (sm_waitToRuntime s c),
         cs_BoundedSlowdown := ratioStats (sm_boundedSlowdown s c) \<rparr>"

definition run_summary :: "WorkEvent list \<Rightarrow> summary" where
  "run_summary events =
     (let (rows, recoveries) = normalizeLateReconciliationTerminals events
      in fold summarize_row rows (start_summary recoveries))"

definition SummarizeWorkEvents :: "WorkEvent list \<Rightarrow> time \<Rightarrow> time \<Rightarrow> WorkStats" where
  "SummarizeWorkEvents events since generatedAt =
     (let rows = fst (normalizeLateReconciliationTerminals events); s = run_summary events;
          unfinished = length (filter (\<lambda>st. \<not> os_terminal st) (map snd (sm_operations s)));
          attribution = summarizeWaitAttribution rows
      in \<lparr> ws_SchemaVersion = WorkEventSchemaVersion, ws_Since = since, ws_GeneratedAt = generatedAt,
           ws_EventCount = length events, ws_OperationCount = length (sm_operations s),
           ws_OpenOperations = unfinished,
           ws_ByClass = filter (\<lambda>x. cs_Operations x > 0) (map (class_stats s) AllWorkClasses),
           ws_ReviewSignals = (sm_signals s)\<lparr> rs_IncompleteOperations := int unfinished \<rparr>,
           ws_ServiceLevel = level_of (sm_boundedSlowdown s),
           ws_PressureConditionedServiceLevel = conditioned_level s,
           ws_CalibrationCohorts = calibration_cohorts s,
           ws_SwapDerate = relateSwapDerateToAllWait (summarizeSwapDerate rows since generatedAt) attribution,
           ws_WaitAttribution = attribution, ws_LeaseCPU = summarizeLeaseCPU rows \<rparr>)"


section \<open>Counting operations\<close>

definition ops_count :: "(operationState \<Rightarrow> bool) \<Rightarrow> (string \<times> operationState) list \<Rightarrow> int" where
  "ops_count P ops = int (length (filter P (map snd ops)))"

lemma ops_count_simps [simp]:
  "ops_count P [] = 0" "ops_count P (kx # ops) = of_bool (P (snd kx)) + ops_count P ops"
  by (simp_all add: ops_count_def)

lemma state_of_simps [simp]:
  "state_of [] k = zero_operation" "state_of ((k', x) # ops) k = (if k = k' then x else state_of ops k)"
  by (simp_all add: state_of_def)

lemma map_of_put: "map_of (put_operation k st ops) = (map_of ops)(k \<mapsto> st)"
  by (induction ops) (auto simp: fun_eq_iff)

lemma ops_count_put:
  "\<not> P zero_operation \<Longrightarrow>
     ops_count P (put_operation k st ops) = ops_count P ops + of_bool (P st) - of_bool (P (state_of ops k))"
  by (induction ops) auto

lemma length_put:
  "int (length (put_operation k st ops)) = int (length ops) + of_bool (map_of ops k = None)"
  by (induction ops) auto

lemma ops_count_le: "ops_count P ops \<le> int (length ops)" "0 \<le> ops_count P ops"
  using length_filter_le [of P "map snd ops"] by (simp_all add: ops_count_def)

lemma ops_count_mono: "(\<And>st. P st \<Longrightarrow> Q st) \<Longrightarrow> ops_count P ops \<le> ops_count Q ops"
  by (induction ops) auto

text \<open>A state that has not deferred on pressure has no attribution of its deferral.\<close>

definition tidy :: "operationState \<Rightarrow> bool" where
  "tidy st \<longleftrightarrow> os_cpuAttribution st \<noteq> CPUUnset \<longrightarrow> os_pressureSignal st"

definition balanced ::
  "(WorkReviewSignals \<Rightarrow> int) \<Rightarrow> (operationState \<Rightarrow> bool) \<Rightarrow> operationState \<times> WorkReviewSignals
     \<Rightarrow> operationState \<times> WorkReviewSignals \<Rightarrow> bool"
where
  "balanced signal flag sg sg' \<longleftrightarrow>
     signal (snd sg') - of_bool (flag (fst sg')) = signal (snd sg) - of_bool (flag (fst sg))"

abbreviation with_signals :: "operationState \<times> summary \<Rightarrow> operationState \<times> WorkReviewSignals" where
  "with_signals ss \<equiv> (fst ss, sm_signals (snd ss))"

lemma pieces_frame [simp]:
  "sm_signals (count_class c f s) = sm_signals s" "sm_operations (count_class c f s) = sm_operations s"
  "sm_signals (recordWorkRatios c w r s) = sm_signals s" "sm_operations (recordWorkRatios c w r s) = sm_operations s"
  "sm_signals (recordCohort e w r s) = sm_signals s" "sm_operations (recordCohort e w r s) = sm_operations s"
  "sm_signals (recordPressureConditioned e st w r s) = sm_signals s"
  "sm_operations (recordPressureConditioned e st w r s) = sm_operations s"
  "sm_signals (arrive e s) = sm_signals s" "sm_operations (arrive e s) = sm_operations s"
  by (simp_all add: count_class_def recordWorkRatios_def recordCohort_def recordPressureConditioned_def
      arrive_def Let_def)

lemma close_frame [simp]:
  "fst (close_sample e st s) = st\<lparr> os_terminal := True \<rparr>"
  "sm_signals (snd (close_sample e st s)) = sm_signals s"
  "sm_operations (snd (close_sample e st s)) = sm_operations s"
  by (simp_all add: close_sample_def Let_def)

lemma tidy_pieces [simp]:
  "tidy zero_operation" "tidy (queued_state e st) = tidy st"
  "tidy (fst (decision_signal e (st, g))) = tidy st"
  "tidy (fst (reuse_signals e (st, g))) = tidy st"
  "tidy st \<Longrightarrow> tidy (fst (pressure_signal e (st, g)))"
  "tidy (fst (note_wait e st s)) = tidy st" "tidy (fst (recordWait e st s)) = tidy st"
  "tidy (fst (cancel_signals e st s)) = tidy st" "tidy (fst (expire_signals st s)) = tidy st"
  "tidy (st\<lparr> os_terminal := True \<rparr>) = tidy st" "tidy (st\<lparr> os_leaseWaitMS := w \<rparr>) = tidy st"
  by (auto simp: tidy_def zero_operation_def queued_state_def decision_signal_def reuse_signals_def
      pressure_signal_def note_wait_def recordWait_def cancel_signals_def expire_signals_def Let_def)

lemma row_signals_eq:
  "row_signals e st g =
     (let sg = pressure_signal e (decision_signal e (queued_state e st, reclassified e g))
      in reuse_signals e (fst sg, plain_signals e (snd sg)))"
  by (simp add: row_signals_def case_prod_beta Let_def)

lemma tidy_row_signals: "tidy st \<Longrightarrow> tidy (fst (row_signals e st g))"
  using tidy_pieces(5) [of "fst (decision_signal e (queued_state e st, reclassified e g))" e
      "snd (decision_signal e (queued_state e st, reclassified e g))"]
  by (simp add: row_signals_eq Let_def)

lemma tidy_lifecycle: "tidy st \<Longrightarrow> tidy (fst (lifecycle_row e st s))"
  by (simp add: lifecycle_row_def case_prod_beta Let_def split: WorkEventType.split)

lemma tidy_row: "tidy st \<Longrightarrow> tidy (fst (row_step e st s))"
  by (simp add: row_step_def case_prod_beta tidy_row_signals tidy_lifecycle)

lemma summarize_row_eq:
  "summarize_row e s =
     (let st = state_of (sm_operations s) (ev_OperationID e); r = row_step e st (arrive e s)
      in (snd r)\<lparr> sm_operations := put_operation (ev_OperationID e) (fst r) (sm_operations (snd r)) \<rparr>)"
  by (simp add: summarize_row_def case_prod_beta Let_def)

lemma wait_frame [simp]:
  "sm_operations (snd (note_wait e st s)) = sm_operations s"
  "sm_operations (snd (recordWait e st s)) = sm_operations s"
  "sm_operations (snd (cancel_signals e st s)) = sm_operations s"
  "sm_operations (snd (expire_signals st s)) = sm_operations s"
  by (simp_all add: note_wait_def recordWait_def cancel_signals_def expire_signals_def case_prod_beta Let_def)

lemma lifecycle_operations [simp]: "sm_operations (snd (lifecycle_row e st s)) = sm_operations s"
  by (simp add: lifecycle_row_def case_prod_beta Let_def split: WorkEventType.split)

lemma row_operations:
  "sm_operations (summarize_row e s) =
     put_operation (ev_OperationID e) (fst (row_step e (state_of (sm_operations s) (ev_OperationID e)) (arrive e s)))
       (sm_operations s)"
  by (simp add: summarize_row_eq Let_def row_step_def case_prod_beta)

definition all_tidy :: "(string \<times> operationState) list \<Rightarrow> bool" where
  "all_tidy ops \<longleftrightarrow> (\<forall>k. tidy (state_of ops k))"

lemma state_of_put: "state_of (put_operation k st ops) k' = (if k' = k then st else state_of ops k')"
  by (simp add: state_of_def map_of_put)

lemma all_tidy_row: "all_tidy (sm_operations s) \<Longrightarrow> all_tidy (sm_operations (summarize_row e s))"
  by (auto simp: all_tidy_def row_operations state_of_put intro: tidy_row)

text \<open>
  A counted signal counts the operations that raised a flag: whatever part of the program handles a
  row, the signal changes exactly when the flag does.
\<close>

locale counted_signal =
  fixes signal :: "WorkReviewSignals \<Rightarrow> int" and flag :: "operationState \<Rightarrow> bool"
  assumes fresh: "\<not> flag zero_operation"
    and queued: "flag (queued_state e st) = flag st"
    and reclass: "signal (reclassified e g) = signal g"
    and decision: "balanced signal flag (st, g) (decision_signal e (st, g))"
    and pressure: "tidy st \<Longrightarrow> balanced signal flag (st, g) (pressure_signal e (st, g))"
    and plain: "signal (plain_signals e g) = signal g"
    and reuse: "balanced signal flag (st, g) (reuse_signals e (st, g))"
    and acquired: "signal (acquired_signals e g) = signal g"
    and leased: "flag (st\<lparr> os_leaseWaitMS := w \<rparr>) = flag st"
    and closed: "flag (st\<lparr> os_terminal := True \<rparr>) = flag st"
    and wait: "balanced signal flag (st, sm_signals s) (with_signals (note_wait e st s))"
    and cancel: "balanced signal flag (st, sm_signals s) (with_signals (cancel_signals e st s))"
    and expired: "balanced signal flag (st, sm_signals s) (with_signals (expire_signals st s))"
begin

lemma row_signals_balanced: "tidy st \<Longrightarrow> balanced signal flag (st, g) (row_signals e st g)"
proof -
  assume t: "tidy st"
  let ?d = "decision_signal e (queued_state e st, reclassified e g)"
  let ?p = "pressure_signal e (fst ?d, snd ?d)"
  have "balanced signal flag (fst ?d, snd ?d) ?p" using t by (intro pressure) simp
  moreover have "balanced signal flag (queued_state e st, reclassified e g) ?d" by (rule decision)
  moreover have "balanced signal flag (fst ?p, plain_signals e (snd ?p))
      (reuse_signals e (fst ?p, plain_signals e (snd ?p)))" by (rule reuse)
  ultimately show ?thesis
    by (simp add: row_signals_eq Let_def balanced_def queued reclass plain split del: split_of_bool)
qed

lemma recordWait_balanced: "balanced signal flag (st, sm_signals s) (with_signals (recordWait e st s))"
  using wait [of st s e] by (simp add: recordWait_def balanced_def split del: split_of_bool)

lemma lifecycle_balanced: "balanced signal flag (st, sm_signals s) (with_signals (lifecycle_row e st s))"
  using wait [of st s e] recordWait_balanced [of st s e] expired [of st s]
    recordWait_balanced [of "fst (expire_signals st s)" "snd (expire_signals st s)" e]
    cancel [of "fst (recordWait e st s)" "count_class (ev_Class e) f (snd (recordWait e st s))" e for f]
  by (simp add: lifecycle_row_def balanced_def case_prod_beta Let_def acquired leased closed
      split: WorkEventType.split split del: split_of_bool)

lemma step_balanced: "tidy st \<Longrightarrow> balanced signal flag (st, sm_signals s) (with_signals (row_step e st s))"
  using row_signals_balanced [of st "sm_signals s" e]
    lifecycle_balanced [of "fst (row_signals e st (sm_signals s))"
      "s\<lparr> sm_signals := snd (row_signals e st (sm_signals s)) \<rparr>" e]
  by (simp add: row_step_def case_prod_beta balanced_def split del: split_of_bool)

lemma row_counts:
  "all_tidy (sm_operations s) \<Longrightarrow>
     signal (sm_signals (summarize_row e s)) - ops_count flag (sm_operations (summarize_row e s)) =
       signal (sm_signals s) - ops_count flag (sm_operations s)"
  using step_balanced [of "state_of (sm_operations s) (ev_OperationID e)" "arrive e s" e]
  by (simp add: row_operations ops_count_put fresh balanced_def all_tidy_def split del: split_of_bool)
    (simp add: summarize_row_eq Let_def split del: split_of_bool)

lemma rows_count:
  "all_tidy (sm_operations s) \<Longrightarrow>
     signal (sm_signals (fold summarize_row rows s)) - ops_count flag (sm_operations (fold summarize_row rows s)) =
       signal (sm_signals s) - ops_count flag (sm_operations s)"
  by (induction rows arbitrary: s) (simp_all add: row_counts all_tidy_row)

lemma counted:
  "signal (sm_signals (fold summarize_row rows (start_summary n))) =
     signal (sm_signals (start_summary n)) + ops_count flag (sm_operations (fold summarize_row rows (start_summary n)))"
  using rows_count [of "start_summary n" rows] by (simp add: start_summary_def all_tidy_def)

end

lemmas signal_pieces =
  queued_state_def reclassified_def decision_signal_def pressure_signal_def plain_signals_def reuse_signals_def
  acquired_signals_def note_wait_def cancel_signals_def expire_signals_def addCPUAttribution_def
  balanced_def Let_def zero_operation_def

interpretation cpu_deferrals: counted_signal rs_CPUOnlyDeferrals "\<lambda>st. os_cpuAttribution st \<noteq> CPUUnset"
  by unfold_locales (auto simp: signal_pieces tidy_def classifyCPUAttribution_def split: option.split)

interpretation active_deferrals: counted_signal rs_CPUDeferralsWithCoordinatedWork "\<lambda>st. os_cpuAttribution st = CPUActive"
  by unfold_locales (auto simp: signal_pieces tidy_def classifyCPUAttribution_def split: option.split)

interpretation idle_deferrals: counted_signal rs_CPUDeferralsWithoutCoordinatedWork "\<lambda>st. os_cpuAttribution st = CPUIdle"
  by unfold_locales (auto simp: signal_pieces tidy_def classifyCPUAttribution_def split: option.split)

interpretation unknown_deferrals: counted_signal rs_CPUDeferralsAttributionUnavailable "\<lambda>st. os_cpuAttribution st = CPUUnavailable"
  by unfold_locales (auto simp: signal_pieces tidy_def classifyCPUAttribution_def split: option.split)

interpretation pressure_deferrals: counted_signal
    "\<lambda>g. rs_CPUOnlyDeferrals g + rs_MemoryDeferrals g + rs_StorageDeferrals g + rs_SwapDeferrals g" os_pressureSignal
  by unfold_locales (auto simp: signal_pieces classifyCPUAttribution_def split: option.split)

interpretation decisions: counted_signal
    "\<lambda>g. rs_WarningCapacityAdmissions g + rs_WarningCapacityDeferrals g + rs_SwapThrashAdmissions g +
      rs_SwapThrashDeferrals g + rs_SwapThrashExternalBypasses g" os_warningDecisionSeen
  by unfold_locales (auto simp: signal_pieces classifyCPUAttribution_def split: option.split)

interpretation long_wait_operations: counted_signal rs_LongWaitOperations os_longWaitSignal
  by unfold_locales (auto simp: signal_pieces classifyCPUAttribution_def split: option.split)

interpretation cancelled_operations: counted_signal rs_CancelledOperations os_cancelledSignal
  by unfold_locales (auto simp: signal_pieces classifyCPUAttribution_def split: option.split)

interpretation interrupted_operations: counted_signal rs_WrapperInterruptOperations os_wrapperInterruptSignal
  by unfold_locales (auto simp: signal_pieces classifyCPUAttribution_def split: option.split)

interpretation singleflight_operations: counted_signal rs_SingleflightWaits os_singleflightSeen
  by unfold_locales (auto simp: signal_pieces classifyCPUAttribution_def split: option.split)

interpretation expired_operations: counted_signal rs_ExpiredOwnerEvents os_expiredOwnerSeen
  by unfold_locales (auto simp: signal_pieces classifyCPUAttribution_def split: option.split)

lemmas signals_counted =
  cpu_deferrals.counted active_deferrals.counted idle_deferrals.counted unknown_deferrals.counted
  pressure_deferrals.counted decisions.counted long_wait_operations.counted cancelled_operations.counted
  interrupted_operations.counted singleflight_operations.counted expired_operations.counted

lemma attribution_split:
  "ops_count (\<lambda>st. os_cpuAttribution st \<noteq> CPUUnset) ops =
     ops_count (\<lambda>st. os_cpuAttribution st = CPUActive) ops + ops_count (\<lambda>st. os_cpuAttribution st = CPUIdle) ops +
     ops_count (\<lambda>st. os_cpuAttribution st = CPUUnavailable) ops"
proof (induction ops)
  case (Cons kx ops)
  then show ?case by (cases "os_cpuAttribution (snd kx)") simp_all
qed simp

lemma run_summary_eq:
  "run_summary events = fold summarize_row (fst (normalizeLateReconciliationTerminals events))
     (start_summary (snd (normalizeLateReconciliationTerminals events)))"
  by (simp add: run_summary_def case_prod_beta)


section \<open>The accounts of a class\<close>

definition outcomes :: "WorkClassStats \<Rightarrow> int" where
  "outcomes x = cs_Completed x + cs_Failed x + cs_Cancelled x + cs_Expired x + cs_Reused x"

definition count_of :: "(WorkClassStats \<Rightarrow> int) \<Rightarrow> summary \<Rightarrow> WorkClass \<Rightarrow> int" where
  "count_of f s c = (case sm_byClass s c of None \<Rightarrow> 0 | Some x \<Rightarrow> f x)"

lemma byClass_frame [simp]:
  "sm_byClass (snd (note_wait e st s)) = sm_byClass s" "sm_byClass (snd (recordWait e st s)) = sm_byClass s"
  "sm_byClass (snd (cancel_signals e st s)) = sm_byClass s" "sm_byClass (snd (expire_signals st s)) = sm_byClass s"
  "sm_byClass (snd (close_sample e st s)) = sm_byClass s"
  by (simp_all add: note_wait_def recordWait_def cancel_signals_def expire_signals_def close_sample_def
      recordWorkRatios_def recordCohort_def recordPressureConditioned_def case_prod_beta Let_def)

lemma count_of_update [simp]:
  "count_of f (s\<lparr> sm_signals := g \<rparr>) = count_of f s" "count_of f (s\<lparr> sm_operations := ops \<rparr>) = count_of f s"
  "count_of f (snd (note_wait e st s)) = count_of f s" "count_of f (snd (recordWait e st s)) = count_of f s"
  "count_of f (snd (cancel_signals e st s)) = count_of f s"
  "count_of f (snd (expire_signals st s)) = count_of f s" "count_of f (snd (close_sample e st s)) = count_of f s"
  by (simp_all add: count_of_def fun_eq_iff)

lemma count_of_count_class:
  "sm_byClass s c \<noteq> None \<Longrightarrow> (\<And>x. f (h x) = f x + k) \<Longrightarrow>
     count_of f (count_class c h s) c' = count_of f s c' + (if c' = c then k else 0)"
  by (auto simp: count_of_def count_class_def)

lemma class_pieces [simp]:
  "os_class (queued_state e st) = ev_Class e" "os_class (fst (decision_signal e sg)) = os_class (fst sg)"
  "os_class (fst (pressure_signal e sg)) = os_class (fst sg)"
  "os_class (fst (reuse_signals e sg)) = os_class (fst sg)"
  "os_class (fst (note_wait e st s)) = os_class st" "os_class (fst (recordWait e st s)) = os_class st"
  "os_class (fst (cancel_signals e st s)) = os_class st" "os_class (fst (expire_signals st s)) = os_class st"
  by (simp_all add: queued_state_def decision_signal_def reuse_signals_def pressure_signal_def note_wait_def
      recordWait_def cancel_signals_def expire_signals_def case_prod_beta Let_def)

lemma terminal_pieces [simp]:
  "os_terminal (queued_state e st) = os_terminal st"
  "os_terminal (fst (decision_signal e sg)) = os_terminal (fst sg)"
  "os_terminal (fst (pressure_signal e sg)) = os_terminal (fst sg)"
  "os_terminal (fst (reuse_signals e sg)) = os_terminal (fst sg)"
  "os_terminal (fst (note_wait e st s)) = os_terminal st" "os_terminal (fst (recordWait e st s)) = os_terminal st"
  "os_terminal (fst (cancel_signals e st s)) = os_terminal st"
  "os_terminal (fst (expire_signals st s)) = os_terminal st"
  by (simp_all add: queued_state_def decision_signal_def reuse_signals_def pressure_signal_def note_wait_def
      recordWait_def cancel_signals_def expire_signals_def case_prod_beta Let_def)

lemma lifecycle_class: "os_class (fst (lifecycle_row e st s)) = os_class st"
  by (cases "ev_Event e") (simp_all add: lifecycle_row_def case_prod_beta Let_def)

lemma row_class [simp]: "os_class (fst (row_step e st s)) = ev_Class e"
  by (simp add: row_step_def case_prod_beta lifecycle_class row_signals_eq Let_def)

lemma row_signals_terminal: "os_terminal (fst (row_signals e st g)) = os_terminal st"
  by (simp add: row_signals_eq Let_def)

lemma lifecycle_terminal:
  "os_terminal (fst (lifecycle_row e st s)) = (os_terminal st \<or> isWorkTerminalEvent (ev_Event e))"
  by (cases "ev_Event e") (simp_all add: lifecycle_row_def case_prod_beta Let_def)

lemma lifecycle_counts:
  assumes "sm_byClass s (ev_Class e) \<noteq> None"
  shows "count_of outcomes (snd (lifecycle_row e st s)) c = count_of outcomes s c +
      of_bool (c = ev_Class e \<and> \<not> os_terminal st \<and> isWorkTerminalEvent (ev_Event e))"
    and "count_of cs_Operations (snd (lifecycle_row e st s)) c = count_of cs_Operations s c"
proof -
  have one: "count_of outcomes (count_class (ev_Class e) h x) c = count_of outcomes x c + of_bool (c = ev_Class e)"
    if "sm_byClass x (ev_Class e) \<noteq> None" "\<And>y. outcomes (h y) = outcomes y + 1" for h x
    using count_of_count_class [of x "ev_Class e" outcomes h 1 c] that by simp
  have zero: "count_of outcomes (count_class (ev_Class e) h x) c = count_of outcomes x c"
    if "\<And>y. outcomes (h y) = outcomes y" for h x
    using that by (auto simp: count_of_def count_class_def option.map_comp split: option.split)
  show "count_of outcomes (snd (lifecycle_row e st s)) c = count_of outcomes s c +
      of_bool (c = ev_Class e \<and> \<not> os_terminal st \<and> isWorkTerminalEvent (ev_Event e))"
    using assms by (cases "ev_Event e")
      (simp_all add: lifecycle_row_def case_prod_beta Let_def one zero outcomes_def split del: split_of_bool)
  have "count_of cs_Operations (count_class (ev_Class e) h x) c = count_of cs_Operations x c"
    if "\<And>y. cs_Operations (h y) = cs_Operations y" for h x
    using that by (auto simp: count_of_def count_class_def option.map_comp split: option.split)
  then show "count_of cs_Operations (snd (lifecycle_row e st s)) c = count_of cs_Operations s c"
    by (cases "ev_Event e") (simp_all add: lifecycle_row_def case_prod_beta Let_def)
qed

lemma row_step_counts:
  assumes "sm_byClass s (ev_Class e) \<noteq> None"
  shows "os_terminal (fst (row_step e st s)) = (os_terminal st \<or> isWorkTerminalEvent (ev_Event e))"
    and "count_of outcomes (snd (row_step e st s)) c = count_of outcomes s c +
      of_bool (c = ev_Class e \<and> \<not> os_terminal st \<and> isWorkTerminalEvent (ev_Event e))"
    and "count_of cs_Operations (snd (row_step e st s)) c = count_of cs_Operations s c"
  using lifecycle_counts [of "s\<lparr> sm_signals := snd (row_signals e st (sm_signals s)) \<rparr>" e] assms
  by (simp_all add: row_step_def case_prod_beta lifecycle_terminal row_signals_terminal split del: split_of_bool)

lemma arrive_counts:
  "sm_byClass (arrive e s) (ev_Class e) \<noteq> None"
  "count_of outcomes (arrive e s) c = count_of outcomes s c"
  "c \<in> set AllWorkClasses \<Longrightarrow> sm_byClass s c \<noteq> None \<Longrightarrow>
     count_of cs_Operations (arrive e s) c = count_of cs_Operations s c +
       of_bool (c = ev_Class e \<and> map_of (sm_operations s) (ev_OperationID e) = None)"
  by (auto simp: arrive_def Let_def count_of_def count_class_def outcomes_def zero_stats_def split: option.split)

text \<open>Every row of an operation has the same class, and the program knows it.\<close>

definition steady_classes :: "WorkEvent list \<Rightarrow> bool" where
  "steady_classes rows \<longleftrightarrow>
     list_all (\<lambda>e. ev_Class e \<in> set AllWorkClasses \<and>
       list_all (\<lambda>x. ev_OperationID x \<noteq> ev_OperationID e \<or> ev_Class x = ev_Class e) rows) rows"

definition accounts_ok :: "summary \<Rightarrow> bool" where
  "accounts_ok s \<longleftrightarrow>
     (\<forall>c \<in> set AllWorkClasses. sm_byClass s c \<noteq> None \<and>
        count_of cs_Operations s c = ops_count (\<lambda>st. os_class st = c) (sm_operations s) \<and>
        count_of outcomes s c = ops_count (\<lambda>st. os_class st = c \<and> os_terminal st) (sm_operations s)) \<and>
     (\<forall>k st. map_of (sm_operations s) k = Some st \<longrightarrow> os_class st \<in> set AllWorkClasses) \<and>
     distinct (map fst (sm_operations s))"

lemma keys_put: "fst ` set (put_operation k st ops) = insert k (fst ` set ops)"
  by (simp add: map_of_put flip: dom_map_of_conv_image_fst)

lemma distinct_put: "distinct (map fst ops) \<Longrightarrow> distinct (map fst (put_operation k st ops))"
  by (induction ops) (auto simp: keys_put)

lemma byClass_kept: "sm_byClass s c \<noteq> None \<Longrightarrow> sm_byClass (summarize_row e s) c \<noteq> None"
  by (cases "ev_Event e")
    (simp_all add: summarize_row_eq Let_def row_step_def case_prod_beta lifecycle_row_def arrive_def count_class_def)

lemma zero_class: "c \<in> set AllWorkClasses \<Longrightarrow> os_class zero_operation \<noteq> c"
  by (auto simp: zero_operation_def AllWorkClasses_def)

lemma row_accounts:
  assumes "accounts_ok s" and "ev_Class e \<in> set AllWorkClasses"
    and "\<And>st. map_of (sm_operations s) (ev_OperationID e) = Some st \<Longrightarrow> os_class st = ev_Class e"
  shows "accounts_ok (summarize_row e s)"
proof -
  let ?st = "state_of (sm_operations s) (ev_OperationID e)"
  let ?new = "map_of (sm_operations s) (ev_OperationID e) = None"
  have st: "if ?new then ?st = zero_operation else os_class ?st = ev_Class e"
    using assms(3) by (auto simp: state_of_def split: option.split)
  have cl: "os_class (fst (row_step e ?st (arrive e s))) = ev_Class e" by simp
  have "count_of cs_Operations (summarize_row e s) c = ops_count (\<lambda>st. os_class st = c) (sm_operations (summarize_row e s)) \<and>
      count_of outcomes (summarize_row e s) c =
        ops_count (\<lambda>st. os_class st = c \<and> os_terminal st) (sm_operations (summarize_row e s))"
    if c: "c \<in> set AllWorkClasses" for c
  proof -
    have "sm_byClass s c \<noteq> None" using assms(1) c by (simp add: accounts_ok_def)
    then have ops: "count_of cs_Operations (summarize_row e s) c =
        count_of cs_Operations s c + of_bool (c = ev_Class e \<and> ?new)"
      using row_step_counts(3) [OF arrive_counts(1)] arrive_counts(3) [OF c]
      by (simp add: summarize_row_eq Let_def)
    have "os_terminal (fst (row_step e ?st (arrive e s))) = (os_terminal ?st \<or> isWorkTerminalEvent (ev_Event e))"
      "count_of outcomes (summarize_row e s) c = count_of outcomes s c +
        of_bool (c = ev_Class e \<and> \<not> os_terminal ?st \<and> isWorkTerminalEvent (ev_Event e))"
      using row_step_counts(1,2) [OF arrive_counts(1)]
      by (simp_all add: summarize_row_eq Let_def arrive_counts(2) split del: split_of_bool)
    then show ?thesis
      using assms(1) c ops st cl zero_class [OF c]
      by (auto simp: accounts_ok_def row_operations ops_count_put zero_operation_def split: if_splits)
  qed
  moreover have "distinct (map fst (sm_operations (summarize_row e s)))"
    using assms(1) by (simp add: accounts_ok_def row_operations distinct_put)
  moreover have "os_class st \<in> set AllWorkClasses" if "map_of (sm_operations (summarize_row e s)) k = Some st" for k st
    using that assms(1,2) cl by (auto simp: accounts_ok_def row_operations map_of_put split: if_splits)
  ultimately show ?thesis using assms(1) byClass_kept [of s _ e] by (simp add: accounts_ok_def)
qed

lemma steady_Cons:
  assumes "steady_classes (e # rows)"
  shows "ev_Class e \<in> set AllWorkClasses" and "steady_classes rows"
    and "x \<in> set rows \<Longrightarrow> ev_OperationID x = ev_OperationID e \<Longrightarrow> ev_Class x = ev_Class e"
proof -
  let ?P = "\<lambda>e x. ev_OperationID x \<noteq> ev_OperationID e \<or> ev_Class x = ev_Class e"
  have all: "ev_Class a \<in> set AllWorkClasses" "list_all (?P a) (e # rows)" if "a \<in> set (e # rows)" for a
    using bspec [OF iffD1 [OF list_all_iff assms [unfolded steady_classes_def]] that] by (rule conjunct1, rule conjunct2)
  show "ev_Class e \<in> set AllWorkClasses" using all(1) [of e] by simp
  show "steady_classes rows" unfolding steady_classes_def
  proof (rule iffD2 [OF list_all_iff], rule ballI)
    fix a assume "a \<in> set rows"
    then show "ev_Class a \<in> set AllWorkClasses \<and> list_all (?P a) rows" using all [of a] by simp
  qed
  show "x \<in> set rows \<Longrightarrow> ev_OperationID x = ev_OperationID e \<Longrightarrow> ev_Class x = ev_Class e"
    using iffD1 [OF list_all_iff all(2) [of e]] by simp
qed

lemma rows_accounts:
  "accounts_ok s \<Longrightarrow> steady_classes rows \<Longrightarrow>
     (\<And>e st. e \<in> set rows \<Longrightarrow> map_of (sm_operations s) (ev_OperationID e) = Some st \<Longrightarrow> os_class st = ev_Class e) \<Longrightarrow>
     accounts_ok (fold summarize_row rows s)"
proof (induction rows arbitrary: s)
  case (Cons e rows)
  note tail = steady_Cons [OF Cons.prems(2)]
  have "accounts_ok (summarize_row e s)"
    using Cons.prems(1) tail(1) Cons.prems(3) [of e] by (intro row_accounts) simp_all
  moreover have "os_class st = ev_Class x"
    if "x \<in> set rows" "map_of (sm_operations (summarize_row e s)) (ev_OperationID x) = Some st" for x st
    using that(2) tail(3) [OF that(1)] Cons.prems(3) [of x st] that(1)
    by (simp add: row_operations map_of_put split: if_splits) (metis row_class)
  ultimately show ?case using tail(2) Cons.IH [of "summarize_row e s"] by simp
qed simp

lemma distinct_classes: "distinct AllWorkClasses"
  by (simp add: AllWorkClasses_def)

lemma class_indicator: "distinct cs \<Longrightarrow> sum_list (map (\<lambda>c. of_bool (x = c \<and> b)) cs) = (of_bool (x \<in> set cs \<and> b) :: int)"
  by (induction cs) auto

lemma ops_by_class:
  "list_all (\<lambda>kx. os_class (snd kx) \<in> set AllWorkClasses) ops \<Longrightarrow>
     sum_list (map (\<lambda>c. ops_count (\<lambda>st. os_class st = c \<and> P st) ops) AllWorkClasses) = ops_count P ops"
proof (induction ops)
  case (Cons kx ops)
  then show ?case
    by (simp add: sum_list_addf class_indicator [OF distinct_classes] split del: split_of_bool)
qed (simp add: sum_list_triv)

lemma start_accounts: "accounts_ok (start_summary n)"
  by (simp add: accounts_ok_def start_summary_def count_of_def zero_stats_def outcomes_def)

lemma run_accounts:
  assumes "steady_classes events"
  shows "accounts_ok (run_summary events)"
proof -
  have "steady_classes (fst (normalizeLateReconciliationTerminals events))"
    using assms by (auto simp: steady_classes_def list_all_iff normalizeLateReconciliationTerminals_def Let_def)
  then show ?thesis
    unfolding run_summary_eq by (intro rows_accounts) (simp_all add: start_accounts, simp add: start_summary_def)
qed


section \<open>The samples of a class and its cohorts\<close>

definition cohort_samples :: "WorkClass \<Rightarrow> (cohortKey \<times> rat list) list \<Rightarrow> rat multiset" where
  "cohort_samples c m = sum_list (map (\<lambda>kv. mset (snd kv)) (filter (\<lambda>kv. fst (fst kv) = c) m))"

definition all_classes :: "(WorkClass \<Rightarrow> int) \<Rightarrow> int" where
  "all_classes f = sum_list (map f AllWorkClasses)"

definition samples_ok :: "summary \<Rightarrow> bool" where
  "samples_ok s \<longleftrightarrow>
     (let p = sm_conditioned s in
      pc_TerminalRuntimeSamples p = pc_WindowBoundarySamples p + pc_LegacySchemaSamples p +
        pc_InvalidDecompositionSamples p + pc_EligibleSamples p \<and>
      0 \<le> pc_WindowBoundarySamples p \<and> 0 \<le> pc_LegacySchemaSamples p \<and>
      0 \<le> pc_InvalidDecompositionSamples p \<and>
      pc_TerminalRuntimeSamples p = all_classes (\<lambda>c. int (length (sm_boundedSlowdown s c))) \<and>
      pc_EligibleSamples p = all_classes (\<lambda>c. int (length (sm_conditionedSlowdown s c))) \<and>
      pc_PressureAffectedSamples p = all_classes (sm_conditionedAffected s) \<and>
      pc_ExcludedWaitMS p = all_classes (sm_conditionedExcludedWait s) \<and>
      (\<forall>c. sm_conditionedSlowdown s c = [] \<longrightarrow> sm_conditionedAffected s c = 0 \<and> sm_conditionedExcludedWait s c = 0) \<and>
      distinct (map fst (sm_cohortSlowdown s)) \<and> list_all (\<lambda>kv. snd kv \<noteq> []) (sm_cohortSlowdown s) \<and>
      (\<forall>c. mset (sm_boundedSlowdown s c) = cohort_samples c (sm_cohortSlowdown s)) \<and>
      (\<forall>c k. sm_currentCohort s c = Some k \<longrightarrow> fst k = c \<and> k \<in> fst ` set (sm_cohortSlowdown s)) \<and>
      (\<forall>k \<in> fst ` set (sm_cohortSlowdown s). sm_currentCohort s (fst k) \<noteq> None))"

definition samples_of where
  "samples_of s = (sm_boundedSlowdown s, sm_conditionedSlowdown s, sm_conditionedAffected s,
     sm_conditionedExcludedWait s, sm_cohortSlowdown s, sm_currentCohort s, sm_conditioned s)"

lemma samples_frame [simp]:
  "samples_of (count_class c f s) = samples_of s" "samples_of (snd (note_wait e st s)) = samples_of s"
  "samples_of (snd (recordWait e st s)) = samples_of s" "samples_of (snd (cancel_signals e st s)) = samples_of s"
  "samples_of (snd (expire_signals st s)) = samples_of s" "samples_of (arrive e s) = samples_of s"
  "samples_of (s\<lparr> sm_signals := g \<rparr>) = samples_of s" "samples_of (s\<lparr> sm_operations := ops \<rparr>) = samples_of s"
  by (simp_all add: samples_of_def count_class_def note_wait_def recordWait_def cancel_signals_def
      expire_signals_def arrive_def case_prod_beta Let_def)

lemma samples_cong: "samples_of s = samples_of s' \<Longrightarrow> samples_ok s = samples_ok s'"
  by (simp add: samples_of_def samples_ok_def)

lemma all_classes_update:
  assumes "c \<in> set AllWorkClasses"
  shows "all_classes (\<lambda>d. f ((g(c := y)) d)) = all_classes (\<lambda>d. f (g d)) - f (g c) + f y"
proof -
  have "distinct cs \<Longrightarrow> sum_list (map (\<lambda>d. f ((g(c := y)) d)) cs) =
      sum_list (map (\<lambda>d. f (g d)) cs) + (if c \<in> set cs then f y - f (g c) else 0)" for cs
    by (induction cs) auto
  then show ?thesis using distinct_classes assms by (simp add: all_classes_def)
qed

lemma all_classes_upd:
  "c \<in> set AllWorkClasses \<Longrightarrow> all_classes (g(c := y)) = all_classes g - g c + y"
  using all_classes_update [of c "\<lambda>x. x" g y] by (simp only:)

lemma append_cohort_keys: "fst ` set (append_cohort k v m) = insert k (fst ` set m)"
  by (induction k v m rule: append_cohort.induct) auto

lemma append_cohort_nonempty:
  "list_all (\<lambda>kv. snd kv \<noteq> []) m \<Longrightarrow> list_all (\<lambda>kv. snd kv \<noteq> []) (append_cohort k v m)"
  by (induction k v m rule: append_cohort.induct) auto

lemma append_cohort_distinct: "distinct (map fst m) \<Longrightarrow> distinct (map fst (append_cohort k v m))"
  by (induction k v m rule: append_cohort.induct) (auto simp: append_cohort_keys)

lemma append_cohort_samples:
  "cohort_samples c (append_cohort k v m) = cohort_samples c m + (if fst k = c then {#v#} else {#})"
  by (induction k v m rule: append_cohort.induct) (auto simp: cohort_samples_def)

lemma close_samples:
  assumes ok: "samples_ok s" and c: "ev_Class e \<in> set AllWorkClasses"
  shows "samples_ok (snd (close_sample e st s))"
proof (cases "eq_RuntimeMillis (ev_Queue e) \<le> 0")
  case True
  then have "samples_of (snd (close_sample e st s)) = samples_of s"
    by (simp add: close_sample_def recordWorkRatios_def recordCohort_def recordPressureConditioned_def samples_of_def Let_def)
  with ok show ?thesis using samples_cong by blast
next
  case False
  let ?c = "ev_Class e" and ?w = "os_waitMS st" and ?r = "eq_RuntimeMillis (ev_Queue e)"
  define key where "key = (ev_Class e, ev_Weight e, eq_SchedulingPolicy (ev_Queue e), eq_SelectorSchemaVersion (ev_Queue e))"
  define t where "t = snd (close_sample e st s)"
  have t: "sm_boundedSlowdown t = (sm_boundedSlowdown s)(?c := sm_boundedSlowdown s ?c @ [workBoundedSlowdown ?w ?r])"
    "sm_cohortSlowdown t = append_cohort key (workBoundedSlowdown ?w ?r) (sm_cohortSlowdown s)"
    "sm_currentCohort t = (sm_currentCohort s)(?c \<mapsto> key)"
    using False by (simp_all add: t_def close_sample_def recordWorkRatios_def recordCohort_def
        recordPressureConditioned_def key_def Let_def)
  have k: "fst key = ?c" by (simp add: key_def)
  have cohorts: "distinct (map fst (sm_cohortSlowdown t))" "list_all (\<lambda>kv. snd kv \<noteq> []) (sm_cohortSlowdown t)"
    "\<forall>c. mset (sm_boundedSlowdown t c) = cohort_samples c (sm_cohortSlowdown t)"
    "\<forall>c k. sm_currentCohort t c = Some k \<longrightarrow> fst k = c \<and> k \<in> fst ` set (sm_cohortSlowdown t)"
    "\<forall>k \<in> fst ` set (sm_cohortSlowdown t). sm_currentCohort t (fst k) \<noteq> None"
    using ok k unfolding samples_ok_def Let_def
    by (simp_all add: t append_cohort_distinct append_cohort_samples append_cohort_keys append_cohort_nonempty
        del: split_paired_All split_paired_Ex not_None_eq)
  have "all_classes (\<lambda>d. int (length (sm_boundedSlowdown t d))) =
      all_classes (\<lambda>d. int (length (sm_boundedSlowdown s d))) + 1"
    unfolding t(1) all_classes_update [OF c, of "\<lambda>x. int (length x)"] by simp
  moreover have "(let p = sm_conditioned t in
      pc_TerminalRuntimeSamples p = pc_TerminalRuntimeSamples (sm_conditioned s) + 1 \<and>
      pc_TerminalRuntimeSamples p = pc_WindowBoundarySamples p + pc_LegacySchemaSamples p +
        pc_InvalidDecompositionSamples p + pc_EligibleSamples p \<and>
      0 \<le> pc_WindowBoundarySamples p \<and> 0 \<le> pc_LegacySchemaSamples p \<and>
      0 \<le> pc_InvalidDecompositionSamples p \<and>
      pc_EligibleSamples p = all_classes (\<lambda>c. int (length (sm_conditionedSlowdown t c))) \<and>
      pc_PressureAffectedSamples p = all_classes (sm_conditionedAffected t) \<and>
      pc_ExcludedWaitMS p = all_classes (sm_conditionedExcludedWait t) \<and>
      (\<forall>c. sm_conditionedSlowdown t c = [] \<longrightarrow> sm_conditionedAffected t c = 0 \<and> sm_conditionedExcludedWait t c = 0))"
    using ok False all_classes_update [OF c, of "\<lambda>x. int (length x)" "sm_conditionedSlowdown s"]
      all_classes_upd [OF c]
    unfolding samples_ok_def Let_def t_def
    by (simp add: close_sample_def recordWorkRatios_def recordCohort_def recordPressureConditioned_def Let_def)
  ultimately show ?thesis
    using ok cohorts unfolding t_def [symmetric] samples_ok_def Let_def by simp
qed

definition kept_or_closed :: "WorkEvent \<Rightarrow> summary \<Rightarrow> summary \<Rightarrow> bool" where
  "kept_or_closed e s t \<longleftrightarrow>
     samples_of t = samples_of s \<or> (\<exists>st s'. samples_of s' = samples_of s \<and> t = snd (close_sample e st s'))"

lemma keptI: "samples_of t = samples_of s \<Longrightarrow> kept_or_closed e s t"
  by (simp add: kept_or_closed_def)

lemma closedI: "samples_of s' = samples_of s \<Longrightarrow> kept_or_closed e s (snd (close_sample e st s'))"
  unfolding kept_or_closed_def by blast

lemma lifecycle_samples: "kept_or_closed e s (snd (lifecycle_row e st s))"
  by (cases "ev_Event e") (simp_all add: lifecycle_row_def case_prod_beta Let_def keptI closedI)

lemma row_samples:
  assumes "samples_ok s" and "ev_Class e \<in> set AllWorkClasses"
  shows "samples_ok (summarize_row e s)"
proof -
  define s' where "s' = (arrive e s)\<lparr> sm_signals :=
      snd (row_signals e (state_of (sm_operations s) (ev_OperationID e)) (sm_signals (arrive e s))) \<rparr>"
  have "samples_of s' = samples_of s" by (simp add: s'_def)
  then have s': "samples_ok s'" using assms(1) samples_cong by blast
  define t where "t = snd (row_step e (state_of (sm_operations s) (ev_OperationID e)) (arrive e s))"
  have "kept_or_closed e s' t" by (simp add: t_def row_step_def case_prod_beta s'_def lifecycle_samples)
  then have "samples_ok t"
    unfolding kept_or_closed_def using s' close_samples [OF _ assms(2)] samples_cong by blast
  moreover have "samples_of (summarize_row e s) = samples_of t" by (simp add: summarize_row_eq Let_def t_def)
  ultimately show ?thesis using samples_cong by blast
qed

lemma rows_samples:
  "samples_ok s \<Longrightarrow> list_all (\<lambda>e. ev_Class e \<in> set AllWorkClasses) rows \<Longrightarrow> samples_ok (fold summarize_row rows s)"
  by (induction rows arbitrary: s) (simp_all add: row_samples)

lemma start_samples: "samples_ok (start_summary n)"
  by (simp add: samples_ok_def start_summary_def cohort_samples_def all_classes_def sum_list_triv)

lemma run_samples:
  assumes "list_all (\<lambda>e. ev_Class e \<in> set AllWorkClasses) events"
  shows "samples_ok (run_summary events)"
  using assms unfolding run_summary_eq
  by (intro rows_samples start_samples) (auto simp: list_all_iff normalizeLateReconciliationTerminals_def Let_def)

lemma level_samples:
  "sum_list (map snd (filter (\<lambda>cn. P (fst cn)) (sl_EvaluatedSamples (level_of f) @ sl_DeferredClasses (level_of f)))) =
     sum_list (map (\<lambda>c. if P c then length (f c) else 0) AllWorkClasses)"
proof -
  have "sum_list (map snd (filter (\<lambda>cn. P (fst cn)) (map (\<lambda>c. (c, length (f c)))
        (filter (\<lambda>c. length (f c) \<ge> m) cs) @
        map (\<lambda>c. (c, length (f c))) (filter (\<lambda>c. length (f c) < m \<and> length (f c) > 0) cs)))) =
      sum_list (map (\<lambda>c. if P c then length (f c) else 0) cs)" for m cs
    by (induction cs) auto
  then show ?thesis by (simp add: level_of_def Let_def)
qed

lemma nonzero_samples:
  "(\<And>c. c \<in> set cs \<Longrightarrow> f c = [] \<Longrightarrow> g c = (0 :: int)) \<Longrightarrow>
     sum_list (map g (filter (\<lambda>c. f c \<noteq> []) cs)) = sum_list (map g cs)"
  by (induction cs) auto

lemma int_sum_list_map: "int (sum_list (map f xs)) = sum_list (map (\<lambda>x. int (f x)) xs)"
  by (induction xs) simp_all

lemma cohort_sizes: "size (cohort_samples c m) = sum_list (map (\<lambda>kv. length (snd kv)) (filter (\<lambda>kv. fst (fst kv) = c) m))"
  by (induction m) (simp_all add: cohort_samples_def)

lemma sum_cohorts:
  "sum_list (map f (filter P (calibration_cohorts s))) =
     sum_list (map f (filter P (map (cohort_row (sm_currentCohort s)) (sm_cohortSlowdown s))))"
  for f :: "WorkCalibrationCohort \<Rightarrow> nat"
  unfolding calibration_cohorts_def by (metis filter_sort sum_list_sort_key_map)

lemma length_filter_sort: "length (filter P (sort_key f xs)) = length (filter P xs)"
  by (metis filter_sort length_sort)

lemma cohort_row_simps [simp]:
  "co_Class (cohort_row cur kv) = fst (fst kv)" "co_TerminalRuntimeSamples (cohort_row cur kv) = length (snd kv)"
  "co_Current (cohort_row cur kv) = (cur (fst (fst kv)) = Some (fst kv))"
  by (simp_all add: cohort_row_def case_prod_beta Let_def)

lemma filter_key_once: "distinct (map fst m) \<Longrightarrow> length (filter (\<lambda>kv. fst kv = k) m) = (if k \<in> fst ` set m then 1 else 0)"
proof (induction m)
  case (Cons kv m)
  have "fst kv \<notin> fst ` set m \<Longrightarrow> filter (\<lambda>x. fst x = fst kv) m = []" by (rule filter_False) (metis imageI)
  with Cons show ?case by auto
qed simp


lemma sampled_class:
  assumes that: "c \<in> set AllWorkClasses"
  shows "sum_list (map snd (filter (\<lambda>cn. fst cn = c)
      (sl_EvaluatedSamples (level_of (sm_boundedSlowdown s)) @ sl_DeferredClasses (level_of (sm_boundedSlowdown s))))) =
    length (sm_boundedSlowdown s c)"
proof -
  have "distinct cs \<Longrightarrow> sum_list (map (\<lambda>d. if d = c then f d else 0) cs) = (if c \<in> set cs then f c else 0)"
    for cs and f :: "WorkClass \<Rightarrow> nat" by (induction cs) auto
  then show ?thesis using level_samples [of "\<lambda>d. d = c"] distinct_classes that by simp
qed

lemma cohort_class:
  assumes ok: "samples_ok s"
  shows "sum_list (map co_TerminalRuntimeSamples (filter (\<lambda>r. co_Class r = c) (calibration_cohorts s))) =
    length (sm_boundedSlowdown s c)"
proof -
  have "mset (sm_boundedSlowdown s c) = cohort_samples c (sm_cohortSlowdown s)"
    using ok by (simp add: samples_ok_def Let_def)
  then have "length (sm_boundedSlowdown s c) = size (cohort_samples c (sm_cohortSlowdown s))" by (metis size_mset)
  then show ?thesis by (simp add: sum_cohorts cohort_sizes filter_map comp_def)
qed

lemma one_current_cohort:
  assumes ok: "samples_ok s"
  shows "length (filter co_Current (filter (\<lambda>r. co_Class r = c) (calibration_cohorts s))) =
    (if length (sm_boundedSlowdown s c) = 0 then 0 else 1)"
proof -
  let ?m = "sm_cohortSlowdown s" and ?cur = "sm_currentCohort s"
  have keys: "distinct (map fst ?m)" and full: "list_all (\<lambda>kv. snd kv \<noteq> []) ?m"
    and cur: "\<And>k. ?cur c = Some k \<Longrightarrow> fst k = c \<and> k \<in> fst ` set ?m"
    and some: "\<And>k. k \<in> fst ` set ?m \<Longrightarrow> ?cur (fst k) \<noteq> None"
    using ok unfolding samples_ok_def Let_def by blast+
  have count: "length (filter co_Current (filter (\<lambda>r. co_Class r = c) (calibration_cohorts s))) =
      length (filter (\<lambda>kv. fst (fst kv) = c \<and> ?cur c = Some (fst kv)) ?m)"
    by (simp add: calibration_cohorts_def length_filter_sort filter_map comp_def conj_commute cong: conj_cong)
  have none: "sm_boundedSlowdown s c = [] \<longleftrightarrow> filter (\<lambda>kv. fst (fst kv) = c) ?m = []"
  proof -
    have "length (sm_boundedSlowdown s c) = sum_list (map (\<lambda>kv. length (snd kv)) (filter (\<lambda>kv. fst (fst kv) = c) ?m))"
      using cohort_class [OF ok, of c] by (simp add: sum_cohorts filter_map comp_def)
    moreover have "sum_list (map (\<lambda>kv. length (snd kv)) xs) = 0 \<longleftrightarrow> xs = []" if "list_all (\<lambda>kv. snd kv \<noteq> []) xs"
      for xs :: "(cohortKey \<times> rat list) list"
      using that by (cases xs) auto
    moreover have "list_all (\<lambda>kv. snd kv \<noteq> []) (filter (\<lambda>kv. fst (fst kv) = c) ?m)"
      using full by (simp add: list_all_iff)
    ultimately show ?thesis by (metis length_0_conv)
  qed
  show ?thesis
  proof (cases "?cur c")
    case None
    then have "filter (\<lambda>kv. fst (fst kv) = c) ?m = []"
      by (intro filter_False ballI notI) (metis imageI some)
    with None none show ?thesis unfolding count by simp
  next
    case (Some k)
    then have k: "fst k = c" "k \<in> fst ` set ?m" using cur by auto
    then have "filter (\<lambda>kv. fst (fst kv) = c) ?m \<noteq> []" by (auto simp: filter_empty_conv)
    moreover have "filter (\<lambda>kv. fst (fst kv) = c \<and> ?cur c = Some (fst kv)) ?m = filter (\<lambda>kv. fst kv = k) ?m"
      using Some k(1) by (intro filter_cong) auto
    ultimately show ?thesis unfolding count using none filter_key_once [OF keys, of k] k(2) by simp
  qed
qed

lemma start_signals:
  "sm_signals (start_summary n) = no_signals\<lparr> rs_ExpiredOwnerEvents := int n, rs_ReconciliationRaceRecoveries := int n \<rparr>"
  by (simp add: start_summary_def)


section \<open>Properties of the summary\<close>

text \<open>
  Every operation counts at most once in each signal. The deferrals attributed to the CPU are
  exactly the sum of their three attributions, none of which is negative although a later row can
  revise one; the deferrals over all dimensions, the recorded decisions, the long waits, the
  cancellations and the shared flights are each at most the number of operations.
\<close>

theorem signals_count_operations_once:
  "let w = SummarizeWorkEvents events since now; g = ws_ReviewSignals w; n = int (ws_OperationCount w) in
     rs_CPUOnlyDeferrals g = rs_CPUDeferralsWithCoordinatedWork g + rs_CPUDeferralsWithoutCoordinatedWork g +
       rs_CPUDeferralsAttributionUnavailable g \<and>
     list_all (\<lambda>x. 0 \<le> x) [rs_CPUDeferralsWithCoordinatedWork g, rs_CPUDeferralsWithoutCoordinatedWork g,
       rs_CPUDeferralsAttributionUnavailable g] \<and>
     list_all (\<lambda>x. x \<le> n)
       [rs_CPUOnlyDeferrals g + rs_MemoryDeferrals g + rs_StorageDeferrals g + rs_SwapDeferrals g,
        rs_WarningCapacityAdmissions g + rs_WarningCapacityDeferrals g + rs_SwapThrashAdmissions g +
          rs_SwapThrashDeferrals g + rs_SwapThrashExternalBypasses g,
        rs_LongWaitOperations g, rs_CancelledOperations g, rs_WrapperInterruptOperations g, rs_SingleflightWaits g,
        rs_ExpiredOwnerEvents g - int (snd (normalizeLateReconciliationTerminals events))]"
proof -
  define s where "s = run_summary events"
  let ?g = "sm_signals s" and ?ops = "sm_operations s"
  note c = signals_counted [of "fst (normalizeLateReconciliationTerminals events)"
      "snd (normalizeLateReconciliationTerminals events)", folded run_summary_eq s_def]
  have "rs_CPUOnlyDeferrals ?g = rs_CPUDeferralsWithCoordinatedWork ?g + rs_CPUDeferralsWithoutCoordinatedWork ?g +
      rs_CPUDeferralsAttributionUnavailable ?g"
    using c(1-4) by (simp add: start_signals no_signals_def attribution_split)
  then show ?thesis
    using c ops_count_le [of _ ?ops]
    by (simp add: SummarizeWorkEvents_def Let_def start_signals no_signals_def flip: s_def)
qed

text \<open>
  Claim C28. Every operation has one class and at most one outcome. When the rows of an operation agree on its
  class, the operations of the reported classes add up to the number of operations; in each class
  the completed, failed, cancelled, expired and reused operations together are at most its
  operations, and what is left over all classes is exactly the number of open operations.
\<close>

theorem class_accounts_balance:
  assumes "steady_classes events"
  shows "let w = SummarizeWorkEvents events since now in
     sum_list (map cs_Operations (ws_ByClass w)) = int (ws_OperationCount w) \<and>
     list_all (\<lambda>x. 0 \<le> outcomes x \<and> outcomes x \<le> cs_Operations x) (ws_ByClass w) \<and>
     sum_list (map outcomes (ws_ByClass w)) = int (ws_OperationCount w) - int (ws_OpenOperations w) \<and>
     rs_IncompleteOperations (ws_ReviewSignals w) = int (ws_OpenOperations w)"
proof -
  define s where "s = run_summary events"
  let ?ops = "sm_operations s"
  have ok: "accounts_ok s" unfolding s_def by (rule run_accounts [OF assms])
  have cs: "cs_Operations (class_stats s c) = ops_count (\<lambda>st. os_class st = c) ?ops \<and>
      outcomes (class_stats s c) = ops_count (\<lambda>st. os_class st = c \<and> os_terminal st) ?ops"
    if "c \<in> set AllWorkClasses" for c
    using ok that by (auto simp: accounts_ok_def count_of_def class_stats_def outcomes_def)
  have le: "ops_count (\<lambda>st. os_class st = c \<and> os_terminal st) ?ops \<le> ops_count (\<lambda>st. os_class st = c) ?ops" for c
    by (rule ops_count_mono) simp
  have valid: "list_all (\<lambda>kx. os_class (snd kx) \<in> set AllWorkClasses) ?ops"
    using ok by (auto simp: accounts_ok_def list_all_iff)
  have sums: "sum_list (map (\<lambda>c. cs_Operations (class_stats s c)) AllWorkClasses) = int (length ?ops)"
    "sum_list (map (\<lambda>c. outcomes (class_stats s c)) AllWorkClasses) = ops_count os_terminal ?ops"
    using ops_by_class [OF valid, of "\<lambda>_. True"] ops_by_class [OF valid, of os_terminal] cs
    by (simp_all add: ops_count_def cong: map_cong)
  have drop: "sum_list (map f (filter (\<lambda>x. cs_Operations x > 0) xs)) = sum_list (map f xs)"
    if "list_all (\<lambda>x. cs_Operations x \<ge> 0 \<and> (cs_Operations x = 0 \<longrightarrow> f x = 0)) xs" for f :: "WorkClassStats \<Rightarrow> int" and xs
    using that by (induction xs) auto
  have bounds: "0 \<le> outcomes (class_stats s c)" "outcomes (class_stats s c) \<le> cs_Operations (class_stats s c)"
    if "c \<in> set AllWorkClasses" for c
    using cs [OF that] le [of c] ops_count_le(2) by simp_all
  then have z: "cs_Operations (class_stats s c) \<ge> 0 \<and> (cs_Operations (class_stats s c) = 0 \<longrightarrow> outcomes (class_stats s c) = 0)"
    if "c \<in> set AllWorkClasses" for c using that by force
  have "int (length (filter (\<lambda>st. \<not> os_terminal st) (map snd ?ops))) = int (length ?ops) - ops_count os_terminal ?ops"
    using sum_length_filter_compl [of os_terminal "map snd ?ops"] by (simp add: ops_count_def)
  moreover have "sum_list (map cs_Operations (filter (\<lambda>x. cs_Operations x > 0) (map (class_stats s) AllWorkClasses))) =
      int (length ?ops)"
    using sums(1) z by (subst drop) (auto simp: list_all_iff comp_def)
  moreover have "sum_list (map outcomes (filter (\<lambda>x. cs_Operations x > 0) (map (class_stats s) AllWorkClasses))) =
      ops_count os_terminal ?ops"
    using sums(2) z by (subst drop) (auto simp: list_all_iff comp_def)
  ultimately show ?thesis
    using bounds by (auto simp: SummarizeWorkEvents_def Let_def list_all_iff s_def [symmetric])
qed

definition summary_ledger :: "WorkEvent list" where
  "summary_ledger =
     [(bare_event WorkEventQueued ''a'' [] WorkClassBuild 5 7 [])\<lparr> ev_Timestamp := seconds 10 \<rparr>,
      (bare_event WorkEventQueued ''b'' [] WorkClassTest 3 8 [])\<lparr> ev_Timestamp := seconds 11 \<rparr>,
      (bare_event WorkEventStarted ''a'' [] WorkClassBuild 5 7 [])\<lparr> ev_Timestamp := seconds 12,
        ev_Queue := no_queue\<lparr> eq_WaitMilliseconds := 2000 \<rparr> \<rparr>,
      (bare_event WorkEventCompleted ''a'' [] WorkClassBuild 5 7 [])\<lparr> ev_Timestamp := seconds 50,
        ev_Queue := no_queue\<lparr> eq_RuntimeMillis := 30000 \<rparr> \<rparr>]"

theorem class_accounts_balance_witness:
  "let w = SummarizeWorkEvents summary_ledger 0 (seconds 60) in
     sum_list (map cs_Operations (ws_ByClass w)) = int (ws_OperationCount w) \<and>
     list_all (\<lambda>x. 0 \<le> outcomes x \<and> outcomes x \<le> cs_Operations x) (ws_ByClass w) \<and>
     sum_list (map outcomes (ws_ByClass w)) = int (ws_OperationCount w) - int (ws_OpenOperations w) \<and>
     rs_IncompleteOperations (ws_ReviewSignals w) = int (ws_OpenOperations w)"
  by (rule class_accounts_balance)
    (simp add: steady_classes_def summary_ledger_def bare_event_def AllWorkClasses_def)

text \<open>
  Claim C35. Every runtime sample is accounted for. The samples of the pressure-conditioned service level are
  split into boundary, legacy, invalid and eligible ones, the eligible ones are those of its classes
  and the excluded wait is theirs; the same samples make up the end-to-end service level and the
  calibration cohorts, class by class, and each class with a sample has exactly one current cohort.
\<close>

theorem samples_partition:
  assumes "list_all (\<lambda>e. ev_Class e \<in> set AllWorkClasses) events"
  shows "let w = SummarizeWorkEvents events since now; l = ws_PressureConditionedServiceLevel w; p = pl_Counters l;
      sampled = (\<lambda>c. sum_list (map snd (filter (\<lambda>cn. fst cn = c)
        (sl_EvaluatedSamples (ws_ServiceLevel w) @ sl_DeferredClasses (ws_ServiceLevel w)))));
      cohorts = (\<lambda>c. filter (\<lambda>r. co_Class r = c) (ws_CalibrationCohorts w)) in
     pc_TerminalRuntimeSamples p = pc_WindowBoundarySamples p + pc_LegacySchemaSamples p +
       pc_InvalidDecompositionSamples p + pc_EligibleSamples p \<and>
     pc_EligibleSamples p = int (sum_list (map pcc_Samples (pl_ByClass l))) \<and>
     pc_ExcludedWaitMS p = sum_list (map pcc_ExcludedWaitMS (pl_ByClass l)) \<and>
     pc_TerminalRuntimeSamples p = sum_list (map (\<lambda>c. int (sampled c)) AllWorkClasses) \<and>
     list_all (\<lambda>c. sum_list (map co_TerminalRuntimeSamples (cohorts c)) = sampled c \<and>
       length (filter co_Current (cohorts c)) = (if sampled c = 0 then 0 else 1)) AllWorkClasses"
proof -
  define s where "s = run_summary events"
  have ok: "samples_ok s" unfolding s_def by (rule run_samples [OF assms])
  note sampled = sampled_class and cohorts = cohort_class [OF ok] and current = one_current_cohort [OF ok]
  have "pc_EligibleSamples (sm_conditioned s) = int (sum_list (map pcc_Samples (pl_ByClass (conditioned_level s))))"
    "pc_ExcludedWaitMS (sm_conditioned s) = sum_list (map pcc_ExcludedWaitMS (pl_ByClass (conditioned_level s)))"
    using ok nonzero_samples [of AllWorkClasses "sm_conditionedSlowdown s" "\<lambda>c. int (length (sm_conditionedSlowdown s c))"]
      nonzero_samples [of AllWorkClasses "sm_conditionedSlowdown s" "sm_conditionedExcludedWait s"]
    unfolding samples_ok_def Let_def all_classes_def
    by (simp_all add: conditioned_level_def conditioned_class_def Let_def comp_def int_sum_list_map)
  moreover have "pc_TerminalRuntimeSamples (sm_conditioned s) = sum_list (map (\<lambda>c. int (sum_list (map snd
      (filter (\<lambda>cn. fst cn = c) (sl_EvaluatedSamples (level_of (sm_boundedSlowdown s)) @
        sl_DeferredClasses (level_of (sm_boundedSlowdown s))))))) AllWorkClasses)"
    (is "_ = ?total")
  proof -
    have "?total = all_classes (\<lambda>c. int (length (sm_boundedSlowdown s c)))"
      unfolding all_classes_def by (intro arg_cong [of _ _ sum_list] map_cong refl) (simp only: sampled)
    then show ?thesis using ok unfolding samples_ok_def Let_def by metis
  qed
  moreover have "pc_TerminalRuntimeSamples (sm_conditioned s) = pc_WindowBoundarySamples (sm_conditioned s) +
      pc_LegacySchemaSamples (sm_conditioned s) + pc_InvalidDecompositionSamples (sm_conditioned s) +
      pc_EligibleSamples (sm_conditioned s)"
    using ok unfolding samples_ok_def Let_def by metis
  moreover have "list_all (\<lambda>c. sum_list (map co_TerminalRuntimeSamples (filter (\<lambda>r. co_Class r = c) (calibration_cohorts s))) =
      sum_list (map snd (filter (\<lambda>cn. fst cn = c) (sl_EvaluatedSamples (level_of (sm_boundedSlowdown s)) @
        sl_DeferredClasses (level_of (sm_boundedSlowdown s))))) \<and>
      length (filter co_Current (filter (\<lambda>r. co_Class r = c) (calibration_cohorts s))) =
      (if sum_list (map snd (filter (\<lambda>cn. fst cn = c) (sl_EvaluatedSamples (level_of (sm_boundedSlowdown s)) @
        sl_DeferredClasses (level_of (sm_boundedSlowdown s))))) = 0 then 0 else 1)) AllWorkClasses"
    unfolding list_all_iff by (intro ballI conjI) (simp_all only: sampled cohorts current)
  moreover have "ws_PressureConditionedServiceLevel (SummarizeWorkEvents events since now) = conditioned_level s"
    "ws_ServiceLevel (SummarizeWorkEvents events since now) = level_of (sm_boundedSlowdown s)"
    "ws_CalibrationCohorts (SummarizeWorkEvents events since now) = calibration_cohorts s"
    "pl_Counters (conditioned_level s) = sm_conditioned s"
    by (simp_all add: SummarizeWorkEvents_def Let_def s_def conditioned_level_def)
  ultimately show ?thesis by (simp only: Let_def simp_thms)
qed

theorem samples_partition_witness:
  "let w = SummarizeWorkEvents summary_ledger 0 (seconds 60); l = ws_PressureConditionedServiceLevel w;
      p = pl_Counters l;
      sampled = (\<lambda>c. sum_list (map snd (filter (\<lambda>cn. fst cn = c)
        (sl_EvaluatedSamples (ws_ServiceLevel w) @ sl_DeferredClasses (ws_ServiceLevel w)))));
      cohorts = (\<lambda>c. filter (\<lambda>r. co_Class r = c) (ws_CalibrationCohorts w)) in
     pc_TerminalRuntimeSamples p = pc_WindowBoundarySamples p + pc_LegacySchemaSamples p +
       pc_InvalidDecompositionSamples p + pc_EligibleSamples p \<and>
     pc_EligibleSamples p = int (sum_list (map pcc_Samples (pl_ByClass l))) \<and>
     pc_ExcludedWaitMS p = sum_list (map pcc_ExcludedWaitMS (pl_ByClass l)) \<and>
     pc_TerminalRuntimeSamples p = sum_list (map (\<lambda>c. int (sampled c)) AllWorkClasses) \<and>
     list_all (\<lambda>c. sum_list (map co_TerminalRuntimeSamples (cohorts c)) = sampled c \<and>
       length (filter co_Current (cohorts c)) = (if sampled c = 0 then 0 else 1)) AllWorkClasses"
  by (rule samples_partition) (simp add: summary_ledger_def bare_event_def AllWorkClasses_def)

end
