(* ===== verification/Disk_History.thy ===== *)
theory Disk_History
  imports Disk_Histogram "HOL-Library.AList" "HOL-Library.Product_Lexorder"
begin

text \<open>
  The history of the disk-write observer (\<^verbatim>\<open>sessionpressure/disk_write_store.go\<close>): hourly records in
  one file per local day, a checkpoint of the hour that is not finished, the state of the alerts,
  and the hourly points that a reader of the history is given.

  A file is what a read of it gives: the size of a body and its decoded value, if it decodes. The
  size of an encoded record, the local calendar, and the order in which \<^verbatim>\<open>sort.Slice\<close> leaves
  records of the same hour are the host's, fields of \<open>history_env\<close>. A map of the code is an
  association list with distinct keys. \<^verbatim>\<open>atomicWrite\<close> replaces a file or leaves it; an append
  that fails may leave an unterminated line, which the next row joins.
\<close>

section \<open>States and records\<close>

datatype DiskWriteState =
    DiskWriteStateUnset | DiskWriteStateDisabled | DiskWriteStateUnavailable | DiskWriteStateLearning
  | DiskWriteStateNormal | DiskWriteStateUnusual | DiskWriteStateHigh | OtherDiskWriteState string

fun state_text :: "DiskWriteState \<Rightarrow> string" where
  "state_text DiskWriteStateUnset = ''''"
| "state_text DiskWriteStateDisabled = ''disabled''"
| "state_text DiskWriteStateUnavailable = ''unavailable''"
| "state_text DiskWriteStateLearning = ''learning''"
| "state_text DiskWriteStateNormal = ''normal''"
| "state_text DiskWriteStateUnusual = ''unusual''"
| "state_text DiskWriteStateHigh = ''high''"
| "state_text (OtherDiskWriteState s) = s"

record diskExecutableHistory =
  eh_Executable :: string
  eh_TotalBytes :: "64 word"
  eh_Histogram :: diskHistogramRecord

record diskWriteHistoryRecord =
  hw_SchemaVersion :: int
  hw_ModelVersion :: string
  hw_BaselineEpoch :: int
  hw_Hour :: time
  hw_State :: DiskWriteState
  hw_BytesWritten :: "64 word"
  hw_SwapOutBytes :: "64 word"
  hw_UnscoredGapBytes :: "64 word"
  hw_SampleCount :: "64 word"
  hw_BaselineP99Bytes :: "64 word"
  hw_Contexts :: "(string \<times> diskHistogramRecord) list"
  hw_Executables :: "diskExecutableHistory list"
  hw_LastSampleAt :: time
  hw_DeviceIdentity :: string
  hw_DeviceBytes :: "64 word"
  hw_DeviceCount :: int
  hw_DeviceSource :: string
  hw_executableHistograms :: "(string \<times> diskHistogram) list"

definition diskWriteModelVersion :: string where
  "diskWriteModelVersion = ''quiet-adaptive-v1''"

definition diskWriteBaselineEpoch :: int where
  "diskWriteBaselineEpoch = 3"

definition maxDiskWriteHistoryRecordBytes :: nat where
  "maxDiskWriteHistoryRecordBytes = 2560"

definition diskWriteAlertLimitPerDay :: int where
  "diskWriteAlertLimitPerDay = 4"

record diskWriteAlertStateRecord =
  as_SchemaVersion :: int
  as_ModelVersion :: string
  as_Day :: string
  as_Alerts :: int
  as_IncidentOpen :: bool
  as_UpdatedAt :: time


section \<open>The files\<close>

datatype 'a stored_file = FileMissing | FileUnreadable | FileBody nat "'a option"

text \<open>A line of a shard: its length and the record it decodes to.\<close>

type_synonym history_line = "nat \<times> diskWriteHistoryRecord option"

record history_shard =
  sh_Name :: string
  sh_Readable :: bool
  sh_Lines :: "history_line list"
  sh_Torn :: "history_line option"

record DiskWriteStore =
  st_Dir :: string
  st_Alert :: "diskWriteAlertStateRecord stored_file"
  st_Checkpoint :: "diskWriteHistoryRecord stored_file"
  st_Shards :: "history_shard list"

datatype append_outcome = Appended | AppendFailed | AppendTorn history_line

record history_env =
  he_LocalDay :: "time \<Rightarrow> string"
  he_ParseDay :: "string \<Rightarrow> time option"
  he_DayStart :: "time \<Rightarrow> time"
  he_AddDays :: "time \<Rightarrow> int \<Rightarrow> time"
  he_Size :: "diskWriteHistoryRecord \<Rightarrow> nat option"
  he_SortByHour :: "diskWriteHistoryRecord list \<Rightarrow> diskWriteHistoryRecord list"

datatype history_error =
    StoreDirRequired | HourRequired | RecordNotEncoded | RecordAboveCeiling nat | WriteFailed
  | AlertUnreadable | AlertUndecodable | AlertInvalid
  | CheckpointUnreadable | CheckpointAboveCeiling nat | CheckpointUndecodable
  | ShardUnreadable | ShardLineTooLong | RemoveFailed

definition no_dir :: "DiskWriteStore \<Rightarrow> bool" where
  "no_dir st \<longleftrightarrow> TrimSpace (st_Dir st) = []"


section \<open>The state of the alerts\<close>

definition loadAlertState ::
  "DiskWriteStore \<Rightarrow> history_error + diskWriteAlertStateRecord option" where
  "loadAlertState st =
     (if no_dir st then Inr None
      else case st_Alert st of
        FileMissing \<Rightarrow> Inr None
      | FileUnreadable \<Rightarrow> Inl AlertUnreadable
      | FileBody n None \<Rightarrow> Inl AlertUndecodable
      | FileBody n (Some r) \<Rightarrow>
          if as_SchemaVersion r \<noteq> 1 \<or> as_ModelVersion r \<noteq> diskWriteModelVersion \<or> length (as_Day r) \<noteq> 8 \<or>
             as_Alerts r < 0 \<or> as_Alerts r > diskWriteAlertLimitPerDay
          then Inl AlertInvalid else Inr (Some r))"

text \<open>\<open>wrote\<close> says whether \<^verbatim>\<open>atomicWrite\<close> of the record succeeds.\<close>

definition saveAlertState ::
  "bool \<Rightarrow> time \<Rightarrow> diskWriteAlertStateRecord \<Rightarrow> DiskWriteStore \<Rightarrow> DiskWriteStore \<times> history_error option" where
  "saveAlertState wrote now r st =
     (if no_dir st then (st, None)
      else
        let r = r\<lparr> as_SchemaVersion := 1, as_ModelVersion := diskWriteModelVersion \<rparr>;
            r = (if IsZero (as_UpdatedAt r) then r\<lparr> as_UpdatedAt := now \<rparr> else r)
        in if wrote then (st\<lparr> st_Alert := FileBody 0 (Some r) \<rparr>, None) else (st, Some WriteFailed))"


section \<open>Writing records\<close>

text \<open>
  \<^verbatim>\<open>boundedDiskWriteHistoryRecord\<close> encodes the record and, while it is above the ceiling, drops its
  last executable. The loop runs once per executable at most.
\<close>

function shrink_record ::
  "(diskWriteHistoryRecord \<Rightarrow> nat option) \<Rightarrow> diskWriteHistoryRecord \<Rightarrow> history_error + diskWriteHistoryRecord" where
  "shrink_record bytes r =
     (case bytes r of
        None \<Rightarrow> Inl RecordNotEncoded
      | Some n \<Rightarrow>
          if n \<le> maxDiskWriteHistoryRecordBytes then Inr r
          else if hw_Executables r = [] then Inl (RecordAboveCeiling n)
          else shrink_record bytes (r\<lparr> hw_Executables := butlast (hw_Executables r) \<rparr>))"
  by pat_completeness auto
termination by (relation "measure (\<lambda>(_, r). length (hw_Executables r))") auto

declare shrink_record.simps [simp del]

definition boundedDiskWriteHistoryRecord ::
  "(diskWriteHistoryRecord \<Rightarrow> nat option) \<Rightarrow> diskWriteHistoryRecord \<Rightarrow> history_error + diskWriteHistoryRecord" where
  "boundedDiskWriteHistoryRecord bytes r =
     (let r = (if hw_SchemaVersion r = 0 then r\<lparr> hw_SchemaVersion := 1 \<rparr> else r);
          r = (if hw_ModelVersion r = [] then r\<lparr> hw_ModelVersion := diskWriteModelVersion \<rparr> else r)
      in if IsZero (hw_Hour r) then Inl HourRequired else shrink_record bytes r)"

text \<open>What is encoded: the histograms of the running hour are not a field of the file.\<close>

definition encoded :: "diskWriteHistoryRecord \<Rightarrow> diskWriteHistoryRecord" where
  "encoded r = r\<lparr> hw_executableHistograms := [] \<rparr>"

definition append_line :: "history_line \<Rightarrow> history_shard \<Rightarrow> history_shard" where
  "append_line line sh =
     (case sh_Torn sh of
        None \<Rightarrow> sh\<lparr> sh_Lines := sh_Lines sh @ [line] \<rparr>
      | Some torn \<Rightarrow> sh\<lparr> sh_Lines := sh_Lines sh @ [(fst torn + fst line, None)], sh_Torn := None \<rparr>)"

definition tear_line :: "history_line \<Rightarrow> history_shard \<Rightarrow> history_shard" where
  "tear_line line sh =
     (case sh_Torn sh of
        None \<Rightarrow> sh\<lparr> sh_Torn := Some line \<rparr>
      | Some torn \<Rightarrow> sh\<lparr> sh_Torn := Some (fst torn + fst line, None) \<rparr>)"

fun update_shard :: "string \<Rightarrow> (history_shard \<Rightarrow> history_shard) \<Rightarrow> history_shard list \<Rightarrow> history_shard list" where
  "update_shard name f [] = [f \<lparr> sh_Name = name, sh_Readable = True, sh_Lines = [], sh_Torn = None \<rparr>]"
| "update_shard name f (sh # shs) = (if sh_Name sh = name then f sh # shs else sh # update_shard name f shs)"

definition appendRecord ::
  "history_env \<Rightarrow> append_outcome \<Rightarrow> diskWriteHistoryRecord \<Rightarrow> DiskWriteStore \<Rightarrow> DiskWriteStore \<times> history_error option" where
  "appendRecord en out r st =
     (if no_dir st then (st, Some StoreDirRequired)
      else case boundedDiskWriteHistoryRecord (he_Size en) r of
        Inl e \<Rightarrow> (st, Some e)
      | Inr r \<Rightarrow>
          let name = he_LocalDay en (hw_Hour r); n = the (he_Size en r) in
          case out of
            Appended \<Rightarrow> (st\<lparr> st_Shards := update_shard name (append_line (n, Some (encoded r))) (st_Shards st) \<rparr>, None)
          | AppendFailed \<Rightarrow> (st, Some WriteFailed)
          | AppendTorn line \<Rightarrow>
              (st\<lparr> st_Shards := update_shard name (tear_line line) (st_Shards st) \<rparr>, Some WriteFailed))"

definition writeCheckpoint ::
  "history_env \<Rightarrow> bool \<Rightarrow> diskWriteHistoryRecord \<Rightarrow> DiskWriteStore \<Rightarrow> DiskWriteStore \<times> history_error option" where
  "writeCheckpoint en wrote r st =
     (if no_dir st then (st, Some StoreDirRequired)
      else case boundedDiskWriteHistoryRecord (he_Size en) r of
        Inl e \<Rightarrow> (st, Some e)
      | Inr r \<Rightarrow>
          if wrote then (st\<lparr> st_Checkpoint := FileBody (the (he_Size en r) + 1) (Some (encoded r)) \<rparr>, None)
          else (st, Some WriteFailed))"

definition removeCheckpoint :: "bool \<Rightarrow> DiskWriteStore \<Rightarrow> DiskWriteStore \<times> history_error option" where
  "removeCheckpoint removed st =
     (if no_dir st then (st, None)
      else if st_Checkpoint st = FileMissing then (st, None)
      else if removed then (st\<lparr> st_Checkpoint := FileMissing \<rparr>, None) else (st, Some RemoveFailed))"

text \<open>\<^verbatim>\<open>Prune\<close> stops at the first shard that it cannot remove.\<close>

fun prune_shards ::
  "(string \<Rightarrow> time option) \<Rightarrow> time \<Rightarrow> (string \<Rightarrow> bool) \<Rightarrow> history_shard list \<Rightarrow> history_shard list \<times> history_error option" where
  "prune_shards day cutoff removes [] = ([], None)"
| "prune_shards day cutoff removes (sh # shs) =
     (case day (sh_Name sh) of
        None \<Rightarrow> (let (rest, e) = prune_shards day cutoff removes shs in (sh # rest, e))
      | Some d \<Rightarrow>
          if \<not> d < cutoff then (let (rest, e) = prune_shards day cutoff removes shs in (sh # rest, e))
          else if removes (sh_Name sh) then prune_shards day cutoff removes shs
          else (sh # shs, Some RemoveFailed))"

definition PruneDiskWrites ::
  "history_env \<Rightarrow> (string \<Rightarrow> bool) \<Rightarrow> time \<Rightarrow> int \<Rightarrow> DiskWriteStore \<Rightarrow> DiskWriteStore \<times> history_error option" where
  "PruneDiskWrites en removes now retentionDays st =
     (if retentionDays < 1 then (st, None)
      else
        let cutoffDay = he_DayStart en (he_AddDays en now (- retentionDays));
            (shards, e) = prune_shards (he_ParseDay en) cutoffDay removes (st_Shards st)
        in (st\<lparr> st_Shards := shards \<rparr>, e))"


section \<open>Reading records\<close>

definition usable_record :: "time \<Rightarrow> diskWriteHistoryRecord \<Rightarrow> bool" where
  "usable_record since r \<longleftrightarrow>
     \<not> (hw_SchemaVersion r \<noteq> 1 \<or> hw_ModelVersion r \<noteq> diskWriteModelVersion \<or> hw_Hour r < since)"

definition shard_lines :: "history_shard \<Rightarrow> history_line list" where
  "shard_lines sh = sh_Lines sh @ (case sh_Torn sh of None \<Rightarrow> [] | Some torn \<Rightarrow> [torn])"

text \<open>The scanner gives up on a line that does not fit its buffer of twice the ceiling.\<close>

fun scan_lines :: "time \<Rightarrow> history_line list \<Rightarrow> history_error + diskWriteHistoryRecord list" where
  "scan_lines since [] = Inr []"
| "scan_lines since ((n, r) # ls) =
     (if n \<ge> maxDiskWriteHistoryRecordBytes * 2 then Inl ShardLineTooLong
      else case scan_lines since ls of
        Inl e \<Rightarrow> Inl e
      | Inr rs \<Rightarrow> Inr (case r of Some r \<Rightarrow> if usable_record since r then r # rs else rs | None \<Rightarrow> rs))"

fun scan_shards :: "time \<Rightarrow> history_shard list \<Rightarrow> history_error + diskWriteHistoryRecord list" where
  "scan_shards since [] = Inr []"
| "scan_shards since (sh # shs) =
     (if \<not> sh_Readable sh then Inl ShardUnreadable
      else case scan_lines since (shard_lines sh) of
        Inl e \<Rightarrow> Inl e
      | Inr rs \<Rightarrow> (case scan_shards since shs of Inl e \<Rightarrow> Inl e | Inr others \<Rightarrow> Inr (rs @ others)))"

definition loadRecords ::
  "history_env \<Rightarrow> time \<Rightarrow> DiskWriteStore \<Rightarrow> history_error + diskWriteHistoryRecord list" where
  "loadRecords en since st =
     (if no_dir st then Inr []
      else case scan_shards since (sort_key sh_Name (st_Shards st)) of
        Inl e \<Rightarrow> Inl e
      | Inr rs \<Rightarrow> Inr (he_SortByHour en rs))"

definition loadCheckpoint ::
  "time \<Rightarrow> DiskWriteStore \<Rightarrow> history_error + diskWriteHistoryRecord option" where
  "loadCheckpoint since st =
     (if no_dir st then Inr None
      else case st_Checkpoint st of
        FileMissing \<Rightarrow> Inr None
      | FileUnreadable \<Rightarrow> Inl CheckpointUnreadable
      | FileBody n body \<Rightarrow>
          if n > maxDiskWriteHistoryRecordBytes + 1 then Inl (CheckpointAboveCeiling n)
          else (case body of
            None \<Rightarrow> Inl CheckpointUndecodable
          | Some r \<Rightarrow>
              if hw_SchemaVersion r \<noteq> 1 \<or> hw_ModelVersion r \<noteq> diskWriteModelVersion \<or> IsZero (hw_Hour r) \<or>
                 hw_Hour r < since
              then Inr None else Inr (Some r)))"

fun diskWriteCheckpointSuperseded :: "diskWriteHistoryRecord list \<Rightarrow> diskWriteHistoryRecord \<Rightarrow> bool" where
  "diskWriteCheckpointSuperseded [] cp = False"
| "diskWriteCheckpointSuperseded (r # rs) cp =
     (if hw_Hour r \<noteq> hw_Hour cp then diskWriteCheckpointSuperseded rs cp
      else if (hw_LastSampleAt r > hw_LastSampleAt cp \<or> hw_LastSampleAt r = hw_LastSampleAt cp) \<and>
              hw_DeviceIdentity r = hw_DeviceIdentity cp \<and> hw_DeviceBytes r \<ge> hw_DeviceBytes cp
      then True
      else diskWriteCheckpointSuperseded rs cp)"

definition loadRecordsWithCheckpoint ::
  "history_env \<Rightarrow> time \<Rightarrow> DiskWriteStore \<Rightarrow>
     history_error + (diskWriteHistoryRecord list \<times> diskWriteHistoryRecord option)" where
  "loadRecordsWithCheckpoint en since st =
     (case loadRecords en since st of
        Inl e \<Rightarrow> Inl e
      | Inr rs \<Rightarrow>
          (case loadCheckpoint since st of
             Inl e \<Rightarrow> Inl e
           | Inr None \<Rightarrow> Inr (rs, None)
           | Inr (Some cp) \<Rightarrow>
               if diskWriteCheckpointSuperseded rs cp then Inr (rs, None)
               else Inr (sort_key (\<lambda>r. (hw_Hour r, hw_LastSampleAt r)) (rs @ [cp]), Some cp)))"


section \<open>The history that a reader is given\<close>

record DiskWriteHistoryExecutable =
  hx_Executable :: string
  hx_TotalBytes :: "64 word"

record DiskWriteHistoryPoint =
  hp_Hour :: time
  hp_State :: DiskWriteState
  hp_BytesWritten :: "64 word"
  hp_SwapOutBytes :: "64 word"
  hp_UnscoredGapBytes :: "64 word"
  hp_BaselineP99Bytes :: "64 word"
  hp_SampleCount :: "64 word"
  hp_Executables :: "DiskWriteHistoryExecutable list"

text \<open>
  \<^verbatim>\<open>summarizeHistoryExecutables\<close>: \<^verbatim>\<open>sort.Slice\<close> sorts up to twelve elements by insertion, which
  is stable; a record holds at most eight.
\<close>

definition summarizeHistoryExecutables ::
  "diskExecutableHistory list \<Rightarrow> int \<Rightarrow> DiskWriteHistoryExecutable list" where
  "summarizeHistoryExecutables executables maxExecutables =
     (if maxExecutables \<le> 0 \<or> executables = [] then []
      else
        let copied = take (nat maxExecutables) (sort_key (\<lambda>e. - uint (eh_TotalBytes e)) executables) in
        map (\<lambda>e. \<lparr> hx_Executable = TrimSpace (eh_Executable e), hx_TotalBytes = eh_TotalBytes e \<rparr>)
          (filter (\<lambda>e. TrimSpace (eh_Executable e) \<noteq> []) copied))"

definition sampled_at :: "diskWriteHistoryRecord \<Rightarrow> time" where
  "sampled_at r = (if IsZero (hw_LastSampleAt r) then hw_Hour r else hw_LastSampleAt r)"

definition diskWriteHistoryRecordNewer :: "diskWriteHistoryRecord \<Rightarrow> diskWriteHistoryRecord \<Rightarrow> bool" where
  "diskWriteHistoryRecordNewer candidate current =
     (if sampled_at candidate \<noteq> sampled_at current then sampled_at candidate > sampled_at current
      else if hw_DeviceBytes candidate \<noteq> hw_DeviceBytes current then hw_DeviceBytes candidate > hw_DeviceBytes current
      else if hw_SampleCount candidate \<noteq> hw_SampleCount current then hw_SampleCount candidate > hw_SampleCount current
      else if hw_BytesWritten candidate \<noteq> hw_BytesWritten current then hw_BytesWritten candidate > hw_BytesWritten current
      else if hw_UnscoredGapBytes candidate \<noteq> hw_UnscoredGapBytes current
      then hw_UnscoredGapBytes candidate > hw_UnscoredGapBytes current
      else if state_text (hw_State candidate) \<noteq> state_text (hw_State current)
      then state_text (hw_State candidate) > state_text (hw_State current)
      else hw_BaselineP99Bytes candidate > hw_BaselineP99Bytes current)"

definition record_samples :: "diskWriteHistoryRecord \<Rightarrow> 64 word" where
  "record_samples r =
     (if hw_SampleCount r = 0 then sum_list (map (\<lambda>c. of_nat (hr_Count (snd c))) (hw_Contexts r)) else hw_SampleCount r)"

definition new_point :: "time \<Rightarrow> DiskWriteHistoryPoint" where
  "new_point hour =
     \<lparr> hp_Hour = hour, hp_State = DiskWriteStateUnset, hp_BytesWritten = 0, hp_SwapOutBytes = 0,
       hp_UnscoredGapBytes = 0, hp_BaselineP99Bytes = 0, hp_SampleCount = 0, hp_Executables = [] \<rparr>"

text \<open>The entry of an hour: its point and the newest record that it has seen.\<close>

type_synonym hour_entry = "DiskWriteHistoryPoint \<times> diskWriteHistoryRecord option"

definition add_record :: "int \<Rightarrow> diskWriteHistoryRecord \<Rightarrow> hour_entry \<Rightarrow> hour_entry" where
  "add_record maxExecutables r entry =
     (let (point, latest) = entry;
          newer = (case latest of None \<Rightarrow> True | Some l \<Rightarrow> diskWriteHistoryRecordNewer r l);
          point = (if newer
            then point\<lparr> hp_State := hw_State r, hp_BaselineP99Bytes := hw_BaselineP99Bytes r,
                        hp_Executables := (if maxExecutables > 0
                          then summarizeHistoryExecutables (hw_Executables r) maxExecutables
                          else hp_Executables point) \<rparr>
            else point)
      in (point\<lparr> hp_BytesWritten := saturatingAddUint64 (hp_BytesWritten point) (hw_BytesWritten r),
                 hp_SwapOutBytes := saturatingAddUint64 (hp_SwapOutBytes point) (hw_SwapOutBytes r),
                 hp_UnscoredGapBytes := saturatingAddUint64 (hp_UnscoredGapBytes point) (hw_UnscoredGapBytes r),
                 hp_SampleCount := saturatingAddUint64 (hp_SampleCount point) (record_samples r) \<rparr>,
          if newer then Some r else latest))"

definition entry_at :: "(time \<times> hour_entry) list \<Rightarrow> time \<Rightarrow> hour_entry" where
  "entry_at acc hour = (case map_of acc hour of Some e \<Rightarrow> e | None \<Rightarrow> (new_point hour, None))"

definition group_record ::
  "int \<Rightarrow> diskWriteHistoryRecord \<Rightarrow> (time \<times> hour_entry) list \<Rightarrow> (time \<times> hour_entry) list" where
  "group_record maxExecutables r acc =
     AList.update (hw_Hour r) (add_record maxExecutables r (entry_at acc (hw_Hour r))) acc"

definition readHistory ::
  "history_env \<Rightarrow> int \<Rightarrow> time \<Rightarrow> int \<Rightarrow> DiskWriteStore \<Rightarrow> history_error + (DiskWriteHistoryPoint list \<times> nat)" where
  "readHistory en limit since maxExecutables st =
     (case loadRecordsWithCheckpoint en since st of
        Inl e \<Rightarrow> Inl e
      | Inr (rs, cp) \<Rightarrow>
          let byHour = fold (group_record maxExecutables) rs [];
              hours = sort (map fst byHour);
              available = length hours;
              limit = (if limit \<le> 0 then 20 else limit);
              limit = (if limit > 200 then 200 else limit);
              hours = (if int (length hours) > limit then drop (length hours - nat limit) hours else hours)
          in Inr (map (\<lambda>hour. fst (entry_at byHour hour)) (rev hours), available))"

definition ReadHistory ::
  "history_env \<Rightarrow> int \<Rightarrow> time \<Rightarrow> DiskWriteStore \<Rightarrow> history_error + (DiskWriteHistoryPoint list \<times> nat)" where
  "ReadHistory en limit since st = readHistory en limit since 0 st"

definition ReadHistoryWithExecutables ::
  "history_env \<Rightarrow> int \<Rightarrow> time \<Rightarrow> int \<Rightarrow> DiskWriteStore \<Rightarrow> history_error + (DiskWriteHistoryPoint list \<times> nat)" where
  "ReadHistoryWithExecutables en limit since maxExecutables st =
     readHistory en limit since (if maxExecutables \<le> 0 then 8 else maxExecutables) st"


section \<open>Facts\<close>

lemma entry_at_Nil [simp]: "entry_at [] h = (new_point h, None)"
  by (simp add: entry_at_def)

lemma entry_at_update: "entry_at (AList.update k v al) h = (if h = k then v else entry_at al h)"
  by (simp add: entry_at_def update_conv')

lemma grouped_entry:
  "entry_at (fold (group_record m) rs acc) h =
     fold (add_record m) (filter (\<lambda>r. hw_Hour r = h) rs) (entry_at acc h)"
  by (induction rs arbitrary: acc) (auto simp: group_record_def entry_at_update)

lemma grouped_hours:
  "set (map fst (fold (group_record m) rs acc)) = set (map fst acc) \<union> hw_Hour ` set rs"
  by (induction rs arbitrary: acc) (auto simp: group_record_def dom_update)

lemma grouped_distinct:
  "distinct (map fst acc) \<Longrightarrow> distinct (map fst (fold (group_record m) rs acc))"
  by (induction rs arbitrary: acc) (simp_all add: group_record_def distinct_update)

lemma grouped_sorted: "sort (map fst (fold (group_record m) rs [])) = sorted_list_of_set (hw_Hour ` set rs)"
proof -
  have "distinct (map fst (fold (group_record m) rs []))" by (rule grouped_distinct) simp
  moreover have "set (map fst (fold (group_record m) rs [])) = hw_Hour ` set rs"
    using grouped_hours [of m rs "[]"] by simp
  ultimately show ?thesis
    by (metis sorted_list_of_set_sort_remdups distinct_remdups_id)
qed

lemma sat_fold:
  assumes "\<And>r e. f (step r e) = saturatingAddUint64 (f e) (g r)"
  shows "uint (f (fold step rs e)) = min (uint (f e) + sum_list (map (\<lambda>r. uint (g r)) rs)) (2 ^ 64 - 1)"
proof (induction rs arbitrary: e)
  case Nil
  then show ?case using uint_bounded [of "f e"] by simp
next
  case (Cons r rs)
  have "0 \<le> sum_list (map (\<lambda>r. uint (g r)) rs)" by (intro sum_list_nonneg) auto
  with Cons assms show ?case by (simp add: uint_saturatingAdd)
qed

definition newer_key :: "diskWriteHistoryRecord \<Rightarrow> time \<times> int \<times> int \<times> int \<times> int \<times> string \<times> int" where
  "newer_key r =
     (sampled_at r, uint (hw_DeviceBytes r), uint (hw_SampleCount r), uint (hw_BytesWritten r),
      uint (hw_UnscoredGapBytes r), state_text (hw_State r), uint (hw_BaselineP99Bytes r))"

lemma newer_iff: "diskWriteHistoryRecordNewer a b \<longleftrightarrow> newer_key b < newer_key a"
  by (auto simp: diskWriteHistoryRecordNewer_def newer_key_def word_less_def word_uint_eq_iff)

text \<open>The point of an hour is taken from a record that no other one of the hour is newer than.\<close>

definition entry_ok :: "int \<Rightarrow> time \<Rightarrow> diskWriteHistoryRecord list \<Rightarrow> hour_entry \<Rightarrow> bool" where
  "entry_ok m h seen e \<longleftrightarrow>
     hp_Hour (fst e) = h \<and>
     (case snd e of
        None \<Rightarrow> seen = []
      | Some l \<Rightarrow> l \<in> set seen \<and> list_all (\<lambda>r. \<not> diskWriteHistoryRecordNewer r l) seen \<and>
          hp_State (fst e) = hw_State l \<and> hp_BaselineP99Bytes (fst e) = hw_BaselineP99Bytes l \<and>
          hp_Executables (fst e) = summarizeHistoryExecutables (hw_Executables l) m)"

lemma entry_ok_add:
  assumes "entry_ok m h seen e" and "snd e = None \<Longrightarrow> hp_Executables (fst e) = []"
  shows "entry_ok m h (seen @ [r]) (add_record m r e)"
proof (cases "snd e")
  case None
  with assms show ?thesis
    by (auto simp: entry_ok_def add_record_def newer_iff Let_def summarizeHistoryExecutables_def split: prod.splits)
next
  case (Some l)
  have seen: "newer_key q \<le> newer_key l" if "q \<in> set seen" for q
    using assms(1) Some that by (auto simp: entry_ok_def list_all_iff newer_iff)
  show ?thesis
  proof (cases "diskWriteHistoryRecordNewer r l")
    case True
    then have "\<not> newer_key r < newer_key q" if "q \<in> set seen" for q
      using seen [OF that] by (simp add: newer_iff)
    with True Some assms(1) show ?thesis
      by (auto simp: entry_ok_def add_record_def list_all_iff newer_iff Let_def
          summarizeHistoryExecutables_def split: prod.splits)
  next
    case False
    with Some assms(1) show ?thesis
      by (auto simp: entry_ok_def add_record_def Let_def split: prod.splits)
  qed
qed

lemma entry_ok_fold:
  "entry_ok m h seen e \<Longrightarrow> (snd e = None \<Longrightarrow> hp_Executables (fst e) = []) \<Longrightarrow>
     entry_ok m h (seen @ rs) (fold (add_record m) rs e)"
proof (induction rs arbitrary: seen e)
  case (Cons r rs)
  have "snd (add_record m r e) \<noteq> None" by (auto simp: add_record_def Let_def split: prod.splits option.splits)
  with Cons.IH [OF entry_ok_add [OF Cons.prems, of r]] show ?case by simp
qed simp

definition point_accounts :: "diskWriteHistoryRecord list \<Rightarrow> int \<Rightarrow> DiskWriteHistoryPoint \<Rightarrow> bool" where
  "point_accounts rs m p \<longleftrightarrow>
     (let hour = filter (\<lambda>r. hw_Hour r = hp_Hour p) rs;
          all = (\<lambda>f. min (sum_list (map (\<lambda>r. uint (f r)) hour)) (2 ^ 64 - 1))
      in uint (hp_BytesWritten p) = all hw_BytesWritten \<and> uint (hp_SwapOutBytes p) = all hw_SwapOutBytes \<and>
         uint (hp_UnscoredGapBytes p) = all hw_UnscoredGapBytes \<and> uint (hp_SampleCount p) = all record_samples \<and>
         list_ex (\<lambda>l. list_all (\<lambda>r. \<not> diskWriteHistoryRecordNewer r l) hour \<and> hp_State p = hw_State l \<and>
             hp_BaselineP99Bytes p = hw_BaselineP99Bytes l \<and>
             hp_Executables p = summarizeHistoryExecutables (hw_Executables l) m) hour)"

lemma entry_accounts:
  assumes "h \<in> hw_Hour ` set rs"
  shows "hp_Hour (fst (entry_at (fold (group_record m) rs []) h)) = h"
    and "point_accounts rs m (fst (entry_at (fold (group_record m) rs []) h))"
proof -
  define hour where "hour = filter (\<lambda>r. hw_Hour r = h) rs"
  define e where "e = fold (add_record m) hour (new_point h, None)"
  have e: "entry_at (fold (group_record m) rs []) h = e" by (simp add: grouped_entry e_def hour_def)
  have ok: "entry_ok m h hour e"
    using entry_ok_fold [of m h "[]" "(new_point h, None)" hour] by (simp add: entry_ok_def new_point_def e_def)
  have "hour \<noteq> []" using assms by (auto simp: hour_def filter_empty_conv)
  with ok obtain l where l: "snd e = Some l" "l \<in> set hour" "list_all (\<lambda>r. \<not> diskWriteHistoryRecordNewer r l) hour"
    "hp_State (fst e) = hw_State l" "hp_BaselineP99Bytes (fst e) = hw_BaselineP99Bytes l"
    "hp_Executables (fst e) = summarizeHistoryExecutables (hw_Executables l) m"
    by (auto simp: entry_ok_def split: option.splits)
  have h: "hp_Hour (fst e) = h" using ok by (simp add: entry_ok_def)
  have sums: "uint (hp_BytesWritten (fst e)) = min (sum_list (map (\<lambda>r. uint (hw_BytesWritten r)) hour)) (2 ^ 64 - 1)"
    "uint (hp_SwapOutBytes (fst e)) = min (sum_list (map (\<lambda>r. uint (hw_SwapOutBytes r)) hour)) (2 ^ 64 - 1)"
    "uint (hp_UnscoredGapBytes (fst e)) = min (sum_list (map (\<lambda>r. uint (hw_UnscoredGapBytes r)) hour)) (2 ^ 64 - 1)"
    "uint (hp_SampleCount (fst e)) = min (sum_list (map (\<lambda>r. uint (record_samples r)) hour)) (2 ^ 64 - 1)"
    unfolding e_def
    by (subst sat_fold [where f = "\<lambda>e. hp_BytesWritten (fst e)" and g = hw_BytesWritten],
        simp add: add_record_def Let_def split: prod.splits, simp add: new_point_def)
      (subst sat_fold [where f = "\<lambda>e. hp_SwapOutBytes (fst e)" and g = hw_SwapOutBytes],
        simp add: add_record_def Let_def split: prod.splits, simp add: new_point_def,
       subst sat_fold [where f = "\<lambda>e. hp_UnscoredGapBytes (fst e)" and g = hw_UnscoredGapBytes],
        simp add: add_record_def Let_def split: prod.splits, simp add: new_point_def,
       subst sat_fold [where f = "\<lambda>e. hp_SampleCount (fst e)" and g = record_samples],
        simp add: add_record_def Let_def split: prod.splits, simp add: new_point_def)
  show "hp_Hour (fst (entry_at (fold (group_record m) rs []) h)) = h" by (simp add: e h)
  have "list_ex (\<lambda>l. list_all (\<lambda>r. \<not> diskWriteHistoryRecordNewer r l) hour \<and> hp_State (fst e) = hw_State l \<and>
      hp_BaselineP99Bytes (fst e) = hw_BaselineP99Bytes l \<and>
      hp_Executables (fst e) = summarizeHistoryExecutables (hw_Executables l) m) hour"
    using l unfolding list_ex_iff by blast
  with sums show "point_accounts rs m (fst (entry_at (fold (group_record m) rs []) h))"
    unfolding point_accounts_def e h Let_def hour_def [symmetric] by blast
qed


section \<open>Properties of the history\<close>

text \<open>The number of points that a reader who asks for \<open>limit\<close> of them is given at most.\<close>

definition page_size :: "int \<Rightarrow> nat" where
  "page_size limit = nat (if limit \<le> 0 then 20 else min 200 limit)"

text \<open>
  The history accounts for every record that can be read, once: the points are the newest hours that
  have a record, newest first; each one carries the saturated totals of all records of its hour, and
  its state, percentile and writers are those of a record that none of the hour is newer than.
\<close>

theorem history_points_account:
  "case loadRecordsWithCheckpoint en since st of
     Inl e \<Rightarrow> readHistory en limit since m st = Inl e
   | Inr (rs, cp) \<Rightarrow>
       (case readHistory en limit since m st of
          Inl e \<Rightarrow> False
        | Inr (points, available) \<Rightarrow>
            map hp_Hour points = take (page_size limit) (rev (sorted_list_of_set (hw_Hour ` set rs))) \<and>
            available = card (hw_Hour ` set rs) \<and> list_all (point_accounts rs m) points)"
proof (cases "loadRecordsWithCheckpoint en since st")
  case (Inl e)
  then show ?thesis by (simp add: readHistory_def)
next
  case (Inr rc)
  obtain rs cp where rc: "rc = (rs, cp)" by (cases rc)
  define by_hour where "by_hour = fold (group_record m) rs []"
  define hours where "hours = sorted_list_of_set (hw_Hour ` set rs)"
  define shown where "shown = take (page_size limit) (rev hours)"
  have clamp: "(let l = if limit \<le> 0 then 20 else limit in if l > 200 then 200 else l) = int (page_size limit)"
    by (simp add: page_size_def)
  have sorted: "sort (map fst by_hour) = hours" by (simp add: by_hour_def hours_def grouped_sorted)
  have read: "readHistory en limit since m st =
      Inr (map (\<lambda>hour. fst (entry_at by_hour hour)) shown, length hours)"
    using clamp unfolding shown_def readHistory_def Inr rc sum.case prod.case by_hour_def [symmetric] Let_def sorted
    by (simp add: rev_drop)
  have "h \<in> hw_Hour ` set rs" if "h \<in> set shown" for h
    using that set_take_subset [of "page_size limit" "rev hours"] by (auto simp: shown_def hours_def)
  then have "map hp_Hour (map (\<lambda>hour. fst (entry_at by_hour hour)) shown) = shown"
    "list_all (point_accounts rs m) (map (\<lambda>hour. fst (entry_at by_hour hour)) shown)"
    unfolding by_hour_def list_all_iff using entry_accounts by (auto simp: map_idI)
  with Inr rc read show ?thesis by (simp add: shown_def hours_def)
qed

text \<open>
  An encoded record fits the ceiling, carries everything but a tail of its executables, and drops no
  more of them than it must; only a record that cannot fit even without executables is refused.
\<close>

definition with_executables :: "nat \<Rightarrow> diskWriteHistoryRecord \<Rightarrow> diskWriteHistoryRecord" where
  "with_executables k r = r\<lparr> hw_Executables := take k (hw_Executables r) \<rparr>"

definition fits :: "(diskWriteHistoryRecord \<Rightarrow> nat option) \<Rightarrow> diskWriteHistoryRecord \<Rightarrow> bool" where
  "fits bytes r \<longleftrightarrow> (case bytes r of Some n \<Rightarrow> n \<le> maxDiskWriteHistoryRecordBytes | None \<Rightarrow> False)"

lemma shrink_record_outcome:
  "(case shrink_record bytes r of
      Inr r' \<Rightarrow> fits bytes r' \<and> (let k = length (hw_Executables r') in k \<le> length (hw_Executables r) \<and>
        r' = with_executables k r \<and>
        list_all (\<lambda>j. \<not> fits bytes (with_executables j r)) [Suc k..<Suc (length (hw_Executables r))])
    | Inl (RecordAboveCeiling n) \<Rightarrow> list_all (\<lambda>j. \<not> fits bytes (with_executables j r)) [0..<Suc (length (hw_Executables r))]
    | Inl e \<Rightarrow> e = RecordNotEncoded)"
proof (induction "length (hw_Executables r)" arbitrary: r)
  case 0
  then have "bytes (r\<lparr> hw_Executables := [] \<rparr>) = bytes r" by (cases r) simp
  with 0 show ?case
    by (subst shrink_record.simps) (auto simp: fits_def with_executables_def split: option.splits)
next
  case (Suc m)
  define s where "s = r\<lparr> hw_Executables := butlast (hw_Executables r) \<rparr>"
  have len: "length (hw_Executables s) = m" using Suc(2) by (simp add: s_def)
  have full: "with_executables (length (hw_Executables r)) r = r" by (simp add: with_executables_def)
  have w: "with_executables j s = with_executables j r" if "j \<le> m" for j
    using that Suc(2) by (simp add: s_def with_executables_def butlast_conv_take min_def)
  have ne: "hw_Executables r \<noteq> []" using Suc(2) by auto
  note ih = Suc(1) [of s, OF len [symmetric]]
  show ?case
  proof (cases "fits bytes r \<or> bytes r = None")
    case True
    with full show ?thesis
      by (subst shrink_record.simps) (auto simp: fits_def Let_def split: option.splits)
  next
    case False
    then have step: "shrink_record bytes r = shrink_record bytes s"
      using ne by (subst shrink_record.simps) (auto simp: fits_def s_def split: option.splits)
    have split: "list_all P [k..<Suc (Suc m)] \<longleftrightarrow> list_all P [k..<Suc m] \<and> P (Suc m)" if "k \<le> Suc m" for P k
      using that by (simp add: list_all_iff) auto
    have rest: "list_all (\<lambda>j. \<not> fits bytes (with_executables j s)) [k..<Suc m] =
        list_all (\<lambda>j. \<not> fits bytes (with_executables j r)) [k..<Suc m]" for k
      using w by (auto simp: list_all_iff)
    show ?thesis
      unfolding step using ih False full w len Suc(2) split rest
      by (auto simp: Let_def split: sum.splits history_error.splits)
  qed
qed

end
