(* ===== verification/Disk_Observer.thy ===== *)
theory Disk_Observer
  imports Disk_History Swap_Thrash Pressure_Admission Work_Event
begin

text \<open>
  The disk-write observer (\<^verbatim>\<open>sessionpressure/disk_write.go\<close>): from cumulative counters of the
  device, of the processes and of the kernel's swap traffic it keeps rolling windows, learns a quiet
  baseline per work context, classifies each sample, and decides on transitions and on alerts.

  The observer is the record \<open>DiskWriteObserver\<close>; its files are a \<open>DiskWriteStore\<close>. What a sample
  reads from the host and whether its writes succeed is a \<open>disk_host\<close>. Byte counts are 64-bit
  words; the ratios and rates that the code computes with floating point are rationals. A map of the
  code is a function to options or, where it is iterated over, an association list with distinct
  keys; what is built from such an iteration is sorted by a total order.
\<close>

section \<open>Data\<close>

datatype DiskWriteConfidence =
    DiskWriteConfidenceNone | DiskWriteConfidenceLearning | DiskWriteConfidenceProvisional | DiskWriteConfidenceConfident

definition minutes :: "int \<Rightarrow> duration" where
  "minutes n = seconds (60 * n)"

definition hours :: "int \<Rightarrow> duration" where
  "hours n = minutes (60 * n)"

definition diskWriteWindow :: duration where "diskWriteWindow = minutes 15"
definition diskWriteBurstWindow :: duration where "diskWriteBurstWindow = minutes 1"
definition diskWriteBurstBytes :: "64 word" where "diskWriteBurstBytes = push_bit 30 1"
definition diskWriteHistoryWindow :: duration where "diskWriteHistoryWindow = hours 24"
definition diskWriteMinimumWindow :: duration where "diskWriteMinimumWindow = minutes 14"
definition diskWriteLearningSamples :: nat where "diskWriteLearningSamples = 480"
definition diskWriteConfidentSamples :: nat where "diskWriteConfidentSamples = 6720"
definition diskWriteLearningAge :: duration where "diskWriteLearningAge = hours 2"
definition diskWriteConfidentAge :: duration where "diskWriteConfidentAge = hours (7 * 24)"
definition diskWriteUnusualRatio :: rat where "diskWriteUnusualRatio = 6"
definition diskWriteHighRatio :: rat where "diskWriteHighRatio = 12"
definition diskWriteRecoveryRatio :: rat where "diskWriteRecoveryRatio = 2"
definition diskWriteUnusualDuration :: duration where "diskWriteUnusualDuration = minutes 5"
definition diskWriteHighDuration :: duration where "diskWriteHighDuration = minutes 10"
definition diskWriteRecoveryDuration :: duration where "diskWriteRecoveryDuration = minutes 30"
definition diskWriteTransitionInterval :: duration where "diskWriteTransitionInterval = minutes 15"
definition diskWriteMaxWriters :: int where "diskWriteMaxWriters = 20"
definition diskWriteMaxExecutableModels :: nat where "diskWriteMaxExecutableModels = 32"
definition diskWriteSwapExecutable :: string where "diskWriteSwapExecutable = ''kernel_swap''"
definition diskWriteSwapDominantShare :: rat where "diskWriteSwapDominantShare = 1 / 2"

record DiskWriterSummary =
  ws_Executable :: string
  ws_Category :: string
  ws_ProcessCount :: int
  ws_AgentProcessCount :: int
  ws_WindowBytes :: "64 word"
  ws_BytesPerSecond :: rat
  ws_BaselineRatio :: rat

record DiskWriter = DiskWriterSummary +
  wr_PID :: int
  wr_ProcessStartID :: "64 word"
  wr_OwnerKind :: string
  wr_WorkClass :: string

record DiskWriteSummary =
  sy_SchemaVersion :: int
  sy_ModelVersion :: string
  sy_CapturedAt :: time
  sy_State :: DiskWriteState
  sy_Confidence :: DiskWriteConfidence
  sy_Source :: string
  sy_DeviceScope :: string
  sy_AttributionScope :: string
  sy_Context :: string
  sy_MeasurementWindowSeconds :: rat
  sy_CurrentBytesPerSecond :: rat
  sy_Window15mBytes :: "64 word"
  sy_BurstWindowBytes :: "64 word"
  sy_BurstActive :: bool
  sy_Bytes24h :: "64 word"
  sy_UnscoredGapBytes :: "64 word"
  sy_BaselineP99Bytes15m :: "64 word"
  sy_BaselineRatio :: rat
  sy_BaselineSamples :: nat
  sy_BaselineAgeSeconds :: rat
  sy_SwapOutBytes15m :: "64 word"
  sy_SwapShare15m :: rat
  sy_DeviceCount :: int
  sy_TotalPIDCount :: int
  sy_AccessiblePIDCount :: int
  sy_AttributionAvailable :: bool
  sy_WriterAvailableCount :: int
  sy_TopWriter :: "DiskWriterSummary option"
  sy_Reasons :: "string list"

record DiskWriteReport =
  rp_Summary :: DiskWriteSummary
  rp_Writers :: "DiskWriter list"
  rp_AvailableCount :: int
  rp_ReturnedCount :: int
  rp_Truncated :: bool

record DiskWriteTransition =
  tn_SchemaVersion :: int
  tn_Timestamp :: time
  tn_From :: DiskWriteState
  tn_To :: DiskWriteState
  tn_Confidence :: DiskWriteConfidence
  tn_Ratio :: rat
  tn_WindowBytes :: "64 word"
  tn_BurstBytes :: "64 word"
  tn_Context :: string

record DiskWriteAlert =
  al_Timestamp :: time
  al_State :: DiskWriteState
  al_Ratio :: rat
  al_WindowBytes :: "64 word"
  al_TopWriter :: string
  al_BurstBytes :: "64 word"

record diskDeviceCounter =
  dd_BytesWritten :: "64 word"
  dd_DeviceCount :: int
  dd_Identity :: string
  dd_Source :: string

record diskProcessCounter =
  dp_PID :: int
  dp_StartID :: "64 word"
  dp_Executable :: string
  dp_BytesWritten :: "64 word"
  dp_AgentOwned :: bool

record diskProcessSnapshot =
  dn_Counters :: "diskProcessCounter list"
  dn_TotalPIDCount :: int
  dn_AccessibleCount :: int

record diskProcessKey =
  pk_PID :: int
  pk_StartID :: "64 word"

record diskProcessDelta =
  pd_Key :: diskProcessKey
  pd_Executable :: string
  pd_Bytes :: "64 word"
  pd_AgentOwned :: bool

record diskVolumePoint =
  vp_At :: time
  vp_Duration :: duration
  vp_Bytes :: "64 word"
  vp_SwapBytes :: "64 word"
  vp_Scored :: bool
  vp_Gap :: bool

record diskWriterPoint =
  wp_At :: time
  wp_Duration :: duration
  wp_Deltas :: "diskProcessDelta list"

record diskOwnership =
  ow_Executable :: string
  ow_AgentOwned :: bool

record DiskWriteObserver =
  ob_policy :: DiskWritePolicy
  ob_hasStore :: bool
  ob_allowShort :: bool
  ob_previousDevice :: diskDeviceCounter
  ob_previousSwap :: swapIOCounter
  ob_previousProcesses :: "diskProcessKey \<Rightarrow> diskProcessCounter option"
  ob_previousAt :: time
  ob_volumePoints :: "diskVolumePoint list"
  ob_writerPoints :: "diskWriterPoint list"
  ob_baselines :: "string \<Rightarrow> diskHistogram option"
  ob_executableModels :: "(string \<times> diskHistogram) list"
  ob_executableBytes :: "string \<Rightarrow> 64 word"
  ob_ownership :: "diskProcessKey \<Rightarrow> diskOwnership option"
  ob_context :: string
  ob_currentHour :: "diskWriteHistoryRecord option"
  ob_lastReport :: DiskWriteReport
  ob_lastState :: DiskWriteState
  ob_lastAdaptiveState :: DiskWriteState
  ob_burstTrainingUntil :: time
  ob_unusualSince :: time
  ob_highSince :: time
  ob_recoverySince :: time
  ob_lastTransition :: time
  ob_incidentOpen :: bool
  ob_alertDay :: string
  ob_alertsToday :: int
  ob_alertStateInvalid :: bool
  ob_dominance :: "string list"

text \<open>What one call reads from the host, and which of its writes succeed.\<close>

record disk_host =
  dh_Files :: history_env
  dh_Now :: time
  dh_Device :: "string + diskDeviceCounter"
  dh_ProcessesOK :: bool
  dh_Processes :: diskProcessSnapshot
  dh_Swap :: "swapIOCounter option"
  dh_IsAgentExecutable :: "string \<Rightarrow> bool"
  dh_SavesAlert :: "diskWriteAlertStateRecord \<Rightarrow> bool"
  dh_Append :: append_outcome
  dh_WritesCheckpoint :: bool
  dh_RemovesCheckpoint :: bool
  dh_RemovesShard :: "string \<Rightarrow> bool"


section \<open>Names of executables\<close>

text \<open>\<^verbatim>\<open>filepath.Base\<close>.\<close>

definition path_base :: "string \<Rightarrow> string" where
  "path_base path =
     (if path = [] then ''.''
      else
        let path = rev (dropWhile (\<lambda>c. c = CHR ''/'') (rev path));
            path = rev (takeWhile (\<lambda>c. c \<noteq> CHR ''/'') (rev path))
        in if path = [] then ''/'' else path)"

definition is_name_char :: "char \<Rightarrow> bool" where
  "is_name_char c \<longleftrightarrow>
     (let n = (of_char c :: nat) in 48 \<le> n \<and> n \<le> 57 \<or> 65 \<le> n \<and> n \<le> 90 \<or> 97 \<le> n \<and> n \<le> 122) \<or>
     c \<in> set ''._+-()[]''"

definition privacySafeExecutable :: "string \<Rightarrow> string" where
  "privacySafeExecutable s =
     (let s = TrimSpace s in
      if s = [] then ''unknown''
      else
        let name = TrimSpace (path_base s) in
        if name = [] \<or> name = ''.'' \<or> name = ''/'' then ''unknown''
        else
          let safe = map (\<lambda>c. if is_name_char c then c else CHR ''_'') (take 64 name);
              result = rev (dropWhile (\<lambda>c. c = CHR ''_'') (rev (dropWhile (\<lambda>c. c = CHR ''_'') safe)))
          in if result = [] then ''unknown'' else result)"

definition HasPrefix :: "string \<Rightarrow> string \<Rightarrow> bool" where
  "HasPrefix s pre \<longleftrightarrow> take (length pre) s = pre"

definition hostConsumerCategory :: "(string \<Rightarrow> bool) \<Rightarrow> string \<Rightarrow> string" where
  "hostConsumerCategory is_agent executable =
     (let lower = ToLower executable; mentions = list_ex (Contains lower) in
      if is_agent lower then ''agent''
      else if mentions [''chrome'', ''safari'', ''firefox'', ''webkit''] then ''browser''
      else if mentions [''simulator'', ''qemu'', ''emulator''] then ''emulator''
      else if mentions [''docker'', ''orb'', ''virtual'', ''vmware''] then ''container_vm''
      else if lower = ''sqlite3'' \<or> Contains lower ''postgres'' \<or> lower = ''mysqld'' \<or> HasPrefix lower ''redis'' \<or>
              Contains lower ''mongod'' then ''database''
      else if lower \<in> set [''go'', ''swift'', ''clang'', ''rustc'', ''node'', ''python'', ''python3'', ''xcodebuild'']
      then ''developer''
      else if lower \<in> set [''kernel_task'', ''launchd'', ''windowserver'', ''mds''] \<or> HasPrefix lower ''com.apple.''
      then ''system''
      else ''other'')"


section \<open>Context and ownership\<close>

record owned_process =
  op_PID :: int
  op_CPUStartID :: "64 word"
  op_Executable :: string
  op_Agent :: string

definition SetProcessOwnership :: "owned_process list \<Rightarrow> DiskWriteObserver \<Rightarrow> DiskWriteObserver" where
  "SetProcessOwnership processes ob =
     ob\<lparr> ob_ownership := fold (\<lambda>p owners.
            if op_PID p \<le> 0 \<or> op_CPUStartID p = 0 then owners
            else owners(\<lparr> pk_PID = op_PID p, pk_StartID = op_CPUStartID p \<rparr> \<mapsto>
              \<lparr> ow_Executable = privacySafeExecutable (op_Executable p), ow_AgentOwned = op_Agent p \<noteq> [] \<rparr>))
          processes (\<lambda>_. None) \<rparr>"

definition SetContext :: "string \<Rightarrow> DiskWriteObserver \<Rightarrow> DiskWriteObserver" where
  "SetContext context_name ob =
     (let v = TrimSpace context_name; v = (if v = [] then ''uncoordinated'' else v) in
      if ob_context ob \<noteq> v
      then ob\<lparr> ob_context := v, ob_unusualSince := 0, ob_highSince := 0, ob_recoverySince := 0, ob_dominance := [] \<rparr>
      else ob)"

record CoordinatedWorkClassUsage =
  cu_Class :: string
  cu_LeaseCount :: int

definition diskWriteContext :: "CoordinatedWorkClassUsage list \<Rightarrow> string" where
  "diskWriteContext by_class =
     (case map cu_Class (filter (\<lambda>c. cu_LeaseCount c > 0) by_class) of
        [] \<Rightarrow> ''uncoordinated'' | [c] \<Rightarrow> c | _ \<Rightarrow> ''mixed'')"


section \<open>Reports\<close>

definition limitDiskWriteReport :: "DiskWriteReport \<Rightarrow> int \<Rightarrow> DiskWriteReport" where
  "limitDiskWriteReport r limit =
     (let limit = (if limit \<le> 0 then 5 else limit);
          limit = (if limit > diskWriteMaxWriters then diskWriteMaxWriters else limit);
          r = r\<lparr> rp_AvailableCount := max (rp_AvailableCount r) (int (length (rp_Writers r))) \<rparr>;
          r = (if int (length (rp_Writers r)) > limit then r\<lparr> rp_Writers := take (nat limit) (rp_Writers r) \<rparr> else r);
          r = r\<lparr> rp_ReturnedCount := int (length (rp_Writers r)) \<rparr>
      in r\<lparr> rp_Truncated := rp_AvailableCount r > rp_ReturnedCount r \<rparr>)"

definition disabledDiskWriteSummary :: "time \<Rightarrow> bool \<Rightarrow> DiskWriteSummary" where
  "disabledDiskWriteSummary t enabled =
     \<lparr> sy_SchemaVersion = 1, sy_ModelVersion = diskWriteModelVersion, sy_CapturedAt = t,
       sy_State = (if enabled then DiskWriteStateLearning else DiskWriteStateDisabled),
       sy_Confidence = DiskWriteConfidenceNone, sy_Source = ''iokit+libproc'', sy_DeviceScope = ''internal_ssd'',
       sy_AttributionScope = ''all_disk_io_best_effort'', sy_Context = ''uncoordinated'',
       sy_MeasurementWindowSeconds = 0, sy_CurrentBytesPerSecond = 0, sy_Window15mBytes = 0,
       sy_BurstWindowBytes = 0, sy_BurstActive = False, sy_Bytes24h = 0, sy_UnscoredGapBytes = 0,
       sy_BaselineP99Bytes15m = 0, sy_BaselineRatio = 0, sy_BaselineSamples = 0, sy_BaselineAgeSeconds = 0,
       sy_SwapOutBytes15m = 0, sy_SwapShare15m = 0, sy_DeviceCount = 0, sy_TotalPIDCount = 0,
       sy_AccessiblePIDCount = 0, sy_AttributionAvailable = False, sy_WriterAvailableCount = 0,
       sy_TopWriter = None,
       sy_Reasons = (if enabled then [''awaiting_first_sample''] else [''monitoring_disabled'']) \<rparr>"

definition unavailableDiskWriteSummary :: "time \<Rightarrow> string \<Rightarrow> DiskWriteSummary" where
  "unavailableDiskWriteSummary t reason =
     (disabledDiskWriteSummary t True)\<lparr> sy_State := DiskWriteStateUnavailable, sy_Reasons := [reason] \<rparr>"

definition bare_report :: "DiskWriteSummary \<Rightarrow> DiskWriteReport" where
  "bare_report s =
     \<lparr> rp_Summary = s, rp_Writers = [], rp_AvailableCount = 0, rp_ReturnedCount = 0, rp_Truncated = False \<rparr>"

definition Latest :: "time \<Rightarrow> int \<Rightarrow> DiskWriteObserver \<Rightarrow> DiskWriteReport" where
  "Latest now limit ob =
     (let r = ob_lastReport ob;
          r = (if sy_SchemaVersion (rp_Summary r) = 0
               then r\<lparr> rp_Summary := disabledDiskWriteSummary now (dw_Enabled (ob_policy ob)) \<rparr> else r)
      in limitDiskWriteReport r limit)"

definition live_reason :: "string \<Rightarrow> bool" where
  "live_reason reason \<longleftrightarrow>
     reason \<in> set [''process_attribution_unavailable'', ''process_attribution_partial'', ''swap_counter_unavailable'']"

definition MergeLiveDiskWriteReport :: "DiskWriteReport \<Rightarrow> DiskWriteSummary \<Rightarrow> DiskWriteReport" where
  "MergeLiveDiskWriteReport live resident =
     live\<lparr> rp_Summary := (rp_Summary live)\<lparr>
       sy_ModelVersion := sy_ModelVersion resident, sy_State := sy_State resident,
       sy_Confidence := sy_Confidence resident, sy_Context := sy_Context resident,
       sy_Window15mBytes := sy_Window15mBytes resident, sy_Bytes24h := sy_Bytes24h resident,
       sy_UnscoredGapBytes := sy_UnscoredGapBytes resident,
       sy_BaselineP99Bytes15m := sy_BaselineP99Bytes15m resident, sy_BaselineRatio := sy_BaselineRatio resident,
       sy_BaselineSamples := sy_BaselineSamples resident, sy_BaselineAgeSeconds := sy_BaselineAgeSeconds resident,
       sy_SwapOutBytes15m := sy_SwapOutBytes15m resident, sy_SwapShare15m := sy_SwapShare15m resident,
       sy_Reasons := fold (\<lambda>reason rs. if live_reason reason \<and> reason \<notin> set rs then rs @ [reason] else rs)
         (sy_Reasons (rp_Summary live)) (sy_Reasons resident) \<rparr> \<rparr>"


section \<open>Windows\<close>

definition prunePoints :: "time \<Rightarrow> DiskWriteObserver \<Rightarrow> DiskWriteObserver" where
  "prunePoints t ob =
     ob\<lparr> ob_volumePoints := dropWhile (\<lambda>p. vp_At p < t - diskWriteHistoryWindow) (ob_volumePoints ob),
         ob_writerPoints := dropWhile (\<lambda>p. wp_At p < t - diskWriteWindow) (ob_writerPoints ob) \<rparr>"

fun window_bytes :: "time \<Rightarrow> bool \<Rightarrow> 64 word \<Rightarrow> diskVolumePoint list \<Rightarrow> 64 word" where
  "window_bytes cutoff scoredOnly got [] = got"
| "window_bytes cutoff scoredOnly got (p # ps) =
     (if vp_At p < cutoff \<or> scoredOnly \<and> \<not> vp_Scored p then window_bytes cutoff scoredOnly got ps
      else if got \<le> -1 - vp_Bytes p then window_bytes cutoff scoredOnly (got + vp_Bytes p) ps
      else -1)"

definition windowBytes :: "time \<Rightarrow> bool \<Rightarrow> diskVolumePoint list \<Rightarrow> 64 word" where
  "windowBytes cutoff scoredOnly ps = window_bytes cutoff scoredOnly 0 ps"

definition windowSwapBytes :: "time \<Rightarrow> diskVolumePoint list \<Rightarrow> 64 word" where
  "windowSwapBytes cutoff ps =
     fold (\<lambda>p got. if vp_At p < cutoff \<or> \<not> vp_Scored p then got else saturatingAddUint64 got (vp_SwapBytes p)) ps 0"

definition burstWindowBytes :: "time \<Rightarrow> diskVolumePoint list \<Rightarrow> 64 word" where
  "burstWindowBytes t ps =
     (let cutoff = t - diskWriteBurstWindow in
      fold (\<lambda>p got. if \<not> vp_Scored p \<or> vp_Duration p \<le> 0 \<or> vp_At p > t \<or> vp_At p - vp_Duration p < cutoff
        then got else saturatingAddUint64 got (vp_Bytes p)) ps 0)"

definition windowGapBytes :: "time \<Rightarrow> diskVolumePoint list \<Rightarrow> 64 word" where
  "windowGapBytes cutoff ps =
     fold (\<lambda>p got. if vp_At p < cutoff \<or> \<not> vp_Gap p then got else saturatingAddUint64 got (vp_Bytes p)) ps 0"

fun windowCovered :: "time \<Rightarrow> diskVolumePoint list \<Rightarrow> bool" where
  "windowCovered t [] = False"
| "windowCovered t (p # ps) =
     (if vp_Scored p then time_sub t (vp_At p) \<ge> diskWriteMinimumWindow else windowCovered t ps)"


section \<open>Writers\<close>

record writer_aggregate =
  ag_bytes :: "64 word"
  ag_current :: "64 word"
  ag_processes :: "diskProcessKey list"
  ag_agents :: "diskProcessKey list"
  ag_pid :: int
  ag_start :: "64 word"
  ag_largest :: "64 word"

definition empty_aggregate :: writer_aggregate where
  "empty_aggregate =
     \<lparr> ag_bytes = 0, ag_current = 0, ag_processes = [], ag_agents = [], ag_pid = 0, ag_start = 0, ag_largest = 0 \<rparr>"

definition aggregate_delta :: "bool \<Rightarrow> diskProcessDelta \<Rightarrow> writer_aggregate \<Rightarrow> writer_aggregate" where
  "aggregate_delta latest d item =
     (let item = item\<lparr> ag_bytes := saturatingAddUint64 (ag_bytes item) (pd_Bytes d),
                       ag_processes := List.insert (pd_Key d) (ag_processes item) \<rparr>;
          item = (if pd_AgentOwned d then item\<lparr> ag_agents := List.insert (pd_Key d) (ag_agents item) \<rparr> else item)
      in if latest
         then let item = item\<lparr> ag_current := saturatingAddUint64 (ag_current item) (pd_Bytes d) \<rparr> in
           if pd_Bytes d > ag_largest item
           then item\<lparr> ag_largest := pd_Bytes d, ag_pid := pk_PID (pd_Key d), ag_start := pk_StartID (pd_Key d) \<rparr>
           else item
         else item)"

definition aggregate_step ::
  "bool \<Rightarrow> diskProcessDelta \<Rightarrow> (string \<times> writer_aggregate) list \<times> 64 word \<Rightarrow> (string \<times> writer_aggregate) list \<times> 64 word" where
  "aggregate_step latest d acc =
     (let (items, got) = acc;
          item = (case map_of items (pd_Executable d) of Some i \<Rightarrow> i | None \<Rightarrow> empty_aggregate)
      in (AList.update (pd_Executable d) (aggregate_delta latest d item) items,
          saturatingAddUint64 got (pd_Bytes d)))"

fun aggregate_points ::
  "diskWriterPoint list \<Rightarrow> (string \<times> writer_aggregate) list \<times> 64 word \<Rightarrow> (string \<times> writer_aggregate) list \<times> 64 word" where
  "aggregate_points [] acc = acc"
| "aggregate_points (p # ps) acc = aggregate_points ps (fold (aggregate_step (ps = [])) (wp_Deltas p) acc)"

definition writer_of ::
  "(string \<Rightarrow> bool) \<Rightarrow> duration \<Rightarrow> DiskWriteObserver \<Rightarrow> string \<times> writer_aggregate \<Rightarrow> DiskWriter" where
  "writer_of is_agent latestDuration ob entry =
     (let (executable, item) = entry; swap = (executable = diskWriteSwapExecutable) in
      \<lparr> ws_Executable = executable,
        ws_Category = (if swap then ''system'' else hostConsumerCategory is_agent executable),
        ws_ProcessCount = int (length (ag_processes item)), ws_AgentProcessCount = int (length (ag_agents item)),
        ws_WindowBytes = ag_bytes item,
        ws_BytesPerSecond = (if latestDuration > 0
          then rat_of_int (uint (ag_current item)) / duration_seconds latestDuration else 0),
        ws_BaselineRatio = (case map_of (ob_executableModels ob) executable of
            None \<Rightarrow> 0
          | Some model \<Rightarrow> if p99 model > 0
              then roundRatio (rat_of_int (uint (ag_bytes item)) / rat_of_int (uint (p99 model))) else 0),
        wr_PID = (if swap then 0 else ag_pid item), wr_ProcessStartID = (if swap then 0 else ag_start item),
        wr_OwnerKind = (if swap then ''kernel'' else if ag_agents item \<noteq> [] then ''agent'' else []),
        wr_WorkClass = ob_context ob \<rparr>)"

definition writer_key :: "DiskWriter \<Rightarrow> int \<times> string" where
  "writer_key w = (- uint (ws_WindowBytes w), ws_Executable w)"

definition aggregateWriters ::
  "(string \<Rightarrow> bool) \<Rightarrow> duration \<Rightarrow> DiskWriteObserver \<Rightarrow> DiskWriter list \<times> 64 word \<times> int" where
  "aggregateWriters is_agent latestDuration ob =
     (let (items, writerTotal) = aggregate_points (ob_writerPoints ob) ([], 0);
          writers = sort_key writer_key (map (writer_of is_agent latestDuration ob) items);
          available = int (length writers)
      in (if available > diskWriteMaxWriters then take (nat diskWriteMaxWriters) writers else writers,
          writerTotal, available))"


section \<open>Classification\<close>

definition diskWriteConfidenceFor :: "diskHistogram \<Rightarrow> time \<Rightarrow> DiskWriteConfidence" where
  "diskWriteConfidenceFor h t =
     (if hi_Count h < diskWriteLearningSamples \<or> IsZero (hi_FirstAt h) \<or>
         time_sub t (hi_FirstAt h) < diskWriteLearningAge
      then DiskWriteConfidenceLearning
      else if hi_Count h < diskWriteConfidentSamples \<or> time_sub t (hi_FirstAt h) < diskWriteConfidentAge
      then DiskWriteConfidenceProvisional
      else DiskWriteConfidenceConfident)"

definition anomalous :: "DiskWriteState \<Rightarrow> bool" where
  "anomalous s \<longleftrightarrow> s = DiskWriteStateHigh \<or> s = DiskWriteStateUnusual"

text \<open>Since when a condition has held: the field starts at the first sample and is reset by the first miss.\<close>

definition since_when :: "bool \<Rightarrow> time \<Rightarrow> time \<Rightarrow> time" where
  "since_when holds t since = (if holds then (if IsZero since then t else since) else 0)"

definition lasted :: "time \<Rightarrow> time \<Rightarrow> duration \<Rightarrow> bool" where
  "lasted t since d \<longleftrightarrow> \<not> IsZero since \<and> time_sub t since \<ge> d"

definition dominant_writer :: "DiskWriter list \<Rightarrow> 64 word \<Rightarrow> string" where
  "dominant_writer writers writerTotal =
     (case writers of
        [] \<Rightarrow> []
      | w # _ \<Rightarrow> if writerTotal > 0 \<and> rat_of_int (uint (ws_WindowBytes w)) / rat_of_int (uint writerTotal) \<ge> 3 / 5
          then ws_Executable w else [])"

definition push_dominance :: "string \<Rightarrow> string list \<Rightarrow> string list" where
  "push_dominance dominant dominance =
     (let d = dominance @ [dominant] in if length d > 40 then drop (length d - 40) d else d)"

definition dominance_consistent :: "string \<Rightarrow> string list \<Rightarrow> bool" where
  "dominance_consistent dominant dominance \<longleftrightarrow>
     dominant \<noteq> [] \<and> length dominance \<ge> 40 \<and>
     length (filter (\<lambda>name. name = dominant) (drop (length dominance - 40) dominance)) \<ge> 32"

definition detected_state :: "DiskWriteConfidence \<Rightarrow> bool \<Rightarrow> bool \<Rightarrow> bool \<Rightarrow> DiskWriteState" where
  "detected_state confidence high unusual dominantConsistent =
     (if confidence = DiskWriteConfidenceConfident
      then (if high then DiskWriteStateHigh else if unusual then DiskWriteStateUnusual else DiskWriteStateNormal)
      else if high \<and> dominantConsistent then DiskWriteStateHigh else DiskWriteStateNormal)"

definition classify ::
  "time \<Rightarrow> DiskWriteConfidence \<Rightarrow> rat \<Rightarrow> 64 word \<Rightarrow> DiskWriter list \<Rightarrow> 64 word \<Rightarrow> DiskWriteObserver \<Rightarrow>
     DiskWriteState \<times> bool \<times> DiskWriteObserver" where
  "classify t confidence ratio p writers writerTotal ob =
     (if confidence = DiskWriteConfidenceLearning \<or> p = 0
      then (DiskWriteStateLearning, True, ob\<lparr> ob_unusualSince := 0, ob_highSince := 0, ob_recoverySince := 0 \<rparr>)
      else
        let highSince = since_when (ratio \<ge> diskWriteHighRatio) t (ob_highSince ob);
            unusualSince = since_when (ratio \<ge> diskWriteUnusualRatio) t (ob_unusualSince ob);
            dominant = dominant_writer writers writerTotal;
            dominance = push_dominance dominant (ob_dominance ob);
            detected = detected_state confidence (lasted t highSince diskWriteHighDuration)
              (lasted t unusualSince diskWriteUnusualDuration) (dominance_consistent dominant dominance);
            recovering = anomalous (ob_lastState ob);
            recoverySince = (if recovering
              then since_when (ratio < diskWriteRecoveryRatio) t (ob_recoverySince ob) else ob_recoverySince ob);
            state = (if recovering \<and> \<not> lasted t recoverySince diskWriteRecoveryDuration
              then ob_lastState ob else detected);
            accepted = (if anomalous state \<or> anomalous (ob_lastState ob) then False else ratio < diskWriteUnusualRatio)
        in (state, accepted,
            ob\<lparr> ob_highSince := highSince, ob_unusualSince := unusualSince, ob_dominance := dominance,
                ob_recoverySince := recoverySince \<rparr>))"

definition diskTransition :: "DiskWriteSummary \<Rightarrow> DiskWriteObserver \<Rightarrow> DiskWriteObserver \<times> DiskWriteTransition option" where
  "diskTransition s ob =
     (let previous = ob_lastState ob; ob = ob\<lparr> ob_lastState := sy_State s \<rparr> in
      if previous = DiskWriteStateUnset \<or> previous = sy_State s then (ob, None)
      else if \<not> sy_BurstActive s \<and> \<not> IsZero (ob_lastTransition ob) \<and>
              time_sub (sy_CapturedAt s) (ob_lastTransition ob) < diskWriteTransitionInterval
      then (ob, None)
      else
        (ob\<lparr> ob_lastTransition := sy_CapturedAt s \<rparr>,
         Some \<lparr> tn_SchemaVersion = 1, tn_Timestamp = sy_CapturedAt s, tn_From = previous, tn_To = sy_State s,
                tn_Confidence = sy_Confidence s, tn_Ratio = sy_BaselineRatio s, tn_WindowBytes = sy_Window15mBytes s,
                tn_BurstBytes = (if sy_BurstActive s then sy_BurstWindowBytes s else 0), tn_Context = sy_Context s \<rparr>))"

end
