(* ===== verification/Disk_Sample.thy ===== *)
theory Disk_Sample
  imports Disk_Observer
begin

text \<open>
  The operations of the disk-write observer that keep its files (\<^verbatim>\<open>sessionpressure/disk_write.go\<close>):
  alerts, hourly records and their checkpoint, a whole sample, the restart from the files, and the
  resident's run as a sequence of steps.
\<close>

section \<open>Alerts\<close>

definition saveAlertStateLocked ::
  "disk_host \<Rightarrow> string \<Rightarrow> int \<Rightarrow> bool \<Rightarrow> time \<Rightarrow> DiskWriteObserver \<Rightarrow> DiskWriteStore \<Rightarrow> DiskWriteStore \<times> bool" where
  "saveAlertStateLocked h day alerts incidentOpen t ob st =
     (if \<not> ob_hasStore ob then (st, True)
      else
        let r = \<lparr> as_SchemaVersion = 0, as_ModelVersion = [], as_Day = day, as_Alerts = alerts,
                  as_IncidentOpen = incidentOpen, as_UpdatedAt = t \<rparr>;
            (st, e) = saveAlertState (dh_SavesAlert h r) (dh_Now h) r st
        in (st, e = None))"

text \<open>A sample that closes the open incident.\<close>

definition closes_incident :: "DiskWriteSummary \<Rightarrow> bool" where
  "closes_incident s \<longleftrightarrow>
     sy_State s = DiskWriteStateNormal \<or>
     sy_State s = DiskWriteStateLearning \<and> sy_MeasurementWindowSeconds s > 0 \<and>
       ''sample_gap_rebased'' \<notin> set (sy_Reasons s)"

definition alert_of :: "DiskWriteSummary \<Rightarrow> DiskWriteAlert" where
  "alert_of s =
     \<lparr> al_Timestamp = sy_CapturedAt s, al_State = sy_State s, al_Ratio = sy_BaselineRatio s,
       al_WindowBytes = sy_Window15mBytes s,
       al_TopWriter = (if sy_BurstActive s then [] else
         case sy_TopWriter s of None \<Rightarrow> [] | Some w \<Rightarrow> ws_Executable w),
       al_BurstBytes = (if sy_BurstActive s then sy_BurstWindowBytes s else 0) \<rparr>"

definition alert ::
  "disk_host \<Rightarrow> DiskWriteSummary \<Rightarrow> DiskWriteObserver \<Rightarrow> DiskWriteStore \<Rightarrow>
     DiskWriteObserver \<times> DiskWriteStore \<times> DiskWriteAlert option" where
  "alert h s ob st =
     (if ob_alertStateInvalid ob then (ob, st, None)
      else
        let day = he_LocalDay (dh_Files h) (sy_CapturedAt s);
            (ob, st, saved) =
              (if day \<noteq> ob_alertDay ob
               then (let (st, saved) = saveAlertStateLocked h day 0 (ob_incidentOpen ob) (sy_CapturedAt s) ob st in
                 if saved then (ob\<lparr> ob_alertDay := day, ob_alertsToday := 0, ob_alertStateInvalid := False \<rparr>, st, True)
                 else (ob, st, False))
               else (ob, st, True))
        in if \<not> saved then (ob, st, None)
           else if sy_State s \<noteq> DiskWriteStateHigh
           then (if closes_incident s \<and> ob_incidentOpen ob
                 then (let (st, saved) = saveAlertStateLocked h (ob_alertDay ob) (ob_alertsToday ob) False (sy_CapturedAt s) ob st in
                   if saved then (ob\<lparr> ob_incidentOpen := False \<rparr>, st, None) else (ob, st, None))
                 else (ob, st, None))
           else if \<not> NotificationsEnabled (ob_policy ob) \<or> ob_incidentOpen ob \<or>
                   ob_alertsToday ob \<ge> diskWriteAlertLimitPerDay
           then (ob, st, None)
           else (let (st, saved) = saveAlertStateLocked h (ob_alertDay ob) (ob_alertsToday ob + 1) True (sy_CapturedAt s) ob st in
             if saved
             then (ob\<lparr> ob_incidentOpen := True, ob_alertsToday := ob_alertsToday ob + 1 \<rparr>, st, Some (alert_of s))
             else (ob, st, None)))"


section \<open>Hours\<close>

definition empty_hour :: "time \<Rightarrow> diskWriteHistoryRecord" where
  "empty_hour hour =
     \<lparr> hw_SchemaVersion = 1, hw_ModelVersion = diskWriteModelVersion, hw_BaselineEpoch = diskWriteBaselineEpoch,
       hw_Hour = hour, hw_State = DiskWriteStateUnset, hw_BytesWritten = 0, hw_SwapOutBytes = 0,
       hw_UnscoredGapBytes = 0, hw_SampleCount = 0, hw_BaselineP99Bytes = 0, hw_Contexts = [],
       hw_Executables = [], hw_LastSampleAt = 0, hw_DeviceIdentity = [], hw_DeviceBytes = 0,
       hw_DeviceCount = 0, hw_DeviceSource = [], hw_executableHistograms = [] \<rparr>"

definition executable_history :: "string \<times> diskHistogram \<Rightarrow> diskExecutableHistory" where
  "executable_history e =
     \<lparr> eh_Executable = fst e, eh_TotalBytes = hi_Sum (snd e), eh_Histogram = histogram_record (snd e) \<rparr>"

definition currentHourRecord :: "diskWriteHistoryRecord option \<Rightarrow> diskWriteHistoryRecord option" where
  "currentHourRecord hour =
     (case hour of
        None \<Rightarrow> None
      | Some r \<Rightarrow>
          if hw_SampleCount r = 0 \<and> hw_Contexts r = [] \<and> hw_DeviceIdentity r = [] then None
          else Some (r\<lparr> hw_Executables :=
                 take 8 (sort_key (\<lambda>e. (- uint (eh_TotalBytes e), eh_Executable e))
                   (map executable_history (hw_executableHistograms r))),
               hw_executableHistograms := [] \<rparr>))"

definition flushHour :: "disk_host \<Rightarrow> DiskWriteObserver \<Rightarrow> DiskWriteStore \<Rightarrow> DiskWriteObserver \<times> DiskWriteStore" where
  "flushHour h ob st =
     (if ob_currentHour ob = None \<or> \<not> ob_hasStore ob then (ob, st)
      else case currentHourRecord (ob_currentHour ob) of
        None \<Rightarrow> (ob\<lparr> ob_currentHour := None \<rparr>, st)
      | Some r \<Rightarrow>
          (case appendRecord (dh_Files h) (dh_Append h) r st of
             (st, Some e) \<Rightarrow>
               (ob\<lparr> ob_currentHour := None \<rparr>, fst (writeCheckpoint (dh_Files h) (dh_WritesCheckpoint h) r st))
           | (st, None) \<Rightarrow>
               let st = fst (removeCheckpoint (dh_RemovesCheckpoint h) st);
                   st = fst (PruneDiskWrites (dh_Files h) (dh_RemovesShard h) (dh_Now h)
                          (BaselineRetentionDays (ob_policy ob)) st)
               in (ob\<lparr> ob_currentHour := None \<rparr>, st)))"

definition checkpointHour :: "disk_host \<Rightarrow> DiskWriteObserver \<Rightarrow> DiskWriteStore \<Rightarrow> DiskWriteStore" where
  "checkpointHour h ob st =
     (if ob_currentHour ob = None \<or> \<not> ob_hasStore ob then st
      else case currentHourRecord (ob_currentHour ob) of
        None \<Rightarrow> st
      | Some r \<Rightarrow> fst (writeCheckpoint (dh_Files h) (dh_WritesCheckpoint h) r st))"

text \<open>\<^verbatim>\<open>Time.Truncate\<close> counts from the zero instant.\<close>

definition truncate_hour :: "time \<Rightarrow> time" where
  "truncate_hour t = t - t mod hours 1"

definition ensureCurrentHour ::
  "disk_host \<Rightarrow> time \<Rightarrow> DiskWriteObserver \<Rightarrow> DiskWriteStore \<Rightarrow> DiskWriteObserver \<times> DiskWriteStore" where
  "ensureCurrentHour h t ob st =
     (let hour = truncate_hour t in
      case ob_currentHour ob of
        Some r \<Rightarrow>
          if hw_Hour r \<noteq> hour
          then (let (ob, st) = flushHour h ob st in (ob\<lparr> ob_currentHour := Some (empty_hour hour) \<rparr>, st))
          else (ob, st)
      | None \<Rightarrow>
          (let (ob, st) = flushHour h ob st in (ob\<lparr> ob_currentHour := Some (empty_hour hour) \<rparr>, st)))"

definition update_hour ::
  "(diskWriteHistoryRecord \<Rightarrow> diskWriteHistoryRecord) \<Rightarrow> DiskWriteObserver \<Rightarrow> DiskWriteObserver" where
  "update_hour f ob = ob\<lparr> ob_currentHour := map_option f (ob_currentHour ob) \<rparr>"

definition hour_sample ::
  "time \<Rightarrow> DiskWriteState \<Rightarrow> 64 word \<Rightarrow> 64 word \<Rightarrow> 64 word \<Rightarrow> diskDeviceCounter \<Rightarrow> bool \<Rightarrow> bool \<Rightarrow>
     diskWriteHistoryRecord \<Rightarrow> diskWriteHistoryRecord" where
  "hour_sample t state p deviceDelta swapDelta device hasPrevious validWindow r =
     (let r = r\<lparr> hw_State := state \<rparr>;
          r = (if validWindow
            then r\<lparr> hw_BytesWritten := saturatingAddUint64 (hw_BytesWritten r) deviceDelta,
                    hw_SwapOutBytes := saturatingAddUint64 (hw_SwapOutBytes r) swapDelta,
                    hw_SampleCount := hw_SampleCount r + 1 \<rparr>
            else if hasPrevious
            then r\<lparr> hw_UnscoredGapBytes := saturatingAddUint64 (hw_UnscoredGapBytes r) deviceDelta \<rparr>
            else r)
      in r\<lparr> hw_BaselineP99Bytes := p, hw_LastSampleAt := t, hw_DeviceIdentity := dd_Identity device,
            hw_DeviceBytes := dd_BytesWritten device, hw_DeviceCount := dd_DeviceCount device,
            hw_DeviceSource := dd_Source device \<rparr>)"

definition recordHour ::
  "disk_host \<Rightarrow> time \<Rightarrow> DiskWriteState \<Rightarrow> 64 word \<Rightarrow> 64 word \<Rightarrow> 64 word \<Rightarrow> diskDeviceCounter \<Rightarrow> bool \<Rightarrow> bool \<Rightarrow>
     DiskWriteObserver \<Rightarrow> DiskWriteStore \<Rightarrow> DiskWriteObserver \<times> DiskWriteStore" where
  "recordHour h t state p deviceDelta swapDelta device hasPrevious validWindow ob st =
     (let (ob, st) = ensureCurrentHour h t ob st in
      (update_hour (hour_sample t state p deviceDelta swapDelta device hasPrevious validWindow) ob, st))"


section \<open>The baseline\<close>

definition histogram_at :: "(string \<times> diskHistogram) list \<Rightarrow> string \<Rightarrow> diskHistogram" where
  "histogram_at models name = (case map_of models name of Some m \<Rightarrow> m | None \<Rightarrow> empty_histogram)"

text \<open>The record that a missing entry of a Go map reads as.\<close>

definition zero_record :: diskHistogramRecord where
  "zero_record = \<lparr> hr_Zero = 0, hr_Buckets = [], hr_Count = 0, hr_Sum = 0, hr_FirstAt = 0, hr_LastAt = 0 \<rparr>"

definition trimExecutableModels :: "DiskWriteObserver \<Rightarrow> DiskWriteObserver" where
  "trimExecutableModels ob =
     (if length (ob_executableModels ob) \<le> diskWriteMaxExecutableModels then ob
      else
        let names = sort_key (\<lambda>name. (- uint (ob_executableBytes ob name), name)) (map fst (ob_executableModels ob));
            dropped = drop diskWriteMaxExecutableModels names
        in ob\<lparr> ob_executableModels := filter (\<lambda>e. fst e \<notin> set dropped) (ob_executableModels ob),
               ob_executableBytes := (\<lambda>name. if name \<in> set dropped then 0 else ob_executableBytes ob name) \<rparr>)"

definition record_writer :: "time \<Rightarrow> DiskWriter \<Rightarrow> DiskWriteObserver \<Rightarrow> DiskWriteObserver" where
  "record_writer t w ob =
     (let name = ws_Executable w; bytes = ws_WindowBytes w;
          ob = ob\<lparr> ob_executableModels :=
                     AList.update name (histogram_add bytes t (histogram_at (ob_executableModels ob) name))
                       (ob_executableModels ob),
                   ob_executableBytes :=
                     (ob_executableBytes ob)(name := saturatingAddUint64 (ob_executableBytes ob name) bytes) \<rparr>
      in update_hour (\<lambda>r. r\<lparr> hw_executableHistograms :=
           AList.update name (histogram_add bytes t (histogram_at (hw_executableHistograms r) name))
             (hw_executableHistograms r) \<rparr>) ob)"

definition recordBaseline ::
  "disk_host \<Rightarrow> time \<Rightarrow> string \<Rightarrow> 64 word \<Rightarrow> DiskWriter list \<Rightarrow> DiskWriteObserver \<Rightarrow> DiskWriteStore \<Rightarrow>
     DiskWriteObserver \<times> DiskWriteStore" where
  "recordBaseline h t contextName v writers ob st =
     (let (ob, st) = ensureCurrentHour h t ob st;
          ob = update_hour (\<lambda>r.
            let histogram = diskHistogramFromRecord
                  (case map_of (hw_Contexts r) contextName of Some s \<Rightarrow> s | None \<Rightarrow> zero_record)
            in r\<lparr> hw_Contexts := AList.update contextName (histogram_record (histogram_add v t histogram)) (hw_Contexts r) \<rparr>) ob;
          ob = fold (record_writer t) (take 8 writers) ob
      in (trimExecutableModels ob, st))"


section \<open>A sample\<close>

definition has_previous :: "DiskWriteObserver \<Rightarrow> diskDeviceCounter \<Rightarrow> bool" where
  "has_previous ob device \<longleftrightarrow>
     \<not> IsZero (ob_previousAt ob) \<and> dd_Identity device = dd_Identity (ob_previousDevice ob) \<and>
     dd_BytesWritten device \<ge> dd_BytesWritten (ob_previousDevice ob)"

definition valid_window :: "time \<Rightarrow> DiskWriteObserver \<Rightarrow> diskDeviceCounter \<Rightarrow> bool" where
  "valid_window t ob device \<longleftrightarrow>
     (let elapsed = time_sub t (ob_previousAt ob); every = dw_SampleIntervalSeconds (ob_policy ob);
          maxInterval = seconds (max 45 (every * 3));
          valid = (has_previous ob device \<and> elapsed > 0 \<and> elapsed \<le> maxInterval)
      in if \<not> ob_allowShort ob then valid \<and> elapsed \<ge> seconds (max 1 (go_div every 3)) else valid)"

definition zero_swap :: swapIOCounter where
  "zero_swap = \<lparr> SwapInBytes = 0, SwapOutBytes = 0 \<rparr>"

definition swap_delta :: "bool \<Rightarrow> 64 word \<Rightarrow> swapIOCounter option \<Rightarrow> DiskWriteObserver \<Rightarrow> 64 word" where
  "swap_delta valid deviceDelta swap ob =
     (case swap of
        None \<Rightarrow> 0
      | Some s \<Rightarrow>
          let previous = ob_previousSwap ob in
          if valid \<and> previous \<noteq> zero_swap \<and> SwapOutBytes s \<ge> SwapOutBytes previous
          then min (SwapOutBytes s - SwapOutBytes previous) deviceDelta else 0)"

definition device_delta :: "DiskWriteObserver \<Rightarrow> diskDeviceCounter \<Rightarrow> 64 word" where
  "device_delta ob device =
     (if has_previous ob device then dd_BytesWritten device - dd_BytesWritten (ob_previousDevice ob) else 0)"

definition observe_process ::
  "bool \<Rightarrow> DiskWriteObserver \<Rightarrow> diskProcessCounter \<Rightarrow>
     diskProcessDelta list \<times> (diskProcessKey \<Rightarrow> diskProcessCounter option) \<Rightarrow>
     diskProcessDelta list \<times> (diskProcessKey \<Rightarrow> diskProcessCounter option)" where
  "observe_process valid ob c acc =
     (let (deltas, current) = acc;
          key = \<lparr> pk_PID = dp_PID c, pk_StartID = dp_StartID c \<rparr>;
          c = (case ob_ownership ob key of
              None \<Rightarrow> c
            | Some owner \<Rightarrow>
                (if ow_Executable owner \<noteq> [] \<and> ow_Executable owner \<noteq> ''unknown''
                 then c\<lparr> dp_Executable := ow_Executable owner \<rparr> else c)
                \<lparr> dp_AgentOwned := dp_AgentOwned c \<or> ow_AgentOwned owner \<rparr>);
          c = c\<lparr> dp_Executable := privacySafeExecutable (dp_Executable c) \<rparr>;
          current = current(key \<mapsto> c)
      in case ob_previousProcesses ob key of
           None \<Rightarrow> (deltas, current)
         | Some previous \<Rightarrow>
             if dp_BytesWritten c < dp_BytesWritten previous \<or> \<not> valid then (deltas, current)
             else
               let delta = dp_BytesWritten c - dp_BytesWritten previous in
               if delta = 0 then (deltas, current)
               else (deltas @ [\<lparr> pd_Key = key, pd_Executable = dp_Executable c, pd_Bytes = delta,
                                 pd_AgentOwned = dp_AgentOwned c \<rparr>], current))"

definition kernel_delta :: "64 word \<Rightarrow> diskProcessDelta" where
  "kernel_delta bytes =
     \<lparr> pd_Key = \<lparr> pk_PID = 0, pk_StartID = 0 \<rparr>, pd_Executable = diskWriteSwapExecutable, pd_Bytes = bytes,
       pd_AgentOwned = False \<rparr>"

text \<open>The first half of a sample: the new points of the two windows, and the counters rebased.\<close>

definition take_counters :: "disk_host \<Rightarrow> time \<Rightarrow> diskDeviceCounter \<Rightarrow> DiskWriteObserver \<Rightarrow> DiskWriteObserver" where
  "take_counters h t device ob =
     (let elapsed = time_sub t (ob_previousAt ob); hasPrevious = has_previous ob device;
          valid = valid_window t ob device;
          deviceDelta = device_delta ob device;
          swapDelta = swap_delta valid deviceDelta (dh_Swap h) ob;
          (deltas, current) = fold (observe_process valid ob) (dn_Counters (dh_Processes h)) ([], \<lambda>_. None);
          deltas = (if swapDelta > 0 then deltas @ [kernel_delta swapDelta] else deltas);
          ob = ob\<lparr> ob_previousSwap := (case dh_Swap h of Some s \<Rightarrow> s | None \<Rightarrow> zero_swap),
                   ob_volumePoints := (if hasPrevious
                     then ob_volumePoints ob @ [\<lparr> vp_At = t, vp_Duration = elapsed, vp_Bytes = deviceDelta,
                            vp_SwapBytes = swapDelta, vp_Scored = valid, vp_Gap = \<not> valid \<rparr>]
                     else ob_volumePoints ob),
                   ob_writerPoints := (if hasPrevious
                     then ob_writerPoints ob @ [\<lparr> wp_At = t, wp_Duration = elapsed, wp_Deltas = deltas \<rparr>]
                     else ob_writerPoints ob),
                   ob_previousAt := t, ob_previousDevice := device, ob_previousProcesses := current \<rparr>
      in prunePoints t ob)"

text \<open>
  The second half decides the state and whether the window may train the baseline. It classifies
  against the last adaptive state, and then overrides what it found for a window that is not covered,
  for one that swap traffic dominates, and for a burst.
\<close>

record disk_verdict =
  vd_State :: DiskWriteState
  vd_Confidence :: DiskWriteConfidence
  vd_Accepted :: bool
  vd_P99 :: "64 word"
  vd_Ratio :: rat
  vd_Window :: "64 word"
  vd_Swap :: "64 word"
  vd_SwapShare :: rat
  vd_SwapDominant :: bool
  vd_Burst :: bool
  vd_BurstBytes :: "64 word"
  vd_Context :: string
  vd_Writers :: "DiskWriter list"
  vd_Available :: int

definition context_name :: "DiskWriteObserver \<Rightarrow> string" where
  "context_name ob = (if ob_context ob = [] then ''uncoordinated'' else ob_context ob)"

definition baseline_of :: "DiskWriteObserver \<Rightarrow> string \<Rightarrow> diskHistogram" where
  "baseline_of ob name = (case ob_baselines ob name of Some b \<Rightarrow> b | None \<Rightarrow> empty_histogram)"

definition judge_window ::
  "disk_host \<Rightarrow> time \<Rightarrow> duration \<Rightarrow> bool \<Rightarrow> DiskWriteObserver \<Rightarrow> disk_verdict \<times> DiskWriteObserver" where
  "judge_window h t elapsed valid ob =
     (let points = ob_volumePoints ob;
          window15 = windowBytes (t - diskWriteWindow) True points;
          swap15 = windowSwapBytes (t - diskWriteWindow) points;
          swapShare = (if window15 > 0 then min 1 (rat_of_int (uint swap15) / rat_of_int (uint window15)) else 0);
          swapDominant = (swapShare \<ge> diskWriteSwapDominantShare);
          (writers, writerTotal, available) = aggregateWriters (dh_IsAgentExecutable h) elapsed ob;
          name = context_name ob;
          histogram = baseline_of ob name;
          ob = ob\<lparr> ob_baselines := (ob_baselines ob)(name \<mapsto> histogram) \<rparr>;
          p = p99 histogram;
          ratio = (if p > 0 then rat_of_int (uint window15) / rat_of_int (uint p) else 0);
          confidence = diskWriteConfidenceFor histogram t;
          lastState = ob_lastState ob;
          (state, accepted, ob) =
            classify t confidence ratio p writers writerTotal (ob\<lparr> ob_lastState := ob_lastAdaptiveState ob \<rparr>);
          ob = ob\<lparr> ob_lastAdaptiveState := state, ob_lastState := lastState \<rparr>;
          accepted = (if swapDominant then False else accepted);
          covered = windowCovered t points;
          state = (if covered then state else DiskWriteStateLearning);
          confidence = (if covered then confidence else DiskWriteConfidenceLearning);
          accepted = (if covered then accepted else False);
          burstBytes = burstWindowBytes t points;
          burst = (valid \<and> burstBytes \<ge> diskWriteBurstBytes);
          state = (if burst then DiskWriteStateHigh else state);
          ob = (if burst then ob\<lparr> ob_burstTrainingUntil := t + diskWriteWindow \<rparr> else ob);
          accepted = (if t < ob_burstTrainingUntil ob then False else accepted)
      in (\<lparr> vd_State = state, vd_Confidence = confidence, vd_Accepted = accepted, vd_P99 = p, vd_Ratio = ratio,
            vd_Window = window15, vd_Swap = swap15, vd_SwapShare = swapShare, vd_SwapDominant = swapDominant,
            vd_Burst = burst, vd_BurstBytes = burstBytes, vd_Context = name, vd_Writers = writers,
            vd_Available = available \<rparr>, ob))"

definition sample_reasons :: "disk_host \<Rightarrow> bool \<Rightarrow> bool \<Rightarrow> bool \<Rightarrow> disk_verdict \<Rightarrow> string list" where
  "sample_reasons h hasPrevious valid covered v =
     (if \<not> hasPrevious then [''counter_baseline_initialized'']
      else if \<not> valid then [''sample_gap_rebased''] else []) @
     (if \<not> covered then [''rolling_window_incomplete''] else []) @
     (if vd_P99 v = 0 then [''nonzero_baseline_insufficient''] else []) @
     (if \<not> dh_ProcessesOK h then [''process_attribution_unavailable''] else []) @
     (if dh_Swap h = None then [''swap_counter_unavailable''] else []) @
     (if vd_SwapDominant v then [''swap_dominant'', ''baseline_excluded_swap''] else []) @
     (if vd_Burst v then [''absolute_write_burst''] else []) @
     (if dn_AccessibleCount (dh_Processes h) < dn_TotalPIDCount (dh_Processes h)
      then [''process_attribution_partial''] else [])"

definition sample_summary ::
  "disk_host \<Rightarrow> time \<Rightarrow> duration \<Rightarrow> bool \<Rightarrow> bool \<Rightarrow> 64 word \<Rightarrow> diskDeviceCounter \<Rightarrow> disk_verdict \<Rightarrow>
     DiskWriteObserver \<Rightarrow> DiskWriteSummary" where
  "sample_summary h t elapsed hasPrevious valid deviceDelta device v ob =
     (let points = ob_volumePoints ob; histogram = baseline_of ob (vd_Context v) in
      \<lparr> sy_SchemaVersion = 1, sy_ModelVersion = diskWriteModelVersion, sy_CapturedAt = t,
        sy_State = vd_State v, sy_Confidence = vd_Confidence v, sy_Source = dd_Source device,
        sy_DeviceScope = ''internal_ssd'', sy_AttributionScope = ''all_disk_io_best_effort'',
        sy_Context = vd_Context v,
        sy_MeasurementWindowSeconds = (if hasPrevious \<and> elapsed > 0 then duration_seconds elapsed else 0),
        sy_CurrentBytesPerSecond =
          (if valid \<and> elapsed > 0 then rat_of_int (uint deviceDelta) / duration_seconds elapsed else 0),
        sy_Window15mBytes = vd_Window v, sy_BurstWindowBytes = vd_BurstBytes v, sy_BurstActive = vd_Burst v,
        sy_Bytes24h = windowBytes (t - diskWriteHistoryWindow) False points,
        sy_UnscoredGapBytes = windowGapBytes (t - diskWriteHistoryWindow) points,
        sy_BaselineP99Bytes15m = vd_P99 v, sy_BaselineRatio = roundRatio (vd_Ratio v),
        sy_BaselineSamples = hi_Count histogram,
        sy_BaselineAgeSeconds = (if \<not> IsZero (hi_FirstAt histogram)
          then max 0 (duration_seconds (time_sub t (hi_FirstAt histogram))) else 0),
        sy_SwapOutBytes15m = vd_Swap v, sy_SwapShare15m = roundRatio (vd_SwapShare v),
        sy_DeviceCount = dd_DeviceCount device, sy_TotalPIDCount = dn_TotalPIDCount (dh_Processes h),
        sy_AccessiblePIDCount = dn_AccessibleCount (dh_Processes h), sy_AttributionAvailable = dh_ProcessesOK h,
        sy_WriterAvailableCount = vd_Available v,
        sy_TopWriter = (case vd_Writers v of [] \<Rightarrow> None | w # _ \<Rightarrow> Some (DiskWriterSummary.truncate w)),
        sy_Reasons = sample_reasons h hasPrevious valid (windowCovered t points) v \<rparr>)"

type_synonym sample_result = "DiskWriteReport \<times> DiskWriteTransition option \<times> DiskWriteAlert option"

text \<open>An accepted window is added to the baseline of its context and to the models of its writers.\<close>

definition train ::
  "disk_host \<Rightarrow> time \<Rightarrow> disk_verdict \<Rightarrow> DiskWriteObserver \<Rightarrow> DiskWriteStore \<Rightarrow> DiskWriteObserver \<times> DiskWriteStore" where
  "train h t v ob st =
     (if vd_Accepted v
      then recordBaseline h t (vd_Context v) (vd_Window v) (vd_Writers v)
             (ob\<lparr> ob_baselines := (ob_baselines ob)(vd_Context v \<mapsto>
                    histogram_add (vd_Window v) t (baseline_of ob (vd_Context v))) \<rparr>) st
      else (ob, st))"

text \<open>A sample whose device counter could not be read leaves the windows and the counters alone.\<close>

definition sample_unavailable ::
  "disk_host \<Rightarrow> time \<Rightarrow> string \<Rightarrow> DiskWriteObserver \<Rightarrow> DiskWriteStore \<Rightarrow> (DiskWriteObserver \<times> DiskWriteStore) \<times> sample_result" where
  "sample_unavailable h t err ob st =
     (let s = unavailableDiskWriteSummary t ''device_counter_unavailable'';
          s = s\<lparr> sy_Reasons := sy_Reasons s @ [boundedText err 96] @
                   (if \<not> dh_ProcessesOK h then [''process_attribution_unavailable''] else []) \<rparr>;
          report = bare_report s;
          (ob, tr) = diskTransition s ob
      in ((ob\<lparr> ob_lastReport := report \<rparr>, st), (report, tr, None)))"

definition sample_device ::
  "disk_host \<Rightarrow> time \<Rightarrow> diskDeviceCounter \<Rightarrow> DiskWriteObserver \<Rightarrow> DiskWriteStore \<Rightarrow>
     (DiskWriteObserver \<times> DiskWriteStore) \<times> sample_result" where
  "sample_device h t device ob st =
     (let elapsed = time_sub t (ob_previousAt ob); hasPrevious = has_previous ob device;
          valid = valid_window t ob device;
          deviceDelta = device_delta ob device;
          swapDelta = swap_delta valid deviceDelta (dh_Swap h) ob;
          (v, ob) = judge_window h t elapsed valid (take_counters h t device ob);
          (ob, st) = recordHour h t (vd_State v) (vd_P99 v) deviceDelta swapDelta device hasPrevious valid ob st;
          (ob, st) = train h t v ob st;
          s = sample_summary h t elapsed hasPrevious valid deviceDelta device v ob;
          report = limitDiskWriteReport
            \<lparr> rp_Summary = s, rp_Writers = vd_Writers v, rp_AvailableCount = vd_Available v, rp_ReturnedCount = 0,
              rp_Truncated = False \<rparr> diskWriteMaxWriters;
          (ob, tr) = diskTransition s ob;
          (ob, st, al) = alert h s ob st
      in ((ob\<lparr> ob_lastReport := report \<rparr>, st), (report, tr, al)))"

definition Sample ::
  "disk_host \<Rightarrow> time \<Rightarrow> DiskWriteObserver \<Rightarrow> DiskWriteStore \<Rightarrow> (DiskWriteObserver \<times> DiskWriteStore) \<times> sample_result" where
  "Sample h t ob st =
     (let t = (if IsZero t then dh_Now h else t) in
      if \<not> dw_Enabled (ob_policy ob)
      then (let report = bare_report (disabledDiskWriteSummary t False) in
        ((ob\<lparr> ob_lastReport := report \<rparr>, st), (report, None, None)))
      else case dh_Device h of
        Inl err \<Rightarrow> sample_unavailable h t err ob st
      | Inr device \<Rightarrow> sample_device h t device ob st)"


section \<open>Restart\<close>

definition zero_report :: DiskWriteReport where
  "zero_report = bare_report
     ((disabledDiskWriteSummary 0 False)\<lparr> sy_SchemaVersion := 0, sy_ModelVersion := [], sy_State := DiskWriteStateUnset,
        sy_Source := [], sy_DeviceScope := [], sy_AttributionScope := [], sy_Context := [], sy_Reasons := [] \<rparr>)"

definition zero_device :: diskDeviceCounter where
  "zero_device = \<lparr> dd_BytesWritten = 0, dd_DeviceCount = 0, dd_Identity = [], dd_Source = [] \<rparr>"

definition fresh_observer :: "DiskWritePolicy \<Rightarrow> DiskWriteObserver" where
  "fresh_observer policy =
     \<lparr> ob_policy = policy, ob_hasStore = True, ob_allowShort = False, ob_previousDevice = zero_device,
       ob_previousSwap = zero_swap, ob_previousProcesses = (\<lambda>_. None), ob_previousAt = 0, ob_volumePoints = [],
       ob_writerPoints = [], ob_baselines = (\<lambda>_. None), ob_executableModels = [], ob_executableBytes = (\<lambda>_. 0),
       ob_ownership = (\<lambda>_. None), ob_context = ''uncoordinated'', ob_currentHour = None,
       ob_lastReport = zero_report, ob_lastState = DiskWriteStateLearning,
       ob_lastAdaptiveState = DiskWriteStateUnset, ob_burstTrainingUntil = 0, ob_unusualSince = 0, ob_highSince = 0,
       ob_recoverySince = 0, ob_lastTransition = 0, ob_incidentOpen = False, ob_alertDay = [], ob_alertsToday = 0,
       ob_alertStateInvalid = False, ob_dominance = [] \<rparr>"

definition restore_alerts :: "DiskWriteStore \<Rightarrow> DiskWriteObserver \<Rightarrow> DiskWriteObserver" where
  "restore_alerts st ob =
     (case loadAlertState st of
        Inl e \<Rightarrow> ob\<lparr> ob_alertStateInvalid := True \<rparr>
      | Inr None \<Rightarrow> ob
      | Inr (Some a) \<Rightarrow>
          let ob = ob\<lparr> ob_alertDay := as_Day a, ob_alertsToday := as_Alerts a, ob_incidentOpen := as_IncidentOpen a \<rparr>
          in if as_IncidentOpen a then ob\<lparr> ob_lastState := DiskWriteStateHigh \<rparr> else ob)"

text \<open>Records of an older epoch keep their traffic and lose their histograms.\<close>

definition drop_stale :: "diskWriteHistoryRecord \<Rightarrow> diskWriteHistoryRecord" where
  "drop_stale r =
     (if hw_BaselineEpoch r < diskWriteBaselineEpoch then r\<lparr> hw_Contexts := [], hw_Executables := [] \<rparr> else r)"

definition restored_point :: "time \<Rightarrow> 64 word \<Rightarrow> bool \<Rightarrow> diskVolumePoint" where
  "restored_point t bytes gap =
     \<lparr> vp_At = t, vp_Duration = 0, vp_Bytes = bytes, vp_SwapBytes = 0, vp_Scored = False, vp_Gap = gap \<rparr>"

definition restore_context :: "string \<times> diskHistogramRecord \<Rightarrow> DiskWriteObserver \<Rightarrow> DiskWriteObserver" where
  "restore_context c ob =
     ob\<lparr> ob_baselines := (ob_baselines ob)(fst c \<mapsto> histogram_merge (snd c) (baseline_of ob (fst c))) \<rparr>"

definition restore_executable :: "diskExecutableHistory \<Rightarrow> DiskWriteObserver \<Rightarrow> DiskWriteObserver" where
  "restore_executable e ob =
     (let name = eh_Executable e in
      ob\<lparr> ob_executableModels :=
            AList.update name (histogram_merge (eh_Histogram e) (histogram_at (ob_executableModels ob) name))
              (ob_executableModels ob),
          ob_executableBytes :=
            (ob_executableBytes ob)(name := saturatingAddUint64 (ob_executableBytes ob name) (eh_TotalBytes e)) \<rparr>)"

definition restore_record ::
  "diskWriteHistoryRecord \<Rightarrow> DiskWriteObserver \<times> diskWriteHistoryRecord option \<Rightarrow>
     DiskWriteObserver \<times> diskWriteHistoryRecord option" where
  "restore_record r acc =
     (let (ob, newest) = acc;
          r = drop_stale r;
          ob = fold restore_context (hw_Contexts r) ob;
          ob = fold restore_executable (hw_Executables r) ob;
          pointAt = sampled_at r;
          ob = (if hw_BytesWritten r > 0
            then ob\<lparr> ob_volumePoints := ob_volumePoints ob @ [restored_point pointAt (hw_BytesWritten r) False] \<rparr> else ob);
          ob = (if hw_UnscoredGapBytes r > 0
            then ob\<lparr> ob_volumePoints := ob_volumePoints ob @ [restored_point pointAt (hw_UnscoredGapBytes r) True] \<rparr> else ob);
          newest = (if \<not> IsZero (hw_LastSampleAt r) \<and> hw_DeviceIdentity r \<noteq> [] \<and>
              (case newest of None \<Rightarrow> True | Some n \<Rightarrow> hw_LastSampleAt r > hw_LastSampleAt n)
            then Some r else newest)
      in (ob, newest))"

definition resumed_hour :: "diskWriteHistoryRecord \<Rightarrow> diskWriteHistoryRecord" where
  "resumed_hour cp =
     (let source = drop_stale cp in
      source\<lparr> hw_BaselineEpoch := diskWriteBaselineEpoch,
        hw_executableHistograms :=
          fold (\<lambda>e. AList.update (eh_Executable e) (diskHistogramFromRecord (eh_Histogram e)))
            (hw_Executables source) [] \<rparr>)"

definition restore :: "history_env \<Rightarrow> time \<Rightarrow> DiskWriteStore \<Rightarrow> DiskWriteObserver \<Rightarrow> DiskWriteObserver" where
  "restore en now st ob =
     (let ob = restore_alerts st ob in
      if BaselineRetentionDays (ob_policy ob) \<le> 0 then ob
      else case loadRecordsWithCheckpoint en (he_AddDays en now (- BaselineRetentionDays (ob_policy ob))) st of
        Inl e \<Rightarrow> ob
      | Inr (records, checkpoint) \<Rightarrow>
          let (ob, newest) = fold restore_record records (ob, None);
              ob = (case newest of
                  None \<Rightarrow> ob
                | Some n \<Rightarrow> ob\<lparr> ob_previousAt := hw_LastSampleAt n,
                    ob_previousDevice := \<lparr> dd_BytesWritten = hw_DeviceBytes n, dd_DeviceCount = hw_DeviceCount n,
                      dd_Identity = hw_DeviceIdentity n, dd_Source = hw_DeviceSource n \<rparr> \<rparr>);
              ob = (case checkpoint of
                  None \<Rightarrow> ob
                | Some cp \<Rightarrow>
                    let ob = ob\<lparr> ob_currentHour := Some (resumed_hour cp) \<rparr> in
                    if hw_State cp = DiskWriteStateHigh \<or> hw_State cp = DiskWriteStateUnusual
                    then ob\<lparr> ob_lastState := hw_State cp \<rparr> else ob)
          in trimExecutableModels ob)"

definition NewDiskWriteObserver ::
  "history_env \<Rightarrow> time \<Rightarrow> DiskWriteStore \<Rightarrow> DiskWritePolicy \<Rightarrow> DiskWriteObserver" where
  "NewDiskWriteObserver en now st policy = restore en now st (fresh_observer policy)"


section \<open>The resident's run\<close>

text \<open>
  The resident samples on a ticker while the monitor sets the context and the ownership; when it
  stops it checkpoints the running hour, and the next one starts from the files. A crash restarts
  without the checkpoint.
\<close>

datatype disk_event =
    TakeSample disk_host time
  | UseContext string
  | UseOwnership "owned_process list"
  | Stop disk_host
  | Restart history_env time DiskWritePolicy

fun disk_step :: "disk_event \<Rightarrow> DiskWriteObserver \<times> DiskWriteStore \<Rightarrow>
    (DiskWriteObserver \<times> DiskWriteStore) \<times> sample_result option" where
  "disk_step (TakeSample h t) (ob, st) = (let (s, r) = Sample h t ob st in (s, Some r))"
| "disk_step (UseContext name) (ob, st) = ((SetContext name ob, st), None)"
| "disk_step (UseOwnership ps) (ob, st) = ((SetProcessOwnership ps ob, st), None)"
| "disk_step (Stop h) (ob, st) = ((ob, checkpointHour h ob st), None)"
| "disk_step (Restart en now policy) (ob, st) = ((NewDiskWriteObserver en now st policy, st), None)"

fun disk_run :: "disk_event list \<Rightarrow> DiskWriteObserver \<times> DiskWriteStore \<Rightarrow>
    (DiskWriteObserver \<times> DiskWriteStore) \<times> sample_result list" where
  "disk_run [] s = (s, [])"
| "disk_run (x # xs) s =
     (let (s, r) = disk_step x s; (s, rs) = disk_run xs s in
      (s, (case r of None \<Rightarrow> rs | Some r \<Rightarrow> r # rs)))"

text \<open>
  \<^verbatim>\<open>LiveDiskWriteReport\<close> takes two samples with an observer of its own that has no store, so
  neither its training nor its alerts are kept. The caller's context may end between the two.
\<close>

datatype live_error = LiveWindowInvalid | LiveCancelled | LiveCountersUnavailable DiskWriteReport

definition LiveDiskWriteReport ::
  "disk_host \<Rightarrow> disk_host \<Rightarrow> bool \<Rightarrow> DiskWriteStore \<Rightarrow> DiskWritePolicy \<Rightarrow> duration \<Rightarrow> live_error + DiskWriteReport" where
  "LiveDiskWriteReport h h' cancelled st policy window =
     (if window \<le> 0 \<or> window > seconds 5 then Inl LiveWindowInvalid
      else
        let ob = (NewDiskWriteObserver (dh_Files h) (dh_Now h) st policy)\<lparr> ob_allowShort := True, ob_hasStore := False \<rparr>;
            ((ob, st'), r) = Sample h (dh_Now h) ob st
        in if cancelled then Inl LiveCancelled
           else
             let (s, report, tr, al) = Sample h' (dh_Now h') ob st' in
             if sy_State (rp_Summary report) = DiskWriteStateUnavailable then Inl (LiveCountersUnavailable report)
             else Inr report)"

end
