(* ===== verification/Disk_Write.thy ===== *)
theory Disk_Write
  imports Disk_Sample
begin

text \<open>
  What the disk-write observer guarantees: how often it alerts, across restarts and failed writes;
  when it reports a transition; what may train its baseline; what a restart forgets; that its state
  stays bounded and well formed; and that the bytes it reports are those of the device's counter.
\<close>

section \<open>What the parts of a sample leave alone\<close>

definition alert_view :: "DiskWriteObserver \<Rightarrow> bool \<times> bool \<times> string \<times> int \<times> bool \<times> DiskWritePolicy" where
  "alert_view ob =
     (ob_hasStore ob, ob_incidentOpen ob, ob_alertDay ob, ob_alertsToday ob, ob_alertStateInvalid ob, ob_policy ob)"

definition file_view :: "DiskWriteStore \<Rightarrow> string \<times> diskWriteAlertStateRecord stored_file" where
  "file_view st = (st_Dir st, st_Alert st)"

named_theorems disk_frame \<open>the parts of the observer and of its files that an operation leaves alone\<close>

lemma alert_view_updates [disk_frame]:
  "alert_view (ob\<lparr> ob_previousSwap := x1 \<rparr>) = alert_view ob"
  "alert_view (ob\<lparr> ob_volumePoints := x2 \<rparr>) = alert_view ob"
  "alert_view (ob\<lparr> ob_writerPoints := x3 \<rparr>) = alert_view ob"
  "alert_view (ob\<lparr> ob_previousAt := x4 \<rparr>) = alert_view ob"
  "alert_view (ob\<lparr> ob_previousDevice := x5 \<rparr>) = alert_view ob"
  "alert_view (ob\<lparr> ob_previousProcesses := x6 \<rparr>) = alert_view ob"
  "alert_view (ob\<lparr> ob_baselines := x7 \<rparr>) = alert_view ob"
  "alert_view (ob\<lparr> ob_executableModels := x8 \<rparr>) = alert_view ob"
  "alert_view (ob\<lparr> ob_executableBytes := x9 \<rparr>) = alert_view ob"
  "alert_view (ob\<lparr> ob_currentHour := x10 \<rparr>) = alert_view ob"
  "alert_view (ob\<lparr> ob_lastReport := x11 \<rparr>) = alert_view ob"
  "alert_view (ob\<lparr> ob_lastState := x12 \<rparr>) = alert_view ob"
  "alert_view (ob\<lparr> ob_lastAdaptiveState := x13 \<rparr>) = alert_view ob"
  "alert_view (ob\<lparr> ob_burstTrainingUntil := x14 \<rparr>) = alert_view ob"
  "alert_view (ob\<lparr> ob_unusualSince := x15 \<rparr>) = alert_view ob"
  "alert_view (ob\<lparr> ob_highSince := x16 \<rparr>) = alert_view ob"
  "alert_view (ob\<lparr> ob_recoverySince := x17 \<rparr>) = alert_view ob"
  "alert_view (ob\<lparr> ob_lastTransition := x18 \<rparr>) = alert_view ob"
  "alert_view (ob\<lparr> ob_dominance := x19 \<rparr>) = alert_view ob"
  "alert_view (ob\<lparr> ob_context := x20 \<rparr>) = alert_view ob"
  "alert_view (ob\<lparr> ob_ownership := x21 \<rparr>) = alert_view ob"
  by (simp_all add: alert_view_def)

lemma alert_view_take_counters [disk_frame]: "alert_view (take_counters h t device ob) = alert_view ob"
  by (simp add: take_counters_def Let_def prunePoints_def disk_frame split: prod.splits)

lemma alert_view_classify [disk_frame]: "classify t c r p ws wt ob = (s, a, ob') \<Longrightarrow> alert_view ob' = alert_view ob"
  by (auto simp: classify_def Let_def disk_frame simp del: if_split split: if_split_asm)

lemma alert_view_judge [disk_frame]: "alert_view (snd (judge_window h t e v ob)) = alert_view ob"
proof -
  obtain ws wt n where w: "aggregateWriters (dh_IsAgentExecutable h) e ob = (ws, wt, n)" by (metis prod.exhaust)
  let ?h = "baseline_of ob (context_name ob)"
  define ob1 where "ob1 = ob\<lparr> ob_baselines := (ob_baselines ob)(context_name ob \<mapsto> ?h), ob_lastState := ob_lastAdaptiveState ob \<rparr>"
  define w15 where "w15 = windowBytes (t - diskWriteWindow) True (ob_volumePoints ob)"
  define ratio where "ratio = (if p99 ?h > 0 then rat_of_int (uint w15) / rat_of_int (uint (p99 ?h)) else 0)"
  obtain s a ob2 where c: "classify t (diskWriteConfidenceFor ?h t) ratio (p99 ?h) ws wt ob1 = (s, a, ob2)"
    by (metis prod.exhaust)
  have "alert_view ob2 = alert_view ob1" using c by (rule alert_view_classify)
  then show ?thesis
    using w c unfolding judge_window_def Let_def w15_def [symmetric] ratio_def [symmetric]
    by (simp add: ob1_def disk_frame)
qed

lemma alert_view_update_hour [disk_frame]: "alert_view (update_hour f ob) = alert_view ob"
  by (simp add: update_hour_def disk_frame)

lemma file_view_parts [disk_frame]:
  "file_view (fst (appendRecord en out r st)) = file_view st"
  "file_view (fst (writeCheckpoint en wrote r st)) = file_view st"
  "file_view (fst (removeCheckpoint removed st)) = file_view st"
  "file_view (fst (PruneDiskWrites en removes now days st)) = file_view st"
  by (simp_all add: appendRecord_def writeCheckpoint_def removeCheckpoint_def PruneDiskWrites_def file_view_def Let_def
      split: sum.splits append_outcome.splits prod.splits)

lemma alert_view_flushHour [disk_frame]:
  "alert_view (fst (flushHour h ob st)) = alert_view ob" "file_view (snd (flushHour h ob st)) = file_view st"
proof -
  obtain st' e where a: "appendRecord (dh_Files h) (dh_Append h) (the (currentHourRecord (ob_currentHour ob))) st = (st', e)"
    by (cases "appendRecord (dh_Files h) (dh_Append h) (the (currentHourRecord (ob_currentHour ob))) st")
  then have "file_view st' = file_view st" using disk_frame(23) by (metis fst_conv file_view_parts(1))
  with a show "alert_view (fst (flushHour h ob st)) = alert_view ob" "file_view (snd (flushHour h ob st)) = file_view st"
    by (auto simp: flushHour_def Let_def disk_frame split: option.splits prod.splits)
qed

lemma alert_view_ensure [disk_frame]:
  "alert_view (fst (ensureCurrentHour h t ob st)) = alert_view ob"
  "file_view (snd (ensureCurrentHour h t ob st)) = file_view st"
  by (simp_all add: ensureCurrentHour_def Let_def disk_frame case_prod_beta split: option.splits)

lemma alert_view_recordHour [disk_frame]:
  "alert_view (fst (recordHour h t s p d w dev hp v ob st)) = alert_view ob"
  "file_view (snd (recordHour h t s p d w dev hp v ob st)) = file_view st"
  by (simp_all add: recordHour_def disk_frame case_prod_beta)

lemma alert_view_record_writers [disk_frame]: "alert_view (fold (record_writer t) ws ob) = alert_view ob"
  by (induction ws arbitrary: ob) (simp_all add: record_writer_def Let_def disk_frame)

lemma alert_view_trim [disk_frame]: "alert_view (trimExecutableModels ob) = alert_view ob"
  by (simp add: trimExecutableModels_def Let_def disk_frame)

lemma alert_view_recordBaseline [disk_frame]:
  "alert_view (fst (recordBaseline h t c v ws ob st)) = alert_view ob"
  "file_view (snd (recordBaseline h t c v ws ob st)) = file_view st"
  by (simp_all add: recordBaseline_def Let_def disk_frame case_prod_beta)

lemma alert_view_transition [disk_frame]: "alert_view (fst (diskTransition s ob)) = alert_view ob"
  by (simp add: diskTransition_def Let_def disk_frame)

lemma alert_view_train [disk_frame]:
  "alert_view (fst (train h t v ob st)) = alert_view ob" "file_view (snd (train h t v ob st)) = file_view st"
  by (simp_all add: train_def disk_frame)

text \<open>The intermediate states of a sample of the device.\<close>

lemma sample_device_parts:
  assumes "sample_device h t device ob st = ((ob', st'), (report, tr, al))"
  obtains v ob1 ob2 st2 ob3 st3 ob4 ob5 where
    "judge_window h t (time_sub t (ob_previousAt ob)) (valid_window t ob device) (take_counters h t device ob) = (v, ob1)"
    "recordHour h t (vd_State v) (vd_P99 v) (device_delta ob device)
       (swap_delta (valid_window t ob device) (device_delta ob device) (dh_Swap h) ob) device
       (has_previous ob device) (valid_window t ob device) ob1 st = (ob2, st2)"
    "train h t v ob2 st2 = (ob3, st3)"
    "report = limitDiskWriteReport
       \<lparr> rp_Summary = sample_summary h t (time_sub t (ob_previousAt ob)) (has_previous ob device)
           (valid_window t ob device) (device_delta ob device) device v ob3,
         rp_Writers = vd_Writers v, rp_AvailableCount = vd_Available v, rp_ReturnedCount = 0, rp_Truncated = False \<rparr>
       diskWriteMaxWriters"
    "diskTransition (rp_Summary report) ob3 = (ob4, tr)" "alert h (rp_Summary report) ob4 st3 = (ob5, st', al)"
    "ob' = ob5\<lparr> ob_lastReport := report \<rparr>"
proof -
  let ?valid = "valid_window t ob device" and ?delta = "device_delta ob device" and ?e = "time_sub t (ob_previousAt ob)"
  obtain v ob1 where j: "judge_window h t ?e ?valid (take_counters h t device ob) = (v, ob1)"
    by (metis prod.exhaust)
  obtain ob2 st2 where r: "recordHour h t (vd_State v) (vd_P99 v) ?delta (swap_delta ?valid ?delta (dh_Swap h) ob) device
      (has_previous ob device) ?valid ob1 st = (ob2, st2)" by (metis prod.exhaust)
  obtain ob3 st3 where b: "train h t v ob2 st2 = (ob3, st3)" by (metis prod.exhaust)
  define s where "s = sample_summary h t ?e (has_previous ob device) ?valid ?delta device v ob3"
  define rep where "rep = limitDiskWriteReport
       \<lparr> rp_Summary = s, rp_Writers = vd_Writers v, rp_AvailableCount = vd_Available v, rp_ReturnedCount = 0,
         rp_Truncated = False \<rparr> diskWriteMaxWriters"
  obtain ob4 tr' where x: "diskTransition s ob3 = (ob4, tr')" by (metis prod.exhaust)
  obtain ob5 st5 al' where a: "alert h s ob4 st3 = (ob5, st5, al')" by (metis prod.exhaust)
  have "sample_device h t device ob st = ((ob5\<lparr> ob_lastReport := rep \<rparr>, st5), (rep, tr', al'))"
    using j r b x a unfolding sample_device_def Let_def s_def rep_def by simp
  then have eq: "ob' = ob5\<lparr> ob_lastReport := report \<rparr>" "st' = st5" "report = rep" "tr = tr'" "al = al'"
    using assms by simp_all
  have "rp_Summary report = s" by (simp add: eq(3) rep_def limitDiskWriteReport_def Let_def)
  then show ?thesis
    using that [OF j r b] x a eq by (simp add: rep_def s_def)
qed

text \<open>A sample of the device decides its alert on the alert state that it started with.\<close>

lemma sample_device_alert:
  assumes "sample_device h t device ob st = ((ob', st'), (report, tr, al))"
  obtains ob1 st1 ob2 where "alert_view ob1 = alert_view ob" "file_view st1 = file_view st"
    "alert h (rp_Summary report) ob1 st1 = (ob2, st', al)" "alert_view ob' = alert_view ob2"
    "sy_CapturedAt (rp_Summary report) = t"
proof -
  from assms obtain v ob1 ob2 st2 ob3 st3 ob4 ob5 where p:
    "judge_window h t (time_sub t (ob_previousAt ob)) (valid_window t ob device) (take_counters h t device ob) = (v, ob1)"
    "recordHour h t (vd_State v) (vd_P99 v) (device_delta ob device)
       (swap_delta (valid_window t ob device) (device_delta ob device) (dh_Swap h) ob) device
       (has_previous ob device) (valid_window t ob device) ob1 st = (ob2, st2)"
    "train h t v ob2 st2 = (ob3, st3)"
    "report = limitDiskWriteReport
       \<lparr> rp_Summary = sample_summary h t (time_sub t (ob_previousAt ob)) (has_previous ob device)
           (valid_window t ob device) (device_delta ob device) device v ob3,
         rp_Writers = vd_Writers v, rp_AvailableCount = vd_Available v, rp_ReturnedCount = 0, rp_Truncated = False \<rparr>
       diskWriteMaxWriters"
    "diskTransition (rp_Summary report) ob3 = (ob4, tr)" "alert h (rp_Summary report) ob4 st3 = (ob5, st', al)"
    "ob' = ob5\<lparr> ob_lastReport := report \<rparr>"
    by (rule sample_device_parts)
  have "alert_view ob1 = alert_view ob" using p(1) alert_view_judge alert_view_take_counters by (metis snd_conv)
  moreover have "alert_view ob2 = alert_view ob1" "file_view st2 = file_view st"
    using p(2) alert_view_recordHour by (metis fst_conv, metis snd_conv)
  moreover have "alert_view ob3 = alert_view ob2" "file_view st3 = file_view st2"
    using p(3) alert_view_train by (metis fst_conv, metis snd_conv)
  moreover have "alert_view ob4 = alert_view ob3" using p(5) alert_view_transition by (metis fst_conv)
  ultimately have "alert_view ob4 = alert_view ob" "file_view st3 = file_view st" by simp_all
  moreover have "sy_CapturedAt (rp_Summary report) = t"
    by (simp add: p(4) limitDiskWriteReport_def sample_summary_def Let_def)
  ultimately show ?thesis using that [of ob4 st3 ob5] p(6,7) by (simp add: disk_frame)
qed


section \<open>Alerts\<close>

text \<open>
  The abstract view of a day's alerts: at most four, and none while the incident of the last one is
  open. A sample that sees normal writes, or a measured learning window, closes it.
\<close>

fun alerts_paced :: "nat \<Rightarrow> bool \<Rightarrow> sample_result list \<Rightarrow> bool" where
  "alerts_paced k incident [] = (k \<le> 4)"
| "alerts_paced k incident ((report, tr, al) # rs) =
     (case al of
        Some a \<Rightarrow> \<not> incident \<and> k < 4 \<and> alerts_paced (Suc k) True rs
      | None \<Rightarrow> alerts_paced k (incident \<and> \<not> closes_incident (rp_Summary report)) rs)"

definition day_count :: "string \<Rightarrow> string \<Rightarrow> int \<Rightarrow> int" where
  "day_count d day n = (if day = d then n else 0)"

definition memory_paced :: "string \<Rightarrow> nat \<Rightarrow> bool \<Rightarrow> DiskWriteObserver \<Rightarrow> bool" where
  "memory_paced d k incident ob \<longleftrightarrow>
     ob_hasStore ob \<and>
     (ob_alertStateInvalid ob \<or>
      int k \<le> day_count d (ob_alertDay ob) (ob_alertsToday ob) \<and> (incident \<longrightarrow> ob_incidentOpen ob))"

definition file_paced :: "string \<Rightarrow> nat \<Rightarrow> bool \<Rightarrow> DiskWriteStore \<Rightarrow> bool" where
  "file_paced d k incident st \<longleftrightarrow>
     \<not> no_dir st \<and>
     (case loadAlertState st of
        Inl e \<Rightarrow> True
      | Inr None \<Rightarrow> k = 0 \<and> \<not> incident
      | Inr (Some a) \<Rightarrow> int k \<le> day_count d (as_Day a) (as_Alerts a) \<and> (incident \<longrightarrow> as_IncidentOpen a))"

lemma memory_paced_cong: "alert_view a = alert_view b \<Longrightarrow> memory_paced d k i a = memory_paced d k i b"
  by (simp add: alert_view_def memory_paced_def)

lemma file_paced_cong: "file_view a = file_view b \<Longrightarrow> file_paced d k i a = file_paced d k i b"
  by (simp add: file_view_def file_paced_def no_dir_def loadAlertState_def)

lemma file_paced_weaken: "file_paced d k i st \<Longrightarrow> (j \<longrightarrow> i) \<Longrightarrow> file_paced d k j st"
  by (auto simp: file_paced_def split: sum.splits option.splits)

lemma memory_paced_weaken: "memory_paced d k i ob \<Longrightarrow> (j \<longrightarrow> i) \<Longrightarrow> memory_paced d k j ob"
  by (auto simp: memory_paced_def)

lemma saveAlertStateLocked_cases:
  assumes "saveAlertStateLocked h d n i t ob st = (st', ok)" and "ob_hasStore ob" and "\<not> no_dir st"
  obtains (saved) u where "ok" "st' = st\<lparr> st_Alert := FileBody 0 (Some
        \<lparr> as_SchemaVersion = 1, as_ModelVersion = diskWriteModelVersion, as_Day = d, as_Alerts = n,
          as_IncidentOpen = i, as_UpdatedAt = u \<rparr>) \<rparr>"
    | (failed) "\<not> ok" "st' = st"
proof (cases ok)
  case True
  show ?thesis
    by (rule saved [of "if IsZero t then dh_Now h else t"])
      (use assms True in \<open>auto simp: saveAlertStateLocked_def saveAlertState_def Let_def split: if_splits\<close>)
next
  case False
  then show ?thesis
    by (intro failed) (use assms in \<open>auto simp: saveAlertStateLocked_def saveAlertState_def Let_def split: if_splits\<close>)
qed

lemma save_paced:
  assumes "saveAlertStateLocked h d n i t ob st = (st', ok)" and "ob_hasStore ob" and "file_paced d k j st"
    and "int k' \<le> n" and "j' \<longrightarrow> i" and "\<not> ok \<Longrightarrow> k' = k \<and> (j' \<longrightarrow> j)"
  shows "file_paced d k' j' st'"
proof -
  have dir: "\<not> no_dir st" using assms(3) by (simp add: file_paced_def)
  from assms(1,2) dir show ?thesis
  proof (cases rule: saveAlertStateLocked_cases)
    case (saved u)
    with dir assms(4,5) show ?thesis
      by (simp add: file_paced_def no_dir_def loadAlertState_def day_count_def)
  next
    case failed
    with assms(3,6) show ?thesis using file_paced_weaken [of d k j st j'] by simp
  qed
qed

text \<open>One decision about an alert, against the abstract view.\<close>

lemma alert_paced:
  assumes "alert h s ob st = (ob', st', al)" and "he_LocalDay (dh_Files h) (sy_CapturedAt s) = d"
    and "memory_paced d k i ob" and "file_paced d k i st"
  shows "case al of
      Some a \<Rightarrow> \<not> i \<and> k < 4 \<and> memory_paced d (Suc k) True ob' \<and> file_paced d (Suc k) True st'
    | None \<Rightarrow> memory_paced d k (i \<and> \<not> closes_incident s) ob' \<and> file_paced d k (i \<and> \<not> closes_incident s) st'"
proof (cases "ob_alertStateInvalid ob")
  case True
  with assms show ?thesis
    using file_paced_weaken [of d k i st "i \<and> \<not> closes_incident s"]
    by (auto simp: alert_def memory_paced_def)
next
  case False
  have store: "ob_hasStore ob" using assms(3) by (simp add: memory_paced_def)
  obtain st1 ok where day: "saveAlertStateLocked h d 0 (ob_incidentOpen ob) (sy_CapturedAt s) ob st = (st1, ok)"
    by (metis prod.exhaust)
  define ob2 where "ob2 = (if d \<noteq> ob_alertDay ob \<and> ok
    then ob\<lparr> ob_alertDay := d, ob_alertsToday := 0, ob_alertStateInvalid := False \<rparr> else ob)"
  define st2 where "st2 = (if d \<noteq> ob_alertDay ob then st1 else st)"
  have m2: "memory_paced d k i ob2" using assms(3) False by (auto simp: ob2_def memory_paced_def day_count_def)
  have f2: "file_paced d k i st2"
  proof (cases "d \<noteq> ob_alertDay ob")
    case True
    with assms(3) False have "k = 0" "i \<longrightarrow> ob_incidentOpen ob" by (auto simp: memory_paced_def day_count_def)
    then show ?thesis using save_paced [OF day store assms(4), of k i] True by (simp add: st2_def)
  qed (use assms(4) in \<open>simp add: st2_def\<close>)
  have ob2: "ob_hasStore ob2" "\<not> ob_alertStateInvalid ob2" using store False by (simp_all add: ob2_def)
  show ?thesis
  proof (cases "d = ob_alertDay ob \<or> ok")
    case no: False
    then have "al = None" "ob' = ob2" "st' = st2"
      using assms(1,2) False day by (auto simp: alert_def ob2_def st2_def)
    then show ?thesis
      using memory_paced_weaken [OF m2] file_paced_weaken [OF f2] by simp
  next
    case True
    then have "ob_alertDay ob2 = d" by (auto simp: ob2_def)
    with m2 ob2 have bounds: "int k \<le> ob_alertsToday ob2" "i \<longrightarrow> ob_incidentOpen ob2"
      by (auto simp: memory_paced_def day_count_def)
    obtain stc okc where close: "saveAlertStateLocked h d (ob_alertsToday ob2) False (sy_CapturedAt s) ob2 st2 = (stc, okc)"
      by (metis prod.exhaust)
    obtain sto oko where raise: "saveAlertStateLocked h d (ob_alertsToday ob2 + 1) True (sy_CapturedAt s) ob2 st2 = (sto, oko)"
      by (metis prod.exhaust)
    have run: "(ob', st', al) =
        (if sy_State s \<noteq> DiskWriteStateHigh
         then (if closes_incident s \<and> ob_incidentOpen ob2
               then (if okc then (ob2\<lparr> ob_incidentOpen := False \<rparr>, stc, None) else (ob2, stc, None)) else (ob2, st2, None))
         else if \<not> NotificationsEnabled (ob_policy ob2) \<or> ob_incidentOpen ob2 \<or>
                 ob_alertsToday ob2 \<ge> diskWriteAlertLimitPerDay
         then (ob2, st2, None)
         else if oko then (ob2\<lparr> ob_incidentOpen := True, ob_alertsToday := ob_alertsToday ob2 + 1 \<rparr>, sto, Some (alert_of s))
         else (ob2, sto, None))"
      using assms(1,2) False True day close raise \<open>ob_alertDay ob2 = d\<close>
      by (auto simp: alert_def Let_def ob2_def st2_def split: if_splits)
    have kept: "memory_paced d k (i \<and> \<not> closes_incident s) ob2" "file_paced d k (i \<and> \<not> closes_incident s) st2"
      using memory_paced_weaken [OF m2] file_paced_weaken [OF f2] by simp_all
    have closed: "file_paced d k (i \<and> \<not> closes_incident s) stc" if "closes_incident s"
      using save_paced [OF close ob2(1) f2, of k "i \<and> \<not> closes_incident s"] bounds(1) that by simp
    have raised: "file_paced d (Suc k) True sto" if oko
      using save_paced [OF raise ob2(1) f2, of "Suc k" True] bounds(1) that by simp
    have unraised: "file_paced d k (i \<and> \<not> closes_incident s) sto" if "\<not> oko"
      using save_paced [OF raise ob2(1) f2, of k "i \<and> \<not> closes_incident s"] bounds(1) that by simp
    have d2: "ob_alertDay ob2 = d" by fact
    show ?thesis
      using run kept closed raised unraised bounds d2 ob2
      by (cases oko; cases okc)
        (auto simp: memory_paced_def day_count_def diskWriteAlertLimitPerDay_def split: if_splits)
  qed
qed

lemma fold_frame:
  assumes "\<And>x a. g (f x a) = g a"
  shows "g (fold f xs a) = g a"
  by (induction xs arbitrary: a) (simp_all add: assms)

lemma fold_invariant:
  assumes "\<And>x a. P a \<Longrightarrow> P (f x a)" and "P a"
  shows "P (fold f xs a)"
  using assms(2) by (induction xs arbitrary: a) (simp_all add: assms(1))

lemma alert_view_restore_record [disk_frame]: "alert_view (fst (restore_record r acc)) = alert_view (fst acc)"
proof -
  have contexts: "alert_view (fold restore_context cs ob) = alert_view ob" for cs ob
    by (rule fold_frame) (simp add: restore_context_def disk_frame)
  moreover have "alert_view (fold restore_executable es ob) = alert_view ob" for es ob
    by (rule fold_frame) (simp add: restore_executable_def Let_def disk_frame)
  ultimately show ?thesis by (simp add: restore_record_def Let_def case_prod_beta disk_frame)
qed

lemma alert_view_restore [disk_frame]: "alert_view (restore en now st ob) = alert_view (restore_alerts st ob)"
proof -
  have "alert_view (fst (fold restore_record rs (ob, None))) = alert_view ob" for rs and ob :: DiskWriteObserver
    using fold_frame [of "\<lambda>a. alert_view (fst a)" restore_record rs "(ob, None)"]
    by (simp add: disk_frame)
  then show ?thesis
    by (simp add: restore_def Let_def case_prod_beta disk_frame split: sum.splits option.splits)
qed

lemma restored_paced:
  assumes "file_paced d k i st"
  shows "memory_paced d k i (NewDiskWriteObserver en now st policy)"
proof -
  have "memory_paced d k i (restore_alerts st (fresh_observer policy))"
    using assms
    by (auto simp: memory_paced_def file_paced_def restore_alerts_def fresh_observer_def day_count_def Let_def
        split: sum.splits option.splits)
  then show ?thesis
    using memory_paced_cong [OF alert_view_restore] by (simp add: NewDiskWriteObserver_def)
qed

text \<open>The instant a sample is taken at: an unset one reads the clock.\<close>

definition sampled_time :: "disk_host \<Rightarrow> time \<Rightarrow> time" where
  "sampled_time h t = (if IsZero t then dh_Now h else t)"

lemma Sample_paced:
  assumes "Sample h t ob st = ((ob', st'), (report, tr, al))" and "he_LocalDay (dh_Files h) (sampled_time h t) = d"
    and "memory_paced d k i ob" and "file_paced d k i st"
  shows "case al of
      Some a \<Rightarrow> \<not> i \<and> k < 4 \<and> memory_paced d (Suc k) True ob' \<and> file_paced d (Suc k) True st'
    | None \<Rightarrow> memory_paced d k (i \<and> \<not> closes_incident (rp_Summary report)) ob' \<and>
        file_paced d k (i \<and> \<not> closes_incident (rp_Summary report)) st'"
proof -
  have quiet: ?thesis if "al = None" "alert_view ob' = alert_view ob" "st' = st"
    using that assms(3,4) memory_paced_weaken file_paced_weaken
    by (simp add: memory_paced_cong [OF that(2)])
  show ?thesis
  proof (cases "dw_Enabled (ob_policy ob)")
    case False
    with assms(1) show ?thesis by (intro quiet) (auto simp: Sample_def Let_def disk_frame)
  next
    case True
    show ?thesis
    proof (cases "dh_Device h")
      case (Inl err)
      with True assms(1) have "sample_unavailable h (sampled_time h t) err ob st = ((ob', st'), (report, tr, al))"
        by (simp add: Sample_def Let_def sampled_time_def)
      then show ?thesis
        by (intro quiet) (auto simp: sample_unavailable_def Let_def disk_frame case_prod_beta)
    next
      case (Inr device)
      with True assms(1) have "sample_device h (sampled_time h t) device ob st = ((ob', st'), (report, tr, al))"
        by (simp add: Sample_def Let_def sampled_time_def)
      then obtain ob1 st1 ob2 where f: "alert_view ob1 = alert_view ob" "file_view st1 = file_view st"
        "alert h (rp_Summary report) ob1 st1 = (ob2, st', al)" "alert_view ob' = alert_view ob2"
        "sy_CapturedAt (rp_Summary report) = sampled_time h t"
        by (rule sample_device_alert)
      have "memory_paced d k i ob1" "file_paced d k i st1"
        using assms(3,4) memory_paced_cong [OF f(1)] file_paced_cong [OF f(2)] by simp_all
      from alert_paced [OF f(3) _ this] assms(2) f(5) show ?thesis
        by (cases al) (simp_all add: memory_paced_cong [OF f(4)])
    qed
  qed
qed

definition step_on_day :: "string \<Rightarrow> disk_event \<Rightarrow> bool" where
  "step_on_day d e \<longleftrightarrow> (case e of TakeSample h t \<Rightarrow> he_LocalDay (dh_Files h) (sampled_time h t) = d | _ \<Rightarrow> True)"

lemma quiet_steps [disk_frame]:
  "alert_view (SetContext name ob) = alert_view ob" "alert_view (SetProcessOwnership ps ob) = alert_view ob"
  "file_view (checkpointHour h ob st) = file_view st"
  by (auto simp: SetContext_def SetProcessOwnership_def checkpointHour_def Let_def disk_frame split: option.splits)

lemma run_paced:
  "list_all (step_on_day d) events \<Longrightarrow> memory_paced d k i ob \<Longrightarrow> file_paced d k i st \<Longrightarrow> k \<le> 4 \<Longrightarrow>
     alerts_paced k i (snd (disk_run events (ob, st)))"
proof (induction events arbitrary: k i ob st)
  case (Cons e events)
  show ?case
  proof (cases e)
    case (TakeSample h t)
    obtain ob' st' report tr al where s: "Sample h t ob st = ((ob', st'), (report, tr, al))" by (metis prod.exhaust)
    have "he_LocalDay (dh_Files h) (sampled_time h t) = d" using Cons.prems(1) TakeSample by (simp add: step_on_day_def)
    from Sample_paced [OF s this Cons.prems(2,3)] TakeSample s Cons.IH [of _ _ ob' st'] Cons.prems(1,4)
    show ?thesis by (cases al) (auto simp: case_prod_beta)
  next
    case (UseContext name)
    with Cons show ?thesis by (simp add: case_prod_beta memory_paced_cong [OF quiet_steps(1)])
  next
    case (UseOwnership ps)
    with Cons show ?thesis by (simp add: case_prod_beta memory_paced_cong [OF quiet_steps(2)])
  next
    case (Stop h)
    with Cons show ?thesis by (simp add: case_prod_beta file_paced_cong [OF quiet_steps(3)])
  next
    case (Restart en now policy)
    with Cons restored_paced [OF Cons.prems(3)] show ?thesis by (simp add: case_prod_beta)
  qed
qed simp

lemma loaded_alerts: "loadAlertState st = Inr (Some a) \<Longrightarrow> 0 \<le> as_Alerts a \<and> as_Alerts a \<le> 4"
  by (auto simp: loadAlertState_def diskWriteAlertLimitPerDay_def split: if_splits stored_file.splits option.splits)

text \<open>A host of the witnesses: one disk, every write succeeds, and all samples are of one local day.\<close>

definition plain_files :: history_env where
  "plain_files =
     \<lparr> he_LocalDay = (\<lambda>_. ''20260101''), he_ParseDay = (\<lambda>_. None), he_DayStart = (\<lambda>t. t),
       he_AddDays = (\<lambda>t n. t + n * hours 24), he_Size = (\<lambda>r. Some (200 + 100 * length (hw_Executables r))),
       he_SortByHour = sort_key hw_Hour \<rparr>"

definition plain_host :: "64 word \<Rightarrow> disk_host" where
  "plain_host bytes =
     \<lparr> dh_Files = plain_files, dh_Now = 1,
       dh_Device = Inr \<lparr> dd_BytesWritten = bytes, dd_DeviceCount = 1, dd_Identity = ''disk0'', dd_Source = ''iokit'' \<rparr>,
       dh_ProcessesOK = True,
       dh_Processes = \<lparr> dn_Counters = [], dn_TotalPIDCount = 0, dn_AccessibleCount = 0 \<rparr>, dh_Swap = None,
       dh_IsAgentExecutable = (\<lambda>_. False), dh_SavesAlert = (\<lambda>_. True), dh_Append = Appended,
       dh_WritesCheckpoint = True, dh_RemovesCheckpoint = True, dh_RemovesShard = (\<lambda>_. True) \<rparr>"

definition plain_policy :: DiskWritePolicy where
  "plain_policy =
     \<lparr> dw_Enabled = True, NotificationsEnabled = True, dw_SampleIntervalSeconds = 15, BaselineRetentionDays = 14,
       dw_Profile = diskWriteModelVersion, TraceMaxDurationSeconds = 15 \<rparr>"

definition plain_store :: DiskWriteStore where
  "plain_store = \<lparr> st_Dir = ''state'', st_Alert = FileMissing, st_Checkpoint = FileMissing, st_Shards = [] \<rparr>"

text \<open>
  Claim C23. Alerts are paced across restarts and failed writes. On one local day the observer raises at
  most four alerts, and between two of them there is a sample that closed the incident of the first,
  whatever the samples read, whichever of its writes fail, and however often the resident stops,
  crashes and restarts from its files.
\<close>

theorem disk_alerts_paced:
  assumes "list_all (step_on_day d) events" and "ob_hasStore ob" and "0 \<le> ob_alertsToday ob" and "\<not> no_dir st"
  shows "alerts_paced 0 False (snd (disk_run events (ob, st)))"
proof (rule run_paced [OF assms(1)])
  show "memory_paced d 0 False ob" using assms(2,3) by (simp add: memory_paced_def day_count_def)
  show "file_paced d 0 False st"
    using assms(4) loaded_alerts [of st] by (auto simp: file_paced_def day_count_def split: sum.splits option.splits)
qed simp


section \<open>Verdicts\<close>

lemma classify_outcome:
  assumes "classify t c r p ws wt ob = (s, a, ob')"
  shows "s \<in> {DiskWriteStateLearning, DiskWriteStateNormal, DiskWriteStateUnusual, DiskWriteStateHigh}"
    and "a \<Longrightarrow> \<not> anomalous s \<and> (c = DiskWriteConfidenceLearning \<or> p = 0 \<or> r < diskWriteUnusualRatio \<and> \<not> anomalous (ob_lastState ob))"
    and "\<exists>u g r' d. ob' = ob\<lparr> ob_highSince := u, ob_unusualSince := g, ob_dominance := d, ob_recoverySince := r' \<rparr> \<and>
      (d = ob_dominance ob \<or> (\<exists>name. d = push_dominance name (ob_dominance ob)))"
proof -
  consider "c = DiskWriteConfidenceLearning \<or> p = 0" | "\<not> (c = DiskWriteConfidenceLearning \<or> p = 0)" by blast
  then have "s \<in> {DiskWriteStateLearning, DiskWriteStateNormal, DiskWriteStateUnusual, DiskWriteStateHigh} \<and>
    (a \<longrightarrow> \<not> anomalous s \<and> (c = DiskWriteConfidenceLearning \<or> p = 0 \<or> r < diskWriteUnusualRatio \<and> \<not> anomalous (ob_lastState ob))) \<and>
    (\<exists>u g r' d. ob' = ob\<lparr> ob_highSince := u, ob_unusualSince := g, ob_dominance := d, ob_recoverySince := r' \<rparr> \<and>
      (d = ob_dominance ob \<or> (\<exists>name. d = push_dominance name (ob_dominance ob))))"
  proof cases
    case 1
    then have s: "s = DiskWriteStateLearning"
      and e: "ob' = ob\<lparr> ob_unusualSince := 0, ob_highSince := 0, ob_recoverySince := 0 \<rparr>"
      using assms by (simp_all add: classify_def)
    have "ob' = ob\<lparr> ob_highSince := 0, ob_unusualSince := 0, ob_dominance := ob_dominance ob, ob_recoverySince := 0 \<rparr>"
      unfolding e by (cases ob) simp
    with s 1 show ?thesis unfolding anomalous_def by blast
  next
    case 2
    define high where "high = since_when (r \<ge> diskWriteHighRatio) t (ob_highSince ob)"
    define unusual where "unusual = since_when (r \<ge> diskWriteUnusualRatio) t (ob_unusualSince ob)"
    define dom where "dom = push_dominance (dominant_writer ws wt) (ob_dominance ob)"
    define det where "det = detected_state c (lasted t high diskWriteHighDuration)
      (lasted t unusual diskWriteUnusualDuration) (dominance_consistent (dominant_writer ws wt) dom)"
    define rec where "rec = (if anomalous (ob_lastState ob)
              then since_when (r < diskWriteRecoveryRatio) t (ob_recoverySince ob) else ob_recoverySince ob)"
    have s: "s = (if anomalous (ob_lastState ob) \<and> \<not> lasted t rec diskWriteRecoveryDuration then ob_lastState ob else det)"
      and a: "a = (if anomalous s \<or> anomalous (ob_lastState ob) then False else r < diskWriteUnusualRatio)"
      and o: "ob' = ob\<lparr> ob_highSince := high, ob_unusualSince := unusual, ob_dominance := dom, ob_recoverySince := rec \<rparr>"
      using assms 2 unfolding classify_def Let_def high_def [symmetric] unusual_def [symmetric] dom_def [symmetric]
        det_def [symmetric] rec_def [symmetric] by auto
    have "det \<in> {DiskWriteStateNormal, DiskWriteStateUnusual, DiskWriteStateHigh}"
      by (simp add: det_def detected_state_def)
    then have "s \<in> {DiskWriteStateLearning, DiskWriteStateNormal, DiskWriteStateUnusual, DiskWriteStateHigh}"
      using s by (simp add: anomalous_def) metis
    moreover have "a \<longrightarrow> \<not> anomalous s \<and> r < diskWriteUnusualRatio \<and> \<not> anomalous (ob_lastState ob)"
      using a by metis
    moreover have "\<exists>u g r' d. ob' = ob\<lparr> ob_highSince := u, ob_unusualSince := g, ob_dominance := d, ob_recoverySince := r' \<rparr> \<and>
      (d = ob_dominance ob \<or> (\<exists>name. d = push_dominance name (ob_dominance ob)))"
      using o dom_def by blast
    ultimately show ?thesis by blast
  qed
  then show "s \<in> {DiskWriteStateLearning, DiskWriteStateNormal, DiskWriteStateUnusual, DiskWriteStateHigh}"
    "a \<Longrightarrow> \<not> anomalous s \<and> (c = DiskWriteConfidenceLearning \<or> p = 0 \<or> r < diskWriteUnusualRatio \<and> \<not> anomalous (ob_lastState ob))"
    "\<exists>u g r' d. ob' = ob\<lparr> ob_highSince := u, ob_unusualSince := g, ob_dominance := d, ob_recoverySince := r' \<rparr> \<and>
      (d = ob_dominance ob \<or> (\<exists>name. d = push_dominance name (ob_dominance ob)))"
    by blast+
qed

text \<open>What the second half of a sample concludes, and what it changes.\<close>

lemma judge_parts:
  assumes "judge_window h t e valid ob = (v, ob')"
  obtains ws wt s a ob1 ob2 ratio where
    "aggregateWriters (dh_IsAgentExecutable h) e ob = (ws, wt, vd_Available v)" "vd_Writers v = ws"
    "vd_Context v = context_name ob" "vd_P99 v = p99 (baseline_of ob (context_name ob))"
    "vd_Window v = windowBytes (t - diskWriteWindow) True (ob_volumePoints ob)"
    "vd_Swap v = windowSwapBytes (t - diskWriteWindow) (ob_volumePoints ob)"
    "vd_SwapShare v = (if vd_Window v > 0 then min 1 (rat_of_int (uint (vd_Swap v)) / rat_of_int (uint (vd_Window v))) else 0)"
    "vd_SwapDominant v = (vd_SwapShare v \<ge> diskWriteSwapDominantShare)"
    "vd_Ratio v = (if vd_P99 v > 0 then rat_of_int (uint (vd_Window v)) / rat_of_int (uint (vd_P99 v)) else 0)"
    "vd_BurstBytes v = burstWindowBytes t (ob_volumePoints ob)"
    "vd_Burst v = (valid \<and> vd_BurstBytes v \<ge> diskWriteBurstBytes)"
    "ob1 = ob\<lparr> ob_baselines := (ob_baselines ob)(context_name ob \<mapsto> baseline_of ob (context_name ob)),
               ob_lastState := ob_lastAdaptiveState ob \<rparr>"
    "classify t (diskWriteConfidenceFor (baseline_of ob (context_name ob)) t) (vd_Ratio v) (vd_P99 v) ws wt ob1 = (s, a, ob2)"
    "vd_State v = (if vd_Burst v then DiskWriteStateHigh
       else if windowCovered t (ob_volumePoints ob) then s else DiskWriteStateLearning)"
    "ob' = ob2\<lparr> ob_lastAdaptiveState := s, ob_lastState := ob_lastState ob,
       ob_burstTrainingUntil := (if vd_Burst v then t + diskWriteWindow else ob_burstTrainingUntil ob2) \<rparr>"
    "vd_Accepted v \<longleftrightarrow> a \<and> \<not> vd_SwapDominant v \<and> windowCovered t (ob_volumePoints ob) \<and>
       \<not> t < ob_burstTrainingUntil ob'"
proof -
  let ?b = "baseline_of ob (context_name ob)"
  obtain ws wt n where w: "aggregateWriters (dh_IsAgentExecutable h) e ob = (ws, wt, n)" by (metis prod.exhaust)
  define ob1 where "ob1 = ob\<lparr> ob_baselines := (ob_baselines ob)(context_name ob \<mapsto> ?b),
    ob_lastState := ob_lastAdaptiveState ob \<rparr>"
  define win where "win = windowBytes (t - diskWriteWindow) True (ob_volumePoints ob)"
  define swap where "swap = windowSwapBytes (t - diskWriteWindow) (ob_volumePoints ob)"
  define share where "share = (if win > 0 then min 1 (rat_of_int (uint swap) / rat_of_int (uint win)) else 0)"
  define ratio where "ratio = (if p99 ?b > 0 then rat_of_int (uint win) / rat_of_int (uint (p99 ?b)) else 0)"
  define burst where "burst \<longleftrightarrow> valid \<and> burstWindowBytes t (ob_volumePoints ob) \<ge> diskWriteBurstBytes"
  obtain s a ob2 where c: "classify t (diskWriteConfidenceFor ?b t) ratio (p99 ?b) ws wt ob1 = (s, a, ob2)"
    by (metis prod.exhaust)
  define ob3 where "ob3 = ob2\<lparr> ob_lastAdaptiveState := s, ob_lastState := ob_lastState ob,
       ob_burstTrainingUntil := (if burst then t + diskWriteWindow else ob_burstTrainingUntil ob2) \<rparr>"
  let ?K = "\<lparr> vd_State = (if burst then DiskWriteStateHigh else if windowCovered t (ob_volumePoints ob) then s else DiskWriteStateLearning),
       vd_Confidence = (if windowCovered t (ob_volumePoints ob) then diskWriteConfidenceFor ?b t else DiskWriteConfidenceLearning),
       vd_Accepted = (a \<and> \<not> share \<ge> diskWriteSwapDominantShare \<and> windowCovered t (ob_volumePoints ob) \<and>
         \<not> t < ob_burstTrainingUntil ob3),
       vd_P99 = p99 ?b, vd_Ratio = ratio, vd_Window = win, vd_Swap = swap, vd_SwapShare = share,
       vd_SwapDominant = (share \<ge> diskWriteSwapDominantShare), vd_Burst = burst,
       vd_BurstBytes = burstWindowBytes t (ob_volumePoints ob), vd_Context = context_name ob, vd_Writers = ws,
       vd_Available = n \<rparr>"
  have run: "judge_window h t e valid ob = (?K, ob3)"
  proof -
    have "ob\<lparr> ob_baselines := (ob_baselines ob)(context_name ob \<mapsto> ?b), ob_lastState := ob_lastAdaptiveState ob \<rparr> = ob1"
      by (simp add: ob1_def)
    then show ?thesis
      using c unfolding judge_window_def Let_def win_def [symmetric] swap_def [symmetric] share_def [symmetric]
        ratio_def [symmetric] burst_def [symmetric] w prod.case
      by (simp add: ob3_def)
  qed
  have v: "v = ?K" and ob': "ob' = ob3" using run assms by (metis prod.inject)+
  show ?thesis
    by (rule that [of ws wt ob1 s a ob2])
      (use w c in \<open>simp_all add: v ob' win_def swap_def share_def ratio_def burst_def ob1_def ob3_def\<close>)
qed

theorem disk_alerts_paced_witness:
  "alerts_paced 0 False (snd (disk_run
     [TakeSample (plain_host 1000) (seconds 10), Stop (plain_host 1000), Restart plain_files (seconds 20) plain_policy,
      TakeSample (plain_host (push_bit 32 1)) (seconds 25)] (fresh_observer plain_policy, plain_store)))"
  by (rule disk_alerts_paced [where d = "''20260101''"])
    (simp_all add: step_on_day_def plain_host_def plain_files_def fresh_observer_def plain_store_def no_dir_def
      TrimSpace_def is_space_def)

end
