(* ===== verification/Disk_Account.thy ===== *)
theory Disk_Account
  imports Disk_Write
begin

text \<open>
  The account of the disk-write observer: what may train the baseline and what a restart forgets, how
  its transitions are spaced, that its state stays bounded and well formed, and that the bytes of its
  report are those the device's counter moved by.
\<close>

section \<open>Training\<close>

lemma baseline_of_updates [simp]:
  "baseline_of (ob\<lparr> ob_baselines := (ob_baselines ob)(c \<mapsto> baseline_of ob c) \<rparr>) d = baseline_of ob d"
  by (auto simp: baseline_of_def)

lemma baselines_update_hour [simp]: "ob_baselines (update_hour f ob) = ob_baselines ob"
  by (simp add: update_hour_def)

lemma baselines_flush [simp]: "ob_baselines (fst (flushHour h ob st)) = ob_baselines ob"
  by (auto simp: flushHour_def Let_def split: option.splits prod.splits)

lemma baselines_ensure [simp]: "ob_baselines (fst (ensureCurrentHour h t ob st)) = ob_baselines ob"
  by (simp add: ensureCurrentHour_def Let_def case_prod_beta split: option.splits)

lemma baselines_recordHour [simp]: "ob_baselines (fst (recordHour h t s p d w dev hp v ob st)) = ob_baselines ob"
  by (simp add: recordHour_def case_prod_beta)

lemma baselines_writers [simp]: "ob_baselines (fold (record_writer t) ws ob) = ob_baselines ob"
  by (rule fold_frame) (simp add: record_writer_def Let_def)

lemma baselines_trim [simp]: "ob_baselines (trimExecutableModels ob) = ob_baselines ob"
  by (simp add: trimExecutableModels_def Let_def)

lemma baselines_recordBaseline [simp]: "ob_baselines (fst (recordBaseline h t c v ws ob st)) = ob_baselines ob"
  by (simp add: recordBaseline_def Let_def case_prod_beta)

lemma baselines_transition [simp]: "ob_baselines (fst (diskTransition s ob)) = ob_baselines ob"
  by (simp add: diskTransition_def Let_def)

lemma baselines_alert [simp]: "ob_baselines (fst (alert h s ob st)) = ob_baselines ob"
  by (simp add: alert_def Let_def case_prod_beta)

lemma take_counters_frame [simp]:
  "ob_baselines (take_counters h t device ob) = ob_baselines ob"
  "ob_context (take_counters h t device ob) = ob_context ob"
  "ob_lastState (take_counters h t device ob) = ob_lastState ob"
  "ob_lastAdaptiveState (take_counters h t device ob) = ob_lastAdaptiveState ob"
  "ob_burstTrainingUntil (take_counters h t device ob) = ob_burstTrainingUntil ob"
  by (simp_all add: take_counters_def Let_def prunePoints_def case_prod_beta)

lemma context_name_take [simp]: "context_name (take_counters h t device ob) = context_name ob"
  by (simp add: context_name_def)

lemma baseline_of_take [simp]: "baseline_of (take_counters h t device ob) = baseline_of ob"
  by (simp add: baseline_of_def fun_eq_iff)

lemma baseline_of_cong: "ob_baselines a = ob_baselines b \<Longrightarrow> baseline_of a = baseline_of b"
  by (simp add: baseline_of_def fun_eq_iff)

text \<open>When a window may join the baseline, and what it adds.\<close>

definition quiet_report :: "DiskWriteSummary \<Rightarrow> bool" where
  "quiet_report s \<longleftrightarrow>
     sy_State s \<in> {DiskWriteStateNormal, DiskWriteStateLearning} \<and> \<not> sy_BurstActive s \<and>
     list_all (\<lambda>reason. reason \<notin> set (sy_Reasons s)) [''swap_dominant'', ''rolling_window_incomplete'', ''absolute_write_burst'']"

lemma judge_accepts:
  assumes "judge_window h t e valid ob = (v, ob')" and "vd_Accepted v"
  shows "vd_State v \<in> {DiskWriteStateNormal, DiskWriteStateLearning}" and "\<not> vd_Burst v" and "\<not> vd_SwapDominant v"
    and "windowCovered t (ob_volumePoints ob)" and "ob_burstTrainingUntil ob \<le> t"
    and "diskWriteConfidenceFor (baseline_of ob (context_name ob)) t = DiskWriteConfidenceLearning \<or>
      vd_P99 v = 0 \<or> vd_Ratio v < 6 \<and> \<not> anomalous (ob_lastAdaptiveState ob)"
proof -
  from assms(1) obtain ws wt s a ob1 ob2 where p:
    "ob1 = ob\<lparr> ob_baselines := (ob_baselines ob)(context_name ob \<mapsto> baseline_of ob (context_name ob)),
               ob_lastState := ob_lastAdaptiveState ob \<rparr>"
    "classify t (diskWriteConfidenceFor (baseline_of ob (context_name ob)) t) (vd_Ratio v) (vd_P99 v) ws wt ob1 = (s, a, ob2)"
    "vd_State v = (if vd_Burst v then DiskWriteStateHigh
       else if windowCovered t (ob_volumePoints ob) then s else DiskWriteStateLearning)"
    "ob' = ob2\<lparr> ob_lastAdaptiveState := s, ob_lastState := ob_lastState ob,
       ob_burstTrainingUntil := (if vd_Burst v then t + diskWriteWindow else ob_burstTrainingUntil ob2) \<rparr>"
    "vd_Accepted v \<longleftrightarrow> a \<and> \<not> vd_SwapDominant v \<and> windowCovered t (ob_volumePoints ob) \<and> \<not> t < ob_burstTrainingUntil ob'"
    by (rule judge_parts)
  note c = classify_outcome [OF p(2)]
  have until: "ob_burstTrainingUntil ob2 = ob_burstTrainingUntil ob" using c(3) p(1) by auto
  have acc: "a" "\<not> vd_SwapDominant v" "windowCovered t (ob_volumePoints ob)" "\<not> t < ob_burstTrainingUntil ob'"
    using p(5) assms(2) by simp_all
  then show b: "\<not> vd_Burst v" "\<not> vd_SwapDominant v" "windowCovered t (ob_volumePoints ob)"
    using p(4) by (auto simp: diskWriteWindow_def minutes_def seconds_def)
  show "ob_burstTrainingUntil ob \<le> t" using acc(4) p(4) b(1) until by simp
  have "\<not> anomalous s" using c(2) [OF acc(1)] by blast
  then show "vd_State v \<in> {DiskWriteStateNormal, DiskWriteStateLearning}"
    using c(1) p(3) b(1) acc(3) by (auto simp: anomalous_def)
  show "diskWriteConfidenceFor (baseline_of ob (context_name ob)) t = DiskWriteConfidenceLearning \<or>
      vd_P99 v = 0 \<or> vd_Ratio v < 6 \<and> \<not> anomalous (ob_lastAdaptiveState ob)"
    using c(2) [OF acc(1)] by (simp add: p(1) diskWriteUnusualRatio_def)
qed

lemma judge_baselines:
  assumes "judge_window h t e valid ob = (v, ob')"
  shows "baseline_of ob' c = baseline_of ob c" and "vd_Context v = context_name ob"
    and "vd_Window v = windowBytes (t - diskWriteWindow) True (ob_volumePoints ob)"
    and "ob_volumePoints ob' = ob_volumePoints ob"
proof -
  from assms obtain ws wt s a ob1 ob2 where p:
    "vd_Context v = context_name ob" "vd_Window v = windowBytes (t - diskWriteWindow) True (ob_volumePoints ob)"
    "ob1 = ob\<lparr> ob_baselines := (ob_baselines ob)(context_name ob \<mapsto> baseline_of ob (context_name ob)),
               ob_lastState := ob_lastAdaptiveState ob \<rparr>"
    "classify t (diskWriteConfidenceFor (baseline_of ob (context_name ob)) t) (vd_Ratio v) (vd_P99 v) ws wt ob1 = (s, a, ob2)"
    "ob' = ob2\<lparr> ob_lastAdaptiveState := s, ob_lastState := ob_lastState ob,
       ob_burstTrainingUntil := (if vd_Burst v then t + diskWriteWindow else ob_burstTrainingUntil ob2) \<rparr>"
    by (rule judge_parts)
  have "ob_baselines ob' = ob_baselines ob1" "ob_volumePoints ob' = ob_volumePoints ob1"
    using classify_outcome(3) [OF p(4)] p(5) by auto
  then show "baseline_of ob' c = baseline_of ob c" "ob_volumePoints ob' = ob_volumePoints ob"
    using baseline_of_cong [of ob' ob1] by (simp_all add: p(3) baseline_of_def split: if_splits)
  show "vd_Context v = context_name ob" "vd_Window v = windowBytes (t - diskWriteWindow) True (ob_volumePoints ob)"
    by fact+
qed

lemma alert_observer_frame:
  "ob_volumePoints (fst (alert h s ob st)) = ob_volumePoints ob"
  "ob_lastState (fst (alert h s ob st)) = ob_lastState ob"
  "ob_lastTransition (fst (alert h s ob st)) = ob_lastTransition ob"
  by (simp_all add: alert_def Let_def case_prod_beta)

lemma report_summary [simp]: "rp_Summary (limitDiskWriteReport r n) = rp_Summary r"
  by (simp add: limitDiskWriteReport_def Let_def)

lemma sample_reasons_quiet:
  "''swap_dominant'' \<in> set (sample_reasons h hp vw cov v) \<longleftrightarrow> vd_SwapDominant v"
  "''rolling_window_incomplete'' \<in> set (sample_reasons h hp vw cov v) \<longleftrightarrow> \<not> cov"
  "''absolute_write_burst'' \<in> set (sample_reasons h hp vw cov v) \<longleftrightarrow> vd_Burst v"
  by (simp_all add: sample_reasons_def)

lemma volumePoints_kept [simp]:
  "ob_volumePoints (update_hour f ob) = ob_volumePoints ob"
  "ob_volumePoints (fst (flushHour h ob st)) = ob_volumePoints ob"
  "ob_volumePoints (trimExecutableModels ob) = ob_volumePoints ob"
  "ob_volumePoints (fst (diskTransition s ob)) = ob_volumePoints ob"
  "ob_volumePoints (fold (record_writer t) ws ob) = ob_volumePoints ob"
proof -
  show "ob_volumePoints (update_hour f ob) = ob_volumePoints ob" by (simp add: update_hour_def)
  show "ob_volumePoints (fst (flushHour h ob st)) = ob_volumePoints ob"
    by (auto simp: flushHour_def Let_def split: option.splits prod.splits)
  show "ob_volumePoints (trimExecutableModels ob) = ob_volumePoints ob" by (simp add: trimExecutableModels_def Let_def)
  show "ob_volumePoints (fst (diskTransition s ob)) = ob_volumePoints ob" by (simp add: diskTransition_def Let_def)
  show "ob_volumePoints (fold (record_writer t) ws ob) = ob_volumePoints ob"
    by (rule fold_frame) (simp add: record_writer_def Let_def update_hour_def)
qed

lemma volumePoints_ensure [simp]: "ob_volumePoints (fst (ensureCurrentHour h t ob st)) = ob_volumePoints ob"
  by (simp add: ensureCurrentHour_def Let_def case_prod_beta split: option.splits)

lemma volumePoints_record [simp]:
  "ob_volumePoints (fst (recordHour h t s p d w dev hp v ob st)) = ob_volumePoints ob"
  "ob_volumePoints (fst (train h t vd ob st)) = ob_volumePoints ob"
  by (simp_all add: recordHour_def train_def recordBaseline_def Let_def case_prod_beta)

lemma baselines_train:
  "ob_baselines (fst (train h t v ob st)) =
     (if vd_Accepted v
      then (ob_baselines ob)(vd_Context v \<mapsto> histogram_add (vd_Window v) t (baseline_of ob (vd_Context v)))
      else ob_baselines ob)"
  by (simp add: train_def)

lemma quotient_below:
  assumes "0 < y" shows "rat_of_int x / rat_of_int y < 6 \<longleftrightarrow> x < 6 * y"
proof -
  have "rat_of_int x / rat_of_int y < 6 \<longleftrightarrow> rat_of_int x < rat_of_int (6 * y)"
    using assms by (simp add: divide_less_eq)
  then show ?thesis by (simp only: of_int_less_iff)
qed

lemma ratio_below: "p \<noteq> 0 \<Longrightarrow> rat_of_int (uint w) / rat_of_int (uint p) < 6 \<longleftrightarrow> uint w < 6 * uint (p :: 64 word)"
  using uint_0_iff [of p] uint_ge_0 [of p] by (intro quotient_below) linarith

text \<open>
  Claim C26. Only a quiet window trains. A sample leaves every baseline as it was, or adds the window it
  reports to the baseline of its own context; in the second case the window is fully covered, swap
  traffic does not dominate it, no burst is active or ended less than a window ago, the state is not
  an incident, and once the baseline has matured the window is below six times its percentile and the
  previous adaptive state was no incident either.
\<close>

theorem only_quiet_windows_train:
  "case Sample h t ob st of ((ob', st'), (report, tr, al)) \<Rightarrow>
     baseline_of ob' = baseline_of ob \<or>
     (let s = rp_Summary report; c = context_name ob; b = baseline_of ob c; now = sampled_time h t in
      baseline_of ob' = (baseline_of ob)(c := histogram_add (sy_Window15mBytes s) now b) \<and>
      sy_Context s = c \<and> quiet_report s \<and> ob_burstTrainingUntil ob \<le> now \<and>
      (diskWriteConfidenceFor b now = DiskWriteConfidenceLearning \<or> sy_BaselineP99Bytes15m s = 0 \<or>
       uint (sy_Window15mBytes s) < 6 * uint (sy_BaselineP99Bytes15m s) \<and>
       list_all (\<lambda>x. ob_lastAdaptiveState ob \<noteq> x) [DiskWriteStateHigh, DiskWriteStateUnusual]))"
proof -
  obtain ob' st' report tr al where run: "Sample h t ob st = ((ob', st'), (report, tr, al))" by (metis prod.exhaust)
  show ?thesis
  proof (cases "dw_Enabled (ob_policy ob)")
    case False
    with run show ?thesis by (auto simp: Sample_def Let_def baseline_of_def)
  next
    case enabled: True
    show ?thesis
    proof (cases "dh_Device h")
      case (Inl err)
      with enabled run have "sample_unavailable h (sampled_time h t) err ob st = ((ob', st'), (report, tr, al))"
        by (simp add: Sample_def Let_def sampled_time_def)
      then have "ob_baselines ob' = ob_baselines ob"
        by (auto simp: sample_unavailable_def Let_def case_prod_beta)
      with run show ?thesis using baseline_of_cong [of ob' ob] by simp
    next
      case (Inr device)
      define now where "now = sampled_time h t"
      have "sample_device h now device ob st = ((ob', st'), (report, tr, al))"
        using enabled run Inr by (simp add: Sample_def Let_def sampled_time_def now_def)
      then obtain v ob1 ob2 st2 ob3 st3 ob4 ob5 where p:
        "judge_window h now (time_sub now (ob_previousAt ob)) (valid_window now ob device) (take_counters h now device ob) = (v, ob1)"
        "recordHour h now (vd_State v) (vd_P99 v) (device_delta ob device)
           (swap_delta (valid_window now ob device) (device_delta ob device) (dh_Swap h) ob) device
           (has_previous ob device) (valid_window now ob device) ob1 st = (ob2, st2)"
        "train h now v ob2 st2 = (ob3, st3)"
        "report = limitDiskWriteReport
           \<lparr> rp_Summary = sample_summary h now (time_sub now (ob_previousAt ob)) (has_previous ob device)
               (valid_window now ob device) (device_delta ob device) device v ob3,
             rp_Writers = vd_Writers v, rp_AvailableCount = vd_Available v, rp_ReturnedCount = 0, rp_Truncated = False \<rparr>
           diskWriteMaxWriters"
        "diskTransition (rp_Summary report) ob3 = (ob4, tr)" "alert h (rp_Summary report) ob4 st3 = (ob5, st', al)"
        "ob' = ob5\<lparr> ob_lastReport := report \<rparr>"
        by (rule sample_device_parts)
      note j = judge_baselines [OF p(1)]
      have b2: "ob_baselines ob2 = ob_baselines ob1" "ob_volumePoints ob2 = ob_volumePoints ob1"
        using p(2) baselines_recordHour volumePoints_record(1) by (metis fst_conv)+
      have "ob_baselines ob' = ob_baselines ob5" "ob_baselines ob5 = ob_baselines ob4" "ob_baselines ob4 = ob_baselines ob3"
        using p(5-7) baselines_alert baselines_transition by (simp, metis fst_conv, metis fst_conv)
      moreover have "ob_baselines ob3 = (if vd_Accepted v
          then (ob_baselines ob2)(vd_Context v \<mapsto> histogram_add (vd_Window v) now (baseline_of ob2 (vd_Context v)))
          else ob_baselines ob2)"
        using p(3) baselines_train by (metis fst_conv)
      moreover have "baseline_of ob2 = baseline_of ob"
        using baseline_of_cong [OF b2(1)] j(1) by (simp add: fun_eq_iff baseline_of_def)
      ultimately have b: "baseline_of ob' = (if vd_Accepted v
          then (baseline_of ob)(vd_Context v := histogram_add (vd_Window v) now (baseline_of ob (vd_Context v)))
          else baseline_of ob)"
        by (simp add: fun_eq_iff baseline_of_def)
      define s where "s = rp_Summary report"
      have s: "s = sample_summary h now (time_sub now (ob_previousAt ob)) (has_previous ob device)
          (valid_window now ob device) (device_delta ob device) device v ob3"
        by (simp add: s_def p(4))
      have points: "ob_volumePoints ob3 = ob_volumePoints (take_counters h now device ob)"
        using p(3) volumePoints_record(2) b2(2) j(4) by (metis fst_conv)
      have fields: "sy_Window15mBytes s = vd_Window v" "sy_Context s = vd_Context v" "sy_BaselineP99Bytes15m s = vd_P99 v"
        "sy_State s = vd_State v" "sy_BurstActive s = vd_Burst v"
        "sy_Reasons s = sample_reasons h (has_previous ob device) (valid_window now ob device)
          (windowCovered now (ob_volumePoints (take_counters h now device ob))) v"
        by (simp_all add: s sample_summary_def Let_def points)
      have ctx: "vd_Context v = context_name ob" by (simp add: j(2) context_name_def)
      show ?thesis
      proof (cases "vd_Accepted v")
        case False
        with b run show ?thesis by simp
      next
        case True
        note a = judge_accepts [OF p(1) True]
        have "quiet_report s"
          using a(1-4) by (simp add: quiet_report_def fields sample_reasons_quiet)
        moreover have "diskWriteConfidenceFor (baseline_of ob (context_name ob)) now = DiskWriteConfidenceLearning \<or>
            vd_P99 v = 0 \<or> uint (vd_Window v) < 6 * uint (vd_P99 v) \<and> \<not> anomalous (ob_lastAdaptiveState ob)"
        proof (cases "vd_P99 v = 0")
          case False
          have "vd_Ratio v = (if vd_P99 v > 0 then rat_of_int (uint (vd_Window v)) / rat_of_int (uint (vd_P99 v)) else 0)"
            using p(1) by (rule judge_parts)
          with False have "vd_Ratio v = rat_of_int (uint (vd_Window v)) / rat_of_int (uint (vd_P99 v))"
            by (simp add: word_neq_0_conv)
          with a(6) ratio_below [OF False, of "vd_Window v"] show ?thesis
            by (simp only: context_name_take baseline_of_take take_counters_frame)
        qed simp
        ultimately show ?thesis
          using b True run a(5) ctx
          by (simp add: Let_def s_def [symmetric] fields now_def [symmetric] anomalous_def)
      qed
    qed
  qed
qed


section \<open>What a restart forgets\<close>

lemma adaptive_restore_record: "ob_lastAdaptiveState (fst (restore_record r acc)) = ob_lastAdaptiveState (fst acc)"
proof -
  have "ob_lastAdaptiveState (fold restore_context cs ob) = ob_lastAdaptiveState ob" for cs ob
    by (rule fold_frame) (simp add: restore_context_def)
  moreover have "ob_lastAdaptiveState (fold restore_executable es ob) = ob_lastAdaptiveState ob" for es ob
    by (rule fold_frame) (simp add: restore_executable_def Let_def)
  ultimately show ?thesis by (simp add: restore_record_def Let_def case_prod_beta)
qed

lemma adaptive_restored: "ob_lastAdaptiveState (NewDiskWriteObserver en now st policy) = DiskWriteStateUnset"
proof -
  have "ob_lastAdaptiveState (fst (fold restore_record rs (ob, None))) = ob_lastAdaptiveState ob" for rs and ob :: DiskWriteObserver
    using fold_frame [of "\<lambda>a. ob_lastAdaptiveState (fst a)" restore_record rs "(ob, None)"]
    by (simp add: adaptive_restore_record)
  moreover have "ob_lastAdaptiveState (restore_alerts st ob) = ob_lastAdaptiveState ob" for ob
    by (simp add: restore_alerts_def Let_def split: sum.splits option.splits)
  ultimately show ?thesis
    by (simp add: NewDiskWriteObserver_def restore_def trimExecutableModels_def fresh_observer_def Let_def case_prod_beta
        split: sum.splits option.splits)
qed

text \<open>
  A restart loses the hysteresis of an open incident. The state that is restored from the files
  plays no part in the verdict of a sample, which compares with the adaptive state; that one starts
  unset, whatever the files hold. So on the first mature sample after a restart a plateau of four
  times the percentile is normal and may train, in the middle of an incident.
\<close>

theorem restart_loses_hysteresis:
  "let ob = NewDiskWriteObserver en now st policy in
    ob_lastAdaptiveState ob = DiskWriteStateUnset \<and>
    fst (judge_window h t e valid (ob\<lparr> ob_lastState := x \<rparr>)) = fst (judge_window h t e valid ob) \<and>
    (p = 0 \<or> (case classify t DiskWriteConfidenceConfident 4 p ws wt (ob\<lparr> ob_lastState := ob_lastAdaptiveState ob \<rparr>) of
      (state, accepted, ob') \<Rightarrow> state = DiskWriteStateNormal \<and> accepted))"
proof -
  have same: "aggregateWriters a e (ob\<lparr> ob_lastState := x \<rparr>) = aggregateWriters a e ob" for a and ob :: DiskWriteObserver
    by (simp add: aggregateWriters_def writer_of_def [abs_def])
  have "fst (judge_window h t e valid (ob\<lparr> ob_lastState := x \<rparr>)) = fst (judge_window h t e valid ob)" for ob :: DiskWriteObserver
  proof -
    obtain ws wt n where w: "aggregateWriters (dh_IsAgentExecutable h) e ob = (ws, wt, n)" by (metis prod.exhaust)
    define ob1 where "ob1 = ob\<lparr> ob_baselines := (ob_baselines ob)(context_name ob \<mapsto> baseline_of ob (context_name ob)),
      ob_lastState := ob_lastAdaptiveState ob \<rparr>"
    have eq: "ob\<lparr> ob_lastState := x, ob_baselines := (ob_baselines ob)(context_name ob \<mapsto> baseline_of ob (context_name ob)),
        ob_lastState := ob_lastAdaptiveState ob \<rparr> = ob1" by (simp add: ob1_def)
    have names: "context_name (ob\<lparr> ob_lastState := x \<rparr>) = context_name ob"
      "baseline_of (ob\<lparr> ob_lastState := x \<rparr>) = baseline_of ob"
      by (simp_all add: context_name_def baseline_of_def fun_eq_iff)
    show ?thesis
      unfolding judge_window_def Let_def same w prod.case names by (simp add: case_prod_beta)
  qed
  moreover have "p = 0 \<or> (case classify t DiskWriteConfidenceConfident 4 p ws wt (ob\<lparr> ob_lastState := DiskWriteStateUnset \<rparr>) of
      (state, accepted, ob') \<Rightarrow> state = DiskWriteStateNormal \<and> accepted)" for ob :: DiskWriteObserver
  proof (cases "p = 0")
    case False
    have "lasted t (since_when False t x) d = False" "(12 \<le> (4::rat)) = False" "(6 \<le> (4::rat)) = False" for x d
      by (simp_all add: lasted_def since_when_def IsZero_def)
    with False show ?thesis
      by (simp add: classify_def Let_def anomalous_def detected_state_def diskWriteHighRatio_def diskWriteUnusualRatio_def)
  qed simp
  ultimately show ?thesis unfolding Let_def adaptive_restored by (intro conjI refl)
qed

end
