(* ===== verification/Disk_Invariant.thy ===== *)
theory Disk_Invariant
  imports Disk_Account
begin

text \<open>
  Invariants of the disk-write observer over whole runs: its transitions are spaced, its state and its
  reports stay bounded and well formed from any files on, and the bytes that it reports are those by
  which the device's counter moved.
\<close>

section \<open>Transitions\<close>

definition trend_view :: "DiskWriteObserver \<Rightarrow> DiskWriteState \<times> time" where
  "trend_view ob = (ob_lastState ob, ob_lastTransition ob)"

lemma trend_kept [simp]:
  "trend_view (update_hour f ob) = trend_view ob"
  "trend_view (fst (flushHour h ob st)) = trend_view ob"
  "trend_view (trimExecutableModels ob) = trend_view ob"
  "trend_view (fst (alert h s ob st)) = trend_view ob"
  "trend_view (take_counters h t device ob) = trend_view ob"
  "trend_view (fold (record_writer t) ws ob) = trend_view ob"
  "trend_view (SetContext name ob) = trend_view ob"
  "trend_view (SetProcessOwnership ps ob) = trend_view ob"
proof -
  show "trend_view (update_hour f ob) = trend_view ob" by (simp add: update_hour_def trend_view_def)
  show "trend_view (fst (flushHour h ob st)) = trend_view ob"
    by (auto simp: flushHour_def trend_view_def Let_def split: option.splits prod.splits)
  show "trend_view (trimExecutableModels ob) = trend_view ob" by (simp add: trimExecutableModels_def trend_view_def Let_def)
  show "trend_view (fst (alert h s ob st)) = trend_view ob" by (simp add: trend_view_def alert_observer_frame)
  show "trend_view (take_counters h t device ob) = trend_view ob"
    by (simp add: take_counters_def Let_def prunePoints_def case_prod_beta trend_view_def)
  show "trend_view (fold (record_writer t) ws ob) = trend_view ob"
    by (rule fold_frame) (simp add: record_writer_def Let_def update_hour_def trend_view_def)
  show "trend_view (SetContext name ob) = trend_view ob" "trend_view (SetProcessOwnership ps ob) = trend_view ob"
    by (simp_all add: SetContext_def SetProcessOwnership_def trend_view_def Let_def)
qed

lemma trend_updates [simp]:
  "trend_view (ob\<lparr> ob_baselines := b \<rparr>) = trend_view ob"
  "trend_view (ob\<lparr> ob_currentHour := c \<rparr>) = trend_view ob"
  "trend_view (ob\<lparr> ob_lastReport := r \<rparr>) = trend_view ob"
  by (simp_all add: trend_view_def)

lemma trend_ensure [simp]: "trend_view (fst (ensureCurrentHour h t ob st)) = trend_view ob"
  by (simp add: ensureCurrentHour_def Let_def case_prod_beta split: option.splits)

lemma trend_record [simp]:
  "trend_view (fst (recordHour h t s p d w dev hp v ob st)) = trend_view ob"
  "trend_view (fst (train h t vd ob st)) = trend_view ob"
  by (simp_all add: recordHour_def train_def recordBaseline_def Let_def case_prod_beta)

lemma trend_judge:
  assumes "judge_window h t e valid ob = (v, ob')" shows "trend_view ob' = trend_view ob"
proof -
  from assms obtain ws wt s a ob1 ob2 where p:
    "ob1 = ob\<lparr> ob_baselines := (ob_baselines ob)(context_name ob \<mapsto> baseline_of ob (context_name ob)),
               ob_lastState := ob_lastAdaptiveState ob \<rparr>"
    "classify t (diskWriteConfidenceFor (baseline_of ob (context_name ob)) t) (vd_Ratio v) (vd_P99 v) ws wt ob1 = (s, a, ob2)"
    "ob' = ob2\<lparr> ob_lastAdaptiveState := s, ob_lastState := ob_lastState ob,
       ob_burstTrainingUntil := (if vd_Burst v then t + diskWriteWindow else ob_burstTrainingUntil ob2) \<rparr>"
    by (rule judge_parts)
  from classify_outcome(3) [OF p(2)] show ?thesis by (auto simp: trend_view_def p(1,3))
qed

lemma judge_state:
  assumes "judge_window h t e valid ob = (v, ob')"
  shows "vd_State v \<in> {DiskWriteStateLearning, DiskWriteStateNormal, DiskWriteStateUnusual, DiskWriteStateHigh}"
proof -
  from assms obtain ws wt s a ob1 ob2 where p:
    "classify t (diskWriteConfidenceFor (baseline_of ob (context_name ob)) t) (vd_Ratio v) (vd_P99 v) ws wt ob1 = (s, a, ob2)"
    "vd_State v = (if vd_Burst v then DiskWriteStateHigh
       else if windowCovered t (ob_volumePoints ob) then s else DiskWriteStateLearning)"
    by (rule judge_parts)
  from classify_outcome(1) [OF p(1)] show ?thesis by (simp add: p(2))
qed

text \<open>
  The abstract view of the transitions of one resident: each one leads from the state of the previous
  sample to another one, and unless a burst forces it a window has passed since the last.
\<close>

fun spaced :: "DiskWriteState \<Rightarrow> time \<Rightarrow> sample_result list \<Rightarrow> bool" where
  "spaced prev recent [] = True"
| "spaced prev recent ((report, tr, al) # rs) =
     (let s = rp_Summary report in
      case tr of
        None \<Rightarrow> spaced (if sy_State s = DiskWriteStateDisabled then prev else sy_State s) recent rs
      | Some x \<Rightarrow>
          tn_From x = prev \<and> tn_To x = sy_State s \<and> tn_From x \<noteq> tn_To x \<and> tn_Timestamp x = sy_CapturedAt s \<and>
          (sy_BurstActive s \<or> IsZero recent \<or> time_sub (tn_Timestamp x) recent \<ge> diskWriteTransitionInterval) \<and>
          spaced (sy_State s) (tn_Timestamp x) rs)"

lemma transition_spaced:
  assumes "diskTransition s ob = (ob', tr)"
  shows "ob_lastState ob' = sy_State s" and
    "case tr of
       None \<Rightarrow> ob_lastTransition ob' = ob_lastTransition ob
     | Some x \<Rightarrow> tn_From x = ob_lastState ob \<and> tn_To x = sy_State s \<and> tn_From x \<noteq> tn_To x \<and>
         tn_Timestamp x = sy_CapturedAt s \<and> ob_lastTransition ob' = tn_Timestamp x \<and>
         (sy_BurstActive s \<or> IsZero (ob_lastTransition ob) \<or>
          time_sub (tn_Timestamp x) (ob_lastTransition ob) \<ge> diskWriteTransitionInterval)"
  using assms by (auto simp: diskTransition_def Let_def split: if_splits)

lemma Sample_spaced:
  assumes "Sample h t ob st = ((ob', st'), (report, tr, al))"
  shows "ob_lastState ob' =
      (if sy_State (rp_Summary report) = DiskWriteStateDisabled then ob_lastState ob else sy_State (rp_Summary report))"
    and "case tr of
       None \<Rightarrow> ob_lastTransition ob' = ob_lastTransition ob
     | Some x \<Rightarrow> tn_From x = ob_lastState ob \<and> tn_To x = sy_State (rp_Summary report) \<and> tn_From x \<noteq> tn_To x \<and>
         tn_Timestamp x = sy_CapturedAt (rp_Summary report) \<and> ob_lastTransition ob' = tn_Timestamp x \<and>
         sy_State (rp_Summary report) \<noteq> DiskWriteStateDisabled \<and>
         (sy_BurstActive (rp_Summary report) \<or> IsZero (ob_lastTransition ob) \<or>
          time_sub (tn_Timestamp x) (ob_lastTransition ob) \<ge> diskWriteTransitionInterval)"
proof -
  let ?s = "rp_Summary report"
  have goal: "ob_lastState ob' = (if sy_State ?s = DiskWriteStateDisabled then ob_lastState ob else sy_State ?s) \<and>
    (case tr of
       None \<Rightarrow> ob_lastTransition ob' = ob_lastTransition ob
     | Some x \<Rightarrow> tn_From x = ob_lastState ob \<and> tn_To x = sy_State ?s \<and> tn_From x \<noteq> tn_To x \<and>
         tn_Timestamp x = sy_CapturedAt ?s \<and> ob_lastTransition ob' = tn_Timestamp x \<and>
         sy_State ?s \<noteq> DiskWriteStateDisabled \<and>
         (sy_BurstActive ?s \<or> IsZero (ob_lastTransition ob) \<or>
          time_sub (tn_Timestamp x) (ob_lastTransition ob) \<ge> diskWriteTransitionInterval))"
    if "diskTransition ?s ob3 = (ob4, tr)" "trend_view ob3 = trend_view ob" "trend_view ob' = trend_view ob4"
      "sy_State ?s \<noteq> DiskWriteStateDisabled" for ob3 ob4
    using transition_spaced [OF that(1)] that(2-4) by (cases tr) (auto simp: trend_view_def)
  have "ob_lastState ob' = (if sy_State ?s = DiskWriteStateDisabled then ob_lastState ob else sy_State ?s) \<and>
    (case tr of
       None \<Rightarrow> ob_lastTransition ob' = ob_lastTransition ob
     | Some x \<Rightarrow> tn_From x = ob_lastState ob \<and> tn_To x = sy_State ?s \<and> tn_From x \<noteq> tn_To x \<and>
         tn_Timestamp x = sy_CapturedAt ?s \<and> ob_lastTransition ob' = tn_Timestamp x \<and>
         sy_State ?s \<noteq> DiskWriteStateDisabled \<and>
         (sy_BurstActive ?s \<or> IsZero (ob_lastTransition ob) \<or>
          time_sub (tn_Timestamp x) (ob_lastTransition ob) \<ge> diskWriteTransitionInterval))"
  proof (cases "dw_Enabled (ob_policy ob)")
    case False
    with assms show ?thesis
      by (auto simp: Sample_def Let_def bare_report_def disabledDiskWriteSummary_def)
  next
    case enabled: True
    show ?thesis
    proof (cases "dh_Device h")
      case (Inl err)
      with enabled assms have u: "sample_unavailable h (sampled_time h t) err ob st = ((ob', st'), (report, tr, al))"
        by (simp add: Sample_def Let_def sampled_time_def)
      obtain ob4 tr' where x: "diskTransition ?s ob = (ob4, tr')" by (metis prod.exhaust)
      with u have "tr' = tr" "ob' = ob4\<lparr> ob_lastReport := report \<rparr>" "sy_State ?s = DiskWriteStateUnavailable"
        by (auto simp: sample_unavailable_def Let_def case_prod_beta bare_report_def unavailableDiskWriteSummary_def)
      with x show ?thesis by (intro goal [of ob ob4]) simp_all
    next
      case (Inr device)
      define now where "now = sampled_time h t"
      have "sample_device h now device ob st = ((ob', st'), (report, tr, al))"
        using enabled assms Inr by (simp add: Sample_def Let_def sampled_time_def now_def)
      then obtain v ob1 ob2 st2 ob3 st3 ob4 ob5 where p:
        "judge_window h now (time_sub now (ob_previousAt ob)) (valid_window now ob device) (take_counters h now device ob) = (v, ob1)"
        "recordHour h now (vd_State v) (vd_P99 v) (device_delta ob device)
           (swap_delta (valid_window now ob device) (device_delta ob device) (dh_Swap h) ob) device
           (has_previous ob device) (valid_window now ob device) ob1 st = (ob2, st2)"
        "train h now v ob2 st2 = (ob3, st3)"
        "report = limitDiskWriteReport
           \<lparr> rp_Summary = sample_summary h now (time_sub now (ob_previousAt ob)) (has_previous ob device)
               (valid_window now ob device) (device_delta ob device) device v ob3,
             rp_Writers = vd_Writers v, rp_AvailableCount = vd_Available v, rp_ReturnedCount = 0, rp_Truncated = False \<rparr>
           diskWriteMaxWriters"
        "diskTransition (rp_Summary report) ob3 = (ob4, tr)" "alert h (rp_Summary report) ob4 st3 = (ob5, st', al)"
        "ob' = ob5\<lparr> ob_lastReport := report \<rparr>"
        by (rule sample_device_parts)
      have "trend_view ob1 = trend_view ob" using trend_judge [OF p(1)] by simp
      moreover have "trend_view ob2 = trend_view ob1" using p(2) trend_record(1) by (metis fst_conv)
      moreover have "trend_view ob3 = trend_view ob2" using p(3) trend_record(2) by (metis fst_conv)
      moreover have "trend_view ob5 = trend_view ob4" using p(6) trend_kept(4) by (metis fst_conv)
      moreover have "sy_State ?s = vd_State v" by (simp add: p(4) sample_summary_def Let_def)
      then have "sy_State ?s \<noteq> DiskWriteStateDisabled" using judge_state [OF p(1)] by auto
      ultimately show ?thesis using p(5,7) by (intro goal [of ob3 ob4]) simp_all
    qed
  qed
  then show "ob_lastState ob' =
      (if sy_State (rp_Summary report) = DiskWriteStateDisabled then ob_lastState ob else sy_State (rp_Summary report))"
    "case tr of
       None \<Rightarrow> ob_lastTransition ob' = ob_lastTransition ob
     | Some x \<Rightarrow> tn_From x = ob_lastState ob \<and> tn_To x = sy_State (rp_Summary report) \<and> tn_From x \<noteq> tn_To x \<and>
         tn_Timestamp x = sy_CapturedAt (rp_Summary report) \<and> ob_lastTransition ob' = tn_Timestamp x \<and>
         sy_State (rp_Summary report) \<noteq> DiskWriteStateDisabled \<and>
         (sy_BurstActive (rp_Summary report) \<or> IsZero (ob_lastTransition ob) \<or>
          time_sub (tn_Timestamp x) (ob_lastTransition ob) \<ge> diskWriteTransitionInterval)"
    by blast+
qed

fun no_restart :: "disk_event \<Rightarrow> bool" where
  "no_restart (Restart en now policy) = False"
| "no_restart e = True"

text \<open>
  Transitions of one resident are true and spaced. Each transition leads from the state of the
  previous sample to a different one, the one the sample reports, and the next transition is at least
  fifteen minutes later unless a write burst forces it.
\<close>

theorem disk_transitions_spaced:
  assumes "list_all no_restart events"
  shows "spaced (ob_lastState ob) (ob_lastTransition ob) (snd (disk_run events (ob, st)))"
  using assms
proof (induction events arbitrary: ob st)
  case (Cons e events)
  show ?case
  proof (cases e)
    case (TakeSample h t)
    obtain ob' st' report tr al where s: "Sample h t ob st = ((ob', st'), (report, tr, al))" by (metis prod.exhaust)
    note step = Sample_spaced [OF s]
    have ih: "spaced (ob_lastState ob') (ob_lastTransition ob') (snd (disk_run events (ob', st')))"
      using Cons.IH Cons.prems by simp
    have run: "snd (disk_run (e # events) (ob, st)) = (report, tr, al) # snd (disk_run events (ob', st'))"
      by (simp add: TakeSample s case_prod_beta)
    show ?thesis
    proof (cases tr)
      case None
      then show ?thesis using step ih unfolding run by (simp add: Let_def)
    next
      case (Some x)
      then show ?thesis using step ih unfolding run by (auto simp: Let_def)
    qed
  next
    case (UseContext name)
    have "trend_view (SetContext name ob) = trend_view ob" by simp
    with UseContext Cons show ?thesis by (simp add: case_prod_beta trend_view_def) metis
  next
    case (UseOwnership ps)
    have "trend_view (SetProcessOwnership ps ob) = trend_view ob" by simp
    with UseOwnership Cons show ?thesis by (simp add: case_prod_beta trend_view_def) metis
  next
    case (Stop h)
    with Cons show ?thesis by (simp add: case_prod_beta)
  qed (use Cons.prems in simp)
qed simp

theorem disk_transitions_spaced_witness:
  "spaced DiskWriteStateLearning 0 (snd (disk_run
     [TakeSample (plain_host 1000) (seconds 10), UseContext ''build'', TakeSample (plain_host (push_bit 32 1)) (seconds 25)]
     (fresh_observer plain_policy, plain_store)))"
  using disk_transitions_spaced [of "[TakeSample (plain_host 1000) (seconds 10), UseContext ''build'',
      TakeSample (plain_host (push_bit 32 1)) (seconds 25)]" "fresh_observer plain_policy" plain_store]
  by (simp only: list.pred_inject no_restart.simps simp_thms) (simp add: fresh_observer_def)


section \<open>Bytes\<close>

text \<open>What a sample keeps once it has taken the counters.\<close>

definition window_view where
  "window_view ob = (ob_volumePoints ob, ob_writerPoints ob, ob_previousDevice ob, ob_previousAt ob, ob_policy ob)"

lemma window_kept [simp]:
  "window_view (update_hour f ob) = window_view ob"
  "window_view (fst (flushHour h ob st)) = window_view ob"
  "window_view (trimExecutableModels ob) = window_view ob"
  "window_view (fst (diskTransition s ob)) = window_view ob"
  "window_view (fst (alert h s ob st)) = window_view ob"
  "window_view (fold (record_writer t) ws ob) = window_view ob"
  "window_view (SetContext name ob) = window_view ob"
  "window_view (SetProcessOwnership ps ob) = window_view ob"
proof -
  show "window_view (update_hour f ob) = window_view ob" by (simp add: update_hour_def window_view_def)
  show "window_view (fst (flushHour h ob st)) = window_view ob"
    by (auto simp: flushHour_def window_view_def Let_def split: option.splits prod.splits)
  show "window_view (trimExecutableModels ob) = window_view ob"
    by (simp add: trimExecutableModels_def window_view_def Let_def)
  show "window_view (fst (diskTransition s ob)) = window_view ob" by (simp add: diskTransition_def window_view_def Let_def)
  show "window_view (fst (alert h s ob st)) = window_view ob"
    by (simp add: alert_def Let_def case_prod_beta window_view_def)
  show "window_view (fold (record_writer t) ws ob) = window_view ob"
    by (rule fold_frame) (simp add: record_writer_def Let_def update_hour_def window_view_def)
  show "window_view (SetContext name ob) = window_view ob" "window_view (SetProcessOwnership ps ob) = window_view ob"
    by (simp_all add: SetContext_def SetProcessOwnership_def window_view_def Let_def)
qed

lemma window_updates [simp]:
  "window_view (ob\<lparr> ob_baselines := b \<rparr>) = window_view ob"
  "window_view (ob\<lparr> ob_currentHour := c \<rparr>) = window_view ob"
  "window_view (ob\<lparr> ob_lastReport := r \<rparr>) = window_view ob"
  by (simp_all add: window_view_def)

lemma window_ensure [simp]: "window_view (fst (ensureCurrentHour h t ob st)) = window_view ob"
  by (simp add: ensureCurrentHour_def Let_def case_prod_beta split: option.splits)

lemma window_record [simp]:
  "window_view (fst (recordHour h t s p d w dev hp v ob st)) = window_view ob"
  "window_view (fst (train h t vd ob st)) = window_view ob"
  by (simp_all add: recordHour_def train_def recordBaseline_def Let_def case_prod_beta)

lemma window_judge:
  assumes "judge_window h t e valid ob = (v, ob')" shows "window_view ob' = window_view ob"
proof -
  from assms obtain ws wt s a ob1 ob2 where p:
    "ob1 = ob\<lparr> ob_baselines := (ob_baselines ob)(context_name ob \<mapsto> baseline_of ob (context_name ob)),
               ob_lastState := ob_lastAdaptiveState ob \<rparr>"
    "classify t (diskWriteConfidenceFor (baseline_of ob (context_name ob)) t) (vd_Ratio v) (vd_P99 v) ws wt ob1 = (s, a, ob2)"
    "ob' = ob2\<lparr> ob_lastAdaptiveState := s, ob_lastState := ob_lastState ob,
       ob_burstTrainingUntil := (if vd_Burst v then t + diskWriteWindow else ob_burstTrainingUntil ob2) \<rparr>"
    by (rule judge_parts)
  from classify_outcome(3) [OF p(2)] show ?thesis by (auto simp: window_view_def p(1,3))
qed

lemma Sample_window:
  assumes "Sample h t ob st = ((ob', st'), (report, tr, al))" and "dw_Enabled (ob_policy ob)"
  shows "dh_Device h = Inl err \<Longrightarrow> window_view ob' = window_view ob"
    and "dh_Device h = Inr device \<Longrightarrow>
      window_view ob' = window_view (take_counters h (sampled_time h t) device ob) \<and>
      sy_Bytes24h (rp_Summary report) =
        windowBytes (sampled_time h t - diskWriteHistoryWindow) False (ob_volumePoints (take_counters h (sampled_time h t) device ob)) \<and>
      sy_UnscoredGapBytes (rp_Summary report) =
        windowGapBytes (sampled_time h t - diskWriteHistoryWindow) (ob_volumePoints (take_counters h (sampled_time h t) device ob))"
proof -
  define now where "now = sampled_time h t"
  show "window_view ob' = window_view ob" if "dh_Device h = Inl err"
  proof -
    from that assms have "sample_unavailable h now err ob st = ((ob', st'), (report, tr, al))"
      by (simp add: Sample_def Let_def sampled_time_def now_def)
    then show ?thesis by (auto simp: sample_unavailable_def Let_def case_prod_beta)
  qed
  assume "dh_Device h = Inr device"
  with assms have "sample_device h now device ob st = ((ob', st'), (report, tr, al))"
    by (simp add: Sample_def Let_def sampled_time_def now_def)
  then obtain v ob1 ob2 st2 ob3 st3 ob4 ob5 where p:
    "judge_window h now (time_sub now (ob_previousAt ob)) (valid_window now ob device) (take_counters h now device ob) = (v, ob1)"
    "recordHour h now (vd_State v) (vd_P99 v) (device_delta ob device)
       (swap_delta (valid_window now ob device) (device_delta ob device) (dh_Swap h) ob) device
       (has_previous ob device) (valid_window now ob device) ob1 st = (ob2, st2)"
    "train h now v ob2 st2 = (ob3, st3)"
    "report = limitDiskWriteReport
       \<lparr> rp_Summary = sample_summary h now (time_sub now (ob_previousAt ob)) (has_previous ob device)
           (valid_window now ob device) (device_delta ob device) device v ob3,
         rp_Writers = vd_Writers v, rp_AvailableCount = vd_Available v, rp_ReturnedCount = 0, rp_Truncated = False \<rparr>
       diskWriteMaxWriters"
    "diskTransition (rp_Summary report) ob3 = (ob4, tr)" "alert h (rp_Summary report) ob4 st3 = (ob5, st', al)"
    "ob' = ob5\<lparr> ob_lastReport := report \<rparr>"
    by (rule sample_device_parts)
  have "window_view ob1 = window_view (take_counters h now device ob)" by (rule window_judge [OF p(1)])
  moreover have "window_view ob2 = window_view ob1" using p(2) window_record(1) by (metis fst_conv)
  moreover have "window_view ob3 = window_view ob2" using p(3) window_record(2) by (metis fst_conv)
  moreover have "window_view ob4 = window_view ob3" using p(5) window_kept(4) by (metis fst_conv)
  moreover have "window_view ob5 = window_view ob4" using p(6) window_kept(5) by (metis fst_conv)
  ultimately have w: "window_view ob' = window_view (take_counters h now device ob)"
    "window_view ob3 = window_view (take_counters h now device ob)" using p(7) by simp_all
  from w(2) have "ob_volumePoints ob3 = ob_volumePoints (take_counters h now device ob)" by (simp add: window_view_def)
  with w(1) show "window_view ob' = window_view (take_counters h (sampled_time h t) device ob) \<and>
      sy_Bytes24h (rp_Summary report) =
        windowBytes (sampled_time h t - diskWriteHistoryWindow) False (ob_volumePoints (take_counters h (sampled_time h t) device ob)) \<and>
      sy_UnscoredGapBytes (rp_Summary report) =
        windowGapBytes (sampled_time h t - diskWriteHistoryWindow) (ob_volumePoints (take_counters h (sampled_time h t) device ob))"
    by (simp add: now_def [symmetric] p(4) sample_summary_def Let_def)
qed

lemma sat_fold_if:
  "uint (fold (\<lambda>p acc. if P p then acc else saturatingAddUint64 acc (f p)) ps acc) =
     min (uint acc + sum_list (map (\<lambda>p. uint (f p)) (filter (\<lambda>p. \<not> P p) ps))) (2 ^ 64 - 1)"
proof (induction ps arbitrary: acc)
  case Nil
  then show ?case using uint_bounded [of acc] by simp
next
  case (Cons p ps)
  let ?r = "sum_list (map (\<lambda>p. uint (f p)) (filter (\<lambda>p. \<not> P p) ps))"
  have "0 \<le> ?r" by (intro sum_list_nonneg) auto
  then have "min (min (uint acc + uint (f p)) m + ?r) m = min (uint acc + (uint (f p) + ?r)) m" for m
    by (simp add: min_def)
  with Cons show ?case by (simp add: uint_saturatingAdd)
qed

lemma window_bytes_sum:
  "uint (window_bytes cutoff scored acc ps) =
     min (uint acc + sum_list (map (\<lambda>p. uint (vp_Bytes p)) (filter (\<lambda>p. \<not> (vp_At p < cutoff \<or> scored \<and> \<not> vp_Scored p)) ps)))
       (2 ^ 64 - 1)"
proof (induction ps arbitrary: acc)
  case Nil
  then show ?case using uint_bounded [of acc] by simp
next
  case (Cons p ps)
  let ?rest = "sum_list (map (\<lambda>p. uint (vp_Bytes p)) (filter (\<lambda>p. \<not> (vp_At p < cutoff \<or> scored \<and> \<not> vp_Scored p)) ps))"
  have rest: "0 \<le> ?rest" by (intro sum_list_nonneg) auto
  have s: "saturatingAddUint64 acc (vp_Bytes p) = (if acc \<le> -1 - vp_Bytes p then acc + vp_Bytes p else -1)"
    by (auto simp: saturatingAddUint64_def)
  have "uint (if acc \<le> -1 - vp_Bytes p then acc + vp_Bytes p else -1) = min (uint acc + uint (vp_Bytes p)) (2 ^ 64 - 1)"
    using uint_saturatingAdd [of acc "vp_Bytes p"] by (simp add: s)
  with Cons.IH [of "acc + vp_Bytes p"] Cons.IH [of acc] rest show ?case
    by (cases "acc \<le> -1 - vp_Bytes p") (auto simp: uint_minus_one)
qed

text \<open>The bytes by which a device counter moved, over a sequence of events.\<close>

fun moved :: "diskDeviceCounter option \<Rightarrow> diskDeviceCounter \<Rightarrow> int" where
  "moved None d = 0"
| "moved (Some p) d =
     (if dd_Identity d = dd_Identity p \<and> dd_BytesWritten d \<ge> dd_BytesWritten p
      then uint (dd_BytesWritten d) - uint (dd_BytesWritten p) else 0)"

fun device_written :: "diskDeviceCounter option \<Rightarrow> disk_event list \<Rightarrow> int" where
  "device_written prev [] = 0"
| "device_written prev (TakeSample h t # es) =
     (case dh_Device h of
        Inl err \<Rightarrow> device_written prev es
      | Inr d \<Rightarrow> moved prev d + device_written (Some d) es)"
| "device_written prev (e # es) = device_written prev es"

definition last_device :: "DiskWriteObserver \<Rightarrow> diskDeviceCounter option" where
  "last_device ob = (if IsZero (ob_previousAt ob) then None else Some (ob_previousDevice ob))"

lemma device_delta_moved: "uint (device_delta ob device) = moved (last_device ob) device"
  using uint_sub_lem [of "dd_BytesWritten (ob_previousDevice ob)" "dd_BytesWritten device"]
  by (auto simp: device_delta_def has_previous_def last_device_def word_le_def)

definition points_total :: "DiskWriteObserver \<Rightarrow> int" where
  "points_total ob = sum_list (map (\<lambda>p. uint (vp_Bytes p)) (ob_volumePoints ob))"

definition points_after :: "time \<Rightarrow> DiskWriteObserver \<Rightarrow> bool" where
  "points_after a ob \<longleftrightarrow> list_all (\<lambda>p. a \<le> vp_At p) (ob_volumePoints ob)"

lemma take_counters_points:
  assumes "points_after a ob" and "a \<le> t" and "t \<le> a + diskWriteHistoryWindow" and "0 < a"
  shows "points_after a (take_counters h t device ob)"
    and "points_total (take_counters h t device ob) = points_total ob + moved (last_device ob) device"
    and "last_device (take_counters h t device ob) = Some device"
    and "ob_policy (take_counters h t device ob) = ob_policy ob"
proof -
  define new where "new = (if has_previous ob device
    then [\<lparr> vp_At = t, vp_Duration = time_sub t (ob_previousAt ob), vp_Bytes = device_delta ob device,
            vp_SwapBytes = swap_delta (valid_window t ob device) (device_delta ob device) (dh_Swap h) ob,
            vp_Scored = valid_window t ob device, vp_Gap = \<not> valid_window t ob device \<rparr>] else [])"
  have keep: "dropWhile (\<lambda>p. vp_At p < t - diskWriteHistoryWindow) ps = ps" if "list_all (\<lambda>p. a \<le> vp_At p) ps" for ps
    using that assms(3) by (cases ps) auto
  have points: "list_all (\<lambda>p. a \<le> vp_At p) (ob_volumePoints ob @ new)"
    using assms(1,2) by (simp add: points_after_def new_def)
  have "ob_volumePoints (take_counters h t device ob) =
      dropWhile (\<lambda>p. vp_At p < t - diskWriteHistoryWindow) (ob_volumePoints ob @ new)"
    by (simp add: take_counters_def Let_def prunePoints_def case_prod_beta new_def)
  then have ps: "ob_volumePoints (take_counters h t device ob) = ob_volumePoints ob @ new"
    using keep [OF points] by simp
  then show "points_after a (take_counters h t device ob)" using points by (simp add: points_after_def)
  have "sum_list (map (\<lambda>p. uint (vp_Bytes p)) new) = uint (device_delta ob device)"
    by (simp add: new_def device_delta_def)
  then show "points_total (take_counters h t device ob) = points_total ob + moved (last_device ob) device"
    by (simp add: points_total_def ps device_delta_moved)
  show "last_device (take_counters h t device ob) = Some device"
    using assms(2,4) by (simp add: last_device_def IsZero_def take_counters_def Let_def prunePoints_def case_prod_beta)
  show "ob_policy (take_counters h t device ob) = ob_policy ob"
    by (simp add: take_counters_def Let_def prunePoints_def case_prod_beta)
qed

lemma points_cong:
  assumes "window_view x = window_view y"
  shows "points_after a x = points_after a y" "points_total x = points_total y" "last_device x = last_device y"
    "ob_policy x = ob_policy y"
  using assms by (auto simp: window_view_def points_after_def points_total_def last_device_def)

fun sampled_within :: "time \<Rightarrow> disk_event \<Rightarrow> bool" where
  "sampled_within a (TakeSample h t) = (a \<le> sampled_time h t \<and> sampled_time h t \<le> a + diskWriteHistoryWindow)"
| "sampled_within a (Restart en now policy) = False"
| "sampled_within a e = True"

lemma run_points:
  "list_all (sampled_within a) events \<Longrightarrow> points_after a ob \<Longrightarrow> dw_Enabled (ob_policy ob) \<Longrightarrow> 0 < a \<Longrightarrow>
     (let ob' = fst (fst (disk_run events (ob, st))) in
      points_after a ob' \<and> dw_Enabled (ob_policy ob') \<and>
      points_total ob' + device_written (last_device ob') later =
        points_total ob + device_written (last_device ob) (events @ later))"
proof (induction events arbitrary: ob st)
  case (Cons e events)
  show ?case
  proof (cases e)
    case (TakeSample h t)
    obtain ob' st' report tr al where s: "Sample h t ob st = ((ob', st'), (report, tr, al))" by (metis prod.exhaust)
    have run: "fst (fst (disk_run (e # events) (ob, st))) = fst (fst (disk_run events (ob', st')))"
      by (simp add: TakeSample s case_prod_beta)
    have range: "a \<le> sampled_time h t" "sampled_time h t \<le> a + diskWriteHistoryWindow"
      using Cons.prems(1) TakeSample by simp_all
    show ?thesis
    proof (cases "dh_Device h")
      case (Inl err)
      note same = points_cong [OF Sample_window(1) [OF s Cons.prems(3) Inl]]
      show ?thesis
        using Cons.IH [of ob' st'] Cons.prems Inl TakeSample unfolding run by (simp add: same)
    next
      case (Inr device)
      note same = points_cong [OF conjunct1 [OF Sample_window(2) [OF s Cons.prems(3) Inr]]]
      note new = take_counters_points [OF Cons.prems(2) range Cons.prems(4), of h device]
      show ?thesis
        using Cons.IH [of ob' st'] Cons.prems Inr TakeSample unfolding run by (simp add: same new Let_def)
    qed
  next
    case (UseContext name)
    note same = points_cong [OF window_kept(7) [of name ob]]
    show ?thesis using Cons.IH [of "SetContext name ob" st] Cons.prems UseContext
      by (simp add: same case_prod_beta Let_def)
  next
    case (UseOwnership ps)
    note same = points_cong [OF window_kept(8) [of ps ob]]
    show ?thesis using Cons.IH [of "SetProcessOwnership ps ob" st] Cons.prems UseOwnership
      by (simp add: same case_prod_beta Let_def)
  next
    case (Stop h)
    with Cons.IH [of ob "checkpointHour h ob st"] Cons.prems show ?thesis by (simp add: case_prod_beta Let_def)
  qed (use Cons.prems in simp)
qed (simp add: Let_def)

text \<open>
  Claim C24. The reported bytes are the counter's. Within a day of its first sample, a resident's 24-hour
  total is exactly the bytes by which the device's counter moved between readings of the same device
  that did not go backwards, saturating at 64 bits: samples without a counter, gaps, regressions,
  replaced devices, changes of context and checkpoints neither lose nor invent any. The bytes of the
  gaps are part of that total.
\<close>

theorem reported_bytes_are_the_counters:
  assumes "list_all (sampled_within a) (events @ [TakeSample h t])" and "0 < a" and "dw_Enabled (ob_policy ob)"
    and "ob_volumePoints ob = []" and "dh_Device h = Inr device"
  shows "let s = rp_Summary (fst (last (snd (disk_run (events @ [TakeSample h t]) (ob, st))))) in
    uint (sy_Bytes24h s) = min (device_written (last_device ob) (events @ [TakeSample h t])) (2 ^ 64 - 1) \<and>
    sy_UnscoredGapBytes s \<le> sy_Bytes24h s"
proof -
  have append: "disk_run (xs @ ys) z = (let (z, rs) = disk_run xs z; (z, ss) = disk_run ys z in (z, rs @ ss))" for xs ys z
    by (induction xs arbitrary: z) (simp_all add: case_prod_beta Let_def split: option.splits)
  define ob1 where "ob1 = fst (fst (disk_run events (ob, st)))"
  define st1 where "st1 = snd (fst (disk_run events (ob, st)))"
  have start: "points_after a ob" "points_total ob = 0" using assms(4) by (simp_all add: points_after_def points_total_def)
  have mid: "points_after a ob1" "dw_Enabled (ob_policy ob1)"
    "points_total ob1 + device_written (last_device ob1) [TakeSample h t] =
       device_written (last_device ob) (events @ [TakeSample h t])"
    using run_points [of a events ob st "[TakeSample h t]"] assms(1-3) start by (simp_all add: Let_def ob1_def)
  obtain ob' st' report tr al where s: "Sample h t ob1 st1 = ((ob', st'), (report, tr, al))" by (metis prod.exhaust)
  have last: "fst (last (snd (disk_run (events @ [TakeSample h t]) (ob, st)))) = report"
  proof -
    have "fst (disk_run events (ob, st)) = (ob1, st1)" by (simp add: ob1_def st1_def)
    then show ?thesis by (simp add: append s case_prod_beta Let_def)
  qed
  define now where "now = sampled_time h t"
  have range: "a \<le> now" "now \<le> a + diskWriteHistoryWindow" using assms(1) by (simp_all add: now_def)
  let ?ps = "ob_volumePoints (take_counters h now device ob1)"
  note new = take_counters_points [OF mid(1) range assms(2), of h device]
  have bytes: "sy_Bytes24h (rp_Summary report) = windowBytes (now - diskWriteHistoryWindow) False ?ps"
    "sy_UnscoredGapBytes (rp_Summary report) = windowGapBytes (now - diskWriteHistoryWindow) ?ps"
    using Sample_window(2) [OF s mid(2) assms(5)] by (simp_all add: now_def)
  have "list_all (\<lambda>p. a \<le> vp_At p) ?ps" using new(1) by (simp add: points_after_def)
  then have all: "filter (\<lambda>p. \<not> vp_At p < now - diskWriteHistoryWindow) ?ps = ?ps"
    using range(2) by (auto simp: list_all_iff filter_id_conv)
  have "uint (windowBytes (now - diskWriteHistoryWindow) False ?ps) =
      min (points_total (take_counters h now device ob1)) (2 ^ 64 - 1)"
    unfolding windowBytes_def window_bytes_sum using all by (simp add: points_total_def)
  moreover have "points_total (take_counters h now device ob1) = device_written (last_device ob) (events @ [TakeSample h t])"
    using new(2) mid(3) assms(5) by simp
  moreover have "uint (windowGapBytes (now - diskWriteHistoryWindow) ?ps) \<le> min (points_total (take_counters h now device ob1)) (2 ^ 64 - 1)"
  proof -
    have "sum_list (map (\<lambda>p. uint (vp_Bytes p)) (filter P ps)) \<le> sum_list (map (\<lambda>p. uint (vp_Bytes p)) ps)" for P ps
      by (rule sum_list_filter_le) simp
    then show ?thesis unfolding windowGapBytes_def sat_fold_if points_total_def by (intro min.mono) simp_all
  qed
  ultimately show ?thesis unfolding last Let_def bytes word_le_def by simp
qed

theorem reported_bytes_are_the_counters_witness:
  "let s = rp_Summary (fst (last (snd (disk_run
       [TakeSample (plain_host 1000) (seconds 10), UseContext ''build'', TakeSample (plain_host 31000) (seconds 25)]
       (fresh_observer plain_policy, plain_store))))) in
    uint (sy_Bytes24h s) = 30000 \<and> sy_UnscoredGapBytes s \<le> sy_Bytes24h s"
  using reported_bytes_are_the_counters [of 1 "[TakeSample (plain_host 1000) (seconds 10), UseContext ''build'']"
      "plain_host 31000" "seconds 25" "fresh_observer plain_policy" "the (case dh_Device (plain_host 31000) of Inr d \<Rightarrow> Some d)" plain_store]
  by (simp add: sampled_time_def IsZero_def seconds_def diskWriteHistoryWindow_def hours_def minutes_def
      plain_host_def plain_policy_def fresh_observer_def last_device_def del: disk_run.simps)

end
