(* ===== verification/Disk_Shape.thy ===== *)
theory Disk_Shape
  imports Disk_Invariant
begin

text \<open>
  The shape of the disk-write observer: whatever the files hold, whatever the samples read and
  whatever fails, its state stays bounded and its reports are well formed.
\<close>

section \<open>Histograms and models\<close>

definition hist_ok :: "diskHistogram \<Rightarrow> bool" where
  "hist_ok h \<longleftrightarrow> length (hi_Buckets h) = 64"

definition models_ok :: "(string \<times> diskHistogram) list \<Rightarrow> bool" where
  "models_ok ms \<longleftrightarrow> distinct (map fst ms) \<and> list_all (\<lambda>e. hist_ok (snd e)) ms"

lemma hist_ok_empty [simp]: "hist_ok empty_histogram"
  by (simp add: hist_ok_def empty_histogram_def)

lemma hist_ok_add [simp]: "hist_ok (histogram_add v t h) = hist_ok h"
  by (simp add: hist_ok_def histogram_add_def Let_def)

lemma hist_ok_merge [simp]: "hist_ok (histogram_merge r h) = hist_ok h"
proof -
  have "length (fold merge_bucket bs xs) = length xs" for bs xs
    by (rule fold_frame) (simp add: merge_bucket_def split: prod.splits)
  then show ?thesis by (simp add: hist_ok_def histogram_merge_def)
qed

lemma hist_ok_from_record [simp]: "hist_ok (diskHistogramFromRecord r)"
  by (simp add: diskHistogramFromRecord_def)

lemma histogram_at_ok: "models_ok ms \<Longrightarrow> hist_ok (histogram_at ms name)"
  by (auto simp: histogram_at_def models_ok_def list_all_iff split: option.splits dest!: map_of_SomeD)

lemma models_ok_update: "models_ok ms \<Longrightarrow> hist_ok h \<Longrightarrow> models_ok (AList.update name h ms)"
  unfolding models_ok_def list_all_iff
  by (auto simp: distinct_update) (metis (no_types, lifting) distinct_update map_of_eq_Some_iff map_of_is_SomeI
      update_Some_unfold snd_conv)

lemma models_ok_filter: "models_ok ms \<Longrightarrow> models_ok (filter P ms)"
  by (auto simp: models_ok_def list_all_iff distinct_map_filter)

lemma models_ok_Nil [simp]: "models_ok []"
  by (simp add: models_ok_def)


section \<open>The shape\<close>

definition hour_ok :: "diskWriteHistoryRecord option \<Rightarrow> bool" where
  "hour_ok hour \<longleftrightarrow> (case hour of None \<Rightarrow> True | Some r \<Rightarrow> models_ok (hw_executableHistograms r))"

definition shape_ok :: "DiskWriteObserver \<Rightarrow> bool" where
  "shape_ok ob \<longleftrightarrow>
     list_all (\<lambda>p. vp_SwapBytes p \<le> vp_Bytes p) (ob_volumePoints ob) \<and>
     (\<forall>c. hist_ok (baseline_of ob c)) \<and> models_ok (ob_executableModels ob) \<and> hour_ok (ob_currentHour ob) \<and>
     length (ob_dominance ob) \<le> 40 \<and> ob_context ob \<noteq> []"

definition alerts_ok :: "DiskWriteObserver \<Rightarrow> bool" where
  "alerts_ok ob \<longleftrightarrow> 0 \<le> ob_alertsToday ob \<and> ob_alertsToday ob \<le> 4"

definition report_ok :: "DiskWriteReport \<Rightarrow> bool" where
  "report_ok r \<longleftrightarrow>
     int (length (rp_Writers r)) = rp_ReturnedCount r \<and> rp_ReturnedCount r \<le> 20 \<and>
     rp_ReturnedCount r \<le> rp_AvailableCount r \<and> (rp_Truncated r \<longleftrightarrow> rp_ReturnedCount r < rp_AvailableCount r) \<and>
     sorted (map writer_key (rp_Writers r)) \<and> distinct (map ws_Executable (rp_Writers r)) \<and>
     0 \<le> sy_SwapShare15m (rp_Summary r) \<and> sy_SwapShare15m (rp_Summary r) \<le> 1 \<and>
     sy_SwapOutBytes15m (rp_Summary r) \<le> sy_Window15mBytes (rp_Summary r)"

definition observer_ok :: "DiskWriteObserver \<Rightarrow> bool" where
  "observer_ok ob \<longleftrightarrow>
     shape_ok ob \<and> length (ob_executableModels ob) \<le> 32 \<and> alerts_ok ob \<and> report_ok (ob_lastReport ob)"

lemma shape_ok_updates [simp]:
  "shape_ok (ob\<lparr> ob_lastReport := r \<rparr>) = shape_ok ob"
  "shape_ok (ob\<lparr> ob_lastState := s \<rparr>) = shape_ok ob"
  "shape_ok (ob\<lparr> ob_lastTransition := t \<rparr>) = shape_ok ob"
  "shape_ok ob \<Longrightarrow> shape_ok (ob\<lparr> ob_currentHour := None \<rparr>)"
  "shape_ok ob \<Longrightarrow> shape_ok (ob\<lparr> ob_currentHour := Some (empty_hour n) \<rparr>)"
  by (auto simp: shape_ok_def baseline_of_def hour_ok_def empty_hour_def)

lemma shape_ok_flush: "shape_ok ob \<Longrightarrow> shape_ok (fst (flushHour h ob st))"
  by (auto simp: flushHour_def Let_def split: option.splits prod.splits)

lemma shape_ok_ensure: "shape_ok ob \<Longrightarrow> shape_ok (fst (ensureCurrentHour h t ob st))"
  using shape_ok_flush [of ob h st]
  by (simp add: ensureCurrentHour_def Let_def case_prod_beta split: option.splits)

lemma shape_ok_hour:
  assumes "shape_ok ob" and "\<And>r. models_ok (hw_executableHistograms r) \<Longrightarrow> models_ok (hw_executableHistograms (f r))"
  shows "shape_ok (update_hour f ob)"
  using assms by (auto simp: shape_ok_def update_hour_def hour_ok_def baseline_of_def split: option.splits)

lemma shape_ok_recordHour: "shape_ok ob \<Longrightarrow> shape_ok (fst (recordHour h t s p d w dev hp v ob st))"
  using shape_ok_ensure [of ob h t st]
  by (simp add: recordHour_def case_prod_beta) (rule shape_ok_hour, assumption, simp add: hour_sample_def Let_def)

lemma shape_ok_record_writer:
  assumes "shape_ok ob" shows "shape_ok (record_writer t w ob)"
proof -
  let ?name = "ws_Executable w"
  have "shape_ok (ob\<lparr> ob_executableModels := AList.update ?name
        (histogram_add (ws_WindowBytes w) t (histogram_at (ob_executableModels ob) ?name)) (ob_executableModels ob),
      ob_executableBytes := b \<rparr>)" for b
    using assms models_ok_update [of "ob_executableModels ob"] histogram_at_ok [of "ob_executableModels ob"]
    by (simp add: shape_ok_def baseline_of_def)
  then show ?thesis
    unfolding record_writer_def Let_def
    by (rule shape_ok_hour) (simp add: models_ok_update histogram_at_ok)
qed

lemma shape_ok_writers: "shape_ok ob \<Longrightarrow> shape_ok (fold (record_writer t) ws ob)"
  by (induction ws arbitrary: ob) (simp_all add: shape_ok_record_writer)

lemma shape_ok_trim: "shape_ok ob \<Longrightarrow> shape_ok (trimExecutableModels ob)"
  by (simp add: trimExecutableModels_def Let_def shape_ok_def models_ok_filter baseline_of_def)

lemma trim_bounded:
  assumes "models_ok (ob_executableModels ob)"
  shows "length (ob_executableModels (trimExecutableModels ob)) \<le> 32"
proof (cases "length (ob_executableModels ob) \<le> 32")
  case True
  then show ?thesis by (simp add: trimExecutableModels_def diskWriteMaxExecutableModels_def)
next
  case False
  define ms where "ms = ob_executableModels ob"
  define names where "names = sort_key (\<lambda>name. (- uint (ob_executableBytes ob name), name)) (map fst ms)"
  have d: "distinct (map fst ms)" using assms by (simp add: models_ok_def ms_def)
  have "set names = set (take 32 names) \<union> set (drop 32 names)" by (metis append_take_drop_id set_append)
  then have split: "x \<in> set (take 32 names)" if "x \<in> set names" "x \<notin> set (drop 32 names)" for x
    using that by blast
  have all: "set names = fst ` set ms" by (simp add: names_def)
  have kept: "fst ` set (filter (\<lambda>e. fst e \<notin> set (drop 32 names)) ms) \<subseteq> set (take 32 names)"
  proof (intro subsetI, elim imageE)
    fix x e assume "x = fst e" and "e \<in> set (filter (\<lambda>e. fst e \<notin> set (drop 32 names)) ms)"
    then have "x \<in> fst ` set ms" "x \<notin> set (drop 32 names)" unfolding set_filter by blast+
    then show "x \<in> set (take 32 names)" using split unfolding all by blast
  qed
  have "length (filter (\<lambda>e. fst e \<notin> set (drop 32 names)) ms) = card (fst ` set (filter (\<lambda>e. fst e \<notin> set (drop 32 names)) ms))"
    using distinct_card [OF distinct_map_filter [OF d], of "\<lambda>e. fst e \<notin> set (drop 32 names)"]
    by (simp only: length_map set_map)
  also have "\<dots> \<le> card (set (take 32 names))" by (rule card_mono) (use kept in simp_all)
  also have "\<dots> \<le> 32" using card_length [of "take 32 names"] by simp
  finally show ?thesis
    using False by (simp add: trimExecutableModels_def Let_def diskWriteMaxExecutableModels_def ms_def names_def)
qed

lemma push_dominance_bounded: "length d \<le> 40 \<Longrightarrow> length (push_dominance name d) \<le> 40"
  by (simp add: push_dominance_def Let_def)

lemma swap_delta_le: "swap_delta valid d swap ob \<le> d"
  by (simp add: swap_delta_def Let_def split: option.splits)

lemma list_all_dropWhile: "list_all P xs \<Longrightarrow> list_all P (dropWhile Q xs)"
  by (induction xs) auto

lemma shape_ok_take_counters: "shape_ok ob \<Longrightarrow> shape_ok (take_counters h t device ob)"
  by (simp add: shape_ok_def take_counters_def Let_def prunePoints_def case_prod_beta baseline_of_def
      list_all_dropWhile swap_delta_le)

lemma shape_ok_judge:
  assumes "judge_window h t e valid ob = (v, ob')" and "shape_ok ob"
  shows "shape_ok ob'" and "ob_executableModels ob' = ob_executableModels ob"
proof -
  from assms(1) obtain ws wt s a ob1 ob2 where p:
    "ob1 = ob\<lparr> ob_baselines := (ob_baselines ob)(context_name ob \<mapsto> baseline_of ob (context_name ob)),
               ob_lastState := ob_lastAdaptiveState ob \<rparr>"
    "classify t (diskWriteConfidenceFor (baseline_of ob (context_name ob)) t) (vd_Ratio v) (vd_P99 v) ws wt ob1 = (s, a, ob2)"
    "ob' = ob2\<lparr> ob_lastAdaptiveState := s, ob_lastState := ob_lastState ob,
       ob_burstTrainingUntil := (if vd_Burst v then t + diskWriteWindow else ob_burstTrainingUntil ob2) \<rparr>"
    by (rule judge_parts)
  from classify_outcome(3) [OF p(2)] obtain u g r d where
    ob2: "ob2 = ob1\<lparr> ob_highSince := u, ob_unusualSince := g, ob_dominance := d, ob_recoverySince := r \<rparr>"
    and d: "d = ob_dominance ob1 \<or> (\<exists>name. d = push_dominance name (ob_dominance ob1))" by blast
  have "length d \<le> 40" using d assms(2) push_dominance_bounded by (auto simp: p(1) shape_ok_def)
  then show "shape_ok ob'"
    using assms(2) judge_baselines(1) [OF assms(1)] by (simp add: shape_ok_def) (simp add: p(1,3) ob2)
  show "ob_executableModels ob' = ob_executableModels ob" by (simp add: p(1,3) ob2)
qed

lemma models_kept [simp]:
  "ob_executableModels (take_counters h t device ob) = ob_executableModels ob"
  "ob_executableModels (update_hour f ob) = ob_executableModels ob"
  "ob_executableModels (fst (flushHour h ob st)) = ob_executableModels ob"
  "ob_executableModels (fst (diskTransition s ob)) = ob_executableModels ob"
  "ob_executableModels (fst (alert h s ob st)) = ob_executableModels ob"
proof -
  show "ob_executableModels (take_counters h t device ob) = ob_executableModels ob"
    by (simp add: take_counters_def Let_def prunePoints_def case_prod_beta)
  show "ob_executableModels (update_hour f ob) = ob_executableModels ob" by (simp add: update_hour_def)
  show "ob_executableModels (fst (flushHour h ob st)) = ob_executableModels ob"
    by (auto simp: flushHour_def Let_def split: option.splits prod.splits)
  show "ob_executableModels (fst (diskTransition s ob)) = ob_executableModels ob" by (simp add: diskTransition_def Let_def)
  show "ob_executableModels (fst (alert h s ob st)) = ob_executableModels ob"
    by (simp add: alert_def Let_def case_prod_beta)
qed

lemma models_recordHour [simp]:
  "ob_executableModels (fst (recordHour h t s p d w dev hp v ob st)) = ob_executableModels ob"
  by (simp add: recordHour_def ensureCurrentHour_def Let_def case_prod_beta split: option.splits)

lemma shape_ok_train:
  assumes "shape_ok ob"
  shows "shape_ok (fst (train h t v ob st))"
    and "length (ob_executableModels ob) \<le> 32 \<Longrightarrow> length (ob_executableModels (fst (train h t v ob st))) \<le> 32"
proof -
  define ob1 where "ob1 = ob\<lparr> ob_baselines := (ob_baselines ob)(vd_Context v \<mapsto>
    histogram_add (vd_Window v) t (baseline_of ob (vd_Context v))) \<rparr>"
  have "shape_ok ob1" using assms by (auto simp: ob1_def shape_ok_def baseline_of_def split: option.splits)
  then have "shape_ok (fst (ensureCurrentHour h t ob1 st))" by (rule shape_ok_ensure)
  then have pre: "shape_ok (fold (record_writer t) ws (update_hour (\<lambda>r. r\<lparr> hw_Contexts := f r \<rparr>)
      (fst (ensureCurrentHour h t ob1 st))))" for ws f
    by (intro shape_ok_writers shape_ok_hour) simp_all
  then have models: "models_ok (ob_executableModels (fold (record_writer t) ws (update_hour (\<lambda>r. r\<lparr> hw_Contexts := f r \<rparr>)
      (fst (ensureCurrentHour h t ob1 st)))))" for ws f
    by (simp add: shape_ok_def)
  show "shape_ok (fst (train h t v ob st))"
    using assms by (simp add: train_def recordBaseline_def Let_def case_prod_beta ob1_def [symmetric] shape_ok_trim pre)
  show "length (ob_executableModels (fst (train h t v ob st))) \<le> 32" if "length (ob_executableModels ob) \<le> 32"
    using that by (simp add: train_def recordBaseline_def Let_def case_prod_beta ob1_def [symmetric] trim_bounded models)
qed

lemma shape_ok_transition: "shape_ok ob \<Longrightarrow> shape_ok (fst (diskTransition s ob))"
  by (simp add: diskTransition_def Let_def)

lemma shape_ok_alert: "shape_ok ob \<Longrightarrow> shape_ok (fst (alert h s ob st))"
  by (simp add: alert_def Let_def case_prod_beta shape_ok_def baseline_of_def)

lemma alerts_ok_cong: "alert_view a = alert_view b \<Longrightarrow> alerts_ok a = alerts_ok b"
  by (simp add: alert_view_def alerts_ok_def)

lemma alerts_ok_alert: "alerts_ok ob \<Longrightarrow> alerts_ok (fst (alert h s ob st))"
  by (simp add: alert_def Let_def case_prod_beta alerts_ok_def diskWriteAlertLimitPerDay_def)


section \<open>Reports\<close>

lemma aggregate_distinct:
  "distinct (map fst (fst acc)) \<Longrightarrow> distinct (map fst (fst (aggregate_points ps acc)))"
proof (induction ps arbitrary: acc)
  case (Cons p ps)
  have "distinct (map fst (fst acc)) \<Longrightarrow> distinct (map fst (fst (fold (aggregate_step latest) ds acc)))" for latest ds
    by (induction ds arbitrary: acc) (simp_all add: aggregate_step_def Let_def case_prod_beta distinct_update)
  with Cons show ?case by simp
qed simp

lemma aggregateWriters_ok:
  assumes "aggregateWriters a e ob = (ws, wt, n)"
  shows "sorted (map writer_key ws)" and "distinct (map ws_Executable ws)" and "length ws \<le> 20" and "int (length ws) \<le> n"
proof -
  define items where "items = fst (aggregate_points (ob_writerPoints ob) ([], 0))"
  define all where "all = sort_key writer_key (map (writer_of a e ob) items)"
  have ws: "ws = take 20 all" "n = int (length all)"
    using assms by (auto simp: aggregateWriters_def Let_def case_prod_beta items_def all_def diskWriteMaxWriters_def)
  have "sorted (map writer_key all)" by (simp add: all_def)
  then show "sorted (map writer_key ws)" by (simp add: ws sorted_wrt_take take_map [symmetric])
  have "distinct (map fst items)" unfolding items_def by (rule aggregate_distinct) simp
  moreover have "map ws_Executable (map (writer_of a e ob) items) = map fst items"
    by (simp add: writer_of_def Let_def case_prod_beta)
  moreover have "mset (map ws_Executable all) = mset (map ws_Executable (map (writer_of a e ob) items))"
    unfolding all_def by (simp only: mset_map mset_sort)
  ultimately have "distinct (map ws_Executable all)" by (metis mset_eq_imp_distinct_iff)
  then show "distinct (map ws_Executable ws)" by (simp add: ws take_map [symmetric])
  show "length ws \<le> 20" "int (length ws) \<le> n" by (simp_all add: ws)
qed

lemma swap_within_window:
  assumes "list_all (\<lambda>p. vp_SwapBytes p \<le> vp_Bytes p) ps"
  shows "windowSwapBytes cutoff ps \<le> windowBytes cutoff True ps"
proof -
  let ?in = "filter (\<lambda>p. \<not> (vp_At p < cutoff \<or> \<not> vp_Scored p)) ps"
  have "sum_list (map (\<lambda>p. uint (vp_SwapBytes p)) ?in) \<le> sum_list (map (\<lambda>p. uint (vp_Bytes p)) ?in)"
    using assms by (intro sum_list_mono) (auto simp: list_all_iff word_le_def)
  then show ?thesis
    unfolding word_le_def windowSwapBytes_def windowBytes_def sat_fold_if window_bytes_sum by (intro min.mono) simp_all
qed

lemma roundRatio_unit: "0 \<le> x \<Longrightarrow> x \<le> 1 \<Longrightarrow> 0 \<le> roundRatio x \<and> roundRatio x \<le> 1"
proof -
  assume x: "0 \<le> x" "x \<le> 1"
  then have "\<lfloor>x * 100 + 1 / 2\<rfloor> \<le> 100" "0 \<le> \<lfloor>x * 100 + 1 / 2\<rfloor>" by (simp_all add: floor_le_iff le_floor_iff)
  then have "(of_int \<lfloor>x * 100 + 1 / 2\<rfloor> :: rat) \<le> 100" "(0::rat) \<le> of_int \<lfloor>x * 100 + 1 / 2\<rfloor>" by linarith+
  then show ?thesis by (simp add: roundRatio_def)
qed

lemma report_ok_sample:
  assumes "judge_window h t e valid ob = (v, ob')" and "shape_ok ob"
  shows "report_ok (limitDiskWriteReport
       \<lparr> rp_Summary = sample_summary h t e' hp valid' d device v ob3, rp_Writers = vd_Writers v,
         rp_AvailableCount = vd_Available v, rp_ReturnedCount = 0, rp_Truncated = False \<rparr> diskWriteMaxWriters)"
proof -
  from assms(1) obtain ws wt where w: "aggregateWriters (dh_IsAgentExecutable h) e ob = (ws, wt, vd_Available v)"
    "vd_Writers v = ws" "vd_Window v = windowBytes (t - diskWriteWindow) True (ob_volumePoints ob)"
    "vd_Swap v = windowSwapBytes (t - diskWriteWindow) (ob_volumePoints ob)"
    "vd_SwapShare v = (if vd_Window v > 0 then min 1 (rat_of_int (uint (vd_Swap v)) / rat_of_int (uint (vd_Window v))) else 0)"
    by (rule judge_parts)
  note ok = aggregateWriters_ok [OF w(1)]
  define q where "q = rat_of_int (uint (vd_Swap v)) / rat_of_int (uint (vd_Window v))"
  have "0 \<le> rat_of_int x / rat_of_int y" if "0 \<le> x" "0 \<le> y" for x y using that by simp
  then have "0 \<le> q" unfolding q_def by (meson uint_ge_0)
  then have "0 \<le> vd_SwapShare v" "vd_SwapShare v \<le> 1" unfolding w(5) q_def [symmetric] by auto
  then have share: "0 \<le> roundRatio (vd_SwapShare v) \<and> roundRatio (vd_SwapShare v) \<le> 1" by (rule roundRatio_unit)
  have "vd_Swap v \<le> vd_Window v" using assms(2) by (simp add: w(3,4) shape_ok_def swap_within_window)
  with ok share show ?thesis
    by (simp add: report_ok_def limitDiskWriteReport_def Let_def diskWriteMaxWriters_def w(2) sample_summary_def)
qed

lemma report_ok_bare: "sy_SwapShare15m s = 0 \<Longrightarrow> sy_SwapOutBytes15m s = 0 \<Longrightarrow> report_ok (bare_report s)"
  by (simp add: report_ok_def bare_report_def)


section \<open>Every step keeps the shape\<close>

lemma unavailable_parts:
  assumes "sample_unavailable h t err ob st = ((ob', st'), (report, tr, al))"
  shows "ob' = fst (diskTransition (rp_Summary report) ob)\<lparr> ob_lastReport := report \<rparr>"
    and "report = bare_report (rp_Summary report)"
    and "sy_SwapShare15m (rp_Summary report) = 0" and "sy_SwapOutBytes15m (rp_Summary report) = 0"
proof -
  define u where "u = unavailableDiskWriteSummary t ''device_counter_unavailable''"
  define s where "s = u\<lparr> sy_Reasons := sy_Reasons u @ [boundedText err 96] @
    (if \<not> dh_ProcessesOK h then [''process_attribution_unavailable''] else []) \<rparr>"
  have "sample_unavailable h t err ob st =
      ((fst (diskTransition s ob)\<lparr> ob_lastReport := bare_report s \<rparr>, st), (bare_report s, snd (diskTransition s ob), None))"
    unfolding sample_unavailable_def Let_def u_def [symmetric] s_def [symmetric] case_prod_beta by (rule refl)
  then have r: "report = bare_report s" "ob' = fst (diskTransition s ob)\<lparr> ob_lastReport := report \<rparr>"
    using assms by simp_all
  have s: "rp_Summary report = s" by (simp add: r(1) bare_report_def)
  show "ob' = fst (diskTransition (rp_Summary report) ob)\<lparr> ob_lastReport := report \<rparr>"
    "report = bare_report (rp_Summary report)" unfolding s by (rule r(2), rule r(1))
  show "sy_SwapShare15m (rp_Summary report) = 0" "sy_SwapOutBytes15m (rp_Summary report) = 0"
    by (simp_all add: s s_def u_def unavailableDiskWriteSummary_def disabledDiskWriteSummary_def)
qed

lemma observer_ok_Sample:
  assumes "Sample h t ob st = ((ob', st'), (report, tr, al))" and "observer_ok ob"
  shows "observer_ok ob'" and "report_ok report"
proof -
  have ok: "shape_ok ob" "length (ob_executableModels ob) \<le> 32" "alerts_ok ob"
    using assms(2) by (simp_all add: observer_ok_def)
  have "observer_ok ob' \<and> report_ok report"
  proof (cases "dw_Enabled (ob_policy ob)")
    case False
    with assms(1) ok show ?thesis
      by (auto simp: Sample_def Let_def observer_ok_def report_ok_bare disabledDiskWriteSummary_def alerts_ok_def)
  next
    case enabled: True
    show ?thesis
    proof (cases "dh_Device h")
      case (Inl err)
      with enabled assms(1) have "sample_unavailable h (sampled_time h t) err ob st = ((ob', st'), (report, tr, al))"
        by (simp add: Sample_def Let_def sampled_time_def)
      note u = unavailable_parts [OF this]
      note r = u(1) and b = u(2-4)
      have "report_ok report" using report_ok_bare [OF b(2,3)] b(1) by simp
      moreover have "alerts_ok ob'" using alerts_ok_cong [of ob' ob] ok(3) by (simp add: r disk_frame)
      ultimately show ?thesis using ok by (simp add: observer_ok_def r shape_ok_transition)
    next
      case (Inr device)
      define now where "now = sampled_time h t"
      have "sample_device h now device ob st = ((ob', st'), (report, tr, al))"
        using enabled assms(1) Inr by (simp add: Sample_def Let_def sampled_time_def now_def)
      then obtain v ob1 ob2 st2 ob3 st3 ob4 ob5 where p:
        "judge_window h now (time_sub now (ob_previousAt ob)) (valid_window now ob device) (take_counters h now device ob) = (v, ob1)"
        "recordHour h now (vd_State v) (vd_P99 v) (device_delta ob device)
           (swap_delta (valid_window now ob device) (device_delta ob device) (dh_Swap h) ob) device
           (has_previous ob device) (valid_window now ob device) ob1 st = (ob2, st2)"
        "train h now v ob2 st2 = (ob3, st3)"
        "report = limitDiskWriteReport
           \<lparr> rp_Summary = sample_summary h now (time_sub now (ob_previousAt ob)) (has_previous ob device)
               (valid_window now ob device) (device_delta ob device) device v ob3,
             rp_Writers = vd_Writers v, rp_AvailableCount = vd_Available v, rp_ReturnedCount = 0, rp_Truncated = False \<rparr>
           diskWriteMaxWriters"
        "diskTransition (rp_Summary report) ob3 = (ob4, tr)" "alert h (rp_Summary report) ob4 st3 = (ob5, st', al)"
        "ob' = ob5\<lparr> ob_lastReport := report \<rparr>"
        by (rule sample_device_parts)
      have s0: "shape_ok (take_counters h now device ob)" using ok(1) by (rule shape_ok_take_counters)
      note j = shape_ok_judge [OF p(1) s0]
      have "shape_ok ob2" "ob_executableModels ob2 = ob_executableModels ob1"
        using p(2) j(1) shape_ok_recordHour models_recordHour by (metis fst_conv)+
      then have "shape_ok ob3 \<and> length (ob_executableModels ob3) \<le> 32"
        using p(3) shape_ok_train [of ob2 h now v st2] j(2) ok(2) by simp
      then have s5: "shape_ok ob5" "length (ob_executableModels ob5) \<le> 32"
        using p(5,6) shape_ok_transition shape_ok_alert models_kept(4,5) by (metis fst_conv)+
      have "alert_view ob1 = alert_view ob" using p(1) alert_view_judge alert_view_take_counters by (metis snd_conv)
      moreover have "alert_view ob2 = alert_view ob1" using p(2) alert_view_recordHour(1) by (metis fst_conv)
      moreover have "alert_view ob3 = alert_view ob2" using p(3) alert_view_train(1) by (metis fst_conv)
      moreover have "alert_view ob4 = alert_view ob3" using p(5) alert_view_transition by (metis fst_conv)
      ultimately have "alerts_ok ob4" using ok(3) alerts_ok_cong [of ob4 ob] by simp
      then have "alerts_ok ob5" using p(6) alerts_ok_alert by (metis fst_conv)
      then have "alerts_ok ob'" by (simp add: p(7) alerts_ok_def)
      moreover have "report_ok report" unfolding p(4) by (rule report_ok_sample [OF p(1) s0])
      ultimately show ?thesis using s5 by (simp add: observer_ok_def p(7))
    qed
  qed
  then show "observer_ok ob'" "report_ok report" by simp_all
qed

lemma shape_ok_restore_record: "shape_ok (fst acc) \<Longrightarrow> shape_ok (fst (restore_record r acc))"
proof -
  assume acc: "shape_ok (fst acc)"
  have contexts: "shape_ok ob \<Longrightarrow> shape_ok (fold restore_context cs ob)" for cs ob
    by (rule fold_invariant)
      (auto simp: restore_context_def shape_ok_def baseline_of_def split: option.splits)
  have executables: "shape_ok ob \<Longrightarrow> shape_ok (fold restore_executable es ob)" for es ob
    by (rule fold_invariant)
      (simp_all add: restore_executable_def Let_def shape_ok_def baseline_of_def models_ok_update histogram_at_ok)
  have point: "shape_ok ob \<Longrightarrow> shape_ok (ob\<lparr> ob_volumePoints := ob_volumePoints ob @ [restored_point t b g] \<rparr>)" for ob t b g
    by (simp add: shape_ok_def baseline_of_def restored_point_def)
  show ?thesis
    using acc by (simp add: restore_record_def Let_def case_prod_beta contexts executables point)
qed

lemma observer_ok_restored: "observer_ok (NewDiskWriteObserver en now st policy)"
proof -
  have fresh: "shape_ok (fresh_observer policy)"
    by (simp add: shape_ok_def fresh_observer_def baseline_of_def hour_ok_def)
  then have start: "shape_ok (restore_alerts st (fresh_observer policy))"
    by (simp add: restore_alerts_def shape_ok_def baseline_of_def Let_def split: sum.splits option.splits)
  have records: "shape_ok (fst acc) \<Longrightarrow> shape_ok (fst (fold restore_record rs acc))" for rs acc
    by (rule fold_invariant) (simp_all add: shape_ok_restore_record)
  have resumed: "models_ok (hw_executableHistograms (resumed_hour cp))" for cp
  proof -
    have "models_ok ms \<Longrightarrow> models_ok (fold (\<lambda>e. AList.update (eh_Executable e) (diskHistogramFromRecord (eh_Histogram e))) es ms)"
      for es ms by (rule fold_invariant) (simp_all add: models_ok_update)
    from this [of "[]"] show ?thesis by (simp add: resumed_hour_def Let_def)
  qed
  let ?ob = "restore_alerts st (fresh_observer policy)"
  have shaped: "shape_ok (restore en now st (fresh_observer policy)) \<and>
      length (ob_executableModels (restore en now st (fresh_observer policy))) \<le> 32"
  proof (cases "BaselineRetentionDays (ob_policy ?ob) \<le> 0 \<or>
      (\<exists>e. loadRecordsWithCheckpoint en (he_AddDays en now (- BaselineRetentionDays (ob_policy ?ob))) st = Inl e)")
    case True
    then have "restore en now st (fresh_observer policy) = ?ob" by (auto simp: restore_def Let_def)
    moreover have "ob_executableModels ?ob = []"
      by (simp add: restore_alerts_def fresh_observer_def Let_def split: sum.splits option.splits)
    ultimately show ?thesis using start by simp
  next
    case False
    then obtain rs cp where load: "loadRecordsWithCheckpoint en
        (he_AddDays en now (- BaselineRetentionDays (ob_policy ?ob))) st = Inr (rs, cp)"
      by (metis prod.exhaust sum.exhaust)
    obtain oba newest where acc: "fold restore_record rs (?ob, None) = (oba, newest)" by (metis prod.exhaust)
    define ob1 where "ob1 = (case newest of
        None \<Rightarrow> oba
      | Some n \<Rightarrow> oba\<lparr> ob_previousAt := hw_LastSampleAt n,
          ob_previousDevice := \<lparr> dd_BytesWritten = hw_DeviceBytes n, dd_DeviceCount = hw_DeviceCount n,
            dd_Identity = hw_DeviceIdentity n, dd_Source = hw_DeviceSource n \<rparr> \<rparr>)"
    define ob2 where "ob2 = (case cp of
        None \<Rightarrow> ob1
      | Some cp \<Rightarrow>
          let ob = ob1\<lparr> ob_currentHour := Some (resumed_hour cp) \<rparr> in
          if hw_State cp = DiskWriteStateHigh \<or> hw_State cp = DiskWriteStateUnusual
          then ob\<lparr> ob_lastState := hw_State cp \<rparr> else ob)"
    have run: "restore en now st (fresh_observer policy) = trimExecutableModels ob2"
      using False load unfolding restore_def Let_def ob2_def ob1_def by (simp add: acc)
    have "shape_ok oba" using records [of "(?ob, None)" rs] start by (simp add: acc)
    then have "shape_ok ob1" by (simp add: ob1_def shape_ok_def baseline_of_def split: option.splits)
    then have "shape_ok ob2"
      using resumed by (simp add: ob2_def Let_def shape_ok_def baseline_of_def hour_ok_def split: option.splits)
    then show ?thesis unfolding run using trim_bounded [of ob2] by (simp add: shape_ok_trim) (simp add: shape_ok_def)
  qed
  have "alerts_ok ?ob"
    using loaded_alerts [of st]
    by (auto simp: restore_alerts_def fresh_observer_def alerts_ok_def Let_def split: sum.splits option.splits)
  then have alerts: "alerts_ok (restore en now st (fresh_observer policy))"
    using alerts_ok_cong [OF alert_view_restore] by blast
  have report: "ob_lastReport (restore en now st (fresh_observer policy)) = zero_report"
  proof -
    have contexts: "ob_lastReport (fold restore_context cs ob) = ob_lastReport ob" for cs ob
      by (rule fold_frame) (simp add: restore_context_def)
    have "ob_lastReport (fold restore_executable es ob) = ob_lastReport ob" for es ob
      by (rule fold_frame) (simp add: restore_executable_def Let_def)
    with contexts have "ob_lastReport (fst (restore_record r acc)) = ob_lastReport (fst acc)" for r acc
      by (simp add: restore_record_def Let_def case_prod_beta)
    then have "ob_lastReport (fst (fold restore_record rs (ob, None))) = ob_lastReport ob" for rs and ob :: DiskWriteObserver
      using fold_frame [of "\<lambda>a. ob_lastReport (fst a)" restore_record rs "(ob, None)"] by simp
    moreover have "ob_lastReport (trimExecutableModels ob) = ob_lastReport ob" for ob
      by (simp add: trimExecutableModels_def Let_def)
    ultimately have "ob_lastReport (restore en now st ob) = ob_lastReport (restore_alerts st ob)" for ob
      by (simp add: restore_def Let_def case_prod_beta split: sum.splits option.splits)
    moreover have "ob_lastReport ?ob = zero_report"
      by (simp add: restore_alerts_def fresh_observer_def Let_def split: sum.splits option.splits)
    ultimately show ?thesis by simp
  qed
  have "report_ok zero_report"
    unfolding zero_report_def by (rule report_ok_bare) (simp_all add: disabledDiskWriteSummary_def)
  with shaped alerts report show ?thesis by (simp add: observer_ok_def NewDiskWriteObserver_def)
qed

lemma run_ok:
  "observer_ok ob \<Longrightarrow> observer_ok (fst (fst (disk_run events (ob, st)))) \<and>
     list_all (\<lambda>r. report_ok (fst r)) (snd (disk_run events (ob, st)))"
proof (induction events arbitrary: ob st)
  case (Cons e events)
  show ?case
  proof (cases e)
    case (TakeSample h t)
    obtain ob' st' report tr al where s: "Sample h t ob st = ((ob', st'), (report, tr, al))" by (metis prod.exhaust)
    from observer_ok_Sample [OF s Cons.prems] Cons.IH [of ob' st'] show ?thesis
      by (simp add: TakeSample s case_prod_beta)
  next
    case (UseContext name)
    have "shape_ok ob \<Longrightarrow> shape_ok (SetContext name ob)"
      by (simp add: SetContext_def Let_def shape_ok_def baseline_of_def)
    then have "observer_ok (SetContext name ob)"
      using Cons.prems by (simp add: observer_ok_def) (simp add: SetContext_def Let_def alerts_ok_def)
    with UseContext Cons.IH [of "SetContext name ob" st] show ?thesis by (simp add: case_prod_beta)
  next
    case (UseOwnership ps)
    have "observer_ok (SetProcessOwnership ps ob)"
      using Cons.prems by (simp add: observer_ok_def SetProcessOwnership_def alerts_ok_def shape_ok_def baseline_of_def)
    with UseOwnership Cons.IH [of "SetProcessOwnership ps ob" st] show ?thesis by (simp add: case_prod_beta)
  next
    case (Stop h)
    with Cons show ?thesis by (simp add: case_prod_beta)
  next
    case (Restart en now policy)
    with Cons.IH [OF observer_ok_restored] show ?thesis by (simp add: case_prod_beta)
  qed
qed simp

text \<open>
  Claim C25. The observer keeps its shape. From any files on, after any sequence of samples, changes of
  context and ownership, stops and restarts: every histogram has its 64 buckets, at most 32
  executables are modelled, the dominance window holds at most 40 names, no interval's swap bytes
  exceed its bytes and the day's alerts stay within zero and four; and every report has at most
  twenty distinct writers sorted by bytes, says truthfully whether it is truncated, and gives a swap
  share that is a fraction.
\<close>

theorem disk_observer_well_formed:
  "case disk_run events (NewDiskWriteObserver en now st policy, st) of
     ((ob, st'), results) \<Rightarrow> observer_ok ob \<and> list_all (\<lambda>r. report_ok (fst r)) results"
  using run_ok [OF observer_ok_restored] by (simp add: case_prod_beta)

end
