(* ===== verification/Swap_Proof.thy ===== *)
theory Swap_Proof
  imports Swap_Thrash
begin

text \<open>
  When the derate of a thrash episode is lifted, as a function of the history of samples. The
  reference below speaks of samples only: which of them are in an episode, which show leased work
  under its share of memory, and how far apart they are. It does not mention the fields of the latch.
\<close>

section \<open>The proof that the cause is external\<close>

definition in_episode :: "Thresholds \<Rightarrow> Snapshot list \<Rightarrow> bool" where
  "in_episode t ss = verdict (rev (map (band_of t) ss))"

text \<open>
  Leased work has been under its share since the sample \<open>q\<close>, which is in the current episode, as
  every sample after it.
\<close>

inductive quiet_from :: "Thresholds \<Rightarrow> WorkLimits \<Rightarrow> Snapshot \<Rightarrow> Snapshot list \<Rightarrow> bool" for t w where
  quiet_starts: "in_episode t (ss @ [q]) \<Longrightarrow> \<not> agents_dominate q w \<Longrightarrow> quiet_from t w q (ss @ [q])"
| quiet_lasts: "quiet_from t w q ss \<Longrightarrow> in_episode t (ss @ [s]) \<Longrightarrow> \<not> agents_dominate s w \<Longrightarrow>
    quiet_from t w q (ss @ [s])"

text \<open>
  The proof is earned by a quiet stretch as long as the release window. It holds for the rest of the
  episode, and for an episode that begins less than a window after the end of one that had it, when
  no sample was missing in between (\<open>lapsed r\<close>: the episode ended at \<open>r\<close> and none began since).
\<close>

inductive earned :: "Thresholds \<Rightarrow> WorkLimits \<Rightarrow> Snapshot list \<Rightarrow> bool"
  and lapsed :: "Thresholds \<Rightarrow> WorkLimits \<Rightarrow> Snapshot \<Rightarrow> Snapshot list \<Rightarrow> bool" for t w where
  earned_quiet: "quiet_from t w q ss \<Longrightarrow> 0 < swapThrashReleaseWindow w \<Longrightarrow>
    swapThrashReleaseWindow w \<le> time_sub (sn_Timestamp (last ss)) (sn_Timestamp q) \<Longrightarrow> earned t w ss"
| earned_stays: "earned t w ss \<Longrightarrow> in_episode t (ss @ [s]) \<Longrightarrow> earned t w (ss @ [s])"
| earned_again: "lapsed t w r ss \<Longrightarrow> in_episode t (ss @ [s]) \<Longrightarrow>
    time_sub (sn_Timestamp s) (sn_Timestamp r) < swapThrashReleaseWindow w \<Longrightarrow> earned t w (ss @ [s])"
| lapse_starts: "earned t w ss \<Longrightarrow> \<not> in_episode t (ss @ [r]) \<Longrightarrow> lapsed t w r (ss @ [r])"
| lapse_lasts: "lapsed t w r ss \<Longrightarrow> \<not> in_episode t (ss @ [s]) \<Longrightarrow> sn_SwapIOAvailable s \<Longrightarrow>
    lapsed t w r (ss @ [s])"


section \<open>One sample\<close>

lemma dominate_observed [simp]: "agents_dominate (snd (observe_thrash l s t)) w = agents_dominate s w"
  and timestamp_observed [simp]: "sn_Timestamp (snd (observe_thrash l s t)) = sn_Timestamp s"
  by (simp_all add: observe_snapshot agents_dominate_def swapThrashAgentShareMB_def swapThrashCoordinatedRSSMB_def)

lemma attribute_fields:
  "tl_quietSince (fst (attribute l s w)) =
     (if agents_dominate s w then 0
      else if IsZero (tl_quietSince l) then sn_Timestamp s else tl_quietSince l)"
  "tl_proven (fst (attribute l s w)) =
     (tl_proven l \<or> \<not> agents_dominate s w \<and> 0 < swapThrashReleaseWindow w \<and>
        swapThrashReleaseWindow w \<le> time_sub (sn_Timestamp s) (tl_quietSince (fst (attribute l s w))))"
  "tl_external (fst (attribute l s w)) =
     (\<not> agents_dominate s w \<and> 0 < swapThrashReleaseWindow w \<and> tl_proven (fst (attribute l s w)))"
  by (auto simp: attribute_def Let_def)

lemma continue_fields:
  "tl_quietSince (fst (continue_episode b l s w)) = tl_quietSince (fst (attribute l s w))"
  "tl_proven (fst (continue_episode b l s w)) = tl_proven (fst (attribute l s w))"
  "tl_external (fst (continue_episode b l s w)) = tl_external (fst (attribute l s w))"
  by (simp_all add: continue_episode_def Let_def case_prod_beta)

lemma advance_entering:
  assumes "\<not> tl_latched l" and "tl_latched (fst (advance n l s t u))"
  defines "w \<equiv> normalizeWorkLimits n u" and "l' \<equiv> fst (advance n l s t u)"
  shows "tl_quietSince l' = (if agents_dominate s w then 0 else sn_Timestamp s)"
    and "tl_proven l' \<longleftrightarrow> 0 < swapThrashReleaseWindow w \<and> \<not> IsZero (tl_lastExternalRelease l) \<and>
           time_sub (sn_Timestamp s) (tl_lastExternalRelease l) < swapThrashReleaseWindow w"
    and "tl_external l' \<longleftrightarrow> \<not> agents_dominate s w \<and> 0 < swapThrashReleaseWindow w \<and> tl_proven l'"
  using assms(1,2)
  by (auto simp: l'_def w_def advance_counts advance_eq Let_def enter_episode_def case_prod_beta attribute_fields IsZero_def)

lemma advance_staying:
  assumes "tl_latched l" and "tl_latched (fst (advance n l s t u))"
  defines "w \<equiv> normalizeWorkLimits n u" and "l' \<equiv> fst (advance n l s t u)"
  shows "tl_quietSince l' =
           (if agents_dominate s w then 0 else if IsZero (tl_quietSince l) then sn_Timestamp s else tl_quietSince l)"
    and "tl_proven l' \<longleftrightarrow> tl_proven l \<or> \<not> agents_dominate s w \<and> 0 < swapThrashReleaseWindow w \<and>
           swapThrashReleaseWindow w \<le> time_sub (sn_Timestamp s) (tl_quietSince l')"
    and "tl_external l' \<longleftrightarrow> \<not> agents_dominate s w \<and> 0 < swapThrashReleaseWindow w \<and> tl_proven l'"
proof -
  let ?o = "fst (observe_thrash l s t)"
  have o: "tl_latched ?o" using assms(2) by (simp add: advance_counts)
  then have "l' = fst (continue_episode l ?o (snd (observe_thrash l s t)) w)"
    using assms(1) by (simp add: l'_def w_def advance_eq Let_def)
  then show "tl_quietSince l' =
           (if agents_dominate s w then 0 else if IsZero (tl_quietSince l) then sn_Timestamp s else tl_quietSince l)"
    "tl_proven l' \<longleftrightarrow> tl_proven l \<or> \<not> agents_dominate s w \<and> 0 < swapThrashReleaseWindow w \<and>
           swapThrashReleaseWindow w \<le> time_sub (sn_Timestamp s) (tl_quietSince l')"
    "tl_external l' \<longleftrightarrow> \<not> agents_dominate s w \<and> 0 < swapThrashReleaseWindow w \<and> tl_proven l'"
    using observe_frame [OF o] by (simp_all add: continue_fields attribute_fields)
qed

lemma advance_releasing:
  assumes "tl_latched l" and "\<not> tl_latched (fst (advance n l s t u))"
  shows "tl_quietSince (fst (advance n l s t u)) = 0" "\<not> tl_proven (fst (advance n l s t u))"
    "\<not> tl_external (fst (advance n l s t u))"
    "tl_lastExternalRelease (fst (advance n l s t u)) = (if tl_proven l then sn_Timestamp s else 0)"
proof -
  have "\<not> tl_latched (fst (observe_thrash l s t))" using assms(2) by (simp add: advance_counts)
  then show "tl_quietSince (fst (advance n l s t u)) = 0" "\<not> tl_proven (fst (advance n l s t u))"
    "\<not> tl_external (fst (advance n l s t u))"
    "tl_lastExternalRelease (fst (advance n l s t u)) = (if tl_proven l then sn_Timestamp s else 0)"
    using assms(1) by (simp_all add: advance_eq Let_def release_episode_def zero_latch_def)
qed

lemma observe_idle:
  assumes "\<not> tl_latched l" and "\<not> tl_latched (fst (observe_thrash l s t))"
  shows "fst (observe_thrash l s t) = zero_latch \<and> \<not> (sn_SwapIOAvailable s \<and> 0 < SwapOutThrashMBPerSecond t) \<or>
    sn_SwapIOAvailable s \<and> 0 < SwapOutThrashMBPerSecond t \<and>
    tl_quietSince (fst (observe_thrash l s t)) = tl_quietSince l \<and>
    tl_proven (fst (observe_thrash l s t)) = tl_proven l \<and> tl_external (fst (observe_thrash l s t)) = tl_external l \<and>
    tl_lastExternalRelease (fst (observe_thrash l s t)) = tl_lastExternalRelease l"
  by (auto simp: observe_thrash_def count_sample_def Let_def)

lemma advance_idle:
  assumes "\<not> tl_latched l" and "\<not> tl_latched (fst (advance n l s t u))"
    and "tl_quietSince l = 0 \<and> \<not> tl_proven l \<and> \<not> tl_external l"
  shows "tl_quietSince (fst (advance n l s t u)) = 0" "\<not> tl_proven (fst (advance n l s t u))"
    "\<not> tl_external (fst (advance n l s t u))"
    "tl_lastExternalRelease (fst (advance n l s t u)) =
       (if sn_SwapIOAvailable s \<and> 0 < SwapOutThrashMBPerSecond t then tl_lastExternalRelease l else 0)"
  using assms observe_idle [of l s t]
  by (auto simp: advance_counts advance_eq Let_def zero_latch_def split: if_splits)


section \<open>The history\<close>

definition latch_after :: "int \<Rightarrow> Thresholds \<Rightarrow> WorkLimits \<Rightarrow> Snapshot list \<Rightarrow> swapThrashLatch" where
  "latch_after n t u ss = fst (thrash_run n t u zero_latch ss)"

lemma thrash_run_append:
  "fst (thrash_run n t u l (ss @ vs)) = fst (thrash_run n t u (fst (thrash_run n t u l ss)) vs)"
  by (induction ss arbitrary: l) (simp_all add: thrash_run_Cons del: thrash_run.simps(2))

lemma latch_after_snoc: "latch_after n t u (ss @ [s]) = fst (advance n (latch_after n t u ss) s t u)"
  by (simp add: latch_after_def thrash_run_append thrash_run_Cons del: thrash_run.simps(2))

lemma latched_after: "tl_latched (latch_after n t u ss) = in_episode t ss"
  using run_tracks [OF zero_tracks, of n t u ss] by (simp add: latch_after_def in_episode_def tracks_def)

lemma empty_history [simp]: "\<not> in_episode t []"
  by (simp add: in_episode_def)

text \<open>What the latch holds was earned.\<close>

lemma latch_is_earned:
  fixes n t u ss
  defines "w \<equiv> normalizeWorkLimits n u" and "l \<equiv> latch_after n t u ss"
  shows "(in_episode t ss \<longrightarrow>
            (tl_quietSince l \<noteq> 0 \<longrightarrow> (\<exists>q. quiet_from t w q ss \<and> sn_Timestamp q = tl_quietSince l)) \<and>
            (tl_proven l \<longrightarrow> earned t w ss) \<and>
            (tl_external l \<longleftrightarrow> \<not> agents_dominate (last ss) w \<and> 0 < swapThrashReleaseWindow w \<and> tl_proven l)) \<and>
         (\<not> in_episode t ss \<longrightarrow> tl_quietSince l = 0 \<and> \<not> tl_proven l \<and> \<not> tl_external l \<and>
            (tl_lastExternalRelease l \<noteq> 0 \<longrightarrow> (\<exists>r. lapsed t w r ss \<and> sn_Timestamp r = tl_lastExternalRelease l)))"
    (is "?latched ss l \<and> ?idle ss l")
  unfolding l_def
proof (induction ss rule: rev_induct)
  case Nil
  then show ?case by (simp add: latch_after_def zero_latch_def)
next
  case (snoc s ss)
  let ?l = "latch_after n t u ss" and ?l' = "latch_after n t u (ss @ [s])"
  note now = latched_after [of n t u "ss @ [s]"] and before = latched_after [of n t u ss]
  show ?case
  proof (cases "in_episode t (ss @ [s])")
    case True
    note l' = latch_after_snoc [of n t u ss s]
    have latched: "tl_latched (fst (advance n ?l s t u))" using True now l' by simp
    have quiet: "\<exists>q. quiet_from t w q (ss @ [s]) \<and> sn_Timestamp q = tl_quietSince ?l'" if "tl_quietSince ?l' \<noteq> 0"
    proof (cases "in_episode t ss \<and> tl_quietSince ?l \<noteq> 0")
      case on: True
      then obtain q where "quiet_from t w q ss" "sn_Timestamp q = tl_quietSince ?l" using snoc by blast
      moreover have "\<not> agents_dominate s w" "tl_quietSince ?l' = tl_quietSince ?l"
        using that on before advance_staying(1) [OF _ latched] by (auto simp: l' w_def IsZero_def split: if_splits)
      ultimately show ?thesis using quiet_lasts True by metis
    next
      case off: False
      have "\<not> agents_dominate s w \<and> tl_quietSince ?l' = sn_Timestamp s"
      proof (cases "in_episode t ss")
        case True
        then show ?thesis
          using that off before advance_staying(1) [OF _ latched] by (auto simp: l' w_def IsZero_def split: if_splits)
      next
        case False
        then show ?thesis
          using that before advance_entering(1) [OF _ latched] by (auto simp: l' w_def split: if_splits)
      qed
      then show ?thesis using quiet_starts [OF True] by auto
    qed
    have "earned t w (ss @ [s])" if proven: "tl_proven ?l'"
    proof (cases "in_episode t ss")
      case on: True
      show ?thesis
      proof (cases "tl_proven ?l")
        case True
        then show ?thesis using snoc on \<open>in_episode t (ss @ [s])\<close> earned_stays by blast
      next
        case False
        then have span: "0 < swapThrashReleaseWindow w"
            "swapThrashReleaseWindow w \<le> time_sub (sn_Timestamp s) (tl_quietSince ?l')"
          and calm: "\<not> agents_dominate s w"
          using proven on before advance_staying(2) [OF _ latched] by (auto simp: l' w_def)
        have "tl_quietSince ?l' \<noteq> 0 \<or> sn_Timestamp s = 0"
          using calm on before advance_staying(1) [OF _ latched] by (auto simp: l' w_def IsZero_def)
        then obtain q where "quiet_from t w q (ss @ [s])" "sn_Timestamp q = tl_quietSince ?l'"
          using quiet span by fastforce
        then show ?thesis using earned_quiet span by simp
      qed
    next
      case False
      then have span: "0 < swapThrashReleaseWindow w" "tl_lastExternalRelease ?l \<noteq> 0"
          "time_sub (sn_Timestamp s) (tl_lastExternalRelease ?l) < swapThrashReleaseWindow w"
        using proven before advance_entering(2) [OF _ latched] by (auto simp: l' w_def IsZero_def)
      then obtain r where "lapsed t w r ss" "sn_Timestamp r = tl_lastExternalRelease ?l" using snoc False by blast
      then show ?thesis using earned_again True span by simp
    qed
    moreover have "tl_external ?l' \<longleftrightarrow> \<not> agents_dominate s w \<and> 0 < swapThrashReleaseWindow w \<and> tl_proven ?l'"
      using before advance_entering(3) [OF _ latched] advance_staying(3) [OF _ latched]
      by (cases "in_episode t ss") (auto simp: l' w_def)
    ultimately show ?thesis using True quiet by simp
  next
    case False
    note l' = latch_after_snoc [of n t u ss s]
    have idle: "\<not> tl_latched (fst (advance n ?l s t u))" using False now l' by simp
    show ?thesis
    proof (cases "in_episode t ss")
      case True
      then have on: "tl_latched ?l" using before by simp
      have "lapsed t w s (ss @ [s])" if "tl_proven ?l" using that snoc True False lapse_starts by blast
      then show ?thesis using False advance_releasing [OF on idle] by (auto simp: l')
    next
      case out: False
      then have off: "\<not> tl_latched ?l" using before by simp
      have still: "tl_quietSince ?l = 0 \<and> \<not> tl_proven ?l \<and> \<not> tl_external ?l" using snoc out by blast
      note a = advance_idle [OF off idle still]
      have "\<exists>r. lapsed t w r (ss @ [s]) \<and> sn_Timestamp r = tl_lastExternalRelease ?l'"
        if "tl_lastExternalRelease ?l' \<noteq> 0"
      proof -
        have "sn_SwapIOAvailable s" "tl_lastExternalRelease ?l' = tl_lastExternalRelease ?l"
          using that a(4) by (auto simp: l' split: if_splits)
        then show ?thesis using that snoc out lapse_lasts [OF _ False] by metis
      qed
      then show ?thesis using False a by (simp add: l')
    qed
  qed
qed

text \<open>What was earned is in the latch, when the clock does not go back.\<close>

definition clock_ordered :: "Snapshot list \<Rightarrow> bool" where
  "clock_ordered ss \<longleftrightarrow> sorted (map sn_Timestamp ss) \<and> list_all (\<lambda>s. \<not> IsZero (sn_Timestamp s)) ss"

lemma clock_ordered_snoc:
  "clock_ordered (ss @ [s]) \<Longrightarrow> clock_ordered ss" "clock_ordered (ss @ [s]) \<Longrightarrow> sn_Timestamp s \<noteq> 0"
  by (simp_all add: clock_ordered_def sorted_append IsZero_def)

lemma in_episode_threshold: "in_episode t ss \<Longrightarrow> 0 < SwapOutThrashMBPerSecond t"
proof (rule ccontr)
  assume "in_episode t ss" and "\<not> 0 < SwapOutThrashMBPerSecond t"
  then have "map (band_of t) ss = replicate (length ss) Missing"
    by (intro replicate_eqI) (auto simp: band_of_def)
  then have "rev (map (band_of t) ss) = replicate (length ss) Missing" by simp
  then show False using \<open>in_episode t ss\<close> by (cases ss) (auto simp: in_episode_def simp del: rev_map)
qed

lemma quiet_in: "quiet_from t w q ss \<Longrightarrow> in_episode t ss \<and> \<not> agents_dominate (last ss) w \<and> ss \<noteq> [] \<and> q \<in> set ss"
  by (induction rule: quiet_from.induct) auto

lemma quiet_is_latched:
  assumes "quiet_from t (normalizeWorkLimits n u) q ss" and "clock_ordered ss"
  shows "tl_quietSince (latch_after n t u ss) \<noteq> 0 \<and> tl_quietSince (latch_after n t u ss) \<le> sn_Timestamp q"
  using assms
proof (induction rule: quiet_from.induct)
  case (quiet_starts ss q)
  let ?l = "latch_after n t u ss"
  have latched: "tl_latched (fst (advance n ?l q t u))"
    using quiet_starts(1) latched_after [of n t u "ss @ [q]"] by (simp add: latch_after_snoc)
  have le: "tl_quietSince ?l \<le> sn_Timestamp q" if on: "in_episode t ss" "tl_quietSince ?l \<noteq> 0"
  proof -
    obtain p where p: "quiet_from t (normalizeWorkLimits n u) p ss" "sn_Timestamp p = tl_quietSince ?l"
      using latch_is_earned [of t ss n u] on by blast
    then show ?thesis using quiet_in [OF p(1)] quiet_starts(3) by (auto simp: clock_ordered_def sorted_append)
  qed
  show ?case
    using quiet_starts clock_ordered_snoc(2) [OF quiet_starts(3)] le latched_after [of n t u ss]
      advance_entering(1) [OF _ latched] advance_staying(1) [OF _ latched]
    by (cases "in_episode t ss") (auto simp: latch_after_snoc IsZero_def)
next
  case (quiet_lasts q ss s)
  let ?l = "latch_after n t u ss"
  have latched: "tl_latched (fst (advance n ?l s t u))" "tl_latched ?l"
    using quiet_lasts(2) latched_after [of n t u "ss @ [s]"] quiet_in [OF quiet_lasts(1)] latched_after [of n t u ss]
    by (simp_all add: latch_after_snoc)
  show ?case
    using quiet_lasts clock_ordered_snoc [OF quiet_lasts(5)] advance_staying(1) [OF latched(2,1)]
    by (simp add: latch_after_snoc IsZero_def)
qed

lemma earned_is_latched:
  fixes t n u
  defines "w \<equiv> normalizeWorkLimits n u"
  shows "earned t w ss \<Longrightarrow> clock_ordered ss \<Longrightarrow>
           in_episode t ss \<and> tl_proven (latch_after n t u ss) \<and> 0 < swapThrashReleaseWindow w"
    and "lapsed t w r ss \<Longrightarrow> clock_ordered ss \<Longrightarrow>
           \<not> in_episode t ss \<and> tl_lastExternalRelease (latch_after n t u ss) = sn_Timestamp r \<and>
           sn_Timestamp r \<noteq> 0 \<and> 0 < swapThrashReleaseWindow w \<and> 0 < SwapOutThrashMBPerSecond t"
proof (induction rule: earned_lapsed.inducts)
  case (earned_quiet q ss)
  note q = quiet_in [OF earned_quiet(1)]
  obtain vs s where ss: "ss = vs @ [s]" using q by (metis append_butlast_last_id)
  note since = quiet_is_latched [OF earned_quiet(1,4) [unfolded w_def]]
  have "time_sub (sn_Timestamp s) (sn_Timestamp q) \<le> time_sub (sn_Timestamp s) (tl_quietSince (latch_after n t u ss))"
    using since unfolding time_sub_def by (intro max.mono min.mono) auto
  then have span: "swapThrashReleaseWindow w \<le> time_sub (sn_Timestamp s) (tl_quietSince (latch_after n t u ss))"
    using earned_quiet(3) by (simp add: ss)
  have latched: "tl_latched (fst (advance n (latch_after n t u vs) s t u))"
    using q latched_after [of n t u ss] by (simp add: ss latch_after_snoc)
  have "tl_proven (latch_after n t u ss)"
  proof (cases "in_episode t vs")
    case True
    then show ?thesis
      using advance_staying(2) [OF _ latched] latched_after [of n t u vs] q earned_quiet(2) span
      by (simp add: ss latch_after_snoc w_def)
  next
    case False
    then have "tl_quietSince (latch_after n t u ss) = sn_Timestamp s"
      using advance_entering(1) [OF _ latched] latched_after [of n t u vs] q by (simp add: ss latch_after_snoc w_def)
    then show ?thesis using span earned_quiet(2) by simp
  qed
  then show ?case using q earned_quiet(2) by simp
next
  case (earned_stays ss s)
  then have "tl_latched (latch_after n t u ss)" "tl_latched (fst (advance n (latch_after n t u ss) s t u))"
    "tl_proven (latch_after n t u ss)" "0 < swapThrashReleaseWindow w"
    using clock_ordered_snoc(1) latched_after [of n t u "ss @ [s]"] latched_after [of n t u ss]
    by (simp_all add: latch_after_snoc)
  then show ?case using earned_stays(3) advance_staying(2) by (simp add: latch_after_snoc)
next
  case (earned_again r ss s)
  then have "\<not> tl_latched (latch_after n t u ss)" "tl_latched (fst (advance n (latch_after n t u ss) s t u))"
    "tl_lastExternalRelease (latch_after n t u ss) = sn_Timestamp r" "sn_Timestamp r \<noteq> 0"
    "0 < swapThrashReleaseWindow w"
    using clock_ordered_snoc(1) latched_after [of n t u "ss @ [s]"] latched_after [of n t u ss]
    by (simp_all add: latch_after_snoc)
  then show ?case using earned_again(3,4) advance_entering(2) by (simp add: latch_after_snoc w_def IsZero_def)
next
  case (lapse_starts ss r)
  then have "tl_latched (latch_after n t u ss)" "\<not> tl_latched (fst (advance n (latch_after n t u ss) r t u))"
    "tl_proven (latch_after n t u ss)" "0 < swapThrashReleaseWindow w"
    using clock_ordered_snoc(1) latched_after [of n t u "ss @ [r]"] latched_after [of n t u ss]
    by (simp_all add: latch_after_snoc)
  then show ?case
    using lapse_starts advance_releasing(4) clock_ordered_snoc in_episode_threshold [of t ss] by (simp add: latch_after_snoc)
next
  case (lapse_lasts r ss s)
  note h = lapse_lasts(2) [OF clock_ordered_snoc(1) [OF lapse_lasts(5)]]
  have off: "\<not> tl_latched (latch_after n t u ss)" "\<not> tl_latched (fst (advance n (latch_after n t u ss) s t u))"
    using h lapse_lasts(3) latched_after [of n t u "ss @ [s]"] latched_after [of n t u ss]
    by (simp_all add: latch_after_snoc)
  have "tl_quietSince (latch_after n t u ss) = 0 \<and> \<not> tl_proven (latch_after n t u ss) \<and> \<not> tl_external (latch_after n t u ss)"
    using latch_is_earned [of t ss n u] h by blast
  then show ?case using h lapse_lasts(3,4) advance_idle(4) [OF off] by (simp add: latch_after_snoc)
qed

text \<open>
  Claim C33. The derate is lifted exactly on a proof that the history gives. After any samples of an ordered
  clock since a start with nothing to resume, it is lifted when the last sample is in an episode and
  shows leased work under its share of memory, and the episode has earned the proof: leased work was
  under its share at every sample of some stretch of the episode as long as the release window, or
  the episode began within a window of the end of one that had earned it, with no sample missing
  in between.
\<close>

theorem derate_lifts_exactly_on_proof:
  assumes "clock_ordered ss"
  shows "tl_external (fst (thrash_run n t u zero_latch ss)) \<longleftrightarrow>
    in_episode t ss \<and> \<not> agents_dominate (last ss) (normalizeWorkLimits n u) \<and>
    earned t (normalizeWorkLimits n u) ss"
proof -
  let ?w = "normalizeWorkLimits n u" and ?l = "latch_after n t u ss"
  have "in_episode t ss \<Longrightarrow> tl_proven ?l \<Longrightarrow> earned t ?w ss"
    and "in_episode t ss \<Longrightarrow> tl_external ?l \<longleftrightarrow> \<not> agents_dominate (last ss) ?w \<and> 0 < swapThrashReleaseWindow ?w \<and> tl_proven ?l"
    and "\<not> in_episode t ss \<Longrightarrow> \<not> tl_external ?l"
    using latch_is_earned [of t ss n u] by blast+
  then show ?thesis using earned_is_latched(1) [OF _ assms, of t n u] unfolding latch_after_def by blast
qed

definition storm_history :: "Snapshot list" where
  "storm_history = [storm (seconds 100), storm (seconds 130), storm (seconds 500)]"

theorem derate_lifts_exactly_on_proof_witness:
  "tl_external (fst (thrash_run 8 (default_thresholds 16384) (defaultWorkLimits 8) zero_latch storm_history)) \<and>
   earned (default_thresholds 16384) (normalizeWorkLimits 8 (defaultWorkLimits 8)) storm_history"
proof -
  have "clock_ordered storm_history" by code_simp
  moreover have "tl_external (fst (thrash_run 8 (default_thresholds 16384) (defaultWorkLimits 8) zero_latch storm_history))"
    by code_simp
  ultimately show ?thesis using derate_lifts_exactly_on_proof by blast
qed

end
