(* ===== verification/File_Lock.thy ===== *)
theory File_Lock
  imports Step_System
begin

text \<open>
  The advisory locks of \<^verbatim>\<open>internal/filelock/filelock.go\<close> and
  \<^verbatim>\<open>internal/lockfile/lockfile.go\<close>. A lock is a sidecar file beside the protected path. The
  operations on one sidecar are defined first as the code has them; then the processes that
  race for it are a step system whose actions are the file-system calls between which another
  process may run, and the goroutines of one process that queue for it are a second one.

  A sidecar carries the decoded ownership record, its modification time and an identity that
  stands for the inode: a write goes to the file that was opened, even when the path has been
  given to another file meanwhile. Times are milliseconds since the Unix epoch. Tokens are
  random; a fresh token is one no earlier acquisition drew. Process \<open>p\<close> runs under process
  identifier \<open>p + 1\<close>, which is not reused.
\<close>

section \<open>The sidecar and the operations on it\<close>

record lock_info =
  li_PID :: int
  li_Timestamp :: int
  li_Token :: string

record side_file =
  sf_Inode :: string
  sf_Info :: "lock_info option"
  sf_ModTime :: int

type_synonym sidecar = "side_file option"

datatype signal_result = Delivered | NotPermitted | NoSuchProcess | SignalFailed

definition isProcessAlive :: "(int \<Rightarrow> signal_result) \<Rightarrow> int \<Rightarrow> bool" where
  "isProcessAlive probe pid \<longleftrightarrow> 0 < pid \<and> (probe pid = Delivered \<or> probe pid = NotPermitted)"

definition readLockInfo :: "sidecar \<Rightarrow> lock_info option" where
  "readLockInfo side =
     (case side of None \<Rightarrow> None
      | Some f \<Rightarrow>
          (case sf_Info f of None \<Rightarrow> None
           | Some i \<Rightarrow> if li_PID i \<le> 0 \<or> li_Timestamp i \<le> 0 then None else Some i))"

definition DefaultTimeout :: int where "DefaultTimeout = 5000"
definition StaleAge :: int where "StaleAge = 30000"
definition pollInterval :: int where "pollInterval = 50"
definition lockInitializationGrace :: int where "lockInitializationGrace = StaleAge"

text \<open>
  \<^verbatim>\<open>isStale\<close> reads the file and, when it finds no usable record, asks for the modification
  time in a second call; \<open>unreadable_is_stale\<close> is that second half.
\<close>

definition unreadable_is_stale :: "int \<Rightarrow> sidecar \<Rightarrow> bool" where
  "unreadable_is_stale now side =
     (case side of None \<Rightarrow> True | Some f \<Rightarrow> \<not> now - sf_ModTime f < lockInitializationGrace)"

definition isStale :: "(int \<Rightarrow> bool) \<Rightarrow> int \<Rightarrow> sidecar \<Rightarrow> bool" where
  "isStale alive now side =
     (case readLockInfo side of
        None \<Rightarrow> unreadable_is_stale now side
      | Some i \<Rightarrow> \<not> alive (li_PID i))"

text \<open>The hard link publishes a complete record or fails because the path exists.\<close>

definition tryCreateLock :: "int \<Rightarrow> int \<Rightarrow> string \<Rightarrow> sidecar \<Rightarrow> sidecar \<times> lock_info option" where
  "tryCreateLock pid now token side =
     (let owner = \<lparr> li_PID = pid, li_Timestamp = now, li_Token = token \<rparr> in
      case side of
        None \<Rightarrow> (Some \<lparr> sf_Inode = token, sf_Info = Some owner, sf_ModTime = now \<rparr>, Some owner)
      | Some f \<Rightarrow> (Some f, None))"

definition removeLock :: "sidecar \<Rightarrow> sidecar" where
  "removeLock side = None"

text \<open>The test of \<^verbatim>\<open>removeOwnedLock\<close> before its removal.\<close>

definition owns_sidecar :: "string \<Rightarrow> sidecar \<Rightarrow> bool" where
  "owns_sidecar token side \<longleftrightarrow>
     token \<noteq> [] \<and> (case readLockInfo side of None \<Rightarrow> False | Some i \<Rightarrow> li_Token i = token)"

definition removeOwnedLock :: "string \<Rightarrow> sidecar \<Rightarrow> sidecar" where
  "removeOwnedLock token side = (if owns_sidecar token side then removeLock side else side)"


section \<open>Processes that race for one sidecar\<close>

text \<open>
  The program counter of one acquisition. \<open>Judging\<close>, \<open>Statting\<close> and \<open>Removing\<close> are the three
  file-system calls of the stale path, \<open>Releasing\<close> and \<open>Unlinking\<close> the two of the release;
  \<open>Writing\<close> is the window of \<^verbatim>\<open>lockfile\<close> between creating the sidecar and filling it.
\<close>

datatype lock_error = LockCanceled | LockTimedOut | LockWriteFailed

datatype lock_pc =
    Idle | Trying | Writing string | Judging | Statting | Removing | Polling
  | Holding string | Releasing string | Unlinking string
  | Failed lock_error | Crashed

record lock_world =
  lw_Side :: sidecar
  lw_Now :: int
  lw_PC :: "nat \<Rightarrow> lock_pc"
  lw_Deadline :: "nat \<Rightarrow> int"
  lw_Used :: "string list"

datatype lock_action =
    Enter nat int | Create nat string | Fill nat | FillFails nat | Judge nat | Stat nat | Discard nat
  | Poll nat | Cancel nat | Unlock nat | Check nat | Unlink nat | Crash nat | Tick nat

definition process_id :: "nat \<Rightarrow> int" where
  "process_id p = int p + 1"

definition process_alive :: "lock_world \<Rightarrow> int \<Rightarrow> bool" where
  "process_alive s =
     isProcessAlive (\<lambda>pid. if lw_PC s (nat (pid - 1)) = Crashed then NoSuchProcess else Delivered)"

definition goto :: "nat \<Rightarrow> lock_pc \<Rightarrow> lock_world \<Rightarrow> lock_world" where
  "goto p c s = s\<lparr> lw_PC := (lw_PC s)(p := c) \<rparr>"

text \<open>An earlier boot, or the older package, may have left a sidecar; its token and inode are taken.\<close>

definition side_tokens :: "sidecar \<Rightarrow> string list" where
  "side_tokens side =
     (case side of None \<Rightarrow> []
      | Some f \<Rightarrow> sf_Inode f # (case sf_Info f of None \<Rightarrow> [] | Some i \<Rightarrow> [li_Token i]))"

definition world_with :: "sidecar \<Rightarrow> int \<Rightarrow> lock_world" where
  "world_with side now =
     \<lparr> lw_Side = side, lw_Now = now, lw_PC = (\<lambda>_. Idle), lw_Deadline = (\<lambda>_. 0), lw_Used = side_tokens side \<rparr>"

definition initial_world :: "int \<Rightarrow> lock_world" where
  "initial_world now = world_with None now"

text \<open>What the two packages have in common: removal of a stale file, release, crashes and time.\<close>

fun common_next :: "lock_action \<Rightarrow> lock_world \<Rightarrow> lock_world option" where
  "common_next (Discard p) s =
     (if lw_PC s p = Removing
      then Some (goto p Trying (s\<lparr> lw_Side := removeLock (lw_Side s) \<rparr>)) else None)"
| "common_next (Unlock p) s =
     (case lw_PC s p of Holding t \<Rightarrow> Some (goto p (Releasing t) s) | _ \<Rightarrow> None)"
| "common_next (Unlink p) s =
     (case lw_PC s p of
        Unlinking t \<Rightarrow> Some (goto p Idle (s\<lparr> lw_Side := removeLock (lw_Side s) \<rparr>))
      | _ \<Rightarrow> None)"
| "common_next (Crash p) s = Some (goto p Crashed s)"
| "common_next (Tick n) s = Some (s\<lparr> lw_Now := lw_Now s + int n \<rparr>)"
| "common_next _ s = None"

definition may_enter :: "lock_pc \<Rightarrow> bool" where
  "may_enter c \<longleftrightarrow> c \<in> {Idle, Failed LockCanceled, Failed LockTimedOut, Failed LockWriteFailed}"

definition enter :: "nat \<Rightarrow> int \<Rightarrow> lock_world \<Rightarrow> lock_world option" where
  "enter p timeout s =
     (if may_enter (lw_PC s p)
      then Some (goto p Trying (s\<lparr> lw_Deadline := (lw_Deadline s)(p := lw_Now s + timeout) \<rparr>))
      else None)"

text \<open>One action of \<^verbatim>\<open>AcquireContext\<close> and of the unlock function it returns.\<close>

fun filelock_next :: "lock_action \<Rightarrow> lock_world \<Rightarrow> lock_world option" where
  "filelock_next (Enter p timeout) s = enter p (if timeout \<le> 0 then DefaultTimeout else timeout) s"
| "filelock_next (Create p token) s =
     (if lw_PC s p = Trying \<and> token \<noteq> [] \<and> token \<notin> set (lw_Used s) then
        (case tryCreateLock (process_id p) (lw_Now s) token (lw_Side s) of
           (side, None) \<Rightarrow> Some (goto p Judging s)
         | (side, Some owner) \<Rightarrow>
             Some (goto p (Holding token) (s\<lparr> lw_Side := side, lw_Used := token # lw_Used s \<rparr>)))
      else None)"
| "filelock_next (Judge p) s =
     (if lw_PC s p = Judging then
        Some (goto p (case readLockInfo (lw_Side s) of
                        None \<Rightarrow> Statting
                      | Some i \<Rightarrow> if process_alive s (li_PID i) then Polling else Removing) s)
      else None)"
| "filelock_next (Stat p) s =
     (if lw_PC s p = Statting then
        Some (goto p (if unreadable_is_stale (lw_Now s) (lw_Side s) then Removing else Polling) s)
      else None)"
| "filelock_next (Poll p) s =
     (if lw_PC s p = Polling
      then Some (goto p (if lw_Deadline s p < lw_Now s then Failed LockTimedOut else Trying) s)
      else None)"
| "filelock_next (Cancel p) s =
     (if lw_PC s p = Trying \<or> lw_PC s p = Polling then Some (goto p (Failed LockCanceled) s) else None)"
| "filelock_next (Check p) s =
     (case lw_PC s p of
        Releasing t \<Rightarrow> Some (goto p (if owns_sidecar t (lw_Side s) then Unlinking t else Idle) s)
      | _ \<Rightarrow> None)"
| "filelock_next (Fill p) s = None"
| "filelock_next (FillFails p) s = None"
| "filelock_next a s = common_next a s"

text \<open>
  The older package creates the sidecar empty, fills it afterwards, reads an empty or malformed
  file as stale at once and a complete one as stale when it is more than thirty seconds old,
  whoever owns it. Its deadline test is \<^verbatim>\<open>remaining <= 0\<close> and it has no default for a zero
  budget.
\<close>

definition staleMaxAge :: int where "staleMaxAge = 30000"

definition isLockStale :: "(int \<Rightarrow> bool) \<Rightarrow> int \<Rightarrow> sidecar \<Rightarrow> bool" where
  "isLockStale alive now side =
     (case readLockInfo side of
        None \<Rightarrow> True
      | Some i \<Rightarrow> \<not> alive (li_PID i) \<or> staleMaxAge < now - li_Timestamp i)"

definition create_empty :: "int \<Rightarrow> string \<Rightarrow> sidecar" where
  "create_empty now token = Some \<lparr> sf_Inode = token, sf_Info = None, sf_ModTime = now \<rparr>"

definition write_opened :: "int \<Rightarrow> int \<Rightarrow> string \<Rightarrow> sidecar \<Rightarrow> sidecar" where
  "write_opened pid now token side =
     (case side of
        None \<Rightarrow> None
      | Some f \<Rightarrow> Some (if sf_Inode f = token
                         then f\<lparr> sf_Info := Some \<lparr> li_PID = pid, li_Timestamp = sf_ModTime f,
                                                     li_Token = token \<rparr>, sf_ModTime := now \<rparr>
                         else f))"

definition releases_sidecar :: "string \<Rightarrow> sidecar \<Rightarrow> bool" where
  "releases_sidecar token side \<longleftrightarrow>
     (case readLockInfo side of None \<Rightarrow> False | Some i \<Rightarrow> li_Token i = [] \<or> li_Token i = token)"

fun lockfile_next :: "lock_action \<Rightarrow> lock_world \<Rightarrow> lock_world option" where
  "lockfile_next (Enter p timeout) s = (if timeout < 0 then None else enter p timeout s)"
| "lockfile_next (Create p token) s =
     (if lw_PC s p = Trying \<and> token \<noteq> [] \<and> token \<notin> set (lw_Used s) then
        (case lw_Side s of
           Some f \<Rightarrow> Some (goto p Judging s)
         | None \<Rightarrow> Some (goto p (Writing token)
                           (s\<lparr> lw_Side := create_empty (lw_Now s) token, lw_Used := token # lw_Used s \<rparr>)))
      else None)"
| "lockfile_next (Fill p) s =
     (case lw_PC s p of
        Writing t \<Rightarrow> Some (goto p (Holding t)
                       (s\<lparr> lw_Side := write_opened (process_id p) (lw_Now s) t (lw_Side s) \<rparr>))
      | _ \<Rightarrow> None)"
| "lockfile_next (FillFails p) s =
     (case lw_PC s p of
        Writing t \<Rightarrow> Some (goto p (Failed LockWriteFailed) (s\<lparr> lw_Side := removeLock (lw_Side s) \<rparr>))
      | _ \<Rightarrow> None)"
| "lockfile_next (Judge p) s =
     (if lw_PC s p = Judging
      then Some (goto p (if isLockStale (process_alive s) (lw_Now s) (lw_Side s)
                         then Removing else Polling) s)
      else None)"
| "lockfile_next (Poll p) s =
     (if lw_PC s p = Polling
      then Some (goto p (if lw_Deadline s p \<le> lw_Now s then Failed LockTimedOut else Trying) s)
      else None)"
| "lockfile_next (Check p) s =
     (case lw_PC s p of
        Releasing t \<Rightarrow> Some (goto p (if releases_sidecar t (lw_Side s) then Unlinking t else Idle) s)
      | _ \<Rightarrow> None)"
| "lockfile_next (Stat p) s = None"
| "lockfile_next (Cancel p) s = None"
| "lockfile_next a s = common_next a s"


section \<open>Exclusion\<close>

definition claimed :: "lock_pc \<Rightarrow> string option" where
  "claimed c = (case c of Writing t \<Rightarrow> Some t | Holding t \<Rightarrow> Some t | Releasing t \<Rightarrow> Some t
                | Unlinking t \<Rightarrow> Some t | _ \<Rightarrow> None)"

definition claims :: "lock_world \<Rightarrow> nat \<Rightarrow> string option" where
  "claims s p = claimed (lw_PC s p)"

definition holds_lock :: "lock_world \<Rightarrow> nat \<Rightarrow> bool" where
  "holds_lock s p \<longleftrightarrow> (case lw_PC s p of Holding t \<Rightarrow> True | _ \<Rightarrow> False)"

text \<open>
  Between a stale read and the removal that follows it another process may publish its own
  lock. \<open>timely\<close> asks of the schedule that nobody does: a new sidecar appears only while no
  process stands between the two calls. \<open>settled\<close> is the same condition on one state, with the
  two calls of a release included.
\<close>

definition settled_pc :: "lock_pc \<Rightarrow> bool" where
  "settled_pc c \<longleftrightarrow> (case c of Statting \<Rightarrow> False | Removing \<Rightarrow> False | Unlinking t \<Rightarrow> False | _ \<Rightarrow> True)"

definition settled :: "lock_world \<Rightarrow> bool" where
  "settled s \<longleftrightarrow> (\<forall>p. settled_pc (lw_PC s p))"

definition timely :: "lock_action \<Rightarrow> lock_world \<Rightarrow> bool" where
  "timely a s =
     (case a of
        Create p token \<Rightarrow> lw_Side s \<noteq> None \<or> (\<forall>q. lw_PC s q \<noteq> Statting \<and> lw_PC s q \<noteq> Removing)
      | _ \<Rightarrow> True)"

text \<open>The process holds the lock under a token it drew after \<open>s0\<close>.\<close>

definition holds_since :: "lock_world \<Rightarrow> lock_world \<Rightarrow> nat \<Rightarrow> bool" where
  "holds_since s0 s p \<longleftrightarrow> (case lw_PC s p of Holding t \<Rightarrow> t \<notin> set (lw_Used s0) | _ \<Rightarrow> False)"

text \<open>
  What holds in every interleaving: the tokens in use are distinct, and a sidecar that carries
  the token of a process in progress was published by that process and names it.
\<close>

definition names_owner :: "lock_world \<Rightarrow> side_file \<Rightarrow> bool" where
  "names_owner s f \<longleftrightarrow>
     (\<forall>p t. claims s p = Some t \<and> (sf_Inode f = t \<or> map_option li_Token (sf_Info f) = Some t) \<longrightarrow>
        sf_Inode f = t \<and>
        (\<exists>i. sf_Info f = Some i \<and> li_PID i = process_id p \<and> li_Token i = t \<and> 0 < li_Timestamp i))"

definition side_known :: "string list \<Rightarrow> side_file \<Rightarrow> bool" where
  "side_known used f \<longleftrightarrow>
     sf_Inode f \<in> set used \<and> (case sf_Info f of None \<Rightarrow> True | Some i \<Rightarrow> li_Token i \<in> set used)"

definition tokens_sound :: "lock_world \<Rightarrow> bool" where
  "tokens_sound s \<longleftrightarrow>
     0 < lw_Now s \<and>
     (\<forall>p t. claims s p = Some t \<longrightarrow> t \<in> set (lw_Used s)) \<and>
     (\<forall>p q t. claims s p = Some t \<longrightarrow> claims s q = Some t \<longrightarrow> p = q) \<and>
     (case lw_Side s of None \<Rightarrow> True | Some f \<Rightarrow> side_known (lw_Used s) f \<and> names_owner s f)"

text \<open>
  What holds from a settled state on while the schedule is timely: a process that is about to
  remove a stale file removes nothing or the file of a dead owner, a process that is about to
  unlink finds its own file, and every acquisition since then owns the file on the path.
\<close>

definition abandoned :: "lock_world \<Rightarrow> bool" where
  "abandoned s \<longleftrightarrow>
     (case readLockInfo (lw_Side s) of None \<Rightarrow> True | Some i \<Rightarrow> \<not> process_alive s (li_PID i))"

definition on_path :: "string \<Rightarrow> lock_world \<Rightarrow> bool" where
  "on_path t s \<longleftrightarrow> map_option sf_Inode (lw_Side s) = Some t"

definition removals_sound :: "string list \<Rightarrow> lock_world \<Rightarrow> bool" where
  "removals_sound old s \<longleftrightarrow>
     set old \<subseteq> set (lw_Used s) \<and>
     (\<forall>p. lw_PC s p = Statting \<or> lw_PC s p = Removing \<longrightarrow> abandoned s) \<and>
     (\<forall>p t. lw_PC s p = Unlinking t \<longrightarrow> on_path t s) \<and>
     (\<forall>p t. claims s p = Some t \<longrightarrow> t \<notin> set old \<longrightarrow> on_path t s)"

lemma goto_simps [simp]:
  "lw_Side (goto p c s) = lw_Side s" "lw_Now (goto p c s) = lw_Now s"
  "lw_Deadline (goto p c s) = lw_Deadline s" "lw_Used (goto p c s) = lw_Used s"
  "lw_PC (goto p c s) = (lw_PC s)(p := c)"
  by (simp_all add: goto_def)

lemma claims_simps [simp]:
  "claims (goto p c s) = (claims s)(p := claimed c)"
  "claims (s\<lparr> lw_Deadline := d \<rparr>) = claims s" "claims (s\<lparr> lw_Now := n \<rparr>) = claims s"
  "claims (s\<lparr> lw_Side := side \<rparr>) = claims s" "claims (s\<lparr> lw_Used := u \<rparr>) = claims s"
  "claims (s\<lparr> lw_Side := side, lw_Used := u \<rparr>) = claims s"
  by (auto simp: claims_def fun_eq_iff)

lemma on_path_simps [simp]:
  "on_path t (goto p c s) = on_path t s"
  "on_path t (s\<lparr> lw_Deadline := d \<rparr>) = on_path t s" "on_path t (s\<lparr> lw_Now := n \<rparr>) = on_path t s"
  "on_path t (s\<lparr> lw_Used := u \<rparr>) = on_path t s"
  "\<not> on_path t (s\<lparr> lw_Side := None \<rparr>)"
  by (simp_all add: on_path_def)

text \<open>How one action of \<^verbatim>\<open>filelock\<close> changes the world.\<close>

datatype lock_change =
    Moves nat lock_pc | Publishes nat string | Takes_away nat lock_pc | Time_only nat | Sets_out nat int

fun change :: "lock_change \<Rightarrow> lock_world \<Rightarrow> lock_world" where
  "change (Moves p c) s = goto p c s"
| "change (Publishes p t) s =
     goto p (Holding t)
       (s\<lparr> lw_Side := fst (tryCreateLock (process_id p) (lw_Now s) t None), lw_Used := t # lw_Used s \<rparr>)"
| "change (Takes_away p c) s = goto p c (s\<lparr> lw_Side := None \<rparr>)"
| "change (Time_only n) s = s\<lparr> lw_Now := lw_Now s + int n \<rparr>"
| "change (Sets_out p d) s = goto p Trying (s\<lparr> lw_Deadline := (lw_Deadline s)(p := d) \<rparr>)"

fun allowed :: "lock_world \<Rightarrow> lock_change \<Rightarrow> bool" where
  "allowed s (Moves p c) \<longleftrightarrow>
     (claimed c = None \<or> claimed c = claims s p) \<and>
     (lw_PC s p = Crashed \<longrightarrow> c = Crashed) \<and>
     (c = Statting \<or> c = Removing \<longrightarrow> abandoned s \<or> lw_PC s p = Statting) \<and>
     (\<forall>t. c = Unlinking t \<longrightarrow> owns_sidecar t (lw_Side s) \<and> claims s p = Some t)"
| "allowed s (Publishes p t) \<longleftrightarrow> lw_Side s = None \<and> t \<notin> set (lw_Used s) \<and> lw_PC s p = Trying"
| "allowed s (Takes_away p c) \<longleftrightarrow>
     (lw_PC s p = Removing \<or> (\<exists>t. lw_PC s p = Unlinking t)) \<and> claimed c = None \<and> settled_pc c"
| "allowed s (Time_only n) \<longleftrightarrow> True"
| "allowed s (Sets_out p d) \<longleftrightarrow> claims s p = None \<and> lw_PC s p \<noteq> Crashed"

lemma filelock_changes:
  assumes "filelock_next a s = Some t"
  obtains ch where "allowed s ch" "t = change ch s" "\<And>p u. ch = Publishes p u \<Longrightarrow> a = Create p u"
proof (cases a)
  case (Enter p timeout)
  then show ?thesis
    using assms
    by (intro that [of "Sets_out p (lw_Now s + (if timeout \<le> 0 then DefaultTimeout else timeout))"])
       (auto simp: enter_def may_enter_def claims_def claimed_def split: if_splits)
next
  case (Create p u)
  show ?thesis
  proof (cases "lw_Side s")
    case None
    then show ?thesis
      using assms Create by (intro that [of "Publishes p u"]) (auto simp: tryCreateLock_def Let_def split: if_splits)
  next
    case (Some f)
    then show ?thesis
      using assms Create
      by (intro that [of "Moves p Judging"]) (auto simp: tryCreateLock_def Let_def claimed_def split: if_splits)
  qed
next
  case (Judge p)
  then show ?thesis
    using assms
    by (intro that [of "Moves p (case readLockInfo (lw_Side s) of None \<Rightarrow> Statting
                      | Some i \<Rightarrow> if process_alive s (li_PID i) then Polling else Removing)"])
       (auto simp: claimed_def abandoned_def split: if_splits option.splits)
next
  case (Stat p)
  then show ?thesis
    using assms
    by (intro that [of "Moves p (if unreadable_is_stale (lw_Now s) (lw_Side s) then Removing else Polling)"])
       (auto simp: claimed_def split: if_splits)
next
  case (Discard p)
  then show ?thesis
    using assms
    by (intro that [of "Takes_away p Trying"]) (auto simp: claimed_def settled_pc_def removeLock_def split: if_splits)
next
  case (Poll p)
  then show ?thesis
    using assms
    by (intro that [of "Moves p (if lw_Deadline s p < lw_Now s then Failed LockTimedOut else Trying)"])
       (auto simp: claimed_def split: if_splits)
next
  case (Cancel p)
  then show ?thesis
    using assms by (intro that [of "Moves p (Failed LockCanceled)"]) (auto simp: claimed_def split: if_splits)
next
  case (Unlock p)
  then obtain u where u: "lw_PC s p = Holding u" "t = goto p (Releasing u) s"
    using assms by (auto split: lock_pc.splits)
  then show ?thesis by (intro that [of "Moves p (Releasing u)"]) (auto simp: claimed_def claims_def)
next
  case (Check p)
  then obtain u where u: "lw_PC s p = Releasing u"
      "t = goto p (if owns_sidecar u (lw_Side s) then Unlinking u else Idle) s"
    using assms by (auto split: lock_pc.splits)
  then show ?thesis
    by (intro that [of "Moves p (if owns_sidecar u (lw_Side s) then Unlinking u else Idle)"])
       (auto simp: claimed_def claims_def)
next
  case (Unlink p)
  then obtain u where u: "lw_PC s p = Unlinking u" "t = goto p Idle (s\<lparr> lw_Side := None \<rparr>)"
    using assms by (auto simp: removeLock_def split: lock_pc.splits)
  then show ?thesis by (intro that [of "Takes_away p Idle"]) (auto simp: claimed_def settled_pc_def)
next
  case (Crash p)
  then show ?thesis using assms by (intro that [of "Moves p Crashed"]) (auto simp: claimed_def)
next
  case (Tick n)
  then show ?thesis using assms by (intro that [of "Time_only n"]) auto
qed (use assms in simp_all)

lemma goto_fewer:
  "claimed c = None \<or> claimed c = claims s p \<Longrightarrow> claims (goto p c s) q = Some t \<Longrightarrow> claims s q = Some t"
  by (cases "q = p") auto

lemma change_fewer:
  assumes "allowed s ch" and "\<And>p u. ch \<noteq> Publishes p u" and "claims (change ch s) q = Some t"
  shows "claims s q = Some t"
proof (cases ch)
  case (Moves p c)
  then show ?thesis using assms goto_fewer [of c s p q t] by simp
next
  case (Takes_away p c)
  then show ?thesis using assms by (cases "q = p") simp_all
next
  case (Sets_out p d)
  then show ?thesis using assms by (cases "q = p") (simp_all add: claimed_def)
qed (use assms in simp_all)

lemma names_owner_fewer:
  assumes "names_owner s f" and "\<And>q t. claims s' q = Some t \<Longrightarrow> claims s q = Some t"
  shows "names_owner s' f"
  unfolding names_owner_def
proof (intro allI impI)
  fix q t
  assume h: "claims s' q = Some t \<and> (sf_Inode f = t \<or> map_option li_Token (sf_Info f) = Some t)"
  then have "claims s q = Some t" using assms(2) by blast
  then show "sf_Inode f = t \<and>
      (\<exists>i. sf_Info f = Some i \<and> li_PID i = process_id q \<and> li_Token i = t \<and> 0 < li_Timestamp i)"
    using assms(1) h unfolding names_owner_def by blast
qed

lemma change_parts:
  assumes "\<And>p u. ch \<noteq> Publishes p u"
  shows "lw_Used (change ch s) = lw_Used s" "lw_Side (change ch s) = lw_Side s \<or> lw_Side (change ch s) = None"
    "0 < lw_Now s \<Longrightarrow> 0 < lw_Now (change ch s)"
  using assms by (cases ch; simp)+

lemma tokens_sound_change:
  assumes inv: "tokens_sound s" and ok: "allowed s ch"
  shows "tokens_sound (change ch s)"
proof -
  have cl: "claims s p = Some t \<Longrightarrow> t \<in> set (lw_Used s)"
    and one: "claims s p = Some t \<Longrightarrow> claims s q = Some t \<Longrightarrow> p = q" and now: "0 < lw_Now s" for p q t
    using inv by (auto simp: tokens_sound_def)
  show ?thesis
  proof (cases "\<exists>p u. ch = Publishes p u")
    case True
    then obtain p u where p: "ch = Publishes p u" by blast
    then have u: "u \<notin> set (lw_Used s)" using ok by simp
    have new: "claims (change ch s) = (claims s)(p := Some u)" using p by (simp add: claimed_def)
    have other: "claims s q \<noteq> Some u" for q using cl u by blast
    let ?f = "\<lparr> sf_Inode = u, sf_Info = Some \<lparr> li_PID = process_id p, li_Timestamp = lw_Now s, li_Token = u \<rparr>,
                sf_ModTime = lw_Now s \<rparr>"
    have side: "lw_Side (change ch s) = Some ?f" and used: "lw_Used (change ch s) = u # lw_Used s"
      and time: "lw_Now (change ch s) = lw_Now s"
      using p by (simp_all add: tryCreateLock_def Let_def)
    have owner: "names_owner (change ch s) ?f"
      using other now unfolding names_owner_def new by auto
    have distinct: "\<forall>q r t. ((claims s)(p := Some u)) q = Some t \<longrightarrow> ((claims s)(p := Some u)) r = Some t \<longrightarrow> q = r"
      using other one by (auto split: if_splits)
    have known: "\<forall>q t. ((claims s)(p := Some u)) q = Some t \<longrightarrow> t \<in> set (u # lw_Used s)"
      using cl by (auto split: if_splits)
    show ?thesis
      unfolding tokens_sound_def new side used time option.case side_known_def
      by (intro conjI; (rule now | rule distinct | rule known | rule owner | simp))
  next
    case False
    have fewer: "claims (change ch s) q = Some t \<Longrightarrow> claims s q = Some t" for q t
      using change_fewer [OF ok] False by blast
    have parts: "lw_Used (change ch s) = lw_Used s"
        "lw_Side (change ch s) = lw_Side s \<or> lw_Side (change ch s) = None" "0 < lw_Now (change ch s)"
      using change_parts [of ch s] False now by simp_all
    have path: "case lw_Side (change ch s) of None \<Rightarrow> True
        | Some f \<Rightarrow> side_known (lw_Used s) f \<and> names_owner (change ch s) f"
      using parts(2) inv names_owner_fewer [OF _ fewer] by (auto simp: tokens_sound_def split: option.splits)
    have distinct: "\<forall>q r t. claims (change ch s) q = Some t \<longrightarrow> claims (change ch s) r = Some t \<longrightarrow> q = r"
      using fewer one by blast
    have known: "\<forall>q t. claims (change ch s) q = Some t \<longrightarrow> t \<in> set (lw_Used s)"
      using fewer cl by blast
    show ?thesis
      unfolding tokens_sound_def parts(1)
      by (intro conjI; (rule parts(3) | rule distinct | rule known | rule path))
  qed
qed

lemma process_alive_quiet [simp]:
  "process_alive (s\<lparr> lw_Deadline := d \<rparr>) = process_alive s" "process_alive (s\<lparr> lw_Now := n \<rparr>) = process_alive s"
  "process_alive (s\<lparr> lw_Side := side \<rparr>) = process_alive s"
  by (simp_all add: process_alive_def)

lemma alive_moves:
  "process_alive (goto p c s) pid \<Longrightarrow> lw_PC s p = Crashed \<longrightarrow> c = Crashed \<Longrightarrow> process_alive s pid"
  by (auto simp: process_alive_def isProcessAlive_def split: if_splits)

lemma abandoned_moves:
  "abandoned s \<Longrightarrow> lw_PC s p = Crashed \<longrightarrow> c = Crashed \<Longrightarrow> abandoned (goto p c s)"
  using alive_moves [of p c s] by (auto simp: abandoned_def split: option.split)

lemma abandoned_quiet [simp]:
  "abandoned (s\<lparr> lw_Deadline := d \<rparr>) = abandoned s" "abandoned (s\<lparr> lw_Now := n \<rparr>) = abandoned s"
  "abandoned (s\<lparr> lw_Side := None \<rparr>)"
  by (simp_all add: abandoned_def readLockInfo_def split: option.split)

lemma claims_not_crashed: "claims s p = Some t \<Longrightarrow> process_alive s (process_id p)"
  by (auto simp: claims_def claimed_def process_alive_def isProcessAlive_def process_id_def)

text \<open>Nobody removes the file of an acquisition that is still in progress.\<close>

lemma abandoned_not_owned:
  assumes "tokens_sound s" and "abandoned s" and "on_path t s"
  shows "claims s p \<noteq> Some t"
proof
  assume owner: "claims s p = Some t"
  obtain f where f: "lw_Side s = Some f" "sf_Inode f = t" using assms(3) by (auto simp: on_path_def)
  then have "names_owner s f" using assms(1) by (simp add: tokens_sound_def)
  then obtain i where "sf_Info f = Some i" "li_PID i = process_id p" "0 < li_Timestamp i"
    using owner f(2) unfolding names_owner_def by blast
  then show False
    using assms(2) f claims_not_crashed [OF owner]
    by (simp add: abandoned_def readLockInfo_def process_id_def)
qed

lemma owned_is_on_path:
  assumes "tokens_sound s" and "owns_sidecar t (lw_Side s)" and "claims s p = Some t"
  shows "on_path t s"
proof -
  obtain f i where f: "lw_Side s = Some f" "sf_Info f = Some i" "li_Token i = t"
    using assms(2) by (auto simp: owns_sidecar_def readLockInfo_def split: option.splits if_splits)
  then have "names_owner s f" using assms(1) by (simp add: tokens_sound_def)
  then show ?thesis using f assms(3) by (auto simp: names_owner_def on_path_def)
qed

lemma removals_sound_change:
  assumes sound: "tokens_sound s" and inv: "removals_sound old s" and ok: "allowed s ch"
    and quiet: "\<And>p u. ch = Publishes p u \<Longrightarrow> \<forall>q. lw_PC s q \<noteq> Statting \<and> lw_PC s q \<noteq> Removing"
  shows "removals_sound old (change ch s)"
proof -
  have used: "set old \<subseteq> set (lw_Used s)"
    and pend: "lw_PC s p = Statting \<or> lw_PC s p = Removing \<Longrightarrow> abandoned s"
    and unl: "lw_PC s p = Unlinking t \<Longrightarrow> on_path t s"
    and own: "claims s p = Some t \<Longrightarrow> t \<notin> set old \<Longrightarrow> on_path t s" for p t
    using inv by (auto simp: removals_sound_def)
  show ?thesis
  proof (cases ch)
    case (Moves p c)
    have crash: "lw_PC s p = Crashed \<longrightarrow> c = Crashed" and c: "claimed c = None \<or> claimed c = claims s p"
      using Moves ok by auto
    have "abandoned s" if "c = Statting \<or> c = Removing" using that Moves ok pend [of p] by auto
    moreover have "on_path t s" if "c = Unlinking t" for t
      using that Moves ok owned_is_on_path [OF sound] by auto
    ultimately have
        "\<forall>q. (if q = p then c else lw_PC s q) = Statting \<or> (if q = p then c else lw_PC s q) = Removing \<longrightarrow> abandoned s"
        "\<forall>q t. (if q = p then c else lw_PC s q) = Unlinking t \<longrightarrow> on_path t s"
      using pend unl by presburger+
    moreover have "\<forall>q t. claims (goto p c s) q = Some t \<longrightarrow> t \<notin> set old \<longrightarrow> on_path t s"
      using goto_fewer [OF c] own by blast
    ultimately show ?thesis
      using Moves used abandoned_moves [OF _ crash] by (simp add: removals_sound_def fun_upd_def)
  next
    case (Publishes p u)
    have gone: "\<not> on_path t s" for t using Publishes ok by (simp add: on_path_def)
    then have "lw_PC s q \<noteq> Unlinking t" "claims s q = Some t \<Longrightarrow> t \<in> set old" for q t
      using unl own by blast+
    then show ?thesis
      using Publishes used quiet [OF Publishes]
      by (auto simp: removals_sound_def claimed_def on_path_def tryCreateLock_def Let_def split: if_splits)
  next
    case (Takes_away p c)
    have none: "\<not> (claims s q = Some t \<and> on_path t s)" if "q \<noteq> p" for q t
    proof
      assume q: "claims s q = Some t \<and> on_path t s"
      consider "lw_PC s p = Removing" | t' where "lw_PC s p = Unlinking t'" using Takes_away ok by auto
      then show False
      proof cases
        case 1
        then show False using abandoned_not_owned [OF sound pend, of p t q] q by blast
      next
        case (2 t')
        then have "claims s p = Some t'" "t' = t" using unl [OF 2] q by (auto simp: claims_def claimed_def on_path_def)
        then show False using q sound that by (auto simp: tokens_sound_def)
      qed
    qed
    have cl: "lw_PC s q = Unlinking t \<Longrightarrow> claims s q = Some t" for q t by (simp add: claims_def claimed_def)
    have "q = p" if "lw_PC s q = Unlinking t" for q t using none [of q t] cl [OF that] unl [OF that] by blast
    moreover have "t \<in> set old" if "claims s q = Some t" "q \<noteq> p" for q t
      using none [OF that(2), of t] own [OF that(1)] that(1) by blast
    moreover have "c \<noteq> Unlinking t" "claimed c = None" for t
      using Takes_away ok by (auto simp: settled_pc_def)
    ultimately have "\<forall>q t. (if q = p then c else lw_PC s q) \<noteq> Unlinking t"
        "\<forall>q t. ((claims s)(p := claimed c)) q = Some t \<longrightarrow> t \<in> set old"
      by (metis, metis fun_upd_apply option.distinct(1))
    then show ?thesis
      using Takes_away used by (simp add: removals_sound_def fun_upd_def abandoned_def readLockInfo_def)
  next
    case (Time_only n)
    then show ?thesis using used pend unl own by (auto simp: removals_sound_def)
  next
    case (Sets_out p d)
    then have crash: "lw_PC s p = Crashed \<longrightarrow> Trying = Crashed" using ok by auto
    have "abandoned s \<Longrightarrow> abandoned (goto p Trying (s\<lparr> lw_Deadline := (lw_Deadline s)(p := d) \<rparr>))"
      by (rule abandoned_moves) (use crash in simp_all)
    then show ?thesis
      using Sets_out ok used pend unl own
      by (auto simp: removals_sound_def claimed_def split: if_splits)
  qed
qed

text \<open>The two calls of the stale test, when nothing happens between them, are \<^verbatim>\<open>isStale\<close>.\<close>

lemma judge_stat_isStale:
  "lw_PC s p = Judging \<Longrightarrow>
   (case filelock_next (Judge p) s of None \<Rightarrow> None
    | Some t \<Rightarrow> if lw_PC t p = Statting then filelock_next (Stat p) t else Some t) =
   Some (goto p (if isStale (process_alive s) (lw_Now s) (lw_Side s) then Removing else Polling) s)"
  by (simp add: isStale_def goto_def split: option.split)

lemma tokens_sound_step: "tokens_sound s \<Longrightarrow> filelock_next a s = Some t \<Longrightarrow> tokens_sound t"
  by (erule filelock_changes) (simp add: tokens_sound_change)

lemma removals_sound_step:
  assumes "tokens_sound s \<and> removals_sound old s" and "timely a s" and "filelock_next a s = Some t"
  shows "tokens_sound t \<and> removals_sound old t"
proof -
  obtain ch where ch: "allowed s ch" "t = change ch s" "\<And>p u. ch = Publishes p u \<Longrightarrow> a = Create p u"
    using filelock_changes [OF assms(3)] by blast
  have "\<forall>q. lw_PC s q \<noteq> Statting \<and> lw_PC s q \<noteq> Removing" if "ch = Publishes p u" for p u
    using assms(2) ch(1) ch(3) [OF that] that by (simp add: timely_def)
  then show ?thesis
    using assms(1) ch tokens_sound_change removals_sound_change by blast
qed

interpretation fl: guarded_steps filelock_next "\<lambda>_ _. True" tokens_sound
  by unfold_locales (rule tokens_sound_step)

interpretation fv: guarded_steps filelock_next timely "\<lambda>s. tokens_sound s \<and> removals_sound old s"
  by unfold_locales (rule removals_sound_step)

lemma tokens_sound_initial: "0 < now \<Longrightarrow> tokens_sound (world_with side now)"
  by (auto simp: tokens_sound_def world_with_def claims_def claimed_def side_known_def names_owner_def
      side_tokens_def split: option.split)

lemma guarded_total: "run_steps step as s = Some t \<Longrightarrow> guarded_run step (\<lambda>_ _. True) as s"
  by (induction as arbitrary: s) (auto split: option.splits)

lemma removals_sound_settled:
  "tokens_sound s \<Longrightarrow> settled s \<Longrightarrow> removals_sound (lw_Used s) s"
  by (auto simp: removals_sound_def settled_def settled_pc_def tokens_sound_def dest: spec split: lock_pc.splits)

lemma holds_since_owns:
  assumes "tokens_sound s" and "removals_sound (lw_Used s0) s" and "holds_since s0 s p"
  shows "\<exists>t i. claims s p = Some t \<and> on_path t s \<and> readLockInfo (lw_Side s) = Some i \<and> li_PID i = process_id p"
proof -
  obtain t where t: "lw_PC s p = Holding t" "t \<notin> set (lw_Used s0)"
    using assms(3) by (auto simp: holds_since_def split: lock_pc.splits)
  then have cl: "claims s p = Some t" by (simp add: claims_def claimed_def)
  then have path: "on_path t s" using assms(2) t(2) by (auto simp: removals_sound_def)
  then obtain f where f: "lw_Side s = Some f" "sf_Inode f = t" by (auto simp: on_path_def)
  then have "names_owner s f" using assms(1) by (simp add: tokens_sound_def)
  then obtain i where "sf_Info f = Some i" "li_PID i = process_id p" "0 < li_Timestamp i"
    using cl f(2) unfolding names_owner_def by blast
  then show ?thesis using cl path f(1) by (simp add: readLockInfo_def process_id_def)
qed

lemmas lock_eval =
  initial_world_def world_with_def side_tokens_def enter_def may_enter_def goto_def tryCreateLock_def
  readLockInfo_def unreadable_is_stale_def process_alive_def isProcessAlive_def process_id_def
  lockInitializationGrace_def StaleAge_def DefaultTimeout_def owns_sidecar_def removeLock_def
  timely_def settled_def settled_pc_def holds_since_def holds_lock_def isLockStale_def staleMaxAge_def
  create_empty_def write_opened_def releases_sidecar_def Let_def

definition crash_recovery :: "lock_action list" where
  "crash_recovery =
     [Enter 0 0, Create 0 ''a'', Enter 1 0, Create 1 ''b'', Judge 1, Poll 1, Crash 0,
      Create 1 ''b'', Judge 1, Discard 1, Create 1 ''b'']"

definition late_removal :: "lock_action list" where
  "late_removal =
     [Enter 0 0, Enter 1 0, Enter 2 0, Create 0 ''a'', Create 1 ''b'',
      Unlock 0, Check 0, Unlink 0, Judge 1, Stat 1, Create 2 ''c'', Discard 1, Create 1 ''b'']"

text \<open>
  After the race of \<open>late_removal\<close> the two holders release, the first of them when its file is no
  longer on the path; the processes that come next exclude each other.
\<close>

definition recovered_run :: "lock_action list" where
  "recovered_run = [Unlock 1, Check 1, Unlink 1, Enter 0 0, Create 0 ''d'', Unlock 2, Check 2, Enter 1 0, Create 1 ''e'', Judge 1]"

definition empty_window :: "lock_action list" where
  "empty_window =
     [Enter 0 0, Enter 1 0, Create 0 ''a'', Create 1 ''b'', Judge 1, Discard 1, Create 1 ''b'',
      Fill 1, Fill 0]"

definition long_section :: "lock_action list" where
  "long_section =
     [Enter 0 0, Create 0 ''a'', Fill 0, Tick 30001, Enter 1 0, Create 1 ''b'', Judge 1,
      Discard 1, Create 1 ''b'', Fill 1]"

text \<open>
  Claim C6. The first part of a run may be anything: late removals, crashes, several holders, a sidecar
  left by an earlier boot. From a state on in which no process stands between a check of the
  sidecar and its removal, and as long as nobody publishes a sidecar while another process
  stands between a stale read and its removal, two processes that acquire the lock never hold
  it at once, and the sidecar names the holder: neither a verdict on a live owner nor the
  release of an earlier holder that lost its file removes it.
\<close>

theorem filelock_recovers_exclusion:
  assumes "0 < now" and "run_steps filelock_next before (world_with side now) = Some s0" and "settled s0"
    and "guarded_run filelock_next timely after s0" and "run_steps filelock_next after s0 = Some s"
    and "holds_since s0 s p"
  shows "(case readLockInfo (lw_Side s) of None \<Rightarrow> False | Some i \<Rightarrow> li_PID i = process_id p) \<and>
    {q. holds_since s0 s q} = {p}"
proof -
  have "tokens_sound s0"
    using fl.run_keeps [OF tokens_sound_initial [OF assms(1)] guarded_total [OF assms(2)] assms(2)] .
  then have sound: "tokens_sound s \<and> removals_sound (lw_Used s0) s"
    using fv.run_keeps [OF _ assms(4,5), of "lw_Used s0"] removals_sound_settled [OF _ assms(3)] by blast
  show ?thesis
    using holds_since_owns [OF _ _ assms(6)] holds_since_owns [of s s0] sound assms(6)
    by (fastforce simp: process_id_def)
qed

theorem filelock_recovers_exclusion_witness:
  "case run_steps filelock_next late_removal (initial_world 1) of
     None \<Rightarrow> False
   | Some s0 \<Rightarrow> settled s0 \<and> holds_lock s0 1 \<and> holds_lock s0 2 \<and>
       guarded_run filelock_next timely recovered_run s0 \<and>
       (case run_steps filelock_next recovered_run s0 of
          None \<Rightarrow> False
        | Some s \<Rightarrow> holds_since s0 s 0 \<and> \<not> holds_since s0 s 1 \<and>
            (case readLockInfo (lw_Side s) of None \<Rightarrow> False | Some i \<Rightarrow> li_PID i = process_id 0))"
proof -
  obtain s0 where s0: "run_steps filelock_next late_removal (world_with None 1) = Some s0"
    by (simp add: late_removal_def lock_eval)
  have state: "settled s0" "holds_lock s0 1" "holds_lock s0 2"
    "guarded_run filelock_next timely recovered_run s0"
    using s0 by (auto simp: late_removal_def recovered_run_def lock_eval)
  obtain s where s: "run_steps filelock_next recovered_run s0 = Some s"
    using s0 by (auto simp: late_removal_def recovered_run_def lock_eval)
  have zero: "holds_since s0 s 0"
    using s0 s by (auto simp: late_removal_def recovered_run_def lock_eval)
  show ?thesis
    using filelock_recovers_exclusion [OF _ s0 state(1,4) s zero] s0 state s zero
    by (auto simp: initial_world_def)
qed

text \<open>
  Without that condition the lock excludes nobody: a waiter that finds the sidecar gone calls it
  stale, and its removal, one call later, deletes the lock another process has acquired in
  between. Nothing crashes and no clock advances in this run.
\<close>

theorem filelock_late_removal:
  "\<exists>s. run_steps filelock_next late_removal (initial_world 1) = Some s \<and>
       holds_lock s 1 \<and> holds_lock s 2"
  by (simp add: late_removal_def lock_eval)

text \<open>
  \<^verbatim>\<open>lockfile\<close> loses exclusion to the empty sidecar of a process that is still writing it, and
  to any critical section of more than thirty seconds.
\<close>

theorem lockfile_two_holders:
  "(\<exists>s. run_steps lockfile_next empty_window (initial_world 1) = Some s \<and>
        holds_lock s 0 \<and> holds_lock s 1) \<and>
   (\<exists>s. run_steps lockfile_next long_section (initial_world 1) = Some s \<and>
        holds_lock s 0 \<and> holds_lock s 1)"
  by (simp add: empty_window_def long_section_def lock_eval)

end
