(* ===== verification/Lock_Queue.thy ===== *)
theory Lock_Queue
  imports Step_System
begin

text \<open>
  The in-process queue of \<^verbatim>\<open>internal/filelock/filelock.go\<close> (\<^verbatim>\<open>enqueue\<close>).
  Goroutines of one process take turns before they try the file. A ticket waits for the
  ticket that was the tail when it arrived; a waiter that gives up leaves a watcher behind,
  which releases the ticket when its predecessor is released. Releasing first leaves the tail
  map and then closes the ticket's channel, two steps between which others run.
\<close>

datatype ticket_state = Queued | Granted | Abandoned | Leaving | Closed

record fifo =
  ff_Tail :: "nat option"
  ff_Tickets :: "(nat option \<times> ticket_state) list"

datatype fifo_action = Enqueue | Grant nat | Abandon nat | Leave nat | Close nat

definition ticket_at :: "fifo \<Rightarrow> nat \<Rightarrow> ticket_state option" where
  "ticket_at q n = (if n < length (ff_Tickets q) then Some (snd (ff_Tickets q ! n)) else None)"

definition set_ticket :: "nat \<Rightarrow> ticket_state \<Rightarrow> fifo \<Rightarrow> fifo" where
  "set_ticket n st q =
     q\<lparr> ff_Tickets := (ff_Tickets q)[n := (fst (ff_Tickets q ! n), st)] \<rparr>"

definition prev_closed :: "fifo \<Rightarrow> nat \<Rightarrow> bool" where
  "prev_closed q n =
     (case fst (ff_Tickets q ! n) of None \<Rightarrow> False | Some m \<Rightarrow> ticket_at q m = Some Closed)"

definition leave_tail :: "nat \<Rightarrow> fifo \<Rightarrow> fifo" where
  "leave_tail n q = q\<lparr> ff_Tail := (if ff_Tail q = Some n then None else ff_Tail q) \<rparr>"

fun fifo_next :: "fifo_action \<Rightarrow> fifo \<Rightarrow> fifo option" where
  "fifo_next Enqueue q =
     Some \<lparr> ff_Tail = Some (length (ff_Tickets q)),
            ff_Tickets = ff_Tickets q @
              [(ff_Tail q, case ff_Tail q of None \<Rightarrow> Granted | Some m \<Rightarrow> Queued)] \<rparr>"
| "fifo_next (Grant n) q =
     (if ticket_at q n = Some Queued \<and> prev_closed q n then Some (set_ticket n Granted q) else None)"
| "fifo_next (Abandon n) q =
     (if ticket_at q n = Some Queued then Some (set_ticket n Abandoned q) else None)"
| "fifo_next (Leave n) q =
     (if ticket_at q n = Some Granted \<or> ticket_at q n = Some Abandoned \<and> prev_closed q n
      then Some (leave_tail n (set_ticket n Leaving q)) else None)"
| "fifo_next (Close n) q =
     (if ticket_at q n = Some Leaving then Some (set_ticket n Closed q) else None)"

definition empty_fifo :: fifo where
  "empty_fifo = \<lparr> ff_Tail = None, ff_Tickets = [] \<rparr>"

definition passed :: "ticket_state \<Rightarrow> bool" where
  "passed st \<longleftrightarrow> st = Leaving \<or> st = Closed"

text \<open>
  Whoever has had a turn comes after tickets that are all finished, a ticket waits for its
  immediate predecessor, and the tail is the last ticket until that one leaves.
\<close>

definition turns_in_order :: "ticket_state list \<Rightarrow> bool" where
  "turns_in_order xs \<longleftrightarrow>
     (\<forall>j < length xs. \<forall>i < j. xs ! j = Granted \<or> passed (xs ! j) \<longrightarrow> passed (xs ! i))"

definition linked :: "(nat option \<times> ticket_state) list \<Rightarrow> bool" where
  "linked xs \<longleftrightarrow>
     (\<forall>i < length xs. (fst (xs ! i) = None \<longrightarrow> snd (xs ! i) = Granted \<or> passed (snd (xs ! i))) \<and>
                      (\<forall>m. fst (xs ! i) = Some m \<longrightarrow> Suc m = i))"

definition tail_of :: "ticket_state list \<Rightarrow> nat option" where
  "tail_of xs = (if xs = [] \<or> passed (last xs) then None else Some (length xs - 1))"

definition fifo_inv :: "fifo \<Rightarrow> bool" where
  "fifo_inv q \<longleftrightarrow>
     turns_in_order (map snd (ff_Tickets q)) \<and> linked (ff_Tickets q) \<and>
     ff_Tail q = tail_of (map snd (ff_Tickets q))"

lemma turns_append:
  "turns_in_order xs \<Longrightarrow> (st = Granted \<or> passed st \<Longrightarrow> list_all passed xs) \<Longrightarrow> turns_in_order (xs @ [st])"
  by (auto simp: turns_in_order_def nth_append list_all_length less_Suc_eq)

lemma turns_all_passed:
  "turns_in_order xs \<Longrightarrow> xs = [] \<or> passed (last xs) \<Longrightarrow> list_all passed xs"
  by (cases xs rule: rev_cases) (auto simp: turns_in_order_def list_all_length nth_append less_Suc_eq)

lemma turns_in_orderD:
  "turns_in_order xs \<Longrightarrow> i < j \<Longrightarrow> j < length xs \<Longrightarrow> xs ! j = Granted \<or> passed (xs ! j) \<Longrightarrow>
   passed (xs ! i)"
  by (auto simp: turns_in_order_def)

lemma turns_update:
  assumes "turns_in_order xs" and "n < length xs"
    and "passed (xs ! n) \<Longrightarrow> passed st"
    and "st = Granted \<or> passed st \<Longrightarrow> \<forall>i < n. passed (xs ! i)"
  shows "turns_in_order (xs[n := st])"
  unfolding turns_in_order_def
proof (intro allI impI)
  fix i j
  assume j: "j < length (xs[n := st])" and i: "i < j"
    and here: "xs[n := st] ! j = Granted \<or> passed (xs[n := st] ! j)"
  show "passed (xs[n := st] ! i)"
  proof (cases "j = n")
    case True
    then show ?thesis using assms(4) here i j by simp
  next
    case False
    then have "passed (xs ! i)"
      using turns_in_orderD [OF assms(1) i] here j by simp
    then show ?thesis using assms(3) i j by (cases "i = n") simp_all
  qed
qed

lemma linked_update:
  assumes "linked xs" and "n < length xs" and "fst (xs ! n) = None \<Longrightarrow> st = Granted \<or> passed st"
  shows "linked (xs[n := (fst (xs ! n), st)])"
  unfolding linked_def
proof (intro allI impI)
  fix i assume "i < length (xs[n := (fst (xs ! n), st)])"
  then show "(fst (xs[n := (fst (xs ! n), st)] ! i) = None \<longrightarrow>
               snd (xs[n := (fst (xs ! n), st)] ! i) = Granted \<or>
               passed (snd (xs[n := (fst (xs ! n), st)] ! i))) \<and>
             (\<forall>m. fst (xs[n := (fst (xs ! n), st)] ! i) = Some m \<longrightarrow> Suc m = i)"
    using assms by (cases "i = n") (simp_all add: linked_def)
qed

lemma linkedD:
  "linked xs \<Longrightarrow> i < length xs \<Longrightarrow> fst (xs ! i) = Some m \<Longrightarrow> Suc m = i"
  "linked xs \<Longrightarrow> i < length xs \<Longrightarrow> fst (xs ! i) = None \<Longrightarrow>
     snd (xs ! i) = Granted \<or> passed (snd (xs ! i))"
  unfolding linked_def by blast+

lemma prev_closedD:
  assumes "fifo_inv q" and "n < length (ff_Tickets q)" and "prev_closed q n"
  obtains m where "n = Suc m" "snd (ff_Tickets q ! m) = Closed"
proof -
  obtain m where m: "fst (ff_Tickets q ! n) = Some m" "ticket_at q m = Some Closed"
    using assms(3) by (auto simp: prev_closed_def split: option.splits)
  moreover have "Suc m = n"
    using linkedD(1) [OF _ assms(2) m(1)] assms(1) by (simp add: fifo_inv_def)
  ultimately show ?thesis
    using that [of m] by (auto simp: ticket_at_def split: if_splits)
qed

lemma before_passed:
  assumes "fifo_inv q" and n: "n < length (ff_Tickets q)"
    and turn: "snd (ff_Tickets q ! n) = Granted \<or> passed (snd (ff_Tickets q ! n)) \<or> prev_closed q n"
  shows "\<forall>i < n. passed (map snd (ff_Tickets q) ! i)"
proof (intro allI impI)
  fix i assume i: "i < n"
  have turns: "turns_in_order (map snd (ff_Tickets q))"
    using assms(1) by (simp add: fifo_inv_def)
  show "passed (map snd (ff_Tickets q) ! i)"
  proof (cases "prev_closed q n")
    case True
    then obtain m where m: "n = Suc m" "snd (ff_Tickets q ! m) = Closed"
      by (rule prev_closedD [OF assms(1) n])
    then have "passed (map snd (ff_Tickets q) ! m)" using n by (simp add: passed_def)
    then show ?thesis
      using turns_in_orderD [OF turns, of i m] i m n by (cases "i = m") auto
  next
    case False
    then show ?thesis using turns_in_orderD [OF turns i] n turn by auto
  qed
qed

lemma set_ticket_simps [simp]:
  "ff_Tail (set_ticket n st q) = ff_Tail q"
  "map snd (ff_Tickets (set_ticket n st q)) = (map snd (ff_Tickets q))[n := st]"
  "length (ff_Tickets (set_ticket n st q)) = length (ff_Tickets q)"
  "ff_Tickets (leave_tail n q) = ff_Tickets q"
  by (simp_all add: set_ticket_def leave_tail_def map_update)

lemma ticket_stateD:
  "ticket_at q n = Some st \<Longrightarrow> n < length (ff_Tickets q) \<and> snd (ff_Tickets q ! n) = st"
  by (simp add: ticket_at_def split: if_splits)

text \<open>Changing one ticket keeps everything but the tail.\<close>

lemma set_ticket_keeps:
  assumes "fifo_inv q" and "n < length (ff_Tickets q)"
    and "passed (snd (ff_Tickets q ! n)) \<Longrightarrow> passed st"
    and "st = Granted \<or> passed st \<Longrightarrow>
           snd (ff_Tickets q ! n) = Granted \<or> passed (snd (ff_Tickets q ! n)) \<or> prev_closed q n"
    and "fst (ff_Tickets q ! n) = None \<Longrightarrow> st = Granted \<or> passed st"
  shows "turns_in_order (map snd (ff_Tickets (set_ticket n st q)))"
    and "linked (ff_Tickets (set_ticket n st q))"
proof -
  have turns: "turns_in_order (map snd (ff_Tickets q))" and link: "linked (ff_Tickets q)"
    using assms(1) by (simp_all add: fifo_inv_def)
  show "turns_in_order (map snd (ff_Tickets (set_ticket n st q)))"
    unfolding set_ticket_simps
  proof (rule turns_update [OF turns])
    show "n < length (map snd (ff_Tickets q))" using assms(2) by simp
    show "passed st" if "passed (map snd (ff_Tickets q) ! n)"
      using that assms(2,3) by simp
    show "\<forall>i < n. passed (map snd (ff_Tickets q) ! i)" if "st = Granted \<or> passed st"
      by (rule before_passed [OF assms(1,2) assms(4) [OF that]])
  qed
  show "linked (ff_Tickets (set_ticket n st q))"
    using linked_update [OF link assms(2,5)] by (simp add: set_ticket_def)
qed

lemma tail_of_update:
  "n < length xs \<Longrightarrow>
   tail_of (xs[n := st]) =
     (if Suc n = length xs then if passed st then None else Some n else tail_of xs)"
  by (cases "xs = []") (auto simp: tail_of_def last_list_update)

lemma tail_of_last:
  "n < length xs \<Longrightarrow> Suc n = length xs \<Longrightarrow> tail_of xs = (if passed (xs ! n) then None else Some n)"
  by (cases xs rule: rev_cases) (simp_all add: tail_of_def)

lemma tail_of_Some: "tail_of xs = Some n \<Longrightarrow> Suc n = length xs \<and> \<not> passed (xs ! n)"
  by (auto simp: tail_of_def last_conv_nth split: if_splits)

lemma fifo_inv_set:
  assumes "fifo_inv q" and "n < length (ff_Tickets q)"
    and "passed (snd (ff_Tickets q ! n)) = passed st"
    and "st = Granted \<or> passed st \<Longrightarrow>
           snd (ff_Tickets q ! n) = Granted \<or> passed (snd (ff_Tickets q ! n)) \<or> prev_closed q n"
    and "fst (ff_Tickets q ! n) = None \<Longrightarrow> st = Granted \<or> passed st"
  shows "fifo_inv (set_ticket n st q)"
proof -
  have "tail_of ((map snd (ff_Tickets q))[n := st]) = tail_of (map snd (ff_Tickets q))"
    using assms(2,3) tail_of_last [of n "map snd (ff_Tickets q)"] by (auto simp: tail_of_update)
  then show ?thesis
    using set_ticket_keeps [OF assms(1,2) _ assms(4,5)] assms(1,3)
    unfolding fifo_inv_def set_ticket_simps by auto
qed

lemma fifo_keeps:
  assumes inv: "fifo_inv q" and step: "fifo_next a q = Some r"
  shows "fifo_inv r"
proof (cases a)
  case Enqueue
  let ?st = "case ff_Tail q of None \<Rightarrow> Granted | Some m \<Rightarrow> Queued"
  have turns: "turns_in_order (map snd (ff_Tickets q))" and link: "linked (ff_Tickets q)"
    and tail: "ff_Tail q = tail_of (map snd (ff_Tickets q))"
    using inv by (simp_all add: fifo_inv_def)
  have "list_all passed (map snd (ff_Tickets q))" if "ff_Tail q = None"
    using that tail turns_all_passed [OF turns] by (auto simp: tail_of_def split: if_splits)
  then have "turns_in_order (map snd (ff_Tickets q) @ [?st])"
    by (intro turns_append [OF turns]) (auto simp: passed_def split: option.splits)
  moreover have "linked (ff_Tickets q @ [(ff_Tail q, ?st)])"
    using link tail_of_Some [of "map snd (ff_Tickets q)"] tail
    by (auto simp: linked_def nth_append less_Suc_eq split: option.splits)
  moreover have "tail_of (map snd (ff_Tickets q) @ [?st]) = Some (length (ff_Tickets q))"
    by (auto simp: tail_of_def passed_def split: option.splits)
  ultimately show ?thesis
    using step Enqueue by (auto simp: fifo_inv_def)
next
  case (Grant n)
  then have "n < length (ff_Tickets q)" and "snd (ff_Tickets q ! n) = Queued"
    and "prev_closed q n" and r: "r = set_ticket n Granted q"
    using step by (auto dest: ticket_stateD split: if_splits)
  then show ?thesis
    unfolding r by (intro fifo_inv_set [OF inv]) (auto simp: passed_def)
next
  case (Abandon n)
  then have n: "n < length (ff_Tickets q)" and st: "snd (ff_Tickets q ! n) = Queued"
    and r: "r = set_ticket n Abandoned q"
    using step by (auto dest: ticket_stateD split: if_splits)
  moreover have "linked (ff_Tickets q)" using inv by (simp add: fifo_inv_def)
  then have "fst (ff_Tickets q ! n) \<noteq> None"
    using linkedD(2) [OF _ n] st by (auto simp: passed_def)
  ultimately show ?thesis
    unfolding r by (intro fifo_inv_set [OF inv]) (auto simp: passed_def)
next
  case (Leave n)
  then have n: "n < length (ff_Tickets q)"
    and st: "snd (ff_Tickets q ! n) = Granted \<or> snd (ff_Tickets q ! n) = Abandoned \<and> prev_closed q n"
    and r: "r = leave_tail n (set_ticket n Leaving q)"
    using step by (auto dest: ticket_stateD split: if_splits)
  have keeps: "turns_in_order (map snd (ff_Tickets (set_ticket n Leaving q)))"
    "linked (ff_Tickets (set_ticket n Leaving q))"
    using st by (intro set_ticket_keeps [OF inv n]; auto simp: passed_def)+
  have tail: "ff_Tail q = tail_of (map snd (ff_Tickets q))" using inv by (simp add: fifo_inv_def)
  have "ff_Tail r = tail_of ((map snd (ff_Tickets q))[n := Leaving])"
  proof (cases "Suc n = length (ff_Tickets q)")
    case True
    then have "ff_Tail q = Some n"
      using tail tail_of_last [of n "map snd (ff_Tickets q)"] n st by (auto simp: passed_def)
    then show ?thesis using True by (simp add: r leave_tail_def tail_of_update passed_def)
  next
    case False
    then have "ff_Tail q \<noteq> Some n"
      using tail tail_of_Some [of "map snd (ff_Tickets q)" n] by auto
    then show ?thesis using False n tail by (simp add: r leave_tail_def tail_of_update)
  qed
  then show ?thesis
    using keeps by (simp add: fifo_inv_def r)
next
  case (Close n)
  then have "n < length (ff_Tickets q)" and "snd (ff_Tickets q ! n) = Leaving"
    and r: "r = set_ticket n Closed q"
    using step by (auto dest: ticket_stateD split: if_splits)
  then show ?thesis
    unfolding r by (intro fifo_inv_set [OF inv]) (auto simp: passed_def)
qed

interpretation fq: guarded_steps fifo_next "\<lambda>a q. True" fifo_inv
  by unfold_locales (rule fifo_keeps)

lemma fifo_inv_empty: "fifo_inv empty_fifo"
  by (simp add: fifo_inv_def empty_fifo_def turns_in_order_def linked_def tail_of_def)

lemma fifo_run_inv:
  assumes "run_steps fifo_next acts empty_fifo = Some q"
  shows "fifo_inv q"
proof -
  have "guarded_run fifo_next (\<lambda>a q. True) acts r" if "run_steps fifo_next acts r = Some q" for r
    using that by (induction acts arbitrary: r) (auto split: option.splits)
  then show ?thesis
    using fq.run_keeps [OF fifo_inv_empty] assms by blast
qed

text \<open>
  The turns of one process never overlap and are taken in the order of arrival: when a ticket
  has its turn, every earlier one has given its turn up.
\<close>

theorem queue_turns_in_order:
  assumes "run_steps fifo_next acts empty_fifo = Some q"
    and "ticket_at q n = Some Granted" and "m < n"
  shows "ticket_at q m = Some Leaving \<or> ticket_at q m = Some Closed"
  using before_passed [OF fifo_run_inv [OF assms(1)], of n] assms(2,3)
  by (auto simp: ticket_at_def passed_def split: if_splits)

text \<open>
  Claim C21. A waiter that gives up never stalls the ones behind it: while a ticket is not closed, some
  turn can be granted, given up or closed without a new arrival.
\<close>

theorem queue_never_stalls:
  assumes "run_steps fifo_next acts empty_fifo = Some q"
    and "ticket_at q n = Some st" and "st \<noteq> Closed"
  shows "\<exists>m. fifo_next (Grant m) q \<noteq> None \<or> fifo_next (Leave m) q \<noteq> None \<or>
             fifo_next (Close m) q \<noteq> None"
proof -
  have inv: "fifo_inv q" using fifo_run_inv [OF assms(1)] .
  let ?waits = "\<lambda>k. k < length (ff_Tickets q) \<and> snd (ff_Tickets q ! k) \<noteq> Closed"
  define m where "m = (LEAST k. ?waits k)"
  have "?waits n" using assms(2,3) by (auto simp: ticket_at_def split: if_splits)
  then have m: "m < length (ff_Tickets q)" and open_m: "snd (ff_Tickets q ! m) \<noteq> Closed"
    using LeastI [of ?waits n] unfolding m_def by auto
  have earlier: "ticket_at q k = Some Closed" if "k < m" for k
    using not_less_Least [of k ?waits] that m by (auto simp: m_def ticket_at_def)
  have link: "linked (ff_Tickets q)" using inv by (simp add: fifo_inv_def)
  show ?thesis
  proof (cases "snd (ff_Tickets q ! m) = Granted \<or> snd (ff_Tickets q ! m) = Leaving")
    case True
    then show ?thesis using m by (intro exI [of _ m]) (auto simp: ticket_at_def)
  next
    case False
    then have st: "snd (ff_Tickets q ! m) = Queued \<or> snd (ff_Tickets q ! m) = Abandoned"
      using open_m by (cases "snd (ff_Tickets q ! m)") auto
    then obtain k where "fst (ff_Tickets q ! m) = Some k"
      using linkedD(2) [OF link m] by (cases "fst (ff_Tickets q ! m)") (auto simp: passed_def)
    then have "prev_closed q m"
      using earlier linkedD(1) [OF link m] by (auto simp: prev_closed_def)
    then show ?thesis using m st by (intro exI [of _ m]) (auto simp: ticket_at_def)
  qed
qed

definition abandoned_run :: "fifo_action list" where
  "abandoned_run = [Enqueue, Enqueue, Enqueue, Abandon 1, Leave 0, Close 0, Leave 1, Close 1, Grant 2]"

lemmas fifo_eval =
  empty_fifo_def abandoned_run_def ticket_at_def set_ticket_def prev_closed_def leave_tail_def

theorem queue_turns_in_order_witness:
  "\<exists>q. run_steps fifo_next abandoned_run empty_fifo = Some q \<and> ticket_at q 2 = Some Granted \<and>
       (ticket_at q 1 = Some Leaving \<or> ticket_at q 1 = Some Closed)"
proof -
  obtain q where "run_steps fifo_next abandoned_run empty_fifo = Some q" "ticket_at q 2 = Some Granted"
    by (simp add: fifo_eval)
  then show ?thesis using queue_turns_in_order [of abandoned_run q 2 1] by auto
qed

theorem queue_never_stalls_witness:
  "\<exists>q. run_steps fifo_next [Enqueue, Enqueue, Abandon 1, Leave 0] empty_fifo = Some q \<and>
       (\<exists>m. fifo_next (Grant m) q \<noteq> None \<or> fifo_next (Leave m) q \<noteq> None \<or>
            fifo_next (Close m) q \<noteq> None)"
proof -
  obtain q where "run_steps fifo_next [Enqueue, Enqueue, Abandon 1, Leave 0] empty_fifo = Some q"
      "ticket_at q 1 = Some Abandoned"
    by (simp add: fifo_eval)
  then show ?thesis
    using queue_never_stalls [of "[Enqueue, Enqueue, Abandon 1, Leave 0]" q 1 Abandoned] by auto
qed

end
