(* ===== verification/Memory_Momentum.thy ===== *)
theory Memory_Momentum
  imports Swap_Thrash
begin

text \<open>
  The trend of free memory over the latest samples (\<^verbatim>\<open>sessionpressure/momentum.go\<close>): a
  least-squares slope over at most five observations, its reading, and the minutes until the red
  threshold. Measurements are rationals; \<^verbatim>\<open>math.Round\<close> rounds halves away from zero.
\<close>

datatype MemoryMomentum =
    MemoryMomentumUnknown | MemoryMomentumSteady | MemoryMomentumRapidDecline
  | MemoryMomentumDeclining | MemoryMomentumRecovering

record memoryObservation =
  mo_Timestamp :: time
  mo_FreePercent :: rat

record momentum_reading =
  mm_Momentum :: MemoryMomentum
  mm_Slope :: rat
  mm_MinutesToRed :: "rat option"

definition memoryMomentumWindow :: nat where "memoryMomentumWindow = 5"
definition memoryMomentumMinimumSpan :: duration where "memoryMomentumMinimumSpan = seconds 30"
definition memoryMomentumMaxETA :: rat where "memoryMomentumMaxETA = 60"

definition go_round :: "rat \<Rightarrow> rat" where
  "go_round x = (if 0 \<le> x then of_int \<lfloor>x + 1 / 2\<rfloor> else - of_int \<lfloor>1 / 2 - x\<rfloor>)"

definition momentum_minutes :: "duration \<Rightarrow> rat" where
  "momentum_minutes d = of_int d / 60000000000"

definition unknown_momentum :: momentum_reading where
  "unknown_momentum = \<lparr> mm_Momentum = MemoryMomentumUnknown, mm_Slope = 0, mm_MinutesToRed = None \<rparr>"

definition offset :: "time \<Rightarrow> memoryObservation \<Rightarrow> rat" where
  "offset first ob = momentum_minutes (time_sub (mo_Timestamp ob) first)"

definition slope_parts :: "time \<Rightarrow> memoryObservation list \<Rightarrow> rat \<times> rat" where
  "slope_parts first obs =
     (let n = of_nat (length obs);
          meanX = sum_list (map (offset first) obs) / n;
          meanY = sum_list (map mo_FreePercent obs) / n
      in (sum_list (map (\<lambda>ob. (offset first ob - meanX) * (mo_FreePercent ob - meanY)) obs),
          sum_list (map (\<lambda>ob. (offset first ob - meanX) * (offset first ob - meanX)) obs)))"

definition read_slope :: "rat \<Rightarrow> MemoryMomentum" where
  "read_slope slope =
     (if slope \<le> -4 then MemoryMomentumRapidDecline
      else if slope \<le> -1 then MemoryMomentumDeclining
      else if 1 \<le> slope then MemoryMomentumRecovering else MemoryMomentumSteady)"

definition minutes_to_red :: "rat \<Rightarrow> rat \<Rightarrow> rat \<Rightarrow> rat option" where
  "minutes_to_red slope current redThreshold =
     (if slope \<le> -1 then
        (let m = (if redThreshold < current then (current - redThreshold) / - slope else 0)
         in if m \<le> memoryMomentumMaxETA then Some (go_round (m * 10) / 10) else None)
      else None)"

definition calculateMemoryMomentum :: "memoryObservation list \<Rightarrow> rat \<Rightarrow> momentum_reading" where
  "calculateMemoryMomentum obs redThreshold =
     (if length obs < 3 then unknown_momentum
      else let first = mo_Timestamp (hd obs); final = mo_Timestamp (last obs) in
        if IsZero first \<or> time_sub final first < memoryMomentumMinimumSpan then unknown_momentum
        else let (numerator, denominator) = slope_parts first obs in
          if denominator = 0 then unknown_momentum
          else let slope = go_round (numerator / denominator * 100) / 100 in
            \<lparr> mm_Momentum = read_slope slope, mm_Slope = slope,
              mm_MinutesToRed = minutes_to_red slope (mo_FreePercent (last obs)) redThreshold \<rparr>)"

definition annotateMemoryMomentum ::
    "Snapshot \<Rightarrow> memoryObservation list \<Rightarrow> rat \<Rightarrow> (momentum_reading \<times> nat) option \<times> memoryObservation list" where
  "annotateMemoryMomentum s history redThreshold =
     (if IsZero (sn_Timestamp s) then (None, history)
      else let obs = history @ [\<lparr> mo_Timestamp = sn_Timestamp s, mo_FreePercent = of_int (sn_FreePercent s) \<rparr>];
               obs = drop (length obs - memoryMomentumWindow) obs
           in (Some (calculateMemoryMomentum obs redThreshold, length obs), obs))"


section \<open>Facts\<close>

lemma go_round_int [simp]: "go_round (of_int n) = of_int n"
proof -
  have pos: "\<lfloor>of_int m + 1 / 2 :: rat\<rfloor> = m" for m :: int by (simp add: floor_eq_iff)
  have "\<lfloor>1 / 2 - of_int n :: rat\<rfloor> = - n" by (simp add: floor_eq_iff)
  then show ?thesis using pos [of n] by (simp add: go_round_def)
qed

lemma go_round_mono: "0 \<le> x \<Longrightarrow> x \<le> of_int n \<Longrightarrow> 0 \<le> go_round x \<and> go_round x \<le> of_int n"
proof -
  assume "0 \<le> x" and le: "x \<le> of_int n"
  moreover from le have "\<lfloor>x + 1 / 2\<rfloor> \<le> n" by linarith
  moreover from \<open>0 \<le> x\<close> have "0 \<le> \<lfloor>x + 1 / 2\<rfloor>" by linarith
  ultimately show ?thesis by (simp add: go_round_def)
qed

lemma sum_list_affine:
  "sum_list (map (\<lambda>x. b + r * f x) xs) = of_nat (length xs) * b + r * sum_list (map f xs)"
  for b r :: "'a :: comm_ring_1"
  by (induction xs) (simp_all add: algebra_simps)

lemma slope_of_line:
  assumes "obs \<noteq> []" and line: "\<And>ob. ob \<in> set obs \<Longrightarrow> mo_FreePercent ob = b + r * offset first ob"
  shows "fst (slope_parts first obs) = r * snd (slope_parts first obs)"
proof -
  let ?n = "of_nat (length obs) :: rat"
  define meanX where "meanX = sum_list (map (offset first) obs) / ?n"
  have points: "map mo_FreePercent obs = map (\<lambda>ob. b + r * offset first ob) obs"
    using line by simp
  have "sum_list (map mo_FreePercent obs) / ?n = b + r * meanX"
    unfolding points using assms(1) by (simp add: sum_list_affine meanX_def add_divide_distrib)
  then have "fst (slope_parts first obs) =
      sum_list (map (\<lambda>ob. (offset first ob - meanX) * (mo_FreePercent ob - (b + r * meanX))) obs)"
    by (simp add: slope_parts_def Let_def meanX_def)
  also have "\<dots> = sum_list (map (\<lambda>ob. r * ((offset first ob - meanX) * (offset first ob - meanX))) obs)"
    using line by (intro arg_cong [where f = sum_list] map_cong) (simp_all add: algebra_simps)
  also have "\<dots> = r * snd (slope_parts first obs)"
    by (simp add: slope_parts_def Let_def meanX_def sum_list_const_mult)
  finally show ?thesis .
qed

lemma sum_list_squares_zero:
  "sum_list (map (\<lambda>x. f x * f x) xs) = (0 :: 'a :: linordered_idom) \<Longrightarrow> x \<in> set xs \<Longrightarrow> f x = 0"
proof (induction xs)
  case (Cons y ys)
  have "0 \<le> sum_list (map (\<lambda>x. f x * f x) ys)" by (intro sum_list_nonneg) auto
  moreover have "0 \<le> f y * f y" by simp
  moreover have "f y * f y + sum_list (map (\<lambda>x. f x * f x) ys) = 0" using Cons.prems(1) by simp
  ultimately have "f y * f y = 0" and "sum_list (map (\<lambda>x. f x * f x) ys) = 0"
    by (simp_all only: add_nonneg_eq_0_iff)
  then show ?case using Cons by auto
qed simp

lemma spread_positive:
  assumes "obs \<noteq> []" and "mo_Timestamp (hd obs) = first"
    and "memoryMomentumMinimumSpan \<le> time_sub (mo_Timestamp (last obs)) first"
  shows "snd (slope_parts first obs) \<noteq> 0"
proof
  define meanX where "meanX = sum_list (map (offset first) obs) / of_nat (length obs)"
  assume "snd (slope_parts first obs) = 0"
  then have "sum_list (map (\<lambda>ob. (offset first ob - meanX) * (offset first ob - meanX)) obs) = 0"
    by (simp add: slope_parts_def Let_def meanX_def)
  then have all: "offset first ob - meanX = 0" if "ob \<in> set obs" for ob
    using that by (rule sum_list_squares_zero)
  have "offset first (last obs) = offset first (hd obs)"
    using all [of "last obs"] all [of "hd obs"] assms(1) by simp
  then have "time_sub (mo_Timestamp (last obs)) first = 0"
    using assms(2) by (simp add: offset_def momentum_minutes_def)
  then show False
    using assms(3) by (simp add: memoryMomentumMinimumSpan_def seconds_def)
qed

text \<open>
  On free memory that moves along a line the reported slope is the slope of the line, rounded to
  hundredths, whatever the spacing of the samples: the trend is not biased by irregular sampling.
\<close>

theorem momentum_recovers_trend:
  assumes "3 \<le> length obs" and "\<not> IsZero (mo_Timestamp (hd obs))"
    and "memoryMomentumMinimumSpan \<le> time_sub (mo_Timestamp (last obs)) (mo_Timestamp (hd obs))"
    and "list_all (\<lambda>ob. mo_FreePercent ob = b + r * offset (mo_Timestamp (hd obs)) ob) obs"
  shows "mm_Slope (calculateMemoryMomentum obs red) = go_round (r * 100) / 100 \<and>
         mm_Momentum (calculateMemoryMomentum obs red) = read_slope (go_round (r * 100) / 100)"
proof -
  let ?first = "mo_Timestamp (hd obs)"
  have "obs \<noteq> []" using assms(1) by auto
  then have num: "fst (slope_parts ?first obs) = r * snd (slope_parts ?first obs)"
    using slope_of_line [of obs b r ?first] assms(4) by (simp add: list_all_iff)
  moreover have "snd (slope_parts ?first obs) \<noteq> 0"
    using spread_positive [OF \<open>obs \<noteq> []\<close> refl assms(3)] .
  ultimately show ?thesis
    using assms(1,2,3) by (simp add: calculateMemoryMomentum_def Let_def case_prod_beta)
qed

definition falling :: "memoryObservation list" where
  "falling =
     [\<lparr> mo_Timestamp = 60000000000, mo_FreePercent = 40 \<rparr>,
      \<lparr> mo_Timestamp = 120000000000, mo_FreePercent = 38 \<rparr>,
      \<lparr> mo_Timestamp = 300000000000, mo_FreePercent = 32 \<rparr>]"

theorem momentum_recovers_trend_witness:
  "mm_Slope (calculateMemoryMomentum falling 20) = go_round (-2 * 100) / 100 \<and>
   mm_Momentum (calculateMemoryMomentum falling 20) = read_slope (go_round (-2 * 100) / 100)"
  by (rule momentum_recovers_trend [where b = 40])
     (simp_all add: falling_def IsZero_def memoryMomentumMinimumSpan_def seconds_def offset_def momentum_minutes_def
        time_sub_def min_duration_def max_duration_def)

text \<open>
  A time to red is announced only for a decline of at least one percent a minute, and it lies
  between now and the hour.
\<close>

theorem red_eta_bounded:
  "case mm_MinutesToRed (calculateMemoryMomentum obs red) of
     None \<Rightarrow> True
   | Some m \<Rightarrow> 0 \<le> m \<and> m \<le> 60 \<and> mm_Slope (calculateMemoryMomentum obs red) \<le> -1"
proof -
  have "0 \<le> go_round (m * 10) / 10 \<and> go_round (m * 10) / 10 \<le> 60" if "0 \<le> m" "m \<le> 60" for m
    using go_round_mono [of "m * 10" 600] that by simp
  moreover have "0 \<le> (c - red) / - slope" if "red < c" "slope \<le> -1" for c slope :: rat
    using that by (intro divide_nonneg_nonneg) simp_all
  ultimately have eta: "case minutes_to_red slope c red of None \<Rightarrow> True | Some m \<Rightarrow> 0 \<le> m \<and> m \<le> 60 \<and> slope \<le> -1"
    for slope c
    by (auto simp: minutes_to_red_def Let_def memoryMomentumMaxETA_def)
  have "calculateMemoryMomentum obs red = unknown_momentum \<or>
        mm_MinutesToRed (calculateMemoryMomentum obs red) =
          minutes_to_red (mm_Slope (calculateMemoryMomentum obs red)) (mo_FreePercent (last obs)) red"
    by (simp add: calculateMemoryMomentum_def Let_def case_prod_beta)
  then show ?thesis
    using eta [of "mm_Slope (calculateMemoryMomentum obs red)" "mo_FreePercent (last obs)"]
    by (auto simp: unknown_momentum_def)
qed

end
