(* ===== verification/Monitor_Stats.thy ===== *)
theory Monitor_Stats
  imports Pressure_Admission
begin

text \<open>
  The rolling statistics of the resident (\<open>monitorStats\<close> of \<^verbatim>\<open>sessionpressure/monitor.go\<close>), which
  keep the latest sixty-four samples in a ring, and the daily telemetry projection of
  \<^verbatim>\<open>telemetry.go\<close> that its budget check uses. The parallel slices of the code are one list of
  rows; a map of phase durations is the list of its entries.
\<close>

section \<open>Projection\<close>

definition projectedRecurringEventBytes :: int where "projectedRecurringEventBytes = 1024"
definition projectedTransitionEventBytes :: int where "projectedTransitionEventBytes = 8 * 1024"
definition maxProjectedActionRecordBytes :: int where "maxProjectedActionRecordBytes = 1000"
definition projectedDiskWriteEventBytes :: int where "projectedDiskWriteEventBytes = 384"
definition projectedDiskWriteEventsDay :: int where "projectedDiskWriteEventsDay = 96"

record TelemetryDailyProjection =
  tp_RecurringEventBytes :: int
  tp_RecurringEventsDay :: int
  tp_TransitionEventBytes :: int
  tp_TransitionEventsDay :: int
  tp_ActionEventBytes :: int
  tp_ActionEventsDay :: int
  tp_MonitorBytes :: int
  tp_TotalBytes :: int
  tp_DiskWriteEventBytes :: int
  tp_DiskWriteEventsDay :: int

definition ProjectTelemetryBytesPerDay :: "Policy \<Rightarrow> int \<Rightarrow> int \<Rightarrow> int \<Rightarrow> TelemetryDailyProjection" where
  "ProjectTelemetryBytesPerDay p recurringObserved transitionObserved actionObserved =
     (let recurring = max recurringObserved projectedRecurringEventBytes;
          transition = max transitionObserved projectedTransitionEventBytes;
          recurringDay = (if HeartbeatSeconds p > 0 then go_div 86400 (HeartbeatSeconds p) else 0);
          action = (if ActionCooldownSeconds p > 0
                    then if po_AutoShedCritical p then max actionObserved maxProjectedActionRecordBytes
                         else actionObserved
                    else 0);
          interval = (if po_AutoShedCritical p then min (seconds (ActionCooldownSeconds p)) (seconds 180)
                      else seconds (ActionCooldownSeconds p));
          actionDay = (if ActionCooldownSeconds p > 0 \<and> action > 0 \<and> interval > 0
                       then go_div (seconds 86400) interval else 0);
          monitor = recurring * recurringDay + transition * 24;
          disk = (if dw_Enabled (po_DiskWrite p) then projectedDiskWriteEventBytes else 0);
          diskDay = (if dw_Enabled (po_DiskWrite p) then projectedDiskWriteEventsDay else 0)
      in \<lparr> tp_RecurringEventBytes = recurring, tp_RecurringEventsDay = recurringDay,
           tp_TransitionEventBytes = transition, tp_TransitionEventsDay = 24,
           tp_ActionEventBytes = action, tp_ActionEventsDay = actionDay, tp_MonitorBytes = monitor,
           tp_TotalBytes = monitor + action * actionDay + disk * diskDay,
           tp_DiskWriteEventBytes = disk, tp_DiskWriteEventsDay = diskDay \<rparr>)"


section \<open>The ring\<close>

record stats_row =
  sr_Duration :: rat
  sr_Phases :: "(string \<times> rat) list"
  sr_CPUTime :: rat
  sr_DutyCPUTime :: rat
  sr_Interval :: rat
  sr_Level :: Level
  sr_RSS :: rat
  sr_CPU :: rat

record monitorStats =
  ms_Rows :: "stats_row list"
  ms_next :: nat
  ms_count :: int
  ms_recurringEventMaxBytes :: int
  ms_transitionEventMaxBytes :: int
  ms_actionBytesTotal :: int
  ms_actionCount :: int
  ms_normalSamplesTotal :: int
  ms_sampleErrors :: int
  ms_resourceCleanupFailures :: int

definition empty_stats :: monitorStats where
  "empty_stats =
     \<lparr> ms_Rows = [], ms_next = 0, ms_count = 0, ms_recurringEventMaxBytes = 0,
       ms_transitionEventMaxBytes = 0, ms_actionBytesTotal = 0, ms_actionCount = 0,
       ms_normalSamplesTotal = 0, ms_sampleErrors = 0, ms_resourceCleanupFailures = 0 \<rparr>"

definition monitorStatsWindow :: nat where "monitorStatsWindow = 64"

definition stats_row_of :: "Snapshot \<Rightarrow> rat \<Rightarrow> rat \<Rightarrow> stats_row" where
  "stats_row_of s intervalCPUTimeMS sampleIntervalSeconds =
     \<lparr> sr_Duration = sn_SampleDurationMS s, sr_Phases = sn_SamplePhaseMS s,
       sr_CPUTime = sn_SampleCPUTimeMS s,
       sr_DutyCPUTime = (if intervalCPUTimeMS \<le> 0 then sn_SampleCPUTimeMS s else intervalCPUTimeMS),
       sr_Interval = sampleIntervalSeconds, sr_Level = sn_Level s, sr_RSS = sn_GuardRSSMB s,
       sr_CPU = sn_GuardCPUPercent s \<rparr>"

definition push_row :: "stats_row \<Rightarrow> monitorStats \<Rightarrow> monitorStats" where
  "push_row r st =
     (if length (ms_Rows st) < monitorStatsWindow then st\<lparr> ms_Rows := ms_Rows st @ [r] \<rparr>
      else st\<lparr> ms_Rows := (ms_Rows st)[ms_next st := r],
               ms_next := Suc (ms_next st) mod monitorStatsWindow \<rparr>)"

definition stats_add :: "Snapshot \<Rightarrow> rat \<Rightarrow> rat \<Rightarrow> monitorStats \<Rightarrow> monitorStats" where
  "stats_add s intervalCPUTimeMS sampleIntervalSeconds st =
     (let st = (if sn_Level s = LevelNormal
                then st\<lparr> ms_normalSamplesTotal := ms_normalSamplesTotal st + 1 \<rparr> else st);
          st = push_row (stats_row_of s intervalCPUTimeMS sampleIntervalSeconds) st
      in st\<lparr> ms_count := ms_count st + 1 \<rparr>)"

definition transition_events :: "string list" where
  "transition_events =
     [''state_transition'', ''sample_recovered'', ''resource_cleanup_error'',
      ''resource_cleanup_recovered'', ''swap_thrash_transition'']"

definition recordEventBytes :: "string \<Rightarrow> int \<Rightarrow> monitorStats \<Rightarrow> monitorStats" where
  "recordEventBytes event bytes st =
     (if bytes \<le> 0 then st
      else if event \<in> set transition_events
      then st\<lparr> ms_transitionEventMaxBytes := max (ms_transitionEventMaxBytes st) bytes \<rparr>
      else st\<lparr> ms_recurringEventMaxBytes := max (ms_recurringEventMaxBytes st) bytes \<rparr>)"

definition recordActionBytes :: "int \<Rightarrow> monitorStats \<Rightarrow> monitorStats" where
  "recordActionBytes bytes st =
     (if bytes \<le> 0 then st
      else st\<lparr> ms_actionBytesTotal := ms_actionBytesTotal st + bytes, ms_actionCount := ms_actionCount st + 1 \<rparr>)"

definition stats_p95_index :: "nat \<Rightarrow> nat" where
  "stats_p95_index n = nat (\<lfloor>of_nat n * (95 / 100) + 999999 / 1000000 :: rat\<rfloor> - 1)"

definition nth_sorted :: "nat \<Rightarrow> rat list \<Rightarrow> rat" where
  "nth_sorted i xs = sort xs ! i"

definition maximum :: "rat list \<Rightarrow> rat" where
  "maximum xs = last (sort xs)"

definition average :: "rat list \<Rightarrow> rat" where
  "average xs = sum_list xs / of_nat (length xs)"

definition phase_names :: "(string \<times> rat) list list \<Rightarrow> string list" where
  "phase_names samples = remdups (map fst (concat samples))"

definition phase_durations :: "(string \<times> rat) list list \<Rightarrow> string \<Rightarrow> rat list" where
  "phase_durations samples name =
     map (\<lambda>s. case map_of s name of None \<Rightarrow> 0 | Some d \<Rightarrow> d) samples"

type_synonym phase_map = "(string \<times> rat) list"

definition aggregatePhaseTimings :: "phase_map list \<Rightarrow> phase_map \<times> phase_map \<times> phase_map" where
  "aggregatePhaseTimings samples =
     (let over = (\<lambda>f. map (\<lambda>name. (name, f (phase_durations samples name))) (phase_names samples))
      in (over average, over (nth_sorted (stats_p95_index (length samples))), over maximum))"

record stats_report =
  rp_DurationAvg :: rat
  rp_DurationMax :: rat
  rp_PhaseAvg :: phase_map
  rp_PhaseMax :: phase_map
  rp_CPUTimeAvg :: rat
  rp_CPUTimeMax :: rat
  rp_CPUDuty :: rat
  rp_GuardCPUAvg :: rat
  rp_SampleErrors :: int
  rp_CleanupFailures :: int

definition duty :: "stats_row list \<Rightarrow> rat" where
  "duty rows =
     (let interval = sum_list (map sr_Interval (filter (\<lambda>r. 0 < sr_Interval r) rows)) in
      if 0 < interval then sum_list (map sr_DutyCPUTime rows) / (interval * 10) else 0)"

definition idle_rows :: "stats_row list \<Rightarrow> stats_row list" where
  "idle_rows rows = filter (\<lambda>r. 0 < sr_Interval r \<and> sr_Level r = LevelNormal) rows"

text \<open>
  \<^verbatim>\<open>apply\<close>: the snapshot with its rolling fields, whether the baseline is proven, and the
  figures that are only reported. An empty ring changes nothing.
\<close>

definition stats_apply ::
    "Snapshot \<Rightarrow> Policy \<Rightarrow> monitorStats \<Rightarrow> (Snapshot \<times> bool \<times> stats_report) option" where
  "stats_apply s p st =
     (let rows = ms_Rows st; durations = map sr_Duration rows; cpu = map sr_CPUTime rows;
          i = stats_p95_index (length rows); (phaseAvg, phaseP95, phaseMax) = aggregatePhaseTimings (map sr_Phases rows);
          idle = idle_rows rows; idleInterval = sum_list (map sr_Interval idle);
          actionBytes = (if ms_actionCount st > 0 then go_div (ms_actionBytesTotal st) (ms_actionCount st) else 0);
          projection = ProjectTelemetryBytesPerDay p (ms_recurringEventMaxBytes st)
                         (ms_transitionEventMaxBytes st) actionBytes
      in if rows = [] then None
         else Some
          (s\<lparr> sn_MonitorSamples := ms_count st, sn_NormalMonitorSamples := int (length idle),
              sn_SampleDurationP95MS := nth_sorted i durations, sn_SamplePhaseP95MS := phaseP95,
              sn_SampleCPUTimeP95MS := nth_sorted i cpu,
              sn_GuardIdleCPUDutyPercent :=
                (if 0 < idleInterval then sum_list (map sr_DutyCPUTime idle) / (idleInterval * 10)
                 else sn_GuardIdleCPUDutyPercent s),
              sn_GuardRSSMaxMB := foldl max 0 (map sr_RSS rows),
              sn_TelemetryProjectedBytesDay := tp_TotalBytes projection \<rparr>,
           ms_normalSamplesTotal st \<ge> SustainSamples p,
           \<lparr> rp_DurationAvg = average durations, rp_DurationMax = maximum durations,
             rp_PhaseAvg = phaseAvg, rp_PhaseMax = phaseMax, rp_CPUTimeAvg = average cpu,
             rp_CPUTimeMax = maximum cpu, rp_CPUDuty = duty rows,
             rp_GuardCPUAvg = average (map sr_CPU rows), rp_SampleErrors = ms_sampleErrors st,
             rp_CleanupFailures = ms_resourceCleanupFailures st \<rparr>))"


section \<open>The ring is the latest window\<close>

definition lastn :: "nat \<Rightarrow> 'a list \<Rightarrow> 'a list" where
  "lastn n xs = drop (length xs - n) xs"

text \<open>The rows of the ring in the order in which the samples came.\<close>

definition stats_window :: "monitorStats \<Rightarrow> stats_row list" where
  "stats_window st = drop (ms_next st) (ms_Rows st) @ take (ms_next st) (ms_Rows st)"

definition ring_ok :: "monitorStats \<Rightarrow> bool" where
  "ring_ok st \<longleftrightarrow>
     length (ms_Rows st) \<le> monitorStatsWindow \<and>
     (length (ms_Rows st) < monitorStatsWindow \<longrightarrow> ms_next st = 0) \<and> ms_next st < monitorStatsWindow"

lemma ring_ok_push: "ring_ok st \<Longrightarrow> ring_ok (push_row r st)"
  by (auto simp: ring_ok_def push_row_def monitorStatsWindow_def)

lemma rotate_update:
  assumes "n < length xs"
  shows "drop (Suc n mod length xs) (xs[n := r]) @ take (Suc n mod length xs) (xs[n := r]) =
         tl (drop n xs @ take n xs) @ [r]"
proof -
  obtain ys y zs where xs: "xs = ys @ y # zs" and n: "n = length ys"
    using assms id_take_nth_drop [OF assms] by (metis length_take min.absorb4)
  show ?thesis
    by (cases "zs = []") (simp_all add: xs n list_update_append)
qed

lemma window_push:
  assumes "ring_ok st"
  shows "stats_window (push_row r st) = lastn monitorStatsWindow (stats_window st @ [r])"
proof (cases "length (ms_Rows st) < monitorStatsWindow")
  case True
  then show ?thesis
    using assms by (simp add: ring_ok_def push_row_def stats_window_def lastn_def)
next
  case False
  then have full: "length (ms_Rows st) = monitorStatsWindow" and "ms_next st < length (ms_Rows st)"
    using assms by (auto simp: ring_ok_def)
  then have "stats_window (push_row r st) = tl (stats_window st) @ [r]"
    using rotate_update [of "ms_next st" "ms_Rows st" r] False
    by (simp add: push_row_def stats_window_def)
  moreover have "length (stats_window st) = monitorStatsWindow"
    using full by (simp add: stats_window_def)
  ultimately show ?thesis
    by (cases "stats_window st") (simp_all add: lastn_def monitorStatsWindow_def)
qed

lemma lastn_append: "lastn n (lastn n xs @ ys) = lastn n (xs @ ys)"
  by (cases "n \<le> length xs") (auto simp: lastn_def add.commute)

lemma window_stats_add:
  "ring_ok st \<Longrightarrow>
   stats_window (stats_add s c i st) = lastn monitorStatsWindow (stats_window st @ [stats_row_of s c i]) \<and>
   ring_ok (stats_add s c i st)"
proof -
  assume ok: "ring_ok st"
  define u where "u = (if sn_Level s = LevelNormal
                then st\<lparr> ms_normalSamplesTotal := ms_normalSamplesTotal st + 1 \<rparr> else st)"
  have u: "ring_ok u" "stats_window u = stats_window st"
    using ok by (simp_all add: u_def ring_ok_def stats_window_def)
  have "stats_window (stats_add s c i st) = stats_window (push_row (stats_row_of s c i) u)"
    and "ring_ok (stats_add s c i st) = ring_ok (push_row (stats_row_of s c i) u)"
    by (simp_all add: stats_add_def Let_def u_def stats_window_def ring_ok_def)
  then show ?thesis
    using u window_push [OF u(1)] ring_ok_push [OF u(1)] by simp
qed

definition stats_run :: "(Snapshot \<times> rat \<times> rat) list \<Rightarrow> monitorStats" where
  "stats_run samples = foldl (\<lambda>st (s, c, i). stats_add s c i st) empty_stats samples"

text \<open>
  After any series of samples the ring holds exactly the rows of the latest sixty-four, in order
  from the oldest slot on: the fixed slots implement a sliding window.
\<close>

theorem stats_ring_is_window:
  "stats_window (stats_run samples) =
   lastn monitorStatsWindow (map (\<lambda>(s, c, i). stats_row_of s c i) samples)"
proof -
  have "stats_window (stats_run samples) =
        lastn monitorStatsWindow (map (\<lambda>(s, c, i). stats_row_of s c i) samples) \<and>
        ring_ok (stats_run samples)"
  proof (induction samples rule: rev_induct)
    case Nil
    then show ?case
      by (simp add: stats_run_def empty_stats_def stats_window_def lastn_def ring_ok_def monitorStatsWindow_def)
  next
    case (snoc x xs)
    obtain s c i where x: "x = (s, c, i)" by (cases x)
    have "stats_run (xs @ [x]) = stats_add s c i (stats_run xs)"
      by (simp add: stats_run_def x)
    then show ?case
      using snoc window_stats_add [of "stats_run xs" s c i] by (simp add: x lastn_append)
  qed
  then show ?thesis ..
qed

lemma p95_index_bounds:
  assumes "0 < n"
  shows "stats_p95_index n < n" and "20 * (n - Suc (stats_p95_index n)) \<le> n"
proof -
  let ?x = "of_nat n * (95 / 100) + 999999 / 1000000 :: rat"
  have n1: "(1 :: rat) \<le> of_nat n" using assms by simp
  have low: "1 \<le> \<lfloor>?x\<rfloor>" using n1 by (simp add: le_floor_iff)
  have "?x < of_int (int n + 1)" using n1 by simp
  then have up: "\<lfloor>?x\<rfloor> \<le> int n" by (simp only: floor_less_iff [symmetric])
  have idx: "int (stats_p95_index n) = \<lfloor>?x\<rfloor> - 1" using low by (simp add: stats_p95_index_def)
  then show lt: "stats_p95_index n < n" using up by linarith
  have "?x - 1 < of_int \<lfloor>?x\<rfloor>" by linarith
  then have "(20 :: rat) * (of_nat n - of_int \<lfloor>?x\<rfloor>) < of_nat n + 1" by simp
  then have "(of_int (20 * (int n - \<lfloor>?x\<rfloor>)) :: rat) < of_int (int n + 1)" by simp
  then have "20 * (int n - \<lfloor>?x\<rfloor>) < int n + 1" by (simp only: of_int_less_iff)
  then show "20 * (n - Suc (stats_p95_index n)) \<le> n" using idx lt by linarith
qed

lemma few_above_sorted:
  assumes "i < length xs"
  shows "length (filter (\<lambda>x. nth_sorted i xs < x) xs) \<le> length xs - Suc i"
proof -
  let ?s = "sort xs"
  have "length (filter (\<lambda>x. ?s ! i < x) xs) = length (filter (\<lambda>x. ?s ! i < x) ?s)"
    by (metis mset_filter mset_sort size_mset)
  also have "filter (\<lambda>x. ?s ! i < x) ?s = filter (\<lambda>x. ?s ! i < x) (drop (Suc i) ?s)"
  proof -
    have "filter (\<lambda>x. ?s ! i < x) (take (Suc i) ?s) = []"
      using assms sorted_nth_mono [OF sorted_sort, of _ i xs]
      by (auto simp: filter_empty_conv in_set_conv_nth less_Suc_eq_le not_less)
    then show ?thesis by (metis append_Nil append_take_drop_id filter_append)
  qed
  also have "length \<dots> \<le> length (drop (Suc i) ?s)" by (rule length_filter_le)
  finally show ?thesis by (simp add: nth_sorted_def)
qed

text \<open>
  At most one sample in twenty of the window took longer than the p95 the budget is checked with.
\<close>

theorem duration_p95_covers:
  assumes "stats_apply s p st = Some (t, proven, report)"
  shows "20 * length (filter (\<lambda>r. sn_SampleDurationP95MS t < sr_Duration r) (ms_Rows st))
           \<le> length (ms_Rows st)"
proof -
  let ?d = "map sr_Duration (ms_Rows st)" and ?n = "length (ms_Rows st)"
  have "ms_Rows st \<noteq> []" and p95: "sn_SampleDurationP95MS t = nth_sorted (stats_p95_index ?n) ?d"
    using assms by (auto simp: stats_apply_def Let_def case_prod_beta split: if_splits)
  then have n: "0 < ?n" by simp
  have "length (filter (\<lambda>r. sn_SampleDurationP95MS t < sr_Duration r) (ms_Rows st)) =
        length (filter (\<lambda>x. sn_SampleDurationP95MS t < x) ?d)"
    by (simp add: filter_map o_def)
  also have "\<dots> \<le> ?n - Suc (stats_p95_index ?n)"
    using few_above_sorted [of "stats_p95_index ?n" ?d] p95_index_bounds(1) [OF n] by (simp add: p95)
  finally show ?thesis using p95_index_bounds(2) [OF n] by linarith
qed

definition one_sample :: monitorStats where
  "one_sample = stats_run [(calm_snapshot\<lparr> sn_SampleDurationMS := 7 \<rparr>, 0, 60)]"

theorem duration_p95_covers_witness:
  "case stats_apply calm_snapshot (DefaultPolicy 8 32768) one_sample of
     None \<Rightarrow> False
   | Some (t, proven, report) \<Rightarrow>
       20 * length (filter (\<lambda>r. sn_SampleDurationP95MS t < sr_Duration r) (ms_Rows one_sample)) \<le> 1"
proof -
  have rows: "length (ms_Rows one_sample) = 1" "ms_Rows one_sample \<noteq> []"
    by (simp_all add: one_sample_def stats_run_def stats_add_def push_row_def empty_stats_def
        monitorStatsWindow_def Let_def)
  then obtain t proven report
    where "stats_apply calm_snapshot (DefaultPolicy 8 32768) one_sample = Some (t, proven, report)"
    by (simp add: stats_apply_def Let_def case_prod_beta)
  then show ?thesis
    using duration_p95_covers [of calm_snapshot "DefaultPolicy 8 32768" one_sample t proven report] rows
    by simp
qed

end
