(* ===== verification/Action_Ledger.thy ===== *)
theory Action_Ledger
  imports Pressure_Evaluate Work_Event
begin

text \<open>
  The audit ledger of automatic actions (\<^verbatim>\<open>sessionpressure/telemetry.go\<close>, \<open>Action\<close> of
  \<^verbatim>\<open>types.go\<close>): one file of rows per local day and a legacy file without a day. A row that
  does not decode is \<open>None\<close>. Text is counted in bytes, which on ASCII are the runes of the
  code. The name of a day's file, the day a name stands for and the calendar are parameters.
\<close>

section \<open>Rows\<close>

record Action =
  ac_SchemaVersion :: int
  ac_Timestamp :: time
  ac_Kind :: string
  ac_Level :: Level
  ac_RootPID :: int
  ac_Agent :: string
  ac_SessionID :: string
  ac_RSSSumMB :: rat
  ac_SemanticState :: SemanticState
  ac_ReliefScope :: string
  ac_PrimaryHostExecutable :: string
  ac_PrimaryHostRSSSumMB :: rat
  ac_AgentRSSSharePercent :: rat
  ac_Signal :: string
  ac_Result :: string
  ac_Reason :: string
  ac_RevalidatedLevel :: Level
  ac_RevalidatedCPUPercent :: rat
  ac_RevalidatedRSSSumMB :: rat
  ac_RevalidatedSemanticState :: SemanticState
  ac_RevalidationDurationMS :: rat
  ac_RevalidationCPUTimeMS :: rat
  ac_RevalidationGuardRSSMB :: rat
  ac_RevalidationPeakRSSMB :: rat

definition action_schema :: int where "action_schema = 1"
definition actionIdentityLimit :: nat where "actionIdentityLimit = 64"

definition stored_action :: "time \<Rightarrow> Action \<Rightarrow> Action" where
  "stored_action now a =
     a\<lparr> ac_SchemaVersion := (if ac_SchemaVersion a = 0 then action_schema else ac_SchemaVersion a),
        ac_Timestamp := (if IsZero (ac_Timestamp a) then now else ac_Timestamp a),
        ac_Agent := boundedText (ac_Agent a) 32,
        ac_SessionID := boundedText (ac_SessionID a) actionIdentityLimit,
        ac_PrimaryHostExecutable := boundedText (ac_PrimaryHostExecutable a) 64,
        ac_Reason := boundedText (ac_Reason a) actionReasonLimit \<rparr>"


section \<open>Files\<close>

datatype shard_open = ShardReadable | ShardGone | ShardOpenFails

record action_shard =
  sa_Name :: string
  sa_Open :: shard_open
  sa_Rows :: "Action option list"
  sa_Tail :: "Action option option"
  sa_ScanFails :: bool

text \<open>
  \<open>sa_Tail\<close> is a last line without its newline. The scanner reads it as a row, and the next append
  continues it.
\<close>

definition shard_rows :: "action_shard \<Rightarrow> Action option list" where
  "shard_rows f = sa_Rows f @ (case sa_Tail f of None \<Rightarrow> [] | Some r \<Rightarrow> [r])"

datatype legacy_file = LegacyAbsent | LegacyStatFails | LegacyFile action_shard

record action_ledger =
  lg_Shards :: "action_shard list"
  lg_Legacy :: legacy_file

datatype ledger_error = LegacyUninspected | ShardUnopened string | RowInvalid string nat | ScanFailed string

definition valid_row :: "Action option \<Rightarrow> bool" where
  "valid_row r =
     (case r of None \<Rightarrow> False
      | Some a \<Rightarrow> \<not> (ac_SchemaVersion a \<noteq> action_schema \<or> IsZero (ac_Timestamp a) \<or>
                     TrimSpace (ac_Kind a) = [] \<or> TrimSpace (ac_Result a) = []))"

definition not_before :: "time \<Rightarrow> Action \<Rightarrow> bool" where
  "not_before since a \<longleftrightarrow> IsZero since \<or> \<not> ac_Timestamp a < since"

fun scan_rows :: "string \<Rightarrow> nat \<Rightarrow> time \<Rightarrow> Action option list \<Rightarrow> ledger_error + Action list" where
  "scan_rows name line since [] = Inr []"
| "scan_rows name line since (r # rs) =
     (if \<not> valid_row r then Inl (RowInvalid name (Suc line))
      else case scan_rows name (Suc line) since rs of
             Inl e \<Rightarrow> Inl e
           | Inr rows \<Rightarrow> Inr ((if not_before since (the r) then [the r] else []) @ rows))"

definition readActionRows :: "action_shard \<Rightarrow> time \<Rightarrow> ledger_error + Action list" where
  "readActionRows f since =
     (case scan_rows (sa_Name f) 0 since (shard_rows f) of
        Inl e \<Rightarrow> Inl e
      | Inr rows \<Rightarrow> if sa_ScanFails f then Inl (ScanFailed (sa_Name f)) else Inr rows)"

fun read_files :: "action_shard list \<Rightarrow> time \<Rightarrow> ledger_error + Action list" where
  "read_files [] since = Inr []"
| "read_files (f # fs) since =
     (case sa_Open f of
        ShardOpenFails \<Rightarrow> Inl (ShardUnopened (sa_Name f))
      | ShardGone \<Rightarrow> read_files fs since
      | ShardReadable \<Rightarrow>
          (case readActionRows f since of
             Inl e \<Rightarrow> Inl e
           | Inr rows \<Rightarrow>
               (case read_files fs since of Inl e \<Rightarrow> Inl e | Inr rest \<Rightarrow> Inr (rows @ rest))))"

definition ledger_files :: "action_ledger \<Rightarrow> action_shard list" where
  "ledger_files l =
     sort_key sa_Name (lg_Shards l @ (case lg_Legacy l of LegacyFile f \<Rightarrow> [f] | _ \<Rightarrow> []))"

definition newest :: "int \<Rightarrow> 'a list \<Rightarrow> 'a list" where
  "newest limit rows =
     (if 0 < limit \<and> limit < int (length rows) then drop (length rows - nat limit) rows else rows)"

definition ReadActions :: "action_ledger \<Rightarrow> int \<Rightarrow> time \<Rightarrow> ledger_error + Action list" where
  "ReadActions l limit since =
     (if lg_Legacy l = LegacyStatFails then Inl LegacyUninspected
      else case read_files (ledger_files l) since of
             Inl e \<Rightarrow> Inl e
           | Inr rows \<Rightarrow> Inr (newest limit (sort_key ac_Timestamp rows)))"

definition LastAction :: "action_ledger \<Rightarrow> ledger_error + Action option" where
  "LastAction l =
     (case ReadActions l 1 0 of
        Inl e \<Rightarrow> Inl e
      | Inr rows \<Rightarrow> Inr (if rows = [] then None else Some (last rows)))"

text \<open>
  An append writes the whole line; nothing; a part of it that does not decode; all of it but the
  newline; or the whole line with an error when the file is synced or closed. The caller sees an
  error in all but the first case. A line that continues an unfinished one never decodes: neither
  a part of a row nor two rows are one document.
\<close>

datatype append_result = RowWritten | RowNotWritten | RowTorn | RowUnfinished | RowUnclosed

definition continued :: "Action option option \<Rightarrow> Action \<Rightarrow> Action option" where
  "continued tail a = (case tail of None \<Rightarrow> Some a | Some r \<Rightarrow> None)"

definition add_line :: "Action \<Rightarrow> action_shard \<Rightarrow> action_shard" where
  "add_line a f = f\<lparr> sa_Rows := sa_Rows f @ [continued (sa_Tail f) a], sa_Tail := None \<rparr>"

definition write_row :: "append_result \<Rightarrow> Action \<Rightarrow> action_shard \<Rightarrow> action_shard" where
  "write_row outcome a f =
     (case outcome of
        RowNotWritten \<Rightarrow> f
      | RowTorn \<Rightarrow> f\<lparr> sa_Tail := Some None \<rparr>
      | RowUnfinished \<Rightarrow> f\<lparr> sa_Tail := Some (continued (sa_Tail f) a) \<rparr>
      | _ \<Rightarrow> add_line a f)"

definition new_shard :: "string \<Rightarrow> action_shard" where
  "new_shard name = \<lparr> sa_Name = name, sa_Open = ShardReadable, sa_Rows = [], sa_Tail = None, sa_ScanFails = False \<rparr>"

definition update_file :: "string \<Rightarrow> (action_shard \<Rightarrow> action_shard) \<Rightarrow> action_shard list \<Rightarrow> action_shard list" where
  "update_file name up fs =
     (if list_ex (\<lambda>f. sa_Name f = name) fs then map (\<lambda>f. if sa_Name f = name then up f else f) fs
      else fs @ [up (new_shard name)])"

definition AppendAction ::
    "(time \<Rightarrow> string) \<Rightarrow> time \<Rightarrow> append_result \<Rightarrow> Action \<Rightarrow> action_ledger \<Rightarrow> action_ledger \<times> bool" where
  "AppendAction day_name now outcome a l =
     (let row = stored_action now a; name = day_name (ac_Timestamp row) in
      if outcome = RowNotWritten then (l, False)
      else (l\<lparr> lg_Shards := update_file name (write_row outcome row) (lg_Shards l) \<rparr>, outcome = RowWritten))"

record calendar =
  ca_ShardDay :: "string \<Rightarrow> time option"
  ca_DayStart :: "time \<Rightarrow> time"
  ca_AddDays :: "time \<Rightarrow> int \<Rightarrow> time"

definition expired_shard :: "calendar \<Rightarrow> time \<Rightarrow> action_shard \<Rightarrow> bool" where
  "expired_shard c cutoff f =
     (case ca_ShardDay c (sa_Name f) of None \<Rightarrow> False | Some day \<Rightarrow> day < ca_DayStart c cutoff)"

definition pruneLegacyActions :: "time \<Rightarrow> legacy_file \<Rightarrow> legacy_file" where
  "pruneLegacyActions cutoff legacy =
     (case legacy of
        LegacyFile f \<Rightarrow>
          if sa_Open f \<noteq> ShardReadable \<or> sa_ScanFails f then legacy
          else (let kept = filter (\<lambda>r. case r of None \<Rightarrow> False | Some a \<Rightarrow> \<not> ac_Timestamp a < cutoff) (shard_rows f)
                in if kept = [] then LegacyAbsent else LegacyFile (f\<lparr> sa_Rows := kept, sa_Tail := None \<rparr>))
      | _ \<Rightarrow> legacy)"

definition Prune :: "calendar \<Rightarrow> time \<Rightarrow> int \<Rightarrow> action_ledger \<Rightarrow> action_ledger" where
  "Prune c now retentionDays l =
     (if retentionDays < 1 then l
      else let cutoff = ca_AddDays c now (- retentionDays) in
           \<lparr> lg_Shards = filter (\<lambda>f. \<not> expired_shard c cutoff f) (lg_Shards l),
             lg_Legacy = pruneLegacyActions cutoff (lg_Legacy l) \<rparr>)"


section \<open>What a read guarantees\<close>

definition sound_file :: "action_shard \<Rightarrow> bool" where
  "sound_file f \<longleftrightarrow>
     sa_Open f = ShardGone \<or>
     sa_Open f = ShardReadable \<and> list_all valid_row (shard_rows f) \<and> \<not> sa_ScanFails f"

definition file_rows :: "time \<Rightarrow> action_shard \<Rightarrow> Action list" where
  "file_rows since f =
     (if sa_Open f = ShardGone then [] else filter (not_before since) (map the (shard_rows f)))"

lemma scan_rows_sound:
  "scan_rows name line since rs =
     (if list_all valid_row rs then Inr (filter (not_before since) (map the rs))
      else Inl (RowInvalid name (line + Suc (length (takeWhile valid_row rs)))))"
  by (induction rs arbitrary: line) simp_all

lemma read_files_sound:
  "list_all sound_file fs \<Longrightarrow> read_files fs since = Inr (concat (map (file_rows since) fs))"
  by (induction fs)
     (auto simp: sound_file_def readActionRows_def scan_rows_sound file_rows_def)

lemma read_files_unsound:
  "\<not> list_all sound_file fs \<Longrightarrow> \<exists>e. read_files fs since = Inl e"
  by (induction fs)
     (auto simp: sound_file_def readActionRows_def scan_rows_sound split: shard_open.splits sum.splits)

definition sound_ledger :: "action_ledger \<Rightarrow> bool" where
  "sound_ledger l \<longleftrightarrow>
     list_all sound_file (lg_Shards l) \<and>
     (case lg_Legacy l of LegacyAbsent \<Rightarrow> True | LegacyStatFails \<Rightarrow> False | LegacyFile f \<Rightarrow> sound_file f)"

lemma sound_ledger_files:
  "lg_Legacy l \<noteq> LegacyStatFails \<Longrightarrow> list_all sound_file (ledger_files l) = sound_ledger l"
  by (auto simp: ledger_files_def sound_ledger_def list_all_iff split: legacy_file.splits)

lemma ReadActions_sound:
  "sound_ledger l \<Longrightarrow>
   ReadActions l limit since =
     Inr (newest limit (sort_key ac_Timestamp (concat (map (file_rows since) (ledger_files l)))))"
  using sound_ledger_files [of l]
  by (cases "lg_Legacy l = LegacyStatFails")
     (auto simp: ReadActions_def read_files_sound sound_ledger_def)

lemma ledger_read_sound:
  assumes "ReadActions l limit since = Inr rows"
  shows "sound_ledger l"
proof (rule ccontr)
  assume "\<not> sound_ledger l"
  then show False
    using assms sound_ledger_files [of l] read_files_unsound [of "ledger_files l" since]
    by (auto simp: ReadActions_def split: if_splits)
qed

text \<open>
  Claim C19. A read succeeds exactly on a ledger without a damaged file: one row that does not decode, in
  any file and however old, makes it fail.
\<close>

theorem ledger_read_fails_closed:
  "isl (ReadActions l limit since) \<longleftrightarrow> \<not> sound_ledger l"
  using ledger_read_sound [of l limit since] ReadActions_sound [of l limit since]
  by (cases "ReadActions l limit since") auto

definition storable :: "Action \<Rightarrow> bool" where
  "storable a \<longleftrightarrow> ac_SchemaVersion a \<in> {0, action_schema} \<and> TrimSpace (ac_Kind a) \<noteq> [] \<and>
                  TrimSpace (ac_Result a) \<noteq> []"

lemma stored_valid: "storable a \<Longrightarrow> \<not> IsZero now \<Longrightarrow> valid_row (Some (stored_action now a))"
  by (auto simp: storable_def valid_row_def stored_action_def action_schema_def)

lemma file_rows_add:
  "sa_Open f = ShardReadable \<Longrightarrow> sa_Tail f = None \<Longrightarrow>
   file_rows since (add_line a f) = file_rows since f @ (if not_before since a then [a] else [])"
  by (simp add: file_rows_def add_line_def shard_rows_def continued_def)

lemma mset_files:
  "mset (concat (map g (ledger_files l))) =
   mset (concat (map g (lg_Shards l))) +
   mset (case lg_Legacy l of LegacyFile f \<Rightarrow> g f | _ \<Rightarrow> [])"
proof -
  let ?fs = "lg_Shards l @ (case lg_Legacy l of LegacyFile f \<Rightarrow> [f] | _ \<Rightarrow> [])"
  have "mset (concat (map g (sort_key sa_Name ?fs))) = mset (concat (map g ?fs))"
    by (simp add: mset_concat flip: mset_map sum_mset_sum_list) (simp add: mset_concat flip: sum_mset_sum_list)
  then show ?thesis
    by (cases "lg_Legacy l") (simp_all add: ledger_files_def)
qed

text \<open>A file that an append can use: it opens and ends with a newline.\<close>

definition appendable :: "action_shard \<Rightarrow> bool" where
  "appendable f \<longleftrightarrow> sa_Open f = ShardReadable \<and> sa_Tail f = None"

lemma new_shard_simps [simp]:
  "sa_Name (new_shard name) = name" "sa_Open (new_shard name) = ShardReadable" "sa_Tail (new_shard name) = None"
  "sa_Rows (new_shard name) = []" "\<not> sa_ScanFails (new_shard name)" "file_rows since (new_shard name) = []"
  "shard_rows (new_shard name) = []"
  by (simp_all add: new_shard_def file_rows_def shard_rows_def)

lemma add_line_rows:
  assumes "distinct (map sa_Name fs)" and "\<forall>f \<in> set fs. sa_Name f = name \<longrightarrow> appendable f"
  shows "mset (concat (map (file_rows since) (update_file name (add_line a) fs))) =
         mset (concat (map (file_rows since) fs)) + mset (if not_before since a then [a] else [])"
proof -
  let ?up = "map (\<lambda>f. if sa_Name f = name then add_line a f else f)"
  have same: "?up gs = gs" if "name \<notin> sa_Name ` set gs" for gs
    using that by (induction gs) auto
  have "mset (concat (map (file_rows since) (?up fs))) =
        mset (concat (map (file_rows since) fs)) + mset (if not_before since a then [a] else [])"
    if "name \<in> sa_Name ` set fs"
    using assms that
  proof (induction fs)
    case (Cons f fs)
    show ?case
    proof (cases "sa_Name f = name")
      case True
      then show ?thesis using Cons.prems same [of fs] by (auto simp: file_rows_add appendable_def)
    next
      case False
      then show ?thesis using Cons by (auto simp: add.assoc)
    qed
  qed simp
  moreover have "list_ex (\<lambda>f. sa_Name f = name) fs \<longleftrightarrow> name \<in> sa_Name ` set fs"
    by (auto simp: list_ex_iff)
  ultimately show ?thesis
    by (cases "name \<in> sa_Name ` set fs") (simp_all add: update_file_def file_rows_add)
qed

lemma add_line_sound_file: "sound_file f \<Longrightarrow> appendable f \<Longrightarrow> valid_row (Some a) \<Longrightarrow> sound_file (add_line a f)"
  by (simp add: sound_file_def appendable_def add_line_def shard_rows_def continued_def)

lemma add_line_sound:
  "list_all sound_file fs \<Longrightarrow> valid_row (Some a) \<Longrightarrow> \<forall>f \<in> set fs. sa_Name f = name \<longrightarrow> appendable f \<Longrightarrow>
   list_all sound_file (update_file name (add_line a) fs)"
  using add_line_sound_file [of "new_shard name" a]
  by (auto simp: update_file_def list_all_iff sound_file_def [of "new_shard name"] appendable_def
      intro: add_line_sound_file)

lemma AppendAction_written:
  "AppendAction day_name now RowWritten a l =
     (l\<lparr> lg_Shards := update_file (day_name (ac_Timestamp (stored_action now a)))
            (add_line (stored_action now a)) (lg_Shards l) \<rparr>, True)"
proof -
  have "write_row RowWritten row = add_line row" for row by (auto simp: write_row_def)
  then show ?thesis by (simp add: AppendAction_def Let_def)
qed

text \<open>
  What is appended is read back with the rows that were there, and nothing else changes.
\<close>

theorem appended_action_is_read:
  assumes "sound_ledger l" and "distinct (map sa_Name (lg_Shards l))"
    and "storable a" and "\<not> IsZero now"
    and "\<forall>f \<in> set (lg_Shards l).
           sa_Name f = day_name (ac_Timestamp (stored_action now a)) \<longrightarrow> appendable f"
    and "ReadActions l 0 since = Inr rows"
    and "AppendAction day_name now RowWritten a l = (l', ok)"
  shows "ok \<and> (\<exists>rows'. ReadActions l' 0 since = Inr rows' \<and>
    mset rows' = mset rows + (if not_before since (stored_action now a) then {# stored_action now a #} else {#}))"
proof -
  let ?a = "stored_action now a" and ?name = "day_name (ac_Timestamp (stored_action now a))"
  have l': "l' = l\<lparr> lg_Shards := update_file ?name (add_line ?a) (lg_Shards l) \<rparr>" and ok
    using assms(7) by (simp_all add: AppendAction_written)
  have "sound_ledger l'"
    using assms(1,5) stored_valid [OF assms(3,4)]
    by (auto simp: l' sound_ledger_def intro: add_line_sound)
  moreover have "mset rows = mset (concat (map (file_rows since) (ledger_files l)))"
    using assms(6) by (auto simp: ReadActions_sound [OF assms(1)] newest_def simp del: mset_concat)
  moreover have "mset (concat (map (file_rows since) (ledger_files l'))) =
      mset (concat (map (file_rows since) (ledger_files l))) + mset (if not_before since ?a then [?a] else [])"
    using add_line_rows [OF assms(2,5)] by (simp add: mset_files l' del: mset_concat)
  ultimately show ?thesis
    using \<open>ok\<close> by (simp add: ReadActions_sound newest_def)
qed

definition sample_action :: Action where
  "sample_action =
     \<lparr> ac_SchemaVersion = 0, ac_Timestamp = 50, ac_Kind = ''graceful_tree_shed'', ac_Level = LevelCritical,
       ac_RootPID = 7, ac_Agent = ''agent'', ac_SessionID = ''s'', ac_RSSSumMB = 0,
       ac_SemanticState = SemanticStateUnknown, ac_ReliefScope = ''agent_trees_only'',
       ac_PrimaryHostExecutable = [], ac_PrimaryHostRSSSumMB = 0, ac_AgentRSSSharePercent = 0,
       ac_Signal = ''SIGTERM'', ac_Result = ''signal_sent'', ac_Reason = [],
       ac_RevalidatedLevel = LevelCritical, ac_RevalidatedCPUPercent = 0, ac_RevalidatedRSSSumMB = 0,
       ac_RevalidatedSemanticState = SemanticStateUnknown, ac_RevalidationDurationMS = 0,
       ac_RevalidationCPUTimeMS = 0, ac_RevalidationGuardRSSMB = 0, ac_RevalidationPeakRSSMB = 0 \<rparr>"

definition empty_ledger :: action_ledger where
  "empty_ledger = \<lparr> lg_Shards = [], lg_Legacy = LegacyAbsent \<rparr>"

theorem appended_action_is_read_witness:
  "\<exists>rows'. ReadActions (fst (AppendAction (\<lambda>t. ''actions-1.jsonl'') 60 RowWritten sample_action empty_ledger)) 0 0 =
             Inr rows' \<and> mset rows' = {# stored_action 60 sample_action #}"
proof -
  have "ReadActions empty_ledger 0 0 = Inr []"
    by (simp add: ReadActions_def empty_ledger_def ledger_files_def newest_def)
  moreover have "storable sample_action"
    by (simp add: storable_def sample_action_def TrimSpace_def is_space_def)
  moreover have "sound_ledger empty_ledger"
    by (simp add: sound_ledger_def empty_ledger_def)
  ultimately show ?thesis
    using appended_action_is_read [of empty_ledger sample_action 60 "\<lambda>t. ''actions-1.jsonl''" 0 "[]"]
    by (auto simp: empty_ledger_def IsZero_def not_before_def AppendAction_written)
qed

section \<open>Bounded text\<close>

text \<open>
  Text is bounded once for the ledger and once more when a key is formed from a row that was
  read back; the second bounding changes nothing. \<open>tidy_text\<close> text has single blanks between words.
\<close>

fun tidy_text :: "string \<Rightarrow> bool" where
  "tidy_text [] = True"
| "tidy_text [c] = (\<not> is_space c)"
| "tidy_text (c # d # s) = ((if is_space c then c = CHR '' '' \<and> \<not> is_space d else True) \<and> tidy_text (d # s))"

definition neat :: "string \<Rightarrow> bool" where
  "neat s \<longleftrightarrow> tidy_text s \<and> (s \<noteq> [] \<longrightarrow> \<not> is_space (hd s))"

lemma split_space_nonempty [simp]: "split_space s \<noteq> []"
  by (cases s) (auto split: list.split)

lemma split_space_words: "\<forall>w \<in> set (split_space s). \<forall>c \<in> set w. \<not> is_space c"
  by (induction s) (auto split: list.splits)

lemma tidy_word_blank:
  "w \<noteq> [] \<Longrightarrow> \<forall>c \<in> set w. \<not> is_space c \<Longrightarrow> neat s \<Longrightarrow> s \<noteq> [] \<Longrightarrow> tidy_text (w @ CHR '' '' # s)"
proof (induction w rule: tidy_text.induct)
  case (2 c)
  then show ?case by (cases s) (auto simp: neat_def)
next
  case (3 c d w)
  then show ?case by simp
qed simp

lemma tidy_word: "\<forall>c \<in> set w. \<not> is_space c \<Longrightarrow> tidy_text w"
  by (induction w rule: tidy_text.induct) auto

lemma join_blank_nonempty: "ws \<noteq> [] \<Longrightarrow> \<forall>w \<in> set ws. w \<noteq> [] \<Longrightarrow> join_blank ws \<noteq> []"
  by (induction ws rule: join_blank.induct) auto

lemma neat_join:
  "\<forall>w \<in> set ws. w \<noteq> [] \<and> (\<forall>c \<in> set w. \<not> is_space c) \<Longrightarrow> neat (join_blank ws)"
proof (induction ws rule: join_blank.induct)
  case (2 w)
  then show ?case using tidy_word [of w] by (cases w) (auto simp: neat_def)
next
  case (3 w v ws)
  then have "neat (join_blank (v # ws))" and "join_blank (v # ws) \<noteq> []"
    using join_blank_nonempty [of "v # ws"] by auto
  moreover from 3 have "w \<noteq> []" and "\<forall>c \<in> set w. \<not> is_space c" by auto
  ultimately show ?case
    using tidy_word_blank [of w "join_blank (v # ws)"] by (cases w) (auto simp: neat_def)
qed (simp add: neat_def)

lemma neat_fields: "neat (join_blank (Fields s))"
  using split_space_words by (intro neat_join) (auto simp: Fields_def)

lemma split_tidy:
  "tidy_text v \<Longrightarrow> v \<noteq> [] \<Longrightarrow>
   join_blank (split_space v) = v \<and> (\<forall>w \<in> set (tl (split_space v)). w \<noteq> []) \<and>
   (hd (split_space v) = [] \<longleftrightarrow> is_space (hd v))"
proof (induction v rule: tidy_text.induct)
  case (3 c d s)
  obtain w ws where sp: "split_space (d # s) = w # ws"
    using split_space_nonempty [of "d # s"] by (cases "split_space (d # s)") auto
  have IH: "join_blank (w # ws) = d # s" "\<forall>x \<in> set ws. x \<noteq> []" "w = [] \<longleftrightarrow> is_space d"
    using 3 sp by (auto split: if_splits)
  show ?case
  proof (cases "is_space c")
    case True
    then show ?thesis using 3 sp IH by (auto split: if_splits)
  next
    case False
    then have "join_blank ((c # w) # ws) = c # join_blank (w # ws)" by (cases ws) auto
    then show ?thesis using False sp IH by (auto simp del: split_space.simps simp: split_space.simps(2) [of c])
  qed
qed auto

lemma fields_neat: "neat v \<Longrightarrow> join_blank (Fields v) = v"
proof (cases "v = []")
  case False
  assume "neat v"
  then have "tidy_text v" and head: "\<not> is_space (hd v)" using False by (auto simp: neat_def)
  then have split: "join_blank (split_space v) = v" "\<forall>w \<in> set (tl (split_space v)). w \<noteq> []"
      "hd (split_space v) \<noteq> []"
    using split_tidy False by blast+
  then have "filter (\<lambda>w. w \<noteq> []) (split_space v) = split_space v"
    by (cases "split_space v") auto
  then show ?thesis using split(1) by (simp add: Fields_def)
qed (simp add: Fields_def)

lemma tidy_take_dots: "tidy_text v \<Longrightarrow> tidy_text (take n v @ ''...'')"
proof (induction v arbitrary: n rule: tidy_text.induct)
  case (2 c)
  then show ?case by (cases n) (auto simp: is_space_def)
next
  case (3 c d v)
  show ?case
  proof (cases n)
    case (Suc m)
    with 3 have "tidy_text (take m (d # v) @ ''...'')" by (auto split: if_splits)
    moreover have "\<not> is_space (hd (take m (d # v) @ ''...''))" if "is_space c"
      using 3 that by (cases m) (auto simp: is_space_def split: if_splits)
    ultimately show ?thesis
      using 3 Suc by (cases "take m (d # v) @ ''...''") (auto split: if_splits)
  qed (simp add: is_space_def)
qed (simp add: is_space_def)

lemma neat_take_dots: "neat v \<Longrightarrow> neat (take n v @ ''...'')"
  using tidy_take_dots [of v n] by (cases v; cases n) (auto simp: neat_def is_space_def)

lemma boundedText_neat: "neat (boundedText s n)"
  by (simp add: boundedText_def Let_def neat_fields neat_take_dots)

theorem boundedText_idempotent: "boundedText (boundedText s n) n = boundedText s n"
proof -
  define v where "v = join_blank (Fields s)"
  have "join_blank (Fields (boundedText s n)) = boundedText s n"
    by (rule fields_neat [OF boundedText_neat])
  moreover have "boundedText s n = (if length v \<le> n then v else take n v @ ''...'')"
    by (simp add: boundedText_def v_def Let_def)
  ultimately show ?thesis by (simp add: boundedText_def Let_def)
qed

lemma boundedText_length: "length (boundedText s n) \<le> n + 3"
  by (simp add: boundedText_def Let_def)

end
