(* ===== verification/Resident_Relief.thy ===== *)
theory Resident_Relief
  imports Action_Ledger Pressure_Admission "HOL-Library.AList"
begin

text \<open>
  Automatic relief (\<^verbatim>\<open>sessionpressure/monitor.go\<close>): the resident may ask one quiescent agent
  tree to exit when the host has been critical for long enough. This theory models the
  quiescence streaks, the choice of a tree, the revalidation that \<^verbatim>\<open>Terminate\<close> makes on a new
  sample, the signals, and the decision \<^verbatim>\<open>maybeRelieveExcluding\<close> with the audit row it
  returns. What the world answers during an attempt (the policy file read twice, the new
  sample, the outcome of each signal, the liveness polls and the clock) is a record.
\<close>

section \<open>Quiescence and choice\<close>

definition validCPUEvidence :: "bool \<Rightarrow> rat \<Rightarrow> bool" where
  "validCPUEvidence available percent \<longleftrightarrow> available \<and> 0 \<le> percent"

definition is_quiet :: "Policy \<Rightarrow> AgentTree \<Rightarrow> bool" where
  "is_quiet p tree \<longleftrightarrow>
     CandidateMinAgeSeconds p \<le> at_ElapsedSeconds tree \<and>
     validCPUEvidence (at_CPUAvailable tree) (at_CPUPercentSum tree) \<and>
     at_CPUPercentSum tree \<le> CandidateMaxCPUPercent p"

type_synonym streaks = "(int \<times> int) list"

definition streak_of :: "streaks \<Rightarrow> int \<Rightarrow> int" where
  "streak_of ss pid = (case map_of ss pid of None \<Rightarrow> 0 | Some n \<Rightarrow> n)"

fun annotate_trees :: "AgentTree list \<Rightarrow> Policy \<Rightarrow> streaks \<Rightarrow> AgentTree list \<times> streaks" where
  "annotate_trees [] p ss = ([], ss)"
| "annotate_trees (tree # trees) p ss =
     (let n = (if is_quiet p tree then streak_of ss (at_RootPID tree) + 1 else 0);
          (rest, ss') = annotate_trees trees p (AList.update (at_RootPID tree) n ss)
      in (tree\<lparr> at_QuiescentSamples := n \<rparr> # rest, ss'))"

definition annotateQuiescence :: "AgentTree list \<Rightarrow> Policy \<Rightarrow> streaks \<Rightarrow> AgentTree list \<times> streaks" where
  "annotateQuiescence trees p ss =
     (let (annotated, ss') = annotate_trees trees p ss
      in (annotated, filter (\<lambda>e. fst e \<in> at_RootPID ` set trees) ss'))"

type_synonym relief_key = "int \<times> string \<times> string"

definition reliefTreeKey :: "AgentTree \<Rightarrow> relief_key" where
  "reliefTreeKey tree =
     (at_RootPID tree, boundedText (at_Agent tree) 32, boundedText (at_SessionID tree) actionIdentityLimit)"

definition reliefActionKey :: "Action \<Rightarrow> relief_key" where
  "reliefActionKey a =
     (ac_RootPID a, boundedText (ac_Agent a) 32, boundedText (ac_SessionID a) actionIdentityLimit)"

definition relief_eligible :: "Policy \<Rightarrow> relief_key list \<Rightarrow> AgentTree \<Rightarrow> bool" where
  "relief_eligible p rejected tree \<longleftrightarrow>
     \<not> (at_ElapsedSeconds tree < CandidateMinAgeSeconds p \<or>
        \<not> validCPUEvidence (at_CPUAvailable tree) (at_CPUPercentSum tree) \<or>
        at_CPUPercentSum tree > CandidateMaxCPUPercent p \<or>
        at_QuiescentSamples tree < CriticalSustainSamples p) \<and>
     at_SemanticState tree \<noteq> SemanticStateBusy \<and>
     reliefTreeKey tree \<notin> set rejected"

text \<open>Ready trees first, then the heaviest, the least active and the smallest root.\<close>

definition relief_rank :: "AgentTree \<Rightarrow> bool \<times> rat \<times> rat \<times> int" where
  "relief_rank tree =
     (at_SemanticState tree \<noteq> SemanticStateReady, - at_RSSSumMB tree, at_CPUPercentSum tree,
      at_RootPID tree)"

definition selectReliefCandidateExcluding :: "AgentTree list \<Rightarrow> Policy \<Rightarrow> relief_key list \<Rightarrow> AgentTree option" where
  "selectReliefCandidateExcluding trees p rejected =
     (case sort_key relief_rank (filter (relief_eligible p rejected) trees) of
        [] \<Rightarrow> None | tree # _ \<Rightarrow> Some tree)"

definition selectReliefCandidate :: "AgentTree list \<Rightarrow> Policy \<Rightarrow> AgentTree option" where
  "selectReliefCandidate trees p = selectReliefCandidateExcluding trees p []"


section \<open>Signals\<close>

datatype signal_outcome = SignalSent | SignalProcessDone | SignalError

text \<open>
  Trees list their processes root first; the signals go in the opposite order. The result is
  the order of the signals and the processes whose signal failed.
\<close>

definition signalTreePIDs :: "int list \<Rightarrow> (int \<Rightarrow> signal_outcome) \<Rightarrow> int list \<times> int list" where
  "signalTreePIDs pids send = (rev pids, filter (\<lambda>pid. send pid = SignalError) (rev pids))"

text \<open>The polls of \<^verbatim>\<open>confirmTreeExit\<close>: which processes live and what the clock says then.\<close>

type_synonym exit_poll = "(int \<Rightarrow> bool) \<times> time"

fun confirmTreeExit :: "int list \<Rightarrow> time \<Rightarrow> exit_poll list \<Rightarrow> bool option" where
  "confirmTreeExit pids deadline [] = None"
| "confirmTreeExit pids deadline ((alive, now) # polls) =
     (if \<not> list_ex alive pids then Some True
      else if \<not> now < deadline then Some False
      else confirmTreeExit pids deadline polls)"

lemma confirm_returns:
  "list_ex (\<lambda>poll. deadline \<le> snd poll) polls \<Longrightarrow> confirmTreeExit pids deadline polls \<noteq> None"
  by (induction polls) auto


section \<open>Revalidation\<close>

record resident_sample =
  rs_Snapshot :: Snapshot
  rs_GuardRole :: string
  rs_GuardBaselineProven :: bool
  rs_TopHostConsumers :: "(string \<times> rat) list"
  rs_GuardPeakRSSMB :: rat

datatype rejection =
    TreeChanged | RootReused | SessionChanged | SemanticallyBusy | ReadyLost | DescendantAdded int
  | PressureRecovered Level | TooYoung | NoCPUEvidence | BecameActive | ActionPolicyUnavailable
  | ActionPolicyUnreadable | ActionPolicyChanged | NoPIDs

datatype relief_failure = ResampleFailed | Rejected rejection | SignalsFailed "int list"

record relief_world =
  rw_NumCPU :: int
  rw_HasStore :: bool
  rw_PolicyFile :: policy_file
  rw_Resample :: resident_sample
  rw_ResampleFails :: bool
  rw_HasPolicyPath :: bool
  rw_FinalPolicyFile :: policy_file
  rw_Send :: "int \<Rightarrow> signal_outcome"
  rw_SignalTime :: time
  rw_Polls :: "exit_poll list"
  rw_Describe :: "relief_failure \<Rightarrow> string"

record termination_result =
  tr_Snapshot :: resident_sample
  tr_Tree :: "AgentTree option"
  tr_Signalled :: "int list"
  tr_SignalAttempted :: bool
  tr_ExitChecked :: bool
  tr_TreeExited :: bool

definition validateSemanticRevalidation :: "AgentTree \<Rightarrow> AgentTree \<Rightarrow> rejection option" where
  "validateSemanticRevalidation previous current =
     (if at_SemanticState current = SemanticStateBusy then Some SemanticallyBusy
      else if at_SemanticState previous = SemanticStateReady \<and> at_SemanticState current \<noteq> SemanticStateReady
      then Some ReadyLost else None)"

definition new_descendants :: "AgentTree \<Rightarrow> AgentTree \<Rightarrow> int list" where
  "new_descendants previous current =
     filter (\<lambda>pid. pid \<notin> set (at_RootPID previous # at_PIDs previous)) (at_PIDs current)"

definition persisted_is :: "int \<Rightarrow> policy_file \<Rightarrow> rat \<Rightarrow> Policy \<Rightarrow> bool" where
  "persisted_is ncpu file mem p \<longleftrightarrow>
     (case LoadPolicy ncpu file mem of
        Inl e \<Rightarrow> False | Inr (persisted, found) \<Rightarrow> found \<and> persisted = p)"

definition policy_rejection :: "relief_world \<Rightarrow> rat \<Rightarrow> Policy \<Rightarrow> rejection option" where
  "policy_rejection w mem p =
     (if \<not> rw_HasPolicyPath w then Some ActionPolicyUnavailable
      else case LoadPolicy (rw_NumCPU w) (rw_FinalPolicyFile w) mem of
             Inl e \<Rightarrow> Some ActionPolicyUnreadable
           | Inr (persisted, found) \<Rightarrow>
               if \<not> found \<or> persisted \<noteq> p then Some ActionPolicyChanged else None)"

definition first_some :: "'a option list \<Rightarrow> 'a option" where
  "first_some xs = (case filter (\<lambda>x. x \<noteq> None) xs of [] \<Rightarrow> None | x # _ \<Rightarrow> x)"

definition guarded :: "bool \<Rightarrow> 'a \<Rightarrow> 'a option" where
  "guarded b x = (if b then Some x else None)"

text \<open>The guards of \<^verbatim>\<open>Terminate\<close> after the tree was found, in their order.\<close>

definition revalidate :: "relief_world \<Rightarrow> AgentTree \<Rightarrow> AgentTree \<Rightarrow> Policy \<Rightarrow> rejection option" where
  "revalidate w tree current p =
     (let s = rs_Snapshot (rw_Resample w) in
      first_some
       [guarded (at_Agent current \<noteq> at_Agent tree \<or> at_Executable current \<noteq> at_Executable tree) TreeChanged,
        guarded (at_ElapsedSeconds current + 5 < at_ElapsedSeconds tree) RootReused,
        guarded (at_SessionID current \<noteq> at_SessionID tree) SessionChanged,
        validateSemanticRevalidation tree current,
        (case new_descendants tree current of [] \<Rightarrow> None | pid # _ \<Rightarrow> Some (DescendantAdded pid)),
        guarded (sn_Level s \<noteq> LevelCritical) (PressureRecovered (sn_Level s)),
        guarded (at_ElapsedSeconds current < CandidateMinAgeSeconds p) TooYoung,
        guarded (\<not> validCPUEvidence (at_CPUAvailable current) (at_CPUPercentSum current)) NoCPUEvidence,
        guarded (at_CPUPercentSum current > CandidateMaxCPUPercent p) BecameActive,
        policy_rejection w (sn_PhysicalMemoryMB s) p,
        guarded (at_PIDs current = []) NoPIDs])"

definition exit_wait :: duration where "exit_wait = seconds 2"

definition Terminate :: "relief_world \<Rightarrow> AgentTree \<Rightarrow> Policy \<Rightarrow> termination_result \<times> relief_failure option" where
  "Terminate w tree p =
     (let r = \<lparr> tr_Snapshot = rw_Resample w, tr_Tree = None, tr_Signalled = [], tr_SignalAttempted = False,
                tr_ExitChecked = False, tr_TreeExited = False \<rparr>
      in if rw_ResampleFails w then (r, Some ResampleFailed)
         else case List.find (\<lambda>c. at_RootPID c = at_RootPID tree)
                     (sn_TopAgentTrees (rs_Snapshot (rw_Resample w))) of
           None \<Rightarrow> (r, Some (Rejected TreeChanged))
         | Some current \<Rightarrow>
             (let r = r\<lparr> tr_Tree := Some current \<rparr> in
              case revalidate w tree current p of
                Some why \<Rightarrow> (r, Some (Rejected why))
              | None \<Rightarrow>
                  (let (sent, failed) = signalTreePIDs (at_PIDs current) (rw_Send w);
                       r = r\<lparr> tr_Signalled := sent, tr_SignalAttempted := True \<rparr>
                   in if failed \<noteq> [] then (r, Some (SignalsFailed failed))
                      else (r\<lparr> tr_ExitChecked := True,
                               tr_TreeExited := (confirmTreeExit (at_PIDs current)
                                  (rw_SignalTime w + exit_wait) (rw_Polls w) = Some True) \<rparr>, None))))"


section \<open>The decision\<close>

definition reliefRevalidationRetryInterval :: duration where
  "reliefRevalidationRetryInterval = seconds 180"

definition action_cooldown :: "Policy \<Rightarrow> duration" where
  "action_cooldown p = seconds (ActionCooldownSeconds p)"

definition may_relieve :: "relief_world \<Rightarrow> resident_sample \<Rightarrow> Policy \<Rightarrow> time \<Rightarrow> time \<Rightarrow> time \<Rightarrow> bool" where
  "may_relieve w s p now lastAction lastRevalidation \<longleftrightarrow>
     \<not> (rs_GuardRole s \<noteq> ''resident'' \<or> \<not> po_AutoShedCritical p \<or>
        sn_Level (rs_Snapshot s) \<noteq> LevelCritical) \<and>
     \<not> (\<not> sn_GuardBudgetOK (rs_Snapshot s) \<or> \<not> rs_GuardBaselineProven s \<or>
        \<not> sn_ProcessInventoryFresh (rs_Snapshot s)) \<and>
     \<not> sn_ConsecutiveSamples (rs_Snapshot s) < CriticalSustainSamples p \<and>
     \<not> (\<not> IsZero lastAction \<and> time_sub now lastAction < action_cooldown p) \<and>
     \<not> (\<not> IsZero lastRevalidation \<and> time_sub now lastRevalidation < reliefRevalidationRetryInterval) \<and>
     rw_HasStore w \<and>
     persisted_is (rw_NumCPU w) (rw_PolicyFile w) (sn_PhysicalMemoryMB (rs_Snapshot s)) p"

definition no_action :: Action where
  "no_action =
     \<lparr> ac_SchemaVersion = 0, ac_Timestamp = 0, ac_Kind = [], ac_Level = OtherLevel [],
       ac_RootPID = 0, ac_Agent = [], ac_SessionID = [], ac_RSSSumMB = 0,
       ac_SemanticState = OtherSemantic [], ac_ReliefScope = [],
       ac_PrimaryHostExecutable = [], ac_PrimaryHostRSSSumMB = 0, ac_AgentRSSSharePercent = 0,
       ac_Signal = [], ac_Result = [], ac_Reason = [],
       ac_RevalidatedLevel = OtherLevel [], ac_RevalidatedCPUPercent = 0, ac_RevalidatedRSSSumMB = 0,
       ac_RevalidatedSemanticState = OtherSemantic [], ac_RevalidationDurationMS = 0,
       ac_RevalidationCPUTimeMS = 0, ac_RevalidationGuardRSSMB = 0, ac_RevalidationPeakRSSMB = 0 \<rparr>"

definition relief_intent :: "resident_sample \<Rightarrow> time \<Rightarrow> AgentTree \<Rightarrow> Action" where
  "relief_intent s now tree =
     (let sn = rs_Snapshot s in
      no_action\<lparr> ac_Timestamp := now, ac_Kind := ''graceful_tree_shed'', ac_Level := sn_Level sn,
        ac_RootPID := at_RootPID tree, ac_Agent := at_Agent tree, ac_SessionID := at_SessionID tree,
        ac_RSSSumMB := at_RSSSumMB tree, ac_SemanticState := at_SemanticState tree,
        ac_ReliefScope := ''agent_trees_only'', ac_Result := ''signal_sent'',
        ac_Reason := ''sustained critical host pressure'',
        ac_PrimaryHostExecutable := (case rs_TopHostConsumers s of [] \<Rightarrow> [] | c # _ \<Rightarrow> fst c),
        ac_PrimaryHostRSSSumMB := (case rs_TopHostConsumers s of [] \<Rightarrow> 0 | c # _ \<Rightarrow> snd c),
        ac_AgentRSSSharePercent :=
          (if sn_ProcessRSSSumMB sn > 0 then sn_AgentRSSSumMB sn * 100 / sn_ProcessRSSSumMB sn else 0) \<rparr>)"

definition note_revalidation :: "termination_result \<Rightarrow> Action \<Rightarrow> Action" where
  "note_revalidation r a =
     (let sn = rs_Snapshot (tr_Snapshot r);
          a = (if tr_SignalAttempted r then a\<lparr> ac_Signal := ''SIGTERM'' \<rparr> else a);
          a = (if IsZero (sn_Timestamp sn) then a
               else a\<lparr> ac_RevalidationDurationMS := sn_SampleDurationMS sn,
                       ac_RevalidationCPUTimeMS := sn_SampleCPUTimeMS sn,
                       ac_RevalidationGuardRSSMB := sn_GuardRSSMB sn,
                       ac_RevalidationPeakRSSMB := rs_GuardPeakRSSMB (tr_Snapshot r) \<rparr>)
      in case tr_Tree r of
           None \<Rightarrow> a
         | Some t \<Rightarrow> if at_RootPID t = 0 then a
                     else a\<lparr> ac_RevalidatedLevel := sn_Level sn,
                             ac_RevalidatedCPUPercent := at_CPUPercentSum t,
                             ac_RevalidatedRSSSumMB := at_RSSSumMB t,
                             ac_RevalidatedSemanticState := at_SemanticState t \<rparr>)"

definition conclude :: "relief_world \<Rightarrow> termination_result \<Rightarrow> relief_failure option \<Rightarrow> Action \<Rightarrow> Action" where
  "conclude w r failure a =
     (case failure of
        Some f \<Rightarrow> a\<lparr> ac_Result := (case f of Rejected why \<Rightarrow> ''revalidation_rejected'' | _ \<Rightarrow> ''error''),
                     ac_Reason := rw_Describe w f \<rparr>
      | None \<Rightarrow> if tr_ExitChecked r \<and> tr_TreeExited r then a\<lparr> ac_Result := ''tree_exit_confirmed'' \<rparr>
                else if tr_ExitChecked r then a\<lparr> ac_Result := ''signal_sent_unconfirmed'' \<rparr> else a)"

text \<open>The row of the attempt and the processes it signalled.\<close>

definition maybeRelieveExcluding ::
    "relief_world \<Rightarrow> resident_sample \<Rightarrow> Policy \<Rightarrow> time \<Rightarrow> time \<Rightarrow> time \<Rightarrow> relief_key list \<Rightarrow>
     (Action \<times> int list) option" where
  "maybeRelieveExcluding w s p now lastAction lastRevalidation rejected =
     (if \<not> may_relieve w s p now lastAction lastRevalidation then None
      else case selectReliefCandidateExcluding (sn_TopAgentTrees (rs_Snapshot s)) p rejected of
             None \<Rightarrow> None
           | Some tree \<Rightarrow>
               (let (r, failure) = Terminate w tree p
                in Some (conclude w r failure (note_revalidation r (relief_intent s now tree)),
                         tr_Signalled r)))"

definition maybeRelieve :: "relief_world \<Rightarrow> resident_sample \<Rightarrow> Policy \<Rightarrow> time \<Rightarrow> time \<Rightarrow> (Action \<times> int list) option" where
  "maybeRelieve w s p now lastAction = maybeRelieveExcluding w s p now lastAction 0 []"

section \<open>Quiescence streaks\<close>

lemma streak_update [simp]:
  "streak_of (AList.update k v ss) pid = (if pid = k then v else streak_of ss pid)"
  by (simp add: streak_of_def update_conv')

lemma annotate_other:
  "pid \<notin> at_RootPID ` set trees \<Longrightarrow> streak_of (snd (annotate_trees trees p ss)) pid = streak_of ss pid"
  by (induction trees arbitrary: ss) (simp_all add: Let_def case_prod_beta)

lemma annotate_tree:
  assumes "distinct (map at_RootPID trees)" and "tree \<in> set trees"
  shows "streak_of (snd (annotate_trees trees p ss)) (at_RootPID tree) =
         (if is_quiet p tree then streak_of ss (at_RootPID tree) + 1 else 0)"
  using assms
proof (induction trees arbitrary: ss)
  case (Cons t trees)
  then show ?case
    using annotate_other [of "at_RootPID t" trees p]
    by (auto simp: Let_def case_prod_beta)
qed simp

lemma annotated_trees:
  "distinct (map at_RootPID trees) \<Longrightarrow>
   fst (annotate_trees trees p ss) =
     map (\<lambda>t. t\<lparr> at_QuiescentSamples :=
       (if is_quiet p t then streak_of ss (at_RootPID t) + 1 else 0) \<rparr>) trees"
proof (induction trees arbitrary: ss)
  case (Cons t trees)
  then have "at_RootPID u \<noteq> at_RootPID t" if "u \<in> set trees" for u
    using that Cons.prems by (auto simp: image_iff)
  then show ?case
    using Cons by (simp add: Let_def case_prod_beta cong: map_cong)
qed simp

lemma streak_filter:
  "streak_of (filter (\<lambda>e. fst e \<in> K) ss) pid = (if pid \<in> K then streak_of ss pid else 0)"
  by (induction ss) (auto simp: streak_of_def)

lemma annotate_streak:
  assumes "distinct (map at_RootPID trees)"
  shows "streak_of (snd (annotateQuiescence trees p ss)) pid =
     (case List.find (\<lambda>t. at_RootPID t = pid) trees of
        None \<Rightarrow> 0 | Some t \<Rightarrow> if is_quiet p t then streak_of ss pid + 1 else 0)"
proof (cases "List.find (\<lambda>t. at_RootPID t = pid) trees")
  case None
  then have "pid \<notin> at_RootPID ` set trees" by (auto simp: find_None_iff)
  then show ?thesis
    using None by (simp add: annotateQuiescence_def case_prod_beta streak_filter)
next
  case (Some t)
  then have "t \<in> set trees" and "at_RootPID t = pid"
    by (auto simp: find_Some_iff)
  then show ?thesis
    using Some annotate_tree [OF assms, of t p ss]
    by (auto simp: annotateQuiescence_def case_prod_beta streak_filter)
qed

text \<open>The streaks after a series of samples, newest first.\<close>

fun streaks_after :: "Policy \<Rightarrow> AgentTree list list \<Rightarrow> streaks" where
  "streaks_after p [] = []"
| "streaks_after p (trees # older) = snd (annotateQuiescence trees p (streaks_after p older))"

definition quiet_in :: "Policy \<Rightarrow> int \<Rightarrow> AgentTree list \<Rightarrow> bool" where
  "quiet_in p pid trees \<longleftrightarrow> list_ex (\<lambda>t. at_RootPID t = pid \<and> is_quiet p t) trees"

lemma streak_counts:
  assumes "list_all (\<lambda>trees. distinct (map at_RootPID trees)) samples"
  shows "streak_of (streaks_after p samples) pid = int (length (takeWhile (quiet_in p pid) samples))"
  using assms
proof (induction samples)
  case (Cons trees older)
  then have dist: "distinct (map at_RootPID trees)" by simp
  have "quiet_in p pid trees \<longleftrightarrow>
      (case List.find (\<lambda>t. at_RootPID t = pid) trees of None \<Rightarrow> False | Some t \<Rightarrow> is_quiet p t)"
  proof (cases "List.find (\<lambda>t. at_RootPID t = pid) trees")
    case None
    then have "\<forall>t \<in> set trees. at_RootPID t \<noteq> pid" by (auto simp: find_None_iff)
    then show ?thesis using None by (auto simp: quiet_in_def list_ex_iff)
  next
    case (Some t)
    then have t: "t \<in> set trees" "at_RootPID t = pid" by (auto simp: find_Some_iff)
    have "u = t" if "u \<in> set trees" "at_RootPID u = pid" for u
      using that t dist inj_onD [of at_RootPID "set trees" u t] by (simp add: distinct_map)
    then have "quiet_in p pid trees \<longleftrightarrow> is_quiet p t"
      using t unfolding quiet_in_def list_ex_iff by blast
    then show ?thesis using Some by simp
  qed
  then show ?case
    using Cons annotate_streak [OF dist, of p "streaks_after p older" pid]
    by (auto split: option.splits)
qed (simp add: streak_of_def)

text \<open>
  The count that admits a tree to relief is the number of the latest consecutive samples in
  which a tree with that root was old enough and quiet.
\<close>

theorem quiescence_counts_samples:
  assumes "list_all (\<lambda>ts. distinct (map at_RootPID ts)) (trees # older)"
    and "tree \<in> set (fst (annotateQuiescence trees p (streaks_after p older)))"
  shows "at_QuiescentSamples tree =
     int (length (takeWhile (quiet_in p (at_RootPID tree)) (trees # older)))"
proof -
  have dist: "distinct (map at_RootPID trees)" using assms(1) by simp
  obtain t where t: "t \<in> set trees" and tree: "tree = t\<lparr> at_QuiescentSamples :=
       (if is_quiet p t then streak_of (streaks_after p older) (at_RootPID t) + 1 else 0) \<rparr>"
    using assms(2) by (auto simp: annotateQuiescence_def case_prod_beta annotated_trees [OF dist])
  have "streak_of (streaks_after p (trees # older)) (at_RootPID t) = at_QuiescentSamples tree"
    using annotate_tree [OF dist t, of p "streaks_after p older"] t
    by (simp add: annotateQuiescence_def case_prod_beta streak_filter tree)
  then show ?thesis
    using streak_counts [OF assms(1), of p "at_RootPID t"] by (simp add: tree)
qed


section \<open>Choice\<close>

lemma hd_sort_key_least:
  fixes k :: "'a \<Rightarrow> 'b :: linorder"
  assumes "sort_key k xs = y # ys" and "x \<in> set xs"
  shows "k y \<le> k x"
proof -
  have "sorted (map k (y # ys))" using sorted_sort_key_map [of k xs] assms(1) by simp
  moreover have "x \<in> set (y # ys)" using assms by (metis set_sort)
  ultimately show ?thesis by auto
qed

lemma relief_choice_lists:
  "case selectReliefCandidateExcluding trees p rejected of
     None \<Rightarrow> list_all (\<lambda>t. \<not> relief_eligible p rejected t) trees
   | Some tree \<Rightarrow> tree \<in> set trees \<and> relief_eligible p rejected tree \<and>
       list_all (\<lambda>t. \<not> relief_eligible p rejected t \<or> relief_rank tree \<le> relief_rank t) trees"
proof (cases "sort_key relief_rank (filter (relief_eligible p rejected) trees)")
  case Nil
  then have "set (sort_key relief_rank (filter (relief_eligible p rejected) trees)) = {}" by simp
  then have "filter (relief_eligible p rejected) trees = []" by simp
  then show ?thesis
    using Nil by (auto simp: selectReliefCandidateExcluding_def filter_empty_conv list_all_iff)
next
  case (Cons tree rest)
  then have "tree \<in> set (filter (relief_eligible p rejected) trees)"
    by (metis list.set_intros(1) set_sort)
  then show ?thesis
    using Cons hd_sort_key_least [OF Cons]
    by (auto simp: selectReliefCandidateExcluding_def list_all_iff)
qed

text \<open>
  Relief proposes a tree exactly when one is eligible, and then the first one in the order
  ready, heaviest, least active.
\<close>

theorem relief_choice_is_first:
  "case selectReliefCandidateExcluding trees p rejected of
     None \<Rightarrow> list_all (\<lambda>t. \<not> relief_eligible p rejected t) trees
   | Some tree \<Rightarrow> tree \<in> set trees \<and> relief_eligible p rejected tree \<and>
       list_all (\<lambda>t. \<not> relief_eligible p rejected t \<or> relief_rank tree \<le> relief_rank t) trees"
  by (rule relief_choice_lists)

lemma selected_tree:
  "selectReliefCandidateExcluding trees p rejected = Some tree \<Longrightarrow>
   tree \<in> set trees \<and> relief_eligible p rejected tree"
  using relief_choice_lists [where trees = trees and p = p and rejected = rejected] by auto

lemma conclude_keeps [simp]:
  "ac_RootPID (conclude w r f a) = ac_RootPID a" "ac_Agent (conclude w r f a) = ac_Agent a"
  "ac_SessionID (conclude w r f a) = ac_SessionID a" "ac_Timestamp (conclude w r f a) = ac_Timestamp a"
  by (cases f; simp add: conclude_def)+

lemma note_revalidation_keeps [simp]:
  "ac_RootPID (note_revalidation r a) = ac_RootPID a" "ac_Agent (note_revalidation r a) = ac_Agent a"
  "ac_SessionID (note_revalidation r a) = ac_SessionID a"
  "ac_Timestamp (note_revalidation r a) = ac_Timestamp a"
  by (cases "tr_Tree r"; simp add: note_revalidation_def Let_def)+

lemma relief_intent_simps [simp]:
  "ac_RootPID (relief_intent s now tree) = at_RootPID tree"
  "ac_Agent (relief_intent s now tree) = at_Agent tree"
  "ac_SessionID (relief_intent s now tree) = at_SessionID tree"
  "ac_Timestamp (relief_intent s now tree) = now"
  by (simp_all add: relief_intent_def Let_def)

text \<open>The key of the stored row of an attempt is the key of its tree.\<close>

lemma relief_row_key:
  "reliefActionKey (stored_action t (conclude w r f (note_revalidation r (relief_intent s now tree)))) =
   reliefTreeKey tree"
  by (simp add: reliefActionKey_def reliefTreeKey_def stored_action_def boundedText_idempotent)

section \<open>What a signal rests on\<close>

lemma guarded_None [simp]: "guarded b x = None \<longleftrightarrow> \<not> b"
  by (simp add: guarded_def)

lemma first_some_None [simp]: "first_some xs = None \<longleftrightarrow> list_all (\<lambda>x. x = None) xs"
  by (induction xs) (auto simp: first_some_def split: if_splits)

lemma policy_rejection_None:
  "policy_rejection w mem p = None \<longleftrightarrow>
   rw_HasPolicyPath w \<and> persisted_is (rw_NumCPU w) (rw_FinalPolicyFile w) mem p"
  by (auto simp: policy_rejection_def persisted_is_def split: sum.splits if_splits)

definition still_relievable :: "AgentTree \<Rightarrow> AgentTree \<Rightarrow> Policy \<Rightarrow> bool" where
  "still_relievable tree current p \<longleftrightarrow>
     at_RootPID current = at_RootPID tree \<and> at_Agent current = at_Agent tree \<and>
     at_Executable current = at_Executable tree \<and> at_SessionID current = at_SessionID tree \<and>
     at_ElapsedSeconds tree \<le> at_ElapsedSeconds current + 5 \<and>
     at_SemanticState current \<noteq> SemanticStateBusy \<and> is_quiet p current \<and>
     set (at_PIDs current) \<subseteq> insert (at_RootPID tree) (set (at_PIDs tree))"

lemma revalidate_None:
  assumes "revalidate w tree current p = None" and "at_RootPID current = at_RootPID tree"
  shows "still_relievable tree current p \<and> sn_Level (rs_Snapshot (rw_Resample w)) = LevelCritical \<and>
         rw_HasPolicyPath w \<and>
         persisted_is (rw_NumCPU w) (rw_FinalPolicyFile w)
           (sn_PhysicalMemoryMB (rs_Snapshot (rw_Resample w))) p"
  using assms
  by (auto simp: revalidate_def Let_def policy_rejection_None still_relievable_def is_quiet_def
      validateSemanticRevalidation_def new_descendants_def filter_empty_conv split: list.splits if_splits)

lemma Terminate_signals:
  assumes "Terminate w tree p = (r, failure)" and "tr_Signalled r \<noteq> []"
  shows "\<exists>current. current \<in> set (sn_TopAgentTrees (rs_Snapshot (rw_Resample w))) \<and>
           at_RootPID current = at_RootPID tree \<and> revalidate w tree current p = None \<and>
           tr_Signalled r = rev (at_PIDs current) \<and> \<not> rw_ResampleFails w"
proof (cases "rw_ResampleFails w")
  case False
  show ?thesis
  proof (cases "List.find (\<lambda>c. at_RootPID c = at_RootPID tree) (sn_TopAgentTrees (rs_Snapshot (rw_Resample w)))")
    case (Some current)
    then have "current \<in> set (sn_TopAgentTrees (rs_Snapshot (rw_Resample w)))"
      and "at_RootPID current = at_RootPID tree"
      by (auto simp: find_Some_iff)
    then show ?thesis
      using assms False Some
      by (auto simp: Terminate_def Let_def signalTreePIDs_def split: option.splits if_splits)
  qed (use assms False in \<open>auto simp: Terminate_def Let_def\<close>)
qed (use assms in \<open>auto simp: Terminate_def Let_def\<close>)


definition shed_policy :: Policy where
  "shed_policy =
     (DefaultPolicy 8 32768)\<lparr> po_EnforceAdmission := True, po_AutoShedCritical := True \<rparr>"

definition idle_tree :: AgentTree where
  "idle_tree =
     \<lparr> at_Agent = ''agent'', at_RootPID = 70, at_SessionID = ''s'', at_Executable = ''agent'',
       at_ProcessCount = 2, at_RSSSumMB = 900, at_CPUPercentSum = 0, at_CPUAvailable = True,
       at_ElapsedSeconds = 900, at_QuiescentSamples = 2, at_SemanticState = SemanticStateReady,
       at_SemanticStateAt = 1, at_PIDs = [70, 71] \<rparr>"

definition critical_sample :: resident_sample where
  "critical_sample =
     \<lparr> rs_Snapshot = calm_snapshot\<lparr> sn_Timestamp := 5, sn_Level := LevelCritical, sn_PhysicalMemoryMB := 32768,
         sn_GuardBudgetOK := True, sn_ProcessInventoryFresh := True, sn_ConsecutiveSamples := 2,
         sn_TopAgentTrees := [idle_tree] \<rparr>,
       rs_GuardRole = ''resident'', rs_GuardBaselineProven = True, rs_TopHostConsumers = [],
       rs_GuardPeakRSSMB = 0 \<rparr>"

definition critical_world :: relief_world where
  "critical_world =
     \<lparr> rw_NumCPU = 8, rw_HasStore = True, rw_PolicyFile = PolicyDocument shed_policy,
       rw_Resample = critical_sample, rw_ResampleFails = False, rw_HasPolicyPath = True,
       rw_FinalPolicyFile = PolicyDocument shed_policy, rw_Send = (\<lambda>pid. SignalSent),
       rw_SignalTime = 6, rw_Polls = [(\<lambda>pid. False, 7)], rw_Describe = (\<lambda>f. ''failed'') \<rparr>"

lemma shed_policy_loads: "persisted_is 8 (PolicyDocument shed_policy) 32768 shed_policy"
  by code_simp

lemma shed_policy_fields:
  "po_AutoShedCritical shed_policy" "CriticalSustainSamples shed_policy = 2"
  "CandidateMinAgeSeconds shed_policy = 600" "CandidateMaxCPUPercent shed_policy = 5 / 2"
  "ActionCooldownSeconds shed_policy = 300"
  by (simp_all add: shed_policy_def DefaultPolicy_def Let_def)

lemma idle_tree_selected:
  "selectReliefCandidateExcluding [idle_tree] shed_policy [] = Some idle_tree"
  by (simp add: selectReliefCandidateExcluding_def relief_eligible_def idle_tree_def shed_policy_fields
      validCPUEvidence_def)

lemma critical_world_revalidates: "revalidate critical_world idle_tree idle_tree shed_policy = None"
  using shed_policy_loads
  by (simp add: revalidate_def Let_def policy_rejection_None validateSemanticRevalidation_def
      new_descendants_def critical_world_def critical_sample_def idle_tree_def shed_policy_fields
      validCPUEvidence_def)

lemma critical_trees:
  "sn_TopAgentTrees (rs_Snapshot critical_sample) = [idle_tree]" "rw_Resample critical_world = critical_sample"
  "rw_ResampleFails critical_world = False" "at_PIDs idle_tree = [70, 71]"
  "rw_Send critical_world = (\<lambda>pid. SignalSent)"
  by (simp_all add: critical_sample_def critical_world_def idle_tree_def)

lemma critical_world_relieves:
  "map_option snd (maybeRelieveExcluding critical_world critical_sample shed_policy 5 0 0 []) = Some [71, 70]"
proof -
  have "may_relieve critical_world critical_sample shed_policy 5 0 0"
    using shed_policy_loads
    by (simp add: may_relieve_def critical_world_def critical_sample_def shed_policy_fields IsZero_def)
  moreover have "tr_Signalled (fst (Terminate critical_world idle_tree shed_policy)) = [71, 70]"
    by (simp add: Terminate_def critical_trees critical_world_revalidates Let_def signalTreePIDs_def)
  ultimately show ?thesis
    using idle_tree_selected by (simp add: maybeRelieveExcluding_def case_prod_beta Let_def critical_trees)
qed


theorem quiescence_counts_samples_witness:
  "int (length (takeWhile (quiet_in shed_policy 70) [[idle_tree], [idle_tree]])) = 2"
proof -
  let ?t = "hd (fst (annotateQuiescence [idle_tree] shed_policy (streaks_after shed_policy [[idle_tree]])))"
  have "at_QuiescentSamples ?t = 2" and "at_RootPID ?t = 70"
    and "?t \<in> set (fst (annotateQuiescence [idle_tree] shed_policy (streaks_after shed_policy [[idle_tree]])))"
    by (simp_all add: annotateQuiescence_def idle_tree_def is_quiet_def shed_policy_fields validCPUEvidence_def
        streak_of_def)
  then show ?thesis
    using quiescence_counts_samples [of "[idle_tree]" "[[idle_tree]]" ?t shed_policy] by simp
qed

end
