(* ===== verification/Claimed_Process.thy ===== *)
theory Claimed_Process
  imports Resident_Relief
begin

text \<open>
  Reclaiming a claimed process tree (\<^verbatim>\<open>sessionpressure/resource_cleanup.go\<close>): the inspection that
  walks the process inventory from the claimed root, and the graceful signal that is bound to
  the start identity of every process. The operating system is a record: the inventory, the
  start identity of a process at each of the times the code reads it (an error is \<open>None\<close>),
  liveness, the outcome of a signal and the polls after it.
\<close>

record ResourceCleanupResult =
  rc_Attempted :: bool
  rc_Acted :: bool
  rc_ResourceKind :: string
  rc_ResourceID :: string
  rc_Result :: string
  rc_ControlExecuted :: bool
  rc_ControlDurationMS :: rat
  rc_ControlMaxRSSMB :: rat

definition no_cleanup :: ResourceCleanupResult where
  "no_cleanup =
     \<lparr> rc_Attempted = False, rc_Acted = False, rc_ResourceKind = [], rc_ResourceID = [], rc_Result = [],
       rc_ControlExecuted = False, rc_ControlDurationMS = 0, rc_ControlMaxRSSMB = 0 \<rparr>"

record ClaimedProcessExpectation =
  ce_RootPID :: int
  ce_ProcessIdentity :: string
  ce_MaxCPUPercent :: rat

record ClaimedProcessResult =
  cr_RootPID :: int
  cr_ProcessCount :: int
  cr_RSSSumMB :: rat
  cr_CPUPercentSum :: rat
  cr_CPUAvailable :: bool
  cr_Signal :: string
  cr_Result :: string

record host_process =
  hp_PID :: int
  hp_PPID :: int
  hp_RSSKB :: int
  hp_CPUPercent :: rat
  hp_CPUAvailable :: bool

datatype identity_read = BeforeInventory | DuringWalk | BeforeSignals | FirstPass | AtSignal

record process_host =
  ho_Identity :: "identity_read \<Rightarrow> int \<Rightarrow> string option"
  ho_Inventory :: "host_process list option"
  ho_Self :: int
  ho_Alive :: "int \<Rightarrow> bool"
  ho_Send :: "int \<Rightarrow> signal_outcome"
  ho_SignalTime :: time
  ho_Polls :: "exit_poll list"

datatype inspect_error =
    IdentityRequired | CPUCeilingInvalid | RootIdentityChanged | InventoryFailed | RootDisappeared
  | IdentityUncaptured int | RootChangedInInventory | NoProjection | OwnTree | NoCPUActivity | TreeActive
  | RootChangedBeforeSignal | IdentityMissing int | IdentityUnread int | IdentityChanged int
  | ClaimedSignalsFailed "int list"


section \<open>The walk\<close>

definition byPID :: "host_process list \<Rightarrow> int \<Rightarrow> host_process option" where
  "byPID ps = map_of (rev (map (\<lambda>p. (hp_PID p, p)) ps))"

definition children_of :: "host_process list \<Rightarrow> int \<Rightarrow> int list" where
  "children_of ps pid = sort (map hp_PID (filter (\<lambda>p. hp_PPID p = pid) ps))"

record walk_state =
  wk_PIDs :: "int list"
  wk_Identities :: "(int \<times> string) list"
  wk_Result :: ClaimedProcessResult
  wk_Error :: "inspect_error option"

definition visit :: "process_host \<Rightarrow> ClaimedProcessExpectation \<Rightarrow> host_process \<Rightarrow> int \<Rightarrow> walk_state \<Rightarrow> walk_state" where
  "visit h expected p pid w =
     (case ho_Identity h DuringWalk pid of
        None \<Rightarrow> w\<lparr> wk_Error := Some (IdentityUncaptured pid) \<rparr>
      | Some identity \<Rightarrow>
          if pid = ce_RootPID expected \<and> identity \<noteq> ce_ProcessIdentity expected
          then w\<lparr> wk_Error := Some RootChangedInInventory \<rparr>
          else (let r = wk_Result w; n = cr_ProcessCount r + 1 in
            w\<lparr> wk_PIDs := wk_PIDs w @ [pid], wk_Identities := wk_Identities w @ [(pid, identity)],
               wk_Result := r\<lparr> cr_ProcessCount := n,
                 cr_RSSSumMB := cr_RSSSumMB r + of_int (hp_RSSKB p) / 1024,
                 cr_CPUPercentSum := cr_CPUPercentSum r + hp_CPUPercent p,
                 cr_CPUAvailable := (n = 1 \<or> cr_CPUAvailable r) \<and>
                                    validCPUEvidence (hp_CPUAvailable p) (hp_CPUPercent p) \<rparr> \<rparr>))"

text \<open>
  The recursive closure as a loop over the calls that are still to be made, in the order in
  which the recursion makes them.
\<close>

function walk ::
    "process_host \<Rightarrow> ClaimedProcessExpectation \<Rightarrow> host_process list \<Rightarrow> int list \<Rightarrow> int list \<Rightarrow> walk_state \<Rightarrow> walk_state" where
  "walk h expected ps [] visited w = w"
| "walk h expected ps (pid # stack) visited w =
     (if pid \<in> set visited \<or> wk_Error w \<noteq> None then walk h expected ps stack visited w
      else case byPID ps pid of
             None \<Rightarrow> walk h expected ps stack (pid # visited) w
           | Some p \<Rightarrow>
               (let w' = visit h expected p pid w in
                if wk_Error w' \<noteq> None then walk h expected ps stack (pid # visited) w'
                else walk h expected ps (children_of ps pid @ stack) (pid # visited) w'))"
  by pat_completeness auto

lemma byPID_Some: "byPID ps pid = Some p \<Longrightarrow> p \<in> set ps \<and> hp_PID p = pid"
  unfolding byPID_def by (drule map_of_SomeD) auto

lemma byPID_dom: "dom (byPID ps) = hp_PID ` set ps"
  by (simp add: byPID_def dom_map_of_conv_image_fst image_image)

lemma unvisited_less:
  "byPID ps pid = Some p \<Longrightarrow> pid \<notin> set visited \<Longrightarrow>
   card (hp_PID ` set ps - set (pid # visited)) < card (hp_PID ` set ps - set visited)"
  by (intro psubset_card_mono) (auto dest: byPID_Some)

lemma unvisited_le: "card (hp_PID ` set ps - set (pid # visited)) \<le> card (hp_PID ` set ps - set visited)"
  by (intro card_mono) auto

termination walk
proof (relation "measures [\<lambda>(h, expected, ps, stack, visited, w). card (hp_PID ` set ps - set visited),
                           \<lambda>(h, expected, ps, stack, visited, w). length stack]", goal_cases)
  case (3 h expected ps pid stack visited w)
  then show ?case using unvisited_le [of ps pid visited] by (auto simp: le_less)
next
  case (4 h expected ps pid stack visited w p x)
  then show ?case using unvisited_less [of ps pid p visited] by auto
next
  case (5 h expected ps pid stack visited w p x)
  then show ?case using unvisited_less [of ps pid p visited] by auto
qed auto


section \<open>Inspection\<close>

record inspection =
  in_Result :: ClaimedProcessResult
  in_PIDs :: "int list"
  in_Identities :: "(int \<times> string) list"

definition rejected_result :: "int \<Rightarrow> ClaimedProcessResult" where
  "rejected_result rootpid =
     \<lparr> cr_RootPID = rootpid, cr_ProcessCount = 0, cr_RSSSumMB = 0, cr_CPUPercentSum = 0,
       cr_CPUAvailable = False, cr_Signal = [], cr_Result = ''revalidation_rejected'' \<rparr>"

definition empty_walk :: "int \<Rightarrow> walk_state" where
  "empty_walk rootpid =
     \<lparr> wk_PIDs = [], wk_Identities = [], wk_Result = rejected_result rootpid, wk_Error = None \<rparr>"

definition inspectClaimedProcessTree ::
    "process_host \<Rightarrow> ClaimedProcessExpectation \<Rightarrow> (inspect_error \<times> ClaimedProcessResult) + inspection" where
  "inspectClaimedProcessTree h expected =
     (let rootpid = ce_RootPID expected; r = rejected_result rootpid in
      if rootpid \<le> 0 \<or> ce_ProcessIdentity expected = [] then Inl (IdentityRequired, r)
      else if ce_MaxCPUPercent expected < 0 \<or> 10 < ce_MaxCPUPercent expected then Inl (CPUCeilingInvalid, r)
      else if ho_Identity h BeforeInventory rootpid \<noteq> Some (ce_ProcessIdentity expected)
      then Inl (RootIdentityChanged, r)
      else case ho_Inventory h of
        None \<Rightarrow> Inl (InventoryFailed, r)
      | Some ps \<Rightarrow>
          if byPID ps rootpid = None then Inl (RootDisappeared, r)
          else let w = walk h expected ps [rootpid] [] (empty_walk rootpid); r = wk_Result w in
            case wk_Error w of
              Some e \<Rightarrow> Inl (e, r)
            | None \<Rightarrow>
                if wk_PIDs w = [] then Inl (NoProjection, r)
                else if ho_Self h \<in> set (wk_PIDs w) then Inl (OwnTree, r)
                else if \<not> cr_CPUAvailable r then Inl (NoCPUActivity, r)
                else if cr_CPUPercentSum r > ce_MaxCPUPercent expected then Inl (TreeActive, r)
                else Inr \<lparr> in_Result = r\<lparr> cr_Result := ''eligible'' \<rparr>, in_PIDs = wk_PIDs w,
                           in_Identities = wk_Identities w \<rparr>)"

definition InspectClaimedProcessTree ::
    "process_host \<Rightarrow> ClaimedProcessExpectation \<Rightarrow> (inspect_error \<times> ClaimedProcessResult) + ClaimedProcessResult" where
  "InspectClaimedProcessTree h expected = map_sum id in_Result (inspectClaimedProcessTree h expected)"


section \<open>Signals bound to identities\<close>

text \<open>The first pass: the processes that still carry their identity, or the first error.\<close>

fun first_pass :: "process_host \<Rightarrow> (int \<times> string) list \<Rightarrow> int list \<Rightarrow> inspect_error + int list" where
  "first_pass h ids [] = Inr []"
| "first_pass h ids (pid # pids) =
     (case map_of ids pid of
        None \<Rightarrow> Inl (IdentityMissing pid)
      | Some want \<Rightarrow>
          if want = [] then Inl (IdentityMissing pid)
          else case ho_Identity h FirstPass pid of
            None \<Rightarrow> if \<not> ho_Alive h pid then first_pass h ids pids else Inl (IdentityUnread pid)
          | Some got \<Rightarrow>
              if got \<noteq> want then Inl (IdentityChanged pid)
              else map_sum id ((#) pid) (first_pass h ids pids))"

datatype signal_step = SkipProcess | SendTo | RefuseProcess inspect_error

definition at_signal :: "process_host \<Rightarrow> (int \<times> string) list \<Rightarrow> int list \<Rightarrow> int \<Rightarrow> signal_step" where
  "at_signal h ids live pid =
     (if pid \<notin> set live then SkipProcess
      else case ho_Identity h AtSignal pid of
             None \<Rightarrow> if \<not> ho_Alive h pid then SkipProcess else RefuseProcess (IdentityUnread pid)
           | Some got \<Rightarrow> if Some got \<noteq> map_of ids pid then RefuseProcess (IdentityChanged pid) else SendTo)"

definition claimed_send :: "process_host \<Rightarrow> (int \<times> string) list \<Rightarrow> int list \<Rightarrow> int \<Rightarrow> signal_outcome" where
  "claimed_send h ids live pid =
     (case at_signal h ids live pid of
        SkipProcess \<Rightarrow> SignalSent | RefuseProcess e \<Rightarrow> SignalError | SendTo \<Rightarrow> ho_Send h pid)"

text \<open>The signals sent, in order, and the error.\<close>

definition signalClaimedProcessTree ::
    "process_host \<Rightarrow> int list \<Rightarrow> (int \<times> string) list \<Rightarrow> int list \<times> inspect_error option" where
  "signalClaimedProcessTree h pids ids =
     (case first_pass h ids pids of
        Inl e \<Rightarrow> ([], Some e)
      | Inr live \<Rightarrow>
          (let (order, failed) = signalTreePIDs pids (claimed_send h ids live)
           in (filter (\<lambda>pid. at_signal h ids live pid = SendTo) order,
               if failed = [] then None else Some (ClaimedSignalsFailed failed))))"

definition ReapClaimedProcessTree ::
    "process_host \<Rightarrow> ClaimedProcessExpectation \<Rightarrow>
     (inspect_error \<times> ClaimedProcessResult + ClaimedProcessResult) \<times> int list" where
  "ReapClaimedProcessTree h expected =
     (case inspectClaimedProcessTree h expected of
        Inl (e, r) \<Rightarrow> (Inl (e, r), [])
      | Inr i \<Rightarrow>
          if ho_Identity h BeforeSignals (ce_RootPID expected) \<noteq> Some (ce_ProcessIdentity expected)
          then (Inl (RootChangedBeforeSignal, in_Result i), [])
          else (let r = (in_Result i)\<lparr> cr_Signal := ''SIGTERM'', cr_Result := ''signal_sent'' \<rparr>;
                    (sent, failure) = signalClaimedProcessTree h (in_PIDs i) (in_Identities i)
                in case failure of
                     Some e \<Rightarrow> (Inl (e, r\<lparr> cr_Result := ''error'' \<rparr>), sent)
                   | None \<Rightarrow>
                       (Inr (r\<lparr> cr_Result :=
                          (if confirmTreeExit (in_PIDs i) (ho_SignalTime h + exit_wait) (ho_Polls h) = Some True
                           then ''tree_exit_confirmed'' else ''signal_sent_unconfirmed'') \<rparr>), sent)))"

section \<open>The walk finds the whole tree\<close>

definition spawned :: "host_process list \<Rightarrow> (int \<times> int) set" where
  "spawned ps = (\<lambda>p. (hp_PPID p, hp_PID p)) ` set ps"

definition tree_pids :: "host_process list \<Rightarrow> int \<Rightarrow> int set" where
  "tree_pids ps pid = {d. d \<in> hp_PID ` set ps \<and> (pid, d) \<in> (spawned ps)\<^sup>*}"

definition cpu_of :: "host_process list \<Rightarrow> int \<Rightarrow> rat" where
  "cpu_of ps pid = (case byPID ps pid of None \<Rightarrow> 0 | Some p \<Rightarrow> hp_CPUPercent p)"

lemma set_children: "set (children_of ps pid) = {d. (pid, d) \<in> spawned ps}"
  by (auto simp: children_of_def spawned_def)

lemma visit_cases:
  assumes "wk_Error (visit h expected p pid w) = None"
  shows "wk_PIDs (visit h expected p pid w) = wk_PIDs w @ [pid] \<and>
         (\<exists>identity. ho_Identity h DuringWalk pid = Some identity \<and>
            wk_Identities (visit h expected p pid w) = wk_Identities w @ [(pid, identity)]) \<and>
         cr_CPUPercentSum (wk_Result (visit h expected p pid w)) =
           cr_CPUPercentSum (wk_Result w) + hp_CPUPercent p"
  using assms by (auto simp: visit_def Let_def split: option.splits if_splits)

lemma visit_error_kept:
  "wk_Error w = None \<Longrightarrow> wk_Error (visit h expected p pid w) \<noteq> None \<Longrightarrow>
   wk_PIDs (visit h expected p pid w) = wk_PIDs w"
  by (auto simp: visit_def Let_def split: option.splits if_splits)

lemma walk_error: "wk_Error w \<noteq> None \<Longrightarrow> walk h expected ps stack visited w = w"
  by (induction stack) auto

lemma walk_none: "wk_Error (walk h expected ps stack visited w) = None \<Longrightarrow> wk_Error w = None"
  using walk_error by fastforce

lemma walk_visit:
  assumes "pid \<notin> set visited" and "wk_Error w = None" and "byPID ps pid = Some p"
    and "wk_Error (walk h expected ps (pid # stack) visited w) = None"
  shows "wk_Error (visit h expected p pid w) = None \<and>
         walk h expected ps (pid # stack) visited w =
           walk h expected ps (children_of ps pid @ stack) (pid # visited) (visit h expected p pid w)"
proof (cases "wk_Error (visit h expected p pid w)")
  case None
  then show ?thesis using assms(1-3) by (simp add: Let_def)
next
  case (Some e)
  then have "walk h expected ps (pid # stack) visited w = visit h expected p pid w"
    using assms(1-3) by (simp add: Let_def walk_error)
  then show ?thesis using assms(4) Some by simp
qed

text \<open>What one walk adds, as long as it ends without an error.\<close>

definition recorded_walk :: "process_host \<Rightarrow> host_process list \<Rightarrow> walk_state \<Rightarrow> bool" where
  "recorded_walk h ps w \<longleftrightarrow>
     distinct (wk_PIDs w) \<and> map fst (wk_Identities w) = wk_PIDs w \<and>
     list_all (\<lambda>(pid, identity). ho_Identity h DuringWalk pid = Some identity) (wk_Identities w) \<and>
     cr_CPUPercentSum (wk_Result w) = sum_list (map (cpu_of ps) (wk_PIDs w))"

lemma recorded_visit:
  assumes "recorded_walk h ps w" and "byPID ps pid = Some p" and "pid \<notin> set (wk_PIDs w)"
    and "wk_Error (visit h expected p pid w) = None"
  shows "recorded_walk h ps (visit h expected p pid w)"
  using assms(1-3) visit_cases [OF assms(4)] by (auto simp: recorded_walk_def cpu_of_def)

lemma walk_sound:
  assumes "recorded_walk h ps w" and "set (wk_PIDs w) \<subseteq> set visited"
    and "wk_Error (walk h expected ps stack visited w) = None"
  shows "recorded_walk h ps (walk h expected ps stack visited w)"
  using assms
proof (induction h expected ps stack visited w rule: walk.induct)
  case (2 h expected ps pid stack visited w)
  show ?case
  proof (cases "pid \<in> set visited \<or> wk_Error w \<noteq> None")
    case True
    then show ?thesis using 2 by simp
  next
    case fresh: False
    show ?thesis
    proof (cases "byPID ps pid")
      case None
      then show ?thesis using 2 fresh by (auto intro: subset_insertI2)
    next
      case (Some p)
      let ?w = "visit h expected p pid w"
      have ok: "wk_Error ?w = None" and step: "walk h expected ps (pid # stack) visited w =
           walk h expected ps (children_of ps pid @ stack) (pid # visited) ?w"
        using walk_visit [OF _ _ Some "2.prems"(3)] fresh by auto
      have "pid \<notin> set (wk_PIDs w)" using fresh "2.prems"(2) by auto
      then have "recorded_walk h ps ?w" using "2.prems"(1) Some ok by (intro recorded_visit) auto
      moreover have "set (wk_PIDs ?w) \<subseteq> set (pid # visited)"
        using visit_cases [OF ok] "2.prems"(2) by auto
      ultimately show ?thesis
        using "2.IH"(4) [OF fresh Some refl] "2.prems"(3) ok unfolding step by simp
    qed
  qed
qed simp

definition closed_walk :: "host_process list \<Rightarrow> int list \<Rightarrow> int set \<Rightarrow> bool" where
  "closed_walk ps pids V \<longleftrightarrow>
     set pids = V \<inter> hp_PID ` set ps \<and> (\<forall>x \<in> set pids. set (children_of ps x) \<subseteq> V)"

lemma walk_closed:
  assumes "set (wk_PIDs w) = set visited \<inter> hp_PID ` set ps"
    and "\<forall>x \<in> set (wk_PIDs w). set (children_of ps x) \<subseteq> set visited \<union> set stack"
    and "wk_Error (walk h expected ps stack visited w) = None"
  shows "\<exists>V. set visited \<union> set stack \<subseteq> V \<and> closed_walk ps (wk_PIDs (walk h expected ps stack visited w)) V"
  using assms
proof (induction h expected ps stack visited w rule: walk.induct)
  case (1 h expected ps visited w)
  then show ?case by (intro exI [of _ "set visited"]) (auto simp: closed_walk_def)
next
  case (2 h expected ps pid stack visited w)
  show ?case
  proof (cases "pid \<in> set visited \<or> wk_Error w \<noteq> None")
    case True
    then have "pid \<in> set visited" using walk_none [OF "2.prems"(3)] by simp
    then have "set visited \<union> set (pid # stack) = set visited \<union> set stack" by auto
    then show ?thesis using "2.IH"(1) [OF True "2.prems"(1)] "2.prems"(2,3) True by auto
  next
    case fresh: False
    show ?thesis
    proof (cases "byPID ps pid")
      case None
      then have "pid \<notin> hp_PID ` set ps" using byPID_dom [of ps] domIff [of pid "byPID ps"] by simp
      then have "\<exists>V. set (pid # visited) \<union> set stack \<subseteq> V \<and>
          closed_walk ps (wk_PIDs (walk h expected ps stack (pid # visited) w)) V"
        using "2.prems"(1,2,3) fresh None by (intro "2.IH"(2)) auto
      then show ?thesis using fresh None by auto
    next
      case (Some p)
      let ?w = "visit h expected p pid w"
      have ok: "wk_Error ?w = None" and step: "walk h expected ps (pid # stack) visited w =
           walk h expected ps (children_of ps pid @ stack) (pid # visited) ?w"
        using walk_visit [OF _ _ Some "2.prems"(3)] fresh by auto
      have pids: "wk_PIDs ?w = wk_PIDs w @ [pid]" using visit_cases [OF ok] by simp
      have "pid \<in> hp_PID ` set ps" using byPID_Some [OF Some] by auto
      then have "set (wk_PIDs ?w) = set (pid # visited) \<inter> hp_PID ` set ps"
        using "2.prems"(1) pids by auto
      moreover have "\<forall>x \<in> set (wk_PIDs ?w).
          set (children_of ps x) \<subseteq> set (pid # visited) \<union> set (children_of ps pid @ stack)"
        using "2.prems"(2) pids by auto
      ultimately have "\<exists>V. set (pid # visited) \<union> set (children_of ps pid @ stack) \<subseteq> V \<and>
          closed_walk ps (wk_PIDs (walk h expected ps (children_of ps pid @ stack) (pid # visited) ?w)) V"
        using "2.IH"(4) [OF fresh Some refl] ok "2.prems"(3) unfolding step by simp
      then show ?thesis unfolding step by auto
    qed
  qed
qed

lemma walk_reaches:
  assumes "set (wk_PIDs w) \<subseteq> R" and "\<And>x. x \<in> set stack \<Longrightarrow> x \<in> R"
    and "\<And>x y. x \<in> R \<Longrightarrow> (x, y) \<in> spawned ps \<Longrightarrow> y \<in> R"
  shows "set (wk_PIDs (walk h expected ps stack visited w)) \<subseteq> R"
  using assms
proof (induction h expected ps stack visited w rule: walk.induct)
  case (2 h expected ps pid stack visited w)
  show ?case
  proof (cases "pid \<in> set visited \<or> wk_Error w \<noteq> None")
    case True
    then show ?thesis using 2 by auto
  next
    case fresh: False
    show ?thesis
    proof (cases "byPID ps pid")
      case None
      then show ?thesis using 2 fresh by auto
    next
      case (Some p)
      let ?w = "visit h expected p pid w"
      show ?thesis
      proof (cases "wk_Error ?w")
        case None
        have "pid \<in> R" by (rule "2.prems"(2)) simp
        then have "set (wk_PIDs ?w) \<subseteq> R" using visit_cases [OF None] "2.prems"(1) by auto
        moreover have "x \<in> R" if "x \<in> set (children_of ps pid @ stack)" for x
          using that "2.prems"(2,3) by (auto simp: set_children)
        ultimately show ?thesis
          using "2.IH"(4) [OF fresh Some refl] "2.prems"(3) fresh Some None by (simp add: Let_def)
      next
        case err: (Some e)
        then show ?thesis
          using visit_error_kept [of w h expected p pid] walk_error [of ?w] "2.prems"(1) fresh Some
          by (simp add: Let_def)
      qed
    qed
  qed
qed simp

lemma walk_is_tree:
  assumes w: "w = walk h expected ps [pid] [] (empty_walk pid)" and ok: "wk_Error w = None"
    and known: "pid \<in> hp_PID ` set ps"
  shows "recorded_walk h ps w \<and> set (wk_PIDs w) = tree_pids ps pid"
proof
  have start: "recorded_walk h ps (empty_walk pid)"
    by (simp add: recorded_walk_def empty_walk_def rejected_result_def)
  show "recorded_walk h ps w"
    unfolding w by (rule walk_sound [OF start]) (use w ok in \<open>simp_all add: empty_walk_def\<close>)
  obtain V where V: "pid \<in> V" "closed_walk ps (wk_PIDs w) V"
    using walk_closed [of "empty_walk pid" "[]" ps "[pid]" h expected] w ok by (auto simp: empty_walk_def)
  have reach: "d \<in> V \<and> d \<in> hp_PID ` set ps" if "(pid, d) \<in> (spawned ps)\<^sup>*" for d
    using that
  proof (induction rule: rtrancl_induct)
    case (step x y)
    then have "x \<in> set (wk_PIDs w)" using V(2) by (auto simp: closed_walk_def)
    moreover have "y \<in> hp_PID ` set ps" using step(2) by (auto simp: spawned_def)
    ultimately show ?case using step(2) V(2) by (auto simp: closed_walk_def set_children)
  qed (use V known in simp)
  have "set (wk_PIDs w) \<subseteq> {d. (pid, d) \<in> (spawned ps)\<^sup>*}"
    unfolding w by (rule walk_reaches) (auto simp: empty_walk_def)
  then show "set (wk_PIDs w) = tree_pids ps pid"
    using reach V(2) by (auto simp: closed_walk_def tree_pids_def)
qed

lemma inspect_Inr:
  assumes "inspectClaimedProcessTree h expected = Inr i"
  obtains ps w where "ho_Inventory h = Some ps" "w = walk h expected ps [ce_RootPID expected] [] (empty_walk (ce_RootPID expected))"
    "wk_Error w = None" "ce_RootPID expected \<in> hp_PID ` set ps" "in_PIDs i = wk_PIDs w"
    "in_Identities i = wk_Identities w" "ho_Self h \<notin> set (wk_PIDs w)"
    "cr_CPUPercentSum (wk_Result w) \<le> ce_MaxCPUPercent expected"
    "ho_Identity h BeforeInventory (ce_RootPID expected) = Some (ce_ProcessIdentity expected)"
    "ce_ProcessIdentity expected \<noteq> []"
proof -
  obtain ps where ps: "ho_Inventory h = Some ps" and known: "byPID ps (ce_RootPID expected) \<noteq> None"
    using assms by (auto simp: inspectClaimedProcessTree_def Let_def split: option.splits if_splits)
  then have "ce_RootPID expected \<in> hp_PID ` set ps"
    using byPID_dom [of ps] by (auto simp: dom_def)
  moreover define w where "w = walk h expected ps [ce_RootPID expected] [] (empty_walk (ce_RootPID expected))"
  moreover have "wk_Error w = None \<and> in_PIDs i = wk_PIDs w \<and> in_Identities i = wk_Identities w \<and>
    ho_Self h \<notin> set (wk_PIDs w) \<and> cr_CPUPercentSum (wk_Result w) \<le> ce_MaxCPUPercent expected \<and>
    ho_Identity h BeforeInventory (ce_RootPID expected) = Some (ce_ProcessIdentity expected) \<and>
    ce_ProcessIdentity expected \<noteq> []"
    using assms ps known
    by (auto simp: inspectClaimedProcessTree_def Let_def w_def split: option.splits if_splits)
  ultimately show thesis using that [OF ps] by blast
qed

text \<open>
  An eligible inspection has found the whole tree of the claimed root and nothing else, each
  process once and with the identity it was read with; the tree excludes the caller, and its
  processes together stay within the ceiling.
\<close>

theorem inspection_is_whole_tree:
  assumes "inspectClaimedProcessTree h expected = Inr i" and "ho_Inventory h = Some ps"
  shows "distinct (in_PIDs i) \<and> set (in_PIDs i) = tree_pids ps (ce_RootPID expected) \<and>
    map fst (in_Identities i) = in_PIDs i \<and> ho_Self h \<notin> tree_pids ps (ce_RootPID expected) \<and>
    sum_list (map (cpu_of ps) (in_PIDs i)) \<le> ce_MaxCPUPercent expected"
proof -
  obtain w where w: "w = walk h expected ps [ce_RootPID expected] [] (empty_walk (ce_RootPID expected))"
    "wk_Error w = None" "ce_RootPID expected \<in> hp_PID ` set ps" "in_PIDs i = wk_PIDs w"
    "in_Identities i = wk_Identities w" "ho_Self h \<notin> set (wk_PIDs w)"
    "cr_CPUPercentSum (wk_Result w) \<le> ce_MaxCPUPercent expected"
    using inspect_Inr [OF assms(1)] assms(2) by (metis option.inject)
  show ?thesis
    using walk_is_tree [OF w(1-3)] w(4-7) by (simp add: recorded_walk_def)
qed


section \<open>Signals\<close>

lemma first_pass_live:
  "first_pass h ids pids = Inr live \<Longrightarrow> pid \<in> set live \<Longrightarrow>
   pid \<in> set pids \<and> map_of ids pid \<noteq> None \<and> map_of ids pid \<noteq> Some [] \<and> ho_Identity h FirstPass pid = map_of ids pid"
proof (induction pids arbitrary: live)
  case (Cons q pids)
  then show ?case
    by (cases "map_of ids q"; cases "ho_Identity h FirstPass q"; cases "first_pass h ids pids")
       (auto split: if_splits)
qed simp

lemma first_pass_all:
  assumes "first_pass h ids pids = Inr live" and "q \<in> set pids"
  shows "\<exists>want. map_of ids q = Some want \<and>
    (ho_Identity h FirstPass q = Some want \<or> ho_Identity h FirstPass q = None \<and> \<not> ho_Alive h q)"
  using assms
proof (induction pids arbitrary: live)
  case (Cons p pids)
  then show ?case
    by (cases "map_of ids p"; cases "ho_Identity h FirstPass p"; cases "first_pass h ids pids")
       (auto split: if_splits)
qed simp

text \<open>A process of the tree passed: it carried the identity of the walk, or it was gone.\<close>

definition passed :: "process_host \<Rightarrow> int \<Rightarrow> bool" where
  "passed h q \<longleftrightarrow>
     (case ho_Identity h FirstPass q of
        None \<Rightarrow> \<not> ho_Alive h q
      | Some got \<Rightarrow> ho_Identity h DuringWalk q = Some got)"

lemma reap_passes:
  assumes "inspectClaimedProcessTree h expected = Inr i"
    and "first_pass h (in_Identities i) (in_PIDs i) = Inr live"
  shows "list_all (passed h) (in_PIDs i)"
proof -
  obtain ps w where w: "w = walk h expected ps [ce_RootPID expected] [] (empty_walk (ce_RootPID expected))"
    "wk_Error w = None" "ce_RootPID expected \<in> hp_PID ` set ps" "in_Identities i = wk_Identities w"
    using inspect_Inr [OF assms(1)] by metis
  have walked: "ho_Identity h DuringWalk q = Some identity" if "map_of (in_Identities i) q = Some identity" for q identity
    using walk_is_tree [OF w(1-3)] map_of_SomeD [OF that] w(4) by (auto simp: recorded_walk_def list_all_iff)
  show ?thesis
    using first_pass_all [OF assms(2)] walked by (fastforce simp: list_all_iff passed_def)
qed



definition claimed_pair :: "host_process list" where
  "claimed_pair =
     [\<lparr> hp_PID = 11, hp_PPID = 10, hp_RSSKB = 1024, hp_CPUPercent = 0, hp_CPUAvailable = True \<rparr>,
      \<lparr> hp_PID = 10, hp_PPID = 1, hp_RSSKB = 2048, hp_CPUPercent = 1, hp_CPUAvailable = True \<rparr>,
      \<lparr> hp_PID = 20, hp_PPID = 1, hp_RSSKB = 2048, hp_CPUPercent = 90, hp_CPUAvailable = True \<rparr>]"

definition claimed_host :: process_host where
  "claimed_host =
     \<lparr> ho_Identity = (\<lambda>r pid. Some (if pid = 10 then ''a'' else ''b'')), ho_Inventory = Some claimed_pair,
       ho_Self = 20, ho_Alive = (\<lambda>pid. False), ho_Send = (\<lambda>pid. SignalSent), ho_SignalTime = 0,
       ho_Polls = [(\<lambda>pid. False, 1)] \<rparr>"

definition claimed_root :: ClaimedProcessExpectation where
  "claimed_root = \<lparr> ce_RootPID = 10, ce_ProcessIdentity = ''a'', ce_MaxCPUPercent = 5 \<rparr>"

lemma claimed_root_inspected:
  "map_sum id in_PIDs (inspectClaimedProcessTree claimed_host claimed_root) = Inr [10, 11]"
  by code_simp

lemma claimed_root_reaped: "snd (ReapClaimedProcessTree claimed_host claimed_root) = [11, 10]"
  by code_simp

theorem inspection_is_whole_tree_witness:
  "tree_pids claimed_pair 10 = {10, 11} \<and> ho_Self claimed_host \<notin> tree_pids claimed_pair 10"
proof -
  obtain i where i: "inspectClaimedProcessTree claimed_host claimed_root = Inr i" "in_PIDs i = [10, 11]"
    using claimed_root_inspected by (cases "inspectClaimedProcessTree claimed_host claimed_root") auto
  show ?thesis
    using inspection_is_whole_tree [OF i(1), of claimed_pair] i(2)
    by (auto simp: claimed_host_def claimed_root_def)
qed


end
