(* ===== verification/Resident_Monitor.thy ===== *)
theory Resident_Monitor
  imports Step_System Memory_Momentum Monitor_Stats Claimed_Process
begin

text \<open>
  The resident loop (\<open>Run\<close> of \<^verbatim>\<open>sessionpressure/monitor.go\<close>): what a start restores from the
  action ledger and the latest snapshot, and one iteration, from the sample to the latest
  projection, as four phases in the order of the code. Everything an iteration asks of the
  outside (the sample, the clock, the sizes of the day's files, whether a row could be
  written, the relief world and the cleanup extension) is a record of inputs. The disk-write
  goroutine has its own model and does not touch this state.
\<close>

section \<open>State\<close>

record resourceCleanupTelemetryState =
  ct_lastError :: string
  ct_lastEvent :: time
  ct_pendingErrorEvent :: bool
  ct_pendingRecoveryEvent :: bool
  ct_controlExecutedAt :: time
  ct_controlDurationMS :: rat
  ct_controlMaxRSSMB :: rat

definition quiet_cleanup :: resourceCleanupTelemetryState where
  "quiet_cleanup =
     \<lparr> ct_lastError = [], ct_lastEvent = 0, ct_pendingErrorEvent = False, ct_pendingRecoveryEvent = False,
       ct_controlExecutedAt = 0, ct_controlDurationMS = 0, ct_controlMaxRSSMB = 0 \<rparr>"

record resident_state =
  rt_LastLevel :: Level
  rt_Consecutive :: int
  rt_LastMemoryLevel :: Level
  rt_MemoryConsecutive :: int
  rt_SwapLatch :: swapThrashLatch
  rt_LastPersist :: time
  rt_LastTransitionPersist :: time
  rt_LastAttempt :: time
  rt_LastRevalidation :: time
  rt_Rejected :: "relief_key list"
  rt_Stats :: monitorStats
  rt_Streaks :: streaks
  rt_LastSampleStarted :: time
  rt_LastSampleError :: string
  rt_LastErrorPersist :: time
  rt_LastProcessCPUTotalMS :: rat
  rt_LastPrune :: time
  rt_LastStorageLevel :: Level
  rt_Cleanup :: resourceCleanupTelemetryState
  rt_MemoryHistory :: "memoryObservation list"

definition fresh_state :: resident_state where
  "fresh_state =
     \<lparr> rt_LastLevel = OtherLevel [], rt_Consecutive = 0, rt_LastMemoryLevel = OtherLevel [],
       rt_MemoryConsecutive = 0, rt_SwapLatch = zero_latch, rt_LastPersist = 0,
       rt_LastTransitionPersist = 0, rt_LastAttempt = 0, rt_LastRevalidation = 0, rt_Rejected = [],
       rt_Stats = empty_stats, rt_Streaks = [], rt_LastSampleStarted = 0, rt_LastSampleError = [],
       rt_LastErrorPersist = 0, rt_LastProcessCPUTotalMS = 0, rt_LastPrune = 0,
       rt_LastStorageLevel = LevelNormal, rt_Cleanup = quiet_cleanup, rt_MemoryHistory = [] \<rparr>"


section \<open>Start\<close>

definition resume_latest :: "Snapshot option \<Rightarrow> time \<Rightarrow> resident_state \<Rightarrow> resident_state" where
  "resume_latest latest now st =
     (case latest of
        None \<Rightarrow> st
      | Some s \<Rightarrow>
          let age = time_sub now (sn_Timestamp s) in
          st\<lparr> rt_LastStorageLevel := ss_Level (sn_Storage s),
              rt_SwapLatch := resume (rt_SwapLatch st) s now,
              rt_MemoryHistory :=
                (if seconds (-5) \<le> age \<and> age \<le> seconds 600
                 then [\<lparr> mo_Timestamp = sn_Timestamp s, mo_FreePercent = of_int (sn_FreePercent s) \<rparr>]
                 else []) \<rparr>)"

definition restore_action :: "Action \<Rightarrow> resident_state \<Rightarrow> resident_state" where
  "restore_action a st =
     (if ac_Result a = ''revalidation_rejected''
      then st\<lparr> rt_Rejected := reliefActionKey a # rt_Rejected st,
               rt_LastRevalidation := max (rt_LastRevalidation st) (ac_Timestamp a) \<rparr>
      else st\<lparr> rt_LastAttempt := max (rt_LastAttempt st) (ac_Timestamp a) \<rparr>)"

definition history_window :: "Policy \<Rightarrow> duration" where
  "history_window p = max (action_cooldown p) reliefRevalidationRetryInterval"

datatype start_error = PolicyRejected policy_error | PolicyDisabled | CooldownStateUnreadable ledger_error

definition resident_start ::
    "int \<Rightarrow> Policy \<Rightarrow> action_ledger \<Rightarrow> Snapshot option \<Rightarrow> time \<Rightarrow> start_error + resident_state" where
  "resident_start ncpu p ledger latest now =
     (case ValidatePolicy ncpu p of
        Some e \<Rightarrow> Inl (PolicyRejected e)
      | None \<Rightarrow>
          if \<not> po_Enabled p then Inl PolicyDisabled
          else case ReadActions ledger 1024 (now - history_window p) of
                 Inl e \<Rightarrow> Inl (CooldownStateUnreadable e)
               | Inr rows \<Rightarrow> Inr (fold restore_action rows (resume_latest latest now fresh_state)))"


section \<open>Inputs of an iteration\<close>

datatype append_site = ErrorRow | ThrashRow | EventRow | ActionRow | CleanupRow | LatestFile

datatype bytes_site =
    BeforeError | AfterError | BeforeThrash | AfterThrash | TodayBytes | BeforeEvent | AfterEvent
  | BeforeAction | AfterAction | BeforeCleanup | AfterCleanup | FinalBytes

record iteration_inputs =
  ii_Sample :: "string + resident_sample"
  ii_ProcessCPUTotalMS :: rat
  ii_Now :: time
  ii_ReliefNow :: time
  ii_PruneNow :: time
  ii_Bytes :: "bytes_site \<Rightarrow> int"
  ii_Appends :: "append_site \<Rightarrow> bool"
  ii_World :: relief_world
  ii_Cleaner :: "(resident_sample \<Rightarrow> ResourceCleanupResult \<times> string option) option"
  ii_NumCPU :: int

record iteration_output =
  io_Rows :: "(time \<times> string) list"
  io_Action :: "Action option"
  io_Signalled :: "int list"
  io_Pruned :: bool
  io_Momentum :: "(momentum_reading \<times> nat) option"
  io_Stopped :: bool

definition no_output :: iteration_output where
  "no_output = \<lparr> io_Rows = [], io_Action = None, io_Signalled = [], io_Pruned = False, io_Momentum = None,
                 io_Stopped = False \<rparr>"

definition upd_snapshot :: "(Snapshot \<Rightarrow> Snapshot) \<Rightarrow> resident_sample \<Rightarrow> resident_sample" where
  "upd_snapshot f s = s\<lparr> rs_Snapshot := f (rs_Snapshot s) \<rparr>"


section \<open>The phases\<close>

definition selectResidentTelemetryEvent :: "time \<Rightarrow> time \<Rightarrow> time \<Rightarrow> bool \<Rightarrow> int \<Rightarrow> Policy \<Rightarrow> string option" where
  "selectResidentTelemetryEvent now lastPersist lastTransitionPersist recovered consecutive p =
     (let heartbeatDue = (IsZero lastPersist \<or> seconds (HeartbeatSeconds p) \<le> time_sub now lastPersist);
          transitionDue = (IsZero lastTransitionPersist \<or> seconds 3600 \<le> time_sub now lastTransitionPersist)
      in if transitionDue \<and> recovered then Some ''sample_recovered''
         else if transitionDue \<and> consecutive = 1 then Some ''state_transition''
         else if heartbeatDue then Some ''heartbeat'' else None)"

text \<open>A failed sample: an error row when the message is new or the heartbeat is due.\<close>

definition failed_sample ::
    "Policy \<Rightarrow> iteration_inputs \<Rightarrow> string \<Rightarrow> resident_state \<Rightarrow> resident_state \<times> iteration_output" where
  "failed_sample p i message st =
     (let stats = (rt_Stats st)\<lparr> ms_sampleErrors := ms_sampleErrors (rt_Stats st) + 1 \<rparr>;
          due = (message \<noteq> rt_LastSampleError st \<or> IsZero (rt_LastErrorPersist st) \<or>
                 seconds (HeartbeatSeconds p) \<le> time_sub (ii_Now i) (rt_LastErrorPersist st));
          written = (due \<and> ii_Appends i ErrorRow);
          stats = (if written then recordEventBytes ''sample_error'' (ii_Bytes i AfterError - ii_Bytes i BeforeError) stats
                   else stats)
      in (st\<lparr> rt_Stats := stats, rt_LastSampleError := message,
              rt_LastErrorPersist := (if due then ii_Now i else rt_LastErrorPersist st) \<rparr>,
          no_output\<lparr> io_Rows := (if written then [(ii_Now i, ''sample_error'')] else []) \<rparr>))"

definition count_levels :: "Policy \<Rightarrow> Snapshot \<Rightarrow> resident_state \<Rightarrow> resident_state" where
  "count_levels p sn st =
     (let memory = sn_Level (EvaluateMemoryPressure sn p) in
      st\<lparr> rt_LastMemoryLevel := memory,
          rt_MemoryConsecutive := (if memory = rt_LastMemoryLevel st then rt_MemoryConsecutive st + 1 else 1),
          rt_LastLevel := sn_Level sn,
          rt_Consecutive := (if sn_Level sn = rt_LastLevel st then rt_Consecutive st + 1 else 1),
          rt_Rejected := (if sn_Level sn \<noteq> LevelCritical then [] else rt_Rejected st),
          rt_LastRevalidation := (if sn_Level sn \<noteq> LevelCritical then 0 else rt_LastRevalidation st) \<rparr>)"

definition observed_interval :: "Policy \<Rightarrow> Snapshot \<Rightarrow> resident_state \<Rightarrow> rat" where
  "observed_interval p sn st =
     (let elapsed = duration_seconds (time_sub (sn_Timestamp sn) (rt_LastSampleStarted st)) in
      if \<not> IsZero (rt_LastSampleStarted st) \<and> 0 < elapsed then elapsed
      else of_int (IntervalSeconds p (sn_Level sn)))"

definition interval_cpu :: "Snapshot \<Rightarrow> rat \<Rightarrow> resident_state \<Rightarrow> rat" where
  "interval_cpu sn cpuTotal st =
     (if 0 < cpuTotal \<and> 0 < rt_LastProcessCPUTotalMS st \<and> rt_LastProcessCPUTotalMS st \<le> cpuTotal
      then cpuTotal - rt_LastProcessCPUTotalMS st else sn_SampleCPUTimeMS sn)"

definition register_sample ::
    "Policy \<Rightarrow> iteration_inputs \<Rightarrow> resident_sample \<Rightarrow> resident_state \<Rightarrow>
     resident_sample \<times> (momentum_reading \<times> nat) option \<times> resident_state" where
  "register_sample p i s st =
     (let sn = rs_Snapshot s;
          storage = EvaluateStorage (sn_Storage sn) (po_Storage p) (rt_LastStorageLevel st);
          (trees, streak) = annotateQuiescence (sn_TopAgentTrees sn) p (rt_Streaks st);
          interval = observed_interval p sn st;
          (momentum, history) = annotateMemoryMomentum sn (rt_MemoryHistory st) (FreeRedPercent (po_Thresholds p));
          cpu = interval_cpu sn (ii_ProcessCPUTotalMS i) st;
          counted = count_levels p sn st;
          sn' = sn\<lparr> sn_Storage := storage, sn_TopAgentTrees := trees, sn_ObservedIntervalSeconds := interval,
                    sn_ConsecutiveSamples := rt_Consecutive counted,
                    sn_MemoryConsecutiveSamples := rt_MemoryConsecutive counted \<rparr>
      in (s\<lparr> rs_Snapshot := sn' \<rparr>, momentum,
          counted\<lparr> rt_LastStorageLevel := ss_Level storage, rt_Streaks := streak,
            rt_LastSampleError := [], rt_LastSampleStarted := sn_Timestamp sn,
            rt_MemoryHistory := history, rt_Stats := stats_add sn cpu interval (rt_Stats st),
            rt_LastProcessCPUTotalMS :=
              (if 0 < ii_ProcessCPUTotalMS i then ii_ProcessCPUTotalMS i else rt_LastProcessCPUTotalMS st) \<rparr>))"

definition evaluate_with_stats :: "Policy \<Rightarrow> int \<Rightarrow> monitorStats \<Rightarrow> resident_sample \<Rightarrow> resident_sample" where
  "evaluate_with_stats p bytes stats s =
     (let sn = (rs_Snapshot s)\<lparr> sn_TelemetryBytesToday := bytes \<rparr> in
      case stats_apply sn p stats of
        None \<Rightarrow> s\<lparr> rs_Snapshot := Evaluate sn p \<rparr>
      | Some (sn', proven, report) \<Rightarrow>
          s\<lparr> rs_Snapshot := Evaluate sn' p, rs_GuardBaselineProven := proven \<rparr>)"

text \<open>The thrash latch; a transition that cannot be written ends the run.\<close>

definition advance_thrash ::
    "Policy \<Rightarrow> iteration_inputs \<Rightarrow> resident_sample \<Rightarrow> resident_state \<Rightarrow>
     (resident_sample \<times> resident_state \<times> (time \<times> string) list) option" where
  "advance_thrash p i s st =
     (let (latch, sn, tr) = advance (ii_NumCPU i) (rt_SwapLatch st) (rs_Snapshot s) (po_Thresholds p) (po_WorkLimits p);
          s = s\<lparr> rs_Snapshot := sn \<rparr>; st = st\<lparr> rt_SwapLatch := latch \<rparr>
      in case tr of
           None \<Rightarrow> Some (s, st, [])
         | Some x \<Rightarrow>
             if \<not> ii_Appends i ThrashRow then None
             else Some (s, st\<lparr> rt_Stats := recordEventBytes ''swap_thrash_transition''
                                 (ii_Bytes i AfterThrash - ii_Bytes i BeforeThrash) (rt_Stats st) \<rparr>,
                        [(sn_Timestamp sn, ''swap_thrash_transition'')]))"

definition persist_event ::
    "Policy \<Rightarrow> iteration_inputs \<Rightarrow> bool \<Rightarrow> resident_state \<Rightarrow> (resident_state \<times> (time \<times> string) list) option" where
  "persist_event p i recovered st =
     (case selectResidentTelemetryEvent (ii_Now i) (rt_LastPersist st) (rt_LastTransitionPersist st) recovered
             (rt_Consecutive st) p of
        None \<Rightarrow> Some (st, [])
      | Some event \<Rightarrow>
          if \<not> ii_Appends i EventRow then None
          else Some (st\<lparr> rt_Stats := recordEventBytes event (ii_Bytes i AfterEvent - ii_Bytes i BeforeEvent) (rt_Stats st),
                         rt_LastPersist := ii_Now i,
                         rt_LastTransitionPersist :=
                           (if event = ''state_transition'' \<or> event = ''sample_recovered'' then ii_Now i
                            else rt_LastTransitionPersist st) \<rparr>,
                     [(ii_Now i, event)]))"

text \<open>Relief; the second component is the row with the signalled processes.\<close>

definition note_action :: "iteration_inputs \<Rightarrow> Action \<Rightarrow> resident_state \<Rightarrow> resident_state" where
  "note_action i a st =
     (let st = st\<lparr> rt_Stats := recordActionBytes (ii_Bytes i AfterAction - ii_Bytes i BeforeAction) (rt_Stats st) \<rparr>
      in if ac_Result a = ''revalidation_rejected''
         then st\<lparr> rt_Rejected := reliefActionKey a # rt_Rejected st, rt_LastRevalidation := ac_Timestamp a \<rparr>
         else st\<lparr> rt_LastAttempt := ac_Timestamp a \<rparr>)"

definition relief_of ::
    "Policy \<Rightarrow> iteration_inputs \<Rightarrow> resident_sample \<Rightarrow> resident_state \<Rightarrow> (Action \<times> int list) option" where
  "relief_of p i s st =
     maybeRelieveExcluding (ii_World i) s p (ii_ReliefNow i) (rt_LastAttempt st) (rt_LastRevalidation st)
       (rt_Rejected st)"

definition resourceCleanupTelemetryMinInterval :: duration where
  "resourceCleanupTelemetryMinInterval = seconds 300"

definition event_due :: "resourceCleanupTelemetryState \<Rightarrow> time \<Rightarrow> bool" where
  "event_due c now \<longleftrightarrow>
     IsZero (ct_lastEvent c) \<or> resourceCleanupTelemetryMinInterval \<le> time_sub now (ct_lastEvent c)"

definition note_control :: "ResourceCleanupResult \<Rightarrow> time \<Rightarrow> resourceCleanupTelemetryState \<Rightarrow> resourceCleanupTelemetryState" where
  "note_control r now c =
     (if rc_ControlExecuted r
      then c\<lparr> ct_controlExecutedAt := now, ct_controlDurationMS := rc_ControlDurationMS r,
              ct_controlMaxRSSMB := rc_ControlMaxRSSMB r \<rparr>
      else c)"

text \<open>The row of a change that is pending, at most one per five minutes.\<close>

definition cleanup_event ::
    "iteration_inputs \<Rightarrow> string \<Rightarrow> time \<Rightarrow> bool \<Rightarrow>
     (resourceCleanupTelemetryState \<Rightarrow> resourceCleanupTelemetryState) \<Rightarrow> resident_state \<Rightarrow>
     resident_state \<times> (time \<times> string) list" where
  "cleanup_event i event now pending settle st =
     (if pending \<and> event_due (rt_Cleanup st) now \<and> ii_Appends i CleanupRow
      then (st\<lparr> rt_Cleanup := (settle (rt_Cleanup st))\<lparr> ct_lastEvent := now \<rparr>,
                rt_Stats := recordEventBytes event (ii_Bytes i AfterCleanup - ii_Bytes i BeforeCleanup) (rt_Stats st) \<rparr>,
            [(now, event)])
      else (st, []))"

definition durableTextLimit :: nat where "durableTextLimit = 512"

definition failure_pending :: "string \<Rightarrow> resourceCleanupTelemetryState \<Rightarrow> resourceCleanupTelemetryState" where
  "failure_pending message c =
     (let c = (if message \<noteq> ct_lastError c
               then c\<lparr> ct_pendingErrorEvent := True, ct_pendingRecoveryEvent := False \<rparr> else c)
      in c\<lparr> ct_lastError := message \<rparr>)"

definition cleanup_failed :: "string \<Rightarrow> resident_state \<Rightarrow> resident_state" where
  "cleanup_failed text st =
     st\<lparr> rt_Stats := (rt_Stats st)\<lparr> ms_resourceCleanupFailures := ms_resourceCleanupFailures (rt_Stats st) + 1 \<rparr>,
         rt_Cleanup := failure_pending (boundedText text durableTextLimit) (rt_Cleanup st) \<rparr>"

definition cleanup_recovered :: "resident_state \<Rightarrow> resident_state" where
  "cleanup_recovered st =
     (let c = rt_Cleanup st in
      st\<lparr> rt_Cleanup :=
           c\<lparr> ct_pendingRecoveryEvent :=
                (if ct_lastError c \<noteq> [] then \<not> ct_pendingErrorEvent c else ct_pendingRecoveryEvent c),
              ct_pendingErrorEvent := (ct_lastError c = [] \<and> ct_pendingErrorEvent c),
              ct_lastError := [] \<rparr> \<rparr>)"

definition runResourceCleanup ::
    "iteration_inputs \<Rightarrow> resident_sample \<Rightarrow> bool \<Rightarrow> resident_state \<Rightarrow> resident_state \<times> (time \<times> string) list" where
  "runResourceCleanup i s allowed st =
     (case ii_Cleaner i of
        None \<Rightarrow> (st, [])
      | Some clean \<Rightarrow>
          if \<not> allowed then (st, [])
          else let now = sn_Timestamp (rs_Snapshot s); (r, failure) = clean s;
                   st = st\<lparr> rt_Cleanup := note_control r now (rt_Cleanup st) \<rparr>
               in case failure of
                    Some text \<Rightarrow>
                      let st = cleanup_failed text st in
                      cleanup_event i ''resource_cleanup_error'' now (ct_pendingErrorEvent (rt_Cleanup st))
                        (\<lambda>c. c\<lparr> ct_pendingErrorEvent := False \<rparr>) st
                  | None \<Rightarrow>
                      let st = cleanup_recovered st in
                      cleanup_event i ''resource_cleanup_recovered'' now (ct_pendingRecoveryEvent (rt_Cleanup st))
                        (\<lambda>c. c\<lparr> ct_pendingRecoveryEvent := False \<rparr>) st)"

definition telemetryPruneInterval :: duration where "telemetryPruneInterval = seconds 21600"

definition housekeeping :: "iteration_inputs \<Rightarrow> resident_state \<Rightarrow> resident_state \<times> bool" where
  "housekeeping i st =
     (let now = ii_PruneNow i in
      if IsZero (rt_LastPrune st) \<or> telemetryPruneInterval \<le> time_sub now (rt_LastPrune st) \<or> now < rt_LastPrune st
      then (st\<lparr> rt_LastPrune := now \<rparr>, True) else (st, False))"

definition stopped :: "iteration_output \<Rightarrow> iteration_output" where
  "stopped out = out\<lparr> io_Stopped := True \<rparr>"

text \<open>The part of an iteration from relief on.\<close>

definition act_and_publish ::
    "Policy \<Rightarrow> iteration_inputs \<Rightarrow> resident_sample \<Rightarrow> iteration_output \<Rightarrow> resident_state \<Rightarrow>
     resident_state \<times> iteration_output" where
  "act_and_publish p i s out st =
     (let relief = relief_of p i s st;
          out = out\<lparr> io_Action := map_option fst relief,
                     io_Signalled := (case relief of None \<Rightarrow> [] | Some r \<Rightarrow> snd r) \<rparr>
      in if relief \<noteq> None \<and> \<not> ii_Appends i ActionRow then (st, stopped out)
         else let st = (case relief of None \<Rightarrow> st | Some r \<Rightarrow> note_action i (fst r) st);
                  (st, rows) = runResourceCleanup i s (relief = None) st;
                  out = out\<lparr> io_Rows := io_Rows out @ rows \<rparr>;
                  final = evaluate_with_stats p (ii_Bytes i FinalBytes) (rt_Stats st) s
              in if rs_GuardRole final = ''resident'' \<and> \<not> ii_Appends i LatestFile then (st, stopped out)
                 else let (st, pruned) = housekeeping i st in (st, out\<lparr> io_Pruned := pruned \<rparr>))"

definition monitor_step ::
    "Policy \<Rightarrow> iteration_inputs \<Rightarrow> resident_state \<Rightarrow> resident_state \<times> iteration_output" where
  "monitor_step p i st =
     (case ii_Sample i of
        Inl message \<Rightarrow> failed_sample p i message st
      | Inr sample \<Rightarrow>
          let recovered = (rt_LastSampleError st \<noteq> []);
              (s, momentum, st) = register_sample p i sample st;
              out = no_output\<lparr> io_Momentum := momentum \<rparr>
          in case advance_thrash p i s st of
               None \<Rightarrow> (st, stopped out)
             | Some (s, st, rows) \<Rightarrow>
                 let s = evaluate_with_stats p (ii_Bytes i TodayBytes) (rt_Stats st) s;
                     out = out\<lparr> io_Rows := rows \<rparr>
                 in case persist_event p i recovered st of
                      None \<Rightarrow> (st, stopped out)
                    | Some (st, rows) \<Rightarrow>
                        act_and_publish p i s (out\<lparr> io_Rows := io_Rows out @ rows \<rparr>) st)"

definition monitor_run :: "Policy \<Rightarrow> iteration_inputs list \<Rightarrow> resident_state \<Rightarrow> iteration_output list" where
  "monitor_run p = output_run (monitor_step p) io_Stopped"


section \<open>What each phase leaves alone\<close>

lemma observe_keeps [frame_simps]:
  "rt_LastTransitionPersist (snd (snd (register_sample p i s st))) = rt_LastTransitionPersist st"
  "rt_LastAttempt (snd (snd (register_sample p i s st))) = rt_LastAttempt st"
  "rt_Cleanup (snd (snd (register_sample p i s st))) = rt_Cleanup st"
  by (simp_all add: register_sample_def Let_def case_prod_beta count_levels_def)

lemma advance_thrash_keeps:
  assumes "advance_thrash p i s st = Some (s', st', rows)"
  shows "rt_LastTransitionPersist st' = rt_LastTransitionPersist st \<and> rt_LastAttempt st' = rt_LastAttempt st \<and>
         rt_Cleanup st' = rt_Cleanup st \<and> snd ` set rows \<subseteq> {''swap_thrash_transition''}"
  using assms by (auto simp: advance_thrash_def Let_def case_prod_beta split: option.splits if_splits)

definition transition_row_events :: "string set" where
  "transition_row_events = {''state_transition'', ''sample_recovered''}"

definition cleanup_events :: "string set" where
  "cleanup_events = {''resource_cleanup_error'', ''resource_cleanup_recovered''}"

lemma selected_event:
  assumes "selectResidentTelemetryEvent now lastPersist lastTransition recovered consecutive p = Some event"
  shows "event = ''heartbeat'' \<or>
         event \<in> transition_row_events \<and> (IsZero lastTransition \<or> seconds 3600 \<le> time_sub now lastTransition)"
  using assms by (simp add: selectResidentTelemetryEvent_def transition_row_events_def Let_def split: if_splits)

lemma persist_event_keeps:
  assumes "persist_event p i recovered st = Some (st', rows)"
  shows "rt_LastAttempt st' = rt_LastAttempt st" and "rt_Cleanup st' = rt_Cleanup st"
    and "rows = [] \<and> rt_LastTransitionPersist st' = rt_LastTransitionPersist st \<or>
         rows = [(ii_Now i, ''heartbeat'')] \<and> rt_LastTransitionPersist st' = rt_LastTransitionPersist st \<or>
         (\<exists>event \<in> transition_row_events. rows = [(ii_Now i, event)] \<and> rt_LastTransitionPersist st' = ii_Now i \<and>
            (IsZero (rt_LastTransitionPersist st) \<or>
             seconds 3600 \<le> time_sub (ii_Now i) (rt_LastTransitionPersist st)))"
proof -
  let ?e = "selectResidentTelemetryEvent (ii_Now i) (rt_LastPersist st) (rt_LastTransitionPersist st) recovered
              (rt_Consecutive st) p"
  have keep: "rt_LastAttempt st' = rt_LastAttempt st \<and> rt_Cleanup st' = rt_Cleanup st"
    using assms by (cases ?e) (auto simp: persist_event_def split: if_splits)
  then show "rt_LastAttempt st' = rt_LastAttempt st" and "rt_Cleanup st' = rt_Cleanup st" by simp_all
  show "rows = [] \<and> rt_LastTransitionPersist st' = rt_LastTransitionPersist st \<or>
         rows = [(ii_Now i, ''heartbeat'')] \<and> rt_LastTransitionPersist st' = rt_LastTransitionPersist st \<or>
         (\<exists>event \<in> transition_row_events. rows = [(ii_Now i, event)] \<and> rt_LastTransitionPersist st' = ii_Now i \<and>
            (IsZero (rt_LastTransitionPersist st) \<or>
             seconds 3600 \<le> time_sub (ii_Now i) (rt_LastTransitionPersist st)))"
  proof (cases ?e)
    case None
    then show ?thesis using assms by (simp add: persist_event_def)
  next
    case (Some event)
    then have rows: "rows = [(ii_Now i, event)]"
      and mark: "rt_LastTransitionPersist st' =
        (if event \<in> transition_row_events then ii_Now i else rt_LastTransitionPersist st)"
      using assms by (auto simp: persist_event_def transition_row_events_def split: if_splits)
    have "''heartbeat'' \<notin> transition_row_events" by (simp add: transition_row_events_def)
    then show ?thesis using selected_event [OF Some] rows mark by auto
  qed
qed

lemma cleanup_event_keeps [frame_simps]:
  "rt_LastTransitionPersist (fst (cleanup_event i e now b f st)) = rt_LastTransitionPersist st"
  "rt_LastAttempt (fst (cleanup_event i e now b f st)) = rt_LastAttempt st"
  by (simp_all add: cleanup_event_def)

lemma failure_pending_keeps [frame_simps]: "ct_lastEvent (failure_pending message c) = ct_lastEvent c"
  by (simp add: failure_pending_def Let_def)

lemma cleanup_failed_keeps [frame_simps]:
  "rt_LastTransitionPersist (cleanup_failed text st) = rt_LastTransitionPersist st"
  "rt_LastAttempt (cleanup_failed text st) = rt_LastAttempt st"
  "ct_lastEvent (rt_Cleanup (cleanup_failed text st)) = ct_lastEvent (rt_Cleanup st)"
  by (simp_all add: cleanup_failed_def frame_simps)

lemma cleanup_recovered_keeps [frame_simps]:
  "rt_LastTransitionPersist (cleanup_recovered st) = rt_LastTransitionPersist st"
  "rt_LastAttempt (cleanup_recovered st) = rt_LastAttempt st"
  "ct_lastEvent (rt_Cleanup (cleanup_recovered st)) = ct_lastEvent (rt_Cleanup st)"
  by (simp_all add: cleanup_recovered_def Let_def)

lemma note_control_keeps [frame_simps]: "ct_lastEvent (note_control r now c) = ct_lastEvent c"
  by (simp add: note_control_def)

lemma runResourceCleanup_keeps [frame_simps]:
  "rt_LastTransitionPersist (fst (runResourceCleanup i s allowed st)) = rt_LastTransitionPersist st"
  "rt_LastAttempt (fst (runResourceCleanup i s allowed st)) = rt_LastAttempt st"
  by (simp_all add: runResourceCleanup_def Let_def case_prod_beta frame_simps split: option.split)

lemma note_action_keeps [frame_simps]:
  "rt_LastTransitionPersist (note_action i a st) = rt_LastTransitionPersist st"
  "rt_Cleanup (note_action i a st) = rt_Cleanup st"
  "rt_LastAttempt (note_action i a st) =
     (if ac_Result a = ''revalidation_rejected'' then rt_LastAttempt st else ac_Timestamp a)"
  by (simp_all add: note_action_def Let_def)

lemma housekeeping_keeps [frame_simps]:
  "rt_LastTransitionPersist (fst (housekeeping i st)) = rt_LastTransitionPersist st"
  "rt_Cleanup (fst (housekeeping i st)) = rt_Cleanup st"
  "rt_LastAttempt (fst (housekeeping i st)) = rt_LastAttempt st"
  by (simp_all add: housekeeping_def Let_def)

lemma failed_sample_keeps [frame_simps]:
  "rt_LastTransitionPersist (fst (failed_sample p i m st)) = rt_LastTransitionPersist st"
  "rt_Cleanup (fst (failed_sample p i m st)) = rt_Cleanup st"
  "rt_LastAttempt (fst (failed_sample p i m st)) = rt_LastAttempt st"
  "io_Action (snd (failed_sample p i m st)) = None"
  by (simp_all add: failed_sample_def Let_def no_output_def)

lemma failed_sample_rows: "snd ` set (io_Rows (snd (failed_sample p i m st))) \<subseteq> {''sample_error''}"
  by (auto simp: failed_sample_def Let_def no_output_def)

lemma Evaluate_keeps_time [frame_simps]: "sn_Timestamp (Evaluate sn p) = sn_Timestamp sn"
  by (simp add: Evaluate_def evaluate_def Let_def)

lemma stats_apply_keeps_time:
  "map_option (\<lambda>x. sn_Timestamp (fst x)) (stats_apply sn p stats) =
   (if ms_Rows stats = [] then None else Some (sn_Timestamp sn))"
  by (simp add: stats_apply_def Let_def case_prod_beta)

lemma evaluate_keeps_time [frame_simps]:
  "sn_Timestamp (rs_Snapshot (evaluate_with_stats p bytes stats s)) = sn_Timestamp (rs_Snapshot s)"
proof (cases "stats_apply ((rs_Snapshot s)\<lparr> sn_TelemetryBytesToday := bytes \<rparr>) p stats")
  case (Some x)
  then show ?thesis
    using stats_apply_keeps_time [of "(rs_Snapshot s)\<lparr> sn_TelemetryBytesToday := bytes \<rparr>" p stats]
    by (cases x) (simp add: evaluate_with_stats_def Let_def frame_simps split: if_splits)
qed (simp add: evaluate_with_stats_def Let_def frame_simps)

lemma observe_keeps_time [frame_simps]:
  "sn_Timestamp (rs_Snapshot (fst (register_sample p i s st))) = sn_Timestamp (rs_Snapshot s)"
  by (simp add: register_sample_def Let_def case_prod_beta)

lemma advance_keeps_time: "sn_Timestamp (fst (snd (advance n l s t w))) = sn_Timestamp s"
  by (simp add: advance_eq Let_def observe_snapshot enter_episode_def continue_episode_def
      release_episode_def case_prod_beta attribute_publishes)

lemma advance_thrash_keeps_time:
  "advance_thrash p i s st = Some (s', st', rows) \<Longrightarrow> sn_Timestamp (rs_Snapshot s') = sn_Timestamp (rs_Snapshot s)"
  using advance_keeps_time
  by (auto simp: advance_thrash_def Let_def case_prod_beta split: option.splits if_splits)


section \<open>Pacing\<close>

definition times_of :: "string set \<Rightarrow> iteration_output \<Rightarrow> time list" where
  "times_of events out = map fst (filter (\<lambda>r. snd r \<in> events) (io_Rows out))"

definition is_attempt :: "Action \<Rightarrow> bool" where
  "is_attempt a \<longleftrightarrow> ac_Result a \<noteq> ''revalidation_rejected''"

definition attempt_times :: "iteration_output \<Rightarrow> time list" where
  "attempt_times out =
     (case io_Action out of None \<Rightarrow> [] | Some a \<Rightarrow> if is_attempt a then [ac_Timestamp a] else [])"

text \<open>An iteration that got past its event row.\<close>

lemma monitor_step_cases:
  assumes "monitor_step p i st = (t, out)"
  obtains (failed) message where "ii_Sample i = Inl message" "(t, out) = failed_sample p i message st"
  | (thrash) sample where "ii_Sample i = Inr sample" "io_Rows out = []" "io_Action out = None" "io_Stopped out"
      "t = snd (snd (register_sample p i sample st))"
  | (event) sample s1 st1 rows where "ii_Sample i = Inr sample"
      "advance_thrash p i (fst (register_sample p i sample st)) (snd (snd (register_sample p i sample st))) = Some (s1, st1, rows)"
      "io_Rows out = rows" "io_Action out = None" "io_Stopped out" "t = st1"
  | (acted) sample s1 st1 rows st2 rows2 s2 out1 where "ii_Sample i = Inr sample"
      "advance_thrash p i (fst (register_sample p i sample st)) (snd (snd (register_sample p i sample st))) = Some (s1, st1, rows)"
      "s2 = evaluate_with_stats p (ii_Bytes i TodayBytes) (rt_Stats st1) s1"
      "persist_event p i (rt_LastSampleError st \<noteq> []) st1 = Some (st2, rows2)"
      "io_Rows out1 = rows @ rows2" "(t, out) = act_and_publish p i s2 out1 st2"
proof (cases "ii_Sample i")
  case (Inl message)
  then show ?thesis using assms failed by (simp add: monitor_step_def)
next
  case (Inr sample)
  obtain s0 momentum st0 where o: "register_sample p i sample st = (s0, momentum, st0)"
    by (cases "register_sample p i sample st") auto
  show ?thesis
  proof (cases "advance_thrash p i s0 st0")
    case None
    then show ?thesis
      using assms Inr o by (intro thrash [of sample]) (auto simp: monitor_step_def Let_def stopped_def no_output_def)
  next
    case (Some x)
    obtain s1 st1 rows where x: "x = (s1, st1, rows)" by (cases x) auto
    show ?thesis
    proof (cases "persist_event p i (rt_LastSampleError st \<noteq> []) st1")
      case None
      then show ?thesis
        using assms Inr o Some x
        by (intro event [of sample s1 st1 rows]) (auto simp: monitor_step_def Let_def stopped_def no_output_def)
    next
      case (Some y)
      obtain st2 rows2 where y: "y = (st2, rows2)" by (cases y)
      show ?thesis
        using assms Inr o Some y x \<open>advance_thrash p i s0 st0 = Some x\<close>
        by (intro acted [of sample s1 st1 rows "evaluate_with_stats p (ii_Bytes i TodayBytes) (rt_Stats st1) s1" st2 rows2
              "no_output\<lparr> io_Momentum := momentum, io_Rows := rows @ rows2 \<rparr>"])
           (simp_all add: monitor_step_def Let_def)
    qed
  qed
qed

lemma act_and_publish_keeps:
  "rt_LastTransitionPersist (fst (act_and_publish p i s out st)) = rt_LastTransitionPersist st"
  by (simp add: act_and_publish_def Let_def case_prod_beta frame_simps split: option.split)

lemma runResourceCleanup_rows:
  assumes "runResourceCleanup i s allowed st = (t, rows)"
  shows "rows = [] \<and> ct_lastEvent (rt_Cleanup t) = ct_lastEvent (rt_Cleanup st) \<or>
         (\<exists>event \<in> cleanup_events. rows = [(sn_Timestamp (rs_Snapshot s), event)] \<and>
            ct_lastEvent (rt_Cleanup t) = sn_Timestamp (rs_Snapshot s) \<and>
            event_due (rt_Cleanup st) (sn_Timestamp (rs_Snapshot s)))"
proof -
  let ?now = "sn_Timestamp (rs_Snapshot s)"
  have event: ?thesis
    if "cleanup_event i e ?now b f u = (t, rows)" "e \<in> cleanup_events"
      "ct_lastEvent (rt_Cleanup u) = ct_lastEvent (rt_Cleanup st)" for e b f u
    using that by (auto simp: cleanup_event_def event_due_def split: if_splits)
  show ?thesis
  proof (cases "ii_Cleaner i")
    case (Some clean)
    let ?u = "st\<lparr> rt_Cleanup := note_control (fst (clean s)) (sn_Timestamp (rs_Snapshot s)) (rt_Cleanup st) \<rparr>"
    have u: "ct_lastEvent (rt_Cleanup ?u) = ct_lastEvent (rt_Cleanup st)" by (simp add: frame_simps)
    have events: "''resource_cleanup_error'' \<in> cleanup_events" "''resource_cleanup_recovered'' \<in> cleanup_events"
      by (simp_all add: cleanup_events_def)
    show ?thesis
    proof (cases "allowed")
      case True
      show ?thesis
      proof (cases "snd (clean s)")
        case None
        then have run: "cleanup_event i ''resource_cleanup_recovered'' (sn_Timestamp (rs_Snapshot s))
            (ct_pendingRecoveryEvent (rt_Cleanup (cleanup_recovered ?u)))
            (\<lambda>c. c\<lparr> ct_pendingRecoveryEvent := False \<rparr>) (cleanup_recovered ?u) = (t, rows)"
          using assms Some True by (simp add: runResourceCleanup_def Let_def case_prod_beta)
        show ?thesis by (rule event [OF run events(2)]) (simp only: cleanup_recovered_keeps u)
      next
        case (Some message)
        then have run: "cleanup_event i ''resource_cleanup_error'' (sn_Timestamp (rs_Snapshot s))
            (ct_pendingErrorEvent (rt_Cleanup (cleanup_failed message ?u)))
            (\<lambda>c. c\<lparr> ct_pendingErrorEvent := False \<rparr>) (cleanup_failed message ?u) = (t, rows)"
          using assms \<open>ii_Cleaner i = Some clean\<close> True by (simp add: runResourceCleanup_def Let_def case_prod_beta)
        show ?thesis by (rule event [OF run events(1)]) (simp only: cleanup_failed_keeps u)
      qed
    qed (use assms Some in \<open>simp add: runResourceCleanup_def\<close>)
  qed (use assms in \<open>simp add: runResourceCleanup_def\<close>)
qed

lemma act_and_publish_rows:
  assumes "act_and_publish p i s out st = (t, out')"
  obtains (unrecorded) "io_Rows out' = io_Rows out" "rt_Cleanup t = rt_Cleanup st" "io_Stopped out'"
  | (cleaned) st1 st2 rows allowed where "rt_Cleanup st1 = rt_Cleanup st"
      "runResourceCleanup i s allowed st1 = (st2, rows)"
      "io_Rows out' = io_Rows out @ rows" "rt_Cleanup t = rt_Cleanup st2"
proof (cases "relief_of p i s st \<noteq> None \<and> \<not> ii_Appends i ActionRow")
  case True
  then show ?thesis
    using assms by (intro unrecorded) (auto simp: act_and_publish_def Let_def stopped_def)
next
  case False
  let ?st1 = "case relief_of p i s st of None \<Rightarrow> st | Some r \<Rightarrow> note_action i (fst r) st"
  have st1: "rt_Cleanup ?st1 = rt_Cleanup st" by (simp add: frame_simps split: option.split)
  obtain st2 rows where run: "runResourceCleanup i s (relief_of p i s st = None) ?st1 = (st2, rows)"
    by (cases "runResourceCleanup i s (relief_of p i s st = None) ?st1")
  show ?thesis
    using assms False run housekeeping_keeps(2) [of i st2]
    by (intro cleaned [OF st1 run]) (auto simp: act_and_publish_def Let_def case_prod_beta stopped_def split: if_splits)
qed

lemma act_and_publish_attempt:
  assumes "act_and_publish p i s out st = (t, out')"
  shows "case relief_of p i s st of
           None \<Rightarrow> io_Action out' = None \<and> rt_LastAttempt t = rt_LastAttempt st
         | Some (a, sent) \<Rightarrow> io_Action out' = Some a \<and>
             (io_Stopped out' \<and> t = st \<or>
              rt_LastAttempt t = (if is_attempt a then ac_Timestamp a else rt_LastAttempt st))"
proof -
  have keep: "rt_LastAttempt (fst (act_and_publish p i s out st)) =
      (case relief_of p i s st of None \<Rightarrow> rt_LastAttempt st
       | Some r \<Rightarrow> if \<not> ii_Appends i ActionRow \<or> \<not> is_attempt (fst r) then rt_LastAttempt st else ac_Timestamp (fst r))"
    by (simp add: act_and_publish_def Let_def case_prod_beta frame_simps is_attempt_def split: option.split)
  have act: "io_Action (snd (act_and_publish p i s out st)) = map_option fst (relief_of p i s st)"
    by (simp add: act_and_publish_def Let_def case_prod_beta stopped_def)
  have stop: "relief_of p i s st \<noteq> None \<and> \<not> ii_Appends i ActionRow \<Longrightarrow> io_Stopped out' \<and> t = st"
    using assms by (auto simp: act_and_publish_def Let_def stopped_def)
  have t: "t = fst (act_and_publish p i s out st)" and out: "out' = snd (act_and_publish p i s out st)"
    using assms by simp_all
  show ?thesis
  proof (cases "relief_of p i s st")
    case None
    then show ?thesis using keep act t out by simp
  next
    case (Some r)
    then show ?thesis using keep act stop t out by (cases r; cases "ii_Appends i ActionRow") simp_all
  qed
qed

lemma times_of_other [simp]:
  "snd ` set (io_Rows out) \<inter> events = {} \<Longrightarrow> times_of events out = []"
  by (force simp: times_of_def filter_empty_conv)

lemma event_kinds:
  "''sample_error'' \<notin> transition_row_events" "''swap_thrash_transition'' \<notin> transition_row_events"
  "''heartbeat'' \<notin> transition_row_events" "transition_row_events \<inter> cleanup_events = {}"
  "''sample_error'' \<notin> cleanup_events" "''swap_thrash_transition'' \<notin> cleanup_events"
  "''heartbeat'' \<notin> cleanup_events"
  by (simp_all add: transition_row_events_def cleanup_events_def)

lemma filter_kind:
  "snd ` set rows \<inter> events = {} \<Longrightarrow> filter (\<lambda>r. snd r \<in> events) rows = []"
  by (force simp: filter_empty_conv)

text \<open>Transition rows.\<close>

lemma transition_rows_step:
  assumes "\<not> IsZero (ii_Now i)" and "monitor_step p i st = (t, out)"
  shows "times_of transition_row_events out = [] \<and> rt_LastTransitionPersist t = rt_LastTransitionPersist st \<or>
    (\<exists>now. times_of transition_row_events out = [now] \<and>
       (IsZero (rt_LastTransitionPersist st) \<or> seconds 3600 \<le> time_sub now (rt_LastTransitionPersist st)) \<and>
       (io_Stopped out \<or> now \<le> rt_LastTransitionPersist t \<and> \<not> IsZero (rt_LastTransitionPersist t)))"
  using assms(2)
proof (cases rule: monitor_step_cases)
  case (failed message)
  then have "t = fst (failed_sample p i message st)" "out = snd (failed_sample p i message st)" by (metis fst_conv snd_conv)+
  then show ?thesis
    using times_of_other [of out transition_row_events] failed_sample_rows [of p i message st] event_kinds(1)
    by (fastforce simp: frame_simps)
next
  case (thrash sample)
  then show ?thesis by (simp add: frame_simps times_of_def)
next
  case (event sample s1 st1 rows)
  note k = advance_thrash_keeps [OF event(2)]
  then show ?thesis
    using event times_of_other [of out transition_row_events] event_kinds(2) by (fastforce simp: frame_simps)
next
  case (acted sample s1 st1 rows st2 rows2 s2 out1)
  note k = advance_thrash_keeps [OF acted(2)] and pe = persist_event_keeps(3) [OF acted(4)]
  have mark: "rt_LastTransitionPersist st1 = rt_LastTransitionPersist st" using k by (simp add: frame_simps)
  have t: "rt_LastTransitionPersist t = rt_LastTransitionPersist st2"
    using act_and_publish_keeps [of p i s2 out1 st2] acted(6) by (metis fst_conv)
  have "times_of transition_row_events out = times_of transition_row_events out1"
    using acted(6) [symmetric]
  proof (cases rule: act_and_publish_rows)
    case unrecorded
    then show ?thesis by (simp add: times_of_def)
  next
    case (cleaned u1 u2 more allowed)
    have "snd ` set more \<inter> transition_row_events = {}"
      using runResourceCleanup_rows [OF cleaned(2)] event_kinds(4) by auto
    then show ?thesis using cleaned(3) by (simp add: times_of_def filter_kind)
  qed
  also have "\<dots> = map fst (filter (\<lambda>r. snd r \<in> transition_row_events) rows2)"
    using k event_kinds(2) acted(5) filter_kind [of rows transition_row_events]
    by (fastforce simp: times_of_def)
  finally show ?thesis
    using pe mark t assms(1) event_kinds(3) by auto
qed

interpretation transition_rows: paced_steps "monitor_step p" io_Stopped "\<lambda>i. \<not> IsZero (ii_Now i)"
    rt_LastTransitionPersist "times_of transition_row_events" "seconds 3600" for p
  by unfold_locales (rule transition_rows_step)

text \<open>Rows of the cleanup extension.\<close>

definition sample_clock_ok :: "iteration_inputs \<Rightarrow> bool" where
  "sample_clock_ok i = (case ii_Sample i of Inl m \<Rightarrow> True | Inr s \<Rightarrow> \<not> IsZero (sn_Timestamp (rs_Snapshot s)))"

lemma cleanup_rows_step:
  assumes "sample_clock_ok i" and "monitor_step p i st = (t, out)"
  shows "times_of cleanup_events out = [] \<and> ct_lastEvent (rt_Cleanup t) = ct_lastEvent (rt_Cleanup st) \<or>
    (\<exists>now. times_of cleanup_events out = [now] \<and>
       (IsZero (ct_lastEvent (rt_Cleanup st)) \<or>
        resourceCleanupTelemetryMinInterval \<le> time_sub now (ct_lastEvent (rt_Cleanup st))) \<and>
       (io_Stopped out \<or> now \<le> ct_lastEvent (rt_Cleanup t) \<and> \<not> IsZero (ct_lastEvent (rt_Cleanup t))))"
  using assms(2)
proof (cases rule: monitor_step_cases)
  case (failed message)
  then have "t = fst (failed_sample p i message st)" "out = snd (failed_sample p i message st)" by (metis fst_conv snd_conv)+
  then show ?thesis
    using times_of_other [of out cleanup_events] failed_sample_rows [of p i message st] event_kinds(5)
    by (fastforce simp: frame_simps)
next
  case (thrash sample)
  then show ?thesis by (simp add: frame_simps times_of_def)
next
  case (event sample s1 st1 rows)
  note k = advance_thrash_keeps [OF event(2)]
  then show ?thesis
    using event times_of_other [of out cleanup_events] event_kinds(6) by (fastforce simp: frame_simps)
next
  case (acted sample s1 st1 rows st2 rows2 s2 out1)
  note k = advance_thrash_keeps [OF acted(2)] and pe = persist_event_keeps(3) [OF acted(4)]
  have mark: "rt_Cleanup st2 = rt_Cleanup st"
    using k persist_event_keeps(2) [OF acted(4)] by (simp add: frame_simps)
  have now: "\<not> IsZero (sn_Timestamp (rs_Snapshot s2))"
    using assms(1) acted(1,3) advance_thrash_keeps_time [OF acted(2)]
    by (simp add: sample_clock_ok_def frame_simps)
  have out1: "filter (\<lambda>r. snd r \<in> cleanup_events) (io_Rows out1) = []"
  proof -
    have "snd ` set rows2 \<inter> cleanup_events = {}"
      using pe event_kinds(4,7) by auto
    moreover have "snd ` set rows \<inter> cleanup_events = {}" using k event_kinds(6) by auto
    ultimately show ?thesis using acted(5) by (simp add: filter_kind)
  qed
  show ?thesis
    using acted(6) [symmetric]
  proof (cases rule: act_and_publish_rows)
    case unrecorded
    then show ?thesis using out1 mark by (simp add: times_of_def)
  next
    case (cleaned u1 u2 more allowed)
    then show ?thesis
      using runResourceCleanup_rows [OF cleaned(2)] out1 mark now
      by (auto simp: times_of_def event_due_def)
  qed
qed

interpretation cleanup_rows: paced_steps "monitor_step p" io_Stopped sample_clock_ok
    "\<lambda>st. ct_lastEvent (rt_Cleanup st)" "times_of cleanup_events" resourceCleanupTelemetryMinInterval for p
  by unfold_locales (rule cleanup_rows_step)

text \<open>Relief attempts.\<close>

lemma relief_is_paced:
  assumes "relief_of p i s st = Some (a, sent)"
  shows "ac_Timestamp a = ii_ReliefNow i \<and>
         (IsZero (rt_LastAttempt st) \<or> action_cooldown p \<le> time_sub (ii_ReliefNow i) (rt_LastAttempt st))"
  using assms
  by (auto simp: relief_of_def maybeRelieveExcluding_def may_relieve_def case_prod_beta Let_def
      relief_intent_def split: if_splits option.splits)

lemma attempt_step:
  assumes "\<not> IsZero (ii_ReliefNow i)" and "monitor_step p i st = (t, out)"
  shows "attempt_times out = [] \<and> rt_LastAttempt t = rt_LastAttempt st \<or>
    (\<exists>now. attempt_times out = [now] \<and>
       (IsZero (rt_LastAttempt st) \<or> action_cooldown p \<le> time_sub now (rt_LastAttempt st)) \<and>
       (io_Stopped out \<or> now \<le> rt_LastAttempt t \<and> \<not> IsZero (rt_LastAttempt t)))"
  using assms(2)
proof (cases rule: monitor_step_cases)
  case (failed message)
  then have "t = fst (failed_sample p i message st)" "out = snd (failed_sample p i message st)" by (metis fst_conv snd_conv)+
  then show ?thesis by (simp add: frame_simps attempt_times_def)
next
  case (thrash sample)
  then show ?thesis by (simp add: frame_simps attempt_times_def)
next
  case (event sample s1 st1 rows)
  then show ?thesis using advance_thrash_keeps [OF event(2)] by (simp add: frame_simps attempt_times_def)
next
  case (acted sample s1 st1 rows st2 rows2 s2 out1)
  have mark: "rt_LastAttempt st2 = rt_LastAttempt st"
    using advance_thrash_keeps [OF acted(2)] persist_event_keeps(1) [OF acted(4)] by (simp add: frame_simps)
  note att = act_and_publish_attempt [OF acted(6) [symmetric]]
  show ?thesis
  proof (cases "relief_of p i s2 st2")
    case None
    then show ?thesis using att mark by (simp add: attempt_times_def)
  next
    case (Some r)
    obtain a sent where r: "r = (a, sent)" by (cases r)
    note pace = relief_is_paced [OF Some [unfolded r]]
    show ?thesis
      using att pace mark assms(1) Some r by (cases "is_attempt a") (auto simp: attempt_times_def)
  qed
qed

interpretation attempts: paced_steps "monitor_step p" io_Stopped "\<lambda>i. \<not> IsZero (ii_ReliefNow i)"
    rt_LastAttempt attempt_times "action_cooldown p" for p
  by unfold_locales (rule attempt_step)

section \<open>Across restarts\<close>

lemma restored_attempt:
  "rt_LastAttempt (fold restore_action rows st) =
   fold (\<lambda>a m. if is_attempt a then max m (ac_Timestamp a) else m) rows (rt_LastAttempt st)"
  by (induction rows arbitrary: st) (simp_all add: restore_action_def is_attempt_def)

lemma fold_max_bounds:
  fixes m :: time
  shows "m \<le> fold (\<lambda>a m. if is_attempt a then max m (ac_Timestamp a) else m) rows m \<and>
   (\<forall>a \<in> set rows. is_attempt a \<longrightarrow>
      ac_Timestamp a \<le> fold (\<lambda>a m. if is_attempt a then max m (ac_Timestamp a) else m) rows m)"
proof (induction rows arbitrary: m)
  case (Cons a rows)
  let ?m = "if is_attempt a then max m (ac_Timestamp a) else m"
  show ?case using Cons.IH [of ?m] by (auto split: if_splits)
qed simp

lemma resume_latest_attempt [frame_simps]: "rt_LastAttempt (resume_latest latest now st) = rt_LastAttempt st"
  by (simp add: resume_latest_def Let_def split: option.split)

lemma start_attempt:
  assumes "resident_start ncpu p ledger latest now = Inr st"
  shows "\<exists>rows. ReadActions ledger 1024 (now - history_window p) = Inr rows \<and>
           0 \<le> rt_LastAttempt st \<and>
           (\<forall>a \<in> set rows. is_attempt a \<longrightarrow> ac_Timestamp a \<le> rt_LastAttempt st)"
proof -
  obtain rows where rows: "ReadActions ledger 1024 (now - history_window p) = Inr rows"
    and st: "st = fold restore_action rows (resume_latest latest now fresh_state)"
    using assms by (auto simp: resident_start_def split: option.splits sum.splits if_splits)
  then show ?thesis
    using fold_max_bounds [of 0 rows]
    by (auto simp: restored_attempt frame_simps fresh_state_def)
qed

lemma ReadActions_filter:
  assumes "ReadActions ledger 0 0 = Inr all" and "0 < limit"
    and "int (length (filter (not_before since) all)) \<le> limit"
  shows "ReadActions ledger limit since = Inr (filter (not_before since) all)"
proof -
  have sound: "sound_ledger ledger"
    using ledger_read_sound [of ledger 0 0] assms(1) by auto
  let ?fs = "ledger_files ledger"
  have nb: "not_before 0 a" for a by (simp add: not_before_def IsZero_def)
  have shard: "file_rows since f = filter (not_before since) (file_rows 0 f)" for f
    using nb by (simp add: file_rows_def filter_True)
  have "concat (map (file_rows since) ?fs) = filter (not_before since) (concat (map (file_rows 0) ?fs))"
    unfolding filter_concat map_map o_def shard [symmetric] ..
  moreover have "all = sort_key ac_Timestamp (concat (map (file_rows 0) ?fs))"
    using assms(1) by (simp add: ReadActions_sound [OF sound] newest_def)
  ultimately show ?thesis
    using assms(2,3) by (simp add: ReadActions_sound [OF sound] newest_def filter_sort)
qed

text \<open>The cooldown between two attempts, in one run and across a restart.\<close>

lemma spaced_pairwise:
  assumes "paced_times d ts" and "0 < d" and "d \<le> max_duration"
  shows "sorted_wrt (\<lambda>a b. d \<le> time_sub b a) ts"
proof -
  have iff: "d \<le> time_sub b a \<longleftrightarrow> d \<le> b - a" for a b
    using assms(2,3) by (intro time_sub_ge_iff) (simp_all add: min_duration_def)
  have "transp (\<lambda>a b. d \<le> time_sub b a)"
    using assms(2) by (auto simp: iff transp_def)
  then show ?thesis using assms(1) by (simp add: paced_times_def successively_conv_sorted_wrt)
qed

definition resident_attempts :: "Policy \<Rightarrow> iteration_inputs list \<Rightarrow> resident_state \<Rightarrow> time list" where
  "resident_attempts p is st = concat (map attempt_times (monitor_run p is st))"

lemma attempts_spaced:
  assumes "list_all (\<lambda>i. \<not> IsZero (ii_ReliefNow i)) is"
  shows "paced_times (action_cooldown p)
    ((if IsZero (rt_LastAttempt st) then [] else [rt_LastAttempt st]) @ resident_attempts p is st)"
  using attempts.run_spacing [OF assms] by (simp add: resident_attempts_def monitor_run_def)

lemma attempt_time_read:
  assumes "monitor_step p i st = (t, out)"
  shows "set (attempt_times out) \<subseteq> {ii_ReliefNow i}"
  using assms
proof (cases rule: monitor_step_cases)
  case (failed message)
  then have "out = snd (failed_sample p i message st)" by (metis snd_conv)
  then show ?thesis by (simp add: frame_simps attempt_times_def)
next
  case (acted sample s1 st1 rows st2 rows2 s2 out1)
  then show ?thesis
    using act_and_publish_attempt [OF acted(6) [symmetric]] relief_is_paced [of p i s2 st2]
    by (cases "relief_of p i s2 st2") (auto simp: attempt_times_def)
qed (simp_all add: attempt_times_def)

lemma attempts_at_relief_times:
  "set (resident_attempts p is st) \<subseteq> ii_ReliefNow ` set is"
proof (induction "is" arbitrary: st)
  case (Cons i "is")
  obtain t out where "monitor_step p i st = (t, out)" by (cases "monitor_step p i st")
  then show ?case
    using attempt_time_read [of p i st t out] Cons.IH [of t]
    by (auto simp: resident_attempts_def monitor_run_def)
qed (simp add: resident_attempts_def monitor_run_def)

lemma cooldown_positive:
  assumes "ValidatePolicy ncpu p = None"
  shows "0 < action_cooldown p"
proof -
  have "list_all (\<lambda>g. \<not> fst g) (schedule_guards p)"
    using assms by (simp only: ValidatePolicy_def Let_def first_error_None list_all_append)
  then show ?thesis by (simp add: schedule_guards_def Let_def action_cooldown_def seconds_def)
qed

text \<open>
  Claim C4. Two attempts of a run are at least the cooldown apart, and so is every attempt from every
  attempt the ledger already held when the resident started.
\<close>

theorem signals_spaced_across_restarts:
  assumes "resident_start ncpu p ledger latest now = Inr st"
    and "ReadActions ledger 0 0 = Inr history"
    and "length (filter (not_before (now - history_window p)) history) \<le> 1024"
    and "action_cooldown p \<le> max_duration" and "history_window p \<le> now"
    and "list_all (\<lambda>i. now \<le> ii_ReliefNow i) is"
  shows "sorted_wrt (\<lambda>a b. action_cooldown p \<le> time_sub b a) (resident_attempts p is st) \<and>
    list_all (\<lambda>a. list_all (\<lambda>t. action_cooldown p \<le> time_sub t (ac_Timestamp a)) (resident_attempts p is st))
      (filter is_attempt history)"
proof -
  let ?d = "action_cooldown p" and ?ts = "resident_attempts p is st" and ?m = "rt_LastAttempt st"
  have d: "0 < ?d"
    using assms(1) cooldown_positive by (auto simp: resident_start_def split: option.splits if_splits)
  have ge: "?d \<le> time_sub b a \<longleftrightarrow> ?d \<le> b - a" for a b
    using d assms(4) by (intro time_sub_ge_iff) (simp_all add: min_duration_def)
  have late: "now \<le> t" if "t \<in> set ?ts" for t
    using that attempts_at_relief_times assms(6) by (fastforce simp: list_all_iff)
  have now: "?d \<le> now" using assms(5) by (simp add: history_window_def)
  have "list_all (\<lambda>i. \<not> IsZero (ii_ReliefNow i)) is"
    using assms(6) now d by (auto simp: list_all_iff IsZero_def)
  from spaced_pairwise [OF attempts_spaced [OF this] d assms(4)]
  have pairs: "sorted_wrt (\<lambda>a b. ?d \<le> time_sub b a) ((if IsZero ?m then [] else [?m]) @ ?ts)" .
  have mark: "0 \<le> ?m"
    and recent: "ac_Timestamp a \<le> ?m" if "a \<in> set history" "is_attempt a" "not_before (now - history_window p) a" for a
    using start_attempt [OF assms(1)] ReadActions_filter [OF assms(2), of 1024] assms(3) that by auto
  have mark0: "0 \<le> ?m" using start_attempt [OF assms(1)] by blast
  have "?d \<le> t - ac_Timestamp a" if "a \<in> set history" "is_attempt a" "t \<in> set ?ts" for a t
  proof (cases "not_before (now - history_window p) a")
    case True
    note le = recent [OF that(1,2) True]
    show ?thesis
    proof (cases "IsZero ?m")
      case True
      then show ?thesis using le late [OF that(3)] now by (simp add: IsZero_def)
    next
      case False
      then show ?thesis using pairs le that(3) by (force simp: ge)
    qed
  next
    case False
    then have "ac_Timestamp a < now - history_window p" by (simp add: not_before_def)
    then show ?thesis using late [OF that(3)] by (simp add: history_window_def)
  qed
  then show ?thesis using pairs by (auto simp: list_all_iff ge sorted_wrt_append)
qed

lemma empty_ledger_read: "ReadActions empty_ledger limit since = Inr []"
  by (simp add: ReadActions_def empty_ledger_def ledger_files_def newest_def)

definition earlier_signal :: Action where
  "earlier_signal = stored_action (seconds 900) (sample_action\<lparr> ac_Timestamp := seconds 900 \<rparr>)"

definition signal_ledger :: action_ledger where
  "signal_ledger =
     \<lparr> lg_Shards = [\<lparr> sa_Name = ''actions-1.jsonl'', sa_Open = ShardReadable, sa_Rows = [Some earlier_signal],
                      sa_Tail = None, sa_ScanFails = False \<rparr>],
       lg_Legacy = LegacyAbsent \<rparr>"

lemma signal_ledger_rows:
  "ReadActions signal_ledger limit since = Inr (newest limit (filter (not_before since) [earlier_signal]))"
proof -
  have "storable (sample_action\<lparr> ac_Timestamp := seconds 900 \<rparr>)"
    by (simp add: storable_def sample_action_def TrimSpace_def is_space_def)
  then have "sound_ledger signal_ledger"
    using stored_valid [of "sample_action\<lparr> ac_Timestamp := seconds 900 \<rparr>" "seconds 900"]
    by (simp add: sound_ledger_def signal_ledger_def sound_file_def shard_rows_def earlier_signal_def IsZero_def seconds_def)
  moreover have "ledger_files signal_ledger = lg_Shards signal_ledger"
    by (simp add: ledger_files_def signal_ledger_def)
  moreover have "concat (map (file_rows since) (lg_Shards signal_ledger)) = filter (not_before since) [earlier_signal]"
    by (simp add: signal_ledger_def file_rows_def shard_rows_def)
  ultimately show ?thesis by (simp add: ReadActions_sound)
qed

lemma shed_policy_validates: "ValidatePolicy 8 shed_policy = None"
  by code_simp

lemma shed_policy_window: "history_window shed_policy = seconds 300" "action_cooldown shed_policy = seconds 300"
  "po_Enabled shed_policy"
  by (simp_all add: history_window_def action_cooldown_def reliefRevalidationRetryInterval_def seconds_def
      shed_policy_fields) (simp add: shed_policy_def DefaultPolicy_def Let_def)

lemma signal_start: "\<exists>st. resident_start 8 shed_policy signal_ledger None (seconds 1000) = Inr st"
  by (simp add: resident_start_def shed_policy_validates shed_policy_window signal_ledger_rows)

definition critical_inputs :: "time \<Rightarrow> iteration_inputs" where
  "critical_inputs now =
     \<lparr> ii_Sample = Inr critical_sample, ii_ProcessCPUTotalMS = 0, ii_Now = now, ii_ReliefNow = now, ii_PruneNow = now,
       ii_Bytes = (\<lambda>site. 0), ii_Appends = (\<lambda>site. True), ii_World = critical_world, ii_Cleaner = None,
       ii_NumCPU = 8 \<rparr>"

theorem signals_spaced_across_restarts_witness:
  "\<exists>st. resident_start 8 shed_policy signal_ledger None (seconds 1000) = Inr st \<and>
     list_all (\<lambda>t. seconds 300 \<le> time_sub t (seconds 900))
       (resident_attempts shed_policy (map critical_inputs [seconds 1005, seconds 1010, seconds 1215]) st)"
proof -
  obtain st where st: "resident_start 8 shed_policy signal_ledger None (seconds 1000) = Inr st"
    using signal_start by auto
  have "not_before 0 earlier_signal" "is_attempt earlier_signal" "ac_Timestamp earlier_signal = seconds 900"
    by (simp_all add: not_before_def IsZero_def is_attempt_def earlier_signal_def stored_action_def sample_action_def
        seconds_def)
  then show ?thesis
    using signals_spaced_across_restarts [OF st, of "[earlier_signal]"
        "map critical_inputs [seconds 1005, seconds 1010, seconds 1215]"] st
    by (simp add: signal_ledger_rows shed_policy_window newest_def critical_inputs_def seconds_def max_duration_def)
qed

text \<open>
  Rows that report a change of level or a recovered sample are at least an hour apart, rows on
  the cleanup extension at least five minutes.
\<close>

theorem resident_rows_paced:
  assumes "list_all (\<lambda>i. \<not> IsZero (ii_Now i) \<and> sample_clock_ok i) is"
  shows "sorted_wrt (\<lambda>a b. seconds 3600 \<le> time_sub b a)
           (concat (map (times_of transition_row_events) (monitor_run p is st))) \<and>
         sorted_wrt (\<lambda>a b. seconds 300 \<le> time_sub b a)
           (concat (map (times_of cleanup_events) (monitor_run p is st)))"
proof -
  have ok: "list_all (\<lambda>i. \<not> IsZero (ii_Now i)) is" "list_all sample_clock_ok is"
    using assms by (auto simp: list_all_iff)
  have "0 < seconds 3600" "seconds 3600 \<le> max_duration" "0 < seconds 300" "seconds 300 \<le> max_duration"
    by (simp_all add: seconds_def max_duration_def)
  then show ?thesis
    using spaced_pairwise [OF transition_rows.run_spacing [OF ok(1), where p = p and s = st]]
      spaced_pairwise [OF cleanup_rows.run_spacing [OF ok(2), where p = p and s = st]]
    by (simp add: monitor_run_def resourceCleanupTelemetryMinInterval_def sorted_wrt_append)
qed

theorem resident_rows_paced_witness:
  "sorted_wrt (\<lambda>a b. seconds 3600 \<le> time_sub b a)
     (concat (map (times_of transition_row_events)
       (monitor_run shed_policy (map critical_inputs [seconds 5, seconds 10]) fresh_state)))"
  using resident_rows_paced [of "map critical_inputs [seconds 5, seconds 10]" shed_policy fresh_state]
  by (simp add: critical_inputs_def sample_clock_ok_def critical_sample_def IsZero_def seconds_def)

end
