(* ===== verification/Ledger_Recovery.thy ===== *)
theory Ledger_Recovery
  imports Resident_Monitor
begin

text \<open>
  What the resident recovers from its action ledger. A tree that revalidation rejected stays
  rejected over a restart, because the start restores the rejections it finds; and a row that
  was written in part stops every later start, because a read fails on a row that does not
  decode, however many rows follow it.
\<close>

section \<open>Rejections over a restart\<close>

lemma rejected_register:
  "rt_Rejected (snd (snd (register_sample p i s st))) =
     (if sn_Level (rs_Snapshot s) \<noteq> LevelCritical then [] else rt_Rejected st)"
  by (simp add: register_sample_def Let_def case_prod_beta count_levels_def)

lemma rejected_thrash: "advance_thrash p i s st = Some (s', st', rows) \<Longrightarrow> rt_Rejected st' = rt_Rejected st"
  by (auto simp: advance_thrash_def Let_def case_prod_beta split: option.splits if_splits)

lemma rejected_event: "persist_event p i recovered st = Some (st', rows) \<Longrightarrow> rt_Rejected st' = rt_Rejected st"
  by (auto simp: persist_event_def split: option.splits if_splits)

lemma rejected_cleanup [simp]: "rt_Rejected (fst (runResourceCleanup i s allowed st)) = rt_Rejected st"
  by (simp add: runResourceCleanup_def Let_def case_prod_beta cleanup_event_def cleanup_failed_def
      cleanup_recovered_def split: option.split)

lemma rejected_housekeeping [simp]: "rt_Rejected (fst (housekeeping i st)) = rt_Rejected st"
  by (simp add: housekeeping_def Let_def)

lemma rejected_failed [simp]: "rt_Rejected (fst (failed_sample p i m st)) = rt_Rejected st"
  by (simp add: failed_sample_def Let_def)

lemma rejected_note: "set (rt_Rejected st) \<subseteq> set (rt_Rejected (note_action i a st))"
  by (auto simp: note_action_def Let_def)

lemma rejected_act:
  "set (rt_Rejected st) \<subseteq> set (rt_Rejected (fst (act_and_publish p i s out st)))"
  using rejected_note [of st]
  by (auto simp: act_and_publish_def Let_def case_prod_beta split: option.splits)

text \<open>A relief row is on a tree that was not rejected.\<close>

lemma relief_not_rejected:
  assumes "maybeRelieveExcluding w s p now la lr rejected = Some (a, sent)"
  shows "reliefActionKey a \<notin> set rejected" and "ac_Kind a = ''graceful_tree_shed''"
    and "ac_SchemaVersion a = 0" and "ac_Timestamp a = now"
proof -
  obtain tree r failure where tree: "selectReliefCandidateExcluding (sn_TopAgentTrees (rs_Snapshot s)) p rejected = Some tree"
    and a: "a = conclude w r failure (note_revalidation r (relief_intent s now tree))"
    using assms
    by (auto simp: maybeRelieveExcluding_def Let_def case_prod_beta split: if_splits option.splits)
  obtain rest where "sort_key relief_rank (filter (relief_eligible p rejected) (sn_TopAgentTrees (rs_Snapshot s))) = tree # rest"
    using tree by (auto simp: selectReliefCandidateExcluding_def split: list.splits)
  then have "tree \<in> set (sort_key relief_rank (filter (relief_eligible p rejected) (sn_TopAgentTrees (rs_Snapshot s))))"
    by simp
  then have "tree \<in> set (filter (relief_eligible p rejected) (sn_TopAgentTrees (rs_Snapshot s)))"
    unfolding set_sort .
  then have "reliefTreeKey tree \<notin> set rejected" by (simp add: relief_eligible_def)
  then show "reliefActionKey a \<notin> set rejected"
    by (simp add: a reliefActionKey_def reliefTreeKey_def)
  show "ac_Kind a = ''graceful_tree_shed''" "ac_SchemaVersion a = 0" "ac_Timestamp a = now"
    by (simp_all add: a conclude_def note_revalidation_def relief_intent_def no_action_def Let_def
        split: option.split)
qed

definition critical_input :: "iteration_inputs \<Rightarrow> bool" where
  "critical_input i =
     (case ii_Sample i of Inl message \<Rightarrow> True | Inr s \<Rightarrow> sn_Level (rs_Snapshot s) = LevelCritical)"

definition spares_keys :: "relief_key set \<Rightarrow> iteration_output \<Rightarrow> bool" where
  "spares_keys keys out = (case io_Action out of None \<Rightarrow> True | Some a \<Rightarrow> reliefActionKey a \<notin> keys)"

lemma act_spares:
  assumes "act_and_publish p i s out st = (t, out')" and "keys \<subseteq> set (rt_Rejected st)"
  shows "spares_keys keys out'"
proof (cases "relief_of p i s st")
  case None
  then show ?thesis using act_and_publish_attempt [OF assms(1)] by (simp add: spares_keys_def)
next
  case (Some r)
  obtain a sent where r: "r = (a, sent)" by (cases r)
  have "reliefActionKey a \<notin> set (rt_Rejected st)"
    using Some r relief_not_rejected(1) by (simp add: relief_of_def)
  then show ?thesis using act_and_publish_attempt [OF assms(1)] Some r assms(2) by (auto simp: spares_keys_def)
qed

lemma step_spares:
  assumes step: "monitor_step p i st = (t, out)" and critical: "critical_input i" and keys: "keys \<subseteq> set (rt_Rejected st)"
  shows "spares_keys keys out \<and> keys \<subseteq> set (rt_Rejected t)"
  using step
proof (cases rule: monitor_step_cases)
  case (failed message)
  then have "t = fst (failed_sample p i message st)" "out = snd (failed_sample p i message st)" by (metis fst_conv, metis snd_conv)
  then show ?thesis using keys by (simp add: spares_keys_def failed_sample_def Let_def no_output_def)
next
  case (thrash sample)
  then show ?thesis using critical keys by (simp add: critical_input_def rejected_register spares_keys_def)
next
  case (event sample s1 st1 rows)
  then show ?thesis
    using critical keys rejected_thrash [OF event(2)] by (simp add: critical_input_def rejected_register spares_keys_def)
next
  case (acted sample s1 st1 rows st2 rows2 s2 out1)
  have "keys \<subseteq> set (rt_Rejected st2)"
    using critical keys acted(1) rejected_thrash [OF acted(2)] rejected_event [OF acted(4)]
    by (simp add: critical_input_def rejected_register)
  then show ?thesis
    using act_spares [OF acted(6) [symmetric]] rejected_act [of st2 p i s2 out1] acted(6) by (metis fst_conv subset_trans)
qed

lemma run_spares:
  "list_all critical_input is \<Longrightarrow> keys \<subseteq> set (rt_Rejected st) \<Longrightarrow> list_all (spares_keys keys) (monitor_run p is st)"
proof (induction "is" arbitrary: st)
  case (Cons i "is")
  obtain t out where st: "monitor_step p i st = (t, out)" by (cases "monitor_step p i st")
  note one = step_spares [OF st _ Cons.prems(2)]
  show ?case
    using Cons.prems Cons.IH [of t] one st by (simp add: monitor_run_def Let_def)
qed (simp add: monitor_run_def)

lemma restored_rejection:
  "a \<in> set rows \<Longrightarrow> ac_Result a = ''revalidation_rejected'' \<Longrightarrow>
   reliefActionKey a \<in> set (rt_Rejected (fold restore_action rows st))"
proof (induction rows arbitrary: st)
  case (Cons b rows)
  have keep: "k \<in> set (rt_Rejected st) \<Longrightarrow> k \<in> set (rt_Rejected (fold restore_action rows st))" for k st
    by (induction rows arbitrary: st) (auto simp: restore_action_def)
  show ?case
  proof (cases "a = b")
    case True
    then have "reliefActionKey a \<in> set (rt_Rejected (restore_action b st))"
      using Cons.prems(2) by (simp add: restore_action_def)
    then show ?thesis using keep by simp
  qed (use Cons in simp)
qed simp

lemma start_restores:
  assumes "resident_start ncpu p ledger latest now = Inr st"
    and "ReadActions ledger 1024 (now - history_window p) = Inr rows"
    and "a \<in> set rows" and "ac_Result a = ''revalidation_rejected''"
  shows "reliefActionKey a \<in> set (rt_Rejected st)"
  using assms restored_rejection [OF assms(3,4)]
  by (auto simp: resident_start_def split: option.splits if_splits)

lemma newest_all: "int (length rows) \<le> limit \<Longrightarrow> newest limit rows = rows"
  by (simp add: newest_def)

lemma ReadActions_unlimited:
  "ReadActions l 0 since = Inr rows \<Longrightarrow> ReadActions l limit since = Inr (newest limit rows)"
  by (auto simp: ReadActions_def newest_def split: sum.splits if_splits)

text \<open>
  Claim C22. A tree that the final revalidation rejected is left alone after a restart as well. When the row
  of the rejection was written and the resident starts again while the row is in its history
  window, no action of the new run is on that tree until the host leaves the critical level.
\<close>

theorem rejected_tree_left_alone_after_restart:
  assumes "maybeRelieveExcluding w s p now lastAction lastRevalidation rejected = Some (row, signalled)"
    and "ac_Result row = ''revalidation_rejected''" and "\<not> IsZero now"
    and "sound_ledger ledger" and "distinct (map sa_Name (lg_Shards ledger))"
    and "\<forall>f \<in> set (lg_Shards ledger). sa_Name f = day_name now \<longrightarrow> appendable f"
    and "AppendAction day_name written RowWritten row ledger = (ledger', ok)"
    and "ReadActions ledger 0 (restart - history_window q) = Inr rows" and "length rows < 1024"
    and "resident_start ncpu q ledger' latest restart = Inr st" and "restart - history_window q \<le> now"
    and "list_all critical_input is"
  shows "list_all (\<lambda>out. case io_Action out of None \<Rightarrow> True | Some a \<Rightarrow> reliefActionKey a \<noteq> reliefActionKey row)
    (monitor_run q is st)"
proof -
  note row = relief_not_rejected [OF assms(1)]
  have time: "ac_Timestamp (stored_action written row) = now" using row(4) assms(3) by (simp add: stored_action_def)
  have "storable row"
    using row(2,3) assms(2) by (simp add: storable_def TrimSpace_def is_space_def)
  moreover have "\<not> IsZero (1 :: time)" by (simp add: IsZero_def)
  moreover have "stored_action written row = stored_action 1 row"
    using row(4) assms(3) by (simp add: stored_action_def)
  ultimately have "\<exists>rows'. ReadActions ledger' 0 (restart - history_window q) = Inr rows' \<and>
      mset rows' = mset rows + {# stored_action written row #}"
    using appended_action_is_read [OF assms(4,5), of row 1 day_name "restart - history_window q" rows ledger' ok]
      assms(6,7,8,11) time by (simp add: AppendAction_written not_before_def)
  then obtain rows' where rows': "ReadActions ledger' 0 (restart - history_window q) = Inr rows'"
    "mset rows' = mset rows + {# stored_action written row #}" by blast
  have "length rows' \<le> 1024" using rows'(2) assms(9) by (metis Suc_leI size_mset size_add_mset add_mset_add_single)
  then have read: "ReadActions ledger' 1024 (restart - history_window q) = Inr rows'"
    using ReadActions_unlimited [OF rows'(1), of 1024] by (simp add: newest_all)
  have "stored_action written row \<in> set rows'" using arg_cong [OF rows'(2), of set_mset] by simp
  moreover have "ac_Result (stored_action written row) = ''revalidation_rejected''"
    using assms(2) by (simp add: stored_action_def)
  ultimately have "reliefActionKey (stored_action written row) \<in> set (rt_Rejected st)"
    using start_restores [OF assms(10) read] by blast
  moreover have "reliefActionKey (stored_action written row) = reliefActionKey row"
    by (simp add: reliefActionKey_def stored_action_def boundedText_idempotent)
  ultimately have "list_all (spares_keys {reliefActionKey row}) (monitor_run q is st)"
    using run_spares [OF assms(12)] by simp
  then show ?thesis unfolding spares_keys_def singleton_iff .
qed


text \<open>A tree that is gone when it is sampled again is rejected.\<close>

definition changed_world :: relief_world where
  "changed_world =
     critical_world\<lparr> rw_Resample := critical_sample\<lparr> rs_Snapshot := (rs_Snapshot critical_sample)\<lparr> sn_TopAgentTrees := [] \<rparr> \<rparr> \<rparr>"

lemma changed_world_rejects:
  "\<exists>row. maybeRelieveExcluding changed_world critical_sample shed_policy now 0 0 [] = Some (row, []) \<and>
     ac_Result row = ''revalidation_rejected''"
proof -
  have "may_relieve changed_world critical_sample shed_policy now 0 0"
    using shed_policy_loads
    by (simp add: may_relieve_def changed_world_def critical_world_def critical_sample_def shed_policy_fields IsZero_def)
  moreover have "Terminate changed_world idle_tree shed_policy =
      (\<lparr> tr_Snapshot = rw_Resample changed_world, tr_Tree = None, tr_Signalled = [], tr_SignalAttempted = False,
         tr_ExitChecked = False, tr_TreeExited = False \<rparr>, Some (Rejected TreeChanged))"
    by (simp add: Terminate_def changed_world_def critical_trees Let_def)
  ultimately show ?thesis
    using idle_tree_selected
    by (simp add: maybeRelieveExcluding_def Let_def critical_trees conclude_def)
qed

theorem rejected_tree_left_alone_after_restart_witness:
  "\<exists>row st. ac_Result row = ''revalidation_rejected'' \<and>
     resident_start 8 shed_policy (fst (AppendAction (\<lambda>t. ''actions-1.jsonl'') (seconds 801) RowWritten row empty_ledger))
       None (seconds 1000) = Inr st \<and>
     list_all (\<lambda>out. case io_Action out of None \<Rightarrow> True | Some a \<Rightarrow> reliefActionKey a \<noteq> reliefActionKey row)
       (monitor_run shed_policy [critical_inputs (seconds 1005)] st)"
proof -
  let ?day = "\<lambda>t. ''actions-1.jsonl''"
  obtain row where row: "maybeRelieveExcluding changed_world critical_sample shed_policy (seconds 800) 0 0 [] = Some (row, [])"
    and result: "ac_Result row = ''revalidation_rejected''" using changed_world_rejects by blast
  obtain ledger' ok where l': "AppendAction ?day (seconds 801) RowWritten row empty_ledger = (ledger', ok)"
    by (metis surj_pair)
  note facts = relief_not_rejected [OF row]
  have empty: "sound_ledger empty_ledger" "distinct (map sa_Name (lg_Shards empty_ledger))" "lg_Shards empty_ledger = []"
    by (simp_all add: sound_ledger_def empty_ledger_def)
  have "storable row" using facts(2,3) result by (simp add: storable_def TrimSpace_def is_space_def)
  moreover have "\<not> IsZero (seconds 801)" by (simp add: IsZero_def seconds_def)
  ultimately obtain rows' where "ReadActions ledger' 0 (seconds 700) = Inr rows'"
    using appended_action_is_read [OF empty(1,2) _ _ _ empty_ledger_read l'] empty(3) by auto
  then have "ReadActions ledger' 1024 (seconds 700) = Inr (newest 1024 rows')" by (rule ReadActions_unlimited)
  moreover have "seconds 1000 - history_window shed_policy = seconds 700" by (simp add: shed_policy_window seconds_def)
  ultimately obtain st where st: "resident_start 8 shed_policy ledger' None (seconds 1000) = Inr st"
    by (auto simp: resident_start_def shed_policy_validates shed_policy_window)
  have "list_all critical_input [critical_inputs (seconds 1005)]"
    by (simp add: critical_input_def critical_inputs_def critical_sample_def)
  then have "list_all (\<lambda>out. case io_Action out of None \<Rightarrow> True | Some a \<Rightarrow> reliefActionKey a \<noteq> reliefActionKey row)
       (monitor_run shed_policy [critical_inputs (seconds 1005)] st)"
    by (intro rejected_tree_left_alone_after_restart [OF row result _ empty(1,2) _ l' empty_ledger_read _ st])
      (simp_all add: empty(3) IsZero_def seconds_def shed_policy_window)
  then show ?thesis using result st l' by (intro exI conjI) simp_all
qed


section \<open>A row that was written in part\<close>

datatype ledger_event = Appends time append_result Action | Prunes time int

definition ledger_step :: "(time \<Rightarrow> string) \<Rightarrow> calendar \<Rightarrow> ledger_event \<Rightarrow> action_ledger \<Rightarrow> action_ledger" where
  "ledger_step day_name c ev l =
     (case ev of
        Appends now outcome a \<Rightarrow> fst (AppendAction day_name now outcome a l)
      | Prunes now days \<Rightarrow> Prune c now days l)"

text \<open>The retention of a prune does not reach the day of the file.\<close>

definition keeps_shard :: "calendar \<Rightarrow> string \<Rightarrow> ledger_event \<Rightarrow> bool" where
  "keeps_shard c name ev =
     (case ev of
        Appends now outcome a \<Rightarrow> True
      | Prunes now days \<Rightarrow>
          (case ca_ShardDay c name of None \<Rightarrow> True
           | Some day \<Rightarrow> \<not> day < ca_DayStart c (ca_AddDays c now (- days))))"

definition damaged :: "string \<Rightarrow> action_ledger \<Rightarrow> bool" where
  "damaged name l \<longleftrightarrow>
     (\<exists>f \<in> set (lg_Shards l). sa_Name f = name \<and> sa_Open f \<noteq> ShardGone \<and> \<not> list_all valid_row (shard_rows f))"

lemma garbage_invalid [simp]: "\<not> valid_row None"
  by (simp add: valid_row_def)

lemma write_row_simps [simp]:
  "sa_Name (write_row outcome a f) = sa_Name f" "sa_Open (write_row outcome a f) = sa_Open f"
  by (auto simp: write_row_def add_line_def split: append_result.split)

lemma write_row_keeps_damage:
  "\<not> list_all valid_row (shard_rows f) \<Longrightarrow> \<not> list_all valid_row (shard_rows (write_row outcome a f))"
  by (cases outcome; cases "sa_Tail f")
     (auto simp: write_row_def add_line_def shard_rows_def continued_def)

lemma damaged_append: "damaged name l \<Longrightarrow> damaged name (fst (AppendAction day_name now outcome a l))"
proof -
  let ?row = "stored_action now a"
  assume "damaged name l"
  then obtain f where f: "f \<in> set (lg_Shards l)" "sa_Name f = name" "sa_Open f \<noteq> ShardGone"
      "\<not> list_all valid_row (shard_rows f)" by (auto simp: damaged_def)
  let ?day = "day_name (ac_Timestamp ?row)" and ?up = "write_row outcome ?row"
  let ?g = "if sa_Name f = ?day then ?up f else f"
  have "?g \<in> set (update_file ?day ?up (lg_Shards l))"
    using f(1) by (auto simp: update_file_def list_ex_iff)
  moreover have "sa_Name ?g = name" "sa_Open ?g \<noteq> ShardGone" "\<not> list_all valid_row (shard_rows ?g)"
    using f(2-4) write_row_keeps_damage [of f] by simp_all
  ultimately have "damaged name (l\<lparr> lg_Shards := update_file ?day ?up (lg_Shards l) \<rparr>)"
    unfolding damaged_def by auto
  then show ?thesis using \<open>damaged name l\<close> by (simp add: AppendAction_def Let_def)
qed

lemma damaged_step: "damaged name l \<Longrightarrow> keeps_shard c name ev \<Longrightarrow> damaged name (ledger_step day_name c ev l)"
  using damaged_append
  by (cases ev) (auto simp: ledger_step_def keeps_shard_def damaged_def Prune_def Let_def expired_shard_def split: option.splits)

lemma damaged_fold:
  "damaged name l \<Longrightarrow> list_all (keeps_shard c name) evs \<Longrightarrow> damaged name (fold (ledger_step day_name c) evs l)"
  by (induction evs arbitrary: l) (auto intro: damaged_step)

lemma update_file_mem: "f \<in> set fs \<Longrightarrow> sa_Name f = name \<Longrightarrow> up f \<in> set (update_file name up fs)"
  by (auto simp: update_file_def list_ex_iff)

lemma update_file_has:
  "\<exists>f. up f \<in> set (update_file name up fs) \<and> sa_Name f = name \<and> (f \<in> set fs \<or> f = new_shard name)"
proof (cases "\<exists>f \<in> set fs. sa_Name f = name")
  case True
  then show ?thesis using update_file_mem by blast
next
  case False
  then have "up (new_shard name) \<in> set (update_file name up fs)" by (auto simp: update_file_def list_ex_iff)
  then show ?thesis using new_shard_simps(1) by blast
qed

lemma append_shards:
  "outcome \<noteq> RowNotWritten \<Longrightarrow>
   lg_Shards (fst (AppendAction day_name now outcome a l)) =
     update_file (day_name (ac_Timestamp (stored_action now a))) (write_row outcome (stored_action now a)) (lg_Shards l)"
  by (simp add: AppendAction_def Let_def)

lemma torn_damages:
  assumes day: "name = day_name (ac_Timestamp (stored_action now a))"
    and there: "\<forall>f \<in> set (lg_Shards l). sa_Name f = name \<longrightarrow> sa_Open f \<noteq> ShardGone"
  shows "damaged name (fst (AppendAction day_name now RowTorn a l))"
proof -
  let ?up = "write_row RowTorn (stored_action now a)"
  obtain f where f: "?up f \<in> set (update_file name ?up (lg_Shards l))" "sa_Name f = name"
      "f \<in> set (lg_Shards l) \<or> f = new_shard name"
    using update_file_has by blast
  then have "sa_Open f \<noteq> ShardGone" using there new_shard_simps(2) [of name] by (metis shard_open.distinct(1))
  then have "sa_Open (?up f) \<noteq> ShardGone" by simp
  moreover have "\<not> list_all valid_row (shard_rows (?up f))" by (simp add: write_row_def shard_rows_def)
  moreover have "sa_Name (?up f) = name" using f(2) by simp
  moreover have "?up f \<in> set (lg_Shards (fst (AppendAction day_name now RowTorn a l)))"
    using f(1) by (simp add: append_shards day)
  ultimately show ?thesis unfolding damaged_def by blast
qed

lemma unfinished_damages:
  assumes "f \<in> set (lg_Shards l)" and "sa_Name f = day_name (ac_Timestamp (stored_action now b))"
    and "sa_Open f \<noteq> ShardGone" and "sa_Tail f \<noteq> None"
  shows "damaged (sa_Name f) (fst (AppendAction day_name now RowWritten b l))"
proof -
  let ?up = "write_row RowWritten (stored_action now b)"
  have "?up f \<in> set (lg_Shards (fst (AppendAction day_name now RowWritten b l)))"
    using update_file_mem [OF assms(1,2)] by (simp add: append_shards)
  moreover have "\<not> list_all valid_row (shard_rows (?up f))"
    using assms(4) by (auto simp: write_row_def add_line_def shard_rows_def continued_def)
  moreover have "sa_Name (?up f) = sa_Name f" "sa_Open (?up f) \<noteq> ShardGone" using assms(3) by simp_all
  ultimately show ?thesis unfolding damaged_def by blast
qed

lemma damaged_blocks: "damaged name l \<Longrightarrow> isl (resident_start ncpu p l latest now)"
proof -
  assume "damaged name l"
  then have "\<not> sound_ledger l" by (auto simp: damaged_def sound_ledger_def sound_file_def list_all_iff)
  then have "ReadActions l 1024 (now - history_window p) \<noteq> Inr rows" for rows
    using ledger_read_sound [of l 1024 "now - history_window p" rows] by auto
  then show ?thesis by (simp add: resident_start_def split: option.split sum.split)
qed

text \<open>
  Claim C20. A row of which a part reached its file blocks every later start of the resident: whatever is
  appended after it, whole or in part, and whatever is pruned, no start succeeds as long as no
  prune reaches the day of the row.
\<close>

theorem torn_row_blocks_every_start:
  assumes "\<forall>f \<in> set (lg_Shards ledger).
      sa_Name f = day_name (ac_Timestamp (stored_action t a)) \<longrightarrow> sa_Open f \<noteq> ShardGone"
    and "list_all (keeps_shard c (day_name (ac_Timestamp (stored_action t a)))) later"
  shows "isl (resident_start ncpu p
    (fold (ledger_step day_name c) later (fst (AppendAction day_name t RowTorn a ledger))) latest now)"
  by (rule damaged_blocks, rule damaged_fold [OF torn_damages]) (rule refl assms)+

definition one_day :: calendar where
  "one_day = \<lparr> ca_ShardDay = (\<lambda>name. Some 0), ca_DayStart = (\<lambda>t. 0), ca_AddDays = (\<lambda>t n. t) \<rparr>"

theorem torn_row_blocks_every_start_witness:
  "isl (resident_start 8 shed_policy
     (fold (ledger_step (\<lambda>t. ''actions-1.jsonl'') one_day)
        [Appends (seconds 960) RowWritten sample_action, Prunes (seconds 970) 14]
        (fst (AppendAction (\<lambda>t. ''actions-1.jsonl'') (seconds 950) RowTorn sample_action signal_ledger)))
     None (seconds 1000))"
  by (rule torn_row_blocks_every_start) (simp_all add: signal_ledger_def keeps_shard_def one_day_def)

text \<open>
  A row that lacks only its newline is read by the next start, although its writer saw an error;
  the next append of the same day turns both rows into one that does not decode.
\<close>

theorem unfinished_row_spoils_the_next:
  assumes "\<forall>f \<in> set (lg_Shards ledger). sa_Name f = name \<longrightarrow> sa_Open f \<noteq> ShardGone"
    and "name = day_name (ac_Timestamp (stored_action t a))" and "name = day_name (ac_Timestamp (stored_action u b))"
  shows "isl (resident_start ncpu p
    (fst (AppendAction day_name u RowWritten b (fst (AppendAction day_name t RowUnfinished a ledger)))) latest now)"
proof -
  let ?up = "write_row RowUnfinished (stored_action t a)" and ?l = "fst (AppendAction day_name t RowUnfinished a ledger)"
  obtain f where f: "?up f \<in> set (update_file name ?up (lg_Shards ledger))" "sa_Name f = name"
      "f \<in> set (lg_Shards ledger) \<or> f = new_shard name"
    using update_file_has by blast
  then have "sa_Open f \<noteq> ShardGone"
    using assms(1) new_shard_simps(2) [of name] by (metis shard_open.distinct(1))
  then have "sa_Open (?up f) \<noteq> ShardGone" "sa_Name (?up f) = name" using f(2) by simp_all
  moreover have "sa_Tail (?up f) \<noteq> None" by (simp add: write_row_def)
  moreover have "?up f \<in> set (lg_Shards ?l)"
    using f(1) append_shards [of RowUnfinished day_name t a ledger] assms(2) by simp
  ultimately show ?thesis
    using damaged_blocks unfinished_damages [of "?up f" ?l day_name u b] assms(3) by simp
qed

end
