(* ===== verification/Spec2Isabelle.thy ===== *)
theory Spec2Isabelle
  imports Work_Status Admission_Gate Idle_Park Work_Drain Work_Replay Work_Summary Disk_Shape
    Swap_Proof File_Lock Lock_Queue Ledger_Recovery
begin

text \<open>
  \<^bold>\<open>Session pressure: a verification development.\<close>

  The program keeps a developer machine usable while many agents build and test on it. A resident
  samples the host and classifies its pressure; every heavy command is wrapped, passes a pre-queue
  gate on that evidence, and then takes a weighted lease from a host-wide coordinator whose state is
  one JSON document under a file lock, shared by all processes. A durable ledger records what
  happened to every operation.

  \<^bold>\<open>Parts, sources and theories.\<close> All paths are below \<^verbatim>\<open>src/sessionpressure\<close>, except those that begin
  with \<^verbatim>\<open>internal\<close>.

  \<^item> \<open>Go_Prelude\<close>: what the sources use of Go (saturating \<^verbatim>\<open>time.Sub\<close>, truncating division,
    \<^verbatim>\<open>strings.TrimSpace\<close>, hexadecimal identities, stable sorting) and the lemma collections.
  \<^item> \<open>Work_Limits\<close> (\<^verbatim>\<open>policy.go\<close>, \<^verbatim>\<open>worklease.go\<close>): classes, weights, shipped defaults, their
    revisioned reconciliation, normalisation, the coordinator's range checks.
  \<^item> \<open>Work_State\<close> (\<^verbatim>\<open>worklease.go\<close>: \<^verbatim>\<open>readState\<close>, \<^verbatim>\<open>writeState\<close>): the document of leases, waiters,
    promotions, holds and latch, its migration and the writers for pinned older schemas.
  \<^item> \<open>Work_Selector\<close> (\<^verbatim>\<open>selectWorkWaiter\<close>, \<^verbatim>\<open>selectFIFOWorkWaiter\<close>): who may be admitted next. The
    contract of a selector is the locale \<open>queue_selector\<close>, interpreted for both policies here and for
    the promoted and configured selectors in \<open>Work_Override\<close>.
  \<^item> \<open>Work_Event\<close> (\<^verbatim>\<open>workevent.go\<close>): the ledger of lifecycle events, validation, durable idempotent
    append, the lifecycle automaton and the tolerant partition of a damaged ledger.
  \<^item> \<open>Pressure_Level\<close> (\<^verbatim>\<open>types.go\<close>): the four ordered levels.
  \<^item> \<open>Work_Host\<close> (\<^verbatim>\<open>worklease.go\<close>): the coordinator's configuration, its probes of the host, and the
    verified-green window that lets express work overcommit.
  \<^item> \<open>Work_Override\<close> (\<^verbatim>\<open>workoverride.go\<close>): the operator's promotion sequence.
  \<^item> \<open>Admission_Hold\<close> (\<^verbatim>\<open>workadmissionhold.go\<close>): published holds and the shared, time-paced latch.
  \<^item> \<open>Work_Reconcile\<close> (\<^verbatim>\<open>worklease.go\<close>: \<^verbatim>\<open>reconcile\<close>): validation, expiry and normalisation of the
    document at the start of every transaction.
  \<^item> \<open>Work_Coordinator\<close> (\<^verbatim>\<open>worklease.go\<close>: \<^verbatim>\<open>withState\<close> and the operations on it): acquire, register,
    try, wait, cancel, bind, park, reserve, release, drop, and the operator's operations.
  \<^item> \<open>Work_Safety\<close>, \<open>Work_Capacity\<close>, \<open>Work_Ownership\<close>: three contracts of a transaction, each a locale
    interpreted on every mutation of the coordinator: \<open>sound_mutation\<close> (the document stays acceptable),
    \<open>bounded_mutation\<close> (the weight stays under the ceiling), \<open>conserving_mutation\<close> (a live operation
    keeps its place). The last two extend the first.
  \<^item> \<open>Work_System\<close>: the operations of any number of processes as one step relation on the store, and
    its reachable stores.
  \<^item> \<open>Work_Status\<close> (\<^verbatim>\<open>worklease.go\<close>: \<^verbatim>\<open>status\<close>): the projection operators see.
  \<^item> \<open>Pressure_Policy\<close> (\<^verbatim>\<open>policy.go\<close>, \<^verbatim>\<open>policy_profiles.go\<close>): the policy, its validation, the migrations
    of loading, saving and the named profiles.
  \<^item> \<open>Pressure_Evaluate\<close> (\<^verbatim>\<open>types.go\<close>, \<^verbatim>\<open>controller.go\<close>): the pressure ladder over a snapshot, the
    resident's own budgets, storage hysteresis, and the controller's floors.
  \<^item> \<open>Pressure_Admission\<close> (\<^verbatim>\<open>types.go\<close>, \<^verbatim>\<open>admission.go\<close>, \<^verbatim>\<open>storage.go\<close>): what a snapshot admits for work
    and for agent launches, queue backpressure, reuse of the resident's sample, storage admission.
  \<^item> \<open>Swap_Thrash\<close> (\<^verbatim>\<open>swap_io.go\<close>): rates from 64-bit kernel counters, the thrash latch, attribution of
    an episode to agents or to outside demand, its recorded transitions.
  \<^item> \<open>Admission_Gate\<close> (\<^verbatim>\<open>workrun.go\<close>, \<^verbatim>\<open>workfastlane.go\<close>, \<^verbatim>\<open>workderating.go\<close>): one poll of the pre-queue
    gate, with its immediate and latched paths, the fast lane, both derates and the storage grace.
  \<^item> \<open>Idle_Park\<close> (\<^verbatim>\<open>workidle.go\<close>): the detector that releases the weight of an idle process group and
    the loop that keeps it in agreement with the coordinator.
  \<^item> \<open>Work_Measures\<close> (\<^verbatim>\<open>workevent.go\<close>, \<^verbatim>\<open>workleasecpu.go\<close>): the statistics of the reports.
  \<^item> \<open>Work_Replay\<close> (\<^verbatim>\<open>workreplay.go\<close>): a ledger replayed on a simulated host under three queue policies,
    and the gates a scheduling policy has to pass before its promotion.
  \<^item> \<open>Wait_Attribution\<close> (\<^verbatim>\<open>workwaitattribution.go\<close>): why operations waited, by cause and by burst.
  \<^item> \<open>Swap_Derate_Cost\<close> (\<^verbatim>\<open>workswapderate.go\<close>): what the thrash derate cost, and the history of thrash
    episodes rebuilt from the transitions that \<open>Swap_Thrash\<close> records.
  \<^item> \<open>Work_Summary\<close> (\<^verbatim>\<open>workevent.go\<close>: \<^verbatim>\<open>SummarizeWorkEvents\<close>, \<^verbatim>\<open>workleasecpu.go\<close>): the summary of a
    ledger. The contract of a signal that counts operations is the locale \<open>counted_signal\<close>, interpreted
    for every signal of that kind.
  \<^item> \<open>Disk_Histogram\<close>, \<open>Disk_History\<close> (\<^verbatim>\<open>disk_write_store.go\<close>): the histograms of the disk-write baseline,
    the hourly records with their files, and the history a reader is given.
  \<^item> \<open>Disk_Observer\<close>, \<open>Disk_Sample\<close> (\<^verbatim>\<open>disk_write.go\<close>): windows, writers and classification; alerts, hours,
    the whole sample, the restart from the files, and a resident's run as a list of events.
  \<^item> \<open>Disk_Write\<close>, \<open>Disk_Account\<close>, \<open>Disk_Invariant\<close>, \<open>Disk_Shape\<close>: its alerts, what trains its baseline,
    its transitions and byte counts, and the shape of its state.
  \<^item> \<open>Work_Drain\<close> (\<^verbatim>\<open>worklease.go\<close>): polls of the queue and ends of leases while a protected head waits.
  \<^item> \<open>Swap_Proof\<close> (\<^verbatim>\<open>swap_io.go\<close>): when the derate of a thrash episode is lifted, read off the history of
    samples.
  \<^item> \<open>Step_System\<close>: runs of a deterministic step function and their pacing, shared by the theories below.
  \<^item> \<open>File_Lock\<close> (\<^verbatim>\<open>internal/filelock\<close>, \<^verbatim>\<open>internal/lockfile\<close>): processes that race for one sidecar file.
    \<open>Lock_Queue\<close> (\<^verbatim>\<open>internal/filelock\<close>): the queue of one process in front of it.
  \<^item> \<open>Action_Ledger\<close> (\<^verbatim>\<open>telemetry.go\<close>, \<^verbatim>\<open>internal/jsonl\<close>): the audit rows of automatic actions, whole and
    partial appends, the strict read, pruning.
  \<^item> \<open>Resident_Relief\<close> (\<^verbatim>\<open>monitor.go\<close>): quiescence, the choice of a tree to end, its revalidation and its
    signals. \<open>Claimed_Process\<close> (\<^verbatim>\<open>resource_cleanup.go\<close>): the same for a tree that a claim names.
  \<^item> \<open>Memory_Momentum\<close> (\<^verbatim>\<open>momentum.go\<close>), \<open>Monitor_Stats\<close> (\<^verbatim>\<open>monitor.go\<close>, \<^verbatim>\<open>telemetry.go\<close>): the trend of free
    memory and the rolling statistics of the resident.
  \<^item> \<open>Resident_Monitor\<close> (\<^verbatim>\<open>monitor.go\<close>): restart, one iteration and the loop. \<open>Ledger_Recovery\<close>: what a restart
    recovers from the ledger, and what a partial row does to it.

  \<^bold>\<open>What is proved.\<close>
  On the coordinator: in every history of operations by any number of processes the charged weight stays
  within the capacity plus the green overcommit while no parked lease is woken; no reachable document is
  refused by a later transaction; an operation leased or queued by a live process is never lost;
  reconciliation is idempotent, keeps exactly what a living process owns, and never invents a second
  outcome. On the queue: both selectors stay within the ceiling, first-fit is exact, nothing but express
  riders overtakes a protected head, and under any interleaving the head is selected once the leases it
  found have ended. On the ledger: retried appends of a stamped event write one row, accepted lifecycles have one outcome, damage to one operation's rows never
  rejects another's. On the evidence: only memory reaches critical, worse evidence never lowers the level,
  admission is characterised exactly, the thrash latch is a function of the recent samples and is
  reconstructed by its recorded transitions, and its derate is lifted exactly when the history proves
  demand from outside. On the gate: refusals off the CPU dimension always stand, the
  fast lane and the derates act on exactly their evidence, and a storage wait without progress ends. On
  parking: a lease is parked only after sustained idleness and the detector never disagrees with the
  coordinator. On the policy: what loads saves and loads back unchanged.
  On the resident: only trees that twice proved quiet are signalled, on a critical host, a cooldown apart
  over restarts, and a rejected tree stays rejected over a restart; the ledger is read whole or not at
  all, so a partial row stops every later start. On the locks: from a quiet moment on, and while no
  verdict is overtaken, at most one process holds a file lock; a queue in front of it never stalls.
  On the reports: the replay returns on every ledger, admits every job and keeps the capacity and the
  bypass limit; the causes of wait add up to the wait; the summary counts every operation,
  outcome and runtime sample once; the report of thrash episodes gives exactly the
  time the latch was set and the derate lifted. On the disk observer: at most four alerts a day across
  restarts and failed writes, only quiet windows train the baseline, the reported bytes are those of the
  device's counter, and the state keeps its shape from any files on; the history accounts for every
  record once.

  \<^bold>\<open>How it is modelled.\<close>
  Times are integers of nanoseconds with Go's zero time as 0; durations saturate as \<^verbatim>\<open>time.Sub\<close> does.
  Kernel counters and byte counts are 64-bit words; other machine integers stay far from their bounds in the code and are
  \<open>int\<close>. Percentages and rates, \<^verbatim>\<open>float64\<close> in the source, are rational, so rounding is not modelled. JSON
  text is abstracted to the record of its fields, with a missing, unreadable or undecodable file as
  separate cases. Everything the host decides is an argument: clock readings, process probes and
  identities, random identities, whether the lock is obtained and whether each write succeeds. A
  transaction is one atomic step because the source holds the state lock throughout it. Waiting loops
  take the list of their attempts, one element per round with what the host answered in it; the results
  are stated for every such list, and the list ends when the context of the caller is done. No model uses
  fuel: the replay loop is a \<open>partial_function\<close> that is proved to return, and its admission round is
  bounded by the length of the queue, from which each admission takes one job.

  \<^bold>\<open>Limits of single results.\<close> The drain of a protected head is without parked leases and operator pins. The
  derate is over a run that had no episode to resume. A write of an event row that fails is taken to
  leave the file as it was, and the day of a time is the same in every call (one time zone); of an
  action row every partial write is modelled. Texts are ASCII, so bounding by characters is bounding by
  bytes. File locks assume atomic create, link and unlink and no reuse of a process identifier while a
  process of the model lives.

  \<^bold>\<open>Not modelled.\<close>
  System probes and process control (samplers, launchd, signals, output streams), the recognition of
  express commands and agents by their command lines, cleanup of files, the control server and the command line. The manifest lists each with its reason.
\<close>

end
